(* ===== verification/KWin_Prelude.thy ===== *)
theory KWin_Prelude
  imports Main "HOL-Library.Word" "HOL-Library.Multiset"
begin

text \<open>
  Shared vocabulary of the development.

  \<^item> Outcomes. A C++ operation that can fail an assertion, dereference a null pointer, read a
    container out of range, divide by zero or loop for ever is a function into
    \<open>'a outcome\<close>; every such point of the source is a branch that yields \<open>Faults\<close> (or
    \<open>Diverges\<close> for a loop that does not end). Operations without such a point are plain
    functions.
  \<^item> Containers. \<open>QList\<close>, \<open>QVector\<close>, \<open>std::vector\<close> and \<open>std::deque\<close> are lists.
    \<open>removeAll\<close> of HOL is both \<open>QList::removeAll\<close> and the template
    \<open>remove_all\<close> of \<^verbatim>\<open>utils.h\<close>; \<open>insert_at\<close> is \<open>insert(i, x)\<close>.
  \<^item> Objects are addresses (\<open>nat\<close>) into an explicit store, pointers that may be null are
    \<open>addr option\<close>.
\<close>

named_theorems kwin_defs \<open>definitions unfolded when a component is evaluated on a concrete state\<close>
named_theorems kwin_frame \<open>which fields an operation leaves alone\<close>

section \<open>Outcomes\<close>

datatype fault = AssertFailed | OutOfRange | NullDeref | DivByZero

datatype 'a outcome = Returns 'a | Faults fault | Diverges

primrec obind :: "'a outcome \<Rightarrow> ('a \<Rightarrow> 'b outcome) \<Rightarrow> 'b outcome" where
  "obind (Returns x) f = f x"
| "obind (Faults e) f = Faults e"
| "obind Diverges f = Diverges"

definition oassert :: "bool \<Rightarrow> 'a outcome \<Rightarrow> 'a outcome" where
  "oassert b m = (if b then m else Faults AssertFailed)"

definition of_loop :: "'a outcome option \<Rightarrow> 'a outcome" where
  "of_loop r = (case r of None \<Rightarrow> Diverges | Some x \<Rightarrow> x)"

lemma obind_eq_Returns [simp]:
  "obind m f = Returns y \<longleftrightarrow> (\<exists>x. m = Returns x \<and> f x = Returns y)"
  by (cases m) auto

lemma obind_assoc: "obind (obind m f) g = obind m (\<lambda>x. obind (f x) g)"
  by (cases m) auto

lemma oassert_eq_Returns [simp]: "oassert b m = Returns y \<longleftrightarrow> b \<and> m = Returns y"
  by (simp add: oassert_def)

lemma oassert_True [simp]: "oassert True m = m"
  by (simp add: oassert_def)

lemma oassert_False [simp]: "oassert False m = Faults AssertFailed"
  by (simp add: oassert_def)

lemma of_loop_simps [simp]: "of_loop None = Diverges" "of_loop (Some x) = x"
  by (simp_all add: of_loop_def)

text \<open>A loop over a container whose body may fail.\<close>

primrec ofold :: "('a \<Rightarrow> 's \<Rightarrow> 's outcome) \<Rightarrow> 'a list \<Rightarrow> 's \<Rightarrow> 's outcome" where
  "ofold f [] s = Returns s"
| "ofold f (x # xs) s = obind (f x s) (ofold f xs)"

lemma ofold_invariant:
  assumes "\<And>x s s'. x \<in> set xs \<Longrightarrow> P s \<Longrightarrow> f x s = Returns s' \<Longrightarrow> P s'" and "P s" and "ofold f xs s = Returns s'"
  shows "P s'"
  using assms
proof (induction xs arbitrary: s)
  case (Cons x xs)
  from Cons.prems(3) obtain t where t: "f x s = Returns t" "ofold f xs t = Returns s'" by auto
  have "P t" using Cons.prems(1) [of x s t] Cons.prems(2) t(1) by simp
  from _ this t(2) show ?case by (rule Cons.IH) (use Cons.prems(1) in auto)
qed simp

lemma ofold_returns:
  assumes "\<And>x s. x \<in> set xs \<Longrightarrow> P s \<Longrightarrow> \<exists>s'. f x s = Returns s' \<and> P s'" and "P s"
  shows "\<exists>s'. ofold f xs s = Returns s' \<and> P s'"
  using assms
proof (induction xs arbitrary: s)
  case (Cons x xs)
  from Cons.prems(1) [of x s] Cons.prems(2) obtain t where t: "f x s = Returns t" "P t" by auto
  from _ t(2) have "\<exists>s'. ofold f xs t = Returns s' \<and> P s'" by (rule Cons.IH) (use Cons.prems(1) in auto)
  with t(1) show ?case by simp
qed simp

section \<open>Containers\<close>

type_synonym addr = nat

definition insert_at :: "nat \<Rightarrow> 'a \<Rightarrow> 'a list \<Rightarrow> 'a list" where
  "insert_at i x xs = take i xs @ x # drop i xs"

lemma length_insert_at [simp]: "length (insert_at i x xs) = Suc (length xs)"
  by (simp add: insert_at_def)

lemma set_insert_at [simp]: "set (insert_at i x xs) = insert x (set xs)"
proof -
  have "set (take i xs) \<union> set (drop i xs) = set xs"
    by (metis append_take_drop_id set_append)
  then show ?thesis by (auto simp: insert_at_def)
qed

lemma mset_insert_at [simp]: "mset (insert_at i x xs) = add_mset x (mset xs)"
proof -
  have "mset (take i xs) + mset (drop i xs) = mset xs"
    by (metis append_take_drop_id mset_append)
  then show ?thesis by (simp add: insert_at_def)
qed

lemma distinct_insert_at [simp]: "distinct (insert_at i x xs) \<longleftrightarrow> x \<notin> set xs \<and> distinct xs"
proof -
  have "distinct (insert_at i x xs) \<longleftrightarrow> distinct (x # xs)"
    by (intro mset_eq_imp_distinct_iff) simp
  then show ?thesis by simp
qed

lemma removeAll_insert_at [simp]:
  assumes "x \<notin> set xs"
  shows "removeAll x (insert_at i x xs) = xs"
proof -
  have "x \<notin> set (take i xs)" and "x \<notin> set (drop i xs)"
    using assms by (auto dest: in_set_takeD in_set_dropD)
  then show ?thesis by (simp add: insert_at_def)
qed

definition remove_nth :: "nat \<Rightarrow> 'a list \<Rightarrow> 'a list" where
  "remove_nth i xs = take i xs @ drop (Suc i) xs"

lemma length_remove_nth [simp]: "i < length xs \<Longrightarrow> length (remove_nth i xs) = length xs - 1"
  by (simp add: remove_nth_def)

lemma remove_nth_eq_removeAll:
  assumes "distinct xs" and "i < length xs"
  shows "remove_nth i xs = removeAll (xs ! i) xs"
proof -
  have split: "xs = take i xs @ xs ! i # drop (Suc i) xs"
    using assms(2) by (rule id_take_nth_drop)
  then have "distinct (take i xs @ xs ! i # drop (Suc i) xs)" using assms(1) by simp
  then have "xs ! i \<notin> set (take i xs)" "xs ! i \<notin> set (drop (Suc i) xs)"
    by auto
  then have "removeAll (xs ! i) (take i xs @ xs ! i # drop (Suc i) xs) = remove_nth i xs"
    by (simp add: remove_nth_def)
  with split show ?thesis by simp
qed

lemma distinct_count_list: "distinct xs \<Longrightarrow> count_list xs x = (if x \<in> set xs then 1 else 0)"
  by (induction xs) auto

lemma mset_eq_count_list: "mset xs = mset ys \<longleftrightarrow> (\<forall>x. count_list xs x = count_list ys x)"
proof -
  have "count (mset zs) x = count_list zs x" for zs and x :: 'a by (induction zs) auto
  then show ?thesis by (metis multiset_eqI)
qed

text \<open>\<open>std::find\<close> and \<open>QList::indexOf\<close> as the index of the first match.\<close>

fun index_of :: "'a \<Rightarrow> 'a list \<Rightarrow> nat option" where
  "index_of x [] = None"
| "index_of x (y # ys) = (if x = y then Some 0 else map_option Suc (index_of x ys))"

lemma index_of_None: "index_of x xs = None \<longleftrightarrow> x \<notin> set xs"
  by (induction xs) auto

lemma index_of_notin [simp]: "x \<notin> set xs \<Longrightarrow> index_of x xs = None"
  by (simp add: index_of_None)

lemma index_of_SomeD: "index_of x xs = Some i \<Longrightarrow> i < length xs \<and> xs ! i = x \<and> x \<notin> set (take i xs)"
  by (induction xs arbitrary: i) (auto split: if_splits)

lemma index_of_nth: "distinct xs \<Longrightarrow> i < length xs \<Longrightarrow> index_of (xs ! i) xs = Some i"
  by (induction xs arbitrary: i) (auto simp: nth_Cons split: nat.splits)

text \<open>\<open>qBound(min, val, max)\<close> of Qt 5 is \<open>qMax(min, qMin(max, val))\<close>.\<close>

definition qBound :: "'a::linorder \<Rightarrow> 'a \<Rightarrow> 'a \<Rightarrow> 'a" where
  "qBound lo v hi = max lo (min hi v)"

lemma qBound_bounds: "lo \<le> hi \<Longrightarrow> lo \<le> qBound lo v hi \<and> qBound lo v hi \<le> hi"
  by (auto simp: qBound_def)

end
