(* ===== verification/VirtualDesktops.thy ===== *)
theory VirtualDesktops
  imports KWin_Prelude
begin

text \<open>
  The virtual desktops of \<^verbatim>\<open>virtualdesktops.cpp\<close> and \<^verbatim>\<open>virtualdesktops.h\<close>: the class
  \<open>VirtualDesktop\<close> (an object in the store), the class \<open>VirtualDesktopGrid\<close> and the
  singleton \<open>VirtualDesktopManager\<close> with its navigation, creation and removal, layout, load
  and save.

  Third-party parties are parameters of the operations, collected in \<open>vd_env\<close>: the ids made
  by \<open>QUuid\<close>, the translated default name, what \<open>NETRootInfo\<close> answers (as a function of the
  calls made on it so far), and the operations of the \<open>KConfigGroup\<close> "Desktops". Signals and
  calls on \<open>NETRootInfo\<close> are appended to a log, so their order is part of the model.
\<close>

section \<open>State\<close>

record virtual_desktop =
  vd_id :: string
  vd_name :: string
  vd_x11DesktopNumber :: nat

datatype orientation = Horizontal | Vertical

text \<open>The keys of the group "Desktops": \<open>Number\<close>, \<open>Rows\<close>, \<open>Name_%1\<close>, \<open>Id_%1\<close>.\<close>

datatype desktop_key = KNumber | KRows | KName nat | KId nat

datatype vd_event =
    NameChanged addr
  | X11DesktopNumberChanged addr
  | CountChanged nat nat
  | RowsChanged nat
  | DesktopCreated addr
  | DesktopRemoved addr
  | CurrentChanged nat nat
  | LayoutChanged int int
  | NavigationWrappingAroundChanged
  | DeleteLater addr
  | RootSetDesktopName nat string
  | RootSetNumberOfDesktops nat
  | RootSetDesktopViewport nat
  | RootSetDesktopLayout int nat
  | RootSetCurrentDesktop nat
  | RootActivate

record 'c kconfig =
  kc_hasKey :: "'c \<Rightarrow> desktop_key \<Rightarrow> bool"
  kc_readInt :: "'c \<Rightarrow> desktop_key \<Rightarrow> int \<Rightarrow> int"
  kc_readStr :: "'c \<Rightarrow> desktop_key \<Rightarrow> string \<Rightarrow> string"
  kc_writeInt :: "'c \<Rightarrow> desktop_key \<Rightarrow> int \<Rightarrow> 'c"
  kc_writeStr :: "'c \<Rightarrow> desktop_key \<Rightarrow> string \<Rightarrow> 'c"
  kc_deleteEntry :: "'c \<Rightarrow> desktop_key \<Rightarrow> 'c"
  kc_sync :: "'c \<Rightarrow> 'c"

record 'c vd_env =
  env_generateDesktopId :: "nat \<Rightarrow> string"
  env_defaultName :: "nat \<Rightarrow> string"
  env_layoutColumns :: "vd_event list \<Rightarrow> int"
  env_layoutRows :: "vd_event list \<Rightarrow> int"
  env_layoutOrientation :: "vd_event list \<Rightarrow> orientation"
  env_desktopName :: "vd_event list \<Rightarrow> nat \<Rightarrow> string"
  env_kconfig :: "'c kconfig"

record 'c vdm =
  vm_heap :: "addr \<Rightarrow> virtual_desktop"
  vm_fresh :: addr
  vm_ids :: nat
  vm_desktops :: "addr list"
  vm_current :: "addr option"
  vm_rows :: nat
  vm_navigationWrapsAround :: bool
  vm_size :: "int \<times> int"
  vm_grid :: "addr list list"
  vm_rootInfo :: bool
  vm_config :: "'c option"
  vm_loading :: bool
  vm_log :: "vd_event list"

text \<open>The constructors of the manager and of its grid (two empty rows).\<close>

definition vdm_init :: "'c vdm" where
  "vdm_init = \<lparr>vm_heap = (\<lambda>_. \<lparr>vd_id = [], vd_name = [], vd_x11DesktopNumber = 0\<rparr>),
     vm_fresh = 0, vm_ids = 0, vm_desktops = [], vm_current = None, vm_rows = 2,
     vm_navigationWrapsAround = False, vm_size = (1, 2), vm_grid = [[], []],
     vm_rootInfo = False, vm_config = None, vm_loading = False, vm_log = []\<rparr>"

definition emit :: "vd_event \<Rightarrow> 'c vdm \<Rightarrow> 'c vdm" where
  "emit e s = s\<lparr>vm_log := vm_log s @ [e]\<rparr>"

definition root_call :: "vd_event \<Rightarrow> 'c vdm \<Rightarrow> 'c vdm" where
  "root_call e s = (if vm_rootInfo s then emit e s else s)"

definition vdm_count :: "'c vdm \<Rightarrow> nat" where
  "vdm_count s = length (vm_desktops s)"

definition vdm_maximum :: nat where
  "vdm_maximum = 20"

section \<open>The desktop objects\<close>

definition vd_new :: "'c vdm \<Rightarrow> addr \<times> 'c vdm" where
  "vd_new s = (vm_fresh s,
     s\<lparr>vm_heap := (vm_heap s)(vm_fresh s := \<lparr>vd_id = [], vd_name = [], vd_x11DesktopNumber = 0\<rparr>),
       vm_fresh := Suc (vm_fresh s)\<rparr>)"

definition vd_upd :: "addr \<Rightarrow> (virtual_desktop \<Rightarrow> virtual_desktop) \<Rightarrow> 'c vdm \<Rightarrow> 'c vdm" where
  "vd_upd a f s = s\<lparr>vm_heap := (vm_heap s)(a := f (vm_heap s a))\<rparr>"

text \<open>\<open>Q_ASSERT(m_id.isEmpty())\<close> guards the id: it is set once.\<close>

definition vd_setId :: "addr \<Rightarrow> string \<Rightarrow> 'c vdm \<Rightarrow> 'c vdm outcome" where
  "vd_setId a i s =
     oassert (vd_id (vm_heap s a) = []) (Returns (vd_upd a (\<lambda>d. d\<lparr>vd_id := i\<rparr>) s))"

definition vd_setX11DesktopNumber :: "addr \<Rightarrow> nat \<Rightarrow> 'c vdm \<Rightarrow> 'c vdm" where
  "vd_setX11DesktopNumber a n s =
     (if vd_x11DesktopNumber (vm_heap s a) = n then s
      else let s1 = vd_upd a (\<lambda>d. d\<lparr>vd_x11DesktopNumber := n\<rparr>) s
           in if n \<noteq> 0 then emit (X11DesktopNumberChanged a) s1 else s1)"

text \<open>
  \<open>connected\<close> says whether the manager has connected its lambda to \<open>nameChanged\<close> yet: the
  lambda forwards the new name to \<open>NETRootInfo\<close>. Both creators set the name first and
  connect afterwards.
\<close>

definition vd_setName :: "bool \<Rightarrow> addr \<Rightarrow> string \<Rightarrow> 'c vdm \<Rightarrow> 'c vdm" where
  "vd_setName connected a n s =
     (if vd_name (vm_heap s a) = n then s
      else let s1 = emit (NameChanged a) (vd_upd a (\<lambda>d. d\<lparr>vd_name := n\<rparr>) s)
           in if connected
              then root_call (RootSetDesktopName (vd_x11DesktopNumber (vm_heap s1 a)) n) s1
              else s1)"

definition vdm_generateDesktopId :: "'c vd_env \<Rightarrow> 'c vdm \<Rightarrow> string \<times> 'c vdm" where
  "vdm_generateDesktopId E s = (env_generateDesktopId E (vm_ids s), s\<lparr>vm_ids := Suc (vm_ids s)\<rparr>)"

section \<open>The grid\<close>

text \<open>
  \<open>VirtualDesktopGrid::update\<close>. Horizontally, every row takes the next \<open>width\<close> desktops;
  vertically, every column deals the next \<open>height\<close> desktops to the rows.
\<close>

fun grid_horizontal :: "nat \<Rightarrow> nat \<Rightarrow> 'a list \<Rightarrow> 'a list list" where
  "grid_horizontal w 0 ds = []"
| "grid_horizontal w (Suc h) ds = take w ds # grid_horizontal w h (drop w ds)"

fun grid_deal :: "'a list list \<Rightarrow> 'a list \<Rightarrow> 'a list list \<times> 'a list" where
  "grid_deal [] ds = ([], ds)"
| "grid_deal (r # rs) [] = (r # rs, [])"
| "grid_deal (r # rs) (d # ds) = (case grid_deal rs ds of (rs', ds') \<Rightarrow> ((r @ [d]) # rs', ds'))"

fun grid_vertical :: "nat \<Rightarrow> 'a list list \<Rightarrow> 'a list \<Rightarrow> 'a list list" where
  "grid_vertical 0 g ds = g"
| "grid_vertical (Suc w) g ds = (case grid_deal g ds of (g', ds') \<Rightarrow> grid_vertical w g' ds')"

definition grid_update :: "nat \<Rightarrow> nat \<Rightarrow> orientation \<Rightarrow> 'a list \<Rightarrow> 'a list list" where
  "grid_update w h ori ds =
     (case ori of Horizontal \<Rightarrow> grid_horizontal w h ds
      | Vertical \<Rightarrow> grid_vertical w (replicate h []) ds)"

fun grid_coords_from :: "'a \<Rightarrow> int \<Rightarrow> 'a list list \<Rightarrow> int \<times> int" where
  "grid_coords_from d y [] = (-1, -1)"
| "grid_coords_from d y (row # rows) =
     (case index_of d row of Some x \<Rightarrow> (int x, y) | None \<Rightarrow> grid_coords_from d (y + 1) rows)"

definition grid_gridCoords :: "'a list list \<Rightarrow> 'a \<Rightarrow> int \<times> int" where
  "grid_gridCoords g d = grid_coords_from d 0 g"

text \<open>
  \<open>VirtualDesktopGrid::at\<close>: too large a coordinate gives a null pointer, a negative one is
  passed to \<open>QVector::at\<close>, whose precondition it violates.
\<close>

definition grid_at :: "'a list list \<Rightarrow> int \<times> int \<Rightarrow> 'a option outcome" where
  "grid_at g p =
     (let x = fst p; y = snd p in
      if y \<ge> int (length g) then Returns None
      else if y < 0 then Faults OutOfRange
      else let row = g ! nat y in
        if x \<ge> int (length row) then Returns None
        else if x < 0 then Faults OutOfRange
        else Returns (Some (row ! nat x)))"

section \<open>Queries and navigation\<close>

definition vdm_current :: "'c vdm \<Rightarrow> nat" where
  "vdm_current s =
     (case vm_current s of None \<Rightarrow> 0 | Some d \<Rightarrow> vd_x11DesktopNumber (vm_heap s d))"

definition vdm_desktopForX11Id :: "'c vdm \<Rightarrow> nat \<Rightarrow> addr option" where
  "vdm_desktopForX11Id s i =
     (if i = 0 \<or> i > vdm_count s then None else Some (vm_desktops s ! (i - 1)))"

definition vdm_desktopForId :: "'c vdm \<Rightarrow> string \<Rightarrow> addr option" where
  "vdm_desktopForId s i = find (\<lambda>d. vd_id (vm_heap s d) = i) (vm_desktops s)"

text \<open>\<open>desktop - 1\<close> is computed on \<open>uint\<close>: desktop 0 wraps to the largest value.\<close>

definition vdm_name :: "'c vd_env \<Rightarrow> 'c vdm \<Rightarrow> nat \<Rightarrow> string" where
  "vdm_name E s desktop =
     (let k = (desktop + (2 ^ 32 - 1)) mod 2 ^ 32 in
      if length (vm_desktops s) > k then vd_name (vm_heap s (vm_desktops s ! k))
      else if \<not> vm_rootInfo s then env_defaultName E desktop
      else env_desktopName E (vm_log s) desktop)"

text \<open>
  The endless loop that \<open>above\<close>, \<open>below\<close>, \<open>toLeft\<close> and \<open>toRight\<close> share: move one
  cell (\<open>step\<close>); when this leaves the grid (\<open>out\<close>), jump to the opposite side (\<open>jump\<close>) or,
  without wrapping, return the desktop we started from; return the first cell that is not
  empty. Every one of the four instantiates it the way its source body reads.
\<close>

partial_function (option) navigate ::
  "(int \<times> int \<Rightarrow> int \<times> int) \<Rightarrow> (int \<times> int \<Rightarrow> bool) \<Rightarrow> (int \<times> int \<Rightarrow> int \<times> int) \<Rightarrow>
   'a list list \<Rightarrow> bool \<Rightarrow> 'a \<Rightarrow> int \<times> int \<Rightarrow> 'a outcome option" where
  "navigate step out jump g wrap d p =
     (let q = step p in
      if out q \<and> \<not> wrap then Some (Returns d)
      else let r = (if out q then jump q else q) in
        case grid_at g r of
          Returns None \<Rightarrow> navigate step out jump g wrap d r
        | Returns (Some v) \<Rightarrow> Some (Returns v)
        | Faults f \<Rightarrow> Some (Faults f)
        | Diverges \<Rightarrow> Some Diverges)"

definition vdm_start :: "'c vdm \<Rightarrow> addr option \<Rightarrow> (addr \<Rightarrow> int \<times> int \<Rightarrow> 'a outcome) \<Rightarrow> 'a outcome" where
  "vdm_start s desktop k =
     (case vm_current s of None \<Rightarrow> Faults AssertFailed
      | Some cur \<Rightarrow>
          let d = (case desktop of None \<Rightarrow> cur | Some d \<Rightarrow> d);
              p = grid_gridCoords (vm_grid s) d
          in oassert (fst p \<ge> 0) (k d p))"

definition vdm_above :: "'c vdm \<Rightarrow> addr option \<Rightarrow> bool \<Rightarrow> addr outcome" where
  "vdm_above s desktop wrap = vdm_start s desktop (\<lambda>d p.
     of_loop (navigate (\<lambda>(x, y). (x, y - 1)) (\<lambda>(x, y). y < 0)
       (\<lambda>(x, y). (x, snd (vm_size s) - 1)) (vm_grid s) wrap d p))"

definition vdm_toRight :: "'c vdm \<Rightarrow> addr option \<Rightarrow> bool \<Rightarrow> addr outcome" where
  "vdm_toRight s desktop wrap = vdm_start s desktop (\<lambda>d p.
     of_loop (navigate (\<lambda>(x, y). (x + 1, y)) (\<lambda>(x, y). x \<ge> fst (vm_size s))
       (\<lambda>(x, y). (0, y)) (vm_grid s) wrap d p))"

definition vdm_below :: "'c vdm \<Rightarrow> addr option \<Rightarrow> bool \<Rightarrow> addr outcome" where
  "vdm_below s desktop wrap = vdm_start s desktop (\<lambda>d p.
     of_loop (navigate (\<lambda>(x, y). (x, y + 1)) (\<lambda>(x, y). y \<ge> snd (vm_size s))
       (\<lambda>(x, y). (x, 0)) (vm_grid s) wrap d p))"

definition vdm_toLeft :: "'c vdm \<Rightarrow> addr option \<Rightarrow> bool \<Rightarrow> addr outcome" where
  "vdm_toLeft s desktop wrap = vdm_start s desktop (\<lambda>d p.
     of_loop (navigate (\<lambda>(x, y). (x - 1, y)) (\<lambda>(x, y). x < 0)
       (\<lambda>(x, y). (fst (vm_size s) - 1, y)) (vm_grid s) wrap d p))"

definition vdm_next :: "'c vdm \<Rightarrow> addr option \<Rightarrow> bool \<Rightarrow> addr outcome" where
  "vdm_next s desktop wrap =
     (case vm_current s of None \<Rightarrow> Faults AssertFailed
      | Some cur \<Rightarrow>
          let d = (case desktop of None \<Rightarrow> cur | Some d \<Rightarrow> d) in
          case index_of d (vm_desktops s) of None \<Rightarrow> Faults AssertFailed
          | Some i \<Rightarrow>
              if Suc i = length (vm_desktops s)
              then Returns (if wrap then vm_desktops s ! 0 else d)
              else Returns (vm_desktops s ! Suc i))"

definition vdm_previous :: "'c vdm \<Rightarrow> addr option \<Rightarrow> bool \<Rightarrow> addr outcome" where
  "vdm_previous s desktop wrap =
     (case vm_current s of None \<Rightarrow> Faults AssertFailed
      | Some cur \<Rightarrow>
          let d = (case desktop of None \<Rightarrow> cur | Some d \<Rightarrow> d) in
          case index_of d (vm_desktops s) of None \<Rightarrow> Faults AssertFailed
          | Some i \<Rightarrow>
              if i = 0 then Returns (if wrap then last (vm_desktops s) else d)
              else Returns (vm_desktops s ! (i - 1)))"

text \<open>The overloads on X11 numbers.\<close>

definition vdm_by_number ::
  "('c vdm \<Rightarrow> addr option \<Rightarrow> bool \<Rightarrow> addr outcome) \<Rightarrow> 'c vdm \<Rightarrow> nat \<Rightarrow> bool \<Rightarrow> nat outcome" where
  "vdm_by_number dir s i wrap =
     obind (dir s (vdm_desktopForX11Id s i) wrap)
       (\<lambda>d. Returns (vd_x11DesktopNumber (vm_heap s d)))"

section \<open>The current desktop\<close>

definition vdm_setCurrent :: "addr \<Rightarrow> 'c vdm \<Rightarrow> bool \<times> 'c vdm" where
  "vdm_setCurrent d s =
     (if vm_current s = Some d then (False, s)
      else (True, emit (CurrentChanged (vdm_current s) (vd_x11DesktopNumber (vm_heap s d)))
                    (s\<lparr>vm_current := Some d\<rparr>)))"

definition vdm_setCurrent_number :: "nat \<Rightarrow> 'c vdm \<Rightarrow> (bool \<times> 'c vdm) outcome" where
  "vdm_setCurrent_number n s =
     (if n < 1 \<or> n > vdm_count s \<or> n = vdm_current s then Returns (False, s)
      else case vdm_desktopForX11Id s n of None \<Rightarrow> Faults AssertFailed
           | Some d \<Rightarrow> Returns (vdm_setCurrent d s))"

definition vdm_moveTo ::
  "('c vdm \<Rightarrow> addr option \<Rightarrow> bool \<Rightarrow> addr outcome) \<Rightarrow> bool \<Rightarrow> 'c vdm \<Rightarrow> 'c vdm outcome" where
  "vdm_moveTo dir wrap s = obind (dir s None wrap) (\<lambda>d. Returns (snd (vdm_setCurrent d s)))"

definition vdm_slotNext :: "'c vdm \<Rightarrow> 'c vdm outcome" where
  "vdm_slotNext s = vdm_moveTo vdm_next (vm_navigationWrapsAround s) s"

definition vdm_slotPrevious :: "'c vdm \<Rightarrow> 'c vdm outcome" where
  "vdm_slotPrevious s = vdm_moveTo vdm_previous (vm_navigationWrapsAround s) s"

definition vdm_slotRight :: "'c vdm \<Rightarrow> 'c vdm outcome" where
  "vdm_slotRight s = vdm_moveTo vdm_toRight (vm_navigationWrapsAround s) s"

definition vdm_slotLeft :: "'c vdm \<Rightarrow> 'c vdm outcome" where
  "vdm_slotLeft s = vdm_moveTo vdm_toLeft (vm_navigationWrapsAround s) s"

definition vdm_slotUp :: "'c vdm \<Rightarrow> 'c vdm outcome" where
  "vdm_slotUp s = vdm_moveTo vdm_above (vm_navigationWrapsAround s) s"

definition vdm_slotDown :: "'c vdm \<Rightarrow> 'c vdm outcome" where
  "vdm_slotDown s = vdm_moveTo vdm_below (vm_navigationWrapsAround s) s"

text \<open>
  \<open>slotSwitchTo\<close>: the argument is the sender's data, \<open>None\<close> when the sender is no action or
  its data is no unsigned number.
\<close>

definition vdm_slotSwitchTo :: "nat option \<Rightarrow> 'c vdm \<Rightarrow> 'c vdm outcome" where
  "vdm_slotSwitchTo data s =
     (case data of None \<Rightarrow> Returns s
      | Some i \<Rightarrow> obind (vdm_setCurrent_number i s) (\<lambda>r. Returns (snd r)))"

definition vdm_setNavigationWrappingAround :: "bool \<Rightarrow> 'c vdm \<Rightarrow> 'c vdm" where
  "vdm_setNavigationWrappingAround enabled s =
     (if enabled = vm_navigationWrapsAround s then s
      else emit NavigationWrappingAroundChanged (s\<lparr>vm_navigationWrapsAround := enabled\<rparr>))"

section \<open>Layout\<close>

partial_function (option) grow_layout ::
  "orientation \<Rightarrow> 32 word \<Rightarrow> 32 word \<Rightarrow> 32 word \<Rightarrow> (32 word \<times> 32 word) option" where
  "grow_layout ori cnt w h =
     (if w * h < cnt
      then (case ori of Horizontal \<Rightarrow> grow_layout ori cnt (w + 1) h
            | Vertical \<Rightarrow> grow_layout ori cnt w (h + 1))
      else Some (w, h))"

definition vdm_setNETDesktopLayout ::
  "orientation \<Rightarrow> 32 word \<Rightarrow> 32 word \<Rightarrow> 'c vdm \<Rightarrow> 'c vdm outcome" where
  "vdm_setNETDesktopLayout ori width height s =
     oassert (0 < width \<or> 0 < height)
      (let cnt = of_nat (vdm_count s);
           wh = (if width = 0 \<and> 0 < height then ((cnt + height - 1) div height, height)
                 else if height = 0 \<and> 0 < width then (width, (cnt + width - 1) div width)
                 else (width, height))
       in case grow_layout ori cnt (fst wh) (snd wh) of
            None \<Rightarrow> Diverges
          | Some (w, h) \<Rightarrow> Returns (emit (RowsChanged (unat h)) (emit (LayoutChanged (sint w) (sint h))
              (s\<lparr>vm_rows := max 1 (unat h), vm_size := (sint w, sint h),
                 vm_grid := grid_update (unat w) (unat h) ori (vm_desktops s)\<rparr>))))"

definition vdm_updateLayout :: "'c vd_env \<Rightarrow> 'c vdm \<Rightarrow> 'c vdm outcome" where
  "vdm_updateLayout E s =
     (let rows = min (vm_rows s) (vdm_count s) in
      if rows = 0 then Faults DivByZero
      else
        let columns = int (vdm_count s div rows);
            given = (if vm_rootInfo s
              then (env_layoutColumns E (vm_log s), nat (max 1 (env_layoutRows E (vm_log s))),
                    env_layoutOrientation E (vm_log s))
              else (columns, rows, Horizontal));
            default_rows = (if vdm_count s = 1 then 1 else 2);
            layout = (case given of (c, r, ori) \<Rightarrow>
              if c = 0 then (int (vdm_count s div default_rows), default_rows, ori) else (c, r, ori))
        in case layout of (c, r, ori) \<Rightarrow>
             vdm_setNETDesktopLayout ori (of_int c) (of_nat r) (s\<lparr>vm_rows := r\<rparr>))"

definition vdm_updateRootInfo :: "'c vd_env \<Rightarrow> 'c vdm \<Rightarrow> 'c vdm outcome" where
  "vdm_updateRootInfo E s =
     (if \<not> vm_rootInfo s then vdm_updateLayout E s
      else vdm_updateLayout E
             (emit (RootSetDesktopViewport (vdm_count s))
               (emit (RootSetNumberOfDesktops (vdm_count s)) s)))"

definition vdm_columns :: "'c vdm \<Rightarrow> int" where
  "vdm_columns s =
     int (vdm_count s div vm_rows s) + (if vdm_count s mod vm_rows s > 0 then 1 else 0)"

definition vdm_setRows :: "'c vd_env \<Rightarrow> nat \<Rightarrow> 'c vdm \<Rightarrow> 'c vdm outcome" where
  "vdm_setRows E rows s =
     (if rows = 0 \<or> rows > vdm_count s \<or> rows = vm_rows s then Returns s
      else let s1 = s\<lparr>vm_rows := rows\<rparr>;
               s2 = root_call RootActivate (root_call (RootSetDesktopLayout (vdm_columns s1) rows) s1)
           in vdm_updateLayout E s2)"

definition vdm_announce_name :: "addr \<Rightarrow> 'c vdm \<Rightarrow> 'c vdm" where
  "vdm_announce_name d s =
     root_call (RootSetDesktopName (vd_x11DesktopNumber (vm_heap s d)) (vd_name (vm_heap s d))) s"

definition vdm_setRootInfo :: "'c vd_env \<Rightarrow> bool \<Rightarrow> 'c vdm \<Rightarrow> 'c vdm outcome" where
  "vdm_setRootInfo E info s =
     (let s0 = s\<lparr>vm_rootInfo := info\<rparr> in
      if \<not> info then Returns s0
      else if vm_rows s = 0 then Faults DivByZero
      else obind (vdm_updateRootInfo E (emit (RootSetDesktopLayout (vdm_columns s0) (vm_rows s0)) s0))
        (\<lambda>s1. case vm_current s1 of None \<Rightarrow> Faults NullDeref
           | Some cur \<Rightarrow>
               Returns (fold vdm_announce_name (vm_desktops s1)
                 (emit (RootSetCurrentDesktop (vd_x11DesktopNumber (vm_heap s1 cur))) s1))))"

section \<open>Saving\<close>

text \<open>
  The loop that deletes the entries of desktops that are gone runs as long as the group has an
  \<open>Id_\<close> key for the next number.
\<close>

partial_function (option) save_prune :: "'c kconfig \<Rightarrow> nat \<Rightarrow> 'c \<Rightarrow> 'c option" where
  "save_prune K i c =
     (if kc_hasKey K c (KId i)
      then save_prune K (Suc i) (kc_deleteEntry K (kc_deleteEntry K c (KId i)) (KName i))
      else Some c)"

definition save_entry :: "'c vd_env \<Rightarrow> nat \<Rightarrow> 'c vdm \<times> 'c \<Rightarrow> 'c vdm \<times> 'c" where
  "save_entry E i sc =
     (case sc of (s, c) \<Rightarrow>
      let K = env_kconfig E;
          nm = vdm_name E s i;
          dflt = env_defaultName E i;
          s1 = (if nm = [] then root_call (RootSetDesktopName i dflt) s else s);
          nm1 = (if nm = [] then dflt else nm);
          c1 = (if nm1 \<noteq> dflt then kc_writeStr K c (KName i) nm1
                else if kc_readStr K c (KName i) [] \<noteq> dflt then kc_deleteEntry K c (KName i)
                else c)
      in (s1, kc_writeStr K c1 (KId i) (vd_id (vm_heap s (vm_desktops s ! (i - 1))))))"

definition vdm_save :: "'c vd_env \<Rightarrow> 'c vdm \<Rightarrow> 'c vdm outcome" where
  "vdm_save E s =
     (if vm_loading s then Returns s
      else case vm_config s of None \<Rightarrow> Returns s
      | Some c \<Rightarrow>
          let K = env_kconfig E in
          (case save_prune K (vdm_count s + 1) c of None \<Rightarrow> Diverges
           | Some c0 \<Rightarrow>
               (case fold (save_entry E) [1..<vdm_count s + 1]
                       (s, kc_writeInt K c0 KNumber (int (vdm_count s))) of
                  (s1, c1) \<Rightarrow>
                    Returns (s1\<lparr>vm_config :=
                      Some (kc_sync K (kc_writeInt K c1 KRows (int (vm_rows s1))))\<rparr>))))"

section \<open>Creating, removing and counting desktops\<close>

definition vdm_renumber1 :: "nat \<Rightarrow> 'c vdm \<Rightarrow> 'c vdm" where
  "vdm_renumber1 i s =
     (let a = vm_desktops s ! i; s1 = vd_setX11DesktopNumber a (i + 1) s
      in root_call (RootSetDesktopName (i + 1) (vd_name (vm_heap s1 a))) s1)"

definition vdm_renumber :: "nat \<Rightarrow> 'c vdm \<Rightarrow> 'c vdm" where
  "vdm_renumber from s = fold vdm_renumber1 [from..<vdm_count s] s"

definition vdm_createVirtualDesktop ::
  "'c vd_env \<Rightarrow> nat \<Rightarrow> string \<Rightarrow> 'c vdm \<Rightarrow> (addr option \<times> 'c vdm) outcome" where
  "vdm_createVirtualDesktop E position nm s =
     (if vdm_count s = vdm_maximum then Returns (None, s)
      else
        let pos = qBound 0 position (vdm_count s);
            (vd, s1) = vd_new s;
            s2 = vd_setX11DesktopNumber vd (pos + 1) s1;
            (i, s3) = vdm_generateDesktopId E s2
        in obind (vd_setId vd i s3) (\<lambda>s4.
             let s5 = vd_setName False vd nm s4;
                 s6 = vdm_announce_name vd s5;
                 s7 = s6\<lparr>vm_desktops := insert_at pos vd (vm_desktops s6)\<rparr>;
                 s8 = vdm_renumber (pos + 1) s7
             in obind (vdm_save E s8) (\<lambda>s9. obind (vdm_updateRootInfo E s9) (\<lambda>s10.
                  Returns (Some vd, emit (CountChanged (vdm_count s10 - 1) (vdm_count s10))
                                      (emit (DesktopCreated vd) s10))))))"

definition vdm_removeVirtualDesktop :: "'c vd_env \<Rightarrow> string \<Rightarrow> 'c vdm \<Rightarrow> 'c vdm outcome" where
  "vdm_removeVirtualDesktop E i s =
     (if vdm_count s = 1 then Returns s
      else case vdm_desktopForId s i of None \<Rightarrow> Returns s
      | Some d \<Rightarrow>
          (case vm_current s of None \<Rightarrow> Faults NullDeref
           | Some cur \<Rightarrow>
               let oldCurrent = vd_x11DesktopNumber (vm_heap s cur);
                   number = vd_x11DesktopNumber (vm_heap s d);
                   k = number - 1;
                   s1 = s\<lparr>vm_desktops := remove_nth k (vm_desktops s)\<rparr>;
                   s2 = vdm_renumber k s1;
                   newCurrent = min oldCurrent (vdm_count s2)
               in if number = 0 \<or> number > vdm_count s \<or> newCurrent = 0 then Faults OutOfRange
                  else
                    let s3 = s2\<lparr>vm_current := Some (vm_desktops s2 ! (newCurrent - 1))\<rparr>;
                        s4 = (if oldCurrent \<noteq> newCurrent
                              then emit (CurrentChanged oldCurrent newCurrent) s3 else s3)
                    in obind (vdm_save E s4) (\<lambda>s5. obind (vdm_updateRootInfo E s5) (\<lambda>s6.
                         Returns (emit (DeleteLater d)
                           (emit (CountChanged (vdm_count s6 + 1) (vdm_count s6))
                             (emit (DesktopRemoved d) s6)))))))"

definition vdm_shrink :: "nat \<Rightarrow> 'c vdm \<Rightarrow> 'c vdm outcome" where
  "vdm_shrink n s =
     (let gone = drop n (vm_desktops s);
          s1 = s\<lparr>vm_desktops := take n (vm_desktops s)\<rparr>;
          announce = fold (\<lambda>d t. emit (DeleteLater d) (emit (DesktopRemoved d) t)) gone
      in case vm_current s1 of None \<Rightarrow> Returns (announce s1)
         | Some cur \<Rightarrow>
             let oldCurrent = vdm_current s1; newCurrent = min oldCurrent n in
             if newCurrent = 0 then Faults OutOfRange
             else
               let s2 = s1\<lparr>vm_current := Some (vm_desktops s1 ! (newCurrent - 1))\<rparr>
               in Returns (announce (if oldCurrent \<noteq> newCurrent
                    then emit (CurrentChanged oldCurrent newCurrent) s2 else s2)))"

definition vdm_append_desktop :: "'c vd_env \<Rightarrow> 'c vdm \<Rightarrow> 'c vdm outcome" where
  "vdm_append_desktop E s =
     (let (vd, s1) = vd_new s;
          x11Number = vdm_count s1 + 1;
          s2 = vd_setX11DesktopNumber vd x11Number s1;
          s3 = vd_setName False vd (env_defaultName E x11Number) s2
      in obind (if vm_loading s3 then Returns s3
                else case vdm_generateDesktopId E s3 of (i, t) \<Rightarrow> vd_setId vd i t)
           (\<lambda>s4. Returns (vdm_announce_name vd (s4\<lparr>vm_desktops := vm_desktops s4 @ [vd]\<rparr>))))"

fun vdm_grow :: "'c vd_env \<Rightarrow> nat \<Rightarrow> 'c vdm \<Rightarrow> 'c vdm outcome" where
  "vdm_grow E 0 s = Returns s"
| "vdm_grow E (Suc n) s = obind (vdm_append_desktop E s) (vdm_grow E n)"

definition vdm_setCount :: "'c vd_env \<Rightarrow> nat \<Rightarrow> 'c vdm \<Rightarrow> 'c vdm outcome" where
  "vdm_setCount E n s =
     (let cnt = qBound 1 n vdm_maximum; oldCount = vdm_count s in
      if cnt = oldCount then Returns s
      else obind (if oldCount > cnt then vdm_shrink cnt s else vdm_grow E (cnt - oldCount) s)
        (\<lambda>s1. obind (vdm_updateRootInfo E s1)
        (\<lambda>s2. obind (if vm_loading s2 then Returns s2 else vdm_save E s2)
        (\<lambda>s3. Returns (emit (CountChanged oldCount (vdm_count s3))
          (fold (\<lambda>d. emit (DesktopCreated d)) (drop oldCount (vm_desktops s3)) s3))))))"

section \<open>Loading\<close>

text \<open>
  \<open>m_desktops[i-1]\<close> is an unchecked access, so a stored \<open>Number\<close> above the maximum runs past
  the end of the vector.
\<close>

definition load_entry :: "'c vd_env \<Rightarrow> 'c \<Rightarrow> nat \<Rightarrow> 'c vdm \<Rightarrow> 'c vdm outcome" where
  "load_entry E c i s =
     (let K = env_kconfig E;
          nm = kc_readStr K c (KName i) (env_defaultName E i);
          s1 = root_call (RootSetDesktopName i nm) s
      in if i - 1 \<ge> vdm_count s1 then Faults OutOfRange
         else
           let d = vm_desktops s1 ! (i - 1);
               s2 = vd_setName True d nm s1;
               sId = kc_readStr K c (KId i) []
           in if vd_id (vm_heap s2 d) = []
              then (if sId = [] then case vdm_generateDesktopId E s2 of (g, t) \<Rightarrow> vd_setId d g t
                    else vd_setId d sId s2)
              else oassert (sId = [] \<or> vd_id (vm_heap s2 d) = sId) (Returns s2))"

fun load_entries :: "'c vd_env \<Rightarrow> 'c \<Rightarrow> nat list \<Rightarrow> 'c vdm \<Rightarrow> 'c vdm outcome" where
  "load_entries E c [] s = Returns s"
| "load_entries E c (i # is) s = obind (load_entry E c i s) (load_entries E c is)"

definition vdm_load :: "'c vd_env \<Rightarrow> 'c vdm \<Rightarrow> 'c vdm outcome" where
  "vdm_load E s =
     (let s0 = s\<lparr>vm_loading := True\<rparr> in
      case vm_config s0 of None \<Rightarrow> Returns s0
      | Some c \<Rightarrow>
          let K = env_kconfig E; n = kc_readInt K c KNumber 1 in
          obind (vdm_setCount E (nat (n mod 2 ^ 32)) s0) (\<lambda>s1.
            obind (load_entries E c [1..<nat n + 1] s1) (\<lambda>s2.
              let rows = kc_readInt K c KRows 2 in
              Returns (s2\<lparr>vm_rows := nat (qBound 1 rows n), vm_loading := False\<rparr>))))"

section \<open>Well-formed states\<close>

text \<open>
  The grid holds every desktop exactly once, has as many rows as its size says and no row is
  wider than its size says.
\<close>

definition grid_ok :: "int \<times> int \<Rightarrow> 'a list list \<Rightarrow> 'a list \<Rightarrow> bool" where
  "grid_ok sz g ds \<longleftrightarrow>
     snd sz = int (length g) \<and> (\<forall>row \<in> set g. int (length row) \<le> fst sz) \<and>
     mset (concat g) = mset ds"

text \<open>
  Between one and twenty desktops, all distinct objects, numbered from 1 in the order of the
  vector; the current one is among them.
\<close>

definition desktops_ok :: "'c vdm \<Rightarrow> bool" where
  "desktops_ok s \<longleftrightarrow>
     distinct (vm_desktops s) \<and> 1 \<le> vdm_count s \<and> vdm_count s \<le> vdm_maximum \<and>
     (\<forall>d \<in> set (vm_desktops s). d < vm_fresh s) \<and>
     (\<forall>i < vdm_count s. vd_x11DesktopNumber (vm_heap s (vm_desktops s ! i)) = Suc i) \<and>
     set_option (vm_current s) \<subseteq> set (vm_desktops s) \<and> 1 \<le> vm_rows s"

definition vdm_inv :: "'c vdm \<Rightarrow> bool" where
  "vdm_inv s \<longleftrightarrow> desktops_ok s \<and> grid_ok (vm_size s) (vm_grid s) (vm_desktops s)"

end
