(* ===== verification/VirtualDesktops_Navigation.thy ===== *)
theory VirtualDesktops_Navigation
  imports VirtualDesktops
begin

text \<open>
  Navigation in the desktop grid. The loop \<open>navigate\<close> walks along one line of the grid (a
  row or a column); the locales below state what it needs of such a line and prove once that
  it stops and what it returns. The four directions are interpretations of them.
\<close>

section \<open>Cells of the grid\<close>

definition grid_cell :: "'a list list \<Rightarrow> nat \<Rightarrow> nat \<Rightarrow> 'a option" where
  "grid_cell g x y = (if y < length g \<and> x < length (g ! y) then Some (g ! y ! x) else None)"

lemma grid_at_cell: "grid_at g (int x, int y) = Returns (grid_cell g x y)"
  by (auto simp: grid_at_def grid_cell_def Let_def)

lemma grid_cell_Cons: "grid_cell (r # g) x y = (case y of 0 \<Rightarrow> (if x < length r then Some (r ! x) else None)
    | Suc y' \<Rightarrow> grid_cell g x y')"
  by (cases y) (auto simp: grid_cell_def)

lemma grid_coords_from_shift:
  "d \<in> set (concat g) \<Longrightarrow>
   \<exists>x y. grid_coords_from d k g = (int x, k + int y) \<and> grid_cell g x y = Some d"
proof (induction g arbitrary: k)
  case Nil
  then show ?case by simp
next
  case (Cons row g)
  show ?case
  proof (cases "index_of d row")
    case None
    with Cons.prems have "d \<in> set (concat g)" by (simp add: index_of_None)
    then obtain x y where "grid_coords_from d (k + 1) g = (int x, (k + 1) + int y)"
      and "grid_cell g x y = Some d" using Cons.IH by blast
    with None have "grid_coords_from d k (row # g) = (int x, k + int (Suc y)) \<and>
        grid_cell (row # g) x (Suc y) = Some d"
      by (simp add: grid_cell_Cons)
    then show ?thesis by blast
  next
    case (Some x)
    then have "x < length row \<and> row ! x = d" by (auto dest: index_of_SomeD)
    with Some have "grid_coords_from d k (row # g) = (int x, k + int 0) \<and>
        grid_cell (row # g) x 0 = Some d"
      by (simp add: grid_cell_Cons)
    then show ?thesis by blast
  qed
qed

lemma gridCoords_cell:
  assumes "d \<in> set (concat g)"
  obtains x y where "grid_gridCoords g d = (int x, int y)" and "grid_cell g x y = Some d"
  using grid_coords_from_shift [OF assms, of 0] by (auto simp: grid_gridCoords_def)

lemma grid_cell_in_concat: "grid_cell g x y = Some d \<Longrightarrow> d \<in> set (concat g)"
  by (auto simp: grid_cell_def split: if_splits intro!: bexI [of _ "g ! y"])

lemma grid_cell_unique:
  "distinct (concat g) \<Longrightarrow> grid_cell g x y = Some d \<Longrightarrow> grid_cell g x' y' = Some d \<Longrightarrow>
   x = x' \<and> y = y'"
proof (induction g arbitrary: y y')
  case Nil
  then show ?case by (simp add: grid_cell_def)
next
  case (Cons r g)
  have disj: "set r \<inter> set (concat g) = {}" and r: "distinct r" and g: "distinct (concat g)"
    using Cons.prems(1) by auto
  show ?case
  proof (cases y; cases y')
    assume "y = 0" "y' = 0"
    with Cons.prems r show ?thesis
      by (auto simp: grid_cell_Cons nth_eq_iff_index_eq split: if_splits)
  next
    fix k assume "y = 0" "y' = Suc k"
    with Cons.prems have "d \<in> set r" "d \<in> set (concat g)"
      by (auto simp: grid_cell_Cons split: if_splits dest: grid_cell_in_concat)
    with disj show ?thesis by blast
  next
    fix k assume "y = Suc k" "y' = 0"
    with Cons.prems have "d \<in> set r" "d \<in> set (concat g)"
      by (auto simp: grid_cell_Cons split: if_splits dest: grid_cell_in_concat)
    with disj show ?thesis by blast
  next
    fix k k' assume "y = Suc k" "y' = Suc k'"
    with Cons.prems Cons.IH [OF g, of k k'] show ?thesis
      by (auto simp: grid_cell_Cons)
  qed
qed

section \<open>Scanning a line of cells\<close>

definition first_cell :: "(nat \<Rightarrow> 'a option) \<Rightarrow> nat list \<Rightarrow> 'a \<Rightarrow> 'a" where
  "first_cell cell js d =
     (case find (\<lambda>j. cell j \<noteq> None) js of None \<Rightarrow> d | Some j \<Rightarrow> the (cell j))"

text \<open>The order in which the cells of a line of \<open>n\<close> cells are visited from cell \<open>i\<close>.\<close>

definition ahead :: "nat \<Rightarrow> bool \<Rightarrow> nat \<Rightarrow> nat list" where
  "ahead n wrap i = [Suc i..<n] @ (if wrap then [0..<n] else [])"

definition behind :: "nat \<Rightarrow> bool \<Rightarrow> nat \<Rightarrow> nat list" where
  "behind n wrap i = rev [0..<i] @ (if wrap then rev [0..<n] else [])"

lemma find_append:
  "find P (xs @ ys) = (case find P xs of None \<Rightarrow> find P ys | Some x \<Rightarrow> Some x)"
  by (induction xs) auto

lemma find_eq_None: "find P xs = None \<longleftrightarrow> (\<forall>x \<in> set xs. \<not> P x)"
  by (auto simp: find_None_iff)

lemma find_rev_upt:
  assumes "P i" and "i < m" and "\<And>k. i < k \<Longrightarrow> k < m \<Longrightarrow> \<not> P k"
  shows "find P (rev [0..<m]) = Some i"
proof -
  have "[0..<m] = [0..<i] @ i # [Suc i..<m]"
    using assms(2) upt_add_eq_append [of 0 i "m - i"] by (simp add: upt_conv_Cons)
  then have "rev [0..<m] = rev [Suc i..<m] @ i # rev [0..<i]" by simp
  moreover have "find P (rev [Suc i..<m]) = None"
    using assms(3) by (auto simp: find_eq_None)
  ultimately show ?thesis using assms(1) by (simp add: find_append)
qed

lemma find_upt_SomeD:
  "find P [m..<n] = Some j \<Longrightarrow> m \<le> j \<and> j < n \<and> P j \<and> (\<forall>k. m \<le> k \<and> k < j \<longrightarrow> \<not> P k)"
proof -
  assume "find P [m..<n] = Some j"
  then obtain i where i: "i < length [m..<n]" "P ([m..<n] ! i)" "j = [m..<n] ! i"
      "\<forall>k<i. \<not> P ([m..<n] ! k)"
    by (auto simp: find_Some_iff)
  then have "j = m + i" by simp
  moreover have "\<not> P k" if "m \<le> k" "k < j" for k
    using i that \<open>j = m + i\<close> by (auto dest!: spec [of _ "k - m"])
  ultimately show ?thesis using i by auto
qed

text \<open>Going one way and coming back ends where it started, on any line.\<close>

lemma find_behind_ahead:
  assumes i: "i < n" "P i" and j: "find P (ahead n True i) = Some j"
  shows "find P (behind n True j) = Some i"
proof (cases "find P [Suc i..<n]")
  case (Some k)
  with j have "k = j" by (simp add: ahead_def find_append)
  with Some have "Suc i \<le> j" "j < n" and between: "\<And>k. Suc i \<le> k \<Longrightarrow> k < j \<Longrightarrow> \<not> P k"
    by (auto dest: find_upt_SomeD)
  then have "find P (rev [0..<j]) = Some i" using i by (intro find_rev_upt) auto
  then show ?thesis by (simp add: behind_def find_append)
next
  case None
  with j have "find P [0..<n] = Some j" by (simp add: ahead_def find_append)
  then have "\<And>k. k < j \<Longrightarrow> \<not> P k" by (auto dest: find_upt_SomeD)
  then have "find P (rev [0..<j]) = None" by (auto simp: find_eq_None)
  moreover have "find P (rev [0..<n]) = Some i"
    using i None by (intro find_rev_upt) (auto simp: find_eq_None)
  ultimately show ?thesis by (simp add: behind_def find_append)
qed

locale grid_line =
  fixes g :: "'a list list" and coord :: "int \<Rightarrow> int \<times> int" and cell :: "nat \<Rightarrow> 'a option"
    and n :: nat
    and step :: "int \<times> int \<Rightarrow> int \<times> int" and out :: "int \<times> int \<Rightarrow> bool"
    and jump :: "int \<times> int \<Rightarrow> int \<times> int"
  assumes at_coord: "grid_at g (coord (int i)) = Returns (cell i)"
begin

lemma navigate_step:
  "navigate step out jump g wrap d p =
     (if out (step p) \<and> \<not> wrap then Some (Returns d)
      else let r = (if out (step p) then jump (step p) else step p) in
        case grid_at g r of Returns None \<Rightarrow> navigate step out jump g wrap d r
        | Returns (Some v) \<Rightarrow> Some (Returns v) | Faults f \<Rightarrow> Some (Faults f) | Diverges \<Rightarrow> Some Diverges)"
  by (subst navigate.simps) (simp add: Let_def)

lemmas at_coord_0 = at_coord [of 0, simplified]

end

locale forward_line = grid_line +
  assumes step_fwd: "step (coord (int i)) = coord (int (Suc i))"
    and out_fwd: "out (coord (int i)) \<longleftrightarrow> n \<le> i"
    and jump_fwd: "jump (coord i') = coord (int 0)"
begin

lemma forward_to_end:
  "i < n \<Longrightarrow> navigate step out jump g wrap d (coord (int i)) =
     (case find (\<lambda>j. cell j \<noteq> None) [Suc i..<n] of
        Some j \<Rightarrow> Some (Returns (the (cell j)))
      | None \<Rightarrow> if wrap
          then (case cell 0 of Some v \<Rightarrow> Some (Returns v)
                | None \<Rightarrow> navigate step out jump g wrap d (coord (int 0)))
          else Some (Returns d))"
proof (induction "n - i" arbitrary: i)
  case 0
  then show ?case by simp
next
  case (Suc k)
  show ?case
  proof (cases "Suc i < n")
    case True
    have IH: "navigate step out jump g wrap d (coord (int (Suc i))) =
      (case find (\<lambda>j. cell j \<noteq> None) [Suc (Suc i)..<n] of
        Some j \<Rightarrow> Some (Returns (the (cell j)))
      | None \<Rightarrow> if wrap
          then (case cell 0 of Some v \<Rightarrow> Some (Returns v)
                | None \<Rightarrow> navigate step out jump g wrap d (coord (int 0)))
          else Some (Returns d))"
      using Suc.hyps(2) True by (intro Suc.hyps(1)) auto
    have "navigate step out jump g wrap d (coord (int i)) =
        (case cell (Suc i) of None \<Rightarrow> navigate step out jump g wrap d (coord (int (Suc i)))
         | Some v \<Rightarrow> Some (Returns v))"
      using True by (subst navigate_step)
        (auto simp: step_fwd out_fwd at_coord Let_def simp del: of_nat_Suc split: option.splits)
    with IH True show ?thesis
      by (auto simp: upt_conv_Cons simp del: of_nat_Suc split: option.splits)
  next
    case False
    then show ?thesis
      by (subst navigate_step)
        (auto simp: step_fwd out_fwd jump_fwd at_coord at_coord_0 Let_def simp del: of_nat_Suc
          split: option.splits)
  qed
qed

lemma forward:
  assumes i: "i < n" "cell i = Some d"
  shows "navigate step out jump g wrap d (coord (int i)) =
     Some (Returns (first_cell cell (ahead n wrap i) d))"
proof (cases "find (\<lambda>j. cell j \<noteq> None) [Suc i..<n]")
  case (Some j)
  with forward_to_end [OF i(1)] show ?thesis
    by (simp add: first_cell_def ahead_def find_append)
next
  case None
  show ?thesis
  proof (cases "wrap \<and> cell 0 = None")
    case True
    then have "0 < i" using i by (cases i) auto
    with i have "find (\<lambda>j. cell j \<noteq> None) [Suc 0..<n] \<noteq> None" by (auto simp: find_eq_None)
    then obtain j where "find (\<lambda>j. cell j \<noteq> None) [Suc 0..<n] = Some j" by blast
    moreover have "[0..<n] = 0 # [Suc 0..<n]" using i by (simp add: upt_conv_Cons)
    ultimately show ?thesis
      using None True i forward_to_end [OF i(1), of wrap d] forward_to_end [of 0 wrap d]
      by (simp add: first_cell_def ahead_def find_append)
  next
    case False
    moreover have "[0..<n] = 0 # [Suc 0..<n]" using i by (simp add: upt_conv_Cons)
    ultimately show ?thesis
      using None forward_to_end [OF i(1), of wrap d]
      by (auto simp: first_cell_def ahead_def find_append split: option.splits)
  qed
qed

end


locale backward_line = grid_line +
  assumes step_bwd: "step (coord i') = coord (i' - 1)"
    and out_bwd: "out (coord i') \<longleftrightarrow> i' < 0"
    and jump_bwd: "jump (coord i') = coord (int n - 1)"
begin

lemma backward_to_start:
  "navigate step out jump g wrap d (coord (int i)) =
     (case find (\<lambda>j. cell j \<noteq> None) (rev [0..<i]) of
        Some j \<Rightarrow> Some (Returns (the (cell j)))
      | None \<Rightarrow> navigate step out jump g wrap d (coord (int 0)))"
proof (induction i)
  case 0
  then show ?case by simp
next
  case (Suc i)
  have "navigate step out jump g wrap d (coord (int (Suc i))) =
      (case cell i of None \<Rightarrow> navigate step out jump g wrap d (coord (int i))
       | Some v \<Rightarrow> Some (Returns v))"
    by (subst navigate_step) (auto simp: step_bwd out_bwd at_coord Let_def split: option.splits)
  with Suc show ?case by (auto split: option.splits)
qed

lemma backward:
  assumes i: "i < n" "cell i = Some d"
  shows "navigate step out jump g wrap d (coord (int i)) =
     Some (Returns (first_cell cell (behind n wrap i) d))"
proof (cases "find (\<lambda>j. cell j \<noteq> None) (rev [0..<i])")
  case (Some j)
  with backward_to_start [of wrap d i] show ?thesis
    by (simp add: first_cell_def behind_def find_append)
next
  case None
  obtain m where n: "n = Suc m" using i by (cases n) auto
  have "find (\<lambda>j. cell j \<noteq> None) (rev [0..<n]) \<noteq> None" using i by (auto simp: find_eq_None)
  then obtain j where j: "find (\<lambda>j. cell j \<noteq> None) (rev [0..<n]) = Some j" by blast
  have start: "navigate step out jump g wrap d (coord (int 0)) =
      (if wrap then (case cell m of None \<Rightarrow> navigate step out jump g wrap d (coord (int m))
                     | Some v \<Rightarrow> Some (Returns v))
       else Some (Returns d))"
    by (subst navigate_step)
      (auto simp: step_bwd [of 0] out_bwd jump_bwd at_coord n Let_def split: option.splits)
  have "navigate step out jump g wrap d (coord (int 0)) =
      (if wrap then Some (Returns (the (cell j))) else Some (Returns d))"
  proof (cases "cell m")
    case (Some v)
    with j n have "j = m" by simp
    with Some start show ?thesis by simp
  next
    case None
    with j n have "find (\<lambda>j. cell j \<noteq> None) (rev [0..<m]) = Some j" by simp
    with None start backward_to_start [of wrap d m] show ?thesis by (cases wrap) simp_all
  qed
  with None j backward_to_start [of wrap d i] show ?thesis
    by (simp add: first_cell_def behind_def find_append)
qed

end

section \<open>The four directions\<close>

interpretation row_right: forward_line g "\<lambda>i. (i, int y)" "\<lambda>i. grid_cell g i y" n
  "\<lambda>(x, y). (x + 1, y)" "\<lambda>(x, y). x \<ge> int n" "\<lambda>(x, y). (0, y)" for g y n
  by unfold_locales (auto simp: grid_at_cell)

interpretation row_left: backward_line g "\<lambda>i. (i, int y)" "\<lambda>i. grid_cell g i y" n
  "\<lambda>(x, y). (x - 1, y)" "\<lambda>(x, y). x < 0" "\<lambda>(x, y). (int n - 1, y)" for g y n
  by unfold_locales (auto simp: grid_at_cell)

interpretation column_below: forward_line g "\<lambda>i. (int x, i)" "\<lambda>i. grid_cell g x i" n
  "\<lambda>(x, y). (x, y + 1)" "\<lambda>(x, y). y \<ge> int n" "\<lambda>(x, y). (x, 0)" for g x n
  by unfold_locales (auto simp: grid_at_cell)

interpretation column_above: backward_line g "\<lambda>i. (int x, i)" "\<lambda>i. grid_cell g x i" n
  "\<lambda>(x, y). (x, y - 1)" "\<lambda>(x, y). y < 0" "\<lambda>(x, y). (x, int n - 1)" for g x n
  by unfold_locales (auto simp: grid_at_cell)


text \<open>Where a desktop of a well-formed manager stands in the grid.\<close>

lemma inv_cell:
  assumes inv: "vdm_inv s" and d: "d \<in> set (vm_desktops s)"
  obtains x y w where "grid_gridCoords (vm_grid s) d = (int x, int y)"
    and "grid_cell (vm_grid s) x y = Some d" and "vm_size s = (int w, int (length (vm_grid s)))"
    and "x < w" and "y < length (vm_grid s)" and "\<And>y. y < length (vm_grid s) \<Longrightarrow> length (vm_grid s ! y) \<le> w"
proof -
  have ok: "snd (vm_size s) = int (length (vm_grid s))"
      "\<And>row. row \<in> set (vm_grid s) \<Longrightarrow> int (length row) \<le> fst (vm_size s)"
      "mset (concat (vm_grid s)) = mset (vm_desktops s)"
    using inv by (auto simp: vdm_inv_def grid_ok_def)
  have "d \<in> set (concat (vm_grid s))" using ok(3) d by (metis mset_eq_setD)
  then obtain x y where xy: "grid_gridCoords (vm_grid s) d = (int x, int y)"
      "grid_cell (vm_grid s) x y = Some d"
    by (rule gridCoords_cell)
  then have y: "y < length (vm_grid s)" "x < length (vm_grid s ! y)"
    by (auto simp: grid_cell_def split: if_splits)
  then have "int x < fst (vm_size s)" using ok(2) [of "vm_grid s ! y"] by auto
  then have "vm_size s = (int (nat (fst (vm_size s))), int (length (vm_grid s)))"
    and "x < nat (fst (vm_size s))"
    using ok(1) by (auto simp: prod_eq_iff)
  with that [OF xy] y ok(2) show thesis by (metis nat_int nat_mono nth_mem)
qed

lemma inv_distinct_grid: "vdm_inv s \<Longrightarrow> distinct (concat (vm_grid s))"
  by (auto simp: vdm_inv_def grid_ok_def desktops_ok_def dest: mset_eq_imp_distinct_iff)

text \<open>What each direction returns: the first desktop met on its line.\<close>

lemma directions_eval:
  assumes "vdm_inv s" and "vm_current s \<noteq> None"
    and xy: "grid_gridCoords (vm_grid s) d = (int x, int y)" "grid_cell (vm_grid s) x y = Some d"
    and w: "vm_size s = (int w, int (length (vm_grid s)))" "x < w" "y < length (vm_grid s)"
  shows "vdm_toRight s (Some d) wrap =
      Returns (first_cell (\<lambda>i. grid_cell (vm_grid s) i y) (ahead w wrap x) d)"
    and "vdm_toLeft s (Some d) wrap =
      Returns (first_cell (\<lambda>i. grid_cell (vm_grid s) i y) (behind w wrap x) d)"
    and "vdm_below s (Some d) wrap =
      Returns (first_cell (\<lambda>i. grid_cell (vm_grid s) x i) (ahead (length (vm_grid s)) wrap y) d)"
    and "vdm_above s (Some d) wrap =
      Returns (first_cell (\<lambda>i. grid_cell (vm_grid s) x i) (behind (length (vm_grid s)) wrap y) d)"
  using assms(2) xy w row_right.forward [OF w(2) xy(2), of wrap] row_left.backward [OF w(2) xy(2), of wrap]
    column_below.forward [OF w(3) xy(2), of wrap] column_above.backward [OF w(3) xy(2), of wrap]
  by (auto simp: vdm_toRight_def vdm_toLeft_def vdm_below_def vdm_above_def vdm_start_def)


lemma find_below_upt: "find (\<lambda>j. j < m) [a..<n] = (if a < n \<and> a < m then Some a else None)"
  by (cases "a < n") (auto simp: upt_conv_Cons find_eq_None)

lemma find_below_rev: "0 < m \<Longrightarrow> m \<le> n \<Longrightarrow> find (\<lambda>j. j < m) (rev [0..<n]) = Some (m - 1)"
  by (rule find_rev_upt) auto

lemma first_cell_row:
  assumes "y < length g" and "x < length (g ! y)" and "length (g ! y) \<le> w" and "d = g ! y ! x"
  shows "first_cell (\<lambda>i. grid_cell g i y) (ahead w True x) d = g ! y ! (Suc x mod length (g ! y))"
    and "first_cell (\<lambda>i. grid_cell g i y) (ahead w False x) d =
      (if Suc x < length (g ! y) then g ! y ! Suc x else d)"
    and "first_cell (\<lambda>i. grid_cell g i y) (behind w True x) d =
      g ! y ! ((x + length (g ! y) - 1) mod length (g ! y))"
    and "first_cell (\<lambda>i. grid_cell g i y) (behind w False x) d =
      (if x = 0 then d else g ! y ! (x - 1))"
proof -
  let ?m = "length (g ! y)"
  have P: "(\<lambda>j. grid_cell g j y \<noteq> None) = (\<lambda>j. j < ?m)"
    using assms(1) by (auto simp: grid_cell_def fun_eq_iff)
  have cell: "\<And>j. j < ?m \<Longrightarrow> grid_cell g j y = Some (g ! y ! j)"
    using assms(1) by (simp add: grid_cell_def)
  have fin: "Suc x = ?m \<or> Suc x < ?m" using assms(2) by auto
  have before: "find (\<lambda>j. j < ?m) (rev [0..<x]) = (if x = 0 then None else Some (x - 1))"
    using assms(2) by (cases x) auto
  have wrapped: "(x + ?m - Suc 0) mod ?m = (if x = 0 then ?m - 1 else x - 1)"
    using assms(2) by (cases x) auto
  have eval: "first_cell (\<lambda>i. grid_cell g i y) js e =
      (case find (\<lambda>j. j < ?m) js of None \<Rightarrow> e | Some j \<Rightarrow> the (grid_cell g j y))" for js e
    unfolding first_cell_def P ..
  note facts = eval ahead_def behind_def find_append find_below_upt before wrapped
  show "first_cell (\<lambda>i. grid_cell g i y) (ahead w True x) d = g ! y ! (Suc x mod ?m)"
    using assms fin by (auto simp: facts cell)
  show "first_cell (\<lambda>i. grid_cell g i y) (ahead w False x) d =
      (if Suc x < ?m then g ! y ! Suc x else d)"
    using assms by (auto simp: facts cell)
  show "first_cell (\<lambda>i. grid_cell g i y) (behind w True x) d = g ! y ! ((x + ?m - 1) mod ?m)"
    using assms find_below_rev [of ?m w] by (auto simp: facts cell)
  show "first_cell (\<lambda>i. grid_cell g i y) (behind w False x) d = (if x = 0 then d else g ! y ! (x - 1))"
    using assms by (auto simp: facts cell)
qed

lemma first_cell_there_and_back:
  assumes "i < n" and "cell i = Some d"
  obtains j v where "j < n" and "cell j = Some v" and "first_cell cell (ahead n True i) d = v"
    and "first_cell cell (behind n True j) v = d"
proof -
  have "find (\<lambda>j. cell j \<noteq> None) (ahead n True i) \<noteq> None"
    using assms by (auto simp: find_eq_None ahead_def)
  then obtain j where j: "find (\<lambda>j. cell j \<noteq> None) (ahead n True i) = Some j" by blast
  then have "j \<in> set (ahead n True i)" "cell j \<noteq> None" by (auto simp: find_Some_iff)
  then obtain v where v: "j < n" "cell j = Some v" by (auto simp: ahead_def)
  have "find (\<lambda>j. cell j \<noteq> None) (behind n True j) = Some i"
    using find_behind_ahead [of i n "\<lambda>j. cell j \<noteq> None" j] j assms by simp
  with that [OF v] j v assms show thesis by (simp add: first_cell_def)
qed

section \<open>Properties\<close>

text \<open>
  On a well-formed manager, going to the right or to the left of a desktop always returns;
  with wrapping it is the cyclic successor or predecessor in the row of the grid that holds the
  desktop, and without wrapping it stays on the desktop at the end of the row.
\<close>

theorem horizontal_navigation_in_row:
  assumes "vdm_inv s" and "vm_current s \<noteq> None" and "d \<in> set (vm_desktops s)"
  shows "\<exists>y x. y < length (vm_grid s) \<and> x < length (vm_grid s ! y) \<and> vm_grid s ! y ! x = d \<and>
    vdm_toRight s (Some d) True = Returns (vm_grid s ! y ! (Suc x mod length (vm_grid s ! y))) \<and>
    vdm_toRight s (Some d) False =
      Returns (if Suc x < length (vm_grid s ! y) then vm_grid s ! y ! Suc x else d) \<and>
    vdm_toLeft s (Some d) True =
      Returns (vm_grid s ! y ! ((x + length (vm_grid s ! y) - 1) mod length (vm_grid s ! y))) \<and>
    vdm_toLeft s (Some d) False = Returns (if x = 0 then d else vm_grid s ! y ! (x - 1))"
proof -
  obtain x y w where cell: "grid_gridCoords (vm_grid s) d = (int x, int y)"
      "grid_cell (vm_grid s) x y = Some d"
    and w: "vm_size s = (int w, int (length (vm_grid s)))" "x < w" "y < length (vm_grid s)"
    and wide: "\<And>y. y < length (vm_grid s) \<Longrightarrow> length (vm_grid s ! y) \<le> w"
    using inv_cell [OF assms(1,3)] by metis
  have row: "x < length (vm_grid s ! y)" "d = vm_grid s ! y ! x"
    using cell(2) by (auto simp: grid_cell_def split: if_splits)
  note eval = directions_eval [OF assms(1,2) cell w]
  show ?thesis
    by (rule exI [where x = y], rule exI [where x = x])
      (simp add: eval first_cell_row [OF w(3) row(1) wide [OF w(3)] row(2)] w(3) row(1)
        row(2) [symmetric])
qed

text \<open>
  C9. With wrapping, right and left undo each other and so do below and above: whatever the
  layout, one step and the step back return to the desktop they started from, and neither step
  fails or loops.
\<close>

theorem navigation_round_trip:
  assumes "vdm_inv s" and "vm_current s \<noteq> None" and "d \<in> set (vm_desktops s)"
  shows "\<exists>r b. vdm_toRight s (Some d) True = Returns r \<and> vdm_toLeft s (Some r) True = Returns d \<and>
    vdm_below s (Some d) True = Returns b \<and> vdm_above s (Some b) True = Returns d \<and>
    r \<in> set (vm_desktops s) \<and> b \<in> set (vm_desktops s)"
proof -
  obtain x y w where cell: "grid_gridCoords (vm_grid s) d = (int x, int y)"
      "grid_cell (vm_grid s) x y = Some d"
    and w: "vm_size s = (int w, int (length (vm_grid s)))" "x < w" "y < length (vm_grid s)"
    by (rule inv_cell [OF assms(1,3)]) blast
  note eval = directions_eval [OF assms(1,2)]
  have coords: "grid_gridCoords (vm_grid s) v = (int x', int y')"
    if "grid_cell (vm_grid s) x' y' = Some v" for v x' y'
    using that grid_cell_unique [OF inv_distinct_grid [OF assms(1)] that]
    by (metis gridCoords_cell grid_cell_in_concat)
  have mem: "v \<in> set (vm_desktops s)" if "grid_cell (vm_grid s) x' y' = Some v" for v x' y'
    using grid_cell_in_concat [OF that] assms(1) unfolding vdm_inv_def grid_ok_def by (metis mset_eq_setD)
  obtain j r where r: "j < w" "grid_cell (vm_grid s) j y = Some r"
      "first_cell (\<lambda>i. grid_cell (vm_grid s) i y) (ahead w True x) d = r"
      "first_cell (\<lambda>i. grid_cell (vm_grid s) i y) (behind w True j) r = d"
    by (rule first_cell_there_and_back [of x w "\<lambda>i. grid_cell (vm_grid s) i y" d])
      (use w(2) cell(2) in auto)
  obtain k b where b: "k < length (vm_grid s)" "grid_cell (vm_grid s) x k = Some b"
      "first_cell (\<lambda>i. grid_cell (vm_grid s) x i) (ahead (length (vm_grid s)) True y) d = b"
      "first_cell (\<lambda>i. grid_cell (vm_grid s) x i) (behind (length (vm_grid s)) True k) b = d"
    by (rule first_cell_there_and_back [of y "length (vm_grid s)" "\<lambda>i. grid_cell (vm_grid s) x i" d])
      (use w(3) cell(2) in auto)
  have "vdm_toRight s (Some d) True = Returns r" using eval(1) [OF cell w] r by simp
  moreover have "vdm_toLeft s (Some r) True = Returns d"
    using eval(2) [OF coords [OF r(2)] r(2) w(1) r(1) w(3)] r by simp
  moreover have "vdm_below s (Some d) True = Returns b" using eval(3) [OF cell w] b by simp
  moreover have "vdm_above s (Some b) True = Returns d"
    using eval(4) [OF coords [OF b(2)] b(2) w(1,2) b(1)] b by simp
  ultimately show ?thesis using mem [OF r(2)] mem [OF b(2)] by blast
qed

end
