(* ===== verification/VirtualDesktops_Invariant.thy ===== *)
theory VirtualDesktops_Invariant
  imports VirtualDesktops_Navigation
begin

text \<open>
  Every operation of \<open>VirtualDesktopManager\<close> keeps the manager well formed and returns: no
  assertion of the source fails, no pointer is dereferenced when null, no vector is read out of
  range, no loop runs for ever. The hypotheses on third-party code are \<open>kconfig_laws\<close> (the
  documented behaviour of a \<open>KConfigGroup\<close>) and \<open>net_layout_bounded\<close> (the layout the X11
  root window announces has fewer than \<open>2^15\<close> columns and rows).
\<close>

section \<open>Hypotheses on the environment\<close>

definition kconfig_laws :: "'c kconfig \<Rightarrow> bool" where
  "kconfig_laws K \<longleftrightarrow>
     (\<forall>c. finite {k. kc_hasKey K c k}) \<and>
     (\<forall>c k k'. kc_hasKey K (kc_deleteEntry K c k) k' \<longleftrightarrow> kc_hasKey K c k' \<and> k' \<noteq> k) \<and>
     (\<forall>c k v k' d. kc_readStr K (kc_writeStr K c k v) k' d =
        (if k' = k then v else kc_readStr K c k' d)) \<and>
     (\<forall>c k v k' d. kc_readInt K (kc_writeInt K c k v) k' d =
        (if k' = k then v else kc_readInt K c k' d)) \<and>
     (\<forall>c k k' d. kc_readStr K (kc_deleteEntry K c k) k' d =
        (if k' = k then d else kc_readStr K c k' d)) \<and>
     (\<forall>c k k' d. k' \<noteq> k \<longrightarrow> kc_readInt K (kc_deleteEntry K c k) k' d = kc_readInt K c k' d) \<and>
     (\<forall>c k v k' d. k' \<noteq> k \<longrightarrow> kc_readStr K (kc_writeInt K c k v) k' d = kc_readStr K c k' d) \<and>
     (\<forall>c k v k' d. k' \<noteq> k \<longrightarrow> kc_readInt K (kc_writeStr K c k v) k' d = kc_readInt K c k' d) \<and>
     (\<forall>c k. (\<forall>d. kc_readStr K c k d = d) \<or> (\<exists>v. \<forall>d. kc_readStr K c k d = v)) \<and>
     (\<forall>c k d. kc_readStr K (kc_sync K c) k d = kc_readStr K c k d) \<and>
     (\<forall>c k d. kc_readInt K (kc_sync K c) k d = kc_readInt K c k d)"

definition net_layout_bounded :: "'c vd_env \<Rightarrow> bool" where
  "net_layout_bounded E \<longleftrightarrow>
     (\<forall>log. 0 \<le> env_layoutColumns E log \<and> env_layoutColumns E log < 2 ^ 15 \<and>
            env_layoutRows E log < 2 ^ 15)"

definition env_ok :: "'c vd_env \<Rightarrow> bool" where
  "env_ok E \<longleftrightarrow> kconfig_laws (env_kconfig E) \<and> net_layout_bounded E"

section \<open>The grid after an update\<close>

lemma concat_grid_horizontal: "concat (grid_horizontal w h ds) = take (w * h) ds"
  by (induction w h ds rule: grid_horizontal.induct) (auto simp: take_add)

lemma grid_horizontal_shape:
  "length (grid_horizontal w h ds) = h" "row \<in> set (grid_horizontal w h ds) \<Longrightarrow> length row \<le> w"
  by (induction w h ds rule: grid_horizontal.induct) auto

lemma grid_deal_mset:
  "grid_deal g ds = (g', ds') \<Longrightarrow> mset (concat g') + mset ds' = mset (concat g) + mset ds"
  by (induction g ds arbitrary: g' ds' rule: grid_deal.induct) (auto split: prod.splits)

lemma grid_deal_shape:
  "grid_deal g ds = (g', ds') \<Longrightarrow>
   length g' = length g \<and> length ds' = length ds - length g \<and>
   ((\<forall>row \<in> set g. length row \<le> n) \<longrightarrow> (\<forall>row \<in> set g'. length row \<le> Suc n))"
  by (induction g ds arbitrary: g' ds' rule: grid_deal.induct) (auto split: prod.splits)

lemma grid_vertical_ok:
  "length ds \<le> w * length g \<Longrightarrow> \<forall>row \<in> set g. length row \<le> n \<Longrightarrow>
   length (grid_vertical w g ds) = length g \<and>
   (\<forall>row \<in> set (grid_vertical w g ds). length row \<le> w + n) \<and>
   mset (concat (grid_vertical w g ds)) = mset (concat g) + mset ds"
proof (induction w g ds arbitrary: n rule: grid_vertical.induct)
  case (1 g ds)
  then show ?case by simp
next
  case (2 w g ds)
  obtain g' ds' where deal: "grid_deal g ds = (g', ds')" by fastforce
  note shape = grid_deal_shape [OF deal, of n]
  have "length ds' \<le> w * length g'" using shape "2.prems"(1) by auto
  with "2.IH" [OF deal [symmetric], of "Suc n"] shape "2.prems"(2) grid_deal_mset [OF deal]
  show ?case by (auto simp: deal)
qed

lemma grid_update_ok:
  assumes "length ds \<le> w * h"
  shows "grid_ok (int w, int h) (grid_update w h ori ds) ds"
proof (cases ori)
  case Horizontal
  then show ?thesis
    using assms grid_horizontal_shape(2)
    by (auto simp: grid_update_def grid_ok_def grid_horizontal_shape(1) concat_grid_horizontal)
next
  case Vertical
  have empty: "concat (replicate h []) = []" by (induction h) auto
  have "length ds \<le> w * length (replicate h [])" using assms by simp
  from grid_vertical_ok [OF this, of 0] Vertical empty show ?thesis
    by (auto simp: grid_update_def grid_ok_def)
qed

section \<open>Growing the layout\<close>

lemma unat_small_mult:
  fixes a b :: "32 word"
  assumes "unat a \<le> 2 ^ 15" and "unat b \<le> 2 ^ 15"
  shows "unat (a * b) = unat a * unat b"
proof -
  have "unat a * unat b \<le> 2 ^ 15 * 2 ^ 15" using assms by (intro mult_le_mono)
  then show ?thesis by (simp add: unat_word_ariths)
qed

lemma unat_small_Suc: "unat (a :: 32 word) \<le> 2 ^ 15 \<Longrightarrow> unat (a + 1) = Suc (unat a)"
  by (simp add: unat_word_ariths)

lemma grow_layout_returns:
  assumes "unat w \<le> 2 ^ 15" and "unat h \<le> 2 ^ 15" and "unat cnt \<le> 20"
    and "1 \<le> unat w" and "1 \<le> unat h"
  shows "\<exists>w' h'. grow_layout ori cnt w h = Some (w', h') \<and> unat w' \<le> 2 ^ 15 \<and> unat h' \<le> 2 ^ 15 \<and>
    unat cnt \<le> unat w' * unat h' \<and> 1 \<le> unat h'"
  using assms
proof (induction "2 * unat cnt - (unat w + unat h)" arbitrary: w h rule: less_induct)
  case less
  note prod = unat_small_mult [OF less.prems(1,2)]
  show ?case
  proof (cases "w * h < cnt")
    case False
    then show ?thesis
      using less.prems prod by (subst grow_layout.simps) (auto simp: word_less_nat_alt)
  next
    case True
    then have small: "unat w * unat h < unat cnt" using prod by (simp add: word_less_nat_alt)
    have "unat w \<le> unat w * unat h" "unat h \<le> unat w * unat h" using less.prems(4,5) by auto
    with small have lt: "unat w < unat cnt" "unat h < unat cnt" by linarith+
    have "\<exists>w' h'. grow_layout ori cnt (w + 1) h = Some (w', h') \<and> unat w' \<le> 2 ^ 15 \<and>
        unat h' \<le> 2 ^ 15 \<and> unat cnt \<le> unat w' * unat h' \<and> 1 \<le> unat h'"
      using less.prems lt by (intro less.hyps) (auto simp: unat_small_Suc)
    moreover have "\<exists>w' h'. grow_layout ori cnt w (h + 1) = Some (w', h') \<and> unat w' \<le> 2 ^ 15 \<and>
        unat h' \<le> 2 ^ 15 \<and> unat cnt \<le> unat w' * unat h' \<and> 1 \<le> unat h'"
      using less.prems lt by (intro less.hyps) (auto simp: unat_small_Suc)
    ultimately show ?thesis
      using True by (subst grow_layout.simps) (auto split: orientation.splits)
  qed
qed


lemma sint_small: "unat (a :: 32 word) \<le> 2 ^ 15 \<Longrightarrow> sint a = int (unat a)"
proof -
  assume "unat a \<le> 2 ^ 15"
  then have "uint a \<le> int (2 ^ 15)" by (simp only: unat_eq_nat_uint nat_le_iff)
  then have "uint a < 2 ^ 31" by simp
  moreover have "- (2 ^ 31) \<le> uint a" by (rule order_trans [OF _ uint_ge_0]) simp
  ultimately have "signed_take_bit 31 (uint a) = uint a" by (intro signed_take_bit_int_eq_self)
  then show ?thesis by (simp add: sint_uint)
qed

lemma setNETDesktopLayout_returns:
  assumes "vdm_count s \<le> vdm_maximum"
    and "1 \<le> unat width" "unat width \<le> 2 ^ 15" "1 \<le> unat height" "unat height \<le> 2 ^ 15"
  shows "\<exists>r sz g evs. vdm_setNETDesktopLayout ori width height s =
      Returns (s\<lparr>vm_rows := r, vm_size := sz, vm_grid := g, vm_log := vm_log s @ evs\<rparr>) \<and>
      1 \<le> r \<and> grid_ok sz g (vm_desktops s)"
proof -
  have cnt: "unat (of_nat (vdm_count s) :: 32 word) = vdm_count s"
    using assms(1) by (simp add: unat_of_nat vdm_maximum_def)
  have pos: "0 < width" "0 < height" "width \<noteq> 0" "height \<noteq> 0"
    using assms(2,4) by (auto simp: word_less_nat_alt)
  obtain w h where grow: "grow_layout ori (of_nat (vdm_count s)) width height = Some (w, h)"
      "unat w \<le> 2 ^ 15" "unat h \<le> 2 ^ 15" "vdm_count s \<le> unat w * unat h" "1 \<le> unat h"
    using grow_layout_returns [of width height "of_nat (vdm_count s)" ori] assms cnt
    by (auto simp: vdm_maximum_def)
  have "grid_ok (sint w, sint h) (grid_update (unat w) (unat h) ori (vm_desktops s)) (vm_desktops s)"
    using grid_update_ok [of "vm_desktops s" "unat w" "unat h" ori] grow
    by (simp add: sint_small vdm_count_def)
  moreover have "vdm_setNETDesktopLayout ori width height s =
      Returns (s\<lparr>vm_rows := max 1 (unat h), vm_size := (sint w, sint h),
        vm_grid := grid_update (unat w) (unat h) ori (vm_desktops s),
        vm_log := vm_log s @ [LayoutChanged (sint w) (sint h), RowsChanged (unat h)]\<rparr>)"
    using pos grow(1) by (simp add: vdm_setNETDesktopLayout_def emit_def Let_def)
  ultimately show ?thesis by (metis max.cobounded1)
qed

lemma unat_of_int_small: "0 \<le> c \<Longrightarrow> c < 2 ^ 32 \<Longrightarrow> unat (of_int c :: 32 word) = nat c"
  by (simp add: unat_eq_nat_uint uint_word_of_int_eq take_bit_eq_mod)

lemma default_layout:
  "1 \<le> n \<Longrightarrow> n \<le> vdm_maximum \<Longrightarrow> 1 \<le> r \<Longrightarrow> r \<le> n \<Longrightarrow> 1 \<le> n div r \<and> n div r \<le> 20"
  by (metis One_nat_def Suc_leI div_greater_zero_iff div_le_dividend le_trans less_le_trans
      less_numeral_extra(1) vdm_maximum_def)

text \<open>The one fact the other operations need of the layout code.\<close>

lemma updateLayout_returns:
  assumes "1 \<le> vdm_count s" "vdm_count s \<le> vdm_maximum" "1 \<le> vm_rows s"
    and "vm_rootInfo s \<Longrightarrow> net_layout_bounded E"
  shows "\<exists>r sz g evs. vdm_updateLayout E s =
      Returns (s\<lparr>vm_rows := r, vm_size := sz, vm_grid := g, vm_log := vm_log s @ evs\<rparr>) \<and>
      1 \<le> r \<and> grid_ok sz g (vm_desktops s)"
proof -
  define c0 r0 ori where "c0 = (if vm_rootInfo s then env_layoutColumns E (vm_log s)
       else int (vdm_count s div min (vm_rows s) (vdm_count s)))"
    and "r0 = (if vm_rootInfo s then nat (max 1 (env_layoutRows E (vm_log s)))
       else min (vm_rows s) (vdm_count s))"
    and "ori = (if vm_rootInfo s then env_layoutOrientation E (vm_log s) else Horizontal)"
  define c r where "c = (if c0 = 0 then int (vdm_count s div (if vdm_count s = 1 then 1 else 2)) else c0)"
    and "r = (if c0 = 0 then (if vdm_count s = 1 then 1 else 2) else r0)"
  have r: "1 \<le> r" "r \<le> 2 ^ 15" using assms
    by (auto simp: r_def r0_def net_layout_bounded_def vdm_maximum_def nat_le_iff less_imp_le)
  have "0 \<le> c0" "c0 \<le> 2 ^ 15"
    using assms default_layout [of "vdm_count s" "min (vm_rows s) (vdm_count s)"]
    by (auto simp: c0_def net_layout_bounded_def less_imp_le)
  then have c: "1 \<le> c" "c \<le> 2 ^ 15"
    using assms(1,2) default_layout [of "vdm_count s" "if vdm_count s = 1 then 1 else 2"]
    by (auto simp: c_def)
  have "\<exists>r' sz g evs. vdm_setNETDesktopLayout ori (of_int c) (of_nat r) (s\<lparr>vm_rows := r\<rparr>) =
      Returns ((s\<lparr>vm_rows := r\<rparr>)\<lparr>vm_rows := r', vm_size := sz, vm_grid := g,
        vm_log := vm_log (s\<lparr>vm_rows := r\<rparr>) @ evs\<rparr>) \<and> 1 \<le> r' \<and> grid_ok sz g (vm_desktops (s\<lparr>vm_rows := r\<rparr>))"
    using r c assms(2)
    by (intro setNETDesktopLayout_returns) (auto simp: unat_of_int_small unat_of_nat vdm_count_def)
  moreover have "vdm_updateLayout E s = vdm_setNETDesktopLayout ori (of_int c) (of_nat r) (s\<lparr>vm_rows := r\<rparr>)"
    using assms(1,3) unfolding vdm_updateLayout_def Let_def c_def r_def c0_def r0_def ori_def
    by (auto split: if_splits)
  ultimately show ?thesis by auto
qed


section \<open>Frames\<close>

text \<open>
  Most operations touch the heap of desktop objects and the log only: they keep the core of the
  manager, which is every other field.
\<close>

definition vm_core where
  "vm_core s = (vm_fresh s, vm_ids s, vm_desktops s, vm_current s, vm_rows s,
     vm_navigationWrapsAround s, vm_size s, vm_grid s, vm_rootInfo s, vm_config s, vm_loading s)"

lemma vm_coreD:
  assumes "vm_core t = vm_core s"
  shows "vm_fresh t = vm_fresh s" "vm_ids t = vm_ids s" "vm_desktops t = vm_desktops s"
    "vm_current t = vm_current s" "vm_rows t = vm_rows s" "vm_size t = vm_size s"
    "vm_grid t = vm_grid s" "vm_rootInfo t = vm_rootInfo s" "vm_config t = vm_config s"
    "vm_loading t = vm_loading s" "vdm_count t = vdm_count s"
    "vm_navigationWrapsAround t = vm_navigationWrapsAround s"
  using assms by (simp_all add: vm_core_def vdm_count_def)

lemma emit_frame [simp]: "vm_core (emit e s) = vm_core s" "vm_heap (emit e s) = vm_heap s"
  by (simp_all add: vm_core_def emit_def)

lemma root_call_frame [simp]:
  "vm_core (root_call e s) = vm_core s" "vm_heap (root_call e s) = vm_heap s"
  by (simp_all add: root_call_def)

lemma vd_upd_frame [simp]: "vm_core (vd_upd a f s) = vm_core s"
    "vm_heap (vd_upd a f s) = (vm_heap s)(a := f (vm_heap s a))"
  by (simp_all add: vm_core_def vd_upd_def)

lemma setX11DesktopNumber_frame [simp]:
  "vm_core (vd_setX11DesktopNumber a n s) = vm_core s"
  "vm_heap (vd_setX11DesktopNumber a n s) =
     (vm_heap s)(a := (vm_heap s a)\<lparr>vd_x11DesktopNumber := n\<rparr>)"
  by (auto simp: vd_setX11DesktopNumber_def Let_def)

lemma setName_frame [simp]:
  "vm_core (vd_setName b a n s) = vm_core s"
  "vm_heap (vd_setName b a n s) = (vm_heap s)(a := (vm_heap s a)\<lparr>vd_name := n\<rparr>)"
  by (auto simp: vd_setName_def Let_def)

lemma announce_frame [simp]:
  "vm_core (vdm_announce_name d s) = vm_core s" "vm_heap (vdm_announce_name d s) = vm_heap s"
  by (simp_all add: vdm_announce_name_def)

lemma renumber1_frame [simp]:
  "vm_core (vdm_renumber1 i s) = vm_core s"
  "vm_heap (vdm_renumber1 i s) = (vm_heap s)(vm_desktops s ! i :=
     (vm_heap s (vm_desktops s ! i))\<lparr>vd_x11DesktopNumber := Suc i\<rparr>)"
  by (auto simp: vdm_renumber1_def Let_def)

lemmas frame_fields [simp] =
  vm_coreD [OF emit_frame(1)] vm_coreD [OF root_call_frame(1)] vm_coreD [OF vd_upd_frame(1)]
  vm_coreD [OF setX11DesktopNumber_frame(1)] vm_coreD [OF setName_frame(1)]
  vm_coreD [OF announce_frame(1)] vm_coreD [OF renumber1_frame(1)]

lemma renumber_fold:
  assumes "distinct (vm_desktops s)" and "\<forall>j \<in> set js. j < vdm_count s"
  shows "vm_core (fold vdm_renumber1 js s) = vm_core s \<and>
    (\<forall>i < vdm_count s. vd_x11DesktopNumber (vm_heap (fold vdm_renumber1 js s) (vm_desktops s ! i)) =
       (if i \<in> set js then Suc i else vd_x11DesktopNumber (vm_heap s (vm_desktops s ! i)))) \<and>
    (\<forall>a. vd_id (vm_heap (fold vdm_renumber1 js s) a) = vd_id (vm_heap s a) \<and>
         vd_name (vm_heap (fold vdm_renumber1 js s) a) = vd_name (vm_heap s a))"
  using assms
proof (induction js arbitrary: s)
  case Nil
  then show ?case by simp
next
  case (Cons j js)
  let ?t = "vdm_renumber1 j s"
  have IH: "vm_core (fold vdm_renumber1 js ?t) = vm_core s"
    "\<And>i. i < vdm_count s \<Longrightarrow>
      vd_x11DesktopNumber (vm_heap (fold vdm_renumber1 js ?t) (vm_desktops s ! i)) =
        (if i \<in> set js then Suc i else vd_x11DesktopNumber (vm_heap ?t (vm_desktops s ! i)))"
    "\<And>a. vd_id (vm_heap (fold vdm_renumber1 js ?t) a) = vd_id (vm_heap s a) \<and>
        vd_name (vm_heap (fold vdm_renumber1 js ?t) a) = vd_name (vm_heap s a)"
    using Cons.IH [of ?t] Cons.prems by simp_all
  have "vd_x11DesktopNumber (vm_heap ?t (vm_desktops s ! i)) =
      (if i = j then Suc i else vd_x11DesktopNumber (vm_heap s (vm_desktops s ! i)))"
    if "i < vdm_count s" for i
    using that Cons.prems by (auto simp: vdm_count_def nth_eq_iff_index_eq)
  with IH show ?case by simp
qed

lemma renumber:
  assumes "distinct (vm_desktops s)"
  shows "vm_core (vdm_renumber k s) = vm_core s"
    and "i < vdm_count s \<Longrightarrow> vd_x11DesktopNumber (vm_heap (vdm_renumber k s) (vm_desktops s ! i)) =
       (if k \<le> i then Suc i else vd_x11DesktopNumber (vm_heap s (vm_desktops s ! i)))"
    and "vd_id (vm_heap (vdm_renumber k s) a) = vd_id (vm_heap s a)"
    and "vd_name (vm_heap (vdm_renumber k s) a) = vd_name (vm_heap s a)"
  using renumber_fold [OF assms, of "[k..<vdm_count s]"] by (auto simp: vdm_renumber_def)


section \<open>Saving and laying out\<close>

lemma save_prune_returns:
  assumes "kconfig_laws K"
  shows "\<exists>c'. save_prune K i c = Some c'"
proof (induction "card {k. kc_hasKey K c k}" arbitrary: i c rule: less_induct)
  case less
  let ?d = "kc_deleteEntry K (kc_deleteEntry K c (KId i)) (KName i)"
  show ?case
  proof (cases "kc_hasKey K c (KId i)")
    case True
    have "{k. kc_hasKey K ?d k} \<subset> {k. kc_hasKey K c k}" and "finite {k. kc_hasKey K c k}"
      using True assms by (auto simp: kconfig_laws_def)
    then have "card {k. kc_hasKey K ?d k} < card {k. kc_hasKey K c k}" by (rule psubset_card_mono [rotated])
    then have "\<exists>c'. save_prune K (Suc i) ?d = Some c'" by (rule less)
    with True show ?thesis by (subst save_prune.simps) simp
  next
    case False
    then show ?thesis by (subst save_prune.simps) simp
  qed
qed

lemma save_entry_frame [simp]:
  "vm_core (fst (save_entry E i sc)) = vm_core (fst sc)"
  "vm_heap (fst (save_entry E i sc)) = vm_heap (fst sc)"
  by (auto simp: save_entry_def Let_def split: prod.splits)

lemma save_entries_frame [simp]:
  "vm_core (fst (fold (save_entry E) is sc)) = vm_core (fst sc)"
  "vm_heap (fst (fold (save_entry E) is sc)) = vm_heap (fst sc)"
  by (induction "is" arbitrary: sc) simp_all

lemma save_returns:
  assumes "kconfig_laws (env_kconfig E)"
  shows "\<exists>s'. vdm_save E s = Returns s' \<and> vm_heap s' = vm_heap s \<and>
    vm_core s' = vm_core (s\<lparr>vm_config := vm_config s'\<rparr>)"
proof (cases "vm_config s")
  case None
  then show ?thesis by (auto simp: vdm_save_def vm_core_def)
next
  case (Some c)
  let ?K = "env_kconfig E"
  obtain c0 where c0: "save_prune ?K (vdm_count s + 1) c = Some c0"
    using save_prune_returns [OF assms] by blast
  obtain s1 c1 where fold: "fold (save_entry E) [1..<vdm_count s + 1]
      (s, kc_writeInt ?K c0 KNumber (int (vdm_count s))) = (s1, c1)"
    by fastforce
  then have "vm_core s1 = vm_core s" "vm_heap s1 = vm_heap s"
    using save_entries_frame [of E "[1..<vdm_count s + 1]" "(s, kc_writeInt ?K c0 KNumber (int (vdm_count s)))"]
    by simp_all
  with Some c0 fold show ?thesis
    by (auto simp: vdm_save_def vm_core_def Let_def)
qed

lemma updateRootInfo_returns:
  assumes "1 \<le> vdm_count s" "vdm_count s \<le> vdm_maximum" "1 \<le> vm_rows s" and "net_layout_bounded E"
  shows "\<exists>r sz g log. vdm_updateRootInfo E s =
      Returns (s\<lparr>vm_rows := r, vm_size := sz, vm_grid := g, vm_log := log\<rparr>) \<and>
      1 \<le> r \<and> grid_ok sz g (vm_desktops s)"
proof -
  let ?t = "if vm_rootInfo s then emit (RootSetDesktopViewport (vdm_count s))
      (emit (RootSetNumberOfDesktops (vdm_count s)) s) else s"
  have t: "?t = s\<lparr>vm_log := vm_log ?t\<rparr>" by (simp add: emit_def)
  have "vdm_count ?t = vdm_count s" "vm_rows ?t = vm_rows s"
    by (subst t, simp add: vdm_count_def)+
  then obtain r sz g evs where u: "vdm_updateLayout E ?t =
      Returns (?t\<lparr>vm_rows := r, vm_size := sz, vm_grid := g, vm_log := vm_log ?t @ evs\<rparr>)"
      "1 \<le> r" "grid_ok sz g (vm_desktops ?t)"
    using updateLayout_returns [of ?t E] assms by metis
  have "vdm_updateRootInfo E s = vdm_updateLayout E ?t" by (simp add: vdm_updateRootInfo_def)
  moreover have "?t\<lparr>vm_rows := r, vm_size := sz, vm_grid := g, vm_log := vm_log ?t @ evs\<rparr> =
      s\<lparr>vm_rows := r, vm_size := sz, vm_grid := g, vm_log := vm_log ?t @ evs\<rparr>"
    by (subst (1) t) simp
  moreover have "vm_desktops ?t = vm_desktops s" by (subst t) simp
  ultimately show ?thesis using u by metis
qed

text \<open>Operations that add or remove desktops end by saving and laying out; this is that tail.\<close>

lemma settle:
  assumes "env_ok E" and "desktops_ok s"
  obtains s9 s10 where "vdm_save E s = Returns s9" and "vdm_updateRootInfo E s9 = Returns s10"
    and "vdm_inv s10" and "vm_desktops s10 = vm_desktops s" and "vm_current s10 = vm_current s"
    and "vm_heap s10 = vm_heap s" and "vm_loading s10 = vm_loading s"
proof -
  obtain s9 where s9: "vdm_save E s = Returns s9" "vm_heap s9 = vm_heap s"
      "vm_core s9 = vm_core (s\<lparr>vm_config := vm_config s9\<rparr>)"
    using save_returns assms(1) unfolding env_ok_def by blast
  have same: "vm_fresh s9 = vm_fresh s" "vm_desktops s9 = vm_desktops s" "vm_current s9 = vm_current s"
      "vm_rows s9 = vm_rows s" "vdm_count s9 = vdm_count s" "vm_loading s9 = vm_loading s"
    using vm_coreD [OF s9(3)] by (simp_all add: vdm_count_def)
  obtain r sz g log where u: "vdm_updateRootInfo E s9 =
      Returns (s9\<lparr>vm_rows := r, vm_size := sz, vm_grid := g, vm_log := log\<rparr>)"
      "1 \<le> r" "grid_ok sz g (vm_desktops s9)"
    using updateRootInfo_returns [of s9 E] assms same by (auto simp: desktops_ok_def env_ok_def)
  have "vdm_inv (s9\<lparr>vm_rows := r, vm_size := sz, vm_grid := g, vm_log := log\<rparr>)"
    using assms(2) u(2,3) same s9(2) by (simp add: vdm_inv_def desktops_ok_def vdm_count_def)
  with that [OF s9(1) u(1)] same s9(2) show thesis by simp
qed


section \<open>Adding and removing desktops\<close>

lemma desktops_ok_fields:
  assumes "desktops_ok s"
  shows "distinct (vm_desktops s)" "1 \<le> vdm_count s" "vdm_count s \<le> vdm_maximum"
    "vm_fresh s \<notin> set (vm_desktops s)" "1 \<le> vm_rows s"
    "i < vdm_count s \<Longrightarrow> vd_x11DesktopNumber (vm_heap s (vm_desktops s ! i)) = Suc i"
  using assms by (auto simp: desktops_ok_def)

lemma number_of_desktop:
  assumes "desktops_ok s" and "d \<in> set (vm_desktops s)"
  obtains i where "i < vdm_count s" "vm_desktops s ! i = d" "vd_x11DesktopNumber (vm_heap s d) = Suc i"
  using assms by (metis desktops_ok_fields(6) in_set_conv_nth vdm_count_def)

lemma insert_desktop_ok:
  assumes ok: "desktops_ok s" and room: "vdm_count s < vdm_maximum" and pos: "pos \<le> vdm_count s"
    and t: "vm_desktops t = insert_at pos (vm_fresh s) (vm_desktops s)"
      "vm_heap t = (vm_heap s)(vm_fresh s := ob)" "vd_x11DesktopNumber ob = Suc pos"
      "vm_fresh t = Suc (vm_fresh s)" "vm_current t = vm_current s" "vm_rows t = vm_rows s"
  shows "desktops_ok (vdm_renumber (Suc pos) t)"
    and "vm_core (vdm_renumber (Suc pos) t) = vm_core t"
proof -
  let ?ds = "vm_desktops s" and ?u = "vdm_renumber (Suc pos) t"
  note s = desktops_ok_fields [OF ok]
  have dist: "distinct (vm_desktops t)" using s t by simp
  note ren = renumber [OF dist, where k = "Suc pos"]
  show core: "vm_core ?u = vm_core t" by (rule ren(1))
  have cnt: "vdm_count t = Suc (vdm_count s)" using t by (simp add: vdm_count_def)
  have "vd_x11DesktopNumber (vm_heap ?u (vm_desktops t ! i)) = Suc i" if "i < vdm_count t" for i
  proof (cases "Suc pos \<le> i")
    case True
    with ren(2) [OF that] show ?thesis by simp
  next
    case False
    have "vd_x11DesktopNumber (vm_heap t (vm_desktops t ! i)) = Suc i"
    proof (cases "i = pos")
      case True
      then show ?thesis using t pos by (simp add: insert_at_def vdm_count_def nth_append)
    next
      case neq: False
      then have "vm_desktops t ! i = ?ds ! i" "i < vdm_count s"
        using False t(1) pos by (auto simp: insert_at_def vdm_count_def nth_append)
      moreover from this have "?ds ! i \<noteq> vm_fresh s" using s(4) by (metis nth_mem vdm_count_def)
      ultimately show ?thesis using s(6) [of i] t(2) by simp
    qed
    with ren(2) [OF that] False show ?thesis by simp
  qed
  moreover have "\<forall>d \<in> set (vm_desktops t). d < vm_fresh t"
    using ok t by (auto simp: desktops_ok_def less_SucI)
  moreover have "set_option (vm_current t) \<subseteq> set (vm_desktops t)"
    using ok t by (auto simp: desktops_ok_def)
  ultimately show "desktops_ok ?u"
    using dist room cnt t(6) s(5) by (simp add: desktops_ok_def vm_coreD [OF core])
qed

lemma createVirtualDesktop_prefix:
  assumes "vdm_count s \<noteq> vdm_maximum" and pos: "pos = min position (vdm_count s)"
  obtains t where
    "vdm_createVirtualDesktop E position nm s =
       obind (vdm_save E (vdm_renumber (Suc pos) t)) (\<lambda>s9. obind (vdm_updateRootInfo E s9) (\<lambda>s10.
         Returns (Some (vm_fresh s), emit (CountChanged (vdm_count s10 - 1) (vdm_count s10))
           (emit (DesktopCreated (vm_fresh s)) s10))))"
    and "vm_desktops t = insert_at pos (vm_fresh s) (vm_desktops s)"
    and "vm_heap t = (vm_heap s)(vm_fresh s :=
           \<lparr>vd_id = env_generateDesktopId E (vm_ids s), vd_name = nm, vd_x11DesktopNumber = Suc pos\<rparr>)"
    and "vm_fresh t = Suc (vm_fresh s)" "vm_current t = vm_current s" "vm_rows t = vm_rows s"
    and "vm_loading t = vm_loading s"
proof -
  let ?d = "vm_fresh s"
  define t0 where "t0 = vdm_announce_name ?d (vd_setName False ?d nm
     (vd_upd ?d (\<lambda>d. d\<lparr>vd_id := env_generateDesktopId E (vm_ids s)\<rparr>)
       ((vd_setX11DesktopNumber ?d (Suc pos) (snd (vd_new s)))\<lparr>vm_ids := Suc (vm_ids s)\<rparr>)))"
  have b: "qBound 0 position (vdm_count s) = pos" by (simp add: qBound_def pos min.commute)
  show thesis
  proof (rule that [of "t0\<lparr>vm_desktops := insert_at pos ?d (vm_desktops t0)\<rparr>"])
    show "vdm_createVirtualDesktop E position nm s =
       obind (vdm_save E (vdm_renumber (Suc pos) (t0\<lparr>vm_desktops := insert_at pos ?d (vm_desktops t0)\<rparr>)))
         (\<lambda>s9. obind (vdm_updateRootInfo E s9) (\<lambda>s10.
         Returns (Some ?d, emit (CountChanged (vdm_count s10 - 1) (vdm_count s10))
           (emit (DesktopCreated ?d) s10))))"
      using assms(1)
      by (simp add: vdm_createVirtualDesktop_def t0_def vd_new_def vdm_generateDesktopId_def
          vd_setId_def Let_def b)
  qed (simp_all add: t0_def vd_new_def)
qed


lemma createVirtualDesktop_returns:
  assumes "env_ok E" and "vdm_inv s"
  shows "\<exists>r s'. vdm_createVirtualDesktop E position nm s = Returns (r, s') \<and> vdm_inv s' \<and>
    vm_current s' = vm_current s \<and>
    (if vdm_count s = vdm_maximum then r = None \<and> s' = s
     else r = Some (vm_fresh s) \<and> vm_fresh s \<notin> set (vm_desktops s) \<and>
       vm_desktops s' = insert_at (min position (vdm_count s)) (vm_fresh s) (vm_desktops s) \<and>
       vd_name (vm_heap s' (vm_fresh s)) = nm)"
proof (cases "vdm_count s = vdm_maximum")
  case True
  with assms(2) show ?thesis by (simp add: vdm_createVirtualDesktop_def)
next
  case False
  have ok: "desktops_ok s" using assms(2) by (simp add: vdm_inv_def)
  note fields = desktops_ok_fields [OF ok]
  have room: "vdm_count s < vdm_maximum" using False fields(3) by simp
  define pos where "pos = min position (vdm_count s)"
  obtain t where t: "vdm_createVirtualDesktop E position nm s =
       obind (vdm_save E (vdm_renumber (Suc pos) t)) (\<lambda>s9. obind (vdm_updateRootInfo E s9) (\<lambda>s10.
         Returns (Some (vm_fresh s), emit (CountChanged (vdm_count s10 - 1) (vdm_count s10))
           (emit (DesktopCreated (vm_fresh s)) s10))))"
    and tf: "vm_desktops t = insert_at pos (vm_fresh s) (vm_desktops s)"
      "vm_heap t = (vm_heap s)(vm_fresh s :=
           \<lparr>vd_id = env_generateDesktopId E (vm_ids s), vd_name = nm, vd_x11DesktopNumber = Suc pos\<rparr>)"
      "vm_fresh t = Suc (vm_fresh s)" "vm_current t = vm_current s" "vm_rows t = vm_rows s"
    by (rule createVirtualDesktop_prefix [OF False pos_def])
  have "pos \<le> vdm_count s" by (simp add: pos_def)
  note u = insert_desktop_ok [OF ok room this tf(1,2) _ tf(3,4,5), simplified]
  obtain s9 s10 where s10: "vdm_save E (vdm_renumber (Suc pos) t) = Returns s9"
      "vdm_updateRootInfo E s9 = Returns s10" "vdm_inv s10"
      "vm_desktops s10 = vm_desktops (vdm_renumber (Suc pos) t)"
      "vm_current s10 = vm_current (vdm_renumber (Suc pos) t)"
      "vm_heap s10 = vm_heap (vdm_renumber (Suc pos) t)"
    by (rule settle [OF assms(1) u(1)])
  have "distinct (vm_desktops t)" using tf(1) fields(1,4) by simp
  from renumber(4) [OF this] tf(2) s10(6)
  have "vd_name (vm_heap s10 (vm_fresh s)) = nm" by simp
  moreover have "vdm_inv (emit e1 (emit e2 s10))" for e1 e2
    using s10(3) by (simp add: vdm_inv_def desktops_ok_def)
  ultimately show ?thesis
    using False fields(4) s10(1,2,4,5) vm_coreD [OF u(2)] tf
    by (auto simp: t pos_def)
qed

lemma removed_desktops_ok:
  assumes ok: "desktops_ok s" and k: "k < vdm_count s" and two: "vdm_count s \<noteq> 1"
    and t: "t = vdm_renumber k (s\<lparr>vm_desktops := remove_nth k (vm_desktops s)\<rparr>)"
    and c: "c < vdm_count s - 1"
  shows "desktops_ok (t\<lparr>vm_current := Some (vm_desktops t ! c)\<rparr>)"
    and "vm_desktops t = removeAll (vm_desktops s ! k) (vm_desktops s)"
    and "vdm_count t = vdm_count s - 1"
    and "i < vdm_count t \<Longrightarrow> vd_x11DesktopNumber (vm_heap t (vm_desktops t ! i)) = Suc i"
proof -
  let ?s1 = "s\<lparr>vm_desktops := remove_nth k (vm_desktops s)\<rparr>"
  note s = desktops_ok_fields [OF ok]
  have rm: "remove_nth k (vm_desktops s) = removeAll (vm_desktops s ! k) (vm_desktops s)"
    using s(1) k by (simp add: remove_nth_eq_removeAll vdm_count_def)
  have dist: "distinct (vm_desktops ?s1)" using s(1) rm by (simp add: distinct_removeAll)
  note ren = renumber [OF dist, where k = k]
  have core: "vm_core t = vm_core ?s1" using ren(1) t by simp
  have cnt: "vdm_count ?s1 = vdm_count s - 1" using k by (simp add: vdm_count_def)
  show ds: "vm_desktops t = removeAll (vm_desktops s ! k) (vm_desktops s)"
    using vm_coreD(3) [OF core] rm by simp
  show ct: "vdm_count t = vdm_count s - 1" using vm_coreD(11) [OF core] cnt by simp
  have number: "vd_x11DesktopNumber (vm_heap t (vm_desktops t ! i)) = Suc i" if "i < vdm_count t" for i
  proof (cases "k \<le> i")
    case True
    with ren(2) [of i] that ct cnt vm_coreD(3) [OF core] show ?thesis by (simp add: t)
  next
    case False
    then have "vm_desktops ?s1 ! i = vm_desktops s ! i"
      using k by (simp add: remove_nth_def nth_append vdm_count_def)
    with False ren(2) [of i] that ct cnt s(6) [of i] vm_coreD(3) [OF core] show ?thesis
      by (simp add: t)
  qed
  then show "i < vdm_count t \<Longrightarrow> vd_x11DesktopNumber (vm_heap t (vm_desktops t ! i)) = Suc i" .
  have "vm_desktops t ! c \<in> set (vm_desktops t)" using c ct by (simp add: vdm_count_def)
  moreover have "\<forall>d \<in> set (vm_desktops t). d < vm_fresh t"
    using ok ds vm_coreD(1) [OF core] by (auto simp: desktops_ok_def)
  ultimately show "desktops_ok (t\<lparr>vm_current := Some (vm_desktops t ! c)\<rparr>)"
    using number ct s(2,3,5) two vm_coreD(1,3,5) [OF core] dist
    by (auto simp: desktops_ok_def vdm_count_def)
qed


lemma removeVirtualDesktop_returns:
  assumes "env_ok E" and inv: "vdm_inv s" and cur: "vm_current s = Some cur"
  shows "\<exists>s'. vdm_removeVirtualDesktop E i s = Returns s' \<and> vdm_inv s' \<and> vm_current s' \<noteq> None \<and>
    (if vdm_count s = 1 \<or> vdm_desktopForId s i = None then s' = s
     else vm_desktops s' = removeAll (the (vdm_desktopForId s i)) (vm_desktops s) \<and>
       vdm_current s' = min (vdm_current s) (vdm_count s - 1))"
proof (cases "vdm_count s = 1 \<or> vdm_desktopForId s i = None")
  case True
  with inv cur show ?thesis by (auto simp: vdm_removeVirtualDesktop_def)
next
  case False
  then obtain d where d: "vdm_desktopForId s i = Some d" and two: "vdm_count s \<noteq> 1" by auto
  have ok: "desktops_ok s" using inv by (simp add: vdm_inv_def)
  have "d \<in> set (vm_desktops s)" using d by (auto simp: vdm_desktopForId_def find_Some_iff)
  then obtain k where k: "k < vdm_count s" "vm_desktops s ! k = d"
      "vd_x11DesktopNumber (vm_heap s d) = Suc k"
    by (rule number_of_desktop [OF ok])
  have "cur \<in> set (vm_desktops s)" using ok cur by (auto simp: desktops_ok_def)
  then obtain j where j: "j < vdm_count s" "vd_x11DesktopNumber (vm_heap s cur) = Suc j"
    using number_of_desktop [OF ok] by metis
  define t where "t = vdm_renumber k (s\<lparr>vm_desktops := remove_nth k (vm_desktops s)\<rparr>)"
  define c where "c = min (Suc j) (vdm_count s - 1) - 1"
  have "c < vdm_count s - 1" using j two by (auto simp: c_def)
  note rm = removed_desktops_ok [OF ok k(1) two t_def this]
  have c: "min (Suc j) (vdm_count t) = Suc c" using j two rm(3) by (simp add: c_def)
  define t1 where "t1 = t\<lparr>vm_current := Some (vm_desktops t ! c)\<rparr>"
  define t2 where "t2 = (if Suc j \<noteq> Suc c then emit (CurrentChanged (Suc j) (Suc c)) t1 else t1)"
  have t2: "vm_heap t2 = vm_heap t" "vm_core t2 = vm_core t1"
    by (simp_all add: t2_def t1_def)
  have "desktops_ok t2"
    using rm(1) t2 vm_coreD [OF t2(2)] by (simp add: desktops_ok_def t1_def vdm_count_def)
  then obtain s5 s6 where s6: "vdm_save E t2 = Returns s5" "vdm_updateRootInfo E s5 = Returns s6"
      "vdm_inv s6" "vm_desktops s6 = vm_desktops t2" "vm_current s6 = vm_current t2"
      "vm_heap s6 = vm_heap t2"
    by (rule settle [OF assms(1)])
  let ?out = "emit (DeleteLater d) (emit (CountChanged (vdm_count s6 + 1) (vdm_count s6))
      (emit (DesktopRemoved d) s6))"
  have "vdm_removeVirtualDesktop E i s = Returns ?out"
    using two d cur k j c s6(2) s6(1) [unfolded t2_def]
    by (auto simp: vdm_removeVirtualDesktop_def Let_def t_def [symmetric] t1_def [symmetric]
        split: if_splits)
  moreover have "vdm_inv ?out" using s6(3) by (simp add: vdm_inv_def desktops_ok_def)
  moreover have "vm_current ?out = Some (vm_desktops t ! c)" "vm_desktops ?out = vm_desktops t"
    using s6(4,5) vm_coreD [OF t2(2)] by (simp_all add: t1_def)
  moreover have "vdm_current ?out = Suc c"
    using s6(5,6) t2 vm_coreD(4) [OF t2(2)] rm(3) rm(4) [of c] \<open>c < vdm_count s - 1\<close>
    by (simp add: vdm_current_def t1_def)
  ultimately show ?thesis
    using False d k(2) rm(2) c rm(3) cur j by (simp add: vdm_current_def)
qed

section \<open>Changing the number of desktops\<close>

lemma shrink_ok:
  assumes ok: "desktops_ok s" and n: "1 \<le> n" "n < vdm_count s"
  obtains t where "vdm_shrink n s = Returns t" "desktops_ok t"
    "vm_desktops t = take n (vm_desktops s)" "vm_loading t = vm_loading s"
    "vm_current t = None \<longleftrightarrow> vm_current s = None"
proof -
  let ?ann = "fold (\<lambda>d t. emit (DeleteLater d) (emit (DesktopRemoved d) t)) (drop n (vm_desktops s))"
  have ann: "vm_core (fold (\<lambda>d t. emit (DeleteLater d) (emit (DesktopRemoved d) t)) ds u) = vm_core u"
      "vm_heap (fold (\<lambda>d t. emit (DeleteLater d) (emit (DesktopRemoved d) t)) ds u) = vm_heap u"
    for ds and u :: "'a vdm"
    by (induction ds arbitrary: u) simp_all
  define s1 where "s1 = s\<lparr>vm_desktops := take n (vm_desktops s)\<rparr>"
  note f = desktops_ok_fields [OF ok]
  have base: "distinct (take n (vm_desktops s))" "length (take n (vm_desktops s)) = n"
      "\<forall>d \<in> set (take n (vm_desktops s)). d < vm_fresh s"
      "\<And>i. i < n \<Longrightarrow> vd_x11DesktopNumber (vm_heap s (take n (vm_desktops s) ! i)) = Suc i"
    using ok n by (auto simp: desktops_ok_def vdm_count_def dest: in_set_takeD)
  have good: "desktops_ok (?ann u)" "vm_desktops (?ann u) = take n (vm_desktops s)"
      "vm_loading (?ann u) = vm_loading s" "vm_current (?ann u) = vm_current u"
    if "vm_heap u = vm_heap s" "vm_core u = vm_core (s1\<lparr>vm_current := c\<rparr>)"
      "set_option c \<subseteq> set (take n (vm_desktops s))" for u c
    using vm_coreD [OF ann(1) [of "drop n (vm_desktops s)" u]] vm_coreD [OF that(2)] that(1,3) ann(2) base f n
    by (auto simp: desktops_ok_def s1_def vdm_count_def)
  show thesis
  proof (cases "vm_current s")
    case None
    then have "vdm_shrink n s = Returns (?ann s1)"
      by (simp add: vdm_shrink_def s1_def Let_def)
    moreover have "vm_core s1 = vm_core (s1\<lparr>vm_current := None\<rparr>)"
      using None by (simp add: s1_def vm_core_def)
    ultimately show thesis using that good [of s1 None] None by (simp add: s1_def)
  next
    case (Some cur)
    then have "cur \<in> set (vm_desktops s)" using ok by (auto simp: desktops_ok_def)
    then obtain j where j: "vd_x11DesktopNumber (vm_heap s cur) = Suc j"
      using number_of_desktop [OF ok] by metis
    define c where "c = min (Suc j) n - 1"
    have c: "min (Suc j) n = Suc c" "c < n" using n by (auto simp: c_def)
    define s2 where "s2 = s1\<lparr>vm_current := Some (vm_desktops s1 ! c)\<rparr>"
    define s3 where "s3 = (if Suc j \<noteq> Suc c then emit (CurrentChanged (Suc j) (Suc c)) s2 else s2)"
    have "vdm_shrink n s = Returns (?ann s3)"
      using Some j c by (simp add: vdm_shrink_def vdm_current_def s1_def s2_def s3_def Let_def)
    moreover have "vm_heap s3 = vm_heap s" "vm_core s3 = vm_core s2"
      by (simp_all add: s3_def s2_def s1_def)
    moreover have "vm_desktops s1 ! c \<in> set (take n (vm_desktops s))"
      using c(2) base(2) by (metis nth_mem s1_def vdm.select_convs(4) vdm.surjective vdm.update_convs(4))
    ultimately show thesis
      using that good [of s3 "Some (vm_desktops s1 ! c)"] Some vm_coreD(4) [of s3 s2]
      by (simp add: s2_def)
  qed
qed


text \<open>Well-formedness without the bounds on the count: a manager that is still being filled.\<close>

definition desktops_numbered :: "'c vdm \<Rightarrow> bool" where
  "desktops_numbered s \<longleftrightarrow>
     distinct (vm_desktops s) \<and> (\<forall>d \<in> set (vm_desktops s). d < vm_fresh s) \<and>
     (\<forall>i < vdm_count s. vd_x11DesktopNumber (vm_heap s (vm_desktops s ! i)) = Suc i) \<and>
     set_option (vm_current s) \<subseteq> set (vm_desktops s) \<and> 1 \<le> vm_rows s"

lemma desktops_ok_iff:
  "desktops_ok s \<longleftrightarrow> desktops_numbered s \<and> 1 \<le> vdm_count s \<and> vdm_count s \<le> vdm_maximum"
  by (auto simp: desktops_ok_def desktops_numbered_def)

lemma append_desktop:
  assumes "desktops_numbered s"
  obtains t where "vdm_append_desktop E s = Returns t" "desktops_numbered t"
    "vm_desktops t = vm_desktops s @ [vm_fresh s]" "vm_current t = vm_current s"
    "vm_loading t = vm_loading s" "vm_config t = vm_config s" "vm_rows t = vm_rows s"
    "vm_heap t = (vm_heap s)(vm_fresh s := \<lparr>vd_id = (if vm_loading s then [] else env_generateDesktopId E (vm_ids s)),
       vd_name = env_defaultName E (Suc (vdm_count s)), vd_x11DesktopNumber = Suc (vdm_count s)\<rparr>)"
proof -
  let ?d = "vm_fresh s" and ?n = "Suc (vdm_count s)"
  define t3 where "t3 = vd_setName False ?d (env_defaultName E ?n) (vd_setX11DesktopNumber ?d ?n (snd (vd_new s)))"
  define t4 where "t4 = (if vm_loading s then t3
     else vd_upd ?d (\<lambda>d. d\<lparr>vd_id := env_generateDesktopId E (vm_ids s)\<rparr>) (t3\<lparr>vm_ids := Suc (vm_ids s)\<rparr>))"
  define t where "t = vdm_announce_name ?d (t4\<lparr>vm_desktops := vm_desktops t4 @ [?d]\<rparr>)"
  have run: "vdm_append_desktop E s = Returns t"
    by (simp add: vdm_append_desktop_def vd_new_def vdm_generateDesktopId_def vd_setId_def
        t_def t4_def t3_def Let_def vdm_count_def)
  have f: "vm_desktops t = vm_desktops s @ [?d]" "vm_current t = vm_current s" "vm_fresh t = Suc ?d"
      "vm_loading t = vm_loading s" "vm_config t = vm_config s" "vm_rows t = vm_rows s"
    by (simp_all add: t_def t4_def t3_def vd_new_def)
  have h: "vm_heap t = (vm_heap s)(?d := \<lparr>vd_id = (if vm_loading s then [] else env_generateDesktopId E (vm_ids s)),
       vd_name = env_defaultName E ?n, vd_x11DesktopNumber = ?n\<rparr>)"
    by (auto simp: t_def t4_def t3_def vd_new_def)
  have new: "?d \<notin> set (vm_desktops s)" using assms by (auto simp: desktops_numbered_def)
  then have "\<And>i. i < length (vm_desktops s) \<Longrightarrow> vm_desktops s ! i \<noteq> ?d" by (metis nth_mem)
  then have "desktops_numbered t"
    using assms new unfolding desktops_numbered_def
    by (auto simp: f h vdm_count_def nth_append less_SucI less_Suc_eq)
  with that run f h show thesis by blast
qed

lemma grow_returns:
  assumes "desktops_numbered s"
  shows "\<exists>t. vdm_grow E n s = Returns t \<and> desktops_numbered t \<and> vdm_count t = vdm_count s + n \<and>
    take (vdm_count s) (vm_desktops t) = vm_desktops s \<and> vm_current t = vm_current s \<and>
    vm_loading t = vm_loading s \<and> vm_config t = vm_config s \<and> vm_rows t = vm_rows s \<and>
    (\<forall>d \<in> set (vm_desktops s). vm_heap t d = vm_heap s d) \<and>
    (vm_loading s \<longrightarrow> (\<forall>i. vdm_count s \<le> i \<and> i < vdm_count t \<longrightarrow>
       vd_id (vm_heap t (vm_desktops t ! i)) = [] \<and>
       vd_name (vm_heap t (vm_desktops t ! i)) = env_defaultName E (Suc i)))"
  using assms
proof (induction n arbitrary: s)
  case 0
  then show ?case by (auto simp: vdm_count_def)
next
  case (Suc n)
  obtain u where u: "vdm_append_desktop E s = Returns u" "desktops_numbered u"
    "vm_desktops u = vm_desktops s @ [vm_fresh s]" "vm_current u = vm_current s"
    "vm_loading u = vm_loading s" "vm_config u = vm_config s" "vm_rows u = vm_rows s"
    "vm_heap u = (vm_heap s)(vm_fresh s := \<lparr>vd_id = (if vm_loading s then [] else env_generateDesktopId E (vm_ids s)),
       vd_name = env_defaultName E (Suc (vdm_count s)), vd_x11DesktopNumber = Suc (vdm_count s)\<rparr>)"
    using append_desktop [OF Suc.prems] by metis
  have new: "vm_fresh s \<notin> set (vm_desktops s)" using Suc.prems by (auto simp: desktops_numbered_def)
  obtain t where t: "vdm_grow E n u = Returns t" "desktops_numbered t" "vdm_count t = vdm_count u + n"
      "take (vdm_count u) (vm_desktops t) = vm_desktops u" "vm_current t = vm_current u"
      "vm_loading t = vm_loading u" "vm_config t = vm_config u" "vm_rows t = vm_rows u"
      "\<And>d. d \<in> set (vm_desktops u) \<Longrightarrow> vm_heap t d = vm_heap u d"
      "\<And>i. vm_loading u \<Longrightarrow> vdm_count u \<le> i \<Longrightarrow> i < vdm_count t \<Longrightarrow>
       vd_id (vm_heap t (vm_desktops t ! i)) = [] \<and>
       vd_name (vm_heap t (vm_desktops t ! i)) = env_defaultName E (Suc i)"
    using Suc.IH [OF u(2)] by blast
  have cnt: "vdm_count u = Suc (vdm_count s)" using u(3) by (simp add: vdm_count_def)
  have pre: "take (vdm_count s) (vm_desktops t) = vm_desktops s"
    using arg_cong [OF t(4), of "take (vdm_count s)"] cnt u(3) by (simp add: vdm_count_def min_def)
  have at: "vm_desktops t ! vdm_count s = vm_fresh s"
    using arg_cong [OF t(4), of "\<lambda>xs. xs ! vdm_count s"] cnt u(3) by (simp add: vdm_count_def nth_append)
  have last: "vd_id (vm_heap t (vm_desktops t ! i)) = [] \<and>
       vd_name (vm_heap t (vm_desktops t ! i)) = env_defaultName E (Suc i)"
    if "vm_loading s" "vdm_count s \<le> i" "i < vdm_count t" for i
  proof (cases "i = vdm_count s")
    case True
    with at t(9) [of "vm_fresh s"] u(3,8) that(1) show ?thesis by simp
  next
    case False
    with t(10) [of i] that u(5) cnt show ?thesis by simp
  qed
  have "vm_heap t d = vm_heap s d" if "d \<in> set (vm_desktops s)" for d
    using t(9) [of d] u(3,8) that new by auto
  with t u cnt pre last show ?case by auto
qed

lemma created_frame [simp]:
  "vm_core (fold (\<lambda>d. emit (DesktopCreated d)) ds s) = vm_core s"
  "vm_heap (fold (\<lambda>d. emit (DesktopCreated d)) ds s) = vm_heap s"
  by (induction ds arbitrary: s) simp_all


lemma setCount_returns:
  assumes "env_ok E" and s: "vdm_inv s \<or> desktops_numbered s \<and> vdm_count s = 0"
  shows "\<exists>s'. vdm_setCount E n s = Returns s' \<and> vdm_inv s' \<and>
    vdm_count s' = qBound 1 n vdm_maximum \<and>
    take (vdm_count s) (vm_desktops s') = take (qBound 1 n vdm_maximum) (vm_desktops s) \<and>
    (vm_current s' = None \<longleftrightarrow> vm_current s = None)"
proof (cases "qBound 1 n vdm_maximum = vdm_count s")
  case True
  moreover have "1 \<le> qBound 1 n vdm_maximum" by (simp add: qBound_def)
  ultimately show ?thesis using s by (auto simp: vdm_setCount_def vdm_count_def Let_def)
next
  case False
  let ?n = "qBound 1 n vdm_maximum"
  have n: "1 \<le> ?n" "?n \<le> vdm_maximum" by (auto simp: qBound_def vdm_maximum_def)
  have num: "desktops_numbered s" "vdm_count s \<le> vdm_maximum"
    using s by (auto simp: vdm_inv_def desktops_ok_iff vdm_maximum_def)
  have "\<exists>t. (if vdm_count s > ?n then vdm_shrink ?n s else vdm_grow E (?n - vdm_count s) s) = Returns t \<and>
      desktops_ok t \<and> vdm_count t = ?n \<and> take (vdm_count s) (vm_desktops t) = take ?n (vm_desktops s) \<and>
      (vm_current t = None \<longleftrightarrow> vm_current s = None)"
  proof (cases "vdm_count s > ?n")
    case True
    then have "desktops_ok s" using num n by (simp add: desktops_ok_iff)
    then obtain t where "vdm_shrink ?n s = Returns t" "desktops_ok t"
        "vm_desktops t = take ?n (vm_desktops s)" "vm_current t = None \<longleftrightarrow> vm_current s = None"
      using shrink_ok [OF _ n(1) True] by metis
    with True show ?thesis by (simp add: vdm_count_def min_def)
  next
    case small: False
    obtain t where "vdm_grow E (?n - vdm_count s) s = Returns t" "desktops_numbered t"
        "vdm_count t = vdm_count s + (?n - vdm_count s)"
        "take (vdm_count s) (vm_desktops t) = vm_desktops s" "vm_current t = vm_current s"
      using grow_returns [OF num(1), of E "?n - vdm_count s"] by blast
    with small n show ?thesis by (simp add: desktops_ok_iff vdm_count_def)
  qed
  then obtain t where t: "(if vdm_count s > ?n then vdm_shrink ?n s else vdm_grow E (?n - vdm_count s) s) = Returns t"
      "desktops_ok t" "vdm_count t = ?n" "take (vdm_count s) (vm_desktops t) = take ?n (vm_desktops s)"
      "vm_current t = None \<longleftrightarrow> vm_current s = None"
    by (elim exE conjE) (rule that)
  obtain r sz g log where u: "vdm_updateRootInfo E t =
      Returns (t\<lparr>vm_rows := r, vm_size := sz, vm_grid := g, vm_log := log\<rparr>)" "1 \<le> r"
      "grid_ok sz g (vm_desktops t)"
    using updateRootInfo_returns [of t E] t(2) assms(1) by (auto simp: desktops_ok_def env_ok_def)
  define v where "v = t\<lparr>vm_rows := r, vm_size := sz, vm_grid := g, vm_log := log\<rparr>"
  have v: "vdm_inv v" "vm_desktops v = vm_desktops t" "vm_current v = vm_current t"
    using t(2) u(2,3) by (simp_all add: v_def vdm_inv_def desktops_ok_def vdm_count_def)
  have "\<exists>w. (if vm_loading v then Returns v else vdm_save E v) = Returns w \<and> vm_heap w = vm_heap v \<and>
      vm_core w = vm_core (v\<lparr>vm_config := vm_config w\<rparr>)"
    using save_returns [of E v] assms(1) by (auto simp: env_ok_def vm_core_def)
  then obtain w where w: "(if vm_loading v then Returns v else vdm_save E v) = Returns w"
      "vm_heap w = vm_heap v" "vm_core w = vm_core (v\<lparr>vm_config := vm_config w\<rparr>)"
    by blast
  define out where "out = emit (CountChanged (vdm_count s) (vdm_count w))
     (fold (\<lambda>d. emit (DesktopCreated d)) (drop (vdm_count s) (vm_desktops w)) w)"
  have out: "vm_core out = vm_core (v\<lparr>vm_config := vm_config w\<rparr>)" "vm_heap out = vm_heap v"
    using w(2,3) by (simp_all add: out_def)
  have "vdm_setCount E n s = Returns out"
    unfolding vdm_setCount_def Let_def out_def
    by (simp only: if_not_P [OF False] t(1) obind.simps u(1) v_def [symmetric] w(1))
  moreover have "vdm_inv out"
    using v(1) vm_coreD [OF out(1)] out(2) by (simp add: vdm_inv_def desktops_ok_def vdm_count_def)
  ultimately show ?thesis
    using vm_coreD [OF out(1)] v t by (simp add: vdm_count_def)
qed

section \<open>The other operations\<close>

lemma setRows_returns:
  assumes "env_ok E" and inv: "vdm_inv s"
  shows "\<exists>s'. vdm_setRows E rows s = Returns s' \<and> vdm_inv s' \<and> vm_current s' = vm_current s \<and>
    vm_desktops s' = vm_desktops s"
proof (cases "rows = 0 \<or> rows > vdm_count s \<or> rows = vm_rows s")
  case True
  with inv show ?thesis by (simp add: vdm_setRows_def)
next
  case False
  define s2 where "s2 = root_call RootActivate (root_call
     (RootSetDesktopLayout (vdm_columns (s\<lparr>vm_rows := rows\<rparr>)) rows) (s\<lparr>vm_rows := rows\<rparr>))"
  have f: "vm_core s2 = vm_core (s\<lparr>vm_rows := rows\<rparr>)" "vm_heap s2 = vm_heap s" by (simp_all add: s2_def)
  note f' = vm_coreD [OF f(1)]
  obtain r sz g evs where u: "vdm_updateLayout E s2 =
      Returns (s2\<lparr>vm_rows := r, vm_size := sz, vm_grid := g, vm_log := vm_log s2 @ evs\<rparr>)"
      "1 \<le> r" "grid_ok sz g (vm_desktops s2)"
    using updateLayout_returns [of s2 E] assms False f'
    by (auto simp: env_ok_def vdm_inv_def desktops_ok_def vdm_count_def)
  have "vdm_setRows E rows s = vdm_updateLayout E s2"
    using False by (simp add: vdm_setRows_def s2_def Let_def)
  with u inv f' f(2) show ?thesis by (simp add: vdm_inv_def desktops_ok_def vdm_count_def)
qed

lemma setCurrent_ok:
  "vdm_inv s \<Longrightarrow> d \<in> set (vm_desktops s) \<Longrightarrow>
   vdm_inv (snd (vdm_setCurrent d s)) \<and> vm_current (snd (vdm_setCurrent d s)) = Some d \<and>
   vm_desktops (snd (vdm_setCurrent d s)) = vm_desktops s"
  by (auto simp: vdm_setCurrent_def vdm_inv_def desktops_ok_def vdm_count_def)

lemma setCurrent_number_returns:
  assumes "vdm_inv s" and "vm_current s \<noteq> None"
  shows "\<exists>b s'. vdm_setCurrent_number n s = Returns (b, s') \<and> vdm_inv s' \<and> vm_current s' \<noteq> None \<and>
    vm_desktops s' = vm_desktops s"
proof (cases "n < 1 \<or> n > vdm_count s \<or> n = vdm_current s")
  case True
  then have "vdm_setCurrent_number n s = Returns (False, s)" by (simp add: vdm_setCurrent_number_def)
  with assms show ?thesis by blast
next
  case False
  then have "vdm_desktopForX11Id s n = Some (vm_desktops s ! (n - 1))"
      "vm_desktops s ! (n - 1) \<in> set (vm_desktops s)"
    by (auto simp: vdm_desktopForX11Id_def vdm_count_def)
  with False setCurrent_ok [OF assms(1)] show ?thesis
    by (simp add: vdm_setCurrent_number_def) (metis option.distinct(1) prod.collapse)
qed


lemma next_previous_return:
  assumes inv: "vdm_inv s" and cur: "vm_current s = Some c"
  shows "\<exists>d. vdm_next s None wrap = Returns d \<and> d \<in> set (vm_desktops s)"
    and "\<exists>d. vdm_previous s None wrap = Returns d \<and> d \<in> set (vm_desktops s)"
proof -
  have c: "c \<in> set (vm_desktops s)" using inv cur by (auto simp: vdm_inv_def desktops_ok_def)
  then obtain i where i: "index_of c (vm_desktops s) = Some i"
    using index_of_None by (metis not_Some_eq)
  then have "i < length (vm_desktops s)" by (auto dest: index_of_SomeD)
  moreover from this have "vm_desktops s \<noteq> []" by auto
  ultimately have "last (vm_desktops s) \<in> set (vm_desktops s)" "vm_desktops s ! 0 \<in> set (vm_desktops s)"
      "vm_desktops s ! (i - 1) \<in> set (vm_desktops s)"
      "Suc i \<noteq> length (vm_desktops s) \<Longrightarrow> vm_desktops s ! Suc i \<in> set (vm_desktops s)"
    by auto
  with c i cur show "\<exists>d. vdm_next s None wrap = Returns d \<and> d \<in> set (vm_desktops s)"
    and "\<exists>d. vdm_previous s None wrap = Returns d \<and> d \<in> set (vm_desktops s)"
    by (auto simp: vdm_next_def vdm_previous_def Let_def)
qed

lemma first_cell_mem:
  "(\<And>j v. cell j = Some v \<Longrightarrow> v \<in> A) \<Longrightarrow> d \<in> A \<Longrightarrow> first_cell cell js d \<in> A"
  by (auto simp: first_cell_def find_Some_iff split: option.splits)

lemma grid_directions_return:
  assumes inv: "vdm_inv s" and cur: "vm_current s = Some c"
    and dir: "dir \<in> {vdm_above, vdm_below, vdm_toLeft, vdm_toRight}"
  shows "\<exists>d. dir s None wrap = Returns d \<and> d \<in> set (vm_desktops s)"
proof -
  have c: "c \<in> set (vm_desktops s)" using inv cur by (auto simp: vdm_inv_def desktops_ok_def)
  obtain x y w where cell: "grid_gridCoords (vm_grid s) c = (int x, int y)"
      "grid_cell (vm_grid s) x y = Some c"
    and w: "vm_size s = (int w, int (length (vm_grid s)))" "x < w" "y < length (vm_grid s)"
    using inv_cell [OF inv c] by metis
  have mem: "v \<in> set (vm_desktops s)" if "grid_cell (vm_grid s) i j = Some v" for v i j
    using grid_cell_in_concat [OF that] inv unfolding vdm_inv_def grid_ok_def by (metis mset_eq_setD)
  have "dir s None wrap = dir s (Some c) wrap"
    using dir cur by (auto simp: vdm_above_def vdm_below_def vdm_toLeft_def vdm_toRight_def vdm_start_def)
  then show ?thesis
    using dir directions_eval [OF inv _ cell w, of wrap] cur c first_cell_mem [of _ "set (vm_desktops s)" c] mem
    by auto
qed

lemma moveTo_returns:
  assumes inv: "vdm_inv s" and cur: "vm_current s \<noteq> None"
    and dir: "dir \<in> {vdm_above, vdm_below, vdm_toLeft, vdm_toRight, vdm_next, vdm_previous}"
  shows "\<exists>s'. vdm_moveTo dir wrap s = Returns s' \<and> vdm_inv s' \<and> vm_current s' \<noteq> None \<and>
    vm_desktops s' = vm_desktops s"
proof -
  obtain c where c: "vm_current s = Some c" using cur by blast
  then obtain d where d: "dir s None wrap = Returns d" "d \<in> set (vm_desktops s)"
    using grid_directions_return [OF inv c, of dir wrap] next_previous_return [OF inv c, of wrap] dir
    by auto
  with setCurrent_ok [OF inv d(2)] show ?thesis by (simp add: vdm_moveTo_def)
qed

section \<open>Whatever the sequence of requests\<close>

text \<open>
  What the rest of the program, the shortcuts and the Wayland and X11 clients can ask of the
  manager once it runs.
\<close>

datatype vd_request =
    ReqCreate nat string
  | ReqRemove string
  | ReqSetCount nat
  | ReqSetRows nat
  | ReqSetCurrent nat
  | ReqSwitchTo "nat option"
  | ReqNext | ReqPrevious | ReqRight | ReqLeft | ReqUp | ReqDown
  | ReqWrap bool
  | ReqSave

fun vdm_exec :: "'c vd_env \<Rightarrow> vd_request \<Rightarrow> 'c vdm \<Rightarrow> 'c vdm outcome" where
  "vdm_exec E (ReqCreate p n) s = obind (vdm_createVirtualDesktop E p n s) (\<lambda>r. Returns (snd r))"
| "vdm_exec E (ReqRemove i) s = vdm_removeVirtualDesktop E i s"
| "vdm_exec E (ReqSetCount n) s = vdm_setCount E n s"
| "vdm_exec E (ReqSetRows n) s = vdm_setRows E n s"
| "vdm_exec E (ReqSetCurrent n) s = obind (vdm_setCurrent_number n s) (\<lambda>r. Returns (snd r))"
| "vdm_exec E (ReqSwitchTo n) s = vdm_slotSwitchTo n s"
| "vdm_exec E ReqNext s = vdm_slotNext s"
| "vdm_exec E ReqPrevious s = vdm_slotPrevious s"
| "vdm_exec E ReqRight s = vdm_slotRight s"
| "vdm_exec E ReqLeft s = vdm_slotLeft s"
| "vdm_exec E ReqUp s = vdm_slotUp s"
| "vdm_exec E ReqDown s = vdm_slotDown s"
| "vdm_exec E (ReqWrap b) s = Returns (vdm_setNavigationWrappingAround b s)"
| "vdm_exec E ReqSave s = vdm_save E s"

fun vdm_run :: "'c vd_env \<Rightarrow> vd_request list \<Rightarrow> 'c vdm \<Rightarrow> 'c vdm outcome" where
  "vdm_run E [] s = Returns s"
| "vdm_run E (r # rs) s = obind (vdm_exec E r s) (vdm_run E rs)"

lemma exec_returns:
  assumes "env_ok E" and inv: "vdm_inv s" and cur: "vm_current s \<noteq> None"
  shows "\<exists>s'. vdm_exec E r s = Returns s' \<and> vdm_inv s' \<and> vm_current s' \<noteq> None"
proof -
  obtain c where c: "vm_current s = Some c" using cur by blast
  have wrap: "vdm_inv (vdm_setNavigationWrappingAround b s) \<and>
      vm_current (vdm_setNavigationWrappingAround b s) \<noteq> None" for b
    using inv cur by (simp add: vdm_setNavigationWrappingAround_def vdm_inv_def desktops_ok_def vdm_count_def)
  have save: "\<exists>s'. vdm_save E s = Returns s' \<and> vdm_inv s' \<and> vm_current s' \<noteq> None"
  proof -
    obtain s' where "vdm_save E s = Returns s'" "vm_heap s' = vm_heap s"
        "vm_core s' = vm_core (s\<lparr>vm_config := vm_config s'\<rparr>)"
      using save_returns assms(1) unfolding env_ok_def by blast
    with inv cur vm_coreD [of s' "s\<lparr>vm_config := vm_config s'\<rparr>"] show ?thesis
      by (simp add: vdm_inv_def desktops_ok_def vdm_count_def)
  qed
  have "\<exists>s'. vdm_moveTo dir w s = Returns s' \<and> vdm_inv s' \<and> vm_current s' \<noteq> None"
    if "dir \<in> {vdm_above, vdm_below, vdm_toLeft, vdm_toRight, vdm_next, vdm_previous}" for dir w
    using moveTo_returns [OF inv cur that] by blast
  note moves = this [of vdm_next] this [of vdm_previous] this [of vdm_toRight] this [of vdm_toLeft]
    this [of vdm_above] this [of vdm_below]
  show ?thesis
  proof (cases r)
    case (ReqCreate p n)
    with createVirtualDesktop_returns [OF assms(1) inv, of p n] cur show ?thesis by auto
  next
    case (ReqRemove i)
    with removeVirtualDesktop_returns [OF assms(1) inv c, of i] show ?thesis by auto
  next
    case (ReqSetCount n)
    with setCount_returns [OF assms(1), of s n] inv cur show ?thesis by auto
  next
    case (ReqSetRows n)
    with setRows_returns [OF assms(1) inv, of n] cur show ?thesis by auto
  next
    case (ReqSetCurrent n)
    with setCurrent_number_returns [OF inv cur, of n] show ?thesis by auto
  next
    case (ReqSwitchTo n)
    with setCurrent_number_returns [OF inv cur] inv cur show ?thesis
      by (cases n) (auto simp: vdm_slotSwitchTo_def, metis snd_conv)
  qed (use moves wrap save in \<open>simp_all add: vdm_slotNext_def vdm_slotPrevious_def vdm_slotRight_def
      vdm_slotLeft_def vdm_slotUp_def vdm_slotDown_def\<close>)
qed

lemma run_returns:
  assumes "env_ok E"
  shows "vdm_inv s \<Longrightarrow> vm_current s \<noteq> None \<Longrightarrow>
    \<exists>s'. vdm_run E rs s = Returns s' \<and> vdm_inv s' \<and> vm_current s' \<noteq> None"
proof (induction rs arbitrary: s)
  case Nil
  then show ?case by simp
next
  case (Cons r rs)
  from exec_returns [OF assms Cons.prems] Cons.IH show ?case by fastforce
qed

end
