(* ===== verification/VirtualDesktops_Config.thy ===== *)
theory VirtualDesktops_Config
  imports VirtualDesktops_Invariant
begin

text \<open>
  Saving the virtual desktops and loading them again: what \<open>save\<close> leaves in the configuration
  group, and that \<open>load\<close> rebuilds the same desktops from it in a manager that has none.
\<close>

section \<open>What is saved\<close>

text \<open>The name and the id that the configuration holds for desktop number \<open>i\<close>.\<close>

definition saved_name :: "'c vd_env \<Rightarrow> 'c vdm \<Rightarrow> nat \<Rightarrow> string" where
  "saved_name E s i =
     (if vd_name (vm_heap s (vm_desktops s ! (i - 1))) = [] then env_defaultName E i
      else vd_name (vm_heap s (vm_desktops s ! (i - 1))))"

definition saved_id :: "'c vdm \<Rightarrow> nat \<Rightarrow> string" where
  "saved_id s i = vd_id (vm_heap s (vm_desktops s ! (i - 1)))"

lemma saved_cong:
  "vm_core t = vm_core s \<Longrightarrow> vm_heap t = vm_heap s \<Longrightarrow>
   saved_name E t i = saved_name E s i \<and> saved_id t i = saved_id s i"
  using vm_coreD(3) [of t s] by (simp add: saved_name_def saved_id_def)

lemma name_in_range:
  assumes "1 \<le> i" "i \<le> vdm_count s" "vdm_count s < 2 ^ 32"
  shows "vdm_name E s i = vd_name (vm_heap s (vm_desktops s ! (i - 1)))"
proof -
  have "(i + (2 ^ 32 - 1)) mod 2 ^ 32 = i - 1" using assms by (auto simp: mod_if)
  moreover have "i - 1 < length (vm_desktops s)" using assms by (auto simp: vdm_count_def)
  ultimately show ?thesis unfolding vdm_name_def Let_def by simp
qed

lemma save_entry_reads:
  assumes K: "kconfig_laws (env_kconfig E)" and i: "1 \<le> i" "i \<le> vdm_count s" "vdm_count s < 2 ^ 32"
    and out: "save_entry E i (s, c) = (s1, c1)"
  shows "kc_readStr (env_kconfig E) c1 (KName i) (env_defaultName E i) = saved_name E s i"
    and "kc_readStr (env_kconfig E) c1 (KId i) [] = saved_id s i"
    and "k \<notin> {KName i, KId i} \<Longrightarrow>
      kc_readStr (env_kconfig E) c1 k d = kc_readStr (env_kconfig E) c k d"
    and "k \<notin> {KName i, KId i} \<Longrightarrow>
      kc_readInt (env_kconfig E) c1 k e = kc_readInt (env_kconfig E) c k e"
proof -
  note name = name_in_range [OF i, of E]
  have dflt: "kc_readStr (env_kconfig E) c (KName i) [] = env_defaultName E i \<Longrightarrow>
      kc_readStr (env_kconfig E) c (KName i) (env_defaultName E i) = env_defaultName E i"
    using K unfolding kconfig_laws_def by metis
  show "kc_readStr (env_kconfig E) c1 (KName i) (env_defaultName E i) = saved_name E s i"
    using K out dflt by (auto simp: save_entry_def saved_name_def name kconfig_laws_def Let_def)
  show "kc_readStr (env_kconfig E) c1 (KId i) [] = saved_id s i"
    using K out by (auto simp: save_entry_def saved_id_def kconfig_laws_def Let_def)
  show "k \<notin> {KName i, KId i} \<Longrightarrow>
      kc_readStr (env_kconfig E) c1 k d = kc_readStr (env_kconfig E) c k d"
    and "k \<notin> {KName i, KId i} \<Longrightarrow>
      kc_readInt (env_kconfig E) c1 k e = kc_readInt (env_kconfig E) c k e"
    using K out by (auto simp: save_entry_def kconfig_laws_def Let_def)
qed

lemma save_entries_reads:
  assumes K: "kconfig_laws (env_kconfig E)" and "vdm_count s < 2 ^ 32"
    and "\<forall>i \<in> set is. 1 \<le> i \<and> i \<le> vdm_count s" "distinct is"
    and "fold (save_entry E) is (s, c) = (s1, c1)"
  shows "(\<forall>i \<in> set is. kc_readStr (env_kconfig E) c1 (KName i) (env_defaultName E i) = saved_name E s i) \<and>
    (\<forall>i \<in> set is. kc_readStr (env_kconfig E) c1 (KId i) [] = saved_id s i) \<and>
    (\<forall>k d. k \<notin> KName ` set is \<union> KId ` set is \<longrightarrow>
      kc_readStr (env_kconfig E) c1 k d = kc_readStr (env_kconfig E) c k d) \<and>
    (\<forall>k e. k \<notin> KName ` set is \<union> KId ` set is \<longrightarrow>
      kc_readInt (env_kconfig E) c1 k e = kc_readInt (env_kconfig E) c k e)"
  using assms(2-)
proof (induction "is" arbitrary: s c)
  case Nil
  then show ?case by simp
next
  case (Cons j js)
  obtain t c' where e: "save_entry E j (s, c) = (t, c')" by fastforce
  have f: "vm_core t = vm_core s" "vm_heap t = vm_heap s"
    using save_entry_frame [of E j "(s, c)"] e by simp_all
  have j: "1 \<le> j" "j \<le> vdm_count s" "j \<notin> set js" using Cons.prems by auto
  note r = save_entry_reads [OF K j(1,2) Cons.prems(1) e]
  have "fold (save_entry E) js (t, c') = (s1, c1)" using Cons.prems(4) e by simp
  then have IH: "\<forall>i \<in> set js. kc_readStr (env_kconfig E) c1 (KName i) (env_defaultName E i) = saved_name E s i"
      "\<forall>i \<in> set js. kc_readStr (env_kconfig E) c1 (KId i) [] = saved_id s i"
      "\<And>k d. k \<notin> KName ` set js \<union> KId ` set js \<Longrightarrow>
        kc_readStr (env_kconfig E) c1 k d = kc_readStr (env_kconfig E) c' k d"
      "\<And>k e. k \<notin> KName ` set js \<union> KId ` set js \<Longrightarrow>
        kc_readInt (env_kconfig E) c1 k e = kc_readInt (env_kconfig E) c' k e"
    using Cons.IH [of t c'] Cons.prems vm_coreD(11) [OF f(1)] saved_cong [OF f] by simp_all
  have "KName j \<notin> KName ` set js \<union> KId ` set js" "KId j \<notin> KName ` set js \<union> KId ` set js"
    using j(3) by auto
  with IH r show ?case by simp
qed

lemma save_reads:
  assumes K: "kconfig_laws (env_kconfig E)" and s: "\<not> vm_loading s" "vm_config s \<noteq> None"
    and small: "vdm_count s \<le> vdm_maximum" and out: "vdm_save E s = Returns s'"
  obtains c where "vm_config s' = Some c"
    and "kc_readInt (env_kconfig E) c KNumber 1 = int (vdm_count s)"
    and "kc_readInt (env_kconfig E) c KRows 2 = int (vm_rows s)"
    and "\<And>i. 1 \<le> i \<Longrightarrow> i \<le> vdm_count s \<Longrightarrow> kc_readStr (env_kconfig E) c (KId i) [] = saved_id s i"
    and "\<And>i. 1 \<le> i \<Longrightarrow> i \<le> vdm_count s \<Longrightarrow>
      kc_readStr (env_kconfig E) c (KName i) (env_defaultName E i) = saved_name E s i"
proof -
  let ?K = "env_kconfig E"
  obtain c where c: "vm_config s = Some c" using s by blast
  obtain c0 where c0: "save_prune ?K (vdm_count s + 1) c = Some c0" using save_prune_returns [OF K] by blast
  obtain s1 c1 where fold: "fold (save_entry E) [1..<vdm_count s + 1]
      (s, kc_writeInt ?K c0 KNumber (int (vdm_count s))) = (s1, c1)" by fastforce
  have cnt: "vdm_count s < 2 ^ 32" using small by (simp add: vdm_maximum_def)
  have dom: "\<forall>i \<in> set [1..<vdm_count s + 1]. 1 \<le> i \<and> i \<le> vdm_count s" by auto
  have r: "\<And>i. i \<in> set [1..<vdm_count s + 1] \<Longrightarrow> kc_readStr ?K c1 (KName i) (env_defaultName E i) = saved_name E s i"
      "\<And>i. i \<in> set [1..<vdm_count s + 1] \<Longrightarrow> kc_readStr ?K c1 (KId i) [] = saved_id s i"
      "kc_readInt ?K c1 KNumber 1 = kc_readInt ?K (kc_writeInt ?K c0 KNumber (int (vdm_count s))) KNumber 1"
    using save_entries_reads [OF K cnt dom distinct_upt fold] by blast+
  have "vm_core s1 = vm_core s"
    using save_entries_frame(1) [of E "[1..<vdm_count s + 1]" "(s, kc_writeInt ?K c0 KNumber (int (vdm_count s)))"]
    by (simp only: fold fst_conv)
  then have rows: "vm_rows s1 = vm_rows s" by (rule vm_coreD(5))
  have s': "vm_config s' = Some (kc_sync ?K (kc_writeInt ?K c1 KRows (int (vm_rows s1))))"
    using out s c c0 fold by (auto simp: vdm_save_def Let_def)
  have laws: "kc_readStr ?K (kc_sync ?K (kc_writeInt ?K c1 KRows v)) k d = kc_readStr ?K c1 k d" if "k \<noteq> KRows" for k d v
    using K that by (simp add: kconfig_laws_def)
  show thesis
  proof (rule that [OF s'])
    show "kc_readInt ?K (kc_sync ?K (kc_writeInt ?K c1 KRows (int (vm_rows s1)))) KNumber 1 = int (vdm_count s)"
      using r(3) K by (simp add: kconfig_laws_def)
    show "kc_readInt ?K (kc_sync ?K (kc_writeInt ?K c1 KRows (int (vm_rows s1)))) KRows 2 = int (vm_rows s)"
      using K rows by (simp add: kconfig_laws_def)
  next
    fix i assume "1 \<le> i" "i \<le> vdm_count s"
    then have "i \<in> set [1..<vdm_count s + 1]" by auto
    with r(1,2) show
      "kc_readStr ?K (kc_sync ?K (kc_writeInt ?K c1 KRows (int (vm_rows s1)))) (KId i) [] = saved_id s i"
      "kc_readStr ?K (kc_sync ?K (kc_writeInt ?K c1 KRows (int (vm_rows s1)))) (KName i) (env_defaultName E i) = saved_name E s i"
      by (simp_all only: laws desktop_key.distinct simp_thms)
  qed
qed


section \<open>What is loaded\<close>

lemma load_entry_reads:
  assumes "\<not> vm_rootInfo s" and i: "1 \<le> i" "i \<le> vdm_count s"
    and "vd_id (vm_heap s (vm_desktops s ! (i - 1))) = []"
    and "kc_readStr (env_kconfig E) c (KId i) [] = did" "did \<noteq> []"
    and "kc_readStr (env_kconfig E) c (KName i) (env_defaultName E i) = nm"
  obtains t where "load_entry E c i s = Returns t" "vm_core t = vm_core s"
    "vm_heap t = (vm_heap s)(vm_desktops s ! (i - 1) :=
       (vm_heap s (vm_desktops s ! (i - 1)))\<lparr>vd_name := nm, vd_id := did\<rparr>)"
proof -
  let ?d = "vm_desktops s ! (i - 1)"
  have "load_entry E c i s = Returns (vd_upd ?d (\<lambda>d. d\<lparr>vd_id := did\<rparr>) (vd_setName True ?d nm s))"
    using assms by (simp add: load_entry_def root_call_def vd_setId_def Let_def)
  then show thesis by (rule that) simp_all
qed

lemma load_entries_reads:
  assumes "\<not> vm_rootInfo s" "\<forall>i \<in> set is. 1 \<le> i \<and> i \<le> vdm_count s" "distinct is"
    and "distinct (vm_desktops s)"
    and "\<forall>i \<in> set is. vd_id (vm_heap s (vm_desktops s ! (i - 1))) = []"
    and ids: "\<And>i. i \<in> set is \<Longrightarrow> kc_readStr (env_kconfig E) c (KId i) [] = ids i \<and> ids i \<noteq> []"
    and nms: "\<And>i. i \<in> set is \<Longrightarrow> kc_readStr (env_kconfig E) c (KName i) (env_defaultName E i) = nms i"
  shows "\<exists>t. load_entries E c is s = Returns t \<and> vm_core t = vm_core s \<and>
    (\<forall>a. vd_x11DesktopNumber (vm_heap t a) = vd_x11DesktopNumber (vm_heap s a)) \<and>
    (\<forall>i. 1 \<le> i \<longrightarrow> i \<le> vdm_count s \<longrightarrow> i \<in> set is \<longrightarrow>
       vd_id (vm_heap t (vm_desktops s ! (i - 1))) = ids i \<and>
       vd_name (vm_heap t (vm_desktops s ! (i - 1))) = nms i) \<and>
    (\<forall>i. 1 \<le> i \<longrightarrow> i \<le> vdm_count s \<longrightarrow> i \<notin> set is \<longrightarrow>
       vm_heap t (vm_desktops s ! (i - 1)) = vm_heap s (vm_desktops s ! (i - 1)))"
  using assms
proof (induction "is" arbitrary: s)
  case Nil
  then show ?case by simp
next
  case (Cons j js)
  let ?d = "vm_desktops s ! (j - 1)"
  have j: "1 \<le> j" "j \<le> vdm_count s" "j \<notin> set js" using Cons.prems by auto
  obtain u where u: "load_entry E c j s = Returns u" "vm_core u = vm_core s"
    "vm_heap u = (vm_heap s)(?d := (vm_heap s ?d)\<lparr>vd_name := nms j, vd_id := ids j\<rparr>)"
    using load_entry_reads [of s j E c "ids j" "nms j"] Cons.prems j by (metis list.set_intros(1))
  note f = vm_coreD [OF u(2)]
  have other: "vm_heap u (vm_desktops s ! (i - 1)) = vm_heap s (vm_desktops s ! (i - 1))"
    if "1 \<le> i" "i \<le> vdm_count s" "i \<noteq> j" for i
  proof -
    have "vm_desktops s ! (i - 1) \<noteq> ?d"
      using that j Cons.prems(4) by (auto simp: nth_eq_iff_index_eq vdm_count_def)
    then show ?thesis by (simp add: u(3))
  qed
  have "vd_id (vm_heap u (vm_desktops u ! (i - 1))) = []" if "i \<in> set js" for i
    using other [of i] that Cons.prems(2,5) j(3) f(3) by (cases "i = j") auto
  then obtain t where t: "load_entries E c js u = Returns t" "vm_core t = vm_core u"
      "\<forall>a. vd_x11DesktopNumber (vm_heap t a) = vd_x11DesktopNumber (vm_heap u a)"
      "\<And>i. 1 \<le> i \<Longrightarrow> i \<le> vdm_count s \<Longrightarrow> i \<in> set js \<Longrightarrow>
        vd_id (vm_heap t (vm_desktops s ! (i - 1))) = ids i \<and> vd_name (vm_heap t (vm_desktops s ! (i - 1))) = nms i"
      "\<And>i. 1 \<le> i \<Longrightarrow> i \<le> vdm_count s \<Longrightarrow> i \<notin> set js \<Longrightarrow>
        vm_heap t (vm_desktops s ! (i - 1)) = vm_heap u (vm_desktops s ! (i - 1))"
    using Cons.IH [of u] Cons.prems f(3,8,11) by auto
  have "vm_core t = vm_core s" using t(2) u(2) by simp
  moreover have "vd_x11DesktopNumber (vm_heap t a) = vd_x11DesktopNumber (vm_heap s a)" for a
    using t(3) u(3) by simp
  moreover have "vd_id (vm_heap t (vm_desktops s ! (i - 1))) = ids i \<and>
      vd_name (vm_heap t (vm_desktops s ! (i - 1))) = nms i"
    if "1 \<le> i" "i \<le> vdm_count s" "i \<in> set (j # js)" for i
    using that t(4) [of i] t(5) [of j] u(3) j by (cases "i \<in> set js") auto
  moreover have "vm_heap t (vm_desktops s ! (i - 1)) = vm_heap s (vm_desktops s ! (i - 1))"
    if "1 \<le> i" "i \<le> vdm_count s" "i \<notin> set (j # js)" for i
    using that t(5) [of i] other [of i] by simp
  ultimately show ?case using u(1) t(1) by simp
qed

lemma append_desktop_rootInfo:
  "vdm_append_desktop E s = Returns t \<Longrightarrow> vm_rootInfo t = vm_rootInfo s"
  by (auto simp: vdm_append_desktop_def vd_new_def vd_setId_def vdm_generateDesktopId_def Let_def
      split: if_splits)

lemma grow_rootInfo: "vdm_grow E n s = Returns t \<Longrightarrow> vm_rootInfo t = vm_rootInfo s"
  by (induction n arbitrary: s) (auto dest: append_desktop_rootInfo)

lemma setCount_while_loading:
  assumes "env_ok E" and s: "desktops_numbered s" "vdm_count s = 0" "vm_loading s"
    and n: "1 \<le> n" "n \<le> vdm_maximum"
  obtains t where "vdm_setCount E n s = Returns t" "vdm_inv t" "vdm_count t = n"
    "vm_loading t" "vm_rootInfo t = vm_rootInfo s"
    "\<And>i. 1 \<le> i \<Longrightarrow> i \<le> n \<Longrightarrow> vd_id (vm_heap t (vm_desktops t ! (i - 1))) = []"
proof -
  have b: "qBound 1 n vdm_maximum = n" using n by (simp add: qBound_def)
  obtain u where u: "vdm_grow E n s = Returns u" "desktops_numbered u" "vdm_count u = n"
      "vm_loading u" "\<And>i. i < n \<Longrightarrow> vd_id (vm_heap u (vm_desktops u ! i)) = []"
    using grow_returns [OF s(1), of E n] s by auto
  obtain r sz g log where l: "vdm_updateRootInfo E u =
      Returns (u\<lparr>vm_rows := r, vm_size := sz, vm_grid := g, vm_log := log\<rparr>)" "1 \<le> r"
      "grid_ok sz g (vm_desktops u)"
    using updateRootInfo_returns [of u E] u n assms(1) by (auto simp: desktops_numbered_def env_ok_def)
  define v where "v = u\<lparr>vm_rows := r, vm_size := sz, vm_grid := g, vm_log := log\<rparr>"
  define out where "out = emit (CountChanged 0 n) (fold (\<lambda>d. emit (DesktopCreated d)) (vm_desktops v) v)"
  have o: "vm_core out = vm_core v" "vm_heap out = vm_heap v" by (simp_all add: out_def)
  have v: "vm_loading v" "vdm_count v = n" "vm_desktops v = vm_desktops u" "vm_heap v = vm_heap u"
    using u by (simp_all add: v_def vdm_count_def)
  have ne: "n \<noteq> 0" "\<not> 0 > n" using n by simp_all
  have "vdm_setCount E n s = Returns out"
    unfolding vdm_setCount_def Let_def b s(2)
    by (simp only: if_not_P [OF ne(1)] if_not_P [OF ne(2)] minus_nat.diff_0 u(1) obind.simps l(1)
        v_def [symmetric] if_P [OF v(1)] v(2) drop_0 out_def)
  moreover have "vdm_inv out"
    using u(2,3) n l(2,3) vm_coreD [OF o(1)] o(2) v
    by (simp add: vdm_inv_def desktops_ok_iff desktops_numbered_def v_def vdm_count_def)
  moreover have "vm_rootInfo out = vm_rootInfo s"
    using vm_coreD(8) [OF o(1)] grow_rootInfo [OF u(1)] by (simp add: v_def)
  ultimately show thesis
    using that v u(5) vm_coreD [OF o(1)] o(2) by simp
qed

section \<open>The round trip\<close>

lemma load_after_save:
  assumes E: "env_ok E" and inv: "vdm_inv s" and s: "\<not> vm_loading s" "vm_config s \<noteq> None"
    and ids: "\<forall>d \<in> set (vm_desktops s). vd_id (vm_heap s d) \<noteq> []"
    and save: "vdm_save E s = Returns s'"
  obtains u where "vdm_load E (vdm_init\<lparr>vm_config := vm_config s'\<rparr>) = Returns u" "vdm_inv u"
    "vdm_count u = vdm_count s" "vm_rows u = min (vm_rows s) (vdm_count s)" "\<not> vm_loading u"
    "\<And>i. 1 \<le> i \<Longrightarrow> i \<le> vdm_count s \<Longrightarrow>
       vd_id (vm_heap u (vm_desktops u ! (i - 1))) = saved_id s i \<and>
       vd_name (vm_heap u (vm_desktops u ! (i - 1))) = saved_name E s i"
proof -
  let ?K = "env_kconfig E" and ?n = "vdm_count s"
  have n: "1 \<le> ?n" "?n \<le> vdm_maximum" "1 \<le> vm_rows s" using inv by (auto simp: vdm_inv_def desktops_ok_def)
  have K: "kconfig_laws ?K" using E by (simp add: env_ok_def)
  obtain c where c: "vm_config s' = Some c"
    "kc_readInt ?K c KNumber 1 = int ?n" "kc_readInt ?K c KRows 2 = int (vm_rows s)"
    "\<And>i. 1 \<le> i \<Longrightarrow> i \<le> ?n \<Longrightarrow> kc_readStr ?K c (KId i) [] = saved_id s i"
    "\<And>i. 1 \<le> i \<Longrightarrow> i \<le> ?n \<Longrightarrow> kc_readStr ?K c (KName i) (env_defaultName E i) = saved_name E s i"
    using save_reads [OF K s n(2) save] by metis
  define s0 :: "'a vdm" where "s0 = vdm_init\<lparr>vm_config := Some c, vm_loading := True\<rparr>"
  have s0: "desktops_numbered s0" "vdm_count s0 = 0" "vm_loading s0" "\<not> vm_rootInfo s0"
    by (simp_all add: s0_def vdm_init_def desktops_numbered_def vdm_count_def)
  obtain t where t: "vdm_setCount E ?n s0 = Returns t" "vdm_inv t" "vdm_count t = ?n"
    "\<not> vm_rootInfo t"
    "\<And>i. 1 \<le> i \<Longrightarrow> i \<le> ?n \<Longrightarrow> vd_id (vm_heap t (vm_desktops t ! (i - 1))) = []"
    using setCount_while_loading [OF E s0(1-3) n(1,2)] s0(4) by metis
  have some: "saved_id s i \<noteq> []" if "1 \<le> i" "i \<le> ?n" for i
    using ids that by (simp add: saved_id_def vdm_count_def)
  have mem: "i \<in> set [1..<?n + 1] \<longleftrightarrow> 1 \<le> i \<and> i \<le> ?n" for i by auto
  have blank: "\<forall>i \<in> set [1..<?n + 1]. vd_id (vm_heap t (vm_desktops t ! (i - 1))) = []"
    using t(5) mem by metis
  have dist: "distinct (vm_desktops t)" using t(2) by (simp add: vdm_inv_def desktops_ok_def)
  have "\<exists>u. load_entries E c [1..<?n + 1] t = Returns u \<and> vm_core u = vm_core t \<and>
    (\<forall>a. vd_x11DesktopNumber (vm_heap u a) = vd_x11DesktopNumber (vm_heap t a)) \<and>
    (\<forall>i. 1 \<le> i \<longrightarrow> i \<le> vdm_count t \<longrightarrow> i \<in> set [1..<?n + 1] \<longrightarrow>
       vd_id (vm_heap u (vm_desktops t ! (i - 1))) = saved_id s i \<and>
       vd_name (vm_heap u (vm_desktops t ! (i - 1))) = saved_name E s i) \<and>
    (\<forall>i. 1 \<le> i \<longrightarrow> i \<le> vdm_count t \<longrightarrow> i \<notin> set [1..<?n + 1] \<longrightarrow>
       vm_heap u (vm_desktops t ! (i - 1)) = vm_heap t (vm_desktops t ! (i - 1)))"
    by (rule load_entries_reads [OF t(4) _ distinct_upt dist blank])
      (use t(3) c(4,5) some mem in \<open>simp_all only: simp_thms Ball_def\<close>)
  then obtain u where u: "load_entries E c [1..<?n + 1] t = Returns u" "vm_core u = vm_core t"
    "\<And>a. vd_x11DesktopNumber (vm_heap u a) = vd_x11DesktopNumber (vm_heap t a)"
    "\<And>i. 1 \<le> i \<Longrightarrow> i \<le> ?n \<Longrightarrow> vd_id (vm_heap u (vm_desktops t ! (i - 1))) = saved_id s i \<and>
       vd_name (vm_heap u (vm_desktops t ! (i - 1))) = saved_name E s i"
    using mem t(3) by metis
  define out where "out = u\<lparr>vm_rows := min (vm_rows s) ?n, vm_loading := False\<rparr>"
  have q: "nat (qBound 1 (int (vm_rows s)) (int ?n)) = min (vm_rows s) ?n"
    using n by (auto simp: qBound_def min_def max_def)
  have m: "nat (int ?n mod 4294967296) = ?n" using n(2) by (simp add: vdm_maximum_def nat_mod_as_int flip: zmod_int)
  have "vdm_load E (vdm_init\<lparr>vm_config := vm_config s'\<rparr>) = Returns out"
    using t(1) u(1) by (simp add: vdm_load_def Let_def c(1-3) q m out_def s0_def del: upt_Suc)
  moreover have "vdm_inv out"
    using t(2,3) u(2,3) n(1,3) vm_coreD [OF u(2)]
    by (simp add: out_def vdm_inv_def desktops_ok_def vdm_count_def)
  moreover have "vm_desktops out = vm_desktops t" "vm_heap out = vm_heap u" "vdm_count out = ?n"
    using vm_coreD [OF u(2)] t(3) by (simp_all add: out_def vdm_count_def)
  ultimately show thesis using that u(4) by (simp add: out_def)
qed

end
