(* ===== verification/VirtualDesktops_Properties.thy ===== *)
theory VirtualDesktops_Properties
  imports VirtualDesktops_Config "HOL-Library.AList"
begin

text \<open>
  What the virtual desktop manager promises to the rest of the program, and a concrete manager of
  three desktops over an association-list configuration on which each promise is instantiated.
\<close>

section \<open>A concrete manager\<close>

type_synonym demo_config = "(desktop_key \<times> string) list \<times> (desktop_key \<times> int) list"

definition demo_kconfig :: "demo_config kconfig" where
  "demo_kconfig = \<lparr>
     kc_hasKey = (\<lambda>c k. map_of (fst c) k \<noteq> None \<or> map_of (snd c) k \<noteq> None),
     kc_readInt = (\<lambda>c k d. case map_of (snd c) k of None \<Rightarrow> d | Some v \<Rightarrow> v),
     kc_readStr = (\<lambda>c k d. case map_of (fst c) k of None \<Rightarrow> d | Some v \<Rightarrow> v),
     kc_writeInt = (\<lambda>c k v. (fst c, (k, v) # snd c)),
     kc_writeStr = (\<lambda>c k v. ((k, v) # fst c, snd c)),
     kc_deleteEntry = (\<lambda>c k. (AList.delete k (fst c), AList.delete k (snd c))),
     kc_sync = (\<lambda>c. c)\<rparr>"

definition demo_env :: "demo_config vd_env" where
  "demo_env = \<lparr>env_generateDesktopId = (\<lambda>n. replicate (Suc n) CHR ''u''),
     env_defaultName = (\<lambda>n. ''Desktop '' @ replicate n CHR ''I''),
     env_layoutColumns = (\<lambda>_. 2), env_layoutRows = (\<lambda>_. 2),
     env_layoutOrientation = (\<lambda>_. Horizontal), env_desktopName = (\<lambda>_ _. []),
     env_kconfig = demo_kconfig\<rparr>"

text \<open>Three desktops in two columns and two rows; the first is the current one.\<close>

definition demo_vdm :: "demo_config vdm" where
  "demo_vdm = vdm_init\<lparr>
     vm_heap := (\<lambda>a. \<lparr>vd_id = CHR ''d'' # replicate a CHR ''i'', vd_name = ''Mail'', vd_x11DesktopNumber = Suc a\<rparr>),
     vm_fresh := 3, vm_desktops := [0, 1, 2], vm_current := Some 0,
     vm_size := (2, 2), vm_grid := [[0, 1], [2]], vm_config := Some ([], [])\<rparr>"

lemma demo_kconfig_laws: "kconfig_laws demo_kconfig"
proof -
  have "{k. kc_hasKey demo_kconfig c k} = dom (map_of (fst c)) \<union> dom (map_of (snd c))" for c
    by (auto simp: demo_kconfig_def)
  then have "finite {k. kc_hasKey demo_kconfig c k}" for c by (simp add: finite_dom_map_of)
  moreover have "(\<forall>d. kc_readStr demo_kconfig c k d = d) \<or> (\<exists>v. \<forall>d. kc_readStr demo_kconfig c k d = v)" for c k
    by (cases "map_of (fst c) k") (auto simp: demo_kconfig_def)
  ultimately show ?thesis
    unfolding kconfig_laws_def by (simp add: demo_kconfig_def AList.delete_conv')
qed

lemma demo_env_ok: "env_ok demo_env"
  by (simp add: env_ok_def demo_kconfig_laws net_layout_bounded_def demo_env_def)

lemma demo_vdm_inv: "vdm_inv demo_vdm"
  by (simp add: vdm_inv_def desktops_ok_def grid_ok_def demo_vdm_def vdm_init_def vdm_count_def
      vdm_maximum_def less_Suc_eq numeral_3_eq_3)

lemma demo_fields:
  "vm_current demo_vdm = Some 0" "vm_desktops demo_vdm = [0, 1, 2]" "vdm_count demo_vdm = 3"
  "\<not> vm_loading demo_vdm" "vm_config demo_vdm \<noteq> None" "vdm_current demo_vdm = 1"
  "vd_id (vm_heap demo_vdm a) = CHR ''d'' # replicate a CHR ''i''"
  by (simp_all add: demo_vdm_def vdm_init_def vdm_count_def vdm_current_def)

theorem horizontal_navigation_in_row_witness:
  "\<exists>y x. y < length (vm_grid demo_vdm) \<and> x < length (vm_grid demo_vdm ! y) \<and> vm_grid demo_vdm ! y ! x = 1 \<and>
    vdm_toRight demo_vdm (Some 1) True =
      Returns (vm_grid demo_vdm ! y ! (Suc x mod length (vm_grid demo_vdm ! y)))"
  using horizontal_navigation_in_row [of demo_vdm 1] demo_vdm_inv demo_fields by auto

theorem navigation_round_trip_witness:
  "\<exists>r b. vdm_toRight demo_vdm (Some 2) True = Returns r \<and> vdm_toLeft demo_vdm (Some r) True = Returns 2 \<and>
    vdm_below demo_vdm (Some 2) True = Returns b \<and> vdm_above demo_vdm (Some b) True = Returns 2"
  using navigation_round_trip [of demo_vdm 2] demo_vdm_inv demo_fields by auto

section \<open>Whatever is asked of it\<close>

text \<open>
  Safety of the whole manager: from a well-formed manager with a current desktop, every finite
  sequence of requests (create, remove, set the count or the rows, switch, navigate in any
  direction, save) runs to its end: no assertion fails, no null pointer is dereferenced, no vector
  is read out of range, no loop runs for ever. Afterwards the manager is well formed again and
  still has a current desktop.
\<close>

theorem requests_never_fault:
  assumes "env_ok E" and "vdm_inv s" and "vm_current s \<noteq> None"
  shows "\<exists>s'. vdm_run E rs s = Returns s' \<and> vdm_inv s' \<and> vm_current s' \<noteq> None"
  using assms by (intro run_returns)

theorem requests_never_fault_witness:
  "\<exists>s'. vdm_run demo_env [ReqCreate 1 ''web'', ReqRight, ReqRemove ''d'', ReqSetCount 20, ReqSetRows 3, ReqUp] demo_vdm =
     Returns s' \<and> vdm_inv s' \<and> vm_current s' \<noteq> None"
  by (rule requests_never_fault) (simp_all add: demo_env_ok demo_vdm_inv demo_fields)

text \<open>
  The grid loses no desktop and repeats none: when the grid has room for the desktops, the
  cells that \<open>update\<close> fills hold every desktop exactly once in either orientation, and looking
  up the coordinates of a desktop and then the desktop at these coordinates gives it back.
\<close>

theorem grid_update_complete:
  assumes "distinct ds" and "length ds \<le> w * h" and "d \<in> set ds"
  shows "mset (concat (grid_update w h ori ds)) = mset ds \<and>
    length (grid_update w h ori ds) = h \<and> (\<forall>row \<in> set (grid_update w h ori ds). length row \<le> w) \<and>
    grid_at (grid_update w h ori ds) (grid_gridCoords (grid_update w h ori ds) d) = Returns (Some d)"
proof -
  let ?g = "grid_update w h ori ds"
  have ok: "grid_ok (int w, int h) ?g ds" by (rule grid_update_ok) (rule assms(2))
  then have "set (concat ?g) = set ds" unfolding grid_ok_def using mset_eq_setD by blast
  then obtain x y where "grid_gridCoords ?g d = (int x, int y)" "grid_cell ?g x y = Some d"
    using gridCoords_cell [of d ?g] assms(3) by blast
  then have "grid_at ?g (grid_gridCoords ?g d) = Returns (Some d)"
    by (auto simp: grid_at_def grid_cell_def split: if_splits)
  with ok show ?thesis by (simp add: grid_ok_def)
qed

theorem grid_update_complete_witness:
  "grid_at (grid_update 2 2 Vertical [5, 6, 7 :: nat])
     (grid_gridCoords (grid_update 2 2 Vertical [5, 6, 7 :: nat]) 6) = Returns (Some 6)"
  using grid_update_complete [of "[5, 6, 7 :: nat]" 2 2 6 Vertical] by simp

text \<open>
  Creating a desktop: at the maximum of 20 nothing happens and null is returned. Otherwise a
  new object with the given name is inserted at the requested position, or at the end when the
  position lies past it; the other desktops keep their order, the current desktop stays the same
  object, and the numbers run again from 1 without gaps (part of \<open>vdm_inv\<close>).
\<close>

theorem createVirtualDesktop_inserts:
  assumes "env_ok E" and "vdm_inv s"
  shows "\<exists>r s'. vdm_createVirtualDesktop E position nm s = Returns (r, s') \<and> vdm_inv s' \<and>
    vm_current s' = vm_current s \<and>
    (if vdm_count s = vdm_maximum then r = None \<and> s' = s
     else r = Some (vm_fresh s) \<and> vm_fresh s \<notin> set (vm_desktops s) \<and>
       vm_desktops s' = insert_at (min position (vdm_count s)) (vm_fresh s) (vm_desktops s) \<and>
       vd_name (vm_heap s' (vm_fresh s)) = nm)"
  using assms by (rule createVirtualDesktop_returns)

theorem createVirtualDesktop_inserts_witness:
  "\<exists>r s'. vdm_createVirtualDesktop demo_env 1 ''web'' demo_vdm = Returns (r, s') \<and> vdm_inv s' \<and>
     vm_desktops s' = [0, 3, 1, 2]"
proof -
  have "vm_fresh demo_vdm = 3" by (simp add: demo_vdm_def)
  with createVirtualDesktop_inserts [OF demo_env_ok demo_vdm_inv, of 1 "''web''"]
  show ?thesis by (auto simp: demo_fields vdm_maximum_def insert_at_def)
qed

text \<open>
  Removing a desktop: the last desktop and an unknown id are refused without any change.
  Otherwise exactly the named desktop leaves the vector, and the number of the current desktop is
  the old one cut at the new count.
\<close>

theorem removeVirtualDesktop_removes:
  assumes "env_ok E" and "vdm_inv s" and "vm_current s = Some cur"
  shows "\<exists>s'. vdm_removeVirtualDesktop E i s = Returns s' \<and> vdm_inv s' \<and> vm_current s' \<noteq> None \<and>
    (if vdm_count s = 1 \<or> vdm_desktopForId s i = None then s' = s
     else vm_desktops s' = removeAll (the (vdm_desktopForId s i)) (vm_desktops s) \<and>
       vdm_current s' = min (vdm_current s) (vdm_count s - 1))"
  using assms by (rule removeVirtualDesktop_returns)

theorem removeVirtualDesktop_removes_witness:
  "\<exists>s'. vdm_removeVirtualDesktop demo_env ''di'' demo_vdm = Returns s' \<and> vdm_inv s' \<and>
     vm_desktops s' = [0, 2] \<and> vdm_current s' = 1"
proof -
  have "vdm_desktopForId demo_vdm ''di'' = Some 1"
    by (simp add: vdm_desktopForId_def demo_fields)
  with removeVirtualDesktop_removes [OF demo_env_ok demo_vdm_inv demo_fields(1), of "''di''"]
  show ?thesis by (auto simp: demo_fields)
qed

text \<open>
  Setting the count always succeeds, whatever the request: the manager ends with the requested
  number of desktops clamped to 1..20, the desktops that remain are the first ones in their old
  order, and a manager with a current desktop keeps one.
\<close>

theorem setCount_clamps:
  assumes "env_ok E" and "vdm_inv s"
  shows "\<exists>s'. vdm_setCount E n s = Returns s' \<and> vdm_inv s' \<and>
    vdm_count s' = qBound 1 n vdm_maximum \<and>
    take (vdm_count s) (vm_desktops s') = take (qBound 1 n vdm_maximum) (vm_desktops s) \<and>
    (vm_current s' = None \<longleftrightarrow> vm_current s = None)"
  using setCount_returns [OF assms(1), of s n] assms(2) by simp

theorem setCount_clamps_witness:
  "\<exists>s'. vdm_setCount demo_env 0 demo_vdm = Returns s' \<and> vdm_inv s' \<and> vdm_count s' = 1"
  using setCount_clamps [OF demo_env_ok demo_vdm_inv, of 0] by (auto simp: qBound_def vdm_maximum_def)

text \<open>
  C7. Saving and loading is a round trip: saving terminates, and a new manager without desktops
  that loads the saved group ends well formed with the same number of desktops, the same ids in the
  same order and the same names, where an empty name has become the default name of its number;
  the number of rows is the saved one cut at the count.
\<close>

theorem save_load_round_trip:
  assumes "env_ok E" and "vdm_inv s" and "\<not> vm_loading s" and "vm_config s \<noteq> None"
    and "\<forall>d \<in> set (vm_desktops s). vd_id (vm_heap s d) \<noteq> []"
  shows "\<exists>s' u. vdm_save E s = Returns s' \<and>
    vdm_load E (vdm_init\<lparr>vm_config := vm_config s'\<rparr>) = Returns u \<and> vdm_inv u \<and> \<not> vm_loading u \<and>
    vdm_count u = vdm_count s \<and> vm_rows u = min (vm_rows s) (vdm_count s) \<and>
    (\<forall>i. 1 \<le> i \<longrightarrow> i \<le> vdm_count s \<longrightarrow>
       vd_id (vm_heap u (vm_desktops u ! (i - 1))) = vd_id (vm_heap s (vm_desktops s ! (i - 1))) \<and>
       vd_name (vm_heap u (vm_desktops u ! (i - 1))) =
         (if vd_name (vm_heap s (vm_desktops s ! (i - 1))) = [] then env_defaultName E i
          else vd_name (vm_heap s (vm_desktops s ! (i - 1)))))"
proof -
  obtain s' where save: "vdm_save E s = Returns s'"
    using save_returns assms(1) unfolding env_ok_def by blast
  from load_after_save [OF assms save] obtain u where
    "vdm_load E (vdm_init\<lparr>vm_config := vm_config s'\<rparr>) = Returns u" "vdm_inv u"
    "vdm_count u = vdm_count s" "vm_rows u = min (vm_rows s) (vdm_count s)" "\<not> vm_loading u"
    "\<And>i. 1 \<le> i \<Longrightarrow> i \<le> vdm_count s \<Longrightarrow>
       vd_id (vm_heap u (vm_desktops u ! (i - 1))) = saved_id s i \<and>
       vd_name (vm_heap u (vm_desktops u ! (i - 1))) = saved_name E s i" by metis
  with save show ?thesis unfolding saved_id_def saved_name_def by blast
qed

theorem save_load_round_trip_witness:
  "\<exists>s' u. vdm_save demo_env demo_vdm = Returns s' \<and>
    vdm_load demo_env (vdm_init\<lparr>vm_config := vm_config s'\<rparr>) = Returns u \<and> vdm_inv u \<and> vdm_count u = 3"
  using save_load_round_trip [OF demo_env_ok demo_vdm_inv demo_fields(4,5)] by (auto simp: demo_fields)

section \<open>Where the code does less than it means to\<close>

lemma load_entry_in_range:
  "load_entry E c i s = Returns t \<Longrightarrow> i - 1 < vdm_count s \<and> vdm_count t = vdm_count s"
  by (auto simp: load_entry_def Let_def vd_setId_def vdm_generateDesktopId_def vdm_count_def
      split: if_splits)

lemma load_entries_in_range:
  "load_entries E c is s = Returns t \<Longrightarrow> \<forall>i \<in> set is. i - 1 < vdm_count s"
  by (induction "is" arbitrary: s) (auto dest!: load_entry_in_range, metis)

text \<open>
  A configuration whose \<open>Number\<close> entry exceeds the maximum of 20 desktops cannot be loaded:
  \<open>setCount\<close> clamps the count to 20, but the loop over the stored entries runs to the stored
  number and indexes the vector past its end.
\<close>

theorem load_too_many_faults:
  assumes "env_ok E" and "kc_readInt (env_kconfig E) c KNumber 1 = n" and "20 < n" and "n < 2 ^ 31"
  shows "vdm_load E (vdm_init\<lparr>vm_config := Some c\<rparr>) \<noteq> Returns u"
proof
  let ?s = "vdm_init\<lparr>vm_config := Some c, vm_loading := True\<rparr> :: 'a vdm"
  assume "vdm_load E (vdm_init\<lparr>vm_config := Some c\<rparr>) = Returns u"
  then obtain t v where t: "vdm_setCount E (nat (n mod 2 ^ 32)) ?s = Returns t"
      and v: "load_entries E c [1..<nat n + 1] t = Returns v"
    unfolding vdm_load_def using assms(2) by (auto simp: Let_def)
  have "desktops_numbered ?s \<and> vdm_count ?s = 0"
    by (simp add: vdm_init_def desktops_numbered_def vdm_count_def)
  then have "vdm_count t = qBound 1 (nat (n mod 2 ^ 32)) vdm_maximum"
    using setCount_returns [OF assms(1), of ?s "nat (n mod 2 ^ 32)"] t by auto
  then have "vdm_count t \<le> 20" by (simp add: qBound_def vdm_maximum_def)
  moreover have "nat n \<in> set [1..<nat n + 1]" using assms(3) by simp
  then have "nat n - 1 < vdm_count t" using load_entries_in_range [OF v] by blast
  ultimately show False using assms(3) by linarith
qed

theorem load_too_many_faults_witness:
  "vdm_load demo_env (vdm_init\<lparr>vm_config := Some ([], [(KNumber, 21)])\<rparr>) \<noteq> Returns demo_vdm"
  by (rule load_too_many_faults [where n = 21])
    (simp_all add: demo_env_ok, simp add: demo_env_def demo_kconfig_def)

lemma current_is_numbered:
  assumes "vdm_inv s" and "vm_current s \<noteq> None"
  shows "vm_current s = Some (vm_desktops s ! (vdm_current s - 1))" "1 \<le> vdm_current s"
    "vdm_current s \<le> vdm_count s"
proof -
  obtain c where c: "vm_current s = Some c" using assms(2) by blast
  have ok: "desktops_ok s" using assms(1) by (simp add: vdm_inv_def)
  then have "c \<in> set (vm_desktops s)" using c by (auto simp: desktops_ok_def)
  then obtain k where "k < vdm_count s" "vm_desktops s ! k = c" "vd_x11DesktopNumber (vm_heap s c) = Suc k"
    by (rule number_of_desktop [OF ok])
  then show "vm_current s = Some (vm_desktops s ! (vdm_current s - 1))" "1 \<le> vdm_current s"
      "vdm_current s \<le> vdm_count s"
    using c by (simp_all add: vdm_current_def)
qed

text \<open>
  Removing a desktop that stands before the current one, when the current one is not the
  last, moves the user to another desktop: the number of the current desktop stays what it was,
  so no change is signalled, but the desktop with that number is now the one that followed the
  current desktop.
\<close>

theorem remove_before_current_moves_on:
  assumes "env_ok E" and "vdm_inv s" and "vm_current s \<noteq> None"
    and "vdm_desktopForId s i = Some (vm_desktops s ! k)" and "Suc k < vdm_current s"
    and "vdm_current s < vdm_count s"
  shows "\<exists>s'. vdm_removeVirtualDesktop E i s = Returns s' \<and> vdm_current s' = vdm_current s \<and>
    vm_current s' = Some (vm_desktops s ! vdm_current s) \<and> vm_current s' \<noteq> vm_current s"
proof -
  let ?n = "vdm_current s" and ?d = "vm_desktops s ! k"
  obtain cur where cur: "vm_current s = Some cur" using assms(3) by blast
  obtain s' where s': "vdm_removeVirtualDesktop E i s = Returns s'" "vdm_inv s'" "vm_current s' \<noteq> None"
      "vm_desktops s' = removeAll ?d (vm_desktops s)" "vdm_current s' = min ?n (vdm_count s - 1)"
    using removeVirtualDesktop_returns [OF assms(1,2) cur, of i] assms(4-6) by auto
  have dist: "distinct (vm_desktops s)" using assms(2) by (simp add: vdm_inv_def desktops_ok_def)
  have "k < length (vm_desktops s)" using assms(5,6) by (simp add: vdm_count_def)
  then have "vm_desktops s' = take k (vm_desktops s) @ drop (Suc k) (vm_desktops s)"
    using s'(4) remove_nth_eq_removeAll [OF dist] by (simp add: remove_nth_def)
  then have "vm_desktops s' ! (?n - 1) = vm_desktops s ! ?n"
    using assms(5,6) by (auto simp: nth_append vdm_count_def)
  moreover have "vdm_current s' = ?n" using s'(5) assms(6) by simp
  ultimately have new: "vm_current s' = Some (vm_desktops s ! ?n)"
    using current_is_numbered(1) [OF s'(2,3)] by simp
  have "vm_desktops s ! (?n - 1) \<noteq> vm_desktops s ! ?n"
    using dist assms(5,6) by (simp add: nth_eq_iff_index_eq vdm_count_def)
  with new s'(1) \<open>vdm_current s' = ?n\<close> current_is_numbered(1) [OF assms(2,3)] show ?thesis by simp
qed

theorem remove_before_current_moves_on_witness:
  "\<exists>s'. vdm_removeVirtualDesktop demo_env ''d'' (demo_vdm\<lparr>vm_current := Some 1\<rparr>) = Returns s' \<and>
     vdm_current s' = 2 \<and> vm_current s' = Some 2"
proof -
  let ?s = "demo_vdm\<lparr>vm_current := Some 1\<rparr>"
  have s: "vdm_inv ?s" "vdm_current ?s = 2" "vdm_count ?s = 3" "vm_desktops ?s = [0, 1, 2]"
    using demo_vdm_inv by (simp_all add: vdm_inv_def desktops_ok_def vdm_count_def demo_vdm_def
        vdm_init_def vdm_current_def)
  have "vdm_desktopForId ?s ''d'' = Some (vm_desktops ?s ! 0)"
    by (simp add: vdm_desktopForId_def demo_vdm_def)
  from remove_before_current_moves_on [OF demo_env_ok s(1) _ this] s show ?thesis
    by (auto simp: numeral_2_eq_2)
qed

end
