(* ===== verification/VirtualDesktops_Refinement.thy ===== *)
theory VirtualDesktops_Refinement
  imports VirtualDesktops_Properties
begin

text \<open>
  What a client of the virtual desktop manager has to know: an abstract machine whose state is the
  list of the desktops and the position of the current one, and the proof that the manager with its
  heap, numbers, grid, layout and configuration implements it.
\<close>

section \<open>The abstract machine\<close>

type_synonym desks = "addr list \<times> nat"

inductive desks_step :: "vd_request \<Rightarrow> desks \<Rightarrow> desks \<Rightarrow> bool" where
  create_full: "length ds = vdm_maximum \<Longrightarrow> desks_step (ReqCreate p n) (ds, k) (ds, k)"
| create: "length ds < vdm_maximum \<Longrightarrow> a \<notin> set ds \<Longrightarrow> i = min p (length ds) \<Longrightarrow>
    desks_step (ReqCreate p n) (ds, k) (insert_at i a ds, if i \<le> k then Suc k else k)"
| remove_refused: "desks_step (ReqRemove i) (ds, k) (ds, k)"
| remove: "2 \<le> length ds \<Longrightarrow> d \<in> set ds \<Longrightarrow>
    desks_step (ReqRemove i) (ds, k) (removeAll d ds, min k (length ds - 2))"
| set_count: "length ds' = qBound 1 n vdm_maximum \<Longrightarrow> distinct ds' \<Longrightarrow>
    take (length ds) ds' = take (qBound 1 n vdm_maximum) ds \<Longrightarrow> k' < length ds' \<Longrightarrow>
    desks_step (ReqSetCount n) (ds, k) (ds', k')"
| move: "r \<in> {ReqNext, ReqPrevious, ReqRight, ReqLeft, ReqUp, ReqDown} \<union> range ReqSetCurrent \<union> range ReqSwitchTo \<Longrightarrow>
    k' < length ds \<Longrightarrow> desks_step r (ds, k) (ds, k')"
| stay: "r \<in> insert ReqSave (range ReqSetRows \<union> range ReqWrap) \<Longrightarrow> desks_step r (ds, k) (ds, k)"

inductive desks_run :: "vd_request list \<Rightarrow> desks \<Rightarrow> desks \<Rightarrow> bool" where
  run_nil: "desks_run [] c c"
| run_cons: "desks_step r c c' \<Longrightarrow> desks_run rs c' c'' \<Longrightarrow> desks_run (r # rs) c c''"

definition desks_ok :: "desks \<Rightarrow> bool" where
  "desks_ok c \<longleftrightarrow> distinct (fst c) \<and> snd c < length (fst c) \<and> length (fst c) \<le> vdm_maximum"

lemma insert_at_facts:
  "i \<le> length ds \<Longrightarrow> length (insert_at i a ds) = Suc (length ds)"
  "i \<le> length ds \<Longrightarrow> a \<notin> set ds \<Longrightarrow> distinct ds \<Longrightarrow> distinct (insert_at i a ds)"
  by (auto simp: insert_at_def dest: in_set_takeD in_set_dropD set_take_disj_set_drop_if_distinct [of ds i i])

lemma insert_at_nth:
  assumes "i \<le> length ds" and "k < length ds"
  shows "insert_at i a ds ! (if i \<le> k then Suc k else k) = ds ! k"
  using assms by (auto simp: insert_at_def nth_append)

lemma desks_step_ok: "desks_step r c c' \<Longrightarrow> desks_ok c \<Longrightarrow> desks_ok c'"
proof (induction rule: desks_step.induct)
  case (create ds a i p n k)
  then show ?case by (auto simp: desks_ok_def insert_at_facts)
next
  case (remove ds d i k)
  then have "length (removeAll d ds) = length ds - 1"
    by (simp add: desks_ok_def distinct_remove1_removeAll [symmetric] length_remove1)
  with remove show ?case by (auto simp: desks_ok_def distinct_removeAll vdm_maximum_def)
qed (auto simp: desks_ok_def qBound_def)

lemma desks_run_ok: "desks_run rs c c' \<Longrightarrow> desks_ok c \<Longrightarrow> desks_ok c'"
  by (induction rule: desks_run.induct) (auto intro: desks_step_ok)

section \<open>The manager implements it\<close>

definition vdm_abs :: "'c vdm \<Rightarrow> desks" where
  "vdm_abs s = (vm_desktops s, vdm_current s - 1)"

lemma abs_ok: "vdm_inv s \<Longrightarrow> vm_current s \<noteq> None \<Longrightarrow> desks_ok (vdm_abs s)"
  using current_is_numbered [of s]
  by (auto simp: desks_ok_def vdm_abs_def vdm_inv_def desktops_ok_def vdm_count_def)

lemma abs_current:
  assumes "vdm_inv s" and "vm_current s = Some (vm_desktops s ! k)" and "k < length (vm_desktops s)"
  shows "vdm_abs s = (vm_desktops s, k)"
  using assms by (simp add: vdm_abs_def vdm_current_def vdm_inv_def desktops_ok_def vdm_count_def)

lemma create_refines:
  assumes "env_ok E" and inv: "vdm_inv s" and cur: "vm_current s \<noteq> None"
  shows "\<exists>r s'. vdm_createVirtualDesktop E p n s = Returns (r, s') \<and> vdm_inv s' \<and> vm_current s' \<noteq> None \<and>
    desks_step (ReqCreate p n) (vdm_abs s) (vdm_abs s')"
proof -
  let ?ds = "vm_desktops s" and ?k = "vdm_current s - 1" and ?i = "min p (vdm_count s)"
  obtain r s' where s': "vdm_createVirtualDesktop E p n s = Returns (r, s')" "vdm_inv s'" "vm_current s' = vm_current s"
    "if vdm_count s = vdm_maximum then s' = s
     else vm_fresh s \<notin> set ?ds \<and> vm_desktops s' = insert_at ?i (vm_fresh s) ?ds"
    using createVirtualDesktop_returns [OF assms(1,2), of p n] by (auto split: if_splits)
  have k: "vm_current s = Some (?ds ! ?k)" "?k < length ?ds"
    using current_is_numbered [OF inv cur] by (auto simp: vdm_count_def)
  have "desks_step (ReqCreate p n) (vdm_abs s) (vdm_abs s')"
  proof (cases "vdm_count s = vdm_maximum")
    case True
    with s'(4) create_full show ?thesis by (simp add: vdm_abs_def vdm_count_def)
  next
    case False
    then have new: "vm_fresh s \<notin> set ?ds" "vm_desktops s' = insert_at ?i (vm_fresh s) ?ds" using s'(4) by auto
    let ?k' = "if ?i \<le> ?k then Suc ?k else ?k"
    have "vm_desktops s' ! ?k' = ?ds ! ?k" "?k' < length (vm_desktops s')"
      using k(2) insert_at_nth [of ?i ?ds ?k] insert_at_facts(1) [of ?i ?ds] unfolding new(2) by (auto simp: vdm_count_def)
    then have "vdm_abs s' = (insert_at ?i (vm_fresh s) ?ds, ?k')"
      using abs_current [OF s'(2), of ?k'] s'(3) k(1) new(2) by simp
    moreover have "length ?ds < vdm_maximum" using False inv by (simp add: vdm_inv_def desktops_ok_def vdm_count_def)
    ultimately show ?thesis
      using create [OF _ new(1), of ?i p n ?k] by (simp only: vdm_abs_def [of s] vdm_count_def)
  qed
  with s' cur show ?thesis by auto
qed

lemma remove_refines:
  assumes "env_ok E" and inv: "vdm_inv s" and cur: "vm_current s \<noteq> None"
  shows "\<exists>s'. vdm_removeVirtualDesktop E i s = Returns s' \<and> vdm_inv s' \<and> vm_current s' \<noteq> None \<and>
    desks_step (ReqRemove i) (vdm_abs s) (vdm_abs s')"
proof -
  obtain c where "vm_current s = Some c" using cur by blast
  from removeVirtualDesktop_returns [OF assms(1) inv this, of i] obtain s' where
    s': "vdm_removeVirtualDesktop E i s = Returns s'" "vdm_inv s'" "vm_current s' \<noteq> None"
    "if vdm_count s = 1 \<or> vdm_desktopForId s i = None then s' = s
     else vm_desktops s' = removeAll (the (vdm_desktopForId s i)) (vm_desktops s) \<and>
       vdm_current s' = min (vdm_current s) (vdm_count s - 1)" by blast
  have "desks_step (ReqRemove i) (vdm_abs s) (vdm_abs s')"
  proof (cases "vdm_count s = 1 \<or> vdm_desktopForId s i = None")
    case True
    with s'(4) show ?thesis by (simp add: vdm_abs_def remove_refused)
  next
    case False
    then obtain d where d: "vdm_desktopForId s i = Some d" by blast
    then have "d \<in> set (vm_desktops s)" by (auto simp: vdm_desktopForId_def find_Some_iff)
    moreover have "2 \<le> length (vm_desktops s)" using False inv by (auto simp: vdm_inv_def desktops_ok_def vdm_count_def)
    moreover have "vdm_abs s' = (removeAll d (vm_desktops s), min (vdm_current s - 1) (length (vm_desktops s) - 2))"
      using s'(4) False d by (auto simp: vdm_abs_def vdm_count_def)
    ultimately show ?thesis by (simp add: remove vdm_abs_def [of s])
  qed
  with s' show ?thesis by blast
qed

lemma setCount_refines:
  assumes "env_ok E" and inv: "vdm_inv s" and cur: "vm_current s \<noteq> None"
  shows "\<exists>s'. vdm_setCount E n s = Returns s' \<and> vdm_inv s' \<and> vm_current s' \<noteq> None \<and>
    desks_step (ReqSetCount n) (vdm_abs s) (vdm_abs s')"
proof -
  obtain s' where s': "vdm_setCount E n s = Returns s'" "vdm_inv s'" "vdm_count s' = qBound 1 n vdm_maximum"
    "take (vdm_count s) (vm_desktops s') = take (qBound 1 n vdm_maximum) (vm_desktops s)" "vm_current s' \<noteq> None"
    using setCount_returns [OF assms(1), of s n] inv cur by auto
  have "desks_step (ReqSetCount n) (vdm_abs s) (vdm_abs s')"
    unfolding vdm_abs_def using s'(3,4) abs_ok [OF s'(2,5)]
    by (intro set_count) (auto simp: desks_ok_def vdm_abs_def vdm_count_def)
  with s' show ?thesis by blast
qed

lemma move_refines:
  assumes "vdm_inv s'" and "vm_current s' \<noteq> None" and "vm_desktops s' = vm_desktops s"
    and "r \<in> {ReqNext, ReqPrevious, ReqRight, ReqLeft, ReqUp, ReqDown} \<union> range ReqSetCurrent \<union> range ReqSwitchTo"
  shows "desks_step r (vdm_abs s) (vdm_abs s')"
  using move [OF assms(4), of "vdm_current s' - 1" "vm_desktops s"] abs_ok [OF assms(1,2)] assms(3)
  by (simp add: desks_ok_def vdm_abs_def)

lemma exec_refines:
  assumes E: "env_ok E" and inv: "vdm_inv s" and cur: "vm_current s \<noteq> None"
  shows "\<exists>s'. vdm_exec E r s = Returns s' \<and> vdm_inv s' \<and> vm_current s' \<noteq> None \<and> desks_step r (vdm_abs s) (vdm_abs s')"
proof -
  have moves: "\<exists>s'. vdm_moveTo dir w s = Returns s' \<and> vdm_inv s' \<and> vm_current s' \<noteq> None \<and> desks_step r (vdm_abs s) (vdm_abs s')"
    if "dir \<in> {vdm_above, vdm_below, vdm_toLeft, vdm_toRight, vdm_next, vdm_previous}"
      "r \<in> {ReqNext, ReqPrevious, ReqRight, ReqLeft, ReqUp, ReqDown}" for dir w
    using moveTo_returns [OF inv cur that(1)] move_refines that(2) by blast
  have current: "\<exists>b s'. vdm_setCurrent_number n s = Returns (b, s') \<and> vdm_inv s' \<and> vm_current s' \<noteq> None \<and>
      desks_step r (vdm_abs s) (vdm_abs s')" if "r \<in> range ReqSetCurrent \<union> range ReqSwitchTo" for n
    using setCurrent_number_returns [OF inv cur, of n] move_refines that by blast
  have same: "desks_step r (vdm_abs s) (vdm_abs s)" if "r \<in> range ReqSwitchTo"
    using move_refines [OF inv cur refl] that by blast
  have kept: "desks_step r (vdm_abs s) (vdm_abs s')"
    if "vm_desktops s' = vm_desktops s" "vdm_current s' = vdm_current s" "r \<in> insert ReqSave (range ReqSetRows \<union> range ReqWrap)" for s'
    using stay [OF that(3), of "vm_desktops s" "vdm_current s - 1"] that(1,2) by (simp add: vdm_abs_def)
  show ?thesis
  proof (cases r)
    case (ReqCreate p n)
    with create_refines [OF assms, of p n] show ?thesis by auto
  next
    case (ReqRemove i)
    with remove_refines [OF assms, of i] show ?thesis by auto
  next
    case (ReqSetCount n)
    with setCount_refines [OF assms, of n] show ?thesis by auto
  next
    case (ReqSetRows n)
    obtain s' where s': "vdm_setRows E n s = Returns s'" "vdm_inv s'" "vm_current s' = vm_current s" "vm_desktops s' = vm_desktops s"
      using setRows_returns [OF E inv, of n] by auto
    then have "vdm_abs s' = vdm_abs s"
      using current_is_numbered [OF inv cur] abs_current [OF s'(2), of "vdm_current s - 1"]
      by (simp add: vdm_abs_def [of s] vdm_count_def)
    with current_is_numbered(2) [OF inv cur] current_is_numbered(2) [OF s'(2)] s'(3) cur
    have "vdm_current s' = vdm_current s" by (auto simp: vdm_abs_def)
    with s' kept cur ReqSetRows show ?thesis by auto
  next
    case (ReqSetCurrent n)
    with current [of n] show ?thesis by auto
  next
    case (ReqSwitchTo n)
    with current same inv cur show ?thesis by (cases n) (auto simp: vdm_slotSwitchTo_def, metis snd_conv)
  next
    case (ReqWrap b)
    let ?s = "vdm_setNavigationWrappingAround b s"
    have "vm_desktops ?s = vm_desktops s" "vdm_current ?s = vdm_current s" "vm_current ?s \<noteq> None" "vdm_inv ?s"
      using inv cur by (auto simp: vdm_setNavigationWrappingAround_def vdm_inv_def desktops_ok_def vdm_count_def vdm_current_def)
    with ReqWrap kept [of ?s] show ?thesis by simp
  next
    case ReqSave
    obtain s' where "vdm_save E s = Returns s'" "vm_heap s' = vm_heap s" "vm_core s' = vm_core (s\<lparr>vm_config := vm_config s'\<rparr>)"
      using save_returns E unfolding env_ok_def by blast
    with inv cur vm_coreD [of s' "s\<lparr>vm_config := vm_config s'\<rparr>"]
    have "vdm_save E s = Returns s'" "vm_desktops s' = vm_desktops s" "vdm_current s' = vdm_current s" "vm_current s' \<noteq> None" "vdm_inv s'"
      by (auto simp: vdm_inv_def desktops_ok_def vdm_count_def vdm_current_def)
    with ReqSave kept [of s'] show ?thesis by simp
  qed (use moves in \<open>simp_all add: vdm_slotNext_def vdm_slotPrevious_def vdm_slotRight_def
      vdm_slotLeft_def vdm_slotUp_def vdm_slotDown_def\<close>)
qed

text \<open>
  C1. The manager refines the abstract machine: every sequence of requests runs to its end, and
  the desktops and the position of the current one go through a run of the machine. In particular
  the manager never has fewer than one or more than 20 desktops, never the same one twice, and the
  position of the current desktop is always valid, because no step of the machine breaks this.
\<close>

theorem manager_refines_desk_list:
  assumes "env_ok E" and "vdm_inv s" and "vm_current s \<noteq> None"
  shows "\<exists>s'. vdm_run E rs s = Returns s' \<and> desks_run rs (vdm_abs s) (vdm_abs s') \<and> desks_ok (vdm_abs s')"
proof -
  have "\<exists>s'. vdm_run E rs s = Returns s' \<and> desks_run rs (vdm_abs s) (vdm_abs s')"
    using assms(2,3)
  proof (induction rs arbitrary: s)
    case Nil
    then show ?case by (simp add: run_nil)
  next
    case (Cons r rs)
    from exec_refines [OF assms(1) Cons.prems, of r] Cons.IH show ?case by (fastforce intro: run_cons)
  qed
  with desks_run_ok abs_ok [OF assms(2,3)] show ?thesis by blast
qed

theorem manager_refines_desk_list_witness:
  "\<exists>s'. vdm_run demo_env [ReqCreate 1 ''web'', ReqLeft, ReqRemove ''d'', ReqSetCount 7] demo_vdm = Returns s' \<and>
     desks_run [ReqCreate 1 ''web'', ReqLeft, ReqRemove ''d'', ReqSetCount 7] ([0, 1, 2], 0) (vdm_abs s')"
  using manager_refines_desk_list [OF demo_env_ok demo_vdm_inv, of "[ReqCreate 1 ''web'', ReqLeft, ReqRemove ''d'', ReqSetCount 7]"]
  by (auto simp: vdm_abs_def [of demo_vdm] demo_fields)

end
