(* ===== verification/Geometry.thy ===== *)
theory Geometry
  imports KWin_Prelude
begin

text \<open>
  The integer geometry of Qt the sources compute with. A \<open>QRect\<close> stores the coordinates of its
  first and of its last column and row, so a rectangle of width \<open>w\<close> at \<open>x\<close> ends at
  \<open>x + w - 1\<close>. Coordinates are mathematical integers: screen coordinates stay far away from the
  bounds of \<open>int\<close>.
\<close>

type_synonym point = "int \<times> int"
type_synonym qsize = "int \<times> int"

record rect =
  rleft :: int
  rtop :: int
  rright :: int
  rbottom :: int

definition mk_rect :: "int \<Rightarrow> int \<Rightarrow> int \<Rightarrow> int \<Rightarrow> rect" where
  "mk_rect x y w h = \<lparr>rleft = x, rtop = y, rright = x + w - 1, rbottom = y + h - 1\<rparr>"

definition null_rect :: rect where
  "null_rect = mk_rect 0 0 0 0"

definition rwidth :: "rect \<Rightarrow> int" where "rwidth r = rright r - rleft r + 1"
definition rheight :: "rect \<Rightarrow> int" where "rheight r = rbottom r - rtop r + 1"

definition rsize :: "rect \<Rightarrow> qsize" where "rsize r = (rwidth r, rheight r)"

definition rnull :: "rect \<Rightarrow> bool" where
  "rnull r \<longleftrightarrow> rright r = rleft r - 1 \<and> rbottom r = rtop r - 1"

definition rvalid :: "rect \<Rightarrow> bool" where
  "rvalid r \<longleftrightarrow> rleft r \<le> rright r \<and> rtop r \<le> rbottom r"

definition rempty :: "rect \<Rightarrow> bool" where
  "rempty r \<longleftrightarrow> rright r < rleft r \<or> rbottom r < rtop r"

text \<open>Qt normalises a rectangle of negative width or height before it compares.\<close>

definition rnorm :: "rect \<Rightarrow> rect" where
  "rnorm r = r\<lparr>rleft := if rwidth r < 0 then rright r else rleft r,
              rright := if rwidth r < 0 then rleft r else rright r,
              rtop := if rheight r < 0 then rbottom r else rtop r,
              rbottom := if rheight r < 0 then rtop r else rbottom r\<rparr>"

definition rintersects :: "rect \<Rightarrow> rect \<Rightarrow> bool" where
  "rintersects a b \<longleftrightarrow>
     \<not> rnull a \<and> \<not> rnull b \<and>
     (let a' = rnorm a; b' = rnorm b in
      \<not> (rleft a' > rright b' \<or> rleft b' > rright a') \<and>
      \<not> (rtop a' > rbottom b' \<or> rtop b' > rbottom a'))"

definition rcontains_point :: "rect \<Rightarrow> point \<Rightarrow> bool" where
  "rcontains_point r p \<longleftrightarrow>
     (let r' = (if rright r < rleft r - 1 then r\<lparr>rleft := rright r + 1, rright := rleft r - 1\<rparr> else r);
          r'' = (if rbottom r' < rtop r' - 1 then r'\<lparr>rtop := rbottom r' + 1, rbottom := rtop r' - 1\<rparr> else r')
      in rleft r'' \<le> fst p \<and> fst p \<le> rright r'' \<and> rtop r'' \<le> snd p \<and> snd p \<le> rbottom r'')"

definition runited :: "rect \<Rightarrow> rect \<Rightarrow> rect" where
  "runited a b =
     (if rnull a then b else if rnull b then a
      else let a' = rnorm a; b' = rnorm b in
        \<lparr>rleft = min (rleft a') (rleft b'), rtop = min (rtop a') (rtop b'),
         rright = max (rright a') (rright b'), rbottom = max (rbottom a') (rbottom b')\<rparr>)"

definition manhattanLength :: "point \<Rightarrow> int" where
  "manhattanLength p = \<bar>fst p\<bar> + \<bar>snd p\<bar>"

definition INT_MAX :: int where "INT_MAX = 2147483647"

section \<open>Moving and resizing rectangles\<close>

text \<open>Division of C++ rounds towards zero.\<close>

definition tdiv :: "int \<Rightarrow> int \<Rightarrow> int" where
  "tdiv a b = sgn a * sgn b * (\<bar>a\<bar> div \<bar>b\<bar>)"

definition rtopLeft :: "rect \<Rightarrow> point" where "rtopLeft r = (rleft r, rtop r)"

definition rcenter :: "rect \<Rightarrow> point" where
  "rcenter r = (tdiv (rleft r + rright r) 2, tdiv (rtop r + rbottom r) 2)"

definition rect_at :: "point \<Rightarrow> qsize \<Rightarrow> rect" where
  "rect_at p sz = mk_rect (fst p) (snd p) (fst sz) (snd sz)"

definition moveLeft :: "int \<Rightarrow> rect \<Rightarrow> rect" where
  "moveLeft x r = r\<lparr>rleft := x, rright := rright r + (x - rleft r)\<rparr>"
definition moveTop :: "int \<Rightarrow> rect \<Rightarrow> rect" where
  "moveTop y r = r\<lparr>rtop := y, rbottom := rbottom r + (y - rtop r)\<rparr>"
definition moveRight :: "int \<Rightarrow> rect \<Rightarrow> rect" where
  "moveRight x r = r\<lparr>rleft := rleft r + (x - rright r), rright := x\<rparr>"
definition moveBottom :: "int \<Rightarrow> rect \<Rightarrow> rect" where
  "moveBottom y r = r\<lparr>rtop := rtop r + (y - rbottom r), rbottom := y\<rparr>"
definition moveTopLeft :: "point \<Rightarrow> rect \<Rightarrow> rect" where
  "moveTopLeft p r = moveTop (snd p) (moveLeft (fst p) r)"
definition moveCenter :: "point \<Rightarrow> rect \<Rightarrow> rect" where
  "moveCenter p r =
     (let w = rright r - rleft r; h = rbottom r - rtop r;
          x = fst p - tdiv w 2; y = snd p - tdiv h 2
      in \<lparr>rleft = x, rtop = y, rright = x + w, rbottom = y + h\<rparr>)"
definition rtranslated :: "point \<Rightarrow> rect \<Rightarrow> rect" where
  "rtranslated d r = \<lparr>rleft = rleft r + fst d, rtop = rtop r + snd d,
     rright = rright r + fst d, rbottom = rbottom r + snd d\<rparr>"
definition setSize :: "qsize \<Rightarrow> rect \<Rightarrow> rect" where
  "setSize sz r = r\<lparr>rright := rleft r + fst sz - 1, rbottom := rtop r + snd sz - 1\<rparr>"

definition szvalid :: "qsize \<Rightarrow> bool" where
  "szvalid sz \<longleftrightarrow> 0 \<le> fst sz \<and> 0 \<le> snd sz"
definition boundedTo :: "qsize \<Rightarrow> qsize \<Rightarrow> qsize" where
  "boundedTo a b = (min (fst a) (fst b), min (snd a) (snd b))"
definition expandedTo :: "qsize \<Rightarrow> qsize \<Rightarrow> qsize" where
  "expandedTo a b = (max (fst a) (fst b), max (snd a) (snd b))"

definition rintersected :: "rect \<Rightarrow> rect \<Rightarrow> rect" where
  "rintersected a b =
     (if rnull a \<or> rnull b then null_rect
      else let a' = rnorm a; b' = rnorm b in
        if rleft a' > rright b' \<or> rleft b' > rright a' \<or> rtop a' > rbottom b' \<or> rtop b' > rbottom a'
        then null_rect
        else \<lparr>rleft = max (rleft a') (rleft b'), rtop = max (rtop a') (rtop b'),
              rright = min (rright a') (rright b'), rbottom = min (rbottom a') (rbottom b')\<rparr>)"

text \<open>\<open>QMargins\<close>, added to and subtracted from a rectangle.\<close>

record margins =
  mleft :: int
  mtop :: int
  mright :: int
  mbottom :: int

definition no_margins :: margins where
  "no_margins = \<lparr>mleft = 0, mtop = 0, mright = 0, mbottom = 0\<rparr>"

definition radd :: "rect \<Rightarrow> margins \<Rightarrow> rect" where
  "radd r m = \<lparr>rleft = rleft r - mleft m, rtop = rtop r - mtop m,
     rright = rright r + mright m, rbottom = rbottom r + mbottom m\<rparr>"
definition rsub :: "rect \<Rightarrow> margins \<Rightarrow> rect" where
  "rsub r m = \<lparr>rleft = rleft r + mleft m, rtop = rtop r + mtop m,
     rright = rright r - mright m, rbottom = rbottom r - mbottom m\<rparr>"

lemmas rect_ops = rtopLeft_def rect_at_def mk_rect_def moveLeft_def moveTop_def moveRight_def
  moveBottom_def moveTopLeft_def rtranslated_def setSize_def rsize_def rwidth_def rheight_def
  boundedTo_def expandedTo_def radd_def rsub_def

text \<open>One rectangle within another, both of them not empty.\<close>

definition rwithin :: "rect \<Rightarrow> rect \<Rightarrow> bool" where
  "rwithin a b \<longleftrightarrow> rleft b \<le> rleft a \<and> rtop b \<le> rtop a \<and> rright a \<le> rright b \<and> rbottom a \<le> rbottom b"

lemma tdiv_nonneg: "0 \<le> a \<Longrightarrow> 0 < b \<Longrightarrow> tdiv a b = a div b"
  by (cases "a = 0") (simp_all add: tdiv_def)

lemma rect_move_size [simp]:
  "rwidth (moveLeft x r) = rwidth r" "rheight (moveLeft x r) = rheight r"
  "rwidth (moveRight x r) = rwidth r" "rheight (moveRight x r) = rheight r"
  "rwidth (moveTop x r) = rwidth r" "rheight (moveTop x r) = rheight r"
  "rwidth (moveBottom x r) = rwidth r" "rheight (moveBottom x r) = rheight r"
  "rwidth (moveTopLeft p r) = rwidth r" "rheight (moveTopLeft p r) = rheight r"
  "rwidth (moveCenter p r) = rwidth r" "rheight (moveCenter p r) = rheight r"
  by (simp_all add: rect_ops moveCenter_def Let_def)

lemma rintersected_valid:
  "rvalid a \<Longrightarrow> rvalid b \<Longrightarrow> rintersected a b =
     (if rintersects a b
      then \<lparr>rleft = max (rleft a) (rleft b), rtop = max (rtop a) (rtop b),
            rright = min (rright a) (rright b), rbottom = min (rbottom a) (rbottom b)\<rparr>
      else null_rect)"
  by (auto simp: rintersected_def rintersects_def rvalid_def rnull_def rnorm_def rwidth_def
      rheight_def Let_def)

lemma rcontains_valid:
  "rvalid r \<Longrightarrow> rcontains_point r p \<longleftrightarrow>
     rleft r \<le> fst p \<and> fst p \<le> rright r \<and> rtop r \<le> snd p \<and> snd p \<le> rbottom r"
  by (simp add: rcontains_point_def rvalid_def Let_def)

lemma rintersects_valid:
  "rvalid a \<Longrightarrow> rvalid b \<Longrightarrow> rintersects a b \<longleftrightarrow>
     (\<exists>p. rcontains_point a p \<and> rcontains_point b p)"
proof -
  assume v: "rvalid a" "rvalid b"
  have "rintersects a b \<longleftrightarrow> rleft a \<le> rright b \<and> rleft b \<le> rright a \<and> rtop a \<le> rbottom b \<and> rtop b \<le> rbottom a"
    using v by (auto simp: rintersects_def rvalid_def rnull_def rnorm_def rwidth_def rheight_def Let_def)
  also have "\<dots> \<longleftrightarrow> (\<exists>p. rcontains_point a p \<and> rcontains_point b p)"
  proof
    assume "rleft a \<le> rright b \<and> rleft b \<le> rright a \<and> rtop a \<le> rbottom b \<and> rtop b \<le> rbottom a"
    then have "rcontains_point a (max (rleft a) (rleft b), max (rtop a) (rtop b)) \<and>
        rcontains_point b (max (rleft a) (rleft b), max (rtop a) (rtop b))"
      using v by (simp add: rcontains_valid rvalid_def)
    then show "\<exists>p. rcontains_point a p \<and> rcontains_point b p" by blast
  qed (use v in \<open>auto simp: rcontains_valid\<close>)
  finally show ?thesis .
qed

end
