(* ===== verification/Window_Geometry.thy ===== *)
theory Window_Geometry
  imports Geometry
begin

text \<open>
  The geometry of one window: the geometry part of \<open>Toplevel\<close> (\<^verbatim>\<open>toplevel.h\<close>), of
  \<open>win::control\<close> and of \<open>win::move_resize_op\<close>, and the functions of \<^verbatim>\<open>win/geo.h\<close> and
  \<^verbatim>\<open>win/move.h\<close> that only touch this state.

  A frame geometry is first requested (\<open>geometry_update\<close>), then committed. Requests are collected
  while a \<open>geometry_updates_blocker\<close> lives and sent when the last one goes. Whether a request is
  committed at once or only after the client has answered is the decision of the subclass (X11 with
  or without a sync counter, Wayland, internal windows) and a field of the record: \<open>g_commits\<close>
  gets the committed and the requested frame. The answers of the window rules and the size hints
  are fields as well, so each result holds for all of them.

  \<open>workspace()->clientArea(option, point, win->desktop())\<close> is the argument \<open>area\<close>; the theory
  \<open>Client_Area\<close> provides it.
\<close>

section \<open>Data\<close>

datatype area_option = PlacementArea | MovementArea | MaximizeArea | MaximizeFullArea
  | FullScreenArea | WorkArea | FullArea | ScreenArea

type_synonym area_fun = "area_option \<Rightarrow> point \<Rightarrow> rect"

datatype pending_geometry = PendingNone | PendingNormal | PendingForced

datatype size_mode = SizeAny | SizeFixedWidth | SizeFixedHeight | SizeMax

text \<open>The flags \<open>maximize_mode\<close>, of which \<open>full\<close> is \<open>vertical | horizontal\<close>.\<close>

datatype maximize_mode = MRestore | MVertical | MHorizontal | MFull

definition max_vertical :: "maximize_mode \<Rightarrow> bool" where
  "max_vertical m \<longleftrightarrow> m = MVertical \<or> m = MFull"
definition max_horizontal :: "maximize_mode \<Rightarrow> bool" where
  "max_horizontal m \<longleftrightarrow> m = MHorizontal \<or> m = MFull"
definition mk_mode :: "bool \<Rightarrow> bool \<Rightarrow> maximize_mode" where
  "mk_mode v h = (if v then if h then MFull else MVertical else if h then MHorizontal else MRestore)"

text \<open>The flags \<open>quicktiles\<close>, one field per bit.\<close>

record quicktiles =
  qt_left :: bool
  qt_right :: bool
  qt_top :: bool
  qt_bottom :: bool

definition qt_none :: quicktiles where
  "qt_none = \<lparr>qt_left = False, qt_right = False, qt_top = False, qt_bottom = False\<rparr>"
definition qt_maximize :: quicktiles where
  "qt_maximize = \<lparr>qt_left = True, qt_right = True, qt_top = True, qt_bottom = True\<rparr>"

record wgeo =
  g_frameGeometry :: rect
  g_frame :: rect
  g_pending :: pending_geometry
  g_block :: int
  g_max_mode :: maximize_mode
  g_fullscreen :: bool
  g_maximizeMode :: maximize_mode
  g_restore :: rect
  g_border :: margins
  g_remnantMargins :: "margins option"
  g_clientExtents :: margins
  g_inContentDeco :: bool
  g_resizable :: bool
  g_movable :: bool
  g_maximizable :: bool
  g_increments :: qsize
  g_minSize :: qsize
  g_maxSize :: qsize
  g_quicktiling :: quicktiles
  g_electric :: quicktiles
  g_electricMaximizing :: bool
  g_moveEnabled :: bool
  g_contactCenter :: bool
  g_commits :: "rect \<Rightarrow> rect \<Rightarrow> bool"
  g_checkGeometry :: "rect \<Rightarrow> rect"
  g_checkPosition :: "point \<Rightarrow> point"
  g_checkMaximize :: "maximize_mode \<Rightarrow> maximize_mode"
  g_adjust :: "qsize \<Rightarrow> size_mode \<Rightarrow> qsize"

definition is_move :: "wgeo \<Rightarrow> bool" where
  "is_move g \<longleftrightarrow> g_moveEnabled g \<and> g_contactCenter g"

definition is_resize :: "wgeo \<Rightarrow> bool" where
  "is_resize g \<longleftrightarrow> g_moveEnabled g \<and> \<not> g_contactCenter g"

section \<open>Frame, client and render rectangles\<close>

definition frame_margins :: "wgeo \<Rightarrow> margins" where
  "frame_margins g = (case g_remnantMargins g of Some m \<Rightarrow> m | None \<Rightarrow> g_border g)"

definition client_to_frame_rect :: "wgeo \<Rightarrow> rect \<Rightarrow> rect" where
  "client_to_frame_rect g r = rsub (radd r (frame_margins g)) (g_clientExtents g)"
definition client_to_frame_pos :: "wgeo \<Rightarrow> point \<Rightarrow> point" where
  "client_to_frame_pos g p = rtopLeft (client_to_frame_rect g (rect_at p (-1, -1)))"
definition client_to_frame_size :: "wgeo \<Rightarrow> qsize \<Rightarrow> qsize" where
  "client_to_frame_size g sz = rsize (client_to_frame_rect g (rect_at (0, 0) sz))"

definition frame_to_client_rect :: "wgeo \<Rightarrow> rect \<Rightarrow> rect" where
  "frame_to_client_rect g r = radd (rsub r (frame_margins g)) (g_clientExtents g)"
definition frame_to_client_pos :: "wgeo \<Rightarrow> point \<Rightarrow> point" where
  "frame_to_client_pos g p = rtopLeft (frame_to_client_rect g (rect_at p (-1, -1)))"
definition frame_to_client_size :: "wgeo \<Rightarrow> qsize \<Rightarrow> qsize" where
  "frame_to_client_size g sz = rsize (frame_to_client_rect g (rect_at (0, 0) sz))"

definition frame_relative_client_rect :: "wgeo \<Rightarrow> rect" where
  "frame_relative_client_rect g =
     (let f = g_frameGeometry g in rtranslated (- rleft f, - rtop f) (frame_to_client_rect g f))"

definition frame_to_render_rect :: "wgeo \<Rightarrow> rect \<Rightarrow> rect" where
  "frame_to_render_rect g r =
     radd (if \<not> g_inContentDeco g then rsub r (frame_margins g) else r) (g_clientExtents g)"
definition frame_to_render_pos :: "wgeo \<Rightarrow> point \<Rightarrow> point" where
  "frame_to_render_pos g p = rtopLeft (frame_to_render_rect g (rect_at p (-1, -1)))"
definition render_geometry :: "wgeo \<Rightarrow> rect" where
  "render_geometry g = frame_to_render_rect g (g_frameGeometry g)"

definition frame_size :: "wgeo \<Rightarrow> qsize" where
  "frame_size g = (mleft (g_border g) + mright (g_border g), mtop (g_border g) + mbottom (g_border g))"

definition pending_frame_geometry :: "wgeo \<Rightarrow> rect" where
  "pending_frame_geometry g = (if g_pending g = PendingNone then g_frameGeometry g else g_frame g)"

section \<open>Requesting a geometry\<close>

text \<open>The part \<open>setFrameGeometry\<close> has in common in all subclasses of managed windows.\<close>

definition setFrameGeometry :: "rect \<Rightarrow> wgeo \<Rightarrow> wgeo" where
  "setFrameGeometry r g =
     (let f = g_checkGeometry g r; g1 = g\<lparr>g_frame := f\<rparr> in
      if g_block g \<noteq> 0 then g1\<lparr>g_pending := PendingNormal\<rparr>
      else if g_commits g (g_frameGeometry g) f
      then g1\<lparr>g_pending := PendingNone, g_frameGeometry := f, g_maximizeMode := g_max_mode g\<rparr>
      else g1\<lparr>g_pending := PendingNone\<rparr>)"

definition block_geometry_updates :: "bool \<Rightarrow> wgeo \<Rightarrow> wgeo" where
  "block_geometry_updates b g =
     (if b then g\<lparr>g_block := g_block g + 1\<rparr>
      else let g1 = g\<lparr>g_block := g_block g - 1\<rparr> in
        if g_block g1 = 0 \<and> g_pending g1 \<noteq> PendingNone then setFrameGeometry (g_frame g1) g1 else g1)"

text \<open>The scope of a \<open>geometry_updates_blocker\<close>.\<close>

definition with_geometry_blocker :: "(wgeo \<Rightarrow> wgeo outcome) \<Rightarrow> wgeo \<Rightarrow> wgeo outcome" where
  "with_geometry_blocker body g =
     obind (body (block_geometry_updates True g)) (\<lambda>g'. Returns (block_geometry_updates False g'))"

text \<open>
  \<open>control::adjusted_frame_size\<close>, the implementation for windows that are not X11 clients. The
  second test of the source stores into the width, too.
\<close>

definition control_adjusted_frame_size :: "qsize \<Rightarrow> qsize \<Rightarrow> qsize \<Rightarrow> qsize \<Rightarrow> qsize" where
  "control_adjusted_frame_size border minSize maxSize sz =
     (let lo = (fst minSize + fst border, snd minSize + snd border);
          hi1 = (if INT_MAX - fst border \<ge> fst maxSize then (fst maxSize + fst border, snd maxSize)
                 else maxSize);
          hi2 = (if INT_MAX - snd border \<ge> snd hi1 then (snd hi1 + snd border, snd hi1) else hi1)
      in boundedTo (expandedTo sz lo) hi2)"

definition constrain_and_adjust_size :: "area_fun \<Rightarrow> qsize \<Rightarrow> wgeo \<Rightarrow> qsize" where
  "constrain_and_adjust_size area sz g =
     (let a = area WorkArea (rcenter (pending_frame_geometry g)) in
      g_adjust g (min (fst sz) (rwidth a), min (snd sz) (rheight a)) SizeAny)"

definition constrained_resize :: "area_fun \<Rightarrow> qsize \<Rightarrow> wgeo \<Rightarrow> wgeo" where
  "constrained_resize area sz g =
     setFrameGeometry (rect_at (rtopLeft (g_frame g)) (constrain_and_adjust_size area sz g)) g"

definition win_move :: "point \<Rightarrow> wgeo \<Rightarrow> wgeo outcome" where
  "win_move p g =
     oassert (g_pending g = PendingNone \<or> g_block g \<noteq> 0)
       (let old = pending_frame_geometry g in
        Returns (if rtopLeft old = p then g else setFrameGeometry (moveTopLeft p old) g))"

section \<open>Keeping a window on the screen\<close>

definition partial_area :: "rect \<Rightarrow> rect \<Rightarrow> rect" where
  "partial_area frame a =
     (let w = rwidth frame; h = rheight frame;
          a1 = a\<lparr>rleft := min (rleft frame - w + 100) (rleft a)\<rparr>;
          a2 = a1\<lparr>rtop := min (rtop a1 - h + 100) (rtop a1)\<rparr>;
          a3 = a2\<lparr>rright := max (rright a2 + w - 100) (rright a2)\<rparr>
      in a3\<lparr>rbottom := max (rbottom a3 + h - 100) (rbottom a3)\<rparr>)"

definition keep_position :: "rect \<Rightarrow> point \<Rightarrow> qsize \<Rightarrow> point" where
  "keep_position a pos sz =
     (let tx = (if fst pos + fst sz > rright a \<and> fst sz \<le> rwidth a then rright a - fst sz + 1 else fst pos);
          ty = (if snd pos + snd sz > rbottom a \<and> snd sz \<le> rheight a then rbottom a - snd sz + 1 else snd pos)
      in if \<not> rcontains_point a pos
         then (if tx < rleft a then rleft a else tx, if ty < rtop a then rtop a else ty)
         else (tx, ty))"

definition keep_in_area :: "area_fun \<Rightarrow> rect \<Rightarrow> bool \<Rightarrow> wgeo \<Rightarrow> wgeo outcome" where
  "keep_in_area area a0 part g0 =
     (let frame = pending_frame_geometry g0;
          a = (if part then partial_area frame a0 else a0);
          resize = (\<not> part \<and> (rwidth a0 < rwidth frame \<or> rheight a0 < rheight frame));
          g = (if resize
               then constrained_resize area (min (rwidth a0) (rwidth frame), min (rheight a0) (rheight frame)) g0
               else g0);
          pos = (if resize then rtopLeft (g_frame g) else rtopLeft frame);
          sz = (if resize then rsize (g_frame g) else rsize frame);
          t = keep_position a pos sz
      in if t \<noteq> pos then win_move t g else Returns g)"

definition check_offscreen_position :: "rect \<Rightarrow> rect \<Rightarrow> rect" where
  "check_offscreen_position frame a =
     (let f1 = (if rleft frame > rright a then moveLeft (rright a - tdiv (rwidth a) 4) frame
                else if rright frame < rleft a then moveRight (rleft a + tdiv (rwidth a) 4) frame
                else frame)
      in if rtop f1 > rbottom a then moveTop (rbottom a - tdiv (rheight a) 4) f1
         else if rbottom f1 < rtop a then moveBottom (rtop a + tdiv (rwidth a) 4) f1
         else f1)"

section \<open>Tiles\<close>

text \<open>\<open>electric_border_maximize_geometry\<close>; \<open>cut_tile\<close> is its second half.\<close>

definition cut_tile :: "quicktiles \<Rightarrow> rect \<Rightarrow> rect" where
  "cut_tile q r =
     (let r1 = (if qt_left q then r\<lparr>rright := rleft r + tdiv (rwidth r) 2 - 1\<rparr>
                else if qt_right q then r\<lparr>rleft := rright r - (rwidth r - tdiv (rwidth r) 2) + 1\<rparr>
                else r)
      in if qt_top q then r1\<lparr>rbottom := rtop r1 + tdiv (rheight r1) 2 - 1\<rparr>
         else if qt_bottom q then r1\<lparr>rtop := rbottom r1 - (rheight r1 - tdiv (rheight r1) 2) + 1\<rparr>
         else r1)"

definition electric_border_maximize_geometry :: "area_fun \<Rightarrow> point \<Rightarrow> wgeo \<Rightarrow> rect" where
  "electric_border_maximize_geometry area p g =
     (if g_electric g = qt_maximize
      then (if g_maximizeMode g = MFull then g_restore g else area MaximizeArea p)
      else cut_tile (g_electric g) (area MaximizeArea p))"

definition sanitize_tiles :: "quicktiles \<Rightarrow> quicktiles" where
  "sanitize_tiles q =
     (let q1 = (if qt_left q \<and> qt_right q then q\<lparr>qt_left := False, qt_right := False\<rparr> else q)
      in if qt_top q1 \<and> qt_bottom q1 then q1\<lparr>qt_top := False, qt_bottom := False\<rparr> else q1)"

definition set_electric :: "quicktiles \<Rightarrow> wgeo \<Rightarrow> wgeo" where
  "set_electric q g = g\<lparr>g_electric := (if q \<noteq> qt_maximize then sanitize_tiles q else q)\<rparr>"

end
