(* ===== verification/Window.thy ===== *)
theory Window
  imports Window_Geometry
begin

text \<open>
  The windows every other component works on: the class \<open>Toplevel\<close> (\<^verbatim>\<open>toplevel.cpp\<close>) with
  its \<open>win::control\<close>, \<open>win::remnant\<close> and \<open>win::transient\<close> parts, the predicates of
  \<^verbatim>\<open>win/net.h\<close>, \<^verbatim>\<open>win/meta.h\<close>, \<^verbatim>\<open>win/controlling.h\<close> and \<^verbatim>\<open>win/screen.h\<close>, and the
  stacking layers of \<^verbatim>\<open>win/stacking.h\<close>.

  A window is an address into a store. What a subclass decides in a virtual method without
  parameters (\<open>isShown\<close>, \<open>wantsInput\<close>, \<open>isInternal\<close>, \<open>belongsToDesktop\<close>, ...) is a
  field of the record, so every result holds for every subclass. Pointers to the optional parts
  are modelled by \<open>w_control\<close> (is there a \<open>control\<close>) and \<open>w_remnant\<close>; the answers of the
  window rules are functions of the value they are asked about.
\<close>

section \<open>Data\<close>

text \<open>\<open>NET::WindowType\<close>, as far as the sources distinguish it.\<close>

datatype window_type = NET_Unknown | NET_Normal | NET_Desktop | NET_Dock | NET_Toolbar | NET_Menu
  | NET_Dialog | NET_Override | NET_TopMenu | NET_Utility | NET_Splash | NET_DropdownMenu
  | NET_PopupMenu | NET_Tooltip | NET_Notification | NET_ComboBox | NET_DNDIcon
  | NET_OnScreenDisplay | NET_CriticalNotification

text \<open>\<open>win::layer\<close>, without the value \<open>count\<close>; \<open>layer_num\<close> is the value of the enumerator.\<close>

datatype layer = LUnknown | LDesktop | LBelow | LNormal | LDock | LAbove | LNotification | LActive
  | LCriticalNotification | LOnScreenDisplay | LUnmanaged

fun layer_num :: "layer \<Rightarrow> int" where
  "layer_num LUnknown = -1"
| "layer_num LDesktop = 0"
| "layer_num LBelow = 1"
| "layer_num LNormal = 2"
| "layer_num LDock = 3"
| "layer_num LAbove = 4"
| "layer_num LNotification = 5"
| "layer_num LActive = 6"
| "layer_num LCriticalNotification = 7"
| "layer_num LOnScreenDisplay = 8"
| "layer_num LUnmanaged = 9"

text \<open>The enumerators are compared with \<open><\<close> through their values.\<close>

instantiation layer :: linorder
begin

definition less_eq_layer :: "layer \<Rightarrow> layer \<Rightarrow> bool" where
  "less_eq_layer a b \<longleftrightarrow> layer_num a \<le> layer_num b"

definition less_layer :: "layer \<Rightarrow> layer \<Rightarrow> bool" where
  "less_layer a b \<longleftrightarrow> layer_num a < layer_num b"

lemma layer_num_inject: "layer_num a = layer_num b \<Longrightarrow> a = b"
  by (cases a; cases b) simp_all

instance
  by standard (auto simp: less_eq_layer_def less_layer_def layer_num_inject)

end

record remnant =
  r_was_x11_client :: bool
  r_was_group_transient :: bool
  r_was_active :: bool
  r_refcount :: int

record window =
  w_type :: window_type
  w_x11 :: bool
  w_internal :: bool
  w_lockScreen :: bool
  w_belongsToDesktop :: bool
  w_shown :: bool
  w_onCurrentActivity :: bool
  w_wantsInput :: bool
  w_dockWantsInput :: bool
  w_group :: "addr option"
  w_groupTransient :: bool
  w_sm_stacking_order :: int
  w_screen :: int
  w_geo :: wgeo
  w_desktops :: "addr list"
  w_control :: bool
  w_active :: bool
  w_minimized :: bool
  w_fullscreen :: bool
  w_keep_above :: bool
  w_keep_below :: bool
  w_demands_attention :: bool
  w_remnant :: "remnant option"
  w_children :: "addr list"
  w_leads :: "addr list"
  w_annexed :: bool
  w_modal :: bool
  w_layer :: layer
  w_xcb :: nat
  w_frameId :: nat
  w_inputWindow :: "nat option"
  w_hiddenPreview :: bool
  w_userTime :: "32 word"
  w_userTimeSupport :: bool
  w_checkFSP :: "int \<Rightarrow> int"
  w_checkFPP :: "int \<Rightarrow> int"
  w_checkAcceptFocus :: "bool \<Rightarrow> bool"

type_synonym wstore = "addr \<Rightarrow> window"

abbreviation w_frameGeometry :: "window \<Rightarrow> rect" where
  "w_frameGeometry w \<equiv> g_frameGeometry (w_geo w)"

section \<open>Predicates on windows\<close>

definition is_desktop :: "window \<Rightarrow> bool" where "is_desktop w \<longleftrightarrow> w_type w = NET_Desktop"
definition is_dock :: "window \<Rightarrow> bool" where "is_dock w \<longleftrightarrow> w_type w = NET_Dock"
definition is_toolbar :: "window \<Rightarrow> bool" where "is_toolbar w \<longleftrightarrow> w_type w = NET_Toolbar"
definition is_splash :: "window \<Rightarrow> bool" where "is_splash w \<longleftrightarrow> w_type w = NET_Splash"
definition is_dialog :: "window \<Rightarrow> bool" where "is_dialog w \<longleftrightarrow> w_type w = NET_Dialog"
definition is_normal :: "window \<Rightarrow> bool" where "is_normal w \<longleftrightarrow> w_type w = NET_Normal"
definition is_notification :: "window \<Rightarrow> bool" where
  "is_notification w \<longleftrightarrow> w_type w = NET_Notification"
definition is_critical_notification :: "window \<Rightarrow> bool" where
  "is_critical_notification w \<longleftrightarrow> w_type w = NET_CriticalNotification"
definition is_utility :: "window \<Rightarrow> bool" where "is_utility w \<longleftrightarrow> w_type w = NET_Utility"
definition is_on_screen_display :: "window \<Rightarrow> bool" where
  "is_on_screen_display w \<longleftrightarrow> w_type w = NET_OnScreenDisplay"

lemmas net_defs = is_desktop_def is_dock_def is_toolbar_def is_splash_def is_dialog_def
  is_normal_def is_notification_def is_critical_notification_def is_on_screen_display_def is_utility_def

definition is_special_window :: "window \<Rightarrow> bool" where
  "is_special_window w \<longleftrightarrow> is_desktop w \<or> is_dock w \<or> is_splash w \<or> is_toolbar w \<or>
     is_notification w \<or> is_critical_notification w \<or> is_on_screen_display w"

definition wants_tab_focus :: "window \<Rightarrow> bool" where
  "wants_tab_focus w \<longleftrightarrow> (is_normal w \<or> is_dialog w) \<and> w_wantsInput w"

definition transient_lead :: "window \<Rightarrow> addr option" where
  "transient_lead w = (case w_leads w of [] \<Rightarrow> None | l # _ \<Rightarrow> Some l)"

definition is_transient :: "window \<Rightarrow> bool" where
  "is_transient w \<longleftrightarrow> transient_lead w \<noteq> None"

section \<open>Desktops of a window\<close>

text \<open>
  What these functions read of the virtual desktop manager and the application: the vector of
  desktops, their numbers, the current number, and whether the operation mode is one of the two
  Wayland modes.
\<close>

record desk_view =
  dv_wayland :: bool
  dv_desktops :: "addr list"
  dv_number :: "addr \<Rightarrow> int"
  dv_current :: nat

definition NET_OnAllDesktops :: int where
  "NET_OnAllDesktops = -1"

definition win_desktop :: "desk_view \<Rightarrow> window \<Rightarrow> int" where
  "win_desktop D w = (if w_desktops w = [] then NET_OnAllDesktops else dv_number D (last (w_desktops w)))"

definition desktop_for_x11_id :: "desk_view \<Rightarrow> nat \<Rightarrow> addr option" where
  "desktop_for_x11_id D i =
     (if i = 0 \<or> i > length (dv_desktops D) then None else Some (dv_desktops D ! (i - 1)))"

definition on_all_desktops :: "desk_view \<Rightarrow> window \<Rightarrow> bool" where
  "on_all_desktops D w =
     (if dv_wayland D then w_desktops w = [] else win_desktop D w = NET_OnAllDesktops)"

definition on_desktop :: "desk_view \<Rightarrow> window \<Rightarrow> nat \<Rightarrow> bool" where
  "on_desktop D w d \<longleftrightarrow>
     (if dv_wayland D
      then (case desktop_for_x11_id D d of None \<Rightarrow> False | Some vd \<Rightarrow> vd \<in> set (w_desktops w))
      else win_desktop D w = int d) \<or> on_all_desktops D w"

definition on_current_desktop :: "desk_view \<Rightarrow> window \<Rightarrow> bool" where
  "on_current_desktop D w \<longleftrightarrow> on_desktop D w (dv_current D)"

section \<open>Layers\<close>

text \<open>\<open>assert(control)\<close> guards \<open>layer_for_dock\<close>.\<close>

definition layer_for_dock :: "window \<Rightarrow> layer outcome" where
  "layer_for_dock w =
     oassert (w_control w)
       (Returns (if w_keep_below w then LNormal else if w_keep_above w then LAbove else LDock))"

text \<open>
  \<open>ac\<close> is \<open>workspace()->mostRecentlyActivatedClient()\<close>, \<open>a\<close> the address of the window.
  The caller has dereferenced \<open>win->control\<close> before.
\<close>

definition is_active_fullscreen :: "wstore \<Rightarrow> addr option \<Rightarrow> addr \<Rightarrow> bool" where
  "is_active_fullscreen W ac a \<longleftrightarrow>
     w_fullscreen (W a) \<and>
     (case ac of None \<Rightarrow> False
      | Some c \<Rightarrow> c = a \<or> w_screen (W c) \<noteq> w_screen (W a) \<or> a \<in> set (w_leads (W c)))"

definition belong_to_layer :: "bool \<Rightarrow> addr option \<Rightarrow> wstore \<Rightarrow> addr \<Rightarrow> layer outcome" where
  "belong_to_layer showing_desktop ac W a =
     (let w = W a in
      if w_internal w then Returns LUnmanaged
      else if w_lockScreen w then Returns LUnmanaged
      else if is_desktop w then Returns (if showing_desktop then LAbove else LDesktop)
      else if is_splash w then Returns LNormal
      else if is_dock w then (if showing_desktop then Returns LNotification else layer_for_dock w)
      else if is_on_screen_display w then Returns LOnScreenDisplay
      else if is_notification w then Returns LNotification
      else if is_critical_notification w then Returns LCriticalNotification
      else if showing_desktop \<and> w_belongsToDesktop w then Returns LAbove
      else if \<not> w_control w then Faults NullDeref
      else if w_keep_below w then Returns LBelow
      else if is_active_fullscreen W ac a then Returns LActive
      else if w_keep_above w then Returns LAbove
      else Returns LNormal)"

text \<open>
  \<open>Toplevel::layer\<close>: an annexed transient takes the layer of its lead, any other window caches
  what \<open>belong_to_layer\<close> says until the cache is invalidated. The recursion follows the first
  leads and ends when they do.
\<close>

partial_function (option) toplevel_layer_loop ::
  "bool \<Rightarrow> addr option \<Rightarrow> wstore \<Rightarrow> addr \<Rightarrow> (layer \<times> wstore) outcome option" where
  "toplevel_layer_loop sd ac W a =
     (case (if w_annexed (W a) then transient_lead (W a) else None) of
        Some l \<Rightarrow> toplevel_layer_loop sd ac W l
      | None \<Rightarrow>
          Some (if w_layer (W a) = LUnknown
                then obind (belong_to_layer sd ac W a) (\<lambda>l. Returns (l, W(a := (W a)\<lparr>w_layer := l\<rparr>)))
                else Returns (w_layer (W a), W)))"

definition toplevel_layer ::
  "bool \<Rightarrow> addr option \<Rightarrow> wstore \<Rightarrow> addr \<Rightarrow> (layer \<times> wstore) outcome" where
  "toplevel_layer sd ac W a = of_loop (toplevel_layer_loop sd ac W a)"

definition invalidate_layer :: "addr \<Rightarrow> wstore \<Rightarrow> wstore" where
  "invalidate_layer a W = W(a := (W a)\<lparr>w_layer := LUnknown\<rparr>)"

lemma belong_to_layer_known: "belong_to_layer sd ac W a = Returns l \<Longrightarrow> l \<noteq> LUnknown"
  by (auto simp: belong_to_layer_def layer_for_dock_def Let_def split: if_splits)

lemma belong_to_layer_returns: "w_control (W a) \<Longrightarrow> \<exists>l. belong_to_layer sd ac W a = Returns l \<and> l \<noteq> LUnknown"
  by (auto simp: belong_to_layer_def layer_for_dock_def Let_def)

end
