(* ===== verification/Screens.thy ===== *)
theory Screens
  imports Window
begin

text \<open>
  The class \<open>Screens\<close> (\<^verbatim>\<open>screens.cpp\<close>): which screen a point belongs to, the current
  screen, the number of screens and the bounding size. The enabled outputs of the platform are a
  parameter (their geometries, in order); scale factors, refresh rates and names, which the class
  only forwards, are left out.
\<close>

section \<open>State\<close>

datatype screens_event = ScreensCountChanged int int | ScreensCurrentChanged | ScreensSizeChanged
  | ScreensChanged

record screens =
  scr_count :: int
  scr_current :: int
  scr_currentFollowsMouse :: bool
  scr_boundingSize :: qsize
  scr_log :: "screens_event list"

definition scr_emit :: "screens_event \<Rightarrow> screens \<Rightarrow> screens" where
  "scr_emit e s = s\<lparr>scr_log := scr_log s @ [e]\<rparr>"

text \<open>\<open>enabledOutputs().value(screen)\<close> yields a null pointer outside the list.\<close>

definition screens_findOutput :: "rect list \<Rightarrow> int \<Rightarrow> rect option" where
  "screens_findOutput outs i = (if 0 \<le> i \<and> i < int (length outs) then Some (outs ! nat i) else None)"

definition screens_geometry :: "rect list \<Rightarrow> int \<Rightarrow> rect" where
  "screens_geometry outs i = (case screens_findOutput outs i of Some g \<Rightarrow> g | None \<Rightarrow> null_rect)"

definition screens_size :: "rect list \<Rightarrow> int \<Rightarrow> qsize" where
  "screens_size outs i = (case screens_findOutput outs i of Some g \<Rightarrow> rsize g | None \<Rightarrow> (-1, -1))"

section \<open>The screen of a point\<close>

definition corner_distance :: "rect \<Rightarrow> point \<Rightarrow> int" where
  "corner_distance g p =
     (let d = (\<lambda>x y. manhattanLength (x - fst p, y - snd p)) in
      min (min (min (d (rleft g) (rtop g)) (d (rright g) (rtop g))) (d (rright g) (rbottom g)))
        (d (rleft g) (rbottom g)))"

fun screens_number_loop :: "point \<Rightarrow> int \<Rightarrow> int \<Rightarrow> int \<Rightarrow> rect list \<Rightarrow> int" where
  "screens_number_loop p i best minDistance [] = best"
| "screens_number_loop p i best minDistance (g # gs) =
     (if rcontains_point g p then i
      else if corner_distance g p < minDistance
      then screens_number_loop p (i + 1) i (corner_distance g p) gs
      else screens_number_loop p (i + 1) best minDistance gs)"

definition screens_number :: "rect list \<Rightarrow> point \<Rightarrow> int" where
  "screens_number outs p = screens_number_loop p 0 0 INT_MAX outs"

definition screens_intersecting :: "rect list \<Rightarrow> rect \<Rightarrow> int" where
  "screens_intersecting outs r = int (length (filter (\<lambda>g. rintersects g r) outs))"

section \<open>Updates\<close>

definition screens_setCount :: "int \<Rightarrow> screens \<Rightarrow> screens" where
  "screens_setCount n s =
     (if scr_count s = n then s
      else scr_emit (ScreensCountChanged (scr_count s) n) (s\<lparr>scr_count := n\<rparr>))"

definition screens_updateCount :: "rect list \<Rightarrow> screens \<Rightarrow> screens" where
  "screens_updateCount outs = screens_setCount (int (length outs))"

definition screens_updateSize :: "rect list \<Rightarrow> screens \<Rightarrow> screens" where
  "screens_updateSize outs s =
     (let bounding = fold (\<lambda>i b. runited b (screens_geometry outs (int i))) [0..<nat (scr_count s)] null_rect
      in if scr_boundingSize s \<noteq> rsize bounding
         then scr_emit ScreensSizeChanged (s\<lparr>scr_boundingSize := rsize bounding\<rparr>) else s)"

definition screens_updateAll :: "rect list \<Rightarrow> screens \<Rightarrow> screens" where
  "screens_updateAll outs s =
     scr_emit ScreensChanged (screens_updateSize outs (screens_updateCount outs s))"

definition screens_setCurrent :: "int \<Rightarrow> screens \<Rightarrow> screens" where
  "screens_setCurrent n s =
     (if scr_current s = n then s else scr_emit ScreensCurrentChanged (s\<lparr>scr_current := n\<rparr>))"

definition screens_setCurrent_point :: "rect list \<Rightarrow> point \<Rightarrow> screens \<Rightarrow> screens" where
  "screens_setCurrent_point outs p = screens_setCurrent (screens_number outs p)"

definition on_screen :: "rect list \<Rightarrow> window \<Rightarrow> int \<Rightarrow> bool" where
  "on_screen outs w screen = rintersects (screens_geometry outs screen) (w_frameGeometry w)"

definition screens_setCurrent_window :: "rect list \<Rightarrow> window \<Rightarrow> screens \<Rightarrow> screens outcome" where
  "screens_setCurrent_window outs w s =
     (if \<not> w_control w then Faults NullDeref
      else if \<not> w_active w then Returns s
      else if \<not> on_screen outs w (scr_current s) then Returns (screens_setCurrent (w_screen w) s)
      else Returns s)"

definition screens_setCurrentFollowsMouse :: "bool \<Rightarrow> screens \<Rightarrow> screens" where
  "screens_setCurrentFollowsMouse follows s =
     (if scr_currentFollowsMouse s = follows then s else s\<lparr>scr_currentFollowsMouse := follows\<rparr>)"

text \<open>
  \<open>Screens::current\<close>: the screen under the mouse, or else the screen of the active client when it
  has left the remembered screen.
\<close>

definition screens_current :: "rect list \<Rightarrow> point \<Rightarrow> window option \<Rightarrow> screens \<Rightarrow> int" where
  "screens_current outs cursor client s =
     (if scr_currentFollowsMouse s then screens_number outs cursor
      else case client of
        Some w \<Rightarrow> if \<not> on_screen outs w (scr_current s) then w_screen w else scr_current s
      | None \<Rightarrow> scr_current s)"

section \<open>Properties\<close>

lemma number_loop_spec:
  "if \<exists>g \<in> set gs. rcontains_point g p
   then (\<exists>k < length gs. screens_number_loop p i best m gs = i + int k \<and> rcontains_point (gs ! k) p \<and>
          (\<forall>j < k. \<not> rcontains_point (gs ! j) p))
   else (if \<exists>g \<in> set gs. corner_distance g p < m
         then \<exists>k < length gs. screens_number_loop p i best m gs = i + int k \<and> corner_distance (gs ! k) p < m \<and>
           (\<forall>g \<in> set gs. corner_distance (gs ! k) p \<le> corner_distance g p)
         else screens_number_loop p i best m gs = best)"
proof (induction gs arbitrary: i best m)
  case Nil
  then show ?case by simp
next
  case (Cons g gs)
  show ?case
  proof (cases "rcontains_point g p")
    case True
    then show ?thesis by (auto intro!: exI [of _ "0 :: nat"])
  next
    case out: False
    let ?m = "if corner_distance g p < m then corner_distance g p else m"
    let ?b = "if corner_distance g p < m then i else best"
    have step: "screens_number_loop p i best m (g # gs) = screens_number_loop p (i + 1) ?b ?m gs"
      using out by simp
    note IH = Cons.IH [of "i + 1" ?b ?m]
    show ?thesis
    proof (cases "\<exists>g \<in> set gs. rcontains_point g p")
      case True
      with IH obtain k where "k < length gs" "screens_number_loop p (i + 1) ?b ?m gs = i + 1 + int k"
          "rcontains_point (gs ! k) p" "\<forall>j < k. \<not> rcontains_point (gs ! j) p" by auto
      then have "\<exists>k < length (g # gs). screens_number_loop p i best m (g # gs) = i + int k \<and>
          rcontains_point ((g # gs) ! k) p \<and> (\<forall>j < k. \<not> rcontains_point ((g # gs) ! j) p)"
        using out unfolding step by (intro exI [of _ "Suc k"]) (auto simp: less_Suc_eq_0_disj)
      moreover have "\<exists>h \<in> set (g # gs). rcontains_point h p" using True by simp
      ultimately show ?thesis by (simp only: if_True)
    next
      case none: False
      show ?thesis
      proof (cases "\<exists>g \<in> set gs. corner_distance g p < ?m")
        case True
        with IH none obtain k where "k < length gs" "screens_number_loop p (i + 1) ?b ?m gs = i + 1 + int k"
            "corner_distance (gs ! k) p < ?m" "\<forall>g \<in> set gs. corner_distance (gs ! k) p \<le> corner_distance g p"
          by auto
        with step out none show ?thesis by (auto intro!: exI [of _ "Suc k"] split: if_splits)
      next
        case far: False
        with IH none have "screens_number_loop p (i + 1) ?b ?m gs = ?b" by auto
        with step out none far show ?thesis
          by (cases "corner_distance g p < m") (auto intro!: exI [of _ "0 :: nat"])
      qed
    qed
  qed
qed

text \<open>
  A point on some output belongs to the first output that contains it; a point outside of
  all outputs belongs to the output whose nearest corner is closest, as long as some corner is
  closer than \<open>INT_MAX\<close>.
\<close>

theorem screens_number_nearest:
  assumes "\<exists>g \<in> set outs. corner_distance g p < INT_MAX"
  shows "\<exists>k < length outs. screens_number outs p = int k \<and>
    (if \<exists>g \<in> set outs. rcontains_point g p
     then rcontains_point (outs ! k) p \<and> (\<forall>j < k. \<not> rcontains_point (outs ! j) p)
     else \<forall>g \<in> set outs. corner_distance (outs ! k) p \<le> corner_distance g p)"
  using number_loop_spec [of outs p 0 0 INT_MAX] assms
  by (auto simp: screens_number_def split: if_splits)

theorem screens_number_nearest_witness:
  "\<exists>k < 2. screens_number [mk_rect 0 0 100 100, mk_rect 100 0 50 50] (160, 10) = int k"
  using screens_number_nearest [of "[mk_rect 0 0 100 100, mk_rect 100 0 50 50]" "(160, 10)"]
  by (auto simp: corner_distance_def mk_rect_def manhattanLength_def INT_MAX_def)

end
