(* ===== verification/FocusChain.thy ===== *)
theory FocusChain
  imports Screens
begin

text \<open>
  The class \<open>FocusChain\<close> (\<^verbatim>\<open>focuschain.cpp\<close>, \<^verbatim>\<open>focuschain.h\<close>): per virtual desktop a list of
  windows in the order in which they were focused (the last one is the most recent), and one such
  list for all desktops. A \<open>QHash<uint, Chain>\<close> is a map; the loops over it visit every entry
  once and treat the entries independently of each other.
\<close>

section \<open>State and operations\<close>

datatype fc_change = MakeFirst | MakeLast | Update

type_synonym chain = "addr list"

record focus_chain =
  fc_mostRecentlyUsed :: chain
  fc_desktopFocusChains :: "nat \<Rightarrow> chain option"
  fc_separateScreenFocus :: bool
  fc_activeClient :: "addr option"
  fc_currentDesktop :: nat

definition fc_init :: focus_chain where
  "fc_init = \<lparr>fc_mostRecentlyUsed = [], fc_desktopFocusChains = (\<lambda>_. None),
     fc_separateScreenFocus = False, fc_activeClient = None, fc_currentDesktop = 0\<rparr>"

definition fc_remove :: "addr \<Rightarrow> focus_chain \<Rightarrow> focus_chain" where
  "fc_remove w f = f\<lparr>fc_desktopFocusChains := (\<lambda>d. map_option (removeAll w) (fc_desktopFocusChains f d)),
     fc_mostRecentlyUsed := removeAll w (fc_mostRecentlyUsed f)\<rparr>"

definition fc_resize :: "nat \<Rightarrow> nat \<Rightarrow> focus_chain \<Rightarrow> focus_chain" where
  "fc_resize previousSize newSize f =
     (let grown = fold (\<lambda>i m. m(i \<mapsto> [])) [previousSize + 1..<newSize + 1] (fc_desktopFocusChains f);
          shrunk = fold (\<lambda>i m. m(i := None)) (rev [newSize + 1..<previousSize + 1]) grown
      in f\<lparr>fc_desktopFocusChains := shrunk\<rparr>)"

definition fc_makeFirstInChain :: "addr \<Rightarrow> chain \<Rightarrow> chain" where
  "fc_makeFirstInChain w c = removeAll w c @ [w]"

definition fc_makeLastInChain :: "addr \<Rightarrow> chain \<Rightarrow> chain" where
  "fc_makeLastInChain w c = w # removeAll w c"

definition fc_insertClientIntoChain :: "addr option \<Rightarrow> addr \<Rightarrow> chain \<Rightarrow> chain" where
  "fc_insertClientIntoChain active w c =
     (if w \<in> set c then c
      else if active \<noteq> None \<and> active \<noteq> Some w \<and> c \<noteq> [] \<and> Some (last c) = active
      then insert_at (length c - 1) w c
      else c @ [w])"

definition fc_updateClientInChain :: "addr option \<Rightarrow> addr \<Rightarrow> fc_change \<Rightarrow> chain \<Rightarrow> chain" where
  "fc_updateClientInChain active w change c =
     (if change = MakeFirst then fc_makeFirstInChain w c
      else if change = MakeLast then fc_makeLastInChain w c
      else fc_insertClientIntoChain active w c)"

text \<open>What \<open>update\<close> does to the chain \<open>c\<close> of desktop \<open>d\<close>, the body of its two loops.\<close>

definition fc_update_chain ::
  "desk_view \<Rightarrow> wstore \<Rightarrow> focus_chain \<Rightarrow> fc_change \<Rightarrow> nat \<Rightarrow> addr \<Rightarrow> chain \<Rightarrow> chain" where
  "fc_update_chain D W f change d w c =
     (if on_all_desktops D (W w) then
        (if d = fc_currentDesktop f \<and> (change = MakeFirst \<or> change = MakeLast)
         then (if change = MakeFirst then fc_makeFirstInChain w c else fc_makeLastInChain w c)
         else fc_insertClientIntoChain (fc_activeClient f) w c)
      else if on_desktop D (W w) d then fc_updateClientInChain (fc_activeClient f) w change c
      else removeAll w c)"

definition fc_update :: "desk_view \<Rightarrow> wstore \<Rightarrow> addr \<Rightarrow> fc_change \<Rightarrow> focus_chain \<Rightarrow> focus_chain" where
  "fc_update D W w change f =
     (if \<not> wants_tab_focus (W w) then fc_remove w f
      else f\<lparr>fc_desktopFocusChains :=
               (\<lambda>d. map_option (fc_update_chain D W f change d w) (fc_desktopFocusChains f d)),
             fc_mostRecentlyUsed :=
               fc_updateClientInChain (fc_activeClient f) w change (fc_mostRecentlyUsed f)\<rparr>)"

text \<open>
  \<open>same\<close> is \<open>win::belong_to_same_client\<close>, the virtual method \<open>belongsToSameApplication\<close>. The loop
  runs from the end of the chain and inserts below the last window of the reference's application;
  \<open>QList::insert\<close> with the index -1 of an absent reference prepends.
\<close>

fun last_index :: "('a \<Rightarrow> bool) \<Rightarrow> 'a list \<Rightarrow> nat option" where
  "last_index P [] = None"
| "last_index P (x # xs) =
     (case last_index P xs of Some i \<Rightarrow> Some (Suc i) | None \<Rightarrow> if P x then Some 0 else None)"

definition fc_moveAfterClientInChain ::
  "(addr \<Rightarrow> addr \<Rightarrow> bool) \<Rightarrow> addr \<Rightarrow> addr option \<Rightarrow> chain \<Rightarrow> chain" where
  "fc_moveAfterClientInChain same w reference c =
     (case reference of None \<Rightarrow> c
      | Some r \<Rightarrow>
          if r \<notin> set c then c
          else let c' = removeAll w c in
            if same r w
            then (case index_of r c' of Some i \<Rightarrow> insert_at i w c' | None \<Rightarrow> w # c')
            else (case last_index (same r) c' of Some i \<Rightarrow> insert_at i w c' | None \<Rightarrow> c'))"

definition fc_moveAfterClient ::
  "(addr \<Rightarrow> addr \<Rightarrow> bool) \<Rightarrow> desk_view \<Rightarrow> wstore \<Rightarrow> addr \<Rightarrow> addr option \<Rightarrow> focus_chain \<Rightarrow> focus_chain" where
  "fc_moveAfterClient same D W w reference f =
     (if \<not> wants_tab_focus (W w) then f
      else f\<lparr>fc_desktopFocusChains := (\<lambda>d. map_option
               (\<lambda>c. if \<not> on_desktop D (W w) d then c else fc_moveAfterClientInChain same w reference c)
               (fc_desktopFocusChains f d)),
             fc_mostRecentlyUsed := fc_moveAfterClientInChain same w reference (fc_mostRecentlyUsed f)\<rparr>)"

definition fc_getForActivation :: "wstore \<Rightarrow> nat \<Rightarrow> int \<Rightarrow> focus_chain \<Rightarrow> addr option" where
  "fc_getForActivation W desktop screen f =
     (case fc_desktopFocusChains f desktop of None \<Rightarrow> None
      | Some c \<Rightarrow> find (\<lambda>a. w_shown (W a) \<and> w_onCurrentActivity (W a) \<and>
          (\<not> fc_separateScreenFocus f \<or> w_screen (W a) = screen)) (rev c))"

definition fc_firstMostRecentlyUsed :: "focus_chain \<Rightarrow> addr option" where
  "fc_firstMostRecentlyUsed f =
     (case fc_mostRecentlyUsed f of [] \<Rightarrow> None | w # _ \<Rightarrow> Some w)"

definition fc_nextMostRecentlyUsed :: "addr \<Rightarrow> focus_chain \<Rightarrow> addr option" where
  "fc_nextMostRecentlyUsed reference f =
     (let c = fc_mostRecentlyUsed f in
      if c = [] then None
      else case index_of reference c of
        None \<Rightarrow> Some (hd c)
      | Some i \<Rightarrow> if i = 0 then Some (last c) else Some (c ! (i - 1)))"

definition fc_isUsableFocusCandidate ::
  "rect list \<Rightarrow> int \<Rightarrow> desk_view \<Rightarrow> wstore \<Rightarrow> focus_chain \<Rightarrow> addr \<Rightarrow> addr option \<Rightarrow> bool" where
  "fc_isUsableFocusCandidate outs current_screen D W f w prev \<longleftrightarrow>
     Some w \<noteq> prev \<and> w_shown (W w) \<and> on_current_desktop D (W w) \<and> w_onCurrentActivity (W w) \<and>
     (\<not> fc_separateScreenFocus f \<or>
      on_screen outs (W w) (case prev of Some p \<Rightarrow> w_screen (W p) | None \<Rightarrow> current_screen))"

definition fc_nextForDesktop ::
  "rect list \<Rightarrow> int \<Rightarrow> desk_view \<Rightarrow> wstore \<Rightarrow> focus_chain \<Rightarrow> addr option \<Rightarrow> nat \<Rightarrow> addr option" where
  "fc_nextForDesktop outs current_screen D W f reference desktop =
     (case fc_desktopFocusChains f desktop of None \<Rightarrow> None
      | Some c \<Rightarrow> find (\<lambda>a. fc_isUsableFocusCandidate outs current_screen D W f a reference) (rev c))"

definition fc_contains :: "addr \<Rightarrow> focus_chain \<Rightarrow> bool" where
  "fc_contains w f \<longleftrightarrow> w \<in> set (fc_mostRecentlyUsed f)"

definition fc_contains_on :: "addr \<Rightarrow> nat \<Rightarrow> focus_chain \<Rightarrow> bool" where
  "fc_contains_on w desktop f \<longleftrightarrow>
     (case fc_desktopFocusChains f desktop of None \<Rightarrow> False | Some c \<Rightarrow> w \<in> set c)"

definition fc_setSeparateScreenFocus :: "bool \<Rightarrow> focus_chain \<Rightarrow> focus_chain" where
  "fc_setSeparateScreenFocus enabled f = f\<lparr>fc_separateScreenFocus := enabled\<rparr>"

definition fc_setActiveClient :: "addr option \<Rightarrow> focus_chain \<Rightarrow> focus_chain" where
  "fc_setActiveClient w f = f\<lparr>fc_activeClient := w\<rparr>"

definition fc_setCurrentDesktop :: "nat \<Rightarrow> nat \<Rightarrow> focus_chain \<Rightarrow> focus_chain" where
  "fc_setCurrentDesktop previous newDesktop f = f\<lparr>fc_currentDesktop := newDesktop\<rparr>"

end
