(* ===== verification/Workspace.thy ===== *)
theory Workspace
  imports FocusChain
begin

text \<open>
  The part of the class \<open>Workspace\<close> that stacking and activation share: its fields
  (\<^verbatim>\<open>workspace.h\<close>), the focus queue and the focus stealing prevention of
  \<^verbatim>\<open>activation.cpp\<close>, and the attention state of \<^verbatim>\<open>win/stacking.h\<close>.
\<close>

section \<open>State\<close>

datatype ws_event =
    StackingOrderChanged
  | RepaintFull
  | UpdateMouseGrab addr
  | CheckInputWindowStacking
  | CancelAutoRaise addr
  | RestackWindows "nat list"
  | SetClientList "nat list"
  | SetClientListStacking "nat list"
  | NetStateAttention addr bool
  | AttentionChanged addr bool
  | FocusToNull
  | TakeFocus addr
  | ClosePopup
  | DesktopChanged addr
  | DesktopPresenceChanged addr int
  | ActiveChanged addr
  | ClientActivated "addr option"
  | HideClient addr bool
  | ToolWindowsTimer bool
  | DisableShortcuts bool

record workspace =
  ws_win :: wstore
  ws_desk :: desk_view
  ws_same :: "addr \<Rightarrow> addr \<Rightarrow> bool"
  ws_sameRelaxed :: "addr \<Rightarrow> addr \<Rightarrow> bool"
  ws_allClients :: "addr list"
  ws_unconstrained :: "addr list"
  ws_stacking :: "addr list"
  ws_xStacking :: "addr list"
  ws_xStackingDirty :: bool
  ws_block :: int
  ws_blockedNew :: bool
  ws_forceRestacking :: bool
  ws_mostRecentlyRaised :: "addr option"
  ws_active :: "addr option"
  ws_lastActive :: "addr option"
  ws_shouldGetFocus :: "addr list"
  ws_attention :: "addr list"
  ws_showingDesktop :: bool
  ws_members :: "addr \<Rightarrow> addr list"
  ws_focus :: focus_chain
  ws_screenCount :: int
  ws_separateScreenFocus :: bool
  ws_fspLevel :: int
  ws_savingSession :: bool
  ws_rootInfo :: bool
  ws_supportWindow :: nat
  ws_edgeWindows :: "nat list"
  ws_manualOverlays :: "nat list"
  ws_compositor :: bool
  ws_effects :: bool
  ws_log :: "ws_event list"

definition ws_emit :: "ws_event \<Rightarrow> workspace \<Rightarrow> workspace" where
  "ws_emit e s = s\<lparr>ws_log := ws_log s @ [e]\<rparr>"

definition ws_upd :: "addr \<Rightarrow> (window \<Rightarrow> window) \<Rightarrow> workspace \<Rightarrow> workspace" where
  "ws_upd a f s = s\<lparr>ws_win := (ws_win s)(a := f (ws_win s a))\<rparr>"

definition mostRecentlyActivatedClient :: "workspace \<Rightarrow> addr option" where
  "mostRecentlyActivatedClient s =
     (if ws_shouldGetFocus s \<noteq> [] then Some (last (ws_shouldGetFocus s)) else ws_active s)"

section \<open>The focus queue\<close>

text \<open>
  Windows that were given the input focus and have not reported it yet, oldest first. A report
  removes the window and everything older.
\<close>

definition gotFocusIn :: "addr \<Rightarrow> workspace \<Rightarrow> workspace" where
  "gotFocusIn w s =
     (if w \<in> set (ws_shouldGetFocus s)
      then s\<lparr>ws_shouldGetFocus := tl (dropWhile (\<lambda>a. a \<noteq> w) (ws_shouldGetFocus s))\<rparr>
      else s)"

section \<open>Attention\<close>

definition clientAttentionChanged :: "addr \<Rightarrow> bool \<Rightarrow> workspace \<Rightarrow> workspace" where
  "clientAttentionChanged w demand s =
     (let chain = removeAll w (ws_attention s) in
      ws_emit (AttentionChanged w demand) (s\<lparr>ws_attention := if demand then w # chain else chain\<rparr>))"

text \<open>The hint is set when the window has a \<open>NETWinInfo\<close>, that is when it is an X11 window.\<close>

definition set_demands_attention :: "addr \<Rightarrow> bool \<Rightarrow> workspace \<Rightarrow> workspace outcome" where
  "set_demands_attention w demand s =
     (if \<not> w_control (ws_win s w) then Faults NullDeref
      else
        let d = (if w_active (ws_win s w) then False else demand) in
        if w_demands_attention (ws_win s w) = d then Returns s
        else
          let s1 = ws_upd w (\<lambda>x. x\<lparr>w_demands_attention := d\<rparr>) s;
              s2 = (if w_x11 (ws_win s w) then ws_emit (NetStateAttention w d) s1 else s1)
          in Returns (clientAttentionChanged w d s2))"

section \<open>Focus stealing prevention\<close>

text \<open>
  \<open>cmp\<close> is \<open>NET::timestampCompare\<close>; the levels are None = 0, Low = 1, Medium = 2, High = 3,
  Extreme = 4. The windows concerned have a \<open>control\<close>.
\<close>

definition no_time :: "32 word" where "no_time = - 1"

definition allowClientActivation ::
  "(32 word \<Rightarrow> 32 word \<Rightarrow> int) \<Rightarrow> workspace \<Rightarrow> addr \<Rightarrow> 32 word \<Rightarrow> bool \<Rightarrow> bool \<Rightarrow> bool" where
  "allowClientActivation cmp s w time0 focus_in ignore_desktop =
     (let win = ws_win s w;
          time = (if time0 = no_time then w_userTime win else time0);
          level = w_checkFSP win (ws_fspLevel s)
      in if ws_savingSession s \<and> level \<le> 2 then True
      else if focus_in \<and> w \<in> set (ws_shouldGetFocus s) then True
      else
        let ac = (if focus_in then ws_lastActive s else mostRecentlyActivatedClient s);
            protection = (case ac of Some c \<Rightarrow> w_checkFPP (ws_win s c) 2 | None \<Rightarrow> 0)
        in if time = 0 \<and> \<not> w_checkAcceptFocus win False then False
        else if level = 0 \<or> protection = 0 then True
        else if level = 4 \<or> protection = 4 then False
        else if \<not> ignore_desktop \<and> \<not> on_current_desktop (ws_desk s) win then False
        else (case ac of None \<Rightarrow> True
          | Some c \<Rightarrow>
              if is_desktop (ws_win s c) then True
              else if ws_sameRelaxed s w c \<and> protection < 3 then True
              else if \<not> on_current_desktop (ws_desk s) win then False
              else if level > 2 \<and> protection > 1 then False
              else if time = no_time then level < 2 \<and> protection < 3
              else cmp time (w_userTime (ws_win s c)) \<ge> 0))"

definition allowFullClientRaising ::
  "(32 word \<Rightarrow> 32 word \<Rightarrow> int) \<Rightarrow> workspace \<Rightarrow> addr \<Rightarrow> 32 word \<Rightarrow> bool" where
  "allowFullClientRaising cmp s w time =
     (let level = w_checkFSP (ws_win s w) (ws_fspLevel s) in
      if ws_savingSession s \<and> level \<le> 2 then True
      else if level = 0 then True
      else if level = 4 then False
      else case mostRecentlyActivatedClient s of None \<Rightarrow> True
      | Some c \<Rightarrow>
          if is_desktop (ws_win s c) then True
          else if ws_sameRelaxed s w c then True
          else if level = 3 then False
          else cmp time (w_userTime (ws_win s c)) \<ge> 0)"

end
