(* ===== verification/Transients.thy ===== *)
theory Transients
  imports Window
begin

text \<open>
  The class \<open>win::transient\<close> (\<^verbatim>\<open>win/transient.cpp\<close>, \<^verbatim>\<open>win/transient.h\<close>): every window knows
  its transient children and its leads; adding and removing a child keeps both sides in step.
  The store of windows is threaded through; signals, the requests to rebuild or repaint window
  quads and the reference count of a remnant are recorded as well.
\<close>

section \<open>State and operations\<close>

datatype tr_event = TransientChanged addr | ModalChanged addr | DiscardQuads addr
  | AddLayerRepaint addr addr | RemnantDeleteLater addr

record tr_state =
  tr_win :: wstore
  tr_log :: "tr_event list"

definition tr_emit :: "tr_event \<Rightarrow> tr_state \<Rightarrow> tr_state" where
  "tr_emit e s = s\<lparr>tr_log := tr_log s @ [e]\<rparr>"

definition tr_upd :: "addr \<Rightarrow> (window \<Rightarrow> window) \<Rightarrow> tr_state \<Rightarrow> tr_state" where
  "tr_upd a f s = s\<lparr>tr_win := (tr_win s)(a := f (tr_win s a))\<rparr>"

definition remnant_ref :: "addr \<Rightarrow> tr_state \<Rightarrow> tr_state" where
  "remnant_ref a s =
     (case w_remnant (tr_win s a) of None \<Rightarrow> s
      | Some r \<Rightarrow> tr_upd a (\<lambda>w. w\<lparr>w_remnant := Some (r\<lparr>r_refcount := r_refcount r + 1\<rparr>)\<rparr>) s)"

definition remnant_unref :: "addr \<Rightarrow> tr_state \<Rightarrow> tr_state" where
  "remnant_unref a s =
     (case w_remnant (tr_win s a) of None \<Rightarrow> s
      | Some r \<Rightarrow>
          let s1 = tr_upd a (\<lambda>w. w\<lparr>w_remnant := Some (r\<lparr>r_refcount := r_refcount r - 1\<rparr>)\<rparr>) s
          in if r_refcount r - 1 > 0 then s1 else tr_emit (RemnantDeleteLater a) s1)"

text \<open>The loop to the lead of an annexed transient; it ends where the annexed windows end.\<close>

partial_function (option) lead_of_annexed_loop :: "wstore \<Rightarrow> addr option \<Rightarrow> addr option option" where
  "lead_of_annexed_loop W w =
     (case w of None \<Rightarrow> Some None
      | Some a \<Rightarrow> if w_annexed (W a) then lead_of_annexed_loop W (transient_lead (W a)) else Some (Some a))"

definition lead_of_annexed_transient :: "wstore \<Rightarrow> addr \<Rightarrow> addr option outcome" where
  "lead_of_annexed_transient W a =
     (case lead_of_annexed_loop W (Some a) of None \<Rightarrow> Diverges | Some r \<Rightarrow> Returns r)"

definition transient_add_lead :: "addr \<Rightarrow> addr \<Rightarrow> tr_state \<Rightarrow> tr_state outcome" where
  "transient_add_lead m lead s =
     oassert (m \<noteq> lead) (oassert (lead \<notin> set (w_leads (tr_win s m)))
       (Returns (tr_emit (TransientChanged m)
         (tr_upd m (\<lambda>w. w\<lparr>w_leads := w_leads w @ [lead]\<rparr>) (remnant_ref m s)))))"

definition transient_remove_lead :: "addr \<Rightarrow> addr \<Rightarrow> tr_state \<Rightarrow> tr_state" where
  "transient_remove_lead m lead s =
     (if lead \<notin> set (w_leads (tr_win s m)) then s
      else remnant_unref m (tr_emit (TransientChanged m)
             (tr_upd m (\<lambda>w. w\<lparr>w_leads := removeAll lead (w_leads w)\<rparr>) s)))"

definition transient_add_child :: "addr \<Rightarrow> addr \<Rightarrow> tr_state \<Rightarrow> tr_state outcome" where
  "transient_add_child m child s =
     oassert (m \<noteq> child)
      (if child \<in> set (w_children (tr_win s m)) then Returns s
       else obind (transient_add_lead child m (tr_upd m (\<lambda>w. w\<lparr>w_children := w_children w @ [child]\<rparr>) s))
         (\<lambda>s1. Returns (if w_annexed (tr_win s1 child) then tr_emit (DiscardQuads m) s1 else s1)))"

definition transient_remove_child :: "addr \<Rightarrow> addr \<Rightarrow> tr_state \<Rightarrow> tr_state outcome" where
  "transient_remove_child m child s =
     (let s1 = transient_remove_lead child m
                 (tr_upd m (\<lambda>w. w\<lparr>w_children := removeAll child (w_children w)\<rparr>) s)
      in if w_annexed (tr_win s1 child)
         then obind (lead_of_annexed_transient (tr_win s1) m) (\<lambda>tlead.
           Returns (case tlead of None \<Rightarrow> s1
             | Some t \<Rightarrow> tr_emit (AddLayerRepaint t child) (tr_emit (DiscardQuads t) s1)))
         else Returns s1)"

definition transient_set_modal :: "addr \<Rightarrow> bool \<Rightarrow> tr_state \<Rightarrow> tr_state" where
  "transient_set_modal m modal s =
     (if w_modal (tr_win s m) = modal then s
      else tr_emit (ModalChanged m) (tr_upd m (\<lambda>w. w\<lparr>w_modal := modal\<rparr>) s))"

text \<open>
  \<open>is_follower_of\<close>: the recursion over the leads, with the loop of each level as a worklist. It
  ends when the chains of leads do.
\<close>

partial_function (option) follower_loop :: "wstore \<Rightarrow> addr \<Rightarrow> addr list \<Rightarrow> bool option" where
  "follower_loop W target ws =
     (case ws of [] \<Rightarrow> Some False
      | m # ms \<Rightarrow>
          if m \<in> set (w_children (W target)) then Some True
          else Option.bind (follower_loop W target (w_leads (W m)))
            (\<lambda>b. if b then Some True else follower_loop W target ms))"

definition transient_is_follower_of :: "wstore \<Rightarrow> addr \<Rightarrow> addr \<Rightarrow> bool option" where
  "transient_is_follower_of W m target =
     (if m \<in> set (w_children (W target)) then Some True else follower_loop W target (w_leads (W m)))"

text \<open>
  The destructor. Its second loop iterates over \<open>children\<close> with iterators taken before the loop
  while \<open>remove_child\<close> erases from that vector, so the position \<open>i\<close> of the loop is compared with
  the old end and reads the vector as it is now.
\<close>

fun transient_destroy_leads :: "addr \<Rightarrow> addr option \<Rightarrow> addr list \<Rightarrow> tr_state \<Rightarrow> tr_state outcome" where
  "transient_destroy_leads m tlead [] s = Returns s"
| "transient_destroy_leads m tlead (lead # leads) s =
     (let s1 = tr_upd lead (\<lambda>w. w\<lparr>w_children := removeAll m (w_children w)\<rparr>) s in
      if w_annexed (tr_win s1 m)
      then (case tlead of None \<Rightarrow> Faults AssertFailed
            | Some q \<Rightarrow> transient_destroy_leads m tlead leads
                (tr_emit (AddLayerRepaint q m) (tr_emit (DiscardQuads q) s1)))
      else transient_destroy_leads m tlead leads s1)"

fun transient_destroy_children :: "addr \<Rightarrow> addr option \<Rightarrow> nat \<Rightarrow> nat \<Rightarrow> tr_state \<Rightarrow> tr_state outcome" where
  "transient_destroy_children m tlead i 0 s = Returns s"
| "transient_destroy_children m tlead i (Suc rest) s =
     (if i \<ge> length (w_children (tr_win s m)) then Faults OutOfRange
      else
        let child = w_children (tr_win s m) ! i;
            s1 = (case tlead of Some q \<Rightarrow>
                    (if w_annexed (tr_win s m)
                     then tr_emit (AddLayerRepaint q child) (tr_emit (DiscardQuads q) s) else s)
                  | None \<Rightarrow> s)
        in obind (transient_remove_child m child s1) (transient_destroy_children m tlead (Suc i) rest))"

definition transient_destroy :: "addr \<Rightarrow> tr_state \<Rightarrow> tr_state outcome" where
  "transient_destroy m s =
     obind (lead_of_annexed_transient (tr_win s) m) (\<lambda>tlead.
       obind (transient_destroy_leads m tlead (w_leads (tr_win s m)) s) (\<lambda>s1.
         transient_destroy_children m tlead 0 (length (w_children (tr_win s1 m)))
           (tr_upd m (\<lambda>w. w\<lparr>w_leads := []\<rparr>) s1)))"

section \<open>Frames\<close>

lemma tr_simps [simp]:
  "tr_win (tr_emit e s) = tr_win s"
  "tr_win (tr_upd a f s) = (tr_win s)(a := f (tr_win s a))"
  by (simp_all add: tr_emit_def tr_upd_def)

lemma remnant_frame [simp]:
  "w_children (tr_win (remnant_ref a s) b) = w_children (tr_win s b)"
  "w_leads (tr_win (remnant_ref a s) b) = w_leads (tr_win s b)"
  "w_annexed (tr_win (remnant_ref a s) b) = w_annexed (tr_win s b)"
  "w_children (tr_win (remnant_unref a s) b) = w_children (tr_win s b)"
  "w_leads (tr_win (remnant_unref a s) b) = w_leads (tr_win s b)"
  "w_annexed (tr_win (remnant_unref a s) b) = w_annexed (tr_win s b)"
  by (auto simp: remnant_ref_def remnant_unref_def Let_def split: option.splits)

section \<open>Both sides stay in step\<close>

definition transients_ok :: "wstore \<Rightarrow> bool" where
  "transients_ok W \<longleftrightarrow>
     (\<forall>a b. b \<in> set (w_children (W a)) \<longleftrightarrow> a \<in> set (w_leads (W b))) \<and>
     (\<forall>a. a \<notin> set (w_leads (W a)) \<and> distinct (w_leads (W a)) \<and> distinct (w_children (W a)))"

lemma add_child_win:
  assumes "transients_ok (tr_win s)" and "m \<noteq> c" and "c \<notin> set (w_children (tr_win s m))"
  obtains t where "transient_add_child m c s = Returns t"
    "\<And>a. w_children (tr_win t a) = (if a = m then w_children (tr_win s m) @ [c] else w_children (tr_win s a))"
    "\<And>a. w_leads (tr_win t a) = (if a = c then w_leads (tr_win s c) @ [m] else w_leads (tr_win s a))"
proof -
  have "m \<notin> set (w_leads (tr_win s c))" using assms by (simp add: transients_ok_def)
  then show thesis
    using assms(2,3) by (intro that) (auto simp: transient_add_child_def transient_add_lead_def Let_def)
qed

lemma remove_lead_win:
  "w_children (tr_win (transient_remove_lead m l s) a) = w_children (tr_win s a)"
  "w_leads (tr_win (transient_remove_lead m l s) a) =
     (if a = m then removeAll l (w_leads (tr_win s m)) else w_leads (tr_win s a))"
  "w_annexed (tr_win (transient_remove_lead m l s) a) = w_annexed (tr_win s a)"
  by (auto simp: transient_remove_lead_def)

lemma remove_child_win:
  assumes "transient_remove_child m c s = Returns t" and "m \<noteq> c"
  shows "w_children (tr_win t a) =
      (if a = m then removeAll c (w_children (tr_win s m)) else w_children (tr_win s a))"
    and "w_leads (tr_win t a) =
      (if a = c then removeAll m (w_leads (tr_win s c)) else w_leads (tr_win s a))"
  using assms by (auto simp: transient_remove_child_def Let_def remove_lead_win split: if_splits option.splits)

lemma transients_ok_add:
  assumes "transients_ok (tr_win s)" and "m \<noteq> c"
  shows "\<exists>t. transient_add_child m c s = Returns t \<and> transients_ok (tr_win t) \<and>
    c \<in> set (w_children (tr_win t m)) \<and> m \<in> set (w_leads (tr_win t c))"
proof (cases "c \<in> set (w_children (tr_win s m))")
  case True
  then show ?thesis using assms by (simp add: transient_add_child_def transients_ok_def)
next
  case False
  then obtain t where t: "transient_add_child m c s = Returns t"
    "\<And>a. w_children (tr_win t a) = (if a = m then w_children (tr_win s m) @ [c] else w_children (tr_win s a))"
    "\<And>a. w_leads (tr_win t a) = (if a = c then w_leads (tr_win s c) @ [m] else w_leads (tr_win s a))"
    using add_child_win [OF assms] by metis
  have "transients_ok (tr_win t)"
    using assms False unfolding transients_ok_def t(2,3) by auto
  with t show ?thesis by simp
qed

lemma transients_ok_remove:
  assumes "transients_ok (tr_win s)" and "m \<noteq> c" and "transient_remove_child m c s = Returns t"
  shows "transients_ok (tr_win t) \<and> c \<notin> set (w_children (tr_win t m))"
  using assms(1) unfolding transients_ok_def remove_child_win [OF assms(3,2)]
  by (auto simp: distinct_removeAll)

end
