(* ===== verification/Stacking.thy ===== *)
theory Stacking
  imports Workspace Transients
begin

text \<open>
  The stacking order of \<^verbatim>\<open>layers.cpp\<close>. The workspace keeps the order the user and the
  windows asked for (\<open>unconstrained_stacking_order\<close>, bottom first) and derives from it the order
  that is shown: windows sorted into layers, transients directly above their leads.
\<close>

section \<open>Keeping transients above\<close>

definition keepTransientAbove :: "wstore \<Rightarrow> addr \<Rightarrow> addr \<Rightarrow> bool" where
  "keepTransientAbove W mainwindow transient =
     (if w_annexed (W transient) then True
      else if is_splash (W transient) \<and> is_dialog (W mainwindow) then False
      else if is_dialog (W transient) \<and> \<not> w_modal (W transient) \<and> w_groupTransient (W transient) then False
      else if is_dock (W mainwindow) then False
      else True)"

definition keepDeletedTransientAbove :: "wstore \<Rightarrow> addr \<Rightarrow> addr \<Rightarrow> remnant \<Rightarrow> bool" where
  "keepDeletedTransientAbove W mainwindow transient r =
     (if is_splash (W transient) \<and> is_dialog (W mainwindow) then False
      else if r_was_x11_client r then
        (if r_was_group_transient r \<and> r_was_active r then True
         else if r_was_group_transient r \<and> is_dialog (W transient) \<and> \<not> w_modal (W transient) then False
         else if is_dock (W mainwindow) then False
         else True)
      else True)"

definition child_restack :: "wstore \<Rightarrow> (addr \<Rightarrow> layer) \<Rightarrow> addr \<Rightarrow> addr \<Rightarrow> bool" where
  "child_restack W lay lead child =
     (if lay lead < lay child then False
      else case w_remnant (W child) of
        Some r \<Rightarrow> keepDeletedTransientAbove W lead child r
      | None \<Rightarrow> keepTransientAbove W lead child)"

section \<open>The constrained order\<close>

definition ensureStackingOrder :: "addr list \<Rightarrow> addr list \<Rightarrow> addr list" where
  "ensureStackingOrder order list =
     (if length list < 2 then list
      else fold (\<lambda>c result. if c \<in> set result then removeAll c result @ [c] else result) order list)"

text \<open>
  The first loop: the layer each window is put into. \<open>M\<close> holds, per screen and group, the layer of
  the last window of the group; a window above an active fullscreen window of its group is lifted
  into the active layer. A screen number outside of the vector is an invalid access.
\<close>

fun assign_layers ::
  "wstore \<Rightarrow> (addr \<Rightarrow> layer) \<Rightarrow> int \<Rightarrow> (int \<Rightarrow> addr option \<Rightarrow> layer option) \<Rightarrow> addr list \<Rightarrow>
   (addr \<times> layer) list outcome" where
  "assign_layers W lay n M [] = Returns []"
| "assign_layers W lay n M (w # ws) =
     (let screen = w_screen (W w);
          key = (if w_x11 (W w) then w_group (W w) else None)
      in if screen < 0 \<or> screen \<ge> max n 1 then Faults OutOfRange
         else
           let l = (case M screen key of
                      Some m \<Rightarrow> (if m = LActive \<and> lay w > LBelow then LActive else lay w)
                    | None \<Rightarrow> lay w);
               M' = (if M screen key \<noteq> None \<or> w_x11 (W w)
                     then M(screen := (M screen)(key := Some l)) else M)
           in obind (assign_layers W lay n M' ws) (\<lambda>r. Returns ((w, l) # r)))"

definition all_layers :: "layer list" where
  "all_layers = [LDesktop, LBelow, LNormal, LDock, LAbove, LNotification, LActive,
     LCriticalNotification, LOnScreenDisplay, LUnmanaged]"

definition preliminary_stack :: "(addr \<times> layer) list \<Rightarrow> addr list" where
  "preliminary_stack ps = concat (map (\<lambda>l. map fst (filter (\<lambda>p. snd p = l) ps)) all_layers)"

text \<open>
  \<open>append_children\<close>: \<open>todo\<close> are the children of \<open>w\<close> still to be placed, \<open>list\<close> the caller's list
  and \<open>stacked\<close> what is appended to it at the end. The recursion descends to the children of each
  placed child and ends when the children do.
\<close>

partial_function (option) append_children ::
  "wstore \<Rightarrow> (addr \<Rightarrow> layer) \<Rightarrow> addr list \<Rightarrow> addr \<Rightarrow> addr list \<Rightarrow> addr list \<Rightarrow> addr list \<Rightarrow> addr list option" where
  "append_children W lay order w todo list stacked =
     (case todo of [] \<Rightarrow> Some (list @ stacked)
      | c # cs \<Rightarrow>
          if \<not> child_restack W lay w c then append_children W lay order w cs list stacked
          else Option.bind
            (append_children W lay order c (ensureStackingOrder order (w_children (W c))) (stacked @ [c]) [])
            (\<lambda>stacked'. append_children W lay order w cs (removeAll c list) stacked'))"

fun stack_roots ::
  "wstore \<Rightarrow> (addr \<Rightarrow> layer) \<Rightarrow> addr list \<Rightarrow> addr list \<Rightarrow> addr list \<Rightarrow> addr list outcome" where
  "stack_roots W lay order [] stack = Returns stack"
| "stack_roots W lay order (w # ws) stack =
     (if \<exists>lead \<in> set (w_leads (W w)). child_restack W lay lead w then stack_roots W lay order ws stack
      else oassert (w \<notin> set stack)
        (case append_children W lay order w (ensureStackingOrder order (w_children (W w))) (stack @ [w]) [] of
           None \<Rightarrow> Diverges
         | Some stack' \<Rightarrow> stack_roots W lay order ws stack'))"

definition constrainedStackingOrder :: "(addr \<Rightarrow> layer) \<Rightarrow> workspace \<Rightarrow> addr list outcome" where
  "constrainedStackingOrder lay s =
     obind (assign_layers (ws_win s) lay (ws_screenCount s) (\<lambda>_ _. None) (ws_unconstrained s))
       (\<lambda>ps. stack_roots (ws_win s) lay (ws_stacking s) (preliminary_stack ps) [])"

section \<open>Updating the order\<close>

text \<open>
  \<open>window->layer()\<close> caches the layer. The first loop of \<open>constrainedStackingOrder\<close> asks every
  window of the unconstrained order, which holds all leads and children, so that every later
  question is answered from the caches.
\<close>

definition ws_layer :: "addr \<Rightarrow> workspace \<Rightarrow> (layer \<times> workspace) outcome" where
  "ws_layer a s =
     obind (toplevel_layer (ws_showingDesktop s) (mostRecentlyActivatedClient s) (ws_win s) a)
       (\<lambda>r. Returns (fst r, s\<lparr>ws_win := snd r\<rparr>))"

fun cache_layers :: "addr list \<Rightarrow> workspace \<Rightarrow> workspace outcome" where
  "cache_layers [] s = Returns s"
| "cache_layers (w # ws) s = obind (ws_layer w s) (\<lambda>r. cache_layers ws (snd r))"

definition layer_value :: "workspace \<Rightarrow> addr \<Rightarrow> layer" where
  "layer_value s a = (case ws_layer a s of Returns r \<Rightarrow> fst r | _ \<Rightarrow> LUnknown)"

text \<open>\<open>propagateClients\<close>: what is sent to the X server, top to bottom, and the two client lists.\<close>

definition propagateClients :: "bool \<Rightarrow> workspace \<Rightarrow> workspace" where
  "propagateClients propagate_new s =
     (if \<not> ws_rootInfo s then s
      else
        let W = ws_win s;
            topdown = filter (\<lambda>a. w_x11 (W a)) (rev (ws_stacking s));
            shown = concat (map (\<lambda>a. (case w_inputWindow (W a) of Some i \<Rightarrow> [i] | None \<Rightarrow> []) @ [w_frameId (W a)])
                      (filter (\<lambda>a. \<not> w_hiddenPreview (W a)) topdown));
            hidden = map (\<lambda>a. w_frameId (W a)) (filter (\<lambda>a. w_hiddenPreview (W a)) topdown);
            s1 = ws_emit (RestackWindows (ws_supportWindow s # ws_edgeWindows s @ ws_manualOverlays s @ shown @ hidden)) s;
            x11 = filter (\<lambda>a. w_x11 (W a)) (ws_allClients s);
            s2 = (if propagate_new
                  then ws_emit (SetClientList (ws_manualOverlays s @
                         map (\<lambda>a. w_xcb (W a)) (filter (\<lambda>a. is_desktop (W a)) x11) @
                         map (\<lambda>a. w_xcb (W a)) (filter (\<lambda>a. \<not> is_desktop (W a)) x11))) s1
                  else s1)
        in ws_emit (SetClientListStacking
             (map (\<lambda>a. w_xcb (W a)) (filter (\<lambda>a. w_x11 (W a)) (ws_stacking s)) @ ws_manualOverlays s)) s2)"

definition updateStackingOrder :: "bool \<Rightarrow> workspace \<Rightarrow> workspace outcome" where
  "updateStackingOrder propagate_new s =
     (if ws_block s > 0 then Returns (if propagate_new then s\<lparr>ws_blockedNew := True\<rparr> else s)
      else obind (cache_layers (ws_unconstrained s) s) (\<lambda>s0.
        obind (constrainedStackingOrder (layer_value s0) s0) (\<lambda>new.
          let changed = (ws_forceRestacking s0 \<or> new \<noteq> ws_stacking s0);
              s1 = s0\<lparr>ws_forceRestacking := False, ws_stacking := new\<rparr>
          in if changed \<or> propagate_new
             then
               let s2 = ws_emit StackingOrderChanged ((propagateClients propagate_new s1)\<lparr>ws_xStackingDirty := True\<rparr>);
                   s3 = (if ws_compositor s2 then ws_emit RepaintFull s2 else s2)
               in Returns (case ws_active s3 of None \<Rightarrow> s3 | Some a \<Rightarrow> ws_emit (UpdateMouseGrab a) s3)
             else Returns s1)))"

definition blockStackingUpdates :: "bool \<Rightarrow> workspace \<Rightarrow> workspace outcome" where
  "blockStackingUpdates block s =
     (if block
      then Returns ((if ws_block s = 0 then s\<lparr>ws_blockedNew := False\<rparr> else s)\<lparr>ws_block := ws_block s + 1\<rparr>)
      else
        let s1 = s\<lparr>ws_block := ws_block s - 1\<rparr> in
        if ws_block s1 = 0
        then obind (updateStackingOrder (ws_blockedNew s1) s1)
          (\<lambda>s2. Returns (if ws_effects s2 then ws_emit CheckInputWindowStacking s2 else s2))
        else Returns s1)"

text \<open>A scope guarded by a \<open>StackingUpdatesBlocker\<close>.\<close>

definition with_blocker :: "(workspace \<Rightarrow> workspace outcome) \<Rightarrow> workspace \<Rightarrow> workspace outcome" where
  "with_blocker body s =
     obind (blockStackingUpdates True s) (\<lambda>s1. obind (body s1) (blockStackingUpdates False))"

definition cancel_auto_raise :: "addr \<Rightarrow> workspace \<Rightarrow> workspace" where
  "cancel_auto_raise w = ws_emit (CancelAutoRaise w)"

section \<open>Queries\<close>

definition topClientOnDesktop :: "workspace \<Rightarrow> nat \<Rightarrow> int \<Rightarrow> bool \<Rightarrow> bool \<Rightarrow> addr option" where
  "topClientOnDesktop s desktop screen unconstrained only_normal =
     find (\<lambda>c. let w = ws_win s c in
        on_desktop (ws_desk s) w desktop \<and> w_shown w \<and> w_onCurrentActivity w \<and>
        (screen = -1 \<or> w_screen w = screen) \<and>
        (\<not> only_normal \<or> wants_tab_focus w \<and> \<not> is_special_window w))
      (rev (if unconstrained then ws_unconstrained s else ws_stacking s))"

definition findDesktop :: "workspace \<Rightarrow> bool \<Rightarrow> nat \<Rightarrow> addr option" where
  "findDesktop s topmost desktop =
     find (\<lambda>c. let w = ws_win s c in
        w_control w \<and> on_desktop (ws_desk s) w desktop \<and> is_desktop w \<and> w_shown w)
      (if topmost then rev (ws_stacking s) else ws_stacking s)"

section \<open>Raising and lowering\<close>

text \<open>
  \<open>do_lower\<close> hands its blocker to the caller: the one of the window itself lives until the end of
  \<open>lower_window\<close>, the ones of the group members end at once.
\<close>

definition do_lower :: "addr \<Rightarrow> workspace \<Rightarrow> workspace" where
  "do_lower w s =
     (let s1 = cancel_auto_raise w s
      in s1\<lparr>ws_unconstrained := w # removeAll w (ws_unconstrained s1)\<rparr>)"

definition lower_cleanup :: "addr \<Rightarrow> workspace \<Rightarrow> workspace" where
  "lower_cleanup w s =
     (if ws_mostRecentlyRaised s = Some w then s\<lparr>ws_mostRecentlyRaised := None\<rparr> else s)"

fun lower_group :: "addr \<Rightarrow> addr list \<Rightarrow> workspace \<Rightarrow> workspace outcome" where
  "lower_group w [] s = Returns s"
| "lower_group w (g # gs) s =
     (if g = w then lower_group w gs s
      else oassert (w_control (ws_win s g))
        (obind (with_blocker (\<lambda>t. Returns (do_lower g t)) s)
          (\<lambda>t. lower_group w gs (lower_cleanup g t))))"

definition lower_window :: "addr \<Rightarrow> workspace \<Rightarrow> workspace outcome" where
  "lower_window w s =
     oassert (w_control (ws_win s w))
      (with_blocker (\<lambda>s1.
         let s2 = do_lower w s1 in
         obind (case w_group (ws_win s2 w) of
             Some g \<Rightarrow> if is_transient (ws_win s2 w)
               then lower_group w (rev (ensureStackingOrder (ws_stacking s2) (ws_members s2 g))) s2
               else Returns s2
           | None \<Rightarrow> Returns s2)
           (\<lambda>s3. Returns (lower_cleanup w s3))) s)"

definition lower_within :: "(addr \<Rightarrow> addr \<Rightarrow> bool) \<Rightarrow> addr \<Rightarrow> addr list \<Rightarrow> addr list" where
  "lower_within same w rest =
     (if \<exists>c \<in> set rest. same c w
      then takeWhile (\<lambda>c. \<not> same c w) rest @ w # dropWhile (\<lambda>c. \<not> same c w) rest
      else w # rest)"

definition lowerClientWithinApplication :: "addr option \<Rightarrow> workspace \<Rightarrow> workspace outcome" where
  "lowerClientWithinApplication window s =
     (case window of None \<Rightarrow> Returns s
      | Some w \<Rightarrow>
          if \<not> w_control (ws_win s w) then Faults NullDeref
          else with_blocker (\<lambda>t. Returns (t\<lparr>ws_unconstrained :=
                 lower_within (ws_same t) w (removeAll w (ws_unconstrained t))\<rparr>))
               (cancel_auto_raise w s))"

partial_function (option) collect_leads :: "wstore \<Rightarrow> addr option \<Rightarrow> addr list \<Rightarrow> addr list option" where
  "collect_leads W lead leads =
     (case lead of None \<Rightarrow> Some leads
      | Some l \<Rightarrow> collect_leads W (transient_lead (W l)) (if l \<in> set leads then leads else leads @ [l]))"

fun collect_all_leads :: "wstore \<Rightarrow> addr list \<Rightarrow> addr list \<Rightarrow> addr list option" where
  "collect_all_leads W [] leads = Some leads"
| "collect_all_leads W (l # ls) leads =
     Option.bind (collect_leads W (Some l) leads) (collect_all_leads W ls)"

definition do_raise :: "addr \<Rightarrow> workspace \<Rightarrow> workspace" where
  "do_raise w s =
     (let s1 = s\<lparr>ws_unconstrained := removeAll w (ws_unconstrained s) @ [w]\<rparr>
      in if \<not> is_special_window (ws_win s w) then s1\<lparr>ws_mostRecentlyRaised := Some w\<rparr> else s1)"

fun raise_leads :: "addr list \<Rightarrow> workspace \<Rightarrow> workspace outcome" where
  "raise_leads [] s = Returns s"
| "raise_leads (l # ls) s =
     (if \<not> w_control (ws_win s l) then raise_leads ls s
      else obind (with_blocker (\<lambda>t. Returns (do_raise l t)) (cancel_auto_raise l s)) (raise_leads ls))"

definition raise_window :: "addr option \<Rightarrow> workspace \<Rightarrow> workspace outcome" where
  "raise_window window s =
     (case window of None \<Rightarrow> Returns s
      | Some w \<Rightarrow>
          oassert (w_control (ws_win s w))
           (with_blocker (\<lambda>s1.
              obind (if is_transient (ws_win s1 w)
                then (case collect_all_leads (ws_win s1) (w_leads (ws_win s1 w)) [] of
                        None \<Rightarrow> Diverges
                      | Some leads \<Rightarrow> raise_leads (ensureStackingOrder (ws_stacking s1) leads) s1)
                else Returns s1)
                (\<lambda>s2. Returns (do_raise w s2))) (cancel_auto_raise w s)))"

text \<open>
  The loop from the top: stop at the window itself, else insert above the first window of the
  same application; \<open>below\<close> is what the loop has not reached yet, in reverse.
\<close>

fun raise_within :: "(addr \<Rightarrow> addr \<Rightarrow> bool) \<Rightarrow> addr \<Rightarrow> addr list \<Rightarrow> addr list \<Rightarrow> addr list" where
  "raise_within same w order [] = order"
| "raise_within same w order (other # below) =
     (if other = w then order
      else if same other w
      then (let rest = removeAll w order in
            case index_of other rest of Some i \<Rightarrow> insert_at (Suc i) w rest | None \<Rightarrow> order)
      else raise_within same w order below)"

definition raiseClientWithinApplication :: "addr option \<Rightarrow> workspace \<Rightarrow> workspace outcome" where
  "raiseClientWithinApplication window s =
     (case window of None \<Rightarrow> Returns s
      | Some w \<Rightarrow>
          if \<not> w_control (ws_win s w) then Faults NullDeref
          else with_blocker (\<lambda>t. Returns (t\<lparr>ws_unconstrained :=
                 raise_within (ws_same t) w (ws_unconstrained t) (rev (ws_unconstrained t))\<rparr>))
               (cancel_auto_raise w s))"

definition raiseOrLowerClient :: "addr option \<Rightarrow> workspace \<Rightarrow> workspace outcome" where
  "raiseOrLowerClient window s =
     (case window of None \<Rightarrow> Returns s
      | Some w \<Rightarrow>
          let D = ws_desk s; win = ws_win s w;
              topmost = (case ws_mostRecentlyRaised s of
                  Some r \<Rightarrow>
                    if r \<in> set (ws_stacking s) \<and> w_shown (ws_win s r) \<and> on_current_desktop D win then Some r
                    else topClientOnDesktop s
                      (if on_all_desktops D win then dv_current D else nat (win_desktop D win))
                      (if ws_separateScreenFocus s then w_screen win else -1) False True
                | None \<Rightarrow> topClientOnDesktop s
                      (if on_all_desktops D win then dv_current D else nat (win_desktop D win))
                      (if ws_separateScreenFocus s then w_screen win else -1) False True)
          in if topmost = Some w then lower_window w s else raise_window (Some w) s)"

datatype request_source = FromUnknown | FromApplication | FromTool

definition raiseClientRequest ::
  "(32 word \<Rightarrow> 32 word \<Rightarrow> int) \<Rightarrow> addr \<Rightarrow> request_source \<Rightarrow> 32 word \<Rightarrow> workspace \<Rightarrow> workspace outcome" where
  "raiseClientRequest cmp w src time s =
     (if src = FromTool \<or> allowFullClientRaising cmp s w time then raise_window (Some w) s
      else obind (raiseClientWithinApplication (Some w) s) (set_demands_attention w True))"

definition lowerClientRequest :: "addr \<Rightarrow> request_source \<Rightarrow> workspace \<Rightarrow> workspace outcome" where
  "lowerClientRequest w src s =
     (if src = FromTool \<or> \<not> w_userTimeSupport (ws_win s w) then lower_window w s
      else lowerClientWithinApplication (Some w) s)"

section \<open>Restacking\<close>

text \<open>The search for the lowest window of the active application in the layer of the window.\<close>

fun restack_search :: "addr \<Rightarrow> addr \<Rightarrow> addr list \<Rightarrow> workspace \<Rightarrow> (addr option \<times> workspace) outcome" where
  "restack_search w ref [] s = Returns (Some ref, s)"
| "restack_search w ref (other # others) s =
     (if \<not> w_control (ws_win s other) then restack_search w ref others s
      else obind (ws_layer other s) (\<lambda>r1. obind (ws_layer w (snd r1)) (\<lambda>r2.
        if fst r1 = fst r2 \<and> ws_same (snd r2) ref other
        then Returns (if w = other then None else Some other, snd r2)
        else restack_search w ref others (snd r2))))"

definition insert_under :: "addr \<Rightarrow> addr \<Rightarrow> addr list \<Rightarrow> addr list" where
  "insert_under w ref order =
     (let rest = removeAll w order in
      case index_of ref rest of Some i \<Rightarrow> insert_at i w rest | None \<Rightarrow> rest @ [w])"

definition restack :: "addr \<Rightarrow> addr \<Rightarrow> bool \<Rightarrow> workspace \<Rightarrow> workspace outcome" where
  "restack w ref force s =
     oassert (ref \<in> set (ws_unconstrained s))
      (obind (if \<not> force \<and> \<not> ws_same s ref w then restack_search w ref (ws_unconstrained s) s
              else Returns (Some ref, s))
        (\<lambda>r. let s1 = snd r;
                 s2 = (case fst r of Some u \<Rightarrow> s1\<lparr>ws_unconstrained := insert_under w u (ws_unconstrained s1)\<rparr>
                       | None \<Rightarrow> s1)
             in oassert (w \<in> set (ws_unconstrained s2))
                  (updateStackingOrder False
                    (s2\<lparr>ws_focus := fc_moveAfterClient (ws_same s2) (ws_desk s2) (ws_win s2) w (fst r) (ws_focus s2)\<rparr>))))"

definition restackClientUnderActive :: "addr \<Rightarrow> workspace \<Rightarrow> workspace outcome" where
  "restackClientUnderActive w s =
     (case ws_active s of None \<Rightarrow> raise_window (Some w) s
      | Some a \<Rightarrow>
          if a = w then raise_window (Some w) s
          else obind (ws_layer a s) (\<lambda>r1. obind (ws_layer w (snd r1)) (\<lambda>r2.
            if fst r1 \<noteq> fst r2 then raise_window (Some w) (snd r2)
            else restack w a False (snd r2))))"

fun session_insert :: "wstore \<Rightarrow> addr \<Rightarrow> addr list \<Rightarrow> addr list" where
  "session_insert W c [] = [c]"
| "session_insert W c (x # xs) =
     (if w_x11 (W x) \<and> w_sm_stacking_order (W x) > w_sm_stacking_order (W c) then c # x # xs
      else x # session_insert W c xs)"

definition restoreSessionStackingOrder :: "addr \<Rightarrow> workspace \<Rightarrow> workspace outcome" where
  "restoreSessionStackingOrder c s =
     (if w_sm_stacking_order (ws_win s c) < 0 then Returns s
      else with_blocker (\<lambda>t. Returns (t\<lparr>ws_unconstrained :=
             session_insert (ws_win t) c (removeAll c (ws_unconstrained t))\<rparr>)) s)"

section \<open>The X stacking order\<close>

text \<open>
  \<open>tree\<close> are the children the X server listed for the root window, if it was asked; \<open>unmanaged\<close>
  and \<open>windows\<close> are \<open>unmanagedList()\<close> and \<open>windows()\<close>.
\<close>

fun unmanaged_in_tree :: "wstore \<Rightarrow> addr list \<Rightarrow> nat \<Rightarrow> nat list \<Rightarrow> addr list" where
  "unmanaged_in_tree W us n [] = []"
| "unmanaged_in_tree W us n (x # xs) =
     (case find (\<lambda>u. w_xcb (W u) = x) us of
        Some u \<Rightarrow> u # (if n - 1 = 0 then [] else unmanaged_in_tree W us (n - 1) xs)
      | None \<Rightarrow> if n = 0 then [] else unmanaged_in_tree W us n xs)"

definition updateXStackingOrder :: "nat list option \<Rightarrow> addr list \<Rightarrow> addr list \<Rightarrow> workspace \<Rightarrow> workspace" where
  "updateXStackingOrder tree unmanaged windows s =
     s\<lparr>ws_xStacking := ws_stacking s @
         (case tree of None \<Rightarrow> []
          | Some t \<Rightarrow> unmanaged_in_tree (ws_win s) unmanaged (length unmanaged) t) @
         filter (\<lambda>a. w_internal (ws_win s a) \<and> w_shown (ws_win s a)) windows,
       ws_xStackingDirty := False\<rparr>"

section \<open>The focus queue and the layers\<close>

definition setShouldGetFocus :: "addr \<Rightarrow> workspace \<Rightarrow> workspace outcome" where
  "setShouldGetFocus w s = updateStackingOrder False (s\<lparr>ws_shouldGetFocus := ws_shouldGetFocus s @ [w]\<rparr>)"

end
