(* ===== verification/Window_Geometry_Properties.thy ===== *)
theory Window_Geometry_Properties
  imports Window_Geometry
begin

text \<open>
  Properties of the geometry of a window: conversions between frame and client rectangles, the
  collection of blocked requests, keeping a window in an area, and the quick tiles.
\<close>

section \<open>A concrete window\<close>

definition demo_geo :: wgeo where
  "demo_geo = \<lparr>g_frameGeometry = mk_rect 0 0 100 100, g_frame = mk_rect 0 0 100 100,
     g_pending = PendingNone, g_block = 0, g_max_mode = MRestore, g_fullscreen = False,
     g_maximizeMode = MRestore, g_restore = null_rect, g_border = no_margins, g_remnantMargins = None,
     g_clientExtents = no_margins, g_inContentDeco = False, g_resizable = True, g_movable = True,
     g_maximizable = True, g_increments = (1, 1), g_minSize = (1, 1), g_maxSize = (INT_MAX, INT_MAX),
     g_quicktiling = qt_none, g_electric = qt_none, g_electricMaximizing = False,
     g_moveEnabled = False, g_contactCenter = True, g_commits = (\<lambda>_ _. True),
     g_checkGeometry = id, g_checkPosition = id, g_checkMaximize = id, g_adjust = (\<lambda>sz _. sz)\<rparr>"

section \<open>Conversions\<close>

lemma radd_rsub [simp]: "rsub (radd r m) m = r" "radd (rsub r m) m = r"
  by (simp_all add: radd_def rsub_def)

lemma radd_rsub_commute: "rsub (radd r m) n = radd (rsub r n) m"
  by (simp add: radd_def rsub_def)

text \<open>
  Converting a client rectangle to the frame rectangle and back, or the other way round, is
  the identity, and so are the conversions of positions and of sizes, whatever the borders of the
  decoration and the extents of the client are.
\<close>

theorem frame_client_round_trip:
  "frame_to_client_rect g (client_to_frame_rect g r) = r \<and>
   client_to_frame_rect g (frame_to_client_rect g r) = r \<and>
   frame_to_client_pos g (client_to_frame_pos g p) = p \<and>
   client_to_frame_pos g (frame_to_client_pos g p) = p \<and>
   frame_to_client_size g (client_to_frame_size g sz) = sz \<and>
   client_to_frame_size g (frame_to_client_size g sz) = sz"
  by (simp add: frame_to_client_rect_def client_to_frame_rect_def radd_rsub_commute
      frame_to_client_pos_def client_to_frame_pos_def frame_to_client_size_def
      client_to_frame_size_def rect_ops)

section \<open>Blocked requests\<close>

lemma blocked_set:
  "g_block g \<noteq> 0 \<Longrightarrow> setFrameGeometry r g = g\<lparr>g_frame := g_checkGeometry g r, g_pending := PendingNormal\<rparr>"
  by (simp add: setFrameGeometry_def Let_def)

lemma blocked_requests:
  "g_block g \<noteq> 0 \<Longrightarrow> rs \<noteq> [] \<Longrightarrow>
     fold setFrameGeometry rs g = g\<lparr>g_frame := g_checkGeometry g (last rs), g_pending := PendingNormal\<rparr>"
proof (induction rs arbitrary: g)
  case (Cons r rs)
  then show ?case by (cases "rs = []") (simp_all add: blocked_set)
qed simp

text \<open>
  While geometry updates are blocked, the requests of a window only replace each other: at the
  end of the outermost blocker exactly the last one is made, as if the others had not happened;
  with a blocker further out nothing is committed at all and the last request stays pending. (The
  rules on the geometry are asked for the request and again when it is made, so they have to give
  the same answer to their own answer.)
\<close>

theorem blocked_requests_collapse:
  assumes "\<And>r. g_checkGeometry g (g_checkGeometry g r) = g_checkGeometry g r"
    and "rs \<noteq> []" and "0 \<le> g_block g"
  shows "with_geometry_blocker (\<lambda>g. Returns (fold setFrameGeometry rs g)) g =
    (if g_block g = 0 then Returns (setFrameGeometry (last rs) g)
     else Returns (g\<lparr>g_frame := g_checkGeometry g (last rs), g_pending := PendingNormal\<rparr>))"
  using assms
  by (simp add: with_geometry_blocker_def block_geometry_updates_def blocked_requests
      setFrameGeometry_def Let_def)

theorem blocked_requests_collapse_witness:
  "with_geometry_blocker (\<lambda>g. Returns (fold setFrameGeometry [null_rect, mk_rect 5 5 20 20] g)) demo_geo =
   Returns (setFrameGeometry (mk_rect 5 5 20 20) demo_geo)"
  using blocked_requests_collapse [of demo_geo "[null_rect, mk_rect 5 5 20 20]"]
  by (simp add: demo_geo_def)

section \<open>Keeping a window in an area\<close>

text \<open>
  Where a request is visible at once: it is blocked, or the subclass commits it. \<open>geo_settled\<close>
  says that the requested and the committed frame agree when nothing is pending.
\<close>

definition geo_settled :: "wgeo \<Rightarrow> bool" where
  "geo_settled g \<longleftrightarrow> (g_pending g = PendingNone \<longrightarrow> g_frame g = g_frameGeometry g) \<and>
     (g_pending g = PendingNone \<or> g_block g \<noteq> 0) \<and>
     (g_block g \<noteq> 0 \<or> (\<forall>a b. g_commits g a b)) \<and> (\<forall>r. g_checkGeometry g r = r)"

lemma settled_pending: "geo_settled g \<Longrightarrow> pending_frame_geometry g = g_frame g"
  by (simp add: geo_settled_def pending_frame_geometry_def)

lemma settled_set: "geo_settled g \<Longrightarrow> geo_settled (setFrameGeometry r g) \<and> g_frame (setFrameGeometry r g) = r"
  by (auto simp: geo_settled_def setFrameGeometry_def Let_def)

lemma moveTopLeft_same: "rtopLeft r = p \<Longrightarrow> moveTopLeft p r = r"
  by (auto simp: rect_ops)

lemma settled_move:
  assumes "geo_settled g"
  shows "\<exists>g'. win_move p g = Returns g' \<and> geo_settled g' \<and> g_frame g' = moveTopLeft p (g_frame g)"
proof -
  have "g_pending g = PendingNone \<or> g_block g \<noteq> 0" using assms by (simp add: geo_settled_def)
  then have "win_move p g =
      Returns (if rtopLeft (g_frame g) = p then g else setFrameGeometry (moveTopLeft p (g_frame g)) g)"
    by (simp add: win_move_def settled_pending [OF assms])
  with assms settled_set [OF assms] show ?thesis by (simp add: moveTopLeft_same)
qed

lemma keep_position_inside:
  assumes "rvalid a" "fst sz \<le> rwidth a" "snd sz \<le> rheight a"
  shows "rwithin (rect_at (keep_position a p sz) sz) a"
  using assms rcontains_valid [OF assms(1), of p]
  by (auto simp: rwithin_def rect_ops keep_position_def Let_def rvalid_def)

lemma keep_in_area_spec:
  assumes "geo_settled g" and "rvalid a"
    and "\<And>sz. \<not> (rwidth (g_frame g) \<le> rwidth a \<and> rheight (g_frame g) \<le> rheight a) \<Longrightarrow>
      fst (g_adjust g sz SizeAny) \<le> fst sz \<and> snd (g_adjust g sz SizeAny) \<le> snd sz"
  shows "\<exists>g'. keep_in_area area a False g = Returns g' \<and> rwithin (g_frame g') a \<and>
    (rwidth (g_frame g) \<le> rwidth a \<and> rheight (g_frame g) \<le> rheight a \<longrightarrow>
       rsize (g_frame g') = rsize (g_frame g))"
proof -
  let ?f = "g_frame g"
  let ?fits = "rwidth ?f \<le> rwidth a \<and> rheight ?f \<le> rheight a"
  let ?g = "if ?fits then g else constrained_resize area (min (rwidth a) (rwidth ?f), min (rheight a) (rheight ?f)) g"
  let ?t = "keep_position a (rtopLeft (g_frame ?g)) (rsize (g_frame ?g))"
  have run: "keep_in_area area a False g =
      (if ?t \<noteq> rtopLeft (g_frame ?g) then win_move ?t ?g else Returns ?g)"
    using assms(1) by (auto simp: keep_in_area_def settled_pending Let_def not_le)
  have settled: "geo_settled ?g" using assms(1) settled_set by (simp add: constrained_resize_def)
  have fit: "rwidth (g_frame ?g) \<le> rwidth a \<and> rheight (g_frame ?g) \<le> rheight a"
  proof (cases ?fits)
    case False
    have sz: "rsize (rect_at p s) = s" for p s by (simp add: rect_ops)
    have "rsize (g_frame ?g) = g_adjust g (min (min (rwidth a) (rwidth ?f)) (rwidth (area WorkArea (rcenter ?f))),
        min (min (rheight a) (rheight ?f)) (rheight (area WorkArea (rcenter ?f)))) SizeAny"
      using False settled_set [OF assms(1)]
      by (simp only: if_False constrained_resize_def sz)
        (simp add: constrain_and_adjust_size_def settled_pending [OF assms(1)] Let_def)
    with assms(3) [OF False] have "fst (rsize (g_frame ?g)) \<le> rwidth a" "snd (rsize (g_frame ?g)) \<le> rheight a"
      by (metis fst_conv min.bounded_iff, metis snd_conv min.bounded_iff)
    then show ?thesis by (simp add: rsize_def)
  qed simp
  have "rwithin (rect_at ?t (rsize (g_frame ?g))) a"
    by (rule keep_position_inside) (use assms(2) fit in \<open>simp_all add: rsize_def\<close>)
  moreover have "moveTopLeft ?t (g_frame ?g) = rect_at ?t (rsize (g_frame ?g))" by (simp add: rect_ops)
  ultimately have at: "rwithin (moveTopLeft ?t (g_frame ?g)) a" by simp
  obtain g' where "win_move ?t ?g = Returns g'" "g_frame g' = moveTopLeft ?t (g_frame ?g)"
    using settled_move [OF settled] by blast
  moreover have "?t = rtopLeft (g_frame ?g) \<Longrightarrow> moveTopLeft ?t (g_frame ?g) = g_frame ?g"
    by (simp add: rect_ops)
  moreover have "rsize (moveTopLeft ?t (g_frame ?g)) = rsize (g_frame ?g)" by (simp add: rsize_def)
  ultimately show ?thesis using at unfolding run by (cases "?t = rtopLeft (g_frame ?g)") auto
qed


text \<open>
  \<open>keep_in_area\<close> without the flag \<open>partial\<close> leaves the frame inside of the area. A frame
  that fits keeps its size; one that does not is resized first, and if the size hints and the work
  area do not enlarge the size asked for, it fits then, too.
\<close>

theorem keep_in_area_inside:
  assumes "geo_settled g" and "rvalid a"
    and "\<And>sz. fst (g_adjust g sz SizeAny) \<le> fst sz \<and> snd (g_adjust g sz SizeAny) \<le> snd sz"
  shows "\<exists>g'. keep_in_area area a False g = Returns g' \<and> rwithin (g_frame g') a \<and>
    (rwidth (g_frame g) \<le> rwidth a \<and> rheight (g_frame g) \<le> rheight a \<longrightarrow>
       rsize (g_frame g') = rsize (g_frame g))"
  using assms(1,2) by (rule keep_in_area_spec) (rule assms(3))

lemma demo_geo_settled: "geo_settled demo_geo"
  by (simp add: geo_settled_def demo_geo_def)

theorem keep_in_area_inside_witness:
  "\<exists>g'. keep_in_area (\<lambda>_ _. mk_rect 0 0 60 60) (mk_rect 10 10 50 50) False demo_geo = Returns g' \<and>
     rwithin (g_frame g') (mk_rect 10 10 50 50)"
  using keep_in_area_inside [OF demo_geo_settled, of "mk_rect 10 10 50 50" "\<lambda>_ _. mk_rect 0 0 60 60"]
  by (auto simp: rvalid_def mk_rect_def demo_geo_def)

text \<open>
  With the flag \<open>partial\<close> a frame that has left the area to the right is pulled back until 100
  of its columns are visible, but one that has left it to the left stays where it is, however far
  away: the left edge of the enlarged area is computed from the position of the window.
\<close>

theorem partial_keep_forgets_left_edge:
  assumes "geo_settled g" and "rvalid a" and "100 \<le> rwidth (g_frame g)" and "100 \<le> rheight (g_frame g)"
    and "rtop a \<le> rtop (g_frame g)" and "rtop (g_frame g) \<le> rbottom a - 99" and "100 \<le> rwidth a"
  shows "(rright (g_frame g) < rleft a \<longrightarrow> keep_in_area area a True g = Returns g) \<and>
    (rright a < rleft (g_frame g) \<longrightarrow>
       (\<exists>g'. keep_in_area area a True g = Returns g' \<and> rleft (g_frame g') = rright a - 99))"
proof (intro conjI impI)
  let ?f = "g_frame g" and ?a = "partial_area (g_frame g) a"
  have a: "rleft ?a = min (rleft ?f - rwidth ?f + 100) (rleft a)" "rright ?a = rright a + rwidth ?f - 100"
    "rtop ?a = rtop a - rheight ?f + 100" "rbottom ?a = rbottom a + rheight ?f - 100"
    using assms(3,4) by (simp_all add: partial_area_def Let_def)
  have run: "keep_in_area area a True g =
      (let t = keep_position ?a (rtopLeft ?f) (rsize ?f) in
       if t \<noteq> rtopLeft ?f then win_move t g else Returns g)"
    using assms(1) by (simp add: keep_in_area_def settled_pending Let_def)
  have valid: "rvalid ?a" using assms a by (simp add: rvalid_def)
  note pos = keep_position_def Let_def rtopLeft_def rsize_def rcontains_valid [OF valid] a
  {
    assume "rright ?f < rleft a"
    then have "keep_position ?a (rtopLeft ?f) (rsize ?f) = rtopLeft ?f"
      using assms(2-) by (auto simp: pos rvalid_def rwidth_def rheight_def)
    then show "keep_in_area area a True g = Returns g" by (simp add: run)
  }
  {
    assume "rright a < rleft ?f"
    then have "fst (keep_position ?a (rtopLeft ?f) (rsize ?f)) = rright a - 99"
      using assms(2-) by (auto simp: pos rvalid_def rwidth_def rheight_def)
    moreover then have "keep_position ?a (rtopLeft ?f) (rsize ?f) \<noteq> rtopLeft ?f"
      using \<open>rright a < rleft ?f\<close> by (auto simp: rtopLeft_def)
    ultimately show "\<exists>g'. keep_in_area area a True g = Returns g' \<and> rleft (g_frame g') = rright a - 99"
      using settled_move [OF assms(1), of "keep_position ?a (rtopLeft ?f) (rsize ?f)"]
      by (auto simp: run Let_def moveTopLeft_def moveTop_def moveLeft_def)
  }
qed

theorem partial_keep_forgets_left_edge_witness:
  "keep_in_area (\<lambda>_ _. null_rect) (mk_rect 500 0 400 400) True demo_geo = Returns demo_geo \<and>
   \<not> rintersects (mk_rect 500 0 400 400) (g_frame demo_geo)"
  using partial_keep_forgets_left_edge [OF demo_geo_settled, of "mk_rect 500 0 400 400" "\<lambda>_ _. null_rect"]
  by (simp add: rvalid_def mk_rect_def demo_geo_def rwidth_def rheight_def rintersects_def rnorm_def)

text \<open>
  The maximum height of a window limits the width of its frame: as long as maximum height and
  border do not overflow, the adjusted width is at most their sum, even if the maximum width of
  the window is larger, while the border is never added to the maximum height.
\<close>

theorem adjusted_width_limited_by_max_height:
  assumes "snd maxSize + snd border \<le> INT_MAX"
  shows "control_adjusted_frame_size border minSize maxSize sz =
    (min (max (fst sz) (fst minSize + fst border)) (snd maxSize + snd border),
     min (max (snd sz) (snd minSize + snd border)) (snd maxSize))"
  using assms by (auto simp: control_adjusted_frame_size_def boundedTo_def expandedTo_def Let_def)

theorem adjusted_width_limited_by_max_height_witness:
  "control_adjusted_frame_size (0, 30) (10, 10) (800, 300) (800, 200) = (330, 200)"
  using adjusted_width_limited_by_max_height [of "(800, 300)" "(0, 30)" "(10, 10)" "(800, 200)"]
  by (simp add: INT_MAX_def)

text \<open>
  \<open>check_offscreen_position\<close> brings every frame back to the columns of the screen, and to
  its rows, except in one case: a frame above the screen is moved down by a quarter of the
  \<^emph>\<open>width\<close> of the screen, and on a screen wide enough it ends below the last row.
\<close>

theorem offscreen_position_recovered:
  assumes "rvalid frame" and "rvalid a"
  shows "let f = check_offscreen_position frame a in
    rsize f = rsize frame \<and> rleft f \<le> rright a \<and> rleft a \<le> rright f \<and> rtop a \<le> rbottom f \<and>
    (rtop f \<le> rbottom a \<longleftrightarrow>
       \<not> (rbottom frame < rtop a \<and> rheight a + rheight frame < rwidth a div 4 + 2))"
proof -
  have q: "tdiv (rwidth a) 4 = rwidth a div 4" "tdiv (rheight a) 4 = rheight a div 4"
    using assms by (simp_all add: tdiv_nonneg rvalid_def rwidth_def rheight_def)
  have le: "0 \<le> rwidth a div 4" "0 \<le> rheight a div 4" "rwidth a div 4 < rwidth a" "rheight a div 4 < rheight a"
    using assms unfolding rvalid_def rwidth_def rheight_def by presburger+
  define w h where "w = rwidth a div 4" and "h = rheight a div 4"
  show ?thesis
    using assms le unfolding check_offscreen_position_def q w_def [symmetric] h_def [symmetric]
    by (auto simp: Let_def rvalid_def rect_ops)
qed

theorem offscreen_position_recovered_witness:
  "rtop (check_offscreen_position (mk_rect 0 (-60) 50 50) (mk_rect 0 0 1000 100)) > 99"
  using offscreen_position_recovered [of "mk_rect 0 (-60) 50 50" "mk_rect 0 0 1000 100"]
  by (simp add: rvalid_def mk_rect_def rwidth_def rheight_def Let_def)

section \<open>Tiles\<close>

definition corner_tiles :: "quicktiles list" where
  "corner_tiles = [qt_none\<lparr>qt_left := True, qt_top := True\<rparr>, qt_none\<lparr>qt_right := True, qt_top := True\<rparr>,
     qt_none\<lparr>qt_left := True, qt_bottom := True\<rparr>, qt_none\<lparr>qt_right := True, qt_bottom := True\<rparr>]"

text \<open>
  The quick tiles share the maximize area out: every point of the area is in exactly one of
  the four corner tiles and in exactly one of the left and the right half, and no tile reaches
  beyond the area.
\<close>

theorem tiles_partition_area:
  assumes "2 \<le> rwidth a" and "2 \<le> rheight a"
  shows "length (filter (\<lambda>q. rcontains_point (cut_tile q a) p) corner_tiles) = (if rcontains_point a p then 1 else 0) \<and>
    length (filter (\<lambda>q. rcontains_point (cut_tile q a) p)
           [qt_none\<lparr>qt_left := True\<rparr>, qt_none\<lparr>qt_right := True\<rparr>]) = (if rcontains_point a p then 1 else 0)"
proof -
  have d: "tdiv (rwidth a) 2 = rwidth a div 2" "tdiv (rheight a) 2 = rheight a div 2"
    using assms by (simp_all add: tdiv_nonneg)
  define w h where "w = rwidth a div 2" and "h = rheight a div 2"
  have wh: "1 \<le> w" "w < rwidth a" "1 \<le> h" "h < rheight a" using assms by (auto simp: w_def h_def)
  have a: "rvalid a" using assms by (simp add: rvalid_def rwidth_def rheight_def)
  have cut: "cut_tile q a = \<lparr>rleft = (if qt_left q then rleft a else if qt_right q then rleft a + w else rleft a),
      rtop = (if qt_top q then rtop a else if qt_bottom q then rtop a + h else rtop a),
      rright = (if qt_left q then rleft a + w - 1 else rright a),
      rbottom = (if qt_top q then rtop a + h - 1 else rbottom a)\<rparr>" for q
    using d by (auto simp: cut_tile_def Let_def rwidth_def rheight_def w_def h_def)
  have valid: "rvalid (cut_tile q a)" for q
    using wh a by (simp add: cut rvalid_def rwidth_def rheight_def)
  have contains: "rcontains_point (cut_tile q a) p \<longleftrightarrow>
      (if qt_left q then rleft a else if qt_right q then rleft a + w else rleft a) \<le> fst p \<and>
      fst p \<le> (if qt_left q then rleft a + w - 1 else rright a) \<and>
      (if qt_top q then rtop a else if qt_bottom q then rtop a + h else rtop a) \<le> snd p \<and>
      snd p \<le> (if qt_top q then rtop a + h - 1 else rbottom a)" for q
    by (simp add: rcontains_valid [OF valid]) (simp add: cut)
  have "length (filter (\<lambda>q. rcontains_point (cut_tile q a) p) corner_tiles) = (if rcontains_point a p then 1 else 0)"
    using wh by (auto simp: corner_tiles_def qt_none_def contains rcontains_valid [OF a] rwidth_def rheight_def)
  moreover have "length (filter (\<lambda>q. rcontains_point (cut_tile q a) p)
           [qt_none\<lparr>qt_left := True\<rparr>, qt_none\<lparr>qt_right := True\<rparr>]) = (if rcontains_point a p then 1 else 0)"
    using wh by (auto simp: qt_none_def contains rcontains_valid [OF a] rwidth_def rheight_def)
  ultimately show ?thesis ..
qed

theorem tiles_partition_area_witness:
  "length (filter (\<lambda>q. rcontains_point (cut_tile q (mk_rect 0 0 5 5)) (2, 1)) corner_tiles) = 1"
  using tiles_partition_area [of "mk_rect 0 0 5 5" "(2, 1)"]
  by (simp add: mk_rect_def rwidth_def rheight_def rcontains_point_def)

end
