(* ===== verification/Window_Examples.thy ===== *)
theory Window_Examples
  imports Window Window_Geometry_Properties
begin

text \<open>A concrete window and a concrete pair of desktops, on which the properties of the components are instantiated.\<close>

definition demo_window :: window where
  "demo_window = \<lparr>w_type = NET_Normal, w_x11 = True, w_internal = False, w_lockScreen = False,
     w_belongsToDesktop = False, w_shown = True, w_onCurrentActivity = True, w_wantsInput = True,
     w_dockWantsInput = False, w_group = None, w_groupTransient = False, w_sm_stacking_order = -1,
     w_screen = 0, w_geo = demo_geo, w_desktops = [7], w_control = True,
     w_active = False, w_minimized = False, w_fullscreen = False, w_keep_above = False,
     w_keep_below = False, w_demands_attention = False, w_remnant = None, w_children = [],
     w_leads = [], w_annexed = False, w_modal = False, w_layer = LUnknown,
     w_xcb = 1, w_frameId = 2, w_inputWindow = None, w_hiddenPreview = False, w_userTime = 0,
     w_userTimeSupport = True, w_checkFSP = id, w_checkFPP = id, w_checkAcceptFocus = id\<rparr>"

definition demo_desks :: desk_view where
  "demo_desks = \<lparr>dv_wayland = True, dv_desktops = [7, 8], dv_number = (\<lambda>a. int a - 6), dv_current = 1\<rparr>"

end
