(* ===== verification/FocusChain_Properties.thy ===== *)
theory FocusChain_Properties
  imports FocusChain Window_Examples
begin

text \<open>
  Correctness of the focus chains. All edits of a chain share one contract, the locale
  \<open>chain_edit\<close>: they concern one window, keep the order of all the others and never duplicate.
\<close>

section \<open>The contract of a chain edit\<close>

locale chain_edit =
  fixes edit :: "addr \<Rightarrow> chain \<Rightarrow> chain"
  assumes others: "removeAll w (edit w c) = removeAll w c"
    and once: "distinct c \<Longrightarrow> distinct (edit w c)"
begin

lemma members: "set (edit w c) - {w} = set c - {w}"
  by (metis others set_removeAll)

lemma subset: "set (edit w c) \<subseteq> insert w (set c)"
  using members by blast

lemma covers: "w \<in> set (edit w c) \<Longrightarrow> insert w (set c) \<subseteq> set (edit w c)"
  using members [of w c] by blast

lemma keeps_order: "w \<notin> set xs \<Longrightarrow> filter (\<lambda>a. a \<in> set xs) (edit w c) = filter (\<lambda>a. a \<in> set xs) c"
proof -
  assume "w \<notin> set xs"
  then have "filter (\<lambda>a. a \<in> set xs) c = filter (\<lambda>a. a \<in> set xs) (removeAll w c)" for c
    by (induction c) auto
  then show ?thesis by (metis others)
qed

end

interpretation first_edit: chain_edit fc_makeFirstInChain
  by unfold_locales (auto simp: fc_makeFirstInChain_def distinct_removeAll)

interpretation last_edit: chain_edit fc_makeLastInChain
  by unfold_locales (auto simp: fc_makeLastInChain_def distinct_removeAll)

interpretation drop_edit: chain_edit removeAll
  by unfold_locales (auto simp: distinct_removeAll)

interpretation insert_edit: chain_edit "fc_insertClientIntoChain active"
  by unfold_locales (auto simp: fc_insertClientIntoChain_def)

interpretation update_edit: chain_edit "\<lambda>w. fc_updateClientInChain active w change"
  by unfold_locales
    (simp_all add: fc_updateClientInChain_def first_edit.others last_edit.others insert_edit.others
      first_edit.once last_edit.once insert_edit.once)

interpretation desktop_edit: chain_edit "fc_update_chain D W f change d"
  by unfold_locales
    (simp_all add: fc_update_chain_def first_edit.others last_edit.others insert_edit.others
      update_edit.others first_edit.once last_edit.once insert_edit.once update_edit.once distinct_removeAll)

interpretation move_edit: chain_edit "\<lambda>w. fc_moveAfterClientInChain same w reference"
  by unfold_locales
    (auto simp: fc_moveAfterClientInChain_def Let_def distinct_removeAll split: option.splits)

lemma mem_makeFirst [simp]: "w \<in> set (fc_makeFirstInChain w c)"
  by (simp add: fc_makeFirstInChain_def)

lemma mem_makeLast [simp]: "w \<in> set (fc_makeLastInChain w c)"
  by (simp add: fc_makeLastInChain_def)

lemma mem_insert [simp]: "w \<in> set (fc_insertClientIntoChain active w c)"
  by (simp add: fc_insertClientIntoChain_def)

lemma mem_update [simp]: "w \<in> set (fc_updateClientInChain active w change c)"
  by (simp add: fc_updateClientInChain_def)

lemma last_index_None: "last_index P xs = None \<longleftrightarrow> (\<forall>x \<in> set xs. \<not> P x)"
  by (induction xs) (auto split: option.splits)

lemma mem_moveAfter:
  assumes "\<And>a. same a a" and "r \<in> set c"
  shows "w \<in> set (fc_moveAfterClientInChain same w (Some r) c)"
proof (cases "same r w")
  case True
  then show ?thesis
    using assms(2) by (auto simp: fc_moveAfterClientInChain_def Let_def split: option.splits)
next
  case False
  then have "r \<in> set (removeAll w c)" using assms by auto
  then obtain i where "last_index (same r) (removeAll w c) = Some i"
    using assms(1) last_index_None [of "same r" "removeAll w c"] by blast
  with False assms(2) show ?thesis by (simp add: fc_moveAfterClientInChain_def Let_def)
qed

section \<open>The invariant\<close>

text \<open>
  No chain holds a window twice, and every window of a desktop chain is in the chain of most
  recently used windows.
\<close>

definition fc_inv :: "focus_chain \<Rightarrow> bool" where
  "fc_inv f \<longleftrightarrow> distinct (fc_mostRecentlyUsed f) \<and>
     (\<forall>d c. fc_desktopFocusChains f d = Some c \<longrightarrow> distinct c \<and> set c \<subseteq> set (fc_mostRecentlyUsed f))"

datatype fc_request =
    FcUpdate addr fc_change
  | FcRemove addr
  | FcMoveAfter addr "addr option"
  | FcResize nat nat
  | FcSetSeparateScreenFocus bool
  | FcSetActiveClient "addr option"
  | FcSetCurrentDesktop nat nat

fun fc_exec :: "(addr \<Rightarrow> addr \<Rightarrow> bool) \<Rightarrow> desk_view \<Rightarrow> wstore \<Rightarrow> fc_request \<Rightarrow> focus_chain \<Rightarrow> focus_chain" where
  "fc_exec same D W (FcUpdate w ch) f = fc_update D W w ch f"
| "fc_exec same D W (FcRemove w) f = fc_remove w f"
| "fc_exec same D W (FcMoveAfter w r) f = fc_moveAfterClient same D W w r f"
| "fc_exec same D W (FcResize p n) f = fc_resize p n f"
| "fc_exec same D W (FcSetSeparateScreenFocus b) f = fc_setSeparateScreenFocus b f"
| "fc_exec same D W (FcSetActiveClient w) f = fc_setActiveClient w f"
| "fc_exec same D W (FcSetCurrentDesktop p n) f = fc_setCurrentDesktop p n f"

lemma fc_inv_remove: "fc_inv f \<Longrightarrow> fc_inv (fc_remove w f)"
  by (fastforce simp: fc_inv_def fc_remove_def distinct_removeAll)

lemma fc_inv_update: "fc_inv f \<Longrightarrow> fc_inv (fc_update D W w change f)"
proof (cases "wants_tab_focus (W w)")
  case False
  then show "fc_inv f \<Longrightarrow> ?thesis" by (simp add: fc_update_def fc_inv_remove)
next
  case True
  assume inv: "fc_inv f"
  let ?m = "fc_updateClientInChain (fc_activeClient f) w change (fc_mostRecentlyUsed f)"
  have mru: "distinct ?m" "insert w (set (fc_mostRecentlyUsed f)) \<subseteq> set ?m"
    using inv update_edit.once [of _ "fc_activeClient f" w change]
      update_edit.covers [OF mem_update, of w "fc_mostRecentlyUsed f" "fc_activeClient f" change]
    by (simp_all add: fc_inv_def)
  show ?thesis
    unfolding fc_inv_def
  proof (intro conjI allI impI)
    show "distinct (fc_mostRecentlyUsed (fc_update D W w change f))"
      using True mru by (simp add: fc_update_def)
    fix d c'
    assume c': "fc_desktopFocusChains (fc_update D W w change f) d = Some c'"
    then obtain c where c: "fc_desktopFocusChains f d = Some c" "c' = fc_update_chain D W f change d w c"
      by (auto simp: fc_update_def True)
    then have ok: "distinct c" "set c \<subseteq> set (fc_mostRecentlyUsed f)" using inv by (auto simp: fc_inv_def)
    then have c'2: "distinct c'" "set c' \<subseteq> insert w (set c)"
      using c(2) desktop_edit.once desktop_edit.subset by simp_all
    have "set c' \<subseteq> set ?m" using ok(2) mru(2) c'2(2) by (metis insert_subset order_trans)
    with c'2(1) True show "distinct c'" "set c' \<subseteq> set (fc_mostRecentlyUsed (fc_update D W w change f))"
      by (simp_all add: fc_update_def)
  qed
qed

lemma fc_inv_moveAfter:
  assumes refl: "\<And>a. same a a" and inv: "fc_inv f"
  shows "fc_inv (fc_moveAfterClient same D W w r f)"
proof (cases "wants_tab_focus (W w)")
  case False
  then show ?thesis using inv by (simp add: fc_moveAfterClient_def)
next
  case True
  let ?e = "fc_moveAfterClientInChain same w r"
  have keep: "set (?e c) \<subseteq> set (?e (fc_mostRecentlyUsed f))" "set c \<subseteq> set (?e (fc_mostRecentlyUsed f))"
    if c: "set c \<subseteq> set (fc_mostRecentlyUsed f)" for c
  proof -
    have m: "set (fc_mostRecentlyUsed f) \<subseteq> set (?e (fc_mostRecentlyUsed f))"
    proof (cases "\<exists>q. r = Some q \<and> q \<in> set (fc_mostRecentlyUsed f)")
      case True
      then show ?thesis using mem_moveAfter [of same, OF refl] move_edit.members [of same w r "fc_mostRecentlyUsed f"] by auto
    next
      case False
      then have "?e (fc_mostRecentlyUsed f) = fc_mostRecentlyUsed f"
        by (auto simp: fc_moveAfterClientInChain_def split: option.splits)
      then show ?thesis by simp
    qed
    then show "set c \<subseteq> set (?e (fc_mostRecentlyUsed f))" using c by blast
    show "set (?e c) \<subseteq> set (?e (fc_mostRecentlyUsed f))"
    proof (cases "\<exists>q. r = Some q \<and> q \<in> set c")
      case True
      then have "w \<in> set (?e (fc_mostRecentlyUsed f))" using c mem_moveAfter [of same, OF refl] by auto
      then show ?thesis using m c move_edit.subset [of same w r c] by blast
    next
      case False
      then have "?e c = c" by (auto simp: fc_moveAfterClientInChain_def split: option.splits)
      then show ?thesis using m c by auto
    qed
  qed
  have "distinct (?e (fc_mostRecentlyUsed f))" using inv move_edit.once by (simp add: fc_inv_def)
  moreover have "distinct c' \<and> set c' \<subseteq> set (?e (fc_mostRecentlyUsed f))"
    if chain: "fc_desktopFocusChains (fc_moveAfterClient same D W w r f) d = Some c'" for d c'
  proof -
    obtain c where c: "fc_desktopFocusChains f d = Some c" "c' = (if on_desktop D (W w) d then ?e c else c)"
      using chain True by (auto simp: fc_moveAfterClient_def)
    then have "distinct c" "set c \<subseteq> set (fc_mostRecentlyUsed f)" using inv by (auto simp: fc_inv_def)
    with c keep [of c] move_edit.once [of c same w r] show ?thesis by auto
  qed
  ultimately show ?thesis using True by (simp add: fc_inv_def fc_moveAfterClient_def)
qed

lemma fold_remove_keys: "fold (\<lambda>i m. m(i := None)) is m d = (if d \<in> set is then None else m d)"
  by (induction "is" arbitrary: m) auto

lemma fold_insert_keys: "fold (\<lambda>i m. m(i \<mapsto> v)) is m d = (if d \<in> set is then Some v else m d)"
  by (induction "is" arbitrary: m) auto

lemma resize_chains:
  "fc_desktopFocusChains (fc_resize p n f) d =
     (if p < d \<and> d \<le> n then Some [] else if n < d \<and> d \<le> p then None else fc_desktopFocusChains f d)"
  by (auto simp: fc_resize_def Let_def fold_remove_keys fold_insert_keys)

lemma fc_inv_resize: "fc_inv f \<Longrightarrow> fc_inv (fc_resize p n f)"
proof -
  assume "fc_inv f"
  moreover have "fc_mostRecentlyUsed (fc_resize p n f) = fc_mostRecentlyUsed f"
    by (simp add: fc_resize_def Let_def)
  ultimately show ?thesis by (auto simp: fc_inv_def resize_chains split: if_splits)
qed

section \<open>Properties\<close>

text \<open>
  C11. Whatever is asked of the focus chains, in whatever state the windows and desktops are, no
  chain ever holds a window twice and every window of a desktop chain is also in the chain of
  most recently used windows. The one hypothesis is that a window belongs to its own application.
\<close>

theorem focus_chain_invariant:
  assumes "\<And>a. same a a" and "fc_inv f"
  shows "fc_inv (fc_exec same D W r f)"
proof (cases r)
  case (FcMoveAfter w q)
  with fc_inv_moveAfter [of same, OF assms] show ?thesis by simp
next
  case (FcUpdate w ch)
  with fc_inv_update [OF assms(2)] show ?thesis by simp
next
  case (FcRemove w)
  with fc_inv_remove [OF assms(2)] show ?thesis by simp
next
  case (FcResize p n)
  with fc_inv_resize [OF assms(2)] show ?thesis by simp
qed (use assms(2) in \<open>simp_all add: fc_setSeparateScreenFocus_def fc_setActiveClient_def
    fc_setCurrentDesktop_def fc_inv_def\<close>)

definition demo_chains :: focus_chain where
  "demo_chains = fc_init\<lparr>fc_mostRecentlyUsed := [10, 11, 12],
     fc_desktopFocusChains := [1 \<mapsto> [10, 11], 2 \<mapsto> [12]], fc_currentDesktop := 1\<rparr>"

lemma demo_chains_inv: "fc_inv demo_chains"
  by (auto simp: fc_inv_def demo_chains_def fc_init_def split: if_splits)

theorem focus_chain_invariant_witness:
  "fc_inv (fc_exec (=) demo_desks (\<lambda>_. demo_window) (FcMoveAfter 12 (Some 10)) demo_chains)"
  by (rule focus_chain_invariant) (simp_all add: demo_chains_inv)

text \<open>
  After an update of a window that wants the focus, the chain of every desktop holds the
  window exactly when the window is on that desktop, the chain of most recently used windows holds
  it, and no chain has changed the order of the other windows; a window that does not want the
  focus is in no chain any more.
\<close>

theorem focus_update_membership:
  "(if wants_tab_focus (W w)
    then w \<in> set (fc_mostRecentlyUsed (fc_update D W w change f)) \<and>
      (\<forall>d c. fc_desktopFocusChains f d = Some c \<longrightarrow>
        (\<exists>c'. fc_desktopFocusChains (fc_update D W w change f) d = Some c' \<and>
           (w \<in> set c' \<longleftrightarrow> on_desktop D (W w) d) \<and> removeAll w c' = removeAll w c))
    else \<not> fc_contains w (fc_update D W w change f) \<and>
      (\<forall>d. \<not> fc_contains_on w d (fc_update D W w change f)))"
proof (cases "wants_tab_focus (W w)")
  case True
  have "w \<in> set (fc_update_chain D W f change d w c) \<longleftrightarrow> on_desktop D (W w) d" for d c
    by (simp add: fc_update_chain_def on_desktop_def)
  with True show ?thesis by (simp add: fc_update_def desktop_edit.others)
next
  case False
  then show ?thesis
    by (auto simp: fc_update_def fc_remove_def fc_contains_def fc_contains_on_def split: option.splits)
qed

theorem focus_update_membership_witness:
  "\<exists>c. fc_desktopFocusChains (fc_update demo_desks (\<lambda>_. demo_window) 10 MakeLast demo_chains) 2 = Some c \<and>
     10 \<notin> set c \<and> removeAll 10 c = [12]"
proof -
  have tab: "wants_tab_focus demo_window"
    by (simp add: wants_tab_focus_def net_defs demo_window_def)
  have off: "\<not> on_desktop demo_desks demo_window 2"
    by (simp add: on_desktop_def demo_desks_def demo_window_def desktop_for_x11_id_def on_all_desktops_def)
  have chain: "fc_desktopFocusChains demo_chains 2 = Some [12]"
    by (simp add: demo_chains_def fc_init_def)
  from focus_update_membership [of "\<lambda>_. demo_window" 10 demo_desks MakeLast demo_chains] tab chain off
  show ?thesis by force
qed

text \<open>
  The window that was made first is the one that gets the focus back: after an update with
  \<open>MakeFirst\<close>, asking for the window to activate on a desktop of the window answers this window,
  if it is shown, on the current activity and (with separate screen focus) on the screen asked
  for. For a window on all desktops this holds on the current desktop.
\<close>

theorem made_first_gets_focus:
  assumes "wants_tab_focus (W w)" and "on_desktop D (W w) d"
    and "on_all_desktops D (W w) \<Longrightarrow> d = fc_currentDesktop f"
    and "fc_desktopFocusChains f d \<noteq> None" and "w_shown (W w)" and "w_onCurrentActivity (W w)"
    and "fc_separateScreenFocus f \<Longrightarrow> w_screen (W w) = screen"
  shows "fc_getForActivation W d screen (fc_update D W w MakeFirst f) = Some w"
proof -
  obtain c where c: "fc_desktopFocusChains f d = Some c" using assms(4) by blast
  have "fc_update_chain D W f MakeFirst d w c = removeAll w c @ [w]"
    using assms(2,3) by (auto simp: fc_update_chain_def fc_updateClientInChain_def fc_makeFirstInChain_def)
  with assms c show ?thesis by (auto simp: fc_getForActivation_def fc_update_def)
qed

theorem made_first_gets_focus_witness:
  "fc_getForActivation (\<lambda>_. demo_window) 1 0 (fc_update demo_desks (\<lambda>_. demo_window) 10 MakeFirst demo_chains) = Some 10"
  by (rule made_first_gets_focus)
    (simp_all add: wants_tab_focus_def net_defs demo_window_def on_desktop_def demo_desks_def
      desktop_for_x11_id_def on_all_desktops_def demo_chains_def fc_init_def)

lemma nextMRU_nth:
  assumes "distinct (fc_mostRecentlyUsed f)" and "i < length (fc_mostRecentlyUsed f)"
  shows "fc_nextMostRecentlyUsed (fc_mostRecentlyUsed f ! i) f =
    Some (fc_mostRecentlyUsed f ! ((i + (length (fc_mostRecentlyUsed f) - 1)) mod length (fc_mostRecentlyUsed f)))"
proof (cases i)
  case 0
  with assms show ?thesis
    by (auto simp: fc_nextMostRecentlyUsed_def index_of_nth last_conv_nth Let_def)
next
  case (Suc j)
  then have "(i + (length (fc_mostRecentlyUsed f) - 1)) mod length (fc_mostRecentlyUsed f) = j"
    using assms(2) by (auto simp: mod_if)
  with Suc assms show ?thesis
    by (auto simp: fc_nextMostRecentlyUsed_def index_of_nth Let_def)
qed

lemma nextMRU_iter:
  assumes "distinct (fc_mostRecentlyUsed f)" and "i < length (fc_mostRecentlyUsed f)" and "k \<le> i"
  shows "((\<lambda>a. the (fc_nextMostRecentlyUsed a f)) ^^ k) (fc_mostRecentlyUsed f ! i) = fc_mostRecentlyUsed f ! (i - k)"
  using assms(3)
proof (induction k)
  case (Suc k)
  then have "i - k < length (fc_mostRecentlyUsed f)" "0 < i - k" using assms(2) by auto
  then have "(i - k + (length (fc_mostRecentlyUsed f) - 1)) mod length (fc_mostRecentlyUsed f) = i - Suc k"
    by (simp add: mod_if)
  with Suc nextMRU_nth [OF assms(1) \<open>i - k < _\<close>] show ?case by simp
qed simp

text \<open>
  Walking through the windows with \<open>nextMostRecentlyUsed\<close> reaches every window: from any
  window of the chain, every other window of the chain is reached in fewer steps than the chain
  has windows.
\<close>

theorem next_most_recently_used_reaches_all:
  assumes "distinct (fc_mostRecentlyUsed f)" and "a \<in> set (fc_mostRecentlyUsed f)"
    and "b \<in> set (fc_mostRecentlyUsed f)"
  shows "\<exists>k < length (fc_mostRecentlyUsed f). ((\<lambda>w. the (fc_nextMostRecentlyUsed w f)) ^^ k) a = b"
proof -
  let ?c = "fc_mostRecentlyUsed f" and ?step = "\<lambda>w. the (fc_nextMostRecentlyUsed w f)"
  obtain i j where ij: "i < length ?c" "?c ! i = a" "j < length ?c" "?c ! j = b"
    using assms(2,3) by (auto simp: in_set_conv_nth)
  show ?thesis
  proof (cases "j \<le> i")
    case True
    then show ?thesis
      using ij nextMRU_iter [OF assms(1) ij(1), of "i - j"] by (intro exI [of _ "i - j"]) auto
  next
    case False
    define m where "m = length ?c - 1 - j"
    have m: "m < length ?c" "m \<le> length ?c - 1" "length ?c - 1 - m = j" "i + 1 + m < length ?c"
      using False ij by (auto simp: m_def)
    have "(?step ^^ i) a = ?c ! 0" using nextMRU_iter [OF assms(1) ij(1), of i] ij by simp
    then have "(?step ^^ Suc i) a = ?c ! (length ?c - 1)"
      using nextMRU_nth [OF assms(1), of 0] ij(1) by (cases ?c) auto
    moreover have "(?step ^^ m) (?c ! (length ?c - 1)) = b"
      using nextMRU_iter [OF assms(1) _ m(2)] m(3) ij by simp
    ultimately have "(?step ^^ (m + Suc i)) a = b" by (simp only: funpow_add o_apply)
    with m(4) show ?thesis by (intro exI [of _ "m + Suc i"]) simp
  qed
qed

theorem next_most_recently_used_reaches_all_witness:
  "\<exists>k < length (fc_mostRecentlyUsed demo_chains). ((\<lambda>w. the (fc_nextMostRecentlyUsed w demo_chains)) ^^ k) 10 = 11"
  by (rule next_most_recently_used_reaches_all) (simp_all add: demo_chains_def fc_init_def)

end
