(* ===== verification/Transients_Properties.thy ===== *)
theory Transients_Properties
  imports Transients FocusChain_Properties
begin

text \<open>
  Correctness of the transient relation: it stays symmetric, following leads terminates on an
  acyclic relation and computes its transitive closure, and what the destructor does.
\<close>

section \<open>Acyclic leads\<close>

text \<open>A rank that decreases from a window to its leads: the leads form no cycle.\<close>

definition leads_ranked :: "(addr \<Rightarrow> nat) \<Rightarrow> wstore \<Rightarrow> bool" where
  "leads_ranked rk W \<longleftrightarrow> (\<forall>a. \<forall>l \<in> set (w_leads (W a)). rk l < rk a)"

definition lead_rel :: "wstore \<Rightarrow> (addr \<times> addr) set" where
  "lead_rel W = {(l, a). l \<in> set (w_leads (W a))}"

lemma transient_lead_mem: "transient_lead w = Some l \<Longrightarrow> l \<in> set (w_leads w)"
  by (auto simp: transient_lead_def split: list.splits)

lemma lead_of_annexed_returns:
  assumes "leads_ranked rk W"
  shows "\<exists>r. lead_of_annexed_transient W a = Returns r"
proof -
  have "\<exists>r. lead_of_annexed_loop W (Some a) = Some r"
  proof (induction "rk a" arbitrary: a rule: less_induct)
    case less
    show ?case
    proof (cases "w_annexed (W a)")
      case False
      then show ?thesis by (subst lead_of_annexed_loop.simps) simp
    next
      case True
      show ?thesis
      proof (cases "transient_lead (W a)")
        case None
        with True show ?thesis by (subst lead_of_annexed_loop.simps, simp, subst lead_of_annexed_loop.simps) simp
      next
        case (Some l)
        then have "rk l < rk a" using assms transient_lead_mem by (auto simp: leads_ranked_def)
        from less [OF this] True Some show ?thesis by (subst lead_of_annexed_loop.simps) simp
      qed
    qed
  qed
  then show ?thesis by (auto simp: lead_of_annexed_transient_def)
qed

lemma remove_child_returns:
  assumes "leads_ranked rk (tr_win s)" and "m \<noteq> c"
  shows "\<exists>t. transient_remove_child m c s = Returns t"
proof -
  let ?s = "transient_remove_lead c m (tr_upd m (\<lambda>w. w\<lparr>w_children := removeAll c (w_children w)\<rparr>) s)"
  have "leads_ranked rk (tr_win ?s)"
    using assms by (auto simp: leads_ranked_def remove_lead_win split: if_splits)
  from lead_of_annexed_returns [OF this] show ?thesis
    by (fastforce simp: transient_remove_child_def Let_def)
qed

lemma follower_loop_spec:
  assumes ok: "transients_ok W" and rk: "leads_ranked rk W"
  shows "\<forall>m \<in> set ws. rk m < n \<Longrightarrow>
    follower_loop W target ws = Some (\<exists>m \<in> set ws. (target, m) \<in> (lead_rel W)\<^sup>+)"
proof (induction n arbitrary: ws)
  case 0
  then show ?case by (subst follower_loop.simps) simp
next
  case (Suc n)
  then show ?case
  proof (induction ws)
    case Nil
    then show ?case by (subst follower_loop.simps) simp
  next
    case (Cons m ms)
    have child: "m \<in> set (w_children (W target)) \<longleftrightarrow> (target, m) \<in> lead_rel W"
      using ok by (auto simp: transients_ok_def lead_rel_def)
    have "\<forall>l \<in> set (w_leads (W m)). rk l < n"
      using Cons.prems(2) rk by (fastforce simp: leads_ranked_def)
    then have up: "follower_loop W target (w_leads (W m)) =
        Some (\<exists>l \<in> set (w_leads (W m)). (target, l) \<in> (lead_rel W)\<^sup>+)" by (rule Cons.prems(1))
    have rest: "follower_loop W target ms = Some (\<exists>m \<in> set ms. (target, m) \<in> (lead_rel W)\<^sup>+)"
      using Cons by simp
    have "(target, m) \<in> (lead_rel W)\<^sup>+ \<longleftrightarrow>
        (target, m) \<in> lead_rel W \<or> (\<exists>l \<in> set (w_leads (W m)). (target, l) \<in> (lead_rel W)\<^sup>+)"
      by (subst trancl_unfold) (auto simp: lead_rel_def)
    then show ?case
      by (subst follower_loop.simps) (auto simp: up rest child)
  qed
qed

section \<open>Properties\<close>

text \<open>
  C36. The two sides of the transient relation stay in step: from a consistent relation, adding a
  child passes every assertion, makes each window know the other and keeps the relation consistent
  (a window is a child of exactly its leads, never its own lead, listed once); on an acyclic
  relation, removing a child returns, removes both entries and keeps it consistent.
\<close>

theorem transient_relation_consistent:
  assumes "transients_ok (tr_win s)" and "leads_ranked rk (tr_win s)" and "m \<noteq> c"
  shows "\<exists>t u. transient_add_child m c s = Returns t \<and> transients_ok (tr_win t) \<and>
    c \<in> set (w_children (tr_win t m)) \<and> m \<in> set (w_leads (tr_win t c)) \<and>
    transient_remove_child m c s = Returns u \<and> transients_ok (tr_win u) \<and>
    c \<notin> set (w_children (tr_win u m)) \<and> m \<notin> set (w_leads (tr_win u c))"
proof -
  obtain u where u: "transient_remove_child m c s = Returns u" using remove_child_returns [OF assms(2,3)] by blast
  moreover have "transients_ok (tr_win u)" "c \<notin> set (w_children (tr_win u m))"
    using transients_ok_remove [OF assms(1,3) u] by simp_all
  ultimately show ?thesis
    using transients_ok_add [OF assms(1,3)] unfolding transients_ok_def by metis
qed

definition demo_state :: tr_state where
  "demo_state = \<lparr>tr_win = (\<lambda>_. demo_window)(1 := demo_window\<lparr>w_leads := [0], w_annexed := True\<rparr>,
     0 := demo_window\<lparr>w_children := [1]\<rparr>), tr_log = []\<rparr>"

lemma demo_state_ok: "transients_ok (tr_win demo_state)" "leads_ranked id (tr_win demo_state)"
  by (auto simp: transients_ok_def leads_ranked_def demo_state_def demo_window_def split: if_splits)

theorem transient_relation_consistent_witness:
  "\<exists>t u. transient_add_child 1 2 demo_state = Returns t \<and> 1 \<in> set (w_leads (tr_win t 2)) \<and>
     transient_remove_child 1 2 demo_state = Returns u \<and> transients_ok (tr_win u)"
  using transient_relation_consistent [OF demo_state_ok, of 1 2] by auto

text \<open>
  C35. On a consistent and acyclic relation \<open>is_follower_of\<close> terminates and says whether the
  window is a lead directly or through a chain of leads.
\<close>

theorem is_follower_of_closure:
  assumes "transients_ok W" and "leads_ranked rk W"
  shows "transient_is_follower_of W m target = Some ((target, m) \<in> (lead_rel W)\<^sup>+)"
proof -
  have "\<forall>l \<in> set (w_leads (W m)). rk l < rk m" using assms(2) by (auto simp: leads_ranked_def)
  then have up: "follower_loop W target (w_leads (W m)) =
      Some (\<exists>l \<in> set (w_leads (W m)). (target, l) \<in> (lead_rel W)\<^sup>+)"
    by (rule follower_loop_spec [OF assms])
  have "(target, m) \<in> (lead_rel W)\<^sup>+ \<longleftrightarrow>
      (target, m) \<in> lead_rel W \<or> (\<exists>l \<in> set (w_leads (W m)). (target, l) \<in> (lead_rel W)\<^sup>+)"
    by (subst trancl_unfold) (auto simp: lead_rel_def)
  moreover have "m \<in> set (w_children (W target)) \<longleftrightarrow> (target, m) \<in> lead_rel W"
    using assms(1) by (auto simp: transients_ok_def lead_rel_def)
  ultimately show ?thesis by (auto simp: transient_is_follower_of_def up)
qed

theorem is_follower_of_closure_witness:
  "transient_is_follower_of (tr_win demo_state) 1 0 = Some ((0, 1) \<in> (lead_rel (tr_win demo_state))\<^sup>+)"
  by (rule is_follower_of_closure [OF demo_state_ok])

lemma destroy_leads_children:
  "transient_destroy_leads m tlead ls s = Returns t \<Longrightarrow> m \<notin> set ls \<Longrightarrow>
   w_children (tr_win t m) = w_children (tr_win s m)"
  by (induction m tlead ls s rule: transient_destroy_leads.induct)
    (auto simp: Let_def split: if_splits option.splits)

lemma destroy_children_step:
  assumes "transient_destroy_children m tlead i (Suc n) s = Returns t"
  obtains s1 u where "i < length (w_children (tr_win s m))" "tr_win s1 = tr_win s"
    "transient_remove_child m (w_children (tr_win s m) ! i) s1 = Returns u"
    "transient_destroy_children m tlead (Suc i) n u = Returns t"
proof -
  let ?c = "w_children (tr_win s m) ! i"
  define s1 where "s1 = (case tlead of Some q \<Rightarrow>
      (if w_annexed (tr_win s m) then tr_emit (AddLayerRepaint q ?c) (tr_emit (DiscardQuads q) s) else s)
    | None \<Rightarrow> s)"
  have "tr_win s1 = tr_win s" by (auto simp: s1_def split: option.splits)
  moreover have "i < length (w_children (tr_win s m))" using assms by (simp split: if_splits)
  moreover from this have "obind (transient_remove_child m ?c s1) (transient_destroy_children m tlead (Suc i) n) = Returns t"
    using assms unfolding s1_def by (simp add: Let_def)
  ultimately show thesis using that by auto
qed

lemma remove_child_length:
  assumes "transient_remove_child m (w_children (tr_win s m) ! i) s1 = Returns u" "tr_win s1 = tr_win s"
    and "i < length (w_children (tr_win s m))" "distinct (w_children (tr_win s m))" "m \<notin> set (w_children (tr_win s m))"
  shows "length (w_children (tr_win u m)) = length (w_children (tr_win s m)) - 1"
    and "distinct (w_children (tr_win u m))" and "m \<notin> set (w_children (tr_win u m))"
proof -
  let ?c = "w_children (tr_win s m) ! i"
  have c: "?c \<in> set (w_children (tr_win s m))" using assms(3) by (rule nth_mem)
  then have "m \<noteq> ?c" using assms(5) by auto
  then have "w_children (tr_win u m) = removeAll ?c (w_children (tr_win s m))"
    using remove_child_win(1) [OF assms(1), of m] assms(2) by simp
  then show "length (w_children (tr_win u m)) = length (w_children (tr_win s m)) - 1"
    and "distinct (w_children (tr_win u m))" and "m \<notin> set (w_children (tr_win u m))"
    using c assms(4,5)
    by (simp_all add: distinct_remove1_removeAll [symmetric] length_remove1 set_remove1_eq)
qed

lemma destroy_children_runs_out:
  assumes "length (w_children (tr_win s m)) < i + n" "distinct (w_children (tr_win s m))"
    "m \<notin> set (w_children (tr_win s m))" "0 < n"
  shows "transient_destroy_children m tlead i n s \<noteq> Returns t"
  using assms
proof (induction n arbitrary: i s)
  case (Suc n)
  show ?case
  proof
    assume "transient_destroy_children m tlead i (Suc n) s = Returns t"
    then obtain s1 u where u: "i < length (w_children (tr_win s m))" "tr_win s1 = tr_win s"
        "transient_remove_child m (w_children (tr_win s m) ! i) s1 = Returns u"
        "transient_destroy_children m tlead (Suc i) n u = Returns t"
      by (rule destroy_children_step)
    note r = remove_child_length [OF u(3,2,1) Suc.prems(2,3)]
    have "0 < n" using u(1) Suc.prems(1) by simp
    moreover have "length (w_children (tr_win u m)) < Suc i + n" using r(1) Suc.prems(1) by linarith
    ultimately show False using Suc.IH r(2,3) u(4) by blast
  qed
qed simp


definition demo_family :: tr_state where
  "demo_family = \<lparr>tr_win = (\<lambda>_. demo_window)(1 := demo_window\<lparr>w_leads := [0]\<rparr>,
     2 := demo_window\<lparr>w_leads := [0]\<rparr>, 0 := demo_window\<lparr>w_children := [1, 2]\<rparr>), tr_log = []\<rparr>"


end
