(* ===== verification/Stacking_Order.thy ===== *)
theory Stacking_Order
  imports Stacking Transients_Properties
begin

text \<open>
  The constrained stacking order. The abstract specification is a forest: every window that has to
  stay above one of its leads hangs below that lead, the other windows are roots in the order of
  their layers. Flattened in pre-order, the forest is what \<open>constrainedStackingOrder\<close> computes.
\<close>

section \<open>Ensuring the stacking order of a list\<close>

lemma ensure_fold_mset:
  "distinct xs \<Longrightarrow>
   mset (fold (\<lambda>c result. if c \<in> set result then removeAll c result @ [c] else result) order xs) = mset xs"
proof (induction order arbitrary: xs)
  case (Cons c order)
  let ?r = "if c \<in> set xs then removeAll c xs @ [c] else xs"
  have "mset ?r = mset xs"
    using Cons.prems by (auto simp: distinct_remove1_removeAll [symmetric])
  moreover from this have "distinct ?r" using Cons.prems mset_eq_imp_distinct_iff by blast
  ultimately show ?case using Cons.IH [of ?r] by (simp only: fold_simps)
qed simp

lemma ensureStackingOrder_mset: "distinct xs \<Longrightarrow> mset (ensureStackingOrder order xs) = mset xs"
  by (simp add: ensureStackingOrder_def ensure_fold_mset)

lemma ensureStackingOrder_set: "distinct xs \<Longrightarrow> set (ensureStackingOrder order xs) = set xs"
  using ensureStackingOrder_mset mset_eq_setD by blast

lemma ensureStackingOrder_distinct: "distinct xs \<Longrightarrow> distinct (ensureStackingOrder order xs)"
  using ensureStackingOrder_mset mset_eq_imp_distinct_iff by blast

section \<open>The forest\<close>

definition restack_kids :: "wstore \<Rightarrow> (addr \<Rightarrow> layer) \<Rightarrow> addr list \<Rightarrow> addr \<Rightarrow> addr list" where
  "restack_kids W lay order w =
     filter (child_restack W lay w) (ensureStackingOrder order (w_children (W w)))"

fun restack_tree :: "wstore \<Rightarrow> (addr \<Rightarrow> layer) \<Rightarrow> addr list \<Rightarrow> nat \<Rightarrow> addr \<Rightarrow> addr list" where
  "restack_tree W lay order 0 w = []"
| "restack_tree W lay order (Suc n) w =
     concat (map (\<lambda>c. c # restack_tree W lay order n c) (restack_kids W lay order w))"

definition stack_root :: "wstore \<Rightarrow> (addr \<Rightarrow> layer) \<Rightarrow> addr \<Rightarrow> bool" where
  "stack_root W lay w \<longleftrightarrow> \<not> (\<exists>lead \<in> set (w_leads (W w)). child_restack W lay lead w)"

definition forest_of :: "wstore \<Rightarrow> (addr \<Rightarrow> layer) \<Rightarrow> addr list \<Rightarrow> nat \<Rightarrow> addr list \<Rightarrow> addr list" where
  "forest_of W lay order n ws = concat (map (\<lambda>w. w # restack_tree W lay order n w) ws)"

text \<open>
  What the code relies on: the transient relation is consistent and acyclic (\<open>rk\<close> ranks the leads
  of a window below it, all ranks stay below \<open>N\<close>), it does not leave the windows that are stacked,
  and no window has to be kept directly above two different leads.
\<close>

definition stackable :: "wstore \<Rightarrow> (addr \<Rightarrow> layer) \<Rightarrow> (addr \<Rightarrow> nat) \<Rightarrow> nat \<Rightarrow> addr list \<Rightarrow> bool" where
  "stackable W lay rk N ws \<longleftrightarrow>
     transients_ok W \<and> leads_ranked rk W \<and> (\<forall>a. rk a < N) \<and> distinct ws \<and>
     (\<forall>a \<in> set ws. set (w_children (W a)) \<subseteq> set ws \<and> set (w_leads (W a)) \<subseteq> set ws) \<and>
     (\<forall>c l l'. l \<in> set (w_leads (W c)) \<longrightarrow> l' \<in> set (w_leads (W c)) \<longrightarrow>
        child_restack W lay l c \<longrightarrow> child_restack W lay l' c \<longrightarrow> l = l')"

lemma count_forest:
  "count_list (concat (map (\<lambda>c. c # t c) ks)) x = count_list ks x + (\<Sum>c\<leftarrow>ks. count_list (t c) x)"
  by (induction ks) (auto simp: count_list_append)

lemma mem_restack_kids:
  "transients_ok W \<Longrightarrow>
   c \<in> set (restack_kids W lay order w) \<longleftrightarrow> w \<in> set (w_leads (W c)) \<and> child_restack W lay w c"
  using ensureStackingOrder_set [of "w_children (W w)" order]
  by (auto simp: restack_kids_def transients_ok_def)

lemma restack_kids_distinct: "transients_ok W \<Longrightarrow> distinct (restack_kids W lay order w)"
  by (simp add: restack_kids_def ensureStackingOrder_distinct transients_ok_def)

lemma count_tree_lead:
  assumes ok: "stackable W lay rk N ws" and l: "l \<in> set (w_leads (W x))" "child_restack W lay l x"
  shows "N \<le> rk w + n + 1 \<Longrightarrow>
    count_list (restack_tree W lay order n w) x = count_list (w # restack_tree W lay order n w) l"
proof (induction n arbitrary: w)
  case 0
  have "rk l < rk x" "rk x < N" using ok l(1) by (auto simp: stackable_def leads_ranked_def)
  then have "w \<noteq> l" using 0 by auto
  then show ?case by simp
next
  case (Suc n)
  let ?ks = "restack_kids W lay order w"
  have tr: "transients_ok W" using ok by (simp add: stackable_def)
  have "rk w < rk c" if "c \<in> set ?ks" for c
    using that ok by (auto simp: mem_restack_kids [OF tr] stackable_def leads_ranked_def)
  then have "\<And>c. c \<in> set ?ks \<Longrightarrow> count_list (restack_tree W lay order n c) x =
      count_list (c # restack_tree W lay order n c) l"
    using Suc by fastforce
  then have "(\<Sum>c\<leftarrow>?ks. count_list (restack_tree W lay order n c) x) =
      (\<Sum>c\<leftarrow>?ks. count_list (c # restack_tree W lay order n c) l)"
    by (intro arg_cong [where f = sum_list] map_cong) auto
  also have "\<dots> = count_list (restack_tree W lay order (Suc n) w) l"
  proof -
    have "count_list (concat (map (\<lambda>c. c # t c) ks)) l = (\<Sum>c\<leftarrow>ks. count_list (c # t c) l)" for t ks
      by (induction ks) (auto simp: count_list_append)
    then show ?thesis by simp
  qed
  finally have sum: "(\<Sum>c\<leftarrow>?ks. count_list (restack_tree W lay order n c) x) =
      count_list (restack_tree W lay order (Suc n) w) l" .
  have "x \<in> set ?ks \<longleftrightarrow> w = l"
    using ok l by (auto simp: mem_restack_kids [OF tr] stackable_def)
  then have "count_list ?ks x = (if w = l then 1 else 0)"
    using restack_kids_distinct [OF tr, of lay order w] by (simp add: distinct_count_list)
  then show ?case using sum by (simp add: count_forest)
qed

lemma tree_members:
  assumes "transients_ok W"
  shows "x \<in> set (restack_tree W lay order n w) \<Longrightarrow> (w, x) \<in> (lead_rel W)\<^sup>+ \<and> \<not> stack_root W lay x"
proof (induction n arbitrary: w)
  case (Suc n)
  then obtain c where c: "c \<in> set (restack_kids W lay order w)" "x = c \<or> x \<in> set (restack_tree W lay order n c)" by auto
  then have "(w, c) \<in> lead_rel W" "\<not> stack_root W lay c"
    by (auto simp: mem_restack_kids [OF assms] lead_rel_def stack_root_def)
  with c(2) Suc.IH [of c] show ?case by (auto intro: trancl_into_trancl2)
qed simp

lemma stackable_child:
  assumes "stackable W lay rk N ws" and "(w, y) \<in> lead_rel W" and "w \<in> set ws"
  shows "y \<in> set ws"
proof -
  have "y \<in> set (w_children (W w))" using assms(1,2) by (simp add: stackable_def transients_ok_def lead_rel_def)
  with assms(1,3) show ?thesis unfolding stackable_def by blast
qed

lemma followers_closed:
  assumes "stackable W lay rk N ws" and "w \<in> set ws"
  shows "(w, x) \<in> (lead_rel W)\<^sup>+ \<Longrightarrow> x \<in> set ws"
  by (induction rule: trancl_induct) (use assms stackable_child in blast)+

text \<open>Every window occurs exactly once in the forest over the roots.\<close>

lemma forest_count:
  assumes ok: "stackable W lay rk N ws" and pre: "mset pre = mset ws"
  shows "count_list (forest_of W lay order N (filter (stack_root W lay) pre)) x = count_list ws x"
proof -
  let ?roots = "filter (stack_root W lay) pre" and ?F = "forest_of W lay order N (filter (stack_root W lay) pre)"
  have tr: "transients_ok W" and dist: "distinct ws" using ok by (auto simp: stackable_def)
  have set: "set pre = set ws" "distinct pre" using pre dist mset_eq_setD mset_eq_imp_distinct_iff by blast+
  have cnt: "count_list ?F y = count_list ?roots y + (\<Sum>w\<leftarrow>?roots. count_list (restack_tree W lay order N w) y)" for y
    by (simp add: forest_of_def count_forest)
  have sub: "set ?F \<subseteq> set ws"
    using tree_members [OF tr] followers_closed [OF ok] set(1) unfolding forest_of_def by fastforce
  show ?thesis
  proof (cases "x \<in> set ws")
    case False
    then have "x \<notin> set ?F" using sub by blast
    with False show ?thesis by simp
  next
    case True
    then show ?thesis
    proof (induction "rk x" arbitrary: x rule: less_induct)
      case less
      show ?case
      proof (cases "stack_root W lay x")
        case root: True
        then have "(\<Sum>w\<leftarrow>?roots. count_list (restack_tree W lay order N w) x) = 0"
          using tree_members [OF tr] by (fastforce intro: count_notin)
        moreover have "count_list ?roots x = 1" "count_list ws x = 1"
          using root less.prems set dist by (simp_all add: distinct_count_list)
        ultimately show ?thesis by (simp add: cnt)
      next
        case False
        then obtain l where l: "l \<in> set (w_leads (W x))" "child_restack W lay l x" by (auto simp: stack_root_def)
        then have lws: "l \<in> set ws" "rk l < rk x" using ok less.prems by (auto simp: stackable_def leads_ranked_def)
        have "(\<Sum>w\<leftarrow>?roots. count_list (restack_tree W lay order N w) x) =
            (\<Sum>w\<leftarrow>?roots. count_list (w # restack_tree W lay order N w) l)"
          using count_tree_lead [OF ok l] by (intro arg_cong [where f = sum_list] map_cong) auto
        also have "\<dots> = count_list ?F l"
        proof -
          have "(\<Sum>w\<leftarrow>ks. count_list (w # t w) l) = count_list (concat (map (\<lambda>w. w # t w) ks)) l" for ks t
            by (induction ks) auto
          then show ?thesis by (simp only: forest_of_def)
        qed
        also have "\<dots> = count_list ws l" by (rule less.hyps [OF lws(2,1)])
        finally show ?thesis using False lws less.prems dist by (simp add: cnt distinct_count_list)
      qed
    qed
  qed
qed

section \<open>The code computes the forest\<close>

lemma append_children_forest:
  assumes "stackable W lay rk N ws"
  shows "\<forall>c \<in> set todo. child_restack W lay w c \<longrightarrow> N \<le> rk c + n \<Longrightarrow>
    distinct (list @ stacked @ forest_of W lay order n (filter (child_restack W lay w) todo)) \<Longrightarrow>
    append_children W lay order w todo list stacked =
      Some (list @ stacked @ forest_of W lay order n (filter (child_restack W lay w) todo))"
proof (induction n arbitrary: w todo list stacked)
  case 0
  have "filter (child_restack W lay w) todo = []"
    using 0(1) assms by (auto simp: filter_empty_conv stackable_def) (metis leD)
  moreover from this have "append_children W lay order w todo list stacked = Some (list @ stacked)"
    by (induction todo) (subst append_children.simps, simp split: if_splits)+
  ultimately show ?case by (simp add: forest_of_def)
next
  case (Suc n)
  have tr: "transients_ok W" using assms by (simp add: stackable_def)
  note IH = Suc.IH
  from Suc.prems show ?case
  proof (induction todo arbitrary: list stacked)
    case Nil
    then show ?case by (subst append_children.simps) (simp add: forest_of_def)
  next
    case (Cons c cs)
    show ?case
    proof (cases "child_restack W lay w c")
      case False
      with Cons show ?thesis by (subst append_children.simps) simp
    next
      case True
      let ?t = "restack_tree W lay order (Suc n) c"
      let ?rest = "forest_of W lay order (Suc n) (filter (child_restack W lay w) cs)"
      have all: "forest_of W lay order (Suc n) (filter (child_restack W lay w) (c # cs)) = c # ?t @ ?rest"
        using True by (simp add: forest_of_def)
      have d: "distinct (list @ stacked @ c # ?t @ ?rest)" using Cons.prems(2) unfolding all .
      have tree: "?t = forest_of W lay order n (filter (child_restack W lay c)
          (ensureStackingOrder order (w_children (W c))))"
        by (simp add: forest_of_def restack_kids_def)
      have deep: "N \<le> rk k + n" if "k \<in> set (ensureStackingOrder order (w_children (W c)))" for k
      proof -
        have "c \<in> set (w_leads (W k))"
          using that ensureStackingOrder_set tr by (auto simp: transients_ok_def)
        then have "rk c < rk k" using assms by (simp add: stackable_def leads_ranked_def)
        then show ?thesis using Cons.prems(1) True by simp
      qed
      have "append_children W lay order c (ensureStackingOrder order (w_children (W c))) (stacked @ [c]) [] =
          Some ((stacked @ [c]) @ [] @ ?t)"
        unfolding tree by (rule IH) (use deep d in \<open>auto simp: tree [symmetric]\<close>)
      moreover have "removeAll c list = list" using d by simp
      moreover have "append_children W lay order w cs list ((stacked @ [c]) @ [] @ ?t) =
          Some (list @ ((stacked @ [c]) @ [] @ ?t) @ ?rest)"
        by (rule Cons.IH) (use Cons.prems(1) d in auto)
      ultimately show ?thesis
        using True unfolding all by (subst append_children.simps) simp
    qed
  qed
qed

lemma stack_roots_forest:
  assumes ok: "stackable W lay rk N ws"
  shows "distinct (stack @ forest_of W lay order N (filter (stack_root W lay) pre)) \<Longrightarrow>
    stack_roots W lay order pre stack =
      Returns (stack @ forest_of W lay order N (filter (stack_root W lay) pre))"
proof (induction pre arbitrary: stack)
  case Nil
  then show ?case by (simp add: forest_of_def)
next
  case (Cons w pre)
  show ?case
  proof (cases "stack_root W lay w")
    case False
    then have "stack_roots W lay order (w # pre) stack = stack_roots W lay order pre stack"
      by (simp add: stack_root_def)
    with False Cons show ?thesis by simp
  next
    case True
    have pos: "0 < N" using ok by (metis gr0I less_zeroE stackable_def)
    then obtain n where n: "N = Suc n" by (metis gr0_conv_Suc)
    let ?t = "restack_tree W lay order N w" and ?rest = "forest_of W lay order N (filter (stack_root W lay) pre)"
    let ?kids = "ensureStackingOrder order (w_children (W w))"
    have all: "forest_of W lay order N (filter (stack_root W lay) (w # pre)) = w # ?t @ ?rest"
      using True by (simp add: forest_of_def)
    have d: "distinct (stack @ w # ?t @ ?rest)" using Cons.prems unfolding all .
    have tree: "?t = forest_of W lay order n (filter (child_restack W lay w) ?kids)"
      by (simp add: n forest_of_def restack_kids_def)
    have deep: "N \<le> rk k + n" if "k \<in> set ?kids" for k
    proof -
      have "w \<in> set (w_leads (W k))"
        using that ensureStackingOrder_set ok by (auto simp: stackable_def transients_ok_def)
      then have "rk w < rk k" using ok by (simp add: stackable_def leads_ranked_def)
      then show ?thesis by (simp add: n)
    qed
    have "append_children W lay order w ?kids (stack @ [w]) [] = Some ((stack @ [w]) @ [] @ ?t)"
      unfolding tree by (rule append_children_forest [OF ok]) (use deep d in \<open>auto simp: tree [symmetric]\<close>)
    moreover have "stack_roots W lay order pre ((stack @ [w]) @ [] @ ?t) = Returns (((stack @ [w]) @ [] @ ?t) @ ?rest)"
      by (rule Cons.IH) (use d in auto)
    ultimately show ?thesis using True d unfolding all by (simp add: stack_root_def)
  qed
qed

section \<open>The layers\<close>

lemma assign_layers_returns:
  "\<forall>w \<in> set ws. 0 \<le> w_screen (W w) \<and> w_screen (W w) < max n 1 \<Longrightarrow>
   \<exists>ps. assign_layers W lay n M ws = Returns ps \<and> map fst ps = ws \<and>
     (\<forall>p \<in> set ps. snd p = lay (fst p) \<or> snd p = LActive \<and> LBelow < lay (fst p))"
proof (induction ws arbitrary: M)
  case (Cons w ws)
  let ?key = "if w_x11 (W w) then w_group (W w) else None"
  define l where "l = (case M (w_screen (W w)) ?key of
      Some m \<Rightarrow> (if m = LActive \<and> lay w > LBelow then LActive else lay w) | None \<Rightarrow> lay w)"
  define M' where "M' = (if M (w_screen (W w)) ?key \<noteq> None \<or> w_x11 (W w)
      then M(w_screen (W w) := (M (w_screen (W w)))(?key := Some l)) else M)"
  have inr: "\<not> (w_screen (W w) < 0 \<or> max n 1 \<le> w_screen (W w))"
    using Cons.prems by (auto simp only: list.set insert_iff ball_simps not_less not_le de_Morgan_disj)
  obtain ps where ps: "assign_layers W lay n M' ws = Returns ps" "map fst ps = ws"
      "\<forall>p \<in> set ps. snd p = lay (fst p) \<or> snd p = LActive \<and> LBelow < lay (fst p)"
    using Cons.IH [of M'] Cons.prems by auto
  have "assign_layers W lay n M (w # ws) = obind (assign_layers W lay n M' ws) (\<lambda>r. Returns ((w, l) # r))"
    unfolding assign_layers.simps Let_def by (simp only: if_not_P [OF inr] M'_def l_def)
  moreover have "l = lay w \<or> l = LActive \<and> LBelow < lay w" by (auto simp: l_def split: option.splits)
  ultimately show ?case using ps by simp
qed simp

lemma buckets_mset:
  "distinct ls \<Longrightarrow> mset (concat (map (\<lambda>l. map fst (filter (\<lambda>p. snd p = l) ps)) ls)) =
   mset (map fst (filter (\<lambda>p. snd p \<in> set ls) ps))"
proof (induction ls)
  case (Cons l ls)
  have "mset (map fst (filter (\<lambda>p. snd p = l) ps)) + mset (map fst (filter (\<lambda>p. snd p \<in> set ls) ps)) =
      mset (map fst (filter (\<lambda>p. snd p \<in> set (l # ls)) ps))"
    using Cons.prems by (induction ps) auto
  with Cons show ?case by simp
qed simp

lemma mem_all_layers: "l \<noteq> LUnknown \<Longrightarrow> l \<in> set all_layers"
  by (cases l) (simp_all add: all_layers_def)

lemma all_layers_sorted: "sorted_wrt (<) all_layers"
  by (simp add: all_layers_def less_layer_def)

lemma preliminary_mset:
  assumes "\<forall>p \<in> set ps. snd p \<noteq> LUnknown"
  shows "mset (preliminary_stack ps) = mset (map fst ps)"
proof -
  have "filter (\<lambda>p. snd p \<in> set all_layers) ps = ps"
    using assms mem_all_layers by (auto simp: filter_id_conv)
  moreover have "distinct all_layers" by (simp add: all_layers_def)
  ultimately show ?thesis by (simp add: preliminary_stack_def buckets_mset)
qed

lemma buckets_sorted:
  assumes "\<forall>p \<in> set ps. L (fst p) = snd p"
  shows "sorted_wrt (<) ls \<Longrightarrow>
    sorted (map L (concat (map (\<lambda>l. map fst (filter (\<lambda>p. snd p = l) ps)) ls)))"
proof (induction ls)
  case (Cons l ls)
  have one: "map L (map fst (filter (\<lambda>p. snd p = l) ps)) = replicate (length (filter (\<lambda>p. snd p = l) ps)) l"
    using assms by (induction ps) auto
  have rest: "l \<le> L x" if "x \<in> set (concat (map (\<lambda>l. map fst (filter (\<lambda>p. snd p = l) ps)) ls))" for x
    using that assms Cons.prems by (auto simp: less_imp_le)
  show ?case
    using Cons rest unfolding list.map concat.simps map_append sorted_append one by (auto simp: sorted_replicate)
qed simp

lemma buckets_stable:
  assumes "\<forall>p \<in> set ps. L (fst p) = snd p"
  shows "distinct ls \<Longrightarrow>
    filter (\<lambda>w. L w = l) (concat (map (\<lambda>l. map fst (filter (\<lambda>p. snd p = l) ps)) ls)) =
    (if l \<in> set ls then map fst (filter (\<lambda>p. snd p = l) ps) else [])"
proof (induction ls)
  case (Cons k ls)
  have "filter (\<lambda>w. L w = l) (map fst (filter (\<lambda>p. snd p = k) ps)) =
      (if k = l then map fst (filter (\<lambda>p. snd p = l) ps) else [])"
    using assms by (induction ps) auto
  with Cons show ?case by auto
qed simp

section \<open>Properties\<close>

lemma tree_lead_first:
  assumes ok: "transients_ok W" and x: "l \<in> set (w_leads (W x))" "child_restack W lay l x"
    and uniq: "\<And>l'. l' \<in> set (w_leads (W x)) \<Longrightarrow> child_restack W lay l' x \<Longrightarrow> l' = l"
  shows "x \<in> set (restack_tree W lay order n w) \<Longrightarrow>
    \<exists>ys zs us. w # restack_tree W lay order n w = ys @ l # zs @ x # us \<and> (\<forall>z \<in> set zs. (l, z) \<in> (lead_rel W)\<^sup>+)"
proof (induction n arbitrary: w)
  case (Suc n)
  then obtain ks c ks' where ks: "restack_kids W lay order w = ks @ c # ks'"
      "x = c \<or> x \<in> set (restack_tree W lay order n c)"
    by (auto simp: in_set_conv_decomp [of _ "restack_kids W lay order w"])
  let ?f = "\<lambda>c. c # restack_tree W lay order n c"
  have t: "restack_tree W lay order (Suc n) w = concat (map ?f ks) @ ?f c @ concat (map ?f ks')" using ks by simp
  show ?case
  proof (cases "x \<in> set (restack_tree W lay order n c)")
    case True
    then obtain ys zs us where "?f c = ys @ l # zs @ x # us" "\<forall>z \<in> set zs. (l, z) \<in> (lead_rel W)\<^sup>+"
      using Suc.IH by blast
    then have "w # restack_tree W lay order (Suc n) w =
        (w # concat (map ?f ks) @ ys) @ l # zs @ x # us @ concat (map ?f ks')" unfolding t by simp
    with \<open>\<forall>z \<in> set zs. _\<close> show ?thesis by blast
  next
    case False
    then have "x = c" using ks(2) by simp
    then have "w = l" using uniq ks(1) mem_restack_kids [OF ok, of x lay order w] by auto
    moreover have "(w, z) \<in> (lead_rel W)\<^sup>+" if "z \<in> set (concat (map ?f ks))" for z
    proof -
      have "z \<in> set (restack_tree W lay order (Suc n) w)" unfolding t using that by simp
      then show ?thesis using tree_members [OF ok] by blast
    qed
    moreover have "w # restack_tree W lay order (Suc n) w =
        [] @ w # concat (map ?f ks) @ x # restack_tree W lay order n c @ concat (map ?f ks')"
      unfolding t using \<open>x = c\<close> by simp
    ultimately show ?thesis by blast
  qed
qed simp

lemma constrained_is_forest:
  assumes "stackable (ws_win s) lay rk N (ws_unconstrained s)"
    and "\<forall>w \<in> set (ws_unconstrained s). 0 \<le> w_screen (ws_win s w) \<and> w_screen (ws_win s w) < max (ws_screenCount s) 1"
    and "\<forall>w \<in> set (ws_unconstrained s). lay w \<noteq> LUnknown"
  obtains ps pre where
    "constrainedStackingOrder lay s = Returns (forest_of (ws_win s) lay (ws_stacking s) N (filter (stack_root (ws_win s) lay) pre))"
    "pre = preliminary_stack ps" "mset pre = mset (ws_unconstrained s)" "map fst ps = ws_unconstrained s"
    "\<forall>p \<in> set ps. snd p = lay (fst p) \<or> snd p = LActive \<and> LBelow < lay (fst p)"
    "mset (forest_of (ws_win s) lay (ws_stacking s) N (filter (stack_root (ws_win s) lay) pre)) = mset (ws_unconstrained s)"
proof -
  obtain ps where ps: "assign_layers (ws_win s) lay (ws_screenCount s) (\<lambda>_ _. None) (ws_unconstrained s) = Returns ps"
      "map fst ps = ws_unconstrained s" "\<forall>p \<in> set ps. snd p = lay (fst p) \<or> snd p = LActive \<and> LBelow < lay (fst p)"
    using assign_layers_returns [OF assms(2)] by metis
  have "\<forall>p \<in> set ps. snd p \<noteq> LUnknown"
  proof
    fix p assume p: "p \<in> set ps"
    then have "fst p \<in> set (ws_unconstrained s)" using ps(2) by (metis image_eqI list.set_map)
    moreover have "snd p = lay (fst p) \<or> snd p = LActive" using ps(3) p by blast
    ultimately show "snd p \<noteq> LUnknown" using assms(3) by auto
  qed
  then have pre: "mset (preliminary_stack ps) = mset (ws_unconstrained s)" using preliminary_mset ps(2) by metis
  let ?F = "forest_of (ws_win s) lay (ws_stacking s) N (filter (stack_root (ws_win s) lay) (preliminary_stack ps))"
  have F: "mset ?F = mset (ws_unconstrained s)"
    using forest_count [OF assms(1) pre] by (simp add: mset_eq_count_list)
  have "distinct (ws_unconstrained s)" using assms(1) by (simp add: stackable_def)
  then have "distinct ?F" using F mset_eq_imp_distinct_iff by blast
  then have "constrainedStackingOrder lay s = Returns ?F"
    using stack_roots_forest [OF assms(1), of "[]"] by (simp add: constrainedStackingOrder_def ps(1))
  with that ps pre F show thesis by blast
qed

text \<open>
  C2. The constrained stacking order is complete and keeps transients above their leads: when the
  transient relation is consistent, acyclic, stays within the stacked windows and asks no window
  to stay above two leads, the computation terminates, its assertion holds, the result is a
  permutation of the windows, and each window that has to be kept above a lead is above it with
  only followers of that lead in between.
\<close>

theorem constrained_order_keeps_transients_above:
  assumes "stackable (ws_win s) lay rk N (ws_unconstrained s)"
    and "\<forall>w \<in> set (ws_unconstrained s). 0 \<le> w_screen (ws_win s w) \<and> w_screen (ws_win s w) < max (ws_screenCount s) 1"
    and "\<forall>w \<in> set (ws_unconstrained s). lay w \<noteq> LUnknown"
  shows "\<exists>st. constrainedStackingOrder lay s = Returns st \<and> mset st = mset (ws_unconstrained s) \<and>
    (\<forall>x \<in> set (ws_unconstrained s). \<forall>l \<in> set (w_leads (ws_win s x)). child_restack (ws_win s) lay l x \<longrightarrow>
       (\<exists>ys zs us. st = ys @ l # zs @ x # us \<and> (\<forall>z \<in> set zs. (l, z) \<in> (lead_rel (ws_win s))\<^sup>+)))"
proof -
  let ?W = "ws_win s"
  obtain ps pre where st: "constrainedStackingOrder lay s =
      Returns (forest_of ?W lay (ws_stacking s) N (filter (stack_root ?W lay) pre))"
    "mset (forest_of ?W lay (ws_stacking s) N (filter (stack_root ?W lay) pre)) = mset (ws_unconstrained s)"
    using constrained_is_forest [OF assms] by metis
  let ?roots = "filter (stack_root ?W lay) pre"
  let ?f = "\<lambda>w. w # restack_tree ?W lay (ws_stacking s) N w"
  have ok: "transients_ok ?W" using assms(1) by (simp add: stackable_def)
  have "\<exists>ys zs us. forest_of ?W lay (ws_stacking s) N ?roots = ys @ l # zs @ x # us \<and>
      (\<forall>z \<in> set zs. (l, z) \<in> (lead_rel ?W)\<^sup>+)"
    if x: "x \<in> set (ws_unconstrained s)" "l \<in> set (w_leads (?W x))" "child_restack ?W lay l x" for x l
  proof -
    have "x \<in> set (forest_of ?W lay (ws_stacking s) N ?roots)" using st(2) x(1) mset_eq_setD by blast
    then obtain w where w: "w \<in> set ?roots" "x \<in> set (?f w)" by (auto simp: forest_of_def)
    moreover have "x \<noteq> w" using w(1) x(2,3) by (auto simp: stack_root_def)
    ultimately have "x \<in> set (restack_tree ?W lay (ws_stacking s) N w)" by simp
    moreover have "l' = l" if "l' \<in> set (w_leads (?W x))" "child_restack ?W lay l' x" for l'
      using assms(1) x(2,3) that unfolding stackable_def by blast
    ultimately obtain ys zs us where d: "?f w = ys @ l # zs @ x # us" "\<forall>z \<in> set zs. (l, z) \<in> (lead_rel ?W)\<^sup>+"
      using tree_lead_first [OF ok x(2,3)] by metis
    obtain as bs where "?roots = as @ w # bs" using w(1) by (auto simp: in_set_conv_decomp)
    then have "forest_of ?W lay (ws_stacking s) N ?roots =
        (concat (map ?f as) @ ys) @ l # zs @ x # us @ concat (map ?f bs)"
      using d(1) by (simp add: forest_of_def)
    with d(2) show ?thesis by blast
  qed
  with st show ?thesis by blast
qed

lemma filter_roots_forest:
  assumes "transients_ok W"
  shows "filter (stack_root W lay) (forest_of W lay order n (filter (stack_root W lay) pre)) =
    filter (stack_root W lay) pre"
proof -
  have "filter (stack_root W lay) (restack_tree W lay order n w) = []" for w
    using tree_members [OF assms] by (auto simp: filter_empty_conv)
  then show ?thesis by (induction pre) (simp_all add: forest_of_def)
qed

text \<open>
  C12. The windows that follow no lead are stacked by layers: there is an assignment of layers
  that gives every window its own layer, or lifts it to the active layer when its own lies above
  \<open>below\<close> (a window raised over an active fullscreen window of its group), such that these
  windows appear in ascending layers and, within each layer, in the order that was asked for.
\<close>

theorem constrained_order_respects_layers:
  assumes "stackable (ws_win s) lay rk N (ws_unconstrained s)"
    and "\<forall>w \<in> set (ws_unconstrained s). 0 \<le> w_screen (ws_win s w) \<and> w_screen (ws_win s w) < max (ws_screenCount s) 1"
    and "\<forall>w \<in> set (ws_unconstrained s). lay w \<noteq> LUnknown"
  shows "\<exists>st L. constrainedStackingOrder lay s = Returns st \<and>
    (\<forall>w \<in> set (ws_unconstrained s). L w = lay w \<or> L w = LActive \<and> LBelow < lay w) \<and>
    sorted (map L (filter (stack_root (ws_win s) lay) st)) \<and>
    (\<forall>l. filter (\<lambda>w. L w = l) (filter (stack_root (ws_win s) lay) st) =
       filter (\<lambda>w. L w = l) (filter (stack_root (ws_win s) lay) (ws_unconstrained s)))"
proof -
  let ?W = "ws_win s" and ?root = "stack_root (ws_win s) lay"
  have ok: "transients_ok ?W" "distinct (ws_unconstrained s)" using assms(1) by (auto simp: stackable_def)
  obtain ps pre where st: "constrainedStackingOrder lay s =
      Returns (forest_of ?W lay (ws_stacking s) N (filter ?root pre))"
    "pre = preliminary_stack ps" "map fst ps = ws_unconstrained s"
    "\<forall>p \<in> set ps. snd p = lay (fst p) \<or> snd p = LActive \<and> LBelow < lay (fst p)"
    using constrained_is_forest [OF assms] by metis
  define L where "L = (\<lambda>w. the (map_of ps w))"
  have L: "\<forall>p \<in> set ps. L (fst p) = snd p"
    using ok(2) st(3) by (auto simp: L_def)
  have known: "snd p \<in> set all_layers" if p: "p \<in> set ps" for p
  proof -
    have "fst p \<in> set (ws_unconstrained s)" using st(3) p by (metis image_eqI list.set_map)
    then show ?thesis using st(4) p assms(3) by (intro mem_all_layers) auto
  qed
  have eq: "filter ?root (forest_of ?W lay (ws_stacking s) N (filter ?root pre)) = filter ?root pre"
    by (rule filter_roots_forest [OF ok(1)])
  have "sorted (map L pre)"
    unfolding st(2) preliminary_stack_def by (rule buckets_sorted [OF L all_layers_sorted])
  then have sorted: "sorted (map L (filter ?root pre))" by (rule sorted_filter)
  have own: "L w = lay w \<or> L w = LActive \<and> LBelow < lay w" if "w \<in> set (ws_unconstrained s)" for w
    using that st(3,4) L by (metis (no_types, lifting) imageE list.set_map)
  have "filter (\<lambda>w. L w = l) pre = filter (\<lambda>w. L w = l) (ws_unconstrained s)" for l
  proof -
    have "filter (\<lambda>w. L w = l) (map fst ps) = map fst (filter (\<lambda>p. snd p = l) ps)"
      using L by (induction ps) auto
    moreover have "l \<notin> set all_layers \<Longrightarrow> filter (\<lambda>p. snd p = l) ps = []"
      using known by (auto simp: filter_empty_conv)
    ultimately show ?thesis
      unfolding st(2) preliminary_stack_def st(3) [symmetric]
      using buckets_stable [OF L, of all_layers l] by (simp add: all_layers_def)
  qed
  then have "filter ?root (filter (\<lambda>w. L w = l) pre) = filter ?root (filter (\<lambda>w. L w = l) (ws_unconstrained s))" for l
    by (simp only:)
  then have stable: "filter (\<lambda>w. L w = l) (filter ?root pre) = filter (\<lambda>w. L w = l) (filter ?root (ws_unconstrained s))" for l
    by (simp only: filter_filter conj_commute)
  show ?thesis
  proof (intro exI conjI ballI allI)
    show "constrainedStackingOrder lay s = Returns (forest_of ?W lay (ws_stacking s) N (filter ?root pre))"
      by (rule st(1))
    show "sorted (map L (filter ?root (forest_of ?W lay (ws_stacking s) N (filter ?root pre))))"
      unfolding eq by (rule sorted)
  qed (simp_all only: eq own stable)
qed

end
