(* ===== verification/Stacking_Properties.thy ===== *)
theory Stacking_Properties
  imports Stacking_Order
begin

text \<open>
  The operations on the stacking order: each of them returns on a well-formed workspace, keeps it
  well formed and permutes the order of the windows. Concrete workspaces instantiate the
  properties and show where two leads break the order.
\<close>

section \<open>Well-formed workspaces\<close>

text \<open>
  The transient relation is a consistent forest within the stacked windows, every stacked window
  is controlled and on an existing screen, group members are stacked windows.
\<close>

definition windows_ok :: "(addr \<Rightarrow> nat) \<Rightarrow> nat \<Rightarrow> int \<Rightarrow> (addr \<Rightarrow> addr list) \<Rightarrow> wstore \<Rightarrow> addr list \<Rightarrow> bool" where
  "windows_ok rk N n mem W ws \<longleftrightarrow>
     transients_ok W \<and> leads_ranked rk W \<and> (\<forall>a. rk a < N) \<and>
     (\<forall>a \<in> set ws. set (w_children (W a)) \<subseteq> set ws \<and> set (w_leads (W a)) \<subseteq> set ws) \<and>
     (\<forall>a. length (w_leads (W a)) \<le> 1) \<and>
     (\<forall>a \<in> set ws. w_control (W a) \<and> 0 \<le> w_screen (W a) \<and> w_screen (W a) < max n 1) \<and>
     (\<forall>g. set (mem g) \<subseteq> set ws \<and> distinct (mem g))"

definition ws_ok :: "(addr \<Rightarrow> nat) \<Rightarrow> nat \<Rightarrow> workspace \<Rightarrow> bool" where
  "ws_ok rk N s \<longleftrightarrow> distinct (ws_unconstrained s) \<and> ws_block s \<ge> 0 \<and>
     windows_ok rk N (ws_screenCount s) (ws_members s) (ws_win s) (ws_unconstrained s)"

text \<open>Asking for layers changes nothing but the cached layers.\<close>

definition same_windows :: "wstore \<Rightarrow> wstore \<Rightarrow> bool" where
  "same_windows W W' \<longleftrightarrow> (\<forall>a. (W' a)\<lparr>w_layer := LUnknown\<rparr> = (W a)\<lparr>w_layer := LUnknown\<rparr>)"

lemma same_windows_refl [simp]: "same_windows W W"
  by (simp add: same_windows_def)

lemma same_windows_trans: "same_windows W W' \<Longrightarrow> same_windows W' W'' \<Longrightarrow> same_windows W W''"
  by (simp add: same_windows_def)

lemma same_windowsD:
  assumes "same_windows W W'"
  shows "w_leads (W' a) = w_leads (W a)" "w_children (W' a) = w_children (W a)"
    "w_control (W' a) = w_control (W a)" "w_screen (W' a) = w_screen (W a)"
    "w_annexed (W' a) = w_annexed (W a)" "w_group (W' a) = w_group (W a)"
proof -
  have eq: "(W' a)\<lparr>w_layer := LUnknown\<rparr> = (W a)\<lparr>w_layer := LUnknown\<rparr>"
    using assms by (simp add: same_windows_def)
  show "w_leads (W' a) = w_leads (W a)" using arg_cong [OF eq, of w_leads] by simp
  show "w_children (W' a) = w_children (W a)" using arg_cong [OF eq, of w_children] by simp
  show "w_control (W' a) = w_control (W a)" using arg_cong [OF eq, of w_control] by simp
  show "w_screen (W' a) = w_screen (W a)" using arg_cong [OF eq, of w_screen] by simp
  show "w_annexed (W' a) = w_annexed (W a)" using arg_cong [OF eq, of w_annexed] by simp
  show "w_group (W' a) = w_group (W a)" using arg_cong [OF eq, of w_group] by simp
qed

lemma windows_ok_same:
  "same_windows W W' \<Longrightarrow> windows_ok rk N n mem W' ws = windows_ok rk N n mem W ws"
  using same_windowsD [of W W'] by (simp add: windows_ok_def transients_ok_def leads_ranked_def)

lemma windows_ok_perm:
  "set ws' = set ws \<Longrightarrow> windows_ok rk N n mem W ws' = windows_ok rk N n mem W ws"
  by (simp add: windows_ok_def)

lemma windows_ok_stackable:
  assumes "windows_ok rk N n mem W ws" and "distinct ws"
  shows "stackable W lay rk N ws"
proof -
  have "l = l'" if "l \<in> set (w_leads (W c))" "l' \<in> set (w_leads (W c))" for l l' c
  proof -
    have "length (w_leads (W c)) \<le> 1" using assms(1) by (simp add: windows_ok_def)
    with that show ?thesis by (cases "w_leads (W c)") auto
  qed
  with assms show ?thesis unfolding stackable_def windows_ok_def by blast
qed

section \<open>Layers\<close>

lemma toplevel_layer_returns:
  assumes ok: "windows_ok rk N n mem W ws"
  shows "a \<in> set ws \<Longrightarrow> \<exists>l W'. toplevel_layer sd ac W a = Returns (l, W') \<and> l \<noteq> LUnknown \<and> same_windows W W'"
proof (induction "rk a" arbitrary: a rule: less_induct)
  case less
  show ?case
  proof (cases "if w_annexed (W a) then transient_lead (W a) else None")
    case (Some l)
    then have "l \<in> set (w_leads (W a))" by (auto split: if_splits dest: transient_lead_mem)
    then have "rk l < rk a" "l \<in> set ws" using ok less.prems by (auto simp: windows_ok_def leads_ranked_def)
    from less.hyps [OF this] Some show ?thesis
      unfolding toplevel_layer_def by (subst toplevel_layer_loop.simps) simp
  next
    case None
    have "w_control (W a)" using ok less.prems by (simp add: windows_ok_def)
    then obtain l where "belong_to_layer sd ac W a = Returns l" "l \<noteq> LUnknown"
      using belong_to_layer_returns by blast
    with None show ?thesis
      unfolding toplevel_layer_def by (subst toplevel_layer_loop.simps) (simp add: same_windows_def)
  qed
qed

lemma ws_layer_returns:
  assumes "windows_ok rk N n mem (ws_win s) ws" and "a \<in> set ws"
  shows "\<exists>l W'. ws_layer a s = Returns (l, s\<lparr>ws_win := W'\<rparr>) \<and> l \<noteq> LUnknown \<and> same_windows (ws_win s) W'"
  using toplevel_layer_returns [OF assms] by (fastforce simp: ws_layer_def)

lemma cache_layers_returns:
  assumes "set xs \<subseteq> set ws"
  shows "windows_ok rk N n mem (ws_win s) ws \<Longrightarrow>
    \<exists>W'. cache_layers xs s = Returns (s\<lparr>ws_win := W'\<rparr>) \<and> same_windows (ws_win s) W'"
  using assms
proof (induction xs arbitrary: s)
  case Nil
  then show ?case by (intro exI [of _ "ws_win s"]) simp
next
  case (Cons x xs)
  then obtain l W' where l: "ws_layer x s = Returns (l, s\<lparr>ws_win := W'\<rparr>)" "same_windows (ws_win s) W'"
    using ws_layer_returns [of rk N n mem s ws x] by auto
  then have "windows_ok rk N n mem W' ws" using Cons.prems(1) windows_ok_same by blast
  then obtain W'' where "cache_layers xs (s\<lparr>ws_win := W'\<rparr>) = Returns (s\<lparr>ws_win := W''\<rparr>)" "same_windows W' W''"
    using Cons.IH [of "s\<lparr>ws_win := W'\<rparr>"] Cons.prems(2) by auto
  with l show ?case using same_windows_trans by fastforce
qed

section \<open>Updating the order\<close>

text \<open>What an update of the order leaves alone.\<close>

definition ws_frame where
  "ws_frame s = (ws_desk s, ws_same s, ws_sameRelaxed s, ws_unconstrained s, ws_block s,
     ws_mostRecentlyRaised s, ws_active s, ws_lastActive s, ws_shouldGetFocus s, ws_attention s,
     ws_showingDesktop s, ws_members s, ws_focus s, ws_screenCount s, ws_allClients s)"

lemma ws_frameD:
  assumes "ws_frame t = ws_frame s"
  shows "ws_unconstrained t = ws_unconstrained s" "ws_block t = ws_block s" "ws_members t = ws_members s"
    "ws_screenCount t = ws_screenCount s" "ws_mostRecentlyRaised t = ws_mostRecentlyRaised s"
    "ws_same t = ws_same s"
  using assms by (simp_all add: ws_frame_def)

lemma ws_frame_simps [simp]:
  "ws_frame (ws_emit e s) = ws_frame s"
  "ws_frame (s\<lparr>ws_win := W\<rparr>) = ws_frame s"
  "ws_frame (s\<lparr>ws_xStackingDirty := b\<rparr>) = ws_frame s"
  "ws_frame (s\<lparr>ws_stacking := st\<rparr>) = ws_frame s"
  "ws_frame (s\<lparr>ws_forceRestacking := b\<rparr>) = ws_frame s"
  "ws_frame (s\<lparr>ws_blockedNew := b\<rparr>) = ws_frame s"
  by (simp_all add: ws_frame_def ws_emit_def)

lemma ws_emit_fields [simp]:
  "ws_win (ws_emit e s) = ws_win s" "ws_stacking (ws_emit e s) = ws_stacking s"
  "ws_unconstrained (ws_emit e s) = ws_unconstrained s" "ws_block (ws_emit e s) = ws_block s"
  "ws_members (ws_emit e s) = ws_members s" "ws_screenCount (ws_emit e s) = ws_screenCount s"
  "ws_mostRecentlyRaised (ws_emit e s) = ws_mostRecentlyRaised s" "ws_same (ws_emit e s) = ws_same s"
  by (simp_all add: ws_emit_def)

lemma propagate_frame [simp]:
  "ws_frame (propagateClients b s) = ws_frame s" "ws_win (propagateClients b s) = ws_win s"
  "ws_stacking (propagateClients b s) = ws_stacking s"
  by (simp_all add: propagateClients_def Let_def)

lemma updateStackingOrder_returns:
  assumes "ws_ok rk N s"
  obtains t where "updateStackingOrder b s = Returns t" "ws_frame t = ws_frame s"
    "same_windows (ws_win s) (ws_win t)"
    "if ws_block s > 0 then ws_stacking t = ws_stacking s else mset (ws_stacking t) = mset (ws_unconstrained s)"
proof (cases "ws_block s > 0")
  case True
  then show thesis by (intro that [of "if b then s\<lparr>ws_blockedNew := True\<rparr> else s"]) (auto simp: updateStackingOrder_def)
next
  case False
  have ok: "windows_ok rk N (ws_screenCount s) (ws_members s) (ws_win s) (ws_unconstrained s)"
      "distinct (ws_unconstrained s)" using assms by (auto simp: ws_ok_def)
  obtain W where W: "cache_layers (ws_unconstrained s) s = Returns (s\<lparr>ws_win := W\<rparr>)" "same_windows (ws_win s) W"
    using cache_layers_returns [OF subset_refl ok(1)] by blast
  let ?s0 = "s\<lparr>ws_win := W\<rparr>"
  have ok0: "windows_ok rk N (ws_screenCount s) (ws_members s) W (ws_unconstrained s)"
    using ok(1) windows_ok_same [OF W(2)] by simp
  have known: "\<forall>w \<in> set (ws_unconstrained ?s0). layer_value ?s0 w \<noteq> LUnknown"
  proof
    fix w assume "w \<in> set (ws_unconstrained ?s0)"
    then show "layer_value ?s0 w \<noteq> LUnknown"
      using ws_layer_returns [of rk N "ws_screenCount s" "ws_members s" ?s0 "ws_unconstrained s" w] ok0
      by (auto simp: layer_value_def)
  qed
  have "\<exists>ps pre F. constrainedStackingOrder (layer_value ?s0) ?s0 = Returns F \<and> mset F = mset (ws_unconstrained ?s0)"
    by (rule constrained_is_forest [of ?s0 "layer_value ?s0" rk N])
      (use windows_ok_stackable [OF ok0 ok(2)] ok0 known in \<open>auto simp: windows_ok_def\<close>)
  then obtain F where F: "constrainedStackingOrder (layer_value ?s0) ?s0 = Returns F" "mset F = mset (ws_unconstrained s)"
    by auto
  define s1 where "s1 = ?s0\<lparr>ws_forceRestacking := False, ws_stacking := F\<rparr>"
  define s2 where "s2 = ws_emit StackingOrderChanged ((propagateClients b s1)\<lparr>ws_xStackingDirty := True\<rparr>)"
  define s3 where "s3 = (if ws_compositor s2 then ws_emit RepaintFull s2 else s2)"
  define t where "t = (if (ws_forceRestacking ?s0 \<or> F \<noteq> ws_stacking ?s0) \<or> b
     then (case ws_active s3 of None \<Rightarrow> s3 | Some a \<Rightarrow> ws_emit (UpdateMouseGrab a) s3) else s1)"
  have run: "updateStackingOrder b s = Returns t"
    using False unfolding updateStackingOrder_def t_def s3_def s2_def s1_def
    by (simp only: W(1) F(1) obind.simps Let_def if_False) simp
  have fields: "ws_frame t = ws_frame s" "ws_win t = W" "ws_stacking t = F"
    by (auto simp: t_def s3_def s2_def s1_def split: option.splits)
  show thesis by (rule that [OF run]) (use False F(2) W(2) fields in simp_all)
qed

section \<open>What every stacking operation promises\<close>

text \<open>
  The contract of a restacking: the requested order is permuted, the windows stay what they are,
  the depth of blocking is the same; the shown order does not change while updates are blocked and
  is a permutation of the windows otherwise.
\<close>

definition restacked :: "workspace \<Rightarrow> workspace \<Rightarrow> bool" where
  "restacked s t \<longleftrightarrow>
     mset (ws_unconstrained t) = mset (ws_unconstrained s) \<and> same_windows (ws_win s) (ws_win t) \<and>
     ws_members t = ws_members s \<and> ws_screenCount t = ws_screenCount s \<and> ws_same t = ws_same s \<and>
     ws_block t = ws_block s \<and>
     (if ws_block s > 0 then ws_stacking t = ws_stacking s
      else mset (ws_stacking t) = mset (ws_unconstrained t))"

lemma ws_ok_cong:
  assumes "ws_ok rk N s" and "mset (ws_unconstrained t) = mset (ws_unconstrained s)"
    and "same_windows (ws_win s) (ws_win t)" and "ws_members t = ws_members s"
    and "ws_screenCount t = ws_screenCount s" and "0 \<le> ws_block t"
  shows "ws_ok rk N t"
proof -
  have set: "set (ws_unconstrained t) = set (ws_unconstrained s)" using assms(2) mset_eq_setD by blast
  have "distinct (ws_unconstrained t)"
    using assms(1,2) mset_eq_imp_distinct_iff unfolding ws_ok_def by blast
  then show ?thesis
    using assms(1,6) unfolding ws_ok_def assms(4,5) windows_ok_same [OF assms(3)] windows_ok_perm [OF set]
    by simp
qed

lemma restacked_ok: "ws_ok rk N s \<Longrightarrow> restacked s t \<Longrightarrow> ws_ok rk N t"
  by (rule ws_ok_cong) (auto simp: restacked_def ws_ok_def)

lemma restacked_trans:
  "restacked s t \<Longrightarrow> restacked t u \<Longrightarrow> ws_block s > 0 \<Longrightarrow> restacked s u"
  using same_windows_trans by (auto simp: restacked_def)

lemma restacked_blocked:
  "ws_block s > 0 \<Longrightarrow> mset us = mset (ws_unconstrained s) \<Longrightarrow> restacked s (s\<lparr>ws_unconstrained := us\<rparr>)"
  by (simp add: restacked_def)

lemma restacked_same: "ws_block s > 0 \<Longrightarrow> restacked s s"
  by (simp add: restacked_def)

lemma restacked_cong:
  "restacked s t \<Longrightarrow> ws_unconstrained t' = ws_unconstrained t \<Longrightarrow> ws_win t' = ws_win t \<Longrightarrow>
   ws_members t' = ws_members t \<Longrightarrow> ws_screenCount t' = ws_screenCount t \<Longrightarrow> ws_same t' = ws_same t \<Longrightarrow>
   ws_block t' = ws_block t \<Longrightarrow> ws_stacking t' = ws_stacking t \<Longrightarrow> restacked s t'"
  by (simp add: restacked_def)

definition blocked :: "workspace \<Rightarrow> workspace" where
  "blocked s = (if ws_block s = 0 then s\<lparr>ws_blockedNew := False\<rparr> else s)\<lparr>ws_block := ws_block s + 1\<rparr>"

lemma blocked_fields [simp]:
  "ws_unconstrained (blocked s) = ws_unconstrained s" "ws_win (blocked s) = ws_win s"
  "ws_members (blocked s) = ws_members s" "ws_screenCount (blocked s) = ws_screenCount s"
  "ws_same (blocked s) = ws_same s" "ws_stacking (blocked s) = ws_stacking s"
  "ws_mostRecentlyRaised (blocked s) = ws_mostRecentlyRaised s" "ws_block (blocked s) = ws_block s + 1"
  by (simp_all add: blocked_def)

lemma with_blocker_restacked:
  assumes ok: "ws_ok rk N s" and body: "body (blocked s) = Returns u" "restacked (blocked s) u"
  obtains t where "with_blocker body s = Returns t" "restacked s t"
    "ws_unconstrained t = ws_unconstrained u" "ws_mostRecentlyRaised t = ws_mostRecentlyRaised u"
proof -
  have blk: "0 \<le> ws_block s" using ok by (simp add: ws_ok_def)
  let ?u = "u\<lparr>ws_block := ws_block u - 1\<rparr>"
  have u: "ws_block ?u = ws_block s" "mset (ws_unconstrained ?u) = mset (ws_unconstrained s)"
      "same_windows (ws_win s) (ws_win ?u)" "ws_members ?u = ws_members s" "ws_stacking ?u = ws_stacking s"
      "ws_screenCount ?u = ws_screenCount s" "ws_same ?u = ws_same s"
    using body(2) blk by (simp_all add: restacked_def)
  have run: "with_blocker body s = blockStackingUpdates False u"
    using body(1) by (simp add: with_blocker_def blockStackingUpdates_def blocked_def)
  show thesis
  proof (cases "ws_block s = 0")
    case False
    then have "with_blocker body s = Returns ?u" using u(1) run by (simp add: blockStackingUpdates_def)
    then show thesis using that [of ?u] u False blk by (simp add: restacked_def)
  next
    case True
    have okU: "ws_ok rk N ?u" by (rule ws_ok_cong [OF ok]) (use u blk in simp_all)
    obtain t where t: "updateStackingOrder (ws_blockedNew ?u) ?u = Returns t" "ws_frame t = ws_frame ?u"
        "same_windows (ws_win ?u) (ws_win t)" "mset (ws_stacking t) = mset (ws_unconstrained ?u)"
      using updateStackingOrder_returns [OF okU, of "ws_blockedNew ?u"] True u(1) by (metis less_irrefl)
    define t' where "t' = (if ws_effects t then ws_emit CheckInputWindowStacking t else t)"
    have t': "ws_frame t' = ws_frame ?u" "ws_win t' = ws_win t" "ws_stacking t' = ws_stacking t"
      using t(2) by (simp_all add: t'_def)
    have "with_blocker body s = Returns t'"
      using run t(1) u(1) True by (simp add: blockStackingUpdates_def t'_def)
    moreover have "restacked s t'"
      using t u t' ws_frameD [OF t'(1)] True same_windows_trans [OF u(3) t(3)]
      by (simp add: restacked_def)
    ultimately show thesis using that [of t'] ws_frameD [OF t'(1)] by simp
  qed
qed

section \<open>The operations keep the contract\<close>

lemma mset_removeAll_add: "distinct xs \<Longrightarrow> w \<in> set xs \<Longrightarrow> add_mset w (mset (removeAll w xs)) = mset xs"
  by (simp add: distinct_remove1_removeAll [symmetric])

lemma lower_within_mset: "mset (lower_within same w rest) = add_mset w (mset rest)"
proof -
  have "mset (takeWhile P rest) + mset (dropWhile P rest) = mset rest" for P
    by (metis mset_append takeWhile_dropWhile_id)
  then show ?thesis by (simp add: lower_within_def)
qed

lemma raise_within_mset:
  "distinct order \<Longrightarrow> w \<in> set order \<Longrightarrow> mset (raise_within same w order xs) = mset order"
  by (induction xs) (auto simp: Let_def mset_removeAll_add split: option.splits)

lemma session_insert_mset: "mset (session_insert W c xs) = add_mset c (mset xs)"
  by (induction xs) auto

lemma insert_under_mset: "distinct order \<Longrightarrow> w \<in> set order \<Longrightarrow> mset (insert_under w r order) = mset order"
  by (auto simp: insert_under_def Let_def mset_removeAll_add split: option.splits)

lemma ws_ok_emit [simp]: "ws_ok rk N (ws_emit e s) = ws_ok rk N s"
  by (simp add: ws_ok_def)

lemma ws_ok_blocked [simp]: "ws_ok rk N s \<Longrightarrow> ws_ok rk N (blocked s)"
  by (simp add: ws_ok_def)

lemma ws_ok_distinct: "ws_ok rk N s \<Longrightarrow> distinct (ws_unconstrained s)"
  by (simp add: ws_ok_def)

lemma ws_ok_control: "ws_ok rk N s \<Longrightarrow> w \<in> set (ws_unconstrained s) \<Longrightarrow> w_control (ws_win s w)"
  by (simp add: ws_ok_def windows_ok_def)

lemma restacked_emit: "restacked (ws_emit e s) t = restacked s t"
  by (simp add: restacked_def)

lemma restacked_set: "restacked s t \<Longrightarrow> set (ws_unconstrained t) = set (ws_unconstrained s)"
  unfolding restacked_def using mset_eq_setD by blast

lemma do_raise_restacked:
  assumes "ws_ok rk N s" and "w \<in> set (ws_unconstrained s)" and "ws_block s > 0"
  shows "restacked s (do_raise w s)"
  using assms mset_removeAll_add [OF ws_ok_distinct [OF assms(1)] assms(2)]
  by (simp add: do_raise_def restacked_def Let_def)

lemma do_lower_restacked:
  assumes "ws_ok rk N s" and "w \<in> set (ws_unconstrained s)" and "ws_block s > 0"
  shows "restacked s (do_lower w s)"
  using assms mset_removeAll_add [OF ws_ok_distinct [OF assms(1)] assms(2)]
  by (simp add: do_lower_def cancel_auto_raise_def restacked_def Let_def)

lemma raise_leads_restacked:
  "ws_ok rk N s \<Longrightarrow> set ls \<subseteq> set (ws_unconstrained s) \<Longrightarrow> ws_block s > 0 \<Longrightarrow>
   \<exists>t. raise_leads ls s = Returns t \<and> restacked s t"
proof (induction ls arbitrary: s)
  case Nil
  then show ?case by (simp add: restacked_same)
next
  case (Cons l ls)
  let ?s = "cancel_auto_raise l s"
  have s: "ws_ok rk N ?s" "l \<in> set (ws_unconstrained ?s)" using Cons.prems by (simp_all add: cancel_auto_raise_def)
  have "restacked (blocked ?s) (do_raise l (blocked ?s))"
    by (rule do_raise_restacked [of rk N]) (use s Cons.prems(3) in \<open>simp_all add: cancel_auto_raise_def\<close>)
  then obtain u where u: "with_blocker (\<lambda>t. Returns (do_raise l t)) ?s = Returns u" "restacked ?s u"
    using with_blocker_restacked [OF s(1), of "\<lambda>t. Returns (do_raise l t)"] by metis
  then have su: "restacked s u" by (simp add: cancel_auto_raise_def restacked_emit)
  then obtain t where t: "raise_leads ls u = Returns t" "restacked u t"
    using Cons.IH [of u] restacked_ok [OF Cons.prems(1) su] restacked_set [OF su] Cons.prems(2,3)
    by (auto simp: restacked_def)
  have "w_control (ws_win s l)" using ws_ok_control Cons.prems by fastforce
  with u(1) t restacked_trans [OF su t(2) Cons.prems(3)] show ?case by simp
qed

lemma lower_group_restacked:
  "ws_ok rk N s \<Longrightarrow> set gs \<subseteq> set (ws_unconstrained s) \<Longrightarrow> ws_block s > 0 \<Longrightarrow>
   \<exists>t. lower_group w gs s = Returns t \<and> restacked s t"
proof (induction gs arbitrary: s)
  case Nil
  then show ?case by (simp add: restacked_same)
next
  case (Cons g gs)
  show ?case
  proof (cases "g = w")
    case True
    with Cons show ?thesis by simp
  next
    case False
    have "restacked (blocked s) (do_lower g (blocked s))"
      by (rule do_lower_restacked [of rk N]) (use Cons.prems in simp_all)
    then obtain u where u: "with_blocker (\<lambda>t. Returns (do_lower g t)) s = Returns u" "restacked s u"
      using with_blocker_restacked [OF Cons.prems(1), of "\<lambda>t. Returns (do_lower g t)"] by metis
    let ?u = "lower_cleanup g u"
    have su: "restacked s ?u"
      by (rule restacked_cong [OF u(2)]) (simp_all add: lower_cleanup_def)
    then obtain t where t: "lower_group w gs ?u = Returns t" "restacked ?u t"
      using Cons.IH [of ?u] restacked_ok [OF Cons.prems(1) su] restacked_set [OF su] Cons.prems(2,3)
      by (auto simp: restacked_def)
    have "w_control (ws_win s g)" using ws_ok_control Cons.prems by fastforce
    with False u(1) t restacked_trans [OF su t(2) Cons.prems(3)] show ?thesis by simp
  qed
qed

lemma collect_leads_returns:
  assumes ok: "windows_ok rk N n mem W ws"
  shows "set_option lead \<subseteq> set ws \<Longrightarrow> set leads \<subseteq> set ws \<Longrightarrow> distinct leads \<Longrightarrow>
    \<exists>ls. collect_leads W lead leads = Some ls \<and> set ls \<subseteq> set ws \<and> distinct ls"
proof (induction "case lead of None \<Rightarrow> 0 | Some l \<Rightarrow> Suc (rk l)" arbitrary: lead leads rule: less_induct)
  case less
  show ?case
  proof (cases lead)
    case None
    with less.prems show ?thesis by (subst collect_leads.simps) simp
  next
    case (Some l)
    let ?ls = "if l \<in> set leads then leads else leads @ [l]"
    have up: "set_option (transient_lead (W l)) \<subseteq> set ws"
      using ok less.prems Some by (auto simp: windows_ok_def dest!: transient_lead_mem)
    have "(case transient_lead (W l) of None \<Rightarrow> 0 | Some l \<Rightarrow> Suc (rk l)) < (case lead of None \<Rightarrow> 0 | Some l \<Rightarrow> Suc (rk l))"
      using ok Some by (auto simp: windows_ok_def leads_ranked_def dest!: transient_lead_mem split: option.splits)
    from less.hyps [OF this up, of ?ls] less.prems Some show ?thesis by (subst collect_leads.simps) auto
  qed
qed

lemma collect_all_leads_returns:
  assumes ok: "windows_ok rk N n mem W ws"
  shows "set xs \<subseteq> set ws \<Longrightarrow> set leads \<subseteq> set ws \<Longrightarrow> distinct leads \<Longrightarrow>
    \<exists>ls. collect_all_leads W xs leads = Some ls \<and> set ls \<subseteq> set ws \<and> distinct ls"
proof (induction xs arbitrary: leads)
  case (Cons x xs)
  then obtain ls where "collect_leads W (Some x) leads = Some ls" "set ls \<subseteq> set ws" "distinct ls"
    using collect_leads_returns [OF ok, of "Some x" leads] by auto
  with Cons show ?case by simp
qed simp

lemma raise_window_restacked:
  assumes ok: "ws_ok rk N s" and w: "w \<in> set (ws_unconstrained s)"
  shows "\<exists>t. raise_window (Some w) s = Returns t \<and> restacked s t \<and>
    (\<exists>front. ws_unconstrained t = front @ [w]) \<and>
    (\<not> is_special_window (ws_win s w) \<longrightarrow> ws_mostRecentlyRaised t = Some w)"
proof -
  let ?s = "cancel_auto_raise w s" and ?W = "ws_win s"
  let ?b = "blocked (cancel_auto_raise w s)"
  have s: "ws_ok rk N ?s" "ws_ok rk N ?b" "ws_win ?b = ?W" "ws_unconstrained ?b = ws_unconstrained s" "ws_block ?b > 0"
    using ok by (simp_all add: cancel_auto_raise_def) (simp add: ws_ok_def)
  have wok: "windows_ok rk N (ws_screenCount s) (ws_members s) ?W (ws_unconstrained s)" using ok by (simp add: ws_ok_def)
  have sub: "set (w_leads (?W w)) \<subseteq> set (ws_unconstrained s)" using wok w by (simp add: windows_ok_def)
  then obtain leads where leads: "collect_all_leads ?W (w_leads (?W w)) [] = Some leads"
      "set leads \<subseteq> set (ws_unconstrained s)" "distinct leads"
    using collect_all_leads_returns [OF wok sub, of "[]"] by auto
  define pre where "pre = (if is_transient (?W w) then raise_leads (ensureStackingOrder (ws_stacking ?b) leads) ?b else Returns ?b)"
  have "\<exists>t. raise_leads (ensureStackingOrder (ws_stacking ?b) leads) ?b = Returns t \<and> restacked ?b t"
    by (rule raise_leads_restacked [OF s(2) _ s(5)]) (use leads(2,3) s(4) ensureStackingOrder_set in simp)
  then obtain u where u: "pre = Returns u" "restacked ?b u"
    using restacked_same [OF s(5)] unfolding pre_def by (cases "is_transient (?W w)") auto
  have uw: "w \<in> set (ws_unconstrained u)" "ws_block u > 0"
    using restacked_set [OF u(2)] u(2) s w by (auto simp: restacked_def)
  have uok: "ws_ok rk N u" by (rule restacked_ok [OF s(2) u(2)])
  have "restacked ?b (do_raise w u)"
    by (rule restacked_trans [OF u(2) do_raise_restacked [OF uok uw] s(5)])
  moreover define body where "body = (\<lambda>s1. obind (if is_transient (ws_win s1 w)
      then (case collect_all_leads (ws_win s1) (w_leads (ws_win s1 w)) [] of None \<Rightarrow> Diverges
            | Some leads \<Rightarrow> raise_leads (ensureStackingOrder (ws_stacking s1) leads) s1)
      else Returns s1) (\<lambda>s2. Returns (do_raise w s2)))"
  have "body ?b = Returns (do_raise w u)"
    using u(1) leads(1) s(3) by (simp add: body_def pre_def split: if_splits)
  ultimately obtain t where t: "with_blocker body ?s = Returns t" "restacked ?s t"
      "ws_unconstrained t = ws_unconstrained (do_raise w u)" "ws_mostRecentlyRaised t = ws_mostRecentlyRaised (do_raise w u)"
    using with_blocker_restacked [OF s(1)] by metis
  have "raise_window (Some w) s = Returns t"
    using t(1) ws_ok_control [OF ok w] by (simp add: raise_window_def body_def)
  moreover have "w_type (ws_win u w) = w_type (?W w)"
  proof -
    have "same_windows ?W (ws_win u)" using u(2) s(3) by (simp add: restacked_def)
    then have "(ws_win u w)\<lparr>w_layer := LUnknown\<rparr> = (?W w)\<lparr>w_layer := LUnknown\<rparr>" by (simp add: same_windows_def)
    from arg_cong [OF this, of w_type] show ?thesis by simp
  qed
  then have "is_special_window (ws_win u w) = is_special_window (?W w)" by (simp add: is_special_window_def net_defs)
  ultimately show ?thesis
    using t by (auto simp: do_raise_def cancel_auto_raise_def restacked_emit Let_def)
qed

lemma lower_window_restacked:
  assumes ok: "ws_ok rk N s" and w: "w \<in> set (ws_unconstrained s)"
  shows "\<exists>t. lower_window w s = Returns t \<and> restacked s t \<and> ws_mostRecentlyRaised t \<noteq> Some w \<and>
    (\<not> is_transient (ws_win s w) \<or> w_group (ws_win s w) = None \<longrightarrow>
       ws_unconstrained t = w # removeAll w (ws_unconstrained s))"
proof -
  let ?b = "blocked s"
  have b: "ws_ok rk N ?b" "w \<in> set (ws_unconstrained ?b)" "ws_block ?b > 0"
    using ok w by (simp_all) (simp add: ws_ok_def)
  have low: "restacked ?b (do_lower w ?b)" by (rule do_lower_restacked [OF b])
  have lok: "ws_ok rk N (do_lower w ?b)" "ws_block (do_lower w ?b) > 0" "ws_win (do_lower w ?b) = ws_win s"
    using restacked_ok [OF b(1) low] b(3) by (simp_all add: do_lower_def cancel_auto_raise_def Let_def)
  define grp where "grp = (\<lambda>s2. case w_group (ws_win s2 w) of
      Some g \<Rightarrow> if is_transient (ws_win s2 w)
        then lower_group w (rev (ensureStackingOrder (ws_stacking s2) (ws_members s2 g))) s2 else Returns s2
    | None \<Rightarrow> Returns s2)"
  have mem: "set (ws_members (do_lower w ?b) g) \<subseteq> set (ws_unconstrained (do_lower w ?b))" "distinct (ws_members (do_lower w ?b) g)" for g
    using lok(1) by (simp_all add: ws_ok_def windows_ok_def)
  have grpr: "\<exists>t. lower_group w (rev (ensureStackingOrder st (ws_members (do_lower w ?b) g))) (do_lower w ?b) = Returns t \<and>
      restacked (do_lower w ?b) t" for g st
    by (rule lower_group_restacked [OF lok(1) _ lok(2)]) (use mem [of g] ensureStackingOrder_set in simp)
  obtain u where u: "grp (do_lower w ?b) = Returns u" "restacked (do_lower w ?b) u"
      "\<not> is_transient (ws_win s w) \<or> w_group (ws_win s w) = None \<Longrightarrow> u = do_lower w ?b"
  proof (cases "is_transient (ws_win s w) \<and> w_group (ws_win s w) \<noteq> None")
    case True
    then obtain g where g: "w_group (ws_win s w) = Some g" "is_transient (ws_win s w)" by auto
    with grpr [of "ws_stacking (do_lower w ?b)" g] lok(3) show thesis by (auto simp: grp_def intro: that)
  next
    case False
    then have "grp (do_lower w ?b) = Returns (do_lower w ?b)" by (auto simp: grp_def lok(3) split: option.splits)
    then show thesis using restacked_same [OF lok(2)] by (rule that) simp
  qed
  let ?u = "lower_cleanup w u"
  have "restacked ?b ?u"
    by (rule restacked_cong [OF restacked_trans [OF low u(2) b(3)]]) (simp_all add: lower_cleanup_def)
  moreover define body where "body = (\<lambda>s1. let s2 = do_lower w s1 in obind (grp s2) (\<lambda>s3. Returns (lower_cleanup w s3)))"
  have "body ?b = Returns ?u" using u(1) by (simp add: body_def)
  ultimately obtain t where t: "with_blocker body s = Returns t" "restacked s t"
      "ws_unconstrained t = ws_unconstrained ?u" "ws_mostRecentlyRaised t = ws_mostRecentlyRaised ?u"
    using with_blocker_restacked [OF ok] by metis
  have "lower_window w s = Returns t"
    using t(1) ws_ok_control [OF ok w] unfolding lower_window_def body_def grp_def by simp
  moreover have "ws_mostRecentlyRaised t \<noteq> Some w" using t(4) by (simp add: lower_cleanup_def)
  moreover have "ws_unconstrained t = w # removeAll w (ws_unconstrained s)"
    if "\<not> is_transient (ws_win s w) \<or> w_group (ws_win s w) = None"
    using u(3) [OF that] t(3) by (simp add: lower_cleanup_def do_lower_def cancel_auto_raise_def Let_def)
  ultimately show ?thesis using t(2) by (intro exI [of _ t] conjI impI) simp_all
qed

text \<open>The operations that only rewrite the requested order under a blocker.\<close>

lemma rewrite_restacked:
  assumes ok: "ws_ok rk N s" and f: "mset (f (blocked s)) = mset (ws_unconstrained s)"
  shows "\<exists>t. with_blocker (\<lambda>t. Returns (t\<lparr>ws_unconstrained := f t\<rparr>)) s = Returns t \<and> restacked s t \<and>
    ws_unconstrained t = f (blocked s)"
proof -
  have "ws_block (blocked s) > 0" using ok by (simp add: ws_ok_def)
  then have "restacked (blocked s) ((blocked s)\<lparr>ws_unconstrained := f (blocked s)\<rparr>)"
    using f by (intro restacked_blocked) simp_all
  then obtain t where "with_blocker (\<lambda>t. Returns (t\<lparr>ws_unconstrained := f t\<rparr>)) s = Returns t" "restacked s t"
      "ws_unconstrained t = ws_unconstrained ((blocked s)\<lparr>ws_unconstrained := f (blocked s)\<rparr>)"
    by (rule with_blocker_restacked [OF ok, of "\<lambda>t. Returns (t\<lparr>ws_unconstrained := f t\<rparr>)", OF refl])
  then show ?thesis by (intro exI [of _ t]) simp
qed

lemma within_restacked:
  assumes ok: "ws_ok rk N s" and w: "w \<in> set (ws_unconstrained s)"
  shows "\<exists>t. raiseClientWithinApplication (Some w) s = Returns t \<and> restacked s t"
    and "\<exists>t. lowerClientWithinApplication (Some w) s = Returns t \<and> restacked s t"
    and "\<exists>t. restoreSessionStackingOrder w s = Returns t \<and> (w_sm_stacking_order (ws_win s w) < 0 \<and> t = s \<or> restacked s t)"
proof -
  let ?s = "cancel_auto_raise w s"
  have s: "ws_ok rk N ?s" using ok by (simp add: cancel_auto_raise_def)
  note m = mset_removeAll_add [OF ws_ok_distinct [OF ok] w]
  have "\<exists>t. with_blocker (\<lambda>t. Returns (t\<lparr>ws_unconstrained :=
      raise_within (ws_same t) w (ws_unconstrained t) (rev (ws_unconstrained t))\<rparr>)) ?s = Returns t \<and> restacked ?s t"
    using rewrite_restacked [OF s, of "\<lambda>t. raise_within (ws_same t) w (ws_unconstrained t) (rev (ws_unconstrained t))"]
      raise_within_mset [OF ws_ok_distinct [OF ok] w] by (auto simp: cancel_auto_raise_def)
  then show "\<exists>t. raiseClientWithinApplication (Some w) s = Returns t \<and> restacked s t"
    using ws_ok_control [OF ok w] by (simp add: raiseClientWithinApplication_def cancel_auto_raise_def restacked_emit)
  have "\<exists>t. with_blocker (\<lambda>t. Returns (t\<lparr>ws_unconstrained :=
      lower_within (ws_same t) w (removeAll w (ws_unconstrained t))\<rparr>)) ?s = Returns t \<and> restacked ?s t"
    using rewrite_restacked [OF s, of "\<lambda>t. lower_within (ws_same t) w (removeAll w (ws_unconstrained t))"] m
    by (auto simp: cancel_auto_raise_def lower_within_mset)
  then show "\<exists>t. lowerClientWithinApplication (Some w) s = Returns t \<and> restacked s t"
    using ws_ok_control [OF ok w] by (simp add: lowerClientWithinApplication_def cancel_auto_raise_def restacked_emit)
  have "\<exists>t. with_blocker (\<lambda>t. Returns (t\<lparr>ws_unconstrained :=
      session_insert (ws_win t) w (removeAll w (ws_unconstrained t))\<rparr>)) s = Returns t \<and> restacked s t"
    using rewrite_restacked [OF ok, of "\<lambda>t. session_insert (ws_win t) w (removeAll w (ws_unconstrained t))"] m
    by (auto simp: session_insert_mset)
  then show "\<exists>t. restoreSessionStackingOrder w s = Returns t \<and> (w_sm_stacking_order (ws_win s w) < 0 \<and> t = s \<or> restacked s t)"
    by (auto simp: restoreSessionStackingOrder_def)
qed

lemma restack_search_returns:
  "windows_ok rk N n mem (ws_win s) ws \<Longrightarrow> set others \<subseteq> set ws \<Longrightarrow> w \<in> set ws \<Longrightarrow>
   \<exists>r W'. restack_search w ref others s = Returns (r, s\<lparr>ws_win := W'\<rparr>) \<and> same_windows (ws_win s) W'"
proof (induction others arbitrary: s)
  case Nil
  then show ?case by (intro exI [of _ "Some ref"] exI [of _ "ws_win s"]) simp
next
  case (Cons x xs)
  have "w_control (ws_win s x)" using Cons.prems by (simp add: windows_ok_def)
  obtain l1 W1 where l1: "ws_layer x s = Returns (l1, s\<lparr>ws_win := W1\<rparr>)" "same_windows (ws_win s) W1"
    using ws_layer_returns [of rk N n mem s ws x] Cons.prems by auto
  have ok1: "windows_ok rk N n mem W1 ws" using Cons.prems(1) windows_ok_same [OF l1(2)] by simp
  obtain l2 W2 where l2: "ws_layer w (s\<lparr>ws_win := W1\<rparr>) = Returns (l2, s\<lparr>ws_win := W2\<rparr>)" "same_windows W1 W2"
    using ws_layer_returns [of rk N n mem "s\<lparr>ws_win := W1\<rparr>" ws w] ok1 Cons.prems by auto
  have ok2: "windows_ok rk N n mem W2 ws" using ok1 windows_ok_same [OF l2(2)] by simp
  obtain r W3 where r: "restack_search w ref xs (s\<lparr>ws_win := W2\<rparr>) = Returns (r, s\<lparr>ws_win := W3\<rparr>)" "same_windows W2 W3"
    using Cons.IH [of "s\<lparr>ws_win := W2\<rparr>"] ok2 Cons.prems by auto
  have W2: "same_windows (ws_win s) W2" by (rule same_windows_trans [OF l1(2) l2(2)])
  have W3: "same_windows (ws_win s) W3" by (rule same_windows_trans [OF W2 r(2)])
  have "restack_search w ref (x # xs) s =
      (if l1 = l2 \<and> ws_same s ref x then Returns (if w = x then None else Some x, s\<lparr>ws_win := W2\<rparr>)
       else Returns (r, s\<lparr>ws_win := W3\<rparr>))"
    using \<open>w_control _\<close> l1(1) l2(1) r(1) by simp
  then show ?case using W2 W3 by (cases "l1 = l2 \<and> ws_same s ref x") auto
qed

lemma restack_restacked:
  assumes ok: "ws_ok rk N s" and w: "w \<in> set (ws_unconstrained s)" "u \<in> set (ws_unconstrained s)"
  shows "\<exists>t. restack w u force s = Returns t \<and> restacked s t \<and>
    (force \<or> ws_same s u w \<longrightarrow> ws_unconstrained t = insert_under w u (ws_unconstrained s))"
proof -
  have wok: "windows_ok rk N (ws_screenCount s) (ws_members s) (ws_win s) (ws_unconstrained s)" using ok by (simp add: ws_ok_def)
  define srch where "srch = (if \<not> force \<and> \<not> ws_same s u w then restack_search w u (ws_unconstrained s) s else Returns (Some u, s))"
  have "\<exists>r W'. srch = Returns (r, s\<lparr>ws_win := W'\<rparr>) \<and> same_windows (ws_win s) W' \<and>
      (force \<or> ws_same s u w \<longrightarrow> r = Some u)"
  proof (cases "\<not> force \<and> \<not> ws_same s u w")
    case True
    then show ?thesis using restack_search_returns [OF wok subset_refl w(1), of u] by (auto simp: srch_def)
  next
    case False
    then have "srch = Returns (Some u, s\<lparr>ws_win := ws_win s\<rparr>)" by (auto simp: srch_def)
    then show ?thesis by (intro exI [of _ "Some u"] exI [of _ "ws_win s"]) simp
  qed
  then obtain r W' where r: "srch = Returns (r, s\<lparr>ws_win := W'\<rparr>)" "same_windows (ws_win s) W'"
      "force \<or> ws_same s u w \<Longrightarrow> r = Some u" by auto
  define s2 where "s2 = (case r of Some x \<Rightarrow> s\<lparr>ws_win := W', ws_unconstrained := insert_under w x (ws_unconstrained s)\<rparr>
      | None \<Rightarrow> s\<lparr>ws_win := W'\<rparr>)"
  define s3 where "s3 = s2\<lparr>ws_focus := fc_moveAfterClient (ws_same s2) (ws_desk s2) (ws_win s2) w r (ws_focus s2)\<rparr>"
  have f: "mset (ws_unconstrained s3) = mset (ws_unconstrained s)" "ws_win s3 = W'" "ws_members s3 = ws_members s"
      "ws_screenCount s3 = ws_screenCount s" "ws_block s3 = ws_block s" "ws_same s3 = ws_same s" "ws_stacking s3 = ws_stacking s"
    using insert_under_mset [OF ws_ok_distinct [OF ok] w(1)] by (auto simp: s3_def s2_def split: option.splits)
  have "ws_ok rk N s3" by (rule ws_ok_cong [OF ok]) (use f r(2) ok in \<open>simp_all add: ws_ok_def\<close>)
  then obtain t where t: "updateStackingOrder False s3 = Returns t" "ws_frame t = ws_frame s3" "same_windows (ws_win s3) (ws_win t)"
      "if ws_block s3 > 0 then ws_stacking t = ws_stacking s3 else mset (ws_stacking t) = mset (ws_unconstrained s3)"
    by (rule updateStackingOrder_returns)
  have "w \<in> set (ws_unconstrained s2)" using f(1) w(1) mset_eq_setD by (fastforce simp: s3_def)
  then have "restack w u force s = Returns t"
    using t(1) w(2) r(1) unfolding restack_def srch_def [symmetric]
    by (simp add: Let_def s2_def s3_def split: option.splits)
  moreover have "restacked s t"
    using t f r(2) ws_frameD [OF t(2)] same_windows_trans [of "ws_win s" W' "ws_win t"] by (simp add: restacked_def)
  moreover have "ws_unconstrained t = insert_under w u (ws_unconstrained s)" if "force \<or> ws_same s u w"
    using ws_frameD(1) [OF t(2)] r(3) [OF that] by (simp add: s3_def s2_def)
  ultimately show ?thesis by (intro exI [of _ t] conjI impI) simp_all
qed

end
