(* ===== verification/Workspace_Properties.thy ===== *)
theory Workspace_Properties
  imports Stacking_Properties
begin

text \<open>
  The properties of the stacking order and of the focus stealing prevention, with a concrete
  workspace of three windows on which they are instantiated.
\<close>

section \<open>A concrete workspace\<close>

text \<open>Window 1 is a dialog of window 0, window 2 stands alone.\<close>

definition demo_store :: wstore where
  "demo_store = (\<lambda>_. demo_window)(0 := demo_window\<lparr>w_children := [1]\<rparr>,
     1 := demo_window\<lparr>w_type := NET_Dialog, w_leads := [0]\<rparr>)"

definition demo_ws :: workspace where
  "demo_ws = \<lparr>ws_win = demo_store, ws_desk = demo_desks, ws_same = (=), ws_sameRelaxed = (=),
     ws_allClients = [0, 1, 2], ws_unconstrained = [1, 0, 2], ws_stacking = [0, 1, 2],
     ws_xStacking = [], ws_xStackingDirty = False, ws_block = 0, ws_blockedNew = False,
     ws_forceRestacking = False, ws_mostRecentlyRaised = None, ws_active = None, ws_lastActive = None,
     ws_shouldGetFocus = [], ws_attention = [], ws_showingDesktop = False, ws_members = (\<lambda>_. []),
     ws_focus = fc_init, ws_screenCount = 1, ws_separateScreenFocus = False, ws_fspLevel = 2,
     ws_savingSession = False, ws_rootInfo = False, ws_supportWindow = 0, ws_edgeWindows = [],
     ws_manualOverlays = [], ws_compositor = True, ws_effects = False, ws_log = []\<rparr>"

lemma demo_store_simps [simp]:
  "w_leads (demo_store a) = (if a = 1 then [0] else [])"
  "w_children (demo_store a) = (if a = 0 then [1] else [])"
  "w_control (demo_store a)" "w_screen (demo_store a) = 0" "w_remnant (demo_store a) = None"
  "w_annexed (demo_store a) = False"
  by (auto simp: demo_store_def demo_window_def)


definition demo_rank :: "addr \<Rightarrow> nat" where
  "demo_rank a = (if a = 1 then 1 else 0)"

lemma demo_ws_ok: "ws_ok demo_rank 2 demo_ws"
  by (auto simp: ws_ok_def windows_ok_def demo_ws_def transients_ok_def leads_ranked_def demo_rank_def)

lemma demo_stackable: "stackable (ws_win demo_ws) lay demo_rank 2 (ws_unconstrained demo_ws)"
  using demo_ws_ok windows_ok_stackable unfolding ws_ok_def by blast

lemma demo_screens:
  "\<forall>w \<in> set (ws_unconstrained demo_ws). 0 \<le> w_screen (ws_win demo_ws w) \<and>
     w_screen (ws_win demo_ws w) < max (ws_screenCount demo_ws) 1"
  by (simp add: demo_ws_def)

theorem constrained_order_keeps_transients_above_witness:
  "\<exists>st. constrainedStackingOrder (\<lambda>_. LNormal) demo_ws = Returns st \<and> mset st = mset [1, 0, 2] \<and>
     (\<exists>ys zs us. st = ys @ 0 # zs @ 1 # us)"
proof -
  have "child_restack (ws_win demo_ws) (\<lambda>_. LNormal) 0 1"
    by (simp add: child_restack_def keepTransientAbove_def net_defs demo_ws_def demo_store_def demo_window_def)
  moreover obtain st where "constrainedStackingOrder (\<lambda>_. LNormal) demo_ws = Returns st"
    "mset st = mset (ws_unconstrained demo_ws)"
    "\<forall>x \<in> set (ws_unconstrained demo_ws). \<forall>l \<in> set (w_leads (ws_win demo_ws x)).
       child_restack (ws_win demo_ws) (\<lambda>_. LNormal) l x \<longrightarrow>
       (\<exists>ys zs us. st = ys @ l # zs @ x # us \<and> (\<forall>z \<in> set zs. (l, z) \<in> (lead_rel (ws_win demo_ws))\<^sup>+))"
    using constrained_order_keeps_transients_above [OF demo_stackable demo_screens, of "\<lambda>_. LNormal"] by auto
  moreover have "1 \<in> set (ws_unconstrained demo_ws)" "0 \<in> set (w_leads (ws_win demo_ws 1))"
      "ws_unconstrained demo_ws = [1, 0, 2]" by (simp_all add: demo_ws_def)
  ultimately show ?thesis by metis
qed

theorem constrained_order_respects_layers_witness:
  "\<exists>st (L :: addr \<Rightarrow> layer). constrainedStackingOrder (\<lambda>_. LNormal) demo_ws = Returns st \<and>
     sorted (map L (filter (stack_root (ws_win demo_ws) (\<lambda>_. LNormal)) st))"
proof -
  have "\<exists>st L. constrainedStackingOrder (\<lambda>_. LNormal) demo_ws = Returns st \<and>
    (\<forall>w \<in> set (ws_unconstrained demo_ws). L w = LNormal \<or> L w = LActive \<and> LBelow < LNormal) \<and>
    sorted (map L (filter (stack_root (ws_win demo_ws) (\<lambda>_. LNormal)) st)) \<and>
    (\<forall>l. filter (\<lambda>w. L w = l) (filter (stack_root (ws_win demo_ws) (\<lambda>_. LNormal)) st) =
       filter (\<lambda>w. L w = l) (filter (stack_root (ws_win demo_ws) (\<lambda>_. LNormal)) (ws_unconstrained demo_ws)))"
    by (rule constrained_order_respects_layers [OF demo_stackable demo_screens]) simp
  then obtain st and L :: "addr \<Rightarrow> layer" where "constrainedStackingOrder (\<lambda>_. LNormal) demo_ws = Returns st"
      "sorted (map L (filter (stack_root (ws_win demo_ws) (\<lambda>_. LNormal)) st))"
    by (elim exE conjE) (rule that)
  then show ?thesis by blast
qed

section \<open>Stacking requests\<close>

datatype stack_request =
    SRaise addr | SLower addr | SRaiseOrLower addr | SRaiseWithin addr | SLowerWithin addr
  | SRestack addr addr bool | SRestoreSession addr

fun stack_exec :: "stack_request \<Rightarrow> workspace \<Rightarrow> workspace outcome" where
  "stack_exec (SRaise w) s = raise_window (Some w) s"
| "stack_exec (SLower w) s = lower_window w s"
| "stack_exec (SRaiseOrLower w) s = raiseOrLowerClient (Some w) s"
| "stack_exec (SRaiseWithin w) s = raiseClientWithinApplication (Some w) s"
| "stack_exec (SLowerWithin w) s = lowerClientWithinApplication (Some w) s"
| "stack_exec (SRestack w u force) s = restack w u force s"
| "stack_exec (SRestoreSession w) s = restoreSessionStackingOrder w s"

fun request_windows :: "stack_request \<Rightarrow> addr set" where
  "request_windows (SRaise w) = {w}"
| "request_windows (SLower w) = {w}"
| "request_windows (SRaiseOrLower w) = {w}"
| "request_windows (SRaiseWithin w) = {w}"
| "request_windows (SLowerWithin w) = {w}"
| "request_windows (SRestack w u force) = {w, u}"
| "request_windows (SRestoreSession w) = {w}"

fun stack_run :: "stack_request list \<Rightarrow> workspace \<Rightarrow> workspace outcome" where
  "stack_run [] s = Returns s"
| "stack_run (r # rs) s = obind (stack_exec r s) (stack_run rs)"

lemma stack_exec_returns:
  assumes "ws_ok rk N s" and "request_windows r \<subseteq> set (ws_unconstrained s)"
  shows "\<exists>t. stack_exec r s = Returns t \<and> (t = s \<or> restacked s t)"
proof (cases r)
  case (SRaiseOrLower w)
  then have "w \<in> set (ws_unconstrained s)" using assms(2) by simp
  moreover have "raiseOrLowerClient (Some w) s = lower_window w s \<or> raiseOrLowerClient (Some w) s = raise_window (Some w) s"
    by (simp add: raiseOrLowerClient_def Let_def)
  ultimately show ?thesis
    using SRaiseOrLower lower_window_restacked [OF assms(1)] raise_window_restacked [OF assms(1)] by (metis stack_exec.simps(3))
next
  case (SRestoreSession w)
  with within_restacked(3) [OF assms(1), of w] assms(2) show ?thesis by auto
next
  case (SRaise w)
  with raise_window_restacked [OF assms(1), of w] assms(2) show ?thesis by auto
next
  case (SLower w)
  with lower_window_restacked [OF assms(1), of w] assms(2) show ?thesis by auto
next
  case (SRaiseWithin w)
  with within_restacked(1) [OF assms(1), of w] assms(2) show ?thesis by auto
next
  case (SLowerWithin w)
  with within_restacked(2) [OF assms(1), of w] assms(2) show ?thesis by auto
next
  case (SRestack w u force)
  with restack_restacked [OF assms(1), of w u force] assms(2) show ?thesis by auto
qed

lemma stack_run_returns:
  "ws_ok rk N s \<Longrightarrow> \<forall>r \<in> set rs. request_windows r \<subseteq> set (ws_unconstrained s) \<Longrightarrow>
   \<exists>t. stack_run rs s = Returns t \<and> ws_ok rk N t \<and> mset (ws_unconstrained t) = mset (ws_unconstrained s) \<and>
     ws_block t = ws_block s \<and> (ws_block s > 0 \<longrightarrow> ws_stacking t = ws_stacking s) \<and>
     (ws_block s = 0 \<longrightarrow> mset (ws_stacking s) = mset (ws_unconstrained s) \<longrightarrow> mset (ws_stacking t) = mset (ws_unconstrained t))"
proof (induction rs arbitrary: s)
  case Nil
  then show ?case by simp
next
  case (Cons r rs)
  obtain u where u: "stack_exec r s = Returns u" "u = s \<or> restacked s u"
    using stack_exec_returns [OF Cons.prems(1), of r] Cons.prems(2) by auto
  have ok: "ws_ok rk N u" using u(2) Cons.prems(1) restacked_ok by blast
  have m: "mset (ws_unconstrained u) = mset (ws_unconstrained s)" "ws_block u = ws_block s"
      "ws_block s > 0 \<Longrightarrow> ws_stacking u = ws_stacking s"
      "ws_block s = 0 \<Longrightarrow> mset (ws_stacking s) = mset (ws_unconstrained s) \<Longrightarrow> mset (ws_stacking u) = mset (ws_unconstrained u)"
    using u(2) by (auto simp: restacked_def)
  then have "\<forall>r \<in> set rs. request_windows r \<subseteq> set (ws_unconstrained u)"
    using Cons.prems(2) mset_eq_setD [OF m(1)] by auto
  from Cons.IH [OF ok this] u(1) m show ?case by auto
qed

text \<open>
  C6. Whatever sequence of raise, lower, restack and session requests is made for stacked
  windows, on a well-formed workspace all of them return: no window is lost or duplicated in the
  requested order, the workspace stays well formed, the shown order is frozen while updates are
  blocked and otherwise remains a permutation of the windows.
\<close>

theorem stacking_requests_permute:
  assumes "ws_ok rk N s" and "\<forall>r \<in> set rs. request_windows r \<subseteq> set (ws_unconstrained s)"
    and "mset (ws_stacking s) = mset (ws_unconstrained s)"
  shows "\<exists>t. stack_run rs s = Returns t \<and> ws_ok rk N t \<and> mset (ws_unconstrained t) = mset (ws_unconstrained s) \<and>
    ws_block t = ws_block s \<and> (ws_block s > 0 \<longrightarrow> ws_stacking t = ws_stacking s) \<and>
    mset (ws_stacking t) = mset (ws_unconstrained t)"
proof -
  have "ws_block s = 0 \<or> ws_block s > 0" using assms(1) by (auto simp: ws_ok_def)
  with stack_run_returns [OF assms(1,2)] assms(3) show ?thesis by auto
qed

theorem stacking_requests_permute_witness:
  "\<exists>t. stack_run [SRaise 1, SLower 2, SRestack 1 2 True, SLowerWithin 0] demo_ws = Returns t \<and>
     ws_ok demo_rank 2 t \<and> mset (ws_unconstrained t) = mset [1, 0, 2]"
  using stacking_requests_permute [OF demo_ws_ok, of "[SRaise 1, SLower 2, SRestack 1 2 True, SLowerWithin 0]"]
  by (auto simp: demo_ws_def)

text \<open>
  Raising puts the window on top of the requested order and remembers it as the most recently
  raised one unless it is a special window; lowering a window that does not move with a group puts
  it at the bottom without reordering the others; restacking under a window of the same application, or
  by force, puts it directly below that window.
\<close>

theorem raise_lower_restack_positions:
  assumes "ws_ok rk N s" and "w \<in> set (ws_unconstrained s)" and "u \<in> set (ws_unconstrained s)" and "u \<noteq> w"
  shows "\<exists>r l t. raise_window (Some w) s = Returns r \<and> last (ws_unconstrained r) = w \<and>
      (\<not> is_special_window (ws_win s w) \<longrightarrow> ws_mostRecentlyRaised r = Some w) \<and>
    lower_window w s = Returns l \<and> ws_mostRecentlyRaised l \<noteq> Some w \<and>
      (\<not> is_transient (ws_win s w) \<or> w_group (ws_win s w) = None \<longrightarrow>
         ws_unconstrained l = w # removeAll w (ws_unconstrained s)) \<and>
    restack w u True s = Returns t \<and>
      (\<exists>below above. ws_unconstrained t = below @ w # u # above \<and>
         below @ u # above = removeAll w (ws_unconstrained s))"
proof -
  obtain r front where r: "raise_window (Some w) s = Returns r" "ws_unconstrained r = front @ [w]"
      "\<not> is_special_window (ws_win s w) \<longrightarrow> ws_mostRecentlyRaised r = Some w"
    using raise_window_restacked [OF assms(1,2)] by auto
  obtain l where l: "lower_window w s = Returns l" "ws_mostRecentlyRaised l \<noteq> Some w"
      "\<not> is_transient (ws_win s w) \<or> w_group (ws_win s w) = None \<longrightarrow>
         ws_unconstrained l = w # removeAll w (ws_unconstrained s)"
    using lower_window_restacked [OF assms(1,2)] by auto
  obtain t where t: "restack w u True s = Returns t" "ws_unconstrained t = insert_under w u (ws_unconstrained s)"
    using restack_restacked [OF assms(1-3), of True] by auto
  let ?rest = "removeAll w (ws_unconstrained s)"
  have "u \<in> set ?rest" using assms(3,4) by simp
  then obtain i where i: "index_of u ?rest = Some i" using index_of_None by (metis not_Some_eq)
  then have "?rest = take i ?rest @ u # drop (Suc i) ?rest" using index_of_SomeD [OF i] by (metis id_take_nth_drop)
  moreover from this have "drop i ?rest = u # drop (Suc i) ?rest"
    using index_of_SomeD [OF i] by (metis Cons_nth_drop_Suc)
  then have "ws_unconstrained t = take i ?rest @ w # u # drop (Suc i) ?rest"
    using t(2) i by (simp add: insert_under_def insert_at_def Let_def)
  ultimately have "\<exists>below above. ws_unconstrained t = below @ w # u # above \<and> below @ u # above = ?rest" by metis
  with r l t(1) show ?thesis by auto
qed

theorem raise_lower_restack_positions_witness:
  "\<exists>r l t. raise_window (Some 0) demo_ws = Returns r \<and> last (ws_unconstrained r) = 0 \<and>
     lower_window 0 demo_ws = Returns l \<and> restack 0 1 True demo_ws = Returns t"
  using raise_lower_restack_positions [OF demo_ws_ok, of 0 1] by (auto simp: demo_ws_def)

section \<open>A transient with two leads\<close>

text \<open>Window 2 is a transient of window 0 and of its dialog 1.\<close>

definition twice_store :: wstore where
  "twice_store = (\<lambda>_. demo_window)(0 := demo_window\<lparr>w_children := [1, 2]\<rparr>,
     1 := demo_window\<lparr>w_leads := [0], w_children := [2]\<rparr>, 2 := demo_window\<lparr>w_leads := [0, 1]\<rparr>)"

definition twice_ws :: workspace where
  "twice_ws = demo_ws\<lparr>ws_win := twice_store, ws_unconstrained := [0, 1, 2]\<rparr>"

lemma twice_store_simps [simp]:
  "w_children (twice_store a) = (if a = 0 then [1, 2] else if a = 1 then [2] else [])"
  "w_leads (twice_store a) = (if a = 1 then [0] else if a = 2 then [0, 1] else [])"
  "child_restack twice_store (\<lambda>_. LNormal) l c"
  by (auto simp: twice_store_def demo_window_def child_restack_def keepTransientAbove_def net_defs)

lemma append_nil: "append_children W lay order w [] list stacked = Some (list @ stacked)"
  by (subst append_children.simps) simp

lemma append_cons:
  "append_children W lay order w (c # cs) list stacked =
     (if \<not> child_restack W lay w c then append_children W lay order w cs list stacked
      else Option.bind
        (append_children W lay order c (ensureStackingOrder order (w_children (W c))) (stacked @ [c]) [])
        (\<lambda>stacked'. append_children W lay order w cs (removeAll c list) stacked'))"
  by (subst append_children.simps) simp

text \<open>
  With a transient of a window and of a dialog of that window, the constrained order contains
  the transient twice: the transient is removed from the list of the innermost level only, not
  from what the enclosing levels have collected already.
\<close>

theorem two_leads_duplicate:
  "transients_ok (ws_win twice_ws) \<and> leads_ranked id (ws_win twice_ws) \<and>
   constrainedStackingOrder (\<lambda>_. LNormal) twice_ws = Returns [0, 1, 2, 2]"
proof (intro conjI)
  show "transients_ok (ws_win twice_ws)"
    by (auto simp: transients_ok_def twice_ws_def)
  show "leads_ranked id (ws_win twice_ws)"
    by (auto simp: leads_ranked_def twice_ws_def)
  have scr: "w_screen (twice_store a) = 0" "w_group (twice_store a) = None" for a
    by (simp_all add: twice_store_def demo_window_def)
  have layers: "assign_layers twice_store (\<lambda>_. LNormal) 1 (\<lambda>_ _. None) [0, 1, 2] =
      Returns [(0, LNormal), (1, LNormal), (2, LNormal)]"
    by (simp add: scr Let_def split: option.splits)
  show "constrainedStackingOrder (\<lambda>_. LNormal) twice_ws = Returns [0, 1, 2, 2]"
    unfolding constrainedStackingOrder_def twice_ws_def
    by (auto simp: demo_ws_def layers [unfolded One_nat_def] preliminary_stack_def all_layers_def append_nil append_cons
        ensureStackingOrder_def simp del: assign_layers.simps)
qed

section \<open>Focus stealing prevention\<close>

lemma fsp_cases:
  fixes a p :: int
  shows "(if S \<and> a \<le> 2 then True else if Q then True else if R then False
      else if a = 0 \<or> p = 0 then True else if a = 4 \<or> p = 4 then False else if D then False
      else if N then True else if K \<and> p < 3 then True else if D2 then False
      else if 2 < a \<and> 1 < p then False else if T then a < 2 \<and> p < 3 else C) \<longleftrightarrow>
    S \<and> a \<le> 2 \<or> Q \<or> \<not> R \<and> (a = 0 \<or> p = 0 \<or> a \<noteq> 4 \<and> p \<noteq> 4 \<and> \<not> D \<and>
      (N \<or> K \<and> p < 3 \<or> \<not> D2 \<and> \<not> (2 < a \<and> 1 < p) \<and> (T \<longrightarrow> a < 2 \<and> p < 3) \<and> (T \<or> C)))"
  by simp blast

lemma fsp_mono:
  fixes a b p :: int
  assumes "b \<le> a" "0 \<le> b" "a \<le> 4"
    and "if S \<and> a \<le> 2 then True else if Q then True else if R then False
      else if a = 0 \<or> p = 0 then True else if a = 4 \<or> p = 4 then False else if D then False
      else if N then True else if K \<and> p < 3 then True else if D2 then False
      else if 2 < a \<and> 1 < p then False else if T then a < 2 \<and> p < 3 else C"
  shows "if S \<and> b \<le> 2 then True else if Q then True else if R then False
      else if b = 0 \<or> p = 0 then True else if b = 4 \<or> p = 4 then False else if D then False
      else if N then True else if K \<and> p < 3 then True else if D2 then False
      else if 2 < b \<and> 1 < p then False else if T then b < 2 \<and> p < 3 else C"
proof -
  have "a \<le> 2 \<Longrightarrow> b \<le> 2" "a = 0 \<Longrightarrow> b = 0" "a \<noteq> 4 \<Longrightarrow> b \<noteq> 4" "\<not> 2 < a \<Longrightarrow> \<not> 2 < b" "a < 2 \<Longrightarrow> b < 2"
    using assms(1-3) by linarith+
  with assms(4) show ?thesis unfolding fsp_cases by metis
qed

text \<open>
  A lower level of focus stealing prevention never refuses what a higher one allows: if a
  window may be activated under some level, it may be activated under every lower level, all else
  being equal.
\<close>

theorem activation_antitone_in_level:
  assumes "allowClientActivation cmp s w time focus_in ignore_desktop"
    and "w_checkFSP (ws_win s w) l \<le> w_checkFSP (ws_win s w) (ws_fspLevel s)"
    and "0 \<le> w_checkFSP (ws_win s w) l" and "w_checkFSP (ws_win s w) (ws_fspLevel s) \<le> 4"
  shows "allowClientActivation cmp (s\<lparr>ws_fspLevel := l\<rparr>) w time focus_in ignore_desktop"
proof -
  define ac where "ac = (if focus_in then ws_lastActive s else mostRecentlyActivatedClient s)"
  have ac': "(if focus_in then ws_lastActive (s\<lparr>ws_fspLevel := l\<rparr>) else mostRecentlyActivatedClient (s\<lparr>ws_fspLevel := l\<rparr>)) = ac"
    by (simp add: ac_def mostRecentlyActivatedClient_def)
  show ?thesis
  proof (cases ac)
    case None
    then show ?thesis
      using assms(1-3) unfolding allowClientActivation_def Let_def ac' ac_def [symmetric]
      by (auto split: if_splits)
  next
    case (Some c)
    let ?t = "s\<lparr>ws_fspLevel := l\<rparr>"
    have fields: "ws_win ?t = ws_win s" "ws_savingSession ?t = ws_savingSession s"
        "ws_shouldGetFocus ?t = ws_shouldGetFocus s" "ws_desk ?t = ws_desk s" "ws_fspLevel ?t = l"
        "ws_sameRelaxed ?t = ws_sameRelaxed s" by simp_all
    from assms(1) show ?thesis
      unfolding allowClientActivation_def Let_def ac' ac_def [symmetric] Some option.case fields
      by (rule fsp_mono [OF assms(2-4)])
  qed
qed

definition demo_cmp :: "32 word \<Rightarrow> 32 word \<Rightarrow> int" where
  "demo_cmp a b = (if a = b then 0 else if a - b < 2 ^ 31 then 1 else -1)"

theorem activation_antitone_in_level_witness:
  "allowClientActivation demo_cmp (demo_ws\<lparr>ws_active := Some 0, ws_fspLevel := 1\<rparr>) 2 5 False False"
proof -
  let ?s = "demo_ws\<lparr>ws_active := Some 0\<rparr>"
  have "allowClientActivation demo_cmp ?s 2 5 False False"
    by (simp add: allowClientActivation_def mostRecentlyActivatedClient_def demo_ws_def demo_store_def
        demo_window_def no_time_def demo_cmp_def on_current_desktop_def on_desktop_def demo_desks_def
        desktop_for_x11_id_def net_defs Let_def)
  from activation_antitone_in_level [OF this, of 1] show ?thesis
    by (simp add: demo_ws_def demo_store_def demo_window_def)
qed

text \<open>
  Without an active window even the level Extreme, under which no window should get the focus
  without user intervention, lets a window activate itself: the protection of a missing window is
  None, and that is checked first.
\<close>

theorem extreme_level_allows_without_active:
  assumes "mostRecentlyActivatedClient s = None" and "time \<noteq> 0" and "time \<noteq> no_time"
  shows "allowClientActivation cmp s w time False ignore_desktop"
  using assms by (simp add: allowClientActivation_def Let_def)

theorem extreme_level_allows_without_active_witness:
  "allowClientActivation demo_cmp (demo_ws\<lparr>ws_fspLevel := 4\<rparr>) 2 5 False False"
  by (rule extreme_level_allows_without_active)
    (simp_all add: mostRecentlyActivatedClient_def demo_ws_def no_time_def)

text \<open>
  The focus queue: a window that was asked to take the focus is the most recently activated
  one; its report removes it together with everything that was asked before it and nothing that
  was asked later, and a report of a window that was not asked changes nothing.
\<close>

theorem focus_queue_reports:
  assumes "w \<notin> set older" and "v \<notin> set (older @ w # newer)"
  shows "mostRecentlyActivatedClient (s\<lparr>ws_shouldGetFocus := older @ [w]\<rparr>) = Some w \<and>
    gotFocusIn w (s\<lparr>ws_shouldGetFocus := older @ w # newer\<rparr>) = s\<lparr>ws_shouldGetFocus := newer\<rparr> \<and>
    gotFocusIn v (s\<lparr>ws_shouldGetFocus := older @ w # newer\<rparr>) = s\<lparr>ws_shouldGetFocus := older @ w # newer\<rparr>"
proof -
  have "dropWhile (\<lambda>a. a \<noteq> w) (older @ w # newer) = w # newer"
    using assms(1) by (induction older) auto
  with assms show ?thesis by (simp add: mostRecentlyActivatedClient_def gotFocusIn_def)
qed

theorem focus_queue_reports_witness:
  "gotFocusIn 1 (demo_ws\<lparr>ws_shouldGetFocus := [0, 1, 2]\<rparr>) = demo_ws\<lparr>ws_shouldGetFocus := [2]\<rparr>"
  using focus_queue_reports [of 1 "[0]" 5 "[2]" demo_ws] by simp

end
