(* ===== verification/Smart_Placement.thy ===== *)
theory Smart_Placement
  imports Window Window_Geometry_Properties
begin

text \<open>
  \<open>Placement::placeSmart\<close> (\<^verbatim>\<open>placement.cpp\<close>): scan the area row by row over the edges of the
  windows that matter and stop at the first position that overlaps none of them. The loop is a
  partial function; that it ends, stays in the area and finds a free position whenever there is one
  is proved here.

  Sums and products of coordinates are mathematical integers; in the source a single product is an
  \<open>int\<close>, the sum a \<open>long\<close>.
\<close>

section \<open>Windows that matter\<close>

definition irrelevant_window :: "desk_view \<Rightarrow> wstore \<Rightarrow> addr \<Rightarrow> int \<Rightarrow> addr \<Rightarrow> bool" where
  "irrelevant_window D W regarding desktop a \<longleftrightarrow>
     \<not> w_control (W a) \<or> a = regarding \<or> \<not> w_shown (W a) \<or> \<not> on_desktop D (W a) (nat desktop) \<or>
     \<not> w_onCurrentActivity (W a) \<or> is_desktop (W a)"

definition placement_desktop :: "desk_view \<Rightarrow> window \<Rightarrow> int" where
  "placement_desktop D w =
     (if win_desktop D w = 0 \<or> on_all_desktops D w then int (dv_current D) else win_desktop D w)"

text \<open>What the placement reads of another window.\<close>

record obstacle =
  ob_frame :: rect
  ob_above :: bool
  ob_below :: bool
  ob_dock :: bool

definition obstacle_of :: "window \<Rightarrow> obstacle" where
  "obstacle_of w = \<lparr>ob_frame = g_frame (w_geo w), ob_above = w_keep_above w, ob_below = w_keep_below w,
     ob_dock = is_dock w\<rparr>"

definition relevant_obstacles :: "desk_view \<Rightarrow> wstore \<Rightarrow> addr list \<Rightarrow> addr \<Rightarrow> obstacle list" where
  "relevant_obstacles D W ws regarding =
     map (\<lambda>a. obstacle_of (W a))
       (filter (\<lambda>a. \<not> irrelevant_window D W regarding (placement_desktop D (W regarding)) a) ws)"

section \<open>The scan\<close>

abbreviation ob_xl :: "obstacle \<Rightarrow> int" where "ob_xl o' \<equiv> rleft (ob_frame o')"
abbreviation ob_xr :: "obstacle \<Rightarrow> int" where "ob_xr o' \<equiv> rleft (ob_frame o') + rwidth (ob_frame o')"
abbreviation ob_yt :: "obstacle \<Rightarrow> int" where "ob_yt o' \<equiv> rtop (ob_frame o')"
abbreviation ob_yb :: "obstacle \<Rightarrow> int" where "ob_yb o' \<equiv> rtop (ob_frame o') + rheight (ob_frame o')"

definition overlap_with :: "int \<Rightarrow> int \<Rightarrow> int \<Rightarrow> int \<Rightarrow> obstacle \<Rightarrow> int" where
  "overlap_with cw ch x y ob =
     (if x < ob_xr ob \<and> x + cw > ob_xl ob \<and> y < ob_yb ob \<and> y + ch > ob_yt ob
      then let xl = max x (ob_xl ob); xr = min (x + cw) (ob_xr ob);
               yt = max y (ob_yt ob); yb = min (y + ch) (ob_yb ob)
           in if ob_above ob then 16 * (xr - xl) * (yb - yt)
              else if ob_below ob \<and> \<not> ob_dock ob then 0
              else (xr - xl) * (yb - yt)
      else 0)"

definition overlap_sum :: "int \<Rightarrow> int \<Rightarrow> obstacle list \<Rightarrow> int \<Rightarrow> int \<Rightarrow> int" where
  "overlap_sum cw ch obs x y = sum_list (map (overlap_with cw ch x y) obs)"

text \<open>\<open>h_wrong\<close> is -1, \<open>w_wrong\<close> is -2.\<close>

definition smart_overlap :: "rect \<Rightarrow> int \<Rightarrow> int \<Rightarrow> obstacle list \<Rightarrow> int \<Rightarrow> int \<Rightarrow> int" where
  "smart_overlap area cw ch obs x y =
     (if y + ch > rbottom area \<and> ch < rheight area then -1
      else if x + cw > rright area then -2
      else overlap_sum cw ch obs x y)"

definition narrow :: "int \<Rightarrow> int \<Rightarrow> int \<Rightarrow> int" where
  "narrow v edge possible = (if edge > v \<and> possible > edge then edge else possible)"

definition next_x :: "rect \<Rightarrow> int \<Rightarrow> int \<Rightarrow> obstacle list \<Rightarrow> int \<Rightarrow> int \<Rightarrow> int" where
  "next_x area cw ch obs y x =
     fold (\<lambda>ob possible.
         if y < ob_yb ob \<and> ob_yt ob < ch + y
         then narrow x (ob_xl ob - cw) (narrow x (ob_xr ob) possible) else possible)
       obs (if rright area - cw > x then rright area - cw else rright area)"

definition next_y :: "rect \<Rightarrow> int \<Rightarrow> obstacle list \<Rightarrow> int \<Rightarrow> int" where
  "next_y area ch obs y =
     fold (\<lambda>ob possible. narrow y (ob_yt ob - ch) (narrow y (ob_yb ob) possible))
       obs (if rbottom area - ch > y then rbottom area - ch else rbottom area)"

text \<open>
  The \<open>do ... while\<close> loop: the current position, the best one so far with its overlap, and the
  flag of the first pass.
\<close>

partial_function (option) smart_loop ::
  "rect \<Rightarrow> int \<Rightarrow> int \<Rightarrow> obstacle list \<Rightarrow> int \<Rightarrow> int \<Rightarrow> int \<Rightarrow> int \<Rightarrow> bool \<Rightarrow> int \<Rightarrow> point option" where
  "smart_loop area cw ch obs x y xo yo first min_overlap =
     (let ov = smart_overlap area cw ch obs x y in
      if ov = 0 then Some (x, y)
      else
        let better = (\<not> first \<and> ov \<ge> 0 \<and> ov < min_overlap);
            min' = (if first \<or> better then ov else min_overlap);
            xo' = (if better then x else xo);
            yo' = (if better then y else yo);
            x' = (if ov > 0 then next_x area cw ch obs y x else if ov = -2 then rleft area else x);
            y' = (if ov > 0 then y else if ov = -2 then next_y area ch obs y else y)
        in if ov \<noteq> -1 \<and> y' < rbottom area
           then smart_loop area cw ch obs x' y' xo' yo' False min'
           else Some (xo', yo'))"

definition placeSmart :: "obstacle list \<Rightarrow> rect \<Rightarrow> wgeo \<Rightarrow> wgeo outcome" where
  "placeSmart obs area g =
     oassert (rvalid area)
       (if \<not> szvalid (rsize (g_frame g)) then Returns g
        else
          let ch = rheight (g_frame g) - 1; cw = rwidth (g_frame g) - 1 in
          obind (of_loop (map_option Returns
              (smart_loop area cw ch obs (rleft area) (rtop area) (rleft area) (rtop area) True 0)))
            (\<lambda>p. win_move (fst p, if ch \<ge> rheight area then rtop area else snd p) g))"

section \<open>The edges\<close>

lemma narrow_bounds: "v < p \<Longrightarrow> v < narrow v e p \<and> narrow v e p \<le> p \<and> (v < e \<longrightarrow> narrow v e p \<le> e)"
  by (auto simp: narrow_def)

lemma narrow_idle: "p \<le> v \<Longrightarrow> narrow v e p = p"
  by (auto simp: narrow_def)

lemma next_x_bounds:
  assumes "0 \<le> cw" "x < rright area"
  shows "x < next_x area cw ch obs y x \<and>
    (\<forall>ob \<in> set obs. y < ob_yb ob \<and> ob_yt ob < ch + y \<and> x < ob_xr ob \<longrightarrow> next_x area cw ch obs y x \<le> ob_xr ob)"
proof -
  let ?step = "\<lambda>ob possible. if y < ob_yb ob \<and> ob_yt ob < ch + y
      then narrow x (ob_xl ob - cw) (narrow x (ob_xr ob) possible) else possible"
  have "x < fold ?step obs p \<and> fold ?step obs p \<le> p \<and>
      (\<forall>ob \<in> set obs. y < ob_yb ob \<and> ob_yt ob < ch + y \<and> x < ob_xr ob \<longrightarrow> fold ?step obs p \<le> ob_xr ob)"
    if "x < p" for p using that
  proof (induction obs arbitrary: p)
    case (Cons ob obs)
    have "x < ?step ob p \<and> ?step ob p \<le> p \<and>
        (y < ob_yb ob \<and> ob_yt ob < ch + y \<and> x < ob_xr ob \<longrightarrow> ?step ob p \<le> ob_xr ob)"
      using narrow_bounds [OF Cons.prems, of "ob_xr ob"]
        narrow_bounds [of x "narrow x (ob_xr ob) p" "ob_xl ob - cw"] by auto
    with Cons.IH [of "?step ob p"] show ?case by fastforce
  qed simp
  then show ?thesis using assms by (simp add: next_x_def)
qed

lemma next_y_bounds:
  assumes "0 \<le> ch" "y < rbottom area"
  shows "y < next_y area ch obs y \<and> (\<forall>ob \<in> set obs. y < ob_yb ob \<longrightarrow> next_y area ch obs y \<le> ob_yb ob)"
proof -
  let ?step = "\<lambda>ob possible. narrow y (ob_yt ob - ch) (narrow y (ob_yb ob) possible)"
  have "y < fold ?step obs p \<and> fold ?step obs p \<le> p \<and>
      (\<forall>ob \<in> set obs. y < ob_yb ob \<longrightarrow> fold ?step obs p \<le> ob_yb ob)"
    if "y < p" for p using that
  proof (induction obs arbitrary: p)
    case (Cons ob obs)
    have "y < ?step ob p \<and> ?step ob p \<le> p \<and> (y < ob_yb ob \<longrightarrow> ?step ob p \<le> ob_yb ob)"
      using narrow_bounds [OF Cons.prems, of "ob_yb ob"]
        narrow_bounds [of y "narrow y (ob_yb ob) p" "ob_yt ob - ch"] by auto
    with Cons.IH [of "?step ob p"] show ?case by fastforce
  qed simp
  then show ?thesis using assms by (simp add: next_y_def)
qed

lemma next_y_bottom: "0 \<le> ch \<Longrightarrow> rbottom area \<le> y \<Longrightarrow> next_y area ch obs y = rbottom area"
proof -
  assume le: "0 \<le> ch" "rbottom area \<le> y"
  have "fold (\<lambda>ob possible. narrow y (ob_yt ob - ch) (narrow y (ob_yb ob) possible)) obs p = p" if "p \<le> y" for p
    using that by (induction obs arbitrary: p) (simp_all add: narrow_idle)
  with le show ?thesis by (simp add: next_y_def)
qed

section \<open>Overlaps\<close>

definition obstacles_valid :: "obstacle list \<Rightarrow> bool" where
  "obstacles_valid obs \<longleftrightarrow> (\<forall>ob \<in> set obs. 0 \<le> rwidth (ob_frame ob) \<and> 0 \<le> rheight (ob_frame ob))"

lemma overlap_with_pos:
  assumes "0 \<le> cw" "0 \<le> ch" "0 \<le> rwidth (ob_frame ob)" "0 \<le> rheight (ob_frame ob)"
  shows "0 \<le> overlap_with cw ch x y ob \<and>
    (0 < overlap_with cw ch x y ob \<longleftrightarrow>
      (ob_above ob \<or> \<not> ob_below ob \<or> ob_dock ob) \<and> 0 < cw \<and> 0 < ch \<and> 0 < rwidth (ob_frame ob) \<and>
      0 < rheight (ob_frame ob) \<and>
      x < ob_xr ob \<and> x + cw > ob_xl ob \<and> y < ob_yb ob \<and> y + ch > ob_yt ob)"
proof (cases "x < ob_xr ob \<and> x + cw > ob_xl ob \<and> y < ob_yb ob \<and> y + ch > ob_yt ob")
  case True
  let ?w = "min (x + cw) (ob_xr ob) - max x (ob_xl ob)" and ?h = "min (y + ch) (ob_yb ob) - max y (ob_yt ob)"
  have w: "0 \<le> ?w" "0 < ?w \<longleftrightarrow> 0 < cw \<and> 0 < rwidth (ob_frame ob)" using assms True by auto
  have h: "0 \<le> ?h" "0 < ?h \<longleftrightarrow> 0 < ch \<and> 0 < rheight (ob_frame ob)" using assms True by auto
  have "overlap_with cw ch x y ob =
      (if ob_above ob then 16 * (?w * ?h) else if ob_below ob \<and> \<not> ob_dock ob then 0 else ?w * ?h)"
    using True by (simp add: overlap_with_def Let_def)
  moreover have "0 \<le> ?w * ?h" using w(1) h(1) by simp
  moreover have "0 < ?w * ?h \<longleftrightarrow> 0 < ?w \<and> 0 < ?h" using w(1) h(1) by (auto simp: zero_less_mult_iff)
  ultimately show ?thesis using True w(2) h(2) by auto
next
  case False
  then have "overlap_with cw ch x y ob = 0" by (auto simp: overlap_with_def)
  with False show ?thesis by auto
qed

lemma overlap_sum_pos:
  assumes "0 \<le> cw" "0 \<le> ch" "obstacles_valid obs"
  shows "0 \<le> overlap_sum cw ch obs x y \<and>
    (0 < overlap_sum cw ch obs x y \<longleftrightarrow> (\<exists>ob \<in> set obs. 0 < overlap_with cw ch x y ob))"
  using assms(3)
proof (induction obs)
  case (Cons ob obs)
  then have "0 \<le> overlap_with cw ch x y ob"
    using overlap_with_pos [OF assms(1,2)] by (simp add: obstacles_valid_def)
  with Cons show ?case by (auto simp: overlap_sum_def obstacles_valid_def)
qed (simp add: overlap_sum_def)

section \<open>The loop\<close>

lemma smart_overlap_cases:
  assumes "0 \<le> cw" "0 \<le> ch" "obstacles_valid obs"
  obtains (zero) "smart_overlap area cw ch obs x y = 0"
  | (pos) ob where "0 < smart_overlap area cw ch obs x y" "ob \<in> set obs"
      "0 < overlap_with cw ch x y ob" "0 < cw" "0 < ch" "x + cw \<le> rright area"
  | (wide) "smart_overlap area cw ch obs x y = -2" "rright area < x + cw"
  | (tall) "smart_overlap area cw ch obs x y = -1" "rbottom area < y + ch"
proof -
  note sum = overlap_sum_pos [OF assms, of x y]
  consider "y + ch > rbottom area \<and> ch < rheight area"
    | "\<not> (y + ch > rbottom area \<and> ch < rheight area)" "x + cw > rright area"
    | "\<not> (y + ch > rbottom area \<and> ch < rheight area)" "x + cw \<le> rright area" "overlap_sum cw ch obs x y = 0"
    | "\<not> (y + ch > rbottom area \<and> ch < rheight area)" "x + cw \<le> rright area" "0 < overlap_sum cw ch obs x y"
    using sum by linarith
  then show thesis
  proof cases
    case 4
    with sum obtain ob where ob: "ob \<in> set obs" "0 < overlap_with cw ch x y ob" by blast
    with assms overlap_with_pos [OF assms(1,2), of ob x y] have "0 < cw" "0 < ch"
      by (auto simp: obstacles_valid_def)
    with 4 ob show thesis by (intro pos [of ob]) (auto simp: smart_overlap_def)
  qed (auto intro: zero wide tall simp: smart_overlap_def)
qed

text \<open>A position the scan may end at, and one it must not miss.\<close>

definition smart_pos :: "rect \<Rightarrow> int \<Rightarrow> int \<Rightarrow> obstacle list \<Rightarrow> int \<Rightarrow> int \<Rightarrow> bool" where
  "smart_pos area cw ch obs x y \<longleftrightarrow>
     0 \<le> smart_overlap area cw ch obs x y \<and> rleft area \<le> x \<and> rtop area \<le> y"

definition free_pos :: "rect \<Rightarrow> int \<Rightarrow> int \<Rightarrow> obstacle list \<Rightarrow> int \<Rightarrow> int \<Rightarrow> bool" where
  "free_pos area cw ch obs x y \<longleftrightarrow>
     smart_overlap area cw ch obs x y = 0 \<and> rleft area \<le> x \<and> rtop area \<le> y \<and> y + ch \<le> rbottom area"

definition ahead :: "int \<Rightarrow> obstacle list \<Rightarrow> int \<Rightarrow> int \<Rightarrow> int \<Rightarrow> int \<Rightarrow> bool" where
  "ahead ch obs x y px py \<longleftrightarrow>
     y \<le> py \<and> (x \<le> px \<or> (0 < ch \<and> (\<exists>ob \<in> set obs. y < ob_yb ob \<and> ob_yb ob \<le> py)))"

lemma ahead_next_x:
  assumes geo: "0 \<le> cw" "0 \<le> ch" "obstacles_valid obs"
    and ob: "ob \<in> set obs" "0 < overlap_with cw ch x y ob" "x < rright area"
    and free: "free_pos area cw ch obs px py" and a: "ahead ch obs x y px py"
  shows "ahead ch obs (next_x area cw ch obs y x) y px py"
proof -
  have v: "0 \<le> rwidth (ob_frame ob)" "0 \<le> rheight (ob_frame ob)" using geo ob by (auto simp: obstacles_valid_def)
  note at = overlap_with_pos [OF geo(1,2) v]
  have "overlap_sum cw ch obs px py = 0"
    using free by (auto simp: free_pos_def smart_overlap_def split: if_splits)
  with overlap_sum_pos [OF geo, of px py] ob have "\<not> 0 < overlap_with cw ch px py ob" by fastforce
  with at [of px py] at [of x y] ob(2) a
  have "ob_yb ob \<le> py \<or> (x \<le> px \<longrightarrow> ob_xr ob \<le> px)" "0 < ch" "y < ob_yb ob" "ob_yt ob < ch + y" "x < ob_xr ob"
    by (auto simp: ahead_def)
  with next_x_bounds [OF geo(1) ob(3), of ch obs y] ob(1) a show ?thesis
    by (fastforce simp: ahead_def)
qed

lemma smart_loop_spec:
  assumes geo: "0 \<le> cw" "0 \<le> ch" "obstacles_valid obs"
    and "rleft area \<le> x" "rtop area \<le> y"
  shows "\<exists>X Y. smart_loop area cw ch obs x y xo yo first m = Some (X, Y) \<and>
    ((X, Y) = (xo, yo) \<or> smart_pos area cw ch obs X Y) \<and>
    (\<forall>px py. free_pos area cw ch obs px py \<and> ahead ch obs x y px py \<longrightarrow> smart_overlap area cw ch obs X Y = 0)"
  using assms(4,5)
proof (induction "(nat (rbottom area - y), nat (rright area + 1 - x))" arbitrary: x y xo yo first m
    rule: wf_induct_rule [OF wf_lex_prod [OF wf_less_than wf_less_than]])
  case less: 1
  let ?ov = "smart_overlap area cw ch obs x y"
  let ?better = "\<not> first \<and> ?ov \<ge> 0 \<and> ?ov < m"
  let ?xo = "if ?better then x else xo" and ?yo = "if ?better then y else yo"
  let ?m = "if first \<or> ?better then ?ov else m"
  have best: "(X, Y) = (?xo, ?yo) \<Longrightarrow> (X, Y) = (xo, yo) \<or> smart_pos area cw ch obs X Y" for X Y
    using less.prems by (auto simp: smart_pos_def)
  from geo show ?case
  proof (cases rule: smart_overlap_cases [where area = area and x = x and y = y])
    case zero
    then have "smart_loop area cw ch obs x y xo yo first m = Some (x, y)"
      by (subst smart_loop.simps) (simp add: Let_def)
    with zero less.prems show ?thesis by (auto simp: smart_pos_def)
  next
    case (pos ob)
    let ?x = "next_x area cw ch obs y x"
    have right: "x < rright area" using pos by linarith
    have run: "smart_loop area cw ch obs x y xo yo first m =
        (if y < rbottom area then smart_loop area cw ch obs ?x y ?xo ?yo False ?m else Some (?xo, ?yo))"
      using pos(1) by (subst smart_loop.simps) (simp add: Let_def)
    show ?thesis
    proof (cases "y < rbottom area")
      case True
      have gt: "x < ?x" using next_x_bounds [OF geo(1) right] by blast
      then have "((nat (rbottom area - y), nat (rright area + 1 - ?x)),
          nat (rbottom area - y), nat (rright area + 1 - x)) \<in> less_than <*lex*> less_than"
        using right by simp
      from less.hyps [OF this, of ?xo ?yo False ?m] less.prems gt obtain X Y where
        IH: "smart_loop area cw ch obs ?x y ?xo ?yo False ?m = Some (X, Y)"
          "(X, Y) = (?xo, ?yo) \<or> smart_pos area cw ch obs X Y"
          "\<forall>px py. free_pos area cw ch obs px py \<and> ahead ch obs ?x y px py \<longrightarrow> smart_overlap area cw ch obs X Y = 0"
        by force
      then show ?thesis using True run best ahead_next_x [OF geo pos(2,3) right] by auto
    next
      case False
      have "\<not> (free_pos area cw ch obs px py \<and> ahead ch obs x y px py)" for px py
        using False pos(5) by (auto simp: free_pos_def ahead_def)
      with False run best show ?thesis by auto
    qed
  next
    case wide
    let ?y = "next_y area ch obs y"
    have run: "smart_loop area cw ch obs x y xo yo first m =
        (if ?y < rbottom area then smart_loop area cw ch obs (rleft area) ?y xo yo False ?m else Some (xo, yo))"
      using wide(1) by (subst smart_loop.simps) (simp add: Let_def)
    have step: "y < ?y \<and> ?y \<le> py \<and> ?y < rbottom area"
      if f: "free_pos area cw ch obs px py" and a: "ahead ch obs x y px py" for px py
    proof -
      have "px + cw \<le> rright area" using f by (auto simp: free_pos_def smart_overlap_def split: if_splits)
      with wide a obtain ob where ob: "0 < ch" "ob \<in> set obs" "y < ob_yb ob" "ob_yb ob \<le> py"
        by (auto simp: ahead_def)
      with f have "y < rbottom area" "py < rbottom area" by (auto simp: free_pos_def)
      with next_y_bounds [OF geo(2), of y area obs] ob show ?thesis by force
    qed
    show ?thesis
    proof (cases "?y < rbottom area")
      case True
      then have "y < rbottom area" using next_y_bottom [OF geo(2), of area y obs] by linarith
      with next_y_bounds [OF geo(2)] have gt: "y < ?y" by blast
      then have "((nat (rbottom area - ?y), nat (rright area + 1 - rleft area)),
          nat (rbottom area - y), nat (rright area + 1 - x)) \<in> less_than <*lex*> less_than"
        using \<open>y < rbottom area\<close> by simp
      from less.hyps [OF this, of xo yo False ?m] less.prems gt obtain X Y where
        IH: "smart_loop area cw ch obs (rleft area) ?y xo yo False ?m = Some (X, Y)"
          "(X, Y) = (xo, yo) \<or> smart_pos area cw ch obs X Y"
          "\<forall>px py. free_pos area cw ch obs px py \<and> ahead ch obs (rleft area) ?y px py \<longrightarrow>
             smart_overlap area cw ch obs X Y = 0"
        by force
      have "ahead ch obs (rleft area) ?y px py"
        if "free_pos area cw ch obs px py" "ahead ch obs x y px py" for px py
        using step [OF that] that(1) by (auto simp: ahead_def free_pos_def)
      with IH True run show ?thesis by auto
    next
      case False
      with step have "\<not> (free_pos area cw ch obs px py \<and> ahead ch obs x y px py)" for px py by blast
      with False run show ?thesis by auto
    qed
  next
    case tall
    then have "smart_loop area cw ch obs x y xo yo first m = Some (xo, yo)"
      by (subst smart_loop.simps) (simp add: Let_def)
    moreover have "\<not> (free_pos area cw ch obs px py \<and> ahead ch obs x y px py)" for px py
      using tall by (auto simp: free_pos_def ahead_def)
    ultimately show ?thesis by auto
  qed
qed

section \<open>Properties\<close>

lemma demo_obstacles_valid:
  "obstacles_valid [\<lparr>ob_frame = mk_rect 0 0 100 100, ob_above = False, ob_below = False, ob_dock = False\<rparr>]"
  by (simp add: obstacles_valid_def mk_rect_def rwidth_def rheight_def)

lemma placeSmart_spec:
  assumes "geo_settled g" and "rvalid area" and "obstacles_valid obs"
    and "cw = rwidth (g_frame g) - 1" and "ch = rheight (g_frame g) - 1" and "0 \<le> cw" and "0 \<le> ch"
  shows "\<exists>g'. placeSmart obs area g = Returns g' \<and> rsize (g_frame g') = rsize (g_frame g) \<and>
    (rwidth (g_frame g) \<le> rwidth area \<and> rheight (g_frame g) \<le> rheight area \<longrightarrow> rwithin (g_frame g') area) \<and>
    ((\<exists>px py. rwithin (rect_at (px, py) (rsize (g_frame g))) area \<and> overlap_sum cw ch obs px py = 0) \<longrightarrow>
       overlap_sum cw ch obs (rleft (g_frame g')) (rtop (g_frame g')) = 0)"
proof -
  let ?f = "g_frame g"
  obtain X Y where loop: "smart_loop area cw ch obs (rleft area) (rtop area) (rleft area) (rtop area) True 0 = Some (X, Y)"
    and pos: "(X, Y) = (rleft area, rtop area) \<or> smart_pos area cw ch obs X Y"
    and free: "\<And>px py. free_pos area cw ch obs px py \<Longrightarrow> ahead ch obs (rleft area) (rtop area) px py \<Longrightarrow>
      smart_overlap area cw ch obs X Y = 0"
    using smart_loop_spec [OF assms(6,7,3), of area "rleft area" "rtop area" "rleft area" "rtop area" True 0]
    by auto
  let ?p = "(X, if ch \<ge> rheight area then rtop area else Y)"
  have "placeSmart obs area g = win_move ?p g"
    using assms(2,4-) loop by (simp add: placeSmart_def szvalid_def rsize_def Let_def)
  with settled_move [OF assms(1)] obtain g' where
    g': "placeSmart obs area g = Returns g'" "g_frame g' = moveTopLeft ?p ?f" by auto
  have size: "rsize (g_frame g') = rsize ?f" by (simp add: g' rsize_def)
  have corner: "rleft (g_frame g') = X" "rtop (g_frame g') = snd ?p"
    "rright (g_frame g') = X + cw" "rbottom (g_frame g') = snd ?p + ch"
    using assms(4,5) by (simp_all add: g' moveTopLeft_def moveTop_def moveLeft_def rwidth_def rheight_def)
  have inside: "rwithin (g_frame g') area" if "rwidth ?f \<le> rwidth area \<and> rheight ?f \<le> rheight area"
    using that pos assms(4-) unfolding rwithin_def corner
    by (auto simp: smart_pos_def smart_overlap_def rwidth_def rheight_def split: if_splits)
  have complete: "overlap_sum cw ch obs (rleft (g_frame g')) (rtop (g_frame g')) = 0"
    if fit: "rwithin (rect_at (px, py) (rsize ?f)) area" and zero: "overlap_sum cw ch obs px py = 0" for px py
  proof -
    have at: "rleft area \<le> px" "px + cw \<le> rright area" "rtop area \<le> py" "py + ch \<le> rbottom area"
      using fit assms(4,5) by (auto simp: rwithin_def rect_ops)
    with zero have "free_pos area cw ch obs px py" by (auto simp: free_pos_def smart_overlap_def)
    moreover have "ahead ch obs (rleft area) (rtop area) px py" using at by (simp add: ahead_def)
    ultimately have "smart_overlap area cw ch obs X Y = 0" by (rule free)
    moreover have "ch < rheight area" using at by (simp add: rheight_def)
    ultimately show ?thesis unfolding corner by (auto simp: smart_overlap_def split: if_splits)
  qed
  from g'(1) size inside complete show ?thesis by blast
qed

text \<open>
  C4. Smart placement of a frame that is not empty always ends. It keeps the size of the frame, it
  leaves a frame that fits into the area inside of it, and it is complete: if there is any position
  in the area at which the frame overlaps no window that counts, the frame is put at such a
  position.
\<close>

theorem placeSmart_finds_free_position:
  assumes "geo_settled g" and "rvalid area" and "obstacles_valid obs"
    and "cw = rwidth (g_frame g) - 1" and "ch = rheight (g_frame g) - 1" and "0 \<le> cw" and "0 \<le> ch"
  shows "\<exists>g'. placeSmart obs area g = Returns g' \<and> rsize (g_frame g') = rsize (g_frame g) \<and>
    (rwidth (g_frame g) \<le> rwidth area \<and> rheight (g_frame g) \<le> rheight area \<longrightarrow> rwithin (g_frame g') area) \<and>
    ((\<exists>px py. rwithin (rect_at (px, py) (rsize (g_frame g))) area \<and> overlap_sum cw ch obs px py = 0) \<longrightarrow>
       overlap_sum cw ch obs (rleft (g_frame g')) (rtop (g_frame g')) = 0)"
  using assms by (rule placeSmart_spec)

theorem placeSmart_finds_free_position_witness:
  "\<exists>g'. placeSmart [\<lparr>ob_frame = mk_rect 0 0 100 100, ob_above = False, ob_below = False, ob_dock = False\<rparr>]
      (mk_rect 0 0 300 100) demo_geo = Returns g' \<and> rwithin (g_frame g') (mk_rect 0 0 300 100) \<and>
    overlap_sum 99 99 [\<lparr>ob_frame = mk_rect 0 0 100 100, ob_above = False, ob_below = False, ob_dock = False\<rparr>]
      (rleft (g_frame g')) (rtop (g_frame g')) = 0"
proof -
  let ?obs = "[\<lparr>ob_frame = mk_rect 0 0 100 100, ob_above = False, ob_below = False, ob_dock = False\<rparr>]"
  let ?A = "mk_rect 0 0 300 100"
  have size: "rwidth (g_frame demo_geo) = 100" "rheight (g_frame demo_geo) = 100"
    by (simp_all add: demo_geo_def mk_rect_def rwidth_def rheight_def)
  have area: "rvalid ?A" "rwidth ?A = 300" "rheight ?A = 100" by (simp_all add: rvalid_def rect_ops)
  have "\<exists>px py. rwithin (rect_at (px, py) (rsize (g_frame demo_geo))) ?A \<and> overlap_sum 99 99 ?obs px py = 0"
    by (intro exI [of _ 150] exI [of _ 0])
      (simp add: demo_geo_def rwithin_def rect_ops overlap_sum_def overlap_with_def)
  moreover have "99 = rwidth (g_frame demo_geo) - 1" "99 = rheight (g_frame demo_geo) - 1" "(0 :: int) \<le> 99"
    by (simp_all add: size)
  note placeSmart_finds_free_position [OF demo_geo_settled area(1) demo_obstacles_valid this(1,2,3,3)]
  ultimately show ?thesis unfolding size area by (elim exE conjE impE) (auto intro!: exI)
qed

lemma smart_loop_stuck:
  assumes "smart_overlap area cw ch obs x y < -2" "y < rbottom area"
  shows "smart_loop area cw ch obs x y xo yo first m = None"
proof (rule ccontr)
  let ?P = "\<lambda>area cw ch obs x y (xo :: int) (yo :: int) (first :: bool) (m :: int) (p :: point).
      \<not> (smart_overlap area cw ch obs x y < -2 \<and> y < rbottom area)"
  assume "smart_loop area cw ch obs x y xo yo first m \<noteq> None"
  then obtain p where p: "smart_loop area cw ch obs x y xo yo first m = Some p" by blast
  have "case (((((((((area, cw), ch), obs), x), y), xo), yo), first), m) of
      (((((((((area, cw), ch), obs), x), y), xo), yo), first), m) \<Rightarrow> ?P area cw ch obs x y xo yo first m p"
    using smart_loop.raw_induct [of ?P "(((((((((area, cw), ch), obs), x), y), xo), yo), first), m)" p] p
    by (fastforce simp: Let_def split: if_splits)
  with assms show False by simp
qed

text \<open>
  A frame without columns is still a valid size for the test at the start of \<open>placeSmart\<close>,
  but its overlap with a window can be negative. If that happens at the first position, by less
  than -2, nothing in the loop changes any more and it runs for ever.
\<close>

theorem placeSmart_hangs_on_negative_overlap:
  assumes "rvalid area" and "szvalid (rsize (g_frame g))" and "rtop area < rbottom area"
    and "smart_overlap area (rwidth (g_frame g) - 1) (rheight (g_frame g) - 1) obs (rleft area) (rtop area) < -2"
  shows "placeSmart obs area g = Diverges"
  using assms smart_loop_stuck [OF assms(4,3)] by (simp add: placeSmart_def Let_def)

theorem placeSmart_hangs_on_negative_overlap_witness:
  "placeSmart [\<lparr>ob_frame = mk_rect 0 0 100 100, ob_above = False, ob_below = False, ob_dock = False\<rparr>]
     (mk_rect 50 10 200 200) (demo_geo\<lparr>g_frame := mk_rect 0 0 0 50\<rparr>) = Diverges"
  by (rule placeSmart_hangs_on_negative_overlap)
    (simp_all add: rvalid_def szvalid_def smart_overlap_def overlap_sum_def overlap_with_def rect_ops Let_def)

end
