(* ===== verification/Maximize.thy ===== *)
theory Maximize
  imports Smart_Placement
begin

text \<open>
  Maximizing a window: \<^verbatim>\<open>win/maximize.h\<close>, which \<open>update_maximized\<close> of X11 and Wayland windows
  runs. Signals to other components and the \<open>_NET_WM_STATE\<close> hint are not part of the model.

  The record collects what the functions ask the rest of the program for: the areas of the desktop
  of the window, the windows that matter for the placement, the cursor, the option
  \<open>borderlessMaximizedWindows\<close>, the virtual \<open>setNoBorder\<close> together with its rule, the window type,
  and \<open>respect_maximizing_aspect\<close>, which X11 windows specialise.
\<close>

record geo_env =
  ge_area :: area_fun
  ge_obstacles :: "obstacle list"
  ge_cursor :: point
  ge_borderless :: bool
  ge_setNoBorder :: "bool \<Rightarrow> wgeo \<Rightarrow> wgeo"
  ge_toolbar :: bool
  ge_respectAspect :: "maximize_mode \<Rightarrow> maximize_mode"

definition update_no_border :: "geo_env \<Rightarrow> wgeo \<Rightarrow> wgeo" where
  "update_no_border E g =
     (if \<not> ge_borderless E then g else ge_setNoBorder E (g_max_mode g = MFull) g)"

definition set_restore_geometry :: "rect \<Rightarrow> wgeo \<Rightarrow> wgeo" where
  "set_restore_geometry r g =
     (if g_fullscreen g then g
      else if g_quicktiling g \<noteq> qt_none then g
      else if is_move g then g
      else g\<lparr>g_restore := r\<rparr>)"

definition get_maximizing_area :: "geo_env \<Rightarrow> wgeo \<Rightarrow> rect" where
  "get_maximizing_area E g =
     (if g_electricMaximizing g then ge_area E MaximizeArea (ge_cursor E)
      else ge_area E MaximizeArea (rcenter (pending_frame_geometry g)))"

definition rectify_restore_geometry :: "geo_env \<Rightarrow> rect \<Rightarrow> wgeo \<Rightarrow> (rect \<times> wgeo) outcome" where
  "rectify_restore_geometry E r g =
     (if rvalid r then Returns (r, g)
      else
        let area = get_maximizing_area E g;
            w = (if rwidth r > 0 then rwidth r else tdiv (rwidth area * 2) 3);
            h = (if rheight r > 0 then rheight r else tdiv (rheight area * 2) 3);
            g1 = block_geometry_updates True g;
            old = g_frame g1;
            g2 = setFrameGeometry (rect_at (0, 0) (w, h)) g1
        in obind (placeSmart (ge_obstacles E) area g2) (\<lambda>g3.
             let r0 = g_frame g3;
                 g4 = setFrameGeometry old g3;
                 r1 = (if rwidth r0 > 0 then moveLeft (rleft r0) r0 else r0);
                 r2 = (if rheight r1 > 0 then moveTop (rtop r1) r1 else r1)
             in Returns (r2, block_geometry_updates False g4)))"

definition update_frame_from_restore_geometry :: "geo_env \<Rightarrow> rect \<Rightarrow> wgeo \<Rightarrow> wgeo outcome" where
  "update_frame_from_restore_geometry E r g =
     obind (rectify_restore_geometry E r g) (\<lambda>(r', g'). Returns (setFrameGeometry r' g'))"

definition restore_body :: "geo_env \<Rightarrow> rect \<Rightarrow> wgeo \<Rightarrow> wgeo outcome" where
  "restore_body E final g =
     obind (update_frame_from_restore_geometry E final g) (\<lambda>g1.
       Returns (set_restore_geometry null_rect (update_no_border E (g1\<lparr>g_max_mode := MRestore\<rparr>))))"

definition maximize_restore :: "geo_env \<Rightarrow> wgeo \<Rightarrow> wgeo outcome" where
  "maximize_restore E g =
     (let mode = g_max_mode g; r = g_restore g;
          f1 = (if max_vertical mode then (g_frame g)\<lparr>rtop := rtop r, rbottom := rbottom r\<rparr> else g_frame g);
          f2 = (if max_horizontal mode then f1\<lparr>rleft := rleft r, rright := rright r\<rparr> else f1)
      in with_geometry_blocker (restore_body E f2) g)"

definition maximize_vertically :: "geo_env \<Rightarrow> wgeo \<Rightarrow> wgeo outcome" where
  "maximize_vertically E g =
     (let old = g_frame g; area = get_maximizing_area E g;
          pos = g_checkPosition g (rleft old, rtop area);
          sz = g_adjust g (rwidth old, rheight area) SizeFixedHeight
      in with_geometry_blocker (\<lambda>g1.
           let g2 = setFrameGeometry (rect_at pos sz) g1 in
           Returns (set_restore_geometry old (update_no_border E
             (g2\<lparr>g_max_mode := mk_mode True (max_horizontal (g_max_mode g2))\<rparr>)))) g)"

definition maximize_horizontally :: "geo_env \<Rightarrow> wgeo \<Rightarrow> wgeo outcome" where
  "maximize_horizontally E g =
     (let old = g_frame g; area = get_maximizing_area E g;
          pos = g_checkPosition g (rleft area, rtop old);
          sz = g_adjust g (rwidth area, rheight old) SizeFixedWidth
      in with_geometry_blocker (\<lambda>g1.
           let g2 = setFrameGeometry (rect_at pos sz) g1 in
           Returns (set_restore_geometry old (update_no_border E
             (g2\<lparr>g_max_mode := mk_mode (max_vertical (g_max_mode g2)) True\<rparr>)))) g)"

definition update_maximized_impl :: "geo_env \<Rightarrow> maximize_mode \<Rightarrow> wgeo \<Rightarrow> wgeo outcome" where
  "update_maximized_impl E mode g =
     oassert (g_max_mode g \<noteq> mode)
       (if mode = MRestore then maximize_restore E g
        else
          let old = g_frame g; old_mode = g_max_mode g in
          obind (if max_vertical mode
                 then obind (if max_horizontal old_mode \<and> \<not> max_horizontal mode then maximize_restore E g else Returns g)
                        (maximize_vertically E)
                 else Returns g) (\<lambda>g1.
          obind (if max_horizontal mode
                 then obind (if max_vertical old_mode \<and> \<not> max_vertical mode then maximize_restore E g1 else Returns g1)
                        (maximize_horizontally E)
                 else Returns g1) (\<lambda>g2.
          Returns (set_restore_geometry old g2))))"

text \<open>\<open>maximized_body\<close> is the scope of the blocker in \<open>update_maximized\<close>.\<close>

definition maximized_body :: "geo_env \<Rightarrow> maximize_mode \<Rightarrow> wgeo \<Rightarrow> wgeo outcome" where
  "maximized_body E mode g =
     (if mode = g_max_mode g then
        let r = g_restore g in
        obind (if max_vertical mode then maximize_vertically E g else Returns g) (\<lambda>g1.
        obind (if max_horizontal mode then maximize_horizontally E g1 else Returns g1) (\<lambda>g2.
        Returns (set_restore_geometry r g2)))
      else
        obind (if g_max_mode g \<noteq> MRestore \<and> mode \<noteq> MRestore
               then obind (update_maximized_impl E MRestore g) (\<lambda>g'. Returns (g'\<lparr>g_restore := g_restore g\<rparr>))
               else Returns g) (\<lambda>g1.
        obind (update_maximized_impl E mode g1) (\<lambda>g2.
        let old = g_quicktiling g2;
            g3 = g2\<lparr>g_quicktiling := (if mode = MFull then qt_maximize else qt_none)\<rparr>
        in Returns (if old \<noteq> g_quicktiling g3 then setFrameGeometry (g_frame g3) g3 else g3))))"

definition update_maximized :: "geo_env \<Rightarrow> maximize_mode \<Rightarrow> wgeo \<Rightarrow> wgeo outcome" where
  "update_maximized E mode g =
     (if \<not> g_resizable g \<or> ge_toolbar E then Returns g
      else with_geometry_blocker (maximized_body E (g_checkMaximize g (ge_respectAspect E mode))) g)"

text \<open>\<open>win::maximize\<close> and \<open>win::set_maximize\<close> of \<^verbatim>\<open>win/move.h\<close>.\<close>

definition win_maximize :: "geo_env \<Rightarrow> maximize_mode \<Rightarrow> wgeo \<Rightarrow> wgeo outcome" where
  "win_maximize E mode g = update_maximized E mode g"

definition set_maximize :: "geo_env \<Rightarrow> bool \<Rightarrow> bool \<Rightarrow> wgeo \<Rightarrow> wgeo outcome" where
  "set_maximize E vertically horizontally g = update_maximized E (mk_mode vertically horizontally) g"

section \<open>Under a blocker\<close>

text \<open>
  The functions run inside of the blocker of \<open>update_maximized\<close>, where each of them is a plain
  update of the record. \<open>plain\<close> collects the assumptions that make them predictable: borders do
  not change with the mode and no rule forces a geometry.
\<close>

definition plain :: "geo_env \<Rightarrow> wgeo \<Rightarrow> bool" where
  "plain E g \<longleftrightarrow> \<not> ge_borderless E \<and> (\<forall>r. g_checkGeometry g r = r)"

lemma nested_blocker:
  assumes "0 < g_block g" and "body (g\<lparr>g_block := g_block g + 1\<rparr>) = Returns g'" and "g_block g' = g_block g + 1"
  shows "with_geometry_blocker body g = Returns (g'\<lparr>g_block := g_block g\<rparr>)"
  using assms by (simp add: with_geometry_blocker_def block_geometry_updates_def Let_def)

definition keeps_restore :: "wgeo \<Rightarrow> bool" where
  "keeps_restore g \<longleftrightarrow> g_fullscreen g \<or> g_quicktiling g \<noteq> qt_none \<or> is_move g"

lemma set_restore: "set_restore_geometry r g = (if keeps_restore g then g else g\<lparr>g_restore := r\<rparr>)"
  by (simp add: set_restore_geometry_def keeps_restore_def)

lemma keeps_restore_upd [simp]:
  "keeps_restore (g\<lparr>g_block := a\<rparr>) = keeps_restore g" "keeps_restore (g\<lparr>g_frame := b\<rparr>) = keeps_restore g"
  "keeps_restore (g\<lparr>g_pending := c\<rparr>) = keeps_restore g" "keeps_restore (g\<lparr>g_max_mode := d\<rparr>) = keeps_restore g"
  "keeps_restore (g\<lparr>g_restore := r\<rparr>) = keeps_restore g"
  by (simp_all add: keeps_restore_def is_move_def)

definition requested :: "rect \<Rightarrow> maximize_mode \<Rightarrow> rect \<Rightarrow> wgeo \<Rightarrow> wgeo" where
  "requested f m r g = g\<lparr>g_frame := f, g_pending := PendingNormal, g_max_mode := m,
     g_restore := (if keeps_restore g then g_restore g else r)\<rparr>"

lemma vertically_blocked:
  assumes "0 < g_block g" "plain E g"
  shows "\<exists>f. maximize_vertically E g = Returns (requested f (mk_mode True (max_horizontal (g_max_mode g))) (g_frame g) g)"
proof -
  let ?f = "rect_at (g_checkPosition g (rleft (g_frame g), rtop (get_maximizing_area E g)))
      (g_adjust g (rwidth (g_frame g), rheight (get_maximizing_area E g)) SizeFixedHeight)"
  have "maximize_vertically E g = Returns (requested ?f (mk_mode True (max_horizontal (g_max_mode g))) (g_frame g) g)"
    unfolding maximize_vertically_def Let_def
    by (subst nested_blocker [OF assms(1) refl])
      (use assms in \<open>simp_all add: requested_def set_restore blocked_set plain_def update_no_border_def\<close>)
  then show ?thesis ..
qed

lemma horizontally_blocked:
  assumes "0 < g_block g" "plain E g"
  shows "\<exists>f. maximize_horizontally E g = Returns (requested f (mk_mode (max_vertical (g_max_mode g)) True) (g_frame g) g)"
proof -
  let ?f = "rect_at (g_checkPosition g (rleft (get_maximizing_area E g), rtop (g_frame g)))
      (g_adjust g (rwidth (get_maximizing_area E g), rheight (g_frame g)) SizeFixedWidth)"
  have "maximize_horizontally E g = Returns (requested ?f (mk_mode (max_vertical (g_max_mode g)) True) (g_frame g) g)"
    unfolding maximize_horizontally_def Let_def
    by (subst nested_blocker [OF assms(1) refl])
      (use assms in \<open>simp_all add: requested_def set_restore blocked_set plain_def update_no_border_def\<close>)
  then show ?thesis ..
qed

lemma restore_blocked:
  assumes "0 < g_block g" "plain E g" "g_max_mode g = MFull" "rvalid (g_restore g)"
  shows "maximize_restore E g = Returns (requested (g_restore g) MRestore null_rect g)"
proof -
  let ?g = "g\<lparr>g_block := g_block g + 1\<rparr>"
  have frame: "(g_frame g)\<lparr>rtop := rtop (g_restore g), rbottom := rbottom (g_restore g),
      rleft := rleft (g_restore g), rright := rright (g_restore g)\<rparr> = g_restore g"
    by (cases "g_restore g") simp
  have "restore_body E (g_restore g) ?g = Returns (requested (g_restore g) MRestore null_rect ?g)"
    using assms by (simp add: restore_body_def requested_def set_restore blocked_set plain_def update_no_border_def
        update_frame_from_restore_geometry_def rectify_restore_geometry_def)
  from nested_blocker [of g "restore_body E (g_restore g)", OF assms(1) this] show ?thesis
    using assms(3) by (simp add: maximize_restore_def max_vertical_def max_horizontal_def frame requested_def)
qed

section \<open>The round trip\<close>

lemma outer_blocker:
  assumes "0 \<le> g_block g" and "\<forall>r. g_checkGeometry g r = r"
    and "body (g\<lparr>g_block := g_block g + 1\<rparr>) = Returns g'" and "g_block g' = g_block g + 1"
    and "g_pending g' = PendingNormal" and "g_checkGeometry g' = g_checkGeometry g"
  shows "\<exists>g''. with_geometry_blocker body g = Returns g'' \<and> g_frame g'' = g_frame g' \<and>
    g_max_mode g'' = g_max_mode g' \<and> g_restore g'' = g_restore g' \<and> g_quicktiling g'' = g_quicktiling g' \<and>
    g_block g'' = g_block g \<and> g_checkGeometry g'' = g_checkGeometry g \<and> g_resizable g'' = g_resizable g' \<and>
    g_checkMaximize g'' = g_checkMaximize g'"
  using assms by (auto simp: with_geometry_blocker_def block_geometry_updates_def setFrameGeometry_def Let_def)

lemma maximize_full:
  assumes "0 < g_block g" "plain E g" "g_max_mode g = MRestore" "\<not> keeps_restore g"
  shows "\<exists>f. update_maximized_impl E MFull g = Returns (requested f MFull (g_frame g) g)"
proof -
  obtain f1 where v: "maximize_vertically E g = Returns (requested f1 MVertical (g_frame g) g)" (is "_ = Returns ?g1")
    using vertically_blocked [OF assms(1,2)] assms(3) by (auto simp: mk_mode_def max_horizontal_def)
  have "0 < g_block ?g1" "plain E ?g1" using assms by (simp_all add: requested_def plain_def)
  from horizontally_blocked [OF this] obtain f2 where
    h: "maximize_horizontally E ?g1 = Returns (requested f2 MFull f1 ?g1)"
    by (auto simp: mk_mode_def max_vertical_def requested_def)
  from assms v h have "update_maximized_impl E MFull g = Returns (requested f2 MFull (g_frame g) g)"
    by (simp add: update_maximized_impl_def max_vertical_def max_horizontal_def)
      (simp add: requested_def set_restore)
  then show ?thesis ..
qed

text \<open>
  C37. Maximizing a window in both directions and restoring it brings the requested frame back to
  where it was, whatever area it was maximized to and whatever the size hints made of it, and
  leaves neither a mode nor a tile behind. What it does leave behind is the restore geometry: it
  is still the old frame afterwards, because the tile \<open>maximize\<close>, which is only removed later,
  protects it from being reset.
\<close>

theorem maximize_round_trip:
  assumes "0 \<le> g_block g" and "plain E g" and "g_max_mode g = MRestore" and "\<not> keeps_restore g"
    and "rvalid (g_frame g)" and "g_resizable g" and "\<not> ge_toolbar E"
    and "\<And>m. g_checkMaximize g m = m" and "\<And>m. ge_respectAspect E m = m"
  shows "\<exists>g1 g2. set_maximize E True True g = Returns g1 \<and> g_max_mode g1 = MFull \<and>
    g_restore g1 = g_frame g \<and> g_quicktiling g1 = qt_maximize \<and>
    set_maximize E False False g1 = Returns g2 \<and> g_frame g2 = g_frame g \<and>
    g_max_mode g2 = MRestore \<and> g_quicktiling g2 = qt_none \<and> g_restore g2 = g_frame g"
proof -
  let ?up = "\<lambda>g. g\<lparr>g_block := g_block g + 1\<rparr>"
  have geo: "\<forall>r. g_checkGeometry g r = r" using assms(2) by (simp add: plain_def)
  have up: "0 < g_block (?up g)" "plain E (?up g)" "g_max_mode (?up g) = MRestore" "\<not> keeps_restore (?up g)"
    using assms by (simp_all add: plain_def)
  obtain f where f: "update_maximized_impl E MFull (?up g) = Returns (requested f MFull (g_frame g) (?up g))"
    using maximize_full [OF up] by auto
  have none: "g_quicktiling g = qt_none" using assms(4) by (simp add: keeps_restore_def)
  have tiles: "qt_none \<noteq> qt_maximize" by (simp add: qt_none_def qt_maximize_def)
  let ?h = "(requested f MFull (g_frame g) (?up g))\<lparr>g_quicktiling := qt_maximize\<rparr>"
  have "setFrameGeometry (g_frame ?h) ?h = ?h"
    using assms(1) geo by (simp add: blocked_set requested_def)
  moreover have "g_quicktiling (requested f MFull (g_frame g) (?up g)) = qt_none" by (simp add: requested_def none)
  ultimately have "maximized_body E MFull (?up g) = Returns ?h"
    using f assms(3) tiles by (simp add: maximized_body_def Let_def)
  from outer_blocker [of g "maximized_body E MFull", OF assms(1) geo this] assms(4,6-)
  obtain g1 where g1: "set_maximize E True True g = Returns g1"
      "g_frame g1 = f" "g_max_mode g1 = MFull" "g_restore g1 = g_frame g" "g_quicktiling g1 = qt_maximize"
      "g_block g1 = g_block g" "g_checkGeometry g1 = g_checkGeometry g" "g_resizable g1" "g_checkMaximize g1 = g_checkMaximize g"
    by (auto simp: set_maximize_def update_maximized_def mk_mode_def requested_def)
  let ?k = "requested (g_frame g) MRestore null_rect (?up g1)"
  have "maximize_restore E (?up g1) = Returns ?k"
    using restore_blocked [of "?up g1" E] g1 assms(1,2,5) by (simp add: plain_def)
  then have r: "update_maximized_impl E MRestore (?up g1) = Returns ?k"
    using g1 by (simp add: update_maximized_impl_def)
  let ?l = "?k\<lparr>g_quicktiling := qt_none\<rparr>"
  have "setFrameGeometry (g_frame ?l) ?l = ?l"
    using assms(1) geo g1 by (simp add: blocked_set requested_def)
  moreover have "g_restore ?k = g_frame g" "g_quicktiling ?k = qt_maximize"
    using g1 tiles by (simp_all add: requested_def keeps_restore_def)
  ultimately have "maximized_body E MRestore (?up g1) = Returns ?l"
    using r g1 tiles by (simp add: maximized_body_def Let_def)
  from outer_blocker [of g1 "maximized_body E MRestore", OF _ _ this] g1 assms(1,7-) geo tiles
  obtain g2 where "set_maximize E False False g1 = Returns g2" "g_frame g2 = g_frame g"
      "g_max_mode g2 = MRestore" "g_quicktiling g2 = qt_none" "g_restore g2 = g_frame g"
    by (auto simp: set_maximize_def update_maximized_def mk_mode_def requested_def keeps_restore_def)
  with g1 show ?thesis by blast
qed

definition demo_geo_env :: geo_env where
  "demo_geo_env = \<lparr>ge_area = (\<lambda>_ _. mk_rect 0 0 1280 1024), ge_obstacles = [], ge_cursor = (0, 0),
     ge_borderless = False, ge_setNoBorder = (\<lambda>_ g. g), ge_toolbar = False, ge_respectAspect = id\<rparr>"

theorem maximize_round_trip_witness:
  "\<exists>g1 g2. set_maximize demo_geo_env True True demo_geo = Returns g1 \<and>
     set_maximize demo_geo_env False False g1 = Returns g2 \<and> g_frame g2 = mk_rect 0 0 100 100 \<and>
     g_restore g2 = mk_rect 0 0 100 100"
  using maximize_round_trip [of demo_geo demo_geo_env]
  by (auto simp: demo_geo_def demo_geo_env_def plain_def keeps_restore_def is_move_def rvalid_def mk_rect_def)

end
