(* ===== verification/Client_Area.thy ===== *)
theory Client_Area
  imports Screens Window_Examples
begin

text \<open>
  The areas available to windows: \<open>Workspace::clientArea\<close> with the vectors \<open>workarea\<close>,
  \<open>screenarea\<close> and \<open>restrictedmovearea\<close> (\<^verbatim>\<open>workspace.cpp\<close>), and their computation from
  the struts of X11 windows (\<^verbatim>\<open>win/x11/geo.h\<close>) and of Wayland panels.

  The struts an X11 window announces are data of its \<open>NETWinInfo\<close>; whether a Wayland window
  reserves space is the answer of its \<open>hasStrut\<close>. A \<open>QRegion\<close> is a list of rectangles.
\<close>

section \<open>State\<close>

datatype strut_area = StrutAreaInvalid | StrutAreaTop | StrutAreaRight | StrutAreaBottom | StrutAreaLeft

type_synonym strut_rect = "rect \<times> strut_area"

record ext_strut =
  left_width :: int
  left_start :: int
  left_end :: int
  right_width :: int
  right_start :: int
  right_end :: int
  top_width :: int
  top_start :: int
  top_end :: int
  bottom_width :: int
  bottom_start :: int
  bottom_end :: int

record net_strut =
  str_left :: int
  str_right :: int
  str_top :: int
  str_bottom :: int

record strut_info =
  si_extended :: ext_strut
  si_strut :: net_strut
  si_wayland :: bool

record space =
  sp_outputs :: "rect list"
  sp_screens :: screens
  sp_desk :: desk_view
  sp_currentScreen :: int
  sp_workarea :: "rect list"
  sp_restricted :: "strut_rect list list"
  sp_oldRestricted :: "strut_rect list list"
  sp_screenarea :: "rect list list"
  sp_oldDisplaySize :: qsize
  sp_oldScreenSizes :: "rect list"

abbreviation sp_displaySize :: "space \<Rightarrow> qsize" where
  "sp_displaySize S \<equiv> scr_boundingSize (sp_screens S)"

abbreviation sp_nscreens :: "space \<Rightarrow> nat" where
  "sp_nscreens S \<equiv> nat (scr_count (sp_screens S))"

abbreviation sp_ndesktops :: "space \<Rightarrow> nat" where
  "sp_ndesktops S \<equiv> length (dv_desktops (sp_desk S))"

section \<open>Asking for an area\<close>

text \<open>Reading a vector at an \<open>int\<close> index.\<close>

definition at_index :: "'a list \<Rightarrow> int \<Rightarrow> 'a outcome" where
  "at_index xs i = (if 0 \<le> i \<and> i < int (length xs) then Returns (xs ! nat i) else Faults OutOfRange)"

definition area_desktop :: "space \<Rightarrow> int \<Rightarrow> int" where
  "area_desktop S desktop =
     (if desktop = NET_OnAllDesktops \<or> desktop = 0 then int (dv_current (sp_desk S)) else desktop)"

definition clientArea :: "space \<Rightarrow> area_option \<Rightarrow> int \<Rightarrow> int \<Rightarrow> rect outcome" where
  "clientArea S opt screen0 desktop0 =
     (let desktop = area_desktop S desktop0;
          screen = (if screen0 = -1 then sp_currentScreen S else screen0);
          display = mk_rect 0 0 (fst (sp_displaySize S)) (snd (sp_displaySize S));
          geo = screens_geometry (sp_outputs S) screen
      in obind (if sp_screenarea S = [] then Returns geo
                else obind (at_index (sp_screenarea S) desktop)
                  (\<lambda>areas. if screen < int (length areas) then at_index areas screen else Returns geo))
        (\<lambda>sarea. obind (at_index (sp_workarea S) desktop)
          (\<lambda>wa. let warea = (if rnull wa then display else wa) in
            Returns (case opt of
                MaximizeArea \<Rightarrow> sarea
              | PlacementArea \<Rightarrow> sarea
              | MaximizeFullArea \<Rightarrow> geo
              | FullScreenArea \<Rightarrow> geo
              | MovementArea \<Rightarrow> geo
              | ScreenArea \<Rightarrow> geo
              | WorkArea \<Rightarrow> warea
              | FullArea \<Rightarrow> display))))"

definition clientArea_point :: "space \<Rightarrow> area_option \<Rightarrow> point \<Rightarrow> int \<Rightarrow> rect outcome" where
  "clientArea_point S opt p desktop = clientArea S opt (screens_number (sp_outputs S) p) desktop"

definition clientArea_window :: "space \<Rightarrow> area_option \<Rightarrow> window \<Rightarrow> rect outcome" where
  "clientArea_window S opt w =
     clientArea_point S opt (rcenter (pending_frame_geometry (w_geo w))) (win_desktop (sp_desk S) w)"

text \<open>
  The area function of a desktop, for the operations on the geometry of a window; it is only used
  where \<open>clientArea\<close> returns.
\<close>

definition area_of :: "space \<Rightarrow> int \<Rightarrow> area_fun" where
  "area_of S desktop opt p = (case clientArea_point S opt p desktop of Returns r \<Rightarrow> r | _ \<Rightarrow> null_rect)"

definition strutsToRegion :: "space \<Rightarrow> int \<Rightarrow> strut_area \<Rightarrow> strut_rect list list \<Rightarrow> rect list outcome" where
  "strutsToRegion S desktop area struts =
     obind (at_index struts (area_desktop S desktop))
       (\<lambda>rects. Returns (map fst (filter (\<lambda>r. snd r = area \<and> area \<noteq> StrutAreaInvalid \<and> \<not> rempty (fst r)) rects)))"

definition restrictedMoveArea :: "space \<Rightarrow> int \<Rightarrow> strut_area \<Rightarrow> rect list outcome" where
  "restrictedMoveArea S desktop area = strutsToRegion S desktop area (sp_restricted S)"

definition previousRestrictedMoveArea :: "space \<Rightarrow> int \<Rightarrow> strut_area \<Rightarrow> rect list outcome" where
  "previousRestrictedMoveArea S desktop area = strutsToRegion S desktop area (sp_oldRestricted S)"

definition inUpdateClientArea :: "space \<Rightarrow> bool" where
  "inUpdateClientArea S \<longleftrightarrow> sp_oldRestricted S \<noteq> []"

definition saveOldScreenSizes :: "space \<Rightarrow> space" where
  "saveOldScreenSizes S =
     S\<lparr>sp_oldDisplaySize := sp_displaySize S,
       sp_oldScreenSizes := map (\<lambda>i. screens_geometry (sp_outputs S) (int i)) [0..<sp_nscreens S]\<rparr>"

section \<open>Struts of X11 windows\<close>

definition x11_strut :: "qsize \<Rightarrow> strut_info \<Rightarrow> ext_strut" where
  "x11_strut display i =
     (let ext = si_extended i; s = si_strut i in
      if left_width ext = 0 \<and> right_width ext = 0 \<and> top_width ext = 0 \<and> bottom_width ext = 0 \<and>
         (str_left s \<noteq> 0 \<or> str_right s \<noteq> 0 \<or> str_top s \<noteq> 0 \<or> str_bottom s \<noteq> 0)
      then
        let e1 = (if str_left s \<noteq> 0
                  then ext\<lparr>left_width := str_left s, left_start := 0, left_end := snd display\<rparr> else ext);
            e2 = (if str_right s \<noteq> 0
                  then e1\<lparr>right_width := str_right s, right_start := 0, right_end := snd display\<rparr> else e1);
            e3 = (if str_top s \<noteq> 0
                  then e2\<lparr>top_width := str_top s, top_start := 0, top_end := fst display\<rparr> else e2)
        in (if str_bottom s \<noteq> 0
            then e3\<lparr>bottom_width := str_bottom s, bottom_start := 0, bottom_end := fst display\<rparr> else e3)
      else ext)"

definition x11_hasStrut :: "qsize \<Rightarrow> strut_info \<Rightarrow> bool" where
  "x11_hasStrut display i \<longleftrightarrow>
     (let ext = x11_strut display i in
      \<not> (left_width ext = 0 \<and> right_width ext = 0 \<and> top_width ext = 0 \<and> bottom_width ext = 0))"

text \<open>\<open>screenarea\<close> is \<open>clientArea(ScreenArea, win)\<close>.\<close>

definition adjusted_client_area :: "qsize \<Rightarrow> strut_info \<Rightarrow> rect \<Rightarrow> rect \<Rightarrow> rect \<Rightarrow> rect" where
  "adjusted_client_area display i screenarea desktopArea area =
     (let str = x11_strut display i;
          l0 = mk_rect 0 (left_start str) (left_width str) (left_end str - left_start str + 1);
          r0 = mk_rect (rright desktopArea - right_width str + 1) (right_start str) (right_width str)
                 (right_end str - right_start str + 1);
          t0 = mk_rect (top_start str) 0 (top_end str - top_start str + 1) (top_width str);
          b0 = mk_rect (bottom_start str) (rbottom desktopArea - bottom_width str + 1)
                 (bottom_end str - bottom_start str + 1) (bottom_width str);
          all = (area = mk_rect 0 0 (fst display) (snd display));
          l1 = (if all \<and> rleft l0 < rleft screenarea then null_rect else l0);
          r1 = (if all \<and> rright r0 > rright screenarea then null_rect else r0);
          t1 = (if all \<and> rtop t0 < rtop screenarea then null_rect else t0);
          b1 = (if all \<and> rbottom b0 < rbottom screenarea then null_rect else b0);
          l2 = l1\<lparr>rleft := max (rleft l1) (rleft screenarea)\<rparr>;
          r2 = r1\<lparr>rright := min (rright r1) (rright screenarea)\<rparr>;
          t2 = t1\<lparr>rtop := max (rtop t1) (rtop screenarea)\<rparr>;
          b2 = b1\<lparr>rbottom := min (rbottom b1) (rbottom screenarea)\<rparr>;
          a1 = (if rintersects l2 area then area\<lparr>rleft := rright l2 + 1\<rparr> else area);
          a2 = (if rintersects r2 area then a1\<lparr>rright := rleft r2 - 1\<rparr> else a1);
          a3 = (if rintersects t2 area then a2\<lparr>rtop := rbottom t2 + 1\<rparr> else a2)
      in (if rintersects b2 area then a3\<lparr>rbottom := rtop b2 - 1\<rparr> else a3))"

fun strut_rect_of :: "qsize \<Rightarrow> strut_info \<Rightarrow> strut_area \<Rightarrow> strut_rect" where
  "strut_rect_of display i StrutAreaTop =
     (let s = x11_strut display i in
      if top_width s \<noteq> 0
      then (mk_rect (top_start s) 0 (top_end s - top_start s) (top_width s), StrutAreaTop)
      else (null_rect, StrutAreaInvalid))"
| "strut_rect_of display i StrutAreaRight =
     (let s = x11_strut display i in
      if right_width s \<noteq> 0
      then (mk_rect (fst display - right_width s) (right_start s) (right_width s) (right_end s - right_start s),
            StrutAreaRight)
      else (null_rect, StrutAreaInvalid))"
| "strut_rect_of display i StrutAreaBottom =
     (let s = x11_strut display i in
      if bottom_width s \<noteq> 0
      then (mk_rect (bottom_start s) (snd display - bottom_width s) (bottom_end s - bottom_start s) (bottom_width s),
            StrutAreaBottom)
      else (null_rect, StrutAreaInvalid))"
| "strut_rect_of display i StrutAreaLeft =
     (let s = x11_strut display i in
      if left_width s \<noteq> 0
      then (mk_rect 0 (left_start s) (left_width s) (left_end s - left_start s), StrutAreaLeft)
      else (null_rect, StrutAreaInvalid))"
| "strut_rect_of display i StrutAreaInvalid = (null_rect, StrutAreaInvalid)"

definition strut_rects :: "qsize \<Rightarrow> strut_info \<Rightarrow> strut_rect list" where
  "strut_rects display i =
     map (strut_rect_of display i) [StrutAreaTop, StrutAreaRight, StrutAreaBottom, StrutAreaLeft]"

text \<open>\<open>QRegion::operator-=\<close> on the rectangles of a region.\<close>

definition rect_minus :: "rect \<Rightarrow> rect \<Rightarrow> rect list" where
  "rect_minus r s =
     (if rempty r then []
      else if rempty s \<or> \<not> rintersects r s then [r]
      else filter (\<lambda>p. \<not> rempty p)
        [r\<lparr>rbottom := rtop s - 1\<rparr>, r\<lparr>rtop := rbottom s + 1\<rparr>,
         r\<lparr>rtop := max (rtop r) (rtop s), rbottom := min (rbottom r) (rbottom s), rright := rleft s - 1\<rparr>,
         r\<lparr>rtop := max (rtop r) (rtop s), rbottom := min (rbottom r) (rbottom s), rleft := rright s + 1\<rparr>])"

definition region_minus :: "rect list \<Rightarrow> rect \<Rightarrow> rect list" where
  "region_minus rs s = concat (map (\<lambda>r. rect_minus r s) rs)"

definition has_offscreen_xinerama_strut :: "space \<Rightarrow> strut_info \<Rightarrow> bool" where
  "has_offscreen_xinerama_strut S i \<longleftrightarrow>
     fold (\<lambda>k region. region_minus region (screens_geometry (sp_outputs S) (int k))) [0..<sp_nscreens S]
       (filter (\<lambda>r. \<not> rempty r) (map fst (strut_rects (sp_displaySize S) i))) \<noteq> []"

section \<open>Computing the areas\<close>

text \<open>
  The three vectors \<open>updateClientArea\<close> fills in, indexed by the number of the desktop; the entry
  0 is not used.
\<close>

record areas =
  ar_work :: "rect list"
  ar_move :: "strut_rect list list"
  ar_screen :: "rect list list"

definition desktop_area :: "space \<Rightarrow> rect" where
  "desktop_area S = fold (\<lambda>i d. runited d (screens_geometry (sp_outputs S) (int i))) [0..<sp_nscreens S] null_rect"

definition screen_rects :: "space \<Rightarrow> rect list" where
  "screen_rects S = map (\<lambda>i. screens_geometry (sp_outputs S) (int i)) [0..<sp_nscreens S]"

definition initial_areas :: "space \<Rightarrow> areas" where
  "initial_areas S =
     \<lparr>ar_work = null_rect # replicate (sp_ndesktops S) (desktop_area S),
      ar_move = replicate (Suc (sp_ndesktops S)) [],
      ar_screen = [] # replicate (sp_ndesktops S) (screen_rects S)\<rparr>"

text \<open>
  What one window does to the areas of desktop \<open>i\<close>: \<open>warea\<close> and \<open>sarea\<close> change the work area
  and the area of a screen, \<open>struts\<close> are added to the restricted ones. The vectors are accessed out
  of range when \<open>i\<close> is not the number of a desktop.
\<close>

definition shrink_desktop ::
  "space \<Rightarrow> (rect \<Rightarrow> rect) \<Rightarrow> (rect \<Rightarrow> rect \<Rightarrow> rect) \<Rightarrow> strut_rect list \<Rightarrow> int \<Rightarrow> areas \<Rightarrow> areas outcome" where
  "shrink_desktop S warea sarea struts i A =
     (if i < 0 \<or> i > int (sp_ndesktops S) \<or> (i = 0 \<and> sp_nscreens S \<noteq> 0) then Faults OutOfRange
      else Returns (A\<lparr>ar_work := (ar_work A)[nat i := warea (ar_work A ! nat i)],
              ar_move := (ar_move A)[nat i := ar_move A ! nat i @ struts],
              ar_screen := (ar_screen A)[nat i := map2 sarea (screen_rects S) (ar_screen A ! nat i)]\<rparr>))"

definition window_desktops :: "space \<Rightarrow> window \<Rightarrow> int list" where
  "window_desktops S w =
     (if on_all_desktops (sp_desk S) w then map int [1..<Suc (sp_ndesktops S)]
      else [win_desktop (sp_desk S) w])"

definition x11_strut_window :: "space \<Rightarrow> (addr \<Rightarrow> strut_info) \<Rightarrow> wstore \<Rightarrow> addr \<Rightarrow> areas \<Rightarrow> areas outcome" where
  "x11_strut_window S info W a A =
     (if \<not> w_x11 (W a) \<or> \<not> x11_hasStrut (sp_displaySize S) (info a) then Returns A
      else obind (clientArea_window S ScreenArea (W a)) (\<lambda>screenarea.
        let adjusted = adjusted_client_area (sp_displaySize S) (info a) screenarea (desktop_area S);
            r0 = adjusted (desktop_area S);
            r = (if list_all (rintersects r0) (screen_rects S) then r0 else desktop_area S);
            clientsScreenRect = screens_geometry (sp_outputs S) (w_screen (W a));
            struts = map (\<lambda>sr. (rintersected (fst sr) clientsScreenRect, snd sr))
                       (strut_rects (sp_displaySize S) (info a));
            offscreen = has_offscreen_xinerama_strut S (info a)
        in ofold (shrink_desktop S (\<lambda>wa. if offscreen then wa else rintersected wa r)
               (\<lambda>screen sa. let geo = rintersected sa (adjusted screen) in if \<not> rempty geo then geo else sa)
               struts)
             (window_desktops S (W a)) A))"

definition wayland_margins :: "rect \<Rightarrow> rect \<Rightarrow> margins" where
  "wayland_margins frame geometry =
     (if \<not> rintersects geometry frame then no_margins
      else
        let l = (rleft frame = rleft geometry); r = (rright frame = rright geometry);
            t = (rtop frame = rtop geometry); b = (rbottom frame = rbottom geometry);
            horizontal = (rwidth frame \<ge> rheight frame)
        in \<lparr>mleft = (if l \<and> ((\<not> t \<and> \<not> b) \<or> \<not> horizontal) then rwidth frame else 0),
            mtop = (if t \<and> ((\<not> l \<and> \<not> r) \<or> horizontal) then rheight frame else 0),
            mright = (if r \<and> ((\<not> t \<and> \<not> b) \<or> \<not> horizontal) then rwidth frame else 0),
            mbottom = (if b \<and> ((\<not> l \<and> \<not> r) \<or> horizontal) then rheight frame else 0)\<rparr>)"

definition marginsToStrutArea :: "margins \<Rightarrow> strut_area" where
  "marginsToStrutArea m =
     (if mleft m \<noteq> 0 then StrutAreaLeft else if mright m \<noteq> 0 then StrutAreaRight
      else if mtop m \<noteq> 0 then StrutAreaTop else if mbottom m \<noteq> 0 then StrutAreaBottom
      else StrutAreaInvalid)"

definition wayland_strut_window :: "space \<Rightarrow> (addr \<Rightarrow> strut_info) \<Rightarrow> wstore \<Rightarrow> addr \<Rightarrow> areas \<Rightarrow> areas outcome" where
  "wayland_strut_window S info W a A =
     (if \<not> si_wayland (info a) then Returns A
      else
        let frame = w_frameGeometry (W a);
            strut = wayland_margins frame (screens_geometry (sp_outputs S) (w_screen (W a)));
            struts = [(frame, marginsToStrutArea strut)];
            display = mk_rect 0 0 (fst (sp_displaySize S)) (snd (sp_displaySize S));
            r = rsub (desktop_area S) (wayland_margins frame display)
        in ofold (shrink_desktop S (\<lambda>wa. rintersected wa r)
               (\<lambda>screen sa. rintersected sa (rsub screen (wayland_margins frame screen))) struts)
             (window_desktops S (W a)) A)"

text \<open>\<open>wayland\<close> are the windows of the Wayland server, the empty list without one.\<close>

definition computed_areas ::
  "space \<Rightarrow> (addr \<Rightarrow> strut_info) \<Rightarrow> wstore \<Rightarrow> addr list \<Rightarrow> addr list \<Rightarrow> areas outcome" where
  "computed_areas S info W allClients wayland =
     obind (ofold (x11_strut_window S info W) allClients (initial_areas S))
       (ofold (wayland_strut_window S info W) wayland)"

text \<open>The comparison with the areas in force, desktop by desktop until a difference is found.\<close>

fun areas_differ :: "areas \<Rightarrow> space \<Rightarrow> nat list \<Rightarrow> bool outcome" where
  "areas_differ A S [] = Returns False"
| "areas_differ A S (i # is) =
     obind (at_index (sp_workarea S) (int i)) (\<lambda>wa.
     obind (at_index (sp_restricted S) (int i)) (\<lambda>mv.
     obind (at_index (sp_screenarea S) (int i)) (\<lambda>sa.
       if wa \<noteq> ar_work A ! i \<or> mv \<noteq> ar_move A ! i \<or> sa \<noteq> ar_screen A ! i then Returns True
       else areas_differ A S is)))"

definition areas_changed :: "bool \<Rightarrow> areas \<Rightarrow> space \<Rightarrow> bool outcome" where
  "areas_changed force A S =
     (if force \<or> sp_screenarea S = [] then Returns True else areas_differ A S [1..<Suc (sp_ndesktops S)])"

definition assign_areas :: "areas \<Rightarrow> space \<Rightarrow> space" where
  "assign_areas A S = S\<lparr>sp_workarea := ar_work A, sp_oldRestricted := sp_restricted S,
     sp_restricted := ar_move A, sp_screenarea := ar_screen A\<rparr>"

definition resetClientAreas :: "nat \<Rightarrow> space \<Rightarrow> space" where
  "resetClientAreas n S =
     S\<lparr>sp_workarea := replicate (Suc n) null_rect, sp_restricted := replicate (Suc n) [], sp_screenarea := []\<rparr>"

section \<open>Properties\<close>

text \<open>Rectangles as Qt's set operations yield them: no side is negative.\<close>

definition rproper :: "rect \<Rightarrow> bool" where
  "rproper r \<longleftrightarrow> 0 \<le> rwidth r \<and> 0 \<le> rheight r"

definition covered_by :: "rect \<Rightarrow> rect \<Rightarrow> bool" where
  "covered_by a b \<longleftrightarrow> rproper a \<and> (rempty a \<or> rwithin a b)"

lemma rnorm_proper: "rproper r \<Longrightarrow> rnorm r = r" "rproper (rnorm r)"
  by (auto simp: rproper_def rnorm_def rwidth_def rheight_def)

lemma rintersected_proper:
  assumes "rproper a"
  shows "rproper (rintersected a b) \<and> (rempty (rintersected a b) \<or> rwithin (rintersected a b) a \<and> \<not> rempty a)"
proof (cases "rintersected a b = null_rect")
  case True
  then show ?thesis by (simp add: rproper_def rempty_def null_rect_def mk_rect_def rwidth_def rheight_def)
next
  case False
  define b' where "b' = rnorm b"
  have b: "rproper b'" by (simp add: b'_def rnorm_proper)
  have r: "rintersected a b = \<lparr>rleft = max (rleft a) (rleft b'), rtop = max (rtop a) (rtop b'),
      rright = min (rright a) (rright b'), rbottom = min (rbottom a) (rbottom b')\<rparr>"
    and meet: "\<not> (rleft a > rright b' \<or> rleft b' > rright a \<or> rtop a > rbottom b' \<or> rtop b' > rbottom a)"
    using False by (auto simp: rintersected_def rnorm_proper(1) [OF assms] b'_def Let_def split: if_splits)
  show ?thesis using meet assms b unfolding r
    by (auto simp: rproper_def rempty_def rwithin_def rwidth_def rheight_def)
qed

lemma covered_intersected: "covered_by a s \<Longrightarrow> covered_by (rintersected a b) s"
  using rintersected_proper [of a b] by (auto simp: covered_by_def rwithin_def)

lemma covered_valid: "rvalid r \<Longrightarrow> covered_by r r \<and> \<not> rempty r"
  by (auto simp: covered_by_def rproper_def rvalid_def rwithin_def rempty_def rwidth_def rheight_def)

definition outputs_ok :: "space \<Rightarrow> bool" where
  "outputs_ok S \<longleftrightarrow> scr_count (sp_screens S) = int (length (sp_outputs S)) \<and> (\<forall>r \<in> set (sp_outputs S). rvalid r)"

lemma screen_rects_outputs: "outputs_ok S \<Longrightarrow> screen_rects S = sp_outputs S"
  by (auto simp: outputs_ok_def screen_rects_def screens_geometry_def screens_findOutput_def intro!: nth_equalityI)

lemma desktop_area_covered: "outputs_ok S \<Longrightarrow> covered_by (desktop_area S) (desktop_area S)"
proof -
  assume ok: "outputs_ok S"
  have step: "rnull d \<or> rvalid d \<Longrightarrow> rvalid r \<Longrightarrow> rvalid (runited d r)" for d r
    by (auto simp: runited_def rvalid_def rnull_def rnorm_def rwidth_def rheight_def Let_def)
  have "(rnull d \<or> rvalid d) \<Longrightarrow> \<forall>r \<in> set rs. rvalid r \<Longrightarrow> rnull (fold (\<lambda>r d. runited d r) rs d) \<or>
      rvalid (fold (\<lambda>r d. runited d r) rs d)" for rs d
    by (induction rs arbitrary: d) (auto simp: step)
  moreover have "desktop_area S = fold (\<lambda>r d. runited d r) (screen_rects S) null_rect"
    by (simp add: desktop_area_def screen_rects_def fold_map comp_def)
  moreover have "rnull null_rect" by (simp add: rnull_def null_rect_def mk_rect_def)
  ultimately have "rnull (desktop_area S) \<or> rvalid (desktop_area S)"
    using ok by (simp add: screen_rects_outputs) (auto simp: outputs_ok_def)
  then show ?thesis
    by (auto simp: covered_by_def rproper_def rempty_def rnull_def rvalid_def rwithin_def rwidth_def rheight_def)
qed

text \<open>The invariant of the computation; \<open>full\<close> says that no screen has lost its whole area.\<close>

definition areas_ok :: "bool \<Rightarrow> space \<Rightarrow> areas \<Rightarrow> bool" where
  "areas_ok full S A \<longleftrightarrow>
     length (ar_work A) = Suc (sp_ndesktops S) \<and> length (ar_move A) = Suc (sp_ndesktops S) \<and>
     length (ar_screen A) = Suc (sp_ndesktops S) \<and>
     (\<forall>d \<in> {1..sp_ndesktops S}. covered_by (ar_work A ! d) (desktop_area S) \<and>
        list_all2 (\<lambda>a s. covered_by a s \<and> (full \<longrightarrow> \<not> rempty a)) (ar_screen A ! d) (sp_outputs S))"

lemma initial_areas_ok: "outputs_ok S \<Longrightarrow> areas_ok full S (initial_areas S)"
proof -
  assume ok: "outputs_ok S"
  have "list_all2 (\<lambda>a s. covered_by a s \<and> (full \<longrightarrow> \<not> rempty a)) (sp_outputs S) (sp_outputs S)"
    using ok covered_valid by (auto simp: outputs_ok_def list_all2_conv_all_nth)
  with desktop_area_covered [OF ok] show ?thesis
    by (auto simp: areas_ok_def initial_areas_def nth_Cons' screen_rects_outputs [OF ok] simp del: replicate_Suc)
qed

lemma nth_list_update_at: "d < length xs \<Longrightarrow> xs[k := v] ! d = (if d = k then v else xs ! d)"
  by simp

lemma shrink_desktop_ok:
  assumes "areas_ok full S A" and "outputs_ok S" and "shrink_desktop S warea sarea struts i A = Returns A'"
    and work: "\<And>w. covered_by w (desktop_area S) \<Longrightarrow> covered_by (warea w) (desktop_area S)"
    and screen: "\<And>s a. covered_by a s \<and> (full \<longrightarrow> \<not> rempty a) \<Longrightarrow> covered_by (sarea s a) s \<and> (full \<longrightarrow> \<not> rempty (sarea s a))"
  shows "areas_ok full S A'"
proof -
  let ?n = "sp_ndesktops S" and ?d = "nat i"
  have A': "A' = A\<lparr>ar_work := (ar_work A)[?d := warea (ar_work A ! ?d)],
      ar_move := (ar_move A)[?d := ar_move A ! ?d @ struts],
      ar_screen := (ar_screen A)[?d := map2 sarea (sp_outputs S) (ar_screen A ! ?d)]\<rparr>"
    using assms(3) by (auto simp: shrink_desktop_def screen_rects_outputs [OF assms(2)] split: if_splits)
  have "list_all2 (\<lambda>a s. covered_by a s \<and> (full \<longrightarrow> \<not> rempty a)) (map2 sarea ss as) ss"
    if "list_all2 (\<lambda>a s. covered_by a s \<and> (full \<longrightarrow> \<not> rempty a)) as ss" for as ss
    using that screen by (auto simp: list_all2_conv_all_nth)
  with assms(1) work show ?thesis by (auto simp: areas_ok_def A' nth_list_update_at)
qed

lemma shrink_desktops_ok:
  assumes "outputs_ok S" and "areas_ok full S A" and "ofold (shrink_desktop S warea sarea struts) ds A = Returns A'"
    and "\<And>w. covered_by w (desktop_area S) \<Longrightarrow> covered_by (warea w) (desktop_area S)"
    and "\<And>s a. covered_by a s \<and> (full \<longrightarrow> \<not> rempty a) \<Longrightarrow> covered_by (sarea s a) s \<and> (full \<longrightarrow> \<not> rempty (sarea s a))"
  shows "areas_ok full S A'"
  by (rule ofold_invariant [where P = "areas_ok full S", OF _ assms(2,3)]) (rule shrink_desktop_ok [OF _ assms(1) _ assms(4,5)])

lemma x11_strut_window_ok:
  assumes "outputs_ok S" and "areas_ok full S A" and "x11_strut_window S info W a A = Returns A'"
  shows "areas_ok full S A'"
proof (cases "\<not> w_x11 (W a) \<or> \<not> x11_hasStrut (sp_displaySize S) (info a)")
  case False
  with assms(3) obtain adjusted r offscreen struts where
    "ofold (shrink_desktop S (\<lambda>wa. if offscreen then wa else rintersected wa r)
       (\<lambda>screen sa. if \<not> rempty (rintersected sa (adjusted screen)) then rintersected sa (adjusted screen) else sa)
       struts) (window_desktops S (W a)) A = Returns A'"
    unfolding x11_strut_window_def Let_def if_not_P [OF False] obind_eq_Returns by (elim exE conjE) (rule that)
  from assms(1,2) this show ?thesis
    by (rule shrink_desktops_ok) (simp_all add: covered_intersected)
qed (use assms in \<open>simp add: x11_strut_window_def\<close>)

lemma wayland_strut_window_ok:
  assumes "outputs_ok S" and "areas_ok False S A" and "wayland_strut_window S info W a A = Returns A'"
  shows "areas_ok False S A'"
proof (cases "si_wayland (info a)")
  case True
  with assms(3) obtain r cut struts where
    "ofold (shrink_desktop S (\<lambda>wa. rintersected wa r) (\<lambda>screen sa. rintersected sa (cut screen)) struts)
       (window_desktops S (W a)) A = Returns A'"
    unfolding wayland_strut_window_def Let_def by simp
  from assms(1,2) this show ?thesis
    by (rule shrink_desktops_ok) (simp_all add: covered_intersected)
qed (use assms in \<open>simp add: wayland_strut_window_def\<close>)

lemma computed_areas_ok:
  assumes "outputs_ok S" and "computed_areas S info W xs ys = Returns A"
  shows "areas_ok (\<forall>y \<in> set ys. \<not> si_wayland (info y)) S A"
proof -
  from assms(2) obtain B where B: "ofold (x11_strut_window S info W) xs (initial_areas S) = Returns B"
    and A: "ofold (wayland_strut_window S info W) ys B = Returns A" by (auto simp: computed_areas_def)
  have x11: "areas_ok full S B" for full
    by (rule ofold_invariant [where P = "areas_ok full S", OF _ initial_areas_ok [OF assms(1)] B])
      (rule x11_strut_window_ok [OF assms(1)])
  show ?thesis
  proof (cases "\<forall>y \<in> set ys. \<not> si_wayland (info y)")
    case True
    have "A = B"
      by (rule ofold_invariant [where P = "\<lambda>s. s = B", OF _ refl A]) (use True in \<open>simp add: wayland_strut_window_def\<close>)
    with x11 True show ?thesis by simp
  next
    case False
    have "areas_ok False S A"
      by (rule ofold_invariant [where P = "areas_ok False S", OF _ x11 A]) (rule wayland_strut_window_ok [OF assms(1)])
    with False show ?thesis by (simp only: if_False not_True_eq_False)
  qed
qed

definition demo_space :: space where
  "demo_space = \<lparr>sp_outputs = [mk_rect 0 0 100 100, mk_rect 100 0 100 100],
     sp_screens = \<lparr>scr_count = 2, scr_current = 0, scr_currentFollowsMouse = False,
       scr_boundingSize = (200, 100), scr_log = []\<rparr>,
     sp_desk = demo_desks,
     sp_currentScreen = 0, sp_workarea = replicate 3 null_rect, sp_restricted = replicate 3 [],
     sp_oldRestricted = [], sp_screenarea = [], sp_oldDisplaySize = (200, 100), sp_oldScreenSizes = []\<rparr>"

definition demo_struts :: "addr \<Rightarrow> strut_info" where
  "demo_struts a = \<lparr>si_extended = \<lparr>left_width = 0, left_start = 0, left_end = 0, right_width = 0,
       right_start = 0, right_end = 0, top_width = 0, top_start = 0, top_end = 0, bottom_width = 0,
       bottom_start = 0, bottom_end = 0\<rparr>,
     si_strut = \<lparr>str_left = 0, str_right = 0, str_top = 0, str_bottom = 0\<rparr>, si_wayland = (a = 5)\<rparr>"

text \<open>Window 5 is a panel at the top of the first screen, on desktop 1.\<close>

definition demo_panels :: wstore where
  "demo_panels a = demo_window\<lparr>w_geo := demo_geo\<lparr>g_frameGeometry := mk_rect 0 0 100 20\<rparr>\<rparr>"

definition demo_areas :: areas where
  "demo_areas = \<lparr>ar_work = [null_rect, mk_rect 0 20 200 80, mk_rect 0 0 200 100],
     ar_move = [[], [(mk_rect 0 0 100 20, StrutAreaTop)], []],
     ar_screen = [[], [mk_rect 0 20 100 80, mk_rect 100 0 100 100], [mk_rect 0 0 100 100, mk_rect 100 0 100 100]]\<rparr>"

lemma demo_areas_computed: "computed_areas demo_space demo_struts demo_panels [5] [5] = Returns demo_areas"
  by code_simp

lemma demo_outputs_ok: "outputs_ok demo_space"
  by (simp add: outputs_ok_def demo_space_def rvalid_def mk_rect_def)

text \<open>
  C8. Whatever struts the windows announce, the area computed for a screen on a desktop lies within
  that screen and the work area of a desktop within the bounding rectangle of the screens, unless
  they are empty. X11 struts alone never empty the area of a screen: a strut that would is ignored
  there.
\<close>

theorem client_areas_within_screens:
  assumes "outputs_ok S" and "computed_areas S info W clients wayland = Returns A"
    and "1 \<le> d" and "d \<le> sp_ndesktops S" and "k < length (sp_outputs S)"
  shows "(rempty (ar_screen A ! d ! k) \<or> rwithin (ar_screen A ! d ! k) (sp_outputs S ! k)) \<and>
    (rempty (ar_work A ! d) \<or> rwithin (ar_work A ! d) (desktop_area S)) \<and>
    ((\<forall>w \<in> set wayland. \<not> si_wayland (info w)) \<longrightarrow> \<not> rempty (ar_screen A ! d ! k))"
  using computed_areas_ok [OF assms(1,2)] assms(3-)
  by (auto simp: areas_ok_def covered_by_def list_all2_conv_all_nth)

theorem client_areas_within_screens_witness:
  "rwithin (ar_screen demo_areas ! 1 ! 0) (mk_rect 0 0 100 100)"
  using client_areas_within_screens [OF demo_outputs_ok demo_areas_computed, of 1 0]
  by (simp add: demo_areas_def demo_space_def demo_desks_def rempty_def mk_rect_def)

text \<open>
  Once areas have been computed and assigned, asking for an area of any desktop (by number, or
  the current one as 0 or \<open>OnAllDesktops\<close>) on any screen, even one that has gone since, stays
  within the bounds of the vectors, and the area for maximizing or placing windows is the one
  computed, or the geometry of the screen if there is none.
\<close>

theorem client_area_after_update:
  assumes "outputs_ok S" and "computed_areas S info W clients wayland = Returns A"
    and "1 \<le> area_desktop S desktop" and "area_desktop S desktop \<le> int (sp_ndesktops S)" and "0 \<le> screen"
  shows "\<exists>r. clientArea (assign_areas A S) opt screen desktop = Returns r \<and>
    (opt \<in> {MaximizeArea, PlacementArea} \<longrightarrow>
       r = (if screen < int (length (sp_outputs S)) then ar_screen A ! nat (area_desktop S desktop) ! nat screen
            else null_rect))"
proof -
  let ?d = "area_desktop S desktop" and ?T = "assign_areas A S"
  note ok = computed_areas_ok [OF assms(1,2)]
  have d: "nat ?d \<in> {1..sp_ndesktops S}" using assms(3,4) by auto
  have len: "length (ar_work A) = Suc (sp_ndesktops S)" "length (ar_screen A) = Suc (sp_ndesktops S)"
    "length (ar_screen A ! nat ?d) = length (sp_outputs S)"
    using ok d unfolding areas_ok_def by (blast dest: list_all2_lengthD)+
  have view: "area_desktop ?T desktop = ?d" "sp_outputs ?T = sp_outputs S" "sp_screenarea ?T = ar_screen A"
    "sp_workarea ?T = ar_work A" "sp_screens ?T = sp_screens S"
    by (simp_all add: area_desktop_def assign_areas_def)
  have in_range: "0 \<le> ?d \<and> ?d < int (Suc (sp_ndesktops S))" "ar_screen A \<noteq> []" "screen \<noteq> -1"
    using assms(3-5) len(2) by auto
  have "screens_geometry (sp_outputs S) screen = null_rect" if "\<not> screen < int (length (sp_outputs S))"
    using that by (simp add: screens_geometry_def screens_findOutput_def)
  with in_range assms(5) show ?thesis
    by (cases opt) (simp_all add: clientArea_def view at_index_def len Let_def)
qed

theorem client_area_after_update_witness:
  "clientArea (assign_areas demo_areas demo_space) PlacementArea 0 0 = Returns (mk_rect 0 20 100 80)"
  using client_area_after_update [OF demo_outputs_ok demo_areas_computed, of 0 0 PlacementArea]
  by (auto simp: area_desktop_def demo_space_def demo_desks_def demo_areas_def)

end
