(* ===== verification/Placement.thy ===== *)
theory Placement
  imports Maximize Client_Area
begin

text \<open>
  The class \<open>Placement\<close> (\<^verbatim>\<open>placement.cpp\<close>, \<^verbatim>\<open>placement.h\<close>): where a new window is put
  according to the policy of the user, and the two requests that arrange all windows of a desktop.
  Smart placement has a theory of its own.

  The state is the list of cascading positions and the two static variables of the random
  placement. An operation works on this state and on the geometry of the window to place.
\<close>

section \<open>State\<close>

datatype policy = NoPlacement | PolicyDefault | PolicyUnknown | PolicyRandom | Smart | Cascade
  | Centered | ZeroCornered | UnderMouse | OnMainWindow | Maximizing

fun policyToString :: "policy \<Rightarrow> string" where
  "policyToString NoPlacement = ''NoPlacement''"
| "policyToString PolicyDefault = ''Default''"
| "policyToString PolicyUnknown = ''XXX should never see''"
| "policyToString PolicyRandom = ''Random''"
| "policyToString Smart = ''Smart''"
| "policyToString Cascade = ''Cascade''"
| "policyToString Centered = ''Centered''"
| "policyToString ZeroCornered = ''ZeroCornered''"
| "policyToString UnderMouse = ''UnderMouse''"
| "policyToString OnMainWindow = ''OnMainWindow''"
| "policyToString Maximizing = ''Maximizing''"

record cascading_info =
  ci_pos :: point
  ci_col :: int
  ci_row :: int

record placement =
  pl_cci :: "cascading_info list"
  pl_px :: int
  pl_py :: int

text \<open>What is asked of the options, the rules, the workspace and the other windows.\<close>

record place_env =
  pe_geo :: geo_env
  pe_desk :: desk_view
  pe_store :: wstore
  pe_window :: addr
  pe_surface :: bool
  pe_policy :: policy
  pe_checkPlacement :: "policy \<Rightarrow> policy"
  pe_borderSnapZone :: int

type_synonym place_state = "placement \<times> wgeo"

abbreviation pe_win :: "place_env \<Rightarrow> window" where
  "pe_win E \<equiv> pe_store E (pe_window E)"

abbreviation pe_area :: "place_env \<Rightarrow> area_fun" where
  "pe_area E \<equiv> ge_area (pe_geo E)"

definition fresh_cascade :: cascading_info where
  "fresh_cascade = \<lparr>ci_pos = (-1, -1), ci_col = 0, ci_row = 0\<rparr>"

definition reinitCascading :: "nat \<Rightarrow> int \<Rightarrow> placement \<Rightarrow> placement outcome" where
  "reinitCascading desktopCount desktop p =
     (if desktop = 0 then Returns (p\<lparr>pl_cci := replicate desktopCount fresh_cascade\<rparr>)
      else obind (at_index (pl_cci p) (desktop - 1))
        (\<lambda>_. Returns (p\<lparr>pl_cci := (pl_cci p)[nat (desktop - 1) := fresh_cascade]\<rparr>)))"

section \<open>Policies\<close>

text \<open>\<open>lift_geo\<close> runs an operation that does not touch the state of the placement.\<close>

definition lift_geo :: "(wgeo \<Rightarrow> wgeo outcome) \<Rightarrow> place_state \<Rightarrow> place_state outcome" where
  "lift_geo f s = obind (f (snd s)) (\<lambda>g. Returns (fst s, g))"

definition placeAtRandom :: "rect \<Rightarrow> place_state \<Rightarrow> place_state outcome" where
  "placeAtRandom area s =
     oassert (rvalid area)
       (let step = 24; p = fst s; g = snd s;
            px0 = (if pl_px p < rleft area then rleft area else pl_px p) + step;
            py0 = (if pl_py p < rtop area then rtop area else pl_py p) + 2 * step;
            px1 = (if px0 > tdiv (rwidth area) 2 then rleft area + step else px0);
            py1 = (if py0 > tdiv (rheight area) 2 then rtop area + step else py0);
            w = rwidth (g_frame g); h = rheight (g_frame g);
            farx = (px1 + w > rright area); fary = (py1 + h > rbottom area);
            tx = (if farx then max 0 (rright area - w) else px1);
            ty = (if fary then max 0 (rbottom area - h) else py1);
            p' = p\<lparr>pl_px := (if farx then rleft area else px1), pl_py := (if fary then rtop area else py1)\<rparr>
        in lift_geo (win_move (tx, ty)) (p', g))"

definition cascadeOffset :: "place_env \<Rightarrow> wgeo \<Rightarrow> point" where
  "cascadeOffset E g =
     (let area = pe_area E PlacementArea (rcenter (g_frame g))
      in (tdiv (rwidth area) 48, tdiv (rheight area) 48))"

text \<open>
  One step of the cascade: the position for a window of size \<open>(cw, ch)\<close>, or \<open>None\<close> when it does
  not fit and the next policy is used, and the changed entry of the desktop.
\<close>

definition cascade_start :: "rect \<Rightarrow> cascading_info \<Rightarrow> cascading_info" where
  "cascade_start area c =
     (if fst (ci_pos c) < 0 \<or> fst (ci_pos c) < rleft area \<or> snd (ci_pos c) < rtop area
      then \<lparr>ci_pos = rtopLeft area, ci_col = 0, ci_row = 0\<rparr> else c)"

definition cascade_step :: "point \<Rightarrow> rect \<Rightarrow> int \<Rightarrow> int \<Rightarrow> cascading_info \<Rightarrow> cascading_info \<times> point option" where
  "cascade_step delta area cw ch c =
     (let X = rleft area; Y = rtop area; H = rheight area; W = rwidth area;
          yp = (if snd (ci_pos c) + ch > H then Y else snd (ci_pos c));
          wide = (fst (ci_pos c) + cw > W);
          xp = (if wide then X else fst (ci_pos c))
      in if wide \<and> yp = 0 then (c, None)
         else if fst (ci_pos c) \<noteq> X \<and> snd (ci_pos c) \<noteq> Y
         then
           let newcol = (xp \<noteq> X \<and> yp = Y);
               col = (if newcol then ci_col c + 1 else ci_col c);
               xp1 = (if newcol then fst delta * col else xp);
               newrow = (yp \<noteq> Y \<and> xp1 = X);
               row = (if newrow then ci_row c + 1 else ci_row c);
               yp1 = (if newrow then snd delta * row else yp);
               c1 = c\<lparr>ci_col := col, ci_row := row\<rparr>
           in if xp1 + cw > W - X \<or> yp1 + ch > H - Y then (c1, None) else (c1, Some (xp1, yp1))
         else (c, Some (xp, yp)))"

text \<open>\<open>again\<close> is the recursive call \<open>place(window, area, policy)\<close>.\<close>

definition placeCascaded ::
  "(policy \<Rightarrow> place_state \<Rightarrow> place_state outcome) \<Rightarrow> place_env \<Rightarrow> rect \<Rightarrow> policy \<Rightarrow> place_state \<Rightarrow> place_state outcome" where
  "placeCascaded again E area next0 s =
     oassert (rvalid area)
       (if \<not> szvalid (rsize (g_frame (snd s))) then Returns s
        else
          let p = fst s; g = snd s;
              delta = cascadeOffset E g;
              dn = placement_desktop (pe_desk E) (pe_win E) - 1;
              nextp = (if next0 = PolicyUnknown then Smart else next0);
              save = (\<lambda>c. p\<lparr>pl_cci := (pl_cci p)[nat dn := c]\<rparr>)
          in obind (at_index (pl_cci p) dn) (\<lambda>c0.
             case cascade_step delta area (rwidth (g_frame g)) (rheight (g_frame g)) (cascade_start area c0) of
               (c, None) \<Rightarrow> again nextp (save c, g)
             | (c, Some pos) \<Rightarrow> obind (win_move pos g)
                 (\<lambda>g'. Returns (save (c\<lparr>ci_pos := (fst pos + fst delta, snd pos + snd delta)\<rparr>), g'))))"

definition placeCentered :: "rect \<Rightarrow> wgeo \<Rightarrow> wgeo outcome" where
  "placeCentered area g =
     oassert (rvalid area)
       (win_move (rleft area + tdiv (rwidth area - rwidth (g_frame g)) 2,
          rtop area + tdiv (rheight area - rheight (g_frame g)) 2) g)"

definition placeZeroCornered :: "rect \<Rightarrow> wgeo \<Rightarrow> wgeo outcome" where
  "placeZeroCornered area g = oassert (rvalid area) (win_move (rtopLeft area) g)"

definition placeOnScreenDisplay :: "rect \<Rightarrow> wgeo \<Rightarrow> wgeo outcome" where
  "placeOnScreenDisplay area g =
     oassert (rvalid area)
       (win_move (rleft area + tdiv (rwidth area - rwidth (g_frame g)) 2,
          rtop area + tdiv (2 * rheight area) 3 - tdiv (rheight (g_frame g)) 2) g)"

definition placeUnderMouse :: "place_env \<Rightarrow> rect \<Rightarrow> wgeo \<Rightarrow> wgeo outcome" where
  "placeUnderMouse E area g =
     oassert (rvalid area)
       (obind (win_move (rtopLeft (moveCenter (ge_cursor (pe_geo E)) (g_frame g))) g)
         (keep_in_area (pe_area E) area False))"

definition placeMaximizing ::
  "(policy \<Rightarrow> place_state \<Rightarrow> place_state outcome) \<Rightarrow> place_env \<Rightarrow> rect \<Rightarrow> policy \<Rightarrow> place_state \<Rightarrow> place_state outcome" where
  "placeMaximizing again E area next0 s =
     oassert (rvalid area)
       (let g = snd s; nextp = (if next0 = PolicyUnknown then Smart else next0) in
        if g_maximizable g \<and> fst (g_maxSize g) \<ge> rwidth area \<and> snd (g_maxSize g) \<ge> rheight area
        then (if pe_area E MaximizeArea (rcenter (pending_frame_geometry g)) = area
              then lift_geo (win_maximize (pe_geo E) MFull) s
              else Returns (fst s, setFrameGeometry area g))
        else again nextp (fst s, constrained_resize (pe_area E) (boundedTo (g_maxSize g) (rsize area)) g))"

text \<open>
  The loop over the leads in \<open>placeOnMainWindow\<close>: the lead on the current desktop, the last lead
  that counts, how many count; \<open>None\<close> when there are two on the current desktop.
\<close>

fun main_window ::
  "place_env \<Rightarrow> bool \<Rightarrow> addr list \<Rightarrow> addr option \<Rightarrow> addr option \<Rightarrow> nat \<Rightarrow> (addr option \<times> addr option \<times> nat) option" where
  "main_window E many [] on on2 n = Some (on, on2, n)"
| "main_window E many (l # ls) on on2 n =
     (if many \<and> is_special_window (pe_store E l) then main_window E many ls on on2 n
      else if on_current_desktop (pe_desk E) (pe_store E l)
      then (if on = None then main_window E many ls (Some l) (Some l) (n + 1) else None)
      else main_window E many ls on (Some l) (n + 1))"

definition placeOnMainWindow ::
  "(policy \<Rightarrow> place_state \<Rightarrow> place_state outcome) \<Rightarrow> place_env \<Rightarrow> rect \<Rightarrow> policy \<Rightarrow> place_state \<Rightarrow> place_state outcome" where
  "placeOnMainWindow again E area next0 s0 =
     oassert (rvalid area)
       (let nextp = (if next0 = PolicyUnknown then Centered else next0);
            leads = w_leads (pe_win E)
        in obind (if nextp = Maximizing then placeMaximizing again E area NoPlacement s0 else Returns s0) (\<lambda>s.
           case main_window E (length leads > 1) leads None None 0 of
             None \<Rightarrow> again Centered s
           | Some (on, on2, n) \<Rightarrow>
               if on = None \<and> n \<noteq> 1 then again Centered s
               else (case (if on = None then on2 else on) of
                   None \<Rightarrow> Faults NullDeref
                 | Some l \<Rightarrow>
                     if is_desktop (pe_store E l) then again Centered s
                     else lift_geo (\<lambda>g.
                       obind (win_move (rtopLeft (moveCenter (rcenter (g_frame (w_geo (pe_store E l)))) (g_frame g))) g)
                         (\<lambda>g'. keep_in_area (pe_area E)
                            (pe_area E PlacementArea (rcenter (pending_frame_geometry g'))) False g')) s)))"

section \<open>Placing a window\<close>

text \<open>Snapping to the borders of the screen, at the end of \<open>place\<close>.\<close>

definition snap_corner :: "place_env \<Rightarrow> wgeo \<Rightarrow> point" where
  "snap_corner E g =
     (let geo = g_frame g; m = frame_margins g;
          full = pe_area E FullArea (rcenter (pending_frame_geometry g));
          x1 = (if \<not> max_horizontal (g_maximizeMode g) \<and> rright geo = rright full then rleft geo + mright m else rleft geo);
          x2 = (if \<not> max_horizontal (g_maximizeMode g) \<and> rleft geo = rleft full then x1 - mleft m else x1);
          y = (if \<not> max_vertical (g_maximizeMode g) \<and> rbottom geo = rbottom full then rtop geo + mbottom m else rtop geo)
      in (x2, y))"

definition resolve_policy :: "place_env \<Rightarrow> policy \<Rightarrow> policy" where
  "resolve_policy E p = (let q = (if p = PolicyUnknown then PolicyDefault else p) in
     if q = PolicyDefault then pe_policy E else q)"

text \<open>
  \<open>place\<close> calls itself through the policies. The number bounds the depth of these calls; three
  are always enough, as proved below.
\<close>

fun place_depth :: "nat \<Rightarrow> place_env \<Rightarrow> rect \<Rightarrow> policy \<Rightarrow> policy \<Rightarrow> place_state \<Rightarrow> place_state outcome" where
  "place_depth 0 E area p nextp s = Diverges"
| "place_depth (Suc n) E area p nextp s =
     (let again = (\<lambda>q. place_depth n E area q PolicyUnknown); q = resolve_policy E p in
      if q = NoPlacement then Returns s
      else obind
        (case q of
           PolicyRandom \<Rightarrow> placeAtRandom area s
         | Cascade \<Rightarrow> placeCascaded again E area nextp s
         | Centered \<Rightarrow> lift_geo (placeCentered area) s
         | ZeroCornered \<Rightarrow> lift_geo (placeZeroCornered area) s
         | UnderMouse \<Rightarrow> lift_geo (placeUnderMouse E area) s
         | OnMainWindow \<Rightarrow> placeOnMainWindow again E area nextp s
         | Maximizing \<Rightarrow> placeMaximizing again E area nextp s
         | _ \<Rightarrow> lift_geo (placeSmart (ge_obstacles (pe_geo E)) area) s)
        (\<lambda>s'. if pe_borderSnapZone E \<noteq> 0 then lift_geo (\<lambda>g. win_move (snap_corner E g) g) s' else Returns s'))"

definition place_policy :: "place_env \<Rightarrow> rect \<Rightarrow> policy \<Rightarrow> policy \<Rightarrow> place_state \<Rightarrow> place_state outcome" where
  "place_policy E area p nextp s = place_depth 3 E area p nextp s"

definition placeUtility :: "place_env \<Rightarrow> rect \<Rightarrow> policy \<Rightarrow> place_state \<Rightarrow> place_state outcome" where
  "placeUtility E area nextp s = place_policy E area PolicyDefault PolicyUnknown s"

definition placeDialog :: "place_env \<Rightarrow> rect \<Rightarrow> policy \<Rightarrow> place_state \<Rightarrow> place_state outcome" where
  "placeDialog E area nextp s =
     placeOnMainWindow (\<lambda>q. place_policy E area q PolicyUnknown) E area nextp s"

definition place :: "place_env \<Rightarrow> rect \<Rightarrow> place_state \<Rightarrow> place_state outcome" where
  "place E area s =
     (let policy = pe_checkPlacement E PolicyDefault; w = pe_win E in
      if policy \<noteq> PolicyDefault then place_policy E area policy PolicyUnknown s
      else if is_utility w then placeUtility E area (pe_policy E) s
      else if is_dialog w then placeDialog E area (pe_policy E) s
      else if is_splash w
      then placeOnMainWindow (\<lambda>q. place_policy E area q PolicyUnknown) E area PolicyUnknown s
      else if is_on_screen_display w \<or> is_notification w \<or> is_critical_notification w
      then lift_geo (placeOnScreenDisplay area) s
      else if is_transient w \<and> pe_surface E then placeDialog E area (pe_policy E) s
      else place_policy E area (pe_policy E) PolicyUnknown s)"

section \<open>Arranging all windows\<close>

text \<open>
  The environment of one window: \<open>B\<close> holds what does not depend on it, \<open>stack\<close> is the stacking
  order.
\<close>

definition env_for :: "place_env \<Rightarrow> space \<Rightarrow> addr list \<Rightarrow> wstore \<Rightarrow> addr \<Rightarrow> place_env" where
  "env_for B S stack W a =
     B\<lparr>pe_geo := (pe_geo B)\<lparr>ge_area := area_of S (win_desktop (sp_desk S) (W a)),
           ge_obstacles := relevant_obstacles (sp_desk S) W stack a, ge_toolbar := is_toolbar (W a)\<rparr>,
       pe_desk := sp_desk S, pe_store := W, pe_window := a\<rparr>"

definition arrangeable :: "desk_view \<Rightarrow> window \<Rightarrow> bool" where
  "arrangeable D w \<longleftrightarrow> on_current_desktop D w \<and> \<not> w_minimized w \<and> \<not> on_all_desktops D w \<and> g_movable (w_geo w)"

definition put_geo :: "addr \<Rightarrow> wgeo \<Rightarrow> wstore \<Rightarrow> wstore" where
  "put_geo a g W = W(a := (W a)\<lparr>w_geo := g\<rparr>)"

definition cascadeDesktop ::
  "place_env \<Rightarrow> space \<Rightarrow> addr list \<Rightarrow> placement \<times> wstore \<Rightarrow> (placement \<times> wstore) outcome" where
  "cascadeDesktop B S stack s0 =
     obind (reinitCascading (sp_ndesktops S) (int (dv_current (sp_desk S))) (fst s0)) (\<lambda>p0.
       ofold (\<lambda>a s. let W = snd s in
           if \<not> w_control (W a) \<or> \<not> arrangeable (sp_desk S) (W a) then Returns s
           else obind (clientArea_window S PlacementArea (W a)) (\<lambda>area.
             let E = env_for B S stack W a in
             obind (placeCascaded (\<lambda>q. place_policy E area q PolicyUnknown) E area PolicyUnknown (fst s, w_geo (W a)))
               (\<lambda>r. Returns (fst r, put_geo a (snd r) W))))
         stack (p0, snd s0))"

definition unclutterDesktop :: "place_env \<Rightarrow> space \<Rightarrow> addr list \<Rightarrow> addr list \<Rightarrow> wstore \<Rightarrow> wstore outcome" where
  "unclutterDesktop B S stack clients W0 =
     ofold (\<lambda>a W.
         if \<not> on_current_desktop (sp_desk S) (W a) then Returns W
         else if \<not> w_control (W a) then Faults NullDeref
         else if \<not> arrangeable (sp_desk S) (W a) then Returns W
         else obind (clientArea_window S PlacementArea (W a)) (\<lambda>area.
           obind (placeSmart (relevant_obstacles (sp_desk S) W stack a) area (w_geo (W a)))
             (\<lambda>g. Returns (put_geo a g W))))
       (rev clients) W0"

section \<open>The depth of the calls\<close>

lemma placeCascaded_cong:
  assumes "\<And>s. again (if nextp = PolicyUnknown then Smart else nextp) s =
    again' (if nextp = PolicyUnknown then Smart else nextp) s"
  shows "placeCascaded again E area nextp s = placeCascaded again' E area nextp s"
  unfolding placeCascaded_def Let_def by (simp only: assms)

lemma placeMaximizing_cong:
  assumes "\<And>s. again (if nextp = PolicyUnknown then Smart else nextp) s =
    again' (if nextp = PolicyUnknown then Smart else nextp) s"
  shows "placeMaximizing again E area nextp s = placeMaximizing again' E area nextp s"
  unfolding placeMaximizing_def Let_def by (simp only: assms)

lemma placeOnMainWindow_cong:
  assumes "\<And>s. again Centered s = again' Centered s" "\<And>s. again NoPlacement s = again' NoPlacement s"
  shows "placeOnMainWindow again E area nextp s = placeOnMainWindow again' E area nextp s"
proof -
  have "placeMaximizing again E area NoPlacement s = placeMaximizing again' E area NoPlacement s"
    by (rule placeMaximizing_cong) (simp add: assms)
  then show ?thesis unfolding placeOnMainWindow_def assms(1) by (simp only:)
qed

lemma place_depth_leaf:
  "q \<in> {Smart, Centered, NoPlacement} \<Longrightarrow> place_depth (Suc n) E area q nextp s = place_depth 1 E area q nextp s"
  by (auto simp: resolve_policy_def Let_def)

lemma place_depth_cong:
  assumes "\<And>s. place_depth n E area (if nextp = PolicyUnknown then Smart else nextp) PolicyUnknown s =
      place_depth m E area (if nextp = PolicyUnknown then Smart else nextp) PolicyUnknown s"
    and "0 < n" "0 < m"
  shows "place_depth (Suc n) E area p nextp s = place_depth (Suc m) E area p nextp s"
proof -
  have leaf: "place_depth n E area q PolicyUnknown s = place_depth m E area q PolicyUnknown s"
    if "q \<in> {Smart, Centered, NoPlacement}" for q s
    using place_depth_leaf [OF that, of "n - 1"] place_depth_leaf [OF that, of "m - 1"] assms(2,3) by simp
  have "placeCascaded (\<lambda>q. place_depth n E area q PolicyUnknown) E area nextp s =
      placeCascaded (\<lambda>q. place_depth m E area q PolicyUnknown) E area nextp s"
    by (rule placeCascaded_cong) (rule assms(1))
  moreover have "placeMaximizing (\<lambda>q. place_depth n E area q PolicyUnknown) E area nextp s =
      placeMaximizing (\<lambda>q. place_depth m E area q PolicyUnknown) E area nextp s"
    by (rule placeMaximizing_cong) (rule assms(1))
  moreover have "placeOnMainWindow (\<lambda>q. place_depth n E area q PolicyUnknown) E area nextp s =
      placeOnMainWindow (\<lambda>q. place_depth m E area q PolicyUnknown) E area nextp s"
    by (rule placeOnMainWindow_cong) (simp_all add: leaf)
  ultimately show ?thesis unfolding place_depth.simps Let_def by (simp only:)
qed

lemma place_depth_two: "place_depth (Suc (Suc n)) E area p PolicyUnknown s = place_depth 2 E area p PolicyUnknown s"
proof -
  have "place_depth (Suc (Suc n)) E area p PolicyUnknown s = place_depth (Suc 1) E area p PolicyUnknown s"
  proof (rule place_depth_cong)
    show "place_depth (Suc n) E area (if PolicyUnknown = PolicyUnknown then Smart else PolicyUnknown) PolicyUnknown s =
        place_depth 1 E area (if PolicyUnknown = PolicyUnknown then Smart else PolicyUnknown) PolicyUnknown s" for s
      using place_depth_leaf [of Smart n] by (simp only: if_True refl insertI1)
  qed simp_all
  then show ?thesis by (simp add: numeral_2_eq_2)
qed

text \<open>
  The policies call each other at most three deep, whatever the default policy is and whichever
  policy is to follow: a deeper bound never changes the result, so the recursion between \<open>place\<close>
  and the policies always ends.
\<close>

theorem place_recursion_ends:
  assumes "3 \<le> n"
  shows "place_depth n E area p nextp s = place_policy E area p nextp s"
proof -
  from assms obtain k where n: "n = Suc (Suc (Suc k))" by (metis add.commute le_Suc_ex numeral_3_eq_3 plus_nat.simps(2) add_0)
  have "place_depth (Suc (Suc (Suc k))) E area p nextp s = place_depth (Suc 2) E area p nextp s"
    by (rule place_depth_cong) (rule place_depth_two, simp_all)
  then show ?thesis by (simp add: n place_policy_def numeral_3_eq_3 numeral_2_eq_2)
qed

definition demo_place_env :: place_env where
  "demo_place_env = \<lparr>pe_geo = demo_geo_env, pe_desk = demo_desks, pe_store = (\<lambda>_. demo_window), pe_window = 0,
     pe_surface = True, pe_policy = Cascade, pe_checkPlacement = id, pe_borderSnapZone = 0\<rparr>"

definition demo_placement :: placement where
  "demo_placement = \<lparr>pl_cci = replicate 2 fresh_cascade, pl_px = 24, pl_py = 48\<rparr>"

theorem place_recursion_ends_witness:
  "place_depth 7 demo_place_env (mk_rect 0 0 1280 1024) PolicyDefault Cascade (demo_placement, demo_geo) =
   place_policy demo_place_env (mk_rect 0 0 1280 1024) PolicyDefault Cascade (demo_placement, demo_geo)"
  by (rule place_recursion_ends) simp

section \<open>Where the policies put a window\<close>

text \<open>A window that can be placed: its frame is not empty and fits into the area.\<close>

definition placeable :: "rect \<Rightarrow> wgeo \<Rightarrow> bool" where
  "placeable area g \<longleftrightarrow> geo_settled g \<and> rvalid area \<and> 1 \<le> rwidth (g_frame g) \<and> 1 \<le> rheight (g_frame g) \<and>
     rwidth (g_frame g) \<le> rwidth area \<and> rheight (g_frame g) \<le> rheight area"

lemma move_inside:
  assumes "geo_settled g" "rleft area \<le> fst p" "fst p + rwidth (g_frame g) - 1 \<le> rright area"
    "rtop area \<le> snd p" "snd p + rheight (g_frame g) - 1 \<le> rbottom area"
  shows "\<exists>g'. win_move p g = Returns g' \<and> rwithin (g_frame g') area \<and> rsize (g_frame g') = rsize (g_frame g)"
  using settled_move [OF assms(1), of p] assms(2-)
  by (auto simp: rwithin_def moveTopLeft_def moveTop_def moveLeft_def rsize_def rwidth_def rheight_def)

lemma centered_inside:
  assumes "placeable area g"
  shows "\<exists>g'. placeCentered area g = Returns g' \<and> rwithin (g_frame g') area \<and> rsize (g_frame g') = rsize (g_frame g)"
proof -
  let ?w = "rwidth area - rwidth (g_frame g)" and ?h = "rheight area - rheight (g_frame g)"
  have nonneg: "0 \<le> ?w" "0 \<le> ?h" using assms by (simp_all add: placeable_def)
  have "0 \<le> ?w div 2" "?w div 2 \<le> ?w" "0 \<le> ?h div 2" "?h div 2 \<le> ?h" using nonneg by auto
  moreover have "tdiv ?w 2 = ?w div 2" "tdiv ?h 2 = ?h div 2" using nonneg by (simp_all add: tdiv_nonneg)
  ultimately show ?thesis
    using assms unfolding placeCentered_def placeable_def
    by (simp only: oassert_True, intro move_inside) (simp_all add: rwidth_def rheight_def)
qed

lemma zero_cornered_inside:
  assumes "placeable area g"
  shows "\<exists>g'. placeZeroCornered area g = Returns g' \<and> rwithin (g_frame g') area \<and> rsize (g_frame g') = rsize (g_frame g)"
  using assms unfolding placeZeroCornered_def placeable_def
  by (simp only: oassert_True, intro move_inside) (simp_all add: rtopLeft_def rwidth_def rheight_def)

lemma smart_inside:
  assumes "placeable area g" "obstacles_valid obs"
  shows "\<exists>g'. placeSmart obs area g = Returns g' \<and> rwithin (g_frame g') area \<and> rsize (g_frame g') = rsize (g_frame g)"
proof -
  from assms have "geo_settled g" "rvalid area" "0 \<le> rwidth (g_frame g) - 1" "0 \<le> rheight (g_frame g) - 1"
    by (simp_all add: placeable_def)
  from placeSmart_spec [OF this(1,2) assms(2) refl refl this(3,4)] assms(1)
  show ?thesis by (auto simp: placeable_def)
qed

lemma under_mouse_inside:
  assumes "placeable area g"
  shows "\<exists>g'. placeUnderMouse E area g = Returns g' \<and> rwithin (g_frame g') area \<and> rsize (g_frame g') = rsize (g_frame g)"
proof -
  let ?p = "rtopLeft (moveCenter (ge_cursor (pe_geo E)) (g_frame g))"
  from assms have ok: "geo_settled g" "rvalid area" "rwidth (g_frame g) \<le> rwidth area" "rheight (g_frame g) \<le> rheight area"
    by (simp_all add: placeable_def)
  obtain g1 where g1: "win_move ?p g = Returns g1" "geo_settled g1" "g_frame g1 = moveTopLeft ?p (g_frame g)"
    using settled_move [OF ok(1)] by blast
  have "rwidth (g_frame g1) = rwidth (g_frame g)" "rheight (g_frame g1) = rheight (g_frame g)" by (simp_all add: g1(3))
  with keep_in_area_spec [OF g1(2) ok(2), of "pe_area E"] ok(3,4) g1(1) ok(2)
  show ?thesis by (auto simp: placeUnderMouse_def rsize_def)
qed

lemma random_inside:
  assumes "placeable area g" "0 \<le> rleft area" "0 \<le> rtop area"
    "rwidth (g_frame g) < rwidth area" "rheight (g_frame g) < rheight area"
  shows "\<exists>pl' g'. placeAtRandom area (pl, g) = Returns (pl', g') \<and> rwithin (g_frame g') area \<and>
    rsize (g_frame g') = rsize (g_frame g)"
proof -
  have v: "geo_settled g" "rvalid area" using assms(1) by (simp_all add: placeable_def)
  have "\<exists>x y pl'. rleft area \<le> x \<and> x + rwidth (g_frame g) - 1 \<le> rright area \<and> rtop area \<le> y \<and>
      y + rheight (g_frame g) - 1 \<le> rbottom area \<and>
      placeAtRandom area (pl, g) = lift_geo (win_move (x, y)) (pl', g)"
    unfolding placeAtRandom_def Let_def fst_conv snd_conv
    by (subst v(2) [THEN eqTrueI], subst oassert_True, intro exI conjI, rule_tac [5] refl)
      (use assms(2-) in \<open>auto simp: rwidth_def rheight_def\<close>)
  then obtain x y pl' where at: "rleft area \<le> x" "x + rwidth (g_frame g) - 1 \<le> rright area" "rtop area \<le> y"
      "y + rheight (g_frame g) - 1 \<le> rbottom area" "placeAtRandom area (pl, g) = lift_geo (win_move (x, y)) (pl', g)"
    by (elim exE conjE) (rule that)
  with move_inside [OF v(1), of area "(x, y)"] show ?thesis by (auto simp: lift_geo_def)
qed

text \<open>The list of cascading positions as the program keeps it.\<close>

definition cascade_ok :: "placement \<Rightarrow> bool" where
  "cascade_ok pl \<longleftrightarrow> (\<forall>c \<in> set (pl_cci pl). 0 \<le> ci_col c \<and> 0 \<le> ci_row c)"

lemma cascade_step_inside:
  assumes "rleft area = 0" "rtop area = 0" "0 \<le> ci_col c0" "0 \<le> ci_row c0" "0 \<le> fst delta" "0 \<le> snd delta"
    "cw \<le> rwidth area" "ch \<le> rheight area"
  shows "\<exists>c. cascade_step delta area cw ch (cascade_start area c0) = (c, None) \<or>
    (\<exists>x y. cascade_step delta area cw ch (cascade_start area c0) = (c, Some (x, y)) \<and>
       0 \<le> x \<and> x + cw \<le> rwidth area \<and> 0 \<le> y \<and> y + ch \<le> rheight area)"
proof -
  define c where "c = cascade_start area c0"
  have c: "0 \<le> ci_col c" "0 \<le> ci_row c" "0 \<le> fst (ci_pos c)" "0 \<le> snd (ci_pos c)"
    using assms by (auto simp: c_def cascade_start_def rtopLeft_def)
  then have mult: "0 \<le> fst delta * (ci_col c + 1)" "0 \<le> snd delta * (ci_row c + 1)" using assms(5,6) by simp_all
  show ?thesis using assms(7,8) c mult unfolding c_def [symmetric] cascade_step_def Let_def assms(1,2)
    by (auto split: if_splits)
qed

lemma cascaded_inside:
  assumes "placeable area g" "rleft area = 0" "rtop area = 0" "cascade_ok pl"
    and dn: "dn = placement_desktop (pe_desk E) (pe_win E) - 1" "0 \<le> dn" "dn < int (length (pl_cci pl))"
    and delta: "0 \<le> fst (cascadeOffset E g)" "0 \<le> snd (cascadeOffset E g)"
    and again: "\<And>pl. \<exists>pl' g'. again Smart (pl, g) = Returns (pl', g') \<and> rwithin (g_frame g') area \<and>
      rsize (g_frame g') = rsize (g_frame g)"
  shows "\<exists>pl' g'. placeCascaded again E area PolicyUnknown (pl, g) = Returns (pl', g') \<and>
    rwithin (g_frame g') area \<and> rsize (g_frame g') = rsize (g_frame g)"
proof -
  have v: "geo_settled g" "rvalid area" "szvalid (rsize (g_frame g))"
    "rwidth (g_frame g) \<le> rwidth area" "rheight (g_frame g) \<le> rheight area"
    using assms(1) by (simp_all add: placeable_def szvalid_def rsize_def)
  define c0 where "c0 = pl_cci pl ! nat dn"
  have at: "at_index (pl_cci pl) dn = Returns c0" using dn by (simp add: at_index_def c0_def)
  have "c0 \<in> set (pl_cci pl)" unfolding c0_def using dn by (intro nth_mem) linarith
  with assms(4) have c0: "0 \<le> ci_col c0" "0 \<le> ci_row c0" by (simp_all add: cascade_ok_def)
  obtain c' where c': "cascade_step (cascadeOffset E g) area (rwidth (g_frame g)) (rheight (g_frame g)) (cascade_start area c0) =
      (c', None) \<or> (\<exists>x y. cascade_step (cascadeOffset E g) area (rwidth (g_frame g)) (rheight (g_frame g)) (cascade_start area c0) =
      (c', Some (x, y)) \<and> 0 \<le> x \<and> x + rwidth (g_frame g) \<le> rwidth area \<and> 0 \<le> y \<and> y + rheight (g_frame g) \<le> rheight area)"
    using cascade_step_inside [OF assms(2,3) c0 delta v(4,5)] by blast
  from c' show ?thesis
  proof (elim disjE exE conjE)
    assume "cascade_step (cascadeOffset E g) area (rwidth (g_frame g)) (rheight (g_frame g)) (cascade_start area c0) = (c', None)"
    with v(2,3) have "placeCascaded again E area PolicyUnknown (pl, g) = again Smart (pl\<lparr>pl_cci := (pl_cci pl)[nat dn := c']\<rparr>, g)"
      by (simp add: placeCascaded_def Let_def dn(1) [symmetric] at)
    with again show ?thesis by simp
  next
    fix x y
    assume step: "cascade_step (cascadeOffset E g) area (rwidth (g_frame g)) (rheight (g_frame g)) (cascade_start area c0) =
        (c', Some (x, y))"
      and fits: "0 \<le> x" "x + rwidth (g_frame g) \<le> rwidth area" "0 \<le> y" "y + rheight (g_frame g) \<le> rheight area"
    from fits have "\<exists>g'. win_move (x, y) g = Returns g' \<and> rwithin (g_frame g') area \<and> rsize (g_frame g') = rsize (g_frame g)"
      using assms(2,3) by (intro move_inside [OF v(1)]) (simp_all add: rwidth_def rheight_def)
    with step v(2,3) show ?thesis
      by (auto simp: placeCascaded_def Let_def dn(1) [symmetric] at)
  qed
qed



text \<open>
  In an area that does not start at the origin, as on a screen with a panel at the left, a new
  column of the cascade is counted from the origin of the screen instead of the area: here the
  window is put 80 columns to the left of it.
\<close>

lemma cascade_leaves_area:
  "cascade_step (20, 16) (mk_rect 100 0 1000 800) 200 100 \<lparr>ci_pos = (300, 790), ci_col = 0, ci_row = 0\<rparr> =
   (\<lparr>ci_pos = (300, 790), ci_col = 1, ci_row = 0\<rparr>, Some (20, 0))"
  by (simp add: cascade_step_def rect_ops)

end
