(* ===== verification/Workspace_Position.thy ===== *)
theory Workspace_Position
  imports Maximize Client_Area
begin

text \<open>
  \<open>win::check_workspace_position\<close> (\<^verbatim>\<open>win/move.h\<close>): the position of a window after the
  screens, the struts or its desktop have changed, and the end of \<open>Workspace::updateClientArea\<close>,
  which calls it for every window.
\<close>

section \<open>Environment\<close>

text \<open>
  \<open>po_struts\<close> and \<open>po_oldStruts\<close> are \<open>restrictedMoveArea(win->desktop(), side)\<close> and the area
  function chosen for the old bounds at the old desktop. The loops over a region only take a maximum
  or minimum over all of it, so it does not matter how the region is cut into rectangles.
\<close>

record pos_env =
  po_geo :: geo_env
  po_outputs :: "rect list"
  po_inUpdate :: bool
  po_oldDisplaySize :: qsize
  po_previousScreens :: "rect list"
  po_struts :: "strut_area \<Rightarrow> rect list"
  po_oldStruts :: "strut_area \<Rightarrow> rect list"

abbreviation po_area :: "pos_env \<Rightarrow> area_fun" where
  "po_area P \<equiv> ge_area (po_geo P)"

definition struts_at :: "space \<Rightarrow> int \<Rightarrow> strut_rect list list \<Rightarrow> strut_area \<Rightarrow> rect list" where
  "struts_at S desktop struts area =
     (case strutsToRegion S desktop area struts of Returns rs \<Rightarrow> rs | _ \<Rightarrow> [])"

definition pos_env_for :: "geo_env \<Rightarrow> space \<Rightarrow> int \<Rightarrow> int \<Rightarrow> pos_env" where
  "pos_env_for E S desktop oldDesktop =
     \<lparr>po_geo = E\<lparr>ge_area := area_of S desktop\<rparr>, po_outputs = sp_outputs S, po_inUpdate = inUpdateClientArea S,
      po_oldDisplaySize = sp_oldDisplaySize S, po_previousScreens = sp_oldScreenSizes S,
      po_struts = struts_at S desktop (sp_restricted S),
      po_oldStruts = struts_at S oldDesktop (if inUpdateClientArea S then sp_oldRestricted S else sp_restricted S)\<rparr>"

section \<open>Bounds\<close>

text \<open>The screen as it was before the change: the first of the previous screens nearest to the old frame.\<close>

fun nearest_previous :: "point \<Rightarrow> int \<Rightarrow> rect \<Rightarrow> rect list \<Rightarrow> rect" where
  "nearest_previous c dist best [] = best"
| "nearest_previous c dist best (r # rs) =
     (let d = (if rcontains_point r c then 0
               else manhattanLength (fst (rcenter r) - fst c, snd (rcenter r) - snd c))
      in if d < dist then nearest_previous c d r rs else nearest_previous c dist best rs)"

definition old_screen_area :: "pos_env \<Rightarrow> rect \<Rightarrow> rect" where
  "old_screen_area P old_frame =
     (if po_inUpdate P
      then nearest_previous (rcenter old_frame) INT_MAX
             (mk_rect 0 0 (fst (po_oldDisplaySize P)) (snd (po_oldDisplaySize P))) (po_previousScreens P)
      else po_area P ScreenArea (rcenter old_frame))"

text \<open>How far a window may reach to each side: the screen less the struts beside the frame.\<close>

record bounds =
  bd_left :: int
  bd_top :: int
  bd_right :: int
  bd_bottom :: int

definition cut_struts :: "rect \<Rightarrow> rect list \<Rightarrow> rect list" where
  "cut_struts band rs = filter (\<lambda>r. \<not> rempty r) (map (\<lambda>r. rintersected r band) rs)"

definition strut_bounds :: "rect \<Rightarrow> (strut_area \<Rightarrow> rect list) \<Rightarrow> rect \<Rightarrow> bounds" where
  "strut_bounds a struts frame =
     (let tall = mk_rect (rleft frame) (rtop a) (rwidth frame) (rheight a);
          wide = mk_rect (rleft a) (rtop frame) (rwidth a) (rheight frame)
      in \<lparr>bd_left = fold (\<lambda>r m. max m (rleft r + rwidth r)) (cut_struts wide (struts StrutAreaLeft)) (rleft a),
          bd_top = fold (\<lambda>r m. max m (rtop r + rheight r)) (cut_struts tall (struts StrutAreaTop)) (rtop a),
          bd_right = fold (\<lambda>r m. min m (rleft r)) (cut_struts wide (struts StrutAreaRight)) (rleft a + rwidth a),
          bd_bottom = fold (\<lambda>r m. min m (rtop r)) (cut_struts tall (struts StrutAreaBottom)) (rtop a + rheight a)\<rparr>)"

section \<open>Which sides to keep\<close>

text \<open>
  \<open>kp_save\<close>: the side was within the old bounds and is not within the new ones. \<open>kp_keep\<close>: the
  frame, or else the client, touched the old bound and does not touch the new one; in the second
  case \<open>kp_pad\<close> is the border. The source takes the left border for the top, too.
\<close>

record keep_side =
  kp_save :: bool
  kp_keep :: bool
  kp_pad :: int

definition side_state :: "bool \<Rightarrow> bool \<Rightarrow> bool \<Rightarrow> bool \<Rightarrow> int \<Rightarrow> keep_side" where
  "side_state save frame_touched frame_moved client_moved border =
     (if frame_touched then \<lparr>kp_save = save, kp_keep = frame_moved, kp_pad = 0\<rparr>
      else if client_moved then \<lparr>kp_save = save, kp_keep = True, kp_pad = border\<rparr>
      else \<lparr>kp_save = save, kp_keep = False, kp_pad = 0\<rparr>)"

definition drop_opposing :: "keep_side \<Rightarrow> keep_side \<Rightarrow> keep_side" where
  "drop_opposing a b = (if kp_keep a \<and> kp_keep b then a\<lparr>kp_keep := False, kp_pad := 0\<rparr> else a)"

definition side_left :: "bounds \<Rightarrow> bounds \<Rightarrow> int \<Rightarrow> rect \<Rightarrow> rect \<Rightarrow> rect \<Rightarrow> rect \<Rightarrow> keep_side" where
  "side_left ob nb border of' oc f c =
     side_state (rleft of' \<ge> bd_left ob \<and> rleft f < bd_left nb) (rleft of' = bd_left ob) (rleft f \<noteq> bd_left nb)
       (rleft oc = bd_left ob \<and> rleft c \<noteq> bd_left nb) border"

definition side_top :: "bounds \<Rightarrow> bounds \<Rightarrow> int \<Rightarrow> rect \<Rightarrow> rect \<Rightarrow> rect \<Rightarrow> rect \<Rightarrow> keep_side" where
  "side_top ob nb border of' oc f c =
     side_state (rtop of' \<ge> bd_top ob \<and> rtop f < bd_top nb) (rtop of' = bd_top ob) (rtop f \<noteq> bd_top nb)
       (rtop oc = bd_top ob \<and> rtop c \<noteq> bd_top nb) border"

definition side_right :: "bounds \<Rightarrow> bounds \<Rightarrow> int \<Rightarrow> rect \<Rightarrow> rect \<Rightarrow> rect \<Rightarrow> rect \<Rightarrow> keep_side" where
  "side_right ob nb border of' oc f c =
     side_state (rright of' \<le> bd_right ob - 1 \<and> rright f > bd_right nb - 1) (rright of' = bd_right ob - 1)
       (rright f \<noteq> bd_right nb - 1) (rright oc = bd_right ob - 1 \<and> rright c \<noteq> bd_right nb - 1) border"

definition side_bottom :: "bounds \<Rightarrow> bounds \<Rightarrow> int \<Rightarrow> rect \<Rightarrow> rect \<Rightarrow> rect \<Rightarrow> rect \<Rightarrow> keep_side" where
  "side_bottom ob nb border of' oc f c =
     side_state (rbottom of' \<le> bd_bottom ob - 1 \<and> rbottom f > bd_bottom nb - 1) (rbottom of' = bd_bottom ob - 1)
       (rbottom f \<noteq> bd_bottom nb - 1) (rbottom oc = bd_bottom ob - 1 \<and> rbottom c \<noteq> bd_bottom nb - 1) border"

section \<open>Moving the frame\<close>

definition unpad :: "rect list \<Rightarrow> int \<Rightarrow> (rect \<Rightarrow> rect) \<Rightarrow> rect \<Rightarrow> rect" where
  "unpad outs pad back f = (if pad \<noteq> 0 \<and> screens_intersecting outs f > 1 then back f else f)"

definition move_sides :: "rect list \<Rightarrow> rect \<Rightarrow> bounds \<Rightarrow> keep_side \<Rightarrow> keep_side \<Rightarrow> keep_side \<Rightarrow> rect \<Rightarrow> rect" where
  "move_sides outs a nb l t r frame =
     (let f1 = (if kp_save l \<or> kp_keep l then moveLeft (max (bd_left nb) (rleft a) - kp_pad l) frame else frame);
          f2 = unpad outs (kp_pad l) (\<lambda>f. moveLeft (rleft f + kp_pad l) f) f1;
          f3 = (if kp_save t \<or> kp_keep t then moveTop (max (bd_top nb) (rtop a) - kp_pad t) f2 else f2);
          f4 = unpad outs (kp_pad t) (\<lambda>f. moveTop (rtop f + kp_pad t) f) f3;
          f5 = (if kp_save r \<or> kp_keep r then moveRight (min (bd_right nb - 1) (rright a) + kp_pad r) f4 else f4)
      in unpad outs (kp_pad r) (\<lambda>f. moveRight (rright f - kp_pad r) f) f5)"

definition clip_left :: "rect list \<Rightarrow> rect \<Rightarrow> int \<Rightarrow> bounds \<Rightarrow> bounds \<Rightarrow> rect \<Rightarrow> rect \<Rightarrow> rect \<Rightarrow> rect" where
  "clip_left outs a border ob nb old_frame old_client f =
     (if rleft old_frame \<ge> bd_left ob \<and> rleft f < bd_left nb then f\<lparr>rleft := max (bd_left nb) (rleft a)\<rparr>
      else if rleft old_client \<ge> bd_left ob \<and> rleft f + border < bd_left nb
      then let f' = f\<lparr>rleft := max (bd_left nb) (rleft a) - border\<rparr> in
        if screens_intersecting outs f' > 1 then f'\<lparr>rleft := rleft f' + border\<rparr> else f'
      else f)"

definition move_bottom :: "rect list \<Rightarrow> rect \<Rightarrow> bounds \<Rightarrow> keep_side \<Rightarrow> rect \<Rightarrow> rect" where
  "move_bottom outs a nb b f =
     unpad outs (kp_pad b) (\<lambda>f. moveBottom (rbottom f - kp_pad b) f)
       (if kp_save b \<or> kp_keep b then moveBottom (min (bd_bottom nb - 1) (rbottom a) + kp_pad b) f else f)"

definition clip_top :: "rect list \<Rightarrow> rect \<Rightarrow> int \<Rightarrow> bounds \<Rightarrow> bounds \<Rightarrow> rect \<Rightarrow> rect \<Rightarrow> rect \<Rightarrow> rect" where
  "clip_top outs a border ob nb old_frame old_client f =
     (if rtop old_frame \<ge> bd_top ob \<and> rtop f < bd_top nb then f\<lparr>rtop := max (bd_top nb) (rtop a)\<rparr>
      else if rtop old_client \<ge> bd_top ob \<and> rtop f + border < bd_top nb
      then let f' = f\<lparr>rtop := max (bd_top nb) (rtop a) - border\<rparr> in
        if screens_intersecting outs f' > 1 then f'\<lparr>rtop := rtop f' + border\<rparr> else f'
      else f)"

text \<open>\<open>frame_in_bounds\<close> is the code up to the call of \<open>check_offscreen_position\<close>.\<close>

definition frame_in_bounds ::
  "rect list \<Rightarrow> rect \<Rightarrow> margins \<Rightarrow> bounds \<Rightarrow> bounds \<Rightarrow> rect \<Rightarrow> rect \<Rightarrow> rect \<Rightarrow> rect" where
  "frame_in_bounds outs a m ob nb old_frame old_client frame =
     (let client = rsub frame m;
          l = side_left ob nb (mleft m) old_frame old_client frame client;
          t = side_top ob nb (mleft m) old_frame old_client frame client;
          r = side_right ob nb (mright m) old_frame old_client frame client;
          b = side_bottom ob nb (mbottom m) old_frame old_client frame client
      in clip_top outs a (mtop m) ob nb old_frame old_client
           (move_bottom outs a nb (drop_opposing b t)
             (clip_left outs a (mleft m) ob nb old_frame old_client
               (move_sides outs a nb (drop_opposing l r) (drop_opposing t b) (drop_opposing r l) frame))))"

definition place_in_bounds ::
  "rect list \<Rightarrow> rect \<Rightarrow> margins \<Rightarrow> bounds \<Rightarrow> bounds \<Rightarrow> rect \<Rightarrow> rect \<Rightarrow> rect \<Rightarrow> rect" where
  "place_in_bounds outs a m ob nb old_frame old_client frame =
     check_offscreen_position (frame_in_bounds outs a m ob nb old_frame old_client frame) a"

text \<open>
  The window as a whole. \<open>old_frame0\<close> and \<open>old_client0\<close> are the optional arguments, null
  rectangles by default; the old desktop is in the environment.
\<close>

definition normal_position :: "pos_env \<Rightarrow> rect \<Rightarrow> rect \<Rightarrow> wgeo \<Rightarrow> wgeo" where
  "normal_position P old_frame0 old_client0 g =
     (let frame = pending_frame_geometry g; m = g_border g;
          old_frame = (if rvalid old_frame0 then old_frame0 else frame);
          old_client = (if rvalid old_client0 then old_client0 else rsub old_frame m);
          a = po_area P ScreenArea (rcenter frame);
          ob = strut_bounds (old_screen_area P old_frame) (po_oldStruts P) old_frame;
          nb = strut_bounds a (po_struts P) frame;
          f = place_in_bounds (po_outputs P) a m ob nb old_frame old_client frame
      in setFrameGeometry (setSize (g_adjust g (rsize f) SizeAny) f) g)"

definition check_workspace_position :: "pos_env \<Rightarrow> window \<Rightarrow> rect \<Rightarrow> rect \<Rightarrow> wgeo \<Rightarrow> wgeo outcome" where
  "check_workspace_position P w old_frame old_client g =
     oassert (w_control w)
       (if is_desktop w \<or> is_dock w then Returns g
        else if g_fullscreen g
        then Returns (setFrameGeometry (po_area P FullScreenArea (rcenter (pending_frame_geometry g))) g)
        else if g_maximizeMode g \<noteq> MRestore
        then with_geometry_blocker (\<lambda>g1.
            obind (update_maximized (po_geo P) (g_max_mode g1) g1) (\<lambda>g2.
              Returns (setFrameGeometry (check_offscreen_position (pending_frame_geometry g2)
                (po_area P ScreenArea (rcenter (pending_frame_geometry g2)))) g2))) g
        else if g_quicktiling g \<noteq> qt_none
        then Returns (setFrameGeometry
            (electric_border_maximize_geometry (po_area P) (rcenter (pending_frame_geometry g)) g) g)
        else Returns (normal_position P old_frame old_client g))"

section \<open>Updating all windows\<close>

text \<open>
  \<open>Workspace::updateClientArea(force)\<close>: compute the areas, and if they have changed assign them and
  reposition all windows. Setting the work area of the root window is not represented. The
  environment of a window is taken from \<open>E\<close>, its obstacles from the stacking order.
\<close>

definition reposition :: "geo_env \<Rightarrow> space \<Rightarrow> addr list \<Rightarrow> addr \<Rightarrow> wstore \<Rightarrow> wstore outcome" where
  "reposition E S stack a W =
     (let d = win_desktop (sp_desk S) (W a);
          E' = E\<lparr>ge_obstacles := relevant_obstacles (sp_desk S) W stack a, ge_toolbar := is_toolbar (W a)\<rparr>
      in obind (check_workspace_position (pos_env_for E' S d d) (W a) null_rect null_rect (w_geo (W a)))
           (\<lambda>g. Returns (W(a := (W a)\<lparr>w_geo := g\<rparr>))))"

definition updateClientArea ::
  "geo_env \<Rightarrow> (addr \<Rightarrow> strut_info) \<Rightarrow> addr list \<Rightarrow> addr list \<Rightarrow> addr list \<Rightarrow> bool \<Rightarrow> space \<times> wstore \<Rightarrow> (space \<times> wstore) outcome" where
  "updateClientArea E info stack clients wayland force s =
     (let S = fst s; W = snd s in
      obind (computed_areas S info W clients wayland) (\<lambda>A.
      obind (areas_changed force A S) (\<lambda>changed.
        if \<not> changed then Returns s
        else
          let S1 = assign_areas A S in
          obind (ofold (reposition E S1 stack) clients W) (\<lambda>W'.
            Returns (S1\<lparr>sp_oldRestricted := []\<rparr>, W')))))"

section \<open>Properties\<close>

lemma fold_max_ge: "(m :: int) \<le> fold (\<lambda>r m. max m (f r)) rs m \<and> (\<forall>r \<in> set rs. f r \<le> fold (\<lambda>r m. max m (f r)) rs m)"
proof (induction rs arbitrary: m)
  case (Cons r rs)
  from Cons [of "max m (f r)"] show ?case by auto
qed simp

lemma strut_bounds_screen: "rleft a \<le> bd_left (strut_bounds a struts f)" "rtop a \<le> bd_top (strut_bounds a struts f)"
  by (simp_all add: strut_bounds_def Let_def fold_max_ge)

text \<open>
  A window that was within the left and top bounds of its old screen is within the new ones
  when it has been repositioned, before the correction for windows that are off screen: a panel
  that appears at the left or at the top never covers it. Right and bottom bounds are subordinate.
\<close>

theorem repositioned_clear_of_left_and_top:
  assumes "bd_left ob \<le> rleft old_frame" and "bd_top ob \<le> rtop old_frame" and "0 \<le> mleft m" and "0 \<le> mtop m"
    and "nb = strut_bounds a struts frame"
  shows "bd_left nb \<le> rleft (frame_in_bounds outs a m ob nb old_frame old_client frame) \<and>
    bd_top nb \<le> rtop (frame_in_bounds outs a m ob nb old_frame old_client frame)"
proof -
  have nb: "rleft a \<le> bd_left nb" "rtop a \<le> bd_top nb" by (simp_all add: assms(5) strut_bounds_screen)
  have "bd_left nb \<le> rleft (clip_left outs a (mleft m) ob nb old_frame old_client f)" for f
    using assms(1,3) nb by (auto simp: clip_left_def Let_def)
  moreover have "rleft (move_bottom outs a nb b f) = rleft f" for b f
    by (simp add: move_bottom_def unpad_def moveBottom_def)
  moreover have "rleft (clip_top outs a (mtop m) ob nb old_frame old_client f) = rleft f" for f
    by (simp add: clip_top_def Let_def)
  moreover have "bd_top nb \<le> rtop (clip_top outs a (mtop m) ob nb old_frame old_client f)" for f
    using assms(2,4) nb by (auto simp: clip_top_def Let_def)
  ultimately show ?thesis unfolding frame_in_bounds_def Let_def by simp
qed

theorem repositioned_clear_of_left_and_top_witness:
  "let nb = strut_bounds (mk_rect 0 0 1000 800) (\<lambda>s. if s = StrutAreaLeft then [mk_rect 0 0 60 800] else []) (mk_rect 10 10 300 200)
   in bd_left nb = 60 \<and> 60 \<le> rleft (frame_in_bounds [mk_rect 0 0 1000 800] (mk_rect 0 0 1000 800) no_margins
     \<lparr>bd_left = 0, bd_top = 0, bd_right = 1000, bd_bottom = 800\<rparr> nb (mk_rect 10 10 300 200) (mk_rect 10 10 300 200) (mk_rect 10 10 300 200))"
proof -
  let ?struts = "\<lambda>s. if s = StrutAreaLeft then [mk_rect 0 0 60 800] else []"
  let ?a = "mk_rect 0 0 1000 800" and ?f = "mk_rect 10 10 300 200"
  have "bd_left (strut_bounds ?a ?struts ?f) = 60"
    by (simp add: strut_bounds_def cut_struts_def rintersected_def rnull_def rnorm_def rempty_def rect_ops Let_def)
  with repositioned_clear_of_left_and_top
    [of "\<lparr>bd_left = 0, bd_top = 0, bd_right = 1000, bd_bottom = 800\<rparr>" ?f no_margins _ ?a ?struts ?f "[?a]" ?f]
  show ?thesis by (simp add: Let_def mk_rect_def no_margins_def)
qed

lemma frame_in_bounds_stable:
  "frame_in_bounds outs a m nb nb frame (rsub frame m) frame = frame"
proof -
  let ?idle = "\<lparr>kp_save = False, kp_keep = False, kp_pad = 0\<rparr>"
  have sides: "side_left nb nb b frame c frame c = ?idle" "side_top nb nb b frame c frame c = ?idle"
    "side_right nb nb b frame c frame c = ?idle" "side_bottom nb nb b frame c frame c = ?idle" for b c
    by (auto simp: side_left_def side_top_def side_right_def side_bottom_def side_state_def)
  have "move_sides outs a nb ?idle ?idle ?idle frame = frame" "move_bottom outs a nb ?idle frame = frame"
    by (simp_all add: move_sides_def move_bottom_def unpad_def)
  moreover have "clip_left outs a (mleft m) nb nb frame (rsub frame m) frame = frame"
    "clip_top outs a (mtop m) nb nb frame (rsub frame m) frame = frame"
    by (auto simp: clip_left_def clip_top_def rsub_def)
  ultimately show ?thesis by (simp add: frame_in_bounds_def sides drop_opposing_def Let_def)
qed

lemma check_position_stable:
  assumes "geo_settled g" and "w_control w" and "\<not> g_fullscreen g" and "g_maximizeMode g = MRestore"
    and "g_quicktiling g = qt_none" and "\<not> inUpdateClientArea S"
    and "a = area_of S d ScreenArea (rcenter (g_frame g))"
    and "rleft (g_frame g) \<le> rright a" and "rleft a \<le> rright (g_frame g)"
    and "rtop (g_frame g) \<le> rbottom a" and "rtop a \<le> rbottom (g_frame g)"
    and "g_adjust g (rsize (g_frame g)) SizeAny = rsize (g_frame g)"
  shows "check_workspace_position (pos_env_for E S d d) w null_rect null_rect g =
    Returns (if is_desktop w \<or> is_dock w then g else setFrameGeometry (g_frame g) g)"
proof -
  let ?P = "pos_env_for E S d d" and ?f = "g_frame g"
  have null: "\<not> rvalid null_rect" by (simp add: rvalid_def null_rect_def mk_rect_def)
  have "old_screen_area ?P ?f = a" "po_area ?P ScreenArea (rcenter ?f) = a" "po_oldStruts ?P = po_struts ?P"
    using assms(6,7) by (simp_all add: old_screen_area_def pos_env_for_def)
  moreover have "place_in_bounds outs a m nb nb ?f (rsub ?f m) ?f = ?f" for outs m nb
    using assms(8-11) by (simp add: place_in_bounds_def frame_in_bounds_stable check_offscreen_position_def Let_def)
  moreover have "setSize (rsize ?f) ?f = ?f" by (simp add: rect_ops)
  ultimately have "normal_position ?P null_rect null_rect g = setFrameGeometry ?f g"
    using assms(12) by (simp add: normal_position_def settled_pending [OF assms(1)] null Let_def)
  then show ?thesis
    using assms(1-5) by (simp add: check_workspace_position_def)
qed

text \<open>
  When nothing has changed, checking the position of an ordinary window that is on its screen
  and obeys its size hints leaves it where it is.
\<close>

theorem unchanged_workspace_keeps_position:
  assumes "geo_settled g" and "w_control w" and "\<not> g_fullscreen g" and "g_maximizeMode g = MRestore"
    and "g_quicktiling g = qt_none" and "\<not> inUpdateClientArea S"
    and "a = area_of S d ScreenArea (rcenter (g_frame g))"
    and "rleft (g_frame g) \<le> rright a" and "rleft a \<le> rright (g_frame g)"
    and "rtop (g_frame g) \<le> rbottom a" and "rtop a \<le> rbottom (g_frame g)"
    and "g_adjust g (rsize (g_frame g)) SizeAny = rsize (g_frame g)"
  shows "\<exists>g'. check_workspace_position (pos_env_for E S d d) w null_rect null_rect g = Returns g' \<and> g_frame g' = g_frame g"
  using check_position_stable [OF assms] settled_set [OF assms(1), of "g_frame g"] by simp

theorem unchanged_workspace_keeps_position_witness:
  "\<exists>g'. check_workspace_position (pos_env_for demo_geo_env demo_space 1 1) demo_window null_rect null_rect demo_geo = Returns g' \<and>
     g_frame g' = mk_rect 0 0 100 100"
proof -
  have a: "area_of demo_space 1 ScreenArea (rcenter (g_frame demo_geo)) = mk_rect 0 0 100 100" by code_simp
  have g: "g_frame demo_geo = mk_rect 0 0 100 100" by (simp add: demo_geo_def)
  show ?thesis
    using unchanged_workspace_keeps_position [OF demo_geo_settled, of demo_window demo_space _ 1 demo_geo_env, OF _ _ _ _ _ a [symmetric]]
    by (simp add: g) (simp add: demo_geo_def demo_window_def inUpdateClientArea_def demo_space_def mk_rect_def)
qed

text \<open>
  The padding of the top side is the left border: a window whose client touched the top edge of
  the screen, with a title bar of 30 and a left border of 4 rows, is moved to the row -4 when the
  top edge moves to row 0, and its client no longer touches the edge.
\<close>

lemma top_padding_is_left_border:
  "kp_pad (side_top \<lparr>bd_left = 0, bd_top = 100, bd_right = 1000, bd_bottom = 900\<rparr>
      \<lparr>bd_left = 0, bd_top = 0, bd_right = 1000, bd_bottom = 800\<rparr> (mleft \<lparr>mleft = 4, mtop = 30, mright = 4, mbottom = 4\<rparr>)
      (mk_rect 10 70 300 200) (mk_rect 14 100 292 166) (mk_rect 10 70 300 200) (mk_rect 14 100 292 166)) = 4"
  by (simp add: side_top_def side_state_def mk_rect_def)

end
