(* ===== verification/Tiling.thy ===== *)
theory Tiling
  imports Workspace_Position
begin

text \<open>
  Quick tiling (\<open>set_quicktile_mode\<close> of \<^verbatim>\<open>win/move.h\<close>) and full screen (\<^verbatim>\<open>win/fullscreen.h\<close>).
  Both, like maximizing, remember the frame to come back to in the one restore geometry of the
  window. \<open>w\<close> is the window for its type, \<open>screen\<close> its screen.
\<close>

section \<open>Quick tiling\<close>

text \<open>The next screen to the left or right of \<open>old\<close>, among the screens beside it.\<close>

fun next_tile_screen :: "quicktiles \<Rightarrow> (nat \<Rightarrow> rect) \<Rightarrow> nat \<Rightarrow> nat \<Rightarrow> nat list \<Rightarrow> nat" where
  "next_tile_screen mode geo old screen [] = screen"
| "next_tile_screen mode geo old screen (i # is) =
     (let x = fst (rcenter (geo i)); cur = fst (rcenter (geo old)); best = fst (rcenter (geo screen));
          skip = (i = old \<or> rbottom (geo i) \<le> rtop (geo old) \<or> rtop (geo i) \<ge> rbottom (geo old) \<or>
            (if qt_left mode \<and> \<not> qt_right mode then x \<ge> cur \<or> (old \<noteq> screen \<and> x \<le> best)
             else if qt_right mode \<and> \<not> qt_left mode then x \<le> cur \<or> (old \<noteq> screen \<and> x \<ge> best)
             else False))
      in next_tile_screen mode geo old (if skip then screen else i) is)"

definition swap_sides :: "quicktiles \<Rightarrow> quicktiles" where
  "swap_sides q = (if qt_left q \<or> qt_right q then q\<lparr>qt_left := \<not> qt_left q, qt_right := \<not> qt_right q\<rparr> else q)"

text \<open>The special case of the tile \<open>maximize\<close>.\<close>

definition tile_maximize :: "pos_env \<Rightarrow> wgeo \<Rightarrow> wgeo outcome" where
  "tile_maximize P g0 =
     (let old_restore = g_restore g0; g = g0\<lparr>g_quicktiling := qt_none\<rparr> in
      if g_maximizeMode g = MFull then set_maximize (po_geo P) False False g
      else obind (set_maximize (po_geo P) True True (g\<lparr>g_quicktiling := qt_maximize\<rparr>)) (\<lambda>g1.
        let frame = pending_frame_geometry g1; area = po_area P MaximizeArea (rcenter frame);
            g2 = (if rtop frame \<noteq> rtop area then setFrameGeometry (moveTop (rtop area) frame) g1 else g1)
        in Returns (g2\<lparr>g_restore := old_restore\<rparr>)))"

text \<open>A window that is maximized is restored first.\<close>

definition tile_maximized :: "pos_env \<Rightarrow> quicktiles \<Rightarrow> bool \<Rightarrow> wgeo \<Rightarrow> wgeo outcome" where
  "tile_maximized P mode keyboard g =
     (if mode \<noteq> qt_none
      then obind (set_maximize (po_geo P) False False (g\<lparr>g_quicktiling := qt_none\<rparr>)) (\<lambda>g1.
        let ref = (if keyboard then rcenter (pending_frame_geometry g1) else ge_cursor (po_geo P));
            g2 = setFrameGeometry (electric_border_maximize_geometry (po_area P) ref g1) g1
        in Returns (g2\<lparr>g_quicktiling := mode, g_restore := g_restore g\<rparr>))
      else set_maximize (po_geo P) False False (g\<lparr>g_quicktiling := mode\<rparr>))"

text \<open>
  Tiling to the side the window is already tiled to moves it to the next screen, or removes the tile
  if there is none. The result is the mode, the point that selects the screen and the window.
\<close>

definition tile_again ::
  "pos_env \<Rightarrow> int \<Rightarrow> quicktiles \<Rightarrow> point \<Rightarrow> wgeo \<Rightarrow> (quicktiles \<times> point \<times> wgeo) outcome" where
  "tile_again P screen mode target g =
     (if screen < 0 \<or> screen \<ge> int (length (po_outputs P)) then Faults OutOfRange
      else
        let geo = (\<lambda>i. po_outputs P ! i); old = nat screen;
            next = next_tile_screen mode geo old old [0..<length (po_outputs P)]
        in if next = old then Returns (qt_none, target, set_electric qt_none g)
           else
             let d = (rleft (geo next) - rleft (geo old), rtop (geo next) - rtop (geo old));
                 g1 = setFrameGeometry (rtranslated d (g_restore g)) g;
                 mode' = swap_sides mode
             in Returns (mode', rcenter (geo next), set_electric mode' g1))"

definition tile_window :: "pos_env \<Rightarrow> window \<Rightarrow> int \<Rightarrow> quicktiles \<Rightarrow> bool \<Rightarrow> wgeo \<Rightarrow> wgeo outcome" where
  "tile_window P w screen mode0 keyboard g0 =
     obind (if mode0 = qt_none then Returns (mode0, g0)
            else
              let target0 = (if keyboard then rcenter (pending_frame_geometry g0) else ge_cursor (po_geo P)) in
              obind (if g_quicktiling g0 = mode0 then tile_again P screen mode0 target0 g0
                     else Returns (mode0, target0, g0)) (\<lambda>(mode, target, g).
                let g1 = (if mode \<noteq> qt_none
                          then (let h = g\<lparr>g_quicktiling := qt_none\<rparr> in
                            setFrameGeometry (electric_border_maximize_geometry (po_area P) target h) h)
                          else g)
                in Returns (mode, g1\<lparr>g_quicktiling := mode\<rparr>)))
       (\<lambda>(mode, g).
         if mode = qt_none
         then (let h = g\<lparr>g_quicktiling := qt_none\<rparr> in
           obind (check_workspace_position P w null_rect null_rect (setFrameGeometry (g_restore h) h))
             (\<lambda>g'. Returns (g'\<lparr>g_restore := null_rect\<rparr>)))
         else Returns g)"

definition tiling_body :: "pos_env \<Rightarrow> window \<Rightarrow> int \<Rightarrow> quicktiles \<Rightarrow> bool \<Rightarrow> wgeo \<Rightarrow> wgeo outcome" where
  "tiling_body P w screen mode keyboard g0 =
     (let g = (if \<not> rvalid (g_restore g0) then g0\<lparr>g_restore := g_frameGeometry g0\<rparr> else g0) in
      if mode = qt_maximize then tile_maximize P g
      else
        let mode' = sanitize_tiles mode; g1 = g\<lparr>g_electric := mode'\<rparr> in
        if g_max_mode g1 \<noteq> MRestore then tile_maximized P mode' keyboard g1
        else tile_window P w screen mode' keyboard g1)"

definition set_quicktile_mode :: "pos_env \<Rightarrow> window \<Rightarrow> int \<Rightarrow> quicktiles \<Rightarrow> bool \<Rightarrow> wgeo \<Rightarrow> wgeo outcome" where
  "set_quicktile_mode P w screen mode keyboard g =
     (if \<not> g_resizable g then Returns g
      else with_geometry_blocker (tiling_body P w screen mode keyboard) g)"

text \<open>
  \<open>Workspace::quickTileWindow\<close>: two requests within a second combine to a corner. The state is the
  timer (is it running) and the mode of the last request; the result includes the mode asked for.
\<close>

definition combine_tiles :: "quicktiles \<Rightarrow> quicktiles \<Rightarrow> quicktiles" where
  "combine_tiles prev mode =
     (let single = (\<lambda>l r t b. \<lparr>qt_left = l, qt_right = r, qt_top = t, qt_bottom = b\<rparr>);
          left = single True False False False; right = single False True False False;
          top' = single False False True False; bottom = single False False False True;
          was_lr = (prev = left \<or> prev = right); was_tb = (prev = top' \<or> prev = bottom);
          is_lr = (mode = left \<or> mode = right); is_tb = (mode = top' \<or> mode = bottom)
      in if (was_lr \<and> is_tb) \<or> (was_tb \<and> is_lr)
         then \<lparr>qt_left = (qt_left mode \<or> qt_left prev), qt_right = (qt_right mode \<or> qt_right prev),
               qt_top = (qt_top mode \<or> qt_top prev), qt_bottom = (qt_bottom mode \<or> qt_bottom prev)\<rparr>
         else mode)"

definition quickTileWindow ::
  "(quicktiles \<Rightarrow> wgeo \<Rightarrow> wgeo outcome) \<Rightarrow> quicktiles \<Rightarrow> bool \<times> quicktiles \<times> wgeo \<Rightarrow> (bool \<times> quicktiles \<times> wgeo) outcome" where
  "quickTileWindow set_mode mode s =
     (case s of (timer, prev, g) \<Rightarrow>
        if \<not> timer then obind (set_mode mode g) (\<lambda>g'. Returns (True, mode, g'))
        else obind (set_mode (combine_tiles prev mode) g) (\<lambda>g'. Returns (False, prev, g')))"

section \<open>Full screen\<close>

definition has_special_geometry_mode_besides_fullscreen :: "wgeo \<Rightarrow> bool" where
  "has_special_geometry_mode_besides_fullscreen g \<longleftrightarrow>
     g_max_mode g \<noteq> MRestore \<or> g_quicktiling g \<noteq> qt_none \<or> is_move g"

text \<open>\<open>size * 2 / 3.\<close> rounds to the nearest integer; sizes are not negative here.\<close>

definition two_thirds :: "int \<Rightarrow> int" where
  "two_thirds n = (4 * n + 3) div 6"

definition rectify_fullscreen_restore_geometry :: "pos_env \<Rightarrow> wgeo \<Rightarrow> (rect \<times> wgeo) outcome" where
  "rectify_fullscreen_restore_geometry P g =
     (if rvalid (g_restore g) then Returns (g_restore g, g)
      else
        let area = po_area P PlacementArea (rcenter (pending_frame_geometry g));
            sz = g_adjust g (two_thirds (rwidth area), two_thirds (rheight area)) SizeFixedHeight;
            old = g_frame g
        in obind (placeSmart (ge_obstacles (po_geo P)) area (setFrameGeometry (rect_at (0, 0) sz) g)) (\<lambda>g1.
             Returns (g_frame g1, setFrameGeometry old g1)))"

definition fullscreen_restore_special_mode :: "pos_env \<Rightarrow> window \<Rightarrow> int \<Rightarrow> wgeo \<Rightarrow> wgeo outcome" where
  "fullscreen_restore_special_mode P w screen g =
     oassert (has_special_geometry_mode_besides_fullscreen g)
       (if g_max_mode g \<noteq> MRestore then update_maximized (po_geo P) (g_max_mode g) g
        else if g_quicktiling g \<noteq> qt_none
        then obind (set_quicktile_mode P w screen qt_none False g) (\<lambda>g1.
          obind (set_quicktile_mode P w screen (g_quicktiling g) False g1) (\<lambda>g2.
            Returns (g2\<lparr>g_restore := g_restore g\<rparr>)))
        else oassert (is_move g) (Returns g))"

definition fullscreen_restore_geometry :: "pos_env \<Rightarrow> wgeo \<Rightarrow> wgeo outcome" where
  "fullscreen_restore_geometry P g =
     oassert (\<not> has_special_geometry_mode_besides_fullscreen g)
       (obind (rectify_fullscreen_restore_geometry P g) (\<lambda>(r, g1).
         Returns ((setFrameGeometry r g1)\<lparr>g_restore := null_rect\<rparr>)))"

definition update_fullscreen_enable :: "pos_env \<Rightarrow> wgeo \<Rightarrow> wgeo" where
  "update_fullscreen_enable P g =
     (let g1 = (if \<not> rvalid (g_restore g) then g\<lparr>g_restore := g_frame g\<rparr> else g)
      in setFrameGeometry (po_area P FullScreenArea (rcenter (pending_frame_geometry g1))) g1)"

text \<open>
  The source compares the screen of the window before and after; under the blocker of
  \<open>update_fullscreen\<close> no geometry is committed and it cannot change.
\<close>

definition update_fullscreen_disable :: "pos_env \<Rightarrow> window \<Rightarrow> int \<Rightarrow> wgeo \<Rightarrow> wgeo outcome" where
  "update_fullscreen_disable P w screen g =
     (if has_special_geometry_mode_besides_fullscreen g then fullscreen_restore_special_mode P w screen g
      else fullscreen_restore_geometry P g)"

definition update_fullscreen_impl :: "pos_env \<Rightarrow> window \<Rightarrow> int \<Rightarrow> bool \<Rightarrow> wgeo \<Rightarrow> wgeo outcome" where
  "update_fullscreen_impl P w screen full g =
     (if full then Returns (update_fullscreen_enable P g) else update_fullscreen_disable P w screen g)"

text \<open>
  The answers of the rule and of \<open>userCanSetFullScreen\<close>, and the calls of \<open>end_move_resize\<close> and
  \<open>updateDecoration\<close>, are parameters.
\<close>

record fs_env =
  fe_checkFullScreen :: "bool \<Rightarrow> bool"
  fe_userCan :: bool
  fe_endMoveResize :: "wgeo \<Rightarrow> wgeo"
  fe_updateDecoration :: "wgeo \<Rightarrow> wgeo"

definition fullscreen_body :: "pos_env \<Rightarrow> fs_env \<Rightarrow> window \<Rightarrow> int \<Rightarrow> bool \<Rightarrow> wgeo \<Rightarrow> wgeo outcome" where
  "fullscreen_body P F w screen full g =
     update_fullscreen_impl P w screen full
       (fe_updateDecoration F (fe_endMoveResize F (g\<lparr>g_fullscreen := full\<rparr>)))"

definition update_fullscreen :: "pos_env \<Rightarrow> fs_env \<Rightarrow> window \<Rightarrow> int \<Rightarrow> bool \<Rightarrow> bool \<Rightarrow> wgeo \<Rightarrow> wgeo outcome" where
  "update_fullscreen P F w screen full0 user g =
     (let full = fe_checkFullScreen F full0 in
      if g_fullscreen g = full then Returns g
      else if is_special_window w then Returns g
      else if user \<and> \<not> fe_userCan F then Returns g
      else with_geometry_blocker (fullscreen_body P F w screen full) g)"

end
