(* ===== verification/Tiling_Properties.thy ===== *)
theory Tiling_Properties
  imports Tiling
begin

text \<open>Round trips of tiling and full screen, and how they share the restore geometry with maximizing.\<close>

section \<open>Running under a blocker\<close>

lemma blocker_run:
  assumes "0 \<le> g_block g" and "\<forall>r. g_checkGeometry g' r = r"
    and "body (g\<lparr>g_block := g_block g + 1\<rparr>) = Returns g'" and "g_block g' = g_block g + 1"
    and "g_pending g' = PendingNormal"
  shows "\<exists>fg mm p. with_geometry_blocker body g =
    Returns (g'\<lparr>g_block := g_block g, g_frameGeometry := fg, g_maximizeMode := mm, g_pending := p\<rparr>) \<and>
    (mm = g_maximizeMode g' \<or> mm = g_max_mode g')"
proof -
  let ?h = "g'\<lparr>g_block := g_block g\<rparr>"
  have run: "with_geometry_blocker body g = Returns (if g_block g = 0 then setFrameGeometry (g_frame ?h) ?h else ?h)"
    using assms by (simp add: with_geometry_blocker_def block_geometry_updates_def Let_def)
  show ?thesis
  proof (cases "g_block g = 0")
    case True
    let ?c = "g_commits g' (g_frameGeometry g') (g_frame g')"
    have "setFrameGeometry (g_frame ?h) ?h = ?h\<lparr>g_frameGeometry := (if ?c then g_frame g' else g_frameGeometry g'),
        g_maximizeMode := (if ?c then g_max_mode g' else g_maximizeMode g'), g_pending := PendingNone\<rparr>"
      using True assms(2) by (cases g') (simp add: setFrameGeometry_def Let_def)
    then show ?thesis unfolding run if_P [OF True]
      by (intro exI [of _ "if ?c then g_frame g' else g_frameGeometry g'"]
          exI [of _ "if ?c then g_max_mode g' else g_maximizeMode g'"] exI [of _ PendingNone]) simp
  next
    case False
    show ?thesis unfolding run if_not_P [OF False] using assms(5)
      by (intro exI [of _ "g_frameGeometry g'"] exI [of _ "g_maximizeMode g'"] exI [of _ PendingNormal])
        (cases g', simp)
  qed
qed

section \<open>Full screen\<close>

definition plain_fs :: "fs_env \<Rightarrow> bool" where
  "plain_fs F \<longleftrightarrow> (\<forall>b. fe_checkFullScreen F b = b) \<and> fe_userCan F \<and> (\<forall>g. fe_endMoveResize F g = g) \<and>
     (\<forall>g. fe_updateDecoration F g = g)"

definition ordinary :: "wgeo \<Rightarrow> bool" where
  "ordinary g \<longleftrightarrow> 0 \<le> g_block g \<and> (\<forall>r. g_checkGeometry g r = r) \<and> g_max_mode g = MRestore \<and>
     g_quicktiling g = qt_none \<and> \<not> is_move g \<and> rvalid (g_frame g)"

text \<open>
  C38. An ordinary window that is made full screen and back again returns to its restore geometry,
  and that is the frame it had when no restore geometry was left behind by an earlier operation.
  Afterwards there is none.
\<close>

theorem fullscreen_round_trip:
  assumes "ordinary g" and "\<not> g_fullscreen g" and "plain_fs F" and "\<not> is_special_window w"
  shows "\<exists>g1 g2. update_fullscreen P F w screen True user g = Returns g1 \<and> g_fullscreen g1 \<and>
    g_frame g1 = po_area P FullScreenArea (rcenter (pending_frame_geometry g)) \<and>
    update_fullscreen P F w screen False user g1 = Returns g2 \<and> \<not> g_fullscreen g2 \<and>
    g_frame g2 = (if rvalid (g_restore g) then g_restore g else g_frame g) \<and> g_restore g2 = null_rect"
proof -
  let ?r = "if rvalid (g_restore g) then g_restore g else g_frame g"
  let ?A = "po_area P FullScreenArea (rcenter (pending_frame_geometry g))"
  have ord: "0 \<le> g_block g" "\<forall>r. g_checkGeometry g r = r" "rvalid ?r" "\<not> has_special_geometry_mode_besides_fullscreen g"
    using assms(1) by (simp_all add: ordinary_def has_special_geometry_mode_besides_fullscreen_def)
  let ?h = "g\<lparr>g_block := g_block g + 1, g_fullscreen := True, g_restore := ?r, g_frame := ?A, g_pending := PendingNormal\<rparr>"
  have "fullscreen_body P F w screen True (g\<lparr>g_block := g_block g + 1\<rparr>) = Returns ?h"
    using ord(1,2) assms(3) by (cases g) (simp add: fullscreen_body_def update_fullscreen_impl_def update_fullscreen_enable_def
        plain_fs_def blocked_set pending_frame_geometry_def Let_def)
  from blocker_run [of g ?h "fullscreen_body P F w screen True", OF ord(1) _ this] ord obtain fg mm p where
    "with_geometry_blocker (fullscreen_body P F w screen True) g =
      Returns (?h\<lparr>g_block := g_block g, g_frameGeometry := fg, g_maximizeMode := mm, g_pending := p\<rparr>)" (is "_ = Returns ?g1")
    by auto
  with assms have run1: "update_fullscreen P F w screen True user g = Returns ?g1"
    by (simp add: update_fullscreen_def plain_fs_def)
  let ?k = "?g1\<lparr>g_block := g_block g + 1, g_fullscreen := False, g_frame := ?r, g_pending := PendingNormal, g_restore := null_rect\<rparr>"
  have "\<not> has_special_geometry_mode_besides_fullscreen (?g1\<lparr>g_block := g_block g + 1, g_fullscreen := False\<rparr>)"
    using ord(4) by (simp add: has_special_geometry_mode_besides_fullscreen_def is_move_def)
  then have "fullscreen_body P F w screen False (?g1\<lparr>g_block := g_block ?g1 + 1\<rparr>) = Returns ?k"
    using ord assms(3) by (simp add: fullscreen_body_def update_fullscreen_impl_def update_fullscreen_disable_def
        fullscreen_restore_geometry_def rectify_fullscreen_restore_geometry_def plain_fs_def blocked_set)
  from blocker_run [of ?g1 ?k "fullscreen_body P F w screen False", OF _ _ this] ord obtain fg' mm' p' where
    "with_geometry_blocker (fullscreen_body P F w screen False) ?g1 =
      Returns (?k\<lparr>g_block := g_block g, g_frameGeometry := fg', g_maximizeMode := mm', g_pending := p'\<rparr>)" (is "_ = Returns ?g2")
    by auto
  with assms have "update_fullscreen P F w screen False user ?g1 = Returns ?g2"
    by (simp add: update_fullscreen_def plain_fs_def)
  with run1 show ?thesis by (intro exI [of _ ?g1] exI [of _ ?g2]) simp
qed

definition demo_fs_env :: fs_env where
  "demo_fs_env = \<lparr>fe_checkFullScreen = id, fe_userCan = True, fe_endMoveResize = id, fe_updateDecoration = id\<rparr>"

definition demo_pos_env :: pos_env where
  "demo_pos_env = pos_env_for demo_geo_env demo_space 1 1"

lemma demo_ordinary: "ordinary demo_geo" and demo_plain_fs: "plain_fs demo_fs_env"
  by (simp_all add: ordinary_def demo_geo_def is_move_def rvalid_def mk_rect_def plain_fs_def demo_fs_env_def)

theorem fullscreen_round_trip_witness:
  "\<exists>g1 g2. update_fullscreen demo_pos_env demo_fs_env demo_window 0 True True demo_geo = Returns g1 \<and> g_fullscreen g1 \<and>
    update_fullscreen demo_pos_env demo_fs_env demo_window 0 False True g1 = Returns g2 \<and> \<not> g_fullscreen g2 \<and>
    g_frame g2 = mk_rect 0 0 100 100"
proof -
  have "\<not> g_fullscreen demo_geo" "\<not> is_special_window demo_window" "g_frame demo_geo = mk_rect 0 0 100 100" "\<not> rvalid (g_restore demo_geo)"
    by code_simp+
  with fullscreen_round_trip [OF demo_ordinary _ demo_plain_fs, of demo_window demo_pos_env 0 True] show ?thesis by auto
qed

text \<open>
  The restore geometry that maximizing leaves behind is not harmless: a window that is maximized,
  restored, moved away, made full screen and back again jumps to where it was before it was moved.
\<close>

lemma fullscreen_returns_to_stale_frame:
  "obind (set_maximize demo_geo_env True True demo_geo) (\<lambda>g1.
   obind (set_maximize demo_geo_env False False g1) (\<lambda>g2.
   obind (update_fullscreen demo_pos_env demo_fs_env demo_window 0 True True (setFrameGeometry (mk_rect 400 300 100 100) g2)) (\<lambda>g3.
   obind (update_fullscreen demo_pos_env demo_fs_env demo_window 0 False True g3) (\<lambda>g4. Returns (g_frame g4))))) =
   Returns (mk_rect 0 0 100 100)"
  by code_simp

section \<open>Tiling\<close>

definition tileable :: "space \<Rightarrow> int \<Rightarrow> window \<Rightarrow> wgeo \<Rightarrow> bool" where
  "tileable S d w g \<longleftrightarrow> geo_settled g \<and> g_block g = 0 \<and> ordinary g \<and> g_maximizeMode g = MRestore \<and>
     \<not> g_fullscreen g \<and> \<not> rvalid (g_restore g) \<and> g_resizable g \<and> w_control w \<and> \<not> inUpdateClientArea S \<and>
     g_adjust g (rsize (g_frame g)) SizeAny = rsize (g_frame g) \<and>
     (let a = area_of S d ScreenArea (rcenter (g_frame g)) in
        rleft (g_frame g) \<le> rright a \<and> rleft a \<le> rright (g_frame g) \<and>
        rtop (g_frame g) \<le> rbottom a \<and> rtop a \<le> rbottom (g_frame g))"

lemma side_tiles: "sanitize_tiles m = m \<Longrightarrow> m \<noteq> qt_maximize"
  by (auto simp: sanitize_tiles_def qt_maximize_def)

lemma tile_body:
  assumes "tileable S d w g" and "sanitize_tiles m = m" and "m \<noteq> qt_none" and "P = pos_env_for E S d d"
  shows "\<exists>f. tiling_body P w screen m kb (g\<lparr>g_block := g_block g + 1\<rparr>) =
    Returns (g\<lparr>g_block := g_block g + 1, g_restore := g_frame g, g_electric := m, g_frame := f, g_pending := PendingNormal,
      g_quicktiling := m\<rparr>) \<and>
    f = cut_tile m (po_area P MaximizeArea (if kb then rcenter (g_frame g) else ge_cursor (po_geo P)))"
  using assms side_tiles [OF assms(2)]
  by (cases g) (auto simp: tileable_def ordinary_def geo_settled_def tiling_body_def tile_window_def blocked_set
      pending_frame_geometry_def electric_border_maximize_geometry_def)

lemma untile_body:
  assumes "tileable S d w g" and "sanitize_tiles m = m" and "m \<noteq> qt_none" and "P = pos_env_for E S d d" and "length (po_outputs P) = 1"
    and "h = g\<lparr>g_block := 1, g_restore := g_frame g, g_electric := m, g_frame := f, g_pending := p,
      g_quicktiling := m, g_frameGeometry := fg\<rparr>"
  shows "tiling_body P w 0 m kb h = Returns (h\<lparr>g_electric := qt_none, g_quicktiling := qt_none, g_frame := g_frame g,
     g_pending := PendingNormal, g_restore := null_rect\<rparr>)"
proof -
  let ?k = "h\<lparr>g_electric := qt_none, g_quicktiling := qt_none, g_frame := g_frame g, g_pending := PendingNormal\<rparr>"
  have "geo_settled ?k" "setFrameGeometry (g_frame ?k) ?k = ?k"
    using assms(1,6) by (simp_all add: tileable_def geo_settled_def ordinary_def blocked_set)
  then have "check_workspace_position P w null_rect null_rect ?k = Returns ?k"
    using assms(1,4,6) check_position_stable [of ?k w S _ d E, OF _ _ _ _ _ _ refl] by (simp add: tileable_def ordinary_def Let_def)
  moreover have "tile_again P 0 m t h' = Returns (qt_none, t, h'\<lparr>g_electric := qt_none\<rparr>)" for t h'
    using assms(5) by (simp add: tile_again_def set_electric_def qt_none_def sanitize_tiles_def Let_def)
  ultimately show ?thesis
    using assms side_tiles [OF assms(2)]
    by (simp add: tileable_def ordinary_def geo_settled_def tiling_body_def tile_window_def blocked_set)
qed

text \<open>
  A window that is tiled to a side or to a corner fills exactly that part of the maximize area.
  Asking for the same tile again, when there is no other screen to move to, removes the tile: the
  window is back in its old frame, and the restore geometry is gone.
\<close>

theorem tile_twice_round_trip:
  assumes "tileable S d w g" and "sanitize_tiles m = m" and "m \<noteq> qt_none" and "length (po_outputs (pos_env_for E S d d)) = 1"
  shows "\<exists>g1 g2. set_quicktile_mode (pos_env_for E S d d) w 0 m kb g = Returns g1 \<and> g_quicktiling g1 = m \<and>
    g_frame g1 = cut_tile m (area_of S d MaximizeArea (if kb then rcenter (g_frame g) else ge_cursor E)) \<and>
    set_quicktile_mode (pos_env_for E S d d) w 0 m kb g1 = Returns g2 \<and> g_quicktiling g2 = qt_none \<and>
    g_frame g2 = g_frame g \<and> g_restore g2 = null_rect"
proof -
  let ?P = "pos_env_for E S d d"
  have t: "g_block g = 0" "g_resizable g" "\<forall>r. g_checkGeometry g r = r" "g_maximizeMode g = MRestore" "g_max_mode g = MRestore"
    using assms(1) by (simp_all add: tileable_def ordinary_def)
  obtain f where f: "tiling_body ?P w 0 m kb (g\<lparr>g_block := g_block g + 1\<rparr>) =
    Returns (g\<lparr>g_block := g_block g + 1, g_restore := g_frame g, g_electric := m, g_frame := f, g_pending := PendingNormal,
      g_quicktiling := m\<rparr>)" (is "_ = Returns ?h")
    "f = cut_tile m (area_of S d MaximizeArea (if kb then rcenter (g_frame g) else ge_cursor E))"
    using tile_body [OF assms(1-3) refl] by (auto simp: pos_env_for_def)
  from blocker_run [of g ?h "tiling_body ?P w 0 m kb", OF _ _ f(1)] t obtain fg p where
    g1: "set_quicktile_mode ?P w 0 m kb g = Returns (?h\<lparr>g_block := 0, g_frameGeometry := fg, g_pending := p\<rparr>)" (is "_ = Returns ?g1")
    by (cases g) (auto simp: set_quicktile_mode_def)
  let ?h1 = "?g1\<lparr>g_block := g_block ?g1 + 1\<rparr>"
  let ?k = "?h1\<lparr>g_electric := qt_none, g_quicktiling := qt_none, g_frame := g_frame g, g_pending := PendingNormal, g_restore := null_rect\<rparr>"
  have "?h1 = g\<lparr>g_block := 1, g_restore := g_frame g, g_electric := m, g_frame := f, g_pending := p,
      g_quicktiling := m, g_frameGeometry := fg\<rparr>"
    by (rule wgeo.equality) simp_all
  from untile_body [OF assms(1-3) refl assms(4) this]
  have "tiling_body ?P w 0 m kb ?h1 = Returns ?k" .
  from blocker_run [of ?g1 ?k "tiling_body ?P w 0 m kb", OF _ _ this] t obtain g2 where
    "set_quicktile_mode ?P w 0 m kb ?g1 = Returns g2" "g_quicktiling g2 = qt_none" "g_frame g2 = g_frame g" "g_restore g2 = null_rect"
    by (auto simp: set_quicktile_mode_def)
  with g1 f(2) show ?thesis by (intro exI [of _ ?g1] exI [of _ g2]) simp
qed

definition one_screen :: space where
  "one_screen = demo_space\<lparr>sp_outputs := [mk_rect 0 0 100 100],
     sp_screens := \<lparr>scr_count = 1, scr_current = 0, scr_currentFollowsMouse = False, scr_boundingSize = (100, 100), scr_log = []\<rparr>\<rparr>"

theorem tile_twice_round_trip_witness:
  "\<exists>g1 g2. set_quicktile_mode (pos_env_for demo_geo_env one_screen 1 1) demo_window 0 \<lparr>qt_left = True, qt_right = False, qt_top = False, qt_bottom = False\<rparr> True demo_geo = Returns g1 \<and>
     set_quicktile_mode (pos_env_for demo_geo_env one_screen 1 1) demo_window 0 \<lparr>qt_left = True, qt_right = False, qt_top = False, qt_bottom = False\<rparr> True g1 = Returns g2 \<and>
     g_frame g2 = mk_rect 0 0 100 100"
proof -
  let ?m = "\<lparr>qt_left = True, qt_right = False, qt_top = False, qt_bottom = False\<rparr>"
  have a: "area_of one_screen 1 ScreenArea (rcenter (g_frame demo_geo)) = mk_rect 0 0 100 100"
    and outs: "length (po_outputs (pos_env_for demo_geo_env one_screen 1 1)) = 1"
    and upd: "\<not> inUpdateClientArea one_screen" and mode: "sanitize_tiles ?m = ?m" "?m \<noteq> qt_none"
    and w: "w_control demo_window" and frame: "g_frame demo_geo = mk_rect 0 0 100 100" by code_simp+
  have "tileable one_screen 1 demo_window demo_geo"
    unfolding tileable_def a Let_def using demo_geo_settled demo_ordinary upd w
    by (simp add: demo_geo_def mk_rect_def rvalid_def null_rect_def)
  from tile_twice_round_trip [OF this mode outs, of True] frame show ?thesis by auto
qed

end
