(* ===== verification/Packing.thy ===== *)
theory Packing
  imports Workspace_Position
begin

text \<open>
  Packing, growing and shrinking windows up to the next edge (\<^verbatim>\<open>placement.cpp\<close> and
  \<^verbatim>\<open>win/geo.h\<close>). \<open>P\<close> gives the areas of the desktop of the window and the screens, \<open>fs\<close> the
  requested frames of the other windows that are not irrelevant to it.
\<close>

section \<open>Looking for the next edge\<close>

definition relevant_frames :: "desk_view \<Rightarrow> wstore \<Rightarrow> addr list \<Rightarrow> addr \<Rightarrow> rect list" where
  "relevant_frames D W ws regarding =
     map (\<lambda>a. g_frame (w_geo (W a)))
       (filter (\<lambda>a. \<not> irrelevant_window D W regarding (placement_desktop D (W regarding)) a) ws)"

definition beside_y :: "rect \<Rightarrow> rect \<Rightarrow> bool" where
  "beside_y f r \<longleftrightarrow> \<not> (rtop f > rbottom r \<or> rbottom f < rtop r)"

definition beside_x :: "rect \<Rightarrow> rect \<Rightarrow> bool" where
  "beside_x f r \<longleftrightarrow> \<not> (rleft f > rright r \<or> rright f < rleft r)"

text \<open>
  The loops over the windows, with \<open>nearer a b\<close> for \<open>a < b\<close> when looking to the left and up, and
  for \<open>a > b\<close> when looking to the right and down: an edge replaces the position found so far when it
  is nearer to the old position and not beyond it.
\<close>

fun pack_scan :: "(int \<Rightarrow> int \<Rightarrow> bool) \<Rightarrow> int \<Rightarrow> int list \<Rightarrow> int \<Rightarrow> int" where
  "pack_scan nearer old [] found = found"
| "pack_scan nearer old (e # es) found =
     pack_scan nearer old es (if nearer found e \<and> nearer e old then e else found)"

abbreviation (input) leftwards :: "int \<Rightarrow> int \<Rightarrow> bool" where "leftwards a b \<equiv> a < b"
abbreviation (input) rightwards :: "int \<Rightarrow> int \<Rightarrow> bool" where "rightwards a b \<equiv> b < a"

definition pack_bound_left :: "pos_env \<Rightarrow> wgeo \<Rightarrow> int \<Rightarrow> int" where
  "pack_bound_left P g oldX =
     (let f = g_frame g;
          x0 = rleft (po_area P MaximizeArea (rcenter (pending_frame_geometry g)));
          x1 = (if oldX \<le> x0 then rleft (po_area P MaximizeArea (rleft f - 1, snd (rcenter f))) else x0);
          right = x1 - mleft (frame_margins g)
      in if screens_intersecting (po_outputs P) (moveRight right f) < 2 then right else x1)"

definition packPositionLeft :: "pos_env \<Rightarrow> rect list \<Rightarrow> wgeo \<Rightarrow> int \<Rightarrow> bool \<Rightarrow> int" where
  "packPositionLeft P fs g oldX leftEdge =
     (let newX = pack_bound_left P g oldX in
      if oldX \<le> newX then oldX
      else pack_scan leftwards oldX
        (map (\<lambda>r. if leftEdge then rright r + 1 else rleft r - 1) (filter (beside_y (g_frame g)) fs)) newX)"

definition pack_bound_right :: "pos_env \<Rightarrow> wgeo \<Rightarrow> int \<Rightarrow> int" where
  "pack_bound_right P g oldX =
     (let f = g_frame g;
          x0 = rright (po_area P MaximizeArea (rcenter (pending_frame_geometry g)));
          x1 = (if oldX \<ge> x0 then rright (po_area P MaximizeArea (rright f + 1, snd (rcenter f))) else x0);
          right = x1 + mright (frame_margins g)
      in if screens_intersecting (po_outputs P) (moveRight right f) < 2 then right else x1)"

definition packPositionRight :: "pos_env \<Rightarrow> rect list \<Rightarrow> wgeo \<Rightarrow> int \<Rightarrow> bool \<Rightarrow> int" where
  "packPositionRight P fs g oldX rightEdge =
     (let newX = pack_bound_right P g oldX in
      if oldX \<ge> newX then oldX
      else pack_scan rightwards oldX
        (map (\<lambda>r. if rightEdge then rleft r - 1 else rright r + 1) (filter (beside_y (g_frame g)) fs)) newX)"

definition pack_bound_up :: "pos_env \<Rightarrow> wgeo \<Rightarrow> int \<Rightarrow> int" where
  "pack_bound_up P g oldY =
     (let f = g_frame g;
          y0 = rtop (po_area P MaximizeArea (rcenter (pending_frame_geometry g)))
      in if oldY \<le> y0 then rtop (po_area P MaximizeArea (fst (rcenter f), rtop f - 1)) else y0)"

definition packPositionUp :: "pos_env \<Rightarrow> rect list \<Rightarrow> wgeo \<Rightarrow> int \<Rightarrow> bool \<Rightarrow> int" where
  "packPositionUp P fs g oldY topEdge =
     (let newY = pack_bound_up P g oldY in
      if oldY \<le> newY then oldY
      else pack_scan leftwards oldY
        (map (\<lambda>r. if topEdge then rbottom r + 1 else rtop r - 1) (filter (beside_x (g_frame g)) fs)) newY)"

definition pack_bound_down :: "pos_env \<Rightarrow> wgeo \<Rightarrow> int \<Rightarrow> int" where
  "pack_bound_down P g oldY =
     (let f = g_frame g;
          y0 = rbottom (po_area P MaximizeArea (rcenter (pending_frame_geometry g)));
          y1 = (if oldY \<ge> y0 then rbottom (po_area P MaximizeArea (fst (rcenter f), rbottom f + 1)) else y0);
          bottom = y1 + mbottom (frame_margins g)
      in if screens_intersecting (po_outputs P) (moveBottom bottom f) < 2 then bottom else y1)"

definition packPositionDown :: "pos_env \<Rightarrow> rect list \<Rightarrow> wgeo \<Rightarrow> int \<Rightarrow> bool \<Rightarrow> int" where
  "packPositionDown P fs g oldY bottomEdge =
     (let newY = pack_bound_down P g oldY in
      if oldY \<ge> newY then oldY
      else pack_scan rightwards oldY
        (map (\<lambda>r. if bottomEdge then rtop r - 1 else rbottom r + 1) (filter (beside_x (g_frame g)) fs)) newY)"

section \<open>Growing and shrinking\<close>

text \<open>\<open>g_adjust g size mode\<close> is \<open>adjusted_frame_size(win, size, mode)\<close>, \<open>win->pos()\<close> the corner of the committed frame.\<close>

definition grow_horizontal :: "pos_env \<Rightarrow> rect list \<Rightarrow> wgeo \<Rightarrow> wgeo" where
  "grow_horizontal P fs g =
     (if \<not> g_resizable g then g
      else
        let old = g_frameGeometry g;
            f0 = old\<lparr>rright := packPositionRight P fs g (rright old) True\<rparr>;
            adj = g_adjust g (rsize f0) SizeFixedWidth;
            f1 = (if rsize old = adj \<and> rsize f0 \<noteq> adj \<and> fst (g_increments g) > 1
                  then (let grown = packPositionRight P fs g (rright f0 + fst (g_increments g) - 1) True;
                            area = po_area P MovementArea (tdiv (rleft old + grown) 2, snd (rcenter old))
                        in if rright area \<ge> grown then f0\<lparr>rright := grown\<rparr> else f0)
                  else f0);
            f2 = setSize (g_adjust g (rsize f1) SizeFixedWidth) f1;
            f3 = setSize (g_adjust g (rsize f2) SizeFixedHeight) f2
        in setFrameGeometry f3 g)"

definition shrink_horizontal :: "pos_env \<Rightarrow> rect list \<Rightarrow> wgeo \<Rightarrow> wgeo" where
  "shrink_horizontal P fs g =
     (if \<not> g_resizable g then g
      else
        let old = g_frameGeometry g;
            f0 = old\<lparr>rright := packPositionLeft P fs g (rright old) False\<rparr>
        in if rwidth f0 \<le> 1 then g
           else
             let f1 = setSize (g_adjust g (rsize f0) SizeFixedWidth) f0
             in if rwidth f1 > 20 then setFrameGeometry f1 g else g)"

definition grow_vertical :: "pos_env \<Rightarrow> rect list \<Rightarrow> wgeo \<Rightarrow> wgeo" where
  "grow_vertical P fs g =
     (if \<not> g_resizable g then g
      else
        let old = g_frameGeometry g;
            f0 = old\<lparr>rbottom := packPositionDown P fs g (rbottom old) True\<rparr>;
            adj = g_adjust g (rsize f0) SizeFixedHeight;
            f1 = (if rsize old = adj \<and> rsize f0 \<noteq> adj \<and> snd (g_increments g) > 1
                  then (let newbottom = packPositionDown P fs g (rbottom f0 + snd (g_increments g) - 1) True;
                            area = po_area P MovementArea (fst (rcenter old), tdiv (rtop old + newbottom) 2)
                        in if rbottom area \<ge> newbottom then f0\<lparr>rbottom := newbottom\<rparr> else f0)
                  else f0)
        in setFrameGeometry (setSize (g_adjust g (rsize f1) SizeFixedHeight) f1) g)"

definition shrink_vertical :: "pos_env \<Rightarrow> rect list \<Rightarrow> wgeo \<Rightarrow> wgeo" where
  "shrink_vertical P fs g =
     (if \<not> g_resizable g then g
      else
        let old = g_frameGeometry g;
            f0 = old\<lparr>rbottom := packPositionUp P fs g (rbottom old) False\<rparr>
        in if rheight f0 \<le> 1 then g
           else
             let f1 = setSize (g_adjust g (rsize f0) SizeFixedHeight) f0
             in if rheight f1 > 20 then setFrameGeometry f1 g else g)"

section \<open>Packing\<close>

text \<open>The positions the four requests pass to \<open>pack_to\<close>.\<close>

definition pack_left :: "pos_env \<Rightarrow> rect list \<Rightarrow> wgeo \<Rightarrow> point" where
  "pack_left P fs g = (packPositionLeft P fs g (rleft (g_frame g)) True, rtop (g_frame g))"

definition pack_right :: "pos_env \<Rightarrow> rect list \<Rightarrow> wgeo \<Rightarrow> point" where
  "pack_right P fs g =
     (packPositionRight P fs g (rleft (g_frame g) + rwidth (g_frame g)) True - rwidth (g_frame g) + 1, rtop (g_frame g))"

definition pack_up :: "pos_env \<Rightarrow> rect list \<Rightarrow> wgeo \<Rightarrow> point" where
  "pack_up P fs g = (rleft (g_frame g), packPositionUp P fs g (rtop (g_frame g)) True)"

definition pack_down :: "pos_env \<Rightarrow> rect list \<Rightarrow> wgeo \<Rightarrow> point" where
  "pack_down P fs g =
     (rleft (g_frame g), packPositionDown P fs g (rtop (g_frame g) + rheight (g_frame g)) True - rheight (g_frame g) + 1)"

section \<open>What the scan finds\<close>

text \<open>
  The scan relies on a strict linear order only, so one proof serves the four directions.
\<close>

locale scan_order =
  fixes nearer :: "int \<Rightarrow> int \<Rightarrow> bool"
  assumes nearer_trans: "nearer a b \<Longrightarrow> nearer b c \<Longrightarrow> nearer a c"
    and nearer_irrefl: "\<not> nearer a a"
    and nearer_total: "a \<noteq> b \<Longrightarrow> nearer a b \<or> nearer b a"
begin

definition nearest :: "int \<Rightarrow> int set \<Rightarrow> int \<Rightarrow> int \<Rightarrow> bool" where
  "nearest old E bound x \<longleftrightarrow> nearer x old \<and> (x = bound \<or> x \<in> E \<and> nearer bound x) \<and>
     (\<forall>e \<in> E. nearer bound e \<and> nearer e old \<longrightarrow> e = x \<or> nearer e x)"

lemma scan_nearest:
  "nearer found old \<Longrightarrow> nearest old (set es) found (pack_scan nearer old es found)"
proof (induction es arbitrary: found)
  case (Cons e es)
  show ?case
  proof (cases "nearer found e \<and> nearer e old")
    case True
    from Cons.IH [of e] True show ?thesis
      by (auto simp: nearest_def dest: nearer_trans) (metis nearer_total nearer_trans)+
  next
    case False
    with Cons.IH [OF Cons.prems] show ?thesis by (auto simp: nearest_def)
  qed
qed (simp add: nearest_def)

end

interpretation low: scan_order leftwards by unfold_locales auto

interpretation high: scan_order rightwards by unfold_locales auto

lemma pack_low:
  assumes "x = (if old \<le> b then old else pack_scan leftwards old es b)"
  shows "x \<le> old \<and> (x = old \<or> b \<le> x) \<and> (\<forall>e \<in> set es. e < old \<longrightarrow> e \<le> x)"
  using assms low.scan_nearest [where found = b and old = old and es = es] by (fastforce simp: low.nearest_def)

lemma pack_high:
  assumes "x = (if old \<ge> b then old else pack_scan rightwards old es b)"
  shows "old \<le> x \<and> (x = old \<or> x \<le> b) \<and> (\<forall>e \<in> set es. old < e \<longrightarrow> x \<le> e)"
  using assms high.scan_nearest [where found = b and old = old and es = es] by (fastforce simp: high.nearest_def)

lemmas pack_defs = pack_left_def pack_right_def pack_up_def pack_down_def
  packPositionLeft_def packPositionUp_def Let_def

text \<open>
  Packing a window never moves it away from the side it is packed to, and stops in front of
  every window beside it that is in the way: at the left and above when there is a gap between the
  two, at the right and below when the gap is wider than one.
\<close>

theorem packing_stops_before_windows:
  assumes "f = g_frame g" and "r \<in> set fs"
  shows "fst (pack_left P fs g) \<le> rleft f \<and> snd (pack_up P fs g) \<le> rtop f \<and>
    rleft f \<le> fst (pack_right P fs g) \<and> rtop f \<le> snd (pack_down P fs g) \<and>
    (beside_y f r \<and> rright r + 1 < rleft f \<longrightarrow> rright r < fst (pack_left P fs g)) \<and>
    (beside_x f r \<and> rbottom r + 1 < rtop f \<longrightarrow> rbottom r < snd (pack_up P fs g)) \<and>
    (beside_y f r \<and> rright f + 2 < rleft r \<longrightarrow> fst (pack_right P fs g) + rwidth f - 1 < rleft r) \<and>
    (beside_x f r \<and> rbottom f + 2 < rtop r \<longrightarrow> snd (pack_down P fs g) + rheight f - 1 < rtop r)"
proof -
  have l: "fst (pack_left P fs g) \<le> rleft f \<and> (beside_y f r \<and> rright r + 1 < rleft f \<longrightarrow> rright r + 1 \<le> fst (pack_left P fs g))"
    using pack_low [OF refl, of "rleft f" "pack_bound_left P g (rleft f)" "map (\<lambda>r. rright r + 1) (filter (beside_y f) fs)"] assms(2) unfolding assms(1)
    by (auto simp: pack_defs split: if_split_asm)
  have u: "snd (pack_up P fs g) \<le> rtop f \<and> (beside_x f r \<and> rbottom r + 1 < rtop f \<longrightarrow> rbottom r + 1 \<le> snd (pack_up P fs g))"
    using pack_low [OF refl, of "rtop f" "pack_bound_up P g (rtop f)" "map (\<lambda>r. rbottom r + 1) (filter (beside_x f) fs)"] assms(2) unfolding assms(1)
    by (auto simp: pack_defs split: if_split_asm)
  let ?x = "rleft f + rwidth f" and ?y = "rtop f + rheight f"
  have "?x \<le> packPositionRight P fs g ?x True \<and> (beside_y f r \<and> ?x < rleft r - 1 \<longrightarrow> packPositionRight P fs g ?x True \<le> rleft r - 1)"
    using pack_high [OF refl, of ?x "pack_bound_right P g ?x" "map (\<lambda>r. rleft r - 1) (filter (beside_y f) fs)"] assms(2) unfolding assms(1)
    by (auto simp: packPositionRight_def Let_def split: if_split_asm)
  moreover have "?y \<le> packPositionDown P fs g ?y True \<and> (beside_x f r \<and> ?y < rtop r - 1 \<longrightarrow> packPositionDown P fs g ?y True \<le> rtop r - 1)"
    using pack_high [OF refl, of ?y "pack_bound_down P g ?y" "map (\<lambda>r. rtop r - 1) (filter (beside_x f) fs)"] assms(2) unfolding assms(1)
    by (auto simp: packPositionDown_def Let_def split: if_split_asm)
  ultimately show ?thesis
    using l u unfolding assms(1) by (auto simp: pack_right_def pack_down_def rwidth_def rheight_def)
qed

theorem packing_stops_before_windows_witness:
  "fst (pack_left (pos_env_for demo_geo_env demo_space 1 1) [mk_rect 10 0 20 50] (demo_geo\<lparr>g_frame := mk_rect 60 0 30 30\<rparr>)) \<le> 60 \<and>
   29 < fst (pack_left (pos_env_for demo_geo_env demo_space 1 1) [mk_rect 10 0 20 50] (demo_geo\<lparr>g_frame := mk_rect 60 0 30 30\<rparr>))"
  using packing_stops_before_windows [of "mk_rect 60 0 30 30" "demo_geo\<lparr>g_frame := mk_rect 60 0 30 30\<rparr>" "mk_rect 10 0 20 50" "[mk_rect 10 0 20 50]"
      "pos_env_for demo_geo_env demo_space 1 1"]
  by (simp add: beside_y_def mk_rect_def)

text \<open>
  The requests to pack to the right and down pass the position one beyond the edge, and add one to
  the result. So a window that has no room left moves by one column, out of the area, and a
  window that is one column away is jumped over.
\<close>

lemma pack_right_at_edge_moves_on:
  assumes "pack_bound_right P g (rleft (g_frame g) + rwidth (g_frame g)) \<le> rleft (g_frame g) + rwidth (g_frame g)"
  shows "pack_right P fs g = (rleft (g_frame g) + 1, rtop (g_frame g))"
  using assms by (simp add: pack_right_def packPositionRight_def)

lemma pack_down_at_edge_moves_on:
  assumes "pack_bound_down P g (rtop (g_frame g) + rheight (g_frame g)) \<le> rtop (g_frame g) + rheight (g_frame g)"
  shows "pack_down P fs g = (rleft (g_frame g), rtop (g_frame g) + 1)"
  using assms by (simp add: pack_down_def packPositionDown_def)

lemma packing_at_right_edge:
  "pack_right (pos_env_for demo_geo_env demo_space 1 1) [] (demo_geo\<lparr>g_frame := mk_rect 170 0 30 30, g_frameGeometry := mk_rect 170 0 30 30\<rparr>) = (171, 0)"
  by code_simp

end
