(* ===== verification/Window_State.thy ===== *)
theory Window_State
  imports Workspace_Properties
begin

text \<open>
  The state of a window that decides about its layer (\<^verbatim>\<open>win/stacking.h\<close>): keeping the cached
  layers up to date, keep above, keep below and minimizing. Hints for X11 clients, repaints and
  the virtual methods called after a change are not represented.
\<close>

section \<open>Layers\<close>

text \<open>The guard of \<open>update_layer\<close>: is the cached layer still right?\<close>

definition layer_outdated :: "addr \<Rightarrow> workspace \<Rightarrow> (bool \<times> workspace) outcome" where
  "layer_outdated w s =
     (if w_remnant (ws_win s w) \<noteq> None then Returns (False, s)
      else obind (ws_layer w s) (\<lambda>r.
        obind (belong_to_layer (ws_showingDesktop (snd r)) (mostRecentlyActivatedClient (snd r)) (ws_win (snd r)) w)
          (\<lambda>b. Returns (fst r \<noteq> b, snd r))))"

text \<open>
  \<open>update_layer\<close> of each window in a list, which is how it calls itself for the children; every
  invocation has a blocker of its own.
\<close>

partial_function (option) update_layers :: "addr list \<Rightarrow> workspace \<Rightarrow> workspace outcome option" where
  "update_layers todo s =
     (case todo of [] \<Rightarrow> Some (Returns s)
      | w # ws \<Rightarrow>
         (case layer_outdated w s of
            Faults e \<Rightarrow> Some (Faults e)
          | Diverges \<Rightarrow> Some Diverges
          | Returns (outdated, s1) \<Rightarrow>
              if \<not> outdated then update_layers ws s1
              else (case blockStackingUpdates True s1 of
                  Faults e \<Rightarrow> Some (Faults e)
                | Diverges \<Rightarrow> Some Diverges
                | Returns s2 \<Rightarrow>
                    Option.bind
                      (update_layers (filter (\<lambda>c. \<not> w_annexed (ws_win s2 c)) (w_children (ws_win s2 w)))
                         (s2\<lparr>ws_win := invalidate_layer w (ws_win s2)\<rparr>))
                      (\<lambda>r. case obind r (blockStackingUpdates False) of
                         Faults e \<Rightarrow> Some (Faults e)
                       | Diverges \<Rightarrow> Some Diverges
                       | Returns s3 \<Rightarrow> update_layers ws s3))))"

definition update_layer :: "addr \<Rightarrow> workspace \<Rightarrow> workspace outcome" where
  "update_layer w s = of_loop (update_layers [w] s)"

definition updateClientLayer :: "addr option \<Rightarrow> workspace \<Rightarrow> workspace outcome" where
  "updateClientLayer w s = (case w of None \<Rightarrow> Returns s | Some a \<Rightarrow> update_layer a s)"

section \<open>Keep above, keep below, minimized\<close>

text \<open>The answers of the rules of a window, and \<open>isMinimizable\<close> of its subclass.\<close>

record state_rules =
  sr_checkKeepAbove :: "bool \<Rightarrow> bool"
  sr_checkKeepBelow :: "bool \<Rightarrow> bool"
  sr_checkMinimize :: "bool \<Rightarrow> bool"
  sr_minimizable :: bool

text \<open>The two setters after their first guard.\<close>

definition apply_keep_above :: "addr \<Rightarrow> bool \<Rightarrow> workspace \<Rightarrow> workspace outcome" where
  "apply_keep_above w keep s =
     (if w_keep_above (ws_win s w) = keep then Returns s
      else updateClientLayer (Some w) (ws_upd w (\<lambda>x. x\<lparr>w_keep_above := keep\<rparr>) s))"

definition apply_keep_below :: "addr \<Rightarrow> bool \<Rightarrow> workspace \<Rightarrow> workspace outcome" where
  "apply_keep_below w keep s =
     (if w_keep_below (ws_win s w) = keep then Returns s
      else updateClientLayer (Some w) (ws_upd w (\<lambda>x. x\<lparr>w_keep_below := keep\<rparr>) s))"

text \<open>
  The guard of each setter calls the other setter with false, but only if the rule leaves it false;
  then the guard of that call is not met, because its \<open>keep\<close> is false.
\<close>

definition set_keep_above :: "state_rules \<Rightarrow> addr \<Rightarrow> bool \<Rightarrow> workspace \<Rightarrow> workspace outcome" where
  "set_keep_above R w keep0 s =
     (if \<not> w_control (ws_win s w) then Faults NullDeref
      else
        let keep = sr_checkKeepAbove R keep0 in
        obind (if keep \<and> \<not> sr_checkKeepBelow R False
               then apply_keep_below w (sr_checkKeepBelow R False) s else Returns s)
          (apply_keep_above w keep))"

definition set_keep_below :: "state_rules \<Rightarrow> addr \<Rightarrow> bool \<Rightarrow> workspace \<Rightarrow> workspace outcome" where
  "set_keep_below R w keep0 s =
     (if \<not> w_control (ws_win s w) then Faults NullDeref
      else
        let keep = sr_checkKeepBelow R keep0 in
        obind (if keep \<and> \<not> sr_checkKeepAbove R False
               then apply_keep_above w (sr_checkKeepAbove R False) s else Returns s)
          (apply_keep_below w keep))"

definition set_minimized :: "state_rules \<Rightarrow> addr \<Rightarrow> bool \<Rightarrow> workspace \<Rightarrow> workspace outcome" where
  "set_minimized R w m s =
     (let win = ws_win s w in
      if m
      then (if \<not> sr_minimizable R then Returns s
            else if \<not> w_control win then Faults NullDeref
            else if w_minimized win then Returns s
            else Returns (ws_upd w (\<lambda>x. x\<lparr>w_minimized := True\<rparr>) s))
      else if \<not> w_control win then Faults NullDeref
      else if \<not> w_minimized win then Returns s
      else if sr_checkMinimize R False then Returns s
      else Returns (ws_upd w (\<lambda>x. x\<lparr>w_minimized := False\<rparr>) s))"

section \<open>The cached layers stay right\<close>

definition right_on :: "addr set \<Rightarrow> workspace \<Rightarrow> bool" where
  "right_on A s \<longleftrightarrow> (\<forall>a \<in> A. w_layer (ws_win s a) = LUnknown \<or>
     belong_to_layer (ws_showingDesktop s) (mostRecentlyActivatedClient s) (ws_win s) a = Returns (w_layer (ws_win s a)))"

lemma mostRecently_simps [simp]:
  "mostRecentlyActivatedClient (s\<lparr>ws_win := W\<rparr>) = mostRecentlyActivatedClient s"
  "mostRecentlyActivatedClient (s\<lparr>ws_block := k\<rparr>) = mostRecentlyActivatedClient s"
  "mostRecentlyActivatedClient (s\<lparr>ws_blockedNew := b\<rparr>) = mostRecentlyActivatedClient s"
  "mostRecentlyActivatedClient (s\<lparr>ws_forceRestacking := b\<rparr>) = mostRecentlyActivatedClient s"
  "mostRecentlyActivatedClient (s\<lparr>ws_stacking := xs\<rparr>) = mostRecentlyActivatedClient s"
  "mostRecentlyActivatedClient (s\<lparr>ws_xStackingDirty := b\<rparr>) = mostRecentlyActivatedClient s"
  by (simp_all add: mostRecentlyActivatedClient_def)

lemma right_simps [simp]:
  "right_on A (s\<lparr>ws_block := k\<rparr>) = right_on A s" "right_on A (s\<lparr>ws_blockedNew := b\<rparr>) = right_on A s"
  "right_on A (s\<lparr>ws_forceRestacking := b\<rparr>) = right_on A s" "right_on A (s\<lparr>ws_stacking := xs\<rparr>) = right_on A s"
  "right_on A (s\<lparr>ws_xStackingDirty := b\<rparr>) = right_on A s"
  by (simp_all add: right_on_def)

lemma belong_uncached:
  "belong_to_layer sd ac W a = belong_to_layer sd ac (\<lambda>b. (W b)\<lparr>w_layer := LUnknown\<rparr>) a"
  by (simp add: belong_to_layer_def is_active_fullscreen_def layer_for_dock_def net_defs Let_def cong: option.case_cong)

lemma belong_same: "same_windows W W' \<Longrightarrow> belong_to_layer sd ac W' a = belong_to_layer sd ac W a"
  using belong_uncached [of sd ac W a] belong_uncached [of sd ac W' a] by (simp add: same_windows_def)

lemma toplevel_layer_writes:
  assumes "toplevel_layer_loop sd ac W a = Some (Returns (l, W'))"
  shows "(W' = W \<or> (\<exists>b. belong_to_layer sd ac W b = Returns l \<and> W' = W(b := (W b)\<lparr>w_layer := l\<rparr>))) \<and>
    (\<not> w_annexed (W a) \<longrightarrow> l = w_layer (W' a) \<and> (w_layer (W a) = LUnknown \<longrightarrow> belong_to_layer sd ac W a = Returns l))"
proof -
  have "\<forall>l W'. r = Returns (l, W') \<longrightarrow>
      (W' = W \<or> (\<exists>b. belong_to_layer sd ac W b = Returns l \<and> W' = W(b := (W b)\<lparr>w_layer := l\<rparr>))) \<and>
      (\<not> w_annexed (W a) \<longrightarrow> l = w_layer (W' a) \<and> (w_layer (W a) = LUnknown \<longrightarrow> belong_to_layer sd ac W a = Returns l))"
    if "toplevel_layer_loop sd ac W a = Some r" for r
    using that
  proof (induction rule: toplevel_layer_loop.raw_induct [rotated, consumes 1])
    case (1 loop sd ac W a r)
    show ?case
    proof (cases "if w_annexed (W a) then transient_lead (W a) else None")
      case None
      with 1(2) have "r = (if w_layer (W a) = LUnknown
          then obind (belong_to_layer sd ac W a) (\<lambda>l. Returns (l, W(a := (W a)\<lparr>w_layer := l\<rparr>)))
          else Returns (w_layer (W a), W))" by simp
      then show ?thesis by (auto simp: fun_upd_def split: if_splits)
    next
      case (Some l)
      with 1(2) have "loop sd ac W l = Some r" by simp
      from 1(1) [OF this] Some show ?thesis by (auto split: if_splits)
    qed
  qed
  with assms show ?thesis by blast
qed

lemma right_on_mono: "right_on A s \<Longrightarrow> B \<subseteq> A \<Longrightarrow> right_on B s"
  by (auto simp: right_on_def)

lemma ws_layer_right:
  assumes "ws_layer w s = Returns (l, s')" and "right_on A s"
  shows "right_on A s' \<and> (\<not> w_annexed (ws_win s w) \<longrightarrow> l = w_layer (ws_win s' w))"
proof -
  let ?sd = "ws_showingDesktop s" and ?ac = "mostRecentlyActivatedClient s"
  obtain W' where W': "toplevel_layer_loop ?sd ?ac (ws_win s) w = Some (Returns (l, W'))" "s' = s\<lparr>ws_win := W'\<rparr>"
    using assms(1) by (auto simp: ws_layer_def toplevel_layer_def of_loop_def split: option.splits)
  note writes = toplevel_layer_writes [OF W'(1)]
  then have "same_windows (ws_win s) W'" by (auto simp: same_windows_def)
  then have belong: "belong_to_layer ?sd ?ac W' a = belong_to_layer ?sd ?ac (ws_win s) a" for a by (rule belong_same)
  have "w_layer (W' a) = LUnknown \<or> belong_to_layer ?sd ?ac (ws_win s) a = Returns (w_layer (W' a))" if "a \<in> A" for a
  proof (cases "W' a = ws_win s a")
    case True
    with assms(2) that show ?thesis by (simp add: right_on_def)
  next
    case False
    with writes have "belong_to_layer ?sd ?ac (ws_win s) a = Returns l" "w_layer (W' a) = l" by (auto split: if_splits)
    then show ?thesis by simp
  qed
  then show ?thesis using writes by (simp add: right_on_def W'(2) belong)
qed

lemma cache_layers_right: "cache_layers xs s = Returns s' \<Longrightarrow> right_on A s \<Longrightarrow> right_on A s'"
proof (induction xs arbitrary: s)
  case (Cons x xs)
  then show ?case using ws_layer_right by fastforce
qed simp

lemma right_on_cong:
  "ws_win t = ws_win s \<Longrightarrow> ws_showingDesktop t = ws_showingDesktop s \<Longrightarrow> ws_active t = ws_active s \<Longrightarrow>
   ws_shouldGetFocus t = ws_shouldGetFocus s \<Longrightarrow> right_on A t = right_on A s"
  by (simp add: right_on_def mostRecentlyActivatedClient_def)

lemma emit_right [simp]: "right_on A (ws_emit e s) = right_on A s"
  by (rule right_on_cong) (simp_all add: ws_emit_def)

lemma propagate_right [simp]: "right_on A (propagateClients b s) = right_on A s"
  using propagate_frame [of b s] by (intro right_on_cong) (simp_all add: ws_frame_def)

lemma updateStackingOrder_right:
  assumes "updateStackingOrder b s = Returns t" and "right_on A s"
  shows "right_on A t"
proof (cases "ws_block s > 0")
  case True
  with assms show ?thesis by (auto simp: updateStackingOrder_def)
next
  case False
  with assms(1) obtain s0 where s0: "cache_layers (ws_unconstrained s) s = Returns s0"
    by (auto simp: updateStackingOrder_def)
  from cache_layers_right [OF s0 assms(2)] assms(1) False s0 show ?thesis
    by (auto simp: updateStackingOrder_def Let_def split: if_splits option.splits)
qed

lemma block_right:
  assumes "blockStackingUpdates b s = Returns t" and "right_on A s"
  shows "right_on A t"
  using assms updateStackingOrder_right
  by (fastforce simp: blockStackingUpdates_def Let_def split: if_splits)

section \<open>Updating layers ends and only restacks\<close>

lemma same_windows_invalidate: "same_windows W (invalidate_layer a W)"
  by (simp add: same_windows_def invalidate_layer_def)

lemma same_windows_remnant: "same_windows W W' \<Longrightarrow> w_remnant (W' a) = w_remnant (W a)"
  by (drule same_windows_def [THEN iffD1, THEN spec, of _ _ a], drule arg_cong [of _ _ w_remnant]) simp

definition relayered :: "workspace \<Rightarrow> workspace \<Rightarrow> bool" where
  "relayered s t \<longleftrightarrow> same_windows (ws_win s) (ws_win t) \<and> ws_frame t = ws_frame s"

lemma relayered_refl [simp]: "relayered s s"
  by (simp add: relayered_def)

lemma relayered_trans: "relayered s t \<Longrightarrow> relayered t u \<Longrightarrow> relayered s u"
  using same_windows_trans by (auto simp: relayered_def)

lemma relayered_ok: "ws_ok rk N s \<Longrightarrow> relayered s t \<Longrightarrow> ws_ok rk N t"
  by (rule ws_ok_cong) (auto simp: relayered_def ws_frame_def ws_ok_def)

definition live :: "workspace \<Rightarrow> addr set" where
  "live s = {a. \<not> w_annexed (ws_win s a) \<and> w_remnant (ws_win s a) = None}"

lemma relayered_live: "relayered s t \<Longrightarrow> live t = live s"
  unfolding live_def relayered_def by (metis same_windowsD(5) same_windows_remnant)

lemma layer_outdated_right:
  assumes "layer_outdated w s = Returns (b, t)" and "right_on A s" and "\<not> b"
  shows "right_on (A \<union> ({w} \<inter> live s)) t"
proof (cases "w \<in> live s")
  case True
  with assms(1,3) obtain l where l: "ws_layer w s = Returns (l, t)"
    "belong_to_layer (ws_showingDesktop t) (mostRecentlyActivatedClient t) (ws_win t) w = Returns l"
    by (auto simp: layer_outdated_def live_def)
  from ws_layer_right [OF l(1) assms(2)] True l(2) show ?thesis by (auto simp: right_on_def live_def)
next
  case False
  with assms ws_layer_right show ?thesis by (fastforce simp: layer_outdated_def split: if_splits)
qed

lemma layer_outdated_keeps_right:
  "layer_outdated w s = Returns (b, t) \<Longrightarrow> right_on A s \<Longrightarrow> right_on A t"
  using ws_layer_right by (fastforce simp: layer_outdated_def split: if_splits)

lemma invalidate_right: "right_on A s \<Longrightarrow> right_on (insert w A) (s\<lparr>ws_win := invalidate_layer w (ws_win s)\<rparr>)"
  by (simp add: right_on_def belong_same [OF same_windows_invalidate]) (simp add: invalidate_layer_def)

lemma layer_outdated_returns:
  assumes "ws_ok rk N s" and "w \<in> set (ws_unconstrained s)"
  shows "\<exists>b W'. layer_outdated w s = Returns (b, s\<lparr>ws_win := W'\<rparr>) \<and> same_windows (ws_win s) W'"
proof (cases "w_remnant (ws_win s w) = None")
  case True
  obtain l W' where l: "ws_layer w s = Returns (l, s\<lparr>ws_win := W'\<rparr>)" "same_windows (ws_win s) W'"
    using ws_layer_returns [of rk N "ws_screenCount s" "ws_members s" s "ws_unconstrained s" w] assms by (auto simp: ws_ok_def)
  have "w_control (W' w)" using same_windowsD(3) [OF l(2)] ws_ok_control [OF assms] by simp
  then obtain b where "belong_to_layer (ws_showingDesktop s) (mostRecentlyActivatedClient s) W' w = Returns b"
    using belong_to_layer_returns by blast
  with True l show ?thesis by (auto simp: layer_outdated_def mostRecentlyActivatedClient_def)
next
  case False
  then have "layer_outdated w s = Returns (False, s\<lparr>ws_win := ws_win s\<rparr>)" by (simp add: layer_outdated_def)
  then show ?thesis by (meson same_windows_refl)
qed

lemma unblock_relayered:
  assumes "ws_ok rk N s" and "relayered (blocked s) u"
  shows "\<exists>t. blockStackingUpdates False u = Returns t \<and> relayered s t"
proof -
  let ?v = "u\<lparr>ws_block := ws_block u - 1\<rparr>"
  have v: "relayered s ?v"
    using assms(2) by (auto simp: relayered_def ws_frame_def blocked_def split: if_splits)
  have blk: "ws_block ?v = ws_block s" using v by (simp add: relayered_def ws_frame_def)
  show ?thesis
  proof (cases "ws_block ?v = 0")
    case True
    obtain t where t: "updateStackingOrder (ws_blockedNew ?v) ?v = Returns t" "ws_frame t = ws_frame ?v"
        "same_windows (ws_win ?v) (ws_win t)"
      by (rule updateStackingOrder_returns [OF relayered_ok [OF assms(1) v]])
    have "relayered s t" using v t(2,3) relayered_trans [of s ?v t] by (simp add: relayered_def)
    moreover have "relayered t (ws_emit e t)" for e by (simp add: relayered_def)
    ultimately have "relayered s (if ws_effects t then ws_emit CheckInputWindowStacking t else t)"
      using relayered_trans by simp
    with True t(1) show ?thesis by (auto simp: blockStackingUpdates_def Let_def)
  next
    case False
    with v show ?thesis by (auto simp: blockStackingUpdates_def Let_def)
  qed
qed

text \<open>One round of the loop, when it is known how the children of the window are handled.\<close>

lemma update_layers_round:
  assumes ok: "ws_ok rk N s" and w: "w \<in> set (ws_unconstrained s)"
    and kids: "\<And>todo s. ws_ok rk N s \<Longrightarrow> set todo \<subseteq> set (ws_unconstrained s) \<Longrightarrow> \<forall>c \<in> set todo. rk w < rk c \<Longrightarrow>
      \<exists>t. update_layers todo s = Some (Returns t) \<and> relayered s t \<and>
        (\<forall>A. right_on A s \<longrightarrow> right_on (A \<union> (set todo \<inter> live s)) t)"
  shows "\<exists>v. update_layers (w # ws) s = update_layers ws v \<and> relayered s v \<and>
    (\<forall>A. right_on A s \<longrightarrow> right_on (A \<union> ({w} \<inter> live s)) v)"
proof -
  obtain b W' where o: "layer_outdated w s = Returns (b, s\<lparr>ws_win := W'\<rparr>)" "same_windows (ws_win s) W'"
    using layer_outdated_returns [OF ok w] by blast
  let ?s1 = "s\<lparr>ws_win := W'\<rparr>"
  have r1: "relayered s ?s1" using o(2) by (simp add: relayered_def)
  note ok1 = relayered_ok [OF ok r1]
  show ?thesis
  proof (cases b)
    case False
    with o(1) r1 layer_outdated_right [OF o(1)] show ?thesis
      by (intro exI [of _ ?s1]) (simp add: update_layers.simps [of "w # ws"])
  next
    case True
    let ?s2 = "blocked ?s1" and ?kids = "filter (\<lambda>c. \<not> w_annexed (W' c)) (w_children (W' w))"
    let ?s3 = "?s2\<lparr>ws_win := invalidate_layer w W'\<rparr>"
    have blk: "blockStackingUpdates True ?s1 = Returns ?s2" by (simp add: blockStackingUpdates_def blocked_def)
    have r2: "relayered ?s2 ?s3" by (simp add: relayered_def same_windows_invalidate)
    have "set (w_children (W' w)) \<subseteq> set (ws_unconstrained s)" using ok1 w by (simp add: ws_ok_def windows_ok_def)
    moreover have "rk w < rk c" if "c \<in> set (w_children (W' w))" for c
      using ok1 that by (auto simp: ws_ok_def windows_ok_def transients_ok_def leads_ranked_def)
    ultimately have "set ?kids \<subseteq> set (ws_unconstrained ?s3)" "\<forall>c \<in> set ?kids. rk w < rk c" by auto
    from kids [OF relayered_ok [OF ws_ok_blocked [OF ok1] r2] this] obtain u where
      u: "update_layers ?kids ?s3 = Some (Returns u)" "relayered ?s3 u" "\<forall>A. right_on A ?s3 \<longrightarrow> right_on (A \<union> (set ?kids \<inter> live ?s3)) u"
      by blast
    obtain v where v: "blockStackingUpdates False u = Returns v" "relayered ?s1 v"
      using unblock_relayered [OF ok1 relayered_trans [OF r2 u(2)]] by blast
    have "right_on (A \<union> ({w} \<inter> live s)) v" if "right_on A s" for A
    proof -
      from block_right [OF blk layer_outdated_keeps_right [OF o(1) that]] have "right_on (insert w A) ?s3"
        using invalidate_right [of A ?s2 w] by simp
      with u(3) have "right_on (insert w A \<union> (set ?kids \<inter> live ?s3)) u" by blast
      then have "right_on (insert w A) u" by (rule right_on_mono) blast
      from block_right [OF v(1) this] show ?thesis by (rule right_on_mono) blast
    qed
    moreover have "update_layers (w # ws) s = update_layers ws v"
      using o(1) True blk u(1) v(1) by (simp add: update_layers.simps [of "w # ws"])
    ultimately show ?thesis using relayered_trans [OF r1 v(2)] by blast
  qed
qed

lemma update_layers_returns:
  assumes "ws_ok rk N s" and "set todo \<subseteq> set (ws_unconstrained s)" and "\<forall>w \<in> set todo. N - rk w \<le> k"
  shows "\<exists>t. update_layers todo s = Some (Returns t) \<and> relayered s t \<and>
    (\<forall>A. right_on A s \<longrightarrow> right_on (A \<union> (set todo \<inter> live s)) t)"
  using assms
proof (induction k arbitrary: todo s)
  case 0
  have "rk w < N" for w using 0(1) by (simp add: ws_ok_def windows_ok_def)
  then have "todo = []" using 0(3) by (metis diff_is_0_eq le_zero_eq list.set_intros(1) neq_Nil_conv not_less)
  then show ?case by (simp add: update_layers.simps)
next
  case (Suc k)
  from Suc.prems show ?case
  proof (induction todo arbitrary: s)
    case Nil
    then show ?case by (simp add: update_layers.simps)
  next
    case (Cons w ws)
    have "\<forall>a. rk a < N" using Cons.prems(1) by (simp add: ws_ok_def windows_ok_def)
    then have "\<forall>c. rk w < rk c \<longrightarrow> N - rk c \<le> k" using Cons.prems(3) by auto
    with Suc.IH Cons.prems(2) obtain v where v: "update_layers (w # ws) s = update_layers ws v" "relayered s v"
      "\<forall>A. right_on A s \<longrightarrow> right_on (A \<union> ({w} \<inter> live s)) v"
      using update_layers_round [OF Cons.prems(1), of w ws] by (metis list.set_intros(1) subsetD)
    have "ws_unconstrained v = ws_unconstrained s" using v(2) by (simp add: relayered_def ws_frame_def)
    then obtain t where t: "update_layers ws v = Some (Returns t)" "relayered v t"
        "\<forall>A. right_on A v \<longrightarrow> right_on (A \<union> (set ws \<inter> live v)) t"
      using Cons.IH [OF relayered_ok [OF Cons.prems(1) v(2)]] Cons.prems(2,3) by auto
    have "right_on (A \<union> (set (w # ws) \<inter> live s)) t" if "right_on A s" for A
    proof -
      from v(3) that t(3) have "right_on ((A \<union> ({w} \<inter> live s)) \<union> (set ws \<inter> live v)) t" by blast
      then show ?thesis by (rule right_on_mono) (use relayered_live [OF v(2)] in auto)
    qed
    with t(1,2) v(1) relayered_trans [OF v(2) t(2)] show ?case by simp
  qed
qed

lemma update_layer_returns:
  assumes "ws_ok rk N s" and "w \<in> set (ws_unconstrained s)"
  shows "\<exists>t. update_layer w s = Returns t \<and> relayered s t \<and> (\<forall>A. right_on A s \<longrightarrow> right_on (A \<union> ({w} \<inter> live s)) t)"
  using update_layers_returns [OF assms(1), of "[w]" N] assms(2) by (auto simp: update_layer_def)

section \<open>Keeping windows above and below\<close>

lemma ws_upd_fields [simp]:
  "ws_unconstrained (ws_upd w f s) = ws_unconstrained s" "ws_win (ws_upd w f s) = (ws_win s)(w := f (ws_win s w))"
  "ws_showingDesktop (ws_upd w f s) = ws_showingDesktop s" "mostRecentlyActivatedClient (ws_upd w f s) = mostRecentlyActivatedClient s"
  "ws_block (ws_upd w f s) = ws_block s" "ws_frame (ws_upd w f s) = ws_frame s"
  by (simp_all add: ws_upd_def)

lemma ws_ok_upd:
  assumes "w_leads (f x) = w_leads x" "w_children (f x) = w_children x" "w_control (f x) = w_control x" "w_screen (f x) = w_screen x"
    and "x = ws_win s w"
  shows "ws_ok rk N (ws_upd w f s) = ws_ok rk N s"
proof -
  let ?W = "(ws_win s)(w := f (ws_win s w))"
  have "w_leads (?W a) = w_leads (ws_win s a)" "w_children (?W a) = w_children (ws_win s a)"
    "w_control (?W a) = w_control (ws_win s a)" "w_screen (?W a) = w_screen (ws_win s a)" for a
    using assms by simp_all
  then show ?thesis
    unfolding ws_ok_def ws_upd_def windows_ok_def transients_ok_def leads_ranked_def by simp
qed

lemma belong_other:
  assumes "a \<noteq> w"
  shows "belong_to_layer sd ac (W(w := (W w)\<lparr>w_keep_above := k\<rparr>)) a = belong_to_layer sd ac W a"
    and "belong_to_layer sd ac (W(w := (W w)\<lparr>w_keep_below := k\<rparr>)) a = belong_to_layer sd ac W a"
  using assms by (auto simp: belong_to_layer_def is_active_fullscreen_def Let_def split: option.splits)

lemma keep_flag_request:
  assumes "ws_ok rk N s" and "w \<in> set (ws_unconstrained s)" and "w \<in> live s" and "right_on A s" and "w \<in> A"
    and "f = (\<lambda>x. x\<lparr>w_keep_above := k\<rparr>) \<or> f = (\<lambda>x. x\<lparr>w_keep_below := k\<rparr>)"
  shows "\<exists>t. updateClientLayer (Some w) (ws_upd w f s) = Returns t \<and> relayered (ws_upd w f s) t \<and> right_on A t"
proof -
  let ?s = "ws_upd w f s"
  have ok: "ws_ok rk N ?s" "live ?s = live s" "ws_unconstrained ?s = ws_unconstrained s"
    using assms(1,6) ws_ok_upd [of f "ws_win s w" s w] by (auto simp: live_def)
  obtain t where "update_layer w ?s = Returns t" "relayered ?s t" "\<forall>A. right_on A ?s \<longrightarrow> right_on (A \<union> ({w} \<inter> live ?s)) t"
    using update_layer_returns [OF ok(1), of w] ok(3) assms(2) by auto
  moreover have "right_on (A - {w}) ?s"
    using assms(4,6) by (auto simp: right_on_def belong_other)
  ultimately have "right_on ((A - {w}) \<union> ({w} \<inter> live s)) t" using ok(2) by simp
  then have "right_on A t" by (rule right_on_mono) (use assms(3) in auto)
  with \<open>update_layer w ?s = Returns t\<close> \<open>relayered ?s t\<close> show ?thesis by (simp add: updateClientLayer_def)
qed

lemma same_windows_keep:
  assumes "same_windows W W'"
  shows "w_keep_above (W' a) = w_keep_above (W a)" "w_keep_below (W' a) = w_keep_below (W a)"
proof -
  have "(W' a)\<lparr>w_layer := LUnknown\<rparr> = (W a)\<lparr>w_layer := LUnknown\<rparr>" using assms by (simp add: same_windows_def)
  from arg_cong [OF this, of w_keep_above] arg_cong [OF this, of w_keep_below]
  show "w_keep_above (W' a) = w_keep_above (W a)" "w_keep_below (W' a) = w_keep_below (W a)" by simp_all
qed

definition stackable_window :: "(addr \<Rightarrow> nat) \<Rightarrow> nat \<Rightarrow> addr \<Rightarrow> workspace \<Rightarrow> bool" where
  "stackable_window rk N w s \<longleftrightarrow> ws_ok rk N s \<and> w \<in> set (ws_unconstrained s) \<and> w \<in> live s \<and> right_on (set (ws_unconstrained s)) s"

lemma stackable_relayered:
  "stackable_window rk N w s \<Longrightarrow> relayered s t \<Longrightarrow> right_on (set (ws_unconstrained s)) t \<Longrightarrow> stackable_window rk N w t"
  using relayered_ok relayered_live by (fastforce simp: stackable_window_def relayered_def ws_frame_def)

lemma apply_keep:
  assumes "stackable_window rk N w s"
  shows "\<exists>t. apply_keep_above w k s = Returns t \<and> stackable_window rk N w t \<and> w_keep_above (ws_win t w) = k \<and>
      w_keep_below (ws_win t w) = w_keep_below (ws_win s w)"
    and "\<exists>t. apply_keep_below w k s = Returns t \<and> stackable_window rk N w t \<and> w_keep_below (ws_win t w) = k \<and>
      w_keep_above (ws_win t w) = w_keep_above (ws_win s w)"
proof -
  note st = assms [unfolded stackable_window_def]
  have upd: "stackable_window rk N w t" "w_keep_above (ws_win t w) = w_keep_above (f (ws_win s w))"
      "w_keep_below (ws_win t w) = w_keep_below (f (ws_win s w))"
    if "relayered (ws_upd w f s) t" "right_on (set (ws_unconstrained s)) t"
      "f = (\<lambda>x. x\<lparr>w_keep_above := k\<rparr>) \<or> f = (\<lambda>x. x\<lparr>w_keep_below := k\<rparr>)" for f t
  proof -
    have "stackable_window rk N w t \<longleftrightarrow> ws_ok rk N t \<and> right_on (set (ws_unconstrained s)) t"
      using st that(1,3) relayered_live [OF that(1)]
      by (auto simp: stackable_window_def relayered_def ws_frame_def live_def)
    moreover have "ws_ok rk N (ws_upd w f s)"
      using st that(3) ws_ok_upd [of f "ws_win s w" s w] by auto
    ultimately show "stackable_window rk N w t" using relayered_ok [OF _ that(1)] that(2) by blast
    show "w_keep_above (ws_win t w) = w_keep_above (f (ws_win s w))" "w_keep_below (ws_win t w) = w_keep_below (f (ws_win s w))"
      using that(1) same_windows_keep [of "(ws_win s)(w := f (ws_win s w))" "ws_win t" w] by (simp_all add: relayered_def)
  qed
  show "\<exists>t. apply_keep_above w k s = Returns t \<and> stackable_window rk N w t \<and> w_keep_above (ws_win t w) = k \<and>
      w_keep_below (ws_win t w) = w_keep_below (ws_win s w)"
    using keep_flag_request [of rk N s w "set (ws_unconstrained s)" "\<lambda>x. x\<lparr>w_keep_above := k\<rparr>" k] st upd assms
    by (fastforce simp: apply_keep_above_def)
  show "\<exists>t. apply_keep_below w k s = Returns t \<and> stackable_window rk N w t \<and> w_keep_below (ws_win t w) = k \<and>
      w_keep_above (ws_win t w) = w_keep_above (ws_win s w)"
    using keep_flag_request [of rk N s w "set (ws_unconstrained s)" "\<lambda>x. x\<lparr>w_keep_below := k\<rparr>" k] st upd assms
    by (fastforce simp: apply_keep_below_def)
qed

text \<open>
  C10. Asking for a window to be kept above or below always returns. The window has the state that
  the rules allow, the opposite state is gone when the request was granted and no rule forces the
  opposite, and the cached layers of all windows are right: each is unknown, or the layer the
  window belongs to.
\<close>

theorem keep_above_below_exclusive:
  assumes "stackable_window rk N w s"
  shows "\<exists>t u. set_keep_above R w k s = Returns t \<and> w_keep_above (ws_win t w) = sr_checkKeepAbove R k \<and>
    (sr_checkKeepAbove R k \<and> \<not> sr_checkKeepBelow R False \<longrightarrow> \<not> w_keep_below (ws_win t w)) \<and>
    right_on (set (ws_unconstrained t)) t \<and>
    set_keep_below R w k s = Returns u \<and> w_keep_below (ws_win u w) = sr_checkKeepBelow R k \<and>
    (sr_checkKeepBelow R k \<and> \<not> sr_checkKeepAbove R False \<longrightarrow> \<not> w_keep_above (ws_win u w)) \<and>
    right_on (set (ws_unconstrained u)) u"
proof -
  have ctl: "w_control (ws_win s w)" using assms ws_ok_control by (auto simp: stackable_window_def)
  let ?a = "sr_checkKeepAbove R k \<and> \<not> sr_checkKeepBelow R False" and ?b = "sr_checkKeepBelow R k \<and> \<not> sr_checkKeepAbove R False"
  obtain s1 where s1: "(if ?a then apply_keep_below w (sr_checkKeepBelow R False) s else Returns s) = Returns s1"
      "stackable_window rk N w s1" "?a \<longrightarrow> \<not> w_keep_below (ws_win s1 w)"
    using apply_keep(2) [OF assms, of False] assms by (cases ?a) auto
  obtain s2 where s2: "(if ?b then apply_keep_above w (sr_checkKeepAbove R False) s else Returns s) = Returns s2"
      "stackable_window rk N w s2" "?b \<longrightarrow> \<not> w_keep_above (ws_win s2 w)"
    using apply_keep(1) [OF assms, of False] assms by (cases ?b) auto
  show ?thesis
    using apply_keep(1) [OF s1(2), of "sr_checkKeepAbove R k"] apply_keep(2) [OF s2(2), of "sr_checkKeepBelow R k"] s1 s2 ctl
    by (auto simp: set_keep_above_def set_keep_below_def stackable_window_def Let_def)
qed

definition no_rules :: state_rules where
  "no_rules = \<lparr>sr_checkKeepAbove = id, sr_checkKeepBelow = id, sr_checkMinimize = id, sr_minimizable = True\<rparr>"

lemma demo_stackable_window: "w < 3 \<Longrightarrow> stackable_window demo_rank 2 w demo_ws"
  using demo_ws_ok by (auto simp: stackable_window_def live_def right_on_def demo_ws_def demo_store_def demo_window_def)

theorem keep_above_below_exclusive_witness:
  "\<exists>t u. set_keep_above no_rules 0 True demo_ws = Returns t \<and> w_keep_above (ws_win t 0) \<and> \<not> w_keep_below (ws_win t 0) \<and>
     set_keep_below no_rules 0 True demo_ws = Returns u \<and> w_keep_below (ws_win u 0) \<and> \<not> w_keep_above (ws_win u 0)"
  using keep_above_below_exclusive [OF demo_stackable_window, of 0 no_rules True] by (auto simp: no_rules_def)

end
