(* ===== verification/Window_Desktops.thy ===== *)
theory Window_Desktops
  imports Window_State
begin

text \<open>
  The virtual desktops of a window (\<open>set_desktops\<close> and its callers in \<^verbatim>\<open>win/screen.h\<close>), which
  takes its transients and, when it is modal, its leads along. The hints for X11 and for the task
  manager of Plasma and the virtual method \<open>doSetDesktop\<close> are not represented. \<open>chk\<close> is the rule on
  the desktop, for each window.
\<close>

section \<open>Operations\<close>

definition ws_set_desktops :: "addr \<Rightarrow> addr list \<Rightarrow> workspace \<Rightarrow> workspace" where
  "ws_set_desktops w ds = ws_upd w (\<lambda>x. x\<lparr>w_desktops := ds\<rparr>)"

definition allowed_desktops :: "workspace \<Rightarrow> addr list \<Rightarrow> addr list" where
  "allowed_desktops s ds = (if \<not> dv_wayland (ws_desk s) \<and> length ds > 1 then [last ds] else ds)"

text \<open>The range check, the rule and the choice of the desktop object in \<open>set_desktop\<close>.\<close>

definition desktops_for_number :: "(addr \<Rightarrow> int \<Rightarrow> int) \<Rightarrow> addr \<Rightarrow> int \<Rightarrow> workspace \<Rightarrow> addr list outcome" where
  "desktops_for_number chk w desktop s =
     (let n = int (length (dv_desktops (ws_desk s)));
          d0 = (if desktop \<noteq> NET_OnAllDesktops then max 1 (min n desktop) else desktop);
          d = min n (chk w d0)
      in if d = NET_OnAllDesktops then Returns []
         else (case desktop_for_x11_id (ws_desk s) (nat d) of
             None \<Rightarrow> Faults NullDeref
           | Some vd \<Rightarrow> Returns [vd]))"

text \<open>
  \<open>set_desktops\<close> calls itself for transients and leads, directly and through
  \<open>updateOnAllDesktopsOfTransients\<close>, \<open>set_on_all_desktops\<close> and \<open>set_desktop\<close>. The number bounds the
  depth of these calls.
\<close>

fun set_desktops_depth :: "nat \<Rightarrow> (addr \<Rightarrow> int \<Rightarrow> int) \<Rightarrow> addr \<Rightarrow> addr list \<Rightarrow> workspace \<Rightarrow> workspace outcome" where
  "set_desktops_depth 0 chk w ds0 s = Diverges"
| "set_desktops_depth (Suc n) chk w ds0 s =
     (let ds = allowed_desktops s ds0; D = ws_desk s; win = ws_win s w in
      if ds = w_desktops win then Returns s
      else if \<not> w_control win then Faults NullDeref
      else
        let was = win_desktop D win;
            wasOnCurrent = (on_current_desktop D win \<and> was \<ge> 0);
            s1 = ws_set_desktops w ds s;
            sticky = (\<lambda>v. on_all_desktops (ws_desk v) (ws_win v w))
        in
        obind (if (was = NET_OnAllDesktops) \<noteq> (win_desktop D (ws_win s1 w) = NET_OnAllDesktops)
               then ofold (\<lambda>c v.
                   if on_all_desktops (ws_desk v) (ws_win v c) = sticky v then Returns v
                   else if \<not> w_control (ws_win v c) then Faults NullDeref
                   else obind (desktops_for_number chk c (if sticky v then NET_OnAllDesktops else int (dv_current (ws_desk v))) v)
                     (\<lambda>cs. set_desktops_depth n chk c cs v)) (w_children (ws_win s1 w)) s1
               else Returns s1) (\<lambda>s2.
        obind (ofold (\<lambda>c v. if w_annexed (ws_win v c) then Returns v else set_desktops_depth n chk c ds v)
                 (ensureStackingOrder (ws_stacking s2) (w_children (ws_win s2 w))) s2) (\<lambda>s3.
        obind (if w_modal (ws_win s3 w)
               then ofold (\<lambda>l v. set_desktops_depth n chk l ds v) (w_leads (ws_win s3 w)) s3
               else Returns s3) (\<lambda>s4.
        let s5 = s4\<lparr>ws_focus := fc_update (ws_desk s4) (ws_win s4) w MakeFirst (ws_focus s4)\<rparr>;
            s6 = ws_emit (DesktopChanged w) s5
        in Returns (if wasOnCurrent \<noteq> on_current_desktop (ws_desk s6) (ws_win s6 w)
                    then ws_emit (DesktopPresenceChanged w was) s6 else s6)))))"

text \<open>
  Enough for every workspace: a call that does anything reduces the number of windows on all
  desktops, or leaves it and reduces the number of windows that are not on the wanted desktops.
\<close>

definition desktops_fuel :: "workspace \<Rightarrow> nat" where
  "desktops_fuel s = (length (ws_unconstrained s) + 2) * (length (ws_unconstrained s) + 2)"

definition set_desktops :: "(addr \<Rightarrow> int \<Rightarrow> int) \<Rightarrow> addr \<Rightarrow> addr list \<Rightarrow> workspace \<Rightarrow> workspace outcome" where
  "set_desktops chk w ds s = set_desktops_depth (desktops_fuel s) chk w ds s"

definition set_desktop :: "(addr \<Rightarrow> int \<Rightarrow> int) \<Rightarrow> addr \<Rightarrow> int \<Rightarrow> workspace \<Rightarrow> workspace outcome" where
  "set_desktop chk w desktop s =
     (if \<not> w_control (ws_win s w) then Faults NullDeref
      else obind (desktops_for_number chk w desktop s) (\<lambda>ds. set_desktops chk w ds s))"

definition set_on_all_desktops :: "(addr \<Rightarrow> int \<Rightarrow> int) \<Rightarrow> addr \<Rightarrow> bool \<Rightarrow> workspace \<Rightarrow> workspace outcome" where
  "set_on_all_desktops chk w b s =
     (if b = on_all_desktops (ws_desk s) (ws_win s w) then Returns s
      else set_desktop chk w (if b then NET_OnAllDesktops else int (dv_current (ws_desk s))) s)"

definition updateOnAllDesktopsOfTransients :: "(addr \<Rightarrow> int \<Rightarrow> int) \<Rightarrow> addr \<Rightarrow> workspace \<Rightarrow> workspace outcome" where
  "updateOnAllDesktopsOfTransients chk w s =
     ofold (\<lambda>c v. let b = on_all_desktops (ws_desk v) (ws_win v w) in
         if on_all_desktops (ws_desk v) (ws_win v c) = b then Returns v else set_on_all_desktops chk c b v)
       (w_children (ws_win s w)) s"

definition x11_desktop_ids :: "desk_view \<Rightarrow> window \<Rightarrow> int list" where
  "x11_desktop_ids D w = map (dv_number D) (w_desktops w)"

definition enter_desktop :: "(addr \<Rightarrow> int \<Rightarrow> int) \<Rightarrow> addr \<Rightarrow> addr \<Rightarrow> workspace \<Rightarrow> workspace outcome" where
  "enter_desktop chk w vd s =
     (if vd \<in> set (w_desktops (ws_win s w)) then Returns s
      else set_desktops chk w (w_desktops (ws_win s w) @ [vd]) s)"

definition leave_desktop :: "(addr \<Rightarrow> int \<Rightarrow> int) \<Rightarrow> addr \<Rightarrow> addr \<Rightarrow> workspace \<Rightarrow> workspace outcome" where
  "leave_desktop chk w vd s =
     (let current = (if w_desktops (ws_win s w) = [] then dv_desktops (ws_desk s) else w_desktops (ws_win s w)) in
      if vd \<notin> set current then Returns s
      else set_desktops chk w (remove1 vd current) s)"

end
