(* ===== verification/Window_Desktops_Properties.thy ===== *)
theory Window_Desktops_Properties
  imports Window_Desktops
begin

text \<open>
  Moving a window to other desktops: the recursion over transients and leads ends, and takes the
  family of the window along.
\<close>

section \<open>What stays the same\<close>

abbreviation desks_of :: "workspace \<Rightarrow> addr \<Rightarrow> addr list" where
  "desks_of s a \<equiv> w_desktops (ws_win s a)"

definition moved :: "workspace \<Rightarrow> workspace \<Rightarrow> bool" where
  "moved s t \<longleftrightarrow> (\<forall>a. (ws_win t a)\<lparr>w_desktops := []\<rparr> = (ws_win s a)\<lparr>w_desktops := []\<rparr>) \<and>
     ws_desk t = ws_desk s \<and> ws_unconstrained t = ws_unconstrained s \<and> ws_stacking t = ws_stacking s"

lemma moved_refl [simp]: "moved s s"
  by (simp add: moved_def)

lemma moved_trans: "moved s t \<Longrightarrow> moved t u \<Longrightarrow> moved s u"
  by (simp add: moved_def)

lemma movedD:
  assumes "moved s t"
  shows "w_children (ws_win t a) = w_children (ws_win s a)" "w_leads (ws_win t a) = w_leads (ws_win s a)"
    "w_control (ws_win t a) = w_control (ws_win s a)" "w_annexed (ws_win t a) = w_annexed (ws_win s a)"
    "w_modal (ws_win t a) = w_modal (ws_win s a)"
    "ws_desk t = ws_desk s" "ws_unconstrained t = ws_unconstrained s" "ws_stacking t = ws_stacking s"
proof -
  have "(ws_win t a)\<lparr>w_desktops := []\<rparr> = (ws_win s a)\<lparr>w_desktops := []\<rparr>" using assms by (simp add: moved_def)
  from arg_cong [OF this, of w_children] arg_cong [OF this, of w_leads] arg_cong [OF this, of w_control]
    arg_cong [OF this, of w_annexed] arg_cong [OF this, of w_modal]
  show "w_children (ws_win t a) = w_children (ws_win s a)" "w_leads (ws_win t a) = w_leads (ws_win s a)"
    "w_control (ws_win t a) = w_control (ws_win s a)" "w_annexed (ws_win t a) = w_annexed (ws_win s a)"
    "w_modal (ws_win t a) = w_modal (ws_win s a)" by simp_all
qed (use assms in \<open>simp_all add: moved_def\<close>)

text \<open>The numbers of desktops are unsigned, the current one exists, and families stay within the controlled windows.\<close>

definition moveable :: "workspace \<Rightarrow> bool" where
  "moveable s \<longleftrightarrow> (\<forall>d. 0 \<le> dv_number (ws_desk s) d) \<and> 1 \<le> dv_current (ws_desk s) \<and>
     dv_current (ws_desk s) \<le> length (dv_desktops (ws_desk s)) \<and>
     (\<forall>a \<in> set (ws_unconstrained s). w_control (ws_win s a) \<and> distinct (w_children (ws_win s a)) \<and>
        set (w_children (ws_win s a)) \<union> set (w_leads (ws_win s a)) \<subseteq> set (ws_unconstrained s))"

lemma moveable_moved: "moveable s \<Longrightarrow> moved s t \<Longrightarrow> moveable t"
  by (simp add: moveable_def movedD)

lemma on_all_iff:
  assumes "moveable s"
  shows "on_all_desktops (ws_desk s) w \<longleftrightarrow> w_desktops w = []" "win_desktop (ws_desk s) w = NET_OnAllDesktops \<longleftrightarrow> w_desktops w = []"
proof -
  have "dv_number (ws_desk s) d \<noteq> NET_OnAllDesktops" for d
  proof -
    have "0 \<le> dv_number (ws_desk s) d" using assms by (simp add: moveable_def)
    then show ?thesis by (simp add: NET_OnAllDesktops_def)
  qed
  then show "on_all_desktops (ws_desk s) w \<longleftrightarrow> w_desktops w = []" "win_desktop (ws_desk s) w = NET_OnAllDesktops \<longleftrightarrow> w_desktops w = []"
    by (auto simp: on_all_desktops_def win_desktop_def)
qed

lemma moved_set_desktops: "moved s (ws_set_desktops w ds s)"
  by (simp add: moved_def ws_set_desktops_def ws_upd_def)

lemma desks_set_desktops: "desks_of (ws_set_desktops w ds s) a = (if a = w then ds else desks_of s a)"
  by (simp add: ws_set_desktops_def)

lemma moved_end:
  "moved s t \<Longrightarrow> moved s (t\<lparr>ws_focus := f\<rparr>)" "moved s t \<Longrightarrow> moved s (ws_emit e t)"
  by (simp_all add: moved_def ws_emit_def)

lemma ofold_all:
  assumes "\<And>x s. x \<in> set xs \<Longrightarrow> P s \<Longrightarrow> \<exists>s'. f x s = Returns s' \<and> P s' \<and> R s s' \<and> Q x s'"
    and "\<And>s. R s s" and "\<And>s t u. R s t \<Longrightarrow> R t u \<Longrightarrow> R s u" and "\<And>x s t. Q x s \<Longrightarrow> R s t \<Longrightarrow> Q x t" and "P s"
  shows "\<exists>s'. ofold f xs s = Returns s' \<and> P s' \<and> R s s' \<and> (\<forall>x \<in> set xs. Q x s')"
  using assms(1,5)
proof (induction xs arbitrary: s)
  case Nil
  with assms(2) show ?case by simp
next
  case (Cons x xs)
  from Cons.prems obtain t where t: "f x s = Returns t" "P t" "R s t" "Q x t" by (metis list.set_intros(1))
  from Cons.IH [OF _ t(2)] Cons.prems(1) obtain u where "ofold f xs t = Returns u" "P u" "R t u" "\<forall>y \<in> set xs. Q y u"
    by (metis list.set_intros(2))
  with t assms(3,4) show ?case by auto
qed

section \<open>One target\<close>

definition toward :: "addr list \<Rightarrow> workspace \<Rightarrow> workspace \<Rightarrow> bool" where
  "toward D s t \<longleftrightarrow> moved s t \<and> (\<forall>a. desks_of t a = desks_of s a \<or> desks_of t a = D)"

lemma toward_refl: "toward D s s"
  by (simp add: toward_def)

lemma toward_trans: "toward D s t \<Longrightarrow> toward D t u \<Longrightarrow> toward D s u"
  unfolding toward_def using moved_trans by metis

lemma toward_keeps: "toward D s t \<Longrightarrow> desks_of s a = D \<Longrightarrow> desks_of t a = D"
  unfolding toward_def by metis

lemma toward_end:
  "toward D s t \<Longrightarrow> toward D s (t\<lparr>ws_focus := f\<rparr>)" "toward D s t \<Longrightarrow> toward D s (ws_emit e t)"
  by (simp_all add: toward_def moved_end)

definition away :: "addr list \<Rightarrow> workspace \<Rightarrow> addr set" where
  "away D s = {a \<in> set (ws_unconstrained s). desks_of s a \<noteq> D}"

lemma toward_away: "toward D s t \<Longrightarrow> card (away D t) \<le> card (away D s)"
  by (rule card_mono) (auto simp: away_def toward_def movedD)

lemma away_set: "w \<in> away D s \<Longrightarrow> card (away D (ws_set_desktops w D s)) < card (away D s)"
proof (rule psubset_card_mono)
  assume "w \<in> away D s"
  then show "away D (ws_set_desktops w D s) \<subset> away D s"
    by (auto simp: away_def desks_set_desktops movedD(7) [OF moved_set_desktops])
qed (simp add: away_def)

text \<open>The window and those that follow it at once are on \<open>D\<close>.\<close>

definition family_at :: "addr list \<Rightarrow> addr \<Rightarrow> workspace \<Rightarrow> bool" where
  "family_at D w s \<longleftrightarrow> desks_of s w = D \<and>
     (\<forall>c \<in> set (w_children (ws_win s w)). \<not> w_annexed (ws_win s c) \<longrightarrow> desks_of s c = D) \<and>
     (w_modal (ws_win s w) \<longrightarrow> (\<forall>l \<in> set (w_leads (ws_win s w)). desks_of s l = D))"

text \<open>Only the wanted desktops are given to any window when none has to give up being on all of them.\<close>

definition single_target :: "addr list \<Rightarrow> workspace \<Rightarrow> bool" where
  "single_target D s \<longleftrightarrow> moveable s \<and> allowed_desktops s D = D \<and>
     (D = [] \<or> (\<forall>a \<in> set (ws_unconstrained s). desks_of s a \<noteq> []))"

lemma single_target_toward: "single_target D s \<Longrightarrow> toward D s t \<Longrightarrow> single_target D t"
  unfolding single_target_def toward_def allowed_desktops_def using moveable_moved movedD(6,7) [of s t] by metis

lemma children_toward:
  assumes rec: "\<And>x v. x \<in> U \<Longrightarrow> toward D s v \<Longrightarrow> \<exists>t. rec x v = Returns t \<and> toward D v t \<and> desks_of t x = D"
    and "set xs \<subseteq> U" and "toward D s v"
  shows "\<exists>t. ofold rec xs v = Returns t \<and> toward D v t \<and> (\<forall>x \<in> set xs. desks_of t x = D)"
    and "\<exists>t. ofold (\<lambda>c v. if w_annexed (ws_win v c) then Returns v else rec c v) xs v = Returns t \<and> toward D v t \<and>
      (\<forall>x \<in> set xs. \<not> w_annexed (ws_win t x) \<longrightarrow> desks_of t x = D)"
proof -
  have keep: "desks_of t x = D" if "desks_of u x = D" "toward D u t" for x u t
    using that by (auto simp: toward_def)
  have step: "\<exists>t. rec x v = Returns t \<and> toward D s t \<and> toward D v t \<and> desks_of t x = D" if "x \<in> set xs" "toward D s v" for x v
    using rec [of x v] that assms(2) toward_trans by blast
  have "\<exists>t. ofold rec xs v = Returns t \<and> toward D s t \<and> toward D v t \<and> (\<forall>x \<in> set xs. desks_of t x = D)"
    by (rule ofold_all [where R = "toward D"]) (use step toward_refl toward_trans keep assms(3) in blast)+
  then show "\<exists>t. ofold rec xs v = Returns t \<and> toward D v t \<and> (\<forall>x \<in> set xs. desks_of t x = D)" by blast
  have step': "\<exists>t. (if w_annexed (ws_win v c) then Returns v else rec c v) = Returns t \<and> toward D s t \<and> toward D v t \<and>
      (\<not> w_annexed (ws_win t c) \<longrightarrow> desks_of t c = D)" if "c \<in> set xs" "toward D s v" for c v
    using step [OF that] that(2) toward_refl by auto
  have keep': "\<not> w_annexed (ws_win t x) \<longrightarrow> desks_of t x = D"
    if "\<not> w_annexed (ws_win u x) \<longrightarrow> desks_of u x = D" "toward D u t" for x u t
    using that movedD(4) [of u t x] by (auto simp: toward_def)
  have "\<exists>t. ofold (\<lambda>c v. if w_annexed (ws_win v c) then Returns v else rec c v) xs v = Returns t \<and> toward D s t \<and> toward D v t \<and>
      (\<forall>x \<in> set xs. \<not> w_annexed (ws_win t x) \<longrightarrow> desks_of t x = D)"
    by (rule ofold_all [where R = "toward D"]) (use step' toward_refl toward_trans keep' assms(3) in blast)+
  then show "\<exists>t. ofold (\<lambda>c v. if w_annexed (ws_win v c) then Returns v else rec c v) xs v = Returns t \<and> toward D v t \<and>
      (\<forall>x \<in> set xs. \<not> w_annexed (ws_win t x) \<longrightarrow> desks_of t x = D)" by blast
qed

abbreviation sticky_step where
  "sticky_step n chk w c v \<equiv>
     (if on_all_desktops (ws_desk v) (ws_win v c) = on_all_desktops (ws_desk v) (ws_win v w) then Returns v
      else if \<not> w_control (ws_win v c) then Faults NullDeref
      else obind (desktops_for_number chk c
          (if on_all_desktops (ws_desk v) (ws_win v w) then NET_OnAllDesktops else int (dv_current (ws_desk v))) v)
        (\<lambda>cs. set_desktops_depth n chk c cs v))"

lemma all_desktops_number:
  "desktops_for_number (\<lambda>_ d. d) c NET_OnAllDesktops v = Returns []"
  by (simp add: desktops_for_number_def NET_OnAllDesktops_def)

lemma sticky_children:
  assumes rec: "\<And>x v. x \<in> set (ws_unconstrained s) \<Longrightarrow> toward [] s v \<Longrightarrow>
      \<exists>t. set_desktops_depth n (\<lambda>_ d. d) x [] v = Returns t \<and> toward [] v t \<and> desks_of t x = []"
    and ok: "moveable s" and w: "w \<in> set (ws_unconstrained s)" "desks_of s w = []"
  shows "\<exists>t. ofold (sticky_step n (\<lambda>_ d. d) w) (w_children (ws_win s w)) s = Returns t \<and> toward [] s t"
proof (rule ofold_returns)
  fix c v
  assume c: "c \<in> set (w_children (ws_win s w))" and v: "toward [] s v"
  have mv: "moved s v" using v by (simp add: toward_def)
  note okv = moveable_moved [OF ok mv]
  have "c \<in> set (ws_unconstrained s)" using ok w(1) c by (auto simp: moveable_def)
  moreover from this have "w_control (ws_win v c)" using okv movedD(7) [OF mv] by (auto simp: moveable_def)
  moreover have "desks_of v w = []" using v w(2) by (rule toward_keeps)
  ultimately show "\<exists>t. sticky_step n (\<lambda>_ d. d) w c v = Returns t \<and> toward [] s t"
    using rec [of c v] v toward_trans [OF v] by (auto simp: on_all_iff [OF okv] all_desktops_number)
qed (rule toward_refl)

lemma set_desktops_run:
  assumes ok: "moveable s" "allowed_desktops s D = D" "w_control (ws_win s w)" "desks_of s w \<noteq> D"
    and s2: "(if (desks_of s w = []) \<noteq> (D = []) then ofold (sticky_step n (\<lambda>_ d. d) w)
          (w_children (ws_win (ws_set_desktops w D s) w)) (ws_set_desktops w D s) else Returns (ws_set_desktops w D s)) = Returns s2"
    and s3: "ofold (\<lambda>c v. if w_annexed (ws_win v c) then Returns v else set_desktops_depth n (\<lambda>_ d. d) c D v)
        (ensureStackingOrder (ws_stacking s2) (w_children (ws_win s2 w))) s2 = Returns s3"
    and s4: "(if w_modal (ws_win s3 w) then ofold (\<lambda>x v. set_desktops_depth n (\<lambda>_ d. d) x D v) (w_leads (ws_win s3 w)) s3
        else Returns s3) = Returns s4"
  shows "\<exists>t. set_desktops_depth (Suc n) (\<lambda>_ d. d) w D s = Returns t \<and> ws_win t = ws_win s4 \<and> moved s4 t"
proof -
  let ?on = "\<lambda>v. on_current_desktop (ws_desk v) (ws_win v w)"
  let ?s6 = "ws_emit (DesktopChanged w) (s4\<lparr>ws_focus := fc_update (ws_desk s4) (ws_win s4) w MakeFirst (ws_focus s4)\<rparr>)"
  let ?t = "if (?on s \<and> win_desktop (ws_desk s) (ws_win s w) \<ge> 0) \<noteq> ?on ?s6
    then ws_emit (DesktopPresenceChanged w (win_desktop (ws_desk s) (ws_win s w))) ?s6 else ?s6"
  have "set_desktops_depth (Suc n) (\<lambda>_ d. d) w D s = Returns ?t"
    unfolding set_desktops_depth.simps Let_def ok(2) on_all_iff(2) [OF ok(1)] desks_set_desktops
    using not_sym [OF ok(4)] ok(3) s2 s3 s4 by (simp only: if_True if_False simp_thms refl obind.simps)
  moreover have "ws_win ?t = ws_win s4" "moved s4 ?t" by (simp_all add: moved_def ws_emit_def)
  ultimately show ?thesis by blast
qed

lemma one_target:
  assumes "single_target D s" and "w \<in> set (ws_unconstrained s)" and "card (away D s) < n"
  shows "\<exists>t. set_desktops_depth n (\<lambda>_ d. d) w D s = Returns t \<and> toward D s t \<and> desks_of t w = D \<and>
    (desks_of s w \<noteq> D \<longrightarrow> family_at D w t)"
  using assms
proof (induction n arbitrary: s w)
  case (Suc n)
  show ?case
  proof (cases "desks_of s w = D")
    case True
    with Suc.prems(1) show ?thesis by (simp add: toward_refl single_target_def)
  next
    case False
    let ?s1 = "ws_set_desktops w D s" and ?rec = "\<lambda>x v. set_desktops_depth n (\<lambda>_ d. d) x D v"
    have ok: "moveable s" "allowed_desktops s D = D" "w_control (ws_win s w)"
      using Suc.prems(1,2) by (auto simp: single_target_def moveable_def)
    have t1: "toward D s ?s1" using moved_set_desktops by (simp add: toward_def desks_set_desktops)
    have u1: "ws_unconstrained ?s1 = ws_unconstrained s" using movedD(7) [OF moved_set_desktops] .
    have "w \<in> away D s" using False Suc.prems(2) by (simp add: away_def)
    then have "card (away D ?s1) < n" using away_set Suc.prems(3) by fastforce
    then have rec: "\<exists>t. ?rec x v = Returns t \<and> toward D v t \<and> desks_of t x = D"
      if "x \<in> set (ws_unconstrained s)" "toward D ?s1 v" for x v
      using Suc.IH [of v x] single_target_toward [OF Suc.prems(1) toward_trans [OF t1 that(2)]] that(1)
        movedD(7) [of ?s1 v] u1 that(2) toward_away [OF that(2)] by (auto simp: toward_def)
    have fam: "set (w_children (ws_win s w)) \<subseteq> set (ws_unconstrained s)" "set (w_leads (ws_win s w)) \<subseteq> set (ws_unconstrained s)"
      using ok(1) Suc.prems(2) by (auto simp: moveable_def)
    note ok1 = moveable_moved [OF ok(1) moved_set_desktops]
    have "D = []" if "(desks_of s w = []) \<noteq> (D = [])" using that Suc.prems(1,2) by (auto simp: single_target_def)
    then have "\<exists>t. (if (desks_of s w = []) \<noteq> (D = []) then ofold (sticky_step n (\<lambda>_ d. d) w) (w_children (ws_win ?s1 w)) ?s1
        else Returns ?s1) = Returns t \<and> toward D ?s1 t"
      using sticky_children [of ?s1 n w] rec ok1 Suc.prems(2) u1 toward_refl [of D ?s1] by (auto simp: desks_set_desktops)
    then obtain s2 where s2: "(if (desks_of s w = []) \<noteq> (D = []) then ofold (sticky_step n (\<lambda>_ d. d) w) (w_children (ws_win ?s1 w)) ?s1
        else Returns ?s1) = Returns s2" "toward D ?s1 s2" by blast
    have kin: "w_children (ws_win v w) = w_children (ws_win s w)" "w_leads (ws_win v w) = w_leads (ws_win s w)"
        "w_modal (ws_win v w) = w_modal (ws_win s w)" "desks_of v w = D" if "toward D ?s1 v" for v
      using that movedD(1,2,5) [of ?s1 v w] movedD(1,2,5) [OF moved_set_desktops, of w D s w] toward_keeps [OF that, of w]
      by (auto simp: toward_def desks_set_desktops)
    have kids: "set (ensureStackingOrder (ws_stacking s2) (w_children (ws_win s2 w))) = set (w_children (ws_win s w))"
      using kin(1) [OF s2(2)] ensureStackingOrder_set [of "w_children (ws_win s w)"] ok(1) Suc.prems(2) by (simp add: moveable_def)
    obtain s3 where s3: "ofold (\<lambda>c v. if w_annexed (ws_win v c) then Returns v else ?rec c v)
        (ensureStackingOrder (ws_stacking s2) (w_children (ws_win s2 w))) s2 = Returns s3" "toward D s2 s3"
        "\<forall>c \<in> set (w_children (ws_win s w)). \<not> w_annexed (ws_win s3 c) \<longrightarrow> desks_of s3 c = D"
      using children_toward(2) [OF rec fam(1) [folded kids] s2(2)] unfolding kids by blast
    have t3: "toward D ?s1 s3" using s2(2) s3(2) by (rule toward_trans)
    have "\<exists>t. (if w_modal (ws_win s3 w) then ofold ?rec (w_leads (ws_win s3 w)) s3 else Returns s3) = Returns t \<and>
        toward D s3 t \<and> (w_modal (ws_win s w) \<longrightarrow> (\<forall>l \<in> set (w_leads (ws_win s w)). desks_of t l = D))"
      using children_toward(1) [OF rec fam(2) t3] kin [OF t3] toward_refl by auto
    then obtain s4 where s4: "(if w_modal (ws_win s3 w) then ofold ?rec (w_leads (ws_win s3 w)) s3 else Returns s3) = Returns s4"
        "toward D s3 s4" "w_modal (ws_win s w) \<longrightarrow> (\<forall>l \<in> set (w_leads (ws_win s w)). desks_of s4 l = D)" by blast
    have t4: "toward D ?s1 s4" using t3 s4(2) by (rule toward_trans)
    obtain t where t: "set_desktops_depth (Suc n) (\<lambda>_ d. d) w D s = Returns t" "ws_win t = ws_win s4" "moved s4 t"
      using set_desktops_run [OF ok False s2(1) s3(1) s4(1)] by blast
    have "toward D s t" using toward_trans [OF t1 t4] t(2) moved_trans [OF _ t(3)] by (simp add: toward_def)
    moreover have "family_at D w s4"
      unfolding family_at_def using kin [OF t4] s4(3) s3(3) toward_keeps [OF s4(2)] movedD(4) [of s3 s4] s4(2) by (auto simp: toward_def)
    ultimately show ?thesis using t by (auto simp: family_at_def)
  qed
qed simp

section \<open>Windows that leave all desktops\<close>

text \<open>
  A window that is no longer on all desktops first takes its sticky transients to the current
  desktop, and a modal transient takes the window itself there. Only then are they moved to the
  wanted desktops. Every such detour uses up a sticky window.
\<close>

definition sticky :: "workspace \<Rightarrow> addr set" where
  "sticky s = {a \<in> set (ws_unconstrained s). desks_of s a = []}"

definition drank :: "addr list \<Rightarrow> workspace \<Rightarrow> nat" where
  "drank D s = card (sticky s) * Suc (length (ws_unconstrained s)) + card (away D s)"

lemma away_bound: "card (away D s) \<le> length (ws_unconstrained s)" "card (sticky s) \<le> length (ws_unconstrained s)"
proof -
  have "away D s \<subseteq> set (ws_unconstrained s)" "sticky s \<subseteq> set (ws_unconstrained s)" by (auto simp: away_def sticky_def)
  then show "card (away D s) \<le> length (ws_unconstrained s)" "card (sticky s) \<le> length (ws_unconstrained s)"
    using card_mono [of "set (ws_unconstrained s)"] card_length [of "ws_unconstrained s"] by (meson List.finite_set order_trans)+
qed

lemma drank_sticky_less:
  assumes "sticky t \<subset> sticky s" and "ws_unconstrained t = ws_unconstrained s"
  shows "drank D' t < drank D s"
proof -
  have "card (sticky t) < card (sticky s)" using assms(1) by (intro psubset_card_mono) (auto simp: sticky_def)
  then have "Suc (card (sticky t)) * Suc (length (ws_unconstrained s)) \<le> card (sticky s) * Suc (length (ws_unconstrained s))"
    by (intro mult_le_mono1) simp
  with away_bound(1) [of D' t] assms(2) show ?thesis by (simp add: drank_def)
qed

definition loosens :: "addr list \<Rightarrow> workspace \<Rightarrow> workspace \<Rightarrow> bool" where
  "loosens D s t \<longleftrightarrow> moved s t \<and> sticky t \<subseteq> sticky s \<and> drank D t \<le> drank D s"

lemma loosens_refl: "loosens D s s"
  by (simp add: loosens_def)

lemma loosens_end: "loosens D s t \<Longrightarrow> ws_win u = ws_win t \<Longrightarrow> moved t u \<Longrightarrow> loosens D s u"
  using moved_trans movedD(7) [of t u] by (auto simp: loosens_def drank_def sticky_def away_def)

lemma current_desktop_number:
  assumes "moveable v"
  shows "\<exists>d. desktops_for_number (\<lambda>_ d. d) c (int (dv_current (ws_desk v))) v = Returns [d]"
  using assms by (auto simp: moveable_def desktops_for_number_def desktop_for_x11_id_def NET_OnAllDesktops_def min_def max_def Let_def)

lemma allowed_single [simp]: "allowed_desktops s [d] = [d]"
  by (simp add: allowed_desktops_def)

lemma detour_returns:
  assumes ok: "moveable s" and w: "w \<in> set (ws_unconstrained s)" "desks_of s w \<noteq> []"
    and rec: "\<And>x v d. x \<in> set (ws_unconstrained s) \<Longrightarrow> moved s v \<Longrightarrow> sticky v \<subseteq> sticky s \<Longrightarrow>
      \<exists>t. set_desktops_depth n (\<lambda>_ d. d) x [d] v = Returns t \<and> loosens [d] v t"
  shows "\<exists>t. ofold (sticky_step n (\<lambda>_ d. d) w) (w_children (ws_win s w)) s = Returns t \<and> moved s t \<and> sticky t \<subseteq> sticky s"
proof (rule ofold_returns)
  fix c v
  assume c: "c \<in> set (w_children (ws_win s w))" and v: "moved s v \<and> sticky v \<subseteq> sticky s"
  have mv: "moved s v" using v by simp
  note okv = moveable_moved [OF ok mv]
  have cU: "c \<in> set (ws_unconstrained s)" using ok w(1) c by (auto simp: moveable_def)
  then have "w_control (ws_win v c)" using okv movedD(7) [OF mv] by (auto simp: moveable_def)
  moreover have "desks_of v w \<noteq> []" using v w movedD(7) [OF mv] by (auto simp: sticky_def)
  moreover obtain d where "desktops_for_number (\<lambda>_ d. d) c (int (dv_current (ws_desk v))) v = Returns [d]"
    using current_desktop_number [OF okv] by blast
  ultimately show "\<exists>t. sticky_step n (\<lambda>_ d. d) w c v = Returns t \<and> moved s t \<and> sticky t \<subseteq> sticky s"
    using rec [OF cU, of v d] v moved_trans [OF mv] by (auto simp: on_all_iff [OF okv] loosens_def)
qed simp

lemma many_targets:
  assumes "moveable s" and "w \<in> set (ws_unconstrained s)" and "D \<noteq> []" and "allowed_desktops s D = D" and "drank D s < n"
  shows "\<exists>t. set_desktops_depth n (\<lambda>_ d. d) w D s = Returns t \<and> loosens D s t"
  using assms
proof (induction n arbitrary: s w D)
  case (Suc n)
  show ?case
  proof (cases "desks_of s w = D")
    case True
    with Suc.prems(4) show ?thesis by (simp add: loosens_refl)
  next
    case False
    let ?s1 = "ws_set_desktops w D s" and ?rec = "\<lambda>x v. set_desktops_depth n (\<lambda>_ d. d) x D v"
    let ?G = "\<lambda>v. moved s v \<and> sticky v \<subseteq> sticky s \<and> drank D v < drank D s"
    have ctl: "w_control (ws_win s w)" using Suc.prems(1,2) by (auto simp: moveable_def)
    have m1: "moved s ?s1" by (rule moved_set_desktops)
    have st1: "sticky ?s1 = sticky s - {w}"
      using Suc.prems(3) movedD(7) [OF m1] by (auto simp: sticky_def desks_set_desktops)
    have "drank D ?s1 < drank D s"
    proof (cases "w \<in> sticky s")
      case True
      then show ?thesis using drank_sticky_less st1 movedD(7) [OF m1] by blast
    next
      case False
      then show ?thesis using away_set [of w D s] st1 movedD(7) [OF m1] \<open>desks_of s w \<noteq> D\<close> Suc.prems(2)
        by (simp add: drank_def away_def)
    qed
    then have G1: "?G ?s1" using m1 st1 by auto
    have rec: "\<exists>t. ?rec x v = Returns t \<and> ?G t" if "x \<in> set (ws_unconstrained s)" "?G v" for x v
    proof -
      have "allowed_desktops v D = D" using that(2) Suc.prems(4) movedD(6) [of s v] by (simp add: allowed_desktops_def)
      with Suc.IH [of v x D] that moveable_moved [OF Suc.prems(1)] movedD(7) [of s v] Suc.prems(3,5)
      obtain t where "?rec x v = Returns t" "loosens D v t" by auto
      with that(2) moved_trans [of s v t] show ?thesis by (auto simp: loosens_def)
    qed
    have "\<exists>t. (if (desks_of s w = []) \<noteq> (D = []) then ofold (sticky_step n (\<lambda>_ d. d) w) (w_children (ws_win ?s1 w)) ?s1
        else Returns ?s1) = Returns t \<and> ?G t"
    proof (cases "desks_of s w = []")
      case True
      then have w: "w \<in> sticky s" using Suc.prems(2) by (simp add: sticky_def)
      have det: "\<exists>t. set_desktops_depth n (\<lambda>_ d. d) x [d] v = Returns t \<and> loosens [d] v t"
        if "x \<in> set (ws_unconstrained ?s1)" "moved ?s1 v" "sticky v \<subseteq> sticky ?s1" for x v d
      proof -
        have mv: "moved s v" using m1 that(2) by (rule moved_trans)
        have "sticky v \<subset> sticky s" using that(3) st1 w by auto
        from drank_sticky_less [OF this movedD(7) [OF mv], of "[d]" D] Suc.prems(5) have "drank [d] v < n" by simp
        with Suc.IH [of v x "[d]"] moveable_moved [OF Suc.prems(1) mv] that(1) movedD(7) [OF mv] movedD(7) [OF m1] show ?thesis by simp
      qed
      have "w \<in> set (ws_unconstrained ?s1)" "desks_of ?s1 w \<noteq> []"
        using Suc.prems(2,3) movedD(7) [OF m1] by (simp_all add: desks_set_desktops)
      from detour_returns [OF moveable_moved [OF Suc.prems(1) m1] this det]
      obtain t where t: "ofold (sticky_step n (\<lambda>_ d. d) w) (w_children (ws_win ?s1 w)) ?s1 = Returns t" "moved ?s1 t" "sticky t \<subseteq> sticky ?s1" by blast
      have "moved s t" using m1 t(2) by (rule moved_trans)
      moreover from this have "drank D t < drank D s" using t(3) st1 w movedD(7) drank_sticky_less [of t s] by blast
      ultimately show ?thesis using t st1 True Suc.prems(3) by auto
    next
      case False
      with G1 Suc.prems(3) show ?thesis by simp
    qed
    then obtain s2 where s2: "(if (desks_of s w = []) \<noteq> (D = []) then ofold (sticky_step n (\<lambda>_ d. d) w) (w_children (ws_win ?s1 w)) ?s1
        else Returns ?s1) = Returns s2" "?G s2" by blast
    have kids: "set (ensureStackingOrder (ws_stacking s2) (w_children (ws_win s2 w))) \<subseteq> set (ws_unconstrained s)"
      using movedD(1) [of s s2 w] s2(2) ensureStackingOrder_set [of "w_children (ws_win s w)"] Suc.prems(1,2) by (auto simp: moveable_def)
    have "\<exists>t. ofold (\<lambda>c v. if w_annexed (ws_win v c) then Returns v else ?rec c v)
        (ensureStackingOrder (ws_stacking s2) (w_children (ws_win s2 w))) s2 = Returns t \<and> ?G t"
      by (rule ofold_returns) (use rec kids s2(2) in auto)
    then obtain s3 where s3: "ofold (\<lambda>c v. if w_annexed (ws_win v c) then Returns v else ?rec c v)
        (ensureStackingOrder (ws_stacking s2) (w_children (ws_win s2 w))) s2 = Returns s3" "?G s3" by blast
    have leads: "set (w_leads (ws_win s3 w)) \<subseteq> set (ws_unconstrained s)"
      using movedD(2) [of s s3 w] s3(2) Suc.prems(1,2) by (auto simp: moveable_def)
    have "\<exists>t. ofold ?rec (w_leads (ws_win s3 w)) s3 = Returns t \<and> ?G t"
      by (rule ofold_returns) (use rec leads s3(2) in auto)
    with s3(2) obtain s4 where s4: "(if w_modal (ws_win s3 w) then ofold ?rec (w_leads (ws_win s3 w)) s3 else Returns s3) = Returns s4" "?G s4"
      by (cases "w_modal (ws_win s3 w)") auto
    obtain t where t: "set_desktops_depth (Suc n) (\<lambda>_ d. d) w D s = Returns t" "ws_win t = ws_win s4" "moved s4 t"
      using set_desktops_run [OF Suc.prems(1,4) ctl False s2(1) s3(1) s4(1)] by blast
    with loosens_end [OF _ t(2,3), of D s] s4(2) show ?thesis by (auto simp: loosens_def)
  qed
qed simp

section \<open>The operations\<close>

lemma depth_allowed: "set_desktops_depth n chk w (allowed_desktops s ds) s = set_desktops_depth n chk w ds s"
proof -
  have "allowed_desktops s (allowed_desktops s ds) = allowed_desktops s ds" by (simp add: allowed_desktops_def)
  then show ?thesis by (cases n) simp_all
qed

lemma enough_fuel: "drank D s < desktops_fuel s" "card (away D s) < desktops_fuel s"
proof -
  have "card (sticky s) * Suc (length (ws_unconstrained s)) \<le> length (ws_unconstrained s) * Suc (length (ws_unconstrained s))"
    using away_bound(2) by (intro mult_le_mono1)
  with away_bound(1) [of D s] show "drank D s < desktops_fuel s" "card (away D s) < desktops_fuel s"
    by (simp_all add: drank_def desktops_fuel_def)
qed

text \<open>
  C13. Setting the desktops of a window always ends, whatever the family of the window looks like
  and whether or not windows have to leave all desktops, when no rule of a window interferes: the
  calls for transients and leads are never deeper than the square of the number of windows.
  Nothing of any window changes but its desktops.
\<close>

theorem set_desktops_ends:
  assumes "moveable s" and "w \<in> set (ws_unconstrained s)"
  shows "\<exists>t. set_desktops (\<lambda>_ d. d) w ds s = Returns t \<and> moved s t"
proof (cases "allowed_desktops s ds = []")
  case True
  then have "single_target [] s" using assms(1) by (simp add: single_target_def allowed_desktops_def)
  from one_target [OF this assms(2) enough_fuel(2)] True show ?thesis
    using depth_allowed [of "desktops_fuel s" "\<lambda>_ d. d" w s ds] by (auto simp: set_desktops_def toward_def)
next
  case False
  have "allowed_desktops s (allowed_desktops s ds) = allowed_desktops s ds" by (simp add: allowed_desktops_def)
  from many_targets [OF assms False this enough_fuel(1)] show ?thesis
    using depth_allowed [of "desktops_fuel s" "\<lambda>_ d. d" w s ds] by (auto simp: set_desktops_def loosens_def)
qed

definition family_ws :: workspace where
  "family_ws = demo_ws\<lparr>ws_desk := demo_desks\<lparr>dv_number := (\<lambda>a. int (a - 6))\<rparr>\<rparr>"

lemma family_moveable: "moveable family_ws"
  by (simp add: moveable_def family_ws_def demo_ws_def demo_desks_def)

theorem set_desktops_ends_witness:
  "\<exists>t. set_desktops (\<lambda>_ d. d) 1 [7, 8] family_ws = Returns t \<and> moved family_ws t"
  by (rule set_desktops_ends [OF family_moveable]) (simp add: family_ws_def demo_ws_def)



text \<open>Leaving the only desktop is the same as being on all of them.\<close>

lemma leave_only_desktop:
  assumes "desks_of s w = [d]" and "moveable s" and "w \<in> set (ws_unconstrained s)"
  shows "\<exists>t. leave_desktop (\<lambda>_ d. d) w d s = Returns t \<and> on_all_desktops (ws_desk t) (ws_win t w)"
proof -
  have "single_target [] s" using assms(2) by (simp add: single_target_def allowed_desktops_def)
  from one_target [OF this assms(3) enough_fuel(2)] obtain t where
    t: "set_desktops (\<lambda>_ d. d) w [] s = Returns t" "moved s t" "desks_of t w = []" by (auto simp: set_desktops_def toward_def)
  with assms(1) on_all_iff(1) [OF moveable_moved [OF assms(2) t(2)]] show ?thesis by (simp add: leave_desktop_def)
qed

text \<open>
  The detour matters: a window on all desktops with a modal transient that is annexed ends on the
  current desktop, whatever desktop was wanted.
\<close>

definition diverted_ws :: workspace where
  "diverted_ws = family_ws\<lparr>ws_win := demo_store(0 := (demo_store 0)\<lparr>w_desktops := []\<rparr>,
     1 := (demo_store 1)\<lparr>w_desktops := [], w_annexed := True, w_modal := True\<rparr>)\<rparr>"

lemma annexed_modal_transient_diverts:
  "obind (set_desktops (\<lambda>_ d. d) 0 [8] diverted_ws) (\<lambda>t. Returns (desks_of t 0)) = Returns [7]"
  by code_simp

end
