(* ===== verification/Activation.thy ===== *)
theory Activation
  imports Window_State Transients
begin

text \<open>
  The active window (\<^verbatim>\<open>activation.cpp\<close>, \<open>set_active\<close> of \<^verbatim>\<open>win/stacking.h\<close> and
  \<open>update_tool_windows\<close> of \<^verbatim>\<open>win/space.h\<close>): \<open>set_active\<close> and \<open>setActiveClient\<close> call each other
  so that the flag of the windows and the pointer of the workspace agree. Closing the popup or the
  menu of another window is the event \<open>ClosePopup\<close>, hiding and showing tools and disabling shortcuts
  are events too; the opacity of the window, the position of the mouse that is remembered for the focus,
  the property of the root window and the hooks of the window classes are not represented.
\<close>

section \<open>Tool windows\<close>

definition is_menu :: "window \<Rightarrow> bool" where "is_menu w \<longleftrightarrow> w_type w = NET_Menu"

text \<open>The top of the transiency hierarchy of the active window, or the group of a group transient.\<close>

partial_function (option) tool_top :: "wstore \<Rightarrow> addr option \<Rightarrow> (addr option \<times> addr option) option" where
  "tool_top W w =
     (case w of None \<Rightarrow> Some (None, None)
      | Some a \<Rightarrow>
          if \<not> is_transient (W a) then Some (Some a, None)
          else if w_groupTransient (W a) then Some (Some a, w_group (W a))
          else tool_top W (transient_lead (W a)))"

definition show_tool :: "workspace \<Rightarrow> addr option \<Rightarrow> addr option \<Rightarrow> addr \<Rightarrow> bool outcome" where
  "show_tool s active grp a =
     (let W = ws_win s; win = W a in
      if is_transient win
      then obind (case active of None \<Rightarrow> Returns False
                  | Some b \<Rightarrow> (case transient_is_follower_of W a b of None \<Rightarrow> Diverges | Some r \<Rightarrow> Returns r))
             (\<lambda>has_active_lead. Returns (grp \<noteq> None \<and> w_group win = grp \<or> has_active_lead))
      else Returns (w_group win = None \<or> (case w_group win of None \<Rightarrow> False | Some g \<Rightarrow> length (ws_members s g) = 1) \<or>
        (case active of None \<Rightarrow> False | Some b \<Rightarrow> w_group (W b) = w_group win)))"

text \<open>Which tool windows are to be shown and which to be hidden, in stacking order.\<close>

fun sort_tools :: "workspace \<Rightarrow> addr option \<Rightarrow> addr option \<Rightarrow> bool \<Rightarrow> addr list \<Rightarrow> (addr list \<times> addr list) outcome" where
  "sort_tools s active grp also_hide [] = Returns ([], [])"
| "sort_tools s active grp also_hide (a # as) =
     (let win = ws_win s a in
      if \<not> w_control win \<or> \<not> (is_utility win \<or> is_menu win \<or> is_toolbar win)
      then sort_tools s active grp also_hide as
      else obind (show_tool s active grp a) (\<lambda>sh.
        let alone = (w_leads win = [] \<or> (\<exists>l \<in> set (w_leads win). is_special_window (ws_win s l)));
            show' = (sh \<or> also_hide \<and> alone);
            hide = (\<not> sh \<and> also_hide \<and> \<not> alone)
        in obind (sort_tools s active grp also_hide as) (\<lambda>(shows', hides).
          Returns (if show' then a # shows' else shows', if hide then a # hides else hides))))"

definition emit_all :: "ws_event list \<Rightarrow> workspace \<Rightarrow> workspace" where
  "emit_all es s = s\<lparr>ws_log := ws_log s @ es\<rparr>"

text \<open>\<open>hide_utility\<close> is the option \<open>isHideUtilityWindowsForInactive\<close>.\<close>

definition update_tool_windows :: "bool \<Rightarrow> bool \<Rightarrow> workspace \<Rightarrow> workspace outcome" where
  "update_tool_windows hide_utility also_hide s =
     (if \<not> hide_utility then Returns (emit_all (map (\<lambda>a. HideClient a False) (ws_allClients s)) s)
      else (case tool_top (ws_win s) (ws_active s) of
          None \<Rightarrow> Diverges
        | Some (active, grp) \<Rightarrow>
            obind (sort_tools s active grp also_hide (ws_stacking s)) (\<lambda>(shows', hides).
              let s1 = emit_all (map (\<lambda>a. HideClient a False) (rev shows')) s in
              Returns (if also_hide
                then ws_emit (ToolWindowsTimer False) (emit_all (map (\<lambda>a. HideClient a True) hides) s1)
                else ws_emit (ToolWindowsTimer True) s1))))"

section \<open>The active window\<close>

record act_env =
  ae_hideUtility :: bool
  ae_otherPopup :: "addr option \<Rightarrow> bool"
  ae_checkDisableShortcuts :: "addr \<Rightarrow> bool"

text \<open>
  Leads of the window that are full screen may get another layer when it is (in)active.
\<close>

definition update_lead_layer :: "addr \<Rightarrow> workspace \<Rightarrow> workspace outcome" where
  "update_lead_layer l s =
     (if w_remnant (ws_win s l) \<noteq> None then Returns s
      else if \<not> w_control (ws_win s l) then Faults NullDeref
      else if w_fullscreen (ws_win s l) then updateClientLayer (Some l) s else Returns s)"

text \<open>A window that is no longer above the others, on the screen of the new active window.\<close>

definition update_rival_layer :: "addr \<Rightarrow> addr \<Rightarrow> workspace \<Rightarrow> workspace outcome" where
  "update_rival_layer w a s =
     (if a = w then Returns s
      else obind (ws_layer a s) (\<lambda>r.
        if fst r = LActive \<and> w_screen (ws_win (snd r) a) = w_screen (ws_win (snd r) w)
        then updateClientLayer (Some a) (snd r) else Returns (snd r)))"

text \<open>The part of \<open>setActiveClient\<close> for a window that is not null.\<close>

definition activated :: "addr \<Rightarrow> workspace \<Rightarrow> workspace outcome" where
  "activated w s =
     (let s1 = s\<lparr>ws_lastActive := Some w, ws_focus := fc_update (ws_desk s) (ws_win s) w MakeFirst (ws_focus s)\<rparr> in
      obind (set_demands_attention w False s1) (\<lambda>s2.
        if ws_screenCount s2 > 1 then ofold (update_rival_layer w) (ws_allClients s2) s2 else Returns s2))"

text \<open>
  The two functions call each other; the number bounds the depth. \<open>outer\<close> says that the recursion
  counter of the workspace is zero.
\<close>

fun set_active_depth :: "nat \<Rightarrow> act_env \<Rightarrow> bool \<Rightarrow> addr \<Rightarrow> bool \<Rightarrow> workspace \<Rightarrow> workspace outcome"
  and setActiveClient_depth :: "nat \<Rightarrow> act_env \<Rightarrow> bool \<Rightarrow> addr option \<Rightarrow> workspace \<Rightarrow> workspace outcome" where
  "set_active_depth 0 E outer w act s = Diverges"
| "set_active_depth (Suc n) E outer w act s =
     (if \<not> w_control (ws_win s w) then Faults NullDeref
      else if w_active (ws_win s w) = act then Returns s
      else
        obind (setActiveClient_depth n E outer (if act then Some w else None) (ws_upd w (\<lambda>x. x\<lparr>w_active := act\<rparr>) s)) (\<lambda>s1.
        with_blocker (\<lambda>v.
          obind (updateClientLayer (Some w) v) (\<lambda>v1.
          obind (ofold update_lead_layer (w_leads (ws_win v1 w)) v1) (\<lambda>v2.
          Returns (ws_emit (UpdateMouseGrab w) (ws_emit (ActiveChanged w) v2)))))
          (if act then s1 else cancel_auto_raise w s1)))"
| "setActiveClient_depth 0 E outer win s = Diverges"
| "setActiveClient_depth (Suc n) E outer win s =
     (if ws_active s = win then Returns s
      else
        with_blocker (\<lambda>v.
          obind (case ws_active v of None \<Rightarrow> Returns v | Some a \<Rightarrow> set_active_depth n E False a False v) (\<lambda>v0.
          let v1 = v0\<lparr>ws_active := win\<rparr> in
          oassert (case win of None \<Rightarrow> True | Some w \<Rightarrow> w_control (ws_win v1 w) \<and> w_active (ws_win v1 w))
            (obind (case win of None \<Rightarrow> Returns v1 | Some w \<Rightarrow> activated w v1) (\<lambda>v2.
             obind (update_tool_windows (ae_hideUtility E) False v2) (\<lambda>v3.
             let v4 = ws_emit (DisableShortcuts (case win of None \<Rightarrow> False | Some w \<Rightarrow> ae_checkDisableShortcuts E w)) v3 in
             obind (updateStackingOrder False v4) (\<lambda>v5. Returns (ws_emit (ClientActivated win) v5)))))))
          (if outer \<and> ae_otherPopup E win then ws_emit ClosePopup s else s))"

definition set_active :: "act_env \<Rightarrow> addr \<Rightarrow> bool \<Rightarrow> workspace \<Rightarrow> workspace outcome" where
  "set_active E = set_active_depth 5 E True"

definition setActiveClient :: "act_env \<Rightarrow> addr option \<Rightarrow> workspace \<Rightarrow> workspace outcome" where
  "setActiveClient E = setActiveClient_depth 5 E True"

section \<open>Who is next\<close>

definition clientUnderMouse :: "rect list \<Rightarrow> point \<Rightarrow> workspace \<Rightarrow> int \<Rightarrow> addr option" where
  "clientUnderMouse outs cursor s screen =
     find (\<lambda>a. let w = ws_win s a in
         w_control w \<and> w_shown w \<and> on_current_desktop (ws_desk s) w \<and> w_onCurrentActivity w \<and> on_screen outs w screen \<and>
         rcontains_point (w_frameGeometry w) cursor)
       (rev (ws_stacking s))"

text \<open>
  What \<open>activateNextClient\<close> is told from outside: the screens, the cursor, the current screen, the
  options \<open>isNextFocusPrefersMouse\<close> and \<open>focusPolicyIsReasonable\<close>, and \<open>focusChangeEnabled\<close>.
\<close>

record next_env =
  ne_outputs :: "rect list"
  ne_cursor :: point
  ne_screen :: int
  ne_prefersMouse :: bool
  ne_reasonable :: bool
  ne_focusChange :: bool

definition next_under_mouse :: "next_env \<Rightarrow> addr option \<Rightarrow> workspace \<Rightarrow> addr option" where
  "next_under_mouse E w s =
     (if \<not> ne_prefersMouse E then None
      else (case clientUnderMouse (ne_outputs E) (ne_cursor E) s (case w of None \<Rightarrow> ne_screen E | Some a \<Rightarrow> w_screen (ws_win s a)) of
          None \<Rightarrow> None
        | Some m \<Rightarrow> if w = Some m \<or> is_desktop (ws_win s m) then None else Some m))"

definition next_lead :: "next_env \<Rightarrow> addr option \<Rightarrow> workspace \<Rightarrow> addr option" where
  "next_lead E w s =
     (case w of None \<Rightarrow> None
      | Some a \<Rightarrow>
          (case w_leads (ws_win s a) of
             [l] \<Rightarrow> if fc_isUsableFocusCandidate (ne_outputs E) (ne_screen E) (ws_desk s) (ws_win s) (ws_focus s) l w
                    then Some l else None
           | _ \<Rightarrow> None))"

text \<open>Who gets the focus, and whether that is the lead, which is raised as well.\<close>

definition next_focus :: "next_env \<Rightarrow> addr option \<Rightarrow> workspace \<Rightarrow> addr option \<times> bool" where
  "next_focus E w s =
     (let d = dv_current (ws_desk s);
          desk = (if ws_showingDesktop s then findDesktop s True d else None);
          mouse = next_under_mouse E w s;
          lead = next_lead E w s;
          chain = fc_nextForDesktop (ne_outputs E) (ne_screen E) (ws_desk s) (ws_win s) (ws_focus s) w d
      in if desk \<noteq> None then (desk, False)
         else if mouse \<noteq> None then (mouse, False)
         else if lead \<noteq> None then (lead, True)
         else if chain \<noteq> None then (chain, False)
         else (findDesktop s True d, False))"

text \<open>
  \<open>activateNextClient\<close> up to its last call: the result is what it returns, the window it then
  requests the focus for, and the state.
\<close>

definition activateNextClient ::
  "act_env \<Rightarrow> next_env \<Rightarrow> addr option \<Rightarrow> workspace \<Rightarrow> (bool \<times> addr option \<times> workspace) outcome" where
  "activateNextClient A E w s =
     (if \<not> (w = ws_active s \<or> ws_shouldGetFocus s \<noteq> [] \<and> w = Some (last (ws_shouldGetFocus s)))
      then Returns (False, None, s)
      else
        let s1 = ws_emit ClosePopup s in
        obind (case w of None \<Rightarrow> Returns s1
               | Some a \<Rightarrow> obind (if w = ws_active s1 then setActiveClient A None s1 else Returns s1)
                   (\<lambda>v. Returns (v\<lparr>ws_shouldGetFocus := removeAll a (ws_shouldGetFocus v)\<rparr>))) (\<lambda>s2.
        if \<not> ne_focusChange E then Returns (True, None, ws_emit FocusToNull s2)
        else if \<not> ne_reasonable E then Returns (False, None, s2)
        else
          let target = fst (next_focus E w s2) in
          obind (if snd (next_focus E w s2) then raise_window target s2 else Returns s2) (\<lambda>s3.
            Returns (True, target, if target = None then ws_emit FocusToNull s3 else s3))))"

end
