(* ===== verification/Activation_Properties.thy ===== *)
theory Activation_Properties
  imports Activation Transients_Properties
begin

text \<open>
  The flag of the active window and the pointer of the workspace agree after every activation, and
  the choice of the window that gets the focus next.
\<close>

section \<open>What an activation may change\<close>

definition core :: "window \<Rightarrow> window" where
  "core x = x\<lparr>w_layer := LUnknown, w_demands_attention := False, w_active := False\<rparr>"

definition steady :: "workspace \<Rightarrow> workspace \<Rightarrow> bool" where
  "steady s t \<longleftrightarrow> (\<forall>a. core (ws_win t a) = core (ws_win s a)) \<and> ws_unconstrained t = ws_unconstrained s \<and>
     ws_block t = ws_block s \<and> ws_members t = ws_members s \<and> ws_screenCount t = ws_screenCount s \<and> ws_allClients t = ws_allClients s"

text \<open>What matters of an activation: the windows with the flag, the pointers, who demands attention.\<close>

definition activity :: "workspace \<Rightarrow> addr set \<times> addr option \<times> addr option \<times> addr set" where
  "activity s = ({a. w_active (ws_win s a)}, ws_active s, ws_lastActive s, {a. w_demands_attention (ws_win s a)})"

lemma steady_refl [simp]: "steady s s"
  by (simp add: steady_def)

lemma steady_trans: "steady s t \<Longrightarrow> steady t u \<Longrightarrow> steady s u"
  by (simp add: steady_def)

lemma coreD:
  assumes "core x = core y"
  shows "w_leads x = w_leads y" "w_children x = w_children y" "w_control x = w_control y" "w_screen x = w_screen y"
    "w_remnant x = w_remnant y"
  using arg_cong [OF assms, of w_leads] arg_cong [OF assms, of w_children] arg_cong [OF assms, of w_control]
    arg_cong [OF assms, of w_screen] arg_cong [OF assms, of w_remnant] by (simp_all add: core_def)

lemma steadyD:
  assumes "steady s t"
  shows "w_leads (ws_win t a) = w_leads (ws_win s a)" "w_children (ws_win t a) = w_children (ws_win s a)"
    "w_control (ws_win t a) = w_control (ws_win s a)" "w_screen (ws_win t a) = w_screen (ws_win s a)"
    "ws_unconstrained t = ws_unconstrained s" "ws_block t = ws_block s" "ws_screenCount t = ws_screenCount s"
    "ws_allClients t = ws_allClients s" "ws_members t = ws_members s"
  using assms coreD [of "ws_win t a" "ws_win s a"] by (simp_all add: steady_def)

lemma steady_ok:
  assumes "ws_ok rk N s" and "steady s t"
  shows "ws_ok rk N t"
  using assms(1) unfolding ws_ok_def windows_ok_def transients_ok_def leads_ranked_def by (simp add: steadyD [OF assms(2)])

lemma relayered_steady:
  assumes "relayered s t"
  shows "steady s t" "activity t = activity s"
proof -
  have w: "(ws_win t a)\<lparr>w_layer := LUnknown\<rparr> = (ws_win s a)\<lparr>w_layer := LUnknown\<rparr>" for a
    using assms by (simp add: relayered_def same_windows_def)
  from assms have "ws_frame t = ws_frame s" by (simp add: relayered_def)
  moreover have "core (ws_win t a) = core (ws_win s a)" for a
    using arg_cong [OF w [of a], of "\<lambda>x. x\<lparr>w_demands_attention := False, w_active := False\<rparr>"] by (simp add: core_def)
  moreover have "w_active (ws_win t a) = w_active (ws_win s a)" "w_demands_attention (ws_win t a) = w_demands_attention (ws_win s a)" for a
    using arg_cong [OF w [of a], of w_active] arg_cong [OF w [of a], of w_demands_attention] by simp_all
  ultimately show "steady s t" "activity t = activity s" by (simp_all add: steady_def activity_def ws_frame_def)
qed

lemma emit_steady [simp]:
  "steady s (ws_emit e t) = steady s t" "activity (ws_emit e t) = activity t"
  "steady (ws_emit e s) t = steady s t" "steady s (emit_all es t) = steady s t" "activity (emit_all es t) = activity t"
  by (simp_all add: steady_def activity_def ws_emit_def emit_all_def)

lemma ws_active_emit: "ws_active (ws_emit e s) = ws_active s"
  by (simp add: ws_emit_def)

lemma with_blocker_steady:
  assumes ok: "ws_ok rk N s" and body: "body (blocked s) = Returns u" "steady (blocked s) u"
  shows "\<exists>t. with_blocker body s = Returns t \<and> steady s t \<and> activity t = activity u"
proof -
  let ?v = "u\<lparr>ws_block := ws_block u - 1\<rparr>"
  have v: "steady s ?v" "activity ?v = activity u"
    using body(2) by (auto simp: steady_def activity_def blocked_def split: if_splits)
  have blk: "blockStackingUpdates True s = Returns (blocked s)" by (simp add: blockStackingUpdates_def blocked_def)
  have "\<exists>t. blockStackingUpdates False u = Returns t \<and> steady s t \<and> activity t = activity u"
  proof (cases "ws_block ?v = 0")
    case True
    obtain t where t: "updateStackingOrder (ws_blockedNew ?v) ?v = Returns t" "ws_frame t = ws_frame ?v" "same_windows (ws_win ?v) (ws_win t)"
      by (rule updateStackingOrder_returns [OF steady_ok [OF ok v(1)]])
    have "relayered ?v t" using t(2,3) by (simp add: relayered_def)
    from relayered_steady [OF this] v steady_trans [OF v(1)] have "steady s t" "activity t = activity u" by simp_all
    with True t(1) show ?thesis by (auto simp: blockStackingUpdates_def Let_def)
  next
    case False
    with v show ?thesis by (auto simp: blockStackingUpdates_def Let_def)
  qed
  with blk body(1) show ?thesis by (auto simp: with_blocker_def)
qed

section \<open>The parts of an activation\<close>

lemma updateClientLayer_steady:
  assumes "ws_ok rk N s" and "w \<in> set (ws_unconstrained s)"
  shows "\<exists>t. updateClientLayer (Some w) s = Returns t \<and> steady s t \<and> activity t = activity s"
  using update_layer_returns [OF assms] relayered_steady by (auto simp: updateClientLayer_def)

lemma tool_top_returns:
  assumes "leads_ranked rk W"
  shows "tool_top W w \<noteq> None"
proof (cases w)
  case None
  then show ?thesis by (simp add: tool_top.simps)
next
  case (Some a)
  have "tool_top W (Some a) \<noteq> None"
  proof (induction "rk a" arbitrary: a rule: less_induct)
    case less
    show ?case
    proof (cases "transient_lead (W a)")
      case None
      then show ?thesis by (simp add: tool_top.simps is_transient_def)
    next
      case (Some l)
      then have "rk l < rk a" using assms transient_lead_mem by (auto simp: leads_ranked_def)
      from less.hyps [OF this] Some show ?thesis by (subst tool_top.simps) simp
    qed
  qed
  with Some show ?thesis by simp
qed

lemma show_tool_returns:
  assumes "transients_ok (ws_win s)" and "leads_ranked rk (ws_win s)"
  shows "\<exists>b. show_tool s active grp a = Returns b"
proof -
  have up: "\<forall>m \<in> set (w_leads (ws_win s a)). rk m < rk a" using assms(2) by (auto simp: leads_ranked_def)
  have "\<exists>y. transient_is_follower_of (ws_win s) a b = Some y" for b
    unfolding transient_is_follower_of_def follower_loop_spec [OF assms up] if_distrib [of Some, symmetric] by blast
  then obtain F where "transient_is_follower_of (ws_win s) a b = Some (F b)" for b by metis
  then show ?thesis by (auto simp: show_tool_def Let_def split: option.splits)
qed

lemma sort_tools_returns:
  assumes "transients_ok (ws_win s)" and "leads_ranked rk (ws_win s)"
  shows "\<exists>r. sort_tools s active grp also_hide as = Returns r"
proof (induction as)
  case (Cons a as)
  then obtain sh hi where "sort_tools s active grp also_hide as = Returns (sh, hi)" by auto
  with show_tool_returns [OF assms, of active grp a] show ?case by (auto simp: Let_def)
qed simp

lemma tool_windows_steady:
  assumes "ws_ok rk N s"
  shows "\<exists>t. update_tool_windows hide also_hide s = Returns t \<and> steady s t \<and> activity t = activity s"
proof -
  have ok: "transients_ok (ws_win s)" "leads_ranked rk (ws_win s)" using assms by (auto simp: ws_ok_def windows_ok_def)
  obtain ac grp where "tool_top (ws_win s) (ws_active s) = Some (ac, grp)" using tool_top_returns [OF ok(2)] by fastforce
  moreover obtain sh hi where "sort_tools s ac grp also_hide (ws_stacking s) = Returns (sh, hi)"
    using sort_tools_returns [OF ok] by (metis surj_pair)
  ultimately show ?thesis by (simp add: update_tool_windows_def Let_def)
qed

lemma attention_steady:
  assumes "w_control (ws_win s w)"
  shows "\<exists>t. set_demands_attention w False s = Returns t \<and> steady s t \<and>
    activity t = (fst (activity s), ws_active s, ws_lastActive s, {a. w_demands_attention (ws_win s a)} - {w})"
  using assms
  by (auto simp: set_demands_attention_def clientAttentionChanged_def steady_def activity_def core_def ws_emit_def ws_upd_def Let_def)

lemma leads_steady:
  assumes "ws_ok rk N s" and "set ls \<subseteq> set (ws_unconstrained s)"
  shows "\<exists>t. ofold update_lead_layer ls s = Returns t \<and> steady s t \<and> activity t = activity s"
proof (rule ofold_returns)
  fix l v
  assume l: "l \<in> set ls" and v: "steady s v \<and> activity v = activity s"
  note okv = steady_ok [OF assms(1)]
  have "l \<in> set (ws_unconstrained v)" "ws_ok rk N v" using l v assms(2) okv steadyD(5) [of s v] by auto
  from updateClientLayer_steady [OF this(2,1)] ws_ok_control [OF this(2,1)]
  show "\<exists>t. update_lead_layer l v = Returns t \<and> steady s t \<and> activity t = activity s"
    using v steady_trans [of s v] by (auto simp: update_lead_layer_def)
qed simp

lemma rivals_steady:
  assumes "ws_ok rk N s" and "set as \<subseteq> set (ws_unconstrained s)"
  shows "\<exists>t. ofold (update_rival_layer w) as s = Returns t \<and> steady s t \<and> activity t = activity s"
proof (rule ofold_returns)
  fix a v
  assume a: "a \<in> set as" and v: "steady s v \<and> activity v = activity s"
  have av: "a \<in> set (ws_unconstrained v)" "ws_ok rk N v" using a v assms steady_ok steadyD(5) [of s v] by auto
  then obtain l W' where l: "ws_layer a v = Returns (l, v\<lparr>ws_win := W'\<rparr>)" "same_windows (ws_win v) W'"
    using ws_layer_returns [of rk N "ws_screenCount v" "ws_members v" v "ws_unconstrained v" a] by (auto simp: ws_ok_def)
  let ?v = "v\<lparr>ws_win := W'\<rparr>"
  have r: "relayered v ?v" using l(2) by (simp add: relayered_def)
  obtain t where "updateClientLayer (Some a) ?v = Returns t" "steady ?v t" "activity t = activity ?v"
    using updateClientLayer_steady [OF relayered_ok [OF av(2) r], of a] av(1) by auto
  with l(1) v relayered_steady [OF r] steady_trans show "\<exists>t. update_rival_layer w a v = Returns t \<and> steady s t \<and> activity t = activity s"
    by (auto simp: update_rival_layer_def)
qed simp

section \<open>Activating\<close>

definition activatable :: "(addr \<Rightarrow> nat) \<Rightarrow> nat \<Rightarrow> workspace \<Rightarrow> bool" where
  "activatable rk N s \<longleftrightarrow> ws_ok rk N s \<and> set (ws_allClients s) \<subseteq> set (ws_unconstrained s)"

lemma activatable_steady: "activatable rk N s \<Longrightarrow> steady s t \<Longrightarrow> activatable rk N t"
  using steady_ok steadyD(5,8) [of s t] by (auto simp: activatable_def)

lemma blocked_clients [simp]: "ws_allClients (blocked s) = ws_allClients s"
  by (simp add: blocked_def)

lemma blocked_emit [simp]: "blocked (ws_emit e s) = ws_emit e (blocked s)"
  by (simp add: blocked_def ws_emit_def)

lemma activatable_blocked: "activatable rk N s \<Longrightarrow> activatable rk N (blocked s)"
  by (simp add: activatable_def)

lemma activity_blocked [simp]: "activity (blocked s) = activity s" "ws_active (blocked s) = ws_active s"
  by (simp_all add: activity_def blocked_def)

fun now_active :: "addr option \<Rightarrow> addr set \<times> addr option \<times> addr option \<times> addr set \<Rightarrow> addr set \<times> addr option \<times> addr option \<times> addr set" where
  "now_active None (A, p, l, D) = (A, None, l, D)"
| "now_active (Some w) (A, p, l, D) = (A, Some w, Some w, D - {w})"

lemma activated_steady:
  assumes "activatable rk N s" and "w \<in> set (ws_unconstrained s)" and "ws_active s = Some w"
  shows "\<exists>t. activated w s = Returns t \<and> steady s t \<and> activity t = now_active (Some w) (activity s)"
proof -
  let ?s1 = "s\<lparr>ws_lastActive := Some w, ws_focus := fc_update (ws_desk s) (ws_win s) w MakeFirst (ws_focus s)\<rparr>"
  have s1: "steady s ?s1" by (simp add: steady_def)
  have "w_control (ws_win ?s1 w)" using assms(1,2) ws_ok_control by (auto simp: activatable_def)
  from attention_steady [OF this] obtain s2 where s2: "set_demands_attention w False ?s1 = Returns s2" "steady ?s1 s2"
    "activity s2 = now_active (Some w) (activity s)" using assms(3) by (auto simp: activity_def)
  have t2: "steady s s2" using s1 s2(2) by (rule steady_trans)
  note ok2 = activatable_steady [OF assms(1) t2]
  obtain s3 where "ofold (update_rival_layer w) (ws_allClients s2) s2 = Returns s3" "steady s2 s3" "activity s3 = activity s2"
    using rivals_steady [of rk N s2 "ws_allClients s2" w] ok2 by (auto simp: activatable_def)
  with s2 t2 steady_trans [OF t2] show ?thesis by (auto simp: activated_def)
qed

lemma setActiveClient_round:
  assumes ok: "activatable rk N s" and win: "set_option win \<subseteq> set (ws_unconstrained s)" and "ws_active s \<noteq> win"
    and nested: "(case ws_active s of None \<Rightarrow> Returns (blocked s') | Some a \<Rightarrow> set_active_depth n E False a False (blocked s')) = Returns v0"
      "steady (blocked s) v0" "\<forall>w \<in> set_option win. w_active (ws_win v0 w)"
    and s': "s' = (if outer \<and> ae_otherPopup E win then ws_emit ClosePopup s else s)"
  shows "\<exists>t. setActiveClient_depth (Suc n) E outer win s = Returns t \<and> steady s t \<and> activity t = now_active win (activity v0)"
proof -
  have s: "steady s s'" "activity s' = activity s" "ws_active s' = ws_active s" "activatable rk N s'"
    using s' activatable_steady [OF ok] by (auto simp: ws_active_emit)
  let ?v1 = "v0\<lparr>ws_active := win\<rparr>"
  have v1: "steady v0 ?v1" by (simp add: steady_def)
  have b1: "steady (blocked s) ?v1" using nested(2) v1 by (rule steady_trans)
  note ok1 = activatable_steady [OF activatable_blocked [OF ok] b1]
  have "\<exists>t. (case win of None \<Rightarrow> Returns ?v1 | Some w \<Rightarrow> activated w ?v1) = Returns t \<and> steady ?v1 t \<and>
      activity t = now_active win (activity v0)"
  proof (cases win)
    case None
    then show ?thesis by (simp add: activity_def)
  next
    case (Some w)
    with win steadyD(5) [OF b1] have "w \<in> set (ws_unconstrained ?v1)" by simp
    from activated_steady [OF ok1 this] Some show ?thesis by (auto simp: activity_def)
  qed
  then obtain v2 where v2: "(case win of None \<Rightarrow> Returns ?v1 | Some w \<Rightarrow> activated w ?v1) = Returns v2" "steady ?v1 v2"
      "activity v2 = now_active win (activity v0)" by blast
  note ok2 = activatable_steady [OF ok1 v2(2)]
  obtain v3 where v3: "update_tool_windows (ae_hideUtility E) False v2 = Returns v3" "steady v2 v3" "activity v3 = activity v2"
    using tool_windows_steady [of rk N v2 "ae_hideUtility E" False] ok2 by (auto simp: activatable_def)
  let ?v4 = "ws_emit (DisableShortcuts (case win of None \<Rightarrow> False | Some w \<Rightarrow> ae_checkDisableShortcuts E w)) v3"
  have ok4: "ws_ok rk N ?v4" using activatable_steady [OF ok2 v3(2)] by (simp add: activatable_def)
  obtain v5 where v5: "updateStackingOrder False ?v4 = Returns v5" "relayered ?v4 v5"
    by (rule updateStackingOrder_returns [OF ok4, of False]) (simp add: relayered_def)
  have body: "steady (blocked s') v5" "activity v5 = now_active win (activity v0)"
    using relayered_steady [OF v5(2)] v3 v2 b1 s(1) steady_trans [of "blocked s" ?v1 v2] steady_trans [of "blocked s" v2 v3] steady_trans [of "blocked s" v3 v5]
    by (auto simp: s')
  have "w_control (ws_win ?v1 w) \<and> w_active (ws_win ?v1 w)" if "win = Some w" for w
    using ok1 win that nested(3) ws_ok_control [of rk N ?v1 w] steadyD(5) [OF b1] by (auto simp: activatable_def)
  then have asrt: "(case win of None \<Rightarrow> True | Some w \<Rightarrow> w_control (ws_win ?v1 w) \<and> w_active (ws_win ?v1 w))"
    by (simp split: option.splits)
  let ?body = "\<lambda>v. obind (case ws_active v of None \<Rightarrow> Returns v | Some a \<Rightarrow> set_active_depth n E False a False v) (\<lambda>v0.
          let v1 = v0\<lparr>ws_active := win\<rparr> in
          oassert (case win of None \<Rightarrow> True | Some w \<Rightarrow> w_control (ws_win v1 w) \<and> w_active (ws_win v1 w))
            (obind (case win of None \<Rightarrow> Returns v1 | Some w \<Rightarrow> activated w v1) (\<lambda>v2.
             obind (update_tool_windows (ae_hideUtility E) False v2) (\<lambda>v3.
             let v4 = ws_emit (DisableShortcuts (case win of None \<Rightarrow> False | Some w \<Rightarrow> ae_checkDisableShortcuts E w)) v3 in
             obind (updateStackingOrder False v4) (\<lambda>v5. Returns (ws_emit (ClientActivated win) v5))))))"
  have "?body (blocked s') = Returns (ws_emit (ClientActivated win) v5)"
    unfolding Let_def activity_blocked s(3) nested(1) obind.simps using asrt v2(1) v3(1) v5(1) by simp
  from with_blocker_steady [of rk N s' ?body, OF _ this] s(4) body obtain t where
    "with_blocker ?body s' = Returns t" "steady s' t" "activity t = now_active win (activity v0)" by (auto simp: activatable_def)
  with steady_trans [OF s(1)] assms(3) s' show ?thesis by auto
qed

lemma set_active_round:
  assumes ok: "activatable rk N s" and w: "w \<in> set (ws_unconstrained s)" and "w_active (ws_win s w) \<noteq> act"
    and inner: "setActiveClient_depth n E outer (if act then Some w else None) (ws_upd w (\<lambda>x. x\<lparr>w_active := act\<rparr>) s) = Returns s1"
      "steady (ws_upd w (\<lambda>x. x\<lparr>w_active := act\<rparr>) s) s1"
  shows "\<exists>t. set_active_depth (Suc n) E outer w act s = Returns t \<and> steady s t \<and> activity t = activity s1"
proof -
  have s1: "steady s s1" using steady_trans [OF _ inner(2)] by (simp add: steady_def core_def ws_upd_def)
  define u where "u = (if act then s1 else cancel_auto_raise w s1)"
  have u: "steady s u" "activity u = activity s1"
    using s1 by (auto simp: u_def cancel_auto_raise_def steady_def activity_def ws_emit_def)
  note oku = activatable_steady [OF ok u(1)]
  have ctrl: "w_control (ws_win s w)" using ok w ws_ok_control by (auto simp: activatable_def)
  let ?body = "\<lambda>v. obind (updateClientLayer (Some w) v) (\<lambda>v1.
          obind (ofold update_lead_layer (w_leads (ws_win v1 w)) v1) (\<lambda>v2.
          Returns (ws_emit (UpdateMouseGrab w) (ws_emit (ActiveChanged w) v2))))"
  have okb: "ws_ok rk N (blocked u)" "w \<in> set (ws_unconstrained (blocked u))"
    using activatable_blocked [OF oku] w steadyD(5) [OF u(1)] by (simp_all add: activatable_def)
  obtain v1 where v1: "updateClientLayer (Some w) (blocked u) = Returns v1" "steady (blocked u) v1" "activity v1 = activity u"
    using updateClientLayer_steady [OF okb] by auto
  have "set (w_leads (ws_win v1 w)) \<subseteq> set (ws_unconstrained v1)"
    using steady_ok [OF okb(1) v1(2)] okb(2) steadyD(5) [OF v1(2)] by (auto simp: ws_ok_def windows_ok_def)
  from leads_steady [OF steady_ok [OF okb(1) v1(2)] this] obtain v2 where
    v2: "ofold update_lead_layer (w_leads (ws_win v1 w)) v1 = Returns v2" "steady v1 v2" "activity v2 = activity v1" by blast
  let ?v3 = "ws_emit (UpdateMouseGrab w) (ws_emit (ActiveChanged w) v2)"
  have "?body (blocked u) = Returns ?v3" "steady (blocked u) ?v3" "activity ?v3 = activity s1"
    using v1 v2 u(2) steady_trans [OF v1(2) v2(2)] by simp_all
  with with_blocker_steady [of rk N u ?body ?v3] oku obtain t where
    "with_blocker ?body u = Returns t" "steady u t" "activity t = activity s1" by (auto simp: activatable_def)
  with inner(1) assms(3) ctrl steady_trans [OF u(1)] show ?thesis by (auto simp: u_def)
qed

section \<open>The flag and the pointer agree\<close>

text \<open>The innermost call: the window is inactive, only the pointer still names it.\<close>

lemma setActiveClient_clears:
  assumes ok: "activatable rk N s" and o: "ws_active s = Some o1" "o1 \<in> set (ws_unconstrained s)" "\<not> w_active (ws_win s o1)"
  shows "\<exists>t. setActiveClient_depth (Suc (Suc n)) E outer None s = Returns t \<and> steady s t \<and> activity t = now_active None (activity s)"
proof -
  let ?s' = "if outer \<and> ae_otherPopup E None then ws_emit ClosePopup s else s"
  have c: "w_control (ws_win s o1)" using ok o(2) ws_ok_control by (auto simp: activatable_def)
  have e: "ws_win (blocked ?s') = ws_win s" "steady (blocked s) (blocked ?s')" "activity (blocked ?s') = activity s"
    by (auto simp: blocked_def ws_emit_def steady_def activity_def)
  have "(case ws_active s of None \<Rightarrow> Returns (blocked ?s') | Some a \<Rightarrow> set_active_depth (Suc n) E False a False (blocked ?s'))
      = Returns (blocked ?s')" using o c e(1) by simp
  from setActiveClient_round [OF ok _ _ this e(2) _ refl] o(1) e(3) show ?thesis by simp
qed

lemma set_active_off:
  assumes ok: "activatable rk N s" and o: "ws_active s = Some o1" "o1 \<in> set (ws_unconstrained s)" "w_active (ws_win s o1)"
  shows "\<exists>t. set_active_depth (Suc (Suc (Suc n))) E outer o1 False s = Returns t \<and> steady s t \<and>
    activity t = ({a. w_active (ws_win s a)} - {o1}, None, ws_lastActive s, {a. w_demands_attention (ws_win s a)})"
proof -
  let ?u = "ws_upd o1 (\<lambda>x. x\<lparr>w_active := False\<rparr>) s"
  have u: "steady s ?u" by (simp add: steady_def core_def ws_upd_def)
  have "ws_active ?u = Some o1" "o1 \<in> set (ws_unconstrained ?u)" "\<not> w_active (ws_win ?u o1)" using o by (simp_all add: ws_upd_def)
  from setActiveClient_clears [OF activatable_steady [OF ok u] this] obtain s1 where
    s1: "setActiveClient_depth (Suc (Suc n)) E outer None ?u = Returns s1" "steady ?u s1" "activity s1 = now_active None (activity ?u)" by blast
  have "activity ?u = ({a. w_active (ws_win s a)} - {o1}, ws_active s, ws_lastActive s, {a. w_demands_attention (ws_win s a)})"
    by (auto simp: activity_def ws_upd_def)
  with s1 set_active_round [OF ok o(2), of False "Suc (Suc n)" E outer s1] o(3) show ?thesis by auto
qed

lemma setActiveClient_moves:
  assumes ok: "activatable rk N s" and w: "\<forall>w \<in> set_option win. w \<in> set (ws_unconstrained s) \<and> w_active (ws_win s w)" "ws_active s \<noteq> win"
    and o: "\<forall>o1 \<in> set_option (ws_active s). o1 \<in> set (ws_unconstrained s) \<and> w_active (ws_win s o1)"
  shows "\<exists>t. setActiveClient_depth (Suc (Suc (Suc (Suc n)))) E outer win s = Returns t \<and> steady s t \<and>
    activity t = now_active win ({a. w_active (ws_win s a)} - set_option (ws_active s), None, ws_lastActive s, {a. w_demands_attention (ws_win s a)})"
proof -
  let ?s' = "if outer \<and> ae_otherPopup E win then ws_emit ClosePopup s else s"
  let ?b = "blocked ?s'"
  let ?A = "({a. w_active (ws_win s a)} - set_option (ws_active s), None, ws_lastActive s, {a. w_demands_attention (ws_win s a)})"
  have e: "steady (blocked s) ?b" "activity ?b = activity s" "ws_active ?b = ws_active s" "ws_win ?b = ws_win s"
    "ws_unconstrained ?b = ws_unconstrained s" "ws_lastActive ?b = ws_lastActive s"
    by (auto simp: blocked_def ws_emit_def steady_def activity_def)
  note okb = activatable_steady [OF activatable_blocked [OF ok] e(1)]
  have "\<exists>v0. (case ws_active s of None \<Rightarrow> Returns ?b | Some a \<Rightarrow> set_active_depth (Suc (Suc (Suc n))) E False a False ?b) = Returns v0 \<and>
      steady (blocked s) v0 \<and> activity v0 = ?A"
  proof (cases "ws_active s")
    case None
    with e show ?thesis by (auto simp: activity_def)
  next
    case (Some o1)
    with o e have "ws_active ?b = Some o1" "o1 \<in> set (ws_unconstrained ?b)" "w_active (ws_win ?b o1)" by simp_all
    from set_active_off [OF okb this] obtain v0 where "set_active_depth (Suc (Suc (Suc n))) E False o1 False ?b = Returns v0" "steady ?b v0"
      "activity v0 = ({a. w_active (ws_win ?b a)} - {o1}, None, ws_lastActive ?b, {a. w_demands_attention (ws_win ?b a)})" by blast
    with Some e(4,6) steady_trans [OF e(1)] show ?thesis by auto
  qed
  then obtain v0 where v0: "(case ws_active s of None \<Rightarrow> Returns ?b | Some a \<Rightarrow> set_active_depth (Suc (Suc (Suc n))) E False a False ?b) = Returns v0"
      "steady (blocked s) v0" "activity v0 = ?A" by blast
  have "w_active (ws_win v0 x)" if "x \<in> set_option win" for x
  proof -
    have "x \<in> fst ?A" using w that by (cases "ws_active s") auto
    with v0(3) show ?thesis by (auto simp: activity_def)
  qed
  then have fl: "\<forall>x \<in> set_option win. w_active (ws_win v0 x)" by blast
  have "set_option win \<subseteq> set (ws_unconstrained s)" using w(1) by blast
  from setActiveClient_round [OF ok this w(2) v0(1,2) fl refl] show ?thesis unfolding v0(3) .
qed

text \<open>Exactly the window the pointer names has the flag.\<close>

definition one_active :: "workspace \<Rightarrow> bool" where
  "one_active s \<longleftrightarrow> {a. w_active (ws_win s a)} = set_option (ws_active s) \<and> set_option (ws_active s) \<subseteq> set (ws_unconstrained s)"

lemma one_activeI:
  "activity t = (set_option p, p, l, D) \<Longrightarrow> steady s t \<Longrightarrow> set_option p \<subseteq> set (ws_unconstrained s) \<Longrightarrow> one_active t"
  by (auto simp: one_active_def activity_def steady_def)

lemma set_active_on:
  assumes ok: "activatable rk N s" "one_active s" and w: "w \<in> set (ws_unconstrained s)" "\<not> w_active (ws_win s w)"
  shows "\<exists>t. set_active E w True s = Returns t \<and> steady s t \<and> activity t = ({w}, Some w, Some w, {a. w_demands_attention (ws_win s a)} - {w})"
proof -
  let ?u = "ws_upd w (\<lambda>x. x\<lparr>w_active := True\<rparr>) s"
  have u: "steady s ?u" by (simp add: steady_def core_def ws_upd_def)
  have p: "ws_active s \<noteq> Some w" "{a. w_active (ws_win s a)} = set_option (ws_active s)" using ok(2) w(2) by (auto simp: one_active_def)
  then have f: "{a. w_active (ws_win ?u a)} - set_option (ws_active ?u) = {w}" by (auto simp: ws_upd_def)
  have d: "{a. w_demands_attention (ws_win ?u a)} = {a. w_demands_attention (ws_win s a)}" by (auto simp: ws_upd_def)
  have q: "\<forall>x \<in> set_option (Some w). x \<in> set (ws_unconstrained ?u) \<and> w_active (ws_win ?u x)" "ws_active ?u \<noteq> Some w"
    "\<forall>x \<in> set_option (ws_active ?u). x \<in> set (ws_unconstrained ?u) \<and> w_active (ws_win ?u x)"
    using w(1) p ok(2) by (auto simp: ws_upd_def one_active_def)
  obtain s1 where s1: "setActiveClient_depth 4 E True (Some w) ?u = Returns s1" "steady ?u s1"
      "activity s1 = ({w}, Some w, Some w, {a. w_demands_attention (ws_win s a)} - {w})"
    using setActiveClient_moves [OF activatable_steady [OF ok(1) u] q, of 0 E True] unfolding f d by (auto simp: numeral_eq_Suc)
  with set_active_round [OF ok(1) w(1), of True 4 E True s1] w(2) show ?thesis by (auto simp: set_active_def numeral_eq_Suc)
qed

text \<open>
  C3. From a workspace in which the flag of the windows and the pointer of the workspace agree,
  making a managed window active or inactive always ends. Afterwards the two agree again: the window
  is the only active one, or no longer active while every other window keeps its state. A window that
  becomes active is also the last active one and no longer demands attention, while the attention
  of the others is left alone.
\<close>

theorem active_flag_and_pointer_agree:
  assumes "activatable rk N s" "one_active s" and "w \<in> set (ws_unconstrained s)"
  shows "\<exists>t. set_active E w act s = Returns t \<and> one_active t \<and>
    ws_active t = (if act then Some w else if ws_active s = Some w then None else ws_active s) \<and>
    (act \<and> ws_active s \<noteq> Some w \<longrightarrow> ws_lastActive t = Some w) \<and>
    (\<forall>a. w_demands_attention (ws_win t a) = (w_demands_attention (ws_win s a) \<and> \<not> (act \<and> ws_active s \<noteq> Some w \<and> a = w)))"
proof -
  have p: "w_active (ws_win s w) \<longleftrightarrow> ws_active s = Some w" "{a. w_active (ws_win s a)} = set_option (ws_active s)"
    using assms(2) by (auto simp: one_active_def)
  have ctrl: "w_control (ws_win s w)" using assms(1,3) ws_ok_control by (auto simp: activatable_def)
  consider (same) "w_active (ws_win s w) = act" | (on) "act" "\<not> w_active (ws_win s w)" | (off) "\<not> act" "w_active (ws_win s w)" by blast
  then show ?thesis
  proof cases
    case same
    then have "set_active E w act s = Returns s" using ctrl by (simp add: set_active_def numeral_eq_Suc)
    with same p assms(2) show ?thesis by auto
  next
    case on
    obtain t where t: "set_active E w True s = Returns t" "steady s t"
      "activity t = ({w}, Some w, Some w, {a. w_demands_attention (ws_win s a)} - {w})"
      using set_active_on [OF assms on(2)] by blast
    moreover have "one_active t" using t(2,3) assms(3) by (auto intro: one_activeI [of t "Some w"])
    moreover have "(w_demands_attention (ws_win t a)) = (w_demands_attention (ws_win s a) \<and> a \<noteq> w)" for a
      using t(3) by (auto simp: activity_def)
    ultimately show ?thesis using on p(1) by (auto simp: activity_def)
  next
    case off
    then have o: "ws_active s = Some w" using p(1) by blast
    obtain t where t: "set_active E w False s = Returns t" "steady s t"
      "activity t = (set_option None, None, ws_lastActive s, {a. w_demands_attention (ws_win s a)})"
      using set_active_off [OF assms(1) o assms(3) off(2), of 2 E True] p(2) o by (auto simp: set_active_def numeral_eq_Suc)
    moreover have "one_active t" by (rule one_activeI [OF t(3,2)]) simp
    moreover have "(w_demands_attention (ws_win t a)) = w_demands_attention (ws_win s a)" for a
      using t(3) by (auto simp: activity_def)
    ultimately show ?thesis using off o by (auto simp: activity_def)
  qed
qed

definition demo_act_env :: act_env where
  "demo_act_env = \<lparr>ae_hideUtility = True, ae_otherPopup = (\<lambda>_. True), ae_checkDisableShortcuts = (\<lambda>_. False)\<rparr>"

definition demo_active_ws :: workspace where
  "demo_active_ws = demo_ws\<lparr>ws_active := Some 2, ws_win := demo_store(2 := (demo_store 2)\<lparr>w_active := True\<rparr>)\<rparr>"

lemma demo_active:
  "activatable demo_rank 2 demo_active_ws" "one_active demo_active_ws"
proof -
  have "ws_ok demo_rank 2 demo_active_ws"
    by (auto simp: ws_ok_def windows_ok_def demo_active_ws_def demo_ws_def transients_ok_def leads_ranked_def demo_rank_def)
  then show "activatable demo_rank 2 demo_active_ws" by (auto simp: activatable_def demo_active_ws_def demo_ws_def)
  show "one_active demo_active_ws"
    by (auto simp: one_active_def demo_active_ws_def demo_ws_def demo_store_def demo_window_def)
qed

theorem active_flag_and_pointer_agree_witness:
  "\<exists>t. set_active demo_act_env 0 True demo_active_ws = Returns t \<and> one_active t \<and> ws_active t = Some 0 \<and> ws_lastActive t = Some 0"
proof -
  have "0 \<in> set (ws_unconstrained demo_active_ws)" "ws_active demo_active_ws = Some 2" by (simp_all add: demo_active_ws_def demo_ws_def)
  with active_flag_and_pointer_agree [OF demo_active, of 0 demo_act_env True] show ?thesis by auto
qed

section \<open>Who is next\<close>

lemma next_focus_from:
  assumes "fst (next_focus E w s) = Some b"
  shows "findDesktop s True (dv_current (ws_desk s)) = Some b \<or> next_under_mouse E w s = Some b \<or> next_lead E w s = Some b \<or>
    fc_nextForDesktop (ne_outputs E) (ne_screen E) (ws_desk s) (ws_win s) (ws_focus s) w (dv_current (ws_desk s)) = Some b"
  using assms by (auto simp: next_focus_def Let_def split: if_splits)

text \<open>
  C39. The window that gets the focus after another one was hidden is shown and on the current
  desktop, so the request for the focus is not refused as a request for a window that is not shown;
  it is another window, or the window of the desktop. When there is none, then no window of
  the focus chain of the desktop can take the focus and no window of the desktop is shown.
\<close>

theorem next_focus_is_visible:
  "case fst (next_focus E w s) of
     Some b \<Rightarrow> w_shown (ws_win s b) \<and> on_current_desktop (ws_desk s) (ws_win s b) \<and> (w \<noteq> Some b \<or> is_desktop (ws_win s b))
   | None \<Rightarrow>
       (\<nexists>a. \<exists>c. fc_desktopFocusChains (ws_focus s) (dv_current (ws_desk s)) = Some c \<and> a \<in> set c \<and>
          fc_isUsableFocusCandidate (ne_outputs E) (ne_screen E) (ws_desk s) (ws_win s) (ws_focus s) a w) \<and>
       (\<nexists>a. a \<in> set (ws_stacking s) \<and> w_control (ws_win s a) \<and> is_desktop (ws_win s a) \<and> w_shown (ws_win s a) \<and>
          on_current_desktop (ws_desk s) (ws_win s a))"
proof (cases "fst (next_focus E w s)")
  case (Some b)
  from next_focus_from [OF Some]
  have "w_shown (ws_win s b) \<and> on_current_desktop (ws_desk s) (ws_win s b) \<and> (w \<noteq> Some b \<or> is_desktop (ws_win s b))"
    by (auto simp: findDesktop_def next_under_mouse_def next_lead_def clientUnderMouse_def fc_nextForDesktop_def find_Some_iff Let_def
        fc_isUsableFocusCandidate_def on_current_desktop_def split: option.splits if_splits list.splits)
  with Some show ?thesis by simp
next
  case None
  then have "findDesktop s True (dv_current (ws_desk s)) = None"
    "fc_nextForDesktop (ne_outputs E) (ne_screen E) (ws_desk s) (ws_win s) (ws_focus s) w (dv_current (ws_desk s)) = None"
    by (auto simp: next_focus_def Let_def split: if_splits)
  with None show ?thesis
    by (auto simp: findDesktop_def fc_nextForDesktop_def find_None_iff on_current_desktop_def Let_def split: option.splits)
qed

definition demo_next :: next_env where
  "demo_next = \<lparr>ne_outputs = [mk_rect 0 0 100 100], ne_cursor = (5, 5), ne_screen = 0, ne_prefersMouse = False,
     ne_reasonable = True, ne_focusChange = True\<rparr>"

theorem next_focus_is_visible_witness:
  "fst (next_focus demo_next (Some 1) demo_ws) = Some 0 \<and> w_shown (ws_win demo_ws 0) \<and>
     on_current_desktop (ws_desk demo_ws) (ws_win demo_ws 0)"
proof -
  have "fst (next_focus demo_next (Some 1) demo_ws) = Some 0" by code_simp
  with next_focus_is_visible [where E = demo_next and w = "Some 1" and s = demo_ws] show ?thesis by simp
qed

end
