(* ===== verification/Wayland_Placement.thy ===== *)
theory Wayland_Placement
  imports Window_Geometry_Properties
begin

text \<open>
  Where Wayland popups and layer surfaces are put: \<open>popup_placement\<close> of
  \<^verbatim>\<open>win/wayland/xdg_shell.h\<close> and \<open>layer_surface_geometry\<close> of \<^verbatim>\<open>win/wayland/layer_shell.h\<close>.

  What the client requested through the protocol objects of Wrapland is data (the records
  \<open>positioner\<close> and \<open>layer_surface\<close>). A flag value \<open>Qt::Edges\<close> is a set of edges. The geometry of
  an output is taken as integral; the halves of the floating-point computations are written out:
  \<open>qRound\<close> rounds halves up, the conversion to \<open>int\<close> cuts off towards zero.
\<close>

section \<open>Popups\<close>

datatype edge = TopEdge | LeftEdge | RightEdge | BottomEdge

definition hor_edges :: "edge set" where "hor_edges = {LeftEdge, RightEdge}"
definition ver_edges :: "edge set" where "ver_edges = {TopEdge, BottomEdge}"

record adjustments =
  ca_flipX :: bool
  ca_flipY :: bool
  ca_slideX :: bool
  ca_slideY :: bool
  ca_resizeX :: bool
  ca_resizeY :: bool

record positioner =
  po_anchorRect :: rect
  po_anchorEdge :: "edge set"
  po_gravity :: "edge set"
  po_anchorOffset :: point
  po_adjustments :: adjustments
  po_initialSize :: qsize

definition in_bounds :: "rect \<Rightarrow> rect \<Rightarrow> edge set \<Rightarrow> bool" where
  "in_bounds bounds target edges \<longleftrightarrow>
     \<not> (LeftEdge \<in> edges \<and> rleft target < rleft bounds) \<and>
     \<not> (TopEdge \<in> edges \<and> rtop target < rtop bounds) \<and>
     \<not> (RightEdge \<in> edges \<and> rright target > rright bounds) \<and>
     \<not> (BottomEdge \<in> edges \<and> rbottom target > rbottom bounds)"

text \<open>\<open>qRound(x + w / 2.0)\<close> and \<open>qRound(-w / 2.0)\<close>.\<close>

definition round_mid :: "int \<Rightarrow> int \<Rightarrow> int" where "round_mid x w = (2 * x + w + 1) div 2"
definition round_neg_half :: "int \<Rightarrow> int" where "round_neg_half w = (1 - w) div 2"

definition get_anchor :: "rect \<Rightarrow> edge set \<Rightarrow> edge set \<Rightarrow> qsize \<Rightarrow> point" where
  "get_anchor rect edge gravity sz =
     (let ex = edge \<inter> hor_edges; ey = edge \<inter> ver_edges; gx = gravity \<inter> hor_edges; gy = gravity \<inter> ver_edges;
          px = (if ex = {LeftEdge} then rleft rect else if ex = {RightEdge} then rleft rect + rwidth rect
                else round_mid (rleft rect) (rwidth rect));
          py = (if ey = {TopEdge} then rtop rect else if ey = {BottomEdge} then rtop rect + rheight rect
                else round_mid (rtop rect) (rheight rect));
          ax = (if gx = {LeftEdge} then - fst sz else if gx = {RightEdge} then 0 else round_neg_half (fst sz));
          ay = (if gy = {TopEdge} then - snd sz else if gy = {BottomEdge} then 0 else round_neg_half (snd sz))
      in (px + ax, py + ay))"

definition anchored_place :: "positioner \<Rightarrow> point \<Rightarrow> qsize \<Rightarrow> edge set \<Rightarrow> edge set \<Rightarrow> rect" where
  "anchored_place P parent_pos sz edge gravity =
     (let a = get_anchor (po_anchorRect P) edge gravity sz; off = po_anchorOffset P
      in rect_at (fst a + fst off + fst parent_pos, snd a + snd off + snd parent_pos) sz)"

definition flip_edges :: "edge set \<Rightarrow> edge set \<Rightarrow> edge set" where
  "flip_edges axis e = (if e \<inter> axis \<noteq> {} then (e - axis) \<union> (axis - e) else e)"

definition popup_flipX :: "positioner \<Rightarrow> point \<Rightarrow> qsize \<Rightarrow> rect \<Rightarrow> rect \<Rightarrow> rect" where
  "popup_flipX P parent_pos sz bounds place =
     (if in_bounds bounds place hor_edges then place
      else let f = anchored_place P parent_pos sz (flip_edges hor_edges (po_anchorEdge P)) (flip_edges hor_edges (po_gravity P))
        in if in_bounds bounds f hor_edges then moveLeft (rleft f) place else place)"

definition popup_slideX :: "rect \<Rightarrow> rect \<Rightarrow> rect" where
  "popup_slideX bounds place =
     (let p = (if \<not> in_bounds bounds place {LeftEdge} then moveLeft (rleft bounds) place else place)
      in if \<not> in_bounds bounds p {RightEdge} then moveRight (rright bounds) p else p)"

definition popup_resizeX :: "rect \<Rightarrow> rect \<Rightarrow> rect" where
  "popup_resizeX bounds place =
     (let p = (if \<not> in_bounds bounds place {LeftEdge} then place\<lparr>rleft := rleft bounds\<rparr> else place);
          q = (if \<not> in_bounds bounds p {RightEdge} then p\<lparr>rright := rright bounds\<rparr> else p)
      in if rvalid q then q else place)"

definition popup_flipY :: "positioner \<Rightarrow> point \<Rightarrow> qsize \<Rightarrow> rect \<Rightarrow> rect \<Rightarrow> rect" where
  "popup_flipY P parent_pos sz bounds place =
     (if in_bounds bounds place ver_edges then place
      else let f = anchored_place P parent_pos sz (flip_edges ver_edges (po_anchorEdge P)) (flip_edges ver_edges (po_gravity P))
        in if in_bounds bounds f ver_edges then moveTop (rtop f) place else place)"

definition popup_slideY :: "rect \<Rightarrow> rect \<Rightarrow> rect" where
  "popup_slideY bounds place =
     (let p = (if \<not> in_bounds bounds place {TopEdge} then moveTop (rtop bounds) place else place)
      in if \<not> in_bounds bounds p {BottomEdge} then moveBottom (rbottom bounds) p else p)"

definition popup_resizeY :: "rect \<Rightarrow> rect \<Rightarrow> rect" where
  "popup_resizeY bounds place =
     (let p = (if \<not> in_bounds bounds place {TopEdge} then place\<lparr>rtop := rtop bounds\<rparr> else place);
          q = (if \<not> in_bounds bounds p {BottomEdge} then p\<lparr>rbottom := rbottom bounds\<rparr> else p)
      in if rvalid q then q else place)"

text \<open>Position of the client area of the lead, and the size of the popup.\<close>

definition popup_parent_pos :: "wgeo \<Rightarrow> point" where
  "popup_parent_pos lead =
     (rleft (g_frameGeometry lead) + mleft (g_border lead), rtop (g_frameGeometry lead) + mtop (g_border lead))"

definition popup_size :: "positioner \<Rightarrow> wgeo \<Rightarrow> qsize" where
  "popup_size P g = (if rvalid (g_frame g) then rsize (g_frame g) else po_initialSize P)"

definition popup_placement :: "positioner \<Rightarrow> wgeo option \<Rightarrow> wgeo \<Rightarrow> rect \<Rightarrow> rect outcome" where
  "popup_placement P lead g bounds =
     (case lead of None \<Rightarrow> Faults AssertFailed
      | Some l \<Rightarrow>
          let pos = popup_parent_pos l; sz = popup_size P g; ca = po_adjustments P;
              place = anchored_place P pos sz (po_anchorEdge P) (po_gravity P)
          in if in_bounds bounds place UNIV then Returns place
             else
               let x1 = (if ca_flipX ca then popup_flipX P pos sz bounds place else place);
                   x2 = (if ca_slideX ca then popup_slideX bounds x1 else x1);
                   x3 = (if ca_resizeX ca then popup_resizeX bounds x2 else x2);
                   y1 = (if ca_flipY ca then popup_flipY P pos sz bounds x3 else x3);
                   y2 = (if ca_slideY ca then popup_slideY bounds y1 else y1)
               in Returns (if ca_resizeY ca then popup_resizeY bounds y2 else y2))"

section \<open>One axis\<close>

text \<open>What is promised for one axis: bounds \<open>bl..bh\<close>, result \<open>l..h\<close>, and which adjustments are allowed (\<open>flips\<close>: the flipped place fits).\<close>

definition axis_ok :: "int \<Rightarrow> int \<Rightarrow> int \<Rightarrow> int \<Rightarrow> int \<Rightarrow> bool \<Rightarrow> bool \<Rightarrow> bool \<Rightarrow> bool" where
  "axis_ok bl bh l h extent flips slides resizes \<longleftrightarrow>
     (slides \<and> (resizes \<or> extent \<le> bh - bl + 1) \<longrightarrow> bl \<le> l \<and> h \<le> bh) \<and>
     (flips \<longrightarrow> bl \<le> l \<and> h \<le> bh) \<and> (\<not> resizes \<or> flips \<longrightarrow> h - l + 1 = extent) \<and> l \<le> h \<and> h - l + 1 \<le> extent"

text \<open>
  Both axes are adjusted the same way. The locale states what sliding and resizing need of an axis:
  how to read, move and set its two ends, and that the other axis is not touched.
\<close>

locale popup_axis =
  fixes low :: "rect \<Rightarrow> int" and high :: "rect \<Rightarrow> int"
    and slide :: "rect \<Rightarrow> rect \<Rightarrow> rect" and resize :: "rect \<Rightarrow> rect \<Rightarrow> rect"
    and low' :: "rect \<Rightarrow> int" and high' :: "rect \<Rightarrow> int"
  assumes slide_low: "low (slide b r) =
      (let l = max (low r) (low b); h = high r + (l - low r) in if h > high b then l - (h - high b) else l)"
    and slide_high: "high (slide b r) = (let h = high r + (max (low r) (low b) - low r) in min h (high b))"
    and slide_other: "low' (slide b r) = low' r" "high' (slide b r) = high' r"
    and resize_low: "low (resize b r) =
      (if max (low r) (low b) \<le> min (high r) (high b) \<and> low' r \<le> high' r then max (low r) (low b) else low r)"
    and resize_high: "high (resize b r) =
      (if max (low r) (low b) \<le> min (high r) (high b) \<and> low' r \<le> high' r then min (high r) (high b) else high r)"
    and resize_other: "low' (resize b r) = low' r" "high' (resize b r) = high' r"
begin

text \<open>Sliding keeps the extent and brings a rectangle that fits into the bounds.\<close>

lemma slide_extent: "high (slide b r) - low (slide b r) = high r - low r"
  by (simp add: slide_low slide_high Let_def)

lemma slide_fits:
  assumes "high r - low r \<le> high b - low b"
  shows "low b \<le> low (slide b r) \<and> high (slide b r) \<le> high b"
  using assms by (auto simp: slide_low slide_high Let_def)

lemma slide_high_bound: "high (slide b r) \<le> high b"
  by (simp add: slide_high Let_def)

lemma slide_inside: "low b \<le> low r \<Longrightarrow> high r \<le> high b \<Longrightarrow> low (slide b r) = low r \<and> high (slide b r) = high r"
  by (simp add: slide_low slide_high Let_def)

text \<open>Resizing never leaves the old extent, and ends in the bounds when there is a common part.\<close>

lemma resize_overlapping:
  assumes "low r \<le> high r" "low' r \<le> high' r" "low b \<le> high b" "low r \<le> high b" "low b \<le> high r"
  shows "low b \<le> low (resize b r) \<and> high (resize b r) \<le> high b \<and> low r \<le> low (resize b r) \<and> high (resize b r) \<le> high r \<and>
    low (resize b r) \<le> high (resize b r)"
  using assms by (auto simp: resize_low resize_high)

lemma resize_inside: "low b \<le> low r \<Longrightarrow> high r \<le> high b \<Longrightarrow> low (resize b r) = low r \<and> high (resize b r) = high r"
  by (simp add: resize_low resize_high)

text \<open>Sliding and then resizing always ends in the bounds.\<close>

lemma slide_resize:
  assumes "low r \<le> high r" "low' r \<le> high' r" "low b \<le> high b"
  shows "low b \<le> low (resize b (slide b r)) \<and> high (resize b (slide b r)) \<le> high b \<and>
    low (resize b (slide b r)) \<le> high (resize b (slide b r))"
proof (rule conjI)
  have "low (slide b r) \<le> high (slide b r)" "low' (slide b r) \<le> high' (slide b r)" "low b \<le> high (slide b r)" "low (slide b r) \<le> high b"
    using assms slide_extent [of b r] slide_high_bound [of b r] by (auto simp: slide_other slide_low slide_high Let_def)
  from resize_overlapping [OF this(1,2) assms(3) this(4,3)]
  show "low b \<le> low (resize b (slide b r))"
    and "high (resize b (slide b r)) \<le> high b \<and> low (resize b (slide b r)) \<le> high (resize b (slide b r))" by auto
qed

text \<open>The two adjustments after the flip.\<close>

lemma axis_adjusted:
  assumes "low b \<le> high b" and "high x - low x = e - 1" "1 \<le> e" "low' x \<le> high' x" and "flips \<Longrightarrow> low b \<le> low x \<and> high x \<le> high b"
    and y: "y = (if slides then slide b x else x)" and r: "r = (if resizes then resize b y else y)"
  shows "axis_ok (low b) (high b) (low r) (high r) e flips slides resizes" and "low' r = low' x \<and> high' r = high' x"
proof -
  have ext: "high y - low y = e - 1" "low' y = low' x" "high' y = high' x"
    using assms(2) slide_extent [of b x] by (simp_all add: y slide_other)
  have f: "low b \<le> low y \<and> high y \<le> high b" if flips
    using that assms(5) slide_inside [of b x] by (simp add: y)
  have s: "low b \<le> low y \<and> high y \<le> high b" if slides "e \<le> high b - low b + 1"
    using that assms(2) slide_fits [of x b] by (simp add: y)
  have z: "low b \<le> low (resize b y) \<and> high (resize b y) \<le> high b" if slides
    using that slide_resize [of x b] assms by (simp add: y)
  have "low (resize b y) \<le> high (resize b y) \<and> high (resize b y) - low (resize b y) \<le> high y - low y"
    using ext(1) assms(3) by (auto simp: resize_low resize_high)
  with ext(1) f s z assms(3) resize_inside [of b y] show "axis_ok (low b) (high b) (low r) (high r) e flips slides resizes"
    by (auto simp: r axis_ok_def)
  show "low' r = low' x \<and> high' r = high' x" using ext by (simp add: r resize_other)
qed

end

interpretation hor: popup_axis rleft rright popup_slideX popup_resizeX rtop rbottom
  by unfold_locales (auto simp: popup_slideX_def popup_resizeX_def in_bounds_def moveLeft_def moveRight_def rvalid_def Let_def)

interpretation ver: popup_axis rtop rbottom popup_slideY popup_resizeY rleft rright
  by unfold_locales (auto simp: popup_slideY_def popup_resizeY_def in_bounds_def moveTop_def moveBottom_def rvalid_def Let_def)

section \<open>The placement of a popup\<close>

lemma flip_extents [simp]:
  "rright (popup_flipX P pos sz b r) - rleft (popup_flipX P pos sz b r) = rright r - rleft r"
  "rtop (popup_flipX P pos sz b r) = rtop r" "rbottom (popup_flipX P pos sz b r) = rbottom r"
  "rbottom (popup_flipY P pos sz b r) - rtop (popup_flipY P pos sz b r) = rbottom r - rtop r"
  "rleft (popup_flipY P pos sz b r) = rleft r" "rright (popup_flipY P pos sz b r) = rright r"
  by (simp_all add: popup_flipX_def popup_flipY_def moveLeft_def moveTop_def Let_def)

text \<open>A flip that fits ends in the bounds.\<close>

lemma flip_in_bounds:
  "in_bounds b (anchored_place P pos sz (flip_edges hor_edges (po_anchorEdge P)) (flip_edges hor_edges (po_gravity P))) hor_edges \<Longrightarrow>
     rright r - rleft r = fst sz - 1 \<Longrightarrow> rleft b \<le> rleft (popup_flipX P pos sz b r) \<and> rright (popup_flipX P pos sz b r) \<le> rright b"
  "in_bounds b (anchored_place P pos sz (flip_edges ver_edges (po_anchorEdge P)) (flip_edges ver_edges (po_gravity P))) ver_edges \<Longrightarrow>
     rbottom r - rtop r = snd sz - 1 \<Longrightarrow> rtop b \<le> rtop (popup_flipY P pos sz b r) \<and> rbottom (popup_flipY P pos sz b r) \<le> rbottom b"
  by (auto simp: popup_flipX_def popup_flipY_def in_bounds_def hor_edges_def ver_edges_def anchored_place_def rect_at_def mk_rect_def
      moveLeft_def moveTop_def Let_def)

definition adjust_X :: "positioner \<Rightarrow> point \<Rightarrow> qsize \<Rightarrow> rect \<Rightarrow> rect \<Rightarrow> rect" where
  "adjust_X P pos sz b r =
     (let ca = po_adjustments P;
          x1 = (if ca_flipX ca then popup_flipX P pos sz b r else r);
          x2 = (if ca_slideX ca then popup_slideX b x1 else x1)
      in if ca_resizeX ca then popup_resizeX b x2 else x2)"

definition adjust_Y :: "positioner \<Rightarrow> point \<Rightarrow> qsize \<Rightarrow> rect \<Rightarrow> rect \<Rightarrow> rect" where
  "adjust_Y P pos sz b r =
     (let ca = po_adjustments P;
          y1 = (if ca_flipY ca then popup_flipY P pos sz b r else r);
          y2 = (if ca_slideY ca then popup_slideY b y1 else y1)
      in if ca_resizeY ca then popup_resizeY b y2 else y2)"

lemma popup_placement_axes:
  "popup_placement P (Some l) g b = Returns
     (let pos = popup_parent_pos l; sz = popup_size P g; r = anchored_place P pos sz (po_anchorEdge P) (po_gravity P)
      in if in_bounds b r UNIV then r else adjust_Y P pos sz b (adjust_X P pos sz b r))"
  by (simp add: popup_placement_def adjust_X_def adjust_Y_def Let_def)

lemma adjust_X_ok:
  assumes "rleft b \<le> rright b" and "rright r - rleft r = fst sz - 1" "1 \<le> fst sz" "rtop r \<le> rbottom r"
    and "flips \<Longrightarrow> ca_flipX (po_adjustments P) \<and>
      in_bounds b (anchored_place P pos sz (flip_edges hor_edges (po_anchorEdge P)) (flip_edges hor_edges (po_gravity P))) hor_edges"
  shows "axis_ok (rleft b) (rright b) (rleft (adjust_X P pos sz b r)) (rright (adjust_X P pos sz b r)) (fst sz) flips
      (ca_slideX (po_adjustments P)) (ca_resizeX (po_adjustments P))"
    and "rtop (adjust_X P pos sz b r) = rtop r \<and> rbottom (adjust_X P pos sz b r) = rbottom r"
proof -
  let ?x = "if ca_flipX (po_adjustments P) then popup_flipX P pos sz b r else r"
  have "rright ?x - rleft ?x = fst sz - 1" "rtop ?x = rtop r" "rbottom ?x = rbottom r" using assms(2) by simp_all
  moreover have "rleft b \<le> rleft ?x \<and> rright ?x \<le> rright b" if flips
    using flip_in_bounds(1) [of b P pos sz r] assms(2,5) that by simp
  ultimately show "axis_ok (rleft b) (rright b) (rleft (adjust_X P pos sz b r)) (rright (adjust_X P pos sz b r)) (fst sz) flips
      (ca_slideX (po_adjustments P)) (ca_resizeX (po_adjustments P))"
    and "rtop (adjust_X P pos sz b r) = rtop r \<and> rbottom (adjust_X P pos sz b r) = rbottom r"
    using hor.axis_adjusted [of b ?x "fst sz" flips _ "ca_slideX (po_adjustments P)" _ "ca_resizeX (po_adjustments P)", OF _ _ _ _ _ refl refl] assms
    by (simp_all add: adjust_X_def Let_def)
qed

lemma adjust_Y_ok:
  assumes "rtop b \<le> rbottom b" and "rbottom r - rtop r = snd sz - 1" "1 \<le> snd sz" "rleft r \<le> rright r"
    and "flips \<Longrightarrow> ca_flipY (po_adjustments P) \<and>
      in_bounds b (anchored_place P pos sz (flip_edges ver_edges (po_anchorEdge P)) (flip_edges ver_edges (po_gravity P))) ver_edges"
  shows "axis_ok (rtop b) (rbottom b) (rtop (adjust_Y P pos sz b r)) (rbottom (adjust_Y P pos sz b r)) (snd sz) flips
      (ca_slideY (po_adjustments P)) (ca_resizeY (po_adjustments P))"
    and "rleft (adjust_Y P pos sz b r) = rleft r \<and> rright (adjust_Y P pos sz b r) = rright r"
proof -
  let ?x = "if ca_flipY (po_adjustments P) then popup_flipY P pos sz b r else r"
  have "rbottom ?x - rtop ?x = snd sz - 1" "rleft ?x = rleft r" "rright ?x = rright r" using assms(2) by simp_all
  moreover have "rtop b \<le> rtop ?x \<and> rbottom ?x \<le> rbottom b" if flips
    using flip_in_bounds(2) [of b P pos sz r] assms(2,5) that by simp
  ultimately show "axis_ok (rtop b) (rbottom b) (rtop (adjust_Y P pos sz b r)) (rbottom (adjust_Y P pos sz b r)) (snd sz) flips
      (ca_slideY (po_adjustments P)) (ca_resizeY (po_adjustments P))"
    and "rleft (adjust_Y P pos sz b r) = rleft r \<and> rright (adjust_Y P pos sz b r) = rright r"
    using ver.axis_adjusted [of b ?x "snd sz" flips _ "ca_slideY (po_adjustments P)" _ "ca_resizeY (po_adjustments P)", OF _ _ _ _ _ refl refl] assms
    by (simp_all add: adjust_Y_def Let_def)
qed

text \<open>
  C29. A popup that fits at the place its client asked for is put there. Otherwise it is within the
  bounds along each axis along which it may slide and fits, or may slide and be resized, or whose
  flipped place fits. It is never larger than requested, never empty, and keeps its extent along an
  axis along which it may not be resized.
\<close>

theorem popup_within_bounds:
  assumes "rvalid b" and "popup_size P g = (w, h)" "1 \<le> w" "1 \<le> h"
    and "place = (\<lambda>e v. anchored_place P (popup_parent_pos l) (w, h) (e (po_anchorEdge P)) (v (po_gravity P)))"
  shows "\<exists>r. popup_placement P (Some l) g b = Returns r \<and>
    (rwithin (place id id) b \<longrightarrow> r = place id id) \<and>
    axis_ok (rleft b) (rright b) (rleft r) (rright r) w
      (\<not> rwithin (place id id) b \<and> ca_flipX (po_adjustments P) \<and> in_bounds b (place (flip_edges hor_edges) (flip_edges hor_edges)) hor_edges)
      (ca_slideX (po_adjustments P)) (ca_resizeX (po_adjustments P)) \<and>
    axis_ok (rtop b) (rbottom b) (rtop r) (rbottom r) h
      (\<not> rwithin (place id id) b \<and> ca_flipY (po_adjustments P) \<and> in_bounds b (place (flip_edges ver_edges) (flip_edges ver_edges)) ver_edges)
      (ca_slideY (po_adjustments P)) (ca_resizeY (po_adjustments P))"
proof -
  let ?pos = "popup_parent_pos l" and ?p = "place id id"
  have ib: "in_bounds b ?p UNIV = rwithin ?p b" by (auto simp: in_bounds_def rwithin_def)
  have ext: "rright ?p - rleft ?p = w - 1" "rbottom ?p - rtop ?p = h - 1"
    by (simp_all add: assms(5) anchored_place_def rect_at_def mk_rect_def Let_def)
  have pp: "popup_placement P (Some l) g b = Returns (if rwithin ?p b then ?p else adjust_Y P ?pos (w, h) b (adjust_X P ?pos (w, h) b ?p))"
    unfolding popup_placement_axes Let_def assms(2) ib [symmetric] by (simp add: assms(5))
  show ?thesis
  proof (cases "rwithin ?p b")
    case True
    then show ?thesis using ext assms(3,4) pp by (auto simp: axis_ok_def rwithin_def)
  next
    case False
    let ?x = "adjust_X P ?pos (w, h) b ?p"
    let ?fx = "ca_flipX (po_adjustments P) \<and> in_bounds b (place (flip_edges hor_edges) (flip_edges hor_edges)) hor_edges"
    let ?fy = "ca_flipY (po_adjustments P) \<and> in_bounds b (place (flip_edges ver_edges) (flip_edges ver_edges)) ver_edges"
    note X = adjust_X_ok [of b ?p "(w, h)" ?fx P ?pos] and Y = adjust_Y_ok [of b ?x "(w, h)" ?fy P ?pos]
    from X assms ext have x: "axis_ok (rleft b) (rright b) (rleft ?x) (rright ?x) w ?fx (ca_slideX (po_adjustments P)) (ca_resizeX (po_adjustments P))"
      "rtop ?x = rtop ?p" "rbottom ?x = rbottom ?p" by (auto simp: rvalid_def)
    from Y x assms ext False pp show ?thesis by (auto simp: rvalid_def axis_ok_def)
  qed
qed

definition demo_positioner :: positioner where
  "demo_positioner = \<lparr>po_anchorRect = mk_rect 80 40 10 10, po_anchorEdge = {RightEdge, BottomEdge}, po_gravity = {RightEdge, BottomEdge},
     po_anchorOffset = (0, 0), po_adjustments = \<lparr>ca_flipX = False, ca_flipY = False, ca_slideX = True, ca_slideY = False,
       ca_resizeX = False, ca_resizeY = False\<rparr>, po_initialSize = (30, 20)\<rparr>"

theorem popup_within_bounds_witness:
  "\<exists>r. popup_placement demo_positioner (Some demo_geo) (demo_geo\<lparr>g_frame := null_rect\<rparr>) (mk_rect 0 0 100 100) = Returns r \<and>
     0 \<le> rleft r \<and> rright r \<le> 99 \<and> rwidth r = 30"
proof -
  have "popup_size demo_positioner (demo_geo\<lparr>g_frame := null_rect\<rparr>) = (30, 20)"
    by (simp add: popup_size_def rvalid_def null_rect_def mk_rect_def demo_positioner_def)
  from popup_within_bounds [of "mk_rect 0 0 100 100", OF _ this _ _ refl, of demo_geo]
  show ?thesis by (auto simp: rvalid_def mk_rect_def axis_ok_def demo_positioner_def rwidth_def)
qed

section \<open>Layer surfaces\<close>

record layer_surface =
  ls_size :: qsize
  ls_margins :: margins
  ls_anchor :: "edge set"
  ls_exclusiveZone :: int
  ls_output :: "rect option"
  ls_surfaceSize :: qsize

text \<open>\<open>area\<close> is \<open>clientArea(WorkArea, point, 0)\<close>, \<open>output_geo\<close> the geometry of the output of the surface.\<close>

definition layer_surface_area :: "(point \<Rightarrow> rect) \<Rightarrow> rect \<Rightarrow> layer_surface \<Rightarrow> rect" where
  "layer_surface_area area output_geo s =
     (if ls_exclusiveZone s = 0 then rintersected (area (rcenter output_geo)) output_geo else output_geo)"

definition layer_set_size :: "rect \<Rightarrow> layer_surface \<Rightarrow> qsize outcome" where
  "layer_set_size area_geo s =
     (let m = ls_margins s; (w, h) = ls_size s in
      oassert (w = 0 \<longrightarrow> LeftEdge \<in> ls_anchor s \<and> RightEdge \<in> ls_anchor s)
        (oassert (h = 0 \<longrightarrow> TopEdge \<in> ls_anchor s \<and> BottomEdge \<in> ls_anchor s)
          (Returns (if w = 0 then rwidth area_geo - mleft m - mright m else w,
                    if h = 0 then rheight area_geo - mtop m - mbottom m else h))))"

definition layer_effective_size :: "rect \<Rightarrow> layer_surface \<Rightarrow> qsize \<Rightarrow> qsize" where
  "layer_effective_size area_geo s set_size =
     (let sz = (if fst (ls_surfaceSize s) < 1 \<or> snd (ls_surfaceSize s) < 1 then set_size else boundedTo set_size (ls_surfaceSize s))
      in boundedTo sz (rwidth area_geo, rheight area_geo))"

definition layer_pos :: "rect \<Rightarrow> layer_surface \<Rightarrow> qsize \<Rightarrow> point" where
  "layer_pos area_geo s eff_size =
     (let A = ls_anchor s; m = ls_margins s; (w, h) = eff_size;
          x = tdiv (2 * rleft area_geo + rwidth area_geo - 2 * tdiv w 2) 2;
          y = tdiv (2 * rtop area_geo + rheight area_geo - 2 * tdiv h 2) 2;
          x' = (if LeftEdge \<in> A then (if RightEdge \<notin> A then rleft area_geo + mleft m else x)
                else if RightEdge \<in> A then rleft area_geo + rwidth area_geo - mright m - w else x);
          y' = (if TopEdge \<in> A then (if BottomEdge \<notin> A then rtop area_geo + mtop m else y)
                else if BottomEdge \<in> A then rtop area_geo + rheight area_geo - mbottom m - h else y)
      in (x', y'))"

definition layer_surface_geometry :: "(point \<Rightarrow> rect) \<Rightarrow> layer_surface \<Rightarrow> rect outcome" where
  "layer_surface_geometry area s =
     (case ls_output s of None \<Rightarrow> Faults AssertFailed
      | Some output_geo \<Rightarrow>
          let area_geo = layer_surface_area area output_geo s in
          obind (layer_set_size area_geo s) (\<lambda>set_size.
            let eff = layer_effective_size area_geo s set_size
            in Returns (rect_at (layer_pos area_geo s eff) eff)))"

text \<open>
  Along one axis: the surface is centered, or has the margin to the one edge it is anchored to.
\<close>

definition axis_anchored :: "int \<Rightarrow> int \<Rightarrow> int \<Rightarrow> int \<Rightarrow> bool \<Rightarrow> bool \<Rightarrow> int \<Rightarrow> int \<Rightarrow> bool" where
  "axis_anchored al ah l h low_anchor high_anchor low_margin high_margin \<longleftrightarrow>
     (low_anchor = high_anchor \<longrightarrow> al \<le> l \<and> h \<le> ah \<and> \<bar>(l - al) - (ah - h)\<bar> \<le> 1) \<and>
     (low_anchor \<and> \<not> high_anchor \<longrightarrow> l = al + low_margin) \<and> (high_anchor \<and> \<not> low_anchor \<longrightarrow> h = ah - high_margin)"

lemma centered_bounds:
  assumes "0 \<le> a" and "1 \<le> e" "e \<le> w" and "x = tdiv (2 * a + w - 2 * tdiv e 2) 2"
  shows "a \<le> x \<and> x + e - 1 \<le> a + w - 1 \<and> \<bar>(x - a) - (a + w - 1 - (x + e - 1))\<bar> \<le> 1"
proof -
  have "tdiv e 2 = e div 2" using assms(2) by (simp add: tdiv_nonneg)
  moreover have "0 \<le> 2 * a + w - 2 * (e div 2)" using assms by linarith
  ultimately have "x = (2 * a + w - 2 * (e div 2)) div 2" using assms(4) by (simp add: tdiv_nonneg)
  then show ?thesis using assms(1-3) by presburger
qed

text \<open>
  A layer surface with a size that is allowed by its anchors is never larger than the area of its
  output. Along each axis it is centered in the area, with gaps that differ by at most one, when it
  is anchored to both or to no edge, and otherwise exactly its margin away from the edge it is anchored to.
\<close>

theorem layer_surface_anchored:
  assumes "ls_output s = Some og" and "A = layer_surface_area area og s" and "rvalid A" "0 \<le> rleft A" "0 \<le> rtop A"
    and "layer_set_size A s = Returns (w, h)" "1 \<le> w" "1 \<le> h"
  shows "\<exists>r. layer_surface_geometry area s = Returns r \<and> 1 \<le> rwidth r \<and> rwidth r \<le> min w (rwidth A) \<and> 1 \<le> rheight r \<and> rheight r \<le> min h (rheight A) \<and>
    axis_anchored (rleft A) (rright A) (rleft r) (rright r) (LeftEdge \<in> ls_anchor s) (RightEdge \<in> ls_anchor s)
      (mleft (ls_margins s)) (mright (ls_margins s)) \<and>
    axis_anchored (rtop A) (rbottom A) (rtop r) (rbottom r) (TopEdge \<in> ls_anchor s) (BottomEdge \<in> ls_anchor s)
      (mtop (ls_margins s)) (mbottom (ls_margins s))"
proof -
  obtain ew eh where e: "layer_effective_size A s (w, h) = (ew, eh)" by (metis surj_pair)
  have wh: "1 \<le> rwidth A" "1 \<le> rheight A" using assms(3) by (auto simp: rvalid_def rwidth_def rheight_def)
  have eb: "1 \<le> ew" "ew \<le> min w (rwidth A)" "1 \<le> eh" "eh \<le> min h (rheight A)"
    using e wh assms(7,8) by (auto simp: layer_effective_size_def boundedTo_def Let_def split: if_splits)
  obtain x y where xy: "layer_pos A s (ew, eh) = (x, y)" by (metis surj_pair)
  have g: "layer_surface_geometry area s = Returns (rect_at (x, y) (ew, eh))"
    using assms(1,6) e xy by (simp add: layer_surface_geometry_def assms(2) [symmetric] Let_def)
  have "axis_anchored (rleft A) (rright A) x (x + ew - 1) (LeftEdge \<in> ls_anchor s) (RightEdge \<in> ls_anchor s) (mleft (ls_margins s)) (mright (ls_margins s))"
    using centered_bounds [OF assms(4) eb(1), of "rwidth A", OF _ refl] eb(2) xy
    by (auto simp: axis_anchored_def layer_pos_def Let_def rwidth_def split: if_splits)
  moreover have "axis_anchored (rtop A) (rbottom A) y (y + eh - 1) (TopEdge \<in> ls_anchor s) (BottomEdge \<in> ls_anchor s) (mtop (ls_margins s)) (mbottom (ls_margins s))"
    using centered_bounds [OF assms(5) eb(3), of "rheight A", OF _ refl] eb(4) xy
    by (auto simp: axis_anchored_def layer_pos_def Let_def rheight_def split: if_splits)
  ultimately show ?thesis using g eb by (simp add: rect_at_def mk_rect_def rwidth_def rheight_def)
qed

definition demo_layer :: layer_surface where
  "demo_layer = \<lparr>ls_size = (0, 20), ls_margins = \<lparr>mleft = 10, mtop = 3, mright = 0, mbottom = 0\<rparr>,
     ls_anchor = {LeftEdge, RightEdge, TopEdge}, ls_exclusiveZone = 20, ls_output = Some (mk_rect 0 0 100 100), ls_surfaceSize = (0, 0)\<rparr>"

theorem layer_surface_anchored_witness:
  "\<exists>r. layer_surface_geometry (\<lambda>_. null_rect) demo_layer = Returns r \<and> 0 \<le> rleft r \<and> rright r \<le> 99 \<and> rtop r = 3"
proof -
  have "layer_set_size (layer_surface_area (\<lambda>_. null_rect) (mk_rect 0 0 100 100) demo_layer) demo_layer = Returns (90, 20)" by code_simp
  from layer_surface_anchored [OF _ refl _ _ _ this] show ?thesis
    by (auto simp: demo_layer_def layer_surface_area_def rvalid_def mk_rect_def axis_anchored_def)
qed

text \<open>
  A surface that fills the space between two opposite edges, less its margins, is centered in the area and
  not put between the margins: with a margin of 10 at the left and none at the right both gaps are 5.
\<close>

lemma opposite_margins_ignored:
  "layer_surface_geometry (\<lambda>_. null_rect) demo_layer = Returns (mk_rect 5 3 90 20)"
  by code_simp

end
