(* ===== verification/Desktop_Chains.thy ===== *)
theory Desktop_Chains
  imports KWin_Prelude
begin

text \<open>
  The order in which the virtual desktops were used, for switching between them:
  \<open>DesktopChain\<close> and \<open>DesktopChainManager\<close> (\<^verbatim>\<open>tabbox/desktopchain.cpp\<close>). A chain lists the
  numbers of the desktops, the most recent first; the manager has one chain per activity.
  A \<open>QHash\<close> is a map. The identifier of an activity is \<open>None\<close> for the null string, under which the
  manager keeps its chain until the first activity is known. Numbers of desktops are far below \<open>2^31\<close>.
\<close>

section \<open>A chain\<close>

type_synonym dchain = "nat list"

definition dc_init :: "nat \<Rightarrow> dchain" where
  "dc_init n = map Suc [0..<n]"

definition dc_next :: "dchain \<Rightarrow> nat \<Rightarrow> nat" where
  "dc_next c d =
     (case index_of d c of
        Some i \<Rightarrow> if Suc i < length c then c ! Suc i else if length c > 0 then c ! 0 else 1
      | None \<Rightarrow> if length c > 0 then c ! 0 else 1)"

definition dc_resize :: "nat \<Rightarrow> nat \<Rightarrow> dchain \<Rightarrow> dchain outcome" where
  "dc_resize previous new c =
     oassert (previous = length c)
       (Returns (if new \<ge> previous then c @ map Suc [previous..<new] else map (\<lambda>d. min d new) (take new c)))"

text \<open>The loop of \<open>add\<close> that shifts the elements before position \<open>i\<close>.\<close>

fun dc_shift :: "nat \<Rightarrow> dchain \<Rightarrow> dchain" where
  "dc_shift 0 c = c"
| "dc_shift (Suc i) c = dc_shift i (c[Suc i := c ! i])"

definition dc_add :: "nat \<Rightarrow> dchain \<Rightarrow> dchain" where
  "dc_add d c =
     (if c = [] \<or> d > length c then c
      else (dc_shift (case index_of d c of None \<Rightarrow> length c - 1 | Some i \<Rightarrow> i) c)[0 := d])"

section \<open>The manager\<close>

record chain_manager =
  dm_chains :: "string option \<rightharpoonup> dchain"
  dm_current :: "string option"
  dm_maxChainSize :: nat

definition dm_init :: chain_manager where
  "dm_init = \<lparr>dm_chains = [None \<mapsto> []], dm_current = None, dm_maxChainSize = 0\<rparr>"

definition dm_next :: "chain_manager \<Rightarrow> nat \<Rightarrow> nat outcome" where
  "dm_next m d = (case dm_chains m (dm_current m) of None \<Rightarrow> Faults NullDeref | Some c \<Rightarrow> Returns (dc_next c d))"

text \<open>The loop over the chains resizes every one of them.\<close>

definition dm_resize :: "nat \<Rightarrow> nat \<Rightarrow> chain_manager \<Rightarrow> chain_manager outcome" where
  "dm_resize previous new m =
     (if \<forall>c \<in> ran (dm_chains m). previous = length c
      then Returns (m\<lparr>dm_maxChainSize := new,
        dm_chains := (\<lambda>k. case dm_chains m k of None \<Rightarrow> None
          | Some c \<Rightarrow> (case dc_resize previous new c of Returns c' \<Rightarrow> Some c' | _ \<Rightarrow> None))\<rparr>)
      else Faults AssertFailed)"

definition dm_addDesktop :: "nat \<Rightarrow> chain_manager \<Rightarrow> chain_manager outcome" where
  "dm_addDesktop current m =
     (case dm_chains m (dm_current m) of None \<Rightarrow> Faults NullDeref
      | Some c \<Rightarrow> Returns (m\<lparr>dm_chains := (dm_chains m)(dm_current m \<mapsto> dc_add current c)\<rparr>))"

definition dm_createFirstChain :: "string option \<Rightarrow> chain_manager \<Rightarrow> chain_manager outcome" where
  "dm_createFirstChain ident m =
     (case dm_chains m (dm_current m) of None \<Rightarrow> Faults NullDeref
      | Some c \<Rightarrow> Returns (m\<lparr>dm_chains := ((dm_chains m)(dm_current m := None))(ident \<mapsto> c), dm_current := ident\<rparr>))"

definition dm_addNewChain :: "string option \<Rightarrow> chain_manager \<Rightarrow> chain_manager" where
  "dm_addNewChain ident m = m\<lparr>dm_chains := (dm_chains m)(ident \<mapsto> dc_init (dm_maxChainSize m)), dm_current := ident\<rparr>"

definition dm_useChain :: "string option \<Rightarrow> chain_manager \<Rightarrow> chain_manager outcome" where
  "dm_useChain ident m =
     (if dm_current m = None then dm_createFirstChain ident m
      else if dm_chains m ident = None then Returns (dm_addNewChain ident m)
      else Returns (m\<lparr>dm_current := ident\<rparr>))"

section \<open>Adding a desktop\<close>

lemma dc_shift_spec:
  "i < length c \<Longrightarrow> dc_shift i c = (if i = 0 then c else hd c # take i c @ drop (Suc i) c)"
proof (induction i arbitrary: c)
  case (Suc i)
  let ?c = "c[Suc i := c ! i]"
  obtain x xs where c1: "c = x # xs" using Suc.prems by (cases c) auto
  then have c: "c \<noteq> []" "hd ?c = hd c" by simp_all
  have c3: "take i ?c = take i c" by simp
  have d: "drop (Suc i) ?c = c ! i # drop (Suc (Suc i)) c" using Suc.prems by (simp add: upd_conv_take_nth_drop)
  have t: "take (Suc i) c = take i c @ [c ! i]" using Suc.prems by (simp add: take_Suc_conv_app_nth)
  have "dc_shift i ?c = (if i = 0 then ?c else hd ?c # take i ?c @ drop (Suc i) ?c)"
    using Suc by simp
  also have "\<dots> = hd c # take (Suc i) c @ drop (Suc (Suc i)) c"
  proof (cases "i = 0")
    case True
    then show ?thesis using c(1) d Suc.prems by (cases c) simp_all
  next
    case False
    then show ?thesis by (simp add: c(2) c3 d t)
  qed
  finally show ?case by simp
qed simp

lemma dc_add_spec:
  assumes "c \<noteq> []" "d \<le> length c" and "i = (case index_of d c of None \<Rightarrow> length c - 1 | Some i \<Rightarrow> i)"
  shows "dc_add d c = d # take i c @ drop (Suc i) c" and "i < length c"
proof -
  show i: "i < length c" using assms by (auto split: option.splits dest: index_of_SomeD)
  show "dc_add d c = d # take i c @ drop (Suc i) c"
    using assms dc_shift_spec [OF i] by (cases c) (auto simp: dc_add_def)
qed

text \<open>A chain in order: a permutation of the numbers of the desktops.\<close>

definition dc_perm :: "nat \<Rightarrow> dchain \<Rightarrow> bool" where
  "dc_perm n c \<longleftrightarrow> mset c = mset (dc_init n)"

definition dc_valid :: "nat \<Rightarrow> dchain \<Rightarrow> bool" where
  "dc_valid n c \<longleftrightarrow> length c = n \<and> set c \<subseteq> {1..n}"

lemma dc_init_set: "set (dc_init n) = {1..n}" "distinct (dc_init n)" "length (dc_init n) = n"
  by (auto simp: dc_init_def image_iff distinct_map Suc_le_eq gr0_conv_Suc)

lemma dc_permD: "dc_perm n c \<Longrightarrow> dc_valid n c \<and> distinct c \<and> set c = {1..n}"
  using mset_eq_setD [of c "dc_init n"] mset_eq_length [of c "dc_init n"] mset_eq_imp_distinct_iff [of c "dc_init n"]
  by (simp add: dc_perm_def dc_valid_def dc_init_set)

lemma dc_init_perm: "dc_perm n (dc_init n)"
  by (simp add: dc_perm_def)

lemma dc_add_valid: "dc_valid n c \<Longrightarrow> 1 \<le> d \<Longrightarrow> dc_valid n (dc_add d c)"
proof -
  assume v: "dc_valid n c" and d: "1 \<le> d"
  show ?thesis
  proof (cases "c = [] \<or> d > length c")
    case True
    with v show ?thesis by (auto simp: dc_add_def)
  next
    case False
    then have f: "c \<noteq> []" "d \<le> length c" by auto
    show ?thesis using dc_add_spec [OF f refl] v d f
      by (auto simp: dc_valid_def dest!: in_set_takeD in_set_dropD split: option.splits)
  qed
qed

lemma dc_add_perm:
  assumes "dc_perm n c" "1 \<le> d"
  shows "dc_perm n (dc_add d c)"
proof (cases "c = [] \<or> d > length c")
  case True
  with assms show ?thesis by (auto simp: dc_add_def)
next
  case False
  then have f: "c \<noteq> []" "d \<le> length c" by auto
  with dc_permD [OF assms(1)] assms(2) obtain i where i: "index_of d c = Some i"
    by (cases "index_of d c") (auto simp: index_of_None dc_valid_def)
  then have "dc_add d c = d # take i c @ drop (Suc i) c" "i < length c" "c ! i = d"
    using dc_add_spec [OF f refl] index_of_SomeD [OF i] by simp_all
  then have "mset (dc_add d c) = mset c"
    by (metis append.assoc append_Cons id_take_nth_drop mset_append mset.simps(2) union_mset_add_mset_right)
  with assms(1) show ?thesis by (simp add: dc_perm_def)
qed

lemma dc_resize_valid:
  assumes "dc_valid n c"
  shows "\<exists>c'. dc_resize n n' c = Returns c' \<and> dc_valid n' c' \<and> (n \<le> n' \<and> dc_perm n c \<longrightarrow> dc_perm n' c')"
proof (cases "n \<le> n'")
  case True
  then have "map Suc [0..<n'] = map Suc [0..<n] @ map Suc [n..<n']" by (metis le_Suc_ex map_append upt_add_eq_append zero_le)
  with assms True show ?thesis by (auto simp: dc_resize_def dc_valid_def dc_perm_def dc_init_def)
next
  case False
  have "min d n' \<in> {1..n'}" if "d \<in> set (take n' c)" for d
    using that assms set_take_subset [of n' c] by (cases "n' = 0") (auto simp: dc_valid_def)
  with False assms show ?thesis by (auto simp: dc_resize_def dc_valid_def)
qed

section \<open>Walking along a chain\<close>

lemma dc_next_nth:
  assumes "distinct c" "i < length c"
  shows "dc_next c (c ! i) = c ! (Suc i mod length c)"
  using assms by (cases "Suc i = length c") (auto simp: dc_next_def index_of_nth)

lemma dc_next_funpow:
  assumes "distinct c" "i < length c"
  shows "(dc_next c ^^ k) (c ! i) = c ! ((i + k) mod length c)"
proof (induction k)
  case (Suc k)
  have "(i + k) mod length c < length c" using assms(2) by (intro mod_less_divisor) auto
  from dc_next_nth [OF assms(1) this] Suc show ?case by (simp add: mod_Suc_eq)
qed (use assms in simp)

lemma dc_next_reaches:
  assumes "dc_perm n c" "a \<in> {1..n}" "b \<in> {1..n}"
  shows "\<exists>k < n. (dc_next c ^^ k) a = b"
proof -
  from dc_permD [OF assms(1)] assms(2,3) obtain i j where ij: "i < length c" "c ! i = a" "j < length c" "c ! j = b"
    and n: "distinct c" "length c = n" by (metis dc_valid_def in_set_conv_nth)
  let ?k = "(j + (n - i)) mod n"
  have "(i + ?k) mod n = (i + (j + (n - i))) mod n" by (simp add: mod_add_right_eq)
  also have "\<dots> = (j + n) mod n" using ij(1) n(2) by simp
  also have "\<dots> = j" using ij(3) n(2) by simp
  finally have "(dc_next c ^^ ?k) a = b" using dc_next_funpow [OF n(1) ij(1), of ?k] ij n(2) by simp
  moreover have "?k < n" using ij(1) n(2) by (intro mod_less_divisor) auto
  ultimately show ?thesis by blast
qed

section \<open>Requests to the manager\<close>

datatype dm_request = DmAdd nat | DmResize nat | DmUse "string option"

fun dm_exec :: "dm_request \<Rightarrow> chain_manager \<Rightarrow> chain_manager outcome" where
  "dm_exec (DmAdd d) m = dm_addDesktop d m"
| "dm_exec (DmResize n) m = dm_resize (dm_maxChainSize m) n m"
| "dm_exec (DmUse ident) m = dm_useChain ident m"

definition dm_all :: "(nat \<Rightarrow> dchain \<Rightarrow> bool) \<Rightarrow> chain_manager \<Rightarrow> bool" where
  "dm_all P m \<longleftrightarrow> dm_chains m (dm_current m) \<noteq> None \<and> (\<forall>c \<in> ran (dm_chains m). P (dm_maxChainSize m) c)"

text \<open>Numbers of desktops start at one.\<close>

fun dm_fair :: "dm_request \<Rightarrow> bool" where
  "dm_fair (DmAdd d) \<longleftrightarrow> 1 \<le> d"
| "dm_fair _ \<longleftrightarrow> True"

lemma ran_upd_cases: "c \<in> ran (f(k \<mapsto> d)) \<Longrightarrow> c = d \<or> c \<in> ran f"
  by (auto simp: ran_def split: if_splits)

lemma ran_del_cases: "c \<in> ran (f(k := None)) \<Longrightarrow> c \<in> ran f"
  by (auto simp: ran_def split: if_splits)

text \<open>Any property that new chains have and adding and resizing keep is kept by every request.\<close>

lemma dm_exec_all:
  assumes all: "dm_all P m" and new: "\<And>n. P n (dc_init n)" and add: "\<And>n c d. P n c \<Longrightarrow> 1 \<le> d \<Longrightarrow> P n (dc_add d c)"
    and resize: "\<And>n n' c. P n c \<Longrightarrow> r = DmResize n' \<Longrightarrow> n = dm_maxChainSize m \<Longrightarrow> \<exists>c'. dc_resize n n' c = Returns c' \<and> P n' c'"
    and len: "\<And>n c. P n c \<Longrightarrow> length c = n" and "dm_fair r"
  shows "\<exists>m'. dm_exec r m = Returns m' \<and> dm_all P m'"
proof -
  obtain c where c: "dm_chains m (dm_current m) = Some c" "P (dm_maxChainSize m) c" using all by (auto simp: dm_all_def ran_def)
  note mem = all [unfolded dm_all_def, THEN conjunct2, rule_format]
  show ?thesis
  proof (cases r)
    case (DmAdd d)
    then show ?thesis using c add [OF c(2), of d] mem assms(6) by (auto simp: dm_addDesktop_def dm_all_def dest!: ran_upd_cases)
  next
    case (DmResize n')
    have "\<exists>c'. dc_resize (dm_maxChainSize m) n' d = Returns c' \<and> P n' c'" if "dm_chains m k = Some d" for k d
      using resize [OF mem DmResize refl, of d] that by (auto simp: ran_def)
    then obtain F where F: "\<And>k d. dm_chains m k = Some d \<Longrightarrow> dc_resize (dm_maxChainSize m) n' d = Returns (F k d) \<and> P n' (F k d)" by metis
    have l: "\<forall>d \<in> ran (dm_chains m). dm_maxChainSize m = length d" using mem len by metis
    show ?thesis using DmResize l c F by (auto simp: dm_resize_def dm_all_def ran_def split: option.splits)
  next
    case (DmUse ident)
    then show ?thesis
      using c mem new by (auto simp: dm_useChain_def dm_createFirstChain_def dm_addNewChain_def dm_all_def dest!: ran_upd_cases ran_del_cases)
  qed
qed

primrec dm_run :: "dm_request list \<Rightarrow> chain_manager \<Rightarrow> chain_manager outcome" where
  "dm_run [] m = Returns m"
| "dm_run (r # rs) m = obind (dm_exec r m) (dm_run rs)"

text \<open>Requests under which no desktop is removed.\<close>

fun dm_growing :: "nat \<Rightarrow> dm_request list \<Rightarrow> bool" where
  "dm_growing n [] \<longleftrightarrow> True"
| "dm_growing n (DmResize n' # rs) \<longleftrightarrow> n \<le> n' \<and> dm_growing n' rs"
| "dm_growing n (_ # rs) \<longleftrightarrow> dm_growing n rs"

lemma dm_run_valid:
  "dm_all dc_valid m \<Longrightarrow> \<forall>r \<in> set rs. dm_fair r \<Longrightarrow> \<exists>m'. dm_run rs m = Returns m' \<and> dm_all dc_valid m'"
proof (induction rs arbitrary: m)
  case (Cons r rs)
  have "\<exists>m'. dm_exec r m = Returns m' \<and> dm_all dc_valid m'"
  proof (rule dm_exec_all [OF Cons.prems(1)])
    show "\<exists>c'. dc_resize n n' c = Returns c' \<and> dc_valid n' c'" if "dc_valid n c" for n n' c
      using dc_resize_valid [OF that] by blast
  qed (use Cons.prems(2) dc_add_valid dc_permD [OF dc_init_perm] in \<open>auto simp: dc_valid_def [THEN iffD1]\<close>)
  with Cons show ?case by fastforce
qed simp

lemma dm_exec_size: "dm_exec r m = Returns m' \<Longrightarrow> dm_maxChainSize m' = (case r of DmResize n \<Rightarrow> n | _ \<Rightarrow> dm_maxChainSize m)"
  by (cases r) (auto simp: dm_addDesktop_def dm_resize_def dm_useChain_def dm_createFirstChain_def dm_addNewChain_def split: option.splits if_splits)

lemma dm_run_perm:
  "dm_all dc_perm m \<Longrightarrow> \<forall>r \<in> set rs. dm_fair r \<Longrightarrow> dm_growing (dm_maxChainSize m) rs \<Longrightarrow> \<exists>m'. dm_run rs m = Returns m' \<and> dm_all dc_perm m'"
proof (induction rs arbitrary: m)
  case (Cons r rs)
  have "\<exists>m'. dm_exec r m = Returns m' \<and> dm_all dc_perm m'"
  proof (rule dm_exec_all [OF Cons.prems(1)])
    show "\<exists>c'. dc_resize n n' c = Returns c' \<and> dc_perm n' c'" if "dc_perm n c" "r = DmResize n'" "n = dm_maxChainSize m" for n n' c
      using dc_resize_valid [of n c n'] dc_permD [OF that(1)] that Cons.prems(3) by auto
  qed (use Cons.prems(2) dc_add_perm dc_init_perm dc_permD in \<open>auto simp: dc_valid_def\<close>)
  then obtain m' where m': "dm_exec r m = Returns m'" "dm_all dc_perm m'" by blast
  moreover have "dm_growing (dm_maxChainSize m') rs" using Cons.prems(3) dm_exec_size [OF m'(1)] by (cases r) auto
  ultimately show ?case using Cons by auto
qed simp

text \<open>
  No sequence of requests to a fresh manager of desktop chains fails an assertion or leaves it
  without a current chain, and the desktop that it names as the next one always exists. As long as no
  desktop is removed, walking from desktop to desktop along the chain reaches every desktop in fewer steps
  than there are desktops.
\<close>

theorem desktop_chains_reach_all:
  assumes "\<forall>r \<in> set rs. dm_fair r"
  shows "\<exists>m c. dm_run rs dm_init = Returns m \<and> dm_chains m (dm_current m) = Some c \<and>
    (\<forall>d. dm_maxChainSize m \<noteq> 0 \<longrightarrow> (\<exists>e. dm_next m d = Returns e \<and> 1 \<le> e \<and> e \<le> dm_maxChainSize m)) \<and>
    (dm_growing 0 rs \<longrightarrow> (\<forall>a \<in> {1..dm_maxChainSize m}. \<forall>b \<in> {1..dm_maxChainSize m}. \<exists>k < dm_maxChainSize m. (dc_next c ^^ k) a = b))"
proof -
  have i: "dm_all dc_valid dm_init" "dm_all dc_perm dm_init" "dm_maxChainSize dm_init = 0"
    by (auto simp: dm_all_def dm_init_def dc_valid_def dc_perm_def dc_init_def)
  from dm_run_valid [OF i(1) assms] obtain m where m: "dm_run rs dm_init = Returns m" "dm_all dc_valid m" by blast
  then obtain c where c: "dm_chains m (dm_current m) = Some c" "dc_valid (dm_maxChainSize m) c" by (auto simp: dm_all_def ran_def)
  have "dc_next c d \<in> set c" if "c \<noteq> []" for d
    using that by (auto simp: dc_next_def split: option.splits)
  then have "\<exists>e. dm_next m d = Returns e \<and> 1 \<le> e \<and> e \<le> dm_maxChainSize m" if "dm_maxChainSize m \<noteq> 0" for d
    using that c by (fastforce simp: dm_next_def dc_valid_def)
  moreover have "dc_perm (dm_maxChainSize m) c" if "dm_growing 0 rs"
    using dm_run_perm [OF i(2) assms] that i(3) m(1) c(1) by (auto simp: dm_all_def ran_def)
  ultimately show ?thesis using m(1) c(1) dc_next_reaches by blast
qed

theorem desktop_chains_reach_all_witness:
  "\<exists>m c. dm_run [DmResize 3, DmUse (Some ''work''), DmAdd 2, DmAdd 3] dm_init = Returns m \<and> dm_chains m (dm_current m) = Some c \<and>
     (\<exists>k. (dc_next c ^^ k) 3 = 1)"
proof -
  let ?rs = "[DmResize 3, DmUse (Some ''work''), DmAdd 2, DmAdd 3]"
  have n: "dm_maxChainSize m = 3" if "dm_run ?rs dm_init = Returns m" for m
    using that by (auto dest!: dm_exec_size simp del: dm_exec.simps)
  show ?thesis using desktop_chains_reach_all [of ?rs] n by fastforce
qed

text \<open>
  After a desktop was removed the chain may hold the last desktop twice and miss another one: walking
  along it from desktop 2 stays there for ever.
\<close>

lemma removal_cuts_chain:
  "dc_resize 3 2 (dc_add 2 (dc_add 3 (dc_init 3))) = Returns [2, 2]" "(dc_next [2, 2] ^^ k) 2 = 2"
proof -
  show "dc_resize 3 2 (dc_add 2 (dc_add 3 (dc_init 3))) = Returns [2, 2]" by code_simp
  show "(dc_next [2, 2] ^^ k) 2 = 2" by (induction k) (simp_all add: dc_next_def)
qed

end
