(* ===== verification/Gestures.thy ===== *)
theory Gestures
  imports Complex_Main Geometry
begin

text \<open>
  Recognising swipe gestures: \<open>SwipeGesture\<close> and \<open>GestureRecognizer\<close> (\<^verbatim>\<open>gestures.cpp\<close>,
  \<^verbatim>\<open>gestures.h\<close>). Gestures are objects in a store; an object that is not a \<open>SwipeGesture\<close> is \<open>None\<close>
  there, as for \<open>qobject_cast\<close>. Movements are pairs of rationals where the source has \<open>qreal\<close>. The
  signals of the gestures are appended to a log, in the order in which they are emitted.
\<close>

section \<open>A gesture\<close>

datatype direction = Down | Left | Up | Right

type_synonym delta = "rat \<times> rat"

text \<open>Each pair of a value and its flag \<open>...Relevant\<close> is an option.\<close>

record swipe =
  sg_minimumFingerCount :: "nat option"
  sg_maximumFingerCount :: "nat option"
  sg_direction :: direction
  sg_minimumX :: "int option"
  sg_minimumY :: "int option"
  sg_maximumX :: "int option"
  sg_maximumY :: "int option"
  sg_minimumDelta :: "delta option"

definition setStartGeometry :: "rect \<Rightarrow> swipe \<Rightarrow> swipe outcome" where
  "setStartGeometry geo g =
     oassert (rleft geo + rwidth geo \<ge> rleft geo)
       (oassert (rtop geo + rheight geo \<ge> rtop geo)
         (Returns (g\<lparr>sg_minimumX := Some (rleft geo), sg_minimumY := Some (rtop geo),
            sg_maximumX := Some (rleft geo + rwidth geo), sg_maximumY := Some (rtop geo + rheight geo)\<rparr>)))"

text \<open>\<open>std::min(a / b, 1.0)\<close> in floating point; \<open>None\<close> is the value \<open>0 / 0\<close>, which no comparison holds of.\<close>

definition capped_ratio :: "rat \<Rightarrow> rat \<Rightarrow> rat option" where
  "capped_ratio a b = (if b = 0 then (if a = 0 then None else Some 1) else Some (min (a / b) 1))"

definition minimumDeltaReachedProgress :: "swipe \<Rightarrow> delta \<Rightarrow> rat option" where
  "minimumDeltaReachedProgress g d =
     (case sg_minimumDelta g of None \<Rightarrow> Some 1
      | Some m \<Rightarrow>
          if m = (0, 0) then Some 1
          else (case sg_direction g of
              Up \<Rightarrow> capped_ratio \<bar>snd d\<bar> \<bar>snd m\<bar>
            | Down \<Rightarrow> capped_ratio \<bar>snd d\<bar> \<bar>snd m\<bar>
            | Left \<Rightarrow> capped_ratio \<bar>fst d\<bar> \<bar>fst m\<bar>
            | Right \<Rightarrow> capped_ratio \<bar>fst d\<bar> \<bar>fst m\<bar>))"

definition minimumDeltaReached :: "swipe \<Rightarrow> delta \<Rightarrow> bool" where
  "minimumDeltaReached g d = (case minimumDeltaReachedProgress g d of None \<Rightarrow> False | Some p \<Rightarrow> p \<ge> 1)"

section \<open>The recognizer\<close>

datatype gesture_signal = Started addr | Progress addr "rat option" | Cancelled addr | Triggered addr

record recognizer =
  gr_store :: "addr \<Rightarrow> swipe option"
  gr_gestures :: "addr list"
  gr_active :: "addr list"
  gr_updates :: "delta list"
  gr_log :: "gesture_signal list"

definition gr_emit :: "gesture_signal list \<Rightarrow> recognizer \<Rightarrow> recognizer" where
  "gr_emit es r = r\<lparr>gr_log := gr_log r @ es\<rparr>"

definition registerGesture :: "addr \<Rightarrow> recognizer \<Rightarrow> recognizer outcome" where
  "registerGesture a r = oassert (a \<notin> set (gr_gestures r)) (Returns (r\<lparr>gr_gestures := gr_gestures r @ [a]\<rparr>))"

definition unregisterGesture :: "addr \<Rightarrow> recognizer \<Rightarrow> recognizer" where
  "unregisterGesture a r =
     (let r1 = r\<lparr>gr_gestures := removeAll a (gr_gestures r), gr_active := remove1 a (gr_active r)\<rparr>
      in if a \<in> set (gr_active r) then gr_emit [Cancelled a] r1 else r1)"

text \<open>The conditions of the loop of \<open>startSwipeGesture\<close>; \<open>pos\<close> is \<open>None\<close> when the start position is irrelevant.\<close>

definition may_start :: "nat \<Rightarrow> delta option \<Rightarrow> swipe \<Rightarrow> bool" where
  "may_start fingers pos g \<longleftrightarrow>
     (case sg_minimumFingerCount g of None \<Rightarrow> True | Some n \<Rightarrow> n \<le> fingers) \<and>
     (case sg_maximumFingerCount g of None \<Rightarrow> True | Some n \<Rightarrow> fingers \<le> n) \<and>
     (case pos of None \<Rightarrow> True
      | Some p \<Rightarrow>
          (case sg_minimumX g of None \<Rightarrow> True | Some x \<Rightarrow> of_int x \<le> fst p) \<and>
          (case sg_maximumX g of None \<Rightarrow> True | Some x \<Rightarrow> fst p \<le> of_int x) \<and>
          (case sg_minimumY g of None \<Rightarrow> True | Some y \<Rightarrow> of_int y \<le> snd p) \<and>
          (case sg_maximumY g of None \<Rightarrow> True | Some y \<Rightarrow> snd p \<le> of_int y))"

fun start_loop :: "nat \<Rightarrow> delta option \<Rightarrow> addr list \<Rightarrow> nat \<Rightarrow> recognizer \<Rightarrow> (nat \<times> recognizer) outcome" where
  "start_loop fingers pos [] n r = Returns (n, r)"
| "start_loop fingers pos (a # as) n r =
     (case gr_store r a of None \<Rightarrow> Faults NullDeref
      | Some g \<Rightarrow>
          if may_start fingers pos g
          then start_loop fingers pos as (Suc n) (gr_emit [Started a] (r\<lparr>gr_active := gr_active r @ [a]\<rparr>))
          else start_loop fingers pos as n r)"

definition startSwipeGesture :: "nat \<Rightarrow> delta option \<Rightarrow> recognizer \<Rightarrow> (nat \<times> recognizer) outcome" where
  "startSwipeGesture fingers pos r = start_loop fingers pos (gr_gestures r) 0 r"

definition sum_deltas :: "delta list \<Rightarrow> delta" where
  "sum_deltas ds = foldl (\<lambda>a d. (fst a + fst d, snd a + snd d)) (0, 0) ds"

definition cancelActiveSwipeGestures :: "recognizer \<Rightarrow> recognizer" where
  "cancelActiveSwipeGestures r = gr_emit (map Cancelled (gr_active r)) (r\<lparr>gr_active := []\<rparr>)"

definition cancelSwipeGesture :: "recognizer \<Rightarrow> recognizer" where
  "cancelSwipeGesture r = (cancelActiveSwipeGestures r)\<lparr>gr_updates := []\<rparr>"

definition sub_pixel :: "delta \<Rightarrow> bool" where
  "sub_pixel d \<longleftrightarrow> \<bar>fst d\<bar> < 1 \<and> \<bar>snd d\<bar> < 1"

definition swipe_direction :: "delta \<Rightarrow> direction" where
  "swipe_direction d =
     (if \<bar>fst d\<bar> > \<bar>snd d\<bar> then (if fst d < 0 then Left else Right)
      else if snd d < 0 then Up else Down)"

text \<open>The loop over the active gestures: who remains, and the signals.\<close>

fun update_loop :: "(addr \<Rightarrow> swipe option) \<Rightarrow> direction \<Rightarrow> delta \<Rightarrow> addr list \<Rightarrow> (addr list \<times> gesture_signal list) outcome" where
  "update_loop S dir combined [] = Returns ([], [])"
| "update_loop S dir combined (a # as) =
     (case S a of None \<Rightarrow> Faults NullDeref
      | Some g \<Rightarrow> obind (update_loop S dir combined as) (\<lambda>(keep, es). Returns (
          if sg_direction g = dir
          then (a # keep, (if sg_minimumDelta g \<noteq> None then [Progress a (minimumDeltaReachedProgress g combined)] else []) @ es)
          else (keep, Cancelled a # es))))"

definition updateSwipeGesture :: "delta \<Rightarrow> recognizer \<Rightarrow> recognizer outcome" where
  "updateSwipeGesture d r =
     (let r1 = r\<lparr>gr_updates := gr_updates r @ [d]\<rparr> in
      if sub_pixel d then Returns r1
      else if fst d = snd d then Returns (cancelActiveSwipeGestures r1)
      else obind (update_loop (gr_store r1) (swipe_direction d) (sum_deltas (gr_updates r1)) (gr_active r1)) (\<lambda>(keep, es).
        Returns (gr_emit es (r1\<lparr>gr_active := keep\<rparr>))))"

fun end_signals :: "(addr \<Rightarrow> swipe option) \<Rightarrow> delta \<Rightarrow> addr list \<Rightarrow> gesture_signal list outcome" where
  "end_signals S d [] = Returns []"
| "end_signals S d (a # as) =
     (case S a of None \<Rightarrow> Faults NullDeref
      | Some g \<Rightarrow> obind (end_signals S d as) (\<lambda>es. Returns ((if minimumDeltaReached g d then Triggered a else Cancelled a) # es)))"

definition endSwipeGesture :: "recognizer \<Rightarrow> recognizer outcome" where
  "endSwipeGesture r =
     obind (end_signals (gr_store r) (sum_deltas (gr_updates r)) (gr_active r)) (\<lambda>es.
       Returns (gr_emit es (r\<lparr>gr_active := [], gr_updates := []\<rparr>)))"

section \<open>Gestures as a state machine\<close>

text \<open>
  The events of the input devices: a swipe starts only when none is running, which the source notes as
  something to be verified.
\<close>

inductive gr_step :: "recognizer \<Rightarrow> recognizer \<Rightarrow> bool" where
  register: "gr_store r a \<noteq> None \<Longrightarrow> registerGesture a r = Returns r' \<Longrightarrow> gr_step r r'"
| unregister: "gr_step r (unregisterGesture a r)"
| start: "gr_active r = [] \<Longrightarrow> gr_updates r = [] \<Longrightarrow> startSwipeGesture n pos r = Returns (k, r') \<Longrightarrow> gr_step r r'"
| update: "updateSwipeGesture d r = Returns r' \<Longrightarrow> gr_step r r'"
| cancel: "gr_step r (cancelSwipeGesture r)"
| finish: "endSwipeGesture r = Returns r' \<Longrightarrow> gr_step r r'"

definition gr_init :: "(addr \<Rightarrow> swipe option) \<Rightarrow> recognizer" where
  "gr_init S = \<lparr>gr_store = S, gr_gestures = [], gr_active = [], gr_updates = [], gr_log = []\<rparr>"

fun started_of :: "gesture_signal \<Rightarrow> addr multiset" where
  "started_of (Started a) = {#a#}"
| "started_of _ = {#}"

fun ended_of :: "gesture_signal \<Rightarrow> addr multiset" where
  "ended_of (Cancelled a) = {#a#}"
| "ended_of (Triggered a) = {#a#}"
| "ended_of _ = {#}"

definition starts :: "recognizer \<Rightarrow> addr multiset" where "starts r = sum_list (map started_of (gr_log r))"
definition ends :: "recognizer \<Rightarrow> addr multiset" where "ends r = sum_list (map ended_of (gr_log r))"

text \<open>Every movement, apart from those below one pixel, goes in the direction of the gesture.\<close>

definition straight :: "delta list \<Rightarrow> swipe \<Rightarrow> bool" where
  "straight ds g \<longleftrightarrow> list_all (\<lambda>d. sub_pixel d \<or> fst d \<noteq> snd d \<and> swipe_direction d = sg_direction g) ds"

definition gr_inv :: "recognizer \<Rightarrow> bool" where
  "gr_inv r \<longleftrightarrow> distinct (gr_gestures r) \<and> distinct (gr_active r) \<and> set (gr_active r) \<subseteq> set (gr_gestures r) \<and>
     (\<forall>a \<in> set (gr_gestures r). gr_store r a \<noteq> None) \<and> starts r = ends r + mset (gr_active r) \<and>
     (\<forall>a \<in> set (gr_active r). \<forall>g. gr_store r a = Some g \<longrightarrow> straight (gr_updates r) g)"

lemma straight_simps [simp]:
  "straight [] g" "straight (ds @ [d]) g \<longleftrightarrow> straight ds g \<and> (sub_pixel d \<or> fst d \<noteq> snd d \<and> swipe_direction d = sg_direction g)"
  by (simp_all add: straight_def)

lemma emit_counts [simp]:
  "starts (gr_emit es r) = starts r + sum_list (map started_of es)" "ends (gr_emit es r) = ends r + sum_list (map ended_of es)"
  by (simp_all add: starts_def ends_def gr_emit_def)

lemma emit_fields [simp]:
  "gr_store (gr_emit es r) = gr_store r" "gr_gestures (gr_emit es r) = gr_gestures r" "gr_active (gr_emit es r) = gr_active r"
  "gr_updates (gr_emit es r) = gr_updates r" "gr_log (gr_emit es r) = gr_log r @ es"
  by (simp_all add: gr_emit_def)

lemma counts_update [simp]:
  "starts (r\<lparr>gr_active := as\<rparr>) = starts r" "ends (r\<lparr>gr_active := as\<rparr>) = ends r"
  "starts (r\<lparr>gr_updates := ds\<rparr>) = starts r" "ends (r\<lparr>gr_updates := ds\<rparr>) = ends r"
  "starts (r\<lparr>gr_gestures := gs\<rparr>) = starts r" "ends (r\<lparr>gr_gestures := gs\<rparr>) = ends r"
  by (simp_all add: starts_def ends_def)

lemma sum_signals [simp]:
  "sum_list (map (ended_of \<circ> Cancelled) as) = mset as" "sum_list (map (started_of \<circ> Cancelled) as) = {#}"
  by (induction as) simp_all

lemma start_loop_spec:
  "start_loop n pos as k r = Returns (k', r') \<Longrightarrow>
   let bs = filter (\<lambda>a. \<exists>g. gr_store r a = Some g \<and> may_start n pos g) as
   in k' = k + length bs \<and> gr_active r' = gr_active r @ bs \<and> gr_gestures r' = gr_gestures r \<and> gr_store r' = gr_store r \<and>
      gr_updates r' = gr_updates r \<and> starts r' = starts r + mset bs \<and> ends r' = ends r"
proof (induction as arbitrary: k r)
  case (Cons a as)
  then obtain g where g: "gr_store r a = Some g" by (cases "gr_store r a") auto
  show ?case
  proof (cases "may_start n pos g")
    case True
    let ?r = "gr_emit [Started a] (r\<lparr>gr_active := gr_active r @ [a]\<rparr>)"
    have "start_loop n pos as (Suc k) ?r = Returns (k', r')" using Cons.prems g True by simp
    from Cons.IH [OF this] g True show ?thesis by (simp add: Let_def)
  next
    case False
    with Cons g show ?thesis by simp
  qed
qed simp

lemma update_loop_spec:
  "update_loop S dir c as = Returns (keep, es) \<Longrightarrow>
   keep = filter (\<lambda>a. \<exists>g. S a = Some g \<and> sg_direction g = dir) as \<and> sum_list (map started_of es) = {#} \<and>
   sum_list (map ended_of es) + mset keep = mset as"
proof (induction as arbitrary: keep es)
  case (Cons a as)
  then obtain g keep' es' where g: "S a = Some g" and k: "update_loop S dir c as = Returns (keep', es')"
    by (cases "S a") auto
  from Cons.prems g k have "(keep, es) = (if sg_direction g = dir
      then (a # keep', (if sg_minimumDelta g \<noteq> None then [Progress a (minimumDeltaReachedProgress g c)] else []) @ es')
      else (keep', Cancelled a # es'))" by simp
  with Cons.IH [OF k] g show ?case by (auto split: if_splits)
qed simp

lemma end_signals_spec:
  assumes "\<forall>a \<in> set as. S a \<noteq> None"
  shows "\<exists>es. end_signals S d as = Returns es \<and> sum_list (map started_of es) = {#} \<and> sum_list (map ended_of es) = mset as \<and>
    (\<forall>a. Triggered a \<in> set es \<longleftrightarrow> a \<in> set as \<and> (\<exists>g. S a = Some g \<and> minimumDeltaReached g d))"
  using assms
proof (induction as)
  case (Cons a as)
  then obtain es g where "end_signals S d as = Returns es" "S a = Some g" "sum_list (map started_of es) = {#}"
    "sum_list (map ended_of es) = mset as" "\<forall>a. Triggered a \<in> set es \<longleftrightarrow> a \<in> set as \<and> (\<exists>g. S a = Some g \<and> minimumDeltaReached g d)" by auto
  then show ?case by auto
qed simp

lemma cancel_inv: "gr_inv r \<Longrightarrow> gr_inv (cancelActiveSwipeGestures r)"
  by (simp add: gr_inv_def cancelActiveSwipeGestures_def)

lemma update_inv:
  assumes "gr_inv r" "updateSwipeGesture d r = Returns r'"
  shows "gr_inv r'"
proof -
  let ?r = "r\<lparr>gr_updates := gr_updates r @ [d]\<rparr>"
  consider "sub_pixel d" | "\<not> sub_pixel d" "fst d = snd d" | "\<not> sub_pixel d" "fst d \<noteq> snd d" by blast
  then show ?thesis
  proof cases
    case 1
    with assms show ?thesis by (auto simp: updateSwipeGesture_def gr_inv_def)
  next
    case 2
    with assms show ?thesis by (auto simp: updateSwipeGesture_def gr_inv_def cancelActiveSwipeGestures_def)
  next
    case 3
    with assms(2) obtain keep es where k: "update_loop (gr_store r) (swipe_direction d) (sum_deltas (gr_updates ?r)) (gr_active r) = Returns (keep, es)"
      and r': "r' = gr_emit es (?r\<lparr>gr_active := keep\<rparr>)" by (auto simp: updateSwipeGesture_def Let_def)
    note u = update_loop_spec [OF k]
    have "starts r' = starts r" "ends r' + mset keep = ends r + mset (gr_active r)" using conjunct2 [OF u] by (simp_all add: r' add.assoc)
    then have "starts r' = ends r' + mset keep" using assms(1) by (simp add: gr_inv_def)
    moreover have "distinct keep" "set keep \<subseteq> set (gr_active r)" using u assms(1) by (auto simp: gr_inv_def)
    moreover have "straight (gr_updates r') g" if "a \<in> set keep" "gr_store r a = Some g" for a g
      using that u assms(1) 3(2) by (auto simp: r' gr_inv_def)
    ultimately show ?thesis using assms(1) by (auto simp: r' gr_inv_def)
  qed
qed

lemma gr_step_inv: "gr_step r r' \<Longrightarrow> gr_inv r \<Longrightarrow> gr_inv r'"
proof (induction rule: gr_step.induct)
  case (register r a r')
  then show ?case by (auto simp: registerGesture_def gr_inv_def)
next
  case (unregister r a)
  then show ?case
    by (auto simp: unregisterGesture_def gr_inv_def Let_def set_remove1_eq distinct_removeAll dest: notin_set_remove1 intro: in_set_remove1)
next
  case (start r n pos k r')
  then show ?case using start_loop_spec [of n pos "gr_gestures r" 0 r k r'] by (auto simp: startSwipeGesture_def gr_inv_def Let_def)
next
  case (update d r r')
  then show ?case using update_inv by blast
next
  case (cancel r)
  then show ?case using cancel_inv [of r] by (auto simp: cancelSwipeGesture_def gr_inv_def cancelActiveSwipeGestures_def)
next
  case (finish r r')
  then obtain es where "r' = gr_emit es (r\<lparr>gr_active := [], gr_updates := []\<rparr>)"
    "end_signals (gr_store r) (sum_deltas (gr_updates r)) (gr_active r) = Returns es" by (auto simp: endSwipeGesture_def)
  with finish.prems end_signals_spec [of "gr_active r" "gr_store r" "sum_deltas (gr_updates r)"] show ?case
    by (auto simp: gr_inv_def subset_iff)
qed

lemma gr_reachable_inv: "gr_step\<^sup>*\<^sup>* (gr_init S) r \<Longrightarrow> gr_inv r"
proof (induction rule: rtranclp_induct)
  case base
  then show ?case by (simp add: gr_inv_def gr_init_def starts_def ends_def)
qed (rule gr_step_inv)

lemma gr_step_store: "gr_step r r' \<Longrightarrow> gr_store r' = gr_store r"
proof (induction rule: gr_step.induct)
  case (start r n pos k r')
  then show ?case using start_loop_spec [of n pos "gr_gestures r" 0 r k r'] by (simp add: startSwipeGesture_def Let_def)
qed (auto simp: registerGesture_def unregisterGesture_def updateSwipeGesture_def cancelSwipeGesture_def cancelActiveSwipeGestures_def endSwipeGesture_def Let_def
    split: if_splits)

lemma gr_reachable_store: "gr_step\<^sup>*\<^sup>* (gr_init S) r \<Longrightarrow> gr_store r = S"
  by (induction rule: rtranclp_induct) (simp_all add: gr_step_store gr_init_def)


definition demo_swipe :: swipe where
  "demo_swipe = \<lparr>sg_minimumFingerCount = Some 3, sg_maximumFingerCount = Some 4, sg_direction = Up, sg_minimumX = None, sg_minimumY = None,
     sg_maximumX = None, sg_maximumY = None, sg_minimumDelta = Some (0, 10)\<rparr>"

definition demo_recognizer :: "nat \<Rightarrow> recognizer" where
  "demo_recognizer n = \<lparr>gr_store = (\<lambda>_. Some demo_swipe), gr_gestures = [0], gr_active = (if n = 0 then [] else [0]),
     gr_updates = replicate (n - 1) (1, -6), gr_log = (if n = 0 then [] else [Started 0]) @ (if n = 2 then [Progress 0 (Some (6 / 10))] else [])\<rparr>"


text \<open>
  Only one of the two diagonals is recognised: a movement along the other one counts as vertical.
\<close>

lemma other_diagonal_is_vertical: "swipe_direction (5, -5) = Up" "swipe_direction (-5, 5) = Down"
  by (simp_all add: swipe_direction_def)

text \<open>\<open>startSwipeGesture\<close> tests the wrong pointer after its cast: an object that is no swipe gesture is dereferenced.\<close>

lemma start_other_gesture_faults:
  "gr_store r a = None \<Longrightarrow> gr_gestures r = a # as \<Longrightarrow> startSwipeGesture n pos r = Faults NullDeref"
  by (simp add: startSwipeGesture_def)

end
