(* ===== verification/Modifier_Shortcuts.thy ===== *)
theory Modifier_Shortcuts
  imports KWin_Prelude
begin

text \<open>
  Shortcuts that consist of a modifier key alone: the class \<open>ModifierOnlyShortcuts\<close>
  (\<^verbatim>\<open>modifier_only_shortcuts.cpp\<close>), which spies on all input events. Modifiers are the bits of
  \<open>Qt::KeyboardModifiers\<close>, read as a number, 0 being \<open>NoModifier\<close>; the count of pressed buttons is
  an \<open>uint\<close>.
\<close>

record modifier_only =
  mo_modifier :: nat
  mo_cachedMods :: nat
  mo_buttonPressCount :: "32 word"
  mo_pressedKeys :: "nat set"

definition mo_init :: modifier_only where
  "mo_init = \<lparr>mo_modifier = 0, mo_cachedMods = 0, mo_buttonPressCount = 0, mo_pressedKeys = {}\<rparr>"

text \<open>What is asked at an event: the screen locker, the workspace and the options.\<close>

record mo_env =
  me_locked :: bool
  me_shortcutsDisabled :: bool
  me_shortcut :: "nat \<Rightarrow> string list"

text \<open>A call on the session bus: service, path, interface, method and arguments.\<close>

type_synonym bus_call = "string \<times> string \<times> string \<times> string \<times> string list"

definition mo_call :: "string list \<Rightarrow> bus_call option" where
  "mo_call l = (if length l \<ge> 4 then Some (l ! 0, l ! 1, l ! 2, l ! 3, drop 4 l) else None)"

definition mo_reset :: "modifier_only \<Rightarrow> modifier_only" where
  "mo_reset s = s\<lparr>mo_modifier := 0\<rparr>"

definition mo_keyEvent :: "mo_env \<Rightarrow> bool \<Rightarrow> bool \<Rightarrow> nat \<Rightarrow> nat \<Rightarrow> modifier_only \<Rightarrow> modifier_only \<times> bus_call option" where
  "mo_keyEvent E autoRepeat press scan mods s =
     (if autoRepeat then (s, None)
      else if press then
        let s1 = s\<lparr>mo_pressedKeys := insert scan (mo_pressedKeys s)\<rparr>;
            s2 = s1\<lparr>mo_modifier :=
              if mo_pressedKeys s = {} \<and> card (mo_pressedKeys s1) = 1 \<and> \<not> me_locked E \<and> mo_buttonPressCount s = 0 \<and> mo_cachedMods s = 0
              then mods else 0\<rparr>
        in (s2\<lparr>mo_cachedMods := mods\<rparr>, None)
      else if mo_pressedKeys s \<noteq> {} then
        let keys = mo_pressedKeys s - {scan};
            call = (if keys = {} \<and> mods = 0 \<and> \<not> me_shortcutsDisabled E \<and> mo_modifier s \<noteq> 0
                    then mo_call (me_shortcut E (mo_modifier s)) else None)
        in (s\<lparr>mo_pressedKeys := keys, mo_modifier := 0, mo_cachedMods := mods\<rparr>, call)
      else (s\<lparr>mo_modifier := 0, mo_cachedMods := mods\<rparr>, None))"

datatype pointer_kind = MouseMove | MouseButtonPress | MouseButtonRelease | OtherMouse

definition mo_pointerEvent :: "pointer_kind \<Rightarrow> modifier_only \<Rightarrow> modifier_only" where
  "mo_pointerEvent k s =
     (if k = MouseMove then s
      else mo_reset (s\<lparr>mo_buttonPressCount :=
        (if k = MouseButtonPress then mo_buttonPressCount s + 1
         else if k = MouseButtonRelease then mo_buttonPressCount s - 1 else mo_buttonPressCount s)\<rparr>))"

definition mo_wheelEvent :: "modifier_only \<Rightarrow> modifier_only" where
  "mo_wheelEvent s = mo_reset s"

section \<open>Sequences of events\<close>

datatype mo_event = KeyEvent bool bool nat nat | PointerEvent pointer_kind | WheelEvent | ScreenLocked

type_synonym mo_input = "mo_env \<times> mo_event"

fun mo_step :: "mo_input \<Rightarrow> modifier_only \<Rightarrow> modifier_only \<times> bus_call option" where
  "mo_step (E, KeyEvent autoRepeat press scan mods) s = mo_keyEvent E autoRepeat press scan mods s"
| "mo_step (E, PointerEvent k) s = (mo_pointerEvent k s, None)"
| "mo_step (E, WheelEvent) s = (mo_wheelEvent s, None)"
| "mo_step (E, ScreenLocked) s = (mo_reset s, None)"

definition mo_run :: "mo_input list \<Rightarrow> modifier_only" where
  "mo_run = foldl (\<lambda>s i. fst (mo_step i s)) mo_init"

lemma mo_run_snoc: "mo_run (is @ [i]) = fst (mo_step i (mo_run is))"
  by (simp add: mo_run_def)

text \<open>Events that do not matter: repeated keys and movements of the mouse.\<close>

fun ignorable :: "mo_input \<Rightarrow> bool" where
  "ignorable (E, KeyEvent autoRepeat press scan mods) \<longleftrightarrow> autoRepeat"
| "ignorable (E, PointerEvent k) \<longleftrightarrow> k = MouseMove"
| "ignorable (E, _) \<longleftrightarrow> False"

lemma ignorable_step: "ignorable i \<Longrightarrow> mo_step i s = (s, None)"
  by (cases i rule: ignorable.cases) (auto simp: mo_keyEvent_def mo_pointerEvent_def)

text \<open>
  The history of a modifier that is held alone: key \<open>k\<close> with modifiers \<open>m\<close> was pressed when no key, no
  modifier and no button was held and the screen was not locked, and nothing that matters has
  happened since.
\<close>

definition held_alone :: "nat \<Rightarrow> nat \<Rightarrow> mo_input list \<Rightarrow> bool" where
  "held_alone k m is \<longleftrightarrow>
     (\<exists>before after E. is = before @ (E, KeyEvent False True k m) # after \<and> list_all ignorable after \<and>
        mo_pressedKeys (mo_run before) = {} \<and> mo_buttonPressCount (mo_run before) = 0 \<and> mo_cachedMods (mo_run before) = 0 \<and>
        \<not> me_locked E)"

lemma held_alone_press:
  "mo_pressedKeys (mo_run is) = {} \<Longrightarrow> mo_buttonPressCount (mo_run is) = 0 \<Longrightarrow> mo_cachedMods (mo_run is) = 0 \<Longrightarrow>
   \<not> me_locked E \<Longrightarrow> held_alone k m (is @ [(E, KeyEvent False True k m)])"
  unfolding held_alone_def by (intro exI [of _ "is"] exI [of _ "[]"]) simp

lemma held_alone_ignorable: "held_alone k m is \<Longrightarrow> ignorable i \<Longrightarrow> held_alone k m (is @ [i])"
proof -
  assume "held_alone k m is" and i: "ignorable i"
  then obtain before after E where "is = before @ (E, KeyEvent False True k m) # after" "list_all ignorable after"
    "mo_pressedKeys (mo_run before) = {}" "mo_buttonPressCount (mo_run before) = 0" "mo_cachedMods (mo_run before) = 0" "\<not> me_locked E"
    unfolding held_alone_def by blast
  then show ?thesis unfolding held_alone_def using i by (intro exI [of _ before] exI [of _ "after @ [i]"] exI [of _ E]) simp
qed

text \<open>A modifier is remembered only while it is held alone.\<close>

lemma modifier_held_alone:
  "mo_modifier (mo_run is) = m \<Longrightarrow> m \<noteq> 0 \<Longrightarrow> \<exists>k. mo_pressedKeys (mo_run is) = {k} \<and> held_alone k m is"
proof (induction "is" rule: rev_induct)
  case Nil
  then show ?case by (simp add: mo_run_def mo_init_def)
next
  case (snoc i "is")
  show ?case
  proof (cases "ignorable i")
    case True
    with snoc show ?thesis using held_alone_ignorable by (simp add: mo_run_snoc ignorable_step) blast
  next
    case False
    with snoc.prems obtain E k where i: "i = (E, KeyEvent False True k m)" and s: "mo_pressedKeys (mo_run is) = {}"
        "mo_buttonPressCount (mo_run is) = 0" "mo_cachedMods (mo_run is) = 0" "\<not> me_locked E"
      by (cases i rule: ignorable.cases)
        (auto simp: mo_run_snoc mo_keyEvent_def mo_pointerEvent_def mo_wheelEvent_def mo_reset_def Let_def split: if_splits)
    then show ?thesis using held_alone_press [OF s] by (auto simp: mo_run_snoc mo_keyEvent_def Let_def)
  qed
qed

lemma held_alone_modifier:
  assumes "held_alone k m is"
  shows "mo_modifier (mo_run is) = m \<and> mo_pressedKeys (mo_run is) = {k}"
proof -
  from assms obtain before after E where h: "is = before @ (E, KeyEvent False True k m) # after" "list_all ignorable after"
    "mo_pressedKeys (mo_run before) = {}" "mo_buttonPressCount (mo_run before) = 0" "mo_cachedMods (mo_run before) = 0" "\<not> me_locked E"
    unfolding held_alone_def by blast
  have "foldl (\<lambda>s i. fst (mo_step i s)) s after = s" for s
    using h(2) by (induction after) (simp_all add: ignorable_step)
  then have "mo_run is = fst (mo_step (E, KeyEvent False True k m) (mo_run before))" by (simp add: h(1) mo_run_def)
  with h(3-6) show ?thesis by (simp add: mo_keyEvent_def Let_def)
qed

text \<open>
  C32. After any history of input events, an event makes the call for a modifier if and only if it
  releases the key of a modifier that was held alone: the key was pressed when no other key, no
  modifier and no mouse button was held and the screen was unlocked, nothing but repeated keys and
  movements of the mouse happened since, no modifier remains, global shortcuts are enabled and the
  options name a call for the modifier.
\<close>

theorem modifier_triggers_iff_held_alone:
  "snd (mo_step (E, e) (mo_run is)) = Some call \<longleftrightarrow>
     (\<exists>k m. e = KeyEvent False False k 0 \<and> m \<noteq> 0 \<and> held_alone k m is \<and> \<not> me_shortcutsDisabled E \<and>
        mo_call (me_shortcut E m) = Some call)"
proof
  assume l: "snd (mo_step (E, e) (mo_run is)) = Some call"
  then obtain k where e: "e = KeyEvent False False k 0" and c: "mo_pressedKeys (mo_run is) - {k} = {}" "mo_pressedKeys (mo_run is) \<noteq> {}"
      "\<not> me_shortcutsDisabled E" "mo_modifier (mo_run is) \<noteq> 0" "mo_call (me_shortcut E (mo_modifier (mo_run is))) = Some call"
    by (cases e) (auto simp: mo_keyEvent_def Let_def split: if_splits)
  from modifier_held_alone [OF refl c(4)] c(1) have "held_alone k (mo_modifier (mo_run is)) is" by auto
  with e c show "\<exists>k m. e = KeyEvent False False k 0 \<and> m \<noteq> 0 \<and> held_alone k m is \<and> \<not> me_shortcutsDisabled E \<and> mo_call (me_shortcut E m) = Some call"
    by blast
next
  assume "\<exists>k m. e = KeyEvent False False k 0 \<and> m \<noteq> 0 \<and> held_alone k m is \<and> \<not> me_shortcutsDisabled E \<and> mo_call (me_shortcut E m) = Some call"
  then show "snd (mo_step (E, e) (mo_run is)) = Some call"
    using held_alone_modifier by (fastforce simp: mo_keyEvent_def Let_def)
qed

definition demo_mo_env :: mo_env where
  "demo_mo_env = \<lparr>me_locked = False, me_shortcutsDisabled = False,
     me_shortcut = (\<lambda>m. if m = 4 then [''org.kde.shell'', ''/Shell'', ''org.kde.shell'', ''activate''] else [])\<rparr>"

theorem modifier_triggers_iff_held_alone_witness:
  "snd (mo_step (demo_mo_env, KeyEvent False False 125 0)
     (mo_run [(demo_mo_env, KeyEvent False True 125 4), (demo_mo_env, KeyEvent True True 125 4)])) =
   Some (''org.kde.shell'', ''/Shell'', ''org.kde.shell'', ''activate'', [])"
proof -
  let ?is = "[(demo_mo_env, KeyEvent False True 125 4), (demo_mo_env, KeyEvent True True 125 4)]"
  have "held_alone 125 4 ?is" unfolding held_alone_def
    by (rule exI [of _ "[]"], rule exI [of _ "[(demo_mo_env, KeyEvent True True 125 4)]"], rule exI [of _ demo_mo_env])
      (simp add: mo_run_def mo_init_def demo_mo_env_def)
  moreover have "\<not> me_shortcutsDisabled demo_mo_env"
    "mo_call (me_shortcut demo_mo_env 4) = Some (''org.kde.shell'', ''/Shell'', ''org.kde.shell'', ''activate'', [])"
    by (simp_all add: demo_mo_env_def mo_call_def)
  ultimately show ?thesis
    unfolding modifier_triggers_iff_held_alone by (intro exI [of _ 125] exI [of _ 4] conjI refl) simp_all
qed

end
