(* ===== verification/Rules.thy ===== *)
theory Rules
  imports Placement
begin

text \<open>
  The window rules: \<open>Rules\<close> (\<^verbatim>\<open>rules/rules.cpp\<close>, \<^verbatim>\<open>rules/rules.h\<close>), \<open>WindowRules\<close>
  (\<^verbatim>\<open>rules/window_rules.cpp\<close>, \<^verbatim>\<open>rules/window_rules.h\<close>) and \<open>RuleBook\<close> (\<^verbatim>\<open>rules/rule_book.cpp\<close>). A rule holds
  for every setting a value and a number that says how it is used; a window follows, for each setting,
  the first of its rules that uses the setting.

  The members of \<open>Rules\<close> are grouped by their type: \<open>set_rules\<close> holds the \<open>set_ruler\<close> members,
  \<open>force_rules\<close> the \<open>force_ruler\<close> members. The numbers are stored unchecked in the configuration, so
  they are integers here. Regular expressions (\<open>QRegExp\<close>) and \<open>NET::typeMatchesMask\<close> are parameters.
\<close>

section \<open>Data\<close>

record 'a ruler =
  ru_data :: 'a
  ru_rule :: int

definition R_Unused :: int where "R_Unused = 0"
definition R_DontAffect :: int where "R_DontAffect = 1"
definition R_Force :: int where "R_Force = 2"
definition R_Apply :: int where "R_Apply = 3"
definition R_Remember :: int where "R_Remember = 4"
definition R_ApplyNow :: int where "R_ApplyNow = 5"
definition R_ForceTemporarily :: int where "R_ForceTemporarily = 6"

lemmas rule_numbers = R_Unused_def R_DontAffect_def R_Force_def R_Apply_def R_Remember_def R_ApplyNow_def R_ForceTemporarily_def

record set_rules =
  st_above :: "bool ruler"
  st_activity :: "string ruler"
  st_below :: "bool ruler"
  st_desktop :: "int ruler"
  st_desktopfile :: "string ruler"
  st_fullscreen :: "bool ruler"
  st_ignoregeometry :: "bool ruler"
  st_maximizehoriz :: "bool ruler"
  st_maximizevert :: "bool ruler"
  st_minimize :: "bool ruler"
  st_noborder :: "bool ruler"
  st_position :: "point ruler"
  st_screen :: "int ruler"
  st_shortcut :: "string ruler"
  st_size :: "qsize ruler"
  st_skippager :: "bool ruler"
  st_skipswitcher :: "bool ruler"
  st_skiptaskbar :: "bool ruler"

record force_rules =
  fo_acceptfocus :: "bool ruler"
  fo_autogroup :: "bool ruler"
  fo_autogroupfg :: "bool ruler"
  fo_autogroupid :: "string ruler"
  fo_blockcompositing :: "bool ruler"
  fo_closeable :: "bool ruler"
  fo_decocolor :: "string ruler"
  fo_disableglobalshortcuts :: "bool ruler"
  fo_fpplevel :: "int ruler"
  fo_fsplevel :: "int ruler"
  fo_maxsize :: "qsize ruler"
  fo_minsize :: "qsize ruler"
  fo_opacityactive :: "int ruler"
  fo_opacityinactive :: "int ruler"
  fo_placement :: "policy ruler"
  fo_strictgeometry :: "bool ruler"
  fo_type :: "window_type ruler"

datatype string_kind = UnimportantMatch | ExactMatch | SubstringMatch | RegExpMatch

record string_match =
  sm_data :: string
  sm_match :: string_kind

record rules =
  r_wmclass :: string_match
  r_windowrole :: string_match
  r_clientmachine :: string_match
  r_title :: string_match
  r_temporary_state :: int
  r_description :: string
  r_wmclasscomplete :: bool
  r_types :: nat
  r_set :: set_rules
  r_force :: force_rules

datatype rule_type = TPosition | TSize | TDesktop | TMaximizeVert | TMaximizeHoriz | TMinimize | TSkipTaskbar | TSkipPager
  | TSkipSwitcher | TAbove | TBelow | TFullscreen | TNoBorder | TOpacityActive | TOpacityInactive | TActivity | TScreen | TDesktopFile

section \<open>Which windows a rule is for\<close>

definition AllTypesMask :: nat where "AllTypesMask = 4294967295"

definition matchType :: "(window_type \<Rightarrow> nat \<Rightarrow> bool) \<Rightarrow> rules \<Rightarrow> window_type \<Rightarrow> bool" where
  "matchType typeMatchesMask r ty \<longleftrightarrow>
     r_types r = AllTypesMask \<or> typeMatchesMask (if ty = NET_Unknown then NET_Normal else ty) (r_types r)"

fun contains_sub :: "string \<Rightarrow> string \<Rightarrow> bool" where
  "contains_sub [] pat \<longleftrightarrow> pat = []"
| "contains_sub (c # s) pat \<longleftrightarrow> take (length pat) (c # s) = pat \<or> contains_sub s pat"

text \<open>\<open>rx pattern text\<close>: does \<open>QRegExp(pattern).indexIn(text)\<close> find the pattern?\<close>

definition match_string :: "(string \<Rightarrow> string \<Rightarrow> bool) \<Rightarrow> string_match \<Rightarrow> string \<Rightarrow> bool" where
  "match_string rx m s =
     (case sm_match m of UnimportantMatch \<Rightarrow> True | RegExpMatch \<Rightarrow> rx (sm_data m) s
      | ExactMatch \<Rightarrow> sm_data m = s | SubstringMatch \<Rightarrow> contains_sub s (sm_data m))"

definition matchWMClass :: "(string \<Rightarrow> string \<Rightarrow> bool) \<Rightarrow> rules \<Rightarrow> string \<Rightarrow> string \<Rightarrow> bool" where
  "matchWMClass rx r cls nm = match_string rx (r_wmclass r) (if r_wmclasscomplete r then nm @ '' '' @ cls else cls)"

definition matchRole :: "(string \<Rightarrow> string \<Rightarrow> bool) \<Rightarrow> rules \<Rightarrow> string \<Rightarrow> bool" where
  "matchRole rx r role = match_string rx (r_windowrole r) role"

definition matchTitle :: "(string \<Rightarrow> string \<Rightarrow> bool) \<Rightarrow> rules \<Rightarrow> string \<Rightarrow> bool" where
  "matchTitle rx r ttl = match_string rx (r_title r) ttl"

text \<open>The recursive call for \<open>localhost\<close> does not recurse again.\<close>

definition matchClientMachine :: "(string \<Rightarrow> string \<Rightarrow> bool) \<Rightarrow> rules \<Rightarrow> string \<Rightarrow> bool \<Rightarrow> bool" where
  "matchClientMachine rx r machine local \<longleftrightarrow>
     machine \<noteq> ''localhost'' \<and> local \<and> match_string rx (r_clientmachine r) ''localhost'' \<or>
     match_string rx (r_clientmachine r) machine"

text \<open>What matching reads of a window; the role is in lower case.\<close>

record match_view =
  mv_type :: window_type
  mv_class :: string
  mv_name :: string
  mv_role :: string
  mv_machine :: string
  mv_local :: bool
  mv_caption :: string

definition rules_match :: "(string \<Rightarrow> string \<Rightarrow> bool) \<Rightarrow> (window_type \<Rightarrow> nat \<Rightarrow> bool) \<Rightarrow> rules \<Rightarrow> match_view \<Rightarrow> bool" where
  "rules_match rx tm r v \<longleftrightarrow>
     matchType tm r (mv_type v) \<and> matchWMClass rx r (mv_class v) (mv_name v) \<and> matchRole rx r (mv_role v) \<and>
     matchClientMachine rx r (mv_machine v) (mv_local v) \<and> matchTitle rx r (mv_caption v)"

section \<open>Applying a rule\<close>

definition checkSetRule :: "int \<Rightarrow> bool \<Rightarrow> bool" where
  "checkSetRule k init \<longleftrightarrow> k > R_DontAffect \<and> (k = R_Force \<or> k = R_ApplyNow \<or> k = R_ForceTemporarily \<or> init)"

definition checkForceRule :: "int \<Rightarrow> bool" where
  "checkForceRule k \<longleftrightarrow> k = R_Force \<or> k = R_ForceTemporarily"

definition checkSetStop :: "int \<Rightarrow> bool" where "checkSetStop k \<longleftrightarrow> k \<noteq> R_Unused"
definition checkForceStop :: "int \<Rightarrow> bool" where "checkForceStop k \<longleftrightarrow> k \<noteq> R_Unused"

text \<open>The result: whether later rules are not asked any more, and the value.\<close>

definition apply_set :: "'a ruler \<Rightarrow> bool \<Rightarrow> 'a \<Rightarrow> bool \<times> 'a" where
  "apply_set ru init x = (checkSetStop (ru_rule ru), if checkSetRule (ru_rule ru) init then ru_data ru else x)"

definition apply_force :: "'a ruler \<Rightarrow> 'a \<Rightarrow> bool \<times> 'a" where
  "apply_force ru x = (checkForceStop (ru_rule ru), if checkForceRule (ru_rule ru) then ru_data ru else x)"

definition invalidPoint :: point where "invalidPoint = (- 2147483648, - 2147483648)"

definition applyPosition :: "rules \<Rightarrow> bool \<Rightarrow> point \<Rightarrow> bool \<times> point" where
  "applyPosition r init p =
     (let ru = st_position (r_set r) in
      (checkSetStop (ru_rule ru), if ru_data ru \<noteq> invalidPoint \<and> checkSetRule (ru_rule ru) init then ru_data ru else p))"

definition applySize :: "rules \<Rightarrow> bool \<Rightarrow> qsize \<Rightarrow> bool \<times> qsize" where
  "applySize r init s =
     (let ru = st_size (r_set r) in
      (checkSetStop (ru_rule ru), if szvalid (ru_data ru) \<and> checkSetRule (ru_rule ru) init then ru_data ru else s))"

definition applyGeometry :: "rules \<Rightarrow> bool \<Rightarrow> rect \<Rightarrow> bool \<times> rect" where
  "applyGeometry r init rc =
     (let (ret1, p) = applyPosition r init (rtopLeft rc); (ret2, s) = applySize r init (rsize rc);
          rc1 = (if ret1 then moveTopLeft p rc else rc)
      in (ret1 \<or> ret2, if ret2 then setSize s rc1 else rc1))"

definition applyMaximizeHoriz :: "rules \<Rightarrow> bool \<Rightarrow> maximize_mode \<Rightarrow> bool \<times> maximize_mode" where
  "applyMaximizeHoriz r init m =
     (let ru = st_maximizehoriz (r_set r) in
      (checkSetStop (ru_rule ru), if checkSetRule (ru_rule ru) init \<and> ru_data ru then mk_mode (max_vertical m) True else m))"

definition applyMaximizeVert :: "rules \<Rightarrow> bool \<Rightarrow> maximize_mode \<Rightarrow> bool \<times> maximize_mode" where
  "applyMaximizeVert r init m =
     (let ru = st_maximizevert (r_set r) in
      (checkSetStop (ru_rule ru), if checkSetRule (ru_rule ru) init \<and> ru_data ru then mk_mode True (max_horizontal m) else m))"

definition applyActivity :: "rules \<Rightarrow> bool \<Rightarrow> string \<Rightarrow> bool \<times> string" where "applyActivity r = apply_set (st_activity (r_set r))"
definition applyMinimize :: "rules \<Rightarrow> bool \<Rightarrow> bool \<Rightarrow> bool \<times> bool" where "applyMinimize r = apply_set (st_minimize (r_set r))"
definition applySkipTaskbar :: "rules \<Rightarrow> bool \<Rightarrow> bool \<Rightarrow> bool \<times> bool" where "applySkipTaskbar r = apply_set (st_skiptaskbar (r_set r))"
definition applySkipPager :: "rules \<Rightarrow> bool \<Rightarrow> bool \<Rightarrow> bool \<times> bool" where "applySkipPager r = apply_set (st_skippager (r_set r))"
definition applySkipSwitcher :: "rules \<Rightarrow> bool \<Rightarrow> bool \<Rightarrow> bool \<times> bool" where "applySkipSwitcher r = apply_set (st_skipswitcher (r_set r))"
definition applyKeepAbove :: "rules \<Rightarrow> bool \<Rightarrow> bool \<Rightarrow> bool \<times> bool" where "applyKeepAbove r = apply_set (st_above (r_set r))"
definition applyKeepBelow :: "rules \<Rightarrow> bool \<Rightarrow> bool \<Rightarrow> bool \<times> bool" where "applyKeepBelow r = apply_set (st_below (r_set r))"
definition applyFullScreen :: "rules \<Rightarrow> bool \<Rightarrow> bool \<Rightarrow> bool \<times> bool" where "applyFullScreen r = apply_set (st_fullscreen (r_set r))"
definition applyDesktop :: "rules \<Rightarrow> bool \<Rightarrow> int \<Rightarrow> bool \<times> int" where "applyDesktop r = apply_set (st_desktop (r_set r))"
definition applyScreen :: "rules \<Rightarrow> bool \<Rightarrow> int \<Rightarrow> bool \<times> int" where "applyScreen r = apply_set (st_screen (r_set r))"
definition applyNoBorder :: "rules \<Rightarrow> bool \<Rightarrow> bool \<Rightarrow> bool \<times> bool" where "applyNoBorder r = apply_set (st_noborder (r_set r))"
definition applyShortcut :: "rules \<Rightarrow> bool \<Rightarrow> string \<Rightarrow> bool \<times> string" where "applyShortcut r = apply_set (st_shortcut (r_set r))"
definition applyDesktopFile :: "rules \<Rightarrow> bool \<Rightarrow> string \<Rightarrow> bool \<times> string" where "applyDesktopFile r = apply_set (st_desktopfile (r_set r))"
definition applyIgnoreGeometry :: "rules \<Rightarrow> bool \<Rightarrow> bool \<Rightarrow> bool \<times> bool" where "applyIgnoreGeometry r = apply_set (st_ignoregeometry (r_set r))"
definition applyPlacement :: "rules \<Rightarrow> policy \<Rightarrow> bool \<times> policy" where "applyPlacement r = apply_force (fo_placement (r_force r))"
definition applyMinSize :: "rules \<Rightarrow> qsize \<Rightarrow> bool \<times> qsize" where "applyMinSize r = apply_force (fo_minsize (r_force r))"
definition applyMaxSize :: "rules \<Rightarrow> qsize \<Rightarrow> bool \<times> qsize" where "applyMaxSize r = apply_force (fo_maxsize (r_force r))"
definition applyOpacityActive :: "rules \<Rightarrow> int \<Rightarrow> bool \<times> int" where "applyOpacityActive r = apply_force (fo_opacityactive (r_force r))"
definition applyOpacityInactive :: "rules \<Rightarrow> int \<Rightarrow> bool \<times> int" where "applyOpacityInactive r = apply_force (fo_opacityinactive (r_force r))"
definition applyType :: "rules \<Rightarrow> window_type \<Rightarrow> bool \<times> window_type" where "applyType r = apply_force (fo_type (r_force r))"
definition applyDecoColor :: "rules \<Rightarrow> string \<Rightarrow> bool \<times> string" where "applyDecoColor r = apply_force (fo_decocolor (r_force r))"
definition applyBlockCompositing :: "rules \<Rightarrow> bool \<Rightarrow> bool \<times> bool" where "applyBlockCompositing r = apply_force (fo_blockcompositing (r_force r))"
definition applyFSP :: "rules \<Rightarrow> int \<Rightarrow> bool \<times> int" where "applyFSP r = apply_force (fo_fsplevel (r_force r))"
definition applyFPP :: "rules \<Rightarrow> int \<Rightarrow> bool \<times> int" where "applyFPP r = apply_force (fo_fpplevel (r_force r))"
definition applyAcceptFocus :: "rules \<Rightarrow> bool \<Rightarrow> bool \<times> bool" where "applyAcceptFocus r = apply_force (fo_acceptfocus (r_force r))"
definition applyCloseable :: "rules \<Rightarrow> bool \<Rightarrow> bool \<times> bool" where "applyCloseable r = apply_force (fo_closeable (r_force r))"
definition applyAutogrouping :: "rules \<Rightarrow> bool \<Rightarrow> bool \<times> bool" where "applyAutogrouping r = apply_force (fo_autogroup (r_force r))"
definition applyAutogroupInForeground :: "rules \<Rightarrow> bool \<Rightarrow> bool \<times> bool" where "applyAutogroupInForeground r = apply_force (fo_autogroupfg (r_force r))"
definition applyAutogroupById :: "rules \<Rightarrow> string \<Rightarrow> bool \<times> string" where "applyAutogroupById r = apply_force (fo_autogroupid (r_force r))"
definition applyStrictGeometry :: "rules \<Rightarrow> bool \<Rightarrow> bool \<times> bool" where "applyStrictGeometry r = apply_force (fo_strictgeometry (r_force r))"
definition applyDisableGlobalShortcuts :: "rules \<Rightarrow> bool \<Rightarrow> bool \<times> bool" where "applyDisableGlobalShortcuts r = apply_force (fo_disableglobalshortcuts (r_force r))"

lemmas apply_set_defs = applyActivity_def applyMinimize_def applySkipTaskbar_def applySkipPager_def applySkipSwitcher_def applyKeepAbove_def applyKeepBelow_def applyFullScreen_def applyDesktop_def applyScreen_def applyNoBorder_def applyShortcut_def applyDesktopFile_def applyIgnoreGeometry_def
lemmas apply_force_defs = applyPlacement_def applyMinSize_def applyMaxSize_def applyOpacityActive_def applyOpacityInactive_def applyType_def applyDecoColor_def applyBlockCompositing_def applyFSP_def applyFPP_def applyAcceptFocus_def applyCloseable_def applyAutogrouping_def applyAutogroupInForeground_def applyAutogroupById_def applyStrictGeometry_def applyDisableGlobalShortcuts_def

section \<open>The rules of a window\<close>

fun check_set :: "('r \<Rightarrow> bool \<Rightarrow> 'a \<Rightarrow> bool \<times> 'a) \<Rightarrow> bool \<Rightarrow> 'r list \<Rightarrow> 'a \<Rightarrow> 'a" where
  "check_set app init [] x = x"
| "check_set app init (r # rs) x = (case app r init x of (stop, y) \<Rightarrow> if stop then y else check_set app init rs y)"

fun check_force :: "('r \<Rightarrow> 'a \<Rightarrow> bool \<times> 'a) \<Rightarrow> 'r list \<Rightarrow> 'a \<Rightarrow> 'a" where
  "check_force app [] x = x"
| "check_force app (r # rs) x = (case app r x of (stop, y) \<Rightarrow> if stop then y else check_force app rs y)"

definition checkPosition :: "rules list \<Rightarrow> bool \<Rightarrow> point \<Rightarrow> point" where "checkPosition rs init = check_set applyPosition init rs"
definition checkSize :: "rules list \<Rightarrow> bool \<Rightarrow> qsize \<Rightarrow> qsize" where "checkSize rs init = check_set applySize init rs"
definition checkActivity :: "rules list \<Rightarrow> bool \<Rightarrow> string \<Rightarrow> string" where "checkActivity rs init = check_set applyActivity init rs"
definition checkMinimize :: "rules list \<Rightarrow> bool \<Rightarrow> bool \<Rightarrow> bool" where "checkMinimize rs init = check_set applyMinimize init rs"
definition checkSkipTaskbar :: "rules list \<Rightarrow> bool \<Rightarrow> bool \<Rightarrow> bool" where "checkSkipTaskbar rs init = check_set applySkipTaskbar init rs"
definition checkSkipPager :: "rules list \<Rightarrow> bool \<Rightarrow> bool \<Rightarrow> bool" where "checkSkipPager rs init = check_set applySkipPager init rs"
definition checkSkipSwitcher :: "rules list \<Rightarrow> bool \<Rightarrow> bool \<Rightarrow> bool" where "checkSkipSwitcher rs init = check_set applySkipSwitcher init rs"
definition checkKeepAbove :: "rules list \<Rightarrow> bool \<Rightarrow> bool \<Rightarrow> bool" where "checkKeepAbove rs init = check_set applyKeepAbove init rs"
definition checkKeepBelow :: "rules list \<Rightarrow> bool \<Rightarrow> bool \<Rightarrow> bool" where "checkKeepBelow rs init = check_set applyKeepBelow init rs"
definition checkFullScreen :: "rules list \<Rightarrow> bool \<Rightarrow> bool \<Rightarrow> bool" where "checkFullScreen rs init = check_set applyFullScreen init rs"
definition checkDesktop :: "rules list \<Rightarrow> bool \<Rightarrow> int \<Rightarrow> int" where "checkDesktop rs init = check_set applyDesktop init rs"
definition checkNoBorder :: "rules list \<Rightarrow> bool \<Rightarrow> bool \<Rightarrow> bool" where "checkNoBorder rs init = check_set applyNoBorder init rs"
definition checkShortcut :: "rules list \<Rightarrow> bool \<Rightarrow> string \<Rightarrow> string" where "checkShortcut rs init = check_set applyShortcut init rs"
definition checkDesktopFile :: "rules list \<Rightarrow> bool \<Rightarrow> string \<Rightarrow> string" where "checkDesktopFile rs init = check_set applyDesktopFile init rs"
definition checkIgnoreGeometry :: "rules list \<Rightarrow> bool \<Rightarrow> bool \<Rightarrow> bool" where "checkIgnoreGeometry rs init = check_set applyIgnoreGeometry init rs"
definition checkMaximizeVert :: "rules list \<Rightarrow> bool \<Rightarrow> maximize_mode \<Rightarrow> maximize_mode" where "checkMaximizeVert rs init = check_set applyMaximizeVert init rs"
definition checkMaximizeHoriz :: "rules list \<Rightarrow> bool \<Rightarrow> maximize_mode \<Rightarrow> maximize_mode" where "checkMaximizeHoriz rs init = check_set applyMaximizeHoriz init rs"
definition checkPlacement :: "rules list \<Rightarrow> policy \<Rightarrow> policy" where "checkPlacement rs = check_force applyPlacement rs"
definition checkMinSize :: "rules list \<Rightarrow> qsize \<Rightarrow> qsize" where "checkMinSize rs = check_force applyMinSize rs"
definition checkMaxSize :: "rules list \<Rightarrow> qsize \<Rightarrow> qsize" where "checkMaxSize rs = check_force applyMaxSize rs"
definition checkOpacityActive :: "rules list \<Rightarrow> int \<Rightarrow> int" where "checkOpacityActive rs = check_force applyOpacityActive rs"
definition checkOpacityInactive :: "rules list \<Rightarrow> int \<Rightarrow> int" where "checkOpacityInactive rs = check_force applyOpacityInactive rs"
definition checkType :: "rules list \<Rightarrow> window_type \<Rightarrow> window_type" where "checkType rs = check_force applyType rs"
definition checkDecoColor :: "rules list \<Rightarrow> string \<Rightarrow> string" where "checkDecoColor rs = check_force applyDecoColor rs"
definition checkBlockCompositing :: "rules list \<Rightarrow> bool \<Rightarrow> bool" where "checkBlockCompositing rs = check_force applyBlockCompositing rs"
definition checkFSP :: "rules list \<Rightarrow> int \<Rightarrow> int" where "checkFSP rs = check_force applyFSP rs"
definition checkFPP :: "rules list \<Rightarrow> int \<Rightarrow> int" where "checkFPP rs = check_force applyFPP rs"
definition checkAcceptFocus :: "rules list \<Rightarrow> bool \<Rightarrow> bool" where "checkAcceptFocus rs = check_force applyAcceptFocus rs"
definition checkCloseable :: "rules list \<Rightarrow> bool \<Rightarrow> bool" where "checkCloseable rs = check_force applyCloseable rs"
definition checkAutogrouping :: "rules list \<Rightarrow> bool \<Rightarrow> bool" where "checkAutogrouping rs = check_force applyAutogrouping rs"
definition checkAutogroupInForeground :: "rules list \<Rightarrow> bool \<Rightarrow> bool" where "checkAutogroupInForeground rs = check_force applyAutogroupInForeground rs"
definition checkAutogroupById :: "rules list \<Rightarrow> string \<Rightarrow> string" where "checkAutogroupById rs = check_force applyAutogroupById rs"
definition checkStrictGeometry :: "rules list \<Rightarrow> bool \<Rightarrow> bool" where "checkStrictGeometry rs = check_force applyStrictGeometry rs"
definition checkDisableGlobalShortcuts :: "rules list \<Rightarrow> bool \<Rightarrow> bool" where "checkDisableGlobalShortcuts rs = check_force applyDisableGlobalShortcuts rs"

definition checkGeometry :: "rules list \<Rightarrow> bool \<Rightarrow> rect \<Rightarrow> rect" where
  "checkGeometry rs init rc = rect_at (checkPosition rs init (rtopLeft rc)) (checkSize rs init (rsize rc))"

definition checkMaximize :: "rules list \<Rightarrow> bool \<Rightarrow> maximize_mode \<Rightarrow> maximize_mode" where
  "checkMaximize rs init m =
     mk_mode (max_vertical (checkMaximizeVert rs init m)) (max_horizontal (checkMaximizeHoriz rs init m))"

definition checkScreen :: "int \<Rightarrow> rules list \<Rightarrow> bool \<Rightarrow> int \<Rightarrow> int" where
  "checkScreen count_screens rs init screen =
     (let ret = check_set applyScreen init rs screen in if ret \<ge> count_screens then screen else ret)"

section \<open>Remembering the state of a window\<close>

text \<open>What \<open>update\<close> reads of a window.\<close>

record rule_view =
  rv_above :: bool
  rv_activities :: string
  rv_below :: bool
  rv_desktop :: int
  rv_desktopfile :: string
  rv_fullscreen :: bool
  rv_maximizeMode :: maximize_mode
  rv_minimized :: bool
  rv_noBorder :: bool
  rv_pos :: point
  rv_screen :: int
  rv_size :: qsize
  rv_skippager :: bool
  rv_skipswitcher :: bool
  rv_skiptaskbar :: bool

definition remembers :: "rule_type set \<Rightarrow> rule_type \<Rightarrow> 'a ruler \<Rightarrow> bool" where
  "remembers selection ty ru \<longleftrightarrow> ty \<in> selection \<and> ru_rule ru = R_Remember"

definition remember :: "rule_type set \<Rightarrow> rule_type \<Rightarrow> 'a \<Rightarrow> 'a ruler \<Rightarrow> 'a ruler" where
  "remember selection ty x ru = (if remembers selection ty ru then ru\<lparr>ru_data := x\<rparr> else ru)"

text \<open>In the direction in which the window is maximized the old position and size are kept.\<close>

definition unmaximized :: "maximize_mode \<Rightarrow> point \<Rightarrow> point \<Rightarrow> point" where
  "unmaximized m old new = (if max_horizontal m then fst old else fst new, if max_vertical m then snd old else snd new)"

definition remember_geo :: "rule_type set \<Rightarrow> rule_type \<Rightarrow> rule_view \<Rightarrow> point \<Rightarrow> point ruler \<Rightarrow> point ruler" where
  "remember_geo selection ty v new ru =
     (if rv_fullscreen v then ru else remember selection ty (unmaximized (rv_maximizeMode v) (ru_data ru) new) ru)"

definition updated_set :: "rule_type set \<Rightarrow> rule_view \<Rightarrow> set_rules \<Rightarrow> set_rules" where
  "updated_set sel v st = st\<lparr>
     st_above := remember sel TAbove (rv_above v) (st_above st),
     st_activity := remember sel TActivity (rv_activities v) (st_activity st),
     st_below := remember sel TBelow (rv_below v) (st_below st),
     st_desktop := remember sel TDesktop (rv_desktop v) (st_desktop st),
     st_desktopfile := remember sel TDesktopFile (rv_desktopfile v) (st_desktopfile st),
     st_fullscreen := remember sel TFullscreen (rv_fullscreen v) (st_fullscreen st),
     st_maximizehoriz := remember sel TMaximizeHoriz (max_horizontal (rv_maximizeMode v)) (st_maximizehoriz st),
     st_maximizevert := remember sel TMaximizeVert (max_vertical (rv_maximizeMode v)) (st_maximizevert st),
     st_minimize := remember sel TMinimize (rv_minimized v) (st_minimize st),
     st_noborder := remember sel TNoBorder (rv_noBorder v) (st_noborder st),
     st_position := remember_geo sel TPosition v (rv_pos v) (st_position st),
     st_screen := remember sel TScreen (rv_screen v) (st_screen st),
     st_size := remember_geo sel TSize v (rv_size v) (st_size st),
     st_skippager := remember sel TSkipPager (rv_skippager v) (st_skippager st),
     st_skipswitcher := remember sel TSkipSwitcher (rv_skipswitcher v) (st_skipswitcher st),
     st_skiptaskbar := remember sel TSkipTaskbar (rv_skiptaskbar v) (st_skiptaskbar st)\<rparr>"

text \<open>The flag \<open>updated\<close> is set exactly when one of the assignments changes a value.\<close>

definition rules_update :: "rule_type set \<Rightarrow> rule_view \<Rightarrow> rules \<Rightarrow> bool \<times> rules" where
  "rules_update sel v r = (let st = updated_set sel v (r_set r) in (st \<noteq> r_set r, r\<lparr>r_set := st\<rparr>))"

section \<open>Forgetting rules that were used\<close>

definition discard_set :: "bool \<Rightarrow> 'a ruler \<Rightarrow> 'a ruler" where
  "discard_set withdrawn ru =
     (if ru_rule ru = R_ApplyNow \<or> ru_rule ru = R_ForceTemporarily \<and> withdrawn then ru\<lparr>ru_rule := R_Unused\<rparr> else ru)"

definition discard_force :: "bool \<Rightarrow> 'a ruler \<Rightarrow> 'a ruler" where
  "discard_force withdrawn ru =
     (if withdrawn \<and> ru_rule ru = R_ForceTemporarily then ru\<lparr>ru_rule := R_Unused\<rparr> else ru)"

definition discarded_set :: "bool \<Rightarrow> set_rules \<Rightarrow> set_rules" where
  "discarded_set w st = st\<lparr>st_above := discard_set w (st_above st),
     st_activity := discard_set w (st_activity st),
     st_below := discard_set w (st_below st),
     st_desktop := discard_set w (st_desktop st),
     st_desktopfile := discard_set w (st_desktopfile st),
     st_fullscreen := discard_set w (st_fullscreen st),
     st_ignoregeometry := discard_set w (st_ignoregeometry st),
     st_maximizehoriz := discard_set w (st_maximizehoriz st),
     st_maximizevert := discard_set w (st_maximizevert st),
     st_minimize := discard_set w (st_minimize st),
     st_noborder := discard_set w (st_noborder st),
     st_position := discard_set w (st_position st),
     st_screen := discard_set w (st_screen st),
     st_shortcut := discard_set w (st_shortcut st),
     st_size := discard_set w (st_size st),
     st_skippager := discard_set w (st_skippager st),
     st_skipswitcher := discard_set w (st_skipswitcher st),
     st_skiptaskbar := discard_set w (st_skiptaskbar st)\<rparr>"

definition discarded_force :: "bool \<Rightarrow> force_rules \<Rightarrow> force_rules" where
  "discarded_force w fo = fo\<lparr>fo_acceptfocus := discard_force w (fo_acceptfocus fo),
     fo_autogroup := discard_force w (fo_autogroup fo),
     fo_autogroupfg := discard_force w (fo_autogroupfg fo),
     fo_autogroupid := discard_force w (fo_autogroupid fo),
     fo_blockcompositing := discard_force w (fo_blockcompositing fo),
     fo_closeable := discard_force w (fo_closeable fo),
     fo_decocolor := discard_force w (fo_decocolor fo),
     fo_disableglobalshortcuts := discard_force w (fo_disableglobalshortcuts fo),
     fo_fpplevel := discard_force w (fo_fpplevel fo),
     fo_fsplevel := discard_force w (fo_fsplevel fo),
     fo_maxsize := discard_force w (fo_maxsize fo),
     fo_minsize := discard_force w (fo_minsize fo),
     fo_opacityactive := discard_force w (fo_opacityactive fo),
     fo_opacityinactive := discard_force w (fo_opacityinactive fo),
     fo_placement := discard_force w (fo_placement fo),
     fo_strictgeometry := discard_force w (fo_strictgeometry fo),
     fo_type := discard_force w (fo_type fo)\<rparr>"

text \<open>\<open>changed\<close> is set exactly when the number of some setting becomes \<open>unused\<close>, that is when the rule changes.\<close>

definition rules_discardUsed :: "bool \<Rightarrow> rules \<Rightarrow> bool \<times> rules" where
  "rules_discardUsed w r =
     (let r' = r\<lparr>r_set := discarded_set w (r_set r), r_force := discarded_force w (r_force r)\<rparr> in (r' \<noteq> r, r'))"

definition rules_isEmpty :: "rules \<Rightarrow> bool" where
  "rules_isEmpty r \<longleftrightarrow>
     (let st = r_set r; fo = r_force r in
      list_all (\<lambda>k. k = R_Unused) [ru_rule (st_above st), ru_rule (st_activity st), ru_rule (st_below st),
        ru_rule (st_desktop st), ru_rule (st_desktopfile st), ru_rule (st_fullscreen st),
        ru_rule (st_ignoregeometry st), ru_rule (st_maximizehoriz st), ru_rule (st_maximizevert st),
        ru_rule (st_minimize st), ru_rule (st_noborder st), ru_rule (st_position st),
        ru_rule (st_screen st), ru_rule (st_shortcut st), ru_rule (st_size st),
        ru_rule (st_skippager st), ru_rule (st_skipswitcher st), ru_rule (st_skiptaskbar st)] \<and>
      list_all (\<lambda>k. k = R_Unused) [ru_rule (fo_acceptfocus fo), ru_rule (fo_autogroup fo), ru_rule (fo_autogroupfg fo),
        ru_rule (fo_autogroupid fo), ru_rule (fo_blockcompositing fo), ru_rule (fo_closeable fo),
        ru_rule (fo_decocolor fo), ru_rule (fo_disableglobalshortcuts fo), ru_rule (fo_fpplevel fo),
        ru_rule (fo_fsplevel fo), ru_rule (fo_maxsize fo), ru_rule (fo_minsize fo),
        ru_rule (fo_opacityactive fo), ru_rule (fo_opacityinactive fo), ru_rule (fo_placement fo),
        ru_rule (fo_strictgeometry fo), ru_rule (fo_type fo)])"

definition rules_isTemporary :: "rules \<Rightarrow> bool" where "rules_isTemporary r \<longleftrightarrow> r_temporary_state r > 0"

end
