(* ===== verification/Rule_Book.thy ===== *)
theory Rule_Book
  imports Rules
begin

text \<open>
  Reading and writing a rule (\<open>readFromSettings\<close> and \<open>write\<close> of \<^verbatim>\<open>rules/rules.cpp\<close>) and the
  book of all rules (\<^verbatim>\<open>rules/rule_book.cpp\<close>), which the windows share.

  \<open>RuleSettings\<close> is generated from a description of the configuration; it is a record here, what is set
  is what is read. \<open>D\<close> is the record with the default of every entry. Rules are objects in a
  store; an object that was deleted is gone from it, so a pointer that is left behind is visible.
\<close>

section \<open>Configuration\<close>

record rule_settings =
  rs_description :: string
  rs_descriptionLegacy :: string
  rs_wmclass :: string_match
  rs_windowrole :: string_match
  rs_clientmachine :: string_match
  rs_title :: string_match
  rs_wmclasscomplete :: bool
  rs_types :: nat
  rs_set :: set_rules
  rs_force :: force_rules

text \<open>\<open>toLower().toLatin1()\<close>, \<open>QStandardPaths::locate\<close> of a color scheme and \<open>QFileInfo::baseName\<close>.\<close>

record rule_env =
  re_lower :: "string \<Rightarrow> string"
  re_locate :: "string \<Rightarrow> string"
  re_baseName :: "string \<Rightarrow> string"

definition read_bytes_match :: "rule_env \<Rightarrow> string_match \<Rightarrow> string_match" where
  "read_bytes_match E m = m\<lparr>sm_data := re_lower E (sm_data m)\<rparr>"

definition getDecoColor :: "rule_env \<Rightarrow> string \<Rightarrow> string" where
  "getDecoColor E theme = (if theme = [] then [] else re_locate E (''color-schemes/'' @ theme @ ''.colors''))"

definition szempty :: "qsize \<Rightarrow> bool" where "szempty s \<longleftrightarrow> fst s < 1 \<or> snd s < 1"

definition read_set :: "set_rules \<Rightarrow> set_rules" where
  "read_set st =
     (let sz = st_size st in
      if szempty (ru_data sz) \<and> ru_rule sz \<noteq> R_Remember then st\<lparr>st_size := sz\<lparr>ru_rule := R_Unused\<rparr>\<rparr> else st)"

definition read_force :: "rule_env \<Rightarrow> force_rules \<Rightarrow> force_rules" where
  "read_force E fo =
     (let color = getDecoColor E (ru_data (fo_decocolor fo)); mx = fo_maxsize fo; mn = fo_minsize fo; ty = fo_type fo in
      fo\<lparr>fo_decocolor := \<lparr>ru_data = color, ru_rule = if color = [] then R_Unused else ru_rule (fo_decocolor fo)\<rparr>,
        fo_maxsize := (if szempty (ru_data mx) then mx\<lparr>ru_data := (32767, 32767)\<rparr> else mx),
        fo_minsize := (if \<not> szvalid (ru_data mn) then mn\<lparr>ru_data := (1, 1)\<rparr> else mn),
        fo_type := (if ru_data ty = NET_Unknown then ty\<lparr>ru_rule := R_Unused\<rparr> else ty)\<rparr>)"

definition readFromSettings :: "rule_env \<Rightarrow> rule_settings \<Rightarrow> int \<Rightarrow> rules" where
  "readFromSettings E s temporary =
     \<lparr>r_wmclass = read_bytes_match E (rs_wmclass s), r_windowrole = read_bytes_match E (rs_windowrole s),
      r_clientmachine = read_bytes_match E (rs_clientmachine s), r_title = rs_title s, r_temporary_state = temporary,
      r_description = (if rs_description s = [] then rs_descriptionLegacy s else rs_description s),
      r_wmclasscomplete = rs_wmclasscomplete s, r_types = rs_types s,
      r_set = read_set (rs_set s), r_force = read_force E (rs_force s)\<rparr>"

definition write_string :: "bool \<Rightarrow> string_match \<Rightarrow> string_match \<Rightarrow> string_match" where
  "write_string force m s = s\<lparr>sm_match := sm_match m, sm_data := if sm_data m \<noteq> [] \<or> force then sm_data m else sm_data s\<rparr>"

definition write_ruler :: "'a ruler \<Rightarrow> 'a ruler \<Rightarrow> 'a ruler" where
  "write_ruler ru s = s\<lparr>ru_rule := ru_rule ru, ru_data := if ru_rule ru \<noteq> R_Unused then ru_data ru else ru_data s\<rparr>"

definition colorToString :: "rule_env \<Rightarrow> string \<Rightarrow> string" where
  "colorToString E v = (if drop (length v - 7) v = ''.colors'' then re_baseName E v else v)"

definition write_set :: "set_rules \<Rightarrow> set_rules \<Rightarrow> set_rules" where
  "write_set st d = d\<lparr>st_above := write_ruler (st_above st) (st_above d),
     st_activity := write_ruler (st_activity st) (st_activity d),
     st_below := write_ruler (st_below st) (st_below d),
     st_desktop := write_ruler (st_desktop st) (st_desktop d),
     st_desktopfile := write_ruler (st_desktopfile st) (st_desktopfile d),
     st_fullscreen := write_ruler (st_fullscreen st) (st_fullscreen d),
     st_ignoregeometry := write_ruler (st_ignoregeometry st) (st_ignoregeometry d),
     st_maximizehoriz := write_ruler (st_maximizehoriz st) (st_maximizehoriz d),
     st_maximizevert := write_ruler (st_maximizevert st) (st_maximizevert d),
     st_minimize := write_ruler (st_minimize st) (st_minimize d),
     st_noborder := write_ruler (st_noborder st) (st_noborder d),
     st_position := write_ruler (st_position st) (st_position d),
     st_screen := write_ruler (st_screen st) (st_screen d),
     st_shortcut := write_ruler (st_shortcut st) (st_shortcut d),
     st_size := write_ruler (st_size st) (st_size d),
     st_skippager := write_ruler (st_skippager st) (st_skippager d),
     st_skipswitcher := write_ruler (st_skipswitcher st) (st_skipswitcher d),
     st_skiptaskbar := write_ruler (st_skiptaskbar st) (st_skiptaskbar d)\<rparr>"

definition write_force :: "rule_env \<Rightarrow> force_rules \<Rightarrow> force_rules \<Rightarrow> force_rules" where
  "write_force E fo d = d\<lparr>fo_acceptfocus := write_ruler (fo_acceptfocus fo) (fo_acceptfocus d),
     fo_autogroup := write_ruler (fo_autogroup fo) (fo_autogroup d),
     fo_autogroupfg := write_ruler (fo_autogroupfg fo) (fo_autogroupfg d),
     fo_autogroupid := write_ruler (fo_autogroupid fo) (fo_autogroupid d),
     fo_blockcompositing := write_ruler (fo_blockcompositing fo) (fo_blockcompositing d),
     fo_closeable := write_ruler (fo_closeable fo) (fo_closeable d),
     fo_decocolor := write_ruler ((fo_decocolor fo)\<lparr>ru_data := colorToString E (ru_data (fo_decocolor fo))\<rparr>) (fo_decocolor d),
     fo_disableglobalshortcuts := write_ruler (fo_disableglobalshortcuts fo) (fo_disableglobalshortcuts d),
     fo_fpplevel := write_ruler (fo_fpplevel fo) (fo_fpplevel d),
     fo_fsplevel := write_ruler (fo_fsplevel fo) (fo_fsplevel d),
     fo_maxsize := write_ruler (fo_maxsize fo) (fo_maxsize d),
     fo_minsize := write_ruler (fo_minsize fo) (fo_minsize d),
     fo_opacityactive := write_ruler (fo_opacityactive fo) (fo_opacityactive d),
     fo_opacityinactive := write_ruler (fo_opacityinactive fo) (fo_opacityinactive d),
     fo_placement := write_ruler (fo_placement fo) (fo_placement d),
     fo_strictgeometry := write_ruler (fo_strictgeometry fo) (fo_strictgeometry d),
     fo_type := write_ruler (fo_type fo) (fo_type d)\<rparr>"

definition rules_write :: "rule_env \<Rightarrow> rules \<Rightarrow> rule_settings \<Rightarrow> rule_settings" where
  "rules_write E r D = D\<lparr>
     rs_description := r_description r,
     rs_wmclass := write_string True (r_wmclass r) (rs_wmclass D), rs_wmclasscomplete := r_wmclasscomplete r,
     rs_windowrole := write_string False (r_windowrole r) (rs_windowrole D),
     rs_title := write_string False (r_title r) (rs_title D),
     rs_clientmachine := write_string False (r_clientmachine r) (rs_clientmachine D),
     rs_types := r_types r, rs_set := write_set (r_set r) (rs_set D), rs_force := write_force E (r_force r) (rs_force D)\<rparr>"

section \<open>The book\<close>

datatype book_event = StorageTimer | CleanupTimer

record rule_book =
  rb_store :: "addr \<rightharpoonup> rules"
  rb_rules :: "addr list"
  rb_window :: "addr \<Rightarrow> addr list"
  rb_updatesDisabled :: bool
  rb_log :: "book_event list"

definition deref :: "rule_book \<Rightarrow> addr \<Rightarrow> rules outcome" where
  "deref b a = (case rb_store b a of None \<Rightarrow> Faults NullDeref | Some r \<Rightarrow> Returns r)"

text \<open>The loop of \<open>find\<close>: what remains in the book, and what was found.\<close>

fun find_loop :: "(rules \<Rightarrow> bool) \<Rightarrow> bool \<Rightarrow> rule_book \<Rightarrow> addr list \<Rightarrow> (addr list \<times> addr list) outcome" where
  "find_loop matches ignore b [] = Returns ([], [])"
| "find_loop matches ignore b (a # as) =
     obind (deref b a) (\<lambda>r. obind (find_loop matches ignore b as) (\<lambda>(keep, found). Returns (
       if ignore \<and> rules_isTemporary r then (a # keep, found)
       else if matches r then (if rules_isTemporary r then (keep, a # found) else (a # keep, a # found))
       else (a # keep, found))))"

text \<open>\<open>setup_rules\<close>: the window gets the rules that are found for it.\<close>

definition setup_rules :: "(rules \<Rightarrow> bool) \<Rightarrow> bool \<Rightarrow> addr \<Rightarrow> rule_book \<Rightarrow> rule_book outcome" where
  "setup_rules matches ignore w b =
     obind (find_loop matches ignore b (rb_rules b)) (\<lambda>(keep, found).
       Returns (b\<lparr>rb_rules := keep, rb_window := (rb_window b)(w := found)\<rparr>))"

definition requestDiskStorage :: "rule_book \<Rightarrow> rule_book" where
  "requestDiskStorage b = b\<lparr>rb_log := rb_log b @ [StorageTimer]\<rparr>"

text \<open>The rules \<open>save\<close> hands to the configuration.\<close>

definition saved_rules :: "rule_book \<Rightarrow> addr list" where
  "saved_rules b = filter (\<lambda>a. case rb_store b a of None \<Rightarrow> False | Some r \<Rightarrow> \<not> rules_isTemporary r) (rb_rules b)"

definition temporaryRulesMessage :: "addr \<Rightarrow> rules \<Rightarrow> rule_book \<Rightarrow> rule_book" where
  "temporaryRulesMessage a r b =
     (let was_temporary = list_ex (\<lambda>x. case rb_store b x of None \<Rightarrow> False | Some q \<Rightarrow> rules_isTemporary q) (rb_rules b);
          b1 = b\<lparr>rb_store := (rb_store b)(a \<mapsto> r), rb_rules := a # rb_rules b\<rparr>
      in if was_temporary then b1 else b1\<lparr>rb_log := rb_log b1 @ [CleanupTimer]\<rparr>)"

text \<open>\<open>Rules::discardTemporary\<close>: \<open>None\<close> when the rule deletes itself.\<close>

definition discardTemporary :: "bool \<Rightarrow> rules \<Rightarrow> rules option" where
  "discardTemporary force r =
     (if r_temporary_state r = 0 then Some r
      else if force then None
      else if r_temporary_state r - 1 = 0 then None else Some (r\<lparr>r_temporary_state := r_temporary_state r - 1\<rparr>))"

fun cleanup_loop :: "addr list \<Rightarrow> rule_book \<Rightarrow> (addr list \<times> bool \<times> rule_book) outcome" where
  "cleanup_loop [] b = Returns ([], False, b)"
| "cleanup_loop (a # as) b =
     obind (deref b a) (\<lambda>r.
       (case discardTemporary False r of
          None \<Rightarrow> cleanup_loop as (b\<lparr>rb_store := (rb_store b)(a := None)\<rparr>)
        | Some r' \<Rightarrow> obind (cleanup_loop as (b\<lparr>rb_store := (rb_store b)(a \<mapsto> r')\<rparr>)) (\<lambda>(keep, tmp, b').
            Returns (a # keep, tmp \<or> rules_isTemporary r', b'))))"

definition cleanupTemporaryRules :: "rule_book \<Rightarrow> rule_book outcome" where
  "cleanupTemporaryRules b =
     obind (cleanup_loop (rb_rules b) b) (\<lambda>(keep, tmp, b').
       Returns (let b1 = b'\<lparr>rb_rules := keep\<rparr> in if tmp then b1\<lparr>rb_log := rb_log b1 @ [CleanupTimer]\<rparr> else b1))"

text \<open>\<open>WindowRules::discardTemporary\<close> on the rules of a window.\<close>

fun window_discard_loop :: "addr list \<Rightarrow> rule_book \<Rightarrow> (addr list \<times> rule_book) outcome" where
  "window_discard_loop [] b = Returns ([], b)"
| "window_discard_loop (a # as) b =
     obind (deref b a) (\<lambda>r.
       (case discardTemporary True r of
          None \<Rightarrow> window_discard_loop as (b\<lparr>rb_store := (rb_store b)(a := None)\<rparr>)
        | Some r' \<Rightarrow> obind (window_discard_loop as b) (\<lambda>(keep, b'). Returns (a # keep, b'))))"

definition discard_temporary_rules :: "addr \<Rightarrow> rule_book \<Rightarrow> rule_book outcome" where
  "discard_temporary_rules w b =
     obind (window_discard_loop (rb_window b w) b) (\<lambda>(keep, b'). Returns (b'\<lparr>rb_window := (rb_window b')(w := keep)\<rparr>))"

fun discard_used_loop :: "addr \<Rightarrow> bool \<Rightarrow> addr list \<Rightarrow> rule_book \<Rightarrow> (addr list \<times> bool \<times> rule_book) outcome" where
  "discard_used_loop w withdrawn [] b = Returns ([], False, b)"
| "discard_used_loop w withdrawn (a # as) b =
     (if a \<in> set (rb_window b w)
      then obind (deref b a) (\<lambda>r.
        let (changed, r') = rules_discardUsed withdrawn r in
        if rules_isEmpty r'
        then obind (discard_used_loop w withdrawn as (b\<lparr>rb_window := (rb_window b)(w := remove1 a (rb_window b w)), rb_store := (rb_store b)(a := None)\<rparr>))
               (\<lambda>(keep, upd, b'). Returns (keep, changed \<or> upd, b'))
        else obind (discard_used_loop w withdrawn as (b\<lparr>rb_store := (rb_store b)(a \<mapsto> r')\<rparr>))
               (\<lambda>(keep, upd, b'). Returns (a # keep, changed \<or> upd, b')))
      else obind (discard_used_loop w withdrawn as b) (\<lambda>(keep, upd, b'). Returns (a # keep, upd, b')))"

definition discardUsed :: "addr \<Rightarrow> bool \<Rightarrow> rule_book \<Rightarrow> rule_book outcome" where
  "discardUsed w withdrawn b =
     obind (discard_used_loop w withdrawn (rb_rules b) b) (\<lambda>(keep, upd, b').
       Returns (let b1 = b'\<lparr>rb_rules := keep\<rparr> in if upd then requestDiskStorage b1 else b1))"

text \<open>\<open>WindowRules::update\<close> through \<open>updateWindowRules\<close>.\<close>

fun rules_update_loop :: "rule_type set \<Rightarrow> rule_view \<Rightarrow> addr list \<Rightarrow> rule_book \<Rightarrow> (bool \<times> rule_book) outcome" where
  "rules_update_loop sel v [] b = Returns (False, b)"
| "rules_update_loop sel v (a # as) b =
     obind (deref b a) (\<lambda>r. let (changed, r') = rules_update sel v r in
       obind (rules_update_loop sel v as (b\<lparr>rb_store := (rb_store b)(a \<mapsto> r')\<rparr>)) (\<lambda>(upd, b'). Returns (changed \<or> upd, b')))"

definition updateWindowRules :: "rule_type set \<Rightarrow> rule_view \<Rightarrow> addr \<Rightarrow> rule_book \<Rightarrow> rule_book outcome" where
  "updateWindowRules sel v w b =
     (if rb_updatesDisabled b then Returns b
      else obind (rules_update_loop sel v (rb_window b w) b) (\<lambda>(upd, b'). Returns (if upd then requestDiskStorage b' else b')))"

text \<open>\<open>finish_rules\<close> of \<^verbatim>\<open>win/rules.h\<close>, when a window goes.\<close>

definition finish_rules :: "rule_view \<Rightarrow> addr \<Rightarrow> rule_book \<Rightarrow> rule_book outcome" where
  "finish_rules v w b =
     obind (updateWindowRules UNIV v w b) (\<lambda>b'. Returns (b'\<lparr>rb_window := (rb_window b')(w := [])\<rparr>))"

text \<open>\<open>load\<close>: the rules of the book are deleted and those of the configuration, at new addresses, take their place.\<close>

definition deleteAll :: "rule_book \<Rightarrow> rule_book" where
  "deleteAll b = b\<lparr>rb_store := (\<lambda>a. if a \<in> set (rb_rules b) then None else rb_store b a), rb_rules := []\<rparr>"

definition load_rules :: "(addr \<times> rules) list \<Rightarrow> rule_book \<Rightarrow> rule_book" where
  "load_rules new b = (let b1 = deleteAll b in b1\<lparr>rb_store := rb_store b1 ++ map_of new, rb_rules := map fst new\<rparr>)"

fun update_windows :: "(addr \<Rightarrow> rule_view) \<Rightarrow> addr list \<Rightarrow> rule_book \<Rightarrow> rule_book outcome" where
  "update_windows v [] b = Returns b"
| "update_windows v (w # ws) b = obind (updateWindowRules UNIV (v w) w b) (update_windows v ws)"

definition setUpdatesDisabled :: "bool \<Rightarrow> (addr \<Rightarrow> rule_view) \<Rightarrow> addr list \<Rightarrow> rule_book \<Rightarrow> rule_book outcome" where
  "setUpdatesDisabled disable v clients b =
     (let b1 = b\<lparr>rb_updatesDisabled := disable\<rparr> in if disable then Returns b1 else update_windows v clients b1)"

end
