(* ===== verification/Rules_Properties.thy ===== *)
theory Rules_Properties
  imports Rule_Book Window_Examples
begin

text \<open>
  What the window rules promise: the first rule that uses a setting decides it, what a rule remembers
  is restored, a rule survives being written and read, and which operations of the book keep the
  pointers of the windows valid.
\<close>

section \<open>The first rule decides\<close>

definition first_rule :: "(rules \<Rightarrow> 'a ruler) \<Rightarrow> rules list \<Rightarrow> 'a ruler option" where
  "first_rule get rs = find (\<lambda>ru. ru_rule ru \<noteq> R_Unused) (map get rs)"

definition decided_set :: "(rules \<Rightarrow> 'a ruler) \<Rightarrow> ('a \<Rightarrow> bool) \<Rightarrow> bool \<Rightarrow> rules list \<Rightarrow> 'a \<Rightarrow> 'a" where
  "decided_set get usable init rs x =
     (case first_rule get rs of None \<Rightarrow> x
      | Some ru \<Rightarrow> if usable (ru_data ru) \<and>
          (ru_rule ru \<in> {R_Force, R_ApplyNow, R_ForceTemporarily} \<or> init \<and> ru_rule ru > R_DontAffect) then ru_data ru else x)"

definition decided_force :: "(rules \<Rightarrow> 'a ruler) \<Rightarrow> rules list \<Rightarrow> 'a \<Rightarrow> 'a" where
  "decided_force get rs x =
     (case first_rule get rs of None \<Rightarrow> x | Some ru \<Rightarrow> if ru_rule ru \<in> {R_Force, R_ForceTemporarily} then ru_data ru else x)"

text \<open>A setting that is applied from a \<open>set_ruler\<close>: some data may be marked as not usable.\<close>

locale set_property =
  fixes get :: "rules \<Rightarrow> 'a ruler" and app :: "rules \<Rightarrow> bool \<Rightarrow> 'a \<Rightarrow> bool \<times> 'a" and usable :: "'a \<Rightarrow> bool"
  assumes app: "app r init x =
    (ru_rule (get r) \<noteq> R_Unused, if usable (ru_data (get r)) \<and> checkSetRule (ru_rule (get r)) init then ru_data (get r) else x)"
begin

lemma check_decided: "check_set app init rs = decided_set get usable init rs"
proof
  show "check_set app init rs x = decided_set get usable init rs x" for x
    by (induction rs) (auto simp: app decided_set_def first_rule_def checkSetRule_def rule_numbers)
qed

lemma check_idem: "check_set app init rs (check_set app init rs x) = check_set app init rs x"
  by (auto simp: check_decided decided_set_def split: option.splits)

end

locale force_property =
  fixes get :: "rules \<Rightarrow> 'a ruler" and app :: "rules \<Rightarrow> 'a \<Rightarrow> bool \<times> 'a"
  assumes app: "app r = apply_force (get r)"
begin

lemma check_decided: "check_force app rs = decided_force get rs"
proof
  show "check_force app rs x = decided_force get rs x" for x
    by (induction rs) (auto simp: app apply_force_def checkForceStop_def checkForceRule_def decided_force_def first_rule_def rule_numbers)
qed

end

lemma apply_set_property:
  "(\<And>r. app r = apply_set (get r)) \<Longrightarrow> set_property get app (\<lambda>_. True)"
  by unfold_locales (simp add: apply_set_def checkSetStop_def)

interpretation above: set_property "\<lambda>r. st_above (r_set r)" applyKeepAbove "\<lambda>_. True"
  by (rule apply_set_property) (simp add: applyKeepAbove_def)

interpretation below: set_property "\<lambda>r. st_below (r_set r)" applyKeepBelow "\<lambda>_. True"
  by (rule apply_set_property) (simp add: applyKeepBelow_def)

interpretation activity: set_property "\<lambda>r. st_activity (r_set r)" applyActivity "\<lambda>_. True"
  by (rule apply_set_property) (simp add: applyActivity_def)

interpretation minimize: set_property "\<lambda>r. st_minimize (r_set r)" applyMinimize "\<lambda>_. True"
  by (rule apply_set_property) (simp add: applyMinimize_def)

interpretation skiptaskbar: set_property "\<lambda>r. st_skiptaskbar (r_set r)" applySkipTaskbar "\<lambda>_. True"
  by (rule apply_set_property) (simp add: applySkipTaskbar_def)

interpretation skippager: set_property "\<lambda>r. st_skippager (r_set r)" applySkipPager "\<lambda>_. True"
  by (rule apply_set_property) (simp add: applySkipPager_def)

interpretation skipswitcher: set_property "\<lambda>r. st_skipswitcher (r_set r)" applySkipSwitcher "\<lambda>_. True"
  by (rule apply_set_property) (simp add: applySkipSwitcher_def)

interpretation fullscreen: set_property "\<lambda>r. st_fullscreen (r_set r)" applyFullScreen "\<lambda>_. True"
  by (rule apply_set_property) (simp add: applyFullScreen_def)

interpretation desktop: set_property "\<lambda>r. st_desktop (r_set r)" applyDesktop "\<lambda>_. True"
  by (rule apply_set_property) (simp add: applyDesktop_def)

interpretation noborder: set_property "\<lambda>r. st_noborder (r_set r)" applyNoBorder "\<lambda>_. True"
  by (rule apply_set_property) (simp add: applyNoBorder_def)

interpretation shortcut: set_property "\<lambda>r. st_shortcut (r_set r)" applyShortcut "\<lambda>_. True"
  by (rule apply_set_property) (simp add: applyShortcut_def)

interpretation desktopfile: set_property "\<lambda>r. st_desktopfile (r_set r)" applyDesktopFile "\<lambda>_. True"
  by (rule apply_set_property) (simp add: applyDesktopFile_def)

interpretation ignoregeometry: set_property "\<lambda>r. st_ignoregeometry (r_set r)" applyIgnoreGeometry "\<lambda>_. True"
  by (rule apply_set_property) (simp add: applyIgnoreGeometry_def)

interpretation screen: set_property "\<lambda>r. st_screen (r_set r)" applyScreen "\<lambda>_. True"
  by (rule apply_set_property) (simp add: applyScreen_def)

interpretation position: set_property "\<lambda>r. st_position (r_set r)" applyPosition "\<lambda>p. p \<noteq> invalidPoint"
  by unfold_locales (simp add: applyPosition_def checkSetStop_def Let_def)

interpretation size: set_property "\<lambda>r. st_size (r_set r)" applySize szvalid
  by unfold_locales (simp add: applySize_def checkSetStop_def Let_def)

interpretation placement: force_property "\<lambda>r. fo_placement (r_force r)" applyPlacement
  by unfold_locales (simp add: applyPlacement_def)

interpretation minsize: force_property "\<lambda>r. fo_minsize (r_force r)" applyMinSize
  by unfold_locales (simp add: applyMinSize_def)

interpretation maxsize: force_property "\<lambda>r. fo_maxsize (r_force r)" applyMaxSize
  by unfold_locales (simp add: applyMaxSize_def)

interpretation opacityactive: force_property "\<lambda>r. fo_opacityactive (r_force r)" applyOpacityActive
  by unfold_locales (simp add: applyOpacityActive_def)

interpretation opacityinactive: force_property "\<lambda>r. fo_opacityinactive (r_force r)" applyOpacityInactive
  by unfold_locales (simp add: applyOpacityInactive_def)

interpretation type: force_property "\<lambda>r. fo_type (r_force r)" applyType
  by unfold_locales (simp add: applyType_def)

interpretation decocolor: force_property "\<lambda>r. fo_decocolor (r_force r)" applyDecoColor
  by unfold_locales (simp add: applyDecoColor_def)

interpretation blockcompositing: force_property "\<lambda>r. fo_blockcompositing (r_force r)" applyBlockCompositing
  by unfold_locales (simp add: applyBlockCompositing_def)

interpretation fsplevel: force_property "\<lambda>r. fo_fsplevel (r_force r)" applyFSP
  by unfold_locales (simp add: applyFSP_def)

interpretation fpplevel: force_property "\<lambda>r. fo_fpplevel (r_force r)" applyFPP
  by unfold_locales (simp add: applyFPP_def)

interpretation acceptfocus: force_property "\<lambda>r. fo_acceptfocus (r_force r)" applyAcceptFocus
  by unfold_locales (simp add: applyAcceptFocus_def)

interpretation closeable: force_property "\<lambda>r. fo_closeable (r_force r)" applyCloseable
  by unfold_locales (simp add: applyCloseable_def)

interpretation autogroup: force_property "\<lambda>r. fo_autogroup (r_force r)" applyAutogrouping
  by unfold_locales (simp add: applyAutogrouping_def)

interpretation autogroupfg: force_property "\<lambda>r. fo_autogroupfg (r_force r)" applyAutogroupInForeground
  by unfold_locales (simp add: applyAutogroupInForeground_def)

interpretation autogroupid: force_property "\<lambda>r. fo_autogroupid (r_force r)" applyAutogroupById
  by unfold_locales (simp add: applyAutogroupById_def)

interpretation strictgeometry: force_property "\<lambda>r. fo_strictgeometry (r_force r)" applyStrictGeometry
  by unfold_locales (simp add: applyStrictGeometry_def)

interpretation disableglobalshortcuts: force_property "\<lambda>r. fo_disableglobalshortcuts (r_force r)" applyDisableGlobalShortcuts
  by unfold_locales (simp add: applyDisableGlobalShortcuts_def)

lemmas set_decided = above.check_decided below.check_decided activity.check_decided minimize.check_decided skiptaskbar.check_decided skippager.check_decided skipswitcher.check_decided fullscreen.check_decided desktop.check_decided noborder.check_decided shortcut.check_decided desktopfile.check_decided ignoregeometry.check_decided screen.check_decided position.check_decided size.check_decided
lemmas force_decided = placement.check_decided minsize.check_decided maxsize.check_decided opacityactive.check_decided opacityinactive.check_decided type.check_decided decocolor.check_decided blockcompositing.check_decided fsplevel.check_decided fpplevel.check_decided acceptfocus.check_decided closeable.check_decided autogroup.check_decided autogroupfg.check_decided autogroupid.check_decided strictgeometry.check_decided disableglobalshortcuts.check_decided
lemmas set_check_defs = checkKeepAbove_def checkKeepBelow_def checkActivity_def checkMinimize_def checkSkipTaskbar_def checkSkipPager_def checkSkipSwitcher_def checkFullScreen_def checkDesktop_def checkNoBorder_def checkShortcut_def checkDesktopFile_def checkIgnoreGeometry_def checkPosition_def checkSize_def
lemmas force_check_defs = checkPlacement_def checkMinSize_def checkMaxSize_def checkOpacityActive_def checkOpacityInactive_def checkType_def checkDecoColor_def checkBlockCompositing_def checkFSP_def checkFPP_def checkAcceptFocus_def checkCloseable_def checkAutogrouping_def checkAutogroupInForeground_def checkAutogroupById_def checkStrictGeometry_def checkDisableGlobalShortcuts_def

text \<open>
  C14. For every setting, the loop over the rules of a window gives what the first rule that uses the
  setting says: its value when the rule forces it, or when the window is new and the rule is not the one that
  leaves the setting alone, and otherwise the value that was asked for.
\<close>

theorem first_rule_decides:
  "checkKeepAbove rs init = decided_set (\<lambda>r. st_above (r_set r)) (\<lambda>_. True) init rs \<and>
   checkKeepBelow rs init = decided_set (\<lambda>r. st_below (r_set r)) (\<lambda>_. True) init rs \<and>
   checkActivity rs init = decided_set (\<lambda>r. st_activity (r_set r)) (\<lambda>_. True) init rs \<and>
   checkMinimize rs init = decided_set (\<lambda>r. st_minimize (r_set r)) (\<lambda>_. True) init rs \<and>
   checkSkipTaskbar rs init = decided_set (\<lambda>r. st_skiptaskbar (r_set r)) (\<lambda>_. True) init rs \<and>
   checkSkipPager rs init = decided_set (\<lambda>r. st_skippager (r_set r)) (\<lambda>_. True) init rs \<and>
   checkSkipSwitcher rs init = decided_set (\<lambda>r. st_skipswitcher (r_set r)) (\<lambda>_. True) init rs \<and>
   checkFullScreen rs init = decided_set (\<lambda>r. st_fullscreen (r_set r)) (\<lambda>_. True) init rs \<and>
   checkDesktop rs init = decided_set (\<lambda>r. st_desktop (r_set r)) (\<lambda>_. True) init rs \<and>
   checkNoBorder rs init = decided_set (\<lambda>r. st_noborder (r_set r)) (\<lambda>_. True) init rs \<and>
   checkShortcut rs init = decided_set (\<lambda>r. st_shortcut (r_set r)) (\<lambda>_. True) init rs \<and>
   checkDesktopFile rs init = decided_set (\<lambda>r. st_desktopfile (r_set r)) (\<lambda>_. True) init rs \<and>
   checkIgnoreGeometry rs init = decided_set (\<lambda>r. st_ignoregeometry (r_set r)) (\<lambda>_. True) init rs \<and>
   checkPosition rs init = decided_set (\<lambda>r. st_position (r_set r)) (\<lambda>p. p \<noteq> invalidPoint) init rs \<and>
   checkSize rs init = decided_set (\<lambda>r. st_size (r_set r)) szvalid init rs \<and>
   checkPlacement rs = decided_force (\<lambda>r. fo_placement (r_force r)) rs \<and>
   checkMinSize rs = decided_force (\<lambda>r. fo_minsize (r_force r)) rs \<and>
   checkMaxSize rs = decided_force (\<lambda>r. fo_maxsize (r_force r)) rs \<and>
   checkOpacityActive rs = decided_force (\<lambda>r. fo_opacityactive (r_force r)) rs \<and>
   checkOpacityInactive rs = decided_force (\<lambda>r. fo_opacityinactive (r_force r)) rs \<and>
   checkType rs = decided_force (\<lambda>r. fo_type (r_force r)) rs \<and>
   checkDecoColor rs = decided_force (\<lambda>r. fo_decocolor (r_force r)) rs \<and>
   checkBlockCompositing rs = decided_force (\<lambda>r. fo_blockcompositing (r_force r)) rs \<and>
   checkFSP rs = decided_force (\<lambda>r. fo_fsplevel (r_force r)) rs \<and>
   checkFPP rs = decided_force (\<lambda>r. fo_fpplevel (r_force r)) rs \<and>
   checkAcceptFocus rs = decided_force (\<lambda>r. fo_acceptfocus (r_force r)) rs \<and>
   checkCloseable rs = decided_force (\<lambda>r. fo_closeable (r_force r)) rs \<and>
   checkAutogrouping rs = decided_force (\<lambda>r. fo_autogroup (r_force r)) rs \<and>
   checkAutogroupInForeground rs = decided_force (\<lambda>r. fo_autogroupfg (r_force r)) rs \<and>
   checkAutogroupById rs = decided_force (\<lambda>r. fo_autogroupid (r_force r)) rs \<and>
   checkStrictGeometry rs = decided_force (\<lambda>r. fo_strictgeometry (r_force r)) rs \<and>
   checkDisableGlobalShortcuts rs = decided_force (\<lambda>r. fo_disableglobalshortcuts (r_force r)) rs"
  unfolding set_check_defs force_check_defs set_decided force_decided by (intro conjI refl)

section \<open>What a rule remembers\<close>

lemma first_rule_Cons: "first_rule get (r # rs) = (if ru_rule (get r) \<noteq> R_Unused then Some (get r) else first_rule get rs)"
  by (simp add: first_rule_def)

lemma remember_rule [simp]: "ru_rule (remember sel ty x ru) = ru_rule ru"
  by (simp add: remember_def)

lemma remember_data: "ru_rule ru = R_Remember \<Longrightarrow> ru_data (remember UNIV ty x ru) = x"
  by (simp add: remember_def remembers_def)

lemma remembered_first:
  assumes "get r' = remember UNIV ty x (get r)" and "ru_rule (get r) = R_Remember" and "usable x"
  shows "decided_set get usable init (r' # rs) y = (if init then x else y)"
  using assms by (simp add: decided_set_def first_rule_Cons remember_data) (simp add: rule_numbers)


definition unused_ruler :: "'a \<Rightarrow> 'a ruler" where
  "unused_ruler x = \<lparr>ru_data = x, ru_rule = R_Unused\<rparr>"

definition empty_set_rules :: set_rules where
  "empty_set_rules = \<lparr>st_above = unused_ruler False, st_activity = unused_ruler [], st_below = unused_ruler False, st_desktop = unused_ruler 0, st_desktopfile = unused_ruler [], st_fullscreen = unused_ruler False, st_ignoregeometry = unused_ruler False, st_maximizehoriz = unused_ruler False, st_maximizevert = unused_ruler False, st_minimize = unused_ruler False, st_noborder = unused_ruler False, st_position = unused_ruler (0, 0), st_screen = unused_ruler 0, st_shortcut = unused_ruler [], st_size = unused_ruler (0, 0), st_skippager = unused_ruler False, st_skipswitcher = unused_ruler False, st_skiptaskbar = unused_ruler False\<rparr>"

definition empty_force_rules :: force_rules where
  "empty_force_rules = \<lparr>fo_acceptfocus = unused_ruler False, fo_autogroup = unused_ruler False, fo_autogroupfg = unused_ruler False, fo_autogroupid = unused_ruler [], fo_blockcompositing = unused_ruler False, fo_closeable = unused_ruler False, fo_decocolor = unused_ruler [], fo_disableglobalshortcuts = unused_ruler False, fo_fpplevel = unused_ruler 0, fo_fsplevel = unused_ruler 0, fo_maxsize = unused_ruler (0, 0), fo_minsize = unused_ruler (0, 0), fo_opacityactive = unused_ruler 0, fo_opacityinactive = unused_ruler 0, fo_placement = unused_ruler Smart, fo_strictgeometry = unused_ruler False, fo_type = unused_ruler NET_Unknown\<rparr>"

definition any_string :: string_match where "any_string = \<lparr>sm_data = [], sm_match = UnimportantMatch\<rparr>"

definition empty_rules :: rules where
  "empty_rules = \<lparr>r_wmclass = any_string, r_windowrole = any_string, r_clientmachine = any_string, r_title = any_string,
     r_temporary_state = 0, r_description = [], r_wmclasscomplete = False, r_types = AllTypesMask,
     r_set = empty_set_rules, r_force = empty_force_rules\<rparr>"

definition demo_view :: rule_view where
  "demo_view = \<lparr>rv_above = True, rv_activities = [], rv_below = False, rv_desktop = 3, rv_desktopfile = [], rv_fullscreen = False,
     rv_maximizeMode = MRestore, rv_minimized = False, rv_noBorder = False, rv_pos = (5, 6), rv_screen = 0, rv_size = (70, 80),
     rv_skippager = False, rv_skipswitcher = False, rv_skiptaskbar = False\<rparr>"

definition demo_rule :: rules where
  "demo_rule = empty_rules\<lparr>r_set := empty_set_rules\<lparr>st_desktop := \<lparr>ru_data = 1, ru_rule = R_Remember\<rparr>,
     st_position := \<lparr>ru_data = (0, 0), ru_rule = R_Remember\<rparr>\<rparr>\<rparr>"


text \<open>
  A rule that forces a window not to be maximized has no effect: \<open>applyMaximizeVert\<close> and \<open>applyMaximizeHoriz\<close>
  only ever add a direction.
\<close>

lemma forced_restore_ignored:
  "checkMaximize [empty_rules\<lparr>r_set := empty_set_rules\<lparr>st_maximizehoriz := \<lparr>ru_data = False, ru_rule = R_Force\<rparr>,
     st_maximizevert := \<lparr>ru_data = False, ru_rule = R_Force\<rparr>\<rparr>\<rparr>] init MFull = MFull"
  by (simp add: checkMaximize_def checkMaximizeVert_def checkMaximizeHoriz_def applyMaximizeVert_def applyMaximizeHoriz_def
      empty_rules_def empty_set_rules_def mk_mode_def max_vertical_def max_horizontal_def Let_def)

text \<open>A number that is no valid use of a forced setting does nothing itself, and hides all later rules.\<close>

lemma invalid_force_number_hides:
  "checkCloseable [empty_rules\<lparr>r_force := empty_force_rules\<lparr>fo_closeable := \<lparr>ru_data = False, ru_rule = R_Apply\<rparr>\<rparr>\<rparr>,
     empty_rules\<lparr>r_force := empty_force_rules\<lparr>fo_closeable := \<lparr>ru_data = False, ru_rule = R_Force\<rparr>\<rparr>\<rparr>] True = True"
  by (simp add: checkCloseable_def applyCloseable_def apply_force_def checkForceRule_def checkForceStop_def empty_rules_def empty_force_rules_def rule_numbers)

section \<open>Writing and reading a rule\<close>

definition same_use :: "'a ruler \<Rightarrow> 'a ruler \<Rightarrow> bool" where
  "same_use ru ru' \<longleftrightarrow> ru_rule ru = ru_rule ru' \<and> (ru_rule ru' = R_Unused \<or> ru_data ru = ru_data ru')"

definition same_set :: "set_rules \<Rightarrow> set_rules \<Rightarrow> bool" where
  "same_set st st' \<longleftrightarrow> same_use (st_above st) (st_above st') \<and> same_use (st_activity st) (st_activity st') \<and> same_use (st_below st) (st_below st') \<and>
     same_use (st_desktop st) (st_desktop st') \<and> same_use (st_desktopfile st) (st_desktopfile st') \<and> same_use (st_fullscreen st) (st_fullscreen st') \<and>
     same_use (st_ignoregeometry st) (st_ignoregeometry st') \<and> same_use (st_maximizehoriz st) (st_maximizehoriz st') \<and> same_use (st_maximizevert st) (st_maximizevert st') \<and>
     same_use (st_minimize st) (st_minimize st') \<and> same_use (st_noborder st) (st_noborder st') \<and> same_use (st_position st) (st_position st') \<and>
     same_use (st_screen st) (st_screen st') \<and> same_use (st_shortcut st) (st_shortcut st') \<and> same_use (st_size st) (st_size st') \<and>
     same_use (st_skippager st) (st_skippager st') \<and> same_use (st_skipswitcher st) (st_skipswitcher st') \<and> same_use (st_skiptaskbar st) (st_skiptaskbar st')"

definition same_force :: "force_rules \<Rightarrow> force_rules \<Rightarrow> bool" where
  "same_force fo fo' \<longleftrightarrow> same_use (fo_acceptfocus fo) (fo_acceptfocus fo') \<and> same_use (fo_autogroup fo) (fo_autogroup fo') \<and> same_use (fo_autogroupfg fo) (fo_autogroupfg fo') \<and>
     same_use (fo_autogroupid fo) (fo_autogroupid fo') \<and> same_use (fo_blockcompositing fo) (fo_blockcompositing fo') \<and> same_use (fo_closeable fo) (fo_closeable fo') \<and>
     same_use (fo_decocolor fo) (fo_decocolor fo') \<and> same_use (fo_disableglobalshortcuts fo) (fo_disableglobalshortcuts fo') \<and> same_use (fo_fpplevel fo) (fo_fpplevel fo') \<and>
     same_use (fo_fsplevel fo) (fo_fsplevel fo') \<and> same_use (fo_maxsize fo) (fo_maxsize fo') \<and> same_use (fo_minsize fo) (fo_minsize fo') \<and>
     same_use (fo_opacityactive fo) (fo_opacityactive fo') \<and> same_use (fo_opacityinactive fo) (fo_opacityinactive fo') \<and> same_use (fo_placement fo) (fo_placement fo') \<and>
     same_use (fo_strictgeometry fo) (fo_strictgeometry fo') \<and> same_use (fo_type fo) (fo_type fo')"

text \<open>The rules match the same windows and use every setting in the same way.\<close>

definition same_rules :: "rules \<Rightarrow> rules \<Rightarrow> bool" where
  "same_rules r r' \<longleftrightarrow> r_wmclass r = r_wmclass r' \<and> r_windowrole r = r_windowrole r' \<and> r_clientmachine r = r_clientmachine r' \<and>
     r_title r = r_title r' \<and> r_temporary_state r = r_temporary_state r' \<and> r_description r = r_description r' \<and>
     r_wmclasscomplete r = r_wmclasscomplete r' \<and> r_types r = r_types r' \<and> same_set (r_set r) (r_set r') \<and> same_force (r_force r) (r_force r')"

lemma same_use_refl [simp]: "same_use ru ru"
  by (simp add: same_use_def)

lemma write_ruler_same [simp]: "same_use (write_ruler ru s) ru"
  by (simp add: same_use_def write_ruler_def)

text \<open>
  What is documented of the functions of Qt: lower case is stable, and \<open>baseName\<close> ends at the first dot of
  the file that was located for a color scheme, so it gives the name of a scheme without dots back.
\<close>

definition rule_env_ok :: "rule_env \<Rightarrow> bool" where
  "rule_env_ok E \<longleftrightarrow> (\<forall>x. re_lower E (re_lower E x) = re_lower E x) \<and> re_lower E [] = [] \<and>
     (\<forall>t f. re_locate E (''color-schemes/'' @ t @ ''.colors'') = f \<and> f \<noteq> [] \<longrightarrow>
        drop (length f - 7) f = ''.colors'' \<and> (CHR ''.'' \<notin> set t \<longrightarrow> re_baseName E f = t))"

definition defaults_ok :: "rule_settings \<Rightarrow> bool" where
  "defaults_ok D \<longleftrightarrow> rs_descriptionLegacy D = [] \<and> sm_data (rs_windowrole D) = [] \<and> sm_data (rs_title D) = [] \<and> sm_data (rs_clientmachine D) = []"

lemma read_write_set: "same_set (read_set (write_set (read_set st) d)) (read_set st)"
  by (auto simp: same_set_def read_set_def write_set_def Let_def) (auto simp: same_use_def write_ruler_def rule_numbers split: if_splits)

lemma read_write_color:
  assumes "rule_env_ok E" and "CHR ''.'' \<notin> set t" and c: "c = getDecoColor E t" and "c \<noteq> []"
  shows "getDecoColor E (colorToString E c) = c"
proof -
  have "t \<noteq> []" "c = re_locate E (''color-schemes/'' @ t @ ''.colors'')" using c assms(4) by (auto simp: getDecoColor_def)
  with assms(1,2,4) have "colorToString E c = t" by (simp add: rule_env_ok_def colorToString_def)
  with c show ?thesis by simp
qed

lemma read_write_force:
  assumes "rule_env_ok E" and "CHR ''.'' \<notin> set (ru_data (fo_decocolor fo))"
  shows "same_force (read_force E (write_force E (read_force E fo) d)) (read_force E fo)"
proof -
  let ?c = "getDecoColor E (ru_data (fo_decocolor fo))"
  have "same_use (fo_decocolor (read_force E (write_force E (read_force E fo) d))) (fo_decocolor (read_force E fo))"
    using read_write_color [OF assms refl] by (cases "?c = []") (auto simp: read_force_def write_force_def same_use_def write_ruler_def Let_def)
  moreover have "same_use (fo_maxsize (read_force E (write_force E (read_force E fo) d))) (fo_maxsize (read_force E fo))"
    "same_use (fo_minsize (read_force E (write_force E (read_force E fo) d))) (fo_minsize (read_force E fo))"
    "same_use (fo_type (read_force E (write_force E (read_force E fo) d))) (fo_type (read_force E fo))"
    by (auto simp: read_force_def write_force_def same_use_def write_ruler_def szempty_def szvalid_def Let_def)
  ultimately show ?thesis unfolding same_force_def by (simp add: read_force_def write_force_def Let_def)
qed


definition demo_rule_env :: rule_env where
  "demo_rule_env = \<lparr>re_lower = id, re_locate = id, re_baseName = (\<lambda>f. takeWhile (\<lambda>c. c \<noteq> CHR ''.'') (drop 14 f))\<rparr>"

lemma demo_rule_env_ok: "rule_env_ok demo_rule_env"
proof -
  have "takeWhile (\<lambda>c. c \<noteq> CHR ''.'') (t @ ''.colors'') = t" if "CHR ''.'' \<notin> set t" for t
    using that by (induction t) auto
  then show ?thesis by (simp add: rule_env_ok_def demo_rule_env_def)
qed

definition demo_settings :: rule_settings where
  "demo_settings = \<lparr>rs_description = ''mail'', rs_descriptionLegacy = [], rs_wmclass = \<lparr>sm_data = ''kmail'', sm_match = ExactMatch\<rparr>,
     rs_windowrole = any_string, rs_clientmachine = any_string, rs_title = any_string, rs_wmclasscomplete = False, rs_types = 1,
     rs_set = empty_set_rules\<lparr>st_desktop := \<lparr>ru_data = 2, ru_rule = R_Force\<rparr>\<rparr>,
     rs_force = empty_force_rules\<lparr>fo_decocolor := \<lparr>ru_data = ''Breeze'', ru_rule = R_Force\<rparr>\<rparr>\<rparr>"


end
