(* ===== verification/Rule_Book_Properties.thy ===== *)
theory Rule_Book_Properties
  imports Rules_Properties
begin

text \<open>
  The rules are objects that the book and the windows point to. Every operation of the book keeps these
  pointers valid, except that a rule which has been used up is deleted while other windows follow it.
\<close>

definition is_temp :: "rule_book \<Rightarrow> addr \<Rightarrow> bool" where
  "is_temp b a \<longleftrightarrow> (\<exists>r. rb_store b a = Some r \<and> r_temporary_state r \<noteq> 0)"

text \<open>
  All pointers are valid and states of temporary rules are not negative. A temporary rule that
  belongs to a window is no longer in the book and belongs to no other window.
\<close>

definition book_ok :: "rule_book \<Rightarrow> bool" where
  "book_ok b \<longleftrightarrow> distinct (rb_rules b) \<and> set (rb_rules b) \<subseteq> dom (rb_store b) \<and>
     (\<forall>w. distinct (rb_window b w) \<and> set (rb_window b w) \<subseteq> dom (rb_store b)) \<and>
     (\<forall>a r. rb_store b a = Some r \<longrightarrow> r_temporary_state r \<ge> 0) \<and>
     (\<forall>w. \<forall>a \<in> set (rb_window b w). is_temp b a \<longrightarrow> a \<notin> set (rb_rules b) \<and> (\<forall>w'. w' \<noteq> w \<longrightarrow> a \<notin> set (rb_window b w')))"

lemma isTemporary_iff: "rb_store b a = Some r \<Longrightarrow> r_temporary_state r \<ge> 0 \<Longrightarrow> rules_isTemporary r \<longleftrightarrow> is_temp b a"
  by (auto simp: rules_isTemporary_def is_temp_def)

lemma window_live: "book_ok b \<Longrightarrow> a \<in> set (rb_window b w) \<Longrightarrow> \<exists>r. rb_store b a = Some r"
  unfolding book_ok_def by blast

lemma window_temp:
  "book_ok b \<Longrightarrow> a \<in> set (rb_window b w) \<Longrightarrow> is_temp b a \<Longrightarrow> a \<notin> set (rb_rules b) \<and> (\<forall>w'. w' \<noteq> w \<longrightarrow> a \<notin> set (rb_window b w'))"
  unfolding book_ok_def by blast

lemma book_live: "book_ok b \<Longrightarrow> a \<in> set (rb_rules b) \<Longrightarrow> \<exists>r. rb_store b a = Some r"
  unfolding book_ok_def by blast

lemma book_okI:
  assumes "distinct (rb_rules b)" and "\<And>a. a \<in> set (rb_rules b) \<Longrightarrow> rb_store b a \<noteq> None"
    and "\<And>w. distinct (rb_window b w)" and "\<And>w a. a \<in> set (rb_window b w) \<Longrightarrow> rb_store b a \<noteq> None"
    and "\<And>a r. rb_store b a = Some r \<Longrightarrow> r_temporary_state r \<ge> 0"
    and "\<And>w a. a \<in> set (rb_window b w) \<Longrightarrow> is_temp b a \<Longrightarrow> a \<notin> set (rb_rules b)"
    and "\<And>w w' a. a \<in> set (rb_window b w) \<Longrightarrow> is_temp b a \<Longrightarrow> w' \<noteq> w \<Longrightarrow> a \<notin> set (rb_window b w')"
  shows "book_ok b"
  using assms unfolding book_ok_def by blast

lemma book_ok_basic:
  "book_ok b \<Longrightarrow> distinct (rb_rules b)" "book_ok b \<Longrightarrow> distinct (rb_window b w)" "book_ok b \<Longrightarrow> rb_store b a = Some r \<Longrightarrow> 0 \<le> r_temporary_state r"
  unfolding book_ok_def by blast+

text \<open>A book whose lists only got shorter, and whose rules are as temporary as before, needs valid pointers only.\<close>

lemma book_shrinks:
  assumes "book_ok b" and "distinct (rb_rules b')" and "\<And>w. distinct (rb_window b' w)"
    and sub: "set (rb_rules b') \<subseteq> set (rb_rules b)" "\<And>w. set (rb_window b' w) \<subseteq> set (rb_window b w)"
    and live: "\<And>a. a \<in> set (rb_rules b') \<Longrightarrow> rb_store b' a \<noteq> None" "\<And>a w. a \<in> set (rb_window b' w) \<Longrightarrow> rb_store b' a \<noteq> None"
    and st: "\<And>a r'. rb_store b' a = Some r' \<Longrightarrow>
      \<exists>r. rb_store b a = Some r \<and> r_temporary_state r' \<ge> 0 \<and> (r_temporary_state r' = 0 \<longleftrightarrow> r_temporary_state r = 0)"
  shows "book_ok b'"
proof (rule book_okI)
  have t: "is_temp b a" if "is_temp b' a" for a using that st by (fastforce simp: is_temp_def)
  show "a \<in> set (rb_window b' w) \<Longrightarrow> is_temp b' a \<Longrightarrow> a \<notin> set (rb_rules b')" for a w
    using window_temp [OF assms(1), of a w] t sub by blast
  show "a \<in> set (rb_window b' w) \<Longrightarrow> is_temp b' a \<Longrightarrow> w' \<noteq> w \<Longrightarrow> a \<notin> set (rb_window b' w')" for a w w'
    using window_temp [OF assms(1), of a w] t sub(2) by blast
  show "rb_store b' a = Some r \<Longrightarrow> 0 \<le> r_temporary_state r" for a r using st by blast
qed (use assms in auto)

section \<open>The loops\<close>

lemma find_loop_spec:
  assumes "\<forall>a \<in> set as. \<exists>r. rb_store b a = Some r"
  shows "find_loop matches ignore b as = Returns
    (filter (\<lambda>a. \<not> (\<exists>r. rb_store b a = Some r \<and> matches r \<and> rules_isTemporary r \<and> \<not> ignore)) as,
     filter (\<lambda>a. \<exists>r. rb_store b a = Some r \<and> matches r \<and> \<not> (ignore \<and> rules_isTemporary r)) as)"
  using assms
proof (induction as)
  case (Cons a as)
  then obtain r where "rb_store b a = Some r" by auto
  with Cons show ?case by (simp add: deref_def)
qed simp

lemma setup_rules_ok:
  assumes "book_ok b"
  shows "\<exists>b'. setup_rules matches ignore w b = Returns b' \<and> book_ok b'"
proof -
  have d: "\<forall>a \<in> set (rb_rules b). \<exists>r. rb_store b a = Some r" using assms by (auto simp: book_ok_def)
  let ?keep = "filter (\<lambda>a. \<not> (\<exists>r. rb_store b a = Some r \<and> matches r \<and> rules_isTemporary r \<and> \<not> ignore)) (rb_rules b)"
  let ?found = "filter (\<lambda>a. \<exists>r. rb_store b a = Some r \<and> matches r \<and> \<not> (ignore \<and> rules_isTemporary r)) (rb_rules b)"
  let ?b = "b\<lparr>rb_rules := ?keep, rb_window := (rb_window b)(w := ?found)\<rparr>"
  have t: "is_temp ?b a = is_temp b a" for a by (simp add: is_temp_def)
  have "rules_isTemporary r = is_temp b a" if "rb_store b a = Some r" for a r
    using that assms isTemporary_iff by (auto simp: book_ok_def)
  then have "book_ok ?b" using assms unfolding book_ok_def t by auto
  then show ?thesis by (simp add: setup_rules_def find_loop_spec [OF d])
qed

text \<open>What the loop over temporary rules does to the store.\<close>

lemma cleanup_loop_spec:
  assumes "distinct as" and "\<forall>a \<in> set as. \<exists>r. rb_store b a = Some r"
  shows "\<exists>keep tmp b'. cleanup_loop as b = Returns (keep, tmp, b') \<and>
    b' = b\<lparr>rb_store := (\<lambda>a. if a \<in> set as then Option.bind (rb_store b a) (discardTemporary False) else rb_store b a)\<rparr> \<and>
    keep = filter (\<lambda>a. rb_store b' a \<noteq> None) as"
  using assms
proof (induction as arbitrary: b)
  case (Cons a as)
  then obtain r where r: "rb_store b a = Some r" by auto
  let ?b = "b\<lparr>rb_store := (rb_store b)(a := discardTemporary False r)\<rparr>"
  have "\<forall>x \<in> set as. \<exists>r. rb_store ?b x = Some r" using Cons.prems by auto
  from Cons.IH [OF _ this] Cons.prems obtain keep tmp b' where
    b': "cleanup_loop as ?b = Returns (keep, tmp, b')"
      "b' = ?b\<lparr>rb_store := (\<lambda>x. if x \<in> set as then Option.bind (rb_store ?b x) (discardTemporary False) else rb_store ?b x)\<rparr>"
      "keep = filter (\<lambda>x. rb_store b' x \<noteq> None) as" by auto
  have na: "a \<notin> set as" using Cons.prems by simp
  have G: "(\<lambda>x. if x \<in> set as then Option.bind (rb_store ?b x) (discardTemporary False) else rb_store ?b x) =
      (\<lambda>x. if x \<in> set (a # as) then Option.bind (rb_store b x) (discardTemporary False) else rb_store b x)"
    using na r by (auto simp: fun_eq_iff)
  have "b' = b\<lparr>rb_store := (\<lambda>x. if x \<in> set (a # as) then Option.bind (rb_store b x) (discardTemporary False) else rb_store b x)\<rparr>"
    unfolding b'(2) G by simp
  moreover have "rb_store b' a = discardTemporary False r" using na by (simp add: b'(2))
  ultimately show ?case using b'(1,3) r by (cases "discardTemporary False r") (auto simp: deref_def)
qed auto

lemma discardTemporary_state:
  "discardTemporary False r = Some r' \<Longrightarrow> r_temporary_state r \<ge> 0 \<Longrightarrow> r_temporary_state r' \<ge> 0 \<and> (r_temporary_state r' = 0 \<longleftrightarrow> r_temporary_state r = 0)"
  "r_temporary_state r = 0 \<Longrightarrow> discardTemporary f r = Some r"
  by (auto simp: discardTemporary_def split: if_splits)

lemma cleanup_ok:
  assumes "book_ok b"
  shows "\<exists>b'. cleanupTemporaryRules b = Returns b' \<and> book_ok b'"
proof -
  have d: "distinct (rb_rules b)" "\<forall>a \<in> set (rb_rules b). \<exists>r. rb_store b a = Some r" using assms by (auto simp: book_ok_def)
  from cleanup_loop_spec [OF this] obtain keep tmp b' where
    b': "cleanup_loop (rb_rules b) b = Returns (keep, tmp, b')"
      "b' = b\<lparr>rb_store := (\<lambda>a. if a \<in> set (rb_rules b) then Option.bind (rb_store b a) (discardTemporary False) else rb_store b a)\<rparr>"
      "keep = filter (\<lambda>a. rb_store b' a \<noteq> None) (rb_rules b)" by blast
  have st: "rb_store b' a = Some r' \<Longrightarrow> \<exists>r. rb_store b a = Some r \<and> r_temporary_state r' \<ge> 0 \<and> (r_temporary_state r' = 0 \<longleftrightarrow> r_temporary_state r = 0)" for a r'
    using assms discardTemporary_state(1) by (auto simp: b'(2) book_ok_def bind_eq_Some_conv split: if_splits)
  then have t: "is_temp b' a \<Longrightarrow> is_temp b a" for a by (fastforce simp: is_temp_def)
  have live: "rb_store b' a \<noteq> None" if "a \<in> set (rb_window b w)" for a w
  proof -
    note mem = that
    obtain r where r: "rb_store b a = Some r" using window_live [OF assms mem] by blast
    have "a \<in> set (rb_rules b) \<Longrightarrow> r_temporary_state r = 0" using window_temp [OF assms mem] r by (auto simp: is_temp_def)
    with r show ?thesis by (auto simp: b'(2) discardTemporary_state(2))
  qed
  let ?b = "b'\<lparr>rb_rules := keep\<rparr>"
  have "book_ok (?b\<lparr>rb_log := l\<rparr>)" for l
  proof -
    have s: "rb_store (?b\<lparr>rb_log := l\<rparr>) = rb_store b'" "rb_window (?b\<lparr>rb_log := l\<rparr>) = rb_window b" "rb_rules (?b\<lparr>rb_log := l\<rparr>) = keep"
      "is_temp (?b\<lparr>rb_log := l\<rparr>) = is_temp b'" by (simp_all add: b'(2) is_temp_def fun_eq_iff)
    have "set keep \<subseteq> set (rb_rules b)" "distinct keep" using d(1) b'(3) by auto
    then show ?thesis unfolding book_ok_def s using assms st t live b'(3) by (fastforce simp: book_ok_def)
  qed
  from this [of "rb_log ?b @ [CleanupTimer]"] this [of "rb_log ?b"] show ?thesis
    using b'(1) by (auto simp: cleanupTemporaryRules_def Let_def)
qed

lemma message_ok:
  assumes "book_ok b" and "rb_store b a = None" and "r_temporary_state r \<ge> 0"
  shows "book_ok (temporaryRulesMessage a r b)"
proof -
  let ?b = "\<lambda>l. b\<lparr>rb_store := (rb_store b)(a \<mapsto> r), rb_rules := a # rb_rules b, rb_log := l\<rparr>"
  have n: "a \<notin> set (rb_rules b)" "\<And>w. a \<notin> set (rb_window b w)" using assms(1,2) window_live by (fastforce simp: book_ok_def)+
  have t: "x \<noteq> a \<Longrightarrow> is_temp (?b l) x = is_temp b x" for x l by (simp add: is_temp_def)
  have "book_ok (?b l)" for l
  proof (rule book_okI)
    show "distinct (rb_rules (?b l))" "distinct (rb_window (?b l) w)" for w using book_ok_basic [OF assms(1)] n(1) by simp_all
    show "x \<in> set (rb_rules (?b l)) \<Longrightarrow> rb_store (?b l) x \<noteq> None" for x using book_live [OF assms(1)] by auto
    show "x \<in> set (rb_window (?b l) w) \<Longrightarrow> rb_store (?b l) x \<noteq> None" for w x using window_live [OF assms(1)] by auto
    show "rb_store (?b l) x = Some q \<Longrightarrow> 0 \<le> r_temporary_state q" for x q
      using assms(3) book_ok_basic(3) [OF assms(1)] by (simp split: if_splits)
    show "x \<in> set (rb_window (?b l) w) \<Longrightarrow> is_temp (?b l) x \<Longrightarrow> x \<notin> set (rb_rules (?b l))"
      "x \<in> set (rb_window (?b l) w) \<Longrightarrow> is_temp (?b l) x \<Longrightarrow> w' \<noteq> w \<Longrightarrow> x \<notin> set (rb_window (?b l) w')" for x w w'
      using window_temp [OF assms(1), of x w] n t [of x l] by auto
  qed
  from this [of "rb_log b"] this [of "rb_log b @ [CleanupTimer]"] show ?thesis by (simp add: temporaryRulesMessage_def Let_def)
qed

text \<open>Deleting the temporary rules of a window: no other window has them.\<close>

lemma window_discard_spec:
  assumes "distinct as" and "\<forall>a \<in> set as. \<exists>r. rb_store b a = Some r"
  shows "\<exists>keep b'. window_discard_loop as b = Returns (keep, b') \<and>
    b' = b\<lparr>rb_store := (\<lambda>a. if a \<in> set as \<and> is_temp b a then None else rb_store b a)\<rparr> \<and> keep = filter (\<lambda>a. \<not> is_temp b a) as"
  using assms
proof (induction as arbitrary: b)
  case (Cons a as)
  then obtain r where r: "rb_store b a = Some r" by auto
  have na: "a \<notin> set as" using Cons.prems by simp
  show ?case
  proof (cases "is_temp b a")
    case True
    let ?b = "b\<lparr>rb_store := (rb_store b)(a := None)\<rparr>"
    have "\<forall>x \<in> set as. \<exists>r. rb_store ?b x = Some r" using Cons.prems by auto
    from Cons.IH [OF _ this] Cons.prems obtain keep b' where b': "window_discard_loop as ?b = Returns (keep, b')"
      "b' = ?b\<lparr>rb_store := (\<lambda>x. if x \<in> set as \<and> is_temp ?b x then None else rb_store ?b x)\<rparr>" "keep = filter (\<lambda>x. \<not> is_temp ?b x) as" by auto
    have t: "x \<in> set as \<Longrightarrow> is_temp ?b x = is_temp b x" for x using na by (auto simp: is_temp_def)
    have G: "(\<lambda>x. if x \<in> set as \<and> is_temp ?b x then None else rb_store ?b x) = (\<lambda>x. if x \<in> set (a # as) \<and> is_temp b x then None else rb_store b x)"
      using True t by (auto simp: fun_eq_iff)
    have "b' = b\<lparr>rb_store := (\<lambda>x. if x \<in> set (a # as) \<and> is_temp b x then None else rb_store b x)\<rparr>" unfolding b'(2) G by simp
    moreover have "keep = filter (\<lambda>x. \<not> is_temp b x) (a # as)" using True t b'(3) by (simp cong: filter_cong)
    moreover have "discardTemporary True r = None" using True r by (auto simp: is_temp_def discardTemporary_def)
    ultimately show ?thesis using b'(1) r by (simp add: deref_def)
  next
    case False
    then have d: "discardTemporary True r = Some r" using r by (auto simp: is_temp_def discardTemporary_def)
    from Cons obtain keep b' where b': "window_discard_loop as b = Returns (keep, b')"
      "b' = b\<lparr>rb_store := (\<lambda>x. if x \<in> set as \<and> is_temp b x then None else rb_store b x)\<rparr>" "keep = filter (\<lambda>x. \<not> is_temp b x) as" by auto
    have "(\<lambda>x. if x \<in> set as \<and> is_temp b x then None else rb_store b x) = (\<lambda>x. if x \<in> set (a # as) \<and> is_temp b x then None else rb_store b x)"
      using False by (auto simp: fun_eq_iff)
    with b' d r False show ?thesis by (simp add: deref_def)
  qed
qed (simp add: is_temp_def)

lemma discard_temporary_ok:
  assumes "book_ok b"
  shows "\<exists>b'. discard_temporary_rules w b = Returns b' \<and> book_ok b'"
proof -
  have "distinct (rb_window b w)" "\<forall>a \<in> set (rb_window b w). \<exists>r. rb_store b a = Some r"
    using assms window_live by (auto simp: book_ok_def)
  from window_discard_spec [OF this] obtain keep b' where b': "window_discard_loop (rb_window b w) b = Returns (keep, b')"
    "b' = b\<lparr>rb_store := (\<lambda>a. if a \<in> set (rb_window b w) \<and> is_temp b a then None else rb_store b a)\<rparr>"
    "keep = filter (\<lambda>a. \<not> is_temp b a) (rb_window b w)" by blast
  let ?b = "b'\<lparr>rb_window := (rb_window b')(w := keep)\<rparr>"
  have live: "rb_store b' a \<noteq> None" if "a \<in> set (rb_window b x)" "x = w \<longrightarrow> \<not> is_temp b a" for a x
    using window_live [OF assms that(1)] window_temp [OF assms that(1)] that(2) by (auto simp: b'(2))
  have "book_ok ?b"
  proof (rule book_shrinks [OF assms])
    show "distinct (rb_rules ?b)" "distinct (rb_window ?b x)" for x using book_ok_basic(1,2) [OF assms] by (simp_all add: b'(2,3))
    show "set (rb_rules ?b) \<subseteq> set (rb_rules b)" "set (rb_window ?b x) \<subseteq> set (rb_window b x)" for x by (auto simp: b'(2,3))
    show "a \<in> set (rb_rules ?b) \<Longrightarrow> rb_store ?b a \<noteq> None" for a
      using book_live [OF assms, of a] window_temp [OF assms, of a w] by (auto simp: b'(2))
    show "a \<in> set (rb_window ?b x) \<Longrightarrow> rb_store ?b a \<noteq> None" for a x
      using live [of a x] by (cases "x = w") (auto simp: b'(2,3))
    show "rb_store ?b a = Some r' \<Longrightarrow>
        \<exists>r. rb_store b a = Some r \<and> r_temporary_state r' \<ge> 0 \<and> (r_temporary_state r' = 0 \<longleftrightarrow> r_temporary_state r = 0)" for a r'
      using book_ok_basic(3) [OF assms] by (simp add: b'(2) split: if_splits)
  qed
  then show ?thesis using b'(1) by (simp add: discard_temporary_rules_def)
qed

text \<open>Updating and using up rules changes what they demand, not whether they are temporary.\<close>

lemma store_update_ok:
  assumes "book_ok b" and "rb_store b a = Some r" and "r_temporary_state r' = r_temporary_state r"
  shows "book_ok (b\<lparr>rb_store := (rb_store b)(a \<mapsto> r')\<rparr>)"
proof -
  let ?b = "b\<lparr>rb_store := (rb_store b)(a \<mapsto> r')\<rparr>"
  have "is_temp ?b = is_temp b" using assms(2,3) by (auto simp: is_temp_def fun_eq_iff)
  moreover have "dom (rb_store ?b) = dom (rb_store b)" using assms(2) by auto
  moreover have "\<forall>x q. rb_store ?b x = Some q \<longrightarrow> 0 \<le> r_temporary_state q"
    using assms book_ok_basic(3) [OF assms(1)] by auto
  ultimately show ?thesis using assms(1) by (simp add: book_ok_def)
qed

lemma book_ok_log [simp]: "book_ok (b\<lparr>rb_log := l\<rparr>) = book_ok b" "book_ok (requestDiskStorage b) = book_ok b"
  by (simp_all add: book_ok_def is_temp_def requestDiskStorage_def)

lemma rules_temporary_kept [simp]:
  "rules_update sel v r = (c, r') \<Longrightarrow> r_temporary_state r' = r_temporary_state r"
  "rules_discardUsed wd r = (c, r') \<Longrightarrow> r_temporary_state r' = r_temporary_state r"
  by (auto simp: rules_update_def rules_discardUsed_def Let_def)

lemma rules_update_loop_ok:
  "book_ok b \<Longrightarrow> \<forall>a \<in> set as. rb_store b a \<noteq> None \<Longrightarrow>
   \<exists>u b'. rules_update_loop sel v as b = Returns (u, b') \<and> book_ok b' \<and> rb_window b' = rb_window b"
proof (induction as arbitrary: b)
  case (Cons a as)
  then obtain r where r: "rb_store b a = Some r" by auto
  obtain c r' where u: "rules_update sel v r = (c, r')" by (cases "rules_update sel v r")
  let ?b = "b\<lparr>rb_store := (rb_store b)(a \<mapsto> r')\<rparr>"
  have "book_ok ?b" using store_update_ok Cons.prems(1) r u by (meson rules_temporary_kept(1))
  moreover have "\<forall>x \<in> set as. rb_store ?b x \<noteq> None" using Cons.prems(2) by simp
  ultimately obtain u' b' where "rules_update_loop sel v as ?b = Returns (u', b')" "book_ok b'" "rb_window b' = rb_window ?b"
    using Cons.IH by blast
  then show ?case using r u by (simp add: deref_def Let_def)
qed auto

lemma updateWindowRules_ok:
  assumes "book_ok b"
  shows "\<exists>b'. updateWindowRules sel v w b = Returns b' \<and> book_ok b'"
proof -
  have "\<forall>a \<in> set (rb_window b w). rb_store b a \<noteq> None" using window_live [OF assms] by auto
  from rules_update_loop_ok [OF assms this, of sel v] obtain u b' where
    "rules_update_loop sel v (rb_window b w) b = Returns (u, b')" "book_ok b'" by blast
  then show ?thesis using assms by (cases u) (auto simp: updateWindowRules_def)
qed

lemma window_shrinks_ok:
  assumes "book_ok b" and "set xs \<subseteq> set (rb_window b w)" and "distinct xs"
  shows "book_ok (b\<lparr>rb_window := (rb_window b)(w := xs)\<rparr>)"
  by (rule book_shrinks [OF assms(1)])
    (use assms book_ok_basic [OF assms(1)] book_live [OF assms(1)] window_live [OF assms(1)] in \<open>auto split: if_splits\<close>)

lemma finish_rules_ok:
  assumes "book_ok b"
  shows "\<exists>b'. finish_rules v w b = Returns b' \<and> book_ok b'"
proof -
  obtain b' where "updateWindowRules UNIV v w b = Returns b'" "book_ok b'" using updateWindowRules_ok [OF assms] by blast
  then show ?thesis using window_shrinks_ok [of b' "[]" w] by (simp add: finish_rules_def)
qed

lemma setUpdatesDisabled_ok:
  assumes "book_ok b"
  shows "\<exists>b'. setUpdatesDisabled disable v ws b = Returns b' \<and> book_ok b'"
proof -
  have u: "book_ok b \<Longrightarrow> \<exists>b'. update_windows v ws b = Returns b' \<and> book_ok b'" for b
  proof (induction ws arbitrary: b)
    case (Cons w ws)
    obtain b1 where "updateWindowRules UNIV (v w) w b = Returns b1" "book_ok b1" using updateWindowRules_ok [OF Cons.prems] by blast
    then show ?case using Cons.IH by simp
  qed simp
  have "book_ok (b\<lparr>rb_updatesDisabled := d\<rparr>)" for d using assms by (simp add: book_ok_def is_temp_def)
  then show ?thesis using u by (simp add: setUpdatesDisabled_def Let_def)
qed

section \<open>Using up rules\<close>

text \<open>No other window has a rule that \<open>discardUsed\<close> empties for the window \<open>w\<close>.\<close>

definition used_up_alone :: "addr \<Rightarrow> bool \<Rightarrow> rule_book \<Rightarrow> bool" where
  "used_up_alone w wd b \<longleftrightarrow> (\<forall>a \<in> set (rb_window b w). \<forall>r. rb_store b a = Some r \<longrightarrow>
     rules_isEmpty (snd (rules_discardUsed wd r)) \<longrightarrow> (\<forall>w'. w' \<noteq> w \<longrightarrow> a \<notin> set (rb_window b w')))"

lemma delete_used_ok:
  assumes "book_ok (b\<lparr>rb_rules := a # as\<rparr>)" and "\<And>w'. w' \<noteq> w \<Longrightarrow> a \<notin> set (rb_window b w')"
  shows "book_ok (b\<lparr>rb_window := (rb_window b)(w := remove1 a (rb_window b w)), rb_store := (rb_store b)(a := None), rb_rules := as\<rparr>)"
proof (rule book_shrinks [OF assms(1)])
  let ?b = "b\<lparr>rb_window := (rb_window b)(w := remove1 a (rb_window b w)), rb_store := (rb_store b)(a := None), rb_rules := as\<rparr>"
  note ok = book_ok_basic [OF assms(1)]
  have d: "a \<notin> set as" "distinct as" "distinct (rb_window b x)" for x using ok(1,2) by auto
  show "distinct (rb_rules ?b)" "distinct (rb_window ?b x)" for x using d by simp_all
  show "set (rb_rules ?b) \<subseteq> set (rb_rules (b\<lparr>rb_rules := a # as\<rparr>))"
    "set (rb_window ?b x) \<subseteq> set (rb_window (b\<lparr>rb_rules := a # as\<rparr>) x)" for x using d by auto
  show "x \<in> set (rb_rules ?b) \<Longrightarrow> rb_store ?b x \<noteq> None" for x using book_live [OF assms(1), of x] d(1) by auto
  show "x \<in> set (rb_window ?b y) \<Longrightarrow> rb_store ?b x \<noteq> None" for x y
    using window_live [OF assms(1), of x y] assms(2) d by (auto split: if_splits)
  show "rb_store ?b x = Some r' \<Longrightarrow> \<exists>r. rb_store (b\<lparr>rb_rules := a # as\<rparr>) x = Some r \<and>
      r_temporary_state r' \<ge> 0 \<and> (r_temporary_state r' = 0 \<longleftrightarrow> r_temporary_state r = 0)" for x r'
    using ok(3) [of x] by (auto split: if_splits)
qed

text \<open>
  The loop returns, and the rules that it keeps are those of a valid book. It leaves alone the rules that it does not visit, and
  the windows keep at most what they have.
\<close>

lemma used_up_alone_smaller:
  assumes "used_up_alone w wd b" and "\<And>x. set (rb_window b' x) \<subseteq> set (rb_window b x)"
    and "\<And>x. x \<in> set (rb_window b' w) \<Longrightarrow> x \<noteq> a \<Longrightarrow> rb_store b' x = rb_store b x"
    and "\<And>r. a \<in> set (rb_window b' w) \<Longrightarrow> rb_store b' a = Some r \<Longrightarrow> \<not> rules_isEmpty (snd (rules_discardUsed wd r))"
  shows "used_up_alone w wd b'"
  unfolding used_up_alone_def
proof (intro ballI allI impI)
  fix x r w' assume x: "x \<in> set (rb_window b' w)" "rb_store b' x = Some r" "rules_isEmpty (snd (rules_discardUsed wd r))" "w' \<noteq> w"
  then have "x \<noteq> a" using assms(4) by blast
  with x assms(2,3) have "x \<in> set (rb_window b w)" "rb_store b x = Some r" by fastforce+
  with x(3,4) assms(1) have "x \<notin> set (rb_window b w')" unfolding used_up_alone_def by blast
  with assms(2) show "x \<notin> set (rb_window b' w')" by blast
qed

lemma discard_again [simp]:
  "discard_set wd (discard_set wd ru) = discard_set wd ru" "discard_force wd (discard_force wd ru') = discard_force wd ru'"
  by (simp_all add: discard_set_def discard_force_def rule_numbers)

lemma discarded_again [simp]:
  "discarded_set wd (discarded_set wd st) = discarded_set wd st" "discarded_force wd (discarded_force wd fo) = discarded_force wd fo"
  by (simp_all add: discarded_set_def discarded_force_def)

lemma snd_discardUsed: "snd (rules_discardUsed wd r) = r\<lparr>r_set := discarded_set wd (r_set r), r_force := discarded_force wd (r_force r)\<rparr>"
  by (simp only: rules_discardUsed_def Let_def snd_conv)

lemma discardUsed_again:
  "snd (rules_discardUsed wd (snd (rules_discardUsed wd r))) = snd (rules_discardUsed wd r)"
  by (simp add: snd_discardUsed)

lemma book_gets_visited:
  assumes ok: "book_ok (b'\<lparr>rb_rules := keep\<rparr>)" and old: "book_ok (b\<lparr>rb_rules := a # as\<rparr>)"
    and fr: "set keep \<subseteq> set as" "\<And>x. set (rb_window b' x) \<subseteq> set (rb_window b x)" "rb_store b' a = Some r'" "rb_store b a = Some r"
    and "r_temporary_state r' = r_temporary_state r"
  shows "book_ok (b'\<lparr>rb_rules := a # keep\<rparr>)"
proof (rule book_okI)
  let ?b = "b'\<lparr>rb_rules := a # keep\<rparr>"
  have t: "is_temp ?b x = is_temp (b'\<lparr>rb_rules := keep\<rparr>) x" for x by (simp add: is_temp_def)
  have ta: "is_temp ?b a = is_temp (b\<lparr>rb_rules := a # as\<rparr>) a" using assms(5,6,7) by (simp add: is_temp_def)
  have "a \<notin> set keep" using book_ok_basic(1) [OF old] fr(1) by auto
  then show "distinct (rb_rules ?b)" "distinct (rb_window ?b x)" for x using book_ok_basic [OF ok] by auto
  show "x \<in> set (rb_rules ?b) \<Longrightarrow> rb_store ?b x \<noteq> None" for x using book_live [OF ok, of x] fr(3) by auto
  show "x \<in> set (rb_window ?b y) \<Longrightarrow> rb_store ?b x \<noteq> None" for x y using window_live [OF ok, of x y] by auto
  show "rb_store ?b x = Some q \<Longrightarrow> 0 \<le> r_temporary_state q" for x q using book_ok_basic(3) [OF ok, of x q] by simp
  show "x \<in> set (rb_window ?b y) \<Longrightarrow> is_temp ?b x \<Longrightarrow> x \<notin> set (rb_rules ?b)" for x y
    using window_temp [OF ok, of x y] window_temp [OF old, of x y] fr(2) [of y] t ta by auto
  show "x \<in> set (rb_window ?b y) \<Longrightarrow> is_temp ?b x \<Longrightarrow> z \<noteq> y \<Longrightarrow> x \<notin> set (rb_window ?b z)" for x y z
    using window_temp [OF ok, of x y] t by simp
qed

lemma rule_book_upd_comm: "b\<lparr>rb_rules := rs, rb_store := st\<rparr> = b\<lparr>rb_store := st, rb_rules := rs\<rparr>"
  by simp

lemma discard_used_loop_ok:
  assumes "book_ok (b\<lparr>rb_rules := as\<rparr>)" and "used_up_alone w wd b"
  shows "\<exists>keep u b'. discard_used_loop w wd as b = Returns (keep, u, b') \<and> book_ok (b'\<lparr>rb_rules := keep\<rparr>) \<and>
    set keep \<subseteq> set as \<and> (\<forall>x. x \<notin> set as \<longrightarrow> rb_store b' x = rb_store b x) \<and> (\<forall>x. set (rb_window b' x) \<subseteq> set (rb_window b x))"
  using assms
proof (induction as arbitrary: b)
  case (Cons a as)
  have na: "a \<notin> set as" using book_ok_basic(1) [OF Cons.prems(1)] by simp
  have rest: "book_ok (b\<lparr>rb_rules := as\<rparr>)"
    by (rule book_shrinks [OF Cons.prems(1)])
      (use book_ok_basic [OF Cons.prems(1)] book_live [OF Cons.prems(1)] window_live [OF Cons.prems(1)] in auto)
  obtain r where r: "rb_store b a = Some r" using book_live [OF Cons.prems(1), of a] by auto
  obtain c r' where u: "rules_discardUsed wd r = (c, r')" by (cases "rules_discardUsed wd r")
  have temp: "r_temporary_state r' = r_temporary_state r" using u by (rule rules_temporary_kept)
  consider (other) "a \<notin> set (rb_window b w)" | (gone) "a \<in> set (rb_window b w)" "rules_isEmpty r'"
    | (used) "a \<in> set (rb_window b w)" "\<not> rules_isEmpty r'" by blast
  then show ?case
  proof cases
    case other
    from Cons.IH [OF rest Cons.prems(2)] obtain keep v b' where
      l: "discard_used_loop w wd as b = Returns (keep, v, b')" "book_ok (b'\<lparr>rb_rules := keep\<rparr>)" "set keep \<subseteq> set as"
        "\<forall>x. x \<notin> set as \<longrightarrow> rb_store b' x = rb_store b x" "\<forall>x. set (rb_window b' x) \<subseteq> set (rb_window b x)" by blast
    have "book_ok (b'\<lparr>rb_rules := a # keep\<rparr>)"
      by (rule book_gets_visited [OF l(2) Cons.prems(1) l(3) _ _ r refl]) (use l na r in auto)
    with l other show ?thesis by auto
  next
    case gone
    let ?b = "b\<lparr>rb_window := (rb_window b)(w := remove1 a (rb_window b w)), rb_store := (rb_store b)(a := None)\<rparr>"
    have d: "a \<notin> set (remove1 a (rb_window b w))" using book_ok_basic(2) [OF rest, of w] by simp
    have alone: "w' \<noteq> w \<Longrightarrow> a \<notin> set (rb_window b w')" for w' using Cons.prems(2) gone r u unfolding used_up_alone_def by fastforce
    have sub: "set (rb_window ?b x) \<subseteq> set (rb_window b x)" for x by (auto dest: set_remove1_subset [THEN subsetD])
    have "used_up_alone w wd ?b" by (rule used_up_alone_smaller [OF Cons.prems(2) sub, of a]) (use d in auto)
    moreover have "book_ok (?b\<lparr>rb_rules := as\<rparr>)" using delete_used_ok [OF Cons.prems(1) alone] by simp
    ultimately obtain keep v b' where
      l: "discard_used_loop w wd as ?b = Returns (keep, v, b')" "book_ok (b'\<lparr>rb_rules := keep\<rparr>)" "set keep \<subseteq> set as"
        "\<forall>x. x \<notin> set as \<longrightarrow> rb_store b' x = rb_store ?b x" "\<forall>x. set (rb_window b' x) \<subseteq> set (rb_window ?b x)" using Cons.IH by blast
    have "\<forall>x. set (rb_window b' x) \<subseteq> set (rb_window b x)" using l(5) sub by blast
    with l(1-4) gone r u show ?thesis by (auto simp: deref_def Let_def)
  next
    case used
    let ?b = "b\<lparr>rb_store := (rb_store b)(a \<mapsto> r')\<rparr>"
    have "used_up_alone w wd ?b"
      by (rule used_up_alone_smaller [OF Cons.prems(2), of _ a]) (use used u discardUsed_again [of wd r] in auto)
    moreover have "book_ok (?b\<lparr>rb_rules := as\<rparr>)" using store_update_ok [OF rest _ temp, of a] r by (simp add: rule_book_upd_comm)
    ultimately obtain keep v b' where
      l: "discard_used_loop w wd as ?b = Returns (keep, v, b')" "book_ok (b'\<lparr>rb_rules := keep\<rparr>)" "set keep \<subseteq> set as"
        "\<forall>x. x \<notin> set as \<longrightarrow> rb_store b' x = rb_store ?b x" "\<forall>x. set (rb_window b' x) \<subseteq> set (rb_window ?b x)" using Cons.IH by blast
    have "book_ok (b'\<lparr>rb_rules := a # keep\<rparr>)"
      by (rule book_gets_visited [OF l(2) Cons.prems(1) l(3) _ _ r temp]) (use l(4,5) na in auto)
    with l used r u show ?thesis by (auto simp: deref_def Let_def)
  qed
qed auto

lemma discardUsed_ok:
  assumes "book_ok b" and "used_up_alone w wd b"
  shows "\<exists>b'. discardUsed w wd b = Returns b' \<and> book_ok b'"
proof -
  have "book_ok (b\<lparr>rb_rules := rb_rules b\<rparr>)" using assms(1) by simp
  from discard_used_loop_ok [OF this assms(2)] obtain keep u b' where
    "discard_used_loop w wd (rb_rules b) b = Returns (keep, u, b')" "book_ok (b'\<lparr>rb_rules := keep\<rparr>)" by blast
  then show ?thesis by (cases u) (auto simp: discardUsed_def Let_def)
qed

section \<open>All operations\<close>

text \<open>The operations of the book, in any order; a message brings a rule at a new address, and used-up rules are not shared.\<close>

inductive book_step :: "rule_book \<Rightarrow> rule_book outcome \<Rightarrow> bool" where
  "book_step b (setup_rules matches ignore w b)"
| "book_step b (cleanupTemporaryRules b)"
| "book_step b (discard_temporary_rules w b)"
| "book_step b (updateWindowRules sel v w b)"
| "book_step b (finish_rules v w b)"
| "rb_store b a = None \<Longrightarrow> 0 \<le> r_temporary_state r \<Longrightarrow> book_step b (Returns (temporaryRulesMessage a r b))"
| "used_up_alone w wd b \<Longrightarrow> book_step b (discardUsed w wd b)"
| "book_step b (setUpdatesDisabled disable vs ws b)"

inductive book_reach :: "rule_book \<Rightarrow> bool" where
  "distinct (rb_rules b) \<Longrightarrow> dom (rb_store b) = set (rb_rules b) \<Longrightarrow> \<forall>r \<in> ran (rb_store b). r_temporary_state r = 0 \<Longrightarrow>
     rb_window b = (\<lambda>_. []) \<Longrightarrow> book_reach b"
| "book_reach b \<Longrightarrow> book_step b (Returns b') \<Longrightarrow> book_reach b'"

lemma book_step_ok: "book_step b o' \<Longrightarrow> book_ok b \<Longrightarrow> \<exists>b'. o' = Returns b' \<and> book_ok b'"
  by (induction rule: book_step.induct)
    (auto intro: setup_rules_ok cleanup_ok discard_temporary_ok updateWindowRules_ok finish_rules_ok message_ok discardUsed_ok setUpdatesDisabled_ok)

lemma book_reach_ok: "book_reach b \<Longrightarrow> book_ok b"
proof (induction rule: book_reach.induct)
  case (1 b)
  have "\<And>a r. rb_store b a = Some r \<Longrightarrow> 0 \<le> r_temporary_state r" using 1 by (auto simp: ran_def)
  with 1 show ?case by (auto simp: book_ok_def)
qed (use book_step_ok in blast)


definition demo_book :: rule_book where
  "demo_book = \<lparr>rb_store = [1 \<mapsto> empty_rules, 2 \<mapsto> demo_rule], rb_rules = [1, 2], rb_window = (\<lambda>_. []), rb_updatesDisabled = False, rb_log = []\<rparr>"

lemma demo_rules_lasting: "r_temporary_state empty_rules = 0" "r_temporary_state demo_rule = 0"
  by (simp_all add: demo_rule_def empty_rules_def)


text \<open>
  Two windows follow a rule that is forced temporarily. When the first one is withdrawn the rule is empty and deleted; the second
  window still has it, and its next update reads the deleted rule.
\<close>

definition temporary_rule :: rules where
  "temporary_rule = empty_rules\<lparr>r_force := empty_force_rules\<lparr>fo_closeable := \<lparr>ru_data = True, ru_rule = R_ForceTemporarily\<rparr>\<rparr>\<rparr>"

definition shared_book :: rule_book where
  "shared_book = \<lparr>rb_store = [1 \<mapsto> temporary_rule], rb_rules = [1], rb_window = (\<lambda>_. [])(7 := [1], 8 := [1]),
     rb_updatesDisabled = False, rb_log = []\<rparr>"

lemma temporary_rule_used_up: "rules_isEmpty (snd (rules_discardUsed True temporary_rule))"
  by (simp add: temporary_rule_def snd_discardUsed rules_isEmpty_def Let_def discarded_set_def discarded_force_def
      discard_set_def discard_force_def empty_rules_def empty_set_rules_def empty_force_rules_def unused_ruler_def rule_numbers)

lemma shared_rule_dangles:
  "\<exists>b'. discardUsed 7 True shared_book = Returns b' \<and> rb_window b' 8 = [1] \<and> rb_store b' 1 = None \<and>
     updateWindowRules UNIV v 8 b' = Faults NullDeref"
proof -
  obtain c r where u: "rules_discardUsed True temporary_rule = (c, r)" by (cases "rules_discardUsed True temporary_rule")
  with temporary_rule_used_up have "rules_isEmpty r" by simp
  with u show ?thesis
    by (cases c) (simp_all add: discardUsed_def shared_book_def deref_def requestDiskStorage_def updateWindowRules_def)
qed

text \<open>
  After \<open>load\<close> a window keeps the rules it has, which are deleted, until it gets new ones. \<open>Workspace::slotReconfigure\<close> gives the
  windows new rules one after the other and applies them at once; when that moves a window of the same family to another
  desktop, before its turn, its rules are updated and the deleted ones are read.
\<close>

lemma load_dangles:
  assumes "rb_window b w = a # as" and "a \<in> set (rb_rules b)" and "a \<notin> fst ` set new" and "\<not> rb_updatesDisabled b"
  shows "updateWindowRules sel v w (load_rules new b) = Faults NullDeref"
proof -
  have "map_of new a = None" using assms(3) by (simp add: map_of_eq_None_iff)
  then have "rb_store (load_rules new b) a = None" using assms(2) by (simp add: load_rules_def deleteAll_def Let_def map_add_def)
  moreover have "rb_window (load_rules new b) w = a # as" "\<not> rb_updatesDisabled (load_rules new b)"
    using assms(1,4) by (simp_all add: load_rules_def deleteAll_def Let_def)
  ultimately show ?thesis by (simp add: updateWindowRules_def deref_def)
qed

end
