(* ===== verification/Screen_Edge.thy ===== *)
theory Screen_Edge
  imports Gestures "HOL-Library.AList"
begin

text \<open>
  One edge or corner of the screens that reacts to the pointer and to touch gestures: the class \<open>Edge\<close> of
  \<^verbatim>\<open>screenedge.cpp\<close>, in the form Wayland sessions use (the windows that X11 sessions create for an edge are
  left out). An edge counts how often it is reserved. Its gesture is the gesture with the number of the edge in the
  recognizer. Times are milliseconds, and invalid times are \<open>None\<close>.
\<close>

datatype border = ElectricTop | ElectricTopRight | ElectricRight | ElectricBottomRight | ElectricBottom
  | ElectricBottomLeft | ElectricLeft | ElectricTopLeft | ElectricNone

datatype border_action = ElectricActionNone | ElectricActionShowDesktop | ElectricActionLockScreen | ElectricActionKRunner
  | ElectricActionActivityManager | ElectricActionApplicationLauncher

definition isLeft :: "border \<Rightarrow> bool" where "isLeft b \<longleftrightarrow> b = ElectricLeft \<or> b = ElectricTopLeft \<or> b = ElectricBottomLeft"
definition isRight :: "border \<Rightarrow> bool" where "isRight b \<longleftrightarrow> b = ElectricRight \<or> b = ElectricTopRight \<or> b = ElectricBottomRight"
definition isTop :: "border \<Rightarrow> bool" where "isTop b \<longleftrightarrow> b = ElectricTop \<or> b = ElectricTopLeft \<or> b = ElectricTopRight"
definition isBottom :: "border \<Rightarrow> bool" where "isBottom b \<longleftrightarrow> b = ElectricBottom \<or> b = ElectricBottomLeft \<or> b = ElectricBottomRight"
definition isCorner :: "border \<Rightarrow> bool" where
  "isCorner b \<longleftrightarrow> b = ElectricTopLeft \<or> b = ElectricTopRight \<or> b = ElectricBottomRight \<or> b = ElectricBottomLeft"
definition isScreenEdge :: "border \<Rightarrow> bool" where
  "isScreenEdge b \<longleftrightarrow> b = ElectricLeft \<or> b = ElectricRight \<or> b = ElectricTop \<or> b = ElectricBottom"

lemmas border_defs = isLeft_def isRight_def isTop_def isBottom_def isCorner_def isScreenEdge_def

record edge =
  e_id :: addr
  e_border :: border
  e_action :: border_action
  e_touchAction :: border_action
  e_reserved :: int
  e_geometry :: rect
  e_approachGeometry :: rect
  e_lastTrigger :: "int option"
  e_lastReset :: "int option"
  e_triggeredPoint :: point
  e_callBacks :: "(addr \<times> string) list"
  e_approaching :: bool
  e_lastApproachingFactor :: int
  e_blocked :: bool
  e_pushBackBlocked :: bool
  e_client :: "addr option"
  e_touchActions :: "addr list"

text \<open>What an edge does to the rest of the program. A factor is a number of 256th parts.\<close>

datatype edge_event = Approaching border int rect | ShowOnScreenEdge addr | SetCursor point | ActionCalled border_action
  | CallBack addr string border | TouchTriggered addr | SetCurrentDesktop nat

record edge_ctx =
  ec_gestures :: recognizer
  ec_log :: "edge_event list"

text \<open>The settings of \<open>ScreenEdges\<close> that every edge reads.\<close>

record edge_settings =
  es_desktopSwitching :: bool
  es_desktopSwitchingMovingClients :: bool
  es_cursorPushBackDistance :: qsize
  es_timeThreshold :: int
  es_reActivationThreshold :: int
  es_cornerOffset :: int

text \<open>
  What an edge asks the workspace: whether the window that is being moved or resized is resized, the frame of the active
  window if it is full screen, what a callback answers, the desktops around one (with wrapping already chosen), whether the rules of the moved
  window allow a desktop, and which desktop is the current one after \<open>setCurrent\<close>.
\<close>

record edge_env =
  ee_moveResize :: "bool option"
  ee_fullscreen :: "rect option"
  ee_callback :: "addr \<Rightarrow> string \<Rightarrow> bool"
  ee_current :: nat
  ee_toLeft :: "nat \<Rightarrow> nat"
  ee_toRight :: "nat \<Rightarrow> nat"
  ee_above :: "nat \<Rightarrow> nat"
  ee_below :: "nat \<Rightarrow> nat"
  ee_allowed :: "nat \<Rightarrow> bool"
  ee_setCurrent :: "nat \<Rightarrow> nat"
  ee_screensSize :: qsize
  ee_screenSizeAt :: "point \<Rightarrow> qsize"

definition ec_emit :: "edge_event list \<Rightarrow> edge_ctx \<Rightarrow> edge_ctx" where
  "ec_emit es c = c\<lparr>ec_log := ec_log c @ es\<rparr>"

section \<open>When an edge is active\<close>

definition isReserved :: "edge \<Rightarrow> bool" where "isReserved e \<longleftrightarrow> e_reserved e \<noteq> 0"

definition activatesForPointer :: "'s edge_settings_scheme \<Rightarrow> edge_env \<Rightarrow> edge \<Rightarrow> bool" where
  "activatesForPointer S E e \<longleftrightarrow>
     e_client e \<noteq> None \<or> es_desktopSwitching S \<or> es_desktopSwitchingMovingClients S \<and> ee_moveResize E = Some False \<or>
     e_callBacks e \<noteq> [] \<or> e_action e \<noteq> ElectricActionNone"

definition activatesForTouchGesture :: "edge \<Rightarrow> bool" where
  "activatesForTouchGesture e \<longleftrightarrow> isScreenEdge (e_border e) \<and> \<not> e_blocked e \<and>
     (e_client e \<noteq> None \<or> e_touchAction e \<noteq> ElectricActionNone \<or> e_touchActions e \<noteq> [])"

section \<open>Approaching\<close>

definition startApproaching :: "edge \<Rightarrow> edge_ctx \<Rightarrow> edge \<times> edge_ctx" where
  "startApproaching e c =
     (if e_approaching e then (e, c)
      else (e\<lparr>e_approaching := True, e_lastApproachingFactor := 0\<rparr>, ec_emit [Approaching (e_border e) 0 (e_approachGeometry e)] c))"

definition stopApproaching :: "edge \<Rightarrow> edge_ctx \<Rightarrow> edge \<times> edge_ctx" where
  "stopApproaching e c =
     (if \<not> e_approaching e then (e, c)
      else (e\<lparr>e_approaching := False, e_lastApproachingFactor := 0\<rparr>, ec_emit [Approaching (e_border e) 0 (e_approachGeometry e)] c))"

text \<open>The distance of the point from the corner or the edge; \<open>None\<close> for the default branch.\<close>

definition approach_corner_distance :: "point \<Rightarrow> point \<Rightarrow> int" where
  "approach_corner_distance corner p = max \<bar>fst corner - fst p\<bar> \<bar>snd corner - snd p\<bar>"

definition border_distance :: "border \<Rightarrow> rect \<Rightarrow> point \<Rightarrow> int option" where
  "border_distance b a p =
     (case b of
        ElectricTopLeft \<Rightarrow> Some (approach_corner_distance (rleft a, rtop a) p)
      | ElectricTopRight \<Rightarrow> Some (approach_corner_distance (rright a, rtop a) p)
      | ElectricBottomRight \<Rightarrow> Some (approach_corner_distance (rright a, rbottom a) p)
      | ElectricBottomLeft \<Rightarrow> Some (approach_corner_distance (rleft a, rbottom a) p)
      | ElectricTop \<Rightarrow> Some \<bar>snd p - rtop a\<bar>
      | ElectricRight \<Rightarrow> Some \<bar>fst p - rright a\<bar>
      | ElectricBottom \<Rightarrow> Some \<bar>snd p - rbottom a\<bar>
      | ElectricLeft \<Rightarrow> Some \<bar>fst p - rleft a\<bar>
      | ElectricNone \<Rightarrow> None)"

definition updateApproaching :: "'s edge_settings_scheme \<Rightarrow> point \<Rightarrow> edge \<Rightarrow> edge_ctx \<Rightarrow> (edge \<times> edge_ctx) outcome" where
  "updateApproaching S p e c =
     (if \<not> rcontains_point (e_approachGeometry e) p then Returns (stopApproaching e c)
      else
        obind (case border_distance (e_border e) (e_approachGeometry e) p of
            None \<Rightarrow> Returns 0
          | Some d \<Rightarrow> if es_cornerOffset S = 0 then Faults DivByZero else Returns (tdiv (d * 256) (es_cornerOffset S))) (\<lambda>f.
        let factor = 256 - f in
        Returns (if e_lastApproachingFactor e = factor then (e, c)
                 else (e\<lparr>e_lastApproachingFactor := factor\<rparr>, ec_emit [Approaching (e_border e) factor (e_approachGeometry e)] c))))"

text \<open>The connections to the signals \<open>started\<close>, \<open>cancelled\<close> and \<open>progress\<close> of the gesture.\<close>

definition gesture_started :: "edge \<Rightarrow> edge_ctx \<Rightarrow> edge \<times> edge_ctx" where "gesture_started = startApproaching"
definition gesture_cancelled :: "edge \<Rightarrow> edge_ctx \<Rightarrow> edge \<times> edge_ctx" where "gesture_cancelled = stopApproaching"

definition gesture_progress :: "rat \<Rightarrow> edge \<Rightarrow> edge_ctx \<Rightarrow> edge \<times> edge_ctx" where
  "gesture_progress progress e c =
     (let factor = \<lfloor>progress * 256\<rfloor> in
      if e_lastApproachingFactor e = factor then (e, c)
      else (e\<lparr>e_lastApproachingFactor := factor\<rparr>, ec_emit [Approaching (e_border e) factor (e_approachGeometry e)] c))"

section \<open>Reserving\<close>

definition register_gesture :: "edge \<Rightarrow> edge_ctx \<Rightarrow> (edge \<times> edge_ctx) outcome" where
  "register_gesture e c = obind (registerGesture (e_id e) (ec_gestures c)) (\<lambda>g. Returns (e, c\<lparr>ec_gestures := g\<rparr>))"

text \<open>An active gesture that is taken from the recognizer is cancelled.\<close>

definition unregister_gesture :: "edge \<Rightarrow> edge_ctx \<Rightarrow> edge \<times> edge_ctx" where
  "unregister_gesture e c =
     (let c' = c\<lparr>ec_gestures := unregisterGesture (e_id e) (ec_gestures c)\<rparr>
      in if e_id e \<in> set (gr_active (ec_gestures c)) then gesture_cancelled e c' else (e, c'))"

text \<open>The connection to \<open>activatesForTouchGestureChanged\<close>.\<close>

definition touchGestureChanged :: "edge \<Rightarrow> edge_ctx \<Rightarrow> (edge \<times> edge_ctx) outcome" where
  "touchGestureChanged e c =
     (if \<not> isReserved e then Returns (e, c)
      else if activatesForTouchGesture e then register_gesture e c
      else Returns (unregister_gesture e c))"

definition edge_activate :: "edge \<Rightarrow> edge_ctx \<Rightarrow> (edge \<times> edge_ctx) outcome" where
  "edge_activate e c = (if activatesForTouchGesture e then register_gesture e c else Returns (e, c))"

definition edge_deactivate :: "edge \<Rightarrow> edge_ctx \<Rightarrow> edge \<times> edge_ctx" where
  "edge_deactivate e c = unregister_gesture e c"

definition edge_reserve :: "edge \<Rightarrow> edge_ctx \<Rightarrow> (edge \<times> edge_ctx) outcome" where
  "edge_reserve e c =
     (let e1 = e\<lparr>e_reserved := e_reserved e + 1\<rparr> in
      if e_reserved e1 = 1 then edge_activate e1 c else Returns (e1, c))"

definition edge_unreserve :: "edge \<Rightarrow> edge_ctx \<Rightarrow> edge \<times> edge_ctx" where
  "edge_unreserve e c =
     (let e1 = e\<lparr>e_reserved := e_reserved e - 1\<rparr> in
      if e_reserved e1 = 0 then (case stopApproaching e1 c of (e2, c2) \<Rightarrow> edge_deactivate e2 c2) else (e1, c))"

definition edge_reserve_object :: "addr \<Rightarrow> string \<Rightarrow> edge \<Rightarrow> edge_ctx \<Rightarrow> (edge \<times> edge_ctx) outcome" where
  "edge_reserve_object ob slot e c = edge_reserve (e\<lparr>e_callBacks := AList.update ob slot (e_callBacks e)\<rparr>) c"

definition edge_unreserve_object :: "addr \<Rightarrow> edge \<Rightarrow> edge_ctx \<Rightarrow> edge \<times> edge_ctx" where
  "edge_unreserve_object ob e c =
     (if ob \<in> fst ` set (e_callBacks e) then edge_unreserve (e\<lparr>e_callBacks := AList.delete ob (e_callBacks e)\<rparr>) c else (e, c))"

definition reserveTouchCallBack :: "addr \<Rightarrow> edge \<Rightarrow> edge_ctx \<Rightarrow> (edge \<times> edge_ctx) outcome" where
  "reserveTouchCallBack a e c =
     (if a \<in> set (e_touchActions e) then Returns (e, c)
      else edge_reserve (e\<lparr>e_touchActions := e_touchActions e @ [a]\<rparr>) c)"

definition unreserveTouchCallBack :: "addr \<Rightarrow> edge \<Rightarrow> edge_ctx \<Rightarrow> edge \<times> edge_ctx" where
  "unreserveTouchCallBack a e c =
     (if a \<in> set (e_touchActions e) then edge_unreserve (e\<lparr>e_touchActions := remove1 a (e_touchActions e)\<rparr>) c else (e, c))"

text \<open>A change of an edge that may change whether it reacts to touch.\<close>

definition with_touch_change :: "(edge \<Rightarrow> edge) \<Rightarrow> edge \<Rightarrow> edge_ctx \<Rightarrow> (edge \<times> edge_ctx) outcome" where
  "with_touch_change f e c =
     (if activatesForTouchGesture e \<noteq> activatesForTouchGesture (f e) then touchGestureChanged (f e) c else Returns (f e, c))"

definition setTouchAction :: "border_action \<Rightarrow> edge \<Rightarrow> edge_ctx \<Rightarrow> (edge \<times> edge_ctx) outcome" where
  "setTouchAction a = with_touch_change (\<lambda>e. e\<lparr>e_touchAction := a\<rparr>)"

definition edge_setClient :: "addr option \<Rightarrow> edge \<Rightarrow> edge_ctx \<Rightarrow> (edge \<times> edge_ctx) outcome" where
  "edge_setClient w = with_touch_change (\<lambda>e. e\<lparr>e_client := w\<rparr>)"

definition edge_setAction :: "border_action \<Rightarrow> edge \<Rightarrow> edge" where "edge_setAction a e = e\<lparr>e_action := a\<rparr>"

definition edge_checkBlocking :: "edge_env \<Rightarrow> edge \<Rightarrow> edge_ctx \<Rightarrow> (edge \<times> edge_ctx) outcome" where
  "edge_checkBlocking E e c =
     (if isCorner (e_border e) then Returns (e, c)
      else
        let new = (case ee_fullscreen E of None \<Rightarrow> False | Some frame \<Rightarrow> rcontains_point frame (rcenter (e_geometry e)))
        in if new = e_blocked e then Returns (e, c) else with_touch_change (\<lambda>x. x\<lparr>e_blocked := new\<rparr>) e c)"

section \<open>Triggering\<close>

definition triggersFor :: "'s edge_settings_scheme \<Rightarrow> edge_env \<Rightarrow> point \<Rightarrow> edge \<Rightarrow> bool" where
  "triggersFor S E p e \<longleftrightarrow>
     \<not> e_blocked e \<and> activatesForPointer S E e \<and> rcontains_point (e_geometry e) p \<and>
     (isLeft (e_border e) \<longrightarrow> fst p = rleft (e_geometry e)) \<and>
     (isRight (e_border e) \<longrightarrow> fst p = rleft (e_geometry e) + rwidth (e_geometry e) - 1) \<and>
     (isTop (e_border e) \<longrightarrow> snd p = rtop (e_geometry e)) \<and>
     (isBottom (e_border e) \<longrightarrow> snd p = rtop (e_geometry e) + rheight (e_geometry e) - 1)"

definition markAsTriggered :: "point \<Rightarrow> int \<Rightarrow> edge \<Rightarrow> edge" where
  "markAsTriggered p t e = e\<lparr>e_lastTrigger := Some t, e_lastReset := None, e_triggeredPoint := p\<rparr>"

definition DISTANCE_RESET :: int where "DISTANCE_RESET = 30"

definition in_cooldown :: "'s edge_settings_scheme \<Rightarrow> int \<Rightarrow> edge \<Rightarrow> bool" where
  "in_cooldown S t e \<longleftrightarrow>
     (case e_lastTrigger e of None \<Rightarrow> False | Some l \<Rightarrow> t - l < es_reActivationThreshold S - es_timeThreshold S)"

definition canActivate :: "'s edge_settings_scheme \<Rightarrow> point \<Rightarrow> int \<Rightarrow> edge \<Rightarrow> bool \<times> edge" where
  "canActivate S p t e =
     (case e_lastReset e of
        None \<Rightarrow> (False, e\<lparr>e_lastReset := Some t\<rparr>)
      | Some r \<Rightarrow>
          if t - r > es_reActivationThreshold S then (False, e\<lparr>e_lastReset := Some t\<rparr>)
          else (\<not> in_cooldown S t e \<and> \<not> t - r < es_timeThreshold S \<and>
                \<not> manhattanLength (fst p - fst (e_triggeredPoint e), snd p - snd (e_triggeredPoint e)) > DISTANCE_RESET, e))"

definition pushCursorBack :: "'s edge_settings_scheme \<Rightarrow> point \<Rightarrow> edge \<Rightarrow> edge_ctx \<Rightarrow> edge_ctx" where
  "pushCursorBack S p e c =
     (if e_pushBackBlocked e then c
      else
        let d = es_cursorPushBackDistance S; b = e_border e;
            x1 = (if isLeft b then fst p + fst d else fst p); x2 = (if isRight b then x1 - fst d else x1);
            y1 = (if isTop b then snd p + snd d else snd p); y2 = (if isBottom b then y1 - snd d else y1)
        in ec_emit [SetCursor (x2, y2)] c)"

text \<open>\<open>switchDesktop\<close>, until the event loop blocks again and ends the blocking of the push back.\<close>

definition switchDesktop :: "edge_env \<Rightarrow> point \<Rightarrow> edge \<Rightarrow> edge_ctx \<Rightarrow> edge \<times> edge_ctx" where
  "switchDesktop E p e c =
     (let b = e_border e; old = ee_current E;
          d1 = (if isLeft b then ee_toLeft E old else if isRight b then ee_toRight E old else old);
          x = (if d1 = old then fst p else if isLeft b then fst (ee_screensSize E) - 1 - 2 else 2);
          d2 = (if isTop b then ee_above E d1 else if isBottom b then ee_below E d1 else d1);
          y = (if d2 = d1 then snd p else if isTop b then snd (ee_screensSize E) - 1 - 2 else 2)
      in if ee_moveResize E \<noteq> None \<and> \<not> ee_allowed E d2 then (e, c)
         else
           let c1 = ec_emit [SetCurrentDesktop d2] c in
           if ee_setCurrent E d2 \<noteq> old then (e\<lparr>e_pushBackBlocked := True\<rparr>, ec_emit [SetCursor (x, y)] c1) else (e, c1))"

definition handleAction :: "border_action \<Rightarrow> edge_ctx \<Rightarrow> bool \<times> edge_ctx" where
  "handleAction a c = (if a = ElectricActionNone then (False, c) else (True, ec_emit [ActionCalled a] c))"

fun callback_loop :: "edge_env \<Rightarrow> border \<Rightarrow> (addr \<times> string) list \<Rightarrow> edge_ctx \<Rightarrow> bool \<times> edge_ctx" where
  "callback_loop E b [] c = (False, c)"
| "callback_loop E b ((ob, slot) # cs) c =
     (let c1 = ec_emit [CallBack ob slot b] c in if ee_callback E ob slot then (True, c1) else callback_loop E b cs c1)"

definition handleByCallback :: "edge_env \<Rightarrow> edge \<Rightarrow> edge_ctx \<Rightarrow> bool \<times> edge_ctx" where
  "handleByCallback E e c = callback_loop E (e_border e) (e_callBacks e) c"

definition handleTouchCallback :: "edge \<Rightarrow> edge_ctx \<Rightarrow> edge_ctx" where
  "handleTouchCallback e c = (case e_touchActions e of [] \<Rightarrow> c | a # _ \<Rightarrow> ec_emit [TouchTriggered a] c)"

definition edge_handle :: "'s edge_settings_scheme \<Rightarrow> edge_env \<Rightarrow> point \<Rightarrow> edge \<Rightarrow> edge_ctx \<Rightarrow> edge \<times> edge_ctx" where
  "edge_handle S E p e c =
     (if es_desktopSwitchingMovingClients S \<and> ee_moveResize E = Some False \<or> es_desktopSwitching S \<and> isScreenEdge (e_border e)
      then switchDesktop E p e c
      else if ee_moveResize E \<noteq> None then (e, c)
      else (case e_client e of
          Some w \<Rightarrow> edge_unreserve e (ec_emit [ShowOnScreenEdge w] (pushCursorBack S p e c))
        | None \<Rightarrow>
            (case handleAction (e_action e) c of (done1, c1) \<Rightarrow>
             case (if done1 then (True, c1) else handleByCallback E e c1) of (done2, c2) \<Rightarrow>
               if done2 then (e, pushCursorBack S p e c2)
               else if es_desktopSwitching S \<and> isCorner (e_border e) then switchDesktop E p e c2
               else (e, c2))))"

text \<open>The connection to the signal \<open>triggered\<close> of the gesture.\<close>

definition gesture_triggered :: "edge \<Rightarrow> edge_ctx \<Rightarrow> edge \<times> edge_ctx" where
  "gesture_triggered e c =
     (case stopApproaching e c of (e1, c1) \<Rightarrow>
      case e_client e1 of
        Some w \<Rightarrow> edge_unreserve e1 (ec_emit [ShowOnScreenEdge w] c1)
      | None \<Rightarrow> (e1, handleTouchCallback e1 (snd (handleAction (e_touchAction e1) c1))))"

definition edge_check :: "'s edge_settings_scheme \<Rightarrow> edge_env \<Rightarrow> point \<Rightarrow> int \<Rightarrow> bool \<Rightarrow> edge \<Rightarrow> edge_ctx \<Rightarrow> bool \<times> edge \<times> edge_ctx" where
  "edge_check S E p t force e c =
     (if \<not> triggersFor S E p e \<or> in_cooldown S t e then (False, e, c)
      else
        case (if force \<or> es_cursorPushBackDistance S = (0, 0) \<or> e_client e \<noteq> None then (True, e) else canActivate S p t e) of
          (True, e1) \<Rightarrow> (case edge_handle S E p (markAsTriggered p t e1) c of (e2, c2) \<Rightarrow> (True, e2, c2))
        | (False, e1) \<Rightarrow> (False, e1\<lparr>e_triggeredPoint := p\<rparr>, pushCursorBack S p e1 c))"

section \<open>Geometry\<close>

text \<open>The area in which the pointer approaches the edge.\<close>

definition approach_rect :: "int \<Rightarrow> border \<Rightarrow> rect \<Rightarrow> rect" where
  "approach_rect sz b g =
     (let x = rleft g; y = rtop g; w = rwidth g; h = rheight g in
      if isCorner b then mk_rect (if isRight b then x - sz + 1 else x) (if isBottom b then y - sz + 1 else y) sz sz
      else if isLeft b then mk_rect x (y + sz + 1) sz (h - sz * 2)
      else if isRight b then mk_rect (x - sz + 1) (y + sz) sz (h - sz * 2)
      else if isTop b then mk_rect (x + sz) y (w - sz * 2) sz
      else if isBottom b then mk_rect (x + sz) (y - sz + 1) (w - sz * 2) sz
      else mk_rect x y w h)"

text \<open>\<open>QSize * 0.2\<close>, rounded.\<close>

definition fifth :: "qsize \<Rightarrow> delta" where
  "fifth s = (of_int ((fst s + 2) div 5), of_int ((snd s + 2) div 5))"

definition edge_setGeometry :: "'s edge_settings_scheme \<Rightarrow> edge_env \<Rightarrow> rect \<Rightarrow> edge \<Rightarrow> edge_ctx \<Rightarrow> (edge \<times> edge_ctx) outcome" where
  "edge_setGeometry S E g e c =
     (if e_geometry e = g then Returns (e, c)
      else
        let e1 = e\<lparr>e_geometry := g, e_approachGeometry := approach_rect (es_cornerOffset S) (e_border e) g\<rparr>; G = ec_gestures c in
        if \<not> isScreenEdge (e_border e) then Returns (e1, c)
        else (case gr_store G (e_id e) of
            None \<Rightarrow> Faults NullDeref
          | Some sw \<Rightarrow> obind (setStartGeometry g sw) (\<lambda>sw1.
              Returns (e1, c\<lparr>ec_gestures := G\<lparr>gr_store := (gr_store G)(e_id e \<mapsto> sw1\<lparr>sg_minimumDelta := Some (fifth (ee_screenSizeAt E (rcenter g)))\<rparr>)\<rparr>\<rparr>))))"

text \<open>A new edge with its gesture, which is for one finger; \<open>setBorder\<close> directs the gesture away from the border.\<close>

definition swipe_away :: "border \<Rightarrow> direction" where
  "swipe_away b = (case b of ElectricRight \<Rightarrow> Left | ElectricBottom \<Rightarrow> Up | ElectricLeft \<Rightarrow> Right | _ \<Rightarrow> Down)"

definition edge_swipe :: "border \<Rightarrow> swipe" where
  "edge_swipe b = \<lparr>sg_minimumFingerCount = Some 1, sg_maximumFingerCount = Some 1, sg_direction = swipe_away b,
     sg_minimumX = None, sg_minimumY = None, sg_maximumX = None, sg_maximumY = None, sg_minimumDelta = None\<rparr>"

definition new_edge :: "addr \<Rightarrow> border \<Rightarrow> edge_ctx \<Rightarrow> edge \<times> edge_ctx" where
  "new_edge a b c =
     (\<lparr>e_id = a, e_border = b, e_action = ElectricActionNone, e_touchAction = ElectricActionNone, e_reserved = 0,
       e_geometry = null_rect, e_approachGeometry = null_rect, e_lastTrigger = None, e_lastReset = None, e_triggeredPoint = (0, 0),
       e_callBacks = [], e_approaching = False, e_lastApproachingFactor = 0, e_blocked = False, e_pushBackBlocked = False,
       e_client = None, e_touchActions = []\<rparr>,
      c\<lparr>ec_gestures := (ec_gestures c)\<lparr>gr_store := (gr_store (ec_gestures c))(a \<mapsto> edge_swipe b)\<rparr>\<rparr>)"

end
