(* ===== verification/Screen_Edges.thy ===== *)
theory Screen_Edges
  imports Screen_Edge
begin

text \<open>
  All edges of the screens: the class \<open>ScreenEdges\<close> of \<^verbatim>\<open>screenedge.cpp\<close>. The screens are the list of their
  geometries. The members \<open>m_actionTop\<close> and so on are one function of the border.
\<close>

record screen_edges = edge_settings +
  se_edges :: "edge list"
  se_layout :: "bool \<times> bool"
  se_action :: "border \<Rightarrow> border_action"
  se_touchActions :: "border \<rightharpoonup> border_action"
  se_ctx :: edge_ctx
  se_next :: addr

abbreviation se_hor :: "screen_edges \<Rightarrow> bool" where "se_hor S \<equiv> fst (se_layout S)"
abbreviation se_ver :: "screen_edges \<Rightarrow> bool" where "se_ver S \<equiv> snd (se_layout S)"

text \<open>A loop over the edges that changes those that \<open>P\<close> selects.\<close>

fun each_edge :: "(edge \<Rightarrow> bool) \<Rightarrow> (edge \<Rightarrow> edge_ctx \<Rightarrow> (edge \<times> edge_ctx) outcome) \<Rightarrow> edge list \<Rightarrow> edge_ctx \<Rightarrow> (edge list \<times> edge_ctx) outcome" where
  "each_edge P f [] c = Returns ([], c)"
| "each_edge P f (e # es) c =
     obind (if P e then f e c else Returns (e, c)) (\<lambda>(e1, c1).
       obind (each_edge P f es c1) (\<lambda>(es1, c2). Returns (e1 # es1, c2)))"

definition on_edges :: "(edge \<Rightarrow> bool) \<Rightarrow> (edge \<Rightarrow> edge_ctx \<Rightarrow> (edge \<times> edge_ctx) outcome) \<Rightarrow> screen_edges \<Rightarrow> screen_edges outcome" where
  "on_edges P f S = obind (each_edge P f (se_edges S) (se_ctx S)) (\<lambda>(es, c). Returns (S\<lparr>se_edges := es, se_ctx := c\<rparr>))"

abbreviation at_border :: "border \<Rightarrow> edge \<Rightarrow> bool" where "at_border b \<equiv> \<lambda>e. e_border e = b"

abbreviation pure_edge :: "(edge \<Rightarrow> edge_ctx \<Rightarrow> edge \<times> edge_ctx) \<Rightarrow> edge \<Rightarrow> edge_ctx \<Rightarrow> (edge \<times> edge_ctx) outcome" where
  "pure_edge f \<equiv> \<lambda>e c. Returns (f e c)"

section \<open>Settings\<close>

definition setActionForBorder :: "border \<Rightarrow> border_action \<Rightarrow> screen_edges \<Rightarrow> screen_edges outcome" where
  "setActionForBorder b new S =
     (let old = se_action S b in
      if old = new then Returns S
      else
        obind (if old = ElectricActionNone then on_edges (at_border b) edge_reserve S else Returns S) (\<lambda>S1.
        obind (if new = ElectricActionNone then on_edges (at_border b) (pure_edge edge_unreserve) S1 else Returns S1) (\<lambda>S2.
        on_edges (at_border b) (\<lambda>e c. Returns (edge_setAction new e, c)) (S2\<lparr>se_action := (se_action S2)(b := new)\<rparr>))))"

definition touch_action :: "screen_edges \<Rightarrow> border \<Rightarrow> border_action" where
  "touch_action S b = (case se_touchActions S b of None \<Rightarrow> ElectricActionNone | Some a \<Rightarrow> a)"

definition setActionForTouchBorder :: "border \<Rightarrow> border_action \<Rightarrow> screen_edges \<Rightarrow> screen_edges outcome" where
  "setActionForTouchBorder b new S =
     (let old = touch_action S b in
      if old = new then Returns S
      else
        obind (if old = ElectricActionNone then on_edges (at_border b) edge_reserve S else Returns S) (\<lambda>S1.
        obind (if new = ElectricActionNone
               then obind (on_edges (at_border b) (pure_edge edge_unreserve) S1) (\<lambda>S2. Returns (S2\<lparr>se_touchActions := (se_touchActions S2)(b := None)\<rparr>))
               else Returns (S1\<lparr>se_touchActions := (se_touchActions S1)(b \<mapsto> new)\<rparr>)) (\<lambda>S3.
        on_edges (at_border b) (setTouchAction new) S3)))"

text \<open>The edges that desktop switching reserves.\<close>

definition switches :: "bool \<times> bool \<Rightarrow> border \<Rightarrow> bool" where
  "switches l b \<longleftrightarrow> isCorner b \<or> fst l \<and> (isLeft b \<or> isRight b) \<or> snd l \<and> (isTop b \<or> isBottom b)"

definition reserveDesktopSwitching :: "bool \<Rightarrow> bool \<times> bool \<Rightarrow> screen_edges \<Rightarrow> screen_edges outcome" where
  "reserveDesktopSwitching toReserve l S =
     (if l = (False, False) then Returns S
      else on_edges (\<lambda>e. switches (se_layout S) (e_border e)) (if toReserve then edge_reserve else pure_edge edge_unreserve) S)"

definition setDesktopSwitching :: "bool \<Rightarrow> screen_edges \<Rightarrow> screen_edges outcome" where
  "setDesktopSwitching enable S =
     (if enable = es_desktopSwitching S then Returns S
      else reserveDesktopSwitching enable (se_layout S) (S\<lparr>es_desktopSwitching := enable\<rparr>))"

definition updateLayout :: "qsize \<Rightarrow> screen_edges \<Rightarrow> screen_edges outcome" where
  "updateLayout grid S =
     (let new = (fst grid > 1, snd grid > 1) in
      if new = se_layout S then Returns S
      else
        obind (if es_desktopSwitching S then reserveDesktopSwitching False (se_layout S) S else Returns S) (\<lambda>S1.
        let S2 = S1\<lparr>se_layout := new\<rparr> in
        if es_desktopSwitching S2 then reserveDesktopSwitching True (se_layout S2) S2 else Returns S2))"

datatype electric_borders = ElectricDisabled | ElectricMoveOnly | ElectricAlways | ElectricOther

text \<open>What the configuration holds: the delays, the switching, the push back, and the actions by border.\<close>

record edge_config =
  kc_delay :: int
  kc_cooldown :: int
  kc_borders :: electric_borders
  kc_pushBack :: int
  kc_action :: "border \<Rightarrow> border_action"
  kc_touchAction :: "border \<Rightarrow> border_action"

definition config_switching :: "electric_borders \<Rightarrow> screen_edges \<Rightarrow> screen_edges outcome" where
  "config_switching k S =
     (case k of
        ElectricDisabled \<Rightarrow> obind (setDesktopSwitching False S) (\<lambda>T. Returns (T\<lparr>es_desktopSwitchingMovingClients := False\<rparr>))
      | ElectricMoveOnly \<Rightarrow> obind (setDesktopSwitching False S) (\<lambda>T. Returns (T\<lparr>es_desktopSwitchingMovingClients := True\<rparr>))
      | ElectricAlways \<Rightarrow> obind (setDesktopSwitching True S) (\<lambda>T. Returns (T\<lparr>es_desktopSwitchingMovingClients := True\<rparr>))
      | ElectricOther \<Rightarrow> Returns S)"

definition edges_reconfigure :: "edge_config \<Rightarrow> screen_edges \<Rightarrow> screen_edges outcome" where
  "edges_reconfigure K S =
     (let S1 = S\<lparr>es_timeThreshold := kc_delay K\<rparr>; r = max (kc_delay K + 50) (kc_cooldown K) in
      oassert (r \<ge> es_timeThreshold S1)
       (obind (config_switching (kc_borders K) (S1\<lparr>es_reActivationThreshold := r\<rparr>)) (\<lambda>S2.
        obind (ofold (\<lambda>b. setActionForBorder b (kc_action K b))
            [ElectricTopLeft, ElectricTop, ElectricTopRight, ElectricRight, ElectricBottomRight, ElectricBottom, ElectricBottomLeft, ElectricLeft]
            (S2\<lparr>es_cursorPushBackDistance := (kc_pushBack K, kc_pushBack K)\<rparr>)) (\<lambda>S3.
        ofold (\<lambda>b. setActionForTouchBorder b (kc_touchAction K b)) [ElectricTop, ElectricRight, ElectricBottom, ElectricLeft] S3))))"

section \<open>Creating edges\<close>

definition isLeftScreen :: "rect list \<Rightarrow> rect \<Rightarrow> rect \<Rightarrow> bool" where
  "isLeftScreen screens scr full \<longleftrightarrow> length screens = 1 \<or> rleft scr = rleft full \<or>
     \<not> (\<exists>o' \<in> set screens. o' \<noteq> scr \<and> rleft o' + rwidth o' \<le> rleft scr)"

definition isRightScreen :: "rect list \<Rightarrow> rect \<Rightarrow> rect \<Rightarrow> bool" where
  "isRightScreen screens scr full \<longleftrightarrow> length screens = 1 \<or> rleft scr + rwidth scr = rleft full + rwidth full \<or>
     \<not> (\<exists>o' \<in> set screens. o' \<noteq> scr \<and> rleft o' \<ge> rleft scr + rwidth scr)"

definition isTopScreen :: "rect list \<Rightarrow> rect \<Rightarrow> rect \<Rightarrow> bool" where
  "isTopScreen screens scr full \<longleftrightarrow> length screens = 1 \<or> rtop scr = rtop full \<or>
     \<not> (\<exists>o' \<in> set screens. o' \<noteq> scr \<and> rtop o' + rheight o' \<le> rtop scr)"

definition isBottomScreen :: "rect list \<Rightarrow> rect \<Rightarrow> rect \<Rightarrow> bool" where
  "isBottomScreen screens scr full \<longleftrightarrow> length screens = 1 \<or> rtop scr + rheight scr = rtop full + rheight full \<or>
     \<not> (\<exists>o' \<in> set screens. o' \<noteq> scr \<and> rtop o' \<ge> rtop scr + rheight scr)"

text \<open>\<open>createEdge\<close>, up to the connections.\<close>

definition createEdge :: "edge_env \<Rightarrow> border \<Rightarrow> rect \<Rightarrow> bool \<Rightarrow> screen_edges \<Rightarrow> (edge \<times> screen_edges) outcome" where
  "createEdge E b g act S =
     (case new_edge (se_next S) b (se_ctx S) of (e0, c0) \<Rightarrow>
      oassert (rwidth g \<ge> 0) (oassert (rheight g \<ge> 0)
       (obind (edge_setGeometry S E g e0 c0) (\<lambda>(e1, c1).
        obind (if act \<and> se_action S b \<noteq> ElectricActionNone
               then obind (edge_reserve e1 c1) (\<lambda>(e, c). Returns (edge_setAction (se_action S b) e, c)) else Returns (e1, c1)) (\<lambda>(e2, c2).
        obind (if act \<and> touch_action S b \<noteq> ElectricActionNone
               then obind (edge_reserve e2 c2) (\<lambda>(e, c). setTouchAction (touch_action S b) e c) else Returns (e2, c2)) (\<lambda>(e3, c3).
        obind (if es_desktopSwitching S \<and> switches (se_layout S) b then edge_reserve e3 c3 else Returns (e3, c3)) (\<lambda>(e4, c4).
        Returns (e4, S\<lparr>se_ctx := c4, se_next := se_next S + 1\<rparr>))))))))"

definition add_edge :: "edge_env \<Rightarrow> border \<Rightarrow> rect \<Rightarrow> screen_edges \<Rightarrow> screen_edges outcome" where
  "add_edge E b g S = obind (createEdge E b g True S) (\<lambda>(e, S1). Returns (S1\<lparr>se_edges := se_edges S1 @ [e]\<rparr>))"

definition createVerticalEdge :: "edge_env \<Rightarrow> rect list \<Rightarrow> border \<Rightarrow> rect \<Rightarrow> rect \<Rightarrow> screen_edges \<Rightarrow> screen_edges outcome" where
  "createVerticalEdge E screens b scr full S =
     (if b \<noteq> ElectricRight \<and> b \<noteq> ElectricLeft then Returns S
      else
        let off = es_cornerOffset S; left = (b = ElectricLeft);
            x = (if left then rleft scr else rleft scr + rwidth scr - 1);
            top' = isTopScreen screens scr full; bot = isBottomScreen screens scr full;
            y = (if top' then rtop scr + off else rtop scr);
            h1 = (if top' then rheight scr - off else rheight scr); h = (if bot then h1 - off else h1)
        in
        obind (if top' then add_edge E (if left then ElectricTopLeft else ElectricTopRight) (mk_rect x (rtop scr) 1 1) S else Returns S) (\<lambda>S1.
        obind (if bot then add_edge E (if left then ElectricBottomLeft else ElectricBottomRight) (mk_rect x (rtop scr + rheight scr - 1) 1 1) S1 else Returns S1) (\<lambda>S2.
        if h \<le> off then Returns S2 else add_edge E b (mk_rect x y 1 h) S2)))"

definition createHorizontalEdge :: "edge_env \<Rightarrow> rect list \<Rightarrow> border \<Rightarrow> rect \<Rightarrow> rect \<Rightarrow> screen_edges \<Rightarrow> screen_edges outcome" where
  "createHorizontalEdge E screens b scr full S =
     (if b \<noteq> ElectricTop \<and> b \<noteq> ElectricBottom then Returns S
      else
        let off = es_cornerOffset S; lef = isLeftScreen screens scr full;
            x = (if lef then rleft scr + off else rleft scr); w1 = (if lef then rwidth scr - off else rwidth scr);
            w = (if isRightScreen screens scr full then w1 - off else w1)
        in if w \<le> off then Returns S
           else add_edge E b (mk_rect x (if b = ElectricTop then rtop scr else rtop scr + rheight scr - 1) w 1) S)"

text \<open>The edges of one part of a screen.\<close>

definition create_edges :: "edge_env \<Rightarrow> rect list \<Rightarrow> rect \<Rightarrow> rect \<Rightarrow> screen_edges \<Rightarrow> screen_edges outcome" where
  "create_edges E screens full part S =
     obind (if isLeftScreen screens part full then createVerticalEdge E screens ElectricLeft part full S else Returns S) (\<lambda>S1.
     obind (if isRightScreen screens part full then createVerticalEdge E screens ElectricRight part full S1 else Returns S1) (\<lambda>S2.
     obind (if isTopScreen screens part full then createHorizontalEdge E screens ElectricTop part full S2 else Returns S2) (\<lambda>S3.
     if isBottomScreen screens part full then createHorizontalEdge E screens ElectricBottom part full S3 else Returns S3)))"

text \<open>The reservations of the old edges for a new one.\<close>

definition copy_edge :: "edge \<Rightarrow> edge \<times> edge_ctx \<Rightarrow> (edge \<times> edge_ctx) outcome" where
  "copy_edge old x =
     (case x of (e, c) \<Rightarrow> case e_client old of
        Some w \<Rightarrow> Returns (e, ec_emit [ShowOnScreenEdge w] c)
      | None \<Rightarrow>
          if e_border old \<noteq> e_border e then Returns (e, c)
          else
            obind (ofold (\<lambda>(ob, slot) (e, c). edge_reserve_object ob slot e c) (e_callBacks old) (e, c))
              (ofold (\<lambda>a (e, c). reserveTouchCallBack a e c) (e_touchActions old)))"

text \<open>Deleting an edge takes its gesture from the recognizer.\<close>

definition delete_edge :: "edge \<Rightarrow> edge_ctx \<Rightarrow> edge_ctx" where
  "delete_edge e c = c\<lparr>ec_gestures := unregisterGesture (e_id e) (ec_gestures c)\<rparr>"

text \<open>\<open>parts\<close> are the rectangles of the screens without the parts that belong to earlier screens.\<close>

definition recreateEdges :: "edge_env \<Rightarrow> rect list \<Rightarrow> rect \<Rightarrow> rect list \<Rightarrow> screen_edges \<Rightarrow> screen_edges outcome" where
  "recreateEdges E screens full parts S =
     (let old = se_edges S in
      obind (ofold (create_edges E screens full) parts (S\<lparr>se_edges := []\<rparr>)) (\<lambda>S1.
      obind (on_edges (\<lambda>_. True) (\<lambda>e c. ofold copy_edge old (e, c)) S1) (\<lambda>S2.
      Returns (S2\<lparr>se_ctx := fold delete_edge old (se_ctx S2)\<rparr>))))"

section \<open>Reservations\<close>

definition edges_reserve :: "border \<Rightarrow> addr \<Rightarrow> string \<Rightarrow> screen_edges \<Rightarrow> screen_edges outcome" where
  "edges_reserve b ob slot = on_edges (at_border b) (edge_reserve_object ob slot)"

definition edges_unreserve :: "border \<Rightarrow> addr \<Rightarrow> screen_edges \<Rightarrow> screen_edges outcome" where
  "edges_unreserve b ob = on_edges (at_border b) (pure_edge (edge_unreserve_object ob))"

definition reserveTouch :: "border \<Rightarrow> addr \<Rightarrow> screen_edges \<Rightarrow> screen_edges outcome" where
  "reserveTouch b a = on_edges (at_border b) (reserveTouchCallBack a)"

definition unreserveTouch :: "border \<Rightarrow> addr \<Rightarrow> screen_edges \<Rightarrow> screen_edges outcome" where
  "unreserveTouch b a = on_edges (at_border b) (pure_edge (unreserveTouchCallBack a))"

definition deleteEdgeForClient :: "addr \<Rightarrow> screen_edges \<Rightarrow> screen_edges" where
  "deleteEdgeForClient w S =
     S\<lparr>se_edges := filter (\<lambda>e. e_client e \<noteq> Some w) (se_edges S),
       se_ctx := fold delete_edge (filter (\<lambda>e. e_client e = Some w) (se_edges S)) (se_ctx S)\<rparr>"

text \<open>The geometry of the edge of a window: the first screen that holds it and whose border it touches.\<close>

fun client_edge_rect :: "rect list \<Rightarrow> rect \<Rightarrow> rect \<Rightarrow> border \<Rightarrow> rect list \<Rightarrow> rect option" where
  "client_edge_rect screens full geo b [] = None"
| "client_edge_rect screens full geo b (scr # rest) =
     (if rwithin geo scr \<and> rtop scr = rtop geo \<and> b = ElectricTop \<and> isTopScreen screens scr full
      then Some (mk_rect (rleft geo) (rtop geo) (rwidth geo) 1)
      else if rwithin geo scr \<and> rtop scr + rheight scr = rtop geo + rheight geo \<and> b = ElectricBottom \<and> isBottomScreen screens scr full
      then Some (mk_rect (rleft geo) (rtop geo + rheight geo - 1) (rwidth geo) 1)
      else if rwithin geo scr \<and> rleft scr = rleft geo \<and> b = ElectricLeft \<and> isLeftScreen screens scr full
      then Some (mk_rect (rleft geo) (rtop geo) 1 (rheight geo))
      else if rwithin geo scr \<and> rleft scr + rwidth scr = rleft geo + rwidth geo \<and> b = ElectricRight \<and> isRightScreen screens scr full
      then Some (mk_rect (rleft geo + rwidth geo - 1) (rtop geo) 1 (rheight geo))
      else client_edge_rect screens full geo b rest)"

definition createEdgeForClient :: "edge_env \<Rightarrow> rect list \<Rightarrow> rect \<Rightarrow> addr \<Rightarrow> rect \<Rightarrow> border \<Rightarrow> screen_edges \<Rightarrow> screen_edges outcome" where
  "createEdgeForClient E screens full w geo b S =
     (case client_edge_rect screens full geo b screens of
        Some g \<Rightarrow>
          if rwidth g > 0 \<and> rheight g > 0
          then obind (createEdge E b g False S) (\<lambda>(e, S1).
               obind (edge_setClient (Some w) e (se_ctx S1)) (\<lambda>(e1, c1).
               obind (edge_reserve e1 c1) (\<lambda>(e2, c2). Returns (S1\<lparr>se_edges := se_edges S1 @ [e2], se_ctx := c2\<rparr>))))
          else Returns (S\<lparr>se_ctx := ec_emit [ShowOnScreenEdge w] (se_ctx S)\<rparr>)
      | None \<Rightarrow> Returns (S\<lparr>se_ctx := ec_emit [ShowOnScreenEdge w] (se_ctx S)\<rparr>))"

definition reserve_client :: "edge_env \<Rightarrow> rect list \<Rightarrow> rect \<Rightarrow> addr \<Rightarrow> rect \<Rightarrow> border \<Rightarrow> screen_edges \<Rightarrow> screen_edges outcome" where
  "reserve_client E screens full w geo b S =
     (let S1 = deleteEdgeForClient w S in
      if b \<noteq> ElectricNone then createEdgeForClient E screens full w geo b S1
      else if \<exists>e \<in> set (se_edges S). e_client e = Some w then Returns (S1\<lparr>se_ctx := ec_emit [ShowOnScreenEdge w] (se_ctx S1)\<rparr>)
      else Returns S1)"

section \<open>Events\<close>

text \<open>The loop of \<open>check\<close>; the flag says that an edge of a window was activated.\<close>

fun check_loop :: "screen_edges \<Rightarrow> edge_env \<Rightarrow> point \<Rightarrow> int \<Rightarrow> bool \<Rightarrow> edge list \<Rightarrow> bool \<Rightarrow> edge_ctx \<Rightarrow> edge list \<times> edge_ctx" where
  "check_loop S E p t force [] acted c = ([], c)"
| "check_loop S E p t force (e # es) acted c =
     (if \<not> isReserved e \<or> \<not> activatesForPointer S E e
      then (case check_loop S E p t force es acted c of (es', c') \<Rightarrow> (e # es', c'))
      else
        case (if rcontains_point (e_approachGeometry e) p then startApproaching e c else (e, c)) of (e1, c1) \<Rightarrow>
        if e_client e1 \<noteq> None \<and> acted
        then (case check_loop S E p t force es acted c1 of (es', c') \<Rightarrow> (markAsTriggered p t e1 # es', c'))
        else (case edge_check S E p t force e1 c1 of (hit, e2, c2) \<Rightarrow>
              case check_loop S E p t force es (acted \<or> hit \<and> e_client e2 \<noteq> None) c2 of (es', c') \<Rightarrow> (e2 # es', c')))"

definition edges_check :: "edge_env \<Rightarrow> point \<Rightarrow> int \<Rightarrow> bool \<Rightarrow> screen_edges \<Rightarrow> screen_edges" where
  "edges_check E p t force S = (case check_loop S E p t force (se_edges S) False (se_ctx S) of (es, c) \<Rightarrow> S\<lparr>se_edges := es, se_ctx := c\<rparr>)"

text \<open>The loop of \<open>isEntered\<close> for a movement of the mouse.\<close>

fun entered_loop :: "screen_edges \<Rightarrow> edge_env \<Rightarrow> point \<Rightarrow> int \<Rightarrow> edge list \<Rightarrow> edge_ctx \<Rightarrow> (bool \<times> edge list \<times> edge_ctx) outcome" where
  "entered_loop S E p t [] c = Returns (False, [], c)"
| "entered_loop S E p t (e # es) c =
     (if \<not> isReserved e \<or> \<not> activatesForPointer S E e
      then obind (entered_loop S E p t es c) (\<lambda>(acted, es', c'). Returns (acted, e # es', c'))
      else
        obind (if rcontains_point (e_approachGeometry e) p
               then (if \<not> e_approaching e then Returns (startApproaching e c) else updateApproaching S p e c)
               else if e_approaching e then Returns (stopApproaching e c) else Returns (e, c)) (\<lambda>(e1, c1).
        case (if rcontains_point (e_geometry e1) p then edge_check S E p t False e1 c1 else (False, e1, c1)) of (hit, e2, c2) \<Rightarrow>
        obind (entered_loop S E p t es c2) (\<lambda>(acted, es', c'). Returns (hit \<and> e_client e2 \<noteq> None \<or> acted, e2 # es', c'))))"

definition isEntered :: "edge_env \<Rightarrow> bool \<Rightarrow> point \<Rightarrow> int \<Rightarrow> screen_edges \<Rightarrow> (bool \<times> screen_edges) outcome" where
  "isEntered E isMove p t S =
     (if \<not> isMove then Returns (False, S)
      else obind (entered_loop S E p t (se_edges S) (se_ctx S)) (\<lambda>(acted, es, c).
        Returns (False, S\<lparr>se_edges := if acted then map (\<lambda>e. if e_client e \<noteq> None then markAsTriggered p t e else e) es else es, se_ctx := c\<rparr>)))"

definition edges_checkBlocking :: "edge_env \<Rightarrow> screen_edges \<Rightarrow> screen_edges outcome" where
  "edges_checkBlocking E = on_edges (\<lambda>e. isScreenEdge (e_border e)) (edge_checkBlocking E)"

end
