(* ===== verification/Screen_Edges_Properties.thy ===== *)
theory Screen_Edges_Properties
  imports Screen_Edges
begin

text \<open>
  The reservations of the edges are balanced and their gestures are registered as long as they are needed, the pointer
  activates an edge with pauses, and how near the pointer is to an edge is reported in the documented range.
\<close>

section \<open>Single edges\<close>

text \<open>What the reservations depend on.\<close>

definition core :: "edge \<Rightarrow> addr \<times> border \<times> border_action \<times> border_action \<times> int \<times> (addr \<times> string) list \<times> addr list \<times> addr option" where
  "core e = (e_id e, e_border e, e_action e, e_touchAction e, e_reserved e, e_callBacks e, e_touchActions e, e_client e)"

lemma core_iff:
  "core e = core f \<longleftrightarrow> e_id e = e_id f \<and> e_border e = e_border f \<and> e_action e = e_action f \<and> e_touchAction e = e_touchAction f \<and>
     e_reserved e = e_reserved f \<and> e_callBacks e = e_callBacks f \<and> e_touchActions e = e_touchActions f \<and> e_client e = e_client f"
  by (auto simp: core_def)

text \<open>The gesture of a plain edge is registered exactly when the edge is reserved and reacts to touch.\<close>

definition registered :: "edge_ctx \<Rightarrow> edge \<Rightarrow> bool" where "registered c e \<longleftrightarrow> e_id e \<in> set (gr_gestures (ec_gestures c))"

definition reg_ok :: "edge_ctx \<Rightarrow> edge \<Rightarrow> bool" where
  "reg_ok c e \<longleftrightarrow> e_client e = None \<and> e_touchActions e = [] \<and> e_reserved e \<ge> 0 \<and>
     (registered c e \<longleftrightarrow> e_reserved e \<noteq> 0 \<and> activatesForTouchGesture e)"

text \<open>An operation on the edge with the number \<open>a\<close> leaves the gestures of other edges alone.\<close>

definition only_gesture :: "addr \<Rightarrow> edge_ctx \<Rightarrow> edge_ctx \<Rightarrow> bool" where
  "only_gesture a c c' \<longleftrightarrow> (\<forall>x. x \<noteq> a \<longrightarrow> (x \<in> set (gr_gestures (ec_gestures c')) \<longleftrightarrow> x \<in> set (gr_gestures (ec_gestures c)))) \<and>
     gr_store (ec_gestures c') = gr_store (ec_gestures c)"

lemma only_gesture_refl [simp]: "only_gesture a c c"
  by (simp add: only_gesture_def)

lemma only_gesture_trans: "only_gesture a c d \<Longrightarrow> only_gesture a d f \<Longrightarrow> only_gesture a c f"
  by (simp add: only_gesture_def)

lemma ec_emit_gestures [simp]: "ec_gestures (ec_emit es c) = ec_gestures c"
  by (simp add: ec_emit_def)

lemma stopApproaching_spec:
  assumes "stopApproaching e c = (e', c')"
  shows "core e' = core e" "e_blocked e' = e_blocked e" "ec_gestures c' = ec_gestures c"
  using assms by (auto simp: stopApproaching_def core_iff split: if_splits)

lemma activates_core: "core e = core e' \<Longrightarrow> e_blocked e = e_blocked e' \<Longrightarrow> activatesForTouchGesture e = activatesForTouchGesture e'"
  by (simp add: core_iff activatesForTouchGesture_def)

lemma unregister_spec:
  assumes "unregister_gesture e c = (e', c')"
  shows "core e' = core e" "e_blocked e' = e_blocked e" "\<not> registered c' e'" "only_gesture (e_id e) c c'"
proof -
  let ?d = "c\<lparr>ec_gestures := unregisterGesture (e_id e) (ec_gestures c)\<rparr>"
  have eq: "core e' = core e \<and> e_blocked e' = e_blocked e \<and> ec_gestures c' = ec_gestures ?d"
    using assms stopApproaching_spec [of e ?d e' c'] by (auto simp: unregister_gesture_def gesture_cancelled_def Let_def split: if_splits)
  then show "core e' = core e" "e_blocked e' = e_blocked e" by simp_all
  show "\<not> registered c' e'" "only_gesture (e_id e) c c'"
    using eq by (auto simp: registered_def only_gesture_def core_iff unregisterGesture_def gr_emit_def Let_def)
qed

lemma register_spec:
  assumes "\<not> registered c e"
  shows "\<exists>c'. register_gesture e c = Returns (e, c') \<and> registered c' e \<and> only_gesture (e_id e) c c'"
  using assms by (auto simp: register_gesture_def registerGesture_def registered_def only_gesture_def oassert_def)

text \<open>The contract of an operation on one edge: what it does to the core of the edge, given what it needs.\<close>

locale edge_op =
  fixes f :: "edge \<Rightarrow> edge_ctx \<Rightarrow> (edge \<times> edge_ctx) outcome" and pre :: "edge \<Rightarrow> bool" and upd :: "edge \<Rightarrow> edge"
  assumes op: "reg_ok c e \<Longrightarrow> pre e \<Longrightarrow>
      \<exists>e' c'. f e c = Returns (e', c') \<and> core e' = core (upd e) \<and> reg_ok c' e' \<and> only_gesture (e_id e) c c'"
    and upd_id: "e_id (upd e) = e_id e"
begin

lemma each:
  assumes "distinct (map e_id es)" and "\<And>e. e \<in> set es \<Longrightarrow> reg_ok c e" and "\<And>e. e \<in> set es \<Longrightarrow> P e \<Longrightarrow> pre e"
  shows "\<exists>es' c'. each_edge P f es c = Returns (es', c') \<and> map core es' = map (\<lambda>e. core (if P e then upd e else e)) es \<and>
    (\<forall>e \<in> set es'. reg_ok c' e) \<and> (\<forall>x. x \<notin> e_id ` set es \<longrightarrow> (x \<in> set (gr_gestures (ec_gestures c')) \<longleftrightarrow> x \<in> set (gr_gestures (ec_gestures c))))"
  using assms
proof (induction es arbitrary: c)
  case (Cons e es)
  have "\<exists>e1 c1. (if P e then f e c else Returns (e, c)) = Returns (e1, c1) \<and> core e1 = core (if P e then upd e else e) \<and> reg_ok c1 e1 \<and>
      only_gesture (e_id e) c c1"
    using op [of c e] Cons.prems(2,3) by (cases "P e") auto
  then obtain e1 c1 where s: "(if P e then f e c else Returns (e, c)) = Returns (e1, c1)" "core e1 = core (if P e then upd e else e)"
    "reg_ok c1 e1" "only_gesture (e_id e) c c1" by blast
  have id1: "e_id e1 = e_id e" using s(2) upd_id by (simp add: core_iff split: if_splits)
  have "reg_ok c1 x" if "x \<in> set es" for x
  proof -
    have "e_id e \<notin> e_id ` set es" using Cons.prems(1) by simp
    with that have "e_id x \<noteq> e_id e" by (metis image_eqI)
    then show ?thesis using Cons.prems(2) [of x] that s(4) by (simp add: reg_ok_def registered_def only_gesture_def)
  qed
  then obtain es' c' where r: "each_edge P f es c1 = Returns (es', c')" "map core es' = map (\<lambda>e. core (if P e then upd e else e)) es"
    "\<forall>e \<in> set es'. reg_ok c' e" "\<forall>x. x \<notin> e_id ` set es \<longrightarrow> (x \<in> set (gr_gestures (ec_gestures c')) \<longleftrightarrow> x \<in> set (gr_gestures (ec_gestures c1)))"
    using Cons.IH [of c1] Cons.prems by auto
  have "e_id e1 \<notin> e_id ` set es" using Cons.prems(1) id1 by auto
  then have "reg_ok c' e1" using r(4) s(3) by (simp add: reg_ok_def registered_def)
  then show ?case using s r by (auto simp: only_gesture_def)
qed auto

end

lemma reg_okI:
  assumes "reg_ok c e" and "core e' = core (upd e)" and "e_client (upd e) = None" "e_touchActions (upd e) = []" "e_reserved (upd e) \<ge> 0"
    and "registered c' e' \<longleftrightarrow> e_reserved e' \<noteq> 0 \<and> activatesForTouchGesture e'"
  shows "reg_ok c' e'"
  using assms by (simp add: reg_ok_def core_iff)

interpretation resv: edge_op edge_reserve "\<lambda>_. True" "\<lambda>e. e\<lparr>e_reserved := e_reserved e + 1\<rparr>"
proof
  fix e c assume ok: "reg_ok c e"
  let ?e = "e\<lparr>e_reserved := e_reserved e + 1\<rparr>"
  have r: "registered c e \<longleftrightarrow> e_reserved e \<noteq> 0 \<and> activatesForTouchGesture e" "0 \<le> e_reserved e" "e_client e = None" "e_touchActions e = []"
    using ok by (auto simp: reg_ok_def)
  have a: "activatesForTouchGesture ?e = activatesForTouchGesture e" "registered x ?e = registered x e" for x
    by (simp_all add: activatesForTouchGesture_def registered_def)
  show "\<exists>e' c'. edge_reserve e c = Returns (e', c') \<and> core e' = core ?e \<and> reg_ok c' e' \<and> only_gesture (e_id e) c c'"
  proof (cases "e_reserved e = 0 \<and> activatesForTouchGesture e")
    case True
    then obtain c' where "register_gesture ?e c = Returns (?e, c')" "registered c' ?e" "only_gesture (e_id e) c c'"
      using register_spec [of c ?e] r a by auto
    then show ?thesis using True r a by (auto simp: edge_reserve_def edge_activate_def reg_ok_def)
  next
    case False
    then have "edge_reserve e c = Returns (?e, c)" using a by (auto simp: edge_reserve_def edge_activate_def Let_def)
    moreover have "reg_ok c ?e" using r a False by (auto simp: reg_ok_def)
    ultimately show ?thesis by simp
  qed
qed simp

interpretation unresv: edge_op "pure_edge edge_unreserve" "\<lambda>e. 1 \<le> e_reserved e" "\<lambda>e. e\<lparr>e_reserved := e_reserved e - 1\<rparr>"
proof
  fix e c assume ok: "reg_ok c e" and pos: "1 \<le> e_reserved e"
  let ?e = "e\<lparr>e_reserved := e_reserved e - 1\<rparr>"
  have r: "registered c e \<longleftrightarrow> e_reserved e \<noteq> 0 \<and> activatesForTouchGesture e" "e_client e = None" "e_touchActions e = []" using ok by (auto simp: reg_ok_def)
  show "\<exists>e' c'. Returns (edge_unreserve e c) = Returns (e', c') \<and> core e' = core ?e \<and> reg_ok c' e' \<and> only_gesture (e_id e) c c'"
  proof (cases "e_reserved e = 1")
    case True
    obtain e1 c1 where s: "stopApproaching ?e c = (e1, c1)" by fastforce
    obtain e2 c2 where u: "unregister_gesture e1 c1 = (e2, c2)" by fastforce
    note st = stopApproaching_spec [OF s] and un = unregister_spec [OF u]
    have c: "core e2 = core ?e" using st un by simp
    have "only_gesture (e_id e) c c2" using un(4) st(1,3) by (simp add: only_gesture_def core_iff)
    moreover have "reg_ok c2 e2" using c un(3) True r by (simp add: reg_ok_def core_iff)
    ultimately show ?thesis using True s u c by (simp add: edge_unreserve_def edge_deactivate_def)
  next
    case False
    then show ?thesis using pos r by (auto simp: edge_unreserve_def reg_ok_def registered_def activatesForTouchGesture_def)
  qed
qed simp

lemma with_touch_change_op:
  assumes f: "\<And>e. core (f e) = core (u e)" "\<And>e. e_id (u e) = e_id e" "\<And>e. e_reserved (u e) = e_reserved e"
      "\<And>e. e_client (u e) = e_client e" "\<And>e. e_touchActions (u e) = e_touchActions e"
  shows "edge_op (with_touch_change f) (\<lambda>_. True) u"
proof
  fix e c assume ok: "reg_ok c e"
  have id: "e_id (f e) = e_id e" "e_reserved (f e) = e_reserved e" "e_client (f e) = None" "e_touchActions (f e) = []" "registered x (f e) = registered x e" for x
    using f [of e] ok by (simp_all add: core_iff reg_ok_def registered_def)
  have r: "registered c e \<longleftrightarrow> e_reserved e \<noteq> 0 \<and> activatesForTouchGesture e" "0 \<le> e_reserved e" using ok by (auto simp: reg_ok_def)
  consider (same) "activatesForTouchGesture e = activatesForTouchGesture (f e) \<or> e_reserved e = 0"
    | (on) "e_reserved e \<noteq> 0" "\<not> activatesForTouchGesture e" "activatesForTouchGesture (f e)"
    | (off) "e_reserved e \<noteq> 0" "activatesForTouchGesture e" "\<not> activatesForTouchGesture (f e)" by blast
  then show "\<exists>e' c'. with_touch_change f e c = Returns (e', c') \<and> core e' = core (u e) \<and> reg_ok c' e' \<and> only_gesture (e_id e) c c'"
  proof cases
    case same
    then show ?thesis using id r f(1) by (auto simp: with_touch_change_def touchGestureChanged_def isReserved_def reg_ok_def)
  next
    case on
    then obtain c' where "register_gesture (f e) c = Returns (f e, c')" "registered c' (f e)" "only_gesture (e_id e) c c'"
      using register_spec [of c "f e"] r id by auto
    then show ?thesis using on id r f(1) by (auto simp: with_touch_change_def touchGestureChanged_def isReserved_def reg_ok_def)
  next
    case off
    obtain e' c' where u: "unregister_gesture (f e) c = (e', c')" by fastforce
    note un = unregister_spec [OF u]
    have "reg_ok c' e'" using un(1,2,3) id r off activates_core [OF un(1,2)] by (simp add: reg_ok_def core_iff)
    then show ?thesis using u un off id f(1) by (auto simp: with_touch_change_def touchGestureChanged_def isReserved_def)
  qed
qed (use f in simp)

interpretation touch: edge_op "setTouchAction a" "\<lambda>_. True" "\<lambda>e. e\<lparr>e_touchAction := a\<rparr>"
  unfolding setTouchAction_def by (rule with_touch_change_op) simp_all

interpretation block: edge_op "edge_checkBlocking E" "\<lambda>_. True" "\<lambda>e. e"
proof
  fix e c assume ok: "reg_ok c e"
  have "edge_op (with_touch_change (\<lambda>x. x\<lparr>e_blocked := v\<rparr>)) (\<lambda>_. True) (\<lambda>e. e)" for v
    by (rule with_touch_change_op) (simp_all add: core_iff)
  from edge_op.op [OF this ok TrueI] show
    "\<exists>e' c'. edge_checkBlocking E e c = Returns (e', c') \<and> core e' = core e \<and> reg_ok c' e' \<and> only_gesture (e_id e) c c'"
    using ok by (auto simp: edge_checkBlocking_def Let_def)
qed simp

interpretation act: edge_op "\<lambda>e c. Returns (edge_setAction a e, c)" "\<lambda>_. True" "\<lambda>e. e\<lparr>e_action := a\<rparr>"
  by unfold_locales (auto simp: edge_setAction_def reg_ok_def registered_def activatesForTouchGesture_def)

interpretation resvob: edge_op "edge_reserve_object ob slot" "\<lambda>_. True"
  "\<lambda>e. e\<lparr>e_callBacks := AList.update ob slot (e_callBacks e), e_reserved := e_reserved e + 1\<rparr>"
proof
  fix e c assume "reg_ok c e"
  then have "reg_ok c (e\<lparr>e_callBacks := AList.update ob slot (e_callBacks e)\<rparr>)"
    by (simp add: reg_ok_def registered_def activatesForTouchGesture_def)
  from resv.op [OF this] show "\<exists>e' c'. edge_reserve_object ob slot e c = Returns (e', c') \<and>
      core e' = core (e\<lparr>e_callBacks := AList.update ob slot (e_callBacks e), e_reserved := e_reserved e + 1\<rparr>) \<and> reg_ok c' e' \<and> only_gesture (e_id e) c c'"
    by (simp add: edge_reserve_object_def)
qed simp

interpretation unresvob: edge_op "pure_edge (edge_unreserve_object ob)" "\<lambda>e. ob \<in> fst ` set (e_callBacks e) \<longrightarrow> 1 \<le> e_reserved e"
  "\<lambda>e. if ob \<in> fst ` set (e_callBacks e) then e\<lparr>e_callBacks := AList.delete ob (e_callBacks e), e_reserved := e_reserved e - 1\<rparr> else e"
proof
  fix e c assume ok: "reg_ok c e" and pre: "ob \<in> fst ` set (e_callBacks e) \<longrightarrow> 1 \<le> e_reserved e"
  let ?e = "e\<lparr>e_callBacks := AList.delete ob (e_callBacks e)\<rparr>"
  have "reg_ok c ?e" using ok by (simp add: reg_ok_def registered_def activatesForTouchGesture_def)
  from unresv.op [OF this] pre ok show "\<exists>e' c'. Returns (edge_unreserve_object ob e c) = Returns (e', c') \<and>
      core e' = core (if ob \<in> fst ` set (e_callBacks e) then e\<lparr>e_callBacks := AList.delete ob (e_callBacks e), e_reserved := e_reserved e - 1\<rparr> else e) \<and>
      reg_ok c' e' \<and> only_gesture (e_id e) c c'"
    by (cases "ob \<in> fst ` set (e_callBacks e)") (simp_all add: edge_unreserve_object_def)
qed simp

section \<open>All edges\<close>

text \<open>The edges have different numbers below the next one, and their gestures are registered as they should be.\<close>

definition edges_struct :: "screen_edges \<Rightarrow> bool" where
  "edges_struct S \<longleftrightarrow> distinct (map e_id (se_edges S)) \<and> (\<forall>e \<in> set (se_edges S). e_id e < se_next S \<and> reg_ok (se_ctx S) e) \<and>
     (\<forall>x \<in> set (gr_gestures (ec_gestures (se_ctx S))). x < se_next S)"

text \<open>What a loop over the edges leaves alone.\<close>

definition same_settings :: "screen_edges \<Rightarrow> screen_edges \<Rightarrow> bool" where
  "same_settings S S' \<longleftrightarrow> se_action S' = se_action S \<and> se_touchActions S' = se_touchActions S \<and> se_layout S' = se_layout S \<and> se_next S' = se_next S \<and>
     es_desktopSwitching S' = es_desktopSwitching S \<and> es_cornerOffset S' = es_cornerOffset S"

context edge_op
begin

lemma on_edges_all:
  assumes "edges_struct S" and "\<forall>e \<in> set (se_edges S). Q e" and "\<And>e. Q e \<Longrightarrow> P e \<Longrightarrow> pre e"
    and Q': "\<And>e e'. Q e \<Longrightarrow> core e' = core (if P e then upd e else e) \<Longrightarrow> Q' e'"
  shows "\<exists>S'. on_edges P f S = Returns S' \<and> edges_struct S' \<and> (\<forall>e \<in> set (se_edges S'). Q' e) \<and>
    same_settings S S'"
proof -
  have d: "distinct (map e_id (se_edges S))" "\<And>e. e \<in> set (se_edges S) \<Longrightarrow> reg_ok (se_ctx S) e" "\<And>e. e \<in> set (se_edges S) \<Longrightarrow> P e \<Longrightarrow> pre e"
    using assms(1,2,3) by (auto simp: edges_struct_def)
  from each [OF this] obtain es c where e: "each_edge P f (se_edges S) (se_ctx S) = Returns (es, c)"
    "map core es = map (\<lambda>e. core (if P e then upd e else e)) (se_edges S)" "\<forall>e \<in> set es. reg_ok c e"
    "\<forall>x. x \<notin> e_id ` set (se_edges S) \<longrightarrow> (x \<in> set (gr_gestures (ec_gestures c)) \<longleftrightarrow> x \<in> set (gr_gestures (ec_gestures (se_ctx S))))" by blast
  let ?S = "S\<lparr>se_edges := es, se_ctx := c\<rparr>"
  have ids: "map e_id es = map e_id (se_edges S)"
  proof -
    have "map (fst \<circ> core) es = map (fst \<circ> (\<lambda>e. core (if P e then upd e else e))) (se_edges S)" using arg_cong [OF e(2), of "map fst"] by simp
    moreover have "fst \<circ> core = e_id" by (simp add: core_def fun_eq_iff)
    moreover have "fst \<circ> (\<lambda>e. core (if P e then upd e else e)) = e_id" using upd_id by (simp add: core_def fun_eq_iff)
    ultimately show ?thesis by (simp only:)
  qed
  then have idset: "e_id ` set es = e_id ` set (se_edges S)" by (metis list.set_map)
  have "edges_struct ?S"
  proof -
    have "e_id x < se_next S" if "x \<in> set es" for x
    proof -
      have "e_id x \<in> e_id ` set (se_edges S)" using imageI [OF that, of e_id] unfolding idset .
      then obtain y where "y \<in> set (se_edges S)" "e_id x = e_id y" by blast
      then show ?thesis using assms(1) by (simp add: edges_struct_def)
    qed
    moreover have "x < se_next S" if "x \<in> set (gr_gestures (ec_gestures c))" for x
      using that e(4) assms(1) by (cases "x \<in> e_id ` set (se_edges S)") (auto simp: edges_struct_def)
    ultimately show ?thesis using ids d(1) e(3) by (simp add: edges_struct_def)
  qed
  moreover have "Q' x" if "x \<in> set es" for x
  proof -
    have "core x \<in> set (map core es)" using that by simp
    then have "core x \<in> set (map (\<lambda>e. core (if P e then upd e else e)) (se_edges S))" unfolding e(2) .
    then obtain y where "y \<in> set (se_edges S)" "core x = core (if P y then upd y else y)" by auto
    then show ?thesis using Q' assms(2) by blast
  qed
  ultimately show ?thesis using e(1) by (simp add: on_edges_def same_settings_def)
qed

end

text \<open>
  How often an edge is reserved: once for its action, once for its touch action, once for every object with a callback, once for
  switching desktops, and \<open>k\<close> times too often while an operation is under way.
\<close>

definition balanced :: "(border \<Rightarrow> border_action) \<Rightarrow> (border \<Rightarrow> border_action) \<Rightarrow> (border \<Rightarrow> bool) \<Rightarrow> (border \<Rightarrow> int) \<Rightarrow> edge \<Rightarrow> bool" where
  "balanced A T D k e \<longleftrightarrow>
     e_reserved e = of_bool (A (e_border e) \<noteq> ElectricActionNone) + of_bool (T (e_border e) \<noteq> ElectricActionNone) +
       int (length (e_callBacks e)) + of_bool (D (e_border e)) + k (e_border e) \<and>
     e_action e = A (e_border e) \<and> e_touchAction e = T (e_border e) \<and> distinct (map fst (e_callBacks e))"

lemma balanced_core: "core e = core e' \<Longrightarrow> balanced A T D k e = balanced A T D k e'"
  by (simp add: balanced_def core_iff)

definition desk_reason :: "screen_edges \<Rightarrow> border \<Rightarrow> bool" where
  "desk_reason S b \<longleftrightarrow> es_desktopSwitching S \<and> se_layout S \<noteq> (False, False) \<and> switches (se_layout S) b"

definition edges_ok :: "screen_edges \<Rightarrow> bool" where
  "edges_ok S \<longleftrightarrow> edges_struct S \<and> (\<forall>e \<in> set (se_edges S). balanced (se_action S) (touch_action S) (desk_reason S) (\<lambda>_. 0) e)"

lemma edges_okI:
  assumes "edges_struct S" and "\<forall>e \<in> set (se_edges S). balanced A T D k e"
    and "\<And>b. A b = se_action S b" "\<And>b. T b = touch_action S b" "\<And>b. of_bool (D b) + k b = (of_bool (desk_reason S b) :: int)"
  shows "edges_ok S"
proof -
  have "A = se_action S" "T = touch_action S" using assms(3,4) by auto
  moreover have "balanced A T D k e \<Longrightarrow> balanced A T (desk_reason S) (\<lambda>_. 0) e" for e using assms(5) by (simp add: balanced_def)
  ultimately show ?thesis using assms(1,2) by (simp add: edges_ok_def)
qed

lemma same_settingsD:
  assumes "same_settings S S'"
  shows "se_action S' = se_action S" "touch_action S' = touch_action S" "desk_reason S' = desk_reason S" "se_layout S' = se_layout S"
    "se_touchActions S' = se_touchActions S" "se_next S' = se_next S" "es_desktopSwitching S' = es_desktopSwitching S" "es_cornerOffset S' = es_cornerOffset S"
  using assms by (simp_all add: same_settings_def touch_action_def desk_reason_def fun_eq_iff)

lemma edges_struct_settings [simp]:
  "edges_struct (S\<lparr>se_action := A\<rparr>) = edges_struct S" "edges_struct (S\<lparr>se_touchActions := T\<rparr>) = edges_struct S"
  "edges_struct (S\<lparr>se_layout := l\<rparr>) = edges_struct S" "edges_struct (S\<lparr>es_desktopSwitching := d\<rparr>) = edges_struct S"
  by (simp_all add: edges_struct_def)

lemma settings_simps [simp]:
  "touch_action (S\<lparr>se_action := A\<rparr>) = touch_action S" "touch_action (S\<lparr>se_layout := l\<rparr>) = touch_action S"
  "touch_action (S\<lparr>es_desktopSwitching := d\<rparr>) = touch_action S" "touch_action (S\<lparr>se_edges := es\<rparr>) = touch_action S"
  "touch_action (S\<lparr>se_ctx := c\<rparr>) = touch_action S" "touch_action (S\<lparr>se_next := n\<rparr>) = touch_action S"
  "desk_reason (S\<lparr>se_action := A\<rparr>) = desk_reason S" "desk_reason (S\<lparr>se_touchActions := T\<rparr>) = desk_reason S"
  "desk_reason (S\<lparr>se_edges := es\<rparr>) = desk_reason S" "desk_reason (S\<lparr>se_ctx := c\<rparr>) = desk_reason S" "desk_reason (S\<lparr>se_next := n\<rparr>) = desk_reason S"
  by (simp_all add: touch_action_def desk_reason_def fun_eq_iff)

text \<open>Reserving and unreserving the edges at some borders, when that is asked for.\<close>

lemma maybe_reserve:
  assumes "edges_struct S" and "\<forall>e \<in> set (se_edges S). balanced A T D k e"
  shows "\<exists>S'. (if go then on_edges (\<lambda>e. P (e_border e)) edge_reserve S else Returns S) = Returns S' \<and> edges_struct S' \<and> same_settings S S' \<and>
    (\<forall>e \<in> set (se_edges S'). balanced A T D (\<lambda>b. k b + of_bool (go \<and> P b)) e)"
proof (cases go)
  case True
  let ?Q = "balanced A T D (\<lambda>b. k b + of_bool (go \<and> P b))"
  have "?Q e'" if "balanced A T D k e" "core e' = core (if P (e_border e) then e\<lparr>e_reserved := e_reserved e + 1\<rparr> else e)" for e e'
    using that True by (cases "P (e_border e)") (simp_all add: balanced_def core_iff)
  with resv.on_edges_all [OF assms, of "\<lambda>e. P (e_border e)" ?Q] True show ?thesis by auto
qed (use assms in \<open>simp add: same_settings_def\<close>)

lemma maybe_unreserve:
  assumes "edges_struct S" and "\<forall>e \<in> set (se_edges S). balanced A T D k e"
    and "\<And>b. go \<Longrightarrow> P b \<Longrightarrow> 1 \<le> of_bool (A b \<noteq> ElectricActionNone) + of_bool (T b \<noteq> ElectricActionNone) + of_bool (D b) + k b"
  shows "\<exists>S'. (if go then on_edges (\<lambda>e. P (e_border e)) (pure_edge edge_unreserve) S else Returns S) = Returns S' \<and> edges_struct S' \<and> same_settings S S' \<and>
    (\<forall>e \<in> set (se_edges S'). balanced A T D (\<lambda>b. k b - of_bool (go \<and> P b)) e)"
proof (cases go)
  case True
  let ?Q = "balanced A T D (\<lambda>b. k b - of_bool (go \<and> P b))"
  have "1 \<le> e_reserved e" if "balanced A T D k e" "P (e_border e)" for e using assms(3) [OF True that(2)] that(1) by (simp add: balanced_def)
  moreover have "?Q e'" if "balanced A T D k e" "core e' = core (if P (e_border e) then e\<lparr>e_reserved := e_reserved e - 1\<rparr> else e)" for e e'
    using that True by (cases "P (e_border e)") (simp_all add: balanced_def core_iff)
  ultimately show ?thesis using unresv.on_edges_all [OF assms(1,2), of "\<lambda>e. P (e_border e)" ?Q] True by auto
qed (use assms in \<open>simp add: same_settings_def\<close>)

lemma setActionForBorder_ok:
  assumes "edges_ok S"
  shows "\<exists>S'. setActionForBorder b new S = Returns S' \<and> edges_ok S'"
proof (cases "se_action S b = new")
  case True
  then show ?thesis using assms by (simp add: setActionForBorder_def)
next
  case False
  let ?A = "se_action S" and ?N = ElectricActionNone
  have S0: "edges_struct S" "\<forall>e \<in> set (se_edges S). balanced ?A (touch_action S) (desk_reason S) (\<lambda>_. 0) e" using assms by (auto simp: edges_ok_def)
  obtain S1 where S1: "(if ?A b = ?N then on_edges (at_border b) edge_reserve S else Returns S) = Returns S1" "edges_struct S1" "same_settings S S1"
    "\<forall>e \<in> set (se_edges S1). balanced ?A (touch_action S) (desk_reason S) (\<lambda>b'. 0 + of_bool (?A b = ?N \<and> b' = b)) e"
    using maybe_reserve [OF S0, of "?A b = ?N" "\<lambda>b'. b' = b"] by blast
  have "1 \<le> of_bool (?A b' \<noteq> ?N) + of_bool (touch_action S b' \<noteq> ?N) + of_bool (desk_reason S b') + (0 + of_bool (?A b = ?N \<and> b' = b) :: int)"
    if "new = ?N" "b' = b" for b' using False that by simp
  from maybe_unreserve [OF S1(2,4), of "new = ?N" "\<lambda>b'. b' = b", OF this] obtain S2 where
    S2: "(if new = ?N then on_edges (at_border b) (pure_edge edge_unreserve) S1 else Returns S1) = Returns S2" "edges_struct S2" "same_settings S1 S2"
    "\<forall>e \<in> set (se_edges S2). balanced ?A (touch_action S) (desk_reason S) (\<lambda>b'. 0 + of_bool (?A b = ?N \<and> b' = b) - of_bool (new = ?N \<and> b' = b)) e" by blast
  let ?S = "S2\<lparr>se_action := (se_action S2)(b := new)\<rparr>"
  have st: "se_action S2 = ?A" "touch_action S2 = touch_action S" "desk_reason S2 = desk_reason S"
    using same_settingsD [OF S1(3)] same_settingsD [OF S2(3)] by simp_all
  have "\<exists>S'. on_edges (at_border b) (\<lambda>e c. Returns (edge_setAction new e, c)) ?S = Returns S' \<and> edges_struct S' \<and>
      (\<forall>e \<in> set (se_edges S'). balanced (?A(b := new)) (touch_action S) (desk_reason S) (\<lambda>_. 0) e) \<and> same_settings ?S S'"
    by (rule act.on_edges_all [where Q = "balanced ?A (touch_action S) (desk_reason S) (\<lambda>b'. 0 + of_bool (?A b = ?N \<and> b' = b) - of_bool (new = ?N \<and> b' = b))"])
      (use S2(2,4) False in \<open>auto simp: balanced_def core_iff split: if_splits\<close>)
  then obtain S3 where S3: "on_edges (at_border b) (\<lambda>e c. Returns (edge_setAction new e, c)) ?S = Returns S3" "edges_struct S3"
    "\<forall>e \<in> set (se_edges S3). balanced (?A(b := new)) (touch_action S) (desk_reason S) (\<lambda>_. 0) e" "same_settings ?S S3" by blast
  have "edges_ok S3"
    by (rule edges_okI [OF S3(2,3)]) (use same_settingsD [OF S3(4)] st in simp_all)
  then show ?thesis using S1(1) S2(1) S3(1) False by (simp add: setActionForBorder_def Let_def)
qed

lemma setActionForTouchBorder_ok:
  assumes "edges_ok S"
  shows "\<exists>S'. setActionForTouchBorder b new S = Returns S' \<and> edges_ok S'"
proof (cases "touch_action S b = new")
  case True
  then show ?thesis using assms by (simp add: setActionForTouchBorder_def)
next
  case False
  let ?T = "touch_action S" and ?N = ElectricActionNone
  let ?k1 = "\<lambda>b'. 0 + of_bool (?T b = ?N \<and> b' = b) :: int" let ?k2 = "\<lambda>b'. ?k1 b' - of_bool (new = ?N \<and> b' = b)"
  have S0: "edges_struct S" "\<forall>e \<in> set (se_edges S). balanced (se_action S) ?T (desk_reason S) (\<lambda>_. 0) e" using assms by (auto simp: edges_ok_def)
  obtain S1 where S1: "(if ?T b = ?N then on_edges (at_border b) edge_reserve S else Returns S) = Returns S1" "edges_struct S1" "same_settings S S1"
    "\<forall>e \<in> set (se_edges S1). balanced (se_action S) ?T (desk_reason S) ?k1 e"
    using maybe_reserve [OF S0, of "?T b = ?N" "\<lambda>b'. b' = b"] by blast
  have "1 \<le> of_bool (se_action S b' \<noteq> ?N) + of_bool (?T b' \<noteq> ?N) + of_bool (desk_reason S b') + ?k1 b'"
    if "new = ?N" "b' = b" for b' using False that by simp
  from maybe_unreserve [OF S1(2,4), of "new = ?N" "\<lambda>b'. b' = b", OF this] obtain S2 where
    S2: "(if new = ?N then on_edges (at_border b) (pure_edge edge_unreserve) S1 else Returns S1) = Returns S2" "edges_struct S2" "same_settings S1 S2"
    "\<forall>e \<in> set (se_edges S2). balanced (se_action S) ?T (desk_reason S) ?k2 e" by blast
  let ?S = "S2\<lparr>se_touchActions := if new = ?N then (se_touchActions S2)(b := None) else (se_touchActions S2)(b \<mapsto> new)\<rparr>"
  have st: "se_action S2 = se_action S" "touch_action ?S = ?T(b := new)" "desk_reason S2 = desk_reason S"
    using same_settingsD [OF S1(3)] same_settingsD [OF S2(3)] by (simp_all add: touch_action_def fun_eq_iff)
  have "\<exists>S'. on_edges (at_border b) (setTouchAction new) ?S = Returns S' \<and> edges_struct S' \<and>
      (\<forall>e \<in> set (se_edges S'). balanced (se_action S) (?T(b := new)) (desk_reason S) (\<lambda>_. 0) e) \<and> same_settings ?S S'"
    by (rule touch.on_edges_all [where Q = "balanced (se_action S) ?T (desk_reason S) ?k2"])
      (use S2(2,4) False in \<open>auto simp: balanced_def core_iff split: if_splits\<close>)
  then obtain S3 where S3: "on_edges (at_border b) (setTouchAction new) ?S = Returns S3" "edges_struct S3"
    "\<forall>e \<in> set (se_edges S3). balanced (se_action S) (?T(b := new)) (desk_reason S) (\<lambda>_. 0) e" "same_settings ?S S3" by blast
  have "edges_ok S3"
    by (rule edges_okI [OF S3(2,3)]) (use same_settingsD [OF S3(4)] st in simp_all)
  then show ?thesis using S1(1) S2(1) S3(1) False by (cases "new = ?N") (simp_all add: setActionForTouchBorder_def Let_def)
qed

text \<open>Desktop switching.\<close>

lemma reserveDesktopSwitching_ok:
  assumes "edges_struct S" and "\<forall>e \<in> set (se_edges S). balanced A T D (\<lambda>_. 0) e" and "l = se_layout S"
    and "\<And>b. \<not> r \<Longrightarrow> l \<noteq> (False, False) \<Longrightarrow> switches l b \<Longrightarrow> D b"
  shows "\<exists>S'. reserveDesktopSwitching r l S = Returns S' \<and> edges_struct S' \<and> same_settings S S' \<and>
    (\<forall>e \<in> set (se_edges S'). balanced A T D (\<lambda>b. if l \<noteq> (False, False) \<and> switches l b then if r then 1 else - 1 else 0) e)"
proof -
  let ?k = "\<lambda>b. if l \<noteq> (False, False) \<and> switches l b then if r then 1 else - 1 else (0::int)"
  have pos: "1 \<le> of_bool (A b \<noteq> ElectricActionNone) + of_bool (T b \<noteq> ElectricActionNone) + of_bool (D b) + (0::int)"
    if "l \<noteq> (False, False) \<and> \<not> r" "switches l b" for b using assms(4) [of b] that by simp
  show ?thesis
  proof (cases r)
    case True
    then have "?k = (\<lambda>b. 0 + of_bool (l \<noteq> (False, False) \<and> switches l b))" by auto
    with maybe_reserve [OF assms(1,2), of "l \<noteq> (False, False)" "switches l"] True assms(3) show ?thesis
      by (cases "l = (False, False)") (auto simp: reserveDesktopSwitching_def)
  next
    case False
    then have "?k = (\<lambda>b. 0 - of_bool ((l \<noteq> (False, False) \<and> \<not> r) \<and> switches l b))" by auto
    with maybe_unreserve [OF assms(1,2), of "l \<noteq> (False, False) \<and> \<not> r" "switches l", OF pos] False assms(3) show ?thesis
      by (cases "l = (False, False)") (auto simp: reserveDesktopSwitching_def)
  qed
qed

lemma setDesktopSwitching_ok:
  assumes "edges_ok S"
  shows "\<exists>S'. setDesktopSwitching enable S = Returns S' \<and> edges_ok S'"
proof (cases "enable = es_desktopSwitching S")
  case True
  then show ?thesis using assms by (simp add: setDesktopSwitching_def)
next
  case False
  let ?S = "S\<lparr>es_desktopSwitching := enable\<rparr>"
  have S0: "edges_struct ?S" "\<forall>e \<in> set (se_edges ?S). balanced (se_action S) (touch_action S) (desk_reason S) (\<lambda>_. 0) e"
    using assms by (auto simp: edges_ok_def)
  from reserveDesktopSwitching_ok [OF S0, of "se_layout S" enable] False obtain S' where
    S': "reserveDesktopSwitching enable (se_layout S) ?S = Returns S'" "edges_struct S'" "same_settings ?S S'"
    "\<forall>e \<in> set (se_edges S'). balanced (se_action S) (touch_action S) (desk_reason S)
       (\<lambda>b. if se_layout S \<noteq> (False, False) \<and> switches (se_layout S) b then if enable then 1 else - 1 else 0) e"
    by (auto simp: desk_reason_def)
  have "edges_ok S'"
    by (rule edges_okI [OF S'(2,4)]) (use same_settingsD [OF S'(3)] False in \<open>auto simp: desk_reason_def\<close>)
  then show ?thesis using S'(1) False by (simp add: setDesktopSwitching_def)
qed

lemma updateLayout_ok:
  assumes "edges_ok S"
  shows "\<exists>S'. updateLayout grid S = Returns S' \<and> edges_ok S'"
proof -
  let ?new = "(fst grid > 1, snd grid > 1)"
  have S0: "edges_struct S" "\<forall>e \<in> set (se_edges S). balanced (se_action S) (touch_action S) (desk_reason S) (\<lambda>_. 0) e"
    using assms by (auto simp: edges_ok_def)
  show ?thesis
  proof (cases "es_desktopSwitching S \<and> ?new \<noteq> se_layout S")
    case False
    then show ?thesis using assms by (auto simp: updateLayout_def Let_def edges_ok_def desk_reason_def balanced_def)
  next
    case True
    from reserveDesktopSwitching_ok [OF S0, of "se_layout S" False] True obtain S1 where
      S1: "reserveDesktopSwitching False (se_layout S) S = Returns S1" "edges_struct S1" "same_settings S S1"
      "\<forall>e \<in> set (se_edges S1). balanced (se_action S) (touch_action S) (desk_reason S) (\<lambda>b. if se_layout S \<noteq> (False, False) \<and> switches (se_layout S) b then if False then 1 else - 1 else 0) e"
      by (auto simp: desk_reason_def)
    let ?S = "S1\<lparr>se_layout := ?new\<rparr>"
    have "\<forall>e \<in> set (se_edges ?S). balanced (se_action S) (touch_action S) (\<lambda>_. False) (\<lambda>_. 0) e"
      using S1(4) True by (auto simp: balanced_def desk_reason_def)
    from reserveDesktopSwitching_ok [OF _ this, of ?new True] S1(2) obtain S2 where
      S2: "reserveDesktopSwitching True ?new ?S = Returns S2" "edges_struct S2" "same_settings ?S S2"
      "\<forall>e \<in> set (se_edges S2). balanced (se_action S) (touch_action S) (\<lambda>_. False) (\<lambda>b. if ?new \<noteq> (False, False) \<and> switches ?new b then if True then 1 else - 1 else 0) e" by auto
    note d = same_settingsD [OF S1(3)] same_settingsD [OF S2(3)]
    have "edges_ok S2" by (rule edges_okI [OF S2(2,4)]) (use d True in \<open>auto simp: desk_reason_def\<close>)
    then show ?thesis using S1(1) S2(1) True d(7) by (simp add: updateLayout_def Let_def)
  qed
qed

text \<open>Objects with callbacks.\<close>

lemma AList_update_new: "k \<notin> fst ` set xs \<Longrightarrow> AList.update k v xs = xs @ [(k, v)]"
  by (induction xs) auto

lemma edges_reserve_ok:
  assumes "edges_ok S" and "\<forall>e \<in> set (se_edges S). e_border e = b \<longrightarrow> ob \<notin> fst ` set (e_callBacks e)"
  shows "\<exists>S'. edges_reserve b ob slot S = Returns S' \<and> edges_ok S'"
proof -
  let ?Q = "balanced (se_action S) (touch_action S) (desk_reason S) (\<lambda>_. 0)"
  let ?R = "\<lambda>e. ?Q e \<and> (e_border e = b \<longrightarrow> ob \<notin> fst ` set (e_callBacks e))"
  have S0: "edges_struct S" "\<forall>e \<in> set (se_edges S). ?R e" using assms by (auto simp: edges_ok_def)
  have "\<exists>S'. on_edges (at_border b) (edge_reserve_object ob slot) S = Returns S' \<and> edges_struct S' \<and> (\<forall>e \<in> set (se_edges S'). ?Q e) \<and> same_settings S S'"
    by (rule resvob.on_edges_all [OF S0]) (auto simp: balanced_def core_iff AList_update_new split: if_splits)
  then obtain S' where "on_edges (at_border b) (edge_reserve_object ob slot) S = Returns S'" "edges_struct S'" "\<forall>e \<in> set (se_edges S'). ?Q e" "same_settings S S'" by blast
  moreover have "edges_ok S'" by (rule edges_okI [OF calculation(2,3)]) (use same_settingsD [OF calculation(4)] in simp_all)
  ultimately show ?thesis by (simp add: edges_reserve_def)
qed

lemma AList_delete_length:
  "distinct (map fst xs) \<Longrightarrow> k \<in> fst ` set xs \<Longrightarrow> int (length (AList.delete k xs)) = int (length xs) - 1"
proof (induction xs)
  case (Cons x xs)
  show ?case
  proof (cases "fst x = k")
    case True
    then have "k \<notin> fst ` set xs" using Cons.prems(1) by auto
    then have "AList.delete k xs = xs" by (rule delete_id)
    then show ?thesis using True by (cases x) simp
  next
    case False
    then show ?thesis using Cons by (cases x) auto
  qed
qed simp

lemma edges_unreserve_ok:
  assumes "edges_ok S"
  shows "\<exists>S'. edges_unreserve b ob S = Returns S' \<and> edges_ok S'"
proof -
  let ?Q = "balanced (se_action S) (touch_action S) (desk_reason S) (\<lambda>_. 0)"
  have S0: "edges_struct S" "\<forall>e \<in> set (se_edges S). ?Q e" using assms by (auto simp: edges_ok_def)
  have pos: "1 \<le> e_reserved e" if "?Q e" "ob \<in> fst ` set (e_callBacks e)" for e
  proof -
    have "e_callBacks e \<noteq> []" using that(2) by auto
    then have "1 \<le> int (length (e_callBacks e))" by (cases "e_callBacks e") auto
    then show ?thesis using that(1) by (simp add: balanced_def)
  qed
  have "\<exists>S'. on_edges (at_border b) (pure_edge (edge_unreserve_object ob)) S = Returns S' \<and> edges_struct S' \<and> (\<forall>e \<in> set (se_edges S'). ?Q e) \<and> same_settings S S'"
  proof (rule unresvob.on_edges_all [OF S0])
    show "ob \<in> fst ` set (e_callBacks e) \<longrightarrow> 1 \<le> e_reserved e" if "?Q e" for e using pos [OF that] by blast
    show "?Q e'" if "?Q e" "core e' = core (if at_border b e then if ob \<in> fst ` set (e_callBacks e)
        then e\<lparr>e_callBacks := AList.delete ob (e_callBacks e), e_reserved := e_reserved e - 1\<rparr> else e else e)" for e e'
      using that by (cases "at_border b e \<and> ob \<in> fst ` set (e_callBacks e)")
        (auto simp: balanced_def core_iff AList_delete_length distinct_delete split: if_splits)
  qed
  then obtain S' where "on_edges (at_border b) (pure_edge (edge_unreserve_object ob)) S = Returns S'" "edges_struct S'" "\<forall>e \<in> set (se_edges S'). ?Q e" "same_settings S S'" by blast
  moreover have "edges_ok S'" by (rule edges_okI [OF calculation(2,3)]) (use same_settingsD [OF calculation(4)] in simp_all)
  ultimately show ?thesis by (simp add: edges_unreserve_def)
qed

lemma edges_checkBlocking_ok:
  assumes "edges_ok S"
  shows "\<exists>S'. edges_checkBlocking E S = Returns S' \<and> edges_ok S'"
proof -
  let ?Q = "balanced (se_action S) (touch_action S) (desk_reason S) (\<lambda>_. 0)"
  have S0: "edges_struct S" "\<forall>e \<in> set (se_edges S). ?Q e" using assms by (auto simp: edges_ok_def)
  have "\<exists>S'. on_edges (\<lambda>e. isScreenEdge (e_border e)) (edge_checkBlocking E) S = Returns S' \<and> edges_struct S' \<and> (\<forall>e \<in> set (se_edges S'). ?Q e) \<and> same_settings S S'"
    by (rule block.on_edges_all [OF S0]) (auto simp: balanced_def core_iff)
  then obtain S' where "on_edges (\<lambda>e. isScreenEdge (e_border e)) (edge_checkBlocking E) S = Returns S'" "edges_struct S'" "\<forall>e \<in> set (se_edges S'). ?Q e" "same_settings S S'" by blast
  moreover have "edges_ok S'" by (rule edges_okI [OF calculation(2,3)]) (use same_settingsD [OF calculation(4)] in simp_all)
  ultimately show ?thesis by (simp add: edges_checkBlocking_def)
qed

section \<open>The pointer\<close>

text \<open>Without a window at the edge, the pointer changes neither reservations nor gestures.\<close>

definition idle :: "edge \<times> edge_ctx \<Rightarrow> edge \<times> edge_ctx \<Rightarrow> bool" where
  "idle x y \<longleftrightarrow> core (fst y) = core (fst x) \<and> e_blocked (fst y) = e_blocked (fst x) \<and> ec_gestures (snd y) = ec_gestures (snd x)"

lemma idle_trans: "idle x y \<Longrightarrow> idle y z \<Longrightarrow> idle x z" by (simp add: idle_def)

lemma idle_approaching: "idle (e, c) (startApproaching e c)" "idle (e, c) (stopApproaching e c)"
  by (simp_all add: idle_def startApproaching_def stopApproaching_def core_iff)

lemma idle_push: "ec_gestures (pushCursorBack S p e c) = ec_gestures c"
  by (simp add: pushCursorBack_def Let_def)

lemma idle_ifs:
  "idle (e, c) (if a then (e, c) else if b then (e\<lparr>e_pushBackBlocked := True\<rparr>, ec_emit x (ec_emit y c)) else (e, ec_emit y c))"
  by (simp add: idle_def core_iff)

lemma idle_switch: "idle (e, c) (switchDesktop E p e c)"
  unfolding switchDesktop_def Let_def by (rule idle_ifs)

lemma idle_action: "ec_gestures (snd (handleAction a c)) = ec_gestures c"
  by (simp add: handleAction_def)

lemma idle_callbacks: "ec_gestures (snd (callback_loop E b cs c)) = ec_gestures c"
  by (induction cs arbitrary: c) (auto simp: Let_def)

lemma idle_handle:
  assumes "e_client e = None"
  shows "idle (e, c) (edge_handle S E p e c)"
proof -
  obtain d1 c1 where a: "handleAction (e_action e) c = (d1, c1)" by fastforce
  have c1: "ec_gestures c1 = ec_gestures c" using idle_action [of "e_action e" c] a by simp
  obtain d2 c2 where b: "handleByCallback E e c1 = (d2, c2)" by fastforce
  have c2: "ec_gestures c2 = ec_gestures c1" using idle_callbacks [of E "e_border e" "e_callBacks e" c1] b by (simp add: handleByCallback_def)
  have "idle (e, c) (switchDesktop E p e x)" if "ec_gestures x = ec_gestures c" for x
    using idle_switch [of e x E p] that by (simp add: idle_def)
  then show ?thesis using assms a b c1 c2 idle_switch [of e c E p] by (auto simp: edge_handle_def idle_def idle_push split: if_splits)
qed

lemma idle_check:
  assumes "e_client e = None" and "edge_check S E p t force e c = (hit, e', c')"
  shows "idle (e, c) (e', c')"
proof -
  obtain ok e1 where k: "(if force \<or> es_cursorPushBackDistance S = (0, 0) \<or> e_client e \<noteq> None then (True, e) else canActivate S p t e) = (ok, e1)" by fastforce
  have e1: "core e1 = core e" "e_blocked e1 = e_blocked e"
    using k by (auto simp: canActivate_def core_iff split: if_splits option.splits)
  obtain e2 c2 where h: "edge_handle S E p (markAsTriggered p t e1) c = (e2, c2)" by fastforce
  have "core (markAsTriggered p t e1) = core e" "e_blocked (markAsTriggered p t e1) = e_blocked e" using e1 by (simp_all add: markAsTriggered_def core_iff)
  moreover have "e_client (markAsTriggered p t e1) = None" using assms(1) calculation(1) by (simp add: core_iff)
  ultimately have "idle (e, c) (e2, c2)" using idle_handle [of "markAsTriggered p t e1" c S E p] h by (simp add: idle_def)
  moreover have "idle (e, c) (e1\<lparr>e_triggeredPoint := p\<rparr>, pushCursorBack S p e1 c)" using e1 by (simp add: idle_def core_iff idle_push)
  ultimately show ?thesis using assms(2) k h by (cases ok) (auto simp: edge_check_def idle_def split: if_splits)
qed

definition idle_all :: "edge list \<times> edge_ctx \<Rightarrow> edge list \<times> edge_ctx \<Rightarrow> bool" where
  "idle_all x y \<longleftrightarrow> map core (fst y) = map core (fst x) \<and> map e_blocked (fst y) = map e_blocked (fst x) \<and> ec_gestures (snd y) = ec_gestures (snd x)"

lemma idle_all_Cons: "idle (e, c) (e', c1) \<Longrightarrow> idle_all (es, c1) (es', c') \<Longrightarrow> idle_all (e # es, c) (e' # es', c')"
  by (simp add: idle_all_def idle_def)

lemma idle_client: "idle (e, c) (e', c') \<Longrightarrow> e_client e = None \<Longrightarrow> e_client e' = None"
  by (simp add: idle_def core_iff)

lemma idle_check_loop:
  "\<forall>e \<in> set es. e_client e = None \<Longrightarrow> idle_all (es, c) (check_loop S E p t force es acted c)"
proof (induction es arbitrary: acted c)
  case (Cons e es)
  obtain e1 c1 where a: "(if rcontains_point (e_approachGeometry e) p then startApproaching e c else (e, c)) = (e1, c1)" by fastforce
  have i1: "idle (e, c) (e1, c1)" using a idle_approaching(1) [of e c] by (auto simp: idle_def split: if_splits)
  have n1: "e_client e1 = None" using idle_client [OF i1] Cons.prems by simp
  obtain hit e2 c2 where k: "edge_check S E p t force e1 c1 = (hit, e2, c2)" by (metis prod_cases3)
  have i2: "idle (e, c) (e2, c2)" using idle_trans [OF i1 idle_check [OF n1 k]] .
  have n2: "e_client e2 = None" using idle_client [OF i2] Cons.prems by simp
  obtain es' c' where r: "check_loop S E p t force es acted c2 = (es', c')" by fastforce
  obtain es0 c0 where r0: "check_loop S E p t force es acted c = (es0, c0)" by fastforce
  have "idle_all (e # es, c) (e2 # es', c')" using idle_all_Cons [OF i2] Cons.IH [of c2 acted] Cons.prems r by simp
  moreover have "idle_all (e # es, c) (e # es0, c0)" using idle_all_Cons [of e c e c] Cons.IH [of c acted] Cons.prems r0 by (simp add: idle_def)
  ultimately show ?case using a n1 n2 k r r0 by simp
qed (simp add: idle_all_def)

lemma updateApproaching_idle:
  assumes "0 < es_cornerOffset S"
  shows "\<exists>y. updateApproaching S p e c = Returns y \<and> idle (e, c) y"
proof (cases "rcontains_point (e_approachGeometry e) p")
  case True
  obtain f where "(case border_distance (e_border e) (e_approachGeometry e) p of None \<Rightarrow> Returns 0
      | Some d \<Rightarrow> if es_cornerOffset S = 0 then Faults DivByZero else Returns (tdiv (d * 256) (es_cornerOffset S))) = Returns f"
    using assms by (cases "border_distance (e_border e) (e_approachGeometry e) p") auto
  with True show ?thesis
    by (cases "e_lastApproachingFactor e = 256 - f") (auto simp: updateApproaching_def Let_def idle_def core_iff simp del: obind_eq_Returns)
next
  case False
  then show ?thesis using idle_approaching(2) [of e c] by (simp add: updateApproaching_def)
qed

lemma idle_entered_loop:
  "0 < es_cornerOffset S \<Longrightarrow> \<forall>e \<in> set es. e_client e = None \<Longrightarrow>
   \<exists>es' c'. entered_loop S E p t es c = Returns (False, es', c') \<and> idle_all (es, c) (es', c')"
proof (induction es arbitrary: c)
  case (Cons e es)
  have IH: "\<exists>es' c'. entered_loop S E p t es x = Returns (False, es', c') \<and> idle_all (es, x) (es', c')" for x
    using Cons.IH [of x] Cons.prems by simp
  show ?case
  proof (cases "\<not> isReserved e \<or> \<not> activatesForPointer S E e")
    case True
    obtain es' c' where "entered_loop S E p t es c = Returns (False, es', c')" "idle_all (es, c) (es', c')" using IH by blast
    with True idle_all_Cons [of e c e c es es' c'] show ?thesis by (simp add: idle_def)
  next
    case False
    have "idle (e, c) (e, c)" by (simp add: idle_def)
    then have "\<exists>y. (if rcontains_point (e_approachGeometry e) p
               then (if \<not> e_approaching e then Returns (startApproaching e c) else updateApproaching S p e c)
               else if e_approaching e then Returns (stopApproaching e c) else Returns (e, c)) = Returns y \<and> idle (e, c) y"
      using updateApproaching_idle [OF Cons.prems(1), of p e c] idle_approaching [of e c] by (auto simp del: split_paired_Ex)
    then obtain e1 c1 where a: "(if rcontains_point (e_approachGeometry e) p
               then (if \<not> e_approaching e then Returns (startApproaching e c) else updateApproaching S p e c)
               else if e_approaching e then Returns (stopApproaching e c) else Returns (e, c)) = Returns (e1, c1)" "idle (e, c) (e1, c1)" by force
    have n1: "e_client e1 = None" using idle_client [OF a(2)] Cons.prems by simp
    obtain hit e2 c2 where k: "(if rcontains_point (e_geometry e1) p then edge_check S E p t False e1 c1 else (False, e1, c1)) = (hit, e2, c2)" by (metis prod_cases3)
    have "idle (e1, c1) (e2, c2)" using k idle_check [OF n1, of S E p t False c1] by (auto simp: idle_def split: if_splits)
    then have i2: "idle (e, c) (e2, c2)" using idle_trans [OF a(2)] by blast
    have n2: "e_client e2 = None" using idle_client [OF i2] Cons.prems by simp
    obtain es' c' where r: "entered_loop S E p t es c2 = Returns (False, es', c')" "idle_all (es, c2) (es', c')" using IH by blast
    then show ?thesis using False a(1) k n2 idle_all_Cons [OF i2] by auto
  qed
qed (simp add: idle_all_def)

lemma map_core_mem:
  assumes "map core es' = map core es" and "map e_blocked es' = map e_blocked es" and "e' \<in> set es'"
  shows "\<exists>e \<in> set es. core e' = core e \<and> e_blocked e' = e_blocked e"
proof -
  have l: "length es' = length es" using assms(1) by (rule map_eq_imp_length_eq)
  obtain i where i: "i < length es'" "e' = es' ! i" using assms(3) by (metis in_set_conv_nth)
  have "map core es' ! i = map core es ! i" "map e_blocked es' ! i = map e_blocked es ! i" using assms(1,2) by simp_all
  then show ?thesis using i l by (intro bexI [of _ "es ! i"]) simp_all
qed

lemma idle_all_ok:
  assumes "edges_ok S" and "idle_all (se_edges S, se_ctx S) (es, c)"
  shows "edges_ok (S\<lparr>se_edges := es, se_ctx := c\<rparr>)"
proof -
  have i: "map core es = map core (se_edges S)" "map e_blocked es = map e_blocked (se_edges S)" "ec_gestures c = ec_gestures (se_ctx S)"
    using assms(2) by (simp_all add: idle_all_def)
  have "map (fst \<circ> core) es = map (fst \<circ> core) (se_edges S)" using arg_cong [OF i(1), of "map fst"] by simp
  then have ids: "map e_id es = map e_id (se_edges S)" by (simp add: core_def comp_def)
  have "e_id e < se_next S \<and> reg_ok c e \<and> balanced (se_action S) (touch_action S) (desk_reason S) (\<lambda>_. 0) e" if e: "e \<in> set es" for e
  proof -
    obtain d where d: "d \<in> set (se_edges S)" "core e = core d" "e_blocked e = e_blocked d" using map_core_mem [OF i(1,2) e] by blast
    have "reg_ok c e = reg_ok (se_ctx S) d"
      using d(2,3) activates_core [OF d(2,3)] i(3) by (simp add: reg_ok_def registered_def core_iff)
    moreover have "e_id e = e_id d" using d(2) by (simp add: core_iff)
    ultimately show ?thesis using d assms(1) balanced_core [OF d(2)] by (auto simp: edges_ok_def edges_struct_def)
  qed
  then show ?thesis using ids i(3) assms(1) by (auto simp: edges_ok_def edges_struct_def)
qed

lemma edges_ok_plain: "edges_ok S \<Longrightarrow> \<forall>e \<in> set (se_edges S). e_client e = None \<and> e_touchActions e = []"
  by (auto simp: edges_ok_def edges_struct_def reg_ok_def)

lemma edges_check_ok:
  assumes "edges_ok S"
  shows "edges_ok (edges_check E p t force S)"
proof -
  obtain es c where r: "check_loop S E p t force (se_edges S) False (se_ctx S) = (es, c)" by fastforce
  have "idle_all (se_edges S, se_ctx S) (es, c)" using idle_check_loop [of "se_edges S"] edges_ok_plain [OF assms] r by metis
  then show ?thesis using idle_all_ok [OF assms] r by (simp add: edges_check_def)
qed

lemma isEntered_ok:
  assumes "edges_ok S" and "0 < es_cornerOffset S"
  shows "\<exists>S'. isEntered E m p t S = Returns (False, S') \<and> edges_ok S'"
proof (cases m)
  case True
  obtain es c where r: "entered_loop S E p t (se_edges S) (se_ctx S) = Returns (False, es, c)" "idle_all (se_edges S, se_ctx S) (es, c)"
    using idle_entered_loop [OF assms(2), of "se_edges S"] edges_ok_plain [OF assms(1)] by blast
  then show ?thesis using True idle_all_ok [OF assms(1) r(2)] by (simp add: isEntered_def)
qed (use assms in \<open>simp add: isEntered_def\<close>)

section \<open>New edges\<close>

lemma edge_setGeometry_ok:
  assumes "gr_store (ec_gestures c) (e_id e) \<noteq> None" and "0 \<le> rwidth g" "0 \<le> rheight g"
  shows "\<exists>e' c'. edge_setGeometry S E g e c = Returns (e', c') \<and> core e' = core e \<and> e_blocked e' = e_blocked e \<and>
    gr_gestures (ec_gestures c') = gr_gestures (ec_gestures c)"
  using assms by (auto simp: edge_setGeometry_def setStartGeometry_def Let_def core_iff)

text \<open>A step that may be left out: what it does to the edge, and that it leaves the other gestures alone.\<close>

definition other_gestures :: "addr \<Rightarrow> edge_ctx \<Rightarrow> edge_ctx \<Rightarrow> bool" where
  "other_gestures a c c' \<longleftrightarrow> (\<forall>x. x \<noteq> a \<longrightarrow> (x \<in> set (gr_gestures (ec_gestures c')) \<longleftrightarrow> x \<in> set (gr_gestures (ec_gestures c))))"

lemma other_gestures_trans: "other_gestures a c d \<Longrightarrow> other_gestures a d f \<Longrightarrow> other_gestures a c f"
  by (simp add: other_gestures_def)

lemma only_other: "only_gesture a c c' \<Longrightarrow> other_gestures a c c'"
  by (simp add: only_gesture_def other_gestures_def)

context edge_op
begin

lemma maybe:
  assumes "reg_ok c e" and "go \<Longrightarrow> pre e"
  shows "\<exists>e' c'. (if go then f e c else Returns (e, c)) = Returns (e', c') \<and> core e' = core (if go then upd e else e) \<and> reg_ok c' e' \<and>
    other_gestures (e_id e) c c'"
  using op [OF assms(1)] assms only_other by (cases go) (auto simp: other_gestures_def only_gesture_def)

end

lemma reserve_action_op: "edge_op (\<lambda>e c. obind (edge_reserve e c) (\<lambda>(e, c). Returns (edge_setAction a e, c))) (\<lambda>_. True)
    (\<lambda>e. e\<lparr>e_reserved := e_reserved e + 1, e_action := a\<rparr>)"
proof
  fix e c assume "reg_ok c e"
  from resv.op [OF this TrueI] obtain e1 c1 where r: "edge_reserve e c = Returns (e1, c1)" "core e1 = core (e\<lparr>e_reserved := e_reserved e + 1\<rparr>)"
    "reg_ok c1 e1" "only_gesture (e_id e) c c1" by blast
  have "core (edge_setAction a e1) = core (e\<lparr>e_reserved := e_reserved e + 1, e_action := a\<rparr>)" using r(2) by (simp add: core_iff edge_setAction_def)
  moreover have "reg_ok c1 (edge_setAction a e1)" using r(3) by (simp add: edge_setAction_def reg_ok_def registered_def activatesForTouchGesture_def)
  ultimately show "\<exists>e' c'. obind (edge_reserve e c) (\<lambda>(e, c). Returns (edge_setAction a e, c)) = Returns (e', c') \<and>
      core e' = core (e\<lparr>e_reserved := e_reserved e + 1, e_action := a\<rparr>) \<and> reg_ok c' e' \<and> only_gesture (e_id e) c c'"
    using r(1,4) by simp
qed simp

lemma reserve_touch_op: "edge_op (\<lambda>e c. obind (edge_reserve e c) (\<lambda>(e, c). setTouchAction a e c)) (\<lambda>_. True)
    (\<lambda>e. e\<lparr>e_reserved := e_reserved e + 1, e_touchAction := a\<rparr>)"
proof
  fix e c assume "reg_ok c e"
  from resv.op [OF this TrueI] obtain e1 c1 where r: "edge_reserve e c = Returns (e1, c1)" "core e1 = core (e\<lparr>e_reserved := e_reserved e + 1\<rparr>)"
    "reg_ok c1 e1" "only_gesture (e_id e) c c1" by blast
  from touch.op [OF r(3) TrueI, of a] obtain e2 c2 where t: "setTouchAction a e1 c1 = Returns (e2, c2)" "core e2 = core (e1\<lparr>e_touchAction := a\<rparr>)"
    "reg_ok c2 e2" "only_gesture (e_id e1) c1 c2" by blast
  have "core e2 = core (e\<lparr>e_reserved := e_reserved e + 1, e_touchAction := a\<rparr>)" "e_id e1 = e_id e" using r(2) t(2) by (simp_all add: core_iff)
  then show "\<exists>e' c'. obind (edge_reserve e c) (\<lambda>(e, c). setTouchAction a e c) = Returns (e', c') \<and>
      core e' = core (e\<lparr>e_reserved := e_reserved e + 1, e_touchAction := a\<rparr>) \<and> reg_ok c' e' \<and> only_gesture (e_id e) c c'"
    using r(1,4) t(1,3,4) only_gesture_trans by auto
qed simp

lemma createEdge_ok:
  assumes "\<forall>x \<in> set (gr_gestures (ec_gestures (se_ctx S))). x < se_next S" and "0 \<le> rwidth g" "0 \<le> rheight g"
    and "es_desktopSwitching S \<longrightarrow> se_layout S \<noteq> (False, False)"
  shows "\<exists>e c. createEdge E b g True S = Returns (e, S\<lparr>se_ctx := c, se_next := se_next S + 1\<rparr>) \<and> reg_ok c e \<and> e_id e = se_next S \<and>
    balanced (se_action S) (touch_action S) (desk_reason S) (\<lambda>_. 0) e \<and> e_callBacks e = [] \<and> other_gestures (se_next S) (se_ctx S) c"
proof -
  let ?n = "se_next S" and ?N = ElectricActionNone
  obtain e0 c0 where n: "new_edge ?n b (se_ctx S) = (e0, c0)" by fastforce
  have e0: "e_id e0 = ?n" "e_border e0 = b" "e_action e0 = ?N" "e_touchAction e0 = ?N" "e_reserved e0 = 0" "e_callBacks e0 = []" "e_touchActions e0 = []"
    "e_client e0 = None" "gr_gestures (ec_gestures c0) = gr_gestures (ec_gestures (se_ctx S))" "gr_store (ec_gestures c0) (e_id e0) \<noteq> None"
    using n by (auto simp: new_edge_def)
  obtain e1 c1 where g: "edge_setGeometry S E g e0 c0 = Returns (e1, c1)" "core e1 = core e0" "gr_gestures (ec_gestures c1) = gr_gestures (ec_gestures c0)"
    using edge_setGeometry_ok [OF e0(10) assms(2,3)] by blast
  have id1: "e_id e1 = ?n" using g(2) e0(1) by (simp add: core_iff)
  have ok1: "reg_ok c1 e1" using g e0 assms(1) by (auto simp: reg_ok_def registered_def core_iff)
  obtain e2 c2 where a: "(if True \<and> se_action S b \<noteq> ?N then obind (edge_reserve e1 c1) (\<lambda>(e, c). Returns (edge_setAction (se_action S b) e, c)) else Returns (e1, c1)) = Returns (e2, c2)"
    "core e2 = core (if True \<and> se_action S b \<noteq> ?N then e1\<lparr>e_reserved := e_reserved e1 + 1, e_action := se_action S b\<rparr> else e1)" "reg_ok c2 e2" "other_gestures ?n c1 c2"
    using edge_op.maybe [OF reserve_action_op ok1, of "True \<and> se_action S b \<noteq> ?N" "se_action S b"] id1 by auto
  have id2: "e_id e2 = ?n" using a(2) id1 by (simp add: core_iff split: if_splits)
  obtain e3 c3 where t: "(if True \<and> touch_action S b \<noteq> ?N then obind (edge_reserve e2 c2) (\<lambda>(e, c). setTouchAction (touch_action S b) e c) else Returns (e2, c2)) = Returns (e3, c3)"
    "core e3 = core (if True \<and> touch_action S b \<noteq> ?N then e2\<lparr>e_reserved := e_reserved e2 + 1, e_touchAction := touch_action S b\<rparr> else e2)" "reg_ok c3 e3" "other_gestures ?n c2 c3"
    using edge_op.maybe [OF reserve_touch_op a(3), of "True \<and> touch_action S b \<noteq> ?N" "touch_action S b"] id2 by auto
  have id3: "e_id e3 = ?n" using t(2) id2 by (simp add: core_iff split: if_splits)
  let ?d = "es_desktopSwitching S \<and> switches (se_layout S) b"
  obtain e4 c4 where d: "(if ?d then edge_reserve e3 c3 else Returns (e3, c3)) = Returns (e4, c4)"
    "core e4 = core (if ?d then e3\<lparr>e_reserved := e_reserved e3 + 1\<rparr> else e3)" "reg_ok c4 e4" "other_gestures ?n c3 c4"
    using resv.maybe [OF t(3), of ?d] id3 by auto
  have "other_gestures ?n (se_ctx S) c4"
    using a(4) t(4) d(4) g(3) e0(9) by (simp add: other_gestures_def)
  moreover have "e_id e4 = ?n \<and> e_callBacks e4 = [] \<and> balanced (se_action S) (touch_action S) (desk_reason S) (\<lambda>_. 0) e4"
    using d(2) t(2) a(2) g(2) e0 assms(4) by (auto simp: core_iff balanced_def desk_reason_def split: if_splits)
  ultimately show ?thesis using n g(1) a(1) t(1) d(1,3) assms(2,3) by (auto simp: createEdge_def)
qed

text \<open>What holds while \<open>recreateEdges\<close> adds edges: \<open>S0\<close> are the edges before.\<close>

definition creating :: "screen_edges \<Rightarrow> screen_edges \<Rightarrow> bool" where
  "creating S0 S \<longleftrightarrow> edges_struct S \<and> se_action S = se_action S0 \<and> se_touchActions S = se_touchActions S0 \<and> se_layout S = se_layout S0 \<and>
     es_desktopSwitching S = es_desktopSwitching S0 \<and> es_cornerOffset S = es_cornerOffset S0 \<and>
     (\<forall>e \<in> set (se_edges S). balanced (se_action S0) (touch_action S0) (desk_reason S0) (\<lambda>_. 0) e \<and> e_callBacks e = [] \<and> se_next S0 \<le> e_id e) \<and>
     se_next S0 \<le> se_next S"

definition may_create :: "screen_edges \<Rightarrow> bool" where
  "may_create S \<longleftrightarrow> (es_desktopSwitching S \<longrightarrow> se_layout S \<noteq> (False, False)) \<and> 0 \<le> es_cornerOffset S"

lemma creating_settings:
  "creating S0 S \<Longrightarrow> touch_action S = touch_action S0 \<and> desk_reason S = desk_reason S0 \<and> se_action S = se_action S0"
  by (simp add: creating_def touch_action_def desk_reason_def fun_eq_iff)

lemma add_edge_creating:
  assumes "creating S0 S" and "may_create S0" and "0 \<le> rwidth g" "0 \<le> rheight g"
  shows "\<exists>S'. add_edge E b g S = Returns S' \<and> creating S0 S'"
proof -
  have str: "edges_struct S" using assms(1) by (simp add: creating_def)
  have "\<forall>x \<in> set (gr_gestures (ec_gestures (se_ctx S))). x < se_next S" using str by (simp add: edges_struct_def)
  moreover have "es_desktopSwitching S \<longrightarrow> se_layout S \<noteq> (False, False)" using assms(1,2) by (simp add: creating_def may_create_def)
  ultimately obtain e c where e: "createEdge E b g True S = Returns (e, S\<lparr>se_ctx := c, se_next := se_next S + 1\<rparr>)" "reg_ok c e" "e_id e = se_next S"
    "balanced (se_action S) (touch_action S) (desk_reason S) (\<lambda>_. 0) e" "e_callBacks e = []" "other_gestures (se_next S) (se_ctx S) c"
    using createEdge_ok [OF _ assms(3,4)] by blast
  let ?S = "S\<lparr>se_ctx := c, se_next := se_next S + 1, se_edges := se_edges S @ [e]\<rparr>"
  have old: "reg_ok c d" "e_id d < se_next S" if "d \<in> set (se_edges S)" for d
  proof -
    have d: "e_id d < se_next S" "reg_ok (se_ctx S) d" using that str by (auto simp: edges_struct_def)
    then show "e_id d < se_next S" "reg_ok c d" using e(6) by (auto simp: reg_ok_def registered_def other_gestures_def)
  qed
  have g: "x < se_next S + 1" if "x \<in> set (gr_gestures (ec_gestures c))" for x
    using that e(6) str by (cases "x = se_next S") (auto simp: other_gestures_def edges_struct_def)
  have "e_id e \<notin> e_id ` set (se_edges S)" using old(2) e(3) by fastforce
  then have "distinct (map e_id (se_edges S @ [e]))" using str by (simp add: edges_struct_def)
  then have "edges_struct ?S" using old g e(2,3) by (force simp: edges_struct_def)
  moreover have "creating S0 S \<Longrightarrow> edges_struct ?S \<Longrightarrow> creating S0 ?S"
    using e(3,4,5) creating_settings [OF assms(1)] by (auto simp: creating_def)
  ultimately show ?thesis using e(1) assms(1) by (simp add: add_edge_def)
qed

lemma createVerticalEdge_creating:
  assumes "creating S0 S" and "may_create S0"
  shows "\<exists>S'. createVerticalEdge E screens b part full S = Returns S' \<and> creating S0 S'"
proof -
  have off: "0 \<le> es_cornerOffset S" using assms by (simp add: creating_def may_create_def)
  have one: "\<exists>S'. (if go then add_edge E b' (mk_rect x y 1 1) T else Returns T) = Returns S' \<and> creating S0 S'" if "creating S0 T" for go b' x y T
    using add_edge_creating [OF that assms(2), of "mk_rect x y 1 1" E b'] that by (simp add: mk_rect_def rwidth_def rheight_def)
  have long: "\<exists>S'. (if h \<le> es_cornerOffset S then Returns T else add_edge E b (mk_rect x y 1 h) T) = Returns S' \<and> creating S0 S'" if "creating S0 T" for x y h T
    using add_edge_creating [OF that assms(2), of "mk_rect x y 1 h" E b] that off by (simp add: mk_rect_def rwidth_def rheight_def)
  show ?thesis
  proof (cases "b \<noteq> ElectricRight \<and> b \<noteq> ElectricLeft")
    case False
    let ?x = "if b = ElectricLeft then rleft part else rleft part + rwidth part - 1"
    obtain S1 where S1: "(if isTopScreen screens part full then add_edge E (if b = ElectricLeft then ElectricTopLeft else ElectricTopRight) (mk_rect ?x (rtop part) 1 1) S else Returns S) = Returns S1"
      "creating S0 S1" using one [OF assms(1)] by blast
    obtain S2 where S2: "(if isBottomScreen screens part full then add_edge E (if b = ElectricLeft then ElectricBottomLeft else ElectricBottomRight) (mk_rect ?x (rtop part + rheight part - 1) 1 1) S1 else Returns S1) = Returns S2"
      "creating S0 S2" using one [OF S1(2)] by blast
    show ?thesis unfolding createVerticalEdge_def Let_def using False S1(1) S2 long [OF S2(2)] by (simp only: obind.simps if_False)
  qed (use assms in \<open>simp add: createVerticalEdge_def\<close>)
qed

lemma createHorizontalEdge_creating:
  assumes "creating S0 S" and "may_create S0"
  shows "\<exists>S'. createHorizontalEdge E screens b part full S = Returns S' \<and> creating S0 S'"
proof -
  have off: "0 \<le> es_cornerOffset S" using assms by (simp add: creating_def may_create_def)
  have "\<exists>S'. (if w \<le> es_cornerOffset S then Returns S else add_edge E b (mk_rect x y w 1) S) = Returns S' \<and> creating S0 S'" for x y w
    using add_edge_creating [OF assms, of "mk_rect x y w 1" E b] assms(1) off by (simp add: mk_rect_def rwidth_def rheight_def)
  note step = this
  show ?thesis
  proof (cases "b \<noteq> ElectricTop \<and> b \<noteq> ElectricBottom")
    case False
    show ?thesis unfolding createHorizontalEdge_def Let_def if_not_P [OF False] by (rule step)
  qed (use assms in \<open>simp add: createHorizontalEdge_def\<close>)
qed

lemma create_edges_creating:
  assumes "creating S0 S" and "may_create S0"
  shows "\<exists>S'. create_edges E screens full part S = Returns S' \<and> creating S0 S'"
proof -
  note v = createVerticalEdge_creating [OF _ assms(2)] and h = createHorizontalEdge_creating [OF _ assms(2)]
  have may: "\<exists>T. (if go then f else Returns U) = Returns T \<and> creating S0 T" if "\<exists>T. f = Returns T \<and> creating S0 T" "creating S0 U" for go f U
    using that by (cases go) auto
  obtain S1 where S1: "(if isLeftScreen screens part full then createVerticalEdge E screens ElectricLeft part full S else Returns S) = Returns S1" "creating S0 S1"
    using may [OF v [OF assms(1)] assms(1)] by blast
  obtain S2 where S2: "(if isRightScreen screens part full then createVerticalEdge E screens ElectricRight part full S1 else Returns S1) = Returns S2" "creating S0 S2"
    using may [OF v [OF S1(2)] S1(2)] by blast
  obtain S3 where S3: "(if isTopScreen screens part full then createHorizontalEdge E screens ElectricTop part full S2 else Returns S2) = Returns S3" "creating S0 S3"
    using may [OF h [OF S2(2)] S2(2)] by blast
  obtain S4 where S4: "(if isBottomScreen screens part full then createHorizontalEdge E screens ElectricBottom part full S3 else Returns S3) = Returns S4" "creating S0 S4"
    using may [OF h [OF S3(2)] S3(2)] by blast
  show ?thesis using S4(2) unfolding create_edges_def S1(1) obind.simps S2(1) S3(1) S4(1) by blast
qed

section \<open>Recreating the edges\<close>

definition copied :: "edge list \<Rightarrow> border \<Rightarrow> (addr \<times> string) list" where
  "copied old b = concat (map e_callBacks (filter (at_border b) old))"

lemma reserve_objects:
  "reg_ok c e \<Longrightarrow> distinct (map fst (e_callBacks e @ xs)) \<Longrightarrow>
   \<exists>e' c'. ofold (\<lambda>(ob, slot) (e, c). edge_reserve_object ob slot e c) xs (e, c) = Returns (e', c') \<and>
     core e' = core (e\<lparr>e_callBacks := e_callBacks e @ xs, e_reserved := e_reserved e + int (length xs)\<rparr>) \<and> reg_ok c' e' \<and> only_gesture (e_id e) c c'"
proof (induction xs arbitrary: e c)
  case (Cons x xs)
  obtain ob slot where x: "x = (ob, slot)" by (cases x)
  have new: "ob \<notin> fst ` set (e_callBacks e)" using Cons.prems(2) x by auto
  from resvob.op [OF Cons.prems(1) TrueI, of ob slot] new obtain e1 c1 where
    r: "edge_reserve_object ob slot e c = Returns (e1, c1)" "core e1 = core (e\<lparr>e_callBacks := e_callBacks e @ [x], e_reserved := e_reserved e + 1\<rparr>)"
      "reg_ok c1 e1" "only_gesture (e_id e) c c1" by (auto simp: AList_update_new x)
  have e1: "e_callBacks e1 = e_callBacks e @ [x]" "e_id e1 = e_id e" using r(2) by (simp_all add: core_iff)
  then have "distinct (map fst (e_callBacks e1 @ xs))" using Cons.prems(2) by simp
  from Cons.IH [OF r(3) this] obtain e' c' where
    "ofold (\<lambda>(ob, slot) (e, c). edge_reserve_object ob slot e c) xs (e1, c1) = Returns (e', c')"
    "core e' = core (e1\<lparr>e_callBacks := e_callBacks e1 @ xs, e_reserved := e_reserved e1 + int (length xs)\<rparr>)" "reg_ok c' e'" "only_gesture (e_id e1) c1 c'" by blast
  moreover have "core (e1\<lparr>e_callBacks := e_callBacks e1 @ xs, e_reserved := e_reserved e1 + int (length xs)\<rparr>) =
      core (e\<lparr>e_callBacks := e_callBacks e @ x # xs, e_reserved := e_reserved e + int (length (x # xs))\<rparr>)" using r(2) by (simp add: core_iff)
  ultimately show ?case using r(1,4) x e1(2) only_gesture_trans by auto
qed (simp add: core_iff)

lemma copy_edges:
  "reg_ok c e \<Longrightarrow> \<forall>d \<in> set old. e_client d = None \<and> e_touchActions d = [] \<Longrightarrow> distinct (map fst (e_callBacks e @ copied old (e_border e))) \<Longrightarrow>
   \<exists>e' c'. ofold copy_edge old (e, c) = Returns (e', c') \<and>
     core e' = core (e\<lparr>e_callBacks := e_callBacks e @ copied old (e_border e), e_reserved := e_reserved e + int (length (copied old (e_border e)))\<rparr>) \<and>
     reg_ok c' e' \<and> only_gesture (e_id e) c c'"
proof (induction old arbitrary: e c)
  case (Cons d old)
  show ?case
  proof (cases "e_border d = e_border e")
    case False
    then have "copied (d # old) (e_border e) = copied old (e_border e)" by (simp add: copied_def)
    then show ?thesis using Cons.IH [of c e] Cons.prems False by (simp add: copy_edge_def)
  next
    case True
    then have cp: "copied (d # old) (e_border e) = e_callBacks d @ copied old (e_border e)" by (simp add: copied_def)
    then have "distinct (map fst (e_callBacks e @ e_callBacks d))" using Cons.prems(3) by (simp add: Int_Un_distrib)
    from reserve_objects [OF Cons.prems(1) this] obtain e1 c1 where
      r: "ofold (\<lambda>(ob, slot) (e, c). edge_reserve_object ob slot e c) (e_callBacks d) (e, c) = Returns (e1, c1)"
        "core e1 = core (e\<lparr>e_callBacks := e_callBacks e @ e_callBacks d, e_reserved := e_reserved e + int (length (e_callBacks d))\<rparr>)"
        "reg_ok c1 e1" "only_gesture (e_id e) c c1" by blast
    have e1: "e_callBacks e1 = e_callBacks e @ e_callBacks d" "e_border e1 = e_border e" "e_id e1 = e_id e" using r(2) by (simp_all add: core_iff)
    then have "distinct (map fst (e_callBacks e1 @ copied old (e_border e1)))" using Cons.prems(3) cp by simp
    from Cons.IH [OF r(3) _ this] Cons.prems(2) obtain e' c' where
      s: "ofold copy_edge old (e1, c1) = Returns (e', c')"
        "core e' = core (e1\<lparr>e_callBacks := e_callBacks e1 @ copied old (e_border e1), e_reserved := e_reserved e1 + int (length (copied old (e_border e1)))\<rparr>)"
        "reg_ok c' e'" "only_gesture (e_id e1) c1 c'" by auto
    have "copy_edge d (e, c) = Returns (e1, c1)" using r(1) True Cons.prems(2) by (simp add: copy_edge_def)
    moreover have "core e' = core (e\<lparr>e_callBacks := e_callBacks e @ copied (d # old) (e_border e), e_reserved := e_reserved e + int (length (copied (d # old) (e_border e)))\<rparr>)"
      using s(2) r(2) cp e1 by (simp add: core_iff)
    ultimately show ?thesis using s(1,3,4) r(4) e1(3) only_gesture_trans by auto
  qed
qed (simp add: core_iff copied_def)

lemma delete_gestures: "set (gr_gestures (ec_gestures (fold delete_edge old c))) = set (gr_gestures (ec_gestures c)) - e_id ` set old"
  by (induction old arbitrary: c) (auto simp: delete_edge_def unregisterGesture_def gr_emit_def Let_def)

lemma recreateEdges_ok:
  assumes "edges_ok S" and "may_create S" and "\<And>b. distinct (map fst (copied (se_edges S) b))"
  shows "\<exists>S'. recreateEdges E screens full parts S = Returns S' \<and> edges_ok S'"
proof -
  let ?old = "se_edges S" and ?Q = "balanced (se_action S) (touch_action S) (desk_reason S) (\<lambda>_. 0)"
  have "creating S (S\<lparr>se_edges := []\<rparr>)" using assms(1) by (simp add: creating_def edges_ok_def edges_struct_def)
  then have "\<exists>S1. ofold (create_edges E screens full) parts (S\<lparr>se_edges := []\<rparr>) = Returns S1 \<and> creating S S1"
    by (rule ofold_returns [rotated]) (rule create_edges_creating [OF _ assms(2)])
  then obtain S1 where S1: "ofold (create_edges E screens full) parts (S\<lparr>se_edges := []\<rparr>) = Returns S1" "creating S S1" by blast
  have plain: "\<forall>d \<in> set ?old. e_client d = None \<and> e_touchActions d = []" by (rule edges_ok_plain [OF assms(1)])
  let ?upd = "\<lambda>e. e\<lparr>e_callBacks := e_callBacks e @ copied ?old (e_border e), e_reserved := e_reserved e + int (length (copied ?old (e_border e)))\<rparr>"
  have op: "edge_op (\<lambda>e c. ofold copy_edge ?old (e, c)) (\<lambda>e. e_callBacks e = []) ?upd"
  proof
    fix e c assume e: "reg_ok c e" "e_callBacks e = []"
    then have "distinct (map fst (e_callBacks e @ copied ?old (e_border e)))" using assms(3) by simp
    from copy_edges [OF e(1) plain this] show "\<exists>e' c'. ofold copy_edge ?old (e, c) = Returns (e', c') \<and> core e' = core (?upd e) \<and> reg_ok c' e' \<and> only_gesture (e_id e) c c'" .
  qed simp
  have "\<exists>S2. on_edges (\<lambda>_. True) (\<lambda>e c. ofold copy_edge ?old (e, c)) S1 = Returns S2 \<and> edges_struct S2 \<and>
      (\<forall>e \<in> set (se_edges S2). ?Q e \<and> se_next S \<le> e_id e) \<and> same_settings S1 S2"
    by (rule edge_op.on_edges_all [OF op, where Q = "\<lambda>e. ?Q e \<and> e_callBacks e = [] \<and> se_next S \<le> e_id e"])
      (use S1(2) assms(3) in \<open>auto simp: creating_def balanced_def core_iff\<close>)
  then obtain S2 where S2: "on_edges (\<lambda>_. True) (\<lambda>e c. ofold copy_edge ?old (e, c)) S1 = Returns S2" "edges_struct S2"
    "\<forall>e \<in> set (se_edges S2). ?Q e \<and> se_next S \<le> e_id e" "same_settings S1 S2" by blast
  let ?S = "S2\<lparr>se_ctx := fold delete_edge ?old (se_ctx S2)\<rparr>"
  have fresh: "e_id e \<notin> e_id ` set ?old" if "e \<in> set (se_edges S2)" for e
    using S2(3) that assms(1) by (fastforce simp: edges_ok_def edges_struct_def)
  have "reg_ok (se_ctx ?S) e" if "e \<in> set (se_edges S2)" for e
    using S2(2) that fresh [OF that] by (simp add: edges_struct_def reg_ok_def registered_def delete_gestures)
  then have str: "edges_struct ?S" using S2(2) by (auto simp: edges_struct_def delete_gestures)
  have "edges_ok ?S"
    by (rule edges_okI [OF str, of "se_action S" "touch_action S" "desk_reason S" "\<lambda>_. 0"])
      (use S2(3) same_settingsD [OF S2(4)] creating_settings [OF S1(2)] in simp_all)
  then show ?thesis using S1(1) S2(1) by (simp add: recreateEdges_def Let_def)
qed

section \<open>Reservations are balanced\<close>

text \<open>
  The operations of \<open>ScreenEdges\<close> on edges without windows and without touch callbacks. An object reserves a border once, and
  before the edges are recreated no object has reserved several edges of one border.
\<close>

inductive edges_step :: "screen_edges \<Rightarrow> screen_edges outcome \<Rightarrow> bool" where
  "edges_step S (setActionForBorder b a S)"
| "edges_step S (setActionForTouchBorder b a S)"
| "edges_step S (setDesktopSwitching d S)"
| "edges_step S (updateLayout g S)"
| "\<forall>e \<in> set (se_edges S). e_border e = b \<longrightarrow> ob \<notin> fst ` set (e_callBacks e) \<Longrightarrow> edges_step S (edges_reserve b ob slot S)"
| "edges_step S (edges_unreserve b ob S)"
| "edges_step S (edges_checkBlocking E S)"
| "edges_step S (Returns (edges_check E p t force S))"
| "0 < es_cornerOffset S \<Longrightarrow> edges_step S (obind (isEntered E m p t S) (\<lambda>(_, S'). Returns S'))"
| "may_create S \<Longrightarrow> (\<And>b. distinct (map fst (copied (se_edges S) b))) \<Longrightarrow> edges_step S (recreateEdges E screens full parts S)"

inductive edges_reach :: "screen_edges \<Rightarrow> bool" where
  "se_edges S = [] \<Longrightarrow> gr_gestures (ec_gestures (se_ctx S)) = [] \<Longrightarrow> edges_reach S"
| "edges_reach S \<Longrightarrow> edges_step S (Returns S') \<Longrightarrow> edges_reach S'"

lemma edges_step_ok: "edges_step S r \<Longrightarrow> edges_ok S \<Longrightarrow> \<exists>S'. r = Returns S' \<and> edges_ok S'"
proof (induction rule: edges_step.induct)
  case (9 S E m p t)
  from isEntered_ok [OF 9(2,1), of E m p t] show ?case by auto
qed (auto intro: setActionForBorder_ok setActionForTouchBorder_ok setDesktopSwitching_ok updateLayout_ok edges_reserve_ok
    edges_unreserve_ok edges_checkBlocking_ok edges_check_ok recreateEdges_ok)

lemma edges_reach_ok: "edges_reach S \<Longrightarrow> edges_ok S"
proof (induction rule: edges_reach.induct)
  case (1 S)
  then show ?case by (simp add: edges_ok_def edges_struct_def)
qed (use edges_step_ok in blast)


definition demo_recog :: recognizer where
  "demo_recog = \<lparr>gr_store = (\<lambda>_. None), gr_gestures = [], gr_active = [], gr_updates = [], gr_log = []\<rparr>"

definition no_edges :: screen_edges where
  "no_edges = \<lparr>es_desktopSwitching = False, es_desktopSwitchingMovingClients = False, es_cursorPushBackDistance = (1, 1), es_timeThreshold = 150,
     es_reActivationThreshold = 350, es_cornerOffset = 32, se_edges = [], se_layout = (False, False), se_action = (\<lambda>_. ElectricActionNone),
     se_touchActions = (\<lambda>_. None), se_ctx = \<lparr>ec_gestures = demo_recog, ec_log = []\<rparr>, se_next = 0\<rparr>"

definition demo_edge_env :: edge_env where
  "demo_edge_env = \<lparr>ee_moveResize = None, ee_fullscreen = None, ee_callback = (\<lambda>_ _. True), ee_current = 1, ee_toLeft = id, ee_toRight = id,
     ee_above = id, ee_below = id, ee_allowed = (\<lambda>_. True), ee_setCurrent = id, ee_screensSize = (1000, 600), ee_screenSizeAt = (\<lambda>_. (1000, 600))\<rparr>"


end
