(* ===== verification/Screen_Edges_Events.thy ===== *)
theory Screen_Edges_Events
  imports Screen_Edges_Properties
begin

text \<open>
  When the pointer activates an edge, and how near to the edge it is reported to be; where the reservations of
  \<open>ScreenEdges\<close> go wrong.
\<close>

section \<open>Activation needs time\<close>

text \<open>The checks of one edge with their times, the last one first, and whether each of them activated the edge.\<close>

fun edge_history :: "'s edge_settings_scheme \<Rightarrow> (edge_env \<times> point \<times> int) list \<Rightarrow> edge \<Rightarrow> edge_ctx \<Rightarrow> (int \<times> bool) list \<Rightarrow> (int \<times> bool) list" where
  "edge_history S [] e c H = H"
| "edge_history S ((E, p, t) # xs) e c H = (case edge_check S E p t False e c of (hit, e', c') \<Rightarrow> edge_history S xs e' c' ((t, hit) # H))"

text \<open>
  Every activation follows, after a delay between \<open>lo\<close> and \<open>hi\<close> and with no other activation in between, a check that did not activate
  the edge, and comes at least \<open>gap\<close> after every earlier activation.
\<close>

fun paced :: "int \<Rightarrow> int \<Rightarrow> int \<Rightarrow> (int \<times> bool) list \<Rightarrow> bool" where
  "paced lo hi gap [] \<longleftrightarrow> True"
| "paced lo hi gap ((t, hit) # H) \<longleftrightarrow> paced lo hi gap H \<and>
     (hit \<longrightarrow> (\<exists>k < length H. \<exists>r. H ! k = (r, False) \<and> lo \<le> t - r \<and> t - r \<le> hi \<and> (\<forall>m < k. \<not> snd (H ! m))) \<and>
       (\<forall>u. (u, True) \<in> set H \<longrightarrow> t - u \<ge> gap))"

text \<open>What an edge remembers of the earlier checks.\<close>

definition remembers_checks :: "int \<Rightarrow> edge \<Rightarrow> (int \<times> bool) list \<Rightarrow> bool" where
  "remembers_checks gap e H \<longleftrightarrow>
     (\<forall>r. e_lastReset e = Some r \<longrightarrow> (\<exists>k < length H. H ! k = (r, False) \<and> (\<forall>m < k. \<not> snd (H ! m)))) \<and>
     (\<forall>u. (u, True) \<in> set H \<longrightarrow> (\<exists>l. e_lastTrigger e = Some l \<and> l \<ge> u))"

lemma unreserve_times:
  "e_lastReset (fst (edge_unreserve e c)) = e_lastReset e" "e_lastTrigger (fst (edge_unreserve e c)) = e_lastTrigger e"
  by (simp_all add: edge_unreserve_def edge_deactivate_def unregister_gesture_def gesture_cancelled_def stopApproaching_def Let_def)

lemma switch_times:
  "e_lastReset (fst (switchDesktop E p e c)) = e_lastReset e" "e_lastTrigger (fst (switchDesktop E p e c)) = e_lastTrigger e"
proof -
  have "e_lastReset (fst (if a then (e, c) else if b then (e\<lparr>e_pushBackBlocked := True\<rparr>, x) else (e, y))) = e_lastReset e \<and>
    e_lastTrigger (fst (if a then (e, c) else if b then (e\<lparr>e_pushBackBlocked := True\<rparr>, x) else (e, y))) = e_lastTrigger e" for a b x y by simp
  then show "e_lastReset (fst (switchDesktop E p e c)) = e_lastReset e" "e_lastTrigger (fst (switchDesktop E p e c)) = e_lastTrigger e"
    unfolding switchDesktop_def Let_def by simp_all
qed

lemma handle_times:
  "e_lastReset (fst (edge_handle S E p e c)) = e_lastReset e \<and> e_lastTrigger (fst (edge_handle S E p e c)) = e_lastTrigger e"
  by (auto simp: edge_handle_def switch_times unreserve_times split: option.splits prod.splits)

lemma check_times:
  assumes "edge_check S E p t False e c = (hit, e', c')" and "e_client e = None" and "es_cursorPushBackDistance S \<noteq> (0, 0)"
  shows "if hit then e_lastTrigger e' = Some t \<and> e_lastReset e' = None \<and> \<not> in_cooldown S t e \<and>
      (\<exists>r. e_lastReset e = Some r \<and> es_timeThreshold S \<le> t - r \<and> t - r \<le> es_reActivationThreshold S)
    else e_lastTrigger e' = e_lastTrigger e \<and> (e_lastReset e' = e_lastReset e \<or> e_lastReset e' = Some t)"
proof -
  obtain ok e1 where k: "canActivate S p t e = (ok, e1)" by fastforce
  have e1: "e_lastTrigger e1 = e_lastTrigger e" "e_lastReset e1 = e_lastReset e \<or> e_lastReset e1 = Some t"
    using k by (auto simp: canActivate_def split: if_splits option.splits)
  have act: "\<exists>r. e_lastReset e = Some r \<and> es_timeThreshold S \<le> t - r \<and> t - r \<le> es_reActivationThreshold S" if ok
    using k that by (auto simp: canActivate_def not_less split: if_splits option.splits)
  show ?thesis
  proof (cases "\<not> triggersFor S E p e \<or> in_cooldown S t e")
    case True
    then show ?thesis using assms(1) by (auto simp: edge_check_def)
  next
    case False
    obtain e2 c2 where h: "edge_handle S E p (markAsTriggered p t e1) c = (e2, c2)" by fastforce
    have "e_lastReset e2 = None \<and> e_lastTrigger e2 = Some t"
      using handle_times [of S E p "markAsTriggered p t e1" c] h by (simp add: markAsTriggered_def)
    then show ?thesis using assms False k h e1 act by (cases ok) (auto simp: edge_check_def)
  qed
qed

lemma history_paced:
  assumes "es_timeThreshold S \<le> es_reActivationThreshold S" and "es_cursorPushBackDistance S \<noteq> (0, 0)" and "e_client e = None"
    and "paced (es_timeThreshold S) (es_reActivationThreshold S) (es_reActivationThreshold S - es_timeThreshold S) H"
    and "remembers_checks (es_reActivationThreshold S - es_timeThreshold S) e H"
  shows "paced (es_timeThreshold S) (es_reActivationThreshold S) (es_reActivationThreshold S - es_timeThreshold S) (edge_history S xs e c H)"
  using assms(3-5)
proof (induction xs arbitrary: e c H)
  case (Cons x xs)
  let ?lo = "es_timeThreshold S" and ?hi = "es_reActivationThreshold S" let ?gap = "?hi - ?lo"
  obtain E p t where x: "x = (E, p, t)" by (metis prod_cases3)
  obtain hit e' c' where k: "edge_check S E p t False e c = (hit, e', c')" by (metis prod_cases3)
  note ct = check_times [OF k Cons.prems(1) assms(2)] and old = Cons.prems(3) [unfolded remembers_checks_def]
  have client: "e_client e' = None" using idle_client [OF idle_check [OF Cons.prems(1) k] Cons.prems(1)] .
  have "paced ?lo ?hi ?gap ((t, hit) # H) \<and> remembers_checks ?gap e' ((t, hit) # H)"
  proof (cases hit)
    case True
    then obtain r where r: "e_lastReset e = Some r" "?lo \<le> t - r" "t - r \<le> ?hi" and cool: "\<not> in_cooldown S t e"
      and e': "e_lastTrigger e' = Some t" "e_lastReset e' = None" using ct by auto
    obtain j where j: "j < length H" "H ! j = (r, False)" "\<forall>m < j. \<not> snd (H ! m)" using old r(1) by blast
    have gap: "t - u \<ge> ?gap" if u: "(u, True) \<in> set H" for u
    proof -
      obtain l where "e_lastTrigger e = Some l" "l \<ge> u" using old u by blast
      then show ?thesis using cool by (simp add: in_cooldown_def)
    qed
    have "paced ?lo ?hi ?gap ((t, hit) # H)" unfolding paced.simps using j r(2,3) gap Cons.prems(2) by blast
    moreover have "remembers_checks ?gap e' ((t, hit) # H)"
    proof -
      have "t \<ge> u" if "(u, True) \<in> set H" for u using gap [OF that] assms(1) by linarith
      then show ?thesis using e' by (auto simp: remembers_checks_def)
    qed
    ultimately show ?thesis by blast
  next
    case False
    then have e': "e_lastTrigger e' = e_lastTrigger e" "e_lastReset e' = e_lastReset e \<or> e_lastReset e' = Some t" using ct by auto
    have "\<exists>k < length ((t, False) # H). ((t, False) # H) ! k = (r, False) \<and> (\<forall>m < k. \<not> snd (((t, False) # H) ! m))" if "e_lastReset e' = Some r" for r
    proof (cases "r = t")
      case True
      then show ?thesis by (intro exI [of _ 0]) simp
    next
      case False
      then have "e_lastReset e = Some r" using e'(2) that by auto
      then obtain j where "j < length H" "H ! j = (r, False)" "\<forall>m < j. \<not> snd (H ! m)" using old by blast
      then show ?thesis by (intro exI [of _ "Suc j"]) (auto simp: nth_Cons split: nat.splits)
    qed
    then show ?thesis using False Cons.prems(2) old e'(1) by (auto simp: remembers_checks_def)
  qed
  then show ?case using Cons.IH [OF client, of "(t, hit) # H" c'] x k by simp
qed simp

text \<open>
  With a push back of the cursor, an edge is activated only when the pointer came to the edge before, was pushed back, and comes again after
  the time threshold and before the reactivation threshold. Two activations of an edge are at least the difference of the two
  thresholds apart. The times of the checks may be in any order.
\<close>

theorem edge_activation_paced:
  assumes "es_timeThreshold S \<le> es_reActivationThreshold S" and "es_cursorPushBackDistance S \<noteq> (0, 0)"
    and "e_client e = None" "e_lastReset e = None" "e_lastTrigger e = None"
  shows "paced (es_timeThreshold S) (es_reActivationThreshold S) (es_reActivationThreshold S - es_timeThreshold S) (edge_history S xs e c [])"
  by (rule history_paced [OF assms(1-3)]) (use assms(4) in \<open>simp_all add: remembers_checks_def\<close>)

definition demo_edge :: "border \<Rightarrow> rect \<Rightarrow> edge" where
  "demo_edge b g = (fst (new_edge 0 b (se_ctx no_edges)))\<lparr>e_geometry := g, e_action := ElectricActionKRunner, e_reserved := 1\<rparr>"

theorem edge_activation_paced_witness:
  "edge_history no_edges [(demo_edge_env, (0, 0), 1000), (demo_edge_env, (0, 0), 1200)] (demo_edge ElectricTopLeft (mk_rect 0 0 1 1)) (se_ctx no_edges) [] =
     [(1200, True), (1000, False)] \<and>
   paced 150 350 200 (edge_history no_edges [(demo_edge_env, (0, 0), 1000), (demo_edge_env, (0, 0), 1200)] (demo_edge ElectricTopLeft (mk_rect 0 0 1 1)) (se_ctx no_edges) [])"
proof -
  have d: "e_client (demo_edge b g) = None" "e_lastReset (demo_edge b g) = None" "e_lastTrigger (demo_edge b g) = None" for b g
    by (simp_all add: demo_edge_def new_edge_def)
  have s: "es_timeThreshold no_edges = 150" "es_reActivationThreshold no_edges = 350" "es_cursorPushBackDistance no_edges \<noteq> (0, 0)" by (simp_all add: no_edges_def)
  have "edge_history no_edges [(demo_edge_env, (0, 0), 1000), (demo_edge_env, (0, 0), 1200)] (demo_edge ElectricTopLeft (mk_rect 0 0 1 1)) (se_ctx no_edges) [] =
     [(1200, True), (1000, False)]"
    by (simp add: edge_check_def triggersFor_def in_cooldown_def canActivate_def demo_edge_def new_edge_def no_edges_def demo_edge_env_def activatesForPointer_def
        border_defs mk_rect_def rwidth_def rheight_def rcontains_point_def rnorm_def edge_handle_def handleAction_def markAsTriggered_def manhattanLength_def DISTANCE_RESET_def)
  then show ?thesis using edge_activation_paced [of no_edges "demo_edge ElectricTopLeft (mk_rect 0 0 1 1)" "[(demo_edge_env, (0, 0), 1000), (demo_edge_env, (0, 0), 1200)]" "se_ctx no_edges"] d s by simp
qed

text \<open>
  \<open>reActivationThreshold\<close> is documented as the minimum time between triggers. Without push back an edge triggers twice within 200 of 350
  milliseconds.
\<close>

lemma triggers_before_threshold:
  "let S = no_edges\<lparr>es_cursorPushBackDistance := (0, 0)\<rparr> in
   edge_history S [(demo_edge_env, (0, 0), 1000), (demo_edge_env, (0, 0), 1200)] (demo_edge ElectricTopLeft (mk_rect 0 0 1 1)) (se_ctx S) [] =
     [(1200, True), (1000, True)] \<and> es_reActivationThreshold S = 350"
  by (simp add: Let_def edge_check_def triggersFor_def in_cooldown_def demo_edge_def new_edge_def no_edges_def demo_edge_env_def activatesForPointer_def
        border_defs mk_rect_def rwidth_def rheight_def rcontains_point_def rnorm_def edge_handle_def handleAction_def markAsTriggered_def)

section \<open>Approaching\<close>

lemma border_distance_bounds:
  assumes "0 < off" and "b \<noteq> ElectricNone" and "a = approach_rect off b g" and "rcontains_point a p"
  shows "\<exists>d. border_distance b a p = Some d \<and> 0 \<le> d \<and> d < off"
  using assms
  by (cases b) (auto simp: border_distance_def approach_rect_def border_defs approach_corner_distance_def mk_rect_def rcontains_point_def rnorm_def
      rwidth_def rheight_def Let_def split: if_splits)

text \<open>
  While the pointer is in the area before an edge or corner, the reported factor is between 1 and 256, and 256 exactly when the
  pointer is within a 256th part of the size of the corners from the edge.
\<close>

theorem approaching_factor_range:
  assumes "0 < es_cornerOffset S" and "e_border e \<noteq> ElectricNone" and "e_approachGeometry e = approach_rect (es_cornerOffset S) (e_border e) (e_geometry e)"
    and "rcontains_point (e_approachGeometry e) p"
  shows "\<exists>e' c' d. updateApproaching S p e c = Returns (e', c') \<and> border_distance (e_border e) (e_approachGeometry e) p = Some d \<and>
    1 \<le> e_lastApproachingFactor e' \<and> e_lastApproachingFactor e' \<le> 256 \<and> (e_lastApproachingFactor e' = 256 \<longleftrightarrow> d * 256 < es_cornerOffset S)"
proof -
  obtain d where d: "border_distance (e_border e) (e_approachGeometry e) p = Some d" "0 \<le> d" "d < es_cornerOffset S"
    using border_distance_bounds [OF assms] by blast
  let ?f = "d * 256 div es_cornerOffset S"
  have f: "0 \<le> ?f" "?f < 256"
  proof -
    show "0 \<le> ?f" using d(2) assms(1) by (simp add: pos_imp_zdiv_nonneg_iff)
    have "es_cornerOffset S * ?f \<le> d * 256" using mult_div_mod_eq [of "es_cornerOffset S" "d * 256"] pos_mod_sign [OF assms(1), of "d * 256"] by linarith
    also have "\<dots> < es_cornerOffset S * 256" using d(3) by simp
    finally show "?f < 256" using assms(1) by (simp add: mult_less_cancel_left)
  qed
  have z: "?f = 0 \<longleftrightarrow> d * 256 < es_cornerOffset S" using d(2) assms(1) by (auto simp: zdiv_eq_0_iff)
  have t: "tdiv (d * 256) (es_cornerOffset S) = ?f" using d(2) assms(1) by (cases "d = 0") (simp_all add: tdiv_def sgn_if)
  obtain e' c' where u: "updateApproaching S p e c = Returns (e', c')" "e_lastApproachingFactor e' = 256 - ?f"
    using assms(1,4) d(1) t by (cases "e_lastApproachingFactor e = 256 - ?f") (auto simp: updateApproaching_def Let_def simp del: obind_eq_Returns)
  then show ?thesis using d(1) f z by auto
qed

theorem approaching_factor_range_witness:
  "\<exists>e' c'. updateApproaching no_edges (5, 300) ((demo_edge ElectricLeft (mk_rect 0 32 1 536))\<lparr>e_approachGeometry := approach_rect 32 ElectricLeft (mk_rect 0 32 1 536)\<rparr>)
      (se_ctx no_edges) = Returns (e', c') \<and> 1 \<le> e_lastApproachingFactor e' \<and> e_lastApproachingFactor e' \<le> 256"
proof -
  let ?e = "(demo_edge ElectricLeft (mk_rect 0 32 1 536))\<lparr>e_approachGeometry := approach_rect 32 ElectricLeft (mk_rect 0 32 1 536)\<rparr>"
  have "e_border ?e = ElectricLeft" "e_geometry ?e = mk_rect 0 32 1 536" by (simp_all add: demo_edge_def new_edge_def)
  moreover have "rcontains_point (e_approachGeometry ?e) (5, 300)"
    by (simp add: approach_rect_def border_defs mk_rect_def rwidth_def rheight_def rcontains_point_def)
  moreover have "es_cornerOffset no_edges = 32" by (simp add: no_edges_def)
  ultimately show ?thesis using approaching_factor_range [of no_edges ?e "(5, 300)" "se_ctx no_edges"] by auto
qed

text \<open>
  The area before an edge is shortened by the size of the corners although the edge was shortened before, and at the left edge it is one pixel
  too low: the pointer activates the left edge of a screen at places where it never approaches it.
\<close>

lemma approach_area_too_short:
  "let g = mk_rect 0 32 1 536 in rcontains_point g (0, 40) \<and> \<not> rcontains_point (approach_rect 32 ElectricLeft g) (0, 40) \<and>
     rtop (approach_rect 32 ElectricLeft g) = 65 \<and> rtop (approach_rect 32 ElectricRight g) = 64"
  by (simp add: Let_def approach_rect_def border_defs mk_rect_def rwidth_def rheight_def rcontains_point_def)

section \<open>Where reservations go wrong\<close>

abbreviation left_edge :: edge where "left_edge \<equiv> fst (new_edge 0 ElectricLeft (se_ctx no_edges))"

text \<open>
  A touch callback at an edge that is already reserved does not register the gesture of the edge, because only the first
  reservation does.
\<close>

lemma touch_callback_not_registered:
  "\<exists>e1 c1 e2 c2. edge_reserve left_edge (se_ctx no_edges) = Returns (e1, c1) \<and> reserveTouchCallBack 5 e1 c1 = Returns (e2, c2) \<and>
     activatesForTouchGesture e2 \<and> isReserved e2 \<and> \<not> registered c2 e2"
  by (simp add: edge_reserve_def edge_activate_def new_edge_def activatesForTouchGesture_def reserveTouchCallBack_def isReserved_def border_defs
      no_edges_def demo_recog_def registered_def Let_def)

text \<open>
  The gesture stays registered when the last touch callback goes while the edge is reserved otherwise, and a touch action
  for the edge registers it a second time, which fails an assertion.
\<close>

definition touch_then_action :: "edge \<Rightarrow> edge_ctx \<Rightarrow> (edge \<times> edge_ctx) outcome" where
  "touch_then_action e c =
     obind (reserveTouchCallBack 5 e c) (\<lambda>(e1, c1). obind (edge_reserve e1 c1) (\<lambda>(e2, c2).
       case unreserveTouchCallBack 5 e2 c2 of (e3, c3) \<Rightarrow> obind (edge_reserve e3 c3) (\<lambda>(e4, c4). setTouchAction ElectricActionKRunner e4 c4)))"

lemma touch_action_registers_twice: "touch_then_action left_edge (se_ctx no_edges) = Faults AssertFailed"
  by (simp add: touch_then_action_def edge_reserve_def edge_activate_def new_edge_def activatesForTouchGesture_def reserveTouchCallBack_def
      unreserveTouchCallBack_def edge_unreserve_def setTouchAction_def with_touch_change_def touchGestureChanged_def register_gesture_def
      registerGesture_def isReserved_def border_defs no_edges_def demo_recog_def Let_def oassert_def)

text \<open>
  An object at two old edges of one border is copied to a new edge twice but remembered once: after it has gone, the edge
  stays reserved.
\<close>

lemma copied_twice_stays_reserved:
  "\<exists>e1 c1. ofold copy_edge [left_edge\<lparr>e_callBacks := [(9, ''slot'')]\<rparr>, left_edge\<lparr>e_callBacks := [(9, ''slot'')]\<rparr>] (left_edge, se_ctx no_edges) = Returns (e1, c1) \<and>
     e_callBacks e1 = [(9, ''slot'')] \<and> e_reserved (fst (edge_unreserve_object 9 e1 c1)) = 1"
  by (simp add: copy_edge_def edge_reserve_object_def edge_reserve_def edge_activate_def new_edge_def activatesForTouchGesture_def
      edge_unreserve_object_def edge_unreserve_def border_defs no_edges_def Let_def)

text \<open>
  Corners that are created while there is one desktop are reserved for switching desktops at once and again when the second desktop
  comes; switching that off leaves them reserved.
\<close>

lemma corner_stays_reserved:
  "\<exists>e S1 S2 S3. createEdge demo_edge_env ElectricTopLeft (mk_rect 0 0 1 1) True (no_edges\<lparr>es_desktopSwitching := True\<rparr>) = Returns (e, S1) \<and>
     updateLayout (2, 1) (S1\<lparr>se_edges := [e]\<rparr>) = Returns S2 \<and> setDesktopSwitching False S2 = Returns S3 \<and> map e_reserved (se_edges S3) = [1]"
  by (simp add: createEdge_def new_edge_def edge_setGeometry_def edge_reserve_def edge_activate_def activatesForTouchGesture_def updateLayout_def
      setDesktopSwitching_def reserveDesktopSwitching_def on_edges_def switches_def edge_unreserve_def border_defs no_edges_def touch_action_def
      mk_rect_def rwidth_def rheight_def null_rect_def Let_def)

text \<open>
  The edge of a hidden window is not reserved for the action of its border, but unreserved when the action goes: the window cannot be
  shown with the edge any more.
\<close>

lemma client_edge_dies:
  "\<exists>S1 S2. createEdgeForClient demo_edge_env [mk_rect 0 0 1000 600] (mk_rect 0 0 1000 600) 3 (mk_rect 0 100 50 200) ElectricLeft
       (no_edges\<lparr>se_action := (\<lambda>_. ElectricActionKRunner)\<rparr>) = Returns S1 \<and>
     map (\<lambda>e. (e_client e, e_reserved e)) (se_edges S1) = [(Some 3, 1)] \<and>
     setActionForBorder ElectricLeft ElectricActionNone S1 = Returns S2 \<and> map (\<lambda>e. (e_client e, e_reserved e)) (se_edges S2) = [(Some 3, 0)]"
  by (simp add: createEdgeForClient_def isLeftScreen_def rwithin_def createEdge_def new_edge_def edge_setGeometry_def setStartGeometry_def
      edge_setClient_def with_touch_change_def touchGestureChanged_def isReserved_def edge_reserve_def edge_activate_def activatesForTouchGesture_def
      register_gesture_def registerGesture_def setActionForBorder_def on_edges_def edge_unreserve_def edge_deactivate_def unregister_gesture_def
      unregisterGesture_def stopApproaching_def edge_setAction_def border_defs no_edges_def demo_recog_def mk_rect_def rwidth_def rheight_def
      null_rect_def touch_action_def gr_emit_def Let_def)

end
