(* ===== verification/Snapping.thy ===== *)
theory Snapping
  imports Workspace_Position
begin

text \<open>
  Snapping of windows that are moved or resized by the user: \<open>Workspace::adjustClientPosition\<close> and
  \<open>Workspace::adjustClientSize\<close> (\<^verbatim>\<open>workspace.cpp\<close>). \<open>S\<close> holds the screens and areas, \<open>Opt\<close> the
  snap zones of the options, \<open>W\<close> the windows, \<open>ws\<close> the list \<open>m_allClients\<close>.

  The factor \<open>snapAdjust\<close> is a \<open>double\<close>; the argument \<open>adj\<close> stands for the zone multiplied with it and
  converted to an \<open>int\<close>. The default factor 1 is the identity.
\<close>

section \<open>Options and candidates\<close>

record snap_options =
  so_border :: int
  so_window :: int
  so_center :: int
  so_onlyOverlap :: bool

text \<open>\<open>isOnDesktop\<close> with the \<open>int\<close> that \<open>desktop()\<close> returns, which is -1 for all desktops.\<close>

definition on_desktop_id :: "desk_view \<Rightarrow> window \<Rightarrow> int \<Rightarrow> bool" where
  "on_desktop_id D w d = (if d < 0 then on_all_desktops D w else on_desktop D w (nat d))"

definition snap_candidate :: "desk_view \<Rightarrow> wstore \<Rightarrow> addr \<Rightarrow> addr \<Rightarrow> bool" where
  "snap_candidate D W a l \<longleftrightarrow>
     l \<noteq> a \<and> \<not> w_minimized (W l) \<and> w_shown (W l) \<and>
     (on_desktop_id D (W l) (win_desktop D (W a)) \<or> on_desktop_id D (W a) (win_desktop D (W l))) \<and>
     w_onCurrentActivity (W l) \<and> \<not> is_desktop (W l) \<and> \<not> is_splash (W l)"

definition snap_frames :: "desk_view \<Rightarrow> wstore \<Rightarrow> addr list \<Rightarrow> addr \<Rightarrow> rect list" where
  "snap_frames D W ws a = map (\<lambda>l. w_frameGeometry (W l)) (filter (snap_candidate D W a) ws)"

section \<open>Moving\<close>

text \<open>
  A maximized window is guided along the edges of the maximize area: the area, whether the window is guided
  horizontally and vertically, and the size of the zones at the borders.
\<close>

definition snap_guide :: "space \<Rightarrow> snap_options \<Rightarrow> window \<Rightarrow> point \<Rightarrow> (rect \<times> bool \<times> bool \<times> qsize) outcome" where
  "snap_guide S Opt w pos =
     (let geo = w_frameGeometry w; mode = g_maximizeMode (w_geo w); c = rcenter (rect_at (0, 0) (rsize geo)) in
      if mode = MRestore then Returns (null_rect, False, False, (so_border Opt, so_border Opt))
      else obind (clientArea_point S MaximizeArea (fst pos + fst c, snd pos + snd c) (win_desktop (sp_desk S) w)) (\<lambda>m.
        let h = (max_horizontal mode \<and> (rleft geo = rleft m \<or> rright geo = rright m));
            v = (max_vertical mode \<and> (rtop geo = rtop m \<or> rbottom geo = rbottom m))
        in Returns (m, h, v,
             (if h then max (so_border Opt + 2) (tdiv (rwidth m) 16) else so_border Opt,
              if v then max (so_border Opt + 2) (tdiv (rheight m) 16) else so_border Opt))))"

text \<open>The margins that may leave the area: not at a border to another screen, never at the top.\<close>

definition snap_margins :: "rect list \<Rightarrow> rect \<Rightarrow> wgeo \<Rightarrow> margins" where
  "snap_margins outs m g =
     (let geo = g_frameGeometry g; fm = frame_margins g;
          inner = (\<lambda>d. screens_intersecting outs (rtranslated d geo) > 1)
      in \<lparr>mleft = (if mleft fm \<noteq> 0 \<and> (max_horizontal (g_maximizeMode g) \<or> inner (rleft m - (mleft fm + rleft geo), 0))
                   then 0 else mleft fm),
          mtop = 0,
          mright = (if mright fm \<noteq> 0 \<and> (max_horizontal (g_maximizeMode g) \<or> inner (rright m + mright fm - rright geo, 0))
                    then 0 else mright fm),
          mbottom = (if mbottom fm \<noteq> 0 \<and> (max_vertical (g_maximizeMode g) \<or> inner (0, rbottom m + mbottom fm - rbottom geo))
                     then 0 else mbottom fm)\<rparr>)"

text \<open>
  Both axes are treated alike. \<open>c\<close> is the coordinate, \<open>w\<close> the extent of the window, and the result the new
  coordinate with its distance. The distances to the borders keep their sign.
\<close>

definition snap_border_axis :: "bool \<Rightarrow> int \<Rightarrow> int \<Rightarrow> int \<Rightarrow> int \<Rightarrow> int \<Rightarrow> int \<Rightarrow> int \<Rightarrow> int \<times> int" where
  "snap_border_axis sOWO snap lo hi c w m_lo m_hi =
     (let r = c + w;
          nd = (if (sOWO \<longrightarrow> c < lo) \<and> \<bar>lo - c\<bar> < snap then (lo - m_lo, lo - c) else (c, hi))
      in if (sOWO \<longrightarrow> r > hi) \<and> \<bar>r - hi\<bar> < snap \<and> \<bar>hi - r\<bar> < snd nd then (hi - w + m_hi, r - hi) else nd)"

definition closer :: "bool \<Rightarrow> int \<Rightarrow> int \<Rightarrow> int \<Rightarrow> int \<times> int \<Rightarrow> int \<times> int" where
  "closer ok dist snap n nd = (if ok \<and> dist < snap \<and> dist < snd nd then (n, dist) else nd)"

text \<open>To the outside of another window, and to its corners: side by side with it, flush with its edges.\<close>

definition snap_outer :: "bool \<Rightarrow> int \<Rightarrow> int \<Rightarrow> int \<Rightarrow> int \<Rightarrow> int \<Rightarrow> int \<times> int \<Rightarrow> int \<times> int" where
  "snap_outer sOWO snap c w l lr nd =
     closer (sOWO \<longrightarrow> c + w > l) \<bar>c + w - l\<bar> snap (l - w) (closer (sOWO \<longrightarrow> c < lr) \<bar>lr - c\<bar> snap lr nd)"

definition snap_flush :: "bool \<Rightarrow> int \<Rightarrow> int \<Rightarrow> int \<Rightarrow> int \<Rightarrow> int \<Rightarrow> int \<times> int \<Rightarrow> int \<times> int" where
  "snap_flush sOWO snap c w l lr nd =
     closer (sOWO \<longrightarrow> c < l) \<bar>c - l\<bar> snap l (closer (sOWO \<longrightarrow> c + w > lr) \<bar>lr - (c + w)\<bar> snap (lr - w) nd)"

definition within_span :: "int \<Rightarrow> int \<Rightarrow> int \<Rightarrow> int \<Rightarrow> bool" where
  "within_span c r l lr \<longleftrightarrow> (c \<le> lr \<and> c \<ge> l) \<or> (r \<ge> l \<and> r \<le> lr) \<or> (c \<le> l \<and> r \<ge> lr)"

definition snap_window ::
  "bool \<Rightarrow> int \<Rightarrow> bool \<Rightarrow> bool \<Rightarrow> point \<Rightarrow> qsize \<Rightarrow> rect \<Rightarrow> (int \<times> int) \<times> (int \<times> int) \<Rightarrow> (int \<times> int) \<times> (int \<times> int)" where
  "snap_window sOWO snap guideH guideV pos sz l XY =
     (let cx = fst pos; cy = snd pos; cw = fst sz; ch = snd sz;
          lx = rleft l; ly = rtop l; lrx = lx + rwidth l; lry = ly + rheight l;
          X1 = (if \<not> guideH \<and> within_span cy (cy + ch) ly lry then snap_outer sOWO snap cx cw lx lrx (fst XY) else fst XY);
          Y1 = (if \<not> guideV \<and> within_span cx (cx + cw) lx lrx then snap_outer sOWO snap cy ch ly lry (snd XY) else snd XY);
          Y2 = (if \<not> guideV \<and> (fst X1 = lrx \<or> fst X1 + cw = lx) then snap_flush sOWO snap cy ch ly lry Y1 else Y1);
          X2 = (if \<not> guideH \<and> (fst Y2 = lry \<or> fst Y2 + ch = ly) then snap_flush sOWO snap cx cw lx lrx X1 else X1)
      in (X2, Y2))"

definition snap_center :: "bool \<Rightarrow> bool \<Rightarrow> int \<Rightarrow> rect \<Rightarrow> point \<Rightarrow> qsize \<Rightarrow> (int \<times> int) \<times> (int \<times> int) \<Rightarrow> point" where
  "snap_center unrestricted border snap m pos sz XY =
     (let xmin = rleft m; xmax = rright m + 1; ymin = rtop m; ymax = rbottom m + 1;
          nx = fst (fst XY); ny = fst (snd XY); dX = snd (fst XY); dY = snd (snd XY);
          diffX = \<bar>tdiv (xmin + xmax) 2 - (fst pos + tdiv (fst sz) 2)\<bar>;
          diffY = \<bar>tdiv (ymin + ymax) 2 - (snd pos + tdiv (snd sz) 2)\<bar>;
          midX = tdiv (xmin + xmax) 2 - tdiv (fst sz) 2; midY = tdiv (ymin + ymax) 2 - tdiv (snd sz) 2
      in if snap = 0 then (nx, ny)
         else if diffX < snap \<and> diffY < snap \<and> diffX < dX \<and> diffY < dY then (midX, midY)
         else if border
         then (if (nx = xmin \<or> nx = xmax - fst sz) \<and> diffY < snap \<and> diffY < dY then (nx, midY)
               else if ((if unrestricted then ny = ymin else ny \<le> ymin) \<or> ny = ymax - snd sz) \<and> diffX < snap \<and> diffX < dX
               then (midX, ny)
               else (nx, ny))
         else (nx, ny))"

text \<open>The body of the outer test, with the area and the zones that have been chosen.\<close>

definition snap_position ::
  "rect list \<Rightarrow> snap_options \<Rightarrow> (int \<Rightarrow> int) \<Rightarrow> rect list \<Rightarrow> wgeo \<Rightarrow> rect \<Rightarrow> bool \<Rightarrow> bool \<Rightarrow> qsize \<Rightarrow> bool \<Rightarrow> point \<Rightarrow> point" where
  "snap_position outs Opt adj frames g m guideH guideV zone unrestricted pos =
     (let s = so_onlyOverlap Opt; sz = rsize (g_frameGeometry g); fm = snap_margins outs m g;
          snapX = adj (fst zone); snapY = adj (snd zone);
          XY0 = (if snapX \<noteq> 0 \<or> snapY \<noteq> 0
                 then (snap_border_axis s snapX (rleft m) (rright m + 1) (fst pos) (fst sz) (mleft fm) (mright fm),
                       snap_border_axis s snapY (rtop m) (rbottom m + 1) (snd pos) (snd sz) (mtop fm) (mbottom fm))
                 else ((fst pos, rright m + 1), (snd pos, rbottom m + 1)));
          snap = adj (so_window Opt);
          XY1 = (if snap \<noteq> 0 then fold (snap_window s snap guideH guideV pos sz) frames XY0 else XY0)
      in snap_center unrestricted (so_border Opt \<noteq> 0) (adj (so_center Opt)) m pos sz XY1)"

definition adjustClientPosition ::
  "space \<Rightarrow> snap_options \<Rightarrow> (int \<Rightarrow> int) \<Rightarrow> wstore \<Rightarrow> addr list \<Rightarrow> addr \<Rightarrow> point \<Rightarrow> bool \<Rightarrow> point outcome" where
  "adjustClientPosition S Opt adj W ws a pos unrestricted =
     obind (snap_guide S Opt (W a) pos) (\<lambda>(m0, guideH, guideV, zone).
       if so_window Opt \<noteq> 0 \<or> zone \<noteq> (0, 0) \<or> so_center Opt \<noteq> 0
       then
         let c = rcenter (rect_at (0, 0) (rsize (w_frameGeometry (W a))));
             screen = screens_number (sp_outputs S) (fst pos + fst c, snd pos + snd c)
         in obind (if rnull m0 then clientArea S MovementArea screen (win_desktop (sp_desk S) (W a)) else Returns m0) (\<lambda>m.
              Returns (snap_position (sp_outputs S) Opt adj (snap_frames (sp_desk S) W ws a) (w_geo (W a)) m
                guideH guideV zone unrestricted pos))
       else Returns pos)"

section \<open>Resizing\<close>

datatype position = PCenter | PLeft | PRight | PTop | PBottom | PTopLeft | PTopRight | PBottomLeft | PBottomRight

datatype side = SLeft | SRight | STop | SBottom

text \<open>The sides the macros of the \<open>switch\<close> are applied to, in their order; the default case aborts.\<close>

fun sides_of :: "position \<Rightarrow> side list outcome" where
  "sides_of PBottomRight = Returns [SBottom, SRight]"
| "sides_of PRight = Returns [SRight]"
| "sides_of PBottom = Returns [SBottom]"
| "sides_of PTopLeft = Returns [STop, SLeft]"
| "sides_of PLeft = Returns [SLeft]"
| "sides_of PTop = Returns [STop]"
| "sides_of PTopRight = Returns [STop, SRight]"
| "sides_of PBottomLeft = Returns [SBottom, SLeft]"
| "sides_of PCenter = Faults AssertFailed"

text \<open>The new rectangle with the distances \<open>deltaX\<close> and \<open>deltaY\<close>.\<close>

type_synonym sized = "rect \<times> int \<times> int"

text \<open>
  \<open>SNAP_BORDER_*\<close>. The distance stored for the bottom is the one of the top edge, as in the source.
\<close>

fun snap_border_side :: "bool \<Rightarrow> rect \<Rightarrow> side \<Rightarrow> sized \<Rightarrow> sized" where
  "snap_border_side s m STop (r, dx, dy) =
     (if (s \<longrightarrow> rtop r < rtop m) \<and> \<bar>rtop m - rtop r\<bar> < dy then (r\<lparr>rtop := rtop m\<rparr>, dx, \<bar>rtop m - rtop r\<bar>) else (r, dx, dy))"
| "snap_border_side s m SBottom (r, dx, dy) =
     (if (s \<longrightarrow> rbottom r > rbottom m) \<and> \<bar>rbottom m - rbottom r\<bar> < dy
      then (r\<lparr>rbottom := rbottom m\<rparr>, dx, \<bar>rbottom m - rtop r\<bar>) else (r, dx, dy))"
| "snap_border_side s m SLeft (r, dx, dy) =
     (if (s \<longrightarrow> rleft r < rleft m) \<and> \<bar>rleft m - rleft r\<bar> < dx then (r\<lparr>rleft := rleft m\<rparr>, \<bar>rleft m - rleft r\<bar>, dy) else (r, dx, dy))"
| "snap_border_side s m SRight (r, dx, dy) =
     (if (s \<longrightarrow> rright r > rright m) \<and> \<bar>rright m - rright r\<bar> < dx
      then (r\<lparr>rright := rright m\<rparr>, \<bar>rright m - rright r\<bar>, dy) else (r, dx, dy))"

text \<open>
  \<open>SNAP_WINDOW_*\<close>: \<open>l\<close> is the frame of the other window, enlarged by the pixel around it. \<open>WITHIN_WIDTH\<close> compares with
  the rectangle \<open>r0\<close> from before the snapping, \<open>WITHIN_HEIGHT\<close> with the new one.
\<close>

definition around :: "rect \<Rightarrow> rect" where
  "around f = \<lparr>rleft = rleft f - 1, rtop = rtop f - 1, rright = rleft f + rwidth f, rbottom = rtop f + rheight f\<rparr>"

fun snap_window_side :: "bool \<Rightarrow> rect \<Rightarrow> rect \<Rightarrow> side \<Rightarrow> sized \<Rightarrow> sized" where
  "snap_window_side s r0 l STop (r, dx, dy) =
     (if (s \<longrightarrow> rtop r < rbottom l) \<and> within_span (rleft r0) (rright r0) (rleft l) (rright l) \<and> \<bar>rbottom l - rtop r\<bar> < dy
      then (r\<lparr>rtop := rbottom l\<rparr>, dx, \<bar>rbottom l - rtop r\<bar>) else (r, dx, dy))"
| "snap_window_side s r0 l SBottom (r, dx, dy) =
     (if (s \<longrightarrow> rbottom r > rtop l) \<and> within_span (rleft r0) (rright r0) (rleft l) (rright l) \<and> \<bar>rtop l - rbottom r\<bar> < dy
      then (r\<lparr>rbottom := rtop l\<rparr>, dx, \<bar>rtop l - rbottom r\<bar>) else (r, dx, dy))"
| "snap_window_side s r0 l SLeft (r, dx, dy) =
     (if (s \<longrightarrow> rleft r < rright l) \<and> within_span (rtop r) (rbottom r) (rtop l) (rbottom l) \<and> \<bar>rright l - rleft r\<bar> < dx
      then (r\<lparr>rleft := rright l\<rparr>, \<bar>rright l - rleft r\<bar>, dy) else (r, dx, dy))"
| "snap_window_side s r0 l SRight (r, dx, dy) =
     (if (s \<longrightarrow> rright r > rleft l) \<and> within_span (rtop r) (rbottom r) (rtop l) (rbottom l) \<and> \<bar>rleft l - rright r\<bar> < dx
      then (r\<lparr>rright := rleft l\<rparr>, \<bar>rleft l - rright r\<bar>, dy) else (r, dx, dy))"

text \<open>\<open>SNAP_WINDOW_C_*\<close>.\<close>

fun snap_corner_side :: "bool \<Rightarrow> rect \<Rightarrow> side \<Rightarrow> sized \<Rightarrow> sized" where
  "snap_corner_side s l STop (r, dx, dy) =
     (if (s \<longrightarrow> rtop r < rtop l) \<and> (rleft r = rright l \<or> rright r = rleft l) \<and> \<bar>rtop l - rtop r\<bar> < dy
      then (r\<lparr>rtop := rtop l + 1\<rparr>, dx, \<bar>rtop l - rtop r + 1\<bar>) else (r, dx, dy))"
| "snap_corner_side s l SBottom (r, dx, dy) =
     (if (s \<longrightarrow> rbottom r > rbottom l) \<and> (rleft r = rright l \<or> rright r = rleft l) \<and> \<bar>rbottom l - rbottom r\<bar> < dy
      then (r\<lparr>rbottom := rbottom l - 1\<rparr>, dx, \<bar>rbottom l - rbottom r - 1\<bar>) else (r, dx, dy))"
| "snap_corner_side s l SLeft (r, dx, dy) =
     (if (s \<longrightarrow> rleft r < rleft l) \<and> (rtop r = rbottom l \<or> rbottom r = rtop l) \<and> \<bar>rleft l - rleft r\<bar> < dx
      then (r\<lparr>rleft := rleft l + 1\<rparr>, \<bar>rleft l - rleft r + 1\<bar>, dy) else (r, dx, dy))"
| "snap_corner_side s l SRight (r, dx, dy) =
     (if (s \<longrightarrow> rright r > rright l) \<and> (rtop r = rbottom l \<or> rbottom r = rtop l) \<and> \<bar>rright l - rright r\<bar> < dx
      then (r\<lparr>rright := rright l - 1\<rparr>, \<bar>rright l - rright r - 1\<bar>, dy) else (r, dx, dy))"

definition size_candidate :: "desk_view \<Rightarrow> wstore \<Rightarrow> addr \<Rightarrow> addr \<Rightarrow> bool" where
  "size_candidate D W a l \<longleftrightarrow> on_desktop D (W l) (dv_current D) \<and> \<not> w_minimized (W l) \<and> l \<noteq> a"

definition size_frames :: "desk_view \<Rightarrow> wstore \<Rightarrow> addr list \<Rightarrow> addr \<Rightarrow> rect list" where
  "size_frames D W ws a = map (\<lambda>l. w_frameGeometry (W l)) (filter (size_candidate D W a) ws)"

definition snap_size_window :: "bool \<Rightarrow> rect \<Rightarrow> position \<Rightarrow> rect \<Rightarrow> sized \<Rightarrow> sized outcome" where
  "snap_size_window s r0 mode f x =
     obind (sides_of mode) (\<lambda>sides.
       Returns (fold (snap_corner_side s (around f)) sides (fold (snap_window_side s r0 (around f)) sides x)))"

definition snap_size :: "snap_options \<Rightarrow> rect list \<Rightarrow> rect \<Rightarrow> position \<Rightarrow> rect \<Rightarrow> rect outcome" where
  "snap_size Opt frames m mode r0 =
     (let s = so_onlyOverlap Opt in
      obind (if so_border Opt \<noteq> 0
             then obind (sides_of mode) (\<lambda>sides.
               Returns (fst (fold (snap_border_side s m) sides (r0, so_border Opt, so_border Opt))))
             else Returns r0) (\<lambda>r1.
      if so_window Opt \<noteq> 0
      then obind (ofold (snap_size_window s r0 mode) frames (r1, so_window Opt, so_window Opt)) (\<lambda>x. Returns (fst x))
      else Returns r1))"

definition adjustClientSize ::
  "space \<Rightarrow> snap_options \<Rightarrow> wstore \<Rightarrow> addr list \<Rightarrow> addr \<Rightarrow> rect \<Rightarrow> position \<Rightarrow> rect outcome" where
  "adjustClientSize S Opt W ws a r mode =
     (if so_window Opt \<noteq> 0 \<or> so_border Opt \<noteq> 0
      then obind (clientArea_point S MovementArea (rcenter (rect_at (0, 0) (rsize (w_frameGeometry (W a)))))
             (win_desktop (sp_desk S) (W a))) (\<lambda>m.
        snap_size Opt (size_frames (sp_desk S) W ws a) m mode r)
      else Returns r)"

end
