(* ===== verification/Screen_Move.thy ===== *)
theory Screen_Move
  imports Tiling
begin

text \<open>
  Sending a window to another screen: the geometry of \<open>win::send_to_screen\<close> (\<^verbatim>\<open>win/screen.h\<close>) for one window. The restore geometry, the
  maximize mode and the tile are taken off, the frame is moved to the same place relative to the center of the new screen, and they
  are put back. \<open>S\<close> provides the area of the new screen.
\<close>

text \<open>The product of the offset with the ratio of the extents; the division by an empty old area traps.\<close>

definition scaled_center :: "rect \<Rightarrow> rect \<Rightarrow> point \<Rightarrow> point outcome" where
  "scaled_center old new c =
     (if rwidth old = 0 \<or> rheight old = 0 then Faults DivByZero
      else Returns (tdiv ((fst c - fst (rcenter old)) * rwidth new) (rwidth old) + fst (rcenter new),
                    tdiv ((snd c - snd (rcenter old)) * rheight new) (rheight old) + snd (rcenter new)))"

text \<open>\<open>QRect::contains\<close> for rectangles of positive extents.\<close>

definition rcontains_rect :: "rect \<Rightarrow> rect \<Rightarrow> bool" where
  "rcontains_rect a b \<longleftrightarrow>
     \<not> rnull a \<and> \<not> rnull b \<and>
     (let a' = rnorm a; b' = rnorm b in
      rleft a' \<le> rleft b' \<and> rright b' \<le> rright a' \<and> rtop a' \<le> rtop b' \<and> rbottom b' \<le> rbottom a')"

definition send_body :: "pos_env \<Rightarrow> space \<Rightarrow> window \<Rightarrow> int \<Rightarrow> int \<Rightarrow> wgeo \<Rightarrow> wgeo outcome" where
  "send_body P S w screen new_screen g0 =
     (let old_restore = g_restore g0; old_frame = g_frame g0;
          frame = (if rvalid old_restore then old_restore else old_frame);
          max_mode = g_max_mode g0; qt = g_quicktiling g0
      in
      obind (if max_mode \<noteq> MRestore then win_maximize (po_geo P) MRestore g0 else Returns g0) (\<lambda>g1.
      obind (if qt \<noteq> qt_none then set_quicktile_mode P w screen qt_none True g1 else Returns g1) (\<lambda>g2.
      let oldArea = po_area P MaximizeArea (rcenter (pending_frame_geometry g2)) in
      obind (clientArea S MaximizeArea new_screen (win_desktop (sp_desk S) w)) (\<lambda>area.
      obind (if qt \<noteq> qt_none then keep_in_area (po_area P) oldArea False g2 else Returns g2) (\<lambda>g3.
      obind (scaled_center oldArea area (rcenter frame)) (\<lambda>c.
      let g4 = setFrameGeometry (moveCenter c frame) g3 in
      obind (if rcontains_rect oldArea old_frame then keep_in_area (po_area P) area False g4 else Returns g4) (\<lambda>g5.
      let restore = g_frame g5 in
      obind (check_workspace_position P w old_frame null_rect g5) (\<lambda>g6.
      obind (if max_mode \<noteq> MRestore
             then obind (win_maximize (po_geo P) max_mode g6) (\<lambda>g. Returns (g\<lparr>g_restore := restore\<rparr>))
             else Returns g6) (\<lambda>g7.
      if qt \<noteq> qt_none \<and> qt \<noteq> g_quicktiling g7
      then obind (set_quicktile_mode P w screen qt True g7) (\<lambda>g. Returns (g\<lparr>g_restore := restore\<rparr>))
      else Returns g7)))))))))"

text \<open>
  \<open>screen\<close> is the screen of the window, \<open>new_screen\<close> the one the rule has chosen. The children follow in their stacking
  order with a call of their own.
\<close>

definition send_geometry_to_screen :: "pos_env \<Rightarrow> space \<Rightarrow> window \<Rightarrow> int \<Rightarrow> int \<Rightarrow> wgeo \<Rightarrow> wgeo outcome" where
  "send_geometry_to_screen P S w screen new_screen g =
     (if screen = new_screen then Returns g
      else with_geometry_blocker (send_body P S w screen new_screen) g)"

end
