(* ===== verification/Move_Resize.thy ===== *)
theory Move_Resize
  imports Snapping Screen_Move
begin

text \<open>
  Moving and resizing a window with the pointer or the keyboard: \<open>win::move_resize_op\<close> (\<^verbatim>\<open>win/structs.h\<close>), the functions of
  \<^verbatim>\<open>win/move.h\<close> that start, perform and finish such an operation, and the handlers of \<^verbatim>\<open>win/input.h\<close>,
  \<^verbatim>\<open>win/x11/event.h\<close> and \<^verbatim>\<open>win/wayland/xdg_shell.h\<close> that drive it.

  The state is the one of a window that is operated on: its geometry, its \<open>move_resize_op\<close>, its screen and its timers, together with
  the two members of the workspace the operation changes (\<open>movingClient\<close> and \<open>block_focus\<close>). The functions on the
  geometry ask for the fields \<open>enabled\<close> and \<open>contact\<close> of the operation; \<open>geo_of\<close> is the geometry with these fields filled in. Calls that only
  concern other components are logged.
\<close>

section \<open>State\<close>

datatype cursor_shape = ArrowCursor | SizeAllCursor | SizeNorthWest | SizeSouthEast | SizeSouthWest | SizeNorthEast
  | SizeNorth | SizeSouth | SizeWest | SizeEast

datatype move_event = Started | Stepped rect | Finished | CursorChanged cursor_shape | ReserveSwitching bool
  | EdgeCheck point | OutlineShow rect rect | OutlineHide | Elevate bool | SentToScreen int | PointerSet point
  | CallRaise | CallLower | CallAutoRaise | CallWindowMenu point | CallRaiseOrLower | CallRequestFocus addr bool
  | CallSetCurrentScreen point | CallMinimize | CallKeepAbove bool | CallKeepBelow bool | CallPreviousDesktop | CallNextDesktop
  | CallOpacityMore | CallOpacityLess | CallClose | CallWindowOperation

record move_state =
  ms_geo :: wgeo
  ms_enabled :: bool
  ms_contact :: position
  ms_unrestricted :: bool
  ms_offset :: point
  ms_inverted :: point
  ms_initial :: rect
  ms_geometry :: rect
  ms_buttonDown :: bool
  ms_cursor :: cursor_shape
  ms_startScreen :: int
  ms_delayTimer :: bool
  ms_doubleClick :: bool
  ms_screen :: int
  ms_electricTimers :: nat
  ms_movingClient :: "addr option"
  ms_blockFocus :: int
  ms_log :: "move_event list"

text \<open>
  The environment. \<open>mv_cut\<close> gives the rectangles a \<open>QRegion\<close> consists of: those of the first argument without the second. \<open>mv_scale a b c\<close> is
  \<open>a / double(b) * c\<close> converted to \<open>int\<close>, \<open>mv_corner h\<close> the largest integer not above the product of \<open>h\<close> with \<open>electricBorderCornerRatio\<close>.
  \<open>mv_resizable\<close> is the answer of \<open>isResizable\<close>, which for X11 windows depends on the contact. \<open>mv_resizeSync\<close> is the virtual
  \<open>doResizeSync\<close>; the other fields are virtual methods, options and states of Qt.
\<close>

record move_env =
  mv_addr :: addr
  mv_pos :: pos_env
  mv_space :: space
  mv_snap :: snap_options
  mv_store :: wstore
  mv_clients :: "addr list"
  mv_cut :: "rect list \<Rightarrow> rect list \<Rightarrow> rect list"
  mv_scale :: "int \<Rightarrow> int \<Rightarrow> int \<Rightarrow> int"
  mv_corner :: "int \<Rightarrow> int"
  mv_resizable :: "position \<Rightarrow> bool"
  mv_acrossScreens :: bool
  mv_activePopup :: bool
  mv_grabbed :: bool
  mv_doStart :: bool
  mv_waiting :: bool
  mv_dragDistance :: int
  mv_resizeEffect :: bool
  mv_resizeSync :: "rect \<Rightarrow> wgeo \<Rightarrow> wgeo"
  mv_switchMoving :: bool
  mv_mouse :: position
  mv_tiling :: bool
  mv_maximizing :: bool
  mv_pointer :: point
  mv_checkScreen :: "int \<Rightarrow> int"

abbreviation mv_window :: "move_env \<Rightarrow> window" where
  "mv_window E \<equiv> mv_store E (mv_addr E)"
abbreviation mv_outputs :: "move_env \<Rightarrow> rect list" where
  "mv_outputs E \<equiv> sp_outputs (mv_space E)"
abbreviation mv_desktop :: "move_env \<Rightarrow> int" where
  "mv_desktop E \<equiv> win_desktop (sp_desk (mv_space E)) (mv_window E)"

definition ms_emit :: "move_event \<Rightarrow> move_state \<Rightarrow> move_state" where
  "ms_emit e s = s\<lparr>ms_log := ms_log s @ [e]\<rparr>"

definition ms_setGeo :: "wgeo \<Rightarrow> move_state \<Rightarrow> move_state" where
  "ms_setGeo g s = s\<lparr>ms_geo := g\<rparr>"

definition geo_of :: "move_env \<Rightarrow> move_state \<Rightarrow> wgeo" where
  "geo_of E s = (ms_geo s)\<lparr>g_moveEnabled := ms_enabled s, g_contactCenter := (ms_contact s = PCenter),
     g_resizable := mv_resizable E (ms_contact s)\<rparr>"

definition op_is_move :: "move_state \<Rightarrow> bool" where
  "op_is_move s \<longleftrightarrow> ms_enabled s \<and> ms_contact s = PCenter"

definition op_is_resize :: "move_state \<Rightarrow> bool" where
  "op_is_resize s \<longleftrightarrow> ms_enabled s \<and> ms_contact s \<noteq> PCenter"

text \<open>The scope of a \<open>geometry_updates_blocker\<close>, and an operation on the geometry alone.\<close>

definition with_move_blocker :: "(move_state \<Rightarrow> move_state outcome) \<Rightarrow> move_state \<Rightarrow> move_state outcome" where
  "with_move_blocker body s =
     obind (body (ms_setGeo (block_geometry_updates True (ms_geo s)) s)) (\<lambda>s'.
       Returns (ms_setGeo (block_geometry_updates False (ms_geo s')) s'))"

definition on_geo :: "move_env \<Rightarrow> (wgeo \<Rightarrow> wgeo outcome) \<Rightarrow> move_state \<Rightarrow> move_state outcome" where
  "on_geo E f s = obind (f (geo_of E s)) (\<lambda>g. Returns (ms_setGeo g s))"

section \<open>Cursor, workspace and screen\<close>

fun contact_shape :: "bool \<Rightarrow> position \<Rightarrow> cursor_shape" where
  "contact_shape enabled PTopLeft = SizeNorthWest"
| "contact_shape enabled PBottomRight = SizeSouthEast"
| "contact_shape enabled PBottomLeft = SizeSouthWest"
| "contact_shape enabled PTopRight = SizeNorthEast"
| "contact_shape enabled PTop = SizeNorth"
| "contact_shape enabled PBottom = SizeSouth"
| "contact_shape enabled PLeft = SizeWest"
| "contact_shape enabled PRight = SizeEast"
| "contact_shape enabled PCenter = (if enabled then SizeAllCursor else ArrowCursor)"

definition update_cursor :: "move_env \<Rightarrow> move_state \<Rightarrow> move_state" where
  "update_cursor E s =
     (let shape = contact_shape (ms_enabled s) (if \<not> mv_resizable E (ms_contact s) then PCenter else ms_contact s)
      in if shape = ms_cursor s then s else ms_emit (CursorChanged shape) (s\<lparr>ms_cursor := shape\<rparr>))"

definition setMoveResizeClient :: "addr option \<Rightarrow> move_state \<Rightarrow> move_state outcome" where
  "setMoveResizeClient w s =
     oassert (w = None \<or> ms_movingClient s = None)
       (Returns (s\<lparr>ms_movingClient := w, ms_blockFocus := ms_blockFocus s + (if w = None then - 1 else 1)\<rparr>))"

definition toplevel_checkScreen :: "rect list \<Rightarrow> move_state \<Rightarrow> move_state" where
  "toplevel_checkScreen outs s =
     s\<lparr>ms_screen := (if length outs = 1 then 0 else screens_number outs (rcenter (g_frameGeometry (ms_geo s))))\<rparr>"

definition set_electric_maximizing :: "move_env \<Rightarrow> bool \<Rightarrow> move_state \<Rightarrow> move_state" where
  "set_electric_maximizing E b s =
     (let s1 = ms_setGeo ((ms_geo s)\<lparr>g_electricMaximizing := b\<rparr>) s
      in ms_emit (Elevate b)
           (ms_emit (if b then OutlineShow (electric_border_maximize_geometry (po_area (mv_pos E)) (mv_pointer E) (ms_geo s1)) (ms_geometry s1)
                     else OutlineHide) s1))"

text \<open>
  The timer that \<open>delayed_electric_maximize\<close> creates is not stored, so that every call creates and starts another one.
\<close>

definition delayed_electric_maximize :: "move_state \<Rightarrow> move_state" where
  "delayed_electric_maximize s = s\<lparr>ms_electricTimers := ms_electricTimers s + 1\<rparr>"

definition electric_timeout :: "move_env \<Rightarrow> move_state \<Rightarrow> move_state" where
  "electric_timeout E s =
     (let s1 = s\<lparr>ms_electricTimers := ms_electricTimers s - 1\<rparr>
      in if op_is_move s1 then set_electric_maximizing E (g_electric (ms_geo s1) \<noteq> qt_none) s1 else s1)"

text \<open>\<open>Toplevel::leaveMoveResize\<close>.\<close>

definition leaveMoveResize :: "move_env \<Rightarrow> move_state \<Rightarrow> move_state outcome" where
  "leaveMoveResize E s =
     obind (setMoveResizeClient None s) (\<lambda>s1.
       let s2 = s1\<lparr>ms_enabled := False\<rparr>;
           s3 = (if mv_switchMoving E then ms_emit (ReserveSwitching False) s2 else s2)
       in Returns (if g_electricMaximizing (ms_geo s3) then ms_emit (Elevate False) (ms_emit OutlineHide s3) else s3))"

section \<open>Starting\<close>

definition check_unrestricted_move_resize :: "move_env \<Rightarrow> move_state \<Rightarrow> move_state" where
  "check_unrestricted_move_resize E s =
     (if ms_unrestricted s then s
      else
        let r = ms_geometry s; g = ms_geo s;
            a = po_area (mv_pos E) WorkArea (rcenter r);
            left_marge = min (100 + mright (g_border g)) (rwidth r);
            right_marge = min (100 + mleft (g_border g)) (rwidth r);
            titlebar_marge = rheight (ms_initial s);
            top_marge = mbottom (g_border g);
            bottom_marge = mtop (g_border g);
            resize = (op_is_resize s \<and>
              (rbottom r < rtop a + top_marge \<or> rtop r > rbottom a - bottom_marge \<or> rright r < rleft a + left_marge \<or>
               rleft r > rright a - right_marge \<or> rtop r < rtop a));
            move = (op_is_move s \<and>
              (rbottom r < rtop a + titlebar_marge - 1 \<or> rtop r > rbottom a - bottom_marge + 1 \<or>
               rright r < rleft a + left_marge \<or> rleft r > rright a - right_marge))
        in s\<lparr>ms_unrestricted := resize \<or> move\<rparr>)"

definition stop_delayed_move_resize :: "move_state \<Rightarrow> move_state" where
  "stop_delayed_move_resize s = s\<lparr>ms_delayTimer := False\<rparr>"

text \<open>The geometry at the start of a move, and of a resize.\<close>

definition start_geometry :: "move_env \<Rightarrow> move_state \<Rightarrow> wgeo outcome" where
  "start_geometry E s =
     (let g = geo_of E s; was_maxed_full = (g_maximizeMode g = MFull) in
      if ms_contact s = PCenter
      then Returns (if \<not> was_maxed_full \<and> g_quicktiling g = qt_none \<and> \<not> g_fullscreen g
                    then g\<lparr>g_restore := g_frameGeometry g\<rparr> else g)
      else
        let g0 = g\<lparr>g_restore := g_frameGeometry g\<rparr> in
        obind (if was_maxed_full then set_maximize (po_geo (mv_pos E)) False False g0 else Returns g0) (\<lambda>g1.
        obind (if g_quicktiling g1 \<noteq> qt_none
               then set_quicktile_mode (mv_pos E) (mv_window E) (ms_screen s) qt_none False g1 else Returns g1) (\<lambda>g2.
        Returns (g2\<lparr>g_restore := null_rect\<rparr>))))"

definition start_move_resize :: "move_env \<Rightarrow> move_state \<Rightarrow> (bool \<times> move_state) outcome" where
  "start_move_resize E s =
     oassert (\<not> ms_enabled s \<and> \<not> mv_grabbed E)
       (let s0 = stop_delayed_move_resize s in
        if mv_activePopup E then Returns (False, s0)
        else if w_fullscreen (mv_window E) \<and> (length (mv_outputs E) < 2 \<or> \<not> mv_acrossScreens E) then Returns (False, s0)
        else if \<not> mv_doStart E then Returns (False, s0)
        else
          let s1 = s0\<lparr>ms_doubleClick := False\<rparr> in
          obind (start_geometry E s1) (\<lambda>g.
          obind (setMoveResizeClient (Some (mv_addr E)) ((ms_setGeo g s1)\<lparr>ms_enabled := True\<rparr>)) (\<lambda>s2.
          let r = pending_frame_geometry (ms_geo s2);
              s3 = ms_emit Started (check_unrestricted_move_resize E
                     (s2\<lparr>ms_initial := r, ms_geometry := r, ms_startScreen := ms_screen s2\<rparr>))
          in Returns (True, if mv_switchMoving E then ms_emit (ReserveSwitching True) s3 else s3))))"

text \<open>What every caller does when the operation could not be started.\<close>

definition start_or_release :: "move_env \<Rightarrow> move_state \<Rightarrow> move_state outcome" where
  "start_or_release E s =
     obind (start_move_resize E s) (\<lambda>(ok, s'). Returns (update_cursor E (if ok then s' else s'\<lparr>ms_buttonDown := False\<rparr>)))"

section \<open>Restricted areas\<close>

text \<open>
  In restricted mode a part of the titlebar stays visible. \<open>avail\<close> are the rectangles of the full area without the struts, \<open>title\<close> the
  titlebar of a window at the origin; \<open>transposed\<close> is always false in the source.
\<close>

definition move_sign :: "int \<Rightarrow> int" where
  "move_sign v = (if v > 0 then 1 else 0) - (if v < 0 then 1 else 0)"

definition title_rect :: "wgeo \<Rightarrow> rect \<Rightarrow> rect" where
  "title_rect g r = mk_rect 0 0 (rwidth r) (mtop (g_border g))"

definition required_pixels :: "wgeo \<Rightarrow> rect \<Rightarrow> int" where
  "required_pixels g r = min (100 * rheight (title_rect g r)) (rwidth r * rheight r)"

definition real_visible_pixels :: "rect list \<Rightarrow> rect \<Rightarrow> int" where
  "real_visible_pixels avail t = sum_list (map (\<lambda>a. let r = rintersected a t in rwidth r * rheight r) avail)"

definition visible_pixels :: "rect list \<Rightarrow> rect \<Rightarrow> int" where
  "visible_pixels avail t =
     sum_list (map (\<lambda>a. let r = rintersected a t in if rheight r = rheight t then rwidth r * rheight r else 0) avail)"

abbreviation title_at :: "rect \<Rightarrow> rect \<Rightarrow> rect" where
  "title_at title r \<equiv> rtranslated (rtopLeft r) title"

text \<open>
  One step back to the previous geometry: of the edge with the title, or else of the left or the right edge. The change of
  the bottom edge, the counterpart of the title, is always ignored.
\<close>

definition resize_step :: "bool \<Rightarrow> rect \<Rightarrow> rect \<Rightarrow> rect option" where
  "resize_step titleFailed prev r =
     (if \<not> titleFailed \<and> rtop prev \<noteq> rtop r then Some (r\<lparr>rtop := rtop r + move_sign (rtop prev - rtop r)\<rparr>)
      else if rleft prev \<noteq> rleft r then Some (r\<lparr>rleft := rleft r + move_sign (rleft prev - rleft r)\<rparr>)
      else if rright prev \<noteq> rright r then Some (r\<lparr>rright := rright r + move_sign (rright prev - rright r)\<rparr>)
      else None)"

partial_function (option) restrict_resize ::
  "rect list \<Rightarrow> int \<Rightarrow> rect \<Rightarrow> rect \<Rightarrow> rect \<Rightarrow> rect \<Rightarrow> int \<Rightarrow> bool \<Rightarrow> rect option" where
  "restrict_resize avail required title prev r lastTry lastVisible titleFailed =
     (let vis = real_visible_pixels avail (title_at title r); worse = (vis \<le> lastVisible);
          r' = (if worse \<and> \<not> titleFailed then lastTry else r); failed = (titleFailed \<or> worse)
      in if visible_pixels avail (title_at title r) \<ge> required then Some r
         else if worse \<and> titleFailed \<and> vis < lastVisible then Some r
         else case resize_step failed prev r' of
             None \<Rightarrow> Some r'
           | Some r'' \<Rightarrow> restrict_resize avail required title prev r'' r' vis failed)"

text \<open>
  When a window is moved, a strut at the top of a screen pushes it down at once if there is more than one screen; otherwise the window goes back pixel by
  pixel.
\<close>

definition top_panel :: "rect \<Rightarrow> rect \<Rightarrow> bool" where
  "top_panel r p \<longleftrightarrow> rtop p = 0 \<and> rwidth p > rheight p \<and> rintersects p r \<and> rtop r < rbottom p"

definition new_title_top :: "bool \<Rightarrow> rect list \<Rightarrow> rect \<Rightarrow> int" where
  "new_title_top several struts r =
     (if several then (case find (top_panel r) struts of Some p \<Rightarrow> rbottom p + 1 | None \<Rightarrow> - 1) else - 1)"

definition back_step :: "bool \<Rightarrow> rect \<Rightarrow> rect \<Rightarrow> point" where
  "back_step visible prev r =
     (let dx = move_sign (rleft prev - rleft r); dy = move_sign (rtop prev - rtop r)
      in if visible \<and> dx \<noteq> 0 then (dx, 0) else if dy \<noteq> 0 then (0, dy) else (dx, dy))"

partial_function (option) restrict_move ::
  "rect list \<Rightarrow> int \<Rightarrow> rect \<Rightarrow> bool \<Rightarrow> rect list \<Rightarrow> rect \<Rightarrow> rect \<Rightarrow> rect option" where
  "restrict_move avail required title several struts prev r =
     (let vis = visible_pixels avail (title_at title r); t = new_title_top several struts r;
          r' = rtranslated (back_step (vis \<noteq> 0) prev r) r
      in if vis \<ge> required then Some r
         else if t > - 1 then Some (moveTop t r)
         else if r' = prev then Some r'
         else restrict_move avail required title several struts prev r')"

text \<open>The struts of a desktop on all sides, and the area without them.\<close>

definition all_struts :: "space \<Rightarrow> int \<Rightarrow> rect list outcome" where
  "all_struts S desktop =
     obind (restrictedMoveArea S desktop StrutAreaTop) (\<lambda>t.
     obind (restrictedMoveArea S desktop StrutAreaRight) (\<lambda>r.
     obind (restrictedMoveArea S desktop StrutAreaBottom) (\<lambda>b.
     obind (restrictedMoveArea S desktop StrutAreaLeft) (\<lambda>l. Returns (t @ r @ b @ l)))))"

definition available_area :: "move_env \<Rightarrow> (rect list \<times> rect list) outcome" where
  "available_area E =
     obind (clientArea (mv_space E) FullArea (- 1) 0) (\<lambda>full.
     obind (all_struts (mv_space E) (mv_desktop E)) (\<lambda>struts.
     Returns (mv_cut E [full] struts, mv_cut E struts [])))"

section \<open>Performing\<close>

text \<open>\<open>calculateMoveResizeGeom\<close> with the sides it takes from the pointer, and the size mode it sets.\<close>

definition rect_between :: "point \<Rightarrow> point \<Rightarrow> rect" where
  "rect_between p q = \<lparr>rleft = fst p, rtop = snd p, rright = fst q, rbottom = snd q\<rparr>"

fun calculate_geometry :: "position \<Rightarrow> point \<Rightarrow> point \<Rightarrow> rect \<Rightarrow> rect outcome" where
  "calculate_geometry PTopLeft nw se orig = Returns (rect_between nw (rright orig, rbottom orig))"
| "calculate_geometry PBottomRight nw se orig = Returns (rect_between (rleft orig, rtop orig) se)"
| "calculate_geometry PBottomLeft nw se orig = Returns (rect_between (fst nw, rtop orig) (rright orig, snd se))"
| "calculate_geometry PTopRight nw se orig = Returns (rect_between (rleft orig, snd nw) (fst se, rbottom orig))"
| "calculate_geometry PTop nw se orig = Returns (rect_between (rleft orig, snd nw) (rright orig, rbottom orig))"
| "calculate_geometry PBottom nw se orig = Returns (rect_between (rleft orig, rtop orig) (rright orig, snd se))"
| "calculate_geometry PLeft nw se orig = Returns (rect_between (fst nw, rtop orig) (rright orig, rbottom orig))"
| "calculate_geometry PRight nw se orig = Returns (rect_between (rleft orig, rtop orig) (fst se, rbottom orig))"
| "calculate_geometry PCenter nw se orig = Faults AssertFailed"

fun size_mode_of :: "position \<Rightarrow> size_mode" where
  "size_mode_of PTop = SizeFixedHeight"
| "size_mode_of PBottom = SizeFixedHeight"
| "size_mode_of PLeft = SizeFixedWidth"
| "size_mode_of PRight = SizeFixedWidth"
| "size_mode_of _ = SizeAny"

text \<open>The store with the current geometry of the window.\<close>

definition mv_current :: "move_env \<Rightarrow> move_state \<Rightarrow> wstore" where
  "mv_current E s = (mv_store E)(mv_addr E := (mv_window E)\<lparr>w_geo := geo_of E s\<rparr>)"

text \<open>The part of the resize before the size hints, and the one after.\<close>

definition resize_wanted :: "move_env \<Rightarrow> point \<Rightarrow> point \<Rightarrow> move_state \<Rightarrow> rect outcome" where
  "resize_wanted E nw se s =
     obind (calculate_geometry (ms_contact s) nw se (ms_initial s)) (\<lambda>r0.
     obind (adjustClientSize (mv_space E) (mv_snap E) (mv_current E s) (mv_clients E) (mv_addr E) r0 (ms_contact s)) (\<lambda>r1.
     if ms_unrestricted s then Returns r1
     else obind (available_area E) (\<lambda>(avail, struts).
       case restrict_resize avail (required_pixels (ms_geo s) r1) (title_rect (ms_geo s) r1) (ms_geometry s) r1 r1 (- 1) False of
         None \<Rightarrow> Diverges | Some r \<Rightarrow> Returns r)))"

definition resize_sized :: "position \<Rightarrow> (qsize \<Rightarrow> size_mode \<Rightarrow> qsize) \<Rightarrow> rect \<Rightarrow> rect outcome" where
  "resize_sized mode adjust r =
     (let sz = adjust (rsize r) (size_mode_of mode);
          nw = (rright r - fst sz + 1, rbottom r - snd sz + 1);
          se = (rleft r + fst sz - 1, rtop r + snd sz - 1);
          orig = (if size_mode_of mode = SizeFixedHeight then r\<lparr>rright := fst se\<rparr>
                  else if size_mode_of mode = SizeFixedWidth then r\<lparr>rbottom := snd se\<rparr> else r)
      in calculate_geometry mode nw se orig)"

text \<open>The geometry of a move: on the screen of the pointer for windows that cannot be moved freely.\<close>

definition move_fixed :: "move_env \<Rightarrow> point \<Rightarrow> move_state \<Rightarrow> rect outcome" where
  "move_fixed E pointer s =
     (let screen = screens_number (mv_outputs E) pointer in
      if w_fullscreen (mv_window E) then clientArea (mv_space E) FullScreenArea screen 0
      else obind (clientArea (mv_space E) MaximizeArea screen 0) (\<lambda>a.
        let sz = g_adjust (ms_geo s) (rsize a) SizeMax in
        Returns (if sz \<noteq> rsize a then moveCenter (rcenter a) (setSize sz a) else a)))"

definition move_wanted :: "move_env \<Rightarrow> point \<Rightarrow> move_state \<Rightarrow> rect outcome" where
  "move_wanted E nw s =
     (let r0 = moveTopLeft nw (ms_geometry s) in
      obind (adjustClientPosition (mv_space E) (mv_snap E) id (mv_current E s) (mv_clients E) (mv_addr E) (rtopLeft r0) (ms_unrestricted s)) (\<lambda>p.
      let r1 = moveTopLeft p r0 in
      if ms_unrestricted s then Returns r1
      else obind (available_area E) (\<lambda>(avail, struts).
        case restrict_move avail (required_pixels (ms_geo s) r1) (title_rect (ms_geo s) r1) (length (mv_outputs E) > 1) struts (ms_geometry s) r1 of
          None \<Rightarrow> Diverges | Some r \<Rightarrow> Returns r)))"

definition perform_move_resize :: "move_state \<Rightarrow> move_state" where
  "perform_move_resize s =
     ms_emit (Stepped (ms_geometry s))
       (if op_is_move s then ms_setGeo (setFrameGeometry (ms_geometry s) (ms_geo s)) s else s)"

text \<open>The second half of \<open>move_resize_impl\<close>, once the operation is running.\<close>

definition move_resize_running :: "move_env \<Rightarrow> point \<Rightarrow> move_state \<Rightarrow> move_state outcome" where
  "move_resize_running E pointer s =
     (let nw = (fst pointer - fst (ms_offset s), snd pointer - snd (ms_offset s));
          se = (fst pointer + fst (ms_inverted s), snd pointer + snd (ms_inverted s));
          prev = ms_geometry s
      in if op_is_resize s
         then obind (resize_wanted E nw se s) (\<lambda>r0.
           obind (resize_sized (ms_contact s) (g_adjust (ms_geo s)) r0) (\<lambda>r.
           let s1 = s\<lparr>ms_geometry := r\<rparr> in
           Returns (if rsize r = rsize prev then s1
                    else if \<not> mv_resizeEffect E then ms_setGeo (mv_resizeSync E r (ms_geo s1)) s1
                    else perform_move_resize s1)))
         else if op_is_move s
         then obind (if \<not> g_movable (ms_geo s) then move_fixed E pointer s else move_wanted E nw s) (\<lambda>r.
           let s1 = s\<lparr>ms_geometry := r\<rparr> in
           Returns (if rtopLeft r = rtopLeft prev then s1 else ms_emit (EdgeCheck pointer) (perform_move_resize s1)))
         else Faults AssertFailed)"

definition move_resize_impl :: "move_env \<Rightarrow> point \<Rightarrow> point \<Rightarrow> move_state \<Rightarrow> move_state outcome" where
  "move_resize_impl E loc pointer s =
     (if mv_waiting E then Returns s
      else if (ms_contact s = PCenter \<and> \<not> mv_acrossScreens E) \<or> (ms_contact s \<noteq> PCenter \<and> \<not> mv_resizable E (ms_contact s)) then Returns s
      else if ms_enabled s then move_resize_running E pointer s
      else if manhattanLength (fst loc - fst (ms_offset s), snd loc - snd (ms_offset s)) \<ge> mv_dragDistance E
      then obind (start_or_release E s) (\<lambda>s'. if ms_enabled s' then move_resize_running E pointer s' else Returns s')
      else Returns s)"

text \<open>
  The zone the pointer is in: the tile it selects, and whether the border it is at lies between two screens.
\<close>

definition zone_tile :: "move_env \<Rightarrow> bool \<Rightarrow> nat \<Rightarrow> rect \<Rightarrow> point \<Rightarrow> quicktiles \<times> bool" where
  "zone_tile E maximizable i area p =
     (let x = fst p; y = snd p;
          in_screen = (\<lambda>q. \<exists>j \<in> set [0..<length (mv_outputs E)]. j \<noteq> i \<and> rcontains_point (mv_outputs E ! j) q);
          left = (mv_tiling E \<and> x \<le> rleft area + 20);
          right = (mv_tiling E \<and> \<not> left \<and> x \<ge> rleft area + rwidth area - 20);
          c = mv_corner E (rheight area)
      in if left \<or> right
         then (\<lparr>qt_left = left, qt_right = right, qt_top = (y \<le> rtop area + c),
                qt_bottom = (\<not> y \<le> rtop area + c \<and> y \<ge> rtop area + rheight area - c)\<rparr>,
               in_screen (if left then (rleft area - 1, y) else (rright area + 1, y)))
         else if mv_maximizing E \<and> y \<le> rtop area + 5 \<and> maximizable then (qt_maximize, in_screen (x, rtop area - 1))
         else (qt_none, False))"

definition check_quicktile_maximization_zones :: "move_env \<Rightarrow> point \<Rightarrow> move_state \<Rightarrow> move_state" where
  "check_quicktile_maximization_zones E p s =
     (let g = geo_of E s;
          (mode, inner) = (case find (\<lambda>i. rcontains_point (mv_outputs E ! i) p) [0..<length (mv_outputs E)] of
              None \<Rightarrow> (qt_none, False)
            | Some i \<Rightarrow> zone_tile E (g_maximizable g) i (po_area (mv_pos E) MaximizeArea p) p)
      in if mode \<noteq> g_electric g
         then (let s1 = ms_setGeo (set_electric mode (ms_geo s)) s in
           if inner then delayed_electric_maximize s1 else set_electric_maximizing E (mode \<noteq> qt_none) s1)
         else s)"

text \<open>A window that was tiled is restored under the pointer, and moved again.\<close>

definition untile_and_move :: "move_env \<Rightarrow> point \<Rightarrow> point \<Rightarrow> rect \<Rightarrow> rect \<Rightarrow> move_state \<Rightarrow> move_state outcome" where
  "untile_and_move E loc pointer old restore s =
     obind (on_geo E (set_quicktile_mode (mv_pos E) (mv_window E) (ms_screen s) qt_none False) s) (\<lambda>s1.
     let r = (if rvalid restore then restore else g_frameGeometry (ms_geo s1));
         s2 = s1\<lparr>ms_offset := (mv_scale E (fst (ms_offset s1)) (rwidth old) (rwidth r), mv_scale E (snd (ms_offset s1)) (rheight old) (rheight r))\<rparr>;
         s3 = (if g_checkMaximize (ms_geo s2) MRestore = MRestore then s2\<lparr>ms_geometry := r\<rparr> else s2)
     in move_resize_impl E loc pointer s3)"

definition move_resize :: "move_env \<Rightarrow> point \<Rightarrow> point \<Rightarrow> move_state \<Rightarrow> move_state outcome" where
  "move_resize E loc pointer s =
     (let old = g_frameGeometry (ms_geo s); restore = g_restore (ms_geo s) in
      obind (move_resize_impl E loc pointer s) (\<lambda>s1.
      if w_fullscreen (mv_window E) \<or> \<not> op_is_move s1 then Returns s1
      else if g_quicktiling (ms_geo s1) = qt_none
      then Returns (if mv_resizable E (ms_contact s1) then check_quicktile_maximization_zones E pointer s1 else s1)
      else if old = g_frame (ms_geo s1) then Returns s1
      else with_move_blocker (untile_and_move E loc pointer old restore) s1))"

definition update_move_resize :: "move_env \<Rightarrow> point \<Rightarrow> move_state \<Rightarrow> move_state outcome" where
  "update_move_resize E pointer s = move_resize E (rtopLeft (g_frameGeometry (ms_geo s))) pointer s"

section \<open>Finishing\<close>

text \<open>The geometry at the end: the initial one when cancelled, otherwise the last one.\<close>

definition finish_geometry :: "move_env \<Rightarrow> bool \<Rightarrow> bool \<Rightarrow> move_state \<Rightarrow> move_state outcome" where
  "finish_geometry E was_resize cancel s =
     (if cancel then Returns (ms_setGeo (setFrameGeometry (ms_initial s) (ms_geo s)) s)
      else
        let r = ms_geometry s; mode0 = g_max_mode (ms_geo s);
            mode = (if (mode0 = MHorizontal \<and> rwidth r \<noteq> rwidth (ms_initial s)) \<or>
                       (mode0 = MVertical \<and> rheight r \<noteq> rheight (ms_initial s)) then MRestore else mode0)
        in obind (if was_resize then on_geo E (update_maximized (po_geo (mv_pos E)) mode) s else Returns s) (\<lambda>s1.
             Returns (ms_setGeo (setFrameGeometry r (ms_geo s1)) s1)))"

text \<open>
  A window that has changed the screen is sent to it, because a rule may demand another one.
\<close>

definition finish_screen :: "move_env \<Rightarrow> move_state \<Rightarrow> move_state outcome" where
  "finish_screen E s =
     (if ms_screen s = ms_startScreen s then Returns s
      else obind (on_geo E (send_geometry_to_screen (mv_pos E) (mv_space E) (mv_window E) (ms_screen s) (mv_checkScreen E (ms_screen s)))
               (ms_emit (SentToScreen (mv_checkScreen E (ms_screen s))) s)) (\<lambda>s1.
        if g_max_mode (ms_geo s1) \<noteq> MRestore
        then on_geo E (check_workspace_position (mv_pos E) (mv_window E) null_rect null_rect) s1
        else Returns s1))"

definition finish_tile :: "move_env \<Rightarrow> move_state \<Rightarrow> move_state outcome" where
  "finish_tile E s =
     (if g_electricMaximizing (ms_geo s)
      then obind (on_geo E (set_quicktile_mode (mv_pos E) (mv_window E) (ms_screen s) (g_electric (ms_geo s)) False) s) (\<lambda>s1.
        Returns (set_electric_maximizing E False s1))
      else Returns s)"

definition finish_body :: "move_env \<Rightarrow> bool \<Rightarrow> move_state \<Rightarrow> move_state outcome" where
  "finish_body E cancel s =
     obind (leaveMoveResize E (s\<lparr>ms_enabled := False\<rparr>)) (\<lambda>s1.
     obind (finish_geometry E (op_is_resize s) cancel s1) (\<lambda>s2.
     obind (finish_screen E (toplevel_checkScreen (mv_outputs E) s2)) (\<lambda>s3.
     obind (finish_tile E s3) (\<lambda>s4.
     let g = ms_geo s4;
         s5 = (if g_max_mode g = MRestore \<and> g_quicktiling g = qt_none \<and> \<not> g_fullscreen g
               then ms_setGeo (g\<lparr>g_restore := null_rect\<rparr>) s4 else s4)
     in Returns (ms_emit Finished s5)))))"

definition finish_move_resize :: "move_env \<Rightarrow> bool \<Rightarrow> move_state \<Rightarrow> move_state outcome" where
  "finish_move_resize E cancel s = with_move_blocker (finish_body E cancel) s"

definition end_move_resize :: "move_env \<Rightarrow> move_state \<Rightarrow> move_state outcome" where
  "end_move_resize E s =
     (let s0 = stop_delayed_move_resize (s\<lparr>ms_buttonDown := False\<rparr>) in
      if ms_enabled s0
      then obind (finish_move_resize E False s0) (\<lambda>s1. Returns (update_cursor E (s1\<lparr>ms_contact := mv_mouse E\<rparr>)))
      else Returns (update_cursor E s0))"

text \<open>The timer of a press on the titlebar, and what it does when it fires.\<close>

definition start_delayed_move_resize :: "move_state \<Rightarrow> move_state outcome" where
  "start_delayed_move_resize s = oassert (\<not> ms_delayTimer s) (Returns (s\<lparr>ms_delayTimer := True\<rparr>))"

definition delay_timeout :: "move_env \<Rightarrow> move_state \<Rightarrow> move_state outcome" where
  "delay_timeout E s =
     oassert (ms_buttonDown s) (obind (start_or_release E s) (\<lambda>s'. Returns (stop_delayed_move_resize s')))"

end
