(* ===== verification/Move_Events.thy ===== *)
theory Move_Events
  imports Move_Resize
begin

text \<open>
  The events that drive moving and resizing: key presses, mouse commands and presses on the decoration (\<^verbatim>\<open>win/input.h\<close>), the requests of
  X11 and Wayland clients (\<^verbatim>\<open>win/x11/event.h\<close>, \<^verbatim>\<open>win/wayland/xdg_shell.h\<close>) and the input filter that redirects all input to the
  operation while it runs (\<^verbatim>\<open>input.cpp\<close>).
\<close>

section \<open>Keys\<close>

datatype move_key = KeyLeft | KeyRight | KeyUp | KeyDown | KeySpace | KeyReturn | KeyEnter | KeyEscape | KeyOther

definition key_finish :: "move_env \<Rightarrow> bool \<Rightarrow> move_state \<Rightarrow> move_state outcome" where
  "key_finish E cancel s =
     obind (finish_move_resize E cancel (s\<lparr>ms_buttonDown := False\<rparr>)) (\<lambda>s'.
       Returns (ms_emit (PointerSet (mv_pointer E)) (update_cursor E s')))"

definition key_press_event :: "move_env \<Rightarrow> bool \<Rightarrow> bool \<Rightarrow> move_key \<Rightarrow> move_state \<Rightarrow> move_state outcome" where
  "key_press_event E ctrl alt key s =
     (let delta = (if ctrl then 1 else if alt then 32 else 8); x = fst (mv_pointer E); y = snd (mv_pointer E) in
      if \<not> op_is_move s \<and> \<not> op_is_resize s then Returns s
      else case key of
          KeyLeft \<Rightarrow> Returns (ms_emit (PointerSet (x - delta, y)) s)
        | KeyRight \<Rightarrow> Returns (ms_emit (PointerSet (x + delta, y)) s)
        | KeyUp \<Rightarrow> Returns (ms_emit (PointerSet (x, y - delta)) s)
        | KeyDown \<Rightarrow> Returns (ms_emit (PointerSet (x, y + delta)) s)
        | KeySpace \<Rightarrow> key_finish E False s
        | KeyReturn \<Rightarrow> key_finish E False s
        | KeyEnter \<Rightarrow> key_finish E False s
        | KeyEscape \<Rightarrow> key_finish E True s
        | KeyOther \<Rightarrow> Returns s)"

section \<open>Mouse commands\<close>

datatype mouse_command = MouseRaise | MouseLower | MouseOperationsMenu | MouseToggleRaiseAndLower
  | MouseActivateAndRaise | MouseActivateAndLower | MouseActivate
  | MouseActivateRaiseAndPassClick | MouseActivateAndPassClick
  | MouseMove | MouseUnrestrictedMove
  | MouseActivateRaiseAndMove | MouseActivateRaiseAndUnrestrictedMove
  | MouseResize | MouseUnrestrictedResize
  | MouseMaximize | MouseRestore | MouseMinimize
  | MouseNextDesktop | MousePreviousDesktop
  | MouseAbove | MouseBelow
  | MouseOpacityMore | MouseOpacityLess
  | MouseClose
  | MouseNothing

text \<open>What the handlers ask the workspace and the options for.\<close>

record input_env =
  ie_move :: move_env
  ie_underMouse :: "addr option"
  ie_focusReasonable :: bool
  ie_clickRaise :: bool
  ie_acceptsFocus :: bool
  ie_stacking :: "addr list"
  ie_activeTitlebar :: "nat \<Rightarrow> mouse_command"
  ie_inactiveTitlebar :: "nat \<Rightarrow> mouse_command"
  ie_titlebarUnderMouse :: bool

definition pointer_offset :: "point \<Rightarrow> move_state \<Rightarrow> point" where
  "pointer_offset p s = (fst p - rleft (g_frameGeometry (ms_geo s)), snd p - rtop (g_frameGeometry (ms_geo s)))"

definition inverted_offset :: "point \<Rightarrow> move_state \<Rightarrow> point" where
  "inverted_offset off s = (rwidth (g_frameGeometry (ms_geo s)) - 1 - fst off, rheight (g_frameGeometry (ms_geo s)) - 1 - snd off)"

definition finish_running :: "move_env \<Rightarrow> move_state \<Rightarrow> move_state outcome" where
  "finish_running E s = (if ms_enabled s then finish_move_resize E False s else Returns s)"

definition move_command :: "move_env \<Rightarrow> bool \<Rightarrow> point \<Rightarrow> move_state \<Rightarrow> move_state outcome" where
  "move_command E unrestricted p s =
     (if \<not> mv_acrossScreens E then Returns s
      else obind (finish_running E s) (\<lambda>s1.
        start_or_release E (s1\<lparr>ms_contact := PCenter, ms_buttonDown := True, ms_offset := pointer_offset p s1,
          ms_inverted := inverted_offset (pointer_offset p s1) s1, ms_unrestricted := unrestricted\<rparr>)))"

text \<open>The contact of a resize: thirds of the window, and halves in the middle.\<close>

definition resize_contact :: "point \<Rightarrow> qsize \<Rightarrow> position" where
  "resize_contact off sz =
     (let x = fst off; y = snd off;
          left = (x < tdiv (fst sz) 3); right = (x \<ge> tdiv (2 * fst sz) 3);
          upper = (y < tdiv (snd sz) 3); lower = (y \<ge> tdiv (2 * snd sz) 3)
      in if upper then (if left then PTopLeft else if right then PTopRight else PTop)
         else if lower then (if left then PBottomLeft else if right then PBottomRight else PBottom)
         else if x < tdiv (fst sz) 2 then PLeft else PRight)"

definition resize_command :: "move_env \<Rightarrow> bool \<Rightarrow> point \<Rightarrow> move_state \<Rightarrow> move_state outcome" where
  "resize_command E unrestricted p s =
     (if \<not> mv_resizable E (ms_contact s) then Returns s
      else obind (finish_running E s) (\<lambda>s1.
        let off = pointer_offset p s1 in
        start_or_release E (s1\<lparr>ms_buttonDown := True, ms_offset := off,
          ms_contact := resize_contact off (rsize (g_frameGeometry (ms_geo s1))),
          ms_inverted := inverted_offset off s1, ms_unrestricted := unrestricted\<rparr>)))"

text \<open>
  Whether a click that activates has to be passed on, because no window in the way is raised above: the windows from the top
  down to the clicked one, without the lowest.
\<close>

fun must_replay :: "desk_view \<Rightarrow> wstore \<Rightarrow> addr \<Rightarrow> addr list \<Rightarrow> bool" where
  "must_replay D W a [] = True"
| "must_replay D W a (b # bs) =
     (if b = a then True
      else if \<not> w_control (W b) \<or> (w_keep_above (W b) \<and> \<not> w_keep_above (W a)) \<or> (w_keep_below (W a) \<and> \<not> w_keep_below (W b))
      then must_replay D W a bs
      else if on_current_desktop D (W b) \<and> w_onCurrentActivity (W b) \<and> rintersects (w_frameGeometry (W b)) (w_frameGeometry (W a))
      then False
      else must_replay D W a bs)"

definition request_focus_at :: "input_env \<Rightarrow> bool \<Rightarrow> point \<Rightarrow> move_state \<Rightarrow> move_state" where
  "request_focus_at I raise p s = ms_emit (CallSetCurrentScreen p) (ms_emit (CallRequestFocus (mv_addr (ie_move I)) raise) s)"

text \<open>\<open>perform_mouse_command\<close>; the result tells whether the event has to be replayed to the window.\<close>

definition perform_mouse_command :: "input_env \<Rightarrow> mouse_command \<Rightarrow> point \<Rightarrow> move_state \<Rightarrow> (bool \<times> move_state) outcome" where
  "perform_mouse_command I cmd p s =
     (let E = ie_move I; a = mv_addr E; w = mv_window E;
          unfocusable = (\<not> w_checkAcceptFocus w (ie_acceptsFocus I));
          done = (\<lambda>s'. Returns (False, s'));
          after = (\<lambda>m. obind m (\<lambda>s'. Returns (False, s')))
      in case cmd of
          MouseRaise \<Rightarrow> done (ms_emit CallRaise s)
        | MouseLower \<Rightarrow>
            let s1 = ms_emit CallLower s in
            done (case ie_underMouse I of
                Some b \<Rightarrow> if w_active w \<and> ie_focusReasonable I \<and> b \<noteq> a then ms_emit (CallRequestFocus b False) s1 else s1
              | None \<Rightarrow> s1)
        | MouseOperationsMenu \<Rightarrow>
            done (ms_emit (CallWindowMenu p) (if w_active w \<and> ie_clickRaise I then ms_emit CallAutoRaise s else s))
        | MouseToggleRaiseAndLower \<Rightarrow> done (ms_emit CallRaiseOrLower s)
        | MouseActivateAndRaise \<Rightarrow>
            Returns (w_active w \<or> unfocusable \<and>
                must_replay (sp_desk (mv_space E)) (mv_store E) a (rev (drop 1 (ie_stacking I))), request_focus_at I True p s)
        | MouseActivateAndLower \<Rightarrow>
            Returns (unfocusable, ms_emit (CallSetCurrentScreen p) (ms_emit CallLower (ms_emit (CallRequestFocus a False) s)))
        | MouseActivate \<Rightarrow> Returns (w_active w \<or> unfocusable, request_focus_at I False p s)
        | MouseActivateRaiseAndPassClick \<Rightarrow> Returns (True, request_focus_at I True p s)
        | MouseActivateAndPassClick \<Rightarrow> Returns (True, request_focus_at I False p s)
        | MouseMaximize \<Rightarrow> after (on_geo E (win_maximize (po_geo (mv_pos E)) MFull) s)
        | MouseRestore \<Rightarrow> after (on_geo E (win_maximize (po_geo (mv_pos E)) MRestore) s)
        | MouseMinimize \<Rightarrow> done (ms_emit CallMinimize s)
        | MouseAbove \<Rightarrow> done (ms_emit (if w_keep_below w then CallKeepBelow False else CallKeepAbove True) s)
        | MouseBelow \<Rightarrow> done (ms_emit (if w_keep_above w then CallKeepAbove False else CallKeepBelow True) s)
        | MousePreviousDesktop \<Rightarrow> done (ms_emit CallPreviousDesktop s)
        | MouseNextDesktop \<Rightarrow> done (ms_emit CallNextDesktop s)
        | MouseOpacityMore \<Rightarrow> done (if is_desktop w then s else ms_emit CallOpacityMore s)
        | MouseOpacityLess \<Rightarrow> done (if is_desktop w then s else ms_emit CallOpacityLess s)
        | MouseClose \<Rightarrow> done (ms_emit CallClose s)
        | MouseActivateRaiseAndMove \<Rightarrow> after (move_command E False p (request_focus_at I False p (ms_emit CallRaise s)))
        | MouseActivateRaiseAndUnrestrictedMove \<Rightarrow> after (move_command E True p (request_focus_at I False p (ms_emit CallRaise s)))
        | MouseMove \<Rightarrow> after (move_command E False p s)
        | MouseUnrestrictedMove \<Rightarrow> after (move_command E True p s)
        | MouseResize \<Rightarrow> after (resize_command E False p s)
        | MouseUnrestrictedResize \<Rightarrow> after (resize_command E True p s)
        | MouseNothing \<Rightarrow> Returns (True, s))"

section \<open>The decoration\<close>

text \<open>
  A press with a button (1 left, 2 middle, 3 right) at \<open>loc\<close> in the decoration. \<open>expired\<close> tells whether more than the interval of a double click has
  passed since the last press.
\<close>

definition double_clicked :: "input_env \<Rightarrow> nat \<Rightarrow> bool \<Rightarrow> move_state \<Rightarrow> bool" where
  "double_clicked I button expired s \<longleftrightarrow> button = 1 \<and> ie_titlebarUnderMouse I \<and> ms_doubleClick s \<and> \<not> expired"

definition titlebar_command :: "input_env \<Rightarrow> nat \<Rightarrow> mouse_command" where
  "titlebar_command I button =
     (let w = mv_window (ie_move I); active = (w_active w \<or> \<not> w_wantsInput w) in
      if button \<in> {1, 2, 3} then (if active then ie_activeTitlebar I button else ie_inactiveTitlebar I button) else MouseNothing)"

definition press_prepare :: "move_env \<Rightarrow> point \<Rightarrow> move_state \<Rightarrow> move_state outcome" where
  "press_prepare E loc s =
     obind (start_delayed_move_resize (s\<lparr>ms_contact := mv_mouse E, ms_buttonDown := True, ms_offset := loc,
       ms_inverted := inverted_offset loc s, ms_unrestricted := False\<rparr>)) (\<lambda>s'. Returns (update_cursor E s'))"

definition process_decoration_button_press ::
  "input_env \<Rightarrow> nat \<Rightarrow> point \<Rightarrow> point \<Rightarrow> bool \<Rightarrow> bool \<Rightarrow> move_state \<Rightarrow> (bool \<times> move_state) outcome" where
  "process_decoration_button_press I button loc p expired ignoreMenu s =
     (let E = ie_move I; cmd = titlebar_command I button in
      if double_clicked I button expired s
      then obind (end_move_resize E (ms_emit CallWindowOperation (s\<lparr>ms_doubleClick := False\<rparr>))) (\<lambda>s'. Returns (False, s'))
      else
        let s0 = (if button = 1 \<and> ie_titlebarUnderMouse I then s\<lparr>ms_doubleClick := True\<rparr> else s) in
        obind (if button = 1 \<and> cmd \<noteq> MouseOperationsMenu \<and> cmd \<noteq> MouseMinimize then press_prepare E loc s0 else Returns s0) (\<lambda>s1.
        obind (if \<not> ignoreMenu \<or> cmd \<noteq> MouseOperationsMenu
               then obind (perform_mouse_command I cmd p s1) (\<lambda>r. Returns (snd r)) else Returns s1) (\<lambda>s2.
        Returns (cmd \<notin> {MouseRaise, MouseOperationsMenu, MouseActivateAndRaise, MouseActivate, MouseActivateRaiseAndPassClick,
                   MouseActivateAndPassClick, MouseNothing}, s2))))"

definition process_decoration_move :: "move_env \<Rightarrow> point \<Rightarrow> point \<Rightarrow> move_state \<Rightarrow> move_state outcome" where
  "process_decoration_move E loc p s =
     (if ms_buttonDown s then move_resize_impl E loc p s
      else Returns (if mv_mouse E \<noteq> ms_contact s then update_cursor E (s\<lparr>ms_contact := mv_mouse E\<rparr>) else s))"

text \<open>\<open>decorated\<close>: there is a decoration; \<open>accepted\<close>: it has used the event; \<open>released\<close>: no button is pressed any more.\<close>

definition process_decoration_button_release :: "input_env \<Rightarrow> bool \<Rightarrow> bool \<Rightarrow> bool \<Rightarrow> move_state \<Rightarrow> move_state outcome" where
  "process_decoration_button_release I decorated accepted released s =
     (let s0 = (if decorated \<and> (accepted \<or> \<not> ie_titlebarUnderMouse I) then s\<lparr>ms_doubleClick := False\<rparr> else s) in
      if released then end_move_resize (ie_move I) s0 else Returns s0)"

section \<open>Requests of clients\<close>

definition handle_move_request :: "input_env \<Rightarrow> move_state \<Rightarrow> move_state outcome" where
  "handle_move_request I s = obind (perform_mouse_command I MouseMove (mv_pointer (ie_move I)) s) (\<lambda>r. Returns (snd r))"

text \<open>The edges of the Wayland request as flags.\<close>

definition edges_position :: "bool \<Rightarrow> bool \<Rightarrow> bool \<Rightarrow> bool \<Rightarrow> position" where
  "edges_position left right upper lower =
     (if upper then (if left then PTopLeft else if right then PTopRight else PTop)
      else if lower then (if left then PBottomLeft else if right then PBottomRight else PBottom)
      else if left then PLeft else if right then PRight else PCenter)"

definition handle_resize_request :: "move_env \<Rightarrow> position \<Rightarrow> move_state \<Rightarrow> move_state outcome" where
  "handle_resize_request E contact s =
     (if \<not> mv_resizable E (ms_contact s) then Returns s
      else obind (finish_running E s) (\<lambda>s1.
        let off = pointer_offset (mv_pointer E) s1 in
        start_or_release E (s1\<lparr>ms_buttonDown := True, ms_unrestricted := False, ms_offset := off,
          ms_inverted := inverted_offset off s1, ms_contact := contact\<rparr>)))"

datatype net_direction = NetMove | NetCancel | NetResize position | NetKeyboardSize | NetKeyboardMove

text \<open>\<open>_NET_WM_MOVERESIZE\<close>. The inverted offset of a resize is computed from the size itself.\<close>

definition net_move_resize :: "input_env \<Rightarrow> point \<Rightarrow> net_direction \<Rightarrow> move_state \<Rightarrow> move_state outcome" where
  "net_move_resize I p dir s =
     (let E = ie_move I; f = g_frameGeometry (ms_geo s);
          command = (\<lambda>cmd q s'. obind (perform_mouse_command I cmd q s') (\<lambda>r. Returns (snd r)))
      in case dir of
          NetMove \<Rightarrow> command MouseMove p (ms_emit (PointerSet p) s)
        | NetCancel \<Rightarrow>
            if ms_enabled s
            then obind (finish_move_resize E True s) (\<lambda>s1. Returns (update_cursor E (s1\<lparr>ms_buttonDown := False\<rparr>)))
            else Returns s
        | NetResize contact \<Rightarrow>
            if \<not> mv_resizable E (ms_contact s) then Returns s
            else obind (finish_running E s) (\<lambda>s1.
              let off = pointer_offset p s1; r = g_frameGeometry (ms_geo s1) in
              start_or_release E (s1\<lparr>ms_buttonDown := True, ms_offset := off,
                ms_inverted := (rwidth r - fst off, rheight r - snd off), ms_unrestricted := False, ms_contact := contact\<rparr>))
        | NetKeyboardMove \<Rightarrow> command MouseUnrestrictedMove (rcenter f) (ms_emit (PointerSet (rcenter f)) s)
        | NetKeyboardSize \<Rightarrow>
            command MouseUnrestrictedResize (rright f, rbottom f) (ms_emit (PointerSet (rright f, rbottom f)) s))"

section \<open>The input filter\<close>

text \<open>
  \<open>MoveResizeFilter\<close> sends every event to the window that is operated on. The result tells whether the event is
  consumed; the touch point that moves the window is remembered.
\<close>

definition filter_pointer_move :: "move_env \<Rightarrow> point \<Rightarrow> move_state \<Rightarrow> (bool \<times> move_state) outcome" where
  "filter_pointer_move E p s =
     (if ms_movingClient s = None then Returns (False, s)
      else obind (update_move_resize E p s) (\<lambda>s'. Returns (True, s')))"

definition filter_button_release :: "move_env \<Rightarrow> bool \<Rightarrow> move_state \<Rightarrow> (bool \<times> move_state) outcome" where
  "filter_button_release E released s =
     (if ms_movingClient s = None then Returns (False, s)
      else obind (if released then end_move_resize E s else Returns s) (\<lambda>s'. Returns (True, s')))"

definition filter_key :: "move_env \<Rightarrow> bool \<Rightarrow> bool \<Rightarrow> move_key \<Rightarrow> move_state \<Rightarrow> (bool \<times> move_state) outcome" where
  "filter_key E ctrl alt key s =
     (if ms_movingClient s = None then Returns (False, s)
      else obind (key_press_event E ctrl alt key s) (\<lambda>s1.
        obind (if op_is_move s1 \<or> op_is_resize s1 then update_move_resize E (mv_pointer E) s1 else Returns s1) (\<lambda>s2.
        Returns (True, s2))))"

type_synonym touch_point = "int \<times> bool"

definition filter_touch_motion :: "move_env \<Rightarrow> int \<Rightarrow> point \<Rightarrow> touch_point \<times> move_state \<Rightarrow> (bool \<times> touch_point \<times> move_state) outcome" where
  "filter_touch_motion E i p ts =
     (let t = (if snd (fst ts) then fst ts else (i, True)); s = snd ts in
      if ms_movingClient s = None then Returns (False, ts)
      else obind (if fst t = i then update_move_resize E p s else Returns s) (\<lambda>s'. Returns (True, t, s')))"

definition filter_touch_up :: "move_env \<Rightarrow> int \<Rightarrow> touch_point \<times> move_state \<Rightarrow> (bool \<times> touch_point \<times> move_state) outcome" where
  "filter_touch_up E i ts =
     (let t = fst ts; s = snd ts in
      if ms_movingClient s = None then Returns (False, ts)
      else if fst t = i \<or> \<not> snd t
      then obind (end_move_resize E s) (\<lambda>s'. Returns (False, (fst t, False), s'))
      else Returns (True, (fst t, False), s))"

end
