(* ===== verification/Snapping_Properties.thy ===== *)
theory Snapping_Properties
  imports Snapping
begin

text \<open>
  What snapping does to a coordinate: it is kept, or the window ends on a \<^emph>\<open>snap line\<close> that is within the zone of the line.
  Then what resizing with snapping keeps, and some places where the code does not do what its options say.
\<close>

section \<open>Snap lines of a moved window\<close>

text \<open>
  A line is a coordinate with the width of its zone. The lines of one axis are the borders of the area with the margins of the window,
  the edges of the other windows and the center.
\<close>

definition border_lines :: "int \<Rightarrow> int \<Rightarrow> int \<Rightarrow> int \<Rightarrow> int \<Rightarrow> int \<Rightarrow> (int \<times> int) set" where
  "border_lines zone lo hi w m_lo m_hi = {(lo - m_lo, zone + \<bar>m_lo\<bar>), (hi - w + m_hi, zone + \<bar>m_hi\<bar>)}"

definition window_lines :: "int \<Rightarrow> int \<Rightarrow> int \<Rightarrow> int \<Rightarrow> (int \<times> int) set" where
  "window_lines zone w l lr = {(lr, zone), (l - w, zone), (l, zone), (lr - w, zone)}"

definition center_line :: "int \<Rightarrow> int \<Rightarrow> int \<Rightarrow> int \<Rightarrow> int \<times> int" where
  "center_line zone lo hi w = (tdiv (lo + hi) 2 - tdiv w 2, zone)"

definition snapped :: "(int \<times> int) set \<Rightarrow> int \<Rightarrow> int \<Rightarrow> bool" where
  "snapped L c n \<longleftrightarrow> n = c \<or> (\<exists>z. (n, z) \<in> L \<and> \<bar>n - c\<bar> < z)"

lemma snapped_kept [simp]: "snapped L c c"
  by (simp add: snapped_def)

lemma snapped_mono: "snapped L c n \<Longrightarrow> L \<subseteq> M \<Longrightarrow> snapped M c n"
  by (auto simp: snapped_def)

lemma snapped_line: "(n, z) \<in> L \<Longrightarrow> \<bar>n - c\<bar> < z \<Longrightarrow> snapped L c n"
  by (auto simp: snapped_def)

lemma closer_snapped:
  assumes "snapped L c (fst nd)" and "(n, snap) \<in> L" and "dist = \<bar>n - c\<bar>"
  shows "snapped L c (fst (closer ok dist snap n nd))"
  using assms by (auto simp: closer_def intro: snapped_line)

lemma if_snapped:
  "(b \<Longrightarrow> snapped L c (fst x)) \<Longrightarrow> snapped L c (fst y) \<Longrightarrow> snapped L c (fst (if b then x else y))"
  by simp

lemma border_axis_snapped:
  "snapped (border_lines snap lo hi w m_lo m_hi) c (fst (snap_border_axis s snap lo hi c w m_lo m_hi))"
  by (auto simp: snap_border_axis_def border_lines_def Let_def intro: snapped_line)

lemma outer_snapped:
  assumes "snapped L c (fst nd)" and "window_lines snap w l lr \<subseteq> L"
  shows "snapped L c (fst (snap_outer s snap c w l lr nd))"
  using assms unfolding snap_outer_def window_lines_def by (intro closer_snapped; (assumption | linarith | blast))

lemma corner_snapped:
  assumes "snapped L c (fst nd)" and "window_lines snap w l lr \<subseteq> L"
  shows "snapped L c (fst (snap_flush s snap c w l lr nd))"
  using assms unfolding snap_flush_def window_lines_def by (intro closer_snapped; (assumption | linarith | blast))

abbreviation (input) frame_lines_x :: "int \<Rightarrow> int \<Rightarrow> rect \<Rightarrow> (int \<times> int) set" where
  "frame_lines_x zone w f \<equiv> window_lines zone w (rleft f) (rleft f + rwidth f)"
abbreviation (input) frame_lines_y :: "int \<Rightarrow> int \<Rightarrow> rect \<Rightarrow> (int \<times> int) set" where
  "frame_lines_y zone h f \<equiv> window_lines zone h (rtop f) (rtop f + rheight f)"

lemma snap_window_snapped:
  assumes "snapped LX (fst pos) (fst (fst XY))" and "snapped LY (snd pos) (fst (snd XY))"
    and "\<not> gh \<Longrightarrow> frame_lines_x snap (fst sz) f \<subseteq> LX" and "\<not> gv \<Longrightarrow> frame_lines_y snap (snd sz) f \<subseteq> LY"
  shows "snapped LX (fst pos) (fst (fst (snap_window s snap gh gv pos sz f XY))) \<and>
    snapped LY (snd pos) (fst (snd (snap_window s snap gh gv pos sz f XY)))"
  unfolding snap_window_def Let_def fst_conv snd_conv
  by (intro conjI if_snapped outer_snapped corner_snapped assms(1,2); elim conjE; (elim assms(3,4))?)

lemma snap_windows_snapped:
  assumes "snapped LX (fst pos) (fst (fst XY))" and "snapped LY (snd pos) (fst (snd XY))"
    and "\<And>f. f \<in> set fs \<Longrightarrow> \<not> gh \<Longrightarrow> frame_lines_x snap (fst sz) f \<subseteq> LX"
    and "\<And>f. f \<in> set fs \<Longrightarrow> \<not> gv \<Longrightarrow> frame_lines_y snap (snd sz) f \<subseteq> LY"
  shows "snapped LX (fst pos) (fst (fst (fold (snap_window s snap gh gv pos sz) fs XY))) \<and>
    snapped LY (snd pos) (fst (snd (fold (snap_window s snap gh gv pos sz) fs XY)))"
  using assms
proof (induction fs arbitrary: XY)
  case (Cons f fs)
  from snap_window_snapped [OF Cons.prems(1,2), of gh snap sz f gv s] show ?case
    using Cons.IH Cons.prems(3,4) by simp
qed simp

lemma snap_center_snapped:
  assumes "snapped LX (fst pos) (fst (fst XY))" and "snapped LY (snd pos) (fst (snd XY))"
    and "center_line snap (rleft m) (rright m + 1) (fst sz) \<in> LX"
    and "center_line snap (rtop m) (rbottom m + 1) (snd sz) \<in> LY"
  shows "snapped LX (fst pos) (fst (snap_center u b snap m pos sz XY)) \<and>
    snapped LY (snd pos) (snd (snap_center u b snap m pos sz XY))"
proof -
  have x: "snapped LX (fst pos) (tdiv (rleft m + (rright m + 1)) 2 - tdiv (fst sz) 2)"
    if "\<bar>tdiv (rleft m + (rright m + 1)) 2 - (fst pos + tdiv (fst sz) 2)\<bar> < snap"
    using assms(3) that by (intro snapped_line [of _ snap]) (auto simp: center_line_def algebra_simps)
  have y: "snapped LY (snd pos) (tdiv (rtop m + (rbottom m + 1)) 2 - tdiv (snd sz) 2)"
    if "\<bar>tdiv (rtop m + (rbottom m + 1)) 2 - (snd pos + tdiv (snd sz) 2)\<bar> < snap"
    using assms(4) that by (intro snapped_line [of _ snap]) (auto simp: center_line_def algebra_simps)
  show ?thesis using assms(1,2) x y by (simp add: snap_center_def Let_def)
qed

definition lines_x :: "snap_options \<Rightarrow> (int \<Rightarrow> int) \<Rightarrow> rect list \<Rightarrow> int \<Rightarrow> margins \<Rightarrow> rect \<Rightarrow> int \<Rightarrow> (int \<times> int) set" where
  "lines_x Opt adj frames zone fm m w =
     border_lines (adj zone) (rleft m) (rright m + 1) w (mleft fm) (mright fm) \<union>
     (\<Union>f \<in> set frames. frame_lines_x (adj (so_window Opt)) w f) \<union>
     {center_line (adj (so_center Opt)) (rleft m) (rright m + 1) w}"

definition lines_y :: "snap_options \<Rightarrow> (int \<Rightarrow> int) \<Rightarrow> rect list \<Rightarrow> int \<Rightarrow> margins \<Rightarrow> rect \<Rightarrow> int \<Rightarrow> (int \<times> int) set" where
  "lines_y Opt adj frames zone fm m h =
     border_lines (adj zone) (rtop m) (rbottom m + 1) h (mtop fm) (mbottom fm) \<union>
     (\<Union>f \<in> set frames. frame_lines_y (adj (so_window Opt)) h f) \<union>
     {center_line (adj (so_center Opt)) (rtop m) (rbottom m + 1) h}"

lemma snap_position_snapped:
  assumes p_def: "p = snap_position outs Opt adj frames g m gh gv zone u pos"
  shows "snapped (lines_x Opt adj (if gh then [] else frames) (fst zone) (snap_margins outs m g) m (rwidth (g_frameGeometry g))) (fst pos) (fst p) \<and>
    snapped (lines_y Opt adj (if gv then [] else frames) (snd zone) (snap_margins outs m g) m (rheight (g_frameGeometry g))) (snd pos) (snd p)"
proof -
  let ?fm = "snap_margins outs m g" and ?sz = "rsize (g_frameGeometry g)" and ?s = "so_onlyOverlap Opt"
  let ?LX = "lines_x Opt adj (if gh then [] else frames) (fst zone) ?fm m (fst ?sz)" and ?LY = "lines_y Opt adj (if gv then [] else frames) (snd zone) ?fm m (snd ?sz)"
  define XY0 where "XY0 = (if adj (fst zone) \<noteq> 0 \<or> adj (snd zone) \<noteq> 0
    then (snap_border_axis ?s (adj (fst zone)) (rleft m) (rright m + 1) (fst pos) (fst ?sz) (mleft ?fm) (mright ?fm),
          snap_border_axis ?s (adj (snd zone)) (rtop m) (rbottom m + 1) (snd pos) (snd ?sz) (mtop ?fm) (mbottom ?fm))
    else ((fst pos, rright m + 1), (snd pos, rbottom m + 1)))"
  define XY1 where "XY1 = (if adj (so_window Opt) \<noteq> 0
    then fold (snap_window ?s (adj (so_window Opt)) gh gv pos ?sz) frames XY0 else XY0)"
  have 0: "snapped ?LX (fst pos) (fst (fst XY0))" "snapped ?LY (snd pos) (fst (snd XY0))"
    unfolding XY0_def
    by (auto simp: lines_x_def lines_y_def intro: snapped_mono [OF border_axis_snapped])
  have lx: "frame_lines_x (adj (so_window Opt)) (fst ?sz) f \<subseteq> ?LX" if "f \<in> set frames" "\<not> gh" for f
    using that by (auto simp: lines_x_def)
  have ly: "frame_lines_y (adj (so_window Opt)) (snd ?sz) f \<subseteq> ?LY" if "f \<in> set frames" "\<not> gv" for f
    using that by (auto simp: lines_y_def)
  have 1: "snapped ?LX (fst pos) (fst (fst XY1)) \<and> snapped ?LY (snd pos) (fst (snd XY1))"
    unfolding XY1_def using 0 snap_windows_snapped [OF 0 lx ly, of frames gh gv ?s]
    by (cases "adj (so_window Opt) = 0") (simp_all only: simp_thms if_True if_False)
  have "p = snap_center u (so_border Opt \<noteq> 0) (adj (so_center Opt)) m pos ?sz XY1"
    by (simp only: p_def snap_position_def Let_def XY1_def XY0_def)
  then show ?thesis using snap_center_snapped [of ?LX pos XY1 ?LY] 1
    by (simp add: lines_x_def lines_y_def rsize_def)
qed


text \<open>
  C27. Snapping while a window is moved: each coordinate of the result is the requested one, or the window ends on a snap line of that axis and the
  request was within the zone of the line. The lines are the borders of the area (the window may leave it by its margins), the edges of the
  other visible windows, unless a maximized window is guided along this axis, and the center of the area.
\<close>

theorem moved_window_snaps_to_lines:
  assumes "adjustClientPosition S Opt adj W ws a pos u = Returns p"
  shows "p = pos \<or> (\<exists>m0 gh gv zone m.
    snap_guide S Opt (W a) pos = Returns (m0, gh, gv, zone) \<and>
    (if rnull m0
     then clientArea S MovementArea (screens_number (sp_outputs S)
            (fst pos + fst (rcenter (rect_at (0, 0) (rsize (w_frameGeometry (W a))))),
             snd pos + snd (rcenter (rect_at (0, 0) (rsize (w_frameGeometry (W a)))))))
            (win_desktop (sp_desk S) (W a)) = Returns m
     else m = m0) \<and>
    snapped (lines_x Opt adj (if gh then [] else snap_frames (sp_desk S) W ws a) (fst zone)
      (snap_margins (sp_outputs S) m (w_geo (W a))) m (rwidth (w_frameGeometry (W a)))) (fst pos) (fst p) \<and>
    snapped (lines_y Opt adj (if gv then [] else snap_frames (sp_desk S) W ws a) (snd zone)
      (snap_margins (sp_outputs S) m (w_geo (W a))) m (rheight (w_frameGeometry (W a)))) (snd pos) (snd p))"
proof -
  let ?w = "W a"
  let ?c = "rcenter (rect_at (0, 0) (rsize (w_frameGeometry ?w)))"
  let ?area = "clientArea S MovementArea (screens_number (sp_outputs S) (fst pos + fst ?c, snd pos + snd ?c))
    (win_desktop (sp_desk S) ?w)"
  obtain m0 gh gv zone where guide: "snap_guide S Opt ?w pos = Returns (m0, gh, gv, zone)"
    using assms by (auto simp: adjustClientPosition_def)
  show ?thesis
  proof (cases "p = pos")
    case False
    then have "obind (if rnull m0 then ?area else Returns m0) (\<lambda>m. Returns (snap_position (sp_outputs S) Opt adj
        (snap_frames (sp_desk S) W ws a) (w_geo ?w) m gh gv zone u pos)) = Returns p"
      using assms by (simp add: adjustClientPosition_def guide Let_def split: if_splits)
    then obtain m where m: "(if rnull m0 then ?area else Returns m0) = Returns m"
        "p = snap_position (sp_outputs S) Opt adj (snap_frames (sp_desk S) W ws a) (w_geo ?w) m gh gv zone u pos"
      unfolding obind_eq_Returns outcome.inject by metis
    have "if rnull m0 then ?area = Returns m else m = m0" using m(1) by (simp split: if_splits)
    then show ?thesis using guide snap_position_snapped [OF m(2)] by blast
  qed simp
qed


definition snap_demo_options :: snap_options where
  "snap_demo_options = \<lparr>so_border = 10, so_window = 10, so_center = 0, so_onlyOverlap = False\<rparr>"

text \<open>Window 1 is moved, window 2 covers the upper left of the second screen.\<close>

definition snap_demo_store :: wstore where
  "snap_demo_store a = demo_window\<lparr>w_geo := demo_geo\<lparr>g_frameGeometry :=
     (if a = 1 then mk_rect 150 50 20 20 else mk_rect 100 0 30 30)\<rparr>\<rparr>"

lemma snap_demo_moved:
  "adjustClientPosition demo_space snap_demo_options id snap_demo_store [1, 2] 1 (134, 12) False = Returns (130, 10)"
  by code_simp

theorem moved_window_snaps_to_lines_witness:
  "\<exists>m0 gh gv zone m. snap_guide demo_space snap_demo_options (snap_demo_store 1) (134, 12) = Returns (m0, gh, gv, zone) \<and>
     snapped (lines_x snap_demo_options id (if gh then [] else snap_frames (sp_desk demo_space) snap_demo_store [1, 2] 1) (fst zone)
       (snap_margins (sp_outputs demo_space) m (w_geo (snap_demo_store 1))) m (rwidth (w_frameGeometry (snap_demo_store 1)))) 134 130"
proof -
  have "(130, 10) \<noteq> (134::int, 12::int)" by simp
  with moved_window_snaps_to_lines [OF snap_demo_moved] show ?thesis unfolding fst_conv snd_conv by blast
qed

section \<open>Resizing\<close>

fun side_at :: "side \<Rightarrow> rect \<Rightarrow> int" where
  "side_at SLeft r = rleft r"
| "side_at SRight r = rright r"
| "side_at STop r = rtop r"
| "side_at SBottom r = rbottom r"

text \<open>Where a side may snap to: its border of the area, next to another window, or flush with it.\<close>

fun frame_stops :: "side \<Rightarrow> rect \<Rightarrow> int set" where
  "frame_stops SLeft f = {rleft f + rwidth f, rleft f}"
| "frame_stops SRight f = {rleft f - 1, rleft f + rwidth f - 1}"
| "frame_stops STop f = {rtop f + rheight f, rtop f}"
| "frame_stops SBottom f = {rtop f - 1, rtop f + rheight f - 1}"

definition stops :: "rect \<Rightarrow> rect list \<Rightarrow> side \<Rightarrow> int set" where
  "stops m frames sd = insert (side_at sd m) (\<Union>f \<in> set frames. frame_stops sd f)"

text \<open>Every side of a rectangle is the one of \<open>r0\<close>, or it is among the snapping sides and at a stop.\<close>

definition snapped_sides :: "(side \<Rightarrow> int set) \<Rightarrow> side set \<Rightarrow> rect \<Rightarrow> rect \<Rightarrow> bool" where
  "snapped_sides T X r0 r \<longleftrightarrow> (\<forall>sd. side_at sd r = side_at sd r0 \<or> sd \<in> X \<and> side_at sd r \<in> T sd)"

lemma all_sides: "(\<forall>sd. P sd) \<longleftrightarrow> P SLeft \<and> P SRight \<and> P STop \<and> P SBottom"
  by (metis side.exhaust)

lemmas snapped_sides_simps = snapped_sides_def all_sides around_def

lemma border_side_snapped:
  assumes "snapped_sides T X r0 (fst x)" and "sd \<in> X" and "side_at sd m \<in> T sd"
  shows "snapped_sides T X r0 (fst (snap_border_side s m sd x))"
  using assms by (cases x; cases sd) (auto simp: snapped_sides_simps)

lemma window_side_snapped:
  assumes "snapped_sides T X r0 (fst x)" and "sd \<in> X" and "frame_stops sd f \<subseteq> T sd"
  shows "snapped_sides T X r0 (fst (snap_window_side s r1 (around f) sd x))"
  using assms by (cases x; cases sd) (auto simp: snapped_sides_simps)

lemma corner_side_snapped:
  assumes "snapped_sides T X r0 (fst x)" and "sd \<in> X" and "frame_stops sd f \<subseteq> T sd"
  shows "snapped_sides T X r0 (fst (snap_corner_side s (around f) sd x))"
  using assms by (cases x; cases sd) (auto simp: snapped_sides_simps)

lemma fold_sides_snapped:
  assumes "\<And>sd x. sd \<in> set sides \<Longrightarrow> snapped_sides T X r0 (fst x) \<Longrightarrow> snapped_sides T X r0 (fst (step sd x))"
    and "snapped_sides T X r0 (fst x)"
  shows "snapped_sides T X r0 (fst (fold step sides x))"
  using assms by (induction sides arbitrary: x) simp_all

lemma snap_size_window_snapped:
  assumes "sides_of mode = Returns sides" and "\<And>sd. frame_stops sd f \<subseteq> T sd" and "snapped_sides T (set sides) r0 (fst x)"
  shows "\<exists>y. snap_size_window s r0 mode f x = Returns y \<and> snapped_sides T (set sides) r0 (fst y)"
  using assms unfolding snap_size_window_def
  by (simp add: fold_sides_snapped window_side_snapped corner_side_snapped)

lemma snap_size_snapped:
  assumes "sides_of mode = Returns sides"
  shows "\<exists>r. snap_size Opt frames m mode r0 = Returns r \<and> snapped_sides (stops m frames) (set sides) r0 r"
proof -
  let ?s = "so_onlyOverlap Opt" and ?ok = "snapped_sides (stops m frames) (set sides) r0"
  define r1 where "r1 = (if so_border Opt \<noteq> 0 then fst (fold (snap_border_side ?s m) sides (r0, so_border Opt, so_border Opt)) else r0)"
  have ok: "?ok r1" unfolding r1_def
    using fold_sides_snapped [of sides "stops m frames" "set sides" r0 "snap_border_side ?s m" "(r0, so_border Opt, so_border Opt)"]
    by (simp add: border_side_snapped stops_def) (simp add: snapped_sides_def)
  have "\<exists>y. ofold (snap_size_window ?s r0 mode) frames (r1, so_window Opt, so_window Opt) = Returns y \<and> ?ok (fst y)"
    by (rule ofold_returns [where P = "\<lambda>x. ?ok (fst x)"], rule snap_size_window_snapped [OF assms])
      (use ok in \<open>auto simp: stops_def\<close>)
  then show ?thesis using ok assms by (auto simp: snap_size_def Let_def r1_def)
qed

lemma adjustClientSize_snapped:
  assumes "sides_of mode = Returns sides"
    and "clientArea_point S MovementArea (rcenter (rect_at (0, 0) (rsize (w_frameGeometry (W a))))) (win_desktop (sp_desk S) (W a)) = Returns m"
  shows "\<exists>r'. adjustClientSize S Opt W ws a r mode = Returns r' \<and>
    (\<forall>sd. side_at sd r' = side_at sd r \<or>
       sd \<in> set sides \<and> side_at sd r' \<in> stops m (size_frames (sp_desk S) W ws a) sd)"
  using snap_size_snapped [OF assms(1), of Opt "size_frames (sp_desk S) W ws a" m r] assms(2)
  by (auto simp: adjustClientSize_def snapped_sides_def)


text \<open>
  C28. Snapping while a window is resized: unless the area cannot be determined, a resize at an edge or corner returns, and every side that is
  not dragged stays where it is. A dragged side stays as well, or it ends at the border of the area, next to another window
  of the desktop or flush with it.
\<close>

theorem resized_window_snaps_dragged_sides:
  assumes "sides_of mode = Returns sides"
    and "clientArea_point S MovementArea (rcenter (rect_at (0, 0) (rsize (w_frameGeometry (W a))))) (win_desktop (sp_desk S) (W a)) = Returns m"
  shows "\<exists>r'. adjustClientSize S Opt W ws a r mode = Returns r' \<and>
    (\<forall>sd. side_at sd r' = side_at sd r \<or>
       sd \<in> set sides \<and> side_at sd r' \<in> stops m (size_frames (sp_desk S) W ws a) sd)"
  using assms by (rule adjustClientSize_snapped)

lemma snap_demo_area:
  "clientArea_point demo_space MovementArea (rcenter (rect_at (0, 0) (rsize (w_frameGeometry (snap_demo_store 1)))))
     (win_desktop (sp_desk demo_space) (snap_demo_store 1)) = Returns (mk_rect 0 0 100 100)"
  by code_simp

theorem resized_window_snaps_dragged_sides_witness:
  "\<exists>r'. adjustClientSize demo_space snap_demo_options snap_demo_store [1, 2] 1 (mk_rect 134 12 20 20) PTopLeft = Returns r' \<and>
     side_at SRight r' = 153 \<and> side_at SBottom r' = 31"
proof -
  let ?r = "mk_rect 134 12 20 20"
  obtain r' where r': "adjustClientSize demo_space snap_demo_options snap_demo_store [1, 2] 1 ?r PTopLeft = Returns r'"
      "\<And>sd. side_at sd r' = side_at sd ?r \<or> sd \<in> set [STop, SLeft]"
    using resized_window_snaps_dragged_sides [where S = demo_space and W = snap_demo_store and a = 1,
      OF sides_of.simps(4) snap_demo_area, of snap_demo_options "[1, 2]" ?r] by blast
  have "side_at SRight r' = 153" "side_at SBottom r' = 31"
    using r'(2) [of SRight] r'(2) [of SBottom] by (simp_all add: mk_rect_def)
  with r'(1) show ?thesis by blast
qed

section \<open>Findings\<close>

text \<open>
  The area for resizing is taken at the center of a rectangle at the origin, not of the window: a window on the second screen, which begins
  at 100, does not snap to the border of its screen.
\<close>

lemma resize_ignores_screen_of_window:
  "adjustClientSize demo_space (snap_demo_options\<lparr>so_window := 0\<rparr>) snap_demo_store [1, 2] 1 (mk_rect 105 50 65 20) PLeft =
     Returns (mk_rect 105 50 65 20) \<and>
   \<bar>105 - rleft (sp_outputs demo_space ! 1)\<bar> < so_border snap_demo_options"
  by code_simp

text \<open>
  The distance to a border keeps its sign, so after snapping to a border from inside of the area nothing is nearer: a window that touches another one
  exactly is moved away from it to the border.
\<close>

lemma border_beats_touching_window:
  "snap_border_axis False 10 0 100 6 20 0 0 = (0, - 6)"
  "snap_window False 10 False False (6, 0) (20, 20) (mk_rect (- 14) 0 20 20) ((0, - 6), (0, 100)) = ((0, - 6), (0, 100))"
  by code_simp+

text \<open>
  A resized edge is compared where the last window has put it, so it can be pulled on from window to window beyond the
  zone of ten pixels.
\<close>

lemma resize_snap_goes_beyond_zone:
  "snap_size \<lparr>so_border = 0, so_window = 10, so_center = 0, so_onlyOverlap = False\<rparr> [mk_rect 60 0 10 50, mk_rect 68 0 10 50]
     (mk_rect 0 0 100 100) PRight (mk_rect 0 0 51 50) = Returns (mk_rect 0 0 68 50)"
  by code_simp

end
