(* ===== verification/Move_Resize_Properties.thy ===== *)
theory Move_Resize_Properties
  imports Move_Events Snapping_Properties
begin

text \<open>
  Moving and resizing: the loops that keep the titlebar visible end and give up no more than needed, a resize keeps the
  corner opposite to the pointer and obeys the size hints.
\<close>

section \<open>The loop of a restricted move\<close>

definition same_size :: "rect \<Rightarrow> rect \<Rightarrow> bool" where
  "same_size a b \<longleftrightarrow> rsize a = rsize b"

definition coord_between :: "int \<Rightarrow> int \<Rightarrow> int \<Rightarrow> bool" where
  "coord_between a b x \<longleftrightarrow> min a b \<le> x \<and> x \<le> max a b"

text \<open>A rectangle of the same size, somewhere on the way from one to the other.\<close>

definition on_the_way :: "rect \<Rightarrow> rect \<Rightarrow> rect \<Rightarrow> bool" where
  "on_the_way a b r \<longleftrightarrow> same_size r a \<and> coord_between (rleft a) (rleft b) (rleft r) \<and> coord_between (rtop a) (rtop b) (rtop r)"

definition apart :: "rect \<Rightarrow> rect \<Rightarrow> nat" where
  "apart a b = nat (\<bar>rleft a - rleft b\<bar> + \<bar>rtop a - rtop b\<bar>)"

lemmas rect_geo_simps = rsize_def rwidth_def rheight_def rtranslated_def

lemma same_size_eqI: "same_size a b \<Longrightarrow> rleft a = rleft b \<Longrightarrow> rtop a = rtop b \<Longrightarrow> a = b"
  by (simp add: same_size_def rect_geo_simps)

lemma back_step_facts:
  assumes "same_size prev r" and "rtranslated (back_step v prev r) r \<noteq> prev"
  shows "apart prev (rtranslated (back_step v prev r) r) < apart prev r"
    and "same_size prev (rtranslated (back_step v prev r) r)"
    and "on_the_way prev (rtranslated (back_step v prev r) r) x \<Longrightarrow> on_the_way prev r x"
proof -
  let ?r = "rtranslated (back_step v prev r) r"
  show size: "same_size prev ?r" using assms(1) by (simp add: same_size_def rect_geo_simps)
  have ne: "rleft prev \<noteq> rleft r \<or> rtop prev \<noteq> rtop r"
  proof (rule ccontr)
    assume "\<not> ?thesis"
    then have "back_step v prev r = (0, 0)" "rleft prev = rleft r" "rtop prev = rtop r" by (simp_all add: back_step_def move_sign_def)
    then show False using assms(2) same_size_eqI [OF assms(1)] by (simp add: rtranslated_def)
  qed
  then show "apart prev ?r < apart prev r"
    by (auto simp: apart_def back_step_def move_sign_def rtranslated_def Let_def)
  show "on_the_way prev r x" if "on_the_way prev ?r x"
    using that ne by (auto simp: on_the_way_def coord_between_def back_step_def move_sign_def rtranslated_def Let_def split: if_splits)
qed

lemma restrict_move_ends:
  assumes "same_size prev r"
  shows "\<exists>r'. restrict_move avail required title several struts prev r = Some r' \<and>
    (on_the_way prev r r' \<and> (visible_pixels avail (title_at title r') \<ge> required \<or> r' = prev) \<or>
     several \<and> (\<exists>q p. on_the_way prev r q \<and> p \<in> set struts \<and> top_panel q p \<and> r' = moveTop (rbottom p + 1) q))"
  using assms
proof (induction "apart prev r" arbitrary: r rule: less_induct)
  case less
  let ?vis = "visible_pixels avail (title_at title r)" and ?t = "new_title_top several struts r"
  let ?r = "rtranslated (back_step (?vis \<noteq> 0) prev r) r"
  have here: "on_the_way prev r r" "on_the_way prev r prev"
    using less.prems by (simp_all add: on_the_way_def coord_between_def same_size_def)
  show ?case
  proof (cases "?vis \<ge> required")
    case True
    then show ?thesis using here(1) by (subst restrict_move.simps) (auto simp: Let_def)
  next
    case novis: False
    show ?thesis
    proof (cases "?t > -1")
      case True
      then obtain p where "several" "find (top_panel r) struts = Some p" "?t = rbottom p + 1"
        by (auto simp: new_title_top_def split: if_splits option.splits)
      then show ?thesis using novis True here(1)
        by (subst restrict_move.simps) (auto simp: Let_def find_Some_iff in_set_conv_nth)
    next
      case notop: False
      show ?thesis
      proof (cases "?r = prev")
        case True
        then show ?thesis using novis notop here(2) by (subst restrict_move.simps) (simp add: Let_def)
      next
        case False
        note step = back_step_facts [OF less.prems False]
        have "restrict_move avail required title several struts prev r = restrict_move avail required title several struts prev ?r"
          using novis notop False by (subst restrict_move.simps) (simp add: Let_def)
        then show ?thesis using less.hyps [OF step(1,2)] step(3) by metis
      qed
    qed
  qed
qed

section \<open>The loop of a restricted resize\<close>

text \<open>Every edge between the previous and the wanted one, and the lower one as wanted.\<close>

definition edges_between :: "rect \<Rightarrow> rect \<Rightarrow> rect \<Rightarrow> bool" where
  "edges_between a b r \<longleftrightarrow>
     coord_between (rleft a) (rleft b) (rleft r) \<and> coord_between (rright a) (rright b) (rright r) \<and>
     coord_between (rtop a) (rtop b) (rtop r) \<and> rbottom r = rbottom b"

definition edges_apart :: "rect \<Rightarrow> rect \<Rightarrow> nat" where
  "edges_apart a b = nat (\<bar>rleft a - rleft b\<bar> + \<bar>rright a - rright b\<bar> + \<bar>rtop a - rtop b\<bar>)"

lemma edges_between_refl [simp]: "edges_between a b b"
  by (simp add: edges_between_def coord_between_def)

lemma sign_between:
  "coord_between a b x \<Longrightarrow> a \<noteq> x \<Longrightarrow> coord_between a b (x + move_sign (a - x)) \<and> \<bar>a - (x + move_sign (a - x))\<bar> < \<bar>a - x\<bar>"
  by (auto simp: coord_between_def move_sign_def)

lemma resize_step_facts:
  assumes "resize_step f prev r = Some r'" and "edges_between prev w r"
  shows "edges_apart prev r' < edges_apart prev r" and "edges_between prev w r'"
proof -
  note bs = assms(2) [unfolded edges_between_def]
  consider "rtop prev \<noteq> rtop r" "r' = r\<lparr>rtop := rtop r + move_sign (rtop prev - rtop r)\<rparr>"
    | "rleft prev \<noteq> rleft r" "r' = r\<lparr>rleft := rleft r + move_sign (rleft prev - rleft r)\<rparr>"
    | "rright prev \<noteq> rright r" "r' = r\<lparr>rright := rright r + move_sign (rright prev - rright r)\<rparr>"
    using assms(1) by (auto simp: resize_step_def split: if_splits)
  then have "edges_apart prev r' < edges_apart prev r \<and> edges_between prev w r'"
  proof cases
    case 1
    then show ?thesis using bs sign_between [of "rtop prev" "rtop w" "rtop r"] by (simp add: edges_apart_def edges_between_def)
  next
    case 2
    then show ?thesis using bs sign_between [of "rleft prev" "rleft w" "rleft r"] by (simp add: edges_apart_def edges_between_def)
  next
    case 3
    then show ?thesis using bs sign_between [of "rright prev" "rright w" "rright r"] by (simp add: edges_apart_def edges_between_def)
  qed
  then show "edges_apart prev r' < edges_apart prev r" "edges_between prev w r'" by simp_all
qed

text \<open>
  The loop ends because each turn brings an edge nearer to the previous geometry; only the one turn that gives up on the
  title goes back to the last attempt.
\<close>

lemma restrict_resize_ends:
  assumes "edges_between prev w r" and "edges_between prev w lastTry"
  shows "\<exists>r'. restrict_resize avail required title prev r lastTry lastVisible failed = Some r' \<and> edges_between prev w r'"
  using assms
proof (induction "(if failed then 0 else 1 :: nat, edges_apart prev r)" arbitrary: r lastTry lastVisible failed
    rule: wf_induct_rule [OF wf_lex_prod [OF wf_less_than wf_less_than]])
  case 1
  let ?vis = "real_visible_pixels avail (title_at title r)"
  let ?worse = "?vis \<le> lastVisible"
  let ?r = "if ?worse \<and> \<not> failed then lastTry else r"
  have ok: "edges_between prev w ?r" using "1.prems" by simp
  show ?case
  proof (cases "visible_pixels avail (title_at title r) \<ge> required \<or> ?worse \<and> failed \<and> ?vis < lastVisible")
    case True
    then show ?thesis using "1.prems"(1) by (subst restrict_resize.simps) (auto simp: Let_def)
  next
    case go: False
    show ?thesis
    proof (cases "resize_step (failed \<or> ?worse) prev ?r")
      case None
      then show ?thesis using go ok "1.prems"(1) by (subst restrict_resize.simps) (auto simp: Let_def)
    next
      case (Some r')
      note step = resize_step_facts [OF Some ok]
      have eq: "restrict_resize avail required title prev r lastTry lastVisible failed =
          restrict_resize avail required title prev r' ?r ?vis (failed \<or> ?worse)"
        using go Some by (subst restrict_resize.simps) (auto simp: Let_def)
      have "((if failed \<or> ?worse then 0 else 1, edges_apart prev r'), (if failed then 0 else 1, edges_apart prev r))
          \<in> less_than <*lex*> less_than"
        using step(1) by (cases failed; cases ?worse) simp_all
      from "1.hyps" [OF this step(2) ok] eq show ?thesis by metis
    qed
  qed
qed

section \<open>Moving\<close>

text \<open>
  C25. A restricted move comes to an end. The window lands between its previous and its wanted position, where enough of
  the titlebar is visible or else at the previous position; with more than one screen it may instead be put right below a
  panel at the top that it would have covered.
\<close>

theorem restricted_move_keeps_titlebar:
  assumes "\<not> ms_unrestricted s" and "available_area E = Returns (avail, struts)"
    and "adjustClientPosition (mv_space E) (mv_snap E) id (mv_current E s) (mv_clients E) (mv_addr E) nw False = Returns p"
  shows "\<exists>r. move_wanted E nw s = Returns r \<and>
    (let prev = ms_geometry s; w = moveTopLeft p prev; g = ms_geo s in
     (on_the_way prev w r \<and> (visible_pixels avail (title_at (title_rect g prev) r) \<ge> required_pixels g prev \<or> r = prev)) \<or>
     (length (mv_outputs E) > 1 \<and>
      (\<exists>q panel. on_the_way prev w q \<and> panel \<in> set struts \<and> top_panel q panel \<and> r = moveTop (rbottom panel + 1) q)))"
proof -
  let ?prev = "ms_geometry s" and ?g = "ms_geo s"
  let ?w = "moveTopLeft p (moveTopLeft nw ?prev)"
  have w: "?w = moveTopLeft p ?prev" "rtopLeft (moveTopLeft nw ?prev) = nw" "same_size ?prev ?w"
    by (simp_all add: moveTopLeft_def moveTop_def moveLeft_def rtopLeft_def same_size_def rect_geo_simps)
  have same: "title_rect ?g ?w = title_rect ?g ?prev" "required_pixels ?g ?w = required_pixels ?g ?prev"
    using w(3) by (simp_all add: title_rect_def required_pixels_def same_size_def rsize_def)
  have m: "move_wanted E nw s = (case restrict_move avail (required_pixels ?g ?w) (title_rect ?g ?w) (length (mv_outputs E) > 1) struts ?prev ?w of
      None \<Rightarrow> Diverges | Some r \<Rightarrow> Returns r)"
    using assms w(2) by (simp add: move_wanted_def Let_def)
  obtain r where "move_wanted E nw s = Returns r" and
      "on_the_way ?prev ?w r \<and> (visible_pixels avail (title_at (title_rect ?g ?w) r) \<ge> required_pixels ?g ?w \<or> r = ?prev) \<or>
       length (mv_outputs E) > 1 \<and> (\<exists>q p. on_the_way ?prev ?w q \<and> p \<in> set struts \<and> top_panel q p \<and> r = moveTop (rbottom p + 1) q)"
    using restrict_move_ends [OF w(3), of avail "required_pixels ?g ?w" "title_rect ?g ?w" "length (mv_outputs E) > 1" struts]
    unfolding m by (metis option.simps(5))
  then show ?thesis unfolding same unfolding w(1) Let_def by blast
qed

section \<open>Resizing\<close>

text \<open>The sides that a resize leaves where they were.\<close>

fun anchor_sides :: "position \<Rightarrow> side set" where
  "anchor_sides PTopLeft = {SRight, SBottom}"
| "anchor_sides PBottomRight = {SLeft, STop}"
| "anchor_sides PBottomLeft = {SRight, STop}"
| "anchor_sides PTopRight = {SLeft, SBottom}"
| "anchor_sides PTop = {SLeft, SBottom}"
| "anchor_sides PBottom = {SLeft, STop}"
| "anchor_sides PLeft = {SRight, STop}"
| "anchor_sides PRight = {SLeft, STop}"
| "anchor_sides PCenter = {}"

definition anchored :: "position \<Rightarrow> rect \<Rightarrow> rect \<Rightarrow> bool" where
  "anchored c r0 r \<longleftrightarrow> (\<forall>sd \<in> anchor_sides c. side_at sd r = side_at sd r0)"

lemma calculate_anchored:
  assumes "c \<noteq> PCenter"
  shows "\<exists>r. calculate_geometry c nw se orig = Returns r \<and> anchored c orig r"
  using assms by (cases c) (simp_all add: anchored_def rect_between_def)

lemma sides_not_anchored:
  assumes "c \<noteq> PCenter"
  shows "\<exists>sides. sides_of c = Returns sides \<and> set sides \<inter> anchor_sides c = {}"
  using assms by (cases c) simp_all

lemma edges_between_anchored:
  assumes "edges_between prev w r" and "anchored c r0 prev" and "anchored c r0 w"
  shows "anchored c r0 r"
proof -
  have "side_at sd r = side_at sd r0" if "sd \<in> anchor_sides c" for sd
  proof -
    have "side_at sd prev = side_at sd r0" "side_at sd w = side_at sd r0" using that assms(2,3) by (simp_all add: anchored_def)
    then show ?thesis using assms(1) by (cases sd) (simp_all add: edges_between_def coord_between_def)
  qed
  then show ?thesis by (simp add: anchored_def)
qed

lemma resize_sized_spec:
  assumes "c \<noteq> PCenter"
  shows "\<exists>r'. resize_sized c adjust r = Returns r' \<and> anchored c r r' \<and> rsize r' = adjust (rsize r) (size_mode_of c)"
proof -
  obtain w h where wh: "adjust (rsize r) (size_mode_of c) = (w, h)" by (cases "adjust (rsize r) (size_mode_of c)")
  show ?thesis using assms wh
    by (cases c) (simp_all add: resize_sized_def Let_def anchored_def rect_between_def rsize_def rwidth_def rheight_def)
qed

lemma resize_wanted_anchored:
  assumes "ms_contact s \<noteq> PCenter" and "anchored (ms_contact s) (ms_initial s) (ms_geometry s)"
    and "clientArea_point (mv_space E) MovementArea (rcenter (rect_at (0, 0) (rsize (g_frameGeometry (ms_geo s)))))
           (mv_desktop E) = Returns m"
    and "available_area E = Returns A"
  shows "\<exists>r. resize_wanted E nw se s = Returns r \<and> anchored (ms_contact s) (ms_initial s) r"
proof -
  let ?c = "ms_contact s" and ?r0 = "ms_initial s"
  obtain avail struts where A: "A = (avail, struts)" by (cases A)
  obtain ra where ra: "calculate_geometry ?c nw se ?r0 = Returns ra" "anchored ?c ?r0 ra"
    using calculate_anchored [OF assms(1)] by blast
  obtain sides where sides: "sides_of ?c = Returns sides" "set sides \<inter> anchor_sides ?c = {}"
    using sides_not_anchored [OF assms(1)] by blast
  have "clientArea_point (mv_space E) MovementArea (rcenter (rect_at (0, 0) (rsize (w_frameGeometry (mv_current E s (mv_addr E))))))
      (win_desktop (sp_desk (mv_space E)) (mv_current E s (mv_addr E))) = Returns m"
    using assms(3) by (simp add: mv_current_def geo_of_def win_desktop_def split: if_splits)
  from adjustClientSize_snapped [where W = "mv_current E s" and a = "mv_addr E", OF sides(1) this, of "mv_snap E" "mv_clients E" ra]
  obtain rb where rb: "adjustClientSize (mv_space E) (mv_snap E) (mv_current E s) (mv_clients E) (mv_addr E) ra ?c = Returns rb"
      "\<And>sd. side_at sd rb = side_at sd ra \<or> sd \<in> set sides"
    by metis
  have anch: "anchored ?c ?r0 rb"
    unfolding anchored_def using rb(2) ra(2) [unfolded anchored_def] sides(2) by (metis IntI empty_iff)
  obtain rc where rc: "restrict_resize avail (required_pixels (ms_geo s) rb) (title_rect (ms_geo s) rb) (ms_geometry s) rb rb (- 1) False = Some rc"
      "edges_between (ms_geometry s) rb rc"
    using restrict_resize_ends [OF edges_between_refl edges_between_refl] by blast
  have "anchored ?c ?r0 rc" by (rule edges_between_anchored [OF rc(2) assms(2) anch])
  then show ?thesis using ra(1) rb(1) rc(1) anch assms(4) A by (simp add: resize_wanted_def)
qed

text \<open>
  C24. A step of a resize returns, and the corner or edge opposite to the pointer stays where it was when the resize began, whatever the snapping,
  the restricted areas and the size hints make of the new size. The new size is the one the size hints allow for the
  wanted size.
\<close>

theorem resize_keeps_opposite_corner:
  assumes "op_is_resize s" and "anchored (ms_contact s) (ms_initial s) (ms_geometry s)"
    and "clientArea_point (mv_space E) MovementArea (rcenter (rect_at (0, 0) (rsize (g_frameGeometry (ms_geo s)))))
           (mv_desktop E) = Returns m"
    and "available_area E = Returns A"
  shows "\<exists>s' r. move_resize_running E p s = Returns s' \<and>
    resize_wanted E (fst p - fst (ms_offset s), snd p - snd (ms_offset s)) (fst p + fst (ms_inverted s), snd p + snd (ms_inverted s)) s = Returns r \<and>
    anchored (ms_contact s) (ms_initial s) (ms_geometry s') \<and>
    rsize (ms_geometry s') = g_adjust (ms_geo s) (rsize r) (size_mode_of (ms_contact s))"
proof -
  let ?nw = "(fst p - fst (ms_offset s), snd p - snd (ms_offset s))" and ?se = "(fst p + fst (ms_inverted s), snd p + snd (ms_inverted s))"
  have c: "ms_contact s \<noteq> PCenter" using assms(1) by (simp add: op_is_resize_def)
  obtain r where r: "resize_wanted E ?nw ?se s = Returns r" "anchored (ms_contact s) (ms_initial s) r"
    using resize_wanted_anchored [OF c assms(2-4)] by blast
  obtain r' where r': "resize_sized (ms_contact s) (g_adjust (ms_geo s)) r = Returns r'" "anchored (ms_contact s) r r'"
      "rsize r' = g_adjust (ms_geo s) (rsize r) (size_mode_of (ms_contact s))"
    using resize_sized_spec [OF c] by blast
  have "anchored (ms_contact s) (ms_initial s) r'" using r(2) r'(2) by (simp add: anchored_def)
  moreover have "\<exists>s'. move_resize_running E p s = Returns s' \<and> ms_geometry s' = r'"
    using assms(1) r(1) r'(1) by (simp add: move_resize_running_def Let_def perform_move_resize_def ms_emit_def ms_setGeo_def)
  ultimately show ?thesis using r(1) r'(3) by auto
qed

section \<open>An example\<close>

text \<open>Window 1 of the two screens is being resized at its lower right corner.\<close>

definition demo_move_env :: move_env where
  "demo_move_env = \<lparr>mv_addr = 1, mv_pos = pos_env_for demo_geo_env demo_space 1 1, mv_space = demo_space, mv_snap = snap_demo_options,
     mv_store = snap_demo_store, mv_clients = [1, 2], mv_cut = (\<lambda>a b. fold (\<lambda>r acc. region_minus acc r) b a),
     mv_scale = (\<lambda>a b c. tdiv (a * c) b), mv_corner = (\<lambda>h. tdiv h 4), mv_resizable = (\<lambda>_. True), mv_acrossScreens = True,
     mv_activePopup = False, mv_grabbed = False, mv_doStart = True, mv_waiting = False, mv_dragDistance = 10,
     mv_resizeEffect = False, mv_resizeSync = (\<lambda>r g. setFrameGeometry r g), mv_switchMoving = False, mv_mouse = PCenter,
     mv_tiling = True, mv_maximizing = True, mv_pointer = (0, 0), mv_checkScreen = id\<rparr>"

definition demo_move_state :: move_state where
  "demo_move_state = \<lparr>ms_geo = demo_geo\<lparr>g_frameGeometry := mk_rect 150 50 20 20, g_frame := mk_rect 150 50 20 20\<rparr>, ms_enabled = False,
     ms_contact = PCenter, ms_unrestricted = False, ms_offset = (5, 5), ms_inverted = (14, 14), ms_initial = mk_rect 150 50 20 20,
     ms_geometry = mk_rect 150 50 20 20, ms_buttonDown = False, ms_cursor = ArrowCursor, ms_startScreen = 1, ms_delayTimer = False,
     ms_doubleClick = False, ms_screen = 1, ms_electricTimers = 0, ms_movingClient = None, ms_blockFocus = 0, ms_log = []\<rparr>"

definition demo_resizing :: move_state where
  "demo_resizing = demo_move_state\<lparr>ms_enabled := True, ms_contact := PBottomRight, ms_movingClient := Some 1, ms_blockFocus := 1\<rparr>"

lemmas demo_move_defs = demo_resizing_def demo_move_state_def demo_move_env_def demo_space_def demo_desks_def snap_demo_options_def

lemma demo_available: "available_area demo_move_env = Returns ([mk_rect 0 0 200 100], [])"
  by code_simp

lemma demo_resize_area:
  "clientArea_point (mv_space demo_move_env) MovementArea (rcenter (rect_at (0, 0) (rsize (g_frameGeometry (ms_geo demo_resizing)))))
     (mv_desktop demo_move_env) = Returns (mk_rect 0 0 100 100)"
  by code_simp

theorem resize_keeps_opposite_corner_witness:
  "\<exists>s'. move_resize_running demo_move_env (175, 80) demo_resizing = Returns s' \<and>
     rleft (ms_geometry s') = 150 \<and> rtop (ms_geometry s') = 50"
proof -
  have "op_is_resize demo_resizing" "anchored (ms_contact demo_resizing) (ms_initial demo_resizing) (ms_geometry demo_resizing)"
    by (simp_all add: op_is_resize_def anchored_def demo_resizing_def demo_move_state_def)
  from resize_keeps_opposite_corner [OF this demo_resize_area demo_available, of "(175, 80)"]
  show ?thesis by (auto simp: anchored_def demo_resizing_def demo_move_state_def mk_rect_def)
qed

lemma demo_moved:
  "adjustClientPosition (mv_space demo_move_env) (mv_snap demo_move_env) id (mv_current demo_move_env demo_move_state) (mv_clients demo_move_env)
     (mv_addr demo_move_env) (134, 12) False = Returns (130, 10)"
  by code_simp

theorem restricted_move_keeps_titlebar_witness:
  "\<exists>r. move_wanted demo_move_env (134, 12) demo_move_state = Returns r \<and>
     on_the_way (mk_rect 150 50 20 20) (mk_rect 130 10 20 20) r"
proof -
  have "\<not> ms_unrestricted demo_move_state" by (simp add: demo_move_state_def)
  from restricted_move_keeps_titlebar [OF this demo_available demo_moved] show ?thesis
    by (auto simp: Let_def demo_move_state_def mk_rect_def moveTopLeft_def moveTop_def moveLeft_def)
qed

end
