(* ===== verification/Move_Invariant.thy ===== *)
theory Move_Invariant
  imports Move_Resize_Properties
begin

text \<open>
  The state machine of moving and resizing: every event keeps the window, the workspace and the timer of the titlebar consistent.
\<close>

section \<open>The invariant\<close>

text \<open>
  While the operation runs the workspace knows the window as the moved one and holds one more block of the focus than the \<open>b\<close> of
  other reasons; the timer of a press runs only while the button is down and the operation has not begun.
\<close>

definition move_ok :: "addr \<Rightarrow> int \<Rightarrow> move_state \<Rightarrow> bool" where
  "move_ok a b s \<longleftrightarrow>
     ms_movingClient s = (if ms_enabled s then Some a else None) \<and> ms_blockFocus s = b + of_bool (ms_enabled s) \<and>
     (ms_delayTimer s \<longrightarrow> ms_buttonDown s \<and> \<not> ms_enabled s)"

text \<open>What all events that do not start or finish the operation leave alone.\<close>

definition same_op :: "move_state \<Rightarrow> move_state \<Rightarrow> bool" where
  "same_op s t \<longleftrightarrow> ms_enabled t = ms_enabled s \<and> ms_movingClient t = ms_movingClient s \<and> ms_blockFocus t = ms_blockFocus s \<and>
     ms_delayTimer t = ms_delayTimer s \<and> ms_buttonDown t = ms_buttonDown s \<and> ms_initial t = ms_initial s"

lemma same_op_refl [simp]: "same_op s s"
  by (simp add: same_op_def)

lemma same_op_trans: "same_op s t \<Longrightarrow> same_op t u \<Longrightarrow> same_op s u"
  by (simp add: same_op_def)

lemma same_op_ok: "same_op s t \<Longrightarrow> move_ok a b t \<longleftrightarrow> move_ok a b s"
  by (simp add: same_op_def move_ok_def)

lemma same_op_emit [simp]: "same_op s (ms_emit e t) \<longleftrightarrow> same_op s t"
  by (simp add: same_op_def ms_emit_def)

lemma same_op_setGeo [simp]: "same_op s (ms_setGeo g t) \<longleftrightarrow> same_op s t"
  by (simp add: same_op_def ms_setGeo_def)

lemma same_op_fields [simp]:
  "same_op s (t\<lparr>ms_contact := c\<rparr>) \<longleftrightarrow> same_op s t" "same_op s (t\<lparr>ms_geometry := r\<rparr>) \<longleftrightarrow> same_op s t"
  "same_op s (t\<lparr>ms_offset := p\<rparr>) \<longleftrightarrow> same_op s t" "same_op s (t\<lparr>ms_screen := n\<rparr>) \<longleftrightarrow> same_op s t"
  "same_op s (t\<lparr>ms_cursor := k\<rparr>) \<longleftrightarrow> same_op s t" "same_op s (t\<lparr>ms_doubleClick := d\<rparr>) \<longleftrightarrow> same_op s t"
  "same_op s (t\<lparr>ms_electricTimers := m\<rparr>) \<longleftrightarrow> same_op s t" "same_op s (t\<lparr>ms_unrestricted := u\<rparr>) \<longleftrightarrow> same_op s t"
  by (simp_all add: same_op_def)

lemma same_op_update_cursor [simp]: "same_op s (update_cursor E t) \<longleftrightarrow> same_op s t"
  by (simp add: update_cursor_def Let_def)

lemma same_op_electric [simp]: "same_op s (set_electric_maximizing E v t) \<longleftrightarrow> same_op s t"
  by (simp add: set_electric_maximizing_def Let_def)

lemma same_op_unrestricted [simp]: "same_op s (check_unrestricted_move_resize E t) \<longleftrightarrow> same_op s t"
  by (simp add: check_unrestricted_move_resize_def Let_def)

lemma same_op_perform [simp]: "same_op s (perform_move_resize t) \<longleftrightarrow> same_op s t"
  by (simp add: perform_move_resize_def)

lemma same_op_zones: "same_op s t \<Longrightarrow> same_op s (check_quicktile_maximization_zones E p t)"
  by (simp add: check_quicktile_maximization_zones_def Let_def delayed_electric_maximize_def split: prod.split)

lemma same_op_on_geo: "on_geo E f s = Returns t \<Longrightarrow> same_op s t"
  by (auto simp: on_geo_def)

lemma same_op_running: "move_resize_running E p s = Returns t \<Longrightarrow> same_op s t"
  by (auto simp: move_resize_running_def Let_def split: if_splits)

section \<open>Starting and finishing\<close>

lemma start_ok:
  assumes "start_or_release E s = Returns t" and "\<not> ms_enabled s" and "ms_movingClient s = None" and "ms_blockFocus s = b"
  shows "move_ok (mv_addr E) b t"
proof -
  obtain ok u where u: "start_move_resize E s = Returns (ok, u)" and t: "t = update_cursor E (if ok then u else u\<lparr>ms_buttonDown := False\<rparr>)"
    using assms(1) by (auto simp: start_or_release_def)
  have "same_op (if ok then u else u\<lparr>ms_buttonDown := False\<rparr>) t" by (simp add: t)
  moreover have "move_ok (mv_addr E) b (if ok then u else u\<lparr>ms_buttonDown := False\<rparr>)"
  proof (cases ok)
    case False
    then have "u = stop_delayed_move_resize s" using u by (auto simp: start_move_resize_def Let_def split: if_splits)
    with False assms(2-4) show ?thesis by (simp add: move_ok_def stop_delayed_move_resize_def)
  next
    case True
    obtain g v where v: "setMoveResizeClient (Some (mv_addr E))
          ((ms_setGeo g ((stop_delayed_move_resize s)\<lparr>ms_doubleClick := False\<rparr>))\<lparr>ms_enabled := True\<rparr>) = Returns v"
        and uv: "same_op (v\<lparr>ms_initial := ms_initial u\<rparr>) u"
      using u True by (auto simp: start_move_resize_def Let_def split: if_splits)
        (auto simp: same_op_def ms_emit_def check_unrestricted_move_resize_def Let_def)
    have "move_ok (mv_addr E) b (v\<lparr>ms_initial := ms_initial u\<rparr>)"
      using v assms(2-4) by (auto simp: setMoveResizeClient_def move_ok_def stop_delayed_move_resize_def ms_setGeo_def)
    with uv True show ?thesis by (simp add: same_op_ok)
  qed
  ultimately show ?thesis by (simp add: same_op_ok)
qed

lemma same_op_finish_geometry: "finish_geometry E r c s = Returns t \<Longrightarrow> same_op s t"
  by (auto simp: finish_geometry_def Let_def split: if_splits dest: same_op_on_geo)

lemma same_op_finish_screen:
  assumes "finish_screen E s = Returns t"
  shows "same_op s t"
proof (cases "ms_screen s = ms_startScreen s")
  case False
  let ?f = "send_geometry_to_screen (mv_pos E) (mv_space E) (mv_window E) (ms_screen s) (mv_checkScreen E (ms_screen s))"
  let ?e = "ms_emit (SentToScreen (mv_checkScreen E (ms_screen s))) s"
  obtain u where u: "on_geo E ?f ?e = Returns u" "t = u \<or> on_geo E (check_workspace_position (mv_pos E) (mv_window E) null_rect null_rect) u = Returns t"
    using assms False by (auto simp: finish_screen_def split: if_splits)
  have "same_op ?e u" by (rule same_op_on_geo [OF u(1)])
  moreover have "same_op s ?e" by simp
  moreover have "same_op u t" using u(2) by (auto dest: same_op_on_geo)
  ultimately show ?thesis by (blast intro: same_op_trans)
qed (use assms in \<open>simp add: finish_screen_def\<close>)

lemma same_op_finish_tile: "finish_tile E s = Returns t \<Longrightarrow> same_op s t"
  by (auto simp: finish_tile_def split: if_splits dest: same_op_on_geo)

lemma leave_ok:
  assumes "leaveMoveResize E s = Returns t"
  shows "\<not> ms_enabled t \<and> ms_movingClient t = None \<and> ms_blockFocus t = ms_blockFocus s - 1 \<and>
    ms_delayTimer t = ms_delayTimer s \<and> ms_buttonDown t = ms_buttonDown s"
proof -
  have "same_op (s\<lparr>ms_movingClient := None, ms_blockFocus := ms_blockFocus s - 1, ms_enabled := False\<rparr>) t"
    using assms by (auto simp: leaveMoveResize_def setMoveResizeClient_def Let_def)
  then show ?thesis by (simp add: same_op_def)
qed

lemma finish_spec:
  assumes "finish_move_resize E c s = Returns t"
  shows "\<not> ms_enabled t \<and> ms_movingClient t = None \<and> ms_blockFocus t = ms_blockFocus s - 1 \<and>
    ms_delayTimer t = ms_delayTimer s \<and> ms_buttonDown t = ms_buttonDown s"
proof -
  define u where "u = (ms_setGeo (block_geometry_updates True (ms_geo s)) s)\<lparr>ms_enabled := False\<rparr>"
  obtain s1 s2 s3 s4 where st: "leaveMoveResize E u = Returns s1" "finish_geometry E (op_is_resize (ms_setGeo (block_geometry_updates True (ms_geo s)) s)) c s1 = Returns s2"
      "finish_screen E (toplevel_checkScreen (mv_outputs E) s2) = Returns s3" "finish_tile E s3 = Returns s4" "same_op s4 t"
    using assms unfolding finish_move_resize_def with_move_blocker_def finish_body_def u_def by (auto simp: Let_def)
  have "same_op s2 (toplevel_checkScreen (mv_outputs E) s2)" by (simp add: toplevel_checkScreen_def)
  then have "same_op s1 t"
    using same_op_finish_geometry [OF st(2)] same_op_finish_screen [OF st(3)] same_op_finish_tile [OF st(4)] st(5)
    by (blast intro: same_op_trans)
  with leave_ok [OF st(1)] show ?thesis by (simp add: same_op_def u_def ms_setGeo_def)
qed

lemma finish_ok:
  assumes "finish_move_resize E c s = Returns t" and "move_ok a b s" and "ms_enabled s"
  shows "move_ok a b t \<and> \<not> ms_enabled t"
  using finish_spec [OF assms(1)] assms(2,3) by (simp add: move_ok_def)

lemma release_button_ok: "move_ok a b s \<Longrightarrow> ms_enabled s \<Longrightarrow> move_ok a b (s\<lparr>ms_buttonDown := d\<rparr>)"
  by (simp add: move_ok_def)

lemma finish_running_ok:
  assumes "finish_running E s = Returns t" and "move_ok a b s"
  shows "\<not> ms_enabled t \<and> ms_movingClient t = None \<and> ms_blockFocus t = b"
proof (cases "ms_enabled s")
  case True
  then show ?thesis using assms finish_ok [of E False s t a b] by (auto simp: finish_running_def move_ok_def)
qed (use assms in \<open>simp add: finish_running_def move_ok_def\<close>)

section \<open>The handlers\<close>

text \<open>The contract of an event handler of the window \<open>a\<close>.\<close>

locale move_handler =
  fixes a :: addr and f :: "move_state \<Rightarrow> move_state outcome"
  assumes keeps_ok: "move_ok a b s \<Longrightarrow> f s = Returns t \<Longrightarrow> move_ok a b t"
begin

lemma keeps_ok_same: "move_ok a b s \<Longrightarrow> f s = Returns u \<Longrightarrow> same_op u t \<Longrightarrow> move_ok a b t"
  using keeps_ok [of b s u] by (simp add: same_op_ok)

lemma keeps_ok_repeated:
  assumes "move_ok a b s" and "ofold (\<lambda>_. f) xs s = Returns t"
  shows "move_ok a b t"
  by (rule ofold_invariant [where P = "move_ok a b", OF _ assms]) (erule keeps_ok)

end

lemma handlerI: "(\<And>b s t. move_ok a b s \<Longrightarrow> f s = Returns t \<Longrightarrow> move_ok a b t) \<Longrightarrow> move_handler a f"
  by unfold_locales

lemma same_op_handlerI: "(\<And>s t. f s = Returns t \<Longrightarrow> same_op s t) \<Longrightarrow> move_handler a f"
  by (rule handlerI) (metis same_op_ok)

interpretation running: move_handler "mv_addr E" "move_resize_running E p" for E p
  by (rule same_op_handlerI) (rule same_op_running)

interpretation geo: move_handler "mv_addr E" "on_geo E f" for E f
  by (rule same_op_handlerI) (rule same_op_on_geo)

interpretation finish: move_handler "mv_addr E" "\<lambda>s. if ms_enabled s then finish_move_resize E c s else Returns s" for E c
  by (rule handlerI) (auto dest: finish_ok split: if_splits)

interpretation impl: move_handler "mv_addr E" "move_resize_impl E l p" for E l p
proof (rule handlerI)
  fix b s t
  assume ok: "move_ok (mv_addr E) b s" and r: "move_resize_impl E l p s = Returns t"
  show "move_ok (mv_addr E) b t"
  proof (cases "ms_enabled s")
    case True
    then show ?thesis using ok r running.keeps_ok by (auto simp: move_resize_impl_def split: if_splits)
  next
    case False
    then consider "t = s" | u where "start_or_release E s = Returns u" "t = u \<or> move_resize_running E p u = Returns t"
      using r by (auto simp: move_resize_impl_def split: if_splits)
    then show ?thesis
    proof cases
      case 2
      have "move_ok (mv_addr E) b u" using start_ok [OF 2(1) False] ok False by (simp add: move_ok_def)
      then show ?thesis using 2(2) running.keeps_ok by blast
    qed (use ok in simp)
  qed
qed

lemma with_move_blocker_ok:
  assumes "move_handler a f"
  shows "move_handler a (with_move_blocker f)"
proof (rule handlerI)
  fix b s t
  assume ok: "move_ok a b s" and "with_move_blocker f s = Returns t"
  then obtain u where u: "f (ms_setGeo (block_geometry_updates True (ms_geo s)) s) = Returns u" "same_op u t"
    by (auto simp: with_move_blocker_def)
  have "move_ok a b (ms_setGeo (block_geometry_updates True (ms_geo s)) s)"
    by (rule same_op_ok [THEN iffD2, OF _ ok]) simp
  then show "move_ok a b t" using u by (rule move_handler.keeps_ok_same [OF assms])
qed

interpretation untile: move_handler "mv_addr E" "untile_and_move E l p old restore" for E l p old restore
proof (rule handlerI)
  fix b s t
  assume ok: "move_ok (mv_addr E) b s" and r: "untile_and_move E l p old restore s = Returns t"
  obtain u where u: "on_geo E (set_quicktile_mode (mv_pos E) (mv_window E) (ms_screen s) qt_none False) s = Returns u"
    using r unfolding untile_and_move_def obind_eq_Returns by blast
  have "\<exists>v. move_resize_impl E l p v = Returns t \<and> same_op u v"
    using r unfolding untile_and_move_def u obind.simps Let_def by (intro exI conjI) (assumption, simp)
  then obtain v where v: "move_resize_impl E l p v = Returns t" "same_op u v" by blast
  have "move_ok (mv_addr E) b v" using geo.keeps_ok [OF ok u] v(2) by (simp add: same_op_ok)
  then show "move_ok (mv_addr E) b t" using v(1) by (rule impl.keeps_ok)
qed

interpretation move: move_handler "mv_addr E" "move_resize E l p" for E l p
proof (rule handlerI)
  fix b s t
  assume ok: "move_ok (mv_addr E) b s" and r: "move_resize E l p s = Returns t"
  obtain u where u: "move_resize_impl E l p s = Returns u" and
      t: "same_op u t \<or> with_move_blocker (untile_and_move E l p (g_frameGeometry (ms_geo s)) (g_restore (ms_geo s))) u = Returns t"
    using r by (auto simp: move_resize_def Let_def same_op_zones split: if_splits)
  note ok' = impl.keeps_ok [OF ok u]
  show "move_ok (mv_addr E) b t"
    using t ok' move_handler.keeps_ok [OF with_move_blocker_ok [OF untile.move_handler_axioms] ok'] same_op_ok by blast
qed

interpretation update: move_handler "mv_addr E" "update_move_resize E p" for E p
  by (rule handlerI) (unfold update_move_resize_def, rule move.keeps_ok)

interpretation ending: move_handler "mv_addr E" "end_move_resize E" for E
proof (rule handlerI)
  fix b s t
  assume ok: "move_ok (mv_addr E) b s" and r: "end_move_resize E s = Returns t"
  let ?s = "stop_delayed_move_resize (s\<lparr>ms_buttonDown := False\<rparr>)"
  have ok': "move_ok (mv_addr E) b ?s" using ok by (simp add: move_ok_def stop_delayed_move_resize_def)
  show "move_ok (mv_addr E) b t"
  proof (cases "ms_enabled s")
    case True
    then obtain u where u: "finish_move_resize E False ?s = Returns u" and t: "same_op u t"
      using r by (auto simp: end_move_resize_def Let_def stop_delayed_move_resize_def)
    have "ms_enabled ?s" using True by (simp add: stop_delayed_move_resize_def)
    with finish_ok [OF u ok'] t show ?thesis by (simp add: same_op_ok)
  next
    case False
    then have "same_op ?s t" using r by (auto simp: end_move_resize_def Let_def stop_delayed_move_resize_def)
    with ok' show ?thesis by (simp add: same_op_ok)
  qed
qed

interpretation key: move_handler "mv_addr E" "key_press_event E ctrl alt k" for E ctrl alt k
proof (rule handlerI)
  fix b s t
  assume ok: "move_ok (mv_addr E) b s" and r: "key_press_event E ctrl alt k s = Returns t"
  consider "same_op s t" | c where "ms_enabled s" "key_finish E c s = Returns t"
    using r by (cases "ms_enabled s"; cases k) (auto simp: key_press_event_def Let_def op_is_move_def op_is_resize_def)
  then show "move_ok (mv_addr E) b t"
  proof cases
    case 2
    obtain u where u: "finish_move_resize E c (s\<lparr>ms_buttonDown := False\<rparr>) = Returns u" "same_op u t"
      using 2(2) by (auto simp: key_finish_def)
    show ?thesis using finish_ok [OF u(1) release_button_ok [OF ok 2(1)]] u(2) 2(1) by (simp add: same_op_ok)
  qed (use ok in \<open>simp add: same_op_ok\<close>)
qed

lemma start_after_finish_ok:
  assumes "start_or_release E v = Returns t" and "finish_running E s = Returns u" and "move_ok (mv_addr E) b s"
    and "ms_enabled v = ms_enabled u" "ms_movingClient v = ms_movingClient u" "ms_blockFocus v = ms_blockFocus u"
  shows "move_ok (mv_addr E) b t"
  using start_ok [OF assms(1)] finish_running_ok [OF assms(2,3)] assms(4-6) by simp

interpretation move_cmd: move_handler "mv_addr E" "move_command E u p" for E u p
  by (rule handlerI, auto simp: move_command_def split: if_splits, erule (2) start_after_finish_ok) simp_all

interpretation resize_cmd: move_handler "mv_addr E" "resize_command E u p" for E u p
  by (rule handlerI, auto simp: resize_command_def Let_def split: if_splits, erule (2) start_after_finish_ok) simp_all

interpretation resize_req: move_handler "mv_addr E" "handle_resize_request E c" for E c
  by (rule handlerI, auto simp: handle_resize_request_def Let_def split: if_splits, erule (2) start_after_finish_ok) simp_all

lemma emitted_ok: "move_ok a b (ms_emit e s) \<longleftrightarrow> move_ok a b s"
  by (simp add: move_ok_def ms_emit_def)

lemma command_ok:
  assumes "perform_mouse_command I cmd p s = Returns (r, t)" and "move_ok (mv_addr (ie_move I)) b s"
  shows "move_ok (mv_addr (ie_move I)) b t"
  using assms
  by (cases cmd)
    (auto simp: perform_mouse_command_def Let_def request_focus_at_def emitted_ok split: option.splits if_splits
      dest: move_cmd.keeps_ok [rotated] resize_cmd.keeps_ok [rotated] geo.keeps_ok [rotated])

interpretation command: move_handler "mv_addr (ie_move I)" "\<lambda>s. obind (perform_mouse_command I cmd p s) (\<lambda>r. Returns (snd r))" for I cmd p
  by (rule handlerI) (auto dest: command_ok)

interpretation net: move_handler "mv_addr (ie_move I)" "net_move_resize I p dir" for I p dir
proof (rule handlerI)
  fix b s t
  assume ok: "move_ok (mv_addr (ie_move I)) b s" and r: "net_move_resize I p dir s = Returns t"
  show "move_ok (mv_addr (ie_move I)) b t"
  proof (cases dir)
    case NetCancel
    show ?thesis
    proof (cases "ms_enabled s")
      case True
      then obtain u where u: "finish_move_resize (ie_move I) True s = Returns u" "t = update_cursor (ie_move I) (u\<lparr>ms_buttonDown := False\<rparr>)"
        using NetCancel r by (auto simp: net_move_resize_def Let_def)
      have "same_op (u\<lparr>ms_buttonDown := False\<rparr>) t" by (simp add: u(2))
      moreover have "move_ok (mv_addr (ie_move I)) b (u\<lparr>ms_buttonDown := False\<rparr>)"
        using finish_spec [OF u(1)] ok True by (simp add: move_ok_def)
      ultimately show ?thesis by (simp add: same_op_ok)
    qed (use NetCancel r ok in \<open>simp add: net_move_resize_def\<close>)
  next
    case (NetResize c)
    then show ?thesis using r ok
      by (auto simp: net_move_resize_def Let_def split: if_splits) (erule (2) start_after_finish_ok; simp)
  qed (use r ok in \<open>auto simp: net_move_resize_def Let_def emitted_ok dest: command_ok\<close>)
qed

text \<open>
  A press on the decoration, when the timer is not running: the assertion of \<open>start_delayed_move_resize\<close>.
\<close>

lemma press_prepare_ok:
  assumes "press_prepare E l s = Returns t" and "move_ok a b s" and "\<not> ms_enabled s"
  shows "move_ok a b t"
proof -
  let ?v = "s\<lparr>ms_contact := mv_mouse E, ms_buttonDown := True, ms_offset := l, ms_inverted := inverted_offset l s,
     ms_unrestricted := False, ms_delayTimer := True\<rparr>"
  have "same_op ?v t" using assms(1) by (auto simp: press_prepare_def start_delayed_move_resize_def)
  moreover have "move_ok a b ?v" using assms(2,3) by (simp add: move_ok_def)
  ultimately show ?thesis by (simp add: same_op_ok)
qed

lemma if_Returns: "(if c then A else Returns v) = Returns u \<Longrightarrow> u = v \<or> A = Returns u"
  by (simp split: if_splits)

lemma press_ok:
  assumes "process_decoration_button_press I n l p x m s = Returns (r, t)" and "move_ok (mv_addr (ie_move I)) b s" and "\<not> ms_enabled s"
  shows "move_ok (mv_addr (ie_move I)) b t"
proof (cases "double_clicked I n x s")
  case True
  let ?v = "ms_emit CallWindowOperation (s\<lparr>ms_doubleClick := False\<rparr>)"
  have "end_move_resize (ie_move I) ?v = Returns t"
    using assms(1) True by (simp add: process_decoration_button_press_def Let_def)
  moreover have "move_ok (mv_addr (ie_move I)) b ?v" using assms(2) by (simp add: move_ok_def ms_emit_def)
  ultimately show ?thesis by (metis ending.keeps_ok)
next
  case False
  let ?cmd = "titlebar_command I n" and ?v = "if n = 1 \<and> ie_titlebarUnderMouse I then s\<lparr>ms_doubleClick := True\<rparr> else s"
  have v: "move_ok (mv_addr (ie_move I)) b ?v" "\<not> ms_enabled ?v" using assms(2,3) by (simp_all add: move_ok_def)
  let ?A = "if n = 1 \<and> ?cmd \<noteq> MouseOperationsMenu \<and> ?cmd \<noteq> MouseMinimize then press_prepare (ie_move I) l ?v else Returns ?v"
  let ?B = "\<lambda>u. if \<not> m \<or> ?cmd \<noteq> MouseOperationsMenu
    then obind (perform_mouse_command I ?cmd p u) (\<lambda>r. Returns (snd r)) else Returns u"
  obtain u where u: "?A = Returns u" and t: "?B u = Returns t"
    using assms(1) [unfolded process_decoration_button_press_def Let_def if_not_P [OF False] obind_eq_Returns outcome.inject prod.inject]
    by blast
  from if_Returns [OF u] if_Returns [OF t]
  have u: "u = ?v \<or> press_prepare (ie_move I) l ?v = Returns u"
    and t: "t = u \<or> obind (perform_mouse_command I ?cmd p u) (\<lambda>r. Returns (snd r)) = Returns t" .
  have "move_ok (mv_addr (ie_move I)) b u"
    using u v press_prepare_ok [of "ie_move I" l ?v u] by (elim disjE) simp_all
  then show ?thesis using t command.keeps_ok by blast
qed

interpretation deco_move: move_handler "mv_addr E" "process_decoration_move E l p" for E l p
  by (rule handlerI)
    (auto simp: process_decoration_move_def move_ok_def update_cursor_def Let_def ms_emit_def split: if_splits dest: impl.keeps_ok [unfolded move_ok_def, rotated])

interpretation deco_release: move_handler "mv_addr (ie_move I)" "process_decoration_button_release I d x r" for I d x r
proof (rule handlerI)
  fix b s t
  assume ok: "move_ok (mv_addr (ie_move I)) b s" and t: "process_decoration_button_release I d x r s = Returns t"
  let ?v = "if d \<and> (x \<or> \<not> ie_titlebarUnderMouse I) then s\<lparr>ms_doubleClick := False\<rparr> else s"
  have ok': "move_ok (mv_addr (ie_move I)) b ?v" using ok by (auto simp: move_ok_def)
  have "(if r then end_move_resize (ie_move I) ?v else Returns ?v) = Returns t"
    using t unfolding process_decoration_button_release_def Let_def .
  from if_Returns [OF this] show "move_ok (mv_addr (ie_move I)) b t"
    using ok' ending.keeps_ok [OF ok', of t] by (elim disjE) simp_all
qed

text \<open>The timers.\<close>

lemma timeout_ok:
  assumes "delay_timeout E s = Returns t" and "move_ok (mv_addr E) b s" and "ms_delayTimer s"
  shows "move_ok (mv_addr E) b t"
proof -
  have idle: "\<not> ms_enabled s" "ms_movingClient s = None" "ms_blockFocus s = b" using assms(2,3) by (auto simp: move_ok_def)
  obtain u where u: "start_or_release E s = Returns u" "t = stop_delayed_move_resize u"
    using assms(1) by (auto simp: delay_timeout_def)
  show ?thesis using start_ok [OF u(1) idle] by (simp add: u(2) move_ok_def stop_delayed_move_resize_def)
qed

lemma electric_timeout_ok: "move_ok a b s \<Longrightarrow> move_ok a b (electric_timeout E s)"
  by (rule same_op_ok [THEN iffD2, of s]) (simp_all add: electric_timeout_def Let_def)

section \<open>All events\<close>

text \<open>
  The events of the window \<open>a\<close>, each with the environment it finds. While the operation runs the filter takes the events of the pointer, so that
  presses on the decoration only come when it does not run; the timers fire when they run.
\<close>

inductive move_step :: "addr \<Rightarrow> move_state \<Rightarrow> move_state \<Rightarrow> bool" for a s t where
  "mv_addr E = a \<Longrightarrow> key_press_event E ctrl alt k s = Returns t \<Longrightarrow> move_step a s t"
| "mv_addr (ie_move I) = a \<Longrightarrow> perform_mouse_command I cmd p s = Returns (r, t) \<Longrightarrow> move_step a s t"
| "mv_addr (ie_move I) = a \<Longrightarrow> \<not> ms_enabled s \<Longrightarrow> process_decoration_button_press I n l p x m s = Returns (r, t) \<Longrightarrow> move_step a s t"
| "mv_addr E = a \<Longrightarrow> process_decoration_move E l p s = Returns t \<Longrightarrow> move_step a s t"
| "mv_addr (ie_move I) = a \<Longrightarrow> process_decoration_button_release I d x r s = Returns t \<Longrightarrow> move_step a s t"
| "mv_addr (ie_move I) = a \<Longrightarrow> handle_move_request I s = Returns t \<Longrightarrow> move_step a s t"
| "mv_addr E = a \<Longrightarrow> handle_resize_request E c s = Returns t \<Longrightarrow> move_step a s t"
| "mv_addr (ie_move I) = a \<Longrightarrow> net_move_resize I p dir s = Returns t \<Longrightarrow> move_step a s t"
| "mv_addr E = a \<Longrightarrow> move_resize E l p s = Returns t \<Longrightarrow> move_step a s t"
| "mv_addr E = a \<Longrightarrow> end_move_resize E s = Returns t \<Longrightarrow> move_step a s t"
| "mv_addr E = a \<Longrightarrow> filter_pointer_move E p s = Returns (r, t) \<Longrightarrow> move_step a s t"
| "mv_addr E = a \<Longrightarrow> filter_button_release E d s = Returns (r, t) \<Longrightarrow> move_step a s t"
| "mv_addr E = a \<Longrightarrow> filter_key E ctrl alt k s = Returns (r, t) \<Longrightarrow> move_step a s t"
| "mv_addr E = a \<Longrightarrow> filter_touch_motion E i p (tp, s) = Returns (r, tq, t) \<Longrightarrow> move_step a s t"
| "mv_addr E = a \<Longrightarrow> filter_touch_up E i (tp, s) = Returns (r, tq, t) \<Longrightarrow> move_step a s t"
| "mv_addr E = a \<Longrightarrow> ms_delayTimer s \<Longrightarrow> delay_timeout E s = Returns t \<Longrightarrow> move_step a s t"
| "mv_addr E = a \<Longrightarrow> ms_electricTimers s > 0 \<Longrightarrow> t = electric_timeout E s \<Longrightarrow> move_step a s t"

lemma filters_ok:
  assumes "move_ok (mv_addr E) b s"
  shows "filter_pointer_move E p s = Returns (r, t) \<Longrightarrow> move_ok (mv_addr E) b t"
    and "filter_button_release E d s = Returns (r, t) \<Longrightarrow> move_ok (mv_addr E) b t"
    and "filter_key E ctrl alt k s = Returns (r, t) \<Longrightarrow> move_ok (mv_addr E) b t"
    and "filter_touch_motion E i p (tp, s) = Returns (r, tq, t) \<Longrightarrow> move_ok (mv_addr E) b t"
    and "filter_touch_up E i (tp, s) = Returns (r, tq, t) \<Longrightarrow> move_ok (mv_addr E) b t"
  using assms
  by (auto simp: filter_pointer_move_def filter_button_release_def filter_key_def filter_touch_motion_def filter_touch_up_def Let_def
      split: if_splits dest: update.keeps_ok [rotated] ending.keeps_ok [rotated] key.keeps_ok [rotated])

lemma move_step_ok: "move_step a s t \<Longrightarrow> move_ok a b s \<Longrightarrow> move_ok a b t"
  by (induction rule: move_step.induct)
    (auto simp: handle_move_request_def intro: key.keeps_ok command_ok press_ok deco_move.keeps_ok deco_release.keeps_ok resize_req.keeps_ok
      net.keeps_ok move.keeps_ok ending.keeps_ok filters_ok timeout_ok electric_timeout_ok)

inductive move_reach :: "addr \<Rightarrow> int \<Rightarrow> move_state \<Rightarrow> bool" for a b where
  idle: "\<not> ms_enabled s \<Longrightarrow> \<not> ms_delayTimer s \<Longrightarrow> ms_movingClient s = None \<Longrightarrow> ms_blockFocus s = b \<Longrightarrow> move_reach a b s"
| step: "move_reach a b s \<Longrightarrow> move_step a s t \<Longrightarrow> move_reach a b t"

lemma move_reach_ok: "move_reach a b s \<Longrightarrow> move_ok a b s"
  by (induction rule: move_reach.induct) (simp add: move_ok_def, rule move_step_ok)

text \<open>
  C17. Whatever the order of keys, pointer and touch events, presses on the decoration, requests of clients and timers: the workspace names the window as
  the moved one exactly while the operation runs, focus changes are blocked exactly once for it, and the timer of a
  press only runs while the button is down and the operation has not begun, which is what its handler asserts.
\<close>

theorem move_operation_consistent:
  assumes "move_reach a b s"
  shows "ms_movingClient s = (if ms_enabled s then Some a else None) \<and> ms_blockFocus s = b + of_bool (ms_enabled s) \<and>
    (ms_delayTimer s \<longrightarrow> ms_buttonDown s \<and> \<not> ms_enabled s)"
  using move_reach_ok [OF assms] unfolding move_ok_def .

definition demo_input_env :: input_env where
  "demo_input_env = \<lparr>ie_move = demo_move_env, ie_underMouse = None, ie_focusReasonable = True, ie_clickRaise = True, ie_acceptsFocus = True,
     ie_stacking = [2, 1], ie_activeTitlebar = (\<lambda>_. MouseRaise), ie_inactiveTitlebar = (\<lambda>_. MouseActivateAndRaise), ie_titlebarUnderMouse = True\<rparr>"

lemma case_Returns_iff: "(case m of Returns x \<Rightarrow> P x | Faults e \<Rightarrow> False | Diverges \<Rightarrow> False) \<longleftrightarrow> (\<exists>x. m = Returns x \<and> P x)"
  by (cases m) auto

lemma demo_started:
  "case perform_mouse_command demo_input_env MouseMove (160, 60) demo_move_state of
     Returns (r, t) \<Rightarrow> ms_enabled t \<and> ms_initial t = mk_rect 150 50 20 20 | _ \<Rightarrow> False"
  by code_simp

theorem move_operation_consistent_witness:
  "\<exists>t. move_step 1 demo_move_state t \<and> ms_movingClient t = Some 1 \<and> ms_blockFocus t = 1 \<and> \<not> ms_delayTimer t"
proof -
  obtain r t where t: "perform_mouse_command demo_input_env MouseMove (160, 60) demo_move_state = Returns (r, t)" "ms_enabled t"
    using demo_started by (auto split: outcome.splits)
  have step: "move_step 1 demo_move_state t"
    by (rule move_step.intros(2) [OF _ t(1)]) (simp add: demo_input_env_def demo_move_env_def)
  have "move_reach 1 0 demo_move_state" by (rule move_reach.idle) (simp_all add: demo_move_state_def)
  from move_operation_consistent [OF move_reach.step [OF this step]] t(2) step show ?thesis by auto
qed

section \<open>Cancelling\<close>

lemma same_op_impl_enabled: "move_resize_impl E l p s = Returns t \<Longrightarrow> ms_enabled s \<Longrightarrow> same_op s t"
  by (auto simp: move_resize_impl_def split: if_splits dest: same_op_running)

lemma same_op_untile:
  assumes "untile_and_move E l p old restore s = Returns t" and "ms_enabled s"
  shows "same_op s t"
proof -
  obtain u where u: "on_geo E (set_quicktile_mode (mv_pos E) (mv_window E) (ms_screen s) qt_none False) s = Returns u"
    using assms(1) unfolding untile_and_move_def obind_eq_Returns by blast
  have "\<exists>v. move_resize_impl E l p v = Returns t \<and> same_op u v"
    using assms(1) unfolding untile_and_move_def u obind.simps Let_def by (intro exI conjI) (assumption, simp)
  then obtain v where v: "move_resize_impl E l p v = Returns t" "same_op u v" by blast
  have "same_op s v" using same_op_on_geo [OF u] v(2) by (rule same_op_trans)
  moreover from this have "same_op v t" using same_op_impl_enabled [OF v(1)] assms(2) by (simp add: same_op_def)
  ultimately show ?thesis by (rule same_op_trans)
qed

lemma same_op_move_resize:
  assumes "move_resize E l p s = Returns t" and "ms_enabled s"
  shows "same_op s t"
proof -
  let ?f = "untile_and_move E l p (g_frameGeometry (ms_geo s)) (g_restore (ms_geo s))"
  obtain u where u: "move_resize_impl E l p s = Returns u" and t: "same_op u t \<or> with_move_blocker ?f u = Returns t"
    using assms(1) by (auto simp: move_resize_def Let_def same_op_zones split: if_splits)
  have su: "same_op s u" by (rule same_op_impl_enabled [OF u assms(2)])
  have "same_op u t" if blocked: "with_move_blocker ?f u = Returns t"
  proof -
    obtain v where v: "?f (ms_setGeo (block_geometry_updates True (ms_geo u)) u) = Returns v" "same_op v t"
      using blocked by (auto simp: with_move_blocker_def)
    have "same_op (ms_setGeo (block_geometry_updates True (ms_geo u)) u) v"
      using same_op_untile [OF v(1)] su assms(2) by (simp add: same_op_def ms_setGeo_def)
    then show ?thesis using v(2) by (simp add: same_op_def ms_setGeo_def)
  qed
  then show ?thesis using t su by (blast intro: same_op_trans)
qed

text \<open>Any number of movements of the pointer.\<close>

inductive dragged :: "move_state \<Rightarrow> move_state \<Rightarrow> bool" for s where
  still: "dragged s s"
| drag: "dragged s t \<Longrightarrow> move_resize E l p t = Returns u \<Longrightarrow> dragged s u"

lemma dragged_same_op: "dragged s t \<Longrightarrow> ms_enabled s \<Longrightarrow> same_op s t"
proof (induction rule: dragged.induct)
  case (drag t E l p u)
  then have st: "same_op s t" by simp
  then have "same_op t u" using same_op_move_resize [OF drag.hyps(2)] drag.prems by (simp add: same_op_def)
  with st show ?case by (rule same_op_trans)
qed simp

lemma start_remembers_geometry:
  assumes "start_move_resize E s = Returns (True, t)" and "ms_contact s = PCenter"
  shows "ms_enabled t \<and> ms_initial t = pending_frame_geometry (ms_geo s)"
proof -
  obtain g v where g: "start_geometry E ((stop_delayed_move_resize s)\<lparr>ms_doubleClick := False\<rparr>) = Returns g"
      and v: "setMoveResizeClient (Some (mv_addr E))
          ((ms_setGeo g ((stop_delayed_move_resize s)\<lparr>ms_doubleClick := False\<rparr>))\<lparr>ms_enabled := True\<rparr>) = Returns v"
      and t: "ms_initial t = pending_frame_geometry (ms_geo v)" "ms_enabled t = ms_enabled v"
    using assms(1) by (auto simp: start_move_resize_def Let_def split: if_splits)
      (auto simp: ms_emit_def check_unrestricted_move_resize_def Let_def)
  have "pending_frame_geometry g = pending_frame_geometry (ms_geo s)"
    using g assms(2) by (auto simp: start_geometry_def stop_delayed_move_resize_def Let_def geo_of_def pending_frame_geometry_def)
  then show ?thesis using v t by (auto simp: setMoveResizeClient_def ms_setGeo_def)
qed

lemma unblocked_frame:
  assumes "g_checkGeometry g (g_frame g) = g_frame g"
  shows "g_frame (block_geometry_updates False g) = g_frame g"
  using assms by (simp add: block_geometry_updates_def Let_def setFrameGeometry_def)

lemma cancel_finish:
  assumes "\<not> g_electricMaximizing (ms_geo s)" and "g_max_mode (ms_geo s) = MRestore" and "g_checkGeometry (ms_geo s) (ms_initial s) = ms_initial s"
    and "mv_checkScreen E = id"
  shows "\<exists>t. finish_move_resize E True s = Returns t \<and> g_frame (ms_geo t) = ms_initial s"
proof -
  let ?s = "(ms_setGeo (block_geometry_updates True (ms_geo s)) s)\<lparr>ms_enabled := False\<rparr>"
  obtain u where u: "leaveMoveResize E ?s = Returns u" "ms_geo u = ms_geo ?s" "ms_initial u = ms_initial s"
    by (auto simp: leaveMoveResize_def setMoveResizeClient_def Let_def ms_emit_def ms_setGeo_def split: if_splits)
  define v where "v = toplevel_checkScreen (mv_outputs E) (ms_setGeo (setFrameGeometry (ms_initial u) (ms_geo u)) u)"
  have geo: "g_frame (ms_geo v) = ms_initial s" "g_max_mode (ms_geo v) = MRestore" "\<not> g_electricMaximizing (ms_geo v)" "g_checkGeometry (ms_geo v) (ms_initial s) = ms_initial s"
    using assms(1-3) u(2,3)
    by (simp_all add: v_def toplevel_checkScreen_def ms_setGeo_def setFrameGeometry_def block_geometry_updates_def Let_def)
  have "\<exists>w. finish_screen E v = Returns w \<and> g_frame (ms_geo w) = ms_initial s \<and> \<not> g_electricMaximizing (ms_geo w) \<and> g_checkGeometry (ms_geo w) (ms_initial s) = ms_initial s"
    using geo assms(4) by (cases "ms_screen v = ms_startScreen v")
      (simp_all add: finish_screen_def on_geo_def send_geometry_to_screen_def geo_of_def ms_setGeo_def ms_emit_def)
  then obtain w where w: "finish_screen E v = Returns w" "g_frame (ms_geo w) = ms_initial s" "\<not> g_electricMaximizing (ms_geo w)"
      "g_checkGeometry (ms_geo w) (ms_initial s) = ms_initial s" by blast
  have "finish_tile E w = Returns w" using w(3) by (simp add: finish_tile_def)
  then have "\<exists>x. finish_body E True (ms_setGeo (block_geometry_updates True (ms_geo s)) s) = Returns x \<and> g_frame (ms_geo x) = ms_initial s \<and>
      g_checkGeometry (ms_geo x) (ms_initial s) = ms_initial s"
    using u(1) w by (simp add: finish_body_def finish_geometry_def Let_def v_def ms_emit_def ms_setGeo_def)
  then show ?thesis using unblocked_frame by (fastforce simp: finish_move_resize_def with_move_blocker_def ms_setGeo_def)
qed

text \<open>
  C26. Moving a window and cancelling with the escape key is undone: after any number of movements the frame geometry that was requested, or else in effect, when the
  move began is requested again. The window must not be maximized or about to be tiled, and no rule may object to the geometry or the screen.
\<close>

theorem cancelled_move_restores_geometry:
  assumes "start_move_resize E0 s0 = Returns (True, s1)" and "ms_contact s0 = PCenter" and "dragged s1 s"
    and "\<not> g_electricMaximizing (ms_geo s)" and "g_max_mode (ms_geo s) = MRestore" and "g_checkGeometry (ms_geo s) (ms_initial s) = ms_initial s"
    and "mv_checkScreen E = id"
  shows "\<exists>t. key_press_event E ctrl alt KeyEscape s = Returns t \<and> g_frame (ms_geo t) = pending_frame_geometry (ms_geo s0)"
proof -
  note start = start_remembers_geometry [OF assms(1,2)]
  have same: "same_op s1 s" using dragged_same_op [OF assms(3)] start by simp
  then have en: "ms_enabled s" "ms_initial s = pending_frame_geometry (ms_geo s0)" using start by (simp_all add: same_op_def)
  obtain u where u: "finish_move_resize E True (s\<lparr>ms_buttonDown := False\<rparr>) = Returns u" "g_frame (ms_geo u) = ms_initial s"
    using cancel_finish [of "s\<lparr>ms_buttonDown := False\<rparr>" E] assms(4-7) by auto
  have "ms_geo (ms_emit e (update_cursor E u)) = ms_geo u" for e by (simp add: ms_emit_def update_cursor_def Let_def)
  then show ?thesis using u en by (auto simp: key_press_event_def key_finish_def op_is_move_def op_is_resize_def)
qed

definition demo_grabbed :: move_state where
  "demo_grabbed = demo_move_state\<lparr>ms_unrestricted := True, ms_offset := (10, 10), ms_inverted := (9, 9)\<rparr>"

lemma demo_dragged:
  "case start_move_resize demo_move_env demo_grabbed of
     Returns (ok, t) \<Rightarrow> ok \<and> (case move_resize demo_move_env (0, 0) (55, 55) t of
         Returns u \<Rightarrow> \<not> g_electricMaximizing (ms_geo u) \<and> g_max_mode (ms_geo u) = MRestore \<and> g_frame (ms_geo u) = mk_rect 45 45 20 20 \<and>
           g_checkGeometry (ms_geo u) (ms_initial u) = ms_initial u
       | _ \<Rightarrow> False)
   | _ \<Rightarrow> False"
  by code_simp

theorem cancelled_move_restores_geometry_witness:
  "\<exists>t u v. start_move_resize demo_move_env demo_grabbed = Returns (True, t) \<and> move_resize demo_move_env (0, 0) (55, 55) t = Returns u \<and>
     g_frame (ms_geo u) = mk_rect 45 45 20 20 \<and>
     key_press_event demo_move_env False False KeyEscape u = Returns v \<and> g_frame (ms_geo v) = mk_rect 150 50 20 20"
proof -
  obtain t u where t: "start_move_resize demo_move_env demo_grabbed = Returns (True, t)"
      and u: "move_resize demo_move_env (0, 0) (55, 55) t = Returns u" "\<not> g_electricMaximizing (ms_geo u)" "g_max_mode (ms_geo u) = MRestore"
        "g_frame (ms_geo u) = mk_rect 45 45 20 20" "g_checkGeometry (ms_geo u) (ms_initial u) = ms_initial u"
    using demo_dragged unfolding case_Returns_iff by (auto simp: case_prod_unfold)
  have "ms_contact demo_grabbed = PCenter" by (simp add: demo_grabbed_def demo_move_state_def)
  moreover have "dragged t u" by (rule dragged.drag [OF dragged.still u(1)])
  moreover have "mv_checkScreen demo_move_env = id" by (simp add: demo_move_env_def)
  ultimately obtain v where "key_press_event demo_move_env False False KeyEscape u = Returns v"
      "g_frame (ms_geo v) = pending_frame_geometry (ms_geo demo_grabbed)"
    using cancelled_move_restores_geometry [OF t _ _ u(2,3,5)] by metis
  moreover have "pending_frame_geometry (ms_geo demo_grabbed) = mk_rect 150 50 20 20"
    by (simp add: demo_grabbed_def demo_move_state_def demo_geo_def pending_frame_geometry_def)
  ultimately show ?thesis using t u(1,4) by metis
qed

end
