(* ===== verification/Move_Findings.thy ===== *)
theory Move_Findings
  imports Move_Invariant
begin

text \<open>Situations in which moving and resizing does not do what it means to.\<close>

declare restrict_resize.simps [code] restrict_move.simps [code]

text \<open>
  A press with the left button while the timer of an earlier press still runs fails an assertion. It runs on when the left button is released while
  another one is held, because the release of a button stops the timer only if no button is left.
\<close>

lemma second_press_faults:
  "case obind (process_decoration_button_press (demo_input_env\<lparr>ie_titlebarUnderMouse := False\<rparr>) 1 (5, 5) (155, 55) False False demo_move_state) (\<lambda>r.
     obind (process_decoration_button_release (demo_input_env\<lparr>ie_titlebarUnderMouse := False\<rparr>) True False False (snd r)) (\<lambda>s.
       process_decoration_button_press (demo_input_env\<lparr>ie_titlebarUnderMouse := False\<rparr>) 1 (5, 5) (155, 55) False False s)) of
     Faults e \<Rightarrow> e = AssertFailed | _ \<Rightarrow> False"
  by code_simp

text \<open>The request of a client to move its window, while the user moves another one, fails the assertion of \<open>setMoveResizeClient\<close>.\<close>

lemma request_during_other_move_faults:
  "case handle_move_request demo_input_env (demo_move_state\<lparr>ms_movingClient := Some 2\<rparr>) of
     Faults e \<Rightarrow> e = AssertFailed | _ \<Rightarrow> False"
  by code_simp

text \<open>
  The inverted offset of a resize that an X11 client requests is one too large: the window grows by a pixel although the pointer has not moved.
\<close>

lemma net_resize_grows:
  "case net_move_resize (demo_input_env\<lparr>ie_move := demo_move_env\<lparr>mv_snap := snap_demo_options\<lparr>so_border := 0, so_window := 0\<rparr>\<rparr>\<rparr>) (160, 60)
       (NetResize PBottomRight) demo_move_state of
     Returns t \<Rightarrow> (case move_resize_running (demo_move_env\<lparr>mv_snap := snap_demo_options\<lparr>so_border := 0, so_window := 0\<rparr>\<rparr>) (160, 60) t of
         Returns u \<Rightarrow> rsize (g_frameGeometry (ms_geo t)) = (20, 20) \<and> rsize (ms_geometry u) = (21, 21) | _ \<Rightarrow> False)
   | _ \<Rightarrow> False"
  by code_simp

text \<open>Cancelling while the outline of a tile is shown does not restore the geometry but tiles the window.\<close>

lemma cancel_tiles:
  "case key_press_event demo_move_env False False KeyEscape
       (demo_move_state\<lparr>ms_enabled := True, ms_movingClient := Some 1,
          ms_geo := (ms_geo demo_move_state)\<lparr>g_electric := qt_none\<lparr>qt_left := True\<rparr>, g_electricMaximizing := True\<rparr>\<rparr>) of
     Returns t \<Rightarrow> g_frame (ms_geo t) \<noteq> ms_initial t \<and> g_quicktiling (ms_geo t) = qt_none\<lparr>qt_left := True\<rparr>
   | _ \<Rightarrow> False"
  by code_simp

text \<open>The timers of \<open>delayed_electric_maximize\<close> pile up, and the first of them already shows the outline.\<close>

lemma electric_timers_pile_up:
  "ms_electricTimers (delayed_electric_maximize (delayed_electric_maximize s)) = ms_electricTimers s + 2"
  by (simp add: delayed_electric_maximize_def)

text \<open>When another finger is lifted, any finger may take the window over.\<close>

lemma lifted_finger_releases_window:
  "ms_movingClient s \<noteq> None \<Longrightarrow> i \<noteq> j \<Longrightarrow> filter_touch_up E j ((i, True), s) = Returns (True, (i, False), s)"
  by (auto simp: filter_touch_up_def Let_def)

end
