(* ===== verification/Floating_Point.thy ===== *)
theory Floating_Point
  imports Complex_Main
begin

text \<open>
  The numbers of type \<open>double\<close> and \<open>float\<close> as rationals, and the rounding of the results of their operations to the
  nearest number with 53 and 24 significant bits, ties to the even one, as IEEE 754 prescribes it. Exponents are not
  bounded: the numbers of the code that uses this theory are neither too large nor subnormal. What the proofs need of a
  rounding is the locale \<open>rounding\<close>, which both formats interpret.
\<close>

section \<open>Rounding\<close>

definition round_even :: "rat \<Rightarrow> int" where
  "round_even y =
     (let k = \<lfloor>y\<rfloor>; d = y - of_int k in if d < 1 / 2 \<or> (d = 1 / 2 \<and> even k) then k else k + 1)"

text \<open>The number of bits of a positive integer.\<close>

function bit_length :: "int \<Rightarrow> nat" where
  "bit_length n = (if n \<le> 0 then 0 else Suc (bit_length (n div 2)))"
  by auto
termination by (relation "measure nat") auto

declare bit_length.simps [simp del]

text \<open>The exponent \<open>e\<close> of a positive number, \<open>2 powi e \<le> x < 2 powi (e + 1)\<close>.\<close>

definition binade :: "rat \<Rightarrow> int" where
  "binade x =
     (let (n, d) = quotient_of x; e = int (bit_length n) - int (bit_length d)
      in if 2 powi e \<le> x then e else e - 1)"

definition fl_bits :: "nat \<Rightarrow> rat \<Rightarrow> rat" where
  "fl_bits p x =
     (if x = 0 then 0
      else let u = 2 powi (binade \<bar>x\<bar> - int p + 1) in of_int (round_even (x / u)) * u)"

definition double :: "rat \<Rightarrow> rat" where
  "double = fl_bits 53"

definition float :: "rat \<Rightarrow> rat" where
  "float = fl_bits 24"

section \<open>The error of a rounding\<close>

lemma round_even_error: "\<bar>of_int (round_even y) - y\<bar> \<le> 1 / 2"
proof -
  have "of_int \<lfloor>y\<rfloor> \<le> y" "y < of_int \<lfloor>y\<rfloor> + 1"
    by linarith+
  then show ?thesis
    by (auto simp: round_even_def Let_def abs_le_iff)
qed

lemma round_even_of_int [simp]: "round_even (of_int k) = k"
  by (simp add: round_even_def)

lemma bit_length_bounds: "0 < n \<Longrightarrow> 0 < bit_length n \<and> 2 ^ (bit_length n - 1) \<le> n \<and> n < 2 ^ bit_length n"
proof (induction n rule: bit_length.induct)
  case (1 n)
  have l: "bit_length n = Suc (bit_length (n div 2))"
    using "1.prems" by (simp add: bit_length.simps [of n])
  show ?case
  proof (cases "n = 1")
    case True
    then show ?thesis
      by (simp add: bit_length.simps)
  next
    case False
    then have "0 < n div 2"
      using "1.prems" by auto
    then have ih: "0 < bit_length (n div 2)" "2 ^ (bit_length (n div 2) - 1) \<le> n div 2" "n div 2 < 2 ^ bit_length (n div 2)"
      using "1.IH" "1.prems" by simp_all
    from ih(1) obtain b where b: "bit_length (n div 2) = Suc b"
      by (cases "bit_length (n div 2)") auto
    show ?thesis
      using ih(2,3) unfolding l b by (simp, linarith)
  qed
qed

lemma bit_length_powi:
  assumes "0 < n"
  shows "2 powi (int (bit_length n) - 1) \<le> (of_int n :: rat)" "(of_int n :: rat) < 2 powi int (bit_length n)"
proof -
  have b: "0 < bit_length n" "2 ^ (bit_length n - 1) \<le> n" "n < 2 ^ bit_length n"
    using bit_length_bounds [OF assms] by simp_all
  have "(2 :: rat) powi (int (bit_length n) - 1) = of_int (2 ^ (bit_length n - 1))"
    using b(1) by (simp add: power_int_def nat_diff_distrib)
  also have "\<dots> \<le> of_int n"
    using b(2) by (simp only: of_int_le_iff)
  finally show "2 powi (int (bit_length n) - 1) \<le> (of_int n :: rat)" .
  have "(of_int n :: rat) < of_int (2 ^ bit_length n)"
    using b(3) by (simp only: of_int_less_iff)
  then show "(of_int n :: rat) < 2 powi int (bit_length n)"
    by simp
qed

lemma binade_le:
  assumes "0 < x"
  shows "2 powi binade x \<le> x"
proof -
  obtain n d where q: "quotient_of x = (n, d)"
    by fastforce
  have d: "0 < d" and x: "x = of_int n / of_int d"
    using q by (simp_all add: quotient_of_denom_pos quotient_of_div)
  have n: "0 < n"
    using assms x d by (simp add: zero_less_divide_iff)
  let ?a = "int (bit_length n)" and ?b = "int (bit_length d)"
  have "2 powi (?a - ?b - 1) * of_int d \<le> 2 powi (?a - ?b - 1) * (2 powi ?b :: rat)"
    using bit_length_powi(2) [OF d] by (intro mult_left_mono) simp_all
  also have "\<dots> = 2 powi (?a - 1)"
    by (subst power_int_add [symmetric]) simp_all
  also have "\<dots> \<le> of_int n"
    using bit_length_powi(1) [OF n] .
  finally have "2 powi (?a - ?b - 1) \<le> x"
    using d by (simp add: x field_simps)
  then show ?thesis
    by (simp add: binade_def q Let_def)
qed

lemma fl_bits_error: "\<bar>fl_bits p x - x\<bar> \<le> \<bar>x\<bar> / 2 ^ p"
proof (cases "x = 0")
  case False
  let ?u = "2 powi (binade \<bar>x\<bar> - int p + 1) :: rat"
  have u: "0 < ?u"
    by simp
  have "fl_bits p x - x = (of_int (round_even (x / ?u)) - x / ?u) * ?u"
    using False u by (simp add: fl_bits_def Let_def algebra_simps)
  then have "\<bar>fl_bits p x - x\<bar> = \<bar>of_int (round_even (x / ?u)) - x / ?u\<bar> * ?u"
    using u by (simp add: abs_mult)
  also have "\<dots> \<le> 1 / 2 * ?u"
    using round_even_error u by (intro mult_right_mono) auto
  also have "\<dots> = 2 powi binade \<bar>x\<bar> / 2 ^ p"
    by (simp add: power_int_add power_int_diff)
  also have "\<dots> \<le> \<bar>x\<bar> / 2 ^ p"
    using binade_le [of "\<bar>x\<bar>"] False by (intro divide_right_mono) simp_all
  finally show ?thesis .
qed (simp add: fl_bits_def)

text \<open>A number with few enough bits is not changed.\<close>

lemma fl_bits_exact:
  assumes "\<bar>k\<bar> \<le> 2 ^ 16" "17 \<le> p"
  shows "fl_bits p (of_int k / 2 ^ j) = of_int k / 2 ^ j"
proof (cases "k = 0")
  case False
  let ?x = "of_int k / 2 ^ j :: rat"
  let ?e = "binade \<bar>?x\<bar>"
  let ?u = "2 powi (?e - int p + 1) :: rat"
  have "2 powi ?e \<le> \<bar>?x\<bar>"
    using False by (intro binade_le) simp
  also have "\<bar>?x\<bar> = of_int \<bar>k\<bar> * 2 powi (- int j)"
    by (simp add: power_int_minus field_simps)
  also have "\<dots> \<le> of_int (2 ^ 16) * 2 powi (- int j)"
    using assms(1) by (intro mult_right_mono) (simp_all only: of_int_le_iff zero_le_power_int zero_le_numeral)
  also have "\<dots> = 2 powi (16 - int j)"
    by (simp add: power_int_diff power_int_minus field_simps)
  finally have "(2 :: rat) powi ?e \<le> 2 powi (16 - int j)" .
  then have e: "?e \<le> 16 - int j"
    using power_int_strict_increasing [of "16 - int j" ?e "2 :: rat"] by (rule_tac ccontr) simp
  define m where "m = nat (int p - 1 - ?e - int j)"
  have m: "?e - int p + 1 = - int m - int j"
    using e assms(2) by (simp add: m_def)
  have u: "?u = 1 / (2 ^ m * 2 ^ j)"
    unfolding m by (simp add: power_int_diff power_int_minus field_simps)
  have "?x / ?u = of_int (k * 2 ^ m)"
    unfolding u by (simp add: field_simps)
  then have "fl_bits p ?x = of_int (k * 2 ^ m) * ?u"
    using False by (simp only: fl_bits_def Let_def round_even_of_int) simp
  also have "\<dots> = ?x"
    unfolding u by (simp add: field_simps)
  finally show ?thesis .
qed (simp add: fl_bits_def)

section \<open>What the proofs use\<close>

locale rounding =
  fixes fl :: "rat \<Rightarrow> rat"
  assumes fl_error: "\<bar>fl x - x\<bar> \<le> \<bar>x\<bar> / 2 ^ 24"
    and fl_exact: "\<bar>k\<bar> \<le> 2 ^ 16 \<Longrightarrow> fl (of_int k / 2 ^ j) = of_int k / 2 ^ j"
begin

lemma fl_of_int: "\<bar>k\<bar> \<le> 2 ^ 16 \<Longrightarrow> fl (of_int k) = of_int k"
  using fl_exact [of k 0] by simp

lemma fl_nonneg:
  assumes "0 \<le> x"
  shows "0 \<le> fl x"
proof -
  have "x - x / 2 ^ 24 \<le> fl x"
    using fl_error [of x] unfolding abs_of_nonneg [OF assms] by linarith
  moreover have "x / 2 ^ 24 \<le> x"
    using assms by simp
  ultimately show ?thesis
    by linarith
qed

lemma fl_le:
  assumes "0 \<le> x" "x \<le> y"
  shows "fl x \<le> y * (1 + 1 / 2 ^ 24)"
proof -
  have "fl x \<le> x * (1 + 1 / 2 ^ 24)"
    using fl_error [of x] unfolding abs_of_nonneg [OF assms(1)] distrib_left mult_1_right times_divide_eq_right by linarith
  also have "\<dots> \<le> y * (1 + 1 / 2 ^ 24)"
    using assms(2) by (intro mult_right_mono) simp_all
  finally show ?thesis .
qed

lemma fl_ge:
  assumes "0 \<le> y" "y \<le> x"
  shows "y * (1 - 1 / 2 ^ 24) \<le> fl x"
proof -
  have "y * (1 - 1 / 2 ^ 24) \<le> x * (1 - 1 / 2 ^ 24)"
    using assms(2) by (intro mult_right_mono) simp_all
  also have "\<dots> \<le> fl x"
    using fl_error [of x] unfolding abs_of_nonneg [OF order_trans [OF assms]] right_diff_distrib mult_1_right times_divide_eq_right by linarith
  finally show ?thesis .
qed

end

lemma fl_bits_error_24: "24 \<le> p \<Longrightarrow> \<bar>fl_bits p x - x\<bar> \<le> \<bar>x\<bar> / 2 ^ 24"
  by (rule order_trans [OF fl_bits_error]) (intro divide_left_mono power_increasing, simp_all)

interpretation dbl: rounding double
  unfolding double_def by unfold_locales (rule fl_bits_error_24 fl_bits_exact, simp_all)+

interpretation flt: rounding float
  unfolding float_def by unfold_locales (rule fl_bits_error_24 fl_bits_exact, simp_all)+

end
