(* ===== verification/Blackbody.thy ===== *)
theory Blackbody
  imports Floating_Point
begin

text \<open>
  The white points of \<^verbatim>\<open>colorcorrection/constants.h\<close>: red, green and blue for the temperatures from 1000 K on in steps of
  100 K, in units of \<open>10\<^sup>-\<^sup>8\<close>. The array of the source has the elements \<open>float (double (n / 10 ^ 8))\<close>: its initializers
  are literals of type \<open>double\<close>.
\<close>

definition blackbody_table :: "int list" where
  "blackbody_table =
    [
     100000000, 18172716, 0, 100000000, 25503671, 0, 100000000, 30942099, 0, 100000000, 35357379, 0,
     100000000, 39091524, 0, 100000000, 42322816, 0, 100000000, 45159884, 0, 100000000, 47675916, 0,
     100000000, 49923747, 0, 100000000, 51943421, 0, 100000000, 54360078, 8679949, 100000000, 56618736, 14065513,
     100000000, 58734976, 18362641, 100000000, 60724493, 22137978, 100000000, 62600248, 25591950, 100000000, 64373109, 28819679,
     100000000, 66052319, 31873863, 100000000, 67645822, 34786758, 100000000, 69160518, 37579588, 100000000, 70602449, 40267128,
     100000000, 71976951, 42860152, 100000000, 73288760, 45366838, 100000000, 74542112, 47793608, 100000000, 75740814, 50145662,
     100000000, 76888303, 52427322, 100000000, 77987699, 54642268, 100000000, 79041843, 56793692, 100000000, 80053332, 58884417,
     100000000, 81024551, 60916971, 100000000, 81957693, 62893653, 100000000, 82854786, 64816570, 100000000, 83717703, 66687674,
     100000000, 84548188, 68508786, 100000000, 85347859, 70281616, 100000000, 86118227, 72007777, 100000000, 86860704, 73688797,
     100000000, 87576611, 75326132, 100000000, 88267187, 76921169, 100000000, 88933596, 78475236, 100000000, 89576933, 79989606,
     100000000, 90198230, 81465502, 100000000, 90963069, 82838210, 100000000, 91710889, 84190889, 100000000, 92441842, 85523742,
     100000000, 93156127, 86836903, 100000000, 93853986, 88130458, 100000000, 94535695, 89404470, 100000000, 95201559, 90658983,
     100000000, 95851906, 91894041, 100000000, 96487079, 93109690, 100000000, 97107439, 94305985, 100000000, 97713351, 95482993,
     100000000, 98305189, 96640795, 100000000, 98883326, 97779486, 100000000, 99448139, 98899179, 100000000, 100000000, 100000000,
     98947904, 99348723, 100000000, 97940448, 98722715, 100000000, 96975025, 98120637, 100000000, 96049223, 97541240, 100000000,
     95160805, 96983355, 100000000, 94303638, 96443333, 100000000, 93480451, 95923080, 100000000, 92689056, 95421394, 100000000,
     91927697, 94937330, 100000000, 91194747, 94470005, 100000000, 90488690, 94018594, 100000000, 89808115, 93582323, 100000000,
     89151710, 93160469, 100000000, 88518247, 92752354, 100000000, 87906581, 92357340, 100000000, 87315640, 91974827, 100000000,
     86744421, 91604254, 100000000, 86191983, 91245088, 100000000, 85657444, 90896831, 100000000, 85139976, 90559011, 100000000,
     84638799, 90231183, 100000000, 84153180, 89912926, 100000000, 83682430, 89603843, 100000000, 83225897, 89303558, 100000000,
     82782969, 89011714, 100000000, 82353066, 88727974, 100000000, 81935641, 88452017, 100000000, 81530175, 88183541, 100000000,
     81136180, 87922257, 100000000, 80753191, 87667891, 100000000, 80380769, 87420182, 100000000, 80018497, 87178882, 100000000,
     79665980, 86943756, 100000000, 79322843, 86714579, 100000000, 78988728, 86491137, 100000000, 78663296, 86273225, 100000000,
     78346225, 86060650, 100000000, 78037207, 85853224, 100000000, 77735950, 85650771, 100000000, 77442176, 85453121, 100000000,
     77155617, 85260112, 100000000, 76876022, 85071588, 100000000, 76603147, 84887402, 100000000, 76336762, 84707411, 100000000,
     76076645, 84531479, 100000000, 75822586, 84359476, 100000000, 75574383, 84191277, 100000000, 75331843, 84026762, 100000000,
     75094780, 83865816, 100000000, 74863017, 83708329, 100000000, 74636386, 83554194, 100000000, 74414722, 83403311, 100000000,
     74197871, 83255582, 100000000, 73985682, 83110912, 100000000, 73778012, 82969211, 100000000, 73574723, 82830393, 100000000,
     73375683, 82694373, 100000000, 73180765, 82561071, 100000000, 72989845, 82430410, 100000000, 72802807, 82302316, 100000000,
     72619537, 82176715, 100000000, 72439927, 82053539, 100000000, 72263872, 81932722, 100000000, 72091270, 81814197, 100000000,
     71922025, 81697905, 100000000, 71756043, 81583783, 100000000, 71593234, 81471775, 100000000, 71433510, 81361825, 100000000,
     71276788, 81253878, 100000000, 71122987, 81147883, 100000000, 70972029, 81043789, 100000000, 70823838, 80941546, 100000000,
     70678342, 80841109, 100000000, 70535469, 80742432, 100000000, 70395153, 80645469, 100000000, 70257327, 80550180, 100000000,
     70121928, 80456522, 100000000, 69988894, 80364455, 100000000, 69858167, 80273941, 100000000, 69729688, 80184943, 100000000,
     69603402, 80097423, 100000000, 69479255, 80011347, 100000000, 69357196, 79926681, 100000000, 69237173, 79843391, 100000000,
     69119138, 79761446, 100000000, 69003044, 79680814, 100000000, 68888844, 79601466, 100000000, 68776494, 79523371, 100000000,
     68665951, 79446502, 100000000, 68557173, 79370830, 100000000, 68450119, 79296330, 100000000, 68344751, 79222975, 100000000,
     68241029, 79150740, 100000000, 68138918, 79079600, 100000000, 68038380, 79009531, 100000000, 67939381, 78940511, 100000000,
     67841888, 78872517, 100000000, 67745866, 78805526, 100000000, 67651284, 78739518, 100000000, 67558112, 78674472, 100000000,
     67466317, 78610368, 100000000, 67375872, 78547186, 100000000, 67286748, 78484907, 100000000, 67198916, 78423512, 100000000,
     67112350, 78362984, 100000000, 67027024, 78303305, 100000000, 66942911, 78244457, 100000000, 66859988, 78186425, 100000000,
     66778228, 78129191, 100000000, 66697610, 78072740, 100000000, 66618110, 78017057, 100000000, 66539706, 77962127, 100000000,
     66462376, 77907934, 100000000, 66386098, 77854465, 100000000, 66310852, 77801705, 100000000, 66236618, 77749642, 100000000,
     66163375, 77698261, 100000000, 66091106, 77647551, 100000000, 66019791, 77597498, 100000000, 65949412, 77548090, 100000000,
     65879952, 77499315, 100000000, 65811392, 77451161, 100000000, 65743716, 77403618, 100000000, 65676908, 77356673, 100000000,
     65610952, 77310316, 100000000, 65545831, 77264537, 100000000, 65481530, 77219324, 100000000, 65418036, 77174669, 100000000,
     65355332, 77130560, 100000000, 65293404, 77086988, 100000000, 65232240, 77043944, 100000000, 65171824, 77001419, 100000000,
     65112144, 76959404, 100000000, 65053187, 76917889, 100000000, 64994941, 76876866, 100000000, 64937392, 76836326, 100000000,
     64880528, 76796263, 100000000, 64824339, 76756666, 100000000, 64768812, 76717529, 100000000, 64713935, 76678844, 100000000,
     64659699, 76640603, 100000000, 64606092, 76602798, 100000000, 64553103, 76565424, 100000000, 64500722, 76528472, 100000000,
     64448939, 76491935, 100000000, 64397745, 76455808, 100000000, 64347129, 76420082, 100000000, 64297081, 76384753, 100000000,
     64247594, 76349813, 100000000, 64198657, 76315256, 100000000, 64150261, 76281076, 100000000, 64102399, 76247267, 100000000,
     64055061, 76213824, 100000000, 64008239, 76180740, 100000000, 63961926, 76148010, 100000000, 63916112, 76115628, 100000000,
     63870790, 76083590, 100000000, 63825953, 76051890, 100000000, 63781592, 76020522, 100000000, 63737701, 75989482, 100000000,
     63694273, 75958764, 100000000, 63651299, 75928365, 100000000, 63608774, 75898278, 100000000, 63566691, 75868499, 100000000,
     63525042, 75839025, 100000000, 63483822, 75809849, 100000000, 63443023, 75780969, 100000000, 63402641, 75752379, 100000000,
     63362667, 75724075, 100000000, 63323097, 75696053, 100000000, 63283925, 75668310, 100000000, 63245144, 75640840, 100000000,
     63206749, 75613641, 100000000, 63168735, 75586707, 100000000, 63131096, 75560036, 100000000, 63093826, 75533624, 100000000,
     63056920, 75507467, 100000000, 63020374, 75481562, 100000000, 62984181, 75455904, 100000000, 62948337, 75430491, 100000000,
     62912838, 75405319, 100000000, 62877678, 75380385, 100000000, 62842852, 75355685, 100000000, 62808356, 75331217, 100000000,
     62774186, 75306977, 100000000, 62740336, 75282962, 100000000]"

definition blackbodyColor :: "int \<Rightarrow> rat" where
  "blackbodyColor i = float (double (of_int (blackbody_table ! nat i) / 10 ^ 8))"

definition blackbody_length :: int where
  "blackbody_length = int (length blackbody_table)"

lemma blackbody_length_eq: "blackbody_length = 726"
  unfolding blackbody_length_def blackbody_table_def by simp

lemma blackbody_table_range: "list_all (\<lambda>n. 0 \<le> n \<and> n \<le> 10 ^ 8) blackbody_table"
  unfolding blackbody_table_def by simp

lemma blackbody_table_neutral: "map (\<lambda>i. blackbody_table ! i) [165, 166, 167] = [10 ^ 8, 10 ^ 8, 10 ^ 8]"
  unfolding blackbody_table_def by simp

lemma blackbodyColor_bounds:
  assumes "0 \<le> i" "i < blackbody_length"
  shows "0 \<le> blackbodyColor i" "blackbodyColor i \<le> (1 + 1 / 2 ^ 24) * (1 + 1 / 2 ^ 24)"
proof -
  let ?n = "blackbody_table ! nat i"
  have "?n \<in> set blackbody_table"
    using assms by (simp add: blackbody_length_def)
  then have n: "0 \<le> ?n" "?n \<le> 10 ^ 8"
    using blackbody_table_range by (auto simp: list_all_iff)
  then have q: "0 \<le> (of_int ?n / 10 ^ 8 :: rat)" "(of_int ?n / 10 ^ 8 :: rat) \<le> 1"
    by simp_all
  show "0 \<le> blackbodyColor i"
    unfolding blackbodyColor_def by (intro flt.fl_nonneg dbl.fl_nonneg q)
  have "double (of_int ?n / 10 ^ 8) \<le> 1 * (1 + 1 / 2 ^ 24)"
    by (rule dbl.fl_le [OF q])
  then have "blackbodyColor i \<le> (1 * (1 + 1 / 2 ^ 24)) * (1 + 1 / 2 ^ 24)"
    unfolding blackbodyColor_def by (intro flt.fl_le dbl.fl_nonneg q)
  then show "blackbodyColor i \<le> (1 + 1 / 2 ^ 24) * (1 + 1 / 2 ^ 24)"
    by simp
qed

lemma blackbodyColor_neutral: "blackbodyColor 165 = 1" "blackbodyColor 166 = 1" "blackbodyColor 167 = 1"
  using blackbody_table_neutral dbl.fl_of_int [of 1] flt.fl_of_int [of 1] by (simp_all add: blackbodyColor_def)

end
