(* ===== verification/Night_Color.thy ===== *)
theory Night_Color
  imports Geometry Blackbody
begin

text \<open>
  The night color manager of \<^verbatim>\<open>colorcorrection/manager.cpp\<close>: its configuration, the times of the transitions between day
  and night, the timers that move the color temperature and the gamma ramps that it commits.

  Points in time are milliseconds of the local time since 1970, with a fixed offset to UTC: the date is the quotient by
  the length of a day and the time of the day the remainder. An invalid \<open>QDateTime\<close> is \<open>None\<close> and compares as 0, as in
  Qt. What a handler reads from outside is the record \<open>nc_env\<close>: the time (one value during a handler), whether the
  platform controls gamma ramps, the outputs and the position of the sun: \<open>calculateSunTimings\<close>, which is floating point
  trigonometry, is a parameter. Coordinates are finite numbers. A product of type \<open>int\<close> that overflows wraps around.
  The signals of the manager only inform D-Bus clients and are left out.
\<close>

section \<open>Data\<close>

datatype night_mode = Automatic | Location | Timings | Constant

type_synonym datetimes = "int option \<times> int option"

type_synonym ramp = "int list \<times> int list \<times> int list"

record gamma_output =
  go_size :: nat
  go_set :: "ramp \<Rightarrow> bool"

record nc_env =
  ne_now :: int
  ne_available :: bool
  ne_outputs :: "gamma_output list"
  ne_sun :: "int \<Rightarrow> rat \<Rightarrow> rat \<Rightarrow> bool \<Rightarrow> datetimes"

record nc_settings =
  ns_active :: bool
  ns_mode :: int
  ns_nightTemperature :: int
  ns_auto :: "rat \<times> rat"
  ns_fixed :: "rat \<times> rat"
  ns_morningBegin :: string
  ns_eveningBegin :: string
  ns_transitionTime :: int

text \<open>
  A timer is \<open>None\<close> when its pointer is null. The start timer of the slow updates holds its interval once it is started,
  the timer of the slow updates which temperature it moves to (that of the day or of the night) and its interval.
\<close>

record night_color =
  nc_active :: bool
  nc_skewActive :: bool
  nc_running :: bool
  nc_globallyInhibited :: bool
  nc_mode :: night_mode
  nc_prev :: datetimes
  nc_next :: datetimes
  nc_morning :: int
  nc_evening :: int
  nc_trTime :: int
  nc_auto :: "rat \<times> rat"
  nc_fixed :: "rat \<times> rat"
  nc_slowStart :: "int option option"
  nc_slow :: "(bool \<times> int) option"
  nc_quick :: "int option"
  nc_currentTemp :: int
  nc_targetTemperature :: int
  nc_dayTarget :: int
  nc_nightTarget :: int
  nc_failed :: int
  nc_inhibitCount :: int
  nc_settings :: nc_settings

section \<open>Constants and conversions\<close>

definition MSC_DAY :: int where "MSC_DAY = 86400000"
definition MIN_TEMPERATURE :: int where "MIN_TEMPERATURE = 1000"
definition NEUTRAL_TEMPERATURE :: int where "NEUTRAL_TEMPERATURE = 6500"
definition DEFAULT_NIGHT_TEMPERATURE :: int where "DEFAULT_NIGHT_TEMPERATURE = 4500"
definition FALLBACK_SLOW_UPDATE_TIME :: int where "FALLBACK_SLOW_UPDATE_TIME = 1800000"
definition QUICK_ADJUST_DURATION :: int where "QUICK_ADJUST_DURATION = 2000"
definition TEMPERATURE_STEP :: int where "TEMPERATURE_STEP = 50"

lemmas nc_constants = MSC_DAY_def MIN_TEMPERATURE_def NEUTRAL_TEMPERATURE_def DEFAULT_NIGHT_TEMPERATURE_def
  FALLBACK_SLOW_UPDATE_TIME_def QUICK_ADJUST_DURATION_def TEMPERATURE_STEP_def

definition wrap32 :: "int \<Rightarrow> int" where
  "wrap32 n = (n + 2 ^ 31) mod 2 ^ 32 - 2 ^ 31"

text \<open>The conversion of a floating point number to an integer type drops the fraction; out of range it is undefined.\<close>

definition trunc_rat :: "rat \<Rightarrow> int" where
  "trunc_rat x = (if x < 0 then - \<lfloor>- x\<rfloor> else \<lfloor>x\<rfloor>)"

definition to_int :: "rat \<Rightarrow> int outcome" where
  "to_int x = (let n = trunc_rat x in if - (2 ^ 31) \<le> n \<and> n < 2 ^ 31 then Returns n else Faults OutOfRange)"

definition to_uint16 :: "rat \<Rightarrow> int outcome" where
  "to_uint16 x = (let n = trunc_rat x in if 0 \<le> n \<and> n < 2 ^ 16 then Returns n else Faults OutOfRange)"

definition date_of :: "int \<Rightarrow> int" where "date_of t = t div MSC_DAY"

definition at_time :: "int \<Rightarrow> int \<Rightarrow> int" where "at_time date t = date * MSC_DAY + t"

definition dt_msecs :: "int option \<Rightarrow> int" where
  "dt_msecs d = (case d of None \<Rightarrow> 0 | Some t \<Rightarrow> t)"

text \<open>\<open>QDateTime::msecsTo\<close> is 0 when one of the two is invalid.\<close>

definition msecsTo :: "int option \<Rightarrow> int option \<Rightarrow> int" where
  "msecsTo a b = (case (a, b) of (Some x, Some y) \<Rightarrow> y - x | _ \<Rightarrow> 0)"

definition hours :: "int \<Rightarrow> int" where "hours h = h * 3600000"

text \<open>Times of the day in the format \<^verbatim>\<open>hhmm\<close>.\<close>

definition digit_value :: "char \<Rightarrow> int option" where
  "digit_value c = (let n = of_char c - (48 :: int) in if 0 \<le> n \<and> n \<le> 9 then Some n else None)"

definition digit_char :: "int \<Rightarrow> char" where
  "digit_char n = char_of (n + 48)"

fun fromString_hhmm :: "string \<Rightarrow> int option" where
  "fromString_hhmm [a, b, c, d] =
     (case (digit_value a, digit_value b, digit_value c, digit_value d) of
        (Some h1, Some h0, Some m1, Some m0) \<Rightarrow>
          (let h = 10 * h1 + h0; m = 10 * m1 + m0
           in if h < 24 \<and> m < 60 then Some (hours h + m * 60000) else None)
      | _ \<Rightarrow> None)"
| "fromString_hhmm _ = None"

definition toString_hhmm :: "int \<Rightarrow> string" where
  "toString_hhmm t =
     (let h = t div 3600000; m = t div 60000 mod 60
      in map digit_char [h div 10, h mod 10, m div 10, m mod 10])"

section \<open>Gamma ramps\<close>

primrec omap :: "('a \<Rightarrow> 'b outcome) \<Rightarrow> 'a list \<Rightarrow> 'b list outcome" where
  "omap f [] = Returns []"
| "omap f (x # xs) = obind (f x) (\<lambda>y. obind (omap f xs) (\<lambda>ys. Returns (y # ys)))"

definition linear_value :: "nat \<Rightarrow> nat \<Rightarrow> int outcome" where
  "linear_value rampsize i = to_uint16 (double (double (of_nat i / of_nat rampsize) * 65536))"

definition read_color :: "int \<Rightarrow> rat outcome" where
  "read_color i = (if 0 \<le> i \<and> i < blackbody_length then Returns (blackbodyColor i) else Faults OutOfRange)"

definition white_point :: "int \<Rightarrow> int \<Rightarrow> rat outcome" where
  "white_point temperature channel =
     (let alpha = float (double (of_int (temperature - 100 * tdiv temperature 100) / 100));
          bbCIndex = tdiv (temperature - 1000) 100 * 3
      in obind (read_color (bbCIndex + channel)) (\<lambda>lo. obind (read_color (bbCIndex + 3 + channel)) (\<lambda>hi.
         Returns (float (double (double (double (1 - alpha) * lo) + float (alpha * hi)))))))"

definition scaled_value :: "rat \<Rightarrow> int \<Rightarrow> int outcome" where
  "scaled_value wp v = to_uint16 (double (double (double (of_int v / 65536) * wp) * 65536))"

definition ramp_channel :: "nat \<Rightarrow> int \<Rightarrow> int \<Rightarrow> int list outcome" where
  "ramp_channel rampsize temperature channel =
     obind (white_point temperature channel) (\<lambda>wp.
     omap (\<lambda>i. obind (linear_value rampsize i) (scaled_value wp)) [0..<rampsize])"

definition gamma_ramp :: "nat \<Rightarrow> int \<Rightarrow> ramp outcome" where
  "gamma_ramp rampsize temperature =
     obind (ramp_channel rampsize temperature 0) (\<lambda>red.
     obind (ramp_channel rampsize temperature 1) (\<lambda>green.
     obind (ramp_channel rampsize temperature 2) (\<lambda>blue.
     Returns (red, green, blue))))"

section \<open>State of the manager\<close>

definition setEnabled :: "bool \<Rightarrow> night_color \<Rightarrow> night_color" where
  "setEnabled enabled s =
     (if nc_active s = enabled then s else s\<lparr>nc_active := enabled, nc_skewActive := enabled\<rparr>)"

definition setRunning :: "bool \<Rightarrow> night_color \<Rightarrow> night_color" where
  "setRunning running s = (if nc_running s = running then s else s\<lparr>nc_running := running\<rparr>)"

definition setCurrentTemperature :: "int \<Rightarrow> night_color \<Rightarrow> night_color" where
  "setCurrentTemperature temperature s =
     (if nc_currentTemp s = temperature then s else s\<lparr>nc_currentTemp := temperature\<rparr>)"

definition nc_setMode :: "night_mode \<Rightarrow> night_color \<Rightarrow> night_color" where
  "nc_setMode m s = (if nc_mode s = m then s else s\<lparr>nc_mode := m\<rparr>)"

definition isInhibited :: "night_color \<Rightarrow> bool" where
  "isInhibited s \<longleftrightarrow> nc_inhibitCount s \<noteq> 0"

definition cancelAllTimers :: "night_color \<Rightarrow> night_color" where
  "cancelAllTimers s = s\<lparr>nc_slowStart := None, nc_slow := None, nc_quick := None\<rparr>"

text \<open>The body of the loop over the outputs, after the ramp has been computed.\<close>

definition commit_output :: "int \<Rightarrow> gamma_output \<Rightarrow> night_color \<Rightarrow> night_color outcome" where
  "commit_output temperature out s =
     obind (gamma_ramp (go_size out) temperature) (\<lambda>ramp.
     Returns
       (if go_set out ramp then (setCurrentTemperature temperature s)\<lparr>nc_failed := 0\<rparr>
        else if nc_failed s + 1 < 10 then s\<lparr>nc_failed := nc_failed s + 1\<rparr>
        else cancelAllTimers (setRunning False (s\<lparr>nc_failed := 0\<rparr>))))"

definition commitGammaRamps :: "nc_env \<Rightarrow> int \<Rightarrow> night_color \<Rightarrow> night_color outcome" where
  "commitGammaRamps e temperature s = ofold (commit_output temperature) (ne_outputs e) s"

section \<open>Times of the transitions\<close>

definition daylight :: "night_color \<Rightarrow> bool" where
  "daylight s \<longleftrightarrow> map_option date_of (fst (nc_prev s)) = map_option date_of (fst (nc_next s))"

definition checkAutomaticSunTimings :: "nc_env \<Rightarrow> night_color \<Rightarrow> bool" where
  "checkAutomaticSunTimings e s =
     (case (nc_prev s, nc_next s) of
        ((Some p1, Some p2), (Some n1, Some n2)) \<Rightarrow>
          p1 \<le> ne_now e \<and> ne_now e < n1 \<and> 24 * (n1 - p1) < 23 * MSC_DAY
      | _ \<Rightarrow> False)"

definition getSunTimings :: "nc_env \<Rightarrow> int \<Rightarrow> rat \<times> rat \<Rightarrow> bool \<Rightarrow> datetimes" where
  "getSunTimings e dateTime loc morning =
     (case ne_sun e dateTime (fst loc) (snd loc) morning of
        (Some b, Some c) \<Rightarrow> (Some b, Some c)
      | (Some b, None) \<Rightarrow> (Some b, Some (b + FALLBACK_SLOW_UPDATE_TIME))
      | (None, Some c) \<Rightarrow> (Some (c - FALLBACK_SLOW_UPDATE_TIME), Some c)
      | (None, None) \<Rightarrow>
          (let b = at_time (date_of dateTime) (if morning then hours 6 else hours 18)
           in (Some b, Some (b + FALLBACK_SLOW_UPDATE_TIME))))"

definition fixed_timings :: "nc_env \<Rightarrow> night_color \<Rightarrow> night_color" where
  "fixed_timings e s =
     (let now = ne_now e; d = date_of now; tr = nc_trTime s * 60000;
          morB = at_time d (nc_morning s); eveB = at_time d (nc_evening s);
          span = (\<lambda>b. (Some b, Some (b + tr)))
      in if morB \<le> now \<and> now < eveB then s\<lparr>nc_next := span eveB, nc_prev := span morB\<rparr>
         else if now < morB then s\<lparr>nc_next := span morB, nc_prev := span (eveB - MSC_DAY)\<rparr>
         else s\<lparr>nc_next := span (morB + MSC_DAY), nc_prev := span eveB\<rparr>)"

definition switched_timings :: "nc_env \<Rightarrow> rat \<times> rat \<Rightarrow> night_color \<Rightarrow> night_color" where
  "switched_timings e loc s =
     (if daylight s then s\<lparr>nc_prev := nc_next s, nc_next := getSunTimings e (ne_now e + MSC_DAY) loc True\<rparr>
      else s\<lparr>nc_prev := nc_next s, nc_next := getSunTimings e (ne_now e) loc False\<rparr>)"

definition reset_timings :: "nc_env \<Rightarrow> rat \<times> rat \<Rightarrow> night_color \<Rightarrow> night_color" where
  "reset_timings e loc s =
     (let now = ne_now e; morning = getSunTimings e now loc True
      in if now < dt_msecs (fst morning)
         then s\<lparr>nc_prev := getSunTimings e (now - MSC_DAY) loc False, nc_next := morning\<rparr>
         else let evening = getSunTimings e now loc False
              in if now < dt_msecs (fst evening) then s\<lparr>nc_prev := morning, nc_next := evening\<rparr>
                 else s\<lparr>nc_prev := evening, nc_next := getSunTimings e (now + MSC_DAY) loc True\<rparr>)"

definition updateTransitionTimings :: "nc_env \<Rightarrow> bool \<Rightarrow> night_color \<Rightarrow> night_color" where
  "updateTransitionTimings e force s =
     (if nc_mode s = Constant then s\<lparr>nc_next := (None, None), nc_prev := (None, None)\<rparr>
      else if nc_mode s = Timings then fixed_timings e s
      else
        let loc = (if nc_mode s = Automatic then nc_auto s else nc_fixed s);
            s1 = (if force then s else switched_timings e loc s)
        in if force \<or> \<not> checkAutomaticSunTimings e s1 then reset_timings e loc s1 else s1)"

definition updateTargetTemperature :: "night_color \<Rightarrow> night_color" where
  "updateTargetTemperature s =
     (let target = (if nc_mode s \<noteq> Constant \<and> daylight s then nc_dayTarget s else nc_nightTarget s)
      in if nc_targetTemperature s = target then s else s\<lparr>nc_targetTemperature := target\<rparr>)"

definition transition_temp :: "nc_env \<Rightarrow> night_color \<Rightarrow> int \<Rightarrow> int \<Rightarrow> int outcome" where
  "transition_temp e s target1 target2 =
     (if ne_now e \<le> dt_msecs (snd (nc_prev s)) then
        let total = msecsTo (fst (nc_prev s)) (snd (nc_prev s)) in
        if total = 0 then Faults DivByZero
        else
          let residueQuota = double (of_int (msecsTo (Some (ne_now e)) (snd (nc_prev s))) / of_int total) in
          obind (to_int (double (double (double (1 - residueQuota) * of_int target2) + double (residueQuota * of_int target1)))) (\<lambda>ret.
          obind (to_int (double (double (1 / 10) * of_int ret))) (\<lambda>tens. Returns (tens * 10)))
      else Returns target2)"

definition currentTargetTemp :: "nc_env \<Rightarrow> night_color \<Rightarrow> int outcome" where
  "currentTargetTemp e s =
     (if \<not> nc_running s then Returns NEUTRAL_TEMPERATURE
      else if nc_mode s = Constant then Returns (nc_nightTarget s)
      else if daylight s then transition_temp e s (nc_nightTarget s) (nc_dayTarget s)
      else transition_temp e s (nc_dayTarget s) (nc_nightTarget s))"

section \<open>Timers\<close>

definition step_temp :: "int \<Rightarrow> int \<Rightarrow> int" where
  "step_temp current target =
     (if current < target then min (current + TEMPERATURE_STEP) target else max (current - TEMPERATURE_STEP) target)"

definition resetSlowUpdateTimer :: "nc_env \<Rightarrow> night_color \<Rightarrow> night_color outcome" where
  "resetSlowUpdateTimer e s0 =
     (let s = s0\<lparr>nc_slow := None\<rparr>; now = ne_now e; isDay = daylight s;
          targetTemp = (if isDay then nc_dayTarget s else nc_nightTarget s)
      in if fst (nc_prev s) = snd (nc_prev s) \<or> nc_currentTemp s = targetTemp then commitGammaRamps e targetTemp s
         else if dt_msecs (fst (nc_prev s)) \<le> now \<and> now \<le> dt_msecs (snd (nc_prev s)) then
           let availTime = wrap32 (msecsTo (Some now) (snd (nc_prev s)));
               interval = tdiv (wrap32 (availTime * TEMPERATURE_STEP)) \<bar>targetTemp - nc_currentTemp s\<bar>
           in Returns (s\<lparr>nc_slow := Some (isDay, if interval = 0 then 1 else interval)\<rparr>)
         else Returns s)"

definition resetSlowUpdateStartTimer :: "nc_env \<Rightarrow> night_color \<Rightarrow> night_color outcome" where
  "resetSlowUpdateStartTimer e s0 =
     (let s = s0\<lparr>nc_slowStart := None\<rparr> in
      if \<not> nc_running s \<or> nc_quick s \<noteq> None then Returns s
      else if nc_mode s = Constant then Returns s
      else
        let s1 = updateTargetTemperature (updateTransitionTimings e False (s\<lparr>nc_slowStart := Some None\<rparr>));
            diff = wrap32 (msecsTo (Some (ne_now e)) (fst (nc_next s1)))
        in if diff \<le> 0 then Returns s1
           else resetSlowUpdateTimer e (s1\<lparr>nc_slowStart := Some (Some diff)\<rparr>))"

definition resetQuickAdjustTimer :: "nc_env \<Rightarrow> night_color \<Rightarrow> night_color outcome" where
  "resetQuickAdjustTimer e s0 =
     (let s = updateTargetTemperature (updateTransitionTimings e False s0) in
      obind (currentTargetTemp e s) (\<lambda>target.
      let tempDiff = \<bar>target - nc_currentTemp s\<bar> in
      if tempDiff > TEMPERATURE_STEP then
        let interval = tdiv QUICK_ADJUST_DURATION (tdiv tempDiff TEMPERATURE_STEP)
        in Returns ((cancelAllTimers s)\<lparr>nc_quick := Some (if interval = 0 then 1 else interval)\<rparr>)
      else resetSlowUpdateStartTimer e s))"

definition resetAllTimers :: "nc_env \<Rightarrow> night_color \<Rightarrow> night_color outcome" where
  "resetAllTimers e s0 =
     (let s = cancelAllTimers s0 in
      if ne_available e then resetQuickAdjustTimer e (setRunning (nc_active s \<and> \<not> isInhibited s) s)
      else Returns (setRunning False s))"

definition quickAdjust :: "nc_env \<Rightarrow> night_color \<Rightarrow> night_color outcome" where
  "quickAdjust e s =
     (if nc_quick s = None then Returns s
      else
        obind (currentTargetTemp e s) (\<lambda>targetTemp.
        let nextTemp = step_temp (nc_currentTemp s) targetTemp in
        obind (commitGammaRamps e nextTemp s) (\<lambda>s1.
        if nextTemp = targetTemp then resetSlowUpdateStartTimer e (s1\<lparr>nc_quick := None\<rparr>) else Returns s1)))"

definition slowUpdate :: "nc_env \<Rightarrow> int \<Rightarrow> night_color \<Rightarrow> night_color outcome" where
  "slowUpdate e targetTemp s =
     (if nc_slow s = None then Returns s
      else
        let nextTemp = step_temp (nc_currentTemp s) targetTemp in
        obind (commitGammaRamps e nextTemp s) (\<lambda>s1.
        Returns (if nextTemp = targetTemp then s1\<lparr>nc_slow := None\<rparr> else s1)))"

definition hardReset :: "nc_env \<Rightarrow> night_color \<Rightarrow> night_color outcome" where
  "hardReset e s0 =
     (let s = updateTargetTemperature (updateTransitionTimings e True (cancelAllTimers s0)) in
      obind
        (if ne_available e \<and> nc_active s \<and> \<not> isInhibited s
         then obind (currentTargetTemp e (setRunning True s)) (\<lambda>temp. commitGammaRamps e temp (setRunning True s))
         else Returns s)
        (resetAllTimers e))"

section \<open>Inhibition\<close>

definition inhibit :: "nc_env \<Rightarrow> night_color \<Rightarrow> night_color outcome" where
  "inhibit e s =
     (let s1 = s\<lparr>nc_inhibitCount := nc_inhibitCount s + 1\<rparr>
      in if nc_inhibitCount s1 = 1 then resetAllTimers e s1 else Returns s1)"

definition uninhibit :: "nc_env \<Rightarrow> night_color \<Rightarrow> night_color outcome" where
  "uninhibit e s =
     (let s1 = s\<lparr>nc_inhibitCount := nc_inhibitCount s - 1\<rparr>
      in if nc_inhibitCount s1 = 0 then resetAllTimers e s1 else Returns s1)"

definition nc_toggle :: "nc_env \<Rightarrow> night_color \<Rightarrow> night_color outcome" where
  "nc_toggle e s =
     (let s1 = s\<lparr>nc_globallyInhibited := \<not> nc_globallyInhibited s\<rparr>
      in if nc_globallyInhibited s1 then inhibit e s1 else uninhibit e s1)"

section \<open>Configuration\<close>

definition checkLocation :: "rat \<times> rat \<Rightarrow> bool" where
  "checkLocation loc \<longleftrightarrow> -90 \<le> fst loc \<and> fst loc \<le> 90 \<and> -180 \<le> snd loc \<and> snd loc \<le> 180"

definition correctReadin :: "rat \<times> rat \<Rightarrow> rat \<times> rat" where
  "correctReadin loc = (if checkLocation loc then loc else (0, 0))"

definition read_mode :: "int \<Rightarrow> night_mode" where
  "read_mode m =
     (if m = 0 then Automatic else if m = 1 then Location else if m = 2 then Timings else if m = 3 then Constant
      else Automatic)"

definition mode_number :: "night_mode \<Rightarrow> int" where
  "mode_number m = (case m of Automatic \<Rightarrow> 0 | Location \<Rightarrow> 1 | Timings \<Rightarrow> 2 | Constant \<Rightarrow> 3)"

text \<open>The fixed timings: begin of the morning and of the evening, and the time of a transition in minutes.\<close>

definition read_timings :: "nc_settings \<Rightarrow> int \<times> int \<times> int" where
  "read_timings cfg =
     (let mrB = fromString_hhmm (ns_morningBegin cfg); evB = fromString_hhmm (ns_eveningBegin cfg);
          (mr1, ev1) = (if msecsTo mrB evB \<le> 0 then (hours 6, hours 18) else (the mrB, the evB));
          diffME = ev1 - mr1; diffMin = min diffME (MSC_DAY - diffME);
          trTime = wrap32 (wrap32 (ns_transitionTime cfg * 1000) * 60);
          (mr2, ev2, tr2) =
            (if trTime < 0 \<or> diffMin \<le> trTime then (hours 6, hours 18, FALLBACK_SLOW_UPDATE_TIME) else (mr1, ev1, trTime))
      in (mr2, ev2, max (tdiv (tdiv tr2 1000) 60) 1))"

definition readConfig :: "night_color \<Rightarrow> night_color" where
  "readConfig s0 =
     (let cfg = nc_settings s0;
          s = nc_setMode (read_mode (ns_mode cfg)) (setEnabled (ns_active cfg) s0);
          (mr, ev, tr) = read_timings cfg
      in s\<lparr>nc_nightTarget := qBound MIN_TEMPERATURE (ns_nightTemperature cfg) NEUTRAL_TEMPERATURE,
           nc_auto := correctReadin (ns_auto cfg), nc_fixed := correctReadin (ns_fixed cfg),
           nc_morning := mr, nc_evening := ev, nc_trTime := tr\<rparr>)"

definition reparseConfigAndReset :: "nc_env \<Rightarrow> night_color \<Rightarrow> night_color outcome" where
  "reparseConfigAndReset e s = hardReset e (readConfig (cancelAllTimers s))"

text \<open>The manager as constructed, with the settings of the configuration file.\<close>

definition new_manager :: "nc_settings \<Rightarrow> night_color" where
  "new_manager cfg =
     \<lparr>nc_active = False, nc_skewActive = False, nc_running = False, nc_globallyInhibited = False, nc_mode = Automatic,
      nc_prev = (None, None), nc_next = (None, None), nc_morning = hours 6, nc_evening = hours 18, nc_trTime = 30,
      nc_auto = (0, 0), nc_fixed = (0, 0), nc_slowStart = None, nc_slow = None, nc_quick = None,
      nc_currentTemp = NEUTRAL_TEMPERATURE, nc_targetTemperature = NEUTRAL_TEMPERATURE,
      nc_dayTarget = NEUTRAL_TEMPERATURE, nc_nightTarget = DEFAULT_NIGHT_TEMPERATURE, nc_failed = 0,
      nc_inhibitCount = 0, nc_settings = cfg\<rparr>"

definition nc_init :: "nc_env \<Rightarrow> night_color \<Rightarrow> night_color outcome" where
  "nc_init e s = (let s1 = readConfig s in if ne_available e then hardReset e s1 else Returns s1)"

text \<open>
  A \<open>QVariant\<close> is what its conversions give, \<open>None\<close> when \<open>canConvert\<close> is false. \<open>isoTime\<close> stands for the parser of
  \<open>QTime::fromString\<close> with \<open>Qt::ISODate\<close>.
\<close>

record qvariant =
  v_bool :: "bool option"
  v_int :: "int option"
  v_double :: "rat option"
  v_string :: "string option"

text \<open>One entry of the data: absent, not accepted or the new value.\<close>

definition new_value :: "(qvariant \<Rightarrow> 'a option) \<Rightarrow> ('a \<Rightarrow> bool) \<Rightarrow> qvariant option \<Rightarrow> 'a \<Rightarrow> 'a option" where
  "new_value conv ok entry old =
     (case entry of
        None \<Rightarrow> Some old
      | Some v \<Rightarrow> (case conv v of None \<Rightarrow> None | Some x \<Rightarrow> if ok x then Some x else None))"

definition new_location :: "(string \<rightharpoonup> qvariant) \<Rightarrow> rat \<times> rat \<Rightarrow> (rat \<times> rat) option" where
  "new_location data old =
     (case (data ''LatitudeFixed'', data ''LongitudeFixed'') of
        (Some a, Some b) \<Rightarrow>
          (case (v_double a, v_double b) of
             (Some la, Some lo) \<Rightarrow> if checkLocation (la, lo) then Some (la, lo) else None
           | _ \<Rightarrow> None)
      | _ \<Rightarrow> Some old)"

definition timings_accepted :: "int \<Rightarrow> int \<Rightarrow> int \<Rightarrow> bool" where
  "timings_accepted mo ev tT \<longleftrightarrow>
     \<not> (ev - mo \<le> 0 \<or> min (ev - mo) (MSC_DAY - (ev - mo)) \<le> wrap32 (wrap32 (tT * 60) * 1000) \<or> tT < 1)"

definition new_timings ::
  "(string \<Rightarrow> int option) \<Rightarrow> (string \<rightharpoonup> qvariant) \<Rightarrow> int \<times> int \<times> int \<Rightarrow> (int \<times> int \<times> int) option" where
  "new_timings isoTime data old =
     (case (data ''MorningBeginFixed'', data ''EveningBeginFixed'', data ''TransitionTime'') of
        (Some a, Some b, Some c) \<Rightarrow>
          (case (v_string a, v_string b, v_int c) of
             (Some sa, Some sb, Some tT) \<Rightarrow>
               (case (isoTime sa, isoTime sb) of
                  (Some mo, Some ev) \<Rightarrow> if timings_accepted mo ev tT then Some (mo, ev, tT) else None
                | _ \<Rightarrow> None)
           | _ \<Rightarrow> None)
      | _ \<Rightarrow> Some old)"

text \<open>The second half of \<open>changeConfiguration\<close>: all entries have been accepted.\<close>

definition apply_active :: "bool \<Rightarrow> night_color \<Rightarrow> night_color" where
  "apply_active v s =
     (if nc_active s \<noteq> v
      then let s1 = setEnabled v s in s1\<lparr>nc_settings := (nc_settings s1)\<lparr>ns_active := v\<rparr>\<rparr> else s)"

definition apply_mode :: "night_mode \<Rightarrow> night_color \<Rightarrow> night_color" where
  "apply_mode m s =
     (if nc_mode s \<noteq> m
      then let s1 = nc_setMode m s in s1\<lparr>nc_settings := (nc_settings s1)\<lparr>ns_mode := mode_number m\<rparr>\<rparr> else s)"

definition apply_temperature :: "int \<Rightarrow> night_color \<Rightarrow> night_color" where
  "apply_temperature t s =
     (if nc_nightTarget s \<noteq> t
      then s\<lparr>nc_nightTarget := t, nc_settings := (nc_settings s)\<lparr>ns_nightTemperature := t\<rparr>\<rparr> else s)"

definition apply_location :: "rat \<times> rat \<Rightarrow> night_color \<Rightarrow> night_color" where
  "apply_location loc s =
     (if nc_fixed s \<noteq> loc then s\<lparr>nc_fixed := loc, nc_settings := (nc_settings s)\<lparr>ns_fixed := loc\<rparr>\<rparr> else s)"

definition apply_timings :: "int \<times> int \<times> int \<Rightarrow> night_color \<Rightarrow> night_color" where
  "apply_timings t s =
     (case t of (mor, eve, trT) \<Rightarrow>
        if (nc_morning s, nc_evening s, nc_trTime s) \<noteq> t
        then s\<lparr>nc_morning := mor, nc_evening := eve, nc_trTime := trT,
               nc_settings := (nc_settings s)\<lparr>ns_morningBegin := toString_hhmm mor,
                 ns_eveningBegin := toString_hhmm eve, ns_transitionTime := trT\<rparr>\<rparr>
        else s)"

definition apply_configuration ::
  "nc_env \<Rightarrow> bool \<Rightarrow> night_mode \<Rightarrow> int \<Rightarrow> rat \<times> rat \<Rightarrow> int \<times> int \<times> int \<Rightarrow> night_color \<Rightarrow> night_color outcome" where
  "apply_configuration e active m nightT loc t s =
     (let locUpdate = (nc_fixed s \<noteq> loc); timeUpdate = ((nc_morning s, nc_evening s, nc_trTime s) \<noteq> t);
          resetNeeded = (nc_active s \<noteq> active \<or> nc_mode s \<noteq> m \<or> nc_nightTarget s \<noteq> nightT \<or>
            (locUpdate \<and> m = Location) \<or> (timeUpdate \<and> m = Timings));
          s1 = apply_timings t (apply_location loc (apply_temperature nightT (apply_mode m (apply_active active
                 (if resetNeeded then cancelAllTimers s else s)))))
      in if resetNeeded then resetAllTimers e s1 else Returns s1)"

definition changeConfiguration ::
  "nc_env \<Rightarrow> (string \<Rightarrow> int option) \<Rightarrow> (string \<rightharpoonup> qvariant) \<Rightarrow> night_color \<Rightarrow> (bool \<times> night_color) outcome" where
  "changeConfiguration e isoTime data s =
     (case (new_value v_bool (\<lambda>_. True) (data ''Active'') (nc_active s),
            new_value v_int (\<lambda>m. 0 \<le> m \<and> m \<le> 3) (data ''Mode'') (mode_number (nc_mode s)),
            new_value v_int (\<lambda>t. MIN_TEMPERATURE \<le> t \<and> t \<le> NEUTRAL_TEMPERATURE) (data ''NightTemperature'') (nc_nightTarget s),
            new_location data (nc_fixed s), new_timings isoTime data (nc_morning s, nc_evening s, nc_trTime s)) of
        (Some active, Some m, Some nightT, Some loc, Some t) \<Rightarrow>
          (if active = nc_active s \<and> read_mode m = nc_mode s \<and> nightT = nc_nightTarget s \<and> loc = nc_fixed s \<and>
              t = (nc_morning s, nc_evening s, nc_trTime s)
           then Returns (True, s)
           else obind (apply_configuration e active (read_mode m) nightT loc t s) (\<lambda>s1. Returns (True, s1)))
      | _ \<Rightarrow> Returns (False, s))"

definition autoLocationUpdate :: "nc_env \<Rightarrow> rat \<times> rat \<Rightarrow> night_color \<Rightarrow> night_color outcome" where
  "autoLocationUpdate e loc s =
     (if \<not> checkLocation loc then Returns s
      else if \<bar>double (fst (nc_auto s) - fst loc)\<bar> < 2 \<and> \<bar>double (snd (nc_auto s) - snd loc)\<bar> < 1 then Returns s
      else
        let s1 = (cancelAllTimers s)\<lparr>nc_auto := loc, nc_settings := (nc_settings s)\<lparr>ns_auto := loc\<rparr>\<rparr>
        in resetAllTimers e s1)"

end
