(* ===== verification/Night_Color_Events.thy ===== *)
theory Night_Color_Events
  imports Night_Color "HOL-Library.Word"
begin

text \<open>
  What drives the night color manager: the D-Bus interface with its inhibitors
  (\<^verbatim>\<open>colorcorrection/colorcorrectdbusinterface.cpp\<close>), the timers, the shortcut and the signals that \<open>Manager::init\<close>
  connects to. The multi hash of the inhibitors is the list of its pairs, the newest first, cookies are 32 bit words.
\<close>

record nc_system =
  sy_manager :: night_color
  sy_connected :: bool
  sy_inhibitors :: "(string \<times> 32 word) list"
  sy_lastCookie :: "32 word"
  sy_watched :: "string list"

definition on_manager :: "(night_color \<Rightarrow> night_color outcome) \<Rightarrow> nc_system \<Rightarrow> nc_system outcome" where
  "on_manager f S = obind (f (sy_manager S)) (\<lambda>s. Returns (S\<lparr>sy_manager := s\<rparr>))"

section \<open>Inhibitors\<close>

abbreviation has_inhibitor :: "string \<Rightarrow> nc_system \<Rightarrow> bool" where
  "has_inhibitor service S \<equiv> service \<in> fst ` set (sy_inhibitors S)"

definition dbus_inhibit :: "nc_env \<Rightarrow> string \<Rightarrow> nc_system \<Rightarrow> (32 word \<times> nc_system) outcome" where
  "dbus_inhibit e service S =
     (let S1 = (if has_inhibitor service S then S else S\<lparr>sy_watched := service # sy_watched S\<rparr>);
          cookie = sy_lastCookie S1 + 1;
          S2 = S1\<lparr>sy_lastCookie := cookie, sy_inhibitors := (service, cookie) # sy_inhibitors S1\<rparr>
      in obind (on_manager (inhibit e) S2) (\<lambda>S3. Returns (sy_lastCookie S3, S3)))"

definition dbus_uninhibit :: "nc_env \<Rightarrow> string \<Rightarrow> 32 word \<Rightarrow> nc_system \<Rightarrow> nc_system outcome" where
  "dbus_uninhibit e service cookie S =
     (if (service, cookie) \<notin> set (sy_inhibitors S) then Returns S
      else
        let S1 = S\<lparr>sy_inhibitors := removeAll (service, cookie) (sy_inhibitors S)\<rparr>;
            S2 = (if has_inhibitor service S1 then S1 else S1\<lparr>sy_watched := removeAll service (sy_watched S1)\<rparr>)
        in on_manager (uninhibit e) S2)"

definition removeInhibitorService :: "nc_env \<Rightarrow> string \<Rightarrow> nc_system \<Rightarrow> nc_system outcome" where
  "removeInhibitorService e service S =
     ofold (dbus_uninhibit e service) (map snd (filter (\<lambda>p. fst p = service) (sy_inhibitors S))) S"

section \<open>Signals of the rest of the system\<close>

definition sessionActiveChanged :: "nc_env \<Rightarrow> bool \<Rightarrow> night_color \<Rightarrow> night_color outcome" where
  "sessionActiveChanged e active s = (if active then hardReset e s else Returns (cancelAllTimers s))"

text \<open>The reply of logind to the question whether the system comes from suspend, \<open>None\<close> when there is none.\<close>

definition clockSkewed :: "nc_env \<Rightarrow> bool option \<Rightarrow> night_color \<Rightarrow> night_color outcome" where
  "clockSkewed e reply s =
     (let comingFromSuspend = (case reply of Some b \<Rightarrow> b | None \<Rightarrow> True)
      in if comingFromSuspend then hardReset e s else resetAllTimers e s)"

section \<open>Events\<close>

datatype nc_event =
    ScreensCountChanged
  | SessionActive bool
  | ClockSkew "bool option"
  | QuickTimeout
  | SlowStartTimeout
  | SlowTimeout
  | ToggleShortcut
  | DbusInhibit string
  | DbusUninhibit string "32 word"
  | ServiceUnregistered string
  | SetNightColorConfig "string \<Rightarrow> int option" "string \<rightharpoonup> qvariant"
  | AutoLocation "rat \<times> rat"

text \<open>
  A timer only fires when it has been started with an interval that is not negative. The notifier of clock skews is
  active while the night color is enabled, a service is reported when it is watched.
\<close>

definition slow_timeout :: "nc_env \<Rightarrow> night_color \<Rightarrow> night_color outcome" where
  "slow_timeout e s =
     (case nc_slow s of
        Some (isDay, interval) \<Rightarrow>
          if 0 \<le> interval then slowUpdate e (if isDay then nc_dayTarget s else nc_nightTarget s) s else Returns s
      | None \<Rightarrow> Returns s)"

definition slow_start_timeout :: "nc_env \<Rightarrow> night_color \<Rightarrow> night_color outcome" where
  "slow_start_timeout e s =
     (case nc_slowStart s of Some (Some ms) \<Rightarrow> resetSlowUpdateStartTimer e s | _ \<Rightarrow> Returns s)"

fun nc_handle :: "nc_env \<Rightarrow> nc_event \<Rightarrow> nc_system \<Rightarrow> nc_system outcome" where
  "nc_handle e ScreensCountChanged S = (if sy_connected S then on_manager (hardReset e) S else Returns S)"
| "nc_handle e (SessionActive active) S =
     (if sy_connected S then on_manager (sessionActiveChanged e active) S else Returns S)"
| "nc_handle e (ClockSkew reply) S =
     (if sy_connected S \<and> nc_skewActive (sy_manager S) then on_manager (clockSkewed e reply) S else Returns S)"
| "nc_handle e QuickTimeout S = on_manager (quickAdjust e) S"
| "nc_handle e SlowStartTimeout S = on_manager (slow_start_timeout e) S"
| "nc_handle e SlowTimeout S = on_manager (slow_timeout e) S"
| "nc_handle e ToggleShortcut S = on_manager (nc_toggle e) S"
| "nc_handle e (DbusInhibit service) S = obind (dbus_inhibit e service S) (\<lambda>(cookie, S1). Returns S1)"
| "nc_handle e (DbusUninhibit service cookie) S = dbus_uninhibit e service cookie S"
| "nc_handle e (ServiceUnregistered service) S =
     (if service \<in> set (sy_watched S) then removeInhibitorService e service S else Returns S)"
| "nc_handle e (SetNightColorConfig isoTime data) S =
     on_manager (\<lambda>s. obind (changeConfiguration e isoTime data s) (\<lambda>(ok, s1). Returns s1)) S"
| "nc_handle e (AutoLocation loc) S = on_manager (autoLocationUpdate e loc) S"

text \<open>The manager is created with the platform and initialized once the workspace exists.\<close>

definition nc_start :: "nc_env \<Rightarrow> nc_settings \<Rightarrow> nc_system outcome" where
  "nc_start e cfg =
     obind (nc_init e (new_manager cfg)) (\<lambda>s.
     Returns \<lparr>sy_manager = s, sy_connected = ne_available e, sy_inhibitors = [], sy_lastCookie = 0, sy_watched = []\<rparr>)"

definition nc_run :: "(nc_env \<times> nc_event) list \<Rightarrow> nc_system \<Rightarrow> nc_system outcome" where
  "nc_run es S = ofold (\<lambda>(e, ev). nc_handle e ev) es S"

end
