(* ===== verification/Night_Color_Ramps.thy ===== *)
theory Night_Color_Ramps
  imports Night_Color
begin

text \<open>
  The numbers of the night color manager: temperatures during a transition and the entries of the gamma ramps stay in
  range, whatever the rounding of the floating point operations does.
\<close>

section \<open>Truncation\<close>

lemma trunc_rat_bounds:
  assumes "of_int lo \<le> x" "x < of_int hi + 1" "0 \<le> lo"
  shows "lo \<le> trunc_rat x" "trunc_rat x \<le> hi"
proof -
  have "0 \<le> x"
    using assms(1,3) by (meson of_int_0_le_iff order_trans)
  then have "trunc_rat x = \<lfloor>x\<rfloor>"
    by (simp add: trunc_rat_def)
  then show "lo \<le> trunc_rat x" "trunc_rat x \<le> hi"
    using assms(1,2) by (simp_all add: le_floor_iff floor_le_iff)
qed

lemma to_int_returns:
  assumes "of_int lo \<le> x" "x < of_int hi + 1" "0 \<le> lo" "hi < 2 ^ 31"
  shows "\<exists>n. to_int x = Returns n \<and> lo \<le> n \<and> n \<le> hi"
  using trunc_rat_bounds [OF assms(1-3)] assms(3,4) by (simp add: to_int_def Let_def)

lemma to_uint16_returns:
  assumes "0 \<le> x" "x < 65536"
  shows "\<exists>n. to_uint16 x = Returns n \<and> 0 \<le> n \<and> n \<le> 65535"
  using trunc_rat_bounds [of 0 x 65535] assms by (simp add: to_uint16_def Let_def)

lemma to_uint16_of_int: "0 \<le> n \<Longrightarrow> n \<le> 65535 \<Longrightarrow> to_uint16 (of_int n) = Returns n"
  by (simp add: to_uint16_def trunc_rat_def)

section \<open>Entries of the ramps\<close>

lemma omap_returns:
  assumes "\<And>x. x \<in> set xs \<Longrightarrow> \<exists>y. f x = Returns y \<and> P y"
  shows "\<exists>ys. omap f xs = Returns ys \<and> length ys = length xs \<and> list_all P ys"
  using assms
proof (induction xs)
  case (Cons x xs)
  from Cons.prems [of x] obtain y where y: "f x = Returns y" "P y"
    by auto
  from Cons.IH Cons.prems obtain ys where "omap f xs = Returns ys" "length ys = length xs" "list_all P ys"
    by auto
  with y show ?case
    by simp
qed simp

lemma linear_value_returns:
  assumes "i < n" "n \<le> 2 ^ 16"
  shows "\<exists>v. linear_value n i = Returns v \<and> 0 \<le> v \<and> v \<le> 65535"
proof -
  let ?q = "of_nat i / of_nat n :: rat"
  have "i * 65536 \<le> n * 65535"
    using assms by simp
  then have "of_nat i * 65536 \<le> (of_nat n * 65535 :: rat)"
    by (metis of_nat_le_iff of_nat_mult of_nat_numeral)
  then have q: "0 \<le> ?q" "?q \<le> 65535 / 65536"
    using assms(1) by (simp_all add: field_simps)
  have d: "0 \<le> double ?q" "double ?q \<le> 65535 / 65536 * (1 + 1 / 2 ^ 24)"
    using dbl.fl_nonneg [OF q(1)] dbl.fl_le [OF q] by simp_all
  have "double (double ?q * 65536) \<le> (65535 / 65536 * (1 + 1 / 2 ^ 24) * 65536) * (1 + 1 / 2 ^ 24)"
    using d by (intro dbl.fl_le) simp_all
  also have "\<dots> < 65536"
    by simp
  finally have "double (double ?q * 65536) < 65536" .
  moreover have "0 \<le> double (double ?q * 65536)"
    using d(1) by (intro dbl.fl_nonneg) simp
  ultimately show ?thesis
    unfolding linear_value_def by (rule_tac to_uint16_returns)
qed

lemma scaled_value_returns:
  assumes "0 \<le> v" "v \<le> 65535" "0 \<le> wp" "wp \<le> 1 + 1 / 2 ^ 19"
  shows "\<exists>n. scaled_value wp v = Returns n \<and> 0 \<le> n \<and> n \<le> 65535"
proof -
  let ?d = "double (of_int v / 65536)"
  have "(of_int v :: rat) \<le> 65535"
    using assms(2) by (metis of_int_le_iff of_int_numeral)
  then have v: "0 \<le> (of_int v / 65536 :: rat)" "(of_int v / 65536 :: rat) \<le> 65535 / 65536"
    using assms(1) by simp_all
  have d: "0 \<le> ?d" "?d \<le> 65535 / 65536 * (1 + 1 / 2 ^ 24)"
    using dbl.fl_nonneg [OF v(1)] dbl.fl_le [OF v] by simp_all
  have "?d * wp \<le> (65535 / 65536 * (1 + 1 / 2 ^ 24)) * (1 + 1 / 2 ^ 19)"
    using d assms(3,4) by (intro mult_mono) simp_all
  then have w: "0 \<le> ?d * wp" "?d * wp \<le> (65535 / 65536 * (1 + 1 / 2 ^ 24)) * (1 + 1 / 2 ^ 19)"
    using d(1) assms(3) by simp_all
  have x: "0 \<le> double (?d * wp)"
    "double (?d * wp) \<le> (65535 / 65536 * (1 + 1 / 2 ^ 24)) * (1 + 1 / 2 ^ 19) * (1 + 1 / 2 ^ 24)"
    using dbl.fl_nonneg [OF w(1)] dbl.fl_le [OF w] by simp_all
  have "double (double (?d * wp) * 65536)
      \<le> ((65535 / 65536 * (1 + 1 / 2 ^ 24)) * (1 + 1 / 2 ^ 19) * (1 + 1 / 2 ^ 24) * 65536) * (1 + 1 / 2 ^ 24)"
    using x by (intro dbl.fl_le) simp_all
  also have "\<dots> < 65536"
    by simp
  finally have "double (double (?d * wp) * 65536) < 65536" .
  moreover have "0 \<le> double (double (?d * wp) * 65536)"
    using x(1) by (intro dbl.fl_nonneg) simp
  ultimately show ?thesis
    unfolding scaled_value_def by (rule_tac to_uint16_returns)
qed

definition temperature_ok :: "int \<Rightarrow> bool" where
  "temperature_ok t \<longleftrightarrow> 990 \<le> t \<and> t \<le> NEUTRAL_TEMPERATURE"

lemma alpha_bounds:
  assumes "0 \<le> r" "r \<le> (99 :: int)"
  shows "0 \<le> float (double (of_int r / 100))" "float (double (of_int r / 100)) \<le> 1"
proof -
  have "(of_int r :: rat) \<le> 99"
    using assms(2) by (metis of_int_le_iff of_int_numeral)
  then have r: "0 \<le> (of_int r / 100 :: rat)" "(of_int r / 100 :: rat) \<le> 99 / 100"
    using assms(1) by simp_all
  then have d: "0 \<le> double (of_int r / 100)" "double (of_int r / 100) \<le> 99 / 100 * (1 + 1 / 2 ^ 24)"
    using dbl.fl_nonneg [OF r(1)] dbl.fl_le [OF r] by simp_all
  then show "0 \<le> float (double (of_int r / 100))"
    by (intro flt.fl_nonneg)
  have "float (double (of_int r / 100)) \<le> (99 / 100 * (1 + 1 / 2 ^ 24)) * (1 + 1 / 2 ^ 24)"
    by (rule flt.fl_le [OF d])
  then show "float (double (of_int r / 100)) \<le> 1"
    by (rule order_trans) simp
qed

lemma mixed_color_bounds:
  assumes "0 \<le> alpha" "alpha \<le> 1" "0 \<le> lo" "lo \<le> 1 + 1 / 2 ^ 22" "0 \<le> hi" "hi \<le> 1 + 1 / 2 ^ 22"
  shows "0 \<le> float (double (double (double (1 - alpha) * lo) + float (alpha * hi)))"
    "float (double (double (double (1 - alpha) * lo) + float (alpha * hi))) \<le> 1 + 1 / 2 ^ 19"
proof -
  let ?e = "1 + 1 / 2 ^ 24 :: rat" and ?c = "1 + 1 / 2 ^ 22 :: rat"
  have a: "0 \<le> double (1 - alpha)" "double (1 - alpha) \<le> (1 - alpha) * ?e"
    using assms(2) dbl.fl_nonneg [of "1 - alpha"] dbl.fl_le [of "1 - alpha" "1 - alpha"] by simp_all
  have "double (1 - alpha) * lo \<le> (1 - alpha) * ?e * ?c"
    using a assms(2-4) by (intro mult_mono) simp_all
  then have m: "0 \<le> double (double (1 - alpha) * lo)" "double (double (1 - alpha) * lo) \<le> (1 - alpha) * ?e * ?c * ?e"
    using a(1) assms(3) by (simp_all only: dbl.fl_nonneg dbl.fl_le mult_nonneg_nonneg)
  have "alpha * hi \<le> alpha * ?c"
    using assms by (intro mult_left_mono)
  then have n: "0 \<le> float (alpha * hi)" "float (alpha * hi) \<le> alpha * ?c * ?e"
    using assms(1,5) by (simp_all only: flt.fl_nonneg flt.fl_le mult_nonneg_nonneg)
  have "double (double (1 - alpha) * lo) + float (alpha * hi) \<le> ?e * ?c * ?e"
    using m(2) n(2) assms(1,2) by (simp add: field_simps)
  then have s: "0 \<le> double (double (double (1 - alpha) * lo) + float (alpha * hi))"
    "double (double (double (1 - alpha) * lo) + float (alpha * hi)) \<le> ?e * ?c * ?e * ?e"
    using m(1) n(1) by (simp_all only: dbl.fl_nonneg dbl.fl_le add_nonneg_nonneg)
  show "0 \<le> float (double (double (double (1 - alpha) * lo) + float (alpha * hi)))"
    by (rule flt.fl_nonneg [OF s(1)])
  have "float (double (double (double (1 - alpha) * lo) + float (alpha * hi))) \<le> (?e * ?c * ?e * ?e) * ?e"
    by (rule flt.fl_le [OF s])
  also have "\<dots> \<le> 1 + 1 / 2 ^ 19"
    by simp
  finally show "float (double (double (double (1 - alpha) * lo) + float (alpha * hi))) \<le> 1 + 1 / 2 ^ 19" .
qed

lemma read_color_returns:
  assumes "0 \<le> i" "i < 726"
  shows "\<exists>c. read_color i = Returns c \<and> 0 \<le> c \<and> c \<le> 1 + 1 / 2 ^ 22"
proof -
  have i: "i < blackbody_length"
    using assms(2) by (simp add: blackbody_length_eq)
  have "blackbodyColor i \<le> 1 + 1 / 2 ^ 22"
    using blackbodyColor_bounds(2) [OF assms(1) i] by (rule order_trans) simp
  then show ?thesis
    using blackbodyColor_bounds(1) [OF assms(1) i] assms(1) i by (simp add: read_color_def)
qed

lemma white_point_returns:
  assumes "temperature_ok t" "0 \<le> c" "c \<le> 2"
  shows "\<exists>wp. white_point t c = Returns wp \<and> 0 \<le> wp \<and> wp \<le> 1 + 1 / 2 ^ 19"
proof -
  let ?i = "tdiv (t - 1000) 100 * 3"
  have t: "990 \<le> t" "t \<le> 6500"
    using assms(1) by (simp_all add: temperature_ok_def NEUTRAL_TEMPERATURE_def)
  have "0 \<le> tdiv (t - 1000) 100 \<and> tdiv (t - 1000) 100 \<le> 55"
  proof (cases "t < 1000")
    case True
    then have "\<bar>t - 1000\<bar> div 100 = 0"
      using t(1) by simp
    then show ?thesis
      by (simp add: tdiv_def)
  qed (use t in \<open>simp add: tdiv_nonneg, linarith\<close>)
  then have i: "0 \<le> ?i + c" "?i + c < 726" "0 \<le> ?i + 3 + c" "?i + 3 + c < 726"
    using assms(2,3) by linarith+
  obtain lo where lo: "read_color (?i + c) = Returns lo" "0 \<le> lo" "lo \<le> 1 + 1 / 2 ^ 22"
    using read_color_returns [OF i(1,2)] by blast
  obtain hi where hi: "read_color (?i + 3 + c) = Returns hi" "0 \<le> hi" "hi \<le> 1 + 1 / 2 ^ 22"
    using read_color_returns [OF i(3,4)] by blast
  have "t - 100 * tdiv t 100 = t mod 100"
    using t by (simp add: tdiv_nonneg minus_mult_div_eq_mod)
  then have r: "0 \<le> t - 100 * tdiv t 100" "t - 100 * tdiv t 100 \<le> 99"
    by simp_all
  show ?thesis
    unfolding white_point_def Let_def lo(1) hi(1) obind.simps
    using mixed_color_bounds [OF alpha_bounds [OF r] lo(2,3) hi(2,3)] by blast
qed

lemma ramp_channel_returns:
  assumes "temperature_ok t" "0 \<le> c" "c \<le> 2" "n \<le> 2 ^ 16"
  shows "\<exists>vs. ramp_channel n t c = Returns vs \<and> length vs = n \<and> list_all (\<lambda>v. 0 \<le> v \<and> v \<le> 65535) vs"
proof -
  obtain wp where wp: "white_point t c = Returns wp" "0 \<le> wp" "wp \<le> 1 + 1 / 2 ^ 19"
    using white_point_returns [OF assms(1-3)] by blast
  have "\<exists>v. obind (linear_value n i) (scaled_value wp) = Returns v \<and> 0 \<le> v \<and> v \<le> 65535" if "i \<in> set [0..<n]" for i
  proof -
    have "i < n"
      using that by simp
    then obtain v where v: "linear_value n i = Returns v" "0 \<le> v" "v \<le> 65535"
      using linear_value_returns [OF _ assms(4)] by blast
    then show ?thesis
      using scaled_value_returns [OF v(2,3) wp(2,3)] by simp
  qed
  from omap_returns [OF this, of "[0..<n]" "\<lambda>i. i"] show ?thesis
    unfolding ramp_channel_def wp(1) obind.simps by simp
qed

abbreviation entries_ok :: "nat \<Rightarrow> int list \<Rightarrow> bool" where
  "entries_ok n vs \<equiv> length vs = n \<and> list_all (\<lambda>v. 0 \<le> v \<and> v \<le> 65535) vs"

lemma gamma_ramp_returns:
  assumes "temperature_ok t" "n \<le> 2 ^ 16"
  shows "\<exists>red green blue. gamma_ramp n t = Returns (red, green, blue) \<and>
    entries_ok n red \<and> entries_ok n green \<and> entries_ok n blue"
proof -
  note channel = ramp_channel_returns [OF assms(1) _ _ assms(2)]
  from channel [of 0] channel [of 1] channel [of 2] show ?thesis
    by (auto simp: gamma_ramp_def)
qed

section \<open>The neutral temperature\<close>

lemma white_point_neutral:
  assumes "c = 0 \<or> c = 1 \<or> c = 2"
  shows "white_point NEUTRAL_TEMPERATURE c = Returns 1"
proof -
  have d: "double 0 = 0" "double 1 = 1" "float 0 = 0" "float 1 = 1"
    using dbl.fl_of_int [of 0] dbl.fl_of_int [of 1] flt.fl_of_int [of 0] flt.fl_of_int [of 1] by simp_all
  show ?thesis
    using assms
    by (auto simp: white_point_def NEUTRAL_TEMPERATURE_def tdiv_nonneg read_color_def blackbody_length_eq
        blackbodyColor_neutral d)
qed

lemma scaled_value_one:
  assumes "0 \<le> v" "v \<le> 65535"
  shows "scaled_value 1 v = Returns v"
proof -
  have v: "double (of_int v / 65536) = of_int v / 65536" "double (of_int v) = of_int v"
    using assms dbl.fl_exact [of v 16] by (simp_all add: dbl.fl_of_int)
  have "scaled_value 1 v = to_uint16 (double (of_int v))"
    unfolding scaled_value_def mult_1_right v(1) by simp
  then show ?thesis
    using assms by (simp add: v(2) to_uint16_of_int)
qed

lemma omap_cong_range: "(\<And>x. x \<in> set xs \<Longrightarrow> f x = g x) \<Longrightarrow> omap f xs = omap g xs"
  by (induction xs) simp_all

lemma ramp_channel_neutral:
  assumes "c = 0 \<or> c = 1 \<or> c = 2" "n \<le> 2 ^ 16"
  shows "ramp_channel n NEUTRAL_TEMPERATURE c = omap (linear_value n) [0..<n]"
proof -
  have "obind (linear_value n i) (scaled_value 1) = linear_value n i" if "i \<in> set [0..<n]" for i
  proof -
    have "i < n"
      using that by simp
    then obtain v where v: "linear_value n i = Returns v" "0 \<le> v" "v \<le> 65535"
      using linear_value_returns [OF _ assms(2)] by blast
    then show ?thesis
      by (simp add: scaled_value_one)
  qed
  then show ?thesis
    unfolding ramp_channel_def white_point_neutral [OF assms(1)] obind.simps by (rule omap_cong_range)
qed

text \<open>
  C22. A gamma ramp can be computed for every temperature that the manager commits, for outputs with up to \<open>2\<^sup>1\<^sup>6\<close>
  entries: the table of white points is read inside its bounds, every entry fits into 16 bits although the intermediate
  results are rounded, and the three channels have the size that the output asks for. At the neutral temperature all
  three are the linear ramp.
\<close>

theorem gamma_ramp_in_range:
  assumes "temperature_ok t" "n \<le> 2 ^ 16"
  shows "\<exists>red green blue. gamma_ramp n t = Returns (red, green, blue) \<and>
    entries_ok n red \<and> entries_ok n green \<and> entries_ok n blue \<and>
    (t = NEUTRAL_TEMPERATURE \<longrightarrow> omap (linear_value n) [0..<n] = Returns red \<and> green = red \<and> blue = red)"
proof -
  obtain r g b where rgb: "gamma_ramp n t = Returns (r, g, b)" "entries_ok n r" "entries_ok n g" "entries_ok n b"
    using gamma_ramp_returns [OF assms] by blast
  moreover have "omap (linear_value n) [0..<n] = Returns r \<and> g = r \<and> b = r" if "t = NEUTRAL_TEMPERATURE"
    using rgb(1) ramp_channel_neutral [OF _ assms(2)] unfolding that gamma_ramp_def by auto
  ultimately show ?thesis
    by blast
qed

text \<open>For an output with 256 entries and the temperature of 4500 K, the default of the night.\<close>

theorem gamma_ramp_in_range_witness:
  "\<exists>red green blue. gamma_ramp 256 4500 = Returns (red, green, blue) \<and>
    entries_ok 256 red \<and> entries_ok 256 green \<and> entries_ok 256 blue"
  using gamma_ramp_in_range [of 4500 256] by (auto simp: temperature_ok_def NEUTRAL_TEMPERATURE_def)

section \<open>Temperatures during a transition\<close>

lemma double_error: "\<bar>double x - x\<bar> \<le> \<bar>x\<bar> / 2 ^ 24"
  by (rule dbl.fl_error)

text \<open>The error of a rounded number whose size is bounded.\<close>

lemma double_near:
  assumes "\<bar>x - y\<bar> \<le> d" "\<bar>y\<bar> \<le> m" "d \<le> 1"
  shows "\<bar>double x - y\<bar> \<le> d + (m + 1) / 2 ^ 24"
proof -
  have "\<bar>x\<bar> \<le> m + 1"
    using assms by linarith
  then have "\<bar>double x - x\<bar> \<le> (m + 1) / 2 ^ 24"
    using double_error [of x] by simp
  then show ?thesis
    using assms(1) by linarith
qed

lemma near_bounds: "\<bar>x - y\<bar> \<le> d \<Longrightarrow> lo \<le> y \<Longrightarrow> y \<le> hi \<Longrightarrow> lo - d \<le> (x :: rat) \<and> x \<le> hi + d"
  by linarith

lemma product_near:
  assumes "\<bar>x - y\<bar> \<le> d" "0 \<le> (t :: rat)" "t \<le> m"
  shows "\<bar>x * t - y * t\<bar> \<le> d * m"
proof -
  have "\<bar>x * t - y * t\<bar> = \<bar>x - y\<bar> * t"
    using assms(2) by (simp add: abs_mult flip: left_diff_distrib)
  also have "\<dots> \<le> d * m"
    using assms by (intro mult_mono) auto
  finally show ?thesis .
qed

lemma interpolated_near:
  assumes "0 \<le> q" "q \<le> 1" "0 \<le> t1" "t1 \<le> 6500" "0 \<le> t2" "t2 \<le> 6500"
  defines "r \<equiv> double q"
  shows "\<bar>double (double (double (1 - r) * t2) + double (r * t1)) - ((1 - q) * t2 + q * t1)\<bar> \<le> 1 / 100"
proof -
  have r: "\<bar>r - q\<bar> \<le> 2 / 2 ^ 24"
    unfolding r_def using double_near [of q q 0 1] assms(1,2) by simp
  have "\<bar>double (1 - r) - (1 - q)\<bar> \<le> 4 / 2 ^ 24"
    using double_near [of "1 - r" "1 - q" "2 / 2 ^ 24" 1] r assms(1,2) by (simp add: abs_minus_commute)
  then have "\<bar>double (1 - r) * t2 - (1 - q) * t2\<bar> \<le> 4 / 2 ^ 24 * 6500"
    using assms(5,6) by (rule product_near)
  moreover have "\<bar>(1 - q) * t2\<bar> \<le> 6500"
    using assms mult_mono [of "1 - q" 1 t2 6500] by (simp add: abs_mult)
  ultimately have m2: "\<bar>double (double (1 - r) * t2) - (1 - q) * t2\<bar> \<le> 4 / 2 ^ 24 * 6500 + (6500 + 1) / 2 ^ 24"
    by (rule double_near) simp
  have "\<bar>r * t1 - q * t1\<bar> \<le> 2 / 2 ^ 24 * 6500"
    using r assms(3,4) by (rule product_near)
  moreover have "\<bar>q * t1\<bar> \<le> 6500"
    using assms mult_mono [of q 1 t1 6500] by (simp add: abs_mult)
  ultimately have m1: "\<bar>double (r * t1) - q * t1\<bar> \<le> 2 / 2 ^ 24 * 6500 + (6500 + 1) / 2 ^ 24"
    by (rule double_near) simp
  have "\<bar>(double (double (1 - r) * t2) + double (r * t1)) - ((1 - q) * t2 + q * t1)\<bar>
      \<le> (4 / 2 ^ 24 * 6500 + (6500 + 1) / 2 ^ 24) + (2 / 2 ^ 24 * 6500 + (6500 + 1) / 2 ^ 24)"
    using m1 m2 by linarith
  moreover have "\<bar>(1 - q) * t2 + q * t1\<bar> \<le> 13000"
    using \<open>\<bar>(1 - q) * t2\<bar> \<le> 6500\<close> \<open>\<bar>q * t1\<bar> \<le> 6500\<close> by linarith
  ultimately have "\<bar>double (double (double (1 - r) * t2) + double (r * t1)) - ((1 - q) * t2 + q * t1)\<bar>
      \<le> (4 / 2 ^ 24 * 6500 + (6500 + 1) / 2 ^ 24) + (2 / 2 ^ 24 * 6500 + (6500 + 1) / 2 ^ 24) + (13000 + 1) / 2 ^ 24"
    by (rule double_near) simp
  then show ?thesis
    by (rule order_trans) simp
qed

definition target_ok :: "int \<Rightarrow> bool" where
  "target_ok t \<longleftrightarrow> MIN_TEMPERATURE \<le> t \<and> t \<le> NEUTRAL_TEMPERATURE"

lemma convex_bounds:
  assumes "0 \<le> q" "q \<le> (1 :: rat)" "lo \<le> t1" "t1 \<le> hi" "lo \<le> t2" "t2 \<le> hi"
  shows "lo \<le> (1 - q) * t2 + q * t1" "(1 - q) * t2 + q * t1 \<le> hi"
proof -
  have "(1 - q) * lo + q * lo \<le> (1 - q) * t2 + q * t1" "(1 - q) * t2 + q * t1 \<le> (1 - q) * hi + q * hi"
    using assms by (intro add_mono mult_left_mono; simp)+
  then show "lo \<le> (1 - q) * t2 + q * t1" "(1 - q) * t2 + q * t1 \<le> hi"
    by (simp_all add: algebra_simps)
qed

lemma tens_returns:
  assumes "999 \<le> n" "n \<le> (6500 :: int)"
  shows "\<exists>k. to_int (double (double (1 / 10) * of_int n)) = Returns k \<and> 99 \<le> k \<and> k \<le> 650"
proof -
  have n: "(999 :: rat) \<le> of_int n" "of_int n \<le> (6500 :: rat)"
    using assms by (metis of_int_le_iff of_int_numeral)+
  have "\<bar>double (1 / 10) - 1 / 10\<bar> \<le> 0 + (1 / 10 + 1) / 2 ^ 24"
    by (rule double_near) simp_all
  then have "\<bar>double (1 / 10) * of_int n - 1 / 10 * of_int n\<bar> \<le> (0 + (1 / 10 + 1) / 2 ^ 24) * 6500"
    using n by (intro product_near) simp_all
  moreover have "\<bar>1 / 10 * of_int n :: rat\<bar> \<le> 650"
    using n by simp
  ultimately have "\<bar>double (double (1 / 10) * of_int n) - 1 / 10 * of_int n\<bar>
      \<le> (0 + (1 / 10 + 1) / 2 ^ 24) * 6500 + (650 + 1) / 2 ^ 24"
    by (rule double_near) simp
  also have "\<dots> \<le> 1 / 100"
    by simp
  finally have "\<bar>double (double (1 / 10) * of_int n) - 1 / 10 * of_int n\<bar> \<le> 1 / 100" .
  from near_bounds [OF this, of "999 / 10" 650] show ?thesis
    using n by (intro to_int_returns) simp_all
qed

lemma transition_temp_returns:
  assumes "nc_prev s = (Some p1, Some p2)" "p1 \<le> ne_now e" "p1 \<noteq> p2" "target_ok t1" "target_ok t2"
  shows "\<exists>t. transition_temp e s t1 t2 = Returns t \<and> temperature_ok t"
proof (cases "ne_now e \<le> p2")
  case True
  let ?q = "of_int (p2 - ne_now e) / of_int (p2 - p1) :: rat"
  let ?v = "double (double (double (1 - double ?q) * of_int t2) + double (double ?q * of_int t1))"
  have p: "0 < p2 - p1"
    using True assms(2,3) by simp
  have "(of_int (p2 - ne_now e) :: rat) \<le> of_int (p2 - p1)"
    using assms(2) by (simp only: of_int_le_iff)
  then have q: "0 \<le> ?q" "?q \<le> 1"
    using True p by (simp_all add: divide_le_eq)
  have t: "(1000 :: rat) \<le> of_int t1" "of_int t1 \<le> (6500 :: rat)" "(1000 :: rat) \<le> of_int t2" "of_int t2 \<le> (6500 :: rat)"
    using assms(4,5) unfolding target_ok_def nc_constants by (metis of_int_le_iff of_int_numeral)+
  have near: "\<bar>?v - ((1 - ?q) * of_int t2 + ?q * of_int t1)\<bar> \<le> 1 / 100"
    using t q by (intro interpolated_near) simp_all
  note c = convex_bounds [OF q t]
  have "1000 - 1 / 100 \<le> ?v \<and> ?v \<le> 6500 + 1 / 100"
    by (rule near_bounds [OF near c])
  then have v: "of_int 999 \<le> ?v" "?v < of_int 6500 + 1"
    by linarith+
  then obtain n where n: "to_int ?v = Returns n" "999 \<le> n" "n \<le> 6500"
    using to_int_returns [OF v] by auto
  obtain k where k: "to_int (double (double (1 / 10) * of_int n)) = Returns k" "99 \<le> k" "k \<le> 650"
    using tens_returns [OF n(2,3)] by blast
  have "transition_temp e s t1 t2 = Returns (k * 10)"
    using True p n(1) k(1) by (simp add: transition_temp_def assms(1) dt_msecs_def msecsTo_def)
  moreover have "temperature_ok (k * 10)"
    using k(2,3) by (simp add: temperature_ok_def NEUTRAL_TEMPERATURE_def)
  ultimately show ?thesis
    by blast
next
  case False
  then show ?thesis
    using assms(1,5) by (simp add: transition_temp_def dt_msecs_def temperature_ok_def target_ok_def nc_constants)
qed

end
