(* ===== verification/Night_Color_Transitions.thy ===== *)
theory Night_Color_Transitions
  imports Night_Color_Ramps
begin

text \<open>
  The transitions that the night color manager computes: which parts of the state each step changes, and that the current
  time lies between the begin of the previous and the begin of the next transition.
\<close>

section \<open>What the environment promises\<close>

text \<open>
  The sun timings of a day are on that day, begin and end differ, and when only the end is known there are thirty minutes
  of the day before it. Outputs have at most \<open>2\<^sup>1\<^sup>6\<close> entries.
\<close>

definition sun_ok :: "nc_env \<Rightarrow> bool" where
  "sun_ok e \<longleftrightarrow> (\<forall>t lat lng morning.
     case ne_sun e t lat lng morning of
       (Some b, Some c) \<Rightarrow> date_of b = date_of t \<and> b \<noteq> c
     | (Some b, None) \<Rightarrow> date_of b = date_of t
     | (None, Some c) \<Rightarrow> date_of (c - FALLBACK_SLOW_UPDATE_TIME) = date_of t
     | (None, None) \<Rightarrow> True)"

definition nc_env_ok :: "nc_env \<Rightarrow> bool" where
  "nc_env_ok e \<longleftrightarrow> sun_ok e \<and> list_all (\<lambda>out. go_size out \<le> 2 ^ 16) (ne_outputs e)"

text \<open>A transition: begin and end are known and differ.\<close>

definition span_ok :: "datetimes \<Rightarrow> bool" where
  "span_ok d = (case d of (Some b, Some c) \<Rightarrow> b \<noteq> c | _ \<Rightarrow> False)"

lemma span_okE:
  assumes "span_ok d"
  obtains b c where "d = (Some b, Some c)" "b \<noteq> c"
  using assms by (cases d) (auto simp: span_ok_def split: option.splits)

lemma date_of_bounds: "date_of t * MSC_DAY \<le> t" "t < date_of t * MSC_DAY + MSC_DAY"
  using mod_div_mult_eq [of t MSC_DAY] pos_mod_bound [of MSC_DAY t] pos_mod_sign [of MSC_DAY t]
  by (simp_all add: date_of_def MSC_DAY_def)

lemma date_of_at_time: "0 \<le> t \<Longrightarrow> t < MSC_DAY \<Longrightarrow> date_of (at_time d t) = d"
  by (simp add: date_of_def at_time_def MSC_DAY_def)

lemma date_of_shift [simp]: "date_of (t + MSC_DAY) = date_of t + 1" "date_of (t - MSC_DAY) = date_of t - 1"
  by (simp_all add: date_of_def MSC_DAY_def)

lemma date_of_less:
  assumes "date_of a < date_of b"
  shows "a < b"
proof -
  have "(date_of a + 1) * MSC_DAY \<le> date_of b * MSC_DAY"
    using assms by (simp add: MSC_DAY_def)
  then show ?thesis
    using date_of_bounds(2) [of a] date_of_bounds(1) [of b] by (simp add: algebra_simps)
qed

lemma date_of_near:
  assumes "date_of b \<le> date_of a + 1"
  shows "b < a + 2 * MSC_DAY"
proof -
  have "date_of b * MSC_DAY \<le> (date_of a + 1) * MSC_DAY"
    using assms by (simp add: MSC_DAY_def)
  then show ?thesis
    using date_of_bounds(1) [of a] date_of_bounds(2) [of b] by (simp add: algebra_simps)
qed

lemma getSunTimings_ok:
  assumes "sun_ok e"
  shows "\<exists>b c. getSunTimings e t loc m = (Some b, Some c) \<and> date_of b = date_of t \<and> b \<noteq> c"
proof -
  obtain x y where xy: "ne_sun e t (fst loc) (snd loc) m = (x, y)"
    by fastforce
  have ok: "case (x, y) of
       (Some b, Some c) \<Rightarrow> date_of b = date_of t \<and> b \<noteq> c
     | (Some b, None) \<Rightarrow> date_of b = date_of t
     | (None, Some c) \<Rightarrow> date_of (c - FALLBACK_SLOW_UPDATE_TIME) = date_of t
     | (None, None) \<Rightarrow> True"
    using assms [unfolded sun_ok_def, THEN spec, THEN spec, THEN spec, THEN spec, of t "fst loc" "snd loc" m]
    unfolding xy .
  have f: "FALLBACK_SLOW_UPDATE_TIME \<noteq> 0"
    by (simp add: FALLBACK_SLOW_UPDATE_TIME_def)
  have d: "date_of (at_time (date_of t) (if m then hours 6 else hours 18)) = date_of t"
    by (rule date_of_at_time) (simp_all add: hours_def MSC_DAY_def)
  show ?thesis
    using ok f d by (cases x; cases y) (simp_all add: getSunTimings_def xy Let_def)
qed

section \<open>The current time is between the transitions\<close>

definition between :: "int \<Rightarrow> datetimes \<Rightarrow> datetimes \<Rightarrow> bool" where
  "between now p n \<longleftrightarrow> span_ok p \<and> span_ok n \<and> dt_msecs (fst p) \<le> now \<and> now < dt_msecs (fst n) \<and>
     dt_msecs (fst n) < now + 2 * MSC_DAY"

definition timings_ok :: "night_color \<Rightarrow> bool" where
  "timings_ok s \<longleftrightarrow> 0 \<le> nc_morning s \<and> nc_morning s < nc_evening s \<and> nc_evening s < MSC_DAY \<and> 1 \<le> nc_trTime s"

lemma fixed_timings_between:
  assumes "timings_ok s"
  shows "between (ne_now e) (nc_prev (fixed_timings e s)) (nc_next (fixed_timings e s))"
proof -
  have "date_of (ne_now e) * MSC_DAY \<le> ne_now e" "ne_now e < date_of (ne_now e) * MSC_DAY + MSC_DAY"
    by (rule date_of_bounds)+
  then show ?thesis
    using assms
    by (auto simp: fixed_timings_def Let_def between_def span_ok_def dt_msecs_def at_time_def timings_ok_def)
qed

lemma reset_timings_between:
  assumes "sun_ok e"
  shows "between (ne_now e) (nc_prev (reset_timings e loc s)) (nc_next (reset_timings e loc s))"
proof -
  let ?now = "ne_now e"
  obtain mb mc where m: "getSunTimings e ?now loc True = (Some mb, Some mc)" "date_of mb = date_of ?now" "mb \<noteq> mc"
    using getSunTimings_ok [OF assms] by blast
  obtain eb ec where ev: "getSunTimings e ?now loc False = (Some eb, Some ec)" "date_of eb = date_of ?now" "eb \<noteq> ec"
    using getSunTimings_ok [OF assms] by blast
  obtain yb yc where y: "getSunTimings e (?now - MSC_DAY) loc False = (Some yb, Some yc)" "date_of yb = date_of ?now - 1" "yb \<noteq> yc"
    using getSunTimings_ok [OF assms, of "?now - MSC_DAY"] by fastforce
  obtain tb tc where t: "getSunTimings e (?now + MSC_DAY) loc True = (Some tb, Some tc)" "date_of tb = date_of ?now + 1" "tb \<noteq> tc"
    using getSunTimings_ok [OF assms, of "?now + MSC_DAY"] by fastforce
  have "yb < ?now" "?now < tb"
    using y(2) t(2) by (simp_all add: date_of_less)
  moreover have "mb < ?now + 2 * MSC_DAY" "eb < ?now + 2 * MSC_DAY" "tb < ?now + 2 * MSC_DAY"
    using m(2) ev(2) t(2) by (simp_all add: date_of_near)
  ultimately show ?thesis
    using m(3) ev(3) y(3) t(3)
    by (simp add: reset_timings_def Let_def m(1) ev(1) y(1) t(1) between_def span_ok_def dt_msecs_def)
qed

definition spans_known :: "night_color \<Rightarrow> bool" where
  "spans_known s \<longleftrightarrow> (fst (nc_next s) = None \<or> span_ok (nc_next s))"

lemma switched_timings_between:
  assumes "sun_ok e" "spans_known s" "checkAutomaticSunTimings e (switched_timings e loc s)"
  shows "between (ne_now e) (nc_prev (switched_timings e loc s)) (nc_next (switched_timings e loc s))"
proof -
  let ?s = "switched_timings e loc s"
  have "nc_prev ?s = nc_next s" and n: "span_ok (nc_next ?s)"
    using getSunTimings_ok [OF assms(1), of "ne_now e + MSC_DAY" loc True] getSunTimings_ok [OF assms(1), of "ne_now e" loc False]
    by (auto simp: switched_timings_def span_ok_def)
  moreover have "fst (nc_prev ?s) \<noteq> None"
    using assms(3) by (auto simp: checkAutomaticSunTimings_def split: option.splits prod.splits)
  ultimately have "span_ok (nc_prev ?s)"
    using assms(2) by (auto simp: spans_known_def)
  then obtain p1 p2 where p: "nc_prev ?s = (Some p1, Some p2)" "p1 \<noteq> p2"
    by (rule span_okE)
  from n obtain n1 n2 where n: "nc_next ?s = (Some n1, Some n2)" "n1 \<noteq> n2"
    by (rule span_okE)
  show ?thesis
    using assms(3) p(2) n(2) unfolding checkAutomaticSunTimings_def between_def p(1) n(1)
    by (simp add: span_ok_def dt_msecs_def MSC_DAY_def)
qed

lemma update_between:
  assumes "sun_ok e" "timings_ok s" "spans_known s" "nc_mode s \<noteq> Constant"
  shows "between (ne_now e) (nc_prev (updateTransitionTimings e force s)) (nc_next (updateTransitionTimings e force s))"
  using assms(4) fixed_timings_between [OF assms(2), of e] reset_timings_between [OF assms(1)]
    switched_timings_between [OF assms(1,3)]
  by (auto simp: updateTransitionTimings_def Let_def)

lemma wrap32_id: "- (2 ^ 31) \<le> n \<Longrightarrow> n < 2 ^ 31 \<Longrightarrow> wrap32 n = n"
  by (simp add: wrap32_def)

lemma between_wrap:
  assumes "between now p n"
  shows "wrap32 (msecsTo (Some now) (fst n)) > 0"
proof -
  obtain b c where n: "n = (Some b, Some c)"
    using assms by (auto simp: between_def elim: span_okE)
  have "0 < b - now" "b - now < 2 * MSC_DAY"
    using assms by (simp_all add: n between_def dt_msecs_def)
  then show ?thesis
    by (simp add: n msecsTo_def wrap32_id MSC_DAY_def)
qed

lemma fixed_daylight:
  assumes "timings_ok s"
  shows "daylight (fixed_timings e s) = (nc_morning s \<le> ne_now e mod MSC_DAY \<and> ne_now e mod MSC_DAY < nc_evening s)"
proof -
  have now: "ne_now e = date_of (ne_now e) * MSC_DAY + ne_now e mod MSC_DAY"
    by (simp add: date_of_def)
  have r: "at_time (date_of (ne_now e)) t \<le> ne_now e \<longleftrightarrow> t \<le> ne_now e mod MSC_DAY"
    "ne_now e < at_time (date_of (ne_now e)) t \<longleftrightarrow> ne_now e mod MSC_DAY < t" for t
    using now unfolding at_time_def by linarith+
  have "0 \<le> nc_morning s" "nc_morning s < MSC_DAY" "0 \<le> nc_evening s" "nc_evening s < MSC_DAY"
    using assms by (auto simp: timings_ok_def)
  then show ?thesis
    by (auto simp: fixed_timings_def Let_def daylight_def r date_of_at_time)
qed


text \<open>On a day with the sun up from seven to seven, at noon, after the manager was constructed.\<close>

definition noon_env :: nc_env where
  "noon_env =
     \<lparr>ne_now = 20000 * MSC_DAY + hours 12, ne_available = True, ne_outputs = [\<lparr>go_size = 256, go_set = (\<lambda>_. True)\<rparr>],
      ne_sun = (\<lambda>t lat lng morning.
        let b = at_time (date_of t) (if morning then hours 7 else hours 19) in (Some b, Some (b + 3600000)))\<rparr>"

lemma noon_env_ok: "sun_ok noon_env"
  by (simp add: sun_ok_def noon_env_def Let_def date_of_at_time hours_def MSC_DAY_def)


end
