(* ===== verification/Night_Color_Invariant.thy ===== *)
theory Night_Color_Invariant
  imports Night_Color_Events Night_Color_Transitions
begin

text \<open>
  What holds of the night color manager between any two events. The invariant has four parts: the configuration and the
  temperatures, the previous transition, when the manager runs, and which timers exist together. Commits and updates of the
  transitions are described by the shape of the state they return, so that each handler is checked part by part.
\<close>

section \<open>The invariant\<close>

definition base_ok :: "night_color \<Rightarrow> bool" where
  "base_ok s \<longleftrightarrow> nc_dayTarget s = NEUTRAL_TEMPERATURE \<and> target_ok (nc_nightTarget s) \<and> temperature_ok (nc_currentTemp s) \<and>
     timings_ok s \<and> spans_known s \<and> nc_skewActive s = nc_active s"

definition phase_ok :: "int \<Rightarrow> night_color \<Rightarrow> bool" where
  "phase_ok now s \<longleftrightarrow>
     (nc_running s \<and> nc_mode s \<noteq> Constant \<longrightarrow> span_ok (nc_prev s) \<and> dt_msecs (fst (nc_prev s)) \<le> now)"

definition run_ok :: "night_color \<Rightarrow> bool" where
  "run_ok s \<longleftrightarrow> (nc_running s \<longrightarrow> nc_active s \<and> nc_inhibitCount s = 0)"

definition timers_ok :: "night_color \<Rightarrow> bool" where
  "timers_ok s \<longleftrightarrow>
     (nc_quick s \<noteq> None \<longrightarrow> nc_slowStart s = None) \<and> (nc_slow s \<noteq> None \<longrightarrow> nc_slowStart s \<noteq> None) \<and>
     (nc_slowStart s \<noteq> None \<longrightarrow> nc_running s \<and> nc_mode s \<noteq> Constant \<and> nc_slowStart s \<noteq> Some None)"

definition nc_ok :: "int \<Rightarrow> night_color \<Rightarrow> bool" where
  "nc_ok now s \<longleftrightarrow> base_ok s \<and> phase_ok now s \<and> run_ok s \<and> timers_ok s"

lemmas nc_ok_defs = nc_ok_def base_ok_def phase_ok_def run_ok_def timers_ok_def

lemma nc_okD: "nc_ok now s \<Longrightarrow> base_ok s" "nc_ok now s \<Longrightarrow> phase_ok now s" "nc_ok now s \<Longrightarrow> run_ok s" "nc_ok now s \<Longrightarrow> timers_ok s"
  by (simp_all add: nc_ok_def)

lemma nc_ok_later: "nc_ok now s \<Longrightarrow> now \<le> now' \<Longrightarrow> nc_ok now' s"
  by (auto simp: nc_ok_def phase_ok_def)

section \<open>Commits\<close>

text \<open>
  A commit of the temperature \<open>t\<close> keeps the current temperature or sets it to \<open>t\<close>, and it may stop the manager and all
  timers; nothing else changes but the number of failures.
\<close>

inductive committed :: "int \<Rightarrow> night_color \<Rightarrow> night_color \<Rightarrow> bool" for t s where
  committed_none: "committed t s s"
| committed_set: "committed t s s1 \<Longrightarrow> committed t s ((setCurrentTemperature t s1)\<lparr>nc_failed := f\<rparr>)"
| committed_fail: "committed t s s1 \<Longrightarrow> committed t s (s1\<lparr>nc_failed := f\<rparr>)"
| committed_stop: "committed t s s1 \<Longrightarrow> committed t s (cancelAllTimers (setRunning False (s1\<lparr>nc_failed := f\<rparr>)))"

lemma setRunning_eq: "setRunning b s = s\<lparr>nc_running := b\<rparr>"
  by (simp add: setRunning_def)

lemma setCurrentTemperature_eq: "setCurrentTemperature t s = s\<lparr>nc_currentTemp := t\<rparr>"
  by (simp add: setCurrentTemperature_def)

lemmas nc_state_defs = setRunning_eq setCurrentTemperature_eq cancelAllTimers_def timings_ok_def spans_known_def

lemma commit_output_committed:
  assumes "temperature_ok t" "go_size out \<le> 2 ^ 16" "committed t s s1"
  shows "\<exists>s'. commit_output t out s1 = Returns s' \<and> committed t s s'"
proof -
  obtain r g b where "gamma_ramp (go_size out) t = Returns (r, g, b)"
    using gamma_ramp_returns [OF assms(1,2)] by blast
  then show ?thesis
    unfolding commit_output_def
    by (simp add: committed_set [OF assms(3)] committed_fail [OF assms(3)] committed_stop [OF assms(3)])
qed

lemma commit_committed:
  assumes "temperature_ok t" "nc_env_ok e"
  shows "\<exists>s'. commitGammaRamps e t s = Returns s' \<and> committed t s s'"
proof -
  have "\<exists>s2. commit_output t out s1 = Returns s2 \<and> committed t s s2"
    if "out \<in> set (ne_outputs e)" "committed t s s1" for out s1
    using commit_output_committed [OF assms(1) _ that(2)] that(1) assms(2) by (auto simp: nc_env_ok_def list_all_iff)
  from ofold_returns [where f = "commit_output t" and P = "committed t s", OF this committed_none] show ?thesis
    unfolding commitGammaRamps_def by blast
qed

lemma committed_base: "committed t s s' \<Longrightarrow> base_ok s \<Longrightarrow> temperature_ok t \<Longrightarrow> base_ok s'"
  by (induction rule: committed.induct) (simp_all add: base_ok_def nc_state_defs)

lemma committed_ok: "committed t s s' \<Longrightarrow> nc_ok now s \<Longrightarrow> temperature_ok t \<Longrightarrow> nc_ok now s'"
  by (induction rule: committed.induct) (simp_all add: nc_ok_defs nc_state_defs)

lemma commit_ok:
  assumes "nc_ok now s" "temperature_ok t" "nc_env_ok e"
  shows "\<exists>s'. commitGammaRamps e t s = Returns s' \<and> nc_ok now s' \<and> committed t s s'"
  using commit_committed [OF assms(2,3), of s] committed_ok [OF _ assms(1,2)] by blast

section \<open>Updates of the transitions\<close>

abbreviation update_timings :: "nc_env \<Rightarrow> bool \<Rightarrow> night_color \<Rightarrow> night_color" where
  "update_timings e force s \<equiv> updateTargetTemperature (updateTransitionTimings e force s)"

lemma fixed_frame: "fixed_timings e s = s\<lparr>nc_prev := nc_prev (fixed_timings e s), nc_next := nc_next (fixed_timings e s)\<rparr>"
  by (simp add: fixed_timings_def Let_def)

lemma reset_frame: "reset_timings e l s = s\<lparr>nc_prev := nc_prev (reset_timings e l s), nc_next := nc_next (reset_timings e l s)\<rparr>"
  by (simp add: reset_timings_def Let_def)

lemma switched_frame: "switched_timings e l s = s\<lparr>nc_prev := nc_prev (switched_timings e l s), nc_next := nc_next (switched_timings e l s)\<rparr>"
  by (simp add: switched_timings_def)

lemma transitions_frame: "\<exists>p n. updateTransitionTimings e force s = s\<lparr>nc_prev := p, nc_next := n\<rparr>"
proof -
  define Q where "Q x \<longleftrightarrow> (\<exists>p n. x = s\<lparr>nc_prev := p, nc_next := n\<rparr>)" for x
  have q: "Q (fixed_timings e s)" "Q (reset_timings e l s)" "Q (switched_timings e l s)" for l
    unfolding Q_def using fixed_frame reset_frame switched_frame by blast+
  have w: "Q (reset_timings e l (switched_timings e l s))" for l
  proof -
    obtain a b where sw: "switched_timings e l s = s\<lparr>nc_prev := a, nc_next := b\<rparr>"
      using switched_frame by blast
    let ?r = "reset_timings e l (s\<lparr>nc_prev := a, nc_next := b\<rparr>)"
    have "?r = s\<lparr>nc_prev := a, nc_next := b\<rparr>\<lparr>nc_prev := nc_prev ?r, nc_next := nc_next ?r\<rparr>"
      by (rule reset_frame)
    also have "\<dots> = s\<lparr>nc_prev := nc_prev ?r, nc_next := nc_next ?r\<rparr>"
      by simp
    finally show ?thesis
      unfolding sw Q_def by blast
  qed
  have c: "Q (s\<lparr>nc_next := (None, None), nc_prev := (None, None)\<rparr>)"
    unfolding Q_def by (rule exI [of _ "(None, None)"], rule exI [of _ "(None, None)"]) simp
  have "Q (updateTransitionTimings e force s)"
    unfolding updateTransitionTimings_def Let_def by (simp add: q w c)
  then show ?thesis
    by (simp only: Q_def)
qed

lemma target_frame: "updateTargetTemperature s = s\<lparr>nc_targetTemperature := nc_targetTemperature (updateTargetTemperature s)\<rparr>"
  by (simp add: updateTargetTemperature_def Let_def)

lemma update_shape:
  assumes "nc_env_ok e" "base_ok s"
  shows "\<exists>p n tt. update_timings e force s = s\<lparr>nc_prev := p, nc_next := n, nc_targetTemperature := tt\<rparr> \<and>
    (if nc_mode s = Constant then p = (None, None) \<and> n = (None, None) else between (ne_now e) p n)"
proof -
  obtain p n where pn: "updateTransitionTimings e force s = s\<lparr>nc_prev := p, nc_next := n\<rparr>"
    using transitions_frame by blast
  then have p: "p = nc_prev (updateTransitionTimings e force s)" and n: "n = nc_next (updateTransitionTimings e force s)"
    by simp_all
  have "if nc_mode s = Constant then p = (None, None) \<and> n = (None, None) else between (ne_now e) p n"
    using update_between [of e s force] assms unfolding p n
    by (simp add: nc_env_ok_def base_ok_def updateTransitionTimings_def)
  then show ?thesis
    using target_frame [of "s\<lparr>nc_prev := p, nc_next := n\<rparr>"] unfolding pn by blast
qed

lemma update_ok:
  assumes "nc_env_ok e" "base_ok s" "run_ok s" "timers_ok s"
  shows "nc_ok (ne_now e) (update_timings e force s)"
proof -
  obtain p n tt where u: "update_timings e force s = s\<lparr>nc_prev := p, nc_next := n, nc_targetTemperature := tt\<rparr>"
    "if nc_mode s = Constant then p = (None, None) \<and> n = (None, None) else between (ne_now e) p n"
    using update_shape [OF assms(1,2), of force] by blast
  show ?thesis
    using u(2) assms(2-4) unfolding u(1)
    by (auto simp: nc_ok_defs between_def nc_state_defs split: if_splits)
qed

section \<open>Temperatures\<close>

lemma target_ok_temperature: "target_ok t \<Longrightarrow> temperature_ok t"
  by (simp add: target_ok_def temperature_ok_def nc_constants)

lemma target_ok_neutral: "target_ok NEUTRAL_TEMPERATURE"
  by (simp add: target_ok_def nc_constants)

lemma currentTargetTemp_ok:
  assumes "base_ok s" "phase_ok (ne_now e) s"
  shows "\<exists>t. currentTargetTemp e s = Returns t \<and> temperature_ok t"
proof -
  have d: "target_ok (nc_dayTarget s)" "target_ok (nc_nightTarget s)"
    using assms(1) target_ok_neutral by (simp_all add: base_ok_def)
  show ?thesis
  proof (cases "nc_running s \<and> nc_mode s \<noteq> Constant")
    case True
    then obtain p1 p2 where p: "nc_prev s = (Some p1, Some p2)" "p1 \<noteq> p2" "p1 \<le> ne_now e"
      using assms(2) by (auto simp: phase_ok_def dt_msecs_def elim: span_okE)
    show ?thesis
      using True transition_temp_returns [OF p(1,3,2)] d by (simp add: currentTargetTemp_def)
  next
    case False
    then show ?thesis
      using d target_ok_neutral by (auto simp: currentTargetTemp_def target_ok_temperature)
  qed
qed

lemma step_temp_ok: "temperature_ok a \<Longrightarrow> temperature_ok b \<Longrightarrow> temperature_ok (step_temp a b)"
  by (auto simp: temperature_ok_def step_temp_def TEMPERATURE_STEP_def)

section \<open>Timers\<close>

lemma resetSlowUpdateTimer_ok:
  assumes "nc_ok (ne_now e) s" "nc_slowStart s \<noteq> None" "nc_env_ok e"
  shows "\<exists>s'. resetSlowUpdateTimer e s = Returns s' \<and> nc_ok (ne_now e) s'"
proof -
  let ?s = "s\<lparr>nc_slow := None\<rparr>"
  have s: "nc_ok (ne_now e) ?s"
    using assms(1) by (auto simp: nc_ok_defs nc_state_defs)
  have "nc_ok (ne_now e) (?s\<lparr>nc_slow := Some x\<rparr>)" for x
    using assms(1,2) by (auto simp: nc_ok_defs nc_state_defs)
  moreover have "temperature_ok (nc_dayTarget s)" "temperature_ok (nc_nightTarget s)"
    using assms(1) target_ok_neutral by (auto simp: nc_ok_def base_ok_def intro: target_ok_temperature)
  then have "\<exists>s'. commitGammaRamps e (nc_dayTarget s) ?s = Returns s' \<and> nc_ok (ne_now e) s'"
    "\<exists>s'. commitGammaRamps e (nc_nightTarget s) ?s = Returns s' \<and> nc_ok (ne_now e) s'"
    using commit_ok [OF s _ assms(3)] by blast+
  ultimately show ?thesis
    using s unfolding resetSlowUpdateTimer_def Let_def by simp
qed

lemma resetSlowUpdateStartTimer_ok:
  assumes "nc_ok now s" "now \<le> ne_now e" "nc_env_ok e"
  shows "\<exists>s'. resetSlowUpdateStartTimer e s = Returns s' \<and> nc_ok (ne_now e) s'"
proof -
  have s: "nc_ok (ne_now e) s"
    using nc_ok_later [OF assms(1,2)] .
  show ?thesis
  proof (cases "\<not> nc_running s \<or> nc_quick s \<noteq> None \<or> nc_mode s = Constant")
    case True
    then have "nc_ok (ne_now e) (s\<lparr>nc_slowStart := None\<rparr>)"
      using s by (auto simp: nc_ok_defs nc_state_defs)
    then show ?thesis
      using True unfolding resetSlowUpdateStartTimer_def Let_def by auto
  next
    case False
    let ?s = "s\<lparr>nc_slowStart := Some None\<rparr>"
    let ?u = "update_timings e False ?s"
    have b: "base_ok ?s"
      using s by (simp add: nc_ok_def base_ok_def nc_state_defs)
    obtain p n tt where u: "?u = ?s\<lparr>nc_prev := p, nc_next := n, nc_targetTemperature := tt\<rparr>" "between (ne_now e) p n"
      using update_shape [OF assms(3) b, of False] False by auto
    let ?d = "wrap32 (msecsTo (Some (ne_now e)) (fst (nc_next ?u)))"
    have d: "0 < ?d"
      using between_wrap [OF u(2)] unfolding u(1) by simp
    have "nc_ok (ne_now e) (?u\<lparr>nc_slowStart := Some (Some ?d)\<rparr>)"
      using s False u(2) unfolding u(1)
      by (auto simp: nc_ok_defs between_def nc_state_defs)
    then have "\<exists>s'. resetSlowUpdateTimer e (?u\<lparr>nc_slowStart := Some (Some ?d)\<rparr>) = Returns s' \<and> nc_ok (ne_now e) s'"
      using assms(3) by (intro resetSlowUpdateTimer_ok) simp_all
    moreover have "resetSlowUpdateStartTimer e s = resetSlowUpdateTimer e (?u\<lparr>nc_slowStart := Some (Some ?d)\<rparr>)"
      using False d unfolding resetSlowUpdateStartTimer_def Let_def by auto
    ultimately show ?thesis
      by simp
  qed
qed

lemma resetQuickAdjustTimer_ok:
  assumes "base_ok s" "run_ok s" "timers_ok s" "nc_env_ok e"
  shows "\<exists>s'. resetQuickAdjustTimer e s = Returns s' \<and> nc_ok (ne_now e) s'"
proof -
  let ?u = "update_timings e False s"
  have u: "nc_ok (ne_now e) ?u"
    by (rule update_ok [OF assms(4,1-3)])
  obtain t where t: "currentTargetTemp e ?u = Returns t"
    using currentTargetTemp_ok nc_okD(1,2) [OF u] by blast
  have "nc_ok (ne_now e) ((cancelAllTimers ?u)\<lparr>nc_quick := Some i\<rparr>)" for i
    using u by (auto simp: nc_ok_defs nc_state_defs)
  then show ?thesis
    using resetSlowUpdateStartTimer_ok [OF u order_refl assms(4)]
    unfolding resetQuickAdjustTimer_def Let_def t obind.simps by auto
qed

lemma cancel_ok: "base_ok s \<Longrightarrow> base_ok (cancelAllTimers s)" "timers_ok (cancelAllTimers s)"
  by (simp_all add: base_ok_def timers_ok_def nc_state_defs)

lemma resetAllTimers_ok:
  assumes "base_ok s" "nc_env_ok e"
  shows "\<exists>s'. resetAllTimers e s = Returns s' \<and> nc_ok (ne_now e) s'"
proof -
  let ?s = "\<lambda>b. setRunning b (cancelAllTimers s)"
  have b: "base_ok (?s b)" "timers_ok (?s b)" for b
    using assms(1) by (simp_all add: base_ok_def timers_ok_def nc_state_defs)
  have "run_ok (?s (nc_active s \<and> \<not> isInhibited s))"
    by (simp add: run_ok_def nc_state_defs isInhibited_def)
  from resetQuickAdjustTimer_ok [OF b(1) this b(2) assms(2)] show ?thesis
    using b [of False]
    by (auto simp: resetAllTimers_def Let_def nc_ok_def phase_ok_def run_ok_def nc_state_defs isInhibited_def)
qed

lemma quickAdjust_ok:
  assumes "nc_ok now s" "now \<le> ne_now e" "nc_env_ok e"
  shows "\<exists>s'. quickAdjust e s = Returns s' \<and> nc_ok (ne_now e) s'"
proof -
  have s: "nc_ok (ne_now e) s"
    using nc_ok_later [OF assms(1,2)] .
  obtain t where t: "currentTargetTemp e s = Returns t" "temperature_ok t"
    using currentTargetTemp_ok nc_okD(1,2) [OF s] by blast
  have "temperature_ok (nc_currentTemp s)"
    using nc_okD(1) [OF s] by (simp add: base_ok_def)
  then obtain s1 where s1: "commitGammaRamps e (step_temp (nc_currentTemp s) t) s = Returns s1" "nc_ok (ne_now e) s1"
    using commit_ok [OF s step_temp_ok assms(3)] t(2) by blast
  have "nc_ok (ne_now e) (s1\<lparr>nc_quick := None\<rparr>)"
    using s1(2) by (auto simp: nc_ok_defs nc_state_defs)
  then show ?thesis
    using s s1 resetSlowUpdateStartTimer_ok [OF _ order_refl assms(3)]
    by (auto simp: quickAdjust_def t(1) Let_def)
qed

lemma slow_timeout_ok:
  assumes "nc_ok now s" "now \<le> ne_now e" "nc_env_ok e"
  shows "\<exists>s'. slow_timeout e s = Returns s' \<and> nc_ok (ne_now e) s'"
proof -
  have s: "nc_ok (ne_now e) s"
    using nc_ok_later [OF assms(1,2)] .
  have "\<exists>s'. slowUpdate e t s = Returns s' \<and> nc_ok (ne_now e) s'" if "target_ok t" for t
  proof -
    have "temperature_ok (step_temp (nc_currentTemp s) t)"
      using nc_okD(1) [OF s] that by (intro step_temp_ok) (simp_all add: base_ok_def target_ok_temperature)
    then obtain s1 where s1: "commitGammaRamps e (step_temp (nc_currentTemp s) t) s = Returns s1" "nc_ok (ne_now e) s1"
      using commit_ok [OF s _ assms(3)] by blast
    have "nc_ok (ne_now e) (s1\<lparr>nc_slow := None\<rparr>)"
      using s1(2) by (auto simp: nc_ok_defs nc_state_defs)
    then show ?thesis
      using s s1 by (auto simp: slowUpdate_def Let_def)
  qed
  moreover have "target_ok (nc_dayTarget s)" "target_ok (nc_nightTarget s)"
    using nc_okD(1) [OF s] target_ok_neutral by (simp_all add: base_ok_def)
  ultimately show ?thesis
    using s by (auto simp: slow_timeout_def split: option.splits)
qed

lemma hardReset_ok:
  assumes "base_ok s" "nc_env_ok e"
  shows "\<exists>s'. hardReset e s = Returns s' \<and> nc_ok (ne_now e) s'"
proof -
  let ?u = "update_timings e True (cancelAllTimers s)"
  let ?r = "setRunning True (cancelAllTimers s)"
  obtain p n tt where u: "?u = (cancelAllTimers s)\<lparr>nc_prev := p, nc_next := n, nc_targetTemperature := tt\<rparr>"
    "if nc_mode (cancelAllTimers s) = Constant then p = (None, None) \<and> n = (None, None) else between (ne_now e) p n"
    using update_shape [OF assms(2) cancel_ok(1) [OF assms(1)], of True] by blast
  have b: "base_ok ?u" "base_ok (setRunning True ?u)" "phase_ok (ne_now e) (setRunning True ?u)"
    using assms(1) u(2) unfolding u(1)
    by (auto simp: base_ok_def phase_ok_def between_def nc_state_defs split: if_splits)
  obtain t where t: "currentTargetTemp e (setRunning True ?u) = Returns t" "temperature_ok t"
    using currentTargetTemp_ok [OF b(2,3)] by blast
  obtain s1 where s1: "commitGammaRamps e t (setRunning True ?u) = Returns s1" "committed t (setRunning True ?u) s1"
    using commit_committed [OF t(2) assms(2)] by blast
  have "base_ok s1"
    by (rule committed_base [OF s1(2) b(2) t(2)])
  then show ?thesis
    using resetAllTimers_ok [OF _ assms(2)] b(1) t(1) s1(1) unfolding hardReset_def Let_def by auto
qed

end
