(* ===== verification/Night_Color_Properties.thy ===== *)
theory Night_Color_Properties
  imports Night_Color_Invariant
begin

text \<open>
  The night color manager as a whole: what its timers leave alone, the invariant of the manager with its D-Bus interface
  over all sequences of events, and that a quick adjustment reaches its target.
\<close>

section \<open>What timers leave alone\<close>

definition nc_config :: "night_color \<Rightarrow> bool \<times> bool \<times> bool \<times> night_mode \<times> int \<times> int \<times> int \<times> (rat \<times> rat) \<times> (rat \<times> rat) \<times> int \<times> int \<times> int \<times> nc_settings" where
  "nc_config s = (nc_active s, nc_skewActive s, nc_globallyInhibited s, nc_mode s, nc_morning s, nc_evening s, nc_trTime s,
     nc_auto s, nc_fixed s, nc_dayTarget s, nc_nightTarget s, nc_inhibitCount s, nc_settings s)"

lemma nc_config_cancel [simp]: "nc_config (cancelAllTimers s) = nc_config s"
  by (simp add: nc_config_def cancelAllTimers_def)

lemma nc_config_running [simp]: "nc_config (setRunning b s) = nc_config s"
  by (simp add: nc_config_def setRunning_eq)

lemma nc_config_timers [simp]:
  "nc_config (s\<lparr>nc_quick := q\<rparr>) = nc_config s" "nc_config (s\<lparr>nc_slow := w\<rparr>) = nc_config s"
  "nc_config (s\<lparr>nc_slowStart := t\<rparr>) = nc_config s"
  by (simp_all add: nc_config_def)

lemma nc_config_temperature [simp]:
  "nc_config (setCurrentTemperature t s) = nc_config s" "nc_config (s\<lparr>nc_failed := n\<rparr>) = nc_config s"
  by (simp_all add: nc_config_def setCurrentTemperature_eq)

lemma nc_config_update [simp]: "nc_config (update_timings e force s) = nc_config s"
proof -
  obtain p n where "updateTransitionTimings e force s = s\<lparr>nc_prev := p, nc_next := n\<rparr>"
    using transitions_frame by blast
  then show ?thesis
    by (subst target_frame) (simp add: nc_config_def)
qed

lemma nc_config_commit_output: "commit_output t out s = Returns s' \<Longrightarrow> nc_config s' = nc_config s"
  by (auto simp: commit_output_def)

lemma nc_config_commit: "commitGammaRamps e t s = Returns s' \<Longrightarrow> nc_config s' = nc_config s"
  unfolding commitGammaRamps_def
  by (erule ofold_invariant [where P = "\<lambda>x. nc_config x = nc_config s", rotated 2]) (auto dest: nc_config_commit_output)

lemma nc_config_slow: "resetSlowUpdateTimer e s = Returns s' \<Longrightarrow> nc_config s' = nc_config s"
  by (auto simp: resetSlowUpdateTimer_def Let_def dest!: nc_config_commit split: if_splits)

lemma nc_config_slowStart:
  assumes "resetSlowUpdateStartTimer e s = Returns s'"
  shows "nc_config s' = nc_config s"
  using assms unfolding resetSlowUpdateStartTimer_def Let_def
  by (auto dest!: nc_config_slow split: if_splits)

lemma nc_config_resetQuick: "resetQuickAdjustTimer e s = Returns s' \<Longrightarrow> nc_config s' = nc_config s"
  by (auto simp: resetQuickAdjustTimer_def Let_def dest!: nc_config_slowStart split: if_splits)

lemma nc_config_resetAll: "resetAllTimers e s = Returns s' \<Longrightarrow> nc_config s' = nc_config s"
  by (auto simp: resetAllTimers_def Let_def dest!: nc_config_resetQuick split: if_splits)

lemma nc_config_hardReset: "hardReset e s = Returns s' \<Longrightarrow> nc_config s' = nc_config s"
  by (auto simp: hardReset_def Let_def dest!: nc_config_resetAll nc_config_commit split: if_splits)

lemma nc_config_quickAdjust: "quickAdjust e s = Returns s' \<Longrightarrow> nc_config s' = nc_config s"
  by (auto simp: quickAdjust_def Let_def dest!: nc_config_slowStart nc_config_commit split: if_splits)

lemma nc_config_slowTimeout: "slow_timeout e s = Returns s' \<Longrightarrow> nc_config s' = nc_config s"
  by (auto simp: slow_timeout_def slowUpdate_def Let_def dest!: nc_config_commit split: if_splits option.splits)

section \<open>Inhibition\<close>

definition inhibition :: "night_color \<Rightarrow> int \<times> bool" where
  "inhibition s = (nc_inhibitCount s, nc_globallyInhibited s)"

lemma inhibition_config: "nc_config s' = nc_config s \<Longrightarrow> inhibition s' = inhibition s"
  by (simp add: inhibition_def nc_config_def)

text \<open>A handler that keeps the invariant and says what becomes of the inhibition.\<close>

definition keeps :: "(nc_env \<Rightarrow> night_color \<Rightarrow> night_color outcome) \<Rightarrow> (int \<times> bool \<Rightarrow> int \<times> bool) \<Rightarrow> nc_env \<Rightarrow> int \<Rightarrow> night_color \<Rightarrow> bool" where
  "keeps f g e now s \<longleftrightarrow> (nc_ok now s \<and> now \<le> ne_now e \<and> nc_env_ok e \<longrightarrow>
     (\<exists>s'. f e s = Returns s' \<and> nc_ok (ne_now e) s' \<and> inhibition s' = g (inhibition s)))"

lemma keepsI:
  assumes "\<And>s'. f e s = Returns s' \<Longrightarrow> inhibition s' = g (inhibition s)"
    and "nc_ok now s \<Longrightarrow> now \<le> ne_now e \<Longrightarrow> nc_env_ok e \<Longrightarrow> \<exists>s'. f e s = Returns s' \<and> nc_ok (ne_now e) s'"
  shows "keeps f g e now s"
  using assms unfolding keeps_def by blast

lemma hardReset_keeps: "keeps hardReset (\<lambda>i. i) e now s"
  by (rule keepsI) (auto dest: nc_config_hardReset inhibition_config intro: hardReset_ok nc_okD)

lemma resetAll_keeps: "keeps resetAllTimers (\<lambda>i. i) e now s"
  by (rule keepsI) (auto dest: nc_config_resetAll inhibition_config intro: resetAllTimers_ok nc_okD)

lemma quickAdjust_keeps: "keeps quickAdjust (\<lambda>i. i) e now s"
  by (rule keepsI) (auto dest: nc_config_quickAdjust inhibition_config intro: quickAdjust_ok)

lemma slow_timeout_keeps: "keeps slow_timeout (\<lambda>i. i) e now s"
  by (rule keepsI) (auto dest: nc_config_slowTimeout inhibition_config intro: slow_timeout_ok)

lemma slow_start_timeout_keeps: "keeps slow_start_timeout (\<lambda>i. i) e now s"
proof (rule keepsI)
  show "inhibition s' = inhibition s" if "slow_start_timeout e s = Returns s'" for s'
    using that by (auto simp: slow_start_timeout_def dest: nc_config_slowStart inhibition_config split: option.splits)
  show "\<exists>s'. slow_start_timeout e s = Returns s' \<and> nc_ok (ne_now e) s'" if "nc_ok now s" "now \<le> ne_now e" "nc_env_ok e"
    using resetSlowUpdateStartTimer_ok [OF that] nc_ok_later [OF that(1,2)]
    by (auto simp: slow_start_timeout_def split: option.splits)
qed

lemma cancelled_ok: "nc_ok now s \<Longrightarrow> nc_ok now (cancelAllTimers s)"
  by (simp add: nc_ok_defs nc_state_defs)

lemma session_keeps: "keeps (\<lambda>e. sessionActiveChanged e active) (\<lambda>i. i) e now s"
proof (cases active)
  case True
  then show ?thesis
    using hardReset_keeps [of e now s] by (simp add: keeps_def sessionActiveChanged_def)
next
  case False
  have "inhibition (cancelAllTimers s) = inhibition s"
    by (simp add: inhibition_def cancelAllTimers_def)
  then show ?thesis
    using False by (auto simp: keeps_def sessionActiveChanged_def intro: cancelled_ok nc_ok_later)
qed

lemma clockSkewed_keeps: "keeps (\<lambda>e. clockSkewed e reply) (\<lambda>i. i) e now s"
  using hardReset_keeps [of e now s] resetAll_keeps [of e now s] by (auto simp: keeps_def clockSkewed_def Let_def)

lemma counted_keeps:
  assumes "nc_ok now s" "now \<le> ne_now e" "nc_env_ok e"
    and s1: "s1 = s\<lparr>nc_inhibitCount := c, nc_globallyInhibited := b\<rparr>"
    and "\<not> r \<Longrightarrow> nc_inhibitCount s \<noteq> 0"
  shows "\<exists>s'. (if r then resetAllTimers e s1 else Returns s1) = Returns s' \<and> nc_ok (ne_now e) s' \<and> inhibition s' = (c, b)"
proof -
  have i: "inhibition s1 = (c, b)"
    by (simp add: s1 inhibition_def)
  have "base_ok s1"
    using nc_okD(1) [OF assms(1)] by (simp add: s1 base_ok_def nc_state_defs)
  then obtain s2 where s2: "resetAllTimers e s1 = Returns s2" "nc_ok (ne_now e) s2"
    using resetAllTimers_ok [OF _ assms(3)] by blast
  moreover have "inhibition s2 = (c, b)"
    using inhibition_config [OF nc_config_resetAll [OF s2(1)]] i by simp
  moreover have "nc_ok (ne_now e) s1" if "\<not> r"
    using nc_ok_later [OF assms(1,2)] assms(5) [OF that] by (auto simp: s1 nc_ok_defs nc_state_defs)
  ultimately show ?thesis
    using i by simp
qed

lemma inhibit_keeps:
  assumes "nc_ok now s" "now \<le> ne_now e" "nc_env_ok e"
  shows "\<exists>s'. inhibit e s = Returns s' \<and> nc_ok (ne_now e) s' \<and> inhibition s' = (nc_inhibitCount s + 1, nc_globallyInhibited s)"
proof -
  have "s\<lparr>nc_inhibitCount := nc_inhibitCount s + 1\<rparr> =
      s\<lparr>nc_inhibitCount := nc_inhibitCount s + 1, nc_globallyInhibited := nc_globallyInhibited s\<rparr>"
    by simp
  from counted_keeps [OF assms this, of "nc_inhibitCount s + 1 = 1"] show ?thesis
    by (simp add: inhibit_def Let_def)
qed

lemma uninhibit_keeps:
  assumes "nc_ok now s" "now \<le> ne_now e" "nc_env_ok e" "0 < nc_inhibitCount s"
  shows "\<exists>s'. uninhibit e s = Returns s' \<and> nc_ok (ne_now e) s' \<and> inhibition s' = (nc_inhibitCount s - 1, nc_globallyInhibited s)"
proof -
  have "s\<lparr>nc_inhibitCount := nc_inhibitCount s - 1\<rparr> =
      s\<lparr>nc_inhibitCount := nc_inhibitCount s - 1, nc_globallyInhibited := nc_globallyInhibited s\<rparr>"
    by simp
  from counted_keeps [OF assms(1-3) this, of "nc_inhibitCount s - 1 = 0"] show ?thesis
    using assms(4) by (simp add: uninhibit_def Let_def)
qed

lemma toggle_keeps:
  assumes "nc_ok now s" "now \<le> ne_now e" "nc_env_ok e" "nc_globallyInhibited s \<Longrightarrow> 0 < nc_inhibitCount s"
  shows "\<exists>s'. nc_toggle e s = Returns s' \<and> nc_ok (ne_now e) s' \<and>
    inhibition s' = (nc_inhibitCount s + (if nc_globallyInhibited s then -1 else 1), \<not> nc_globallyInhibited s)"
proof -
  let ?s = "s\<lparr>nc_globallyInhibited := \<not> nc_globallyInhibited s\<rparr>"
  have "nc_ok now ?s"
    using assms(1) by (simp add: nc_ok_defs nc_state_defs)
  from inhibit_keeps [OF this assms(2,3)] uninhibit_keeps [OF this assms(2,3)] show ?thesis
    using assms(4) by (cases "nc_globallyInhibited s") (simp_all add: nc_toggle_def Let_def)
qed

section \<open>Configuration\<close>

lemma digit_value_range: "digit_value c = Some n \<Longrightarrow> 0 \<le> n \<and> n \<le> 9"
  by (auto simp: digit_value_def Let_def split: if_splits)

lemma fromString_range: "fromString_hhmm x = Some t \<Longrightarrow> 0 \<le> t \<and> t < MSC_DAY"
proof (induction x rule: fromString_hhmm.induct)
  case (1 a b c d)
  then obtain h1 h0 m1 m0 where d: "digit_value a = Some h1" "digit_value b = Some h0" "digit_value c = Some m1" "digit_value d = Some m0"
    and t: "10 * h1 + h0 < 24" "10 * m1 + m0 < 60" "t = hours (10 * h1 + h0) + (10 * m1 + m0) * 60000"
    by (auto simp: Let_def split: option.splits if_splits)
  from d [THEN digit_value_range] t show ?case
    by (simp add: hours_def MSC_DAY_def)
qed simp_all

lemma read_timings_ok:
  assumes "read_timings cfg = (mr, ev, tr)"
  shows "0 \<le> mr \<and> mr < ev \<and> ev < MSC_DAY \<and> 1 \<le> tr"
proof -
  let ?m = "fromString_hhmm (ns_morningBegin cfg)" and ?e = "fromString_hhmm (ns_eveningBegin cfg)"
  have d: "0 \<le> hours 6" "hours 6 < hours 18" "hours 18 < MSC_DAY"
    by (simp_all add: hours_def MSC_DAY_def)
  have p: "0 \<le> the ?m \<and> the ?m < the ?e \<and> the ?e < MSC_DAY" if pos: "\<not> msecsTo ?m ?e \<le> 0"
  proof -
    obtain m e where "?m = Some m" "?e = Some e" "m < e"
      using pos by (auto simp: msecsTo_def split: option.splits)
    then show ?thesis
      using fromString_range [of "ns_morningBegin cfg" m] fromString_range [of "ns_eveningBegin cfg" e] by simp
  qed
  show ?thesis
    using assms p d unfolding read_timings_def Let_def by (auto split: if_splits)
qed

lemma base_ok_readConfig:
  assumes "base_ok s"
  shows "base_ok (readConfig s)"
proof -
  obtain mr ev tr where t: "read_timings (nc_settings s) = (mr, ev, tr)"
    by (cases "read_timings (nc_settings s)")
  have "target_ok (qBound MIN_TEMPERATURE x NEUTRAL_TEMPERATURE)" for x
    unfolding target_ok_def by (rule qBound_bounds) (simp add: nc_constants)
  then show ?thesis
    using assms read_timings_ok [OF t]
    by (simp add: readConfig_def Let_def t base_ok_def timings_ok_def spans_known_def setEnabled_def nc_setMode_def)
qed

lemma base_ok_new: "base_ok (new_manager cfg)"
  by (simp add: base_ok_def new_manager_def nc_state_defs target_ok_def temperature_ok_def hours_def nc_constants)

lemma nc_init_ok:
  assumes "nc_env_ok e"
  shows "\<exists>s. nc_init e (new_manager cfg) = Returns s \<and> nc_ok (ne_now e) s \<and> inhibition s = (0, False)"
proof -
  let ?s = "readConfig (new_manager cfg)"
  have b: "base_ok ?s"
    by (rule base_ok_readConfig [OF base_ok_new])
  have i: "inhibition ?s = (0, False)" and r: "\<not> nc_running ?s" "nc_slowStart ?s = None" "nc_slow ?s = None"
    by (simp_all add: readConfig_def Let_def new_manager_def setEnabled_def nc_setMode_def inhibition_def split: prod.splits)
  then have "nc_ok (ne_now e) ?s"
    using b by (simp add: nc_ok_def phase_ok_def run_ok_def timers_ok_def)
  moreover obtain s1 where "hardReset e ?s = Returns s1" "nc_ok (ne_now e) s1"
    using hardReset_ok [OF b assms] by blast
  moreover from this(1) have "inhibition s1 = (0, False)"
    using inhibition_config [OF nc_config_hardReset] i by metis
  ultimately show ?thesis
    using i by (simp add: nc_init_def Let_def)
qed

lemma new_value_cases: "new_value conv ok entry old = Some x \<Longrightarrow> x = old \<or> ok x"
  by (auto simp: new_value_def split: option.splits if_splits)

definition iso_ok :: "(string \<Rightarrow> int option) \<Rightarrow> bool" where
  "iso_ok isoTime \<longleftrightarrow> (\<forall>x t. isoTime x = Some t \<longrightarrow> 0 \<le> t \<and> t < MSC_DAY)"

lemma new_timings_ok:
  assumes "new_timings isoTime data old = Some (mor, eve, tr)" "iso_ok isoTime"
  shows "(mor, eve, tr) = old \<or> 0 \<le> mor \<and> mor < eve \<and> eve < MSC_DAY \<and> 1 \<le> tr"
  using assms
  by (auto simp: new_timings_def iso_ok_def timings_accepted_def split: option.splits if_splits)

lemma base_ok_apply:
  assumes "base_ok s"
  shows "base_ok (apply_active a s)" "base_ok (apply_mode m s)" "base_ok (apply_location loc s)"
    and "target_ok t \<Longrightarrow> base_ok (apply_temperature t s)"
    and "0 \<le> mor \<and> mor < eve \<and> eve < MSC_DAY \<and> 1 \<le> tr \<Longrightarrow> base_ok (apply_timings (mor, eve, tr) s)"
  using assms
  by (simp_all add: base_ok_def timings_ok_def spans_known_def apply_active_def apply_mode_def apply_location_def
      apply_temperature_def apply_timings_def setEnabled_def nc_setMode_def Let_def)

lemma inhibition_apply [simp]:
  "inhibition (apply_active a s) = inhibition s" "inhibition (apply_mode m s) = inhibition s"
  "inhibition (apply_location loc s) = inhibition s" "inhibition (apply_temperature t s) = inhibition s"
  "inhibition (apply_timings tm s) = inhibition s" "inhibition (cancelAllTimers s) = inhibition s"
  by (simp_all add: inhibition_def apply_active_def apply_mode_def apply_location_def cancelAllTimers_def
      apply_temperature_def apply_timings_def setEnabled_def nc_setMode_def Let_def split: prod.splits)

lemma apply_configuration_ok:
  assumes "nc_ok now s" "now \<le> ne_now e" "nc_env_ok e" "target_ok nightT"
    and "0 \<le> mor \<and> mor < eve \<and> eve < MSC_DAY \<and> 1 \<le> tr"
  shows "\<exists>s'. apply_configuration e active m nightT loc (mor, eve, tr) s = Returns s' \<and> nc_ok (ne_now e) s' \<and>
    inhibition s' = inhibition s"
proof -
  define apply_all where "apply_all s0 = apply_timings (mor, eve, tr) (apply_location loc (apply_temperature nightT
    (apply_mode m (apply_active active s0))))" for s0
  have i: "inhibition (apply_all s0) = inhibition s0" for s0
    by (simp add: apply_all_def)
  have b: "base_ok (apply_all s0)" if "base_ok s0" for s0
    unfolding apply_all_def using that assms(4,5) by (intro base_ok_apply)
  obtain s2 where s2: "resetAllTimers e (apply_all (cancelAllTimers s)) = Returns s2" "nc_ok (ne_now e) s2"
    using resetAllTimers_ok [OF b [OF cancel_ok(1) [OF nc_okD(1) [OF assms(1)]]] assms(3)] by blast
  have i2: "inhibition s2 = inhibition s"
    using inhibition_config [OF nc_config_resetAll [OF s2(1)]] by (simp add: i)
  have "nc_ok (ne_now e) (apply_all s)" if "nc_active s = active" "nc_mode s = m" "nc_nightTarget s = nightT"
    using nc_ok_later [OF assms(1,2)] that assms(5)
    by (simp add: apply_all_def apply_active_def apply_mode_def apply_temperature_def apply_location_def apply_timings_def
        nc_ok_defs nc_state_defs)
  then show ?thesis
    using s2 i2 i [of s] unfolding apply_configuration_def Let_def apply_all_def [symmetric] by auto
qed

lemma changeConfiguration_keeps:
  assumes "nc_ok now s" "now \<le> ne_now e" "nc_env_ok e" "iso_ok isoTime"
  shows "\<exists>ok s'. changeConfiguration e isoTime data s = Returns (ok, s') \<and> nc_ok (ne_now e) s' \<and> inhibition s' = inhibition s"
proof -
  have unchanged: "nc_ok (ne_now e) s"
    by (rule nc_ok_later [OF assms(1,2)])
  let ?t = "new_value v_int (\<lambda>t. MIN_TEMPERATURE \<le> t \<and> t \<le> NEUTRAL_TEMPERATURE) (data ''NightTemperature'') (nc_nightTarget s)"
  let ?tm = "new_timings isoTime data (nc_morning s, nc_evening s, nc_trTime s)"
  have base: "target_ok (nc_nightTarget s)" "timings_ok s"
    using nc_okD(1) [OF assms(1)] by (simp_all add: base_ok_def)
  have t: "target_ok x" if "?t = Some x" for x
    using new_value_cases [OF that] base(1) by (auto simp: target_ok_def)
  have tm: "0 \<le> mor \<and> mor < eve \<and> eve < MSC_DAY \<and> 1 \<le> tr" if "?tm = Some (mor, eve, tr)" for mor eve tr
    using new_timings_ok [OF that assms(4)] base(2) by (auto simp: timings_ok_def)
  define Q where "Q r \<longleftrightarrow> (\<exists>ok s'. r = Returns (ok, s') \<and> nc_ok (ne_now e) s' \<and> inhibition s' = inhibition s)"
    for r :: "(bool \<times> night_color) outcome"
  have a: "Q (obind (apply_configuration e active m x loc tms s) (\<lambda>s1. Returns (True, s1)))"
    if x: "?t = Some x" "?tm = Some tms" for active m x loc tms
  proof (cases tms)
    case (fields mor eve tr)
    then show ?thesis
      using apply_configuration_ok [OF assms(1-3) t [OF x(1)] tm [of mor eve tr], of active m loc] x(2)
      by (auto simp: Q_def)
  qed
  have "Q (Returns (ok, s))" for ok
    using unchanged by (simp add: Q_def)
  then have "Q (changeConfiguration e isoTime data s)"
    using a unfolding changeConfiguration_def by (simp split: option.splits)
  then show ?thesis
    by (simp only: Q_def)
qed

lemma autoLocation_keeps:
  assumes "nc_ok now s" "now \<le> ne_now e" "nc_env_ok e"
  shows "\<exists>s'. autoLocationUpdate e loc s = Returns s' \<and> nc_ok (ne_now e) s' \<and> inhibition s' = inhibition s"
proof -
  let ?s = "(cancelAllTimers s)\<lparr>nc_auto := loc, nc_settings := (nc_settings s)\<lparr>ns_auto := loc\<rparr>\<rparr>"
  have "base_ok ?s"
    using nc_okD(1) [OF assms(1)] by (simp add: base_ok_def nc_state_defs)
  then obtain s1 where s1: "resetAllTimers e ?s = Returns s1" "nc_ok (ne_now e) s1"
    using resetAllTimers_ok [OF _ assms(3)] by blast
  have "inhibition s1 = inhibition s"
    using inhibition_config [OF nc_config_resetAll [OF s1(1)]] by (simp add: inhibition_def cancelAllTimers_def)
  then show ?thesis
    using s1 nc_ok_later [OF assms(1,2)] by (simp add: autoLocationUpdate_def Let_def)
qed

end
