(* ===== verification/Night_Color_System.thy ===== *)
theory Night_Color_System
  imports Night_Color_Properties
begin

text \<open>
  The night color manager with its D-Bus interface under arbitrary sequences of events, and the timer that adjusts the
  temperature quickly.
\<close>

section \<open>The invariant of the system\<close>

definition sys_ok :: "int \<Rightarrow> nat \<Rightarrow> nc_system \<Rightarrow> bool" where
  "sys_ok now n S \<longleftrightarrow> nc_ok now (sy_manager S) \<and>
     nc_inhibitCount (sy_manager S) = int (length (sy_inhibitors S)) + of_bool (nc_globallyInhibited (sy_manager S)) \<and>
     distinct (sy_inhibitors S) \<and> (\<forall>p \<in> set (sy_inhibitors S). unat (snd p) \<le> n) \<and> unat (sy_lastCookie S) = n \<and>
     set (sy_watched S) = fst ` set (sy_inhibitors S)"

lemma sys_ok_manager: "sys_ok now n S \<Longrightarrow> nc_ok now (sy_manager S)"
  by (simp add: sys_ok_def)

lemma sys_ok_later: "sys_ok now n S \<Longrightarrow> now \<le> now' \<Longrightarrow> sys_ok now' n S"
  by (auto simp: sys_ok_def intro: nc_ok_later)

lemma inhibition_eq:
  "inhibition s' = inhibition s \<longleftrightarrow> nc_inhibitCount s' = nc_inhibitCount s \<and> nc_globallyInhibited s' = nc_globallyInhibited s"
  by (simp add: inhibition_def)

lemma sys_ok_with:
  assumes "sys_ok now n S" "nc_ok now' s'"
    and "nc_inhibitCount s' = int (length (sy_inhibitors S)) + of_bool (nc_globallyInhibited s')"
  shows "sys_ok now' n (S\<lparr>sy_manager := s'\<rparr>)"
  using assms by (simp add: sys_ok_def)

lemma on_manager_ok:
  assumes "sys_ok now n S"
    and "\<exists>s'. f (sy_manager S) = Returns s' \<and> nc_ok now' s' \<and> inhibition s' = inhibition (sy_manager S)"
  shows "\<exists>S'. on_manager f S = Returns S' \<and> sys_ok now' n S'"
proof -
  obtain s' where s': "f (sy_manager S) = Returns s'" "nc_ok now' s'" "inhibition s' = inhibition (sy_manager S)"
    using assms(2) by blast
  then have "sys_ok now' n (S\<lparr>sy_manager := s'\<rparr>)"
    using assms(1) by (intro sys_ok_with [OF assms(1)]) (simp_all add: inhibition_eq sys_ok_def)
  then show ?thesis
    using s'(1) by (simp add: on_manager_def)
qed

lemma keeps_on_manager:
  assumes "sys_ok now n S" "now \<le> ne_now e" "nc_env_ok e" "keeps f (\<lambda>i. i) e now (sy_manager S)"
  shows "\<exists>S'. on_manager (f e) S = Returns S' \<and> sys_ok (ne_now e) n S'"
  using on_manager_ok [OF assms(1)] assms(2-4) sys_ok_manager [OF assms(1)] by (auto simp: keeps_def)

lemma toggle_sys_ok:
  assumes "sys_ok now n S" "now \<le> ne_now e" "nc_env_ok e"
  shows "\<exists>S'. on_manager (nc_toggle e) S = Returns S' \<and> sys_ok (ne_now e) n S'"
proof -
  have "0 < nc_inhibitCount (sy_manager S)" if "nc_globallyInhibited (sy_manager S)"
    using assms(1) that by (simp add: sys_ok_def)
  from toggle_keeps [OF sys_ok_manager [OF assms(1)] assms(2,3) this] obtain s'
    where s': "nc_toggle e (sy_manager S) = Returns s'" "nc_ok (ne_now e) s'"
      "inhibition s' = (nc_inhibitCount (sy_manager S) + (if nc_globallyInhibited (sy_manager S) then -1 else 1),
         \<not> nc_globallyInhibited (sy_manager S))"
    by blast
  have "sys_ok (ne_now e) n (S\<lparr>sy_manager := s'\<rparr>)"
    using s'(2,3) assms(1) by (intro sys_ok_with [OF assms(1)]) (simp_all add: inhibition_def sys_ok_def)
  then show ?thesis
    using s'(1) by (simp add: on_manager_def)
qed

lemma dbus_inhibit_ok:
  assumes "sys_ok now n S" "now \<le> ne_now e" "nc_env_ok e" "Suc n < 2 ^ 32"
  shows "\<exists>c S'. dbus_inhibit e service S = Returns (c, S') \<and> sys_ok (ne_now e) (Suc n) S'"
proof -
  let ?c = "sy_lastCookie S + 1"
  have c: "unat ?c = Suc n"
    using assms(1,4) by (simp add: sys_ok_def unat_word_ariths)
  then have fresh: "(service, ?c) \<notin> set (sy_inhibitors S)"
    using assms(1) by (force simp: sys_ok_def)
  define W where "W = (if has_inhibitor service S then sy_watched S else service # sy_watched S)"
  have w: "set W = insert service (fst ` set (sy_inhibitors S))"
    using assms(1) by (auto simp: W_def sys_ok_def)
  obtain s1 where s1: "inhibit e (sy_manager S) = Returns s1" "nc_ok (ne_now e) s1"
    "inhibition s1 = (nc_inhibitCount (sy_manager S) + 1, nc_globallyInhibited (sy_manager S))"
    using inhibit_keeps [OF sys_ok_manager [OF assms(1)] assms(2,3)] by blast
  let ?S = "S\<lparr>sy_watched := W, sy_lastCookie := ?c, sy_inhibitors := (service, ?c) # sy_inhibitors S, sy_manager := s1\<rparr>"
  have "dbus_inhibit e service S = Returns (?c, ?S)"
    using s1(1) by (simp add: dbus_inhibit_def on_manager_def Let_def W_def)
  moreover have "sys_ok (ne_now e) (Suc n) ?S"
    using assms(1) s1(2,3) c fresh w by (auto simp: sys_ok_def inhibition_def intro: le_SucI)
  ultimately show ?thesis
    by blast
qed

lemma length_removeAll_distinct: "distinct xs \<Longrightarrow> x \<in> set xs \<Longrightarrow> length (removeAll x xs) = length xs - 1"
  by (metis distinct_remove1_removeAll length_remove1)

lemma dbus_uninhibit_ok:
  assumes "sys_ok now n S" "now \<le> ne_now e" "nc_env_ok e"
  shows "\<exists>S'. dbus_uninhibit e service cookie S = Returns S' \<and> sys_ok (ne_now e) n S'"
proof (cases "(service, cookie) \<in> set (sy_inhibitors S)")
  case True
  let ?I = "removeAll (service, cookie) (sy_inhibitors S)"
  have pos: "0 < length (sy_inhibitors S)"
    using True by (cases "sy_inhibitors S") auto
  then have len: "int (length ?I) = int (length (sy_inhibitors S)) - 1"
    using length_removeAll_distinct [OF _ True] assms(1) unfolding sys_ok_def by linarith
  define W where "W = (if service \<in> fst ` set ?I then sy_watched S else removeAll service (sy_watched S))"
  have "set (sy_inhibitors S) = insert (service, cookie) (set ?I)"
    using True by auto
  then have "fst ` set (sy_inhibitors S) = insert service (fst ` set ?I)"
    by (metis fst_conv image_insert)
  then have w: "set W = fst ` set ?I"
    using assms(1) unfolding W_def sys_ok_def by auto
  have "0 < nc_inhibitCount (sy_manager S)"
    using assms(1) pos by (simp add: sys_ok_def)
  then obtain s1 where s1: "uninhibit e (sy_manager S) = Returns s1" "nc_ok (ne_now e) s1"
    "inhibition s1 = (nc_inhibitCount (sy_manager S) - 1, nc_globallyInhibited (sy_manager S))"
    using uninhibit_keeps [OF sys_ok_manager [OF assms(1)] assms(2,3)] by blast
  let ?S = "S\<lparr>sy_inhibitors := ?I, sy_watched := W, sy_manager := s1\<rparr>"
  have "dbus_uninhibit e service cookie S = Returns ?S"
    using True s1(1) by (simp add: dbus_uninhibit_def on_manager_def Let_def W_def)
  moreover have "sys_ok (ne_now e) n ?S"
    using assms(1) s1(2,3) len w by (simp add: sys_ok_def inhibition_def distinct_removeAll)
  ultimately show ?thesis
    by blast
next
  case False
  then show ?thesis
    using sys_ok_later [OF assms(1,2)] by (simp add: dbus_uninhibit_def)
qed

lemma removeInhibitorService_ok:
  assumes "sys_ok now n S" "now \<le> ne_now e" "nc_env_ok e"
  shows "\<exists>S'. removeInhibitorService e service S = Returns S' \<and> sys_ok (ne_now e) n S'"
  unfolding removeInhibitorService_def
  by (rule ofold_returns) (use dbus_uninhibit_ok [OF _ order_refl assms(3)] sys_ok_later [OF assms(1,2)] in blast)+

section \<open>Sequences of events\<close>

fun event_ok :: "nc_event \<Rightarrow> bool" where
  "event_ok (SetNightColorConfig isoTime data) = iso_ok isoTime"
| "event_ok _ = True"

fun is_inhibit :: "nc_event \<Rightarrow> bool" where
  "is_inhibit (DbusInhibit service) = True"
| "is_inhibit _ = False"

lemma handle_ok:
  assumes "sys_ok now n S" "now \<le> ne_now e" "nc_env_ok e" "event_ok ev" "is_inhibit ev \<Longrightarrow> Suc n < 2 ^ 32"
  shows "\<exists>S'. nc_handle e ev S = Returns S' \<and> sys_ok (ne_now e) (if is_inhibit ev then Suc n else n) S'"
proof -
  note km = keeps_on_manager [OF assms(1-3)] and later = sys_ok_later [OF assms(1,2)]
  show ?thesis
  proof (cases ev)
    case ScreensCountChanged
    then show ?thesis
      using km [OF hardReset_keeps] later by simp
  next
    case (SessionActive active)
    then show ?thesis
      using km [OF session_keeps] later by simp
  next
    case (ClockSkew reply)
    then show ?thesis
      using km [OF clockSkewed_keeps] later by simp
  next
    case QuickTimeout
    then show ?thesis
      using km [OF quickAdjust_keeps] by simp
  next
    case SlowStartTimeout
    then show ?thesis
      using km [OF slow_start_timeout_keeps] by simp
  next
    case SlowTimeout
    then show ?thesis
      using km [OF slow_timeout_keeps] by simp
  next
    case ToggleShortcut
    then show ?thesis
      using toggle_sys_ok [OF assms(1-3)] by simp
  next
    case (DbusInhibit service)
    then show ?thesis
      using dbus_inhibit_ok [OF assms(1-3), of service] assms(5) by auto
  next
    case (DbusUninhibit service cookie)
    then show ?thesis
      using dbus_uninhibit_ok [OF assms(1-3)] by simp
  next
    case (ServiceUnregistered service)
    then show ?thesis
      using removeInhibitorService_ok [OF assms(1-3)] later by simp
  next
    case (SetNightColorConfig isoTime data)
    have "\<exists>ok s'. changeConfiguration e isoTime data (sy_manager S) = Returns (ok, s') \<and> nc_ok (ne_now e) s' \<and>
        inhibition s' = inhibition (sy_manager S)"
      using SetNightColorConfig assms(4) by (intro changeConfiguration_keeps [OF sys_ok_manager [OF assms(1)] assms(2,3)]) simp
    then show ?thesis
      using SetNightColorConfig on_manager_ok [OF assms(1)] by auto
  next
    case (AutoLocation loc)
    then show ?thesis
      using on_manager_ok [where f = "autoLocationUpdate e loc", OF assms(1)]
        autoLocation_keeps [OF sys_ok_manager [OF assms(1)] assms(2,3)] by simp
  qed
qed

lemma nc_start_ok:
  assumes "nc_env_ok e"
  shows "\<exists>S. nc_start e cfg = Returns S \<and> sys_ok (ne_now e) 0 S"
  using nc_init_ok [OF assms, of cfg] by (auto simp: nc_start_def sys_ok_def inhibition_def)

lemma run_ok_from:
  assumes "sys_ok now n S" "list_all (\<lambda>(e, ev). nc_env_ok e \<and> event_ok ev) es" "sorted (now # map (\<lambda>(e, ev). ne_now e) es)"
    and "n + length (filter (\<lambda>(e, ev). is_inhibit ev) es) < 2 ^ 32"
  shows "\<exists>now' n' S'. nc_run es S = Returns S' \<and> sys_ok now' n' S'"
  using assms
proof (induction es arbitrary: now n S)
  case Nil
  then show ?case
    by (auto simp: nc_run_def)
next
  case (Cons p es)
  obtain e ev where p: "p = (e, ev)"
    by fastforce
  let ?n = "if is_inhibit ev then Suc n else n"
  obtain S1 where S1: "nc_handle e ev S = Returns S1" "sys_ok (ne_now e) ?n S1"
    using handle_ok [OF Cons.prems(1), of e ev] Cons.prems(2-4) by (auto simp: p split: if_splits)
  have "\<exists>now' n' S'. nc_run es S1 = Returns S' \<and> sys_ok now' n' S'"
    using Cons.prems(2-4) by (intro Cons.IH [OF S1(2)]) (simp_all add: p split: if_splits)
  then show ?case
    using S1(1) by (simp add: nc_run_def p)
qed

text \<open>
  C19. After every sequence of events, from the configuration of the user on and with fewer than \<open>2\<^sup>3\<^sup>2\<close> inhibitions, no
  handler has read or converted out of range, and: the manager counts exactly the inhibitors that D-Bus clients hold and
  the one of the shortcut, it only runs while it is enabled and nobody inhibits it, the temperature of the screens is in
  range, the services that are watched are those that hold an inhibitor, at most one of the timers for quick and slow
  changes exists, and the one that waits for the next transition exists and is started whenever the slow one does.
\<close>

theorem night_color_consistent:
  assumes "nc_env_ok e" "list_all (\<lambda>(e, ev). nc_env_ok e \<and> event_ok ev) es"
    and "sorted (ne_now e # map (\<lambda>(e, ev). ne_now e) es)"
    and "length (filter (\<lambda>(e, ev). is_inhibit ev) es) < 2 ^ 32"
  shows "\<exists>S0 S. nc_start e cfg = Returns S0 \<and> nc_run es S0 = Returns S \<and>
    (let s = sy_manager S in
       nc_inhibitCount s = int (length (sy_inhibitors S)) + of_bool (nc_globallyInhibited s) \<and>
       (nc_running s \<longrightarrow> nc_active s \<and> \<not> isInhibited s) \<and> temperature_ok (nc_currentTemp s) \<and>
       set (sy_watched S) = fst ` set (sy_inhibitors S) \<and> (nc_quick s = None \<or> nc_slow s = None) \<and>
       (nc_slow s = None \<or> (\<exists>ms. nc_slowStart s = Some (Some ms))))"
proof -
  obtain S0 where S0: "nc_start e cfg = Returns S0" "sys_ok (ne_now e) 0 S0"
    using nc_start_ok [OF assms(1)] by blast
  then obtain now n S where S: "nc_run es S0 = Returns S" "sys_ok now n S"
    using run_ok_from [OF S0(2) assms(2,3)] assms(4) by auto
  have "nc_quick s = None \<or> nc_slow s = None" "nc_slow s = None \<or> (\<exists>ms. nc_slowStart s = Some (Some ms))" if "timers_ok s" for s
    using that by (auto simp: timers_ok_def)
  moreover have "timers_ok (sy_manager S)" "run_ok (sy_manager S)" "base_ok (sy_manager S)"
    using S(2) by (simp_all add: sys_ok_def nc_ok_def)
  ultimately show ?thesis
    using S0(1) S unfolding Let_def by (simp add: sys_ok_def run_ok_def base_ok_def isInhibited_def)
qed

text \<open>A client inhibits the night color at noon, the user toggles it, and the client leaves the bus.\<close>

theorem night_color_consistent_witness:
  "\<exists>S0 S. nc_start noon_env
      \<lparr>ns_active = True, ns_mode = 2, ns_nightTemperature = 4500, ns_auto = (0, 0), ns_fixed = (0, 0),
       ns_morningBegin = ''0600'', ns_eveningBegin = ''1800'', ns_transitionTime = 30\<rparr> = Returns S0 \<and>
    nc_run [(noon_env, DbusInhibit ''a''), (noon_env, ToggleShortcut), (noon_env, ServiceUnregistered ''a'')] S0 = Returns S \<and>
    temperature_ok (nc_currentTemp (sy_manager S))"
proof -
  have "nc_env_ok noon_env"
    using noon_env_ok by (simp add: nc_env_ok_def) (simp add: noon_env_def)
  then show ?thesis
    using night_color_consistent [of noon_env "[(noon_env, DbusInhibit ''a''), (noon_env, ToggleShortcut), (noon_env, ServiceUnregistered ''a'')]"
      "\<lparr>ns_active = True, ns_mode = 2, ns_nightTemperature = 4500, ns_auto = (0, 0), ns_fixed = (0, 0),
       ns_morningBegin = ''0600'', ns_eveningBegin = ''1800'', ns_transitionTime = 30\<rparr>"]
    by (simp add: Let_def) blast
qed

end
