(* ===== verification/Night_Color_Adjust.thy ===== *)
theory Night_Color_Adjust
  imports Night_Color_System
begin

text \<open>
  The timer that adjusts the color temperature quickly reaches its target.
\<close>

section \<open>Quick adjustments\<close>

definition accepting :: "nc_env \<Rightarrow> bool" where
  "accepting e \<longleftrightarrow> ne_outputs e \<noteq> [] \<and> (\<forall>out \<in> set (ne_outputs e). \<forall>ramp. go_set out ramp)"

lemma commit_outputs_accepted:
  assumes "temperature_ok t" "\<And>out. out \<in> set outs \<Longrightarrow> go_size out \<le> 2 ^ 16 \<and> (\<forall>ramp. go_set out ramp)"
  shows "ofold (commit_output t) outs s = Returns (if outs = [] then s else s\<lparr>nc_currentTemp := t, nc_failed := 0\<rparr>)"
  using assms(2)
proof (induction outs arbitrary: s)
  case (Cons out outs)
  obtain r g b where "gamma_ramp (go_size out) t = Returns (r, g, b)"
    using gamma_ramp_returns [OF assms(1), of "go_size out"] Cons.prems [of out] by fastforce
  then have "commit_output t out s = Returns (s\<lparr>nc_currentTemp := t, nc_failed := 0\<rparr>)"
    using Cons.prems [of out] by (simp add: commit_output_def setCurrentTemperature_eq)
  then show ?case
    using Cons.IH [of "s\<lparr>nc_currentTemp := t, nc_failed := 0\<rparr>"] Cons.prems by auto
qed simp

lemma commit_accepted:
  assumes "temperature_ok t" "nc_env_ok e" "accepting e"
  shows "commitGammaRamps e t s = Returns (s\<lparr>nc_currentTemp := t, nc_failed := 0\<rparr>)"
  using commit_outputs_accepted [OF assms(1), of "ne_outputs e" s] assms(2,3)
  by (auto simp: commitGammaRamps_def nc_env_ok_def accepting_def list_all_iff)

lemma committed_temperature: "committed t s s' \<Longrightarrow> nc_currentTemp s' = nc_currentTemp s \<or> nc_currentTemp s' = t"
  by (induction rule: committed.induct) (auto simp: setRunning_eq setCurrentTemperature_eq cancelAllTimers_def)

lemma committed_quick: "committed t s s' \<Longrightarrow> nc_quick s = None \<Longrightarrow> nc_quick s' = None"
  by (induction rule: committed.induct) (auto simp: setRunning_eq setCurrentTemperature_eq cancelAllTimers_def)

lemma resetSlowUpdateTimer_temperature:
  assumes "nc_ok (ne_now e) s" "nc_slowStart s \<noteq> None" "nc_env_ok e" "resetSlowUpdateTimer e s = Returns s'"
  shows "nc_currentTemp s' = nc_currentTemp s \<and> (nc_quick s = None \<longrightarrow> nc_quick s' = None)"
proof -
  let ?s = "s\<lparr>nc_slow := None\<rparr>" and ?t = "if daylight (s\<lparr>nc_slow := None\<rparr>) then nc_dayTarget s else nc_nightTarget s"
  have "span_ok (nc_prev s)"
    using assms(1,2) by (auto simp: nc_ok_defs)
  then have p: "fst (nc_prev s) \<noteq> snd (nc_prev s)"
    by (auto elim: span_okE)
  have t: "temperature_ok ?t"
    using assms(1) target_ok_neutral by (auto simp: nc_ok_def base_ok_def intro: target_ok_temperature)
  have c: "nc_currentTemp s' = nc_currentTemp s \<and> (nc_quick s = None \<longrightarrow> nc_quick s' = None)"
    if eq: "nc_currentTemp s = ?t" "commitGammaRamps e ?t ?s = Returns s'"
  proof -
    have "committed ?t ?s s'"
      using commit_committed [OF t assms(3), of ?s] eq(2) by auto
    from committed_temperature [OF this] committed_quick [OF this] eq(1) show ?thesis
      by auto
  qed
  show ?thesis
    using assms(4) p c unfolding resetSlowUpdateTimer_def Let_def by (auto split: if_splits)
qed

lemma resetSlowUpdateStartTimer_temperature:
  assumes "nc_ok now s" "now \<le> ne_now e" "nc_env_ok e" "nc_quick s = None"
  shows "\<exists>s'. resetSlowUpdateStartTimer e s = Returns s' \<and> nc_currentTemp s' = nc_currentTemp s \<and> nc_quick s' = None"
proof (cases "\<not> nc_running s \<or> nc_mode s = Constant")
  case True
  then show ?thesis
    using assms(4) unfolding resetSlowUpdateStartTimer_def Let_def by auto
next
  case False
  let ?s = "s\<lparr>nc_slowStart := Some None\<rparr>"
  let ?u = "update_timings e False ?s"
  have ok: "nc_ok (ne_now e) s"
    by (rule nc_ok_later [OF assms(1,2)])
  then have b: "base_ok ?s"
    by (simp add: nc_ok_def base_ok_def nc_state_defs)
  obtain p n tt where u: "?u = ?s\<lparr>nc_prev := p, nc_next := n, nc_targetTemperature := tt\<rparr>" "between (ne_now e) p n"
    using update_shape [OF assms(3) b, of False] False by auto
  let ?d = "wrap32 (msecsTo (Some (ne_now e)) (fst (nc_next ?u)))"
  let ?v = "?u\<lparr>nc_slowStart := Some (Some ?d)\<rparr>"
  have d: "0 < ?d"
    using between_wrap [OF u(2)] unfolding u(1) by simp
  have v: "nc_ok (ne_now e) ?v" "nc_slowStart ?v \<noteq> None" "nc_currentTemp ?v = nc_currentTemp s" "nc_quick ?v = None"
    using ok False assms(4) u(2) unfolding u(1) by (auto simp: nc_ok_defs between_def nc_state_defs)
  obtain s' where s': "resetSlowUpdateTimer e ?v = Returns s'"
    using resetSlowUpdateTimer_ok [OF v(1,2) assms(3)] by blast
  have "resetSlowUpdateStartTimer e s = resetSlowUpdateTimer e ?v"
    using False d assms(4) unfolding resetSlowUpdateStartTimer_def Let_def by auto
  then show ?thesis
    using resetSlowUpdateTimer_temperature [OF v(1,2) assms(3) s'] s' v(3,4) by simp
qed

text \<open>The number of timeouts of the quick timer that are needed.\<close>

definition quick_steps :: "int \<Rightarrow> int \<Rightarrow> nat" where
  "quick_steps current target = nat (max 1 ((\<bar>target - current\<bar> + 49) div 50))"

lemma step_temp_far:
  assumes "step_temp c t \<noteq> t"
  shows "Suc (quick_steps (step_temp c t) t) = quick_steps c t"
  using assms by (auto simp: step_temp_def quick_steps_def TEMPERATURE_STEP_def min_def max_def abs_if split: if_splits)

lemma step_temp_near:
  assumes "step_temp c t = t"
  shows "quick_steps c t = 1"
  using assms by (auto simp: step_temp_def quick_steps_def TEMPERATURE_STEP_def min_def max_def abs_if split: if_splits)

lemma currentTargetTemp_frame [simp]:
  "currentTargetTemp e (s\<lparr>nc_currentTemp := c, nc_failed := f\<rparr>) = currentTargetTemp e s"
  by (simp add: currentTargetTemp_def transition_temp_def daylight_def Let_def)

lemma quick_reaches:
  assumes "nc_ok now s" "nc_quick s \<noteq> None" "length es = quick_steps (nc_currentTemp s) t" "temperature_ok t"
    and "\<And>e. e \<in> set es \<Longrightarrow> nc_env_ok e \<and> now \<le> ne_now e \<and> accepting e \<and> currentTargetTemp e s = Returns t"
  shows "\<exists>s'. ofold quickAdjust es s = Returns s' \<and> nc_currentTemp s' = t \<and> nc_quick s' = None"
  using assms
proof (induction es arbitrary: s)
  case Nil
  then show ?case
    by (simp add: quick_steps_def)
next
  case (Cons e es)
  have e: "nc_env_ok e" "now \<le> ne_now e" "accepting e" "currentTargetTemp e s = Returns t"
    using Cons.prems(5) by auto
  let ?n = "step_temp (nc_currentTemp s) t"
  let ?s = "s\<lparr>nc_currentTemp := ?n, nc_failed := 0\<rparr>"
  have "temperature_ok ?n"
    using Cons.prems(1,4) by (intro step_temp_ok) (simp_all add: nc_ok_def base_ok_def)
  then have c: "commitGammaRamps e ?n s = Returns ?s" and ok: "nc_ok now ?s"
    using commit_accepted [OF _ e(1,3)] Cons.prems(1) by (auto simp: nc_ok_defs nc_state_defs)
  show ?case
  proof (cases "?n = t")
    case True
    have "nc_ok now (?s\<lparr>nc_quick := None\<rparr>)"
      using ok by (auto simp: nc_ok_defs nc_state_defs)
    then obtain s' where s': "resetSlowUpdateStartTimer e (?s\<lparr>nc_quick := None\<rparr>) = Returns s'"
      "nc_currentTemp s' = t" "nc_quick s' = None"
      using resetSlowUpdateStartTimer_temperature [OF _ e(2,1), of "?s\<lparr>nc_quick := None\<rparr>"] True by auto
    have "es = []"
      using Cons.prems(3) step_temp_near [OF True] by simp
    then show ?thesis
      using s' c True Cons.prems(2) e(4) by (auto simp: quickAdjust_def Let_def)
  next
    case False
    have "\<exists>s'. ofold quickAdjust es ?s = Returns s' \<and> nc_currentTemp s' = t \<and> nc_quick s' = None"
      using Cons.prems(2-5) step_temp_far [OF False] by (intro Cons.IH [OF ok]) simp_all
    moreover have "quickAdjust e s = Returns ?s"
      using c False Cons.prems(2) e(4) by (auto simp: quickAdjust_def Let_def)
    ultimately show ?thesis
      by simp
  qed
qed

text \<open>
  C23. While the target stays the same and the outputs accept the ramps, the quick timer reaches the target and stops: it
  takes one timeout for every 50 K of the difference, rounded up, and at least one.
\<close>

theorem quick_adjust_reaches_target:
  assumes "nc_ok now s" "nc_quick s \<noteq> None" "length es = quick_steps (nc_currentTemp s) t"
    and "list_all (\<lambda>e. nc_env_ok e \<and> now \<le> ne_now e \<and> accepting e \<and> currentTargetTemp e s = Returns t) es"
  shows "\<exists>s'. ofold quickAdjust es s = Returns s' \<and> nc_currentTemp s' = t \<and> nc_quick s' = None"
proof -
  have es: "nc_env_ok e \<and> now \<le> ne_now e \<and> accepting e \<and> currentTargetTemp e s = Returns t" if "e \<in> set es" for e
    using assms(4) that by (simp add: list_all_iff)
  have "es \<noteq> []"
    using assms(3) by (auto simp: quick_steps_def)
  then obtain e where e: "e \<in> set es"
    by (cases es) auto
  have "nc_ok (ne_now e) s"
    using nc_ok_later [OF assms(1)] es [OF e] by blast
  then have "temperature_ok t"
    using currentTargetTemp_ok [OF nc_okD(1,2)] es [OF e] by fastforce
  from quick_reaches [OF assms(1-3) this es] show ?thesis
    by blast
qed

text \<open>
  From 6500 K to a constant night temperature of 6400 K the timer needs two timeouts.
\<close>

definition constant_settings :: nc_settings where
  "constant_settings =
     \<lparr>ns_active = True, ns_mode = 3, ns_nightTemperature = 6400, ns_auto = (0, 0), ns_fixed = (0, 0),
      ns_morningBegin = ''0600'', ns_eveningBegin = ''1800'', ns_transitionTime = 30\<rparr>"

definition constant_state :: night_color where
  "constant_state = (new_manager constant_settings)\<lparr>nc_active := True, nc_skewActive := True, nc_running := True,
     nc_mode := Constant, nc_nightTarget := 6400, nc_quick := Some 1000\<rparr>"

theorem quick_adjust_reaches_target_witness:
  "\<exists>s'. ofold quickAdjust [noon_env, noon_env] constant_state = Returns s' \<and> nc_currentTemp s' = 6400 \<and> nc_quick s' = None"
proof -
  have "nc_ok (ne_now noon_env) constant_state"
    by (simp add: nc_ok_defs constant_state_def new_manager_def target_ok_def temperature_ok_def nc_state_defs
        nc_constants hours_def)
  moreover have "nc_env_ok noon_env \<and> accepting noon_env"
    using noon_env_ok by (simp add: nc_env_ok_def accepting_def) (simp add: noon_env_def)
  moreover have "currentTargetTemp noon_env constant_state = Returns 6400"
    by (simp add: currentTargetTemp_def constant_state_def new_manager_def)
  moreover have "nc_quick constant_state \<noteq> None" "quick_steps (nc_currentTemp constant_state) 6400 = 2"
    by (simp_all add: constant_state_def new_manager_def quick_steps_def nc_constants)
  ultimately show ?thesis
    by (intro quick_adjust_reaches_target [of "ne_now noon_env"]) simp_all
qed

end
