(* ===== verification/Night_Color_Restart.thy ===== *)
theory Night_Color_Restart
  imports Night_Color_Adjust
begin

text \<open>
  What \<open>changeConfiguration\<close> stores in the settings is what \<open>readConfig\<close> reads from them.
\<close>

section \<open>Configurations survive a restart\<close>

text \<open>The part of the state that the user configures.\<close>

definition nc_user :: "night_color \<Rightarrow> bool \<times> night_mode \<times> int \<times> (rat \<times> rat) \<times> (rat \<times> rat) \<times> int \<times> int \<times> int" where
  "nc_user s = (nc_active s, nc_mode s, nc_nightTarget s, nc_auto s, nc_fixed s, nc_morning s, nc_evening s, nc_trTime s)"

definition restarted :: "night_color \<Rightarrow> night_color" where
  "restarted s = readConfig (new_manager (nc_settings s))"

lemma nc_user_restarted:
  "nc_user (restarted s) = (let c = nc_settings s; (mr, ev, tr) = read_timings c in
     (ns_active c, read_mode (ns_mode c), qBound MIN_TEMPERATURE (ns_nightTemperature c) NEUTRAL_TEMPERATURE,
      correctReadin (ns_auto c), correctReadin (ns_fixed c), mr, ev, tr))"
  by (simp add: nc_user_def restarted_def readConfig_def new_manager_def Let_def setEnabled_def nc_setMode_def split: prod.splits)

definition stored :: "night_color \<Rightarrow> bool" where
  "stored s \<longleftrightarrow> nc_user (restarted s) = nc_user s"

lemma stored_eq:
  "stored s \<longleftrightarrow> (let c = nc_settings s in
     nc_active s = ns_active c \<and> nc_mode s = read_mode (ns_mode c) \<and>
     nc_nightTarget s = qBound MIN_TEMPERATURE (ns_nightTemperature c) NEUTRAL_TEMPERATURE \<and>
     nc_auto s = correctReadin (ns_auto c) \<and> nc_fixed s = correctReadin (ns_fixed c) \<and>
     (nc_morning s, nc_evening s, nc_trTime s) = read_timings c)"
  unfolding stored_def nc_user_restarted by (auto simp: nc_user_def Let_def split: prod.splits)

lemma stored_config: "nc_config s' = nc_config s \<Longrightarrow> stored s' = stored s"
  by (simp add: stored_eq nc_config_def Let_def)

lemma read_mode_number [simp]: "read_mode (mode_number m) = m"
  by (cases m) (simp_all add: read_mode_def mode_number_def)

lemma digit_value_char [simp]:
  assumes "0 \<le> n" "n \<le> 9"
  shows "digit_value (digit_char n) = Some n"
proof -
  have "of_char (char_of (n + 48) :: char) = n + 48"
    using assms by simp
  then show ?thesis
    using assms by (simp add: digit_value_def digit_char_def)
qed

lemma hhmm_round_trip:
  assumes "0 \<le> t" "t < MSC_DAY" "60000 dvd t"
  shows "fromString_hhmm (toString_hhmm t) = Some t"
proof -
  obtain k where k: "t = 60000 * k"
    using assms(3) by (elim dvdE)
  have b: "0 \<le> k" "k < 1440"
    using assms(1,2) by (simp_all add: k MSC_DAY_def)
  have h: "t div 3600000 = k div 60" "t div 60000 mod 60 = k mod 60"
    by (simp_all add: k zdiv_zmult2_eq [of 60 60000 60, simplified])
  have d: "0 \<le> k div 60 div 10" "k div 60 div 10 \<le> 9" "0 \<le> k div 60 mod 10" "k div 60 mod 10 \<le> 9"
    "0 \<le> k mod 60 div 10" "k mod 60 div 10 \<le> 9" "0 \<le> k mod 60 mod 10" "k mod 60 mod 10 \<le> 9"
    using b by (auto simp: pos_imp_zdiv_nonneg_iff)
  have e: "10 * (k div 60 div 10) + k div 60 mod 10 = k div 60" "10 * (k mod 60 div 10) + k mod 60 mod 10 = k mod 60"
    by simp_all
  have r: "k div 60 < 24" "k mod 60 < 60" "k div 60 * 3600000 + k mod 60 * 60000 = t"
    using b div_mult_mod_eq [of k 60] unfolding k by linarith+
  have "toString_hhmm t = [digit_char (k div 60 div 10), digit_char (k div 60 mod 10), digit_char (k mod 60 div 10), digit_char (k mod 60 mod 10)]"
    by (simp add: toString_hhmm_def h Let_def)
  then show ?thesis
    using r
    by (simp only: fromString_hhmm.simps digit_value_char [OF d(1,2)] digit_value_char [OF d(3,4)] digit_value_char [OF d(5,6)]
        digit_value_char [OF d(7,8)] prod.case option.case Let_def e hours_def if_True simp_thms)
qed

lemma read_timings_stored:
  assumes "timings_accepted mor eve tr" "0 \<le> mor" "eve < MSC_DAY" "60000 dvd mor" "60000 dvd eve" "tr < 30000"
  shows "read_timings (c\<lparr>ns_morningBegin := toString_hhmm mor, ns_eveningBegin := toString_hhmm eve, ns_transitionTime := tr\<rparr>) = (mor, eve, tr)"
proof -
  have tr: "1 \<le> tr" "mor < eve"
    using assms(1) by (simp_all add: timings_accepted_def)
  have w: "wrap32 (wrap32 (tr * 60) * 1000) = tr * 60000" "wrap32 (wrap32 (tr * 1000) * 60) = tr * 60000"
    using tr(1) assms(6) by (simp_all add: wrap32_id)
  then have g: "tr * 60000 < min (eve - mor) (MSC_DAY - (eve - mor))"
    using assms(1) unfolding timings_accepted_def w by linarith
  have p: "fromString_hhmm (toString_hhmm mor) = Some mor" "fromString_hhmm (toString_hhmm eve) = Some eve"
    using hhmm_round_trip assms tr(2) by simp_all
  have "max (tdiv (tdiv (tr * 60000) 1000) 60) 1 = tr"
    using tr(1) by (simp add: tdiv_nonneg)
  moreover have "\<not> min (eve - mor) (MSC_DAY - (eve - mor)) \<le> tr * 60000" "\<not> tr * 60000 < 0" "\<not> eve - mor \<le> 0"
    using g tr by linarith+
  ultimately show ?thesis
    by (simp add: read_timings_def p w msecsTo_def Let_def del: min_le_iff_disj)
qed

definition whole_minutes :: "(string \<Rightarrow> int option) \<Rightarrow> bool" where
  "whole_minutes isoTime \<longleftrightarrow> (\<forall>x t. isoTime x = Some t \<longrightarrow> 0 \<le> t \<and> t < MSC_DAY \<and> 60000 dvd t)"

definition short_transition :: "(string \<rightharpoonup> qvariant) \<Rightarrow> bool" where
  "short_transition data \<longleftrightarrow> (\<forall>v t. data ''TransitionTime'' = Some v \<longrightarrow> v_int v = Some t \<longrightarrow> t < 30000)"

lemma apply_timings_old: "(nc_morning s, nc_evening s, nc_trTime s) = t \<Longrightarrow> apply_timings t s = s"
  by (auto simp: apply_timings_def)

lemma stored_apply_timings:
  assumes "stored s" "t = (nc_morning s, nc_evening s, nc_trTime s) \<or>
    (case t of (mor, eve, tr) \<Rightarrow> timings_accepted mor eve tr \<and> 0 \<le> mor \<and> eve < MSC_DAY \<and> 60000 dvd mor \<and> 60000 dvd eve \<and> tr < 30000)"
  shows "stored (apply_timings t s)"
proof (cases "(nc_morning s, nc_evening s, nc_trTime s) = t")
  case False
  obtain mor eve tr where t: "t = (mor, eve, tr)"
    by (cases t)
  have "read_timings ((nc_settings s)\<lparr>ns_morningBegin := toString_hhmm mor, ns_eveningBegin := toString_hhmm eve,
      ns_transitionTime := tr\<rparr>) = (mor, eve, tr)"
    using assms(2) False by (intro read_timings_stored) (auto simp: t)
  then show ?thesis
    using assms(1) False by (simp add: apply_timings_def t stored_eq Let_def)
next
  case True
  then show ?thesis
    using assms(1) by (simp only: apply_timings_old)
qed

lemma new_timings_accepted:
  assumes "new_timings isoTime data old = Some t" "whole_minutes isoTime" "short_transition data"
  shows "t = old \<or> (case t of (mor, eve, tr) \<Rightarrow>
    timings_accepted mor eve tr \<and> 0 \<le> mor \<and> eve < MSC_DAY \<and> 60000 dvd mor \<and> 60000 dvd eve \<and> tr < 30000)"
  using assms unfolding new_timings_def whole_minutes_def short_transition_def
  by (auto split: option.splits if_splits)

lemma stored_apply:
  assumes "stored s"
  shows "stored (apply_active a s)" "stored (apply_mode m s)" "stored (cancelAllTimers s)"
    and "target_ok t \<Longrightarrow> stored (apply_temperature t s)"
    and "loc = nc_fixed s \<or> checkLocation loc \<Longrightarrow> stored (apply_location loc s)"
proof -
  have cong: "read_timings (c\<lparr>ns_active := a\<rparr>) = read_timings c" "read_timings (c\<lparr>ns_mode := n\<rparr>) = read_timings c"
    "read_timings (c\<lparr>ns_nightTemperature := t\<rparr>) = read_timings c" "read_timings (c\<lparr>ns_fixed := loc\<rparr>) = read_timings c" for c n
    by (simp_all add: read_timings_def)
  show "stored (apply_active a s)" "stored (apply_mode m s)" "stored (cancelAllTimers s)"
    using assms
    by (simp_all add: stored_eq apply_active_def apply_mode_def cancelAllTimers_def setEnabled_def nc_setMode_def Let_def cong)
  show "target_ok t \<Longrightarrow> stored (apply_temperature t s)"
    using assms by (simp add: stored_eq apply_temperature_def Let_def cong target_ok_def qBound_def)
  show "loc = nc_fixed s \<or> checkLocation loc \<Longrightarrow> stored (apply_location loc s)"
    using assms by (auto simp: stored_eq apply_location_def Let_def cong correctReadin_def)
qed

lemma apply_keeps_fixed: "nc_fixed (apply_temperature t (apply_mode m (apply_active a s))) = nc_fixed s"
  by (simp add: apply_temperature_def apply_mode_def apply_active_def setEnabled_def nc_setMode_def Let_def)

lemma apply_keeps_timings:
  "s1 = apply_location loc (apply_temperature t (apply_mode m (apply_active a s))) \<Longrightarrow>
   (nc_morning s1, nc_evening s1, nc_trTime s1) = (nc_morning s, nc_evening s, nc_trTime s)"
  by (simp add: apply_location_def apply_temperature_def apply_mode_def apply_active_def setEnabled_def nc_setMode_def Let_def)

lemma apply_configuration_stored:
  assumes "stored s" "target_ok nightT" "loc = nc_fixed s \<or> checkLocation loc"
    and "t = (nc_morning s, nc_evening s, nc_trTime s) \<or>
      (case t of (mor, eve, tr) \<Rightarrow> timings_accepted mor eve tr \<and> 0 \<le> mor \<and> eve < MSC_DAY \<and> 60000 dvd mor \<and> 60000 dvd eve \<and> tr < 30000)"
    and "apply_configuration e active m nightT loc t s = Returns s'"
  shows "stored s'"
proof -
  define all where "all s0 = apply_timings t (apply_location loc (apply_temperature nightT (apply_mode m (apply_active active s0))))" for s0
  have all: "stored (all s0)" if "stored s0" "nc_fixed s0 = nc_fixed s"
    "(nc_morning s0, nc_evening s0, nc_trTime s0) = (nc_morning s, nc_evening s, nc_trTime s)" for s0
  proof -
    let ?s = "apply_location loc (apply_temperature nightT (apply_mode m (apply_active active s0)))"
    note k = apply_keeps_timings [OF refl, of loc nightT m active s0]
    have "stored ?s"
      using assms(2,3) that by (intro stored_apply) (simp_all add: apply_keeps_fixed)
    then show ?thesis
      unfolding all_def using assms(4) k that(3) by (intro stored_apply_timings) simp_all
  qed
  have a: "stored (all s)" "stored (all (cancelAllTimers s))"
    using assms(1) stored_apply(3) [OF assms(1)] by (intro all; simp add: cancelAllTimers_def)+
  have "stored s'" if "(if r then resetAllTimers e (all (if r then cancelAllTimers s else s)) else
      Returns (all (if r then cancelAllTimers s else s))) = Returns s'" for r
  proof (cases r)
    case True
    then have "resetAllTimers e (all (cancelAllTimers s)) = Returns s'"
      using that by simp
    from stored_config [OF nc_config_resetAll [OF this]] a(2) show ?thesis
      by simp
  next
    case False
    then show ?thesis
      using that a(1) by simp
  qed
  from this [OF assms(5) [unfolded apply_configuration_def Let_def all_def [symmetric]]] show ?thesis .
qed

text \<open>
  C21. A change of the configuration over D-Bus survives a restart: when the settings agree with the state before, a manager
  that is constructed anew from the settings after it has the same configuration, provided that the times are whole
  minutes and the transition does not overflow. A change that is refused leaves the manager as it is.
\<close>

theorem configuration_survives_restart:
  assumes "nc_user (restarted s) = nc_user s" "whole_minutes isoTime" "short_transition data" "target_ok (nc_nightTarget s)"
    and "changeConfiguration e isoTime data s = Returns (ok, s')"
  shows "nc_user (restarted s') = nc_user s' \<and> (\<not> ok \<longrightarrow> s' = s)"
proof -
  have st: "stored s"
    using assms(1) by (simp add: stored_def)
  let ?t = "new_value v_int (\<lambda>t. MIN_TEMPERATURE \<le> t \<and> t \<le> NEUTRAL_TEMPERATURE) (data ''NightTemperature'') (nc_nightTarget s)"
  have t: "target_ok x" if "?t = Some x" for x
    using new_value_cases [OF that] assms(4) by (auto simp: target_ok_def)
  have l: "loc = nc_fixed s \<or> checkLocation loc" if "new_location data (nc_fixed s) = Some loc" for loc
    using that by (auto simp: new_location_def split: option.splits if_splits)
  note tm = new_timings_accepted [OF _ assms(2,3)]
  have "stored s' \<and> (\<not> ok \<longrightarrow> s' = s)"
    using assms(5) st apply_configuration_stored [OF st t l tm] unfolding changeConfiguration_def
    by (auto split: option.splits if_splits)
  then show ?thesis
    by (simp add: stored_def)
qed

text \<open>A client of D-Bus changes the temperature of the night to 4000 K.\<close>

definition restarted_state :: night_color where
  "restarted_state = restarted (new_manager constant_settings)"

definition no_gamma_env :: nc_env where
  "no_gamma_env = noon_env\<lparr>ne_available := False\<rparr>"

definition temperature_data :: "string \<rightharpoonup> qvariant" where
  "temperature_data = [''NightTemperature'' \<mapsto> \<lparr>v_bool = None, v_int = Some 4000, v_double = None, v_string = None\<rparr>]"

lemma settings_restarted: "nc_settings (restarted s) = nc_settings s"
  by (simp add: restarted_def readConfig_def new_manager_def Let_def setEnabled_def nc_setMode_def split: prod.splits)

lemma restarted_twice: "restarted (restarted s) = restarted s"
  unfolding restarted_def [of "restarted s"] settings_restarted by (simp add: restarted_def)

lemma restarted_state_temperature: "nc_nightTarget restarted_state = 6400"
  by (simp add: restarted_state_def restarted_def readConfig_def new_manager_def constant_settings_def Let_def setEnabled_def
      nc_setMode_def qBound_def nc_constants split: prod.splits)

lemma temperature_change_accepted:
  "\<exists>s'. changeConfiguration no_gamma_env (\<lambda>_. None) temperature_data restarted_state = Returns (True, s') \<and> nc_nightTarget s' = 4000"
proof -
  let ?s = "restarted_state"
  have "\<exists>s'. apply_configuration no_gamma_env (nc_active ?s) (nc_mode ?s) 4000 (nc_fixed ?s) (nc_morning ?s, nc_evening ?s, nc_trTime ?s) ?s
      = Returns s' \<and> nc_nightTarget s' = 4000"
    by (simp add: apply_configuration_def Let_def restarted_state_temperature resetAllTimers_def no_gamma_env_def
        apply_timings_def apply_location_def apply_temperature_def apply_mode_def apply_active_def setRunning_eq cancelAllTimers_def)
  then show ?thesis
    by (auto simp: changeConfiguration_def temperature_data_def new_value_def new_location_def new_timings_def
        restarted_state_temperature nc_constants)
qed

theorem configuration_survives_restart_witness:
  "\<exists>s'. changeConfiguration no_gamma_env (\<lambda>_. None) temperature_data restarted_state = Returns (True, s') \<and>
    nc_nightTarget s' = 4000 \<and> nc_user (restarted s') = nc_user s'"
proof -
  obtain s' where s': "changeConfiguration no_gamma_env (\<lambda>_. None) temperature_data restarted_state = Returns (True, s')" "nc_nightTarget s' = 4000"
    using temperature_change_accepted by blast
  have "nc_user (restarted restarted_state) = nc_user restarted_state" "whole_minutes (\<lambda>_. None)" "short_transition temperature_data"
    "target_ok (nc_nightTarget restarted_state)"
    using restarted_twice [of "new_manager constant_settings"]
    by (simp_all add: restarted_state_def whole_minutes_def short_transition_def temperature_data_def target_ok_def
        restarted_state_temperature [unfolded restarted_state_def] nc_constants)
  from configuration_survives_restart [OF this s'(1)] s' show ?thesis
    by blast
qed

end
