(* ===== verification/Night_Color_Findings.thy ===== *)
theory Night_Color_Findings
  imports Night_Color_Restart
begin

text \<open>
  What the model shows about corner cases of the night color manager.
\<close>

text \<open>
  The check of the transition time in \<open>changeConfiguration\<close> multiplies minutes to milliseconds in an \<open>int\<close>: a transition of
  71583 minutes wraps around to twelve seconds and is accepted.
\<close>

lemma long_transition_accepted: "timings_accepted (hours 6) (hours 18) 71583"
  by (simp add: timings_accepted_def wrap32_def hours_def MSC_DAY_def)

text \<open>
  The interval of the slow updates is computed as the available time times 50 in an \<open>int\<close>: at the begin of a transition of
  719 minutes, which both ways of configuring accept, it is negative and the timer does not run.
\<close>

definition long_evening :: night_color where
  "long_evening = (new_manager constant_settings)\<lparr>nc_mode := Timings, nc_trTime := 719, nc_running := True, nc_active := True,
     nc_prev := (Some (hours 18), Some (hours 18 + 719 * 60000)), nc_next := (Some (hours 30), Some (hours 30 + 719 * 60000)),
     nc_nightTarget := 4500\<rparr>"

lemma long_transition_never_starts:
  "timings_accepted (hours 6) (hours 18) 719 \<and>
   (\<exists>s. resetSlowUpdateTimer (noon_env\<lparr>ne_now := hours 18\<rparr>) long_evening = Returns s \<and>
     (\<exists>ms. nc_slow s = Some (False, ms) \<and> ms < 0))"
  by (simp add: timings_accepted_def resetSlowUpdateTimer_def long_evening_def new_manager_def daylight_def date_of_def
      dt_msecs_def msecsTo_def wrap32_def tdiv_def hours_def nc_constants Let_def)

text \<open>
  Times are accepted with seconds but stored in minutes: these are in use until the restart, after which the defaults are
  read.
\<close>

lemma seconds_are_lost:
  "timings_accepted (hours 6 + 10000) (hours 6 + 90000) 1 \<and>
   read_timings (constant_settings\<lparr>ns_morningBegin := toString_hhmm (hours 6 + 10000),
     ns_eveningBegin := toString_hhmm (hours 6 + 90000), ns_transitionTime := 1\<rparr>) = (hours 6, hours 18, 30)"
proof -
  have "toString_hhmm (hours 6 + 10000) = ''0600''" "toString_hhmm (hours 6 + 90000) = ''0601''"
    by code_simp+
  moreover have "fromString_hhmm ''0600'' = Some (hours 6)" "fromString_hhmm ''0601'' = Some (hours 6 + 60000)"
    by code_simp+
  ultimately show ?thesis
    by (simp add: timings_accepted_def read_timings_def msecsTo_def wrap32_def tdiv_def hours_def nc_constants Let_def)
qed

text \<open>
  The documentation of \<open>inhibit\<close> promises that the screens return to 6500 K. When the temperature is at most 50 K away
  they stay as they are and no timer changes that.
\<close>

lemma inhibited_keeps_small_difference:
  assumes "ne_available e" "nc_inhibitCount s = 0" "6450 \<le> nc_currentTemp s" "nc_currentTemp s < 6500"
  shows "\<exists>s'. inhibit e s = Returns s' \<and> nc_currentTemp s' = nc_currentTemp s \<and>
    nc_quick s' = None \<and> nc_slow s' = None \<and> nc_slowStart s' = None"
proof -
  let ?s = "(cancelAllTimers (s\<lparr>nc_inhibitCount := 1\<rparr>))\<lparr>nc_running := False\<rparr>"
  let ?u = "update_timings e False ?s"
  obtain p n where pn: "updateTransitionTimings e False ?s = ?s\<lparr>nc_prev := p, nc_next := n\<rparr>"
    using transitions_frame by blast
  obtain tt where u: "?u = ?s\<lparr>nc_prev := p, nc_next := n, nc_targetTemperature := tt\<rparr>"
    using target_frame [of "?s\<lparr>nc_prev := p, nc_next := n\<rparr>"] unfolding pn by blast
  have "currentTargetTemp e ?u = Returns 6500" "\<not> \<bar>6500 - nc_currentTemp ?u\<bar> > TEMPERATURE_STEP"
    using assms(3,4) unfolding u by (simp_all add: currentTargetTemp_def cancelAllTimers_def nc_constants)
  moreover have "inhibit e s = resetQuickAdjustTimer e ?s"
    using assms(1,2) by (simp add: inhibit_def resetAllTimers_def Let_def isInhibited_def cancelAllTimers_def setRunning_eq)
  ultimately have "inhibit e s = resetSlowUpdateStartTimer e ?u"
    by (simp add: resetQuickAdjustTimer_def Let_def)
  also have "\<dots> = Returns (?u\<lparr>nc_slowStart := None\<rparr>)"
    unfolding u by (simp add: resetSlowUpdateStartTimer_def Let_def)
  finally show ?thesis
    unfolding u by (simp add: cancelAllTimers_def)
qed

text \<open>
  Near the poles only the end of the morning may be known. Its begin is then set thirty minutes earlier, which can be on the
  day before: late in the evening the next transition has already begun, and the timer that waits for it is not started.
\<close>

definition polar_env :: nc_env where
  "polar_env = noon_env\<lparr>ne_now := 20000 * MSC_DAY + hours 23 + 3000000,
     ne_sun := (\<lambda>t lat lng morning. if morning then (None, Some (at_time (date_of t) 600000))
       else (Some (at_time (date_of t) (hours 20)), Some (at_time (date_of t) (hours 22))))\<rparr>"

lemma polar_timer_not_started:
  "\<exists>s. resetSlowUpdateStartTimer polar_env ((new_manager constant_settings)\<lparr>nc_running := True, nc_active := True\<rparr>) = Returns s \<and>
     nc_slowStart s = Some None \<and> nc_slow s = None"
  by (simp add: resetSlowUpdateStartTimer_def updateTransitionTimings_def switched_timings_def checkAutomaticSunTimings_def
      reset_timings_def getSunTimings_def updateTargetTemperature_def polar_env_def noon_env_def new_manager_def daylight_def
      date_of_def at_time_def dt_msecs_def msecsTo_def wrap32_def hours_def nc_constants Let_def)

end
