(* ===== verification/Keyboard_Layouts.thy ===== *)
theory Keyboard_Layouts
  imports KWin_Prelude "HOL-Library.Sublist"
begin

text \<open>
  Which keyboard layout is used: \<^verbatim>\<open>keyboard_layout.cpp\<close>, the policies of \<^verbatim>\<open>keyboard_layout_switching.cpp\<close> that remember a
  layout for every desktop, window or application, and the part of \<^verbatim>\<open>xkb.cpp\<close> that switches between the layouts of the
  keymap. A keymap is the number of its layouts, 0 when there is none. What the policies ask the rest of the system is the
  record \<open>kl_ctx\<close>. The hash \<open>m_layouts\<close> is the list of its pairs in the order of iteration, the configuration group the
  list of its entries. Messages to D-Bus and the shortcuts are left out.
\<close>

section \<open>State\<close>

datatype layout_policy = GlobalPolicy | VirtualDesktopPolicy | WindowPolicy | ApplicationPolicy

type_synonym layouts = "(addr \<times> nat) list"

record kl_ctx =
  kc_active :: "addr option"
  kc_special :: "addr \<Rightarrow> bool"
  kc_file :: "addr \<Rightarrow> string"
  kc_same :: "addr \<Rightarrow> addr \<Rightarrow> bool"
  kc_desktop :: "addr option"
  kc_desktops :: "addr list"
  kc_number :: "addr \<Rightarrow> string"

record keyboard =
  kl_numberOfLayouts :: nat
  kl_currentLayout :: nat
  kl_layout :: nat
  kl_policy :: layout_policy
  kl_layouts :: layouts
  kl_layoutsRestored :: "string \<rightharpoonup> nat"
  kl_config :: "(string \<times> nat) list"

section \<open>Layouts of the keymap\<close>

definition xkb_switchToLayout :: "nat \<Rightarrow> keyboard \<Rightarrow> bool \<times> keyboard" where
  "xkb_switchToLayout layout s =
     (if layout \<ge> kl_numberOfLayouts s then (False, s) else (True, s\<lparr>kl_currentLayout := layout\<rparr>))"

definition xkb_switchToNextLayout :: "keyboard \<Rightarrow> keyboard" where
  "xkb_switchToNextLayout s =
     (if kl_numberOfLayouts s = 0 then s
      else snd (xkb_switchToLayout ((kl_currentLayout s + 1) mod kl_numberOfLayouts s) s))"

definition xkb_switchToPreviousLayout :: "keyboard \<Rightarrow> keyboard" where
  "xkb_switchToPreviousLayout s =
     (if kl_numberOfLayouts s = 0 then s
      else snd (xkb_switchToLayout (if kl_currentLayout s = 0 then kl_numberOfLayouts s - 1 else kl_currentLayout s - 1) s))"

section \<open>Remembering layouts\<close>

fun set_layout :: "addr \<Rightarrow> nat \<Rightarrow> layouts \<Rightarrow> layouts" where
  "set_layout r i [] = []"
| "set_layout r i ((k, v) # m) = (if k = r then (k, i) # m else (k, v) # set_layout r i m)"

definition getLayout :: "layouts \<Rightarrow> addr \<Rightarrow> nat" where
  "getLayout m r = (case map_of m r of None \<Rightarrow> 0 | Some i \<Rightarrow> i)"

text \<open>The common part of the handlers of \<open>layoutChanged\<close>: insert a new entry or change the one there is.\<close>

definition remember_layout :: "addr \<Rightarrow> nat \<Rightarrow> layouts \<Rightarrow> layouts" where
  "remember_layout r i m = (if map_of m r = None then (r, i) # m else set_layout r i m)"

definition ordinary_active :: "kl_ctx \<Rightarrow> addr option" where
  "ordinary_active c = (case kc_active c of None \<Rightarrow> None | Some w \<Rightarrow> if kc_special c w then None else Some w)"

definition vd_layoutChanged :: "kl_ctx \<Rightarrow> nat \<Rightarrow> keyboard \<Rightarrow> keyboard" where
  "vd_layoutChanged c i s =
     (case kc_desktop c of None \<Rightarrow> s | Some d \<Rightarrow> s\<lparr>kl_layouts := remember_layout d i (kl_layouts s)\<rparr>)"

definition window_layoutChanged :: "kl_ctx \<Rightarrow> nat \<Rightarrow> keyboard \<Rightarrow> keyboard" where
  "window_layoutChanged c i s =
     (case ordinary_active c of None \<Rightarrow> s | Some w \<Rightarrow> s\<lparr>kl_layouts := remember_layout w i (kl_layouts s)\<rparr>)"

definition app_layoutChanged :: "kl_ctx \<Rightarrow> nat \<Rightarrow> keyboard \<Rightarrow> keyboard" where
  "app_layoutChanged c i s =
     (case ordinary_active c of
        None \<Rightarrow> s
      | Some w \<Rightarrow>
          if map_of (kl_layouts s) w = Some i then s
          else s\<lparr>kl_layouts := map (\<lambda>(k, v). (k, if kc_same c k w then i else v)) (remember_layout w i (kl_layouts s))\<rparr>)"

definition policy_layoutChanged :: "kl_ctx \<Rightarrow> nat \<Rightarrow> keyboard \<Rightarrow> keyboard" where
  "policy_layoutChanged c i s =
     (case kl_policy s of
        GlobalPolicy \<Rightarrow> s
      | VirtualDesktopPolicy \<Rightarrow> vd_layoutChanged c i s
      | WindowPolicy \<Rightarrow> window_layoutChanged c i s
      | ApplicationPolicy \<Rightarrow> app_layoutChanged c i s)"

definition clearCache :: "keyboard \<Rightarrow> keyboard" where
  "clearCache s = (if kl_policy s = GlobalPolicy then s else s\<lparr>kl_layouts := []\<rparr>)"

definition setLayout :: "kl_ctx \<Rightarrow> nat \<Rightarrow> keyboard \<Rightarrow> keyboard" where
  "setLayout c i s =
     (let s1 = snd (xkb_switchToLayout i s) in
      if kl_currentLayout s \<noteq> kl_currentLayout s1 then policy_layoutChanged c (kl_currentLayout s1) s1 else s1)"

text \<open>A desktop or a window is destroyed.\<close>

definition forget :: "addr \<Rightarrow> keyboard \<Rightarrow> keyboard" where
  "forget r s = s\<lparr>kl_layouts := filter (\<lambda>(k, v). k \<noteq> r) (kl_layouts s)\<rparr>"

section \<open>Other desktops and windows\<close>

definition desktopChanged :: "kl_ctx \<Rightarrow> keyboard \<Rightarrow> keyboard" where
  "desktopChanged c s =
     (case kc_desktop c of None \<Rightarrow> s | Some d \<Rightarrow> setLayout c (getLayout (kl_layouts s) d) s)"

definition window_clientActivated :: "kl_ctx \<Rightarrow> addr option \<Rightarrow> keyboard \<Rightarrow> keyboard" where
  "window_clientActivated c window s =
     (case window of
        None \<Rightarrow> s
      | Some w \<Rightarrow> if kc_special c w then s else setLayout c (getLayout (kl_layouts s) w) s)"

definition app_clientActivated :: "kl_ctx \<Rightarrow> addr option \<Rightarrow> keyboard \<Rightarrow> keyboard" where
  "app_clientActivated c window s =
     (case window of
        None \<Rightarrow> s
      | Some w \<Rightarrow>
          if kc_special c w then s
          else
            (case map_of (kl_layouts s) w of
               Some i \<Rightarrow> setLayout c i s
             | None \<Rightarrow>
                 (case find (\<lambda>(k, v). kc_same c w k) (kl_layouts s) of
                    Some (k, i) \<Rightarrow> app_layoutChanged c i (setLayout c i s)
                  | None \<Rightarrow>
                      (let f = kc_file c w;
                           i = (case kl_layoutsRestored s f of None \<Rightarrow> 0 | Some i \<Rightarrow> i);
                           s1 = setLayout c i (s\<lparr>kl_layoutsRestored := (kl_layoutsRestored s)(f := None)\<rparr>)
                       in if kl_currentLayout s1 \<noteq> 0 then app_layoutChanged c (kl_currentLayout s1) s1 else s1))))"

definition clientActivated :: "kl_ctx \<Rightarrow> addr option \<Rightarrow> keyboard \<Rightarrow> keyboard" where
  "clientActivated c window s =
     (case kl_policy s of
        WindowPolicy \<Rightarrow> window_clientActivated c window s
      | ApplicationPolicy \<Rightarrow> app_clientActivated c window s
      | _ \<Rightarrow> s)"

definition currentDesktopChanged :: "kl_ctx \<Rightarrow> keyboard \<Rightarrow> keyboard" where
  "currentDesktopChanged c s = (if kl_policy s = VirtualDesktopPolicy then desktopChanged c s else s)"

section \<open>Layouts that the user chooses\<close>

definition checkLayoutChange :: "kl_ctx \<Rightarrow> nat \<Rightarrow> keyboard \<Rightarrow> keyboard" where
  "checkLayoutChange c previousLayout s =
     (let cur = kl_currentLayout s in
      if kl_layout s \<noteq> cur \<or> previousLayout \<noteq> cur then policy_layoutChanged c cur (s\<lparr>kl_layout := cur\<rparr>) else s)"

definition switchToNextLayout :: "kl_ctx \<Rightarrow> keyboard \<Rightarrow> keyboard" where
  "switchToNextLayout c s = checkLayoutChange c (kl_currentLayout s) (xkb_switchToNextLayout s)"

definition switchToPreviousLayout :: "kl_ctx \<Rightarrow> keyboard \<Rightarrow> keyboard" where
  "switchToPreviousLayout c s = checkLayoutChange c (kl_currentLayout s) (xkb_switchToPreviousLayout s)"

definition switchToLayout :: "kl_ctx \<Rightarrow> nat \<Rightarrow> keyboard \<Rightarrow> keyboard" where
  "switchToLayout c i s = checkLayoutChange c (kl_currentLayout s) (snd (xkb_switchToLayout i s))"

definition dbus_setLayout :: "kl_ctx \<Rightarrow> nat \<Rightarrow> keyboard \<Rightarrow> bool \<times> keyboard" where
  "dbus_setLayout c i s =
     (let (ok, s1) = xkb_switchToLayout i s
      in if \<not> ok then (False, s1) else (True, checkLayoutChange c (kl_currentLayout s) s1))"

text \<open>
  A key event after which the keymap is in the layout \<open>i\<close> (xkbcommon decides which). The change is only looked at when
  no modifier of a global shortcut is held and the key is not released.
\<close>

definition processKey :: "kl_ctx \<Rightarrow> nat \<Rightarrow> bool \<Rightarrow> bool \<Rightarrow> keyboard \<Rightarrow> keyboard" where
  "processKey c i modifiers release s =
     (let s1 = s\<lparr>kl_currentLayout := i\<rparr>
      in if \<not> modifiers \<and> \<not> release then checkLayoutChange c (kl_currentLayout s) s1 else s1)"

section \<open>Configuration\<close>

definition lower_ascii :: "string \<Rightarrow> string" where
  "lower_ascii = map (\<lambda>ch. if of_char ch \<ge> (65 :: nat) \<and> of_char ch \<le> (90 :: nat) then char_of ((of_char ch :: nat) + 32) else ch)"

definition policy_create :: "string \<Rightarrow> layout_policy" where
  "policy_create p =
     (if lower_ascii p = ''desktop'' then VirtualDesktopPolicy
      else if lower_ascii p = ''window'' then WindowPolicy
      else if lower_ascii p = ''winclass'' then ApplicationPolicy
      else GlobalPolicy)"

definition policy_name :: "layout_policy \<Rightarrow> string" where
  "policy_name p =
     (case p of GlobalPolicy \<Rightarrow> ''Global'' | VirtualDesktopPolicy \<Rightarrow> ''Desktop'' | WindowPolicy \<Rightarrow> ''Window''
      | ApplicationPolicy \<Rightarrow> ''WinClass'')"

text \<open>The keymap is read anew: \<open>n\<close> layouts, the first of which is current, or nothing when no keymap can be created.\<close>

definition xkb_reconfigure :: "nat option \<Rightarrow> keyboard \<Rightarrow> keyboard" where
  "xkb_reconfigure keymap s =
     (case keymap of None \<Rightarrow> s | Some n \<Rightarrow> s\<lparr>kl_numberOfLayouts := n, kl_currentLayout := 0\<rparr>)"

definition resetLayout :: "keyboard \<Rightarrow> keyboard" where
  "resetLayout s = clearCache (s\<lparr>kl_layout := kl_currentLayout s\<rparr>)"

definition reconfigure :: "string \<Rightarrow> nat option \<Rightarrow> keyboard \<Rightarrow> keyboard" where
  "reconfigure policyKey keymap s =
     (let s1 = xkb_reconfigure keymap s in
      resetLayout
        (if policy_name (kl_policy s1) \<noteq> policyKey
         then s1\<lparr>kl_policy := policy_create policyKey, kl_layouts := [], kl_layoutsRestored := Map.empty\<rparr> else s1))"

section \<open>Sessions\<close>

definition defaultLayoutEntryKeyPrefix :: string where "defaultLayoutEntryKeyPrefix = ''LayoutDefault''"

definition defaultLayoutEntryKey :: "layout_policy \<Rightarrow> string" where
  "defaultLayoutEntryKey p =
     (if p = GlobalPolicy then defaultLayoutEntryKeyPrefix @ policy_name p
      else defaultLayoutEntryKeyPrefix @ policy_name p @ ''_'')"

definition clearLayouts :: "(string \<times> nat) list \<Rightarrow> (string \<times> nat) list" where
  "clearLayouts cfg = filter (\<lambda>(k, v). \<not> sublist defaultLayoutEntryKeyPrefix k) cfg"

fun writeEntry :: "string \<Rightarrow> nat \<Rightarrow> (string \<times> nat) list \<Rightarrow> (string \<times> nat) list" where
  "writeEntry k v [] = [(k, v)]"
| "writeEntry k v ((k', v') # cfg) = (if k' = k then (k, v) # cfg else (k', v') # writeEntry k v cfg)"

definition readEntry :: "string \<Rightarrow> (string \<times> nat) list \<Rightarrow> nat" where
  "readEntry k cfg = (case map_of cfg k of None \<Rightarrow> 0 | Some v \<Rightarrow> v)"

definition save_desktop :: "kl_ctx \<Rightarrow> addr \<times> nat \<Rightarrow> (string \<times> nat) list \<Rightarrow> (string \<times> nat) list" where
  "save_desktop c = (\<lambda>(d, i) cfg.
     if i \<noteq> 0 then writeEntry (defaultLayoutEntryKey VirtualDesktopPolicy @ kc_number c d) i cfg else cfg)"

definition save_application :: "kl_ctx \<Rightarrow> addr \<times> nat \<Rightarrow> (string \<times> nat) list \<Rightarrow> (string \<times> nat) list" where
  "save_application c = (\<lambda>(w, i) cfg.
     if i \<noteq> 0 \<and> kc_file c w \<noteq> '''' then writeEntry (defaultLayoutEntryKey ApplicationPolicy @ kc_file c w) i cfg else cfg)"

definition prepareSessionSave :: "kl_ctx \<Rightarrow> keyboard \<Rightarrow> keyboard" where
  "prepareSessionSave c s =
     (case kl_policy s of
        GlobalPolicy \<Rightarrow>
          let cfg = clearLayouts (kl_config s) in
          s\<lparr>kl_config := (if kl_currentLayout s \<noteq> 0 then writeEntry (defaultLayoutEntryKey GlobalPolicy) (kl_currentLayout s) cfg else cfg)\<rparr>
      | VirtualDesktopPolicy \<Rightarrow> s\<lparr>kl_config := fold (save_desktop c) (kl_layouts s) (clearLayouts (kl_config s))\<rparr>
      | WindowPolicy \<Rightarrow> s
      | ApplicationPolicy \<Rightarrow> s\<lparr>kl_config := fold (save_application c) (kl_layouts s) (clearLayouts (kl_config s))\<rparr>)"

definition load_desktop :: "kl_ctx \<Rightarrow> addr \<Rightarrow> keyboard \<Rightarrow> keyboard" where
  "load_desktop c d s =
     (let i = readEntry (defaultLayoutEntryKey VirtualDesktopPolicy @ kc_number c d) (kl_config s)
      in if i \<noteq> 0 then s\<lparr>kl_layouts := remember_layout d i (kl_layouts s)\<rparr> else s)"

definition load_application :: "string \<times> nat \<Rightarrow> (string \<rightharpoonup> nat) \<Rightarrow> (string \<rightharpoonup> nat)" where
  "load_application = (\<lambda>(k, v) m.
     let p = defaultLayoutEntryKey ApplicationPolicy in if sublist p k then m(drop (length p) k \<mapsto> v) else m)"

definition loadSession :: "kl_ctx \<Rightarrow> keyboard \<Rightarrow> keyboard" where
  "loadSession c s =
     (if kl_numberOfLayouts s \<le> 1 then s
      else
        (case kl_policy s of
           GlobalPolicy \<Rightarrow> setLayout c (readEntry (defaultLayoutEntryKey GlobalPolicy) (kl_config s)) s
         | VirtualDesktopPolicy \<Rightarrow> desktopChanged c (fold (load_desktop c) (kc_desktops c) s)
         | WindowPolicy \<Rightarrow> s
         | ApplicationPolicy \<Rightarrow> s\<lparr>kl_layoutsRestored := fold load_application (kl_config s) (kl_layoutsRestored s)\<rparr>))"

end
