(* ===== verification/Keyboard_Layouts_Properties.thy ===== *)
theory Keyboard_Layouts_Properties
  imports Keyboard_Layouts
begin

text \<open>
  The policies for desktops and windows implement a memory of layouts: one layout for every desktop or window, which is the
  current one while it is. Both are instances of the locale \<open>reference_policy\<close>. Windows of one application share their
  layout under the policy for applications.
\<close>

section \<open>The hash of layouts\<close>

lemma getLayout_set_layout: "map_of m r \<noteq> None \<Longrightarrow> getLayout (set_layout r i m) = (getLayout m)(r := i)"
  by (induction r i m rule: set_layout.induct) (auto simp: getLayout_def fun_eq_iff split: if_splits)

lemma getLayout_remember: "getLayout (remember_layout r i m) = (getLayout m)(r := i)"
  by (simp add: remember_layout_def getLayout_set_layout) (auto simp: getLayout_def)

lemma getLayout_same: "(getLayout m)(r := getLayout m r) = getLayout m"
  by simp

section \<open>Policies that follow a reference\<close>

text \<open>
  What the two policies have in common: the reference, the current desktop or the active window, and that a change of the
  layout is remembered for it.
\<close>

locale reference_policy =
  fixes ref :: "kl_ctx \<Rightarrow> addr option" and pol :: layout_policy
  assumes changed: "kl_policy s = pol \<Longrightarrow> ref c = Some r \<Longrightarrow>
    policy_layoutChanged c i s = s\<lparr>kl_layouts := remember_layout r i (kl_layouts s)\<rparr>"
begin

text \<open>The layout that is current is the one of the reference.\<close>

definition synced :: "addr \<Rightarrow> keyboard \<Rightarrow> bool" where
  "synced r s \<longleftrightarrow> kl_policy s = pol \<and> getLayout (kl_layouts s) r = kl_currentLayout s"

lemma arrive_synced:
  assumes "kl_policy s = pol" "ref c = Some r" "getLayout (kl_layouts s) r < kl_numberOfLayouts s"
  defines "s' \<equiv> setLayout c (getLayout (kl_layouts s) r) s"
  shows "synced r s'" "getLayout (kl_layouts s') = getLayout (kl_layouts s)" "kl_numberOfLayouts s' = kl_numberOfLayouts s"
  using assms by (auto simp: setLayout_def xkb_switchToLayout_def Let_def changed synced_def getLayout_remember)

lemma check_synced:
  assumes "kl_policy s = pol" "ref c = Some r" "kl_currentLayout s \<noteq> previous \<or> getLayout (kl_layouts s) r = kl_currentLayout s"
  defines "s' \<equiv> checkLayoutChange c previous s"
  shows "synced r s'" "getLayout (kl_layouts s') = (getLayout (kl_layouts s))(r := kl_currentLayout s)"
    "kl_numberOfLayouts s' = kl_numberOfLayouts s" "kl_currentLayout s' = kl_currentLayout s"
  using assms by (auto simp: checkLayoutChange_def Let_def changed synced_def getLayout_remember)

end

interpretation windows: reference_policy ordinary_active WindowPolicy
  by unfold_locales (simp add: policy_layoutChanged_def window_layoutChanged_def)

interpretation desktops: reference_policy kc_desktop VirtualDesktopPolicy
  by unfold_locales (simp add: policy_layoutChanged_def vd_layoutChanged_def)

section \<open>What the user chooses\<close>

datatype choice = ChooseLayout nat | ChooseNext | ChoosePrevious

fun make_choice :: "kl_ctx \<Rightarrow> choice \<Rightarrow> keyboard \<Rightarrow> keyboard" where
  "make_choice c (ChooseLayout i) s = switchToLayout c i s"
| "make_choice c ChooseNext s = switchToNextLayout c s"
| "make_choice c ChoosePrevious s = switchToPreviousLayout c s"

text \<open>The layout that results from a choice among \<open>n\<close> layouts.\<close>

fun chosen :: "nat \<Rightarrow> choice \<Rightarrow> nat \<Rightarrow> nat" where
  "chosen n (ChooseLayout i) cur = (if i < n then i else cur)"
| "chosen n ChooseNext cur = (cur + 1) mod n"
| "chosen n ChoosePrevious cur = (if cur = 0 then n - 1 else cur - 1)"

lemma chosen_less: "cur < n \<Longrightarrow> chosen n ch cur < n"
  by (cases ch) (auto intro: mod_less_divisor)

text \<open>A choice switches the keymap and then looks for a change.\<close>

lemma make_choice_check:
  assumes "kl_currentLayout s < kl_numberOfLayouts s"
  shows "make_choice c ch s = checkLayoutChange c (kl_currentLayout s)
    (s\<lparr>kl_currentLayout := chosen (kl_numberOfLayouts s) ch (kl_currentLayout s)\<rparr>)"
proof -
  have "0 < kl_numberOfLayouts s"
    using assms by simp
  then have "\<not> kl_numberOfLayouts s \<le> Suc (kl_currentLayout s) mod kl_numberOfLayouts s"
    using mod_less_divisor by (simp only: not_le)
  then show ?thesis
    using assms
    by (cases ch) (auto simp: switchToLayout_def switchToNextLayout_def switchToPreviousLayout_def xkb_switchToLayout_def
        xkb_switchToNextLayout_def xkb_switchToPreviousLayout_def)
qed

context reference_policy
begin

lemma make_choice_synced:
  assumes "synced r s" "ref c = Some r" "kl_currentLayout s < kl_numberOfLayouts s"
    and i_def: "i = chosen (kl_numberOfLayouts s) ch (kl_currentLayout s)"
  shows "synced r (make_choice c ch s)" "getLayout (kl_layouts (make_choice c ch s)) = (getLayout (kl_layouts s))(r := i)"
    "kl_numberOfLayouts (make_choice c ch s) = kl_numberOfLayouts s" "kl_currentLayout (make_choice c ch s) = i"
proof -
  let ?s = "s\<lparr>kl_currentLayout := i\<rparr>"
  have p: "kl_policy ?s = pol" and d: "kl_currentLayout ?s \<noteq> kl_currentLayout s \<or> getLayout (kl_layouts ?s) r = kl_currentLayout ?s"
    using assms(1) by (auto simp: synced_def)
  have "make_choice c ch s = checkLayoutChange c (kl_currentLayout s) ?s"
    unfolding i_def by (rule make_choice_check [OF assms(3)])
  then show "synced r (make_choice c ch s)" "getLayout (kl_layouts (make_choice c ch s)) = (getLayout (kl_layouts s))(r := i)"
    "kl_numberOfLayouts (make_choice c ch s) = kl_numberOfLayouts s" "kl_currentLayout (make_choice c ch s) = i"
    using check_synced [OF p assms(2) d] by simp_all
qed

end

section \<open>The memory of layouts\<close>

text \<open>
  The specification: a layout for every reference and the current one. A visit of a reference makes its layout current, and
  every choice during the visit changes both.
\<close>

type_synonym memory = "(addr \<Rightarrow> nat) \<times> nat"

definition memory_choose :: "nat \<Rightarrow> addr \<Rightarrow> choice \<Rightarrow> memory \<Rightarrow> memory" where
  "memory_choose n r ch = (\<lambda>(L, cur). (L(r := chosen n ch cur), chosen n ch cur))"

definition memory_visit :: "nat \<Rightarrow> addr \<times> choice list \<Rightarrow> memory \<Rightarrow> memory" where
  "memory_visit n = (\<lambda>(r, chs) (L, cur). fold (memory_choose n r) chs (L, L r))"

text \<open>The implementation: a window is activated or a desktop becomes current, then the user chooses layouts.\<close>

definition visit_ctx :: "layout_policy \<Rightarrow> kl_ctx \<Rightarrow> addr \<Rightarrow> kl_ctx" where
  "visit_ctx p c r = (if p = WindowPolicy then c\<lparr>kc_active := Some r\<rparr> else c\<lparr>kc_desktop := Some r\<rparr>)"

definition arrive :: "kl_ctx \<Rightarrow> addr \<Rightarrow> keyboard \<Rightarrow> keyboard" where
  "arrive c r s = currentDesktopChanged c (clientActivated c (Some r) s)"

definition visit :: "layout_policy \<Rightarrow> kl_ctx \<Rightarrow> addr \<times> choice list \<Rightarrow> keyboard \<Rightarrow> keyboard" where
  "visit p c = (\<lambda>(r, chs) s. let c1 = visit_ctx p c r in fold (make_choice c1) chs (arrive c1 r s))"

definition memory_of :: "keyboard \<Rightarrow> memory" where
  "memory_of s = (getLayout (kl_layouts s), kl_currentLayout s)"

definition layouts_valid :: "keyboard \<Rightarrow> bool" where
  "layouts_valid s \<longleftrightarrow> (\<forall>r. getLayout (kl_layouts s) r < kl_numberOfLayouts s)"

context reference_policy
begin

lemma choices_refine:
  assumes "synced r s" "ref c = Some r" "layouts_valid s"
    and s'_def: "s' = fold (make_choice c) chs s"
  shows "memory_of s' = fold (memory_choose (kl_numberOfLayouts s) r) chs (memory_of s)"
    "layouts_valid s'" "kl_numberOfLayouts s' = kl_numberOfLayouts s" "kl_policy s' = pol"
  using assms(1,3) unfolding s'_def
proof (induction chs arbitrary: s)
  case Nil
  case 1 then show ?case by simp
  case 2 then show ?case by simp
  case 3 then show ?case by simp
  case 4 then show ?case by (simp add: synced_def)
next
  case (Cons ch chs)
  have less: "kl_currentLayout s < kl_numberOfLayouts s" if "synced r s" "layouts_valid s" for s
    using that by (simp add: synced_def layouts_valid_def) metis
  have step: "synced r (make_choice c ch s)" "layouts_valid (make_choice c ch s)"
    "kl_numberOfLayouts (make_choice c ch s) = kl_numberOfLayouts s"
    "memory_of (make_choice c ch s) = memory_choose (kl_numberOfLayouts s) r ch (memory_of s)"
    if s: "synced r s" "layouts_valid s" for s
    using make_choice_synced [OF s(1) assms(2) less [OF s] refl] chosen_less [OF less [OF s]] s(2)
    by (simp_all add: layouts_valid_def memory_of_def memory_choose_def)
  case 1 then show ?case using Cons.IH(1) step by simp
  case 2 then show ?case using Cons.IH(2) step by simp
  case 3 then show ?case using Cons.IH(3) step by simp
  case 4 then show ?case using Cons.IH(4) step by simp
qed

lemma visit_refines:
  assumes "kl_policy s = pol" "layouts_valid s" "ref c = Some r"
    and "arrive c r s = setLayout c (getLayout (kl_layouts s) r) s"
    and s'_def: "s' = fold (make_choice c) chs (arrive c r s)"
  shows "memory_of s' = memory_visit (kl_numberOfLayouts s) (r, chs) (memory_of s)"
    "layouts_valid s'" "kl_numberOfLayouts s' = kl_numberOfLayouts s" "kl_policy s' = pol"
proof -
  let ?a = "setLayout c (getLayout (kl_layouts s) r) s"
  have "getLayout (kl_layouts s) r < kl_numberOfLayouts s"
    using assms(2) by (simp add: layouts_valid_def)
  note a = arrive_synced [OF assms(1,3) this]
  have v: "layouts_valid ?a"
    using assms(2) a(2,3) by (simp add: layouts_valid_def)
  have m: "memory_of ?a = (getLayout (kl_layouts s), getLayout (kl_layouts s) r)"
    using a(1,2) by (simp add: memory_of_def synced_def)
  show "memory_of s' = memory_visit (kl_numberOfLayouts s) (r, chs) (memory_of s)"
    "layouts_valid s'" "kl_numberOfLayouts s' = kl_numberOfLayouts s" "kl_policy s' = pol"
    unfolding s'_def assms(4) using choices_refine [OF a(1) assms(3) v refl] m a(3)
    by (simp_all add: memory_visit_def memory_of_def)
qed

end

section \<open>Refinement\<close>

lemma arrive_window:
  "kl_policy s = WindowPolicy \<Longrightarrow> kc_active c = Some r \<Longrightarrow> \<not> kc_special c r \<Longrightarrow>
   ordinary_active c = Some r \<and> arrive c r s = setLayout c (getLayout (kl_layouts s) r) s"
  by (auto simp: arrive_def currentDesktopChanged_def clientActivated_def window_clientActivated_def ordinary_active_def
      setLayout_def xkb_switchToLayout_def Let_def policy_layoutChanged_def window_layoutChanged_def)

lemma arrive_desktop:
  "kl_policy s = VirtualDesktopPolicy \<Longrightarrow> kc_desktop c = Some r \<Longrightarrow>
   arrive c r s = setLayout c (getLayout (kl_layouts s) r) s"
  by (simp add: arrive_def currentDesktopChanged_def clientActivated_def desktopChanged_def)

lemma visit_step:
  assumes "p = WindowPolicy \<and> \<not> kc_special c (fst v) \<or> p = VirtualDesktopPolicy" "kl_policy s = p" "layouts_valid s"
  shows "memory_of (visit p c v s) = memory_visit (kl_numberOfLayouts s) v (memory_of s) \<and> layouts_valid (visit p c v s) \<and>
    kl_numberOfLayouts (visit p c v s) = kl_numberOfLayouts s \<and> kl_policy (visit p c v s) = p"
proof -
  obtain r chs where v: "v = (r, chs)"
    by fastforce
  show ?thesis
  proof (cases "p = WindowPolicy")
    case True
    let ?c = "c\<lparr>kc_active := Some r\<rparr>"
    have "ordinary_active ?c = Some r \<and> arrive ?c r s = setLayout ?c (getLayout (kl_layouts s) r) s"
      using assms True by (intro arrive_window) (simp_all add: v)
    then show ?thesis
      using windows.visit_refines [OF _ _ _ _ refl, of s ?c r chs] assms True by (simp add: v visit_def visit_ctx_def Let_def)
  next
    case False
    let ?c = "c\<lparr>kc_desktop := Some r\<rparr>"
    have "arrive ?c r s = setLayout ?c (getLayout (kl_layouts s) r) s"
      using assms False by (intro arrive_desktop) simp_all
    then show ?thesis
      using desktops.visit_refines [OF _ _ _ _ refl, of s ?c r chs] assms False by (simp add: v visit_def visit_ctx_def Let_def)
  qed
qed

text \<open>
  C18. The policies for windows and for virtual desktops refine a memory with one layout per window or desktop: after any
  sequence of visits, during which the user chooses layouts directly, forwards or backwards, the current layout and the
  remembered ones are those of the specification. In particular a window or desktop that is visited again has the layout
  that was chosen last in it, and the first layout of the keymap when none was.
\<close>

theorem layouts_follow_windows_and_desktops:
  assumes "p = WindowPolicy \<and> list_all (\<lambda>v. \<not> kc_special c (fst v)) vs \<or> p = VirtualDesktopPolicy"
    and "kl_policy s = p" "layouts_valid s"
  shows "memory_of (fold (visit p c) vs s) = fold (memory_visit (kl_numberOfLayouts s)) vs (memory_of s)"
  using assms
proof (induction vs arbitrary: s)
  case (Cons v vs)
  have "p = WindowPolicy \<and> \<not> kc_special c (fst v) \<or> p = VirtualDesktopPolicy"
    using Cons.prems(1) by auto
  note step = visit_step [OF this Cons.prems(2,3)]
  have "memory_of (fold (visit p c) vs (visit p c v s)) =
      fold (memory_visit (kl_numberOfLayouts (visit p c v s))) vs (memory_of (visit p c v s))"
    using Cons.prems(1) step by (intro Cons.IH) auto
  then show ?case
    using step by simp
qed simp

text \<open>Three layouts; the third is chosen in one window, the next one in another, and the first window is activated again.\<close>

definition demo_keyboard :: keyboard where
  "demo_keyboard = \<lparr>kl_numberOfLayouts = 3, kl_currentLayout = 0, kl_layout = 0, kl_policy = WindowPolicy, kl_layouts = [],
     kl_layoutsRestored = Map.empty, kl_config = []\<rparr>"

definition demo_kl_ctx :: kl_ctx where
  "demo_kl_ctx = \<lparr>kc_active = None, kc_special = (\<lambda>_. False), kc_file = (\<lambda>_. ''''), kc_same = (=), kc_desktop = None,
     kc_desktops = [], kc_number = (\<lambda>_. ''1'')\<rparr>"

theorem layouts_follow_windows_and_desktops_witness:
  "kl_currentLayout (fold (visit WindowPolicy demo_kl_ctx)
     [(1, [ChooseLayout 2]), (2, [ChooseNext]), (1, [])] demo_keyboard) = 2"
proof -
  have "memory_of (fold (visit WindowPolicy demo_kl_ctx) [(1, [ChooseLayout 2]), (2, [ChooseNext]), (1, [])] demo_keyboard) =
      fold (memory_visit (kl_numberOfLayouts demo_keyboard)) [(1, [ChooseLayout 2]), (2, [ChooseNext]), (1, [])] (memory_of demo_keyboard)"
    by (rule layouts_follow_windows_and_desktops)
      (simp_all add: demo_keyboard_def demo_kl_ctx_def layouts_valid_def getLayout_def)
  then show ?thesis
    by (simp add: memory_of_def memory_visit_def memory_choose_def demo_keyboard_def getLayout_def)
qed

section \<open>Windows of an application\<close>

text \<open>Under the policy for applications the windows of one application have the same layout.\<close>

definition app_uniform :: "kl_ctx \<Rightarrow> layouts \<Rightarrow> bool" where
  "app_uniform c m \<longleftrightarrow> distinct (map fst m) \<and>
     (\<forall>a i b j. (a, i) \<in> set m \<longrightarrow> (b, j) \<in> set m \<longrightarrow> kc_same c a b \<longrightarrow> i = j)"

definition same_equiv :: "kl_ctx \<Rightarrow> bool" where
  "same_equiv c \<longleftrightarrow> (\<forall>a. kc_same c a a) \<and> (\<forall>a b. kc_same c a b \<longrightarrow> kc_same c b a) \<and>
     (\<forall>a b d. kc_same c a b \<longrightarrow> kc_same c b d \<longrightarrow> kc_same c a d)"

lemma keys_set_layout: "map fst (set_layout r i m) = map fst m"
  by (induction r i m rule: set_layout.induct) auto

lemma keys_remember: "distinct (map fst m) \<Longrightarrow> distinct (map fst (remember_layout r i m))"
  by (auto simp: remember_layout_def keys_set_layout map_of_eq_None_iff)

lemma set_layout_cases: "(k, v) \<in> set (set_layout r i m) \<Longrightarrow> k = r \<or> (k, v) \<in> set m"
  by (induction r i m rule: set_layout.induct) (auto split: if_splits)

lemma remember_cases: "(k, v) \<in> set (remember_layout r i m) \<Longrightarrow> k = r \<or> (k, v) \<in> set m"
  using set_layout_cases by (auto simp: remember_layout_def split: if_splits)

lemma app_layoutChanged_uniform:
  assumes "same_equiv c" "app_uniform c (kl_layouts s)"
  shows "app_uniform c (kl_layouts (app_layoutChanged c i s))"
proof (cases "ordinary_active c")
  case (Some w)
  let ?m = "remember_layout w i (kl_layouts s)"
  let ?n = "map (\<lambda>(k, v). (k, if kc_same c k w then i else v)) ?m"
  have "map fst ?n = map fst ?m"
    by auto
  then have d: "distinct (map fst ?n)"
    using assms(2) keys_remember unfolding app_uniform_def by metis
  have "u = v" if uv: "(a, u) \<in> set ?n" "(b, v) \<in> set ?n" "kc_same c a b" for a u b v
  proof (cases "kc_same c a w")
    case True
    then have "kc_same c b w"
      using assms(1) uv(3) unfolding same_equiv_def by blast
    then show ?thesis
      using True uv(1,2) by auto
  next
    case False
    then have "\<not> kc_same c b w" and "a \<noteq> w" "b \<noteq> w"
      using assms(1) uv(3) unfolding same_equiv_def by blast+
    then have "(a, u) \<in> set (kl_layouts s)" "(b, v) \<in> set (kl_layouts s)"
      using False uv(1,2) by (auto dest: remember_cases)
    then show ?thesis
      using assms(2) uv(3) unfolding app_uniform_def by blast
  qed
  then show ?thesis
    using Some assms(2) d by (auto simp: app_layoutChanged_def app_uniform_def)
qed (use assms in \<open>simp add: app_layoutChanged_def\<close>)

lemma setLayout_uniform:
  assumes "same_equiv c" "app_uniform c (kl_layouts s)" "kl_policy s = ApplicationPolicy"
  shows "app_uniform c (kl_layouts (setLayout c i s))"
  using assms app_layoutChanged_uniform [OF assms(1)]
  by (simp add: setLayout_def xkb_switchToLayout_def policy_layoutChanged_def Let_def)

lemma clientActivated_uniform:
  assumes "same_equiv c" "app_uniform c (kl_layouts s)" "kl_policy s = ApplicationPolicy"
  shows "app_uniform c (kl_layouts (clientActivated c w s))"
proof -
  have r: "app_uniform c (kl_layouts (setLayout c i (s\<lparr>kl_layoutsRestored := x\<rparr>)))" for i x
    using assms by (intro setLayout_uniform) simp_all
  note u = setLayout_uniform [OF assms] app_layoutChanged_uniform [OF assms(1)] r
  show ?thesis
    using assms u by (auto simp: clientActivated_def app_clientActivated_def Let_def split: option.splits)
qed

section \<open>Corner cases\<close>

text \<open>
  A hotkey of the keymap with modifiers changes the layout without the policy being told. When another window is activated
  before the next plain key, the layout is lost: back in the first window the old layout is current.
\<close>

lemma hotkey_layout_lost:
  assumes "kl_policy s = WindowPolicy" "kl_layouts s = []" "kl_currentLayout s = 0" "1 < kl_numberOfLayouts s" "\<And>x. \<not> kc_special c x"
  shows "kl_currentLayout (arrive (visit_ctx WindowPolicy c 1) 1 (arrive (visit_ctx WindowPolicy c 2) 2
    (processKey (visit_ctx WindowPolicy c 1) 1 True False s))) = 0"
  using assms
  by (simp add: processKey_def arrive_def visit_ctx_def clientActivated_def window_clientActivated_def currentDesktopChanged_def
      setLayout_def xkb_switchToLayout_def policy_layoutChanged_def window_layoutChanged_def ordinary_active_def getLayout_def
      remember_layout_def Let_def)

text \<open>
  A layout of a desktop that was saved with more layouts than there are now is restored as it is: changing to that desktop
  then leaves the layout that was chosen on the previous desktop.
\<close>

definition restoring_keyboard :: keyboard where
  "restoring_keyboard = demo_keyboard\<lparr>kl_numberOfLayouts := 2, kl_policy := VirtualDesktopPolicy,
     kl_config := [(''LayoutDefaultDesktop_2'', 5)]\<rparr>"

definition restoring_ctx :: "addr \<Rightarrow> kl_ctx" where
  "restoring_ctx d = demo_kl_ctx\<lparr>kc_desktops := [1, 2], kc_number := (\<lambda>n. if n = 1 then ''1'' else ''2''), kc_desktop := Some d\<rparr>"

lemma restored_layout_out_of_range:
  "kl_currentLayout (currentDesktopChanged (restoring_ctx 2)
     (switchToLayout (restoring_ctx 1) 1 (loadSession (restoring_ctx 1) restoring_keyboard))) = 1"
  by code_simp

end
