(* ===== verification/Spec2Isabelle.thy ===== *)
theory Spec2Isabelle
  imports VirtualDesktops_Refinement Workspace_Properties Placement Tiling_Properties Packing Window_Desktops_Properties
    Activation_Properties Wayland_Placement Desktop_Chains Gestures Modifier_Shortcuts Rule_Book_Properties Screen_Edges_Events
    Move_Findings Night_Color_Findings Keyboard_Layouts_Properties
begin

text \<open>
  KWinFT is a window manager and Wayland compositor. This development models the decisions it takes about windows: on
  which virtual desktop, in which layer and order, at which position and size, which window gets the focus, what the rules of
  the user demand, and how some input is recognised. The windows are objects that the components below share; each
  component keeps its own state about them.

  \<^bold>\<open>How the code is modelled.\<close> A class is a record, an enumeration a datatype, a method a function from the old state to the
  new one. Pointers are natural numbers (\<open>addr\<close>) into a store that is part of the state, so that sharing and deleting are
  visible. A method that can fail an assertion, use a null or deleted pointer, read beyond a container, divide by zero or
  loop for ever returns an \<open>outcome\<close> (\<open>Returns\<close>, \<open>Faults\<close> or \<open>Diverges\<close>, theory \<open>KWin_Prelude\<close>). Signals and calls
  to other processes are appended to a log. Coordinates are unbounded integers: the sources compute with \<open>int\<close>, and the
  development does not look at screens of more than two thousand million pixels. The numbers of desktops and the stored configuration
  keep the widths of the code where it matters.

  \<^bold>\<open>Foundations.\<close> \<open>KWin_Prelude\<close> holds outcomes, logs and lemmas on lists; \<open>Geometry\<close> the points, sizes and rectangles of Qt with
  their inclusive edges.

  \<^bold>\<open>Virtual desktops\<close> (\<^verbatim>\<open>virtualdesktops.cpp\<close>). \<open>VirtualDesktops\<close> has the desktop objects, the grid and the manager with
  every operation, its configuration and the X11 root window as parameters. \<open>VirtualDesktops_Invariant\<close> proves that every operation
  returns and keeps the manager well formed, \<open>VirtualDesktops_Refinement\<close> that it implements an abstract list of desktops with a
  current position, \<open>VirtualDesktops_Navigation\<close> that the loop over the grid finds the neighbour (locales \<open>grid_line\<close>,
  \<open>forward_line\<close>, \<open>backward_line\<close>, interpreted for rows and columns), \<open>VirtualDesktops_Config\<close> and \<open>VirtualDesktops_Properties\<close> that loading
  undoes saving and what creating, removing and counting desktops do.

  \<^bold>\<open>Windows\<close> (\<^verbatim>\<open>toplevel.cpp\<close>, \<^verbatim>\<open>win/net.h\<close>, \<^verbatim>\<open>win/transient.cpp\<close>). \<open>Window\<close> has the record of a window with its predicates and its
  layer, \<open>Transients\<close> the relation between windows and their leads; \<open>Transients_Properties\<close> shows that it stays symmetric, that following
  the leads ends and computes the closure, and where the destructor runs past the end of a list.

  \<^bold>\<open>Focus chains\<close> (\<^verbatim>\<open>focuschain.cpp\<close>): \<open>FocusChain\<close> and \<open>FocusChain_Properties\<close>. All edits of a chain share the contract of the
  locale \<open>chain_edit\<close>.

  \<^bold>\<open>Stacking\<close> (\<^verbatim>\<open>layers.cpp\<close>, \<^verbatim>\<open>win/stacking.h\<close>). \<open>Workspace\<close> is the shared state, \<open>Stacking\<close> has the unconstrained and the constrained order,
  raising, lowering and restacking. \<open>Stacking_Order\<close> compares the constrained order with a forest in pre-order, \<open>Stacking_Properties\<close>
  and \<open>Workspace_Properties\<close> prove that requests permute the windows, that layers are respected and that transients are above their leads.
  \<open>Window_State\<close> has keep above, keep below, minimizing and the cached layers.

  \<^bold>\<open>Desktops of windows\<close> (\<^verbatim>\<open>win/screen.h\<close>): \<open>Window_Desktops\<close> and \<open>Window_Desktops_Properties\<close>, moving a window with its family.

  \<^bold>\<open>Activation\<close> (\<^verbatim>\<open>activation.cpp\<close>, \<^verbatim>\<open>win/space.h\<close>). \<open>Activation\<close> has the two mutually recursive setters of the active window, tool windows and the
  choice of the next window; \<open>Activation_Properties\<close> shows that the flag of the windows and the pointer of the workspace
  agree, and that the window that gets the focus next is visible on the desktop. Focus stealing prevention is in
  \<open>Workspace\<close> and \<open>Workspace_Properties\<close>.

  \<^bold>\<open>Geometry of windows\<close> (\<^verbatim>\<open>screens.cpp\<close>, \<^verbatim>\<open>workspace.cpp\<close>, \<^verbatim>\<open>win/geo.h\<close>, \<^verbatim>\<open>win/move.h\<close>, \<^verbatim>\<open>win/maximize.h\<close>, \<^verbatim>\<open>win/fullscreen.h\<close>, \<^verbatim>\<open>placement.cpp\<close>). \<open>Screens\<close>,
  \<open>Client_Area\<close> (the areas that struts leave), \<open>Window_Geometry\<close> (frames, borders, blocked updates, size constraints), \<open>Maximize\<close>, \<open>Tiling\<close>
  (quick tiles and full screen), \<open>Workspace_Position\<close> (windows after the workspace changed), \<open>Placement\<close> and \<open>Smart_Placement\<close> (new windows),
  \<open>Packing\<close> (up to the next edge, locale \<open>scan_order\<close>). The properties are round trips of maximizing, tiling and full screen, bounds of the
  resulting frames, and that the smart placement finds a free position when its scan meets one.

  \<^bold>\<open>Wayland surfaces\<close> (\<^verbatim>\<open>win/wayland/xdg_shell.h\<close>, \<^verbatim>\<open>win/wayland/layer_shell.h\<close>): \<open>Wayland_Placement\<close>, the geometry of popups, whose two axes share the
  locale \<open>popup_axis\<close>, and of layer surfaces.

  \<^bold>\<open>Rules\<close> (\<^verbatim>\<open>rules/\<close>). \<open>Rules\<close> has one rule and the checks of a window over its list of rules, \<open>Rule_Book\<close> the configuration
  and the book with its objects. \<open>Rules_Properties\<close> proves once, in the locales \<open>set_property\<close> and \<open>force_property\<close>, that the first rule
  using a setting decides, and interprets them for all settings; \<open>Rule_Book_Properties\<close> that no operation reads a deleted rule.

  \<^bold>\<open>Input\<close> (\<^verbatim>\<open>gestures.cpp\<close>, \<^verbatim>\<open>modifier_only_shortcuts.cpp\<close>, \<^verbatim>\<open>tabbox/desktopchain.cpp\<close>): \<open>Gestures\<close>, \<open>Modifier_Shortcuts\<close>, \<open>Desktop_Chains\<close>, state machines over
  sequences of events.

  \<^bold>\<open>Screen edges\<close> (\<^verbatim>\<open>screenedge.cpp\<close>): \<open>Screen_Edge\<close> has one edge with its reservations, its activation by the pointer and by touch,
  \<open>Screen_Edges\<close> the edges of all screens, their creation and their reservations by scripts, windows and settings.
  \<open>Screen_Edges_Properties\<close> states in the locale \<open>edge_op\<close> what every operation of an edge keeps, interprets it for the operations,
  and shows that an edge is reserved exactly as often as there are reasons for it; \<open>Screen_Edges_Events\<close> that the pointer triggers an edge only after the configured
  delays, and how the approach of the pointer is measured. The input-only windows that X11 needs at the edges are left out.

  \<^bold>\<open>Moving and resizing\<close> (\<^verbatim>\<open>workspace.cpp\<close>, \<^verbatim>\<open>win/move.h\<close>, \<^verbatim>\<open>win/input.h\<close>, \<^verbatim>\<open>input.cpp\<close>). \<open>Snapping\<close> has \<open>adjustClientPosition\<close> and \<open>adjustClientSize\<close>, \<open>Screen_Move\<close> the
  geometry of a window that is sent to another screen, \<open>Move_Resize\<close> the operation itself with its record \<open>move_state\<close>, \<open>Move_Events\<close> the keys, mouse
  commands, presses on the decoration, requests of clients and the input filter. \<open>Snapping_Properties\<close> describes the result of snapping by lines and stops,
  \<open>Move_Resize_Properties\<close> shows that the loops that keep the titlebar visible end and that a resize keeps the opposite
  corner; \<open>Move_Invariant\<close> states the contract of an event handler in the locale \<open>move_handler\<close>, interprets it for every handler and proves the invariant of the
  operation and that cancelling undoes a move. \<open>Move_Findings\<close> has the situations in which an assertion fails. How Qt cuts a
  region into rectangles and how it rounds are parameters.

  \<^bold>\<open>Night color\<close> (\<^verbatim>\<open>colorcorrection/\<close>). \<open>Floating_Point\<close> has the numbers of the types \<open>double\<close> and \<open>float\<close> with their rounding, and the locale \<open>rounding\<close> of
  what the proofs use of it; \<open>Blackbody\<close> the table of white points; \<open>Night_Color\<close> the manager with its configuration, transitions, timers and gamma ramps,
  \<open>Night_Color_Events\<close> the inhibitors of the D-Bus interface and the events. \<open>Night_Color_Ramps\<close> bounds temperatures and ramps, \<open>Night_Color_Transitions\<close> shows
  that the current time is between the transitions, \<open>Night_Color_Invariant\<close>, \<open>Night_Color_Properties\<close> and \<open>Night_Color_System\<close> prove the invariant of the manager
  over all sequences of events, \<open>Night_Color_Adjust\<close> that quick adjustments end, \<open>Night_Color_Restart\<close> that configurations survive a restart.
  \<open>Night_Color_Findings\<close> has corner cases. The position of the sun is a parameter of the model, local time has a fixed offset to UTC.

  \<^bold>\<open>Keyboard layouts\<close> (\<^verbatim>\<open>keyboard_layout.cpp\<close>, \<^verbatim>\<open>keyboard_layout_switching.cpp\<close>): \<open>Keyboard_Layouts\<close> has the policies, the changes of the user and the
  sessions. \<open>Keyboard_Layouts_Properties\<close> states what the policies for windows and desktops share in the locale \<open>reference_policy\<close> and shows that both refine a memory
  of layouts.

  \<^bold>\<open>Bounds and fuel.\<close> Loops that may not end are \<open>partial_function (option)\<close>, and the properties prove that they return. The depth
  \<open>desktops_fuel\<close> of \<open>set_desktops\<close> is quadratic in the number of windows: a call that does anything takes a window off all
  desktops, or brings one closer to the wanted desktops (theorem \<open>set_desktops_ends\<close>, where no rule of a window interferes). The depth five
  of the two setters of the active window is enough, because each of them returns at once in the third nested call
  (theorem \<open>active_flag_and_pointer_agree\<close>).

  \<^bold>\<open>Code outside the repository\<close> is a parameter: the configuration files of KConfig (with the laws \<open>kconfig_laws\<close>, instantiated by an
  association list), the X11 root window, regular expressions, the location of color schemes, the decisions of window rules
  where a component only asks them. Every hypothesis about such a parameter has a witness with a concrete function.

  \<^bold>\<open>Not modelled.\<close> Rendering and effects (what they do is decided by graphics libraries), platform plugins, the protocols of X11 and Wayland, Xwayland,
  scripting, decorations, the TabBox besides its chains, menus, settings dialogs and start-up code. Their interfaces to the modelled
  components are the parameters and logs above.

  \<^bold>\<open>Plan.\<close> Not reached are requests for the focus and the list of the TabBox.
\<close>

end
